(* ===== verification/Machine.thy ===== *)
theory Machine
  imports Main "HOL-Library.Word"
begin

text \<open>
  Prelude of the development: the machine words of the x86-64 target, the
  byte-addressed memory that the kernel's C code reads and writes through
  pointers, and the generic lemmas on both that the components share.

  \<^item> A C object of type \<open>uint8_t\<close>, \<open>uint16_t\<close>, \<open>uint32_t\<close>, \<open>uint64_t\<close> is a word of
    that width; \<open>size_t\<close>, \<open>uintptr_t\<close>, \<open>UINTN\<close> and every pointer are 64-bit words.
  \<^item> Memory is a total map from addresses to bytes. A region is a start address
    and a byte count; membership is stated through the modular offset
    \<open>unat (a - p)\<close>, so that the lemmas need no case split on wrap-around.
\<close>

unbundle bit_operations_syntax

type_synonym u8 = "8 word"
type_synonym u16 = "16 word"
type_synonym u32 = "32 word"
type_synonym u64 = "64 word"

type_synonym mem = "u64 \<Rightarrow> u8"

named_theorems region_simps \<open>effects of stores and copies on memory regions\<close>

subsection \<open>Signed 32-bit words\<close>

lemma sint_small: "unat (w :: u32) < 2147483648 \<Longrightarrow> sint w = int (unat w)"
proof -
  assume "unat w < 2147483648"
  moreover have "uint w = int (unat w)" by simp
  ultimately have "uint w < 2147483648" by linarith
  moreover have "0 \<le> uint w" by simp
  moreover have "sint w = signed_take_bit 31 (uint w)" by (simp add: sint_uint)
  ultimately have "sint w = uint w" by (simp add: signed_take_bit_int_eq_self_iff, linarith)
  thus ?thesis by simp
qed

lemma word_sless_small:
  assumes "unat (a :: u32) < 2147483648" "unat b < 2147483648"
  shows "a <s b \<longleftrightarrow> unat a < unat b"
  using assms by (simp only: word_sless_alt sint_small of_nat_less_iff)

lemma scast_small:
  assumes "unat (w :: u32) < 2147483648"
  shows "(scast w :: u64) = of_nat (unat w)"
proof -
  have "(scast w :: u64) = of_int (sint w)" by (simp only: of_int_sint)
  thus ?thesis by (simp add: sint_small [OF assms])
qed

subsection \<open>Folds\<close>

text \<open>A projection of the state that every step respects commutes with the fold.\<close>

lemma fold_project:
  "(\<And>x s. g (f x s) = h x (g s)) \<Longrightarrow> g (fold f xs s) = fold h xs (g s)"
  by (induction xs arbitrary: s) auto

subsection \<open>Arithmetic on 64-bit words\<close>

text \<open>The bound of a 64-bit word, in the form the arithmetic procedures want it.\<close>

lemma unat_u64_less: "unat (x :: u64) < 18446744073709551616"
  using unsigned_less [of x] by simp

lemma unat_u64_of_nat: "n < 18446744073709551616 \<Longrightarrow> unat (of_nat n :: u64) = n"
  by (simp add: unat_of_nat take_bit_nat_eq_self)

lemma unat_u64_plus:
  "unat (x :: u64) + unat y < 18446744073709551616 \<Longrightarrow> unat (x + y) = unat x + unat y"
  by (simp add: unat_word_ariths)

lemma unat_u64_plus_of_nat:
  "unat (x :: u64) + n < 18446744073709551616 \<Longrightarrow> unat (x + of_nat n) = unat x + n"
  by (simp add: unat_u64_plus unat_u64_of_nat)

lemma unat_u64_mult:
  "unat (x :: u64) * unat y < 18446744073709551616 \<Longrightarrow> unat (x * y) = unat x * unat y"
  by (simp add: unat_word_ariths)

lemma unat_u64_minus:
  "y \<le> x \<Longrightarrow> unat ((x :: u64) - y) = unat x - unat y"
  by (simp add: unat_sub_if' word_le_nat_alt)

lemma unat_u64_minus_wrap:
  "unat x < unat y \<Longrightarrow> unat ((x :: u64) - y) = 18446744073709551616 + unat x - unat y"
  by (simp add: unat_sub_if')

lemma unat_u64_div: "unat ((x :: u64) div y) = unat x div unat y"
  by (simp add: unat_div)

lemma unat_u64_mod: "unat ((x :: u64) mod y) = unat x mod unat y"
  by (simp add: unat_mod)

lemma of_nat_unat_u64 [simp]: "(of_nat (unat x) :: u64) = x"
  by simp

lemma and_not_mask: "(x :: u64) AND NOT (mask n) = x - take_bit n x"
proof -
  have "x = (x AND NOT (mask n)) OR (x AND mask n)" by (rule bit_word_eqI) (auto simp: bit_simps)
  also have "\<dots> = (x AND NOT (mask n)) + (x AND mask n)"
    by (rule disjunctive_add [symmetric]) (auto simp: bit_simps)
  finally show ?thesis by (simp add: take_bit_eq_mask eq_diff_eq)
qed

subsection \<open>Offsets inside a region\<close>

lemma unat_minus_of_nat:
  assumes "n < 18446744073709551616"
  shows "unat ((x :: u64) - of_nat n) =
    (if n \<le> unat x then unat x - n else 18446744073709551616 + unat x - n)"
  using assms by (simp add: unat_sub_if' unat_u64_of_nat) linarith

lemma unat_minus_of_nat_less_iff:
  assumes "n + k < 18446744073709551616"
  shows "unat ((x :: u64) - of_nat n) < k \<longleftrightarrow> n \<le> unat x \<and> unat x < n + k"
  using assms unat_u64_less [of x] by (auto simp: unat_minus_of_nat)

lemma offset_split_iff:
  assumes "n + k < 18446744073709551616"
  shows "unat ((a :: u64) - (p + of_nat n)) < k \<longleftrightarrow> n \<le> unat (a - p) \<and> unat (a - p) < n + k"
  using unat_minus_of_nat_less_iff [OF assms, of "a - p"] by (simp add: diff_diff_eq)

subsection \<open>Memory: bytes, multi-byte loads and stores\<close>

text \<open>
  \<open>load_bytes m p n\<close> are the \<open>n\<close> bytes a load of an \<open>n\<close>-byte object at \<open>p\<close> reads;
  \<open>store_bytes m p bs\<close> writes the bytes \<open>bs\<close> from \<open>p\<close> on. Loads happen before the
  store in every assignment \<open>*d = *s\<close> of the source.
\<close>

definition load_bytes :: "mem \<Rightarrow> u64 \<Rightarrow> nat \<Rightarrow> u8 list" where
  "load_bytes m p n = map (\<lambda>i. m (p + of_nat i)) [0..<n]"

fun store_bytes :: "mem \<Rightarrow> u64 \<Rightarrow> u8 list \<Rightarrow> mem" where
  "store_bytes m p [] = m"
| "store_bytes m p (b # bs) = store_bytes (m(p := b)) (p + 1) bs"

text \<open>The little-endian bytes of a 64-bit object.\<close>

definition u64_bytes :: "u64 \<Rightarrow> u8 list" where
  "u64_bytes w = map (\<lambda>i. ucast (drop_bit (8 * i) w)) [0..<8]"

lemma length_load_bytes [simp]: "length (load_bytes m p n) = n"
  by (simp add: load_bytes_def)

lemma nth_load_bytes [simp]: "i < n \<Longrightarrow> load_bytes m p n ! i = m (p + of_nat i)"
  by (simp add: load_bytes_def)

lemma load_bytes_append:
  "load_bytes m p (n + k) = load_bytes m p n @ load_bytes m (p + of_nat n) k"
  by (rule nth_equalityI) (auto simp: nth_append add.assoc simp flip: of_nat_add)

lemma length_u64_bytes [simp]: "length (u64_bytes w) = 8"
  by (simp add: u64_bytes_def)

lemma store_bytes_apply [region_simps]:
  assumes "length bs < 18446744073709551616"
  shows "store_bytes m p bs a =
    (if unat (a - p) < length bs then bs ! unat (a - p) else m a)"
  using assms
proof (induction bs arbitrary: m p)
  case Nil
  then show ?case by simp
next
  case (Cons b bs)
  have eq: "a - (p + 1) = (a - p) - of_nat 1" by simp
  show ?case
  proof (cases "a = p")
    case True
    have "unat (a - (p + 1)) = 18446744073709551615"
      using True unat_minus_of_nat [of 1 "0 :: u64"] by simp
    with Cons True show ?thesis by simp
  next
    case False
    then have "unat (a - p) > 0"
      by (metis gr0I right_minus_eq unsigned_eq_0_iff)
    then have "unat (a - (p + 1)) = unat (a - p) - 1"
      unfolding eq by (subst unat_minus_of_nat) auto
    with Cons False \<open>unat (a - p) > 0\<close> show ?thesis
      by (auto simp: nth_Cons' )
  qed
qed

subsection \<open>Arrays\<close>

text \<open>An array that holds the list \<open>xs\<close> from index 0 on, and \<open>old\<close> behind it.\<close>

definition array_of :: "'a list \<Rightarrow> (u64 \<Rightarrow> 'a) \<Rightarrow> u64 \<Rightarrow> 'a" where
  "array_of xs old = (\<lambda>i. if unat i < length xs then xs ! unat i else old i)"

lemma array_of_Nil [simp]: "array_of [] old = old"
  by (simp add: array_of_def)

lemma array_of_snoc:
  "length xs < 18446744073709551616 \<Longrightarrow>
    (array_of xs old)(of_nat (length xs) := x) = array_of (xs @ [x]) old"
  by (auto simp: array_of_def fun_eq_iff unat_u64_of_nat nth_append less_Suc_eq)
    (metis of_nat_unat_u64)

subsection \<open>Filled and copied regions\<close>

text \<open>
  The two effects the string routines promise: \<open>fill m p n v\<close> holds \<open>v\<close> in the
  \<open>n\<close> bytes from \<open>p\<close> on, \<open>copy_region m d s n\<close> holds there what \<open>m\<close> had in the
  \<open>n\<close> bytes from \<open>s\<close> on; both leave every other address alone.
\<close>

definition fill :: "mem \<Rightarrow> u64 \<Rightarrow> nat \<Rightarrow> u8 \<Rightarrow> mem" where
  "fill m p n v = (\<lambda>a. if unat (a - p) < n then v else m a)"

definition copy_region :: "mem \<Rightarrow> u64 \<Rightarrow> u64 \<Rightarrow> nat \<Rightarrow> mem" where
  "copy_region m d s n = (\<lambda>a. if unat (a - d) < n then m (s + (a - d)) else m a)"

lemma fill_0 [simp]: "fill m p 0 v = m"
  by (simp add: fill_def)

lemma copy_region_0 [simp]: "copy_region m d s 0 = m"
  by (simp add: copy_region_def)

lemma copy_region_same [simp]: "copy_region m p p n = m"
  by (simp add: copy_region_def fun_eq_iff)

lemma store_replicate [region_simps]:
  "n < 18446744073709551616 \<Longrightarrow> store_bytes m p (replicate n v) = fill m p n v"
  by (simp add: fun_eq_iff fill_def store_bytes_apply)

lemma store_load [region_simps]:
  "n < 18446744073709551616 \<Longrightarrow> store_bytes m d (load_bytes m s n) = copy_region m d s n"
  by (simp add: fun_eq_iff copy_region_def store_bytes_apply)

lemma fill_append [region_simps]:
  assumes "n + k < 18446744073709551616"
  shows "fill (fill m p n v) (p + of_nat n) k v = fill m p (n + k) v"
proof
  fix a
  show "fill (fill m p n v) (p + of_nat n) k v a = fill m p (n + k) v a"
    using offset_split_iff [OF assms, of a p] by (auto simp: fill_def)
qed

text \<open>
  Copying a region in two forward steps is copying it at once when the destination
  does not start inside the source (as then no byte still to be read is overwritten).
\<close>

definition forward_safe :: "u64 \<Rightarrow> u64 \<Rightarrow> nat \<Rightarrow> bool" where
  "forward_safe d s n \<longleftrightarrow> d = s \<or> n \<le> unat (d - s)"

lemma forward_safe_mono: "forward_safe d s n \<Longrightarrow> k \<le> n \<Longrightarrow> forward_safe d s k"
  by (auto simp: forward_safe_def)

lemma forward_safe_shift [simp]: "forward_safe (d + x) (s + x) n = forward_safe d s n"
  by (simp add: forward_safe_def)

lemma copy_region_append [region_simps]:
  assumes len: "n + k < 18446744073709551616" and safe: "forward_safe d s (n + k)"
  shows "copy_region (copy_region m d s n) (d + of_nat n) (s + of_nat n) k
    = copy_region m d s (n + k)"
proof
  fix a
  have read: "\<not> unat (s + (a - d) - d) < n" if a: "n \<le> unat (a - d)" "unat (a - d) < n + k"
  proof (cases "d = s")
    case True
    with a show ?thesis by simp
  next
    case False
    with safe a have D: "unat (a - d) < unat (d - s)" by (simp add: forward_safe_def)
    have "s + (a - d) - d = (a - d) - (d - s)" by simp
    then have "unat (s + (a - d) - d) = 18446744073709551616 + unat (a - d) - unat (d - s)"
      by (simp only: unat_u64_minus_wrap [OF D])
    with a unat_u64_less [of "d - s"] show ?thesis by linarith
  qed
  have src: "s + of_nat n + (a - (d + of_nat n)) = s + (a - d)" by simp
  show "copy_region (copy_region m d s n) (d + of_nat n) (s + of_nat n) k a
    = copy_region m d s (n + k) a"
    using offset_split_iff [OF len, of a d] read
    unfolding copy_region_def src by auto
qed

text \<open>
  Copying backwards: the last byte first. No byte still to be read is overwritten as
  long as the destination does not lie within \<open>n\<close> bytes below the source.
\<close>

definition backward_safe :: "u64 \<Rightarrow> u64 \<Rightarrow> nat \<Rightarrow> bool" where
  "backward_safe d s n \<longleftrightarrow> unat (d - s) + n \<le> 18446744073709551616"

lemma copy_region_prepend [region_simps]:
  assumes len: "Suc k < 18446744073709551616" and safe: "backward_safe d s (Suc k)"
  shows "copy_region (copy_region m (d + of_nat k) (s + of_nat k) 1) d s k
    = copy_region m d s (Suc k)"
proof
  fix a
  have read: "\<not> unat (s + (a - d) - (d + of_nat k)) < 1" if a: "unat (a - d) < k"
  proof
    assume "unat (s + (a - d) - (d + of_nat k)) < 1"
    then have "s + (a - d) - (d + of_nat k) = 0" by (simp add: unsigned_eq_0_iff)
    then have "d - s = (a - d) - of_nat k" by (simp add: algebra_simps)
    moreover have "unat ((a - d) - of_nat k) = 18446744073709551616 + unat (a - d) - k"
      using unat_minus_of_nat [of k "a - d"] a len by simp
    ultimately have "unat (d - s) = 18446744073709551616 + unat (a - d) - k"
      by (simp only:)
    with safe a len show False by (simp add: backward_safe_def)
  qed
  have top: "unat (a - (d + of_nat k)) < 1 \<longleftrightarrow> unat (a - d) = k"
    using offset_split_iff [of k 1 a d] len by auto
  have src: "s + of_nat k + (a - (d + of_nat k)) = s + (a - d)" by simp
  show "copy_region (copy_region m (d + of_nat k) (s + of_nat k) 1) d s k a
    = copy_region m d s (Suc k) a"
    using read unfolding copy_region_def src top by auto
qed

end
