(* ===== verification/MemMap.thy ===== *)
theory MemMap
  imports Machine
begin

text \<open>
  The memory map types (include/DexprOS/Kernel/Memory/MemoryDef.h, InitialMemMap.h,
  PhysicalMemMap.h) and the iteration over the combined physical ranges of an initial
  memory map (src/src/Kernel/Memory/InitialMemMap.c), on which the physical memory map
  and the physical memory tree are built. An \<open>init_entry list\<close> is the array
  \<open>pEntries[0..numEntries)\<close>; a callback with its user data is a state transformer.
  The iteration is shown to be a fold over \<open>combined_ranges\<close>, and these to describe the
  same memory in maximal pieces.
\<close>

unbundle bit_operations_syntax

subsection \<open>Types\<close>

datatype mem_type =
    TYPE_UNUSABLE | TYPE_FIRMWARE_RESERVED | TYPE_UNACCEPTED | TYPE_USABLE
  | TYPE_USABLE_PERSISTENT | TYPE_ACPI_RECLAIM | TYPE_ACPI_NVS
  | TYPE_EFI_BOOT_SERVICES_CODE | TYPE_EFI_BOOT_SERVICES_DATA
  | TYPE_EFI_RUNTIME_SERVICES_CODE | TYPE_EFI_RUNTIME_SERVICES_DATA | TYPE_Max

datatype mem_usage =
    USAGE_NONE | USAGE_MAPPED | USAGE_KERNEL_CODE | USAGE_KERNEL_DATA
  | USAGE_BOOT_CODE | USAGE_BOOT_DATA | USAGE_INITIAL_MEMMAP

record init_entry =
  memoryType :: mem_type
  usage :: mem_usage
  flags :: u64
  physicalAddress :: u64
  virtualAddress :: u64
  numPhysicalPages :: u64

record phys_range =
  range_type :: mem_type
  range_address :: u64
  range_size :: u64
  range_flags :: u64

lemma phys_range_eta [simp]:
  "\<lparr>range_type = range_type r, range_address = range_address r, range_size = range_size r,
    range_flags = range_flags r\<rparr> = r"
  by simp

abbreviation PAGE_SIZE :: u64 where "PAGE_SIZE \<equiv> 4096"

text \<open>\<open>DEXPROS_ALIGN\<close>: round \<open>x\<close> up to a multiple of the power of two \<open>a\<close>.\<close>

definition ALIGN :: "u64 \<Rightarrow> u64 \<Rightarrow> u64" where
  "ALIGN x a = (x + a - 1) AND NOT (a - 1)"

lemma ALIGN_eq: "ALIGN x (2 ^ n) = (x + (2 ^ n - 1)) - take_bit n (x + (2 ^ n - 1))"
  unfolding and_not_mask [symmetric] by (simp add: ALIGN_def mask_eq_exp_minus_1 algebra_simps)

lemma ALIGN_16: "ALIGN (16 * x) 16 = 16 * x"
proof -
  have "push_bit 4 x + mask 4 = push_bit 4 x OR mask 4"
    by (rule disjunctive_add) (auto simp: bit_simps)
  moreover have "take_bit 4 (push_bit 4 x OR mask 4) = mask 4"
    by (rule bit_word_eqI) (auto simp: bit_simps)
  ultimately have "take_bit 4 (push_bit 4 x + mask 4) = mask 4" by simp
  then have "take_bit 4 (16 * x + 15) = 15"
    by (simp add: push_bit_eq_mult mask_eq_exp_minus_1 mult.commute)
  then show ?thesis using ALIGN_eq [of "16 * x" 4] by simp
qed

lemma unat_ALIGN_page:
  assumes "unat x + 4095 < 18446744073709551616"
  shows "unat (ALIGN x 4096) = (unat x + 4095) div 4096 * 4096"
proof -
  have sum: "unat (x + 4095) = unat x + 4095" using assms by (subst unat_u64_plus) simp_all
  have low: "unat (take_bit 12 (x + 4095)) = (unat x + 4095) mod 4096"
    by (simp add: take_bit_eq_mod unat_mod sum)
  then have "take_bit 12 (x + 4095) \<le> x + 4095" by (simp add: word_le_nat_alt sum)
  then show ?thesis
    using ALIGN_eq [of x 12] by (simp add: unat_u64_minus sum low minus_mod_eq_div_mult)
qed
subsection \<open>Iteration over combined physical ranges\<close>

text \<open>
  The inner \<open>while\<close> of the iteration: as long as the next entry has the same type and
  flags and starts where the range ends, take it in. Returned are the page count and
  the entries left.
\<close>

fun absorb :: "mem_type \<Rightarrow> u64 \<Rightarrow> u64 \<Rightarrow> u64 \<Rightarrow> init_entry list \<Rightarrow> u64 \<times> init_entry list" where
  "absorb t fl rangeEnd n [] = (n, [])"
| "absorb t fl rangeEnd n (e # es) =
     (if memoryType e = t \<and> flags e = fl \<and> physicalAddress e = rangeEnd
      then absorb t fl (rangeEnd + numPhysicalPages e * PAGE_SIZE) (n + numPhysicalPages e) es
      else (n, e # es))"

lemma absorb_length: "length (snd (absorb t fl r n es)) \<le> length es"
  by (induction t fl r n es rule: absorb.induct) auto

text \<open>What the loop hands to the callback for its first entry, and the entries left.\<close>

definition first_range :: "init_entry \<Rightarrow> init_entry list \<Rightarrow> phys_range \<times> init_entry list" where
  "first_range e es =
     (let start = physicalAddress e;
          (n, rest) = absorb (memoryType e) (flags e)
            (start + numPhysicalPages e * PAGE_SIZE) (numPhysicalPages e) es
      in (\<lparr>range_type = memoryType e, range_address = start, range_size = n * PAGE_SIZE,
           range_flags = flags e\<rparr>, rest))"

lemma first_range_length: "length (snd (first_range e es)) \<le> length es"
  using absorb_length by (simp add: first_range_def split_beta Let_def)

lemma first_range_shorter: "(r, rest) = first_range e es \<Longrightarrow> length rest \<le> length es"
  by (metis first_range_length snd_conv)

text \<open>One call of the callback, with the range as its four arguments.\<close>

definition call_range :: "(u64 \<Rightarrow> u64 \<Rightarrow> mem_type \<Rightarrow> u64 \<Rightarrow> 's \<Rightarrow> 's) \<Rightarrow> phys_range \<Rightarrow> 's \<Rightarrow> 's" where
  "call_range f r = f (range_address r) (range_size r) (range_type r) (range_flags r)"

function iterate_combined ::
  "(u64 \<Rightarrow> u64 \<Rightarrow> mem_type \<Rightarrow> u64 \<Rightarrow> 's \<Rightarrow> 's) \<Rightarrow> init_entry list \<Rightarrow> 's \<Rightarrow> 's" where
  "iterate_combined f [] s = s"
| "iterate_combined f (e # es) s =
     (case first_range e es of (r, rest) \<Rightarrow> iterate_combined f rest (call_range f r s))"
  by pat_completeness auto
termination
  by (relation "measure (\<lambda>(f, es, s). length es)") (auto simp: less_Suc_eq_le dest: first_range_shorter)

subsection \<open>The combined ranges\<close>

text \<open>The ranges of the iteration, as a list: what the callback sees, in order.\<close>

function combined_ranges :: "init_entry list \<Rightarrow> phys_range list" where
  "combined_ranges [] = []"
| "combined_ranges (e # es) = (case first_range e es of (r, rest) \<Rightarrow> r # combined_ranges rest)"
  by pat_completeness auto
termination
  by (relation "measure length") (auto simp: less_Suc_eq_le dest: first_range_shorter)

lemma iterate_combined_eq_fold:
  "iterate_combined f es s = fold (call_range f) (combined_ranges es) s"
proof (induction f es s rule: iterate_combined.induct)
  case (2 f e es s)
  obtain r rest where first: "first_range e es = (r, rest)" by fastforce
  show ?case using 2 [OF first [symmetric]] by (simp add: first)
qed simp

text \<open>
  The interface of the iteration, as its clients (the physical memory map and the
  physical memory tree) use it: it is a fold of the callback over a list of ranges.
\<close>

locale phys_range_iter =
  fixes iter :: "(u64 \<Rightarrow> u64 \<Rightarrow> mem_type \<Rightarrow> u64 \<Rightarrow> 's \<Rightarrow> 's) \<Rightarrow> 'm \<Rightarrow> 's \<Rightarrow> 's"
    and ranges :: "'m \<Rightarrow> phys_range list"
  assumes iter_fold: "iter f m s = fold (call_range f) (ranges m) s"
begin

lemma iter_invariant:
  assumes "P s" "\<And>r s. r \<in> set (ranges m) \<Longrightarrow> P s \<Longrightarrow> P (call_range f r s)"
  shows "P (iter f m s)"
  unfolding iter_fold
  by (rule fold_invariant [where Q = "\<lambda>r. r \<in> set (ranges m)" and P = P, OF _ assms(1)])
    (simp_all add: assms(2))

lemma iter_indexed:
  assumes init: "I 0 s"
    and step: "\<And>i s. i < length (ranges m) \<Longrightarrow> I i s \<Longrightarrow> I (Suc i) (call_range f (ranges m ! i) s)"
  shows "I (length (ranges m)) (iter f m s)"
proof -
  have "k \<le> length (ranges m) \<Longrightarrow> I k (fold (call_range f) (take k (ranges m)) s)" for k
  proof (induction k)
    case (Suc k)
    then show ?case using step [of k] by (simp add: take_Suc_conv_app_nth)
  qed (simp add: init)
  from this [of "length (ranges m)"] show ?thesis by (simp add: iter_fold)
qed

lemma iter_project:
  assumes "\<And>r s. g (call_range f r s) = h r (g s)"
  shows "g (iter f m s) = fold h (ranges m) (g s)"
  unfolding iter_fold using assms by (rule fold_project)

end

interpretation combined: phys_range_iter iterate_combined combined_ranges
  by unfold_locales (rule iterate_combined_eq_fold)

subsection \<open>What the combined ranges describe\<close>

text \<open>
  The memory an entry or a range describes is compared by address, type and flags.
  An entry is \<open>sound\<close> when its pages do not wrap around the address space.
\<close>

definition range_start :: "phys_range \<Rightarrow> nat" where
  "range_start r = unat (range_address r)"

definition range_end :: "phys_range \<Rightarrow> nat" where
  "range_end r = unat (range_address r) + unat (range_size r)"

definition entry_range :: "init_entry \<Rightarrow> phys_range" where
  "entry_range e = \<lparr>range_type = memoryType e, range_address = physicalAddress e,
     range_size = numPhysicalPages e * PAGE_SIZE, range_flags = flags e\<rparr>"

definition sound_entry :: "init_entry \<Rightarrow> bool" where
  "sound_entry e \<longleftrightarrow> unat (physicalAddress e) + unat (numPhysicalPages e) * 4096 < 2 ^ 64"

definition describes :: "phys_range list \<Rightarrow> mem_type \<Rightarrow> u64 \<Rightarrow> nat \<Rightarrow> bool" where
  "describes rs t fl a \<longleftrightarrow>
     (\<exists>r \<in> set rs. range_type r = t \<and> range_flags r = fl \<and> range_start r \<le> a \<and> a < range_end r)"

definition ascending :: "phys_range list \<Rightarrow> bool" where
  "ascending = sorted_wrt (\<lambda>r r'. range_end r \<le> range_start r')"

definition adjoins :: "phys_range \<Rightarrow> phys_range \<Rightarrow> bool" where
  "adjoins r r' \<longleftrightarrow> range_type r' = range_type r \<and> range_flags r' = range_flags r
     \<and> range_address r' = range_address r + range_size r"

lemma entry_range_sel [simp]:
  "range_type (entry_range e) = memoryType e" "range_flags (entry_range e) = flags e"
  "range_address (entry_range e) = physicalAddress e"
  "range_size (entry_range e) = numPhysicalPages e * 4096"
  by (simp_all add: entry_range_def)

lemma unat_pages:
  "unat x + unat n * 4096 < 18446744073709551616 \<Longrightarrow> unat ((n :: u64) * 4096) = unat n * 4096"
  by (simp add: unat_u64_mult)

lemma range_start_entry [simp]: "range_start (entry_range e) = unat (physicalAddress e)"
  by (simp add: range_start_def)

lemma range_end_entry:
  "sound_entry e \<Longrightarrow>
    range_end (entry_range e) = unat (physicalAddress e) + unat (numPhysicalPages e) * 4096"
  by (simp add: range_end_def sound_entry_def unat_pages)

text \<open>
  The inner loop: it takes a prefix of the entries, all of the given type and flags,
  which continue the range without a gap, and stops at an entry that does not.
\<close>

lemma absorb_prefix:
  assumes "absorb t fl (start + n * 4096) n es = (n', rest)"
    and "unat start + unat n * 4096 < 2 ^ 64" "list_all sound_entry es"
  shows "\<exists>taken. es = taken @ rest \<and> (\<forall>e \<in> set taken. memoryType e = t \<and> flags e = fl)
    \<and> unat start + unat n' * 4096 < 2 ^ 64
    \<and> (\<forall>a. unat start \<le> a \<and> a < unat start + unat n' * 4096 \<longleftrightarrow>
        unat start \<le> a \<and> a < unat start + unat n * 4096 \<or>
        (\<exists>e \<in> set taken. unat (physicalAddress e) \<le> a \<and> a < range_end (entry_range e)))
    \<and> unat start + unat n' * 4096 = (if taken = [] then unat start + unat n * 4096
        else range_end (entry_range (last taken)))"
  using assms
proof (induction es arbitrary: n)
  case Nil
  then show ?case by auto
next
  case (Cons e es)
  show ?case
  proof (cases "memoryType e = t \<and> flags e = fl \<and> physicalAddress e = start + n * 4096")
    case False
    then have "absorb t fl (start + n * 4096) n (e # es) = (n, e # es)" by auto
    with Cons.prems(1,2) show ?thesis by (intro exI [of _ "[]"]) simp
  next
    case True
    let ?k = "numPhysicalPages e"
    have sound: "sound_entry e" using Cons.prems by simp
    have start: "unat (physicalAddress e) = unat start + unat n * 4096"
      using True Cons.prems(2) by (simp add: unat_u64_plus unat_pages)
    then have bound: "unat start + (unat n + unat ?k) * 4096 < 2 ^ 64"
      using sound by (simp add: sound_entry_def algebra_simps)
    then have sum: "unat (n + ?k) = unat n + unat ?k" by (intro unat_u64_plus) simp
    have "absorb t fl (start + (n + ?k) * 4096) (n + ?k) es = (n', rest)"
      using Cons.prems(1) True by (simp add: algebra_simps)
    from Cons.IH [OF this, unfolded sum, OF bound] Cons.prems(3) obtain taken where
      IH: "es = taken @ rest" "\<forall>e \<in> set taken. memoryType e = t \<and> flags e = fl"
        "unat start + unat n' * 4096 < 2 ^ 64"
        "\<forall>a. unat start \<le> a \<and> a < unat start + unat n' * 4096 \<longleftrightarrow>
          unat start \<le> a \<and> a < unat start + (unat n + unat ?k) * 4096 \<or>
          (\<exists>e \<in> set taken. unat (physicalAddress e) \<le> a \<and> a < range_end (entry_range e))"
        "unat start + unat n' * 4096 = (if taken = [] then unat start + (unat n + unat ?k) * 4096
          else range_end (entry_range (last taken)))"
      unfolding list.pred_inject by blast
    have fin: "range_end (entry_range e) = unat start + (unat n + unat ?k) * 4096"
      using sound start by (simp add: range_end_entry algebra_simps)
    have "unat start \<le> a \<and> a < unat start + (unat n + unat ?k) * 4096 \<longleftrightarrow>
        unat start \<le> a \<and> a < unat start + unat n * 4096 \<or>
        unat (physicalAddress e) \<le> a \<and> a < range_end (entry_range e)" for a
      unfolding fin start by (simp add: algebra_simps) linarith
    with IH fin show ?thesis
      by (intro exI [of _ "e # taken"]) (use True in auto)
  qed
qed

lemma absorb_stops:
  "absorb t fl r n es = (n', e # rest) \<Longrightarrow> r = start + n * 4096 \<Longrightarrow>
    \<not> (memoryType e = t \<and> flags e = fl \<and> physicalAddress e = start + n' * 4096)"
  by (induction t fl r n es rule: absorb.induct) (auto simp: algebra_simps split: if_splits)

text \<open>The same, for a whole combined range, and for all of them.\<close>

definition sound_range :: "phys_range \<Rightarrow> bool" where
  "sound_range r \<longleftrightarrow> range_end r < 2 ^ 64"

lemma first_range_prefix:
  assumes "first_range e es = (r, rest)" "list_all sound_entry (e # es)"
  shows "\<exists>taken. es = taken @ rest \<and> range_address r = physicalAddress e
    \<and> range_type r = memoryType e \<and> range_flags r = flags e \<and> sound_range r
    \<and> (\<forall>e' \<in> set taken. memoryType e' = memoryType e \<and> flags e' = flags e)
    \<and> (\<forall>a. range_start r \<le> a \<and> a < range_end r \<longleftrightarrow>
        (\<exists>e' \<in> set (e # taken). unat (physicalAddress e') \<le> a \<and> a < range_end (entry_range e')))
    \<and> range_end r = range_end (entry_range (last (e # taken)))"
proof -
  let ?n = "numPhysicalPages e" and ?s = "physicalAddress e"
  obtain n' where ab: "absorb (memoryType e) (flags e) (?s + ?n * 4096) ?n es = (n', rest)"
    and r: "r = \<lparr>range_type = memoryType e, range_address = ?s, range_size = n' * 4096,
      range_flags = flags e\<rparr>"
    using assms(1) by (auto simp: first_range_def Let_def split: prod.splits)
  have sound: "sound_entry e" using assms(2) by simp
  then have bound: "unat ?s + unat ?n * 4096 < 2 ^ 64" by (simp add: sound_entry_def)
  from absorb_prefix [OF ab bound] assms(2) obtain taken where
    T: "es = taken @ rest" "\<forall>e' \<in> set taken. memoryType e' = memoryType e \<and> flags e' = flags e"
      "unat ?s + unat n' * 4096 < 2 ^ 64"
      "\<forall>a. unat ?s \<le> a \<and> a < unat ?s + unat n' * 4096 \<longleftrightarrow>
        unat ?s \<le> a \<and> a < unat ?s + unat ?n * 4096 \<or>
        (\<exists>e \<in> set taken. unat (physicalAddress e) \<le> a \<and> a < range_end (entry_range e))"
      "unat ?s + unat n' * 4096 = (if taken = [] then unat ?s + unat ?n * 4096
        else range_end (entry_range (last taken)))"
    unfolding list.pred_inject by blast
  have fin: "range_end r = unat ?s + unat n' * 4096"
    using T(3) by (simp add: r range_end_def unat_pages)
  show ?thesis
    by (rule exI [of _ taken])
      (use T fin in \<open>simp add: r range_start_def sound_range_def range_end_entry [OF sound]\<close>)
qed

lemma first_range_head:
  assumes "first_range e es = (r, e' # rest)"
  shows "\<not> adjoins r (fst (first_range e' rest))"
proof -
  have sel: "range_address (fst (first_range e' rest)) = physicalAddress e'"
    "range_type (fst (first_range e' rest)) = memoryType e'"
    "range_flags (fst (first_range e' rest)) = flags e'"
    by (simp_all add: first_range_def Let_def split_beta)
  show ?thesis
    using assms absorb_stops [OF _ refl, of "memoryType e" "flags e"]
    by (fastforce simp: adjoins_def sel first_range_def Let_def split: prod.splits)
qed

lemma describes_append:
  "describes (rs @ rs') t fl a \<longleftrightarrow> describes rs t fl a \<or> describes rs' t fl a"
  by (auto simp: describes_def)

lemma combined_starts:
  "r \<in> set (combined_ranges es) \<Longrightarrow> \<exists>e \<in> set es. range_address r = physicalAddress e"
proof (induction es rule: combined_ranges.induct)
  case (2 e es)
  obtain r' rest where first: "first_range e es = (r', rest)" by fastforce
  have "set rest \<subseteq> set es" if "absorb t fl q n es = (n', rest)" for t fl q n n'
    using that by (induction t fl q n es rule: absorb.induct) (auto split: if_splits)
  then have "set rest \<subseteq> set es" "range_address r' = physicalAddress e"
    using first by (auto simp: first_range_def Let_def split: prod.splits)
  with 2 first show ?case by (auto split: prod.splits)
qed simp

lemma combined_describes:
  "list_all sound_entry es \<Longrightarrow>
    list_all sound_range (combined_ranges es) \<and>
    describes (combined_ranges es) t fl a = describes (map entry_range es) t fl a"
proof (induction es rule: combined_ranges.induct)
  case (2 e es)
  obtain r rest where first: "first_range e es = (r, rest)" by fastforce
  from first_range_prefix [OF first "2.prems"] obtain taken where
    T: "es = taken @ rest" "range_type r = memoryType e" "range_flags r = flags e"
      "sound_range r" "\<forall>e' \<in> set taken. memoryType e' = memoryType e \<and> flags e' = flags e"
      "\<forall>a. range_start r \<le> a \<and> a < range_end r \<longleftrightarrow>
        (\<exists>e' \<in> set (e # taken). unat (physicalAddress e') \<le> a \<and> a < range_end (entry_range e'))"
    by blast
  have one: "describes [r] t fl a = describes (map entry_range (e # taken)) t fl a"
    using T(2,3,5) T(6) [rule_format, of a] by (auto simp: describes_def)
  have IH: "list_all sound_range (combined_ranges rest)"
    "describes (combined_ranges rest) t fl a = describes (map entry_range rest) t fl a"
    using "2.IH" [OF first [symmetric]] "2.prems" T(1) by simp_all
  have "combined_ranges (e # es) = [r] @ combined_ranges rest" by (simp add: first)
  moreover have "map entry_range (e # es) = map entry_range (e # taken) @ map entry_range rest"
    by (simp add: T(1))
  ultimately show ?case
    using IH T(4) one by (simp only: describes_append list_all_append list.pred_inject simp_thms)
qed simp

lemma combined_ascending:
  assumes "list_all sound_entry es" "ascending (map entry_range es)"
  shows "ascending (combined_ranges es)"
  using assms
proof (induction es rule: combined_ranges.induct)
  case (2 e es)
  obtain r rest where first: "first_range e es = (r, rest)" by fastforce
  from first_range_prefix [OF first "2.prems"(1)] obtain taken where
    T: "es = taken @ rest" "range_end r = range_end (entry_range (last (e # taken)))"
    by blast
  have "e # es = butlast (e # taken) @ [last (e # taken)] @ rest"
    using T(1) append_butlast_last_id [of "e # taken"] by simp
  then have asc: "ascending (map entry_range (butlast (e # taken)) @
      [entry_range (last (e # taken))] @ map entry_range rest)"
    using "2.prems"(2) by (metis list.simps(8,9) map_append)
  have "range_end r \<le> range_start r'" if "r' \<in> set (combined_ranges rest)" for r'
    using combined_starts [OF that] asc
    by (auto simp: T(2) ascending_def sorted_wrt_append range_start_def simp del: last.simps)
  moreover have "ascending (combined_ranges rest)"
    using "2.IH" [OF first [symmetric]] "2.prems"(1) asc
    by (simp add: T(1) ascending_def sorted_wrt_append)
  ultimately show ?case by (simp add: first ascending_def)
qed (simp add: ascending_def)

lemma combined_maximal: "successively (\<lambda>r r'. \<not> adjoins r r') (combined_ranges es)"
proof (induction es rule: combined_ranges.induct)
  case (2 e es)
  obtain r rest where first: "first_range e es = (r, rest)" by fastforce
  show ?case
  proof (cases rest)
    case Nil
    with first show ?thesis by simp
  next
    case (Cons e' rest')
    with "2.IH" [OF first [symmetric]] first_range_head [of e es r e' rest'] first
    show ?thesis by (auto split: prod.splits)
  qed
qed simp

subsection \<open>Properties\<close>

text \<open>
  C14: Combining the physical ranges of an initial memory map neither loses nor invents
  memory: when no entry wraps around the address space, an address is described with a
  memory type and flags by the ranges handed to the callback exactly when it is by the
  entries; the ranges are maximal (no range can be continued by the next), they do not
  wrap around, and they ascend without overlap when the entries do.
\<close>

theorem combined_ranges_correct:
  assumes "list_all sound_entry es"
  shows "describes (combined_ranges es) t fl a = describes (map entry_range es) t fl a
    \<and> list_all sound_range (combined_ranges es)
    \<and> successively (\<lambda>r r'. \<not> adjoins r r') (combined_ranges es)
    \<and> (ascending (map entry_range es) \<longrightarrow> ascending (combined_ranges es))"
  using assms combined_describes combined_maximal combined_ascending by blast

definition sample_entries :: "init_entry list" where
  "sample_entries =
    [\<lparr>memoryType = TYPE_USABLE, usage = USAGE_MAPPED, flags = 8, physicalAddress = 0x1000,
       virtualAddress = 0x1000, numPhysicalPages = 2\<rparr>,
     \<lparr>memoryType = TYPE_USABLE, usage = USAGE_KERNEL_CODE, flags = 8, physicalAddress = 0x3000,
       virtualAddress = 0x3000, numPhysicalPages = 1\<rparr>,
     \<lparr>memoryType = TYPE_ACPI_NVS, usage = USAGE_NONE, flags = 8, physicalAddress = 0x4000,
       virtualAddress = 0, numPhysicalPages = 1\<rparr>,
     \<lparr>memoryType = TYPE_USABLE, usage = USAGE_MAPPED, flags = 8, physicalAddress = 0x8000,
       virtualAddress = 0x8000, numPhysicalPages = 4\<rparr>]"

lemma sample_sound: "list_all sound_entry sample_entries"
  by (simp add: sample_entries_def sound_entry_def)

lemma sample_combined:
  "combined_ranges sample_entries =
    [\<lparr>range_type = TYPE_USABLE, range_address = 0x1000, range_size = 0x3000, range_flags = 8\<rparr>,
     \<lparr>range_type = TYPE_ACPI_NVS, range_address = 0x4000, range_size = 0x1000, range_flags = 8\<rparr>,
     \<lparr>range_type = TYPE_USABLE, range_address = 0x8000, range_size = 0x4000, range_flags = 8\<rparr>]"
  by (simp add: sample_entries_def first_range_def)

lemma combined_ranges_correct_witness:
  "list_all sound_range (combined_ranges sample_entries)
    \<and> describes (map entry_range sample_entries) TYPE_USABLE 8 0x3800"
  using combined_ranges_correct [OF sample_sound, where t = TYPE_USABLE and fl = 8 and a = "0x3800"]
  by (simp add: sample_combined describes_def range_start_def range_end_def)

text \<open>
  The iteration hands exactly the combined ranges to the callback, in order, each
  once: it is the fold of the callback over them, for every callback and user data.
\<close>

theorem iterate_combined_correct:
  "iterate_combined f es s
    = fold (\<lambda>r. f (range_address r) (range_size r) (range_type r) (range_flags r))
        (combined_ranges es) s"
  unfolding combined.iter_fold by (rule fold_cong) (auto simp: call_range_def)

end
