(* ===== verification/PhysMemMap.thy ===== *)
theory PhysMemMap
  imports MemMap
begin

text \<open>
  The physical memory map (src/src/Kernel/Memory/PhysicalMemMapGen.c): the size pass,
  which counts the combined ranges of the initial map, and the creation pass, which
  writes them to a buffer. The buffer is an array of ranges, a total map from indices;
  what an index holds before it is written is arbitrary.
\<close>

unbundle bit_operations_syntax

text \<open>\<open>sizeof(DexprOS_PhysicalMemoryRange)\<close> on the target.\<close>

abbreviation RANGE_SIZE :: u64 where "RANGE_SIZE \<equiv> 32"

abbreviation FUNDAMENTAL_ALIGNMENT :: u64 where "FUNDAMENTAL_ALIGNMENT \<equiv> 16"

record phys_map =
  map_numEntries :: u64
  map_pEntries :: "u64 \<Rightarrow> phys_range"

subsection \<open>The size pass\<close>

definition CountMemoryRanges :: "u64 \<Rightarrow> u64 \<Rightarrow> mem_type \<Rightarrow> u64 \<Rightarrow> u64 \<Rightarrow> u64" where
  "CountMemoryRanges address rangeSize memType memFlags numEntries = numEntries + 1"

text \<open>The required size and alignment of the buffer.\<close>

definition GetPhysicalMemMapSize :: "init_entry list \<Rightarrow> u64 \<times> u64" where
  "GetPhysicalMemMapSize pInitialMap =
     (iterate_combined CountMemoryRanges pInitialMap 0 * RANGE_SIZE, FUNDAMENTAL_ALIGNMENT)"

subsection \<open>The creation pass\<close>

record map_fill_data =
  fill_pEntries :: "u64 \<Rightarrow> phys_range"
  fill_bufferSize :: u64
  fill_currentIndex :: u64
  fill_success :: bool

definition FillMemMapEntry ::
  "u64 \<Rightarrow> u64 \<Rightarrow> mem_type \<Rightarrow> u64 \<Rightarrow> map_fill_data \<Rightarrow> map_fill_data" where
  "FillMemMapEntry address rangeSize memType memFlags d =
     (let index = fill_currentIndex d;
          currentSize = (index + 1) * RANGE_SIZE
      in if currentSize > fill_bufferSize d then d\<lparr>fill_success := False\<rparr>
         else d\<lparr>fill_pEntries := (fill_pEntries d)(index := \<lparr>range_type = memType,
                  range_address = address, range_size = rangeSize,
                  range_flags = memFlags\<rparr>),
                fill_currentIndex := index + 1\<rparr>)"

definition CreatePhysicalMemMap ::
  "init_entry list \<Rightarrow> (u64 \<Rightarrow> phys_range) \<Rightarrow> u64 \<Rightarrow> bool \<times> phys_map" where
  "CreatePhysicalMemMap pInitialMap pBuffer bufferSize =
     (let fillData = iterate_combined FillMemMapEntry pInitialMap
            \<lparr>fill_pEntries = pBuffer, fill_bufferSize = bufferSize, fill_currentIndex = 0,
             fill_success = True\<rparr>
      in (fill_success fillData,
          \<lparr>map_numEntries = fill_currentIndex fillData, map_pEntries = fill_pEntries fillData\<rparr>))"

subsection \<open>Lemmas\<close>

lemma count_ranges:
  "iterate_combined CountMemoryRanges es k = k + of_nat (length (combined_ranges es))"
proof -
  have "fold (call_range CountMemoryRanges) rs k = k + of_nat (length rs)" for rs
    by (induction rs arbitrary: k) (simp_all add: call_range_def CountMemoryRanges_def)
  then show ?thesis by (simp add: combined.iter_fold)
qed

text \<open>The state of the fill after \<open>i\<close> of the ranges \<open>rs\<close>: it holds as many as fit.\<close>

definition filled :: "phys_range list \<Rightarrow> (u64 \<Rightarrow> phys_range) \<Rightarrow> nat \<Rightarrow> (u64 \<Rightarrow> phys_range)" where
  "filled rs old k = (\<lambda>i. if unat i < k then rs ! unat i else old i)"

lemma filled_Suc:
  "k < 18446744073709551616 \<Longrightarrow>
    (filled rs old k)(of_nat k := rs ! k) = filled rs old (Suc k)"
  by (auto simp: filled_def fun_eq_iff unat_u64_of_nat less_Suc_eq)

lemma fill_step:
  assumes "unat (fill_currentIndex d) < 576460752303423487"
  shows "call_range FillMemMapEntry r d =
    (if (unat (fill_currentIndex d) + 1) * 32 \<le> unat (fill_bufferSize d)
     then d\<lparr>fill_pEntries := (fill_pEntries d)(fill_currentIndex d := r),
            fill_currentIndex := fill_currentIndex d + 1\<rparr>
     else d\<lparr>fill_success := False\<rparr>)"
proof -
  have "unat (fill_currentIndex d + 1) = unat (fill_currentIndex d) + 1"
    using assms by (subst unat_u64_plus) simp_all
  then have "unat ((fill_currentIndex d + 1) * 32) = (unat (fill_currentIndex d) + 1) * 32"
    using assms by (subst unat_u64_mult) simp_all
  then show ?thesis
    by (simp add: call_range_def FillMemMapEntry_def Let_def word_less_nat_alt)
qed

lemma create_fill:
  fixes bufferSize :: u64
  assumes "length (combined_ranges es) < 576460752303423488"
  defines "k \<equiv> min (length (combined_ranges es)) (unat bufferSize div 32)"
  shows "CreatePhysicalMemMap es pBuffer bufferSize =
    (k = length (combined_ranges es),
     \<lparr>map_numEntries = of_nat k, map_pEntries = filled (combined_ranges es) pBuffer k\<rparr>)"
proof -
  let ?rs = "combined_ranges es" and ?cap = "unat bufferSize div 32"
  define I where "I i d \<longleftrightarrow> d = \<lparr>fill_pEntries = filled ?rs pBuffer (min i ?cap),
    fill_bufferSize = bufferSize, fill_currentIndex = of_nat (min i ?cap),
    fill_success = (i \<le> ?cap)\<rparr>" for i and d :: map_fill_data
  have "I (length ?rs) (iterate_combined FillMemMapEntry es \<lparr>fill_pEntries = pBuffer,
    fill_bufferSize = bufferSize, fill_currentIndex = 0, fill_success = True\<rparr>)"
  proof (rule combined.iter_indexed)
    show "I 0 \<lparr>fill_pEntries = pBuffer, fill_bufferSize = bufferSize, fill_currentIndex = 0,
      fill_success = True\<rparr>"
      by (simp add: I_def filled_def)
  next
    fix i d assume i: "i < length ?rs" and I: "I i d"
    have idx: "unat (of_nat (min i ?cap) :: u64) = min i ?cap"
      using i assms(1) by (intro unat_u64_of_nat) simp
    show "I (Suc i) (call_range FillMemMapEntry (?rs ! i) d)"
    proof (cases "i < ?cap")
      case True
      then have "(i + 1) * 32 \<le> unat bufferSize"
        using less_eq_div_iff_mult_less_eq [of 32 "i + 1" "unat bufferSize"] by simp
      with I i True idx assms(1) show ?thesis
        using filled_Suc [of i ?rs pBuffer]
        by (subst fill_step) (auto simp: I_def min_def add.commute)
    next
      case False
      then have "\<not> (?cap + 1) * 32 \<le> unat bufferSize" "min i ?cap = ?cap"
        using less_eq_div_iff_mult_less_eq [of 32 "?cap + 1" "unat bufferSize"] by simp_all
      with I i False idx assms(1) show ?thesis
        by (subst fill_step) (auto simp: I_def)
    qed
  qed
  then show ?thesis
    by (auto simp: CreatePhysicalMemMap_def I_def k_def Let_def)
qed

subsection \<open>Properties\<close>

text \<open>
  C22: The size pass reports 32 bytes for each combined range, and creation with any buffer
  size writes the first ranges of the list that fit, in order, counts them, leaves the
  rest of the memory alone and reports success exactly when all ranges fit.
\<close>

theorem CreatePhysicalMemMap_correct:
  assumes "length (combined_ranges es) < 2 ^ 59"
  shows "let rs = combined_ranges es; k = min (length rs) (unat bufferSize div 32);
             (ok, m) = CreatePhysicalMemMap es pBuffer bufferSize
         in unat (fst (GetPhysicalMemMapSize es)) = 32 * length rs
            \<and> ok = (unat (fst (GetPhysicalMemMapSize es)) \<le> unat bufferSize)
            \<and> unat (map_numEntries m) = k
            \<and> (\<forall>i. map_pEntries m i = (if unat i < k then rs ! unat i else pBuffer i))"
proof -
  let ?n = "length (combined_ranges es)"
  have n: "?n < 576460752303423488" using assms by simp
  have "unat (of_nat ?n * 32 :: u64) = 32 * ?n"
    using n by (subst unat_u64_mult) (simp_all add: unat_u64_of_nat)
  then have size: "unat (fst (GetPhysicalMemMapSize es)) = 32 * ?n"
    by (simp add: GetPhysicalMemMapSize_def count_ranges)
  have k: "unat (of_nat (min ?n (unat bufferSize div 32)) :: u64) = min ?n (unat bufferSize div 32)"
    using n by (intro unat_u64_of_nat) simp
  have fits: "min ?n (unat bufferSize div 32) = ?n \<longleftrightarrow> 32 * ?n \<le> unat bufferSize"
    using less_eq_div_iff_mult_less_eq [of 32 ?n "unat bufferSize"] by auto
  show ?thesis
    unfolding Let_def create_fill [OF n] size fits by (simp add: k filled_def)
qed

lemma CreatePhysicalMemMap_correct_witness:
  "fst (CreatePhysicalMemMap sample_entries (\<lambda>i. undefined) 100)
    \<and> \<not> fst (CreatePhysicalMemMap sample_entries (\<lambda>i. undefined) 95)"
  using CreatePhysicalMemMap_correct [of sample_entries 100 "\<lambda>i. undefined"]
    CreatePhysicalMemMap_correct [of sample_entries 95 "\<lambda>i. undefined"]
  by (simp add: sample_combined split_beta Let_def)

end
