(* ===== verification/KString.thy ===== *)
theory KString
  imports Machine
begin

text \<open>
  The kernel's freestanding string routines, src/src/Kernel/kstdlib/string.c:
  \<open>memset\<close>, \<open>memcpy\<close>, \<open>memmove\<close> and \<open>memcmp\<close> over byte-addressed memory. The
  routines work in three phases (leading bytes, wide objects, trailing bytes); each
  pointer loop is a \<open>partial_function\<close> with the guard of the source, \<open>None\<close> being
  a loop that never ends. Every routine is shown to return, and its effect is one
  filled or copied region, for all alignments. \<open>memmove\<close> is the exception: on a
  destination inside the source its wide backward phases are wrong, and the
  theory proves exactly where it is right and that it is wrong elsewhere.
\<close>

unbundle bit_operations_syntax

subsection \<open>memset\<close>

text \<open>\<open>for (; p < e; p += 1) *p = v\<close>; the loop variable is part of the result.\<close>

partial_function (option) set_bytes :: "mem \<Rightarrow> u64 \<Rightarrow> u64 \<Rightarrow> u8 \<Rightarrow> (mem \<times> u64) option" where
  "set_bytes m p e v =
     (if p < e then set_bytes (store_bytes m p [v]) (p + 1) e v else Some (m, p))"

text \<open>\<open>for (; p < e; p += 1) *p = v64\<close> over \<open>uint64_t\<close> pointers.\<close>

partial_function (option) set_words64 :: "mem \<Rightarrow> u64 \<Rightarrow> u64 \<Rightarrow> u64 \<Rightarrow> (mem \<times> u64) option" where
  "set_words64 m p e v =
     (if p < e then set_words64 (store_bytes m p (u64_bytes v)) (p + 8) e v else Some (m, p))"

definition value_to_set64 :: "u8 \<Rightarrow> u64" where
  "value_to_set64 v = (let s = ucast v :: u64 in
     s OR push_bit 8 s OR push_bit 16 s OR push_bit 24 s OR
     push_bit 32 s OR push_bit 40 s OR push_bit 48 s OR push_bit 56 s)"

definition memset :: "mem \<Rightarrow> u64 \<Rightarrow> u32 \<Rightarrow> u64 \<Rightarrow> (mem \<times> u64) option" where
  "memset m dest ch count =
     (if count = 0 \<or> dest = 0 then Some (m, dest)
      else
        let valueToSet = ucast ch :: u8;
            bytesToAlignTo8 = dest mod 8;
            lead = (if bytesToAlignTo8 \<noteq> 0 \<or> count < bytesToAlignTo8 + 8
                    then (if count < bytesToAlignTo8 + 8 then count else bytesToAlignTo8)
                    else 0)
        in Option.bind
             (if bytesToAlignTo8 \<noteq> 0 \<or> count < bytesToAlignTo8 + 8
              then set_bytes m dest (dest + lead) valueToSet else Some (m, dest))
             (\<lambda>(m1, cur).
               if lead = count then Some (m1, dest)
               else
                 let numFitting8Bytes = (count - lead) div 8
                 in Option.bind
                      (set_words64 m1 cur (cur + numFitting8Bytes * 8) (value_to_set64 valueToSet))
                      (\<lambda>(m2, _).
                        let cur2 = cur + numFitting8Bytes * 8;
                            numBytesLeft = count - (lead + numFitting8Bytes * 8)
                        in Option.bind (set_bytes m2 cur2 (cur2 + numBytesLeft) valueToSet)
                             (\<lambda>(m3, _). Some (m3, dest)))))"

subsection \<open>memcpy and memmove\<close>

text \<open>
  \<open>for (; s != e; ++s, ++d) *d = *s\<close> over objects of \<open>w\<close> bytes, and the backward
  loop \<open>for (; l >= s; --l, --d) *d = *l\<close>.
\<close>

partial_function (option) copy_up ::
  "nat \<Rightarrow> mem \<Rightarrow> u64 \<Rightarrow> u64 \<Rightarrow> u64 \<Rightarrow> (mem \<times> u64 \<times> u64) option" where
  "copy_up w m d s e =
     (if s \<noteq> e
      then copy_up w (store_bytes m d (load_bytes m s w)) (d + of_nat w) (s + of_nat w) e
      else Some (m, d, s))"

partial_function (option) copy_down ::
  "nat \<Rightarrow> mem \<Rightarrow> u64 \<Rightarrow> u64 \<Rightarrow> u64 \<Rightarrow> (mem \<times> u64) option" where
  "copy_down w m d l s =
     (if s \<le> l
      then copy_down w (store_bytes m d (load_bytes m l w)) (d - of_nat w) (l - of_nat w) s
      else Some (m, d))"

text \<open>
  The three blocks of \<open>memcpy\<close> for 8-, 4- and 2-byte objects are the same code at
  another width \<open>w\<close>; so are those of \<open>memmove\<close>.
\<close>

definition copy_up_aligned :: "nat \<Rightarrow> mem \<Rightarrow> u64 \<Rightarrow> u64 \<Rightarrow> u64 \<Rightarrow> mem option" where
  "copy_up_aligned w m dest src count =
     (let numAlignBytes = dest mod of_nat w
      in Option.bind (copy_up 1 m dest src (src + numAlignBytes))
        (\<lambda>(m1, d1, s1).
          let e2 = s1 + (count - numAlignBytes) div of_nat w * of_nat w
          in Option.bind (copy_up w m1 d1 s1 e2)
            (\<lambda>(m2, d2, s2).
              let numRemBytes = (count - numAlignBytes) mod of_nat w
              in Option.bind (copy_up 1 m2 d2 s2 (s2 + numRemBytes))
                   (\<lambda>(m3, _, _). Some m3))))"

definition copy_down_aligned :: "nat \<Rightarrow> mem \<Rightarrow> u64 \<Rightarrow> u64 \<Rightarrow> u64 \<Rightarrow> mem option" where
  "copy_down_aligned w m dest src count =
     (let destEndValue = dest + count;
          numAlignBytes = destEndValue mod of_nat w
      in Option.bind (copy_down 1 m (dest + count - 1) (src + numAlignBytes - 1) src)
        (\<lambda>(m1, d1).
          let last = src + (count - numAlignBytes) div of_nat w * of_nat w - of_nat w
          in Option.bind (copy_down w m1 d1 last src)
            (\<lambda>(m2, d2).
              let numRemBytes = (count - numAlignBytes) mod of_nat w
              in Option.bind (copy_down 1 m2 d2 (src + numRemBytes - 1) src)
                   (\<lambda>(m3, _). Some m3))))"

definition copy_overlap :: "u64 \<Rightarrow> u64 \<Rightarrow> u64 \<Rightarrow> bool" where
  "copy_overlap dest src count \<longleftrightarrow> src < dest + count \<and> src + count > dest \<and> dest > src"

function memcpy :: "mem \<Rightarrow> u64 \<Rightarrow> u64 \<Rightarrow> u64 \<Rightarrow> (mem \<times> u64) option"
  and memmove :: "mem \<Rightarrow> u64 \<Rightarrow> u64 \<Rightarrow> u64 \<Rightarrow> (mem \<times> u64) option" where
  "memcpy m dest src count =
     (if dest = 0 \<or> src = 0 \<or> count = 0 then Some (m, dest)
      else if src = dest then Some (m, dest)
      else if copy_overlap dest src count then memmove m dest src count
      else if dest mod 8 = src mod 8 \<and> count \<ge> 8
      then map_option (\<lambda>m'. (m', dest)) (copy_up_aligned 8 m dest src count)
      else if dest mod 4 = src mod 4 \<and> count \<ge> 4
      then map_option (\<lambda>m'. (m', dest)) (copy_up_aligned 4 m dest src count)
      else if dest mod 2 = src mod 2 \<and> count \<ge> 2
      then map_option (\<lambda>m'. (m', dest)) (copy_up_aligned 2 m dest src count)
      else map_option (\<lambda>(m', _, _). (m', dest)) (copy_up 1 m dest src (src + count)))"
| "memmove m dest src count =
     (if dest = 0 \<or> src = 0 \<or> count = 0 then Some (m, dest)
      else if src = dest then Some (m, dest)
      else if src + count \<le> dest \<or> src \<ge> dest + count then memcpy m dest src count
      else if dest < src then memcpy m dest src count
      else if (dest + count) mod 8 = (src + count) mod 8 \<and> count \<ge> 8
      then map_option (\<lambda>m'. (m', dest)) (copy_down_aligned 8 m dest src count)
      else if (dest + count) mod 4 = (src + count) mod 4 \<and> count \<ge> 4
      then map_option (\<lambda>m'. (m', dest)) (copy_down_aligned 4 m dest src count)
      else if (dest + count) mod 2 = (src + count) mod 2 \<and> count \<ge> 2
      then map_option (\<lambda>m'. (m', dest)) (copy_down_aligned 2 m dest src count)
      else map_option (\<lambda>(m', _). (m', dest))
             (copy_down 1 m (dest + count - 1) (src + count - 1) src))"
  by pat_completeness auto
termination
  by (relation "measure (\<lambda>x. case x of
        Inl (m, d, s, n) \<Rightarrow> (if copy_overlap d s n then 2 else 0 :: nat)
      | Inr (m, d, s, n) \<Rightarrow> (if s + n \<le> d \<or> s \<ge> d + n \<or> d < s then 1 else 0))")
    (auto simp: copy_overlap_def)

declare memcpy.simps [simp del] memmove.simps [simp del]

subsection \<open>The pointer loops return, and what they leave in memory\<close>

lemma set_bytes_fill:
  "unat p + n < 18446744073709551616 \<Longrightarrow>
   set_bytes m p (p + of_nat n) v = Some (fill m p n v, p + of_nat n)"
proof (induction n arbitrary: m p)
  case 0
  then show ?case by (simp add: set_bytes.simps)
next
  case (Suc n)
  have lt: "p < p + of_nat (Suc n)"
    using Suc.prems by (simp add: word_less_nat_alt unat_u64_plus_of_nat del: of_nat_Suc)
  have p1: "unat (p + 1) = unat p + 1"
    using Suc.prems unat_u64_plus_of_nat [of p 1] by simp
  have st: "store_bytes m p [v] = fill m p (Suc 0) v"
    using store_replicate [of 1 m p v] by simp
  have ap: "fill (fill m p (Suc 0) v) (p + 1) n v = fill m p (Suc n) v"
    using fill_append [of 1 n m p v] Suc.prems by simp
  have "set_bytes (fill m p (Suc 0) v) (p + 1) (p + 1 + of_nat n) v
    = Some (fill m p (Suc n) v, p + 1 + of_nat n)"
    using Suc.IH [of "p + 1" "fill m p (Suc 0) v"] Suc.prems p1 by (simp add: ap)
  with lt show ?case
    by (subst set_bytes.simps) (simp only: st if_True of_nat_Suc add.assoc)
qed

lemma nth_u64_bytes: "i < 8 \<Longrightarrow> u64_bytes w ! i = ucast (drop_bit (8 * i) w)"
  by (simp add: u64_bytes_def)

lemma bit_value_to_set64:
  assumes "n < 8" and "i \<in> {0, 1, 2, 3, 4, 5, 6, 7}"
  shows "bit (value_to_set64 v) (8 * i + n) = bit v n"
proof -
  have beyond: "\<not> bit v k" if "8 \<le> k" for k
    using that bit_imp_le_length [of v k] by auto
  from assms show ?thesis
    by (elim insertE emptyE)
      (simp_all add: value_to_set64_def Let_def bit_or_iff bit_push_bit_iff bit_ucast_iff beyond)
qed

lemma value_to_set64_bytes: "u64_bytes (value_to_set64 v) = replicate 8 v"
proof (rule nth_equalityI)
  show "length (u64_bytes (value_to_set64 v)) = length (replicate 8 v)" by simp
next
  fix i assume "i < length (u64_bytes (value_to_set64 v))"
  then have i: "i < 8" "i \<in> {0, 1, 2, 3, 4, 5, 6, 7}" by auto
  have "ucast (drop_bit (8 * i) (value_to_set64 v)) = v"
  proof (rule bit_word_eqI)
    fix n assume "n < LENGTH(8)"
    then have "n < 8" by simp
    with bit_value_to_set64 [OF this i(2), of v]
    show "bit (ucast (drop_bit (8 * i) (value_to_set64 v)) :: u8) n = bit v n"
      by (simp add: bit_ucast_iff bit_drop_bit_eq add.commute)
  qed
  with i show "u64_bytes (value_to_set64 v) ! i = replicate 8 v ! i"
    by (simp add: nth_u64_bytes)
qed

lemma set_words64_fill:
  "unat p + 8 * n < 18446744073709551616 \<Longrightarrow>
   set_words64 m p (p + of_nat (8 * n)) (value_to_set64 v)
     = Some (fill m p (8 * n) v, p + of_nat (8 * n))"
proof (induction n arbitrary: m p)
  case 0
  then show ?case by (simp add: set_words64.simps)
next
  case (Suc n)
  have "unat (p + of_nat (8 * Suc n)) = unat p + 8 * Suc n"
    using Suc.prems by (rule unat_u64_plus_of_nat)
  then have lt: "p < p + of_nat (8 * Suc n)"
    unfolding word_less_nat_alt by simp
  have p8: "unat (p + 8) = unat p + 8"
    using Suc.prems unat_u64_plus_of_nat [of p 8] by simp
  have st: "store_bytes m p (u64_bytes (value_to_set64 v)) = fill m p 8 v"
    by (simp only: value_to_set64_bytes) (simp add: store_replicate)
  have ap: "fill (fill m p 8 v) (p + 8) (8 * n) v = fill m p (8 * Suc n) v"
    using fill_append [of 8 "8 * n" m p v] Suc.prems by simp
  have end_eq: "p + of_nat (8 * Suc n) = p + 8 + of_nat (8 * n)"
    by (simp add: distrib_left)
  have "set_words64 (fill m p 8 v) (p + 8) (p + 8 + of_nat (8 * n)) (value_to_set64 v)
    = Some (fill m p (8 * Suc n) v, p + 8 + of_nat (8 * n))"
  proof -
    have "unat (p + 8) + 8 * n < 18446744073709551616" using Suc.prems p8 by simp
    from Suc.IH [OF this, of "fill m p 8 v"] show ?thesis by (simp only: ap)
  qed
  with lt show ?case
    by (subst set_words64.simps) (simp only: st if_True end_eq)
qed

text \<open>The same two facts with the end pointer given by a 64-bit count, as \<open>memset\<close> uses them.\<close>

lemma set_bytes_word:
  "unat p + unat n < 18446744073709551616 \<Longrightarrow>
   set_bytes m p (p + n) v = Some (fill m p (unat n) v, p + n)"
  using set_bytes_fill [of p "unat n" m v] by simp

lemma set_words64_word:
  assumes "unat p + 8 * unat n < 18446744073709551616"
  shows "set_words64 m p (p + n * 8) (value_to_set64 v)
    = Some (fill m p (8 * unat n) v, p + n * 8)"
  using set_words64_fill [OF assms, of m v] by (simp add: mult.commute)

lemma fill_append_word:
  "unat n + k < 18446744073709551616 \<Longrightarrow>
   fill (fill m p (unat n) v) (p + n) k v = fill m p (unat n + k) v"
  using fill_append [of "unat n" k m p v] by simp

subsection \<open>memset fills exactly the requested region\<close>

text \<open>The phases of \<open>memset\<close> after its leading bytes, for any number \<open>lead\<close> of them.\<close>

lemma memset_phases:
  assumes room: "unat dest + unat count < 18446744073709551616" and lead: "lead \<le> count"
  shows "Option.bind
      (set_words64 (fill m dest (unat lead) v) (dest + lead)
        (dest + lead + (count - lead) div 8 * 8) (value_to_set64 v))
      (\<lambda>(m2, _).
        let cur2 = dest + lead + (count - lead) div 8 * 8;
            numBytesLeft = count - (lead + (count - lead) div 8 * 8)
        in Option.bind (set_bytes m2 cur2 (cur2 + numBytesLeft) v) (\<lambda>(m3, _). Some (m3, dest)))
    = Some (fill m dest (unat count) v, dest)"
proof -
  define q where "q = (count - lead) div 8"
  have lc: "unat lead \<le> unat count" using lead by (simp add: word_le_nat_alt)
  have uq: "unat q = (unat count - unat lead) div 8"
    using lead by (simp add: q_def unat_u64_div unat_u64_minus)
  then have q8: "8 * unat q \<le> unat count - unat lead" by simp
  have u8q: "unat (q * 8) = 8 * unat q"
  proof -
    have "8 * unat q < 18446744073709551616"
      using q8 unat_u64_less [of count] by linarith
    then show ?thesis by (subst unat_u64_mult) simp_all
  qed
  have ul: "unat (lead + q * 8) = unat lead + 8 * unat q"
    using q8 lc u8q unat_u64_less [of count] by (subst unat_u64_plus) auto
  have le: "lead + q * 8 \<le> count"
    using q8 lc by (simp add: word_le_nat_alt ul)
  have ur: "unat (count - (lead + q * 8)) = unat count - (unat lead + 8 * unat q)"
    using le by (simp add: unat_u64_minus ul)
  have udl: "unat (dest + lead) = unat dest + unat lead"
    using room lc by (subst unat_u64_plus) auto
  have udq: "unat (dest + lead + q * 8) = unat dest + unat lead + 8 * unat q"
    using room lc q8 udl u8q by (subst unat_u64_plus) auto
  have s1: "set_words64 (fill m dest (unat lead) v) (dest + lead) (dest + lead + q * 8)
      (value_to_set64 v)
    = Some (fill m dest (unat lead + 8 * unat q) v, dest + lead + q * 8)"
    using room lc q8 unat_u64_less [of count]
    by (subst set_words64_word) (auto simp: udl fill_append_word)
  have s2: "set_bytes (fill m dest (unat lead + 8 * unat q) v) (dest + lead + q * 8)
      (dest + lead + q * 8 + (count - (lead + q * 8))) v
    = Some (fill m dest (unat count) v, dest + lead + q * 8 + (count - (lead + q * 8)))"
  proof -
    have "fill (fill m dest (unat (lead + q * 8)) v) (dest + (lead + q * 8))
        (unat (count - (lead + q * 8))) v
      = fill m dest (unat (lead + q * 8) + unat (count - (lead + q * 8))) v"
      using q8 lc unat_u64_less [of count]
      by (intro fill_append_word) (auto simp: ur ul)
    also have "unat (lead + q * 8) + unat (count - (lead + q * 8)) = unat count"
      using q8 lc by (simp add: ur ul)
    finally have "fill (fill m dest (unat lead + 8 * unat q) v) (dest + lead + q * 8)
        (unat (count - (lead + q * 8))) v = fill m dest (unat count) v"
      by (simp only: ul add.assoc)
    moreover have "unat (dest + lead + q * 8) + unat (count - (lead + q * 8))
        < 18446744073709551616"
      using room lc q8 by (simp add: udq ur)
    ultimately show ?thesis by (simp only: set_bytes_word)
  qed
  show ?thesis
    unfolding q_def [symmetric] Let_def s1
    by (simp only: Option.bind.bind_lunit split_conv s2)
qed

lemma memset_fill:
  assumes "unat dest + unat count < 18446744073709551616"
  shows "memset m dest ch count =
    Some (if dest = 0 then m else fill m dest (unat count) (ucast ch), dest)"
proof (cases "count = 0 \<or> dest = 0")
  case True
  then show ?thesis by (auto simp: memset_def)
next
  case False
  define b where "b = dest mod 8"
  have ub: "unat b < 8" by (simp add: b_def unat_u64_mod)
  have ub8: "unat (b + 8) = unat b + 8"
    using ub by (subst unat_u64_plus) auto
  define short where "short \<longleftrightarrow> count < b + 8"
  show ?thesis
  proof (cases short)
    case True
    have c8: "b = 0 \<Longrightarrow> count < 8" using True by (simp add: short_def)
    from \<open>short\<close> False assms c8 show ?thesis
      by (auto simp: memset_def Let_def b_def [symmetric] short_def [symmetric] set_bytes_word)
  next
    case long: False
    then have bc: "b \<le> count"
      using ub8 by (simp add: short_def word_le_nat_alt word_less_nat_alt)
    have ne: "b \<noteq> count"
      using long ub8 by (auto simp: short_def word_less_nat_alt)
    have rb: "unat dest + unat b < 18446744073709551616"
      using assms bc by (simp add: word_le_nat_alt)
    note ph = memset_phases [OF assms, of _ m "ucast ch"]
    show ?thesis
    proof (cases "b = 0")
      case True
      with long have "\<not> count < 8" by (simp add: short_def)
      with True False long ne ph [of 0] show ?thesis
        by (simp add: memset_def Let_def b_def [symmetric] short_def [symmetric])
    next
      case b0: False
      with False long ne ph [OF bc] show ?thesis
        by (simp add: memset_def b_def [symmetric] short_def [symmetric] set_bytes_word [OF rb]
            Let_def)
    qed
  qed
qed

text \<open>
  The contract of \<open>memset\<close>, as its callers in the kernel use it: any routine with it
  sets exactly the bytes asked for.
\<close>

locale memset_contract =
  fixes mset :: "mem \<Rightarrow> u64 \<Rightarrow> u32 \<Rightarrow> u64 \<Rightarrow> (mem \<times> u64) option"
  assumes mset_fill: "unat d + unat n < 18446744073709551616 \<Longrightarrow>
    mset m d ch n = Some (if d = 0 then m else fill m d (unat n) (ucast ch), d)"
begin

lemma mset_total:
  "unat d + unat n < 18446744073709551616 \<Longrightarrow> \<exists>m'. mset m d ch n = Some (m', d)"
  by (simp add: mset_fill)

lemma mset_read:
  assumes "unat d + unat n < 18446744073709551616" "d \<noteq> 0" "mset m d ch n = Some (m', r)"
  shows "m' a = (if unat (a - d) < unat n then ucast ch else m a)"
  using assms by (auto simp: mset_fill fill_def)

lemma mset_frame:
  assumes "unat d + unat n < 18446744073709551616" "mset m d ch n = Some (m', r)"
    "unat n \<le> unat (a - d)"
  shows "m' a = m a"
  using assms by (auto simp: mset_fill fill_def split: if_splits)

end

interpretation kernel_memset: memset_contract memset
  by unfold_locales (rule memset_fill)

text \<open>
  C11: On any buffer that does not run past the end of the address space, \<open>memset\<close>
  returns its destination, and memory holds the low byte of \<open>ch\<close> in exactly the
  \<open>count\<close> bytes from there on: every alignment, every length, null destination
  included (then nothing is written).
\<close>

theorem memset_correct:
  assumes "unat dest + unat count < 18446744073709551616"
  shows "memset m dest ch count =
    Some (if dest = 0 then m else fill m dest (unat count) (ucast ch), dest)"
  using assms by (rule memset_fill)

subsection \<open>memcpy copies exactly the requested region\<close>

lemma copy_up_region:
  assumes "0 < w"
  shows "w * n < 18446744073709551616 \<Longrightarrow> forward_safe d s (w * n) \<Longrightarrow>
   copy_up w m d s (s + of_nat (w * n))
     = Some (copy_region m d s (w * n), d + of_nat (w * n), s + of_nat (w * n))"
proof (induction n arbitrary: m d s)
  case 0
  then show ?case by (simp add: copy_up.simps)
next
  case (Suc n)
  have "unat (of_nat (w * Suc n) :: u64) = w * Suc n"
    using Suc.prems(1) by (rule unat_u64_of_nat)
  then have "(of_nat (w * Suc n) :: u64) \<noteq> 0"
    using assms by (metis mult_is_0 nat.distinct(1) neq0_conv unsigned_0)
  then have ne: "s \<noteq> s + of_nat (w * Suc n)" by simp
  have st: "store_bytes m d (load_bytes m s w) = copy_region m d s w"
    using Suc.prems(1) by (intro store_load) simp
  have ap: "copy_region (copy_region m d s w) (d + of_nat w) (s + of_nat w) (w * n)
      = copy_region m d s (w * Suc n)"
    using Suc.prems by (subst copy_region_append) simp_all
  have s_eq: "s + of_nat (w * Suc n) = s + of_nat w + of_nat (w * n)"
    and d_eq: "d + of_nat (w * Suc n) = d + of_nat w + of_nat (w * n)"
    by simp_all
  have "w * n < 18446744073709551616" using Suc.prems(1) by simp
  moreover have "forward_safe (d + of_nat w) (s + of_nat w) (w * n)"
    using Suc.prems(2) forward_safe_mono [of d s "w * Suc n" "w * n"] by simp
  ultimately have "copy_up w (copy_region m d s w) (d + of_nat w) (s + of_nat w)
      (s + of_nat w + of_nat (w * n))
    = Some (copy_region m d s (w * Suc n), d + of_nat w + of_nat (w * n),
        s + of_nat w + of_nat (w * n))"
    using Suc.IH [of "d + of_nat w" "s + of_nat w" "copy_region m d s w"] by (simp only: ap)
  with ne show ?case
    by (subst copy_up.simps) (simp only: st if_True s_eq d_eq simp_thms)
qed

lemma copy_up_word:
  assumes "0 < w" "w dvd unat k" "forward_safe d s (unat k)"
  shows "copy_up w m d s (s + k) = Some (copy_region m d s (unat k), d + k, s + k)"
proof -
  from assms(2) obtain n where n: "unat k = w * n" by (auto elim: dvdE)
  have "w * n < 18446744073709551616" using n unat_u64_less [of k] by simp
  from copy_up_region [OF assms(1) this] assms(3) n show ?thesis
    by (metis of_nat_unat_u64)
qed

lemma copy_region_append_word:
  "unat n + k < 18446744073709551616 \<Longrightarrow> forward_safe d s (unat n + k) \<Longrightarrow>
   copy_region (copy_region m d s (unat n)) (d + n) (s + n) k = copy_region m d s (unat n + k)"
  using copy_region_append [of "unat n" k d s m] by simp

lemma copy_up_aligned_correct:
  assumes w: "w \<in> {2, 4, 8}" and count: "of_nat w \<le> count"
    and safe: "forward_safe dest src (unat count)"
  shows "copy_up_aligned w m dest src count = Some (copy_region m dest src (unat count))"
proof -
  define a where "a = dest mod of_nat w"
  define q where "q = (count - a) div of_nat w * of_nat w"
  define r where "r = (count - a) mod of_nat w"
  have uw: "unat (of_nat w :: u64) = w" using w by auto
  have ua: "unat a < w" using w uw by (auto simp: a_def unat_u64_mod)
  have wc: "w \<le> unat count" using count uw by (simp add: word_le_nat_alt)
  have uca: "unat (count - a) = unat count - unat a"
    using ua wc by (intro unat_u64_minus) (simp add: word_le_nat_alt)
  have le: "(unat count - unat a) div w * w \<le> unat count - unat a" by simp
  have uq: "unat q = (unat count - unat a) div w * w"
  proof -
    have "(unat count - unat a) div w * w < 18446744073709551616"
      by (rule le_less_trans [OF le]) (use unat_u64_less [of count] in linarith)
    then show ?thesis
      unfolding q_def by (subst unat_u64_mult) (simp_all add: unat_u64_div uca uw)
  qed
  have ur: "unat r = (unat count - unat a) mod w"
    by (simp add: r_def unat_u64_mod uca uw)
  have sum: "unat a + (unat q + unat r) = unat count"
    using ua wc by (simp add: uq ur)
  have lt: "unat count < 18446744073709551616" by (rule unat_u64_less)
  have safes: "forward_safe dest src (unat a)" "forward_safe dest src (unat q)"
    "forward_safe dest src (unat r)" "forward_safe dest src (unat a + unat q)"
    using safe sum by (auto intro: forward_safe_mono)
  have p1: "copy_up 1 m dest src (src + a)
      = Some (copy_region m dest src (unat a), dest + a, src + a)"
    using safes by (intro copy_up_word) simp_all
  have p2: "copy_up w (copy_region m dest src (unat a)) (dest + a) (src + a) (src + a + q)
      = Some (copy_region m dest src (unat a + unat q), dest + a + q, src + a + q)"
  proof -
    have "w dvd unat q" by (simp add: uq)
    moreover have "0 < w" using w by auto
    ultimately show ?thesis
      using safes sum lt by (subst copy_up_word) (simp_all add: copy_region_append_word)
  qed
  have p3: "copy_up 1 (copy_region m dest src (unat a + unat q)) (dest + a + q) (src + a + q)
      (src + a + q + r)
      = Some (copy_region m dest src (unat count), dest + a + q + r, src + a + q + r)"
  proof -
    have aq: "unat (a + q) = unat a + unat q" using sum lt by (intro unat_u64_plus) simp
    have "copy_region (copy_region m dest src (unat (a + q))) (dest + (a + q)) (src + (a + q))
        (unat r) = copy_region m dest src (unat (a + q) + unat r)"
      using safe sum lt by (intro copy_region_append_word) (simp_all add: aq sum add.assoc)
    then have "copy_region (copy_region m dest src (unat a + unat q)) (dest + a + q)
        (src + a + q) (unat r) = copy_region m dest src (unat count)"
      using sum by (simp only: aq add.assoc)
    moreover have "forward_safe (dest + a + q) (src + a + q) (unat r)"
      using safes by (simp add: add.assoc)
    ultimately show ?thesis by (subst copy_up_word) simp_all
  qed
  show ?thesis
    unfolding copy_up_aligned_def Let_def a_def [symmetric]
    by (simp only: p1 Option.bind.bind_lunit split_conv q_def [symmetric] p2
        r_def [symmetric] p3)
qed

lemma forward_safeI:
  assumes "unat src + unat count < 18446744073709551616" "unat dest + unat count < 18446744073709551616"
    and "\<not> copy_overlap dest src count"
  shows "forward_safe dest src (unat count)"
proof (cases "dest \<le> src")
  case True
  show ?thesis
  proof (cases "dest = src")
    case False
    with True have "dest < src" by simp
    then have "unat dest < unat src" by (simp add: word_less_nat_alt)
    from unat_u64_minus_wrap [OF this] assms(1) have "unat count \<le> unat (dest - src)"
      by linarith
    then show ?thesis by (simp add: forward_safe_def)
  qed (simp add: forward_safe_def)
next
  case False
  have ud: "unat (dest + count) = unat dest + unat count"
    and us: "unat (src + count) = unat src + unat count"
    using assms(1,2) by (simp_all add: unat_u64_plus)
  have "unat (dest - src) = unat dest - unat src"
    using False by (intro unat_u64_minus) simp
  with False assms(3) show ?thesis
    by (auto simp: forward_safe_def copy_overlap_def word_le_nat_alt word_less_nat_alt ud us)
qed

lemma memcpy_forward:
  assumes "\<not> copy_overlap dest src count" and safe: "forward_safe dest src (unat count)"
  shows "memcpy m dest src count =
    Some (if dest = 0 \<or> src = 0 then m else copy_region m dest src (unat count), dest)"
proof -
  have c: "copy_up_aligned 8 m dest src count = Some (copy_region m dest src (unat count))"
    if "8 \<le> count" using copy_up_aligned_correct [of 8] that safe by simp
  moreover have "copy_up_aligned 4 m dest src count = Some (copy_region m dest src (unat count))"
    if "4 \<le> count" using copy_up_aligned_correct [of 4] that safe by simp
  moreover have "copy_up_aligned 2 m dest src count = Some (copy_region m dest src (unat count))"
    if "2 \<le> count" using copy_up_aligned_correct [of 2] that safe by simp
  moreover have "copy_up 1 m dest src (src + count)
      = Some (copy_region m dest src (unat count), dest + count, src + count)"
    using safe by (intro copy_up_word) simp_all
  ultimately show ?thesis
    using assms(1) by (subst memcpy.simps) simp
qed

text \<open>
  C12: For regions that do not run past the end of the address space, and whose
  destination does not start inside the source, \<open>memcpy\<close> returns its destination and
  leaves in the \<open>count\<close> bytes from there exactly the bytes the source held before,
  whatever the two alignments; no other byte changes. A destination below an
  overlapping source is included.
\<close>

theorem memcpy_correct:
  assumes "unat src + unat count < 18446744073709551616"
    and "unat dest + unat count < 18446744073709551616"
    and "\<not> copy_overlap dest src count"
  shows "memcpy m dest src count =
    Some (if dest = 0 \<or> src = 0 then m else copy_region m dest src (unat count), dest)"
  using assms(3) forward_safeI [OF assms] by (rule memcpy_forward)

subsection \<open>memmove: where it is right, and where it is not\<close>

lemma copy_down_region:
  "unat s + n < 18446744073709551616 \<Longrightarrow> s \<noteq> 0 \<Longrightarrow> backward_safe d s n \<Longrightarrow>
   copy_down 1 m (d + of_nat n - 1) (s + of_nat n - 1) s
     = Some (copy_region m d s n, d - 1)"
proof (induction n arbitrary: m)
  case 0
  have "s - 1 < s" using 0 by (simp add: word_less_nat_alt unat_gt_0 measure_unat)
  then have "\<not> s \<le> s - 1" by simp
  then show ?case by (subst copy_down.simps) simp
next
  case (Suc n)
  have l: "s + of_nat (Suc n) - 1 = s + of_nat n" and d: "d + of_nat (Suc n) - 1 = d + of_nat n"
    by simp_all
  have "unat (s + of_nat n) = unat s + n"
    using Suc.prems by (intro unat_u64_plus_of_nat) simp
  then have le: "s \<le> s + of_nat n" by (simp add: word_le_nat_alt)
  have st: "store_bytes m (d + of_nat n) (load_bytes m (s + of_nat n) 1)
      = copy_region m (d + of_nat n) (s + of_nat n) 1"
    by (intro store_load) simp
  have pre: "copy_region (copy_region m (d + of_nat n) (s + of_nat n) 1) d s n
      = copy_region m d s (Suc n)"
    using Suc.prems by (intro copy_region_prepend) simp_all
  have "copy_down 1 (copy_region m (d + of_nat n) (s + of_nat n) 1)
      (d + of_nat n - of_nat 1) (s + of_nat n - of_nat 1) s
    = Some (copy_region m d s (Suc n), d - 1)"
    using Suc.IH [of "copy_region m (d + of_nat n) (s + of_nat n) 1"] Suc.prems
    by (simp add: pre [simplified] backward_safe_def)
  with le show ?case
    by (subst copy_down.simps) (simp only: l d st if_True)
qed

text \<open>
  C13: \<open>memmove\<close> copies correctly, overlapping or not, unless its destination starts
  strictly inside the source at an even distance and at least two bytes are moved.
  So it is right for disjoint regions, for a destination below the source, for an
  odd distance and for a single byte, with every other byte unchanged.
\<close>

theorem memmove_correct:
  assumes src: "unat src + unat count < 18446744073709551616"
    and dest: "unat dest + unat count < 18446744073709551616"
    and region: "\<not> copy_overlap dest src count \<or> odd (unat (dest - src)) \<or> count < 2"
  shows "memmove m dest src count =
    Some (if dest = 0 \<or> src = 0 then m else copy_region m dest src (unat count), dest)"
proof (cases "copy_overlap dest src count")
  case False
  note cp = memcpy_forward [OF False forward_safeI [OF src dest False], of m]
  show ?thesis
  proof (cases "dest = 0 \<or> src = 0 \<or> count = 0 \<or> src = dest")
    case True
    then show ?thesis by (subst memmove.simps) auto
  next
    case ne: False
    with False have "src + count \<le> dest \<or> src \<ge> dest + count \<or> dest < src"
      by (auto simp: copy_overlap_def)
    with ne cp show ?thesis by (subst memmove.simps) auto
  qed
next
  case True
  then have gt: "src < dest" and so: "\<not> src + count \<le> dest" "\<not> dest + count \<le> src"
    by (auto simp: copy_overlap_def)
  have ud: "unat (dest - src) = unat dest - unat src"
    using gt by (intro unat_u64_minus) simp
  have ude: "unat (dest + count) = unat dest + unat count"
    and use: "unat (src + count) = unat src + unat count"
    using src dest by (simp_all add: unat_u64_plus)
  have narrow: "\<not> ((dest + count) mod of_nat w = (src + count) mod of_nat w \<and> of_nat w \<le> count)"
    if "w \<in> {2, 4, 8}" for w
  proof
    assume *: "(dest + count) mod of_nat w = (src + count) mod of_nat w \<and> of_nat w \<le> count"
    have uw: "unat (of_nat w :: u64) = w" using that by auto
    from * have "(unat dest + unat count) mod w = (unat src + unat count) mod w"
      by (metis ude use uw unat_u64_mod)
    then have "w dvd unat dest - unat src"
      using gt by (simp add: mod_eq_dvd_iff_nat word_less_nat_alt)
    moreover have "2 dvd w" using that by auto
    ultimately have "2 dvd unat dest - unat src" by (rule dvd_trans [rotated])
    then have "even (unat (dest - src))" by (simp only: ud)
    moreover have "2 \<le> count" using * that uw by (auto simp: word_le_nat_alt)
    ultimately show False using region True by simp
  qed
  have bs: "backward_safe dest src (unat count)"
    using dest by (simp add: backward_safe_def ud)
  have byte: "copy_down 1 m (dest + count - 1) (src + count - 1) src
      = Some (copy_region m dest src (unat count), dest - 1)" if "src \<noteq> 0"
    using copy_down_region [OF src that bs, of m] by simp
  from gt so narrow [of 2] narrow [of 4] narrow [of 8] byte show ?thesis
    by (subst memmove.simps) (auto simp: word_less_nat_alt)
qed

text \<open>
  C10: The excluded case is real. Moving four bytes from address 16 to address 18, for
  any memory, the two-byte backward phase starts at the last destination byte
  instead of two bytes below the end: it writes address 22, which lies outside the
  destination \<open>18..21\<close>, and leaves address 18 as it was.
\<close>

theorem memmove_overlap_defect:
  "memmove m 18 16 4 = Some (m(19 := m 16, 20 := m 17, 21 := m 18, 22 := m 19), 18)"
proof -
  have two: "store_bytes m d (load_bytes m s 2) = m(d := m s, d + 1 := m (s + 1))" for m d s
    by (simp add: load_bytes_def upt_conv_Cons numeral_2_eq_2)
  have l: "copy_down 1 m 21 15 16 = Some (m, 21)" for m
    by (subst copy_down.simps) simp
  have w0: "copy_down 2 m 17 14 16 = Some (m, 17)" for m
    by (subst copy_down.simps) simp
  have w1: "copy_down 2 m 19 16 16 = Some (m(19 := m 16, 20 := m 17), 17)" for m
    by (subst copy_down.simps) (simp add: two w0)
  have w2: "copy_down 2 m 21 18 16
      = Some (m(21 := m 18, 22 := m 19, 19 := m 16, 20 := m 17), 17)"
    by (subst copy_down.simps) (simp add: two w1)
  have r: "copy_down 1 m 17 15 16 = Some (m, 17)" for m
    by (subst copy_down.simps) simp
  have "copy_down_aligned 2 m 18 16 4 = Some (m(21 := m 18, 22 := m 19, 19 := m 16, 20 := m 17))"
    using l w2 r by (simp add: copy_down_aligned_def)
  then show ?thesis
    by (subst memmove.simps) (simp add: fun_eq_iff)
qed

subsection \<open>memcmp\<close>

text \<open>
  \<open>byte_diff\<close> is the inner loop over the bytes of two objects: the difference, as a C
  \<open>int\<close>, of the first pair that differs. A loop of \<open>memcmp\<close> either returns from the
  function (\<open>Inl\<close> the result) or runs to its end with its two pointers (\<open>Inr\<close>).
\<close>

fun byte_diff :: "u8 list \<Rightarrow> u8 list \<Rightarrow> int option" where
  "byte_diff (x # xs) (y # ys) = (if x \<noteq> y then Some (uint x - uint y) else byte_diff xs ys)"
| "byte_diff _ _ = None"

partial_function (option) cmp_words ::
  "nat \<Rightarrow> mem \<Rightarrow> u64 \<Rightarrow> u64 \<Rightarrow> u64 \<Rightarrow> (int + u64 \<times> u64) option" where
  "cmp_words w m l r e =
     (if l \<noteq> e then
        (if load_bytes m l w \<noteq> load_bytes m r w then
           (case byte_diff (load_bytes m l w) (load_bytes m r w) of
              Some d \<Rightarrow> Some (Inl d)
            | None \<Rightarrow> cmp_words w m (l + of_nat w) (r + of_nat w) e)
         else cmp_words w m (l + of_nat w) (r + of_nat w) e)
      else Some (Inr (l, r)))"

partial_function (option) cmp_bytes_below ::
  "mem \<Rightarrow> u64 \<Rightarrow> u64 \<Rightarrow> u64 \<Rightarrow> (int + u64 \<times> u64) option" where
  "cmp_bytes_below m l r e =
     (if l < e then
        (if m l \<noteq> m r then Some (Inl (uint (m l) - uint (m r)))
         else cmp_bytes_below m (l + 1) (r + 1) e)
      else Some (Inr (l, r)))"

definition cmp_then ::
  "(int + u64 \<times> u64) option \<Rightarrow> (u64 \<Rightarrow> u64 \<Rightarrow> int option) \<Rightarrow> int option" where
  "cmp_then x f = Option.bind x (\<lambda>y. case y of Inl d \<Rightarrow> Some d | Inr (l, r) \<Rightarrow> f l r)"

definition memcmp_aligned :: "nat \<Rightarrow> mem \<Rightarrow> u64 \<Rightarrow> u64 \<Rightarrow> u64 \<Rightarrow> int option" where
  "memcmp_aligned w m lhs rhs count =
     (let numAlignBytes = lhs mod of_nat w
      in cmp_then (cmp_words 1 m lhs rhs (lhs + numAlignBytes))
        (\<lambda>l1 r1. cmp_then
            (cmp_words w m l1 r1 (l1 + (count - numAlignBytes) div of_nat w * of_nat w))
          (\<lambda>l2 r2. cmp_then
              (cmp_words 1 m l2 r2 (l2 + (count - numAlignBytes) mod of_nat w))
            (\<lambda>_ _. Some 0))))"

definition memcmp :: "mem \<Rightarrow> u64 \<Rightarrow> u64 \<Rightarrow> u64 \<Rightarrow> int option" where
  "memcmp m lhs rhs count =
     (if lhs = 0 \<or> rhs = 0 then Some 0
      else if count = 0 \<or> lhs = rhs then Some 0
      else if lhs mod 8 = rhs mod 8 \<and> count \<ge> 8 then memcmp_aligned 8 m lhs rhs count
      else if lhs mod 4 = rhs mod 4 \<and> count \<ge> 4 then memcmp_aligned 4 m lhs rhs count
      else if lhs mod 2 = rhs mod 2 \<and> count \<ge> 2 then memcmp_aligned 2 m lhs rhs count
      else cmp_then (cmp_bytes_below m lhs rhs (lhs + count)) (\<lambda>_ _. Some 0))"

text \<open>The contract: the first differing byte decides, and equal regions give 0.\<close>

definition compare_region :: "mem \<Rightarrow> u64 \<Rightarrow> u64 \<Rightarrow> nat \<Rightarrow> int" where
  "compare_region m l r n =
     (case byte_diff (load_bytes m l n) (load_bytes m r n) of None \<Rightarrow> 0 | Some d \<Rightarrow> d)"

lemma byte_diff_None_iff: "length xs = length ys \<Longrightarrow> byte_diff xs ys = None \<longleftrightarrow> xs = ys"
  by (induction xs ys rule: byte_diff.induct) auto

lemma byte_diff_nonzero: "byte_diff xs ys = Some d \<Longrightarrow> d \<noteq> 0"
  by (induction xs ys rule: byte_diff.induct) (auto split: if_splits simp: word_uint_eq_iff)

lemma byte_diff_append:
  "length xs = length ys \<Longrightarrow> byte_diff (xs @ xs') (ys @ ys') =
    (case byte_diff xs ys of None \<Rightarrow> byte_diff xs' ys' | Some d \<Rightarrow> Some d)"
  by (induction xs ys rule: byte_diff.induct) auto

definition cmp_result :: "mem \<Rightarrow> u64 \<Rightarrow> u64 \<Rightarrow> nat \<Rightarrow> (int + u64 \<times> u64) option" where
  "cmp_result m l r n = Some (case byte_diff (load_bytes m l n) (load_bytes m r n) of
     None \<Rightarrow> Inr (l + of_nat n, r + of_nat n) | Some d \<Rightarrow> Inl d)"

lemma cmp_words_region:
  assumes "0 < w"
  shows "w * n < 18446744073709551616 \<Longrightarrow>
   cmp_words w m l r (l + of_nat (w * n)) = cmp_result m l r (w * n)"
proof (induction n arbitrary: l r)
  case 0
  then show ?case by (simp add: cmp_words.simps cmp_result_def load_bytes_def)
next
  case (Suc n)
  have "unat (of_nat (w * Suc n) :: u64) = w * Suc n"
    using Suc.prems(1) by (rule unat_u64_of_nat)
  then have "(of_nat (w * Suc n) :: u64) \<noteq> 0"
    using assms by (metis mult_is_0 nat.distinct(1) neq0_conv unsigned_0)
  then have ne: "l \<noteq> l + of_nat (w * Suc n)" by simp
  have l_eq: "l + of_nat (w * Suc n) = l + of_nat w + of_nat (w * n)"
    and r_eq: "r + of_nat (w * Suc n) = r + of_nat w + of_nat (w * n)" by simp_all
  have IH: "cmp_words w m (l + of_nat w) (r + of_nat w) (l + of_nat w + of_nat (w * n))
      = cmp_result m (l + of_nat w) (r + of_nat w) (w * n)"
    using Suc.prems by (intro Suc.IH) simp
  have app: "byte_diff (load_bytes m l (w * Suc n)) (load_bytes m r (w * Suc n))
    = (case byte_diff (load_bytes m l w) (load_bytes m r w) of
        None \<Rightarrow> byte_diff (load_bytes m (l + of_nat w) (w * n)) (load_bytes m (r + of_nat w) (w * n))
      | Some d \<Rightarrow> Some d)"
    by (simp only: mult_Suc_right load_bytes_append) (simp add: byte_diff_append)
  show ?case
  proof (cases "load_bytes m l w = load_bytes m r w")
    case True
    then have "byte_diff (load_bytes m l w) (load_bytes m r w) = None"
      by (simp add: byte_diff_None_iff)
    with True ne show ?thesis
      by (subst cmp_words.simps)
        (simp only: l_eq IH cmp_result_def app r_eq if_True if_False simp_thms option.case)
  next
    case False
    then obtain d where "byte_diff (load_bytes m l w) (load_bytes m r w) = Some d"
      by (metis byte_diff_None_iff length_load_bytes not_None_eq)
    with False ne show ?thesis
      by (subst cmp_words.simps)
        (simp only: cmp_result_def app if_True if_False simp_thms option.case)
  qed
qed

lemma cmp_bytes_below_region:
  "unat l + n < 18446744073709551616 \<Longrightarrow>
   cmp_bytes_below m l r (l + of_nat n) = cmp_result m l r n"
proof (induction n arbitrary: l r)
  case 0
  then show ?case by (simp add: cmp_bytes_below.simps cmp_result_def load_bytes_def)
next
  case (Suc n)
  have "unat (l + of_nat (Suc n)) = unat l + Suc n"
    using Suc.prems by (rule unat_u64_plus_of_nat)
  then have lt: "l < l + of_nat (Suc n)" unfolding word_less_nat_alt by simp
  have "unat (l + 1) = unat l + 1"
    using Suc.prems unat_u64_plus_of_nat [of l 1] by simp
  then have IH: "cmp_bytes_below m (l + 1) (r + 1) (l + 1 + of_nat n)
      = cmp_result m (l + 1) (r + 1) n"
    using Suc.prems by (intro Suc.IH) simp
  have cons: "load_bytes m p (Suc n) = m p # load_bytes m (p + 1) n" for p
    using load_bytes_append [of m p 1 n] by (simp add: load_bytes_def)
  have l_eq: "l + of_nat (Suc n) = l + 1 + of_nat n"
    and r_eq: "r + of_nat (Suc n) = r + 1 + of_nat n" by simp_all
  from lt show ?case
    by (subst cmp_bytes_below.simps)
      (cases "m l = m r"; simp only: l_eq r_eq IH cmp_result_def cons byte_diff.simps
        if_True if_False simp_thms option.case)
qed

lemma cmp_words_word:
  assumes "0 < w" "w dvd unat k"
  shows "cmp_words w m l r (l + k) = cmp_result m l r (unat k)"
proof -
  from assms(2) obtain n where n: "unat k = w * n" by (auto elim: dvdE)
  have "w * n < 18446744073709551616" using n unat_u64_less [of k] by simp
  from cmp_words_region [OF assms(1) this] n show ?thesis by (metis of_nat_unat_u64)
qed

text \<open>Comparing a region in two parts: the second decides when the first is equal.\<close>

lemma cmp_then_append:
  "cmp_then (cmp_result m l r n) (\<lambda>l' r'. cmp_then (cmp_result m l' r' k) f)
    = cmp_then (cmp_result m l r (n + k)) f"
proof -
  have "byte_diff (load_bytes m l (n + k)) (load_bytes m r (n + k)) =
    (case byte_diff (load_bytes m l n) (load_bytes m r n) of
       None \<Rightarrow> byte_diff (load_bytes m (l + of_nat n) k) (load_bytes m (r + of_nat n) k)
     | Some d \<Rightarrow> Some d)"
    by (simp add: load_bytes_append byte_diff_append)
  then show ?thesis
    by (simp add: cmp_then_def cmp_result_def add.assoc split: option.split)
qed

lemma cmp_then_result:
  "cmp_then (cmp_result m l r n) (\<lambda>_ _. Some 0) = Some (compare_region m l r n)"
  by (simp add: cmp_then_def cmp_result_def compare_region_def split: option.split)

lemma memcmp_aligned_correct:
  assumes w: "w \<in> {2, 4, 8}" and count: "of_nat w \<le> count"
  shows "memcmp_aligned w m lhs rhs count = Some (compare_region m lhs rhs (unat count))"
proof -
  define a where "a = lhs mod of_nat w"
  define q where "q = (count - a) div of_nat w * of_nat w"
  define r where "r = (count - a) mod of_nat w"
  have uw: "unat (of_nat w :: u64) = w" using w by auto
  have w0: "0 < w" using w by auto
  have ua: "unat a < w" using w uw by (auto simp: a_def unat_u64_mod)
  have wc: "w \<le> unat count" using count uw by (simp add: word_le_nat_alt)
  have uca: "unat (count - a) = unat count - unat a"
    using ua wc by (intro unat_u64_minus) (simp add: word_le_nat_alt)
  have uq: "unat q = (unat count - unat a) div w * w"
  proof -
    have "(unat count - unat a) div w * w \<le> unat count - unat a" by simp
    then have "(unat count - unat a) div w * w < 18446744073709551616"
      by (rule le_less_trans) (use unat_u64_less [of count] in linarith)
    then show ?thesis
      unfolding q_def by (subst unat_u64_mult) (simp_all add: unat_u64_div uca uw)
  qed
  have ur: "unat r = (unat count - unat a) mod w"
    by (simp add: r_def unat_u64_mod uca uw)
  have sum: "unat a + (unat q + unat r) = unat count"
    using ua wc by (simp add: uq ur)
  have dv: "w dvd unat q" by (simp add: uq)
  have byte: "cmp_words 1 m l r' (l + k) = cmp_result m l r' (unat k)" for l r' k
    by (simp add: cmp_words_word)
  have wide: "cmp_words w m l r' (l + q) = cmp_result m l r' (unat q)" for l r'
    using w0 dv by (rule cmp_words_word)
  show ?thesis
    unfolding memcmp_aligned_def Let_def a_def [symmetric] q_def [symmetric] r_def [symmetric]
    by (simp only: byte wide cmp_then_append sum) (rule cmp_then_result)
qed

text \<open>
  On non-null regions, \<open>memcmp\<close> returns, for every alignment and length, the
  difference of the first pair of bytes that differ, as unsigned characters, and 0
  when there is none; a null argument gives 0. Only the left region has to end inside
  the address space.
\<close>

theorem memcmp_correct:
  assumes "unat lhs + unat count < 18446744073709551616"
  shows "memcmp m lhs rhs count =
    Some (if lhs = 0 \<or> rhs = 0 then 0 else compare_region m lhs rhs (unat count))"
proof -
  have "memcmp_aligned 8 m lhs rhs count = Some (compare_region m lhs rhs (unat count))"
    if "8 \<le> count" using memcmp_aligned_correct [of 8] that by simp
  moreover have "memcmp_aligned 4 m lhs rhs count = Some (compare_region m lhs rhs (unat count))"
    if "4 \<le> count" using memcmp_aligned_correct [of 4] that by simp
  moreover have "memcmp_aligned 2 m lhs rhs count = Some (compare_region m lhs rhs (unat count))"
    if "2 \<le> count" using memcmp_aligned_correct [of 2] that by simp
  moreover have "cmp_bytes_below m lhs rhs (lhs + count) = cmp_result m lhs rhs (unat count)"
    using cmp_bytes_below_region [OF assms] by simp
  moreover have "compare_region m lhs rhs (unat count) = 0" if "count = 0 \<or> lhs = rhs"
  proof -
    from that have "load_bytes m lhs (unat count) = load_bytes m rhs (unat count)"
      by (auto simp: load_bytes_def)
    then have "byte_diff (load_bytes m lhs (unat count)) (load_bytes m rhs (unat count)) = None"
      by (simp add: byte_diff_None_iff)
    then show ?thesis by (simp add: compare_region_def)
  qed
  ultimately show ?thesis
    by (auto simp: memcmp_def cmp_then_result)
qed

text \<open>The result is 0 exactly on equal regions.\<close>

lemma compare_region_0_iff:
  "compare_region m l r n = 0 \<longleftrightarrow> (\<forall>i < n. m (l + of_nat i) = m (r + of_nat i))"
proof -
  have "compare_region m l r n = 0 \<longleftrightarrow> load_bytes m l n = load_bytes m r n"
    by (auto simp: compare_region_def byte_diff_None_iff split: option.split
        dest: byte_diff_nonzero) (metis byte_diff_None_iff length_load_bytes option.distinct(1))
  then show ?thesis by (auto simp: load_bytes_def)
qed

subsection \<open>The routines at work\<close>

theorem memset_correct_witness:
  "memset (\<lambda>_. 0) 13 0x41 5 = Some (fill (\<lambda>_. 0) 13 5 0x41, 13)"
  using memset_correct [of 13 5 "\<lambda>_. 0" "0x41"] by simp

theorem memcpy_correct_witness:
  "memcpy ucast 10 35 20 = Some (copy_region ucast 10 35 20, 10)"
  using memcpy_correct [of 35 20 10 ucast] by (simp add: copy_overlap_def)

theorem memmove_correct_witness:
  "memmove ucast 19 16 8 = Some (copy_region ucast 19 16 8, 19)"
  using memmove_correct [of 16 8 19 ucast] by (simp add: copy_overlap_def)

theorem memcmp_correct_witness:
  "memcmp (\<lambda>a. if a = 103 then 7 else 9) 100 200 4 = Some (-2)"
proof -
  have "compare_region (\<lambda>a. if a = 103 then 7 else 9) 100 200 4 = -2"
    by (simp add: compare_region_def load_bytes_def upt_rec)
  then show ?thesis
    using memcmp_correct [of 100 4 "\<lambda>a. if a = 103 then 7 else 9" 200] by simp
qed

end
