(* ===== verification/PhysMemTree.thy ===== *)
theory PhysMemTree
  imports PhysMemMap KString "HOL-Library.Monad_Syntax"
begin

text \<open>
  The physical memory tree (src/src/Kernel/Memory/PhysicalMemTreeGen.c, types in
  include/DexprOS/Kernel/Memory/PhysicalMemTree.h and PhysicalMemTreeGen.h): its size pass
  and its creation in one buffer. The buffer is a typed store: entry and level structs by
  their addresses, block bytes by theirs (\<open>inPlaceBlocks\<close> lies 24 bytes into its level
  struct, where \<open>sizeof\<close> a level is 32 and of an entry 64). A C \<open>for (;;)\<close> loop is a partial
  function, None when it never ends or divides by zero; a callback's user data is an
  option for the same reason.
\<close>

unbundle bit_operations_syntax

subsection \<open>The store\<close>

record tree_level =
  startMappedAddress :: u64
  blockSize :: u64
  numBlocks :: u64
  pBlocks :: u64

record tree_entry =
  entry_type :: mem_type
  entry_flags :: u64
  startAddress :: u64
  endAddress :: u64
  numPages :: u64
  pTreeLevels :: u64
  numTreeLevels :: u64
  pNextEntry :: u64

record tree_mem =
  entry_at :: "u64 \<Rightarrow> tree_entry"
  level_at :: "u64 \<Rightarrow> tree_level"
  byte_at :: mem

abbreviation ENTRY_SIZE :: u64 where "ENTRY_SIZE \<equiv> 64"
abbreviation LEVEL_SIZE :: u64 where "LEVEL_SIZE \<equiv> 32"
abbreviation IN_PLACE_OFFSET :: u64 where "IN_PLACE_OFFSET \<equiv> 24"
abbreviation IN_PLACE_SIZE :: u64 where "IN_PLACE_SIZE \<equiv> 8"

definition set_entry :: "u64 \<Rightarrow> (tree_entry \<Rightarrow> tree_entry) \<Rightarrow> tree_mem \<Rightarrow> tree_mem" where
  "set_entry p f tm = tm\<lparr>entry_at := (entry_at tm)(p := f (entry_at tm p))\<rparr>"

definition set_level :: "u64 \<Rightarrow> (tree_level \<Rightarrow> tree_level) \<Rightarrow> tree_mem \<Rightarrow> tree_mem" where
  "set_level p f tm = tm\<lparr>level_at := (level_at tm)(p := f (level_at tm p))\<rparr>"

text \<open>\<open>memset\<close> on block bytes.\<close>

definition memset_blocks :: "u64 \<Rightarrow> u32 \<Rightarrow> u64 \<Rightarrow> tree_mem \<Rightarrow> tree_mem option" where
  "memset_blocks p ch n tm = do { (m, _) \<leftarrow> memset (byte_at tm) p ch n; Some (tm\<lparr>byte_at := m\<rparr>) }"

text \<open>Where the blocks of the level struct at \<open>p\<close> are: the union member by the block count.\<close>

definition blocks_of :: "tree_mem \<Rightarrow> u64 \<Rightarrow> u64" where
  "blocks_of tm p =
     (if numBlocks (level_at tm p) > IN_PLACE_SIZE then pBlocks (level_at tm p)
      else p + IN_PLACE_OFFSET)"

subsection \<open>The size pass\<close>

record size_data =
  bufferAlignment :: u64
  bufferSize :: u64
  treeEntriesOffset :: u64
  numTreeEntries :: u64
  treeLevelStructsOffset :: u64
  numTreeLevelStructs :: u64
  blocksOffset :: u64
  totalBlocksSize :: u64

fun ShouldCreateTreeForType :: "mem_type \<Rightarrow> bool" where
  "ShouldCreateTreeForType TYPE_USABLE = True"
| "ShouldCreateTreeForType TYPE_USABLE_PERSISTENT = True"
| "ShouldCreateTreeForType _ = False"

text \<open>The two statements that round the mapped range to the blocks of a level.\<close>

definition round_min :: "u64 \<Rightarrow> u64 \<Rightarrow> u64" where
  "round_min bs x = (x div bs) * bs"

definition round_max :: "u64 \<Rightarrow> u64 \<Rightarrow> u64" where
  "round_max bs x = ((x + bs - 1) div bs) * bs"

definition count_level :: "u64 \<Rightarrow> size_data \<Rightarrow> size_data" where
  "count_level n d =
     (let d = d\<lparr>numTreeLevelStructs := numTreeLevelStructs d + 1\<rparr>
      in if n > IN_PLACE_SIZE then d\<lparr>totalBlocksSize := totalBlocksSize d + n\<rparr> else d)"

partial_function (option) calc_loop :: "u64 \<Rightarrow> u64 \<Rightarrow> u64 \<Rightarrow> size_data \<Rightarrow> size_data option" where
  "calc_loop bs mn mx d =
     (if bs = 0 then None
      else let mn = round_min bs mn; mx = round_max bs mx; n = (mx - mn) div bs;
               d = count_level n d
           in if n \<le> 1 then Some d else calc_loop (bs * 2) mn mx d)"

definition CalcTreeEntryElements ::
  "u64 \<Rightarrow> u64 \<Rightarrow> mem_type \<Rightarrow> u64 \<Rightarrow> size_data option \<Rightarrow> size_data option" where
  "CalcTreeEntryElements address rangeSize memType memFlags data = do {
     d \<leftarrow> data;
     if \<not> ShouldCreateTreeForType memType then Some d
     else calc_loop PAGE_SIZE address (address + rangeSize)
       (d\<lparr>numTreeEntries := numTreeEntries d + 1\<rparr>) }"

definition GetPhysicalMemTreeSize :: "init_entry list \<Rightarrow> size_data option" where
  "GetPhysicalMemTreeSize pInitialMap = do {
     d \<leftarrow> iterate_combined CalcTreeEntryElements pInitialMap
       (Some \<lparr>bufferAlignment = FUNDAMENTAL_ALIGNMENT, bufferSize = 0, treeEntriesOffset = 0,
              numTreeEntries = 0, treeLevelStructsOffset = 0, numTreeLevelStructs = 0,
              blocksOffset = 0, totalBlocksSize = 0\<rparr>);
     let sz = ALIGN (ENTRY_SIZE * numTreeEntries d) FUNDAMENTAL_ALIGNMENT;
     let d = d\<lparr>treeLevelStructsOffset := sz\<rparr>;
     let sz = ALIGN (sz + LEVEL_SIZE * numTreeLevelStructs d) FUNDAMENTAL_ALIGNMENT;
     let d = d\<lparr>blocksOffset := sz\<rparr>;
     let sz = sz + totalBlocksSize d;
     Some (d\<lparr>bufferSize := sz\<rparr>) }"

subsection \<open>Creation\<close>

record create_data =
  cd_mem :: tree_mem
  cd_sizeData :: size_data
  cd_pEntries :: u64
  cd_pLevels :: u64
  cd_pBlocks :: u64
  cd_treeEntryIndex :: u64
  cd_treeLevelStructIndex :: u64
  cd_blockIndex :: u64
  cd_success :: bool

definition CreateTreeLevelBlocks :: "u64 \<Rightarrow> create_data \<Rightarrow> (bool \<times> create_data) option" where
  "CreateTreeLevelBlocks pLevel cd =
     (let n = numBlocks (level_at (cd_mem cd) pLevel) in
      if n > IN_PLACE_SIZE then
        let p = cd_pBlocks cd + cd_blockIndex cd;
            cd = cd\<lparr>cd_mem := set_level pLevel (pBlocks_update (\<lambda>_. p)) (cd_mem cd),
                    cd_blockIndex := cd_blockIndex cd + n\<rparr>
        in if cd_blockIndex cd > totalBlocksSize (cd_sizeData cd) then Some (False, cd)
           else do { tm \<leftarrow> memset_blocks p 0 n (cd_mem cd); Some (True, cd\<lparr>cd_mem := tm\<rparr>) }
      else do { tm \<leftarrow> memset_blocks (pLevel + IN_PLACE_OFFSET) 0 IN_PLACE_SIZE (cd_mem cd);
                Some (True, cd\<lparr>cd_mem := tm\<rparr>) })"

partial_function (option) count_levels :: "u64 \<Rightarrow> u64 \<Rightarrow> u64 \<Rightarrow> u64 \<Rightarrow> u64 option" where
  "count_levels bs mn mx numLevels =
     (if bs = 0 then None
      else let numLevels = numLevels + 1; mn = round_min bs mn; mx = round_max bs mx;
               n = (mx - mn) div bs
           in if n \<le> 1 then Some numLevels else count_levels (bs * 2) mn mx numLevels)"

definition CreateTreeLevels :: "u64 \<Rightarrow> create_data \<Rightarrow> (bool \<times> create_data) option" where
  "CreateTreeLevels pEntry cd = do {
     let e = entry_at (cd_mem cd) pEntry;
     numLevels \<leftarrow> count_levels PAGE_SIZE (startAddress e) (endAddress e) 0;
     let cd = cd\<lparr>cd_mem := set_entry pEntry (numTreeLevels_update (\<lambda>_. numLevels)) (cd_mem cd),
                 cd_treeLevelStructIndex := cd_treeLevelStructIndex cd + numLevels\<rparr>;
     Some (\<not> cd_treeLevelStructIndex cd > numTreeLevelStructs (cd_sizeData cd), cd) }"

text \<open>
  The first loop fills the level structs from the last one (pages) to the first; here
  \<open>left\<close> counts the iterations left, so that \<open>iLevel = left - 1\<close>.
\<close>

fun fill_level_structs :: "u64 \<Rightarrow> nat \<Rightarrow> u64 \<Rightarrow> u64 \<Rightarrow> u64 \<Rightarrow> tree_mem \<Rightarrow> tree_mem" where
  "fill_level_structs pLevels 0 bs mn mx tm = tm"
| "fill_level_structs pLevels (Suc left) bs mn mx tm =
     (let mn = round_min bs mn; mx = round_max bs mx;
          tm = set_level (pLevels + LEVEL_SIZE * of_nat left)
            (\<lambda>lv. lv\<lparr>startMappedAddress := mn, blockSize := bs, numBlocks := (mx - mn) div bs\<rparr>) tm
      in fill_level_structs pLevels left (bs * 2) mn mx tm)"

text \<open>The second loop creates the blocks of the levels, and stops at the first failure.\<close>

fun create_blocks :: "u64 list \<Rightarrow> create_data \<Rightarrow> (bool \<times> create_data) option" where
  "create_blocks [] cd = Some (True, cd)"
| "create_blocks (p # ps) cd = do {
     (ok, cd) \<leftarrow> CreateTreeLevelBlocks p cd;
     if ok then create_blocks ps cd else Some (False, cd) }"

definition level_addrs :: "tree_entry \<Rightarrow> u64 list" where
  "level_addrs e =
     map (\<lambda>i. pTreeLevels e + LEVEL_SIZE * of_nat i) [0..<unat (numTreeLevels e)]"

definition FillTreeLevelStructs :: "u64 \<Rightarrow> create_data \<Rightarrow> (bool \<times> create_data) option" where
  "FillTreeLevelStructs pEntry cd =
     (let e = entry_at (cd_mem cd) pEntry
      in create_blocks (level_addrs e)
          (cd\<lparr>cd_mem := fill_level_structs (pTreeLevels e) (unat (numTreeLevels e)) PAGE_SIZE
             (startAddress e) (endAddress e) (cd_mem cd)\<rparr>))"

definition CreateTreeForMemoryRange ::
  "u64 \<Rightarrow> u64 \<Rightarrow> mem_type \<Rightarrow> u64 \<Rightarrow> create_data option \<Rightarrow> create_data option" where
  "CreateTreeForMemoryRange address rangeSize memType memFlags data = do {
     cd \<leftarrow> data;
     if \<not> ShouldCreateTreeForType memType then Some cd
     else do {
       let pEntry = cd_pEntries cd + ENTRY_SIZE * cd_treeEntryIndex cd;
       let cd = (if cd_treeEntryIndex cd > 0
             then cd\<lparr>cd_mem := set_entry (pEntry - ENTRY_SIZE) (pNextEntry_update (\<lambda>_. pEntry))
                      (cd_mem cd)\<rparr>
             else cd);
       let cd = cd\<lparr>cd_treeEntryIndex := cd_treeEntryIndex cd + 1\<rparr>;
       if cd_treeEntryIndex cd > numTreeEntries (cd_sizeData cd)
       then Some (cd\<lparr>cd_success := False\<rparr>)
       else do {
         let cd = cd\<lparr>cd_mem := set_entry pEntry (\<lambda>_.
               \<lparr>entry_type = memType, entry_flags = memFlags, startAddress = address,
                endAddress = address + rangeSize, numPages = rangeSize div PAGE_SIZE,
                pTreeLevels = cd_pLevels cd + LEVEL_SIZE * cd_treeLevelStructIndex cd,
                numTreeLevels = 0, pNextEntry = 0\<rparr>) (cd_mem cd)\<rparr>;
         (ok, cd) \<leftarrow> CreateTreeLevels pEntry cd;
         let cd = (if ok then cd else cd\<lparr>cd_success := False\<rparr>);
         (ok, cd) \<leftarrow> FillTreeLevelStructs pEntry cd;
         Some (if ok then cd else cd\<lparr>cd_success := False\<rparr>) } } }"

text \<open>The success flag, the tree (the address of its first entry) and the store.\<close>

definition CreatePhysicalMemTree ::
  "init_entry list \<Rightarrow> u64 \<Rightarrow> size_data \<Rightarrow> tree_mem \<Rightarrow> (bool \<times> u64 \<times> tree_mem) option" where
  "CreatePhysicalMemTree pInitialMap pBuffer sizeData tm = do {
     cd \<leftarrow> iterate_combined CreateTreeForMemoryRange pInitialMap
       (Some \<lparr>cd_mem = tm, cd_sizeData = sizeData,
              cd_pEntries = pBuffer + treeEntriesOffset sizeData,
              cd_pLevels = pBuffer + treeLevelStructsOffset sizeData,
              cd_pBlocks = pBuffer + blocksOffset sizeData,
              cd_treeEntryIndex = 0, cd_treeLevelStructIndex = 0, cd_blockIndex = 0,
              cd_success = True\<rparr>);
     Some (cd_success cd, cd_pEntries cd, cd_mem cd) }"

subsection \<open>The geometry of the levels\<close>

text \<open>
  Level \<open>k\<close> (counted from the pages) covers the range from \<open>a\<close> to \<open>b\<close> with blocks of
  \<open>bsz k\<close> bytes; the tree ends at the first level of at most one block.
\<close>

definition bsz :: "nat \<Rightarrow> nat" where
  "bsz k = 2 ^ (12 + k)"

definition lmin :: "nat \<Rightarrow> nat \<Rightarrow> nat" where
  "lmin k a = a div bsz k * bsz k"

definition lmax :: "nat \<Rightarrow> nat \<Rightarrow> nat" where
  "lmax k b = (b + bsz k - 1) div bsz k * bsz k"

definition lnum :: "nat \<Rightarrow> nat \<Rightarrow> nat \<Rightarrow> nat" where
  "lnum k a b = (lmax k b - lmin k a) div bsz k"

definition depth :: "nat \<Rightarrow> nat \<Rightarrow> nat" where
  "depth a b = Suc (length (takeWhile (\<lambda>k. lnum k a b > 1) [0..<51]))"

lemma bsz_pos [simp]: "0 < bsz k"
  by (simp add: bsz_def)

lemma bsz_Suc: "bsz (Suc k) = 2 * bsz k"
  unfolding bsz_def add_Suc_right power_Suc ..

lemma bsz_dvd: "j \<le> k \<Longrightarrow> bsz j dvd bsz k"
  unfolding bsz_def by (rule le_imp_power_dvd) simp

lemma lmin_le: "lmin k a \<le> a"
  by (simp add: lmin_def)

lemma lmin_dvd [simp]: "bsz k dvd lmin k a"
  by (simp add: lmin_def)

lemma lmax_dvd [simp]: "bsz k dvd lmax k b"
  by (simp add: lmax_def)

lemma lmax_ge: "b \<le> lmax k b"
proof -
  have "(b + bsz k - 1) mod bsz k < bsz k" by simp
  moreover have "(b + bsz k - 1) div bsz k * bsz k + (b + bsz k - 1) mod bsz k = b + bsz k - 1"
    by simp
  ultimately show ?thesis unfolding lmax_def using bsz_pos [of k] by linarith
qed

lemma lmax_least: "bsz k dvd c \<Longrightarrow> b \<le> c \<Longrightarrow> lmax k b \<le> c"
proof -
  assume "bsz k dvd c" "b \<le> c"
  then obtain q where c: "c = bsz k * q" by blast
  have "b + bsz k - 1 < bsz k * Suc q" using \<open>b \<le> c\<close> bsz_pos [of k] unfolding c mult_Suc_right by linarith
  then have "(b + bsz k - 1) div bsz k < Suc q" by (simp add: less_mult_imp_div_less mult.commute)
  then show ?thesis unfolding lmax_def c by (simp add: mult.commute)
qed

lemma lmin_greatest: "bsz k dvd c \<Longrightarrow> c \<le> a \<Longrightarrow> c \<le> lmin k a"
  unfolding lmin_def by (metis div_le_mono dvd_div_mult_self mult_le_mono1)

lemma lmin_lmin: "j \<le> k \<Longrightarrow> lmin k (lmin j a) = lmin k a"
  by (meson bsz_dvd dvd_trans le_antisym lmin_dvd lmin_greatest lmin_le order_trans)

lemma lmax_lmax: "j \<le> k \<Longrightarrow> lmax k (lmax j b) = lmax k b"
  by (meson bsz_dvd dvd_trans le_antisym lmax_dvd lmax_least lmax_ge order_trans)

lemma bsz_51: "bsz 51 = 2 ^ 63"
  by (simp add: bsz_def)

lemma lmax_bound: "b \<le> 2 ^ 63 \<Longrightarrow> k \<le> 51 \<Longrightarrow> lmax k b \<le> 2 ^ 63"
  using bsz_dvd [of k 51] unfolding bsz_51 by (rule lmax_least)

lemma lmin_mono: "a \<le> b \<Longrightarrow> lmin k a \<le> lmax k b"
  using lmin_le [of k a] lmax_ge [of b k] by linarith

lemma lnum_mult: "a \<le> b \<Longrightarrow> lnum k a b * bsz k = lmax k b - lmin k a"
  by (simp add: lnum_def)

lemma lmax_eq: "a \<le> b \<Longrightarrow> lmax k b = lmin k a + lnum k a b * bsz k"
  using lmin_mono [of a b k] by (simp add: lnum_mult)

lemma lnum_top: "a \<le> b \<Longrightarrow> b \<le> 2 ^ 63 \<Longrightarrow> lnum 51 a b \<le> 1"
  using lmax_bound [of b 51] by (auto simp: lnum_def bsz_def div_le_mono [of _ "2 ^ 63" "2 ^ 63", simplified])

lemma depth_le: "depth a b \<le> 52"
  using length_takeWhile_le [of _ "[0..<51]"] by (simp add: depth_def)

lemma depth_below:
  assumes "k < depth a b - 1"
  shows "1 < lnum k a b"
proof -
  let ?t = "takeWhile (\<lambda>k. lnum k a b > 1) [0..<51]"
  have k: "k < length ?t" using assms by (simp add: depth_def)
  then have "k < 51" using length_takeWhile_le [of "\<lambda>k. lnum k a b > 1" "[0..<51]"] by simp
  then have "?t ! k = k" using takeWhile_nth [OF k] by simp
  with nth_mem [OF k] set_takeWhileD show ?thesis by metis
qed

lemma depth_last: "a \<le> b \<Longrightarrow> b \<le> 2 ^ 63 \<Longrightarrow> lnum (depth a b - 1) a b \<le> 1"
proof -
  assume ab: "a \<le> b" "b \<le> 2 ^ 63"
  let ?t = "takeWhile (\<lambda>k. lnum k a b > 1) [0..<51]"
  show ?thesis
  proof (cases "length ?t < 51")
    case True
    then show ?thesis
      using nth_length_takeWhile [of "\<lambda>k. lnum k a b > 1" "[0..<51]"] by (simp add: depth_def)
  next
    case False
    then have "length ?t = 51" using length_takeWhile_le [of _ "[0..<51]"] by (metis diff_zero length_upt nat_less_le)
    then show ?thesis using lnum_top [OF ab] by (simp add: depth_def)
  qed
qed

subsection \<open>The loops over the levels\<close>

definition bszw :: "nat \<Rightarrow> u64" where
  "bszw k = of_nat (bsz k)"

lemma bsz_le: "k \<le> 51 \<Longrightarrow> bsz k \<le> 2 ^ 63"
  using bsz_dvd [of k 51] unfolding bsz_51 by (rule dvd_imp_le) simp_all

lemma unat_bszw [simp]: "k \<le> 51 \<Longrightarrow> unat (bszw k) = bsz k"
  using bsz_le [of k] unfolding bszw_def by (intro unat_u64_of_nat) simp

lemma bszw_nonzero [simp]: "k \<le> 51 \<Longrightarrow> bszw k \<noteq> 0"
  using unat_bszw [of k] bsz_pos [of k] by (metis less_irrefl unat_0)

lemma bszw_Suc: "bszw k * 2 = bszw (Suc k)"
  by (simp add: bszw_def bsz_Suc mult.commute)

lemma bszw_0: "bszw 0 = PAGE_SIZE"
  by (simp add: bszw_def bsz_def)

lemma unat_round_min: "k \<le> 51 \<Longrightarrow> unat (round_min (bszw k) x) = lmin k (unat x)"
  unfolding round_min_def lmin_def
  using unat_u64_less [of x] by (subst unat_u64_mult) (auto simp: unat_u64_div intro: le_less_trans [OF div_times_less_eq_dividend])

lemma unat_round_max:
  assumes "k \<le> 51" "unat x \<le> 2 ^ 63"
  shows "unat (round_max (bszw k) x) = lmax k (unat x)"
proof -
  have "unat (bszw k - 1) = bsz k - 1"
    using bsz_pos [of k] assms(1) by (subst unat_u64_minus) (auto simp: word_le_nat_alt Suc_le_eq)
  moreover have "bsz k \<le> 2 ^ 63" by (rule bsz_le [OF assms(1)])
  ultimately have "unat (x + (bszw k - 1)) = unat x + bsz k - 1"
    using assms(2) bsz_pos [of k] by (subst unat_u64_plus) (auto simp: Suc_le_eq)
  then have sum: "unat (x + bszw k - 1) = unat x + bsz k - 1" by (simp add: algebra_simps)
  have "(unat x + bsz k - 1) div bsz k * bsz k \<le> 2 ^ 63"
    using lmax_bound [OF assms(2,1)] by (simp add: lmax_def)
  then show ?thesis
    unfolding round_max_def lmax_def using assms(1)
    by (subst unat_u64_mult) (simp_all add: unat_u64_div sum)
qed

text \<open>What holds of the two loop variables before level \<open>k\<close>.\<close>

definition tracks :: "nat \<Rightarrow> nat \<Rightarrow> nat \<Rightarrow> u64 \<Rightarrow> u64 \<Rightarrow> bool" where
  "tracks k a b mn mx \<longleftrightarrow> lmin k (unat mn) = lmin k a \<and> lmax k (unat mx) = lmax k b
     \<and> unat mx \<le> 2 ^ 63"

definition lnumw :: "nat \<Rightarrow> nat \<Rightarrow> nat \<Rightarrow> u64" where
  "lnumw k a b = of_nat (lnum k a b)"

lemma lnum_bound: "b \<le> 2 ^ 63 \<Longrightarrow> k \<le> 51 \<Longrightarrow> lnum k a b \<le> 2 ^ 51"
proof -
  assume b: "b \<le> 2 ^ 63" "k \<le> 51"
  have "lnum k a b \<le> lmax k b div bsz k" unfolding lnum_def by (intro div_le_mono) simp
  also have "\<dots> \<le> 2 ^ 63 div bsz k" using lmax_bound [OF b] by (rule div_le_mono)
  also have "\<dots> \<le> 2 ^ 63 div bsz 0" by (rule div_le_mono2) (auto intro: dvd_imp_le bsz_dvd)
  also have "\<dots> = 2 ^ 51" by (simp add: bsz_def)
  finally show ?thesis .
qed

lemma unat_lnumw: "b \<le> 2 ^ 63 \<Longrightarrow> k \<le> 51 \<Longrightarrow> unat (lnumw k a b) = lnum k a b"
  using lnum_bound [of b k a] unfolding lnumw_def by (intro unat_u64_of_nat) simp

lemma tracks_step:
  assumes "tracks k a b mn mx" "k \<le> 51" "a \<le> b" "b \<le> 2 ^ 63"
  shows "unat (round_min (bszw k) mn) = lmin k a" "unat (round_max (bszw k) mx) = lmax k b"
    "(round_max (bszw k) mx - round_min (bszw k) mn) div bszw k = lnumw k a b"
    "tracks (Suc k) a b (round_min (bszw k) mn) (round_max (bszw k) mx)"
proof -
  show mn: "unat (round_min (bszw k) mn) = lmin k a"
    using assms by (simp add: unat_round_min tracks_def)
  show mx: "unat (round_max (bszw k) mx) = lmax k b"
    using assms by (simp add: unat_round_max tracks_def)
  have "round_min (bszw k) mn \<le> round_max (bszw k) mx"
    using lmin_mono [OF assms(3)] by (simp add: word_le_nat_alt mn mx)
  then have "unat ((round_max (bszw k) mx - round_min (bszw k) mn) div bszw k) = lnum k a b"
    using assms(2) by (simp add: unat_u64_div unat_u64_minus mn mx lnum_def)
  then show "(round_max (bszw k) mx - round_min (bszw k) mn) div bszw k = lnumw k a b"
    by (metis lnumw_def of_nat_unat_u64)
  show "tracks (Suc k) a b (round_min (bszw k) mn) (round_max (bszw k) mx)"
    using lmax_bound [OF assms(4,2)]
    by (simp add: tracks_def mn mx lmin_lmin [of k "Suc k"] lmax_lmax [of k "Suc k"])
qed

lemma tracks_0:
  "unat mn = a \<Longrightarrow> unat mx = b \<Longrightarrow> b \<le> 2 ^ 63 \<Longrightarrow> tracks 0 a b mn mx"
  by (simp add: tracks_def)

lemma lnumw_le_1: "b \<le> 2 ^ 63 \<Longrightarrow> k \<le> 51 \<Longrightarrow> lnumw k a b \<le> 1 \<longleftrightarrow> lnum k a b \<le> 1"
  by (simp add: word_le_nat_alt unat_lnumw)

text \<open>A loop goes on exactly below the last level.\<close>

lemma loop_continues:
  assumes "k < depth a b" "a \<le> b" "b \<le> 2 ^ 63"
  shows "lnumw k a b \<le> 1 \<longleftrightarrow> Suc k = depth a b"
proof -
  have k: "k \<le> 51" using assms(1) depth_le [of a b] by simp
  show ?thesis
  proof (cases "Suc k = depth a b")
    case True
    then show ?thesis using depth_last [OF assms(2,3)] by (simp add: lnumw_le_1 [OF assms(3) k] flip: True)
  next
    case False
    then show ?thesis using depth_below [of k a b] assms(1)
      by (simp add: lnumw_le_1 [OF assms(3) k] not_le less_diff_conv)
  qed
qed

end
