(* ===== verification/PhysMemTreeCreate.thy ===== *)
theory PhysMemTreeCreate
  imports PhysMemTree
begin

text \<open>
  The creation of the physical memory tree is shown correct: the loops over the levels
  end and agree with each other, the counters of the size pass are what creation uses,
  and the tree that creation leaves in the buffer is the one the ranges call for.
\<close>

unbundle bit_operations_syntax

subsection \<open>The loops over the levels\<close>

definition level_geometry :: "nat \<Rightarrow> nat \<Rightarrow> nat \<Rightarrow> tree_level \<Rightarrow> tree_level" where
  "level_geometry a b k lv = lv\<lparr>startMappedAddress := of_nat (lmin k a), blockSize := bszw k,
     numBlocks := lnumw k a b\<rparr>"

text \<open>The address of level \<open>k\<close> (from the pages) in an array of \<open>D\<close> levels at \<open>p\<close>.\<close>

definition level_addr :: "u64 \<Rightarrow> nat \<Rightarrow> nat \<Rightarrow> u64" where
  "level_addr p D k = p + LEVEL_SIZE * of_nat (D - 1 - k)"

lemma level_step:
  assumes "tracks k a b mn mx" "k < depth a b" "a \<le> b" "b \<le> 2 ^ 63"
  shows "bszw k \<noteq> 0"
    "(round_max (bszw k) mx - round_min (bszw k) mn) div bszw k = lnumw k a b"
    "lnumw k a b \<le> 1 \<longleftrightarrow> Suc k = depth a b"
    "tracks (Suc k) a b (round_min (bszw k) mn) (round_max (bszw k) mx)"
    "round_min (bszw k) mn = of_nat (lmin k a)"
proof -
  have k: "k \<le> 51" using assms(2) depth_le [of a b] by simp
  note step = tracks_step [OF assms(1) k assms(3,4)]
  show "bszw k \<noteq> 0" using k by simp
  show "(round_max (bszw k) mx - round_min (bszw k) mn) div bszw k = lnumw k a b"
    by (rule step)
  show "lnumw k a b \<le> 1 \<longleftrightarrow> Suc k = depth a b" by (rule loop_continues [OF assms(2-4)])
  show "tracks (Suc k) a b (round_min (bszw k) mn) (round_max (bszw k) mx)" by (rule step)
  show "round_min (bszw k) mn = of_nat (lmin k a)" by (metis step(1) of_nat_unat_u64)
qed

lemma calc_loop_levels:
  assumes "tracks k a b mn mx" "k < depth a b" "a \<le> b" "b \<le> 2 ^ 63"
  shows "calc_loop (bszw k) mn mx d
    = Some (fold (\<lambda>j. count_level (lnumw j a b)) [k..<depth a b] d)"
  using assms
proof (induction "depth a b - k" arbitrary: k mn mx d)
  case (Suc x)
  note step = level_step [OF Suc.prems]
  show ?case
  proof (cases "Suc k = depth a b")
    case True
    then show ?thesis
      using step(1-3) by (subst calc_loop.simps) (simp add: Let_def upt_rec [of k])
  next
    case False
    with Suc.hyps(2) Suc.prems(2) have "x = depth a b - Suc k" "Suc k < depth a b" by simp_all
    from Suc.hyps(1) [OF this(1) step(4) this(2) Suc.prems(3,4)] show ?thesis
      using step(1-3) False Suc.prems(2)
      by (subst calc_loop.simps) (simp add: Let_def bszw_Suc upt_rec [of k])
  qed
qed simp

lemma count_levels_depth:
  assumes "tracks k a b mn mx" "k < depth a b" "a \<le> b" "b \<le> 2 ^ 63"
  shows "count_levels (bszw k) mn mx c = Some (c + of_nat (depth a b - k))"
  using assms
proof (induction "depth a b - k" arbitrary: k mn mx c)
  case (Suc x)
  note step = level_step [OF Suc.prems]
  show ?case
  proof (cases "Suc k = depth a b")
    case True
    then show ?thesis
      using step(1-3) by (subst count_levels.simps) (simp add: Let_def flip: True)
  next
    case False
    with Suc.hyps(2) Suc.prems(2) have x: "x = depth a b - Suc k" "Suc k < depth a b" by simp_all
    have "(of_nat (depth a b - k) :: u64) = 1 + of_nat (depth a b - Suc k)"
      by (metis x(1) Suc.hyps(2) of_nat_Suc)
    with Suc.hyps(1) [OF x(1) step(4) x(2) Suc.prems(3,4), of "c + 1"] show ?thesis
      using step(1-3) False
      by (subst count_levels.simps) (simp add: Let_def bszw_Suc algebra_simps)
  qed
qed simp

lemma fill_level_structs_fold:
  assumes "tracks k a b mn mx" "k \<le> depth a b" "a \<le> b" "b \<le> 2 ^ 63"
  shows "fill_level_structs p (depth a b - k) (bszw k) mn mx tm
    = fold (\<lambda>j. set_level (level_addr p (depth a b) j) (level_geometry a b j)) [k..<depth a b] tm"
  using assms
proof (induction "depth a b - k" arbitrary: k mn mx tm)
  case (Suc x)
  then have k: "k < depth a b" by simp
  note step = level_step [OF Suc.prems(1) k Suc.prems(3,4)]
  have x: "depth a b - k = Suc x" "x = depth a b - Suc k" "depth a b - 1 - k = x"
    using Suc.hyps(2) by simp_all
  have one: "(\<lambda>lv. lv\<lparr>startMappedAddress := round_min (bszw k) mn, blockSize := bszw k,
      numBlocks := (round_max (bszw k) mx - round_min (bszw k) mn) div bszw k\<rparr>) = level_geometry a b k"
    unfolding step(2) unfolding step(5) by (simp add: level_geometry_def fun_eq_iff)
  have "fill_level_structs p (Suc x) (bszw k) mn mx tm =
      fill_level_structs p x (bszw (Suc k)) (round_min (bszw k) mn) (round_max (bszw k) mx)
        (set_level (level_addr p (depth a b) k) (level_geometry a b k) tm)"
    by (simp add: Let_def one bszw_Suc level_addr_def del: of_nat_Suc flip: x(2))
  also have "\<dots> = fold (\<lambda>j. set_level (level_addr p (depth a b) j) (level_geometry a b j))
      [Suc k..<depth a b] (set_level (level_addr p (depth a b) k) (level_geometry a b k) tm)"
    using Suc.hyps(1) [OF x(2) step(4) _ Suc.prems(3,4)] k by (simp add: x(2))
  finally show ?case by (simp add: x(1) upt_rec [of k] k)
qed simp

subsection \<open>What the size pass computes\<close>

text \<open>The ranges that get a tree, their levels in array order, and the bytes they use.\<close>

definition tree_ranges :: "init_entry list \<Rightarrow> phys_range list" where
  "tree_ranges es = filter (\<lambda>r. ShouldCreateTreeForType (range_type r)) (combined_ranges es)"

definition rdepth :: "phys_range \<Rightarrow> nat" where
  "rdepth r = depth (range_start r) (range_end r)"

definition rnum :: "phys_range \<Rightarrow> nat \<Rightarrow> nat" where
  "rnum r k = lnum k (range_start r) (range_end r)"

definition range_levels :: "phys_range \<Rightarrow> (phys_range \<times> nat) list" where
  "range_levels r = map (Pair r) (rev [0..<rdepth r])"

definition flat :: "phys_range list \<Rightarrow> (phys_range \<times> nat) list" where
  "flat rs = concat (map range_levels rs)"

definition own_bytes :: "phys_range \<times> nat \<Rightarrow> nat" where
  "own_bytes l = (let n = rnum (fst l) (snd l) in if n > 8 then n else 0)"

definition block_bytes :: "(phys_range \<times> nat) list \<Rightarrow> nat" where
  "block_bytes ls = sum_list (map own_bytes ls)"

definition tree_bytes :: "phys_range list \<Rightarrow> nat" where
  "tree_bytes rs = 64 * length rs + 32 * length (flat rs) + block_bytes (flat rs)"

definition size_of_tree :: "phys_range list \<Rightarrow> size_data" where
  "size_of_tree rs =
     \<lparr>bufferAlignment = 16, bufferSize = of_nat (tree_bytes rs), treeEntriesOffset = 0,
      numTreeEntries = of_nat (length rs), treeLevelStructsOffset = of_nat (64 * length rs),
      numTreeLevelStructs = of_nat (length (flat rs)),
      blocksOffset = of_nat (64 * length rs + 32 * length (flat rs)),
      totalBlocksSize = of_nat (block_bytes (flat rs))\<rparr>"

definition low_range :: "phys_range \<Rightarrow> bool" where
  "low_range r \<longleftrightarrow> range_end r \<le> 2 ^ 63"

lemma length_range_levels [simp]: "length (range_levels r) = rdepth r"
  by (simp add: range_levels_def)

lemma nth_range_levels [simp]: "q < rdepth r \<Longrightarrow> range_levels r ! q = (r, rdepth r - 1 - q)"
  by (simp add: range_levels_def rev_nth)

lemma flat_simps [simp]: "flat [] = []" "flat (rs @ rs') = flat rs @ flat rs'"
  "flat (r # rs) = range_levels r @ flat rs"
  by (simp_all add: flat_def)

lemma block_bytes_simps [simp]: "block_bytes [] = 0"
  "block_bytes (ls @ ls') = block_bytes ls + block_bytes ls'"
  "block_bytes (l # ls) = own_bytes l + block_bytes ls"
  by (simp_all add: block_bytes_def)

lemma range_start_le_end: "range_start r \<le> range_end r"
  by (simp add: range_start_def range_end_def)

lemma rdepth_pos [simp]: "0 < rdepth r"
  by (simp add: rdepth_def depth_def)

lemma rdepth_le: "rdepth r \<le> 52"
  by (simp add: rdepth_def depth_le)

lemma rnum_bound: "low_range r \<Longrightarrow> k < rdepth r \<Longrightarrow> rnum r k \<le> 2 ^ 51"
  using rdepth_le [of r] lnum_bound [of "range_end r" k "range_start r"]
  by (simp add: rnum_def low_range_def)

lemma range_words:
  assumes "low_range r"
  shows "unat (range_address r) = range_start r" "unat (range_address r + range_size r) = range_end r"
    "tracks 0 (range_start r) (range_end r) (range_address r) (range_address r + range_size r)"
proof -
  show *: "unat (range_address r) = range_start r" by (simp add: range_start_def)
  show **: "unat (range_address r + range_size r) = range_end r"
    using assms by (simp add: low_range_def range_end_def unat_u64_plus)
  show "tracks 0 (range_start r) (range_end r) (range_address r) (range_address r + range_size r)"
    using * ** assms by (intro tracks_0) (simp_all add: low_range_def)
qed

lemma count_level_eq:
  "unat n = N \<Longrightarrow> count_level n d = d\<lparr>numTreeLevelStructs := numTreeLevelStructs d + 1,
     totalBlocksSize := totalBlocksSize d + of_nat (if 8 < N then N else 0)\<rparr>"
  by (auto simp: count_level_def Let_def word_less_nat_alt)

lemma count_level_fold:
  assumes "low_range r" "D \<le> rdepth r"
  shows "fold (\<lambda>k. count_level (lnumw k (range_start r) (range_end r))) [0..<D] d
    = d\<lparr>numTreeLevelStructs := numTreeLevelStructs d + of_nat D,
        totalBlocksSize := totalBlocksSize d + of_nat (block_bytes (map (Pair r) [0..<D]))\<rparr>"
  using assms(2)
proof (induction D)
  case (Suc D)
  have "unat (lnumw D (range_start r) (range_end r)) = rnum r D"
    using assms(1) Suc.prems rdepth_le [of r] by (simp add: unat_lnumw low_range_def rnum_def)
  from count_level_eq [OF this] Suc show ?case
    by (simp add: own_bytes_def Let_def algebra_simps)
qed simp

lemma block_bytes_range: "block_bytes (map (Pair r) [0..<rdepth r]) = block_bytes (range_levels r)"
  by (simp add: block_bytes_def range_levels_def sum_list_rev rev_map comp_def flip: rev_map)

lemma calc_range:
  assumes "low_range r"
  shows "call_range CalcTreeEntryElements r (Some d) =
    (if ShouldCreateTreeForType (range_type r)
     then Some (d\<lparr>numTreeEntries := numTreeEntries d + 1,
                  numTreeLevelStructs := numTreeLevelStructs d + of_nat (rdepth r),
                  totalBlocksSize := totalBlocksSize d + of_nat (block_bytes (range_levels r))\<rparr>)
     else Some d)"
proof -
  have "calc_loop PAGE_SIZE (range_address r) (range_address r + range_size r) d' =
      Some (d'\<lparr>numTreeLevelStructs := numTreeLevelStructs d' + of_nat (rdepth r),
        totalBlocksSize := totalBlocksSize d' + of_nat (block_bytes (range_levels r))\<rparr>)" for d'
    using calc_loop_levels [OF range_words(3) [OF assms] rdepth_pos [unfolded rdepth_def]
        range_start_le_end, of d'] assms count_level_fold [OF assms order_refl, of d']
    by (simp add: low_range_def rdepth_def [symmetric] bszw_0 block_bytes_range)
  then show ?thesis by (simp add: call_range_def CalcTreeEntryElements_def)
qed

lemma calc_fold:
  "list_all low_range rs \<Longrightarrow>
    fold (call_range CalcTreeEntryElements) rs (Some d) =
    (let us = filter (\<lambda>r. ShouldCreateTreeForType (range_type r)) rs in
     Some (d\<lparr>numTreeEntries := numTreeEntries d + of_nat (length us),
             numTreeLevelStructs := numTreeLevelStructs d + of_nat (length (flat us)),
             totalBlocksSize := totalBlocksSize d + of_nat (block_bytes (flat us))\<rparr>))"
  by (induction rs arbitrary: d) (simp_all add: calc_range Let_def algebra_simps)

lemma ALIGN_multiple: "16 dvd n \<Longrightarrow> ALIGN (of_nat n) 16 = of_nat n"
  using ALIGN_16 [of "of_nat (n div 16)"] by (metis dvd_mult_div_cancel of_nat_mult of_nat_numeral)

lemma GetPhysicalMemTreeSize_eq:
  assumes "list_all low_range (combined_ranges es)"
  shows "GetPhysicalMemTreeSize es = Some (size_of_tree (tree_ranges es))"
proof -
  let ?rs = "tree_ranges es"
  have entries: "ALIGN (64 * of_nat (length ?rs)) 16 = of_nat (64 * length ?rs)"
    using ALIGN_multiple [of "64 * length ?rs"] by simp
  have levels: "ALIGN (of_nat (64 * length ?rs) + 32 * of_nat (length (flat ?rs))) 16
      = of_nat (64 * length ?rs + 32 * length (flat ?rs))"
    using ALIGN_multiple [of "64 * length ?rs + 32 * length (flat ?rs)"] by simp
  show ?thesis
    unfolding GetPhysicalMemTreeSize_def combined.iter_fold calc_fold [OF assms]
      tree_ranges_def [symmetric] Let_def
    using entries levels by (simp add: size_of_tree_def tree_bytes_def)
qed

subsection \<open>The blocks of the levels\<close>

lemma memset_blocks_some:
  "unat p + unat n < 18446744073709551616 \<Longrightarrow>
    \<exists>m. memset_blocks p ch n tm = Some (tm\<lparr>byte_at := m\<rparr>)"
  using kernel_memset.mset_total [of p n "byte_at tm" ch] by (auto simp: memset_blocks_def)

definition level_bytes :: "tree_level \<Rightarrow> nat" where
  "level_bytes lv = (if unat (numBlocks lv) > 8 then unat (numBlocks lv) else 0)"

text \<open>The pointers the second loop hands out, to the levels at the addresses \<open>ps\<close>.\<close>

fun alloc_levels :: "u64 \<Rightarrow> u64 list \<Rightarrow> nat \<Rightarrow> (u64 \<Rightarrow> tree_level) \<Rightarrow> u64 \<Rightarrow> tree_level" where
  "alloc_levels pB [] b lvs = lvs"
| "alloc_levels pB (p # ps) b lvs =
     alloc_levels pB ps (b + level_bytes (lvs p))
       (if unat (numBlocks (lvs p)) > 8 then lvs(p := (lvs p)\<lparr>pBlocks := pB + of_nat b\<rparr>) else lvs)"

definition with_levels :: "create_data \<Rightarrow> (u64 \<Rightarrow> tree_level) \<Rightarrow> mem \<Rightarrow> nat \<Rightarrow> create_data" where
  "with_levels cd lvs m b = cd\<lparr>cd_mem := (cd_mem cd)\<lparr>level_at := lvs, byte_at := m\<rparr>,
     cd_blockIndex := of_nat b\<rparr>"

lemma numBlocks_upd [simp]: "numBlocks ((lvs(p := (lvs p)\<lparr>pBlocks := q\<rparr>)) p') = numBlocks (lvs p')"
  by simp

lemma CreateTreeLevelBlocks_alloc:
  assumes b: "cd_blockIndex cd = of_nat b" and T: "totalBlocksSize (cd_sizeData cd) = of_nat T"
    and room: "b + level_bytes (level_at (cd_mem cd) p) \<le> T"
    and pB: "unat (cd_pBlocks cd) + T < 18446744073709551616"
    and p: "unat p + 32 < 18446744073709551616"
  shows "\<exists>m. CreateTreeLevelBlocks p cd = Some (True,
    with_levels cd (alloc_levels (cd_pBlocks cd) [p] b (level_at (cd_mem cd))) m
      (b + level_bytes (level_at (cd_mem cd) p)))"
proof (cases "unat (numBlocks (level_at (cd_mem cd) p)) > 8")
  case True
  let ?n = "numBlocks (level_at (cd_mem cd) p)"
  have n: "b + unat ?n \<le> T" using room True by (simp add: level_bytes_def)
  have ub: "unat (of_nat b :: u64) = b" "unat (of_nat T :: u64) = T"
    using n pB by (auto intro!: unat_u64_of_nat)
  have sum: "unat (of_nat b + ?n) = b + unat ?n" using n pB ub by (subst unat_u64_plus) auto
  have "unat (cd_pBlocks cd + of_nat b) + unat ?n < 18446744073709551616"
    using n pB by (subst unat_u64_plus_of_nat) auto
  from memset_blocks_some [OF this] obtain m where
    "memset_blocks (cd_pBlocks cd + of_nat b) 0 ?n
      (set_level p (pBlocks_update (\<lambda>_. cd_pBlocks cd + of_nat b)) (cd_mem cd))
    = Some ((set_level p (pBlocks_update (\<lambda>_. cd_pBlocks cd + of_nat b)) (cd_mem cd))\<lparr>byte_at := m\<rparr>)"
    by blast
  moreover have "\<not> of_nat b + ?n > totalBlocksSize (cd_sizeData cd)"
    using n by (simp add: word_less_nat_alt sum T ub)
  ultimately show ?thesis
    using True by (intro exI [of _ m])
      (simp add: CreateTreeLevelBlocks_def Let_def b word_less_nat_alt with_levels_def
        set_level_def level_bytes_def)
next
  case False
  have "unat (p + 24) + unat (8 :: u64) < 18446744073709551616"
    using p by (subst unat_u64_plus) auto
  from memset_blocks_some [OF this] obtain m where
    "memset_blocks (p + 24) 0 8 (cd_mem cd) = Some ((cd_mem cd)\<lparr>byte_at := m\<rparr>)"
    by blast
  with False show ?thesis
    by (intro exI [of _ m])
      (simp add: CreateTreeLevelBlocks_def Let_def b word_less_nat_alt with_levels_def
        level_bytes_def)
qed

lemma create_blocks_alloc:
  assumes "cd_blockIndex cd = of_nat b" "totalBlocksSize (cd_sizeData cd) = of_nat T"
    "b + sum_list (map (\<lambda>p. level_bytes (level_at (cd_mem cd) p)) ps) \<le> T"
    "unat (cd_pBlocks cd) + T < 18446744073709551616"
    "\<forall>p \<in> set ps. unat p + 32 < 18446744073709551616"
  shows "\<exists>m. create_blocks ps cd = Some (True,
    with_levels cd (alloc_levels (cd_pBlocks cd) ps b (level_at (cd_mem cd))) m
      (b + sum_list (map (\<lambda>p. level_bytes (level_at (cd_mem cd) p)) ps)))"
  using assms
proof (induction ps arbitrary: cd b)
  case Nil
  then show ?case by (intro exI [of _ "byte_at (cd_mem cd)"]) (simp add: with_levels_def)
next
  case (Cons p ps)
  let ?lvs = "level_at (cd_mem cd)"
  let ?lvs' = "alloc_levels (cd_pBlocks cd) [p] b ?lvs"
  let ?b = "b + level_bytes (?lvs p)"
  have same: "level_bytes (?lvs' q) = level_bytes (?lvs q)" for q
    by (simp add: level_bytes_def)
  obtain m where step: "CreateTreeLevelBlocks p cd = Some (True, with_levels cd ?lvs' m ?b)"
    using CreateTreeLevelBlocks_alloc [OF Cons.prems(1,2) _ Cons.prems(4), of p] Cons.prems(3,5) by auto
  let ?cd = "with_levels cd ?lvs' m ?b"
  have cd: "cd_blockIndex ?cd = of_nat ?b" "cd_sizeData ?cd = cd_sizeData cd"
    "cd_pBlocks ?cd = cd_pBlocks cd" "level_at (cd_mem ?cd) = ?lvs'"
    by (simp_all add: with_levels_def)
  have "\<exists>m. create_blocks ps ?cd = Some (True,
    with_levels ?cd (alloc_levels (cd_pBlocks cd) ps ?b ?lvs') m
      (?b + sum_list (map (\<lambda>p. level_bytes (?lvs p)) ps)))"
    by (rule Cons.IH [of ?cd ?b, unfolded cd(2-4) same, OF cd(1) Cons.prems(2) _ Cons.prems(4)])
      (use Cons.prems(3,5) in \<open>simp_all add: add.assoc\<close>)
  then show ?case
    by (simp add: step with_levels_def add.assoc)
qed

lemma alloc_levels_same [simp]:
  "numBlocks (alloc_levels pB ps b lvs p) = numBlocks (lvs p)"
  "blockSize (alloc_levels pB ps b lvs p) = blockSize (lvs p)"
  "startMappedAddress (alloc_levels pB ps b lvs p) = startMappedAddress (lvs p)"
  by (induction pB ps b lvs rule: alloc_levels.induct) auto

lemma alloc_levels_other:
  "p \<notin> set ps \<Longrightarrow> alloc_levels pB ps b lvs p = lvs p"
  by (induction pB ps b lvs rule: alloc_levels.induct) auto

lemma alloc_levels_nth:
  "distinct ps \<Longrightarrow> i < length ps \<Longrightarrow> 8 < unat (numBlocks (lvs (ps ! i))) \<Longrightarrow>
    pBlocks (alloc_levels pB ps b lvs (ps ! i)) =
      pB + of_nat (b + sum_list (map (\<lambda>p. level_bytes (lvs p)) (take i ps)))"
proof (induction ps arbitrary: i b lvs)
  case (Cons p ps)
  let ?lvs = "if unat (numBlocks (lvs p)) > 8 then lvs(p := (lvs p)\<lparr>pBlocks := pB + of_nat b\<rparr>) else lvs"
  have same: "level_bytes (?lvs q) = level_bytes (lvs q)" "numBlocks (?lvs q) = numBlocks (lvs q)" for q
    by (simp_all add: level_bytes_def)
  show ?case
  proof (cases i)
    case 0
    then show ?thesis using Cons.prems by (simp add: alloc_levels_other)
  next
    case (Suc i')
    then show ?thesis
      using Cons.IH [of i' ?lvs "b + level_bytes (lvs p)"] Cons.prems
      unfolding same by (simp add: add.assoc)
  qed
qed simp

subsection \<open>The layout of the tree\<close>

text \<open>
  What creation promises for the ranges \<open>rs\<close>: the entries and the level structs (in
  array order, over all entries) lie one after the other, each level has the geometry of
  its range, and levels of more than 8 blocks own consecutive slices of the block bytes.
\<close>

definition entry_addr :: "u64 \<Rightarrow> nat \<Rightarrow> u64" where
  "entry_addr pE i = pE + ENTRY_SIZE * of_nat i"

definition flat_addr :: "u64 \<Rightarrow> nat \<Rightarrow> u64" where
  "flat_addr pL j = pL + LEVEL_SIZE * of_nat j"

definition level_ok :: "u64 \<Rightarrow> phys_range \<times> nat \<Rightarrow> nat \<Rightarrow> tree_level \<Rightarrow> bool" where
  "level_ok pB l b lv \<longleftrightarrow>
     startMappedAddress lv = of_nat (lmin (snd l) (range_start (fst l)))
     \<and> blockSize lv = bszw (snd l) \<and> numBlocks lv = of_nat (rnum (fst l) (snd l))
     \<and> (8 < rnum (fst l) (snd l) \<longrightarrow> pBlocks lv = pB + of_nat b)"

definition levels_ok :: "u64 \<Rightarrow> u64 \<Rightarrow> (phys_range \<times> nat) list \<Rightarrow> (u64 \<Rightarrow> tree_level) \<Rightarrow> bool" where
  "levels_ok pL pB ls lvs \<longleftrightarrow>
     (\<forall>j < length ls. level_ok pB (ls ! j) (block_bytes (take j ls)) (lvs (flat_addr pL j)))"

definition entry_for :: "u64 \<Rightarrow> u64 \<Rightarrow> phys_range list \<Rightarrow> nat \<Rightarrow> tree_entry" where
  "entry_for pE pL rs i =
     (let r = rs ! i in
      \<lparr>entry_type = range_type r, entry_flags = range_flags r, startAddress = range_address r,
       endAddress = range_address r + range_size r, numPages = range_size r div PAGE_SIZE,
       pTreeLevels = flat_addr pL (length (flat (take i rs))), numTreeLevels = of_nat (rdepth r),
       pNextEntry = (if Suc i < length rs then entry_addr pE (Suc i) else 0)\<rparr>)"

definition tree_layout :: "u64 \<Rightarrow> u64 \<Rightarrow> u64 \<Rightarrow> phys_range list \<Rightarrow> tree_mem \<Rightarrow> bool" where
  "tree_layout pE pL pB rs tm \<longleftrightarrow>
     (\<forall>i < length rs. entry_at tm (entry_addr pE i) = entry_for pE pL rs i)
     \<and> levels_ok pL pB (flat rs) (level_at tm)"

text \<open>Addresses of array elements are different as long as the array does not wrap.\<close>

lemma of_nat_u64_eq_iff:
  "n < 18446744073709551616 \<Longrightarrow> k < 18446744073709551616 \<Longrightarrow>
    (of_nat n :: u64) = of_nat k \<longleftrightarrow> n = k"
  by (metis unat_u64_of_nat)

lemma entry_addr_eq_iff [simp]:
  "64 * i < 18446744073709551616 \<Longrightarrow> 64 * j < 18446744073709551616 \<Longrightarrow>
    entry_addr pE i = entry_addr pE j \<longleftrightarrow> i = j"
  using of_nat_u64_eq_iff [of "64 * i" "64 * j"] by (simp add: entry_addr_def)

lemma flat_addr_eq_iff [simp]:
  "32 * i < 18446744073709551616 \<Longrightarrow> 32 * j < 18446744073709551616 \<Longrightarrow>
    flat_addr pL i = flat_addr pL j \<longleftrightarrow> i = j"
  using of_nat_u64_eq_iff [of "32 * i" "32 * j"] by (simp add: flat_addr_def)

lemma addr_0 [simp]: "entry_addr pE 0 = pE" "flat_addr pL 0 = pL"
  by (simp_all add: entry_addr_def flat_addr_def)

lemma flat_addr_plus: "flat_addr (flat_addr pL i) j = flat_addr pL (i + j)"
  by (simp add: flat_addr_def algebra_simps)

lemma unat_flat_addr:
  "unat pL + 32 * j < 18446744073709551616 \<Longrightarrow> unat (flat_addr pL j) = unat pL + 32 * j"
  using unat_u64_plus_of_nat [of pL "32 * j"] by (simp add: flat_addr_def)

lemma unat_entry_addr:
  "unat pE + 64 * i < 18446744073709551616 \<Longrightarrow> unat (entry_addr pE i) = unat pE + 64 * i"
  using unat_u64_plus_of_nat [of pE "64 * i"] by (simp add: entry_addr_def)

text \<open>Setting several levels.\<close>

lemma fold_set_level_other:
  "entry_at (fold (\<lambda>j. set_level (f j) (g j)) js tm) = entry_at tm"
  "byte_at (fold (\<lambda>j. set_level (f j) (g j)) js tm) = byte_at tm"
  "p \<notin> f ` set js \<Longrightarrow> level_at (fold (\<lambda>j. set_level (f j) (g j)) js tm) p = level_at tm p"
  by (induction js arbitrary: tm) (simp_all add: set_level_def)

lemma fold_set_level_nth:
  "distinct js \<Longrightarrow> inj_on f (set js) \<Longrightarrow> j \<in> set js \<Longrightarrow>
    level_at (fold (\<lambda>j. set_level (f j) (g j)) js tm) (f j) = g j (level_at tm (f j))"
proof (induction js arbitrary: tm)
  case (Cons i js)
  show ?case
  proof (cases "j = i")
    case True
    then have "f i \<notin> f ` set js" using Cons.prems by (auto simp: inj_on_def)
    then show ?thesis using True by (simp add: fold_set_level_other) (simp add: set_level_def)
  next
    case False
    then have "j \<in> set js" "f j \<noteq> f i" using Cons.prems by (auto simp: inj_on_def)
    then show ?thesis using Cons by (simp add: set_level_def)
  qed
qed simp

subsection \<open>One entry\<close>

text \<open>The level structs of a range, when they start at index \<open>j0\<close> of the level array.\<close>

definition filled_levels :: "u64 \<Rightarrow> nat \<Rightarrow> phys_range \<Rightarrow> tree_mem \<Rightarrow> tree_mem" where
  "filled_levels pL j0 r tm =
     fill_level_structs (flat_addr pL j0) (rdepth r) PAGE_SIZE (range_address r)
       (range_address r + range_size r) tm"

lemma filled_levels_fold:
  assumes "low_range r"
  shows "filled_levels pL j0 r tm = fold (\<lambda>k. set_level (flat_addr pL (j0 + (rdepth r - 1 - k)))
    (level_geometry (range_start r) (range_end r) k)) [0..<rdepth r] tm"
proof -
  have "range_end r \<le> 2 ^ 63" using assms by (simp add: low_range_def)
  from fill_level_structs_fold [OF range_words(3) [OF assms] le0 range_start_le_end this]
  show ?thesis
    by (simp add: filled_levels_def rdepth_def bszw_0 level_addr_def flat_addr_plus [symmetric]
        flat_addr_def [of "flat_addr pL j0"])
qed

lemma filled_levels_nth:
  assumes "low_range r" "q < rdepth r" "32 * (j0 + rdepth r) < 18446744073709551616"
  shows "level_at (filled_levels pL j0 r tm) (flat_addr pL (j0 + q))
    = level_geometry (range_start r) (range_end r) (rdepth r - 1 - q) (level_at tm (flat_addr pL (j0 + q)))"
proof -
  let ?f = "\<lambda>k. flat_addr pL (j0 + (rdepth r - 1 - k))"
  have inj: "inj_on ?f (set [0..<rdepth r])"
    using assms(3) by (intro inj_onI) (auto dest!: flat_addr_eq_iff [THEN iffD1, rotated -1])
  have q: "rdepth r - 1 - q \<in> set [0..<rdepth r]" "rdepth r - 1 - (rdepth r - 1 - q) = q"
    using assms(2) by auto
  from fold_set_level_nth [OF distinct_upt inj q(1), of "level_geometry (range_start r) (range_end r)" tm]
  show ?thesis unfolding filled_levels_fold [OF assms(1)] q(2) .
qed

lemma filled_levels_entry: "low_range r \<Longrightarrow> entry_at (filled_levels pL j0 r tm) = entry_at tm"
  by (simp add: filled_levels_fold fold_set_level_other)

lemma filled_levels_other:
  assumes "low_range r" "\<forall>q < rdepth r. p \<noteq> flat_addr pL (j0 + q)"
  shows "level_at (filled_levels pL j0 r tm) p = level_at tm p"
  unfolding filled_levels_fold [OF assms(1)]
proof (rule fold_set_level_other(3), rule notI)
  assume "p \<in> (\<lambda>k. flat_addr pL (j0 + (rdepth r - 1 - k))) ` set [0..<rdepth r]"
  then obtain k where "k < rdepth r" "p = flat_addr pL (j0 + (rdepth r - 1 - k))" by auto
  with assms(2) [rule_format, of "rdepth r - 1 - k"] show False by simp
qed

lemma filled_levels_replaced:
  "low_range r \<Longrightarrow> filled_levels pL j0 r tm\<lparr>level_at := lvs, byte_at := m\<rparr>
    = tm\<lparr>level_at := lvs, byte_at := m\<rparr>"
  by (simp add: filled_levels_entry)

definition range_addrs :: "u64 \<Rightarrow> nat \<Rightarrow> phys_range \<Rightarrow> u64 list" where
  "range_addrs pL j0 r = map (\<lambda>q. flat_addr pL (j0 + q)) [0..<rdepth r]"

lemma filled_level_bytes:
  assumes "low_range r" "32 * (j0 + rdepth r) < 18446744073709551616"
  shows "map (\<lambda>p. level_bytes (level_at (filled_levels pL j0 r tm) p)) (range_addrs pL j0 r)
    = map own_bytes (range_levels r)"
proof (rule nth_equalityI)
  fix q assume "q < length (map (\<lambda>p. level_bytes (level_at (filled_levels pL j0 r tm) p)) (range_addrs pL j0 r))"
  then have q: "q < rdepth r" by (simp add: range_addrs_def)
  have "unat (lnumw (rdepth r - 1 - q) (range_start r) (range_end r)) = rnum r (rdepth r - 1 - q)"
    unfolding rnum_def using assms(1) rdepth_le [of r] by (intro unat_lnumw) (simp_all add: low_range_def)
  then show "map (\<lambda>p. level_bytes (level_at (filled_levels pL j0 r tm) p)) (range_addrs pL j0 r) ! q
      = map own_bytes (range_levels r) ! q"
    using q by (simp add: range_addrs_def filled_levels_nth [OF assms(1) q assms(2)]
        level_bytes_def level_geometry_def own_bytes_def Let_def)
qed (simp add: range_addrs_def)

lemma FillTreeLevelStructs_range:
  assumes r: "low_range r"
    and e: "startAddress (entry_at (cd_mem cd) p) = range_address r"
      "endAddress (entry_at (cd_mem cd) p) = range_address r + range_size r"
      "pTreeLevels (entry_at (cd_mem cd) p) = flat_addr pL j0"
      "numTreeLevels (entry_at (cd_mem cd) p) = of_nat (rdepth r)"
    and pL: "unat pL + 32 * (j0 + rdepth r) < 18446744073709551616"
    and b: "cd_blockIndex cd = of_nat b" "totalBlocksSize (cd_sizeData cd) = of_nat T"
      "b + block_bytes (range_levels r) \<le> T" "unat (cd_pBlocks cd) + T < 18446744073709551616"
  shows "\<exists>m. FillTreeLevelStructs p cd = Some (True,
    with_levels cd (alloc_levels (cd_pBlocks cd) (range_addrs pL j0 r) b
        (level_at (filled_levels pL j0 r (cd_mem cd)))) m (b + block_bytes (range_levels r)))"
proof -
  let ?tm = "filled_levels pL j0 r (cd_mem cd)" and ?ps = "range_addrs pL j0 r"
  have D: "unat (of_nat (rdepth r) :: u64) = rdepth r"
    using rdepth_le [of r] by (intro unat_u64_of_nat) simp
  have addrs: "level_addrs (entry_at (cd_mem cd) p) = ?ps"
    by (simp add: level_addrs_def range_addrs_def e D flat_addr_plus [symmetric]
        flat_addr_def [of "flat_addr pL j0"])
  have bytes: "sum_list (map (\<lambda>p. level_bytes (level_at ?tm p)) ?ps) = block_bytes (range_levels r)"
    using filled_level_bytes [OF r] pL by (simp add: block_bytes_def)
  have low: "\<forall>p \<in> set ?ps. unat p + 32 < 18446744073709551616"
  proof
    fix p assume "p \<in> set ?ps"
    then obtain q where q: "q < rdepth r" "p = flat_addr pL (j0 + q)" by (auto simp: range_addrs_def)
    then show "unat p + 32 < 18446744073709551616"
      using pL unat_flat_addr [of pL "j0 + q"] by simp
  qed
  have "FillTreeLevelStructs p cd = create_blocks ?ps (cd\<lparr>cd_mem := ?tm\<rparr>)"
    by (simp add: FillTreeLevelStructs_def Let_def addrs filled_levels_def e D)
  with create_blocks_alloc [of "cd\<lparr>cd_mem := ?tm\<rparr>" b T ?ps] b bytes low show ?thesis
    by (auto simp: with_levels_def filled_levels_replaced [OF r])
qed

text \<open>The entry array and the level array after one more range.\<close>

definition linked_entries ::
  "u64 \<Rightarrow> u64 \<Rightarrow> phys_range list \<Rightarrow> phys_range \<Rightarrow> (u64 \<Rightarrow> tree_entry) \<Rightarrow> u64 \<Rightarrow> tree_entry" where
  "linked_entries pE pL rs r ents =
     (let i = length rs;
          ents = (if i = 0 then ents
            else ents(entry_addr pE (i - 1) :=
              (ents (entry_addr pE (i - 1)))\<lparr>pNextEntry := entry_addr pE i\<rparr>))
      in ents(entry_addr pE i := entry_for pE pL (rs @ [r]) i))"

lemma linked_entries_ok:
  assumes ents: "\<forall>i < length rs. ents (entry_addr pE i) = entry_for pE pL rs i"
    and room: "64 * Suc (length rs) < 18446744073709551616"
    and i: "i < Suc (length rs)"
  shows "linked_entries pE pL rs r ents (entry_addr pE i) = entry_for pE pL (rs @ [r]) i"
proof -
  consider "i = length rs" | "Suc i = length rs" | "Suc i < length rs" using i by linarith
  then show ?thesis
  proof cases
    case 1
    then show ?thesis by (simp add: linked_entries_def Let_def)
  next
    case 2
    then have "rs \<noteq> []" "length rs - 1 = i" by auto
    with 2 ents room show ?thesis
      by (simp add: linked_entries_def Let_def entry_for_def nth_append flip: 2)
  next
    case 3
    then have "rs \<noteq> []" by auto
    with 3 ents room show ?thesis
      by (simp add: linked_entries_def Let_def entry_for_def nth_append)
  qed
qed

lemma levels_ok_range:
  assumes r: "low_range r" and ok: "levels_ok pL pB ls (level_at tm)"
    and room: "32 * (length ls + rdepth r) < 18446744073709551616"
  shows "levels_ok pL pB (ls @ range_levels r)
    (alloc_levels pB (range_addrs pL (length ls) r) (block_bytes ls)
      (level_at (filled_levels pL (length ls) r tm)))"
  unfolding levels_ok_def
proof (intro allI impI)
  let ?ps = "range_addrs pL (length ls) r" and ?lvs = "level_at (filled_levels pL (length ls) r tm)"
  fix j assume j: "j < length (ls @ range_levels r)"
  show "level_ok pB ((ls @ range_levels r) ! j) (block_bytes (take j (ls @ range_levels r)))
      (alloc_levels pB ?ps (block_bytes ls) ?lvs (flat_addr pL j))"
  proof (cases "j < length ls")
    case True
    have ne: "flat_addr pL j \<noteq> flat_addr pL (length ls + q)" if "q < rdepth r" for q
      using True that room by simp
    then have "alloc_levels pB ?ps (block_bytes ls) ?lvs (flat_addr pL j) = ?lvs (flat_addr pL j)"
      by (intro alloc_levels_other) (simp add: range_addrs_def image_iff ne)
    also have "\<dots> = level_at tm (flat_addr pL j)" using ne by (intro filled_levels_other [OF r]) blast
    finally show ?thesis using ok True by (simp add: levels_ok_def nth_append)
  next
    case False
    then obtain q where q: "j = length ls + q" "q < rdepth r"
      using j by (metis le_add_diff_inverse length_append length_range_levels nat_add_left_cancel_less not_less)
    have addr: "?ps ! q = flat_addr pL j" "q < length ?ps" using q by (simp_all add: range_addrs_def)
    have dist: "distinct ?ps"
      using room by (auto simp: range_addrs_def distinct_map inj_on_def)
    let ?k = "rdepth r - 1 - q"
    have lv: "?lvs (flat_addr pL j) = level_geometry (range_start r) (range_end r) ?k (level_at tm (flat_addr pL j))"
      using filled_levels_nth [OF r q(2) room] q(1) by simp
    have num: "unat (lnumw ?k (range_start r) (range_end r)) = rnum r ?k"
      unfolding rnum_def using r rdepth_le [of r] by (intro unat_lnumw) (simp_all add: low_range_def)
    have bytes: "map (\<lambda>p. level_bytes (?lvs p)) (take q ?ps) = map own_bytes (take q (range_levels r))"
      using filled_level_bytes [OF r room] by (metis take_map)
    have "8 < rnum r ?k \<Longrightarrow> pBlocks (alloc_levels pB ?ps (block_bytes ls) ?lvs (flat_addr pL j))
        = pB + of_nat (block_bytes ls + block_bytes (take q (range_levels r)))"
      using alloc_levels_nth [OF dist addr(2), of ?lvs pB "block_bytes ls"] num
      unfolding addr(1) bytes by (simp add: lv level_geometry_def block_bytes_def)
    then show ?thesis
      using q by (simp add: level_ok_def lv [unfolded q(1)] level_geometry_def nth_append) (simp add: lnumw_def rnum_def)
  qed
qed

subsection \<open>Creation\<close>

text \<open>The state of creation when the ranges \<open>rs\<close> of all the ranges \<open>RS\<close> are done.\<close>

definition create_inv ::
  "u64 \<Rightarrow> u64 \<Rightarrow> u64 \<Rightarrow> phys_range list \<Rightarrow> phys_range list \<Rightarrow> create_data \<Rightarrow> bool" where
  "create_inv pE pL pB RS rs cd \<longleftrightarrow>
     cd_sizeData cd = size_of_tree RS \<and> cd_pEntries cd = pE \<and> cd_pLevels cd = pL
     \<and> cd_pBlocks cd = pB \<and> cd_treeEntryIndex cd = of_nat (length rs)
     \<and> cd_treeLevelStructIndex cd = of_nat (length (flat rs))
     \<and> cd_blockIndex cd = of_nat (block_bytes (flat rs)) \<and> cd_success cd
     \<and> tree_layout pE pL pB rs (cd_mem cd)"

definition tree_room :: "u64 \<Rightarrow> u64 \<Rightarrow> u64 \<Rightarrow> phys_range list \<Rightarrow> bool" where
  "tree_room pE pL pB RS \<longleftrightarrow>
     unat pE + 64 * length RS < 18446744073709551616
     \<and> unat pL + 32 * length (flat RS) < 18446744073709551616
     \<and> unat pB + block_bytes (flat RS) < 18446744073709551616"

lemma CreateTreeLevels_range:
  assumes "low_range r" "startAddress (entry_at (cd_mem cd) p) = range_address r"
    "endAddress (entry_at (cd_mem cd) p) = range_address r + range_size r"
    "cd_treeLevelStructIndex cd = of_nat j" "numTreeLevelStructs (cd_sizeData cd) = of_nat L"
    "j + rdepth r \<le> L" "L < 18446744073709551616"
  shows "CreateTreeLevels p cd = Some (True,
    cd\<lparr>cd_mem := set_entry p (numTreeLevels_update (\<lambda>_. of_nat (rdepth r))) (cd_mem cd),
       cd_treeLevelStructIndex := of_nat (j + rdepth r)\<rparr>)"
proof -
  have "count_levels PAGE_SIZE (range_address r) (range_address r + range_size r) 0
      = Some (of_nat (rdepth r))"
    using count_levels_depth [OF range_words(3) [OF assms(1)] rdepth_pos [unfolded rdepth_def]
        range_start_le_end, of 0] assms(1)
    by (simp add: low_range_def rdepth_def bszw_0)
  moreover have "\<not> (of_nat j + of_nat (rdepth r) :: u64) > of_nat L"
    using assms(6,7) unat_u64_of_nat [of "j + rdepth r"]
    by (simp add: word_less_nat_alt unat_u64_of_nat)
  ultimately show ?thesis
    by (simp add: CreateTreeLevels_def assms(2-5) Let_def)
qed

lemma create_range:
  assumes inv: "create_inv pE pL pB RS rs cd" and RS: "RS = rs @ r # rest"
    and r: "low_range r" "ShouldCreateTreeForType (range_type r)" and room: "tree_room pE pL pB RS"
  shows "\<exists>cd'. call_range CreateTreeForMemoryRange r (Some cd) = Some cd'
    \<and> create_inv pE pL pB RS (rs @ [r]) cd'"
proof -
  let ?i = "length rs" and ?j = "length (flat rs)" and ?b = "block_bytes (flat rs)"
  let ?pe = "entry_addr pE ?i"
  have cd: "cd_sizeData cd = size_of_tree RS" "cd_pEntries cd = pE" "cd_pLevels cd = pL"
    "cd_pBlocks cd = pB" "cd_treeEntryIndex cd = of_nat ?i" "cd_treeLevelStructIndex cd = of_nat ?j"
    "cd_blockIndex cd = of_nat ?b" "cd_success cd" "tree_layout pE pL pB rs (cd_mem cd)"
    using inv by (simp_all add: create_inv_def)
  have bounds: "64 * Suc ?i < 18446744073709551616"
      "unat pL + 32 * (?j + rdepth r) < 18446744073709551616" "?j + rdepth r \<le> length (flat RS)"
      "length (flat RS) < 18446744073709551616"
      "?b + block_bytes (range_levels r) \<le> block_bytes (flat RS)"
      "unat pB + block_bytes (flat RS) < 18446744073709551616"
    using room by (simp_all add: RS tree_room_def)
  have idx: "(0 :: u64) < of_nat ?i \<longleftrightarrow> 0 < ?i" "\<not> (of_nat ?i + 1 :: u64) > of_nat (length RS)"
  proof -
    have "unat (of_nat ?i :: u64) = ?i" "unat (of_nat (Suc ?i) :: u64) = Suc ?i"
        "unat (of_nat (length RS) :: u64) = length RS"
      using room by (intro unat_u64_of_nat; simp add: RS tree_room_def)+
    then show "(0 :: u64) < of_nat ?i \<longleftrightarrow> 0 < ?i" "\<not> (of_nat ?i + 1 :: u64) > of_nat (length RS)"
      by (simp_all add: word_less_nat_alt RS add.commute)
  qed
  have prev: "0 < ?i \<Longrightarrow> ?pe - 64 = entry_addr pE (?i - 1)"
    by (cases ?i) (simp_all add: entry_addr_def algebra_simps)
  let ?new = "linked_entries pE pL rs r (entry_at (cd_mem cd))"
  define cd2 where "cd2 = cd\<lparr>cd_mem := (cd_mem cd)\<lparr>entry_at := ?new\<rparr>,
    cd_treeEntryIndex := of_nat (Suc ?i), cd_treeLevelStructIndex := of_nat (?j + rdepth r)\<rparr>"
  define cd1 where "cd1 = cd\<lparr>cd_treeEntryIndex := of_nat (Suc ?i),
    cd_mem := (cd_mem cd)\<lparr>entry_at := ?new(?pe :=
      (entry_for pE pL (rs @ [r]) ?i)\<lparr>numTreeLevels := 0\<rparr>)\<rparr>\<rparr>"
  have levels: "CreateTreeLevels ?pe cd1 = Some (True, cd2)"
    using CreateTreeLevels_range [OF r(1), of cd1 ?pe ?j "length (flat RS)"] bounds
    by (simp add: cd1_def cd2_def entry_for_def Let_def cd size_of_tree_def set_entry_def
        linked_entries_def)
  have ent: "entry_at (cd_mem cd2) ?pe = entry_for pE pL (rs @ [r]) ?i"
    by (simp add: cd2_def linked_entries_def Let_def)
  obtain m where fill: "FillTreeLevelStructs ?pe cd2 = Some (True, with_levels cd2
      (alloc_levels pB (range_addrs pL ?j r) ?b (level_at (filled_levels pL ?j r (cd_mem cd2)))) m
      (?b + block_bytes (range_levels r)))"
    using FillTreeLevelStructs_range [OF r(1), of cd2 ?pe pL ?j ?b "block_bytes (flat RS)"] bounds
    by (simp add: ent) (simp add: cd2_def entry_for_def Let_def cd size_of_tree_def, blast)
  let ?cd' = "with_levels cd2
      (alloc_levels pB (range_addrs pL ?j r) ?b (level_at (filled_levels pL ?j r (cd_mem cd2)))) m
      (?b + block_bytes (range_levels r))"
  have "call_range CreateTreeForMemoryRange r (Some cd) = do {
      (ok, cd) \<leftarrow> CreateTreeLevels ?pe cd1;
      let cd = (if ok then cd else cd\<lparr>cd_success := False\<rparr>);
      (ok, cd) \<leftarrow> FillTreeLevelStructs ?pe cd;
      Some (if ok then cd else cd\<lparr>cd_success := False\<rparr>) }"
    using r(2) idx prev
    by (cases "rs = []") (simp_all add: call_range_def CreateTreeForMemoryRange_def Let_def cd size_of_tree_def
        cd1_def set_entry_def entry_for_def linked_entries_def flat_addr_def
        entry_addr_def [symmetric] add.commute)
  then have "call_range CreateTreeForMemoryRange r (Some cd) = Some ?cd'"
    by (simp add: levels fill Let_def)
  moreover have "create_inv pE pL pB RS (rs @ [r]) ?cd'"
  proof -
    have "levels_ok pL pB (flat (rs @ [r])) (alloc_levels pB (range_addrs pL ?j r) ?b
        (level_at (filled_levels pL ?j r (cd_mem cd2))))"
      using levels_ok_range [OF r(1), of pL pB "flat rs" "cd_mem cd2"] cd(9) bounds
      by (simp add: tree_layout_def cd2_def)
    moreover have "\<forall>k < length (rs @ [r]). ?new (entry_addr pE k) = entry_for pE pL (rs @ [r]) k"
      using linked_entries_ok [OF _ bounds(1)] cd(9) by (simp add: tree_layout_def)
    ultimately show ?thesis
      by (simp add: create_inv_def tree_layout_def with_levels_def cd2_def cd)
  qed
  ultimately show ?thesis by blast
qed

lemma create_fold:
  assumes "create_inv pE pL pB RS (filter P rs) cd"
    "RS = filter P (rs @ rest)" "list_all low_range rest" "tree_room pE pL pB RS"
    "P = (\<lambda>r. ShouldCreateTreeForType (range_type r))"
  shows "\<exists>cd'. fold (call_range CreateTreeForMemoryRange) rest (Some cd) = Some cd'
    \<and> create_inv pE pL pB RS RS cd'"
  using assms
proof (induction rest arbitrary: rs cd)
  case (Cons r rest)
  show ?case
  proof (cases "P r")
    case True
    with Cons.prems create_range [OF Cons.prems(1), of r "filter P rest"] obtain cd' where
      "call_range CreateTreeForMemoryRange r (Some cd) = Some cd'"
      "create_inv pE pL pB RS (filter P (rs @ [r])) cd'"
      by auto
    with Cons.IH [of "rs @ [r]" cd'] Cons.prems show ?thesis by simp
  next
    case False
    then have "call_range CreateTreeForMemoryRange r (Some cd) = Some cd"
      by (simp add: call_range_def CreateTreeForMemoryRange_def Cons.prems(5))
    with Cons.IH [of "rs @ [r]" cd] Cons.prems False show ?thesis by simp
  qed
qed simp

text \<open>The parts of the buffer, from its start address, its ranges and its total size.\<close>

definition tree_fits :: "u64 \<Rightarrow> phys_range list \<Rightarrow> bool" where
  "tree_fits pBuffer rs \<longleftrightarrow> unat pBuffer + tree_bytes rs < 18446744073709551616"

lemma tree_fits_parts:
  assumes "tree_fits pBuffer rs" "sd = size_of_tree rs"
  shows "unat (pBuffer + treeLevelStructsOffset sd) = unat pBuffer + 64 * length rs"
    "unat (pBuffer + blocksOffset sd) = unat pBuffer + 64 * length rs + 32 * length (flat rs)"
    "tree_room pBuffer (pBuffer + treeLevelStructsOffset sd) (pBuffer + blocksOffset sd) rs"
proof -
  have fit: "unat pBuffer + (64 * length rs + 32 * length (flat rs) + block_bytes (flat rs))
      < 18446744073709551616"
    using assms(1) by (simp add: tree_fits_def tree_bytes_def)
  show *: "unat (pBuffer + treeLevelStructsOffset sd) = unat pBuffer + 64 * length rs"
    using fit unat_u64_plus_of_nat [of pBuffer "64 * length rs"]
    by (simp add: assms(2) size_of_tree_def)
  show **: "unat (pBuffer + blocksOffset sd)
      = unat pBuffer + 64 * length rs + 32 * length (flat rs)"
    using fit unat_u64_plus_of_nat [of pBuffer "64 * length rs + 32 * length (flat rs)"]
    by (simp add: assms(2) size_of_tree_def)
  show "tree_room pBuffer (pBuffer + treeLevelStructsOffset sd) (pBuffer + blocksOffset sd) rs"
    unfolding tree_room_def * ** using fit by simp
qed

text \<open>What creation leaves in the buffer, with the size data of the same map.\<close>

lemma CreatePhysicalMemTree_layout:
  assumes low: "list_all low_range (combined_ranges es)"
    and fits: "tree_fits pBuffer (tree_ranges es)"
  defines "sd \<equiv> size_of_tree (tree_ranges es)"
  shows "\<exists>tm'. CreatePhysicalMemTree es pBuffer sd tm = Some (True, pBuffer, tm')
    \<and> tree_layout pBuffer (pBuffer + treeLevelStructsOffset sd) (pBuffer + blocksOffset sd)
        (tree_ranges es) tm'"
proof -
  let ?P = "\<lambda>r. ShouldCreateTreeForType (range_type r)"
  let ?cd = "\<lparr>cd_mem = tm, cd_sizeData = sd, cd_pEntries = pBuffer + treeEntriesOffset sd,
    cd_pLevels = pBuffer + treeLevelStructsOffset sd, cd_pBlocks = pBuffer + blocksOffset sd,
    cd_treeEntryIndex = 0, cd_treeLevelStructIndex = 0, cd_blockIndex = 0, cd_success = True\<rparr>"
  have "create_inv pBuffer (pBuffer + treeLevelStructsOffset sd) (pBuffer + blocksOffset sd)
      (tree_ranges es) (filter ?P []) ?cd"
    by (simp add: create_inv_def sd_def tree_layout_def levels_ok_def)
      (simp add: size_of_tree_def)
  from create_fold [OF this _ low] tree_fits_parts(3) [OF fits] obtain cd' where
    "fold (call_range CreateTreeForMemoryRange) (combined_ranges es) (Some ?cd) = Some cd'"
    "create_inv pBuffer (pBuffer + treeLevelStructsOffset sd) (pBuffer + blocksOffset sd)
      (tree_ranges es) (tree_ranges es) cd'"
    by (auto simp: tree_ranges_def sd_def)
  then show ?thesis
    by (simp add: CreatePhysicalMemTree_def combined.iter_fold create_inv_def)
qed

end
