(* ===== verification/PhysMemTreeMark.thy ===== *)
theory PhysMemTreeMark
  imports PhysMemTreeCreate
begin

text \<open>
  The blocks of the physical memory tree: all pages are made available, the pages of the
  regions in use are taken out, and the levels above summarise the availability below
  (the second half of src/src/Kernel/Memory/PhysicalMemTreeGen.c). The walk over
  \<open>pNextEntry\<close> is a partial function, as a cyclic list would never end; so is a division
  by a block size of 0.
\<close>

unbundle bit_operations_syntax

subsection \<open>Operations\<close>

abbreviation PAGE_AVAILABLE_BIT :: u32 where "PAGE_AVAILABLE_BIT \<equiv> 0x80"
abbreviation PAGE_UNAVAILABLE :: u32 where "PAGE_UNAVAILABLE \<equiv> 0"
abbreviation BLOCK_1_128_OR_LESS_AVAILABLE_BIT :: u8 where
  "BLOCK_1_128_OR_LESS_AVAILABLE_BIT \<equiv> 1"

partial_function (option) for_entries ::
  "(u64 \<Rightarrow> tree_mem \<Rightarrow> tree_mem option) \<Rightarrow> u64 \<Rightarrow> tree_mem \<Rightarrow> tree_mem option" where
  "for_entries body pEntry tm =
     (if pEntry = 0 then Some tm
      else do { tm \<leftarrow> body pEntry tm; for_entries body (pNextEntry (entry_at tm pEntry)) tm })"

definition level_of :: "tree_entry \<Rightarrow> u64 \<Rightarrow> u64" where
  "level_of e iLevel = pTreeLevels e + LEVEL_SIZE * iLevel"

definition set_entry_available :: "u64 \<Rightarrow> tree_mem \<Rightarrow> tree_mem option" where
  "set_entry_available pEntry tm =
     (let e = entry_at tm pEntry;
          pLastLevel = level_of e (numTreeLevels e - 1)
      in memset_blocks (blocks_of tm pLastLevel) PAGE_AVAILABLE_BIT
           (numBlocks (level_at tm pLastLevel)) tm)"

definition SetAllTreePagesAvailable :: "u64 \<Rightarrow> tree_mem \<Rightarrow> tree_mem option" where
  "SetAllTreePagesAvailable pFirstEntry tm = for_entries set_entry_available pFirstEntry tm"

definition mark_entry :: "u64 \<Rightarrow> u64 \<Rightarrow> u64 \<Rightarrow> tree_mem \<Rightarrow> tree_mem option" where
  "mark_entry start fin pEntry tm =
     (let e = entry_at tm pEntry in
      if start < endAddress e \<and> fin > startAddress e then
        let pLastLevel = level_of e (numTreeLevels e - 1);
            lv = level_at tm pLastLevel;
            minMap = startMappedAddress lv;
            maxMap = startMappedAddress lv + numBlocks lv * blockSize lv;
            minMap = (if start > minMap then start else minMap);
            maxMap = (if fin < maxMap then fin else maxMap)
        in if blockSize lv = 0 then None
           else let iFirstBlock = (minMap - startMappedAddress lv) div blockSize lv;
                    numMarkBlocks = (maxMap - minMap) div blockSize lv
                in memset_blocks (blocks_of tm pLastLevel + iFirstBlock) PAGE_UNAVAILABLE
                     numMarkBlocks tm
      else Some tm)"

definition MarkUsedTreePages :: "u64 \<Rightarrow> u64 \<Rightarrow> u64 \<Rightarrow> tree_mem \<Rightarrow> tree_mem option" where
  "MarkUsedTreePages pFirstEntry regionStart regionSize tm =
     (let start = (regionStart div PAGE_SIZE) * PAGE_SIZE;
          fin = ALIGN (regionStart + regionSize) PAGE_SIZE
      in for_entries (mark_entry start fin) pFirstEntry tm)"

definition block_summary :: "u8 \<Rightarrow> u8 \<Rightarrow> u8" where
  "block_summary state0 state1 =
     (let result = (state0 div 2) + (state1 div 2)
      in if state0 AND BLOCK_1_128_OR_LESS_AVAILABLE_BIT \<noteq> 0
            \<or> state1 AND BLOCK_1_128_OR_LESS_AVAILABLE_BIT \<noteq> 0
         then result OR BLOCK_1_128_OR_LESS_AVAILABLE_BIT else result)"

text \<open>One iteration of the loop over the blocks of a level; \<open>i\<close> is the block.\<close>

definition accel_block :: "u64 \<Rightarrow> u64 \<Rightarrow> u64 \<Rightarrow> u64 \<Rightarrow> u64 \<Rightarrow> tree_mem \<Rightarrow> tree_mem" where
  "accel_block pBlks pNextBlks minNextOffset maxNextOffset i tm =
     (let iNext0 = i * 2; iNext1 = i * 2 + 1;
          state = (\<lambda>iNext. if iNext \<ge> minNextOffset \<and> iNext < maxNextOffset
                    then byte_at tm (pNextBlks + (iNext - minNextOffset)) else 0)
      in tm\<lparr>byte_at := (byte_at tm)(pBlks + i := block_summary (state iNext0) (state iNext1))\<rparr>)"

definition FillTreeLevelAccelBlocks :: "u64 \<Rightarrow> u64 \<Rightarrow> tree_mem \<Rightarrow> tree_mem option" where
  "FillTreeLevelAccelBlocks pEntry iLevel tm =
     (let e = entry_at tm pEntry;
          pLevel = level_of e iLevel;
          pNextLevel = level_of e (iLevel + 1);
          next = level_at tm pNextLevel
      in if blockSize next = 0 then None
         else let minNextOffset =
                    (startMappedAddress next - startMappedAddress (level_at tm pLevel)) div blockSize next;
                  maxNextOffset = minNextOffset + numBlocks next
              in Some (fold (\<lambda>i. accel_block (blocks_of tm pLevel) (blocks_of tm pNextLevel)
                     minNextOffset maxNextOffset (of_nat i))
                   [0..<unat (numBlocks (level_at tm pLevel))] tm))"

text \<open>The loop over the levels of an entry, from the last but one up to the first.\<close>

fun accel_levels :: "u64 \<Rightarrow> u64 \<Rightarrow> nat list \<Rightarrow> tree_mem \<Rightarrow> tree_mem option" where
  "accel_levels pEntry n [] tm = Some tm"
| "accel_levels pEntry n (i # is) tm = do {
     tm \<leftarrow> FillTreeLevelAccelBlocks pEntry (n - of_nat i - 1) tm;
     accel_levels pEntry n is tm }"

definition accel_entry :: "u64 \<Rightarrow> tree_mem \<Rightarrow> tree_mem option" where
  "accel_entry pEntry tm =
     (let n = numTreeLevels (entry_at tm pEntry) in accel_levels pEntry n [1..<unat n] tm)"

definition FillTreeAccelBlocks :: "u64 \<Rightarrow> tree_mem \<Rightarrow> tree_mem option" where
  "FillTreeAccelBlocks pFirstEntry tm = for_entries accel_entry pFirstEntry tm"

fun in_use :: "mem_usage \<Rightarrow> bool" where
  "in_use USAGE_KERNEL_CODE = True"
| "in_use USAGE_KERNEL_DATA = True"
| "in_use USAGE_BOOT_CODE = True"
| "in_use USAGE_BOOT_DATA = True"
| "in_use USAGE_INITIAL_MEMMAP = True"
| "in_use USAGE_NONE = False"
| "in_use USAGE_MAPPED = False"

fun mark_initial_entries :: "u64 \<Rightarrow> init_entry list \<Rightarrow> tree_mem \<Rightarrow> tree_mem option" where
  "mark_initial_entries pFirstEntry [] tm = Some tm"
| "mark_initial_entries pFirstEntry (e # es) tm =
     (if \<not> ShouldCreateTreeForType (memoryType e) then mark_initial_entries pFirstEntry es tm
      else if in_use (usage e) then do {
        tm \<leftarrow> MarkUsedTreePages pFirstEntry (physicalAddress e) (numPhysicalPages e * PAGE_SIZE) tm;
        mark_initial_entries pFirstEntry es tm }
      else mark_initial_entries pFirstEntry es tm)"

fun mark_regions :: "u64 \<Rightarrow> (u64 \<times> u64) list \<Rightarrow> tree_mem \<Rightarrow> tree_mem option" where
  "mark_regions pFirstEntry [] tm = Some tm"
| "mark_regions pFirstEntry ((start, sz) # regions) tm = do {
     tm \<leftarrow> MarkUsedTreePages pFirstEntry start sz tm;
     mark_regions pFirstEntry regions tm }"

definition MarkPhysicalMemTreeRegions ::
  "u64 \<Rightarrow> init_entry list \<Rightarrow> (u64 \<times> u64) list \<Rightarrow> tree_mem \<Rightarrow> tree_mem option" where
  "MarkPhysicalMemTreeRegions pFirstEntry pInitialMap otherRegions tm = do {
     tm \<leftarrow> SetAllTreePagesAvailable pFirstEntry tm;
     tm \<leftarrow> mark_initial_entries pFirstEntry pInitialMap tm;
     tm \<leftarrow> mark_regions pFirstEntry otherRegions tm;
     FillTreeAccelBlocks pFirstEntry tm }"

subsection \<open>The summary of two blocks\<close>

lemma block_summary_unat:
  assumes "unat s0 \<le> 128" "unat s1 \<le> 128"
  shows "unat (block_summary s0 s1) =
    (let n = unat s0 div 2 + unat s1 div 2
     in if odd (unat s0) \<or> odd (unat s1) then (if even n then n + 1 else n) else n)"
proof -
  have sum: "unat (s0 div 2 + s1 div 2) = unat s0 div 2 + unat s1 div 2"
    using assms by (subst unat_word_ariths) (simp add: unat_div)
  have mod2: "unat (x AND 1) = unat x mod 2" for x :: u8 by (simp add: and_one_eq unat_mod)
  then have bit0: "(x AND 1 \<noteq> 0) = odd (unat x)" for x :: u8
    by (metis even_iff_mod_2_eq_zero unat_0 unsigned_eq_0_iff)
  then have even: "even x = even (unat x)" for x :: u8
    by (metis and_one_eq even_iff_mod_2_eq_zero)
  have or1: "unat (x OR 1) = (if even (unat x) then unat x + 1 else unat x)" if "unat x \<le> 200" for x :: u8
    using that by (auto simp: or_one_eq even unat_word_ariths)
  show ?thesis
    unfolding block_summary_def Let_def bit0 using assms
    by (auto simp: or1 sum)
qed

text \<open>
  The levels above the pages as one function of the level and the absolute block number,
  0 outside the range: every block summarises its two halves.
\<close>

definition summarises :: "nat \<Rightarrow> (nat \<Rightarrow> nat \<Rightarrow> u8) \<Rightarrow> bool" where
  "summarises D S \<longleftrightarrow>
     (\<forall>k. Suc k < D \<longrightarrow> (\<forall>X. S (Suc k) X = block_summary (S k (2 * X)) (S k (2 * X + 1))))"

definition available :: "(nat \<Rightarrow> nat \<Rightarrow> u8) \<Rightarrow> nat \<Rightarrow> nat \<Rightarrow> nat" where
  "available S k X = card {P. X * 2 ^ k \<le> P \<and> P < (X + 1) * 2 ^ k \<and> S 0 P \<noteq> 0}"

lemma available_Suc: "available S (Suc k) X = available S k (2 * X) + available S k (2 * X + 1)"
proof -
  let ?A = "\<lambda>k X. {P. X * 2 ^ k \<le> P \<and> P < (X + 1) * 2 ^ k \<and> S 0 P \<noteq> 0}"
  have "?A (Suc k) X = ?A k (2 * X) \<union> ?A k (2 * X + 1)" by auto
  moreover have "finite (?A k Y)" for Y by (rule finite_subset [of _ "{..<(Y + 1) * 2 ^ k}"]) auto
  moreover have "?A k (2 * X) \<inter> ?A k (2 * X + 1) = {}" by auto
  ultimately show ?thesis unfolding available_def by (simp only: card_Un_disjoint)
qed

lemma available_le: "available S k X \<le> 2 ^ k"
proof -
  have "{P. X * 2 ^ k \<le> P \<and> P < (X + 1) * 2 ^ k \<and> S 0 P \<noteq> 0} \<subseteq> {X * 2 ^ k..<(X + 1) * 2 ^ k}" by auto
  from card_mono [OF _ this] show ?thesis by (simp add: available_def)
qed

lemma available_0: "available S 0 X = (if S 0 X = 0 then 0 else 1)"
proof -
  have "{P. X * 2 ^ 0 \<le> P \<and> P < (X + 1) * 2 ^ 0 \<and> S 0 P \<noteq> 0} = (if S 0 X = 0 then {} else {X})"
    by (auto simp: less_Suc_eq_le)
  then show ?thesis by (simp add: available_def)
qed

text \<open>What a block value \<open>v\<close> of level \<open>k\<close> says about \<open>c\<close> available pages below it.\<close>

definition tells :: "nat \<Rightarrow> nat \<Rightarrow> nat \<Rightarrow> bool" where
  "tells k v c \<longleftrightarrow> v \<le> 128 \<and> (v = 0 \<longleftrightarrow> c = 0) \<and> (v = 128 \<longleftrightarrow> c = 2 ^ k)
     \<and> (k \<le> 7 \<longrightarrow> v * 2 ^ k = 128 * c) \<and> (v - v mod 2) * 2 ^ k \<le> 128 * c"

lemma tells_exact_even: "tells k v c \<Longrightarrow> k \<le> 6 \<Longrightarrow> even v"
proof -
  assume "tells k v c" and k: "k \<le> 6"
  then have "v * 2 ^ k = 128 * c" by (simp add: tells_def)
  moreover have "(128 :: nat) = 2 * 2 ^ (6 - k) * 2 ^ k"
    using k power_add [of "2 :: nat" "6 - k" k] by (simp add: mult.commute)
  ultimately have "v * 2 ^ k = (2 * 2 ^ (6 - k) * c) * 2 ^ k" by (metis mult.assoc mult.commute)
  then have "v = 2 * (2 ^ (6 - k) * c)" by simp
  then show "even v" by simp
qed

lemma tells_summary:
  assumes s: "tells k (unat s0) c0" "tells k (unat s1) c1" and c: "c0 \<le> 2 ^ k" "c1 \<le> 2 ^ k"
  shows "tells (Suc k) (unat (block_summary s0 s1)) (c0 + c1)"
proof -
  define v0 v1 v where "v0 = unat s0" and "v1 = unat s1" and "v = unat (block_summary s0 s1)"
  define n where "n = v0 div 2 + v1 div 2"
  have t: "v0 \<le> 128" "v0 = 0 \<longleftrightarrow> c0 = 0" "v0 = 128 \<longleftrightarrow> c0 = 2 ^ k" "(v0 - v0 mod 2) * 2 ^ k \<le> 128 * c0"
    "v1 \<le> 128" "v1 = 0 \<longleftrightarrow> c1 = 0" "v1 = 128 \<longleftrightarrow> c1 = 2 ^ k" "(v1 - v1 mod 2) * 2 ^ k \<le> 128 * c1"
    using s by (simp_all add: tells_def v0_def v1_def)
  have v: "v = (if odd v0 \<or> odd v1 then (if even n then n + 1 else n) else n)"
    using block_summary_unat [of s0 s1] t(1,5) by (simp add: v_def v0_def v1_def n_def Let_def)
  have n2: "2 * n + (v0 mod 2 + v1 mod 2) = v0 + v1"
    unfolding n_def by (simp add: add_mult_distrib2)
  have le: "v \<le> 128" and zero: "v = 0 \<longleftrightarrow> v0 = 0 \<and> v1 = 0" and full: "v = 128 \<longleftrightarrow> v0 = 128 \<and> v1 = 128"
  proof -
    have "v \<le> 128 \<and> (v = 0 \<longleftrightarrow> v0 = 0 \<and> v1 = 0) \<and> (v = 128 \<longleftrightarrow> v0 = 128 \<and> v1 = 128)"
    proof (cases "odd v0 \<or> odd v1")
      case True
      then have "1 \<le> v0 mod 2 + v1 mod 2" by (auto simp: odd_iff_mod_2_eq_one)
      with n2 t(1,5) have n: "n \<le> 127" by linarith
      with True have "v \<le> 127" "v \<noteq> 0" unfolding v by (auto simp: le_less_Suc_eq elim!: evenE intro: odd_pos)
      with True show ?thesis by (auto intro: odd_pos)
    next
      case False
      then have "v = n" "2 * n = v0 + v1" using n2 by (simp_all add: v even_iff_mod_2_eq_zero)
      with t(1,5) show ?thesis by linarith
    qed
    then show "v \<le> 128" "v = 0 \<longleftrightarrow> v0 = 0 \<and> v1 = 0" "v = 128 \<longleftrightarrow> v0 = 128 \<and> v1 = 128" by blast+
  qed
  have "c0 + c1 = 2 ^ Suc k \<longleftrightarrow> c0 = 2 ^ k \<and> c1 = 2 ^ k" using c by auto
  with full t(3,7) have full': "v = 128 \<longleftrightarrow> c0 + c1 = 2 ^ Suc k" by simp
  have exact: "v * 2 ^ Suc k = 128 * (c0 + c1)" if "Suc k \<le> 7"
  proof -
    have "even v0" "even v1"
      using tells_exact_even [OF s(1)] tells_exact_even [OF s(2)] that by (simp_all add: v0_def v1_def)
    then have "v * 2 = v0 + v1" by (auto simp: v n_def)
    then have "v * 2 ^ Suc k = v0 * 2 ^ k + v1 * 2 ^ k" by (metis mult.assoc mult.commute power_Suc add_mult_distrib)
    then show ?thesis using s that by (simp add: tells_def v0_def v1_def)
  qed
  have "(v - v mod 2) * 2 \<le> (v0 - v0 mod 2) + (v1 - v1 mod 2)"
  proof -
    have "v - v mod 2 \<le> n" by (auto simp: v odd_iff_mod_2_eq_one mod_Suc)
    moreover have "v0 mod 2 \<le> v0" "v1 mod 2 \<le> v1" by simp_all
    ultimately show ?thesis using n2 by linarith
  qed
  then have "(v - v mod 2) * 2 * 2 ^ k \<le> ((v0 - v0 mod 2) + (v1 - v1 mod 2)) * 2 ^ k"
    by (rule mult_le_mono1)
  also have "\<dots> \<le> 128 * (c0 + c1)" unfolding add_mult_distrib add_mult_distrib2 using t(4,8) by (rule add_mono)
  finally have "(v - v mod 2) * 2 ^ Suc k \<le> 128 * (c0 + c1)" by (simp add: mult.assoc)
  with le zero t(2,6) full' exact show ?thesis by (simp add: tells_def flip: v_def)
qed

lemma summary_tells:
  assumes "summarises D S" "\<And>P. S 0 P = 0 \<or> S 0 P = 0x80" "k < D"
  shows "tells k (unat (S k X)) (available S k X)"
  using assms(3)
proof (induction k arbitrary: X)
  case 0
  then show ?case using assms(2) [of X] by (auto simp: tells_def available_0)
next
  case (Suc k)
  have "S (Suc k) X = block_summary (S k (2 * X)) (S k (2 * X + 1))"
    using assms(1) Suc.prems by (simp add: summarises_def)
  then show ?case
    unfolding available_Suc
    using tells_summary [OF Suc.IH Suc.IH available_le available_le] Suc.prems by simp
qed

end
