(* ===== verification/PhysMemTreeBlocks.thy ===== *)
theory PhysMemTreeBlocks
  imports PhysMemTreeMark
begin

text \<open>
  The physical memory tree in its buffer, seen as blocks: the block bytes of different
  levels do not overlap, so that the operations of PhysMemTreeMark act on the blocks of one
  level of one entry at a time, and the walk over the entries visits each once. From this
  the properties of the tree follow.
\<close>

unbundle bit_operations_syntax

subsection \<open>Slots\<close>

text \<open>Level \<open>k\<close> (from the pages) of entry \<open>i\<close>, as an index of the level array.\<close>

definition lidx :: "phys_range list \<Rightarrow> nat \<Rightarrow> nat \<Rightarrow> nat" where
  "lidx rs i k = length (flat (take i rs)) + (rdepth (rs ! i) - 1 - k)"

definition is_level :: "phys_range list \<Rightarrow> nat \<Rightarrow> nat \<Rightarrow> bool" where
  "is_level rs i k \<longleftrightarrow> i < length rs \<and> k < rdepth (rs ! i)"

definition is_block :: "phys_range list \<Rightarrow> nat \<Rightarrow> nat \<Rightarrow> nat \<Rightarrow> bool" where
  "is_block rs i k x \<longleftrightarrow> is_level rs i k \<and> x < rnum (rs ! i) k"

text \<open>The address of the first block of a level, in a buffer at \<open>u\<close>.\<close>

definition slot :: "nat \<Rightarrow> phys_range list \<Rightarrow> nat \<Rightarrow> nat" where
  "slot u rs j =
     (let n = rnum (fst (flat rs ! j)) (snd (flat rs ! j))
      in if 8 < n
         then u + 64 * length rs + 32 * length (flat rs) + block_bytes (take j (flat rs))
         else u + 64 * length rs + 32 * j + 24)"

lemma flat_take_Suc:
  "i < length rs \<Longrightarrow> length (flat (take (Suc i) rs)) = length (flat (take i rs)) + rdepth (rs ! i)"
  by (simp add: take_Suc_conv_app_nth)

lemma flat_take_le: "i \<le> i' \<Longrightarrow> length (flat (take i rs)) \<le> length (flat (take i' rs))"
proof -
  assume "i \<le> i'"
  then have "take i' rs = take i rs @ take (i' - i) (drop i rs)" by (metis le_add_diff_inverse take_add)
  then show ?thesis by simp
qed

lemma lidx_less: "is_level rs i k \<Longrightarrow> lidx rs i k < length (flat (take (Suc i) rs))"
  by (simp add: is_level_def lidx_def flat_take_Suc)

lemma lidx_less_length: "is_level rs i k \<Longrightarrow> lidx rs i k < length (flat rs)"
  using lidx_less [of rs i k] flat_take_le [of "Suc i" "length rs" rs] by (simp add: is_level_def)

lemma flat_nth: "is_level rs i k \<Longrightarrow> flat rs ! lidx rs i k = (rs ! i, k)"
proof -
  assume l: "is_level rs i k"
  then have "rs = take i rs @ rs ! i # drop (Suc i) rs" by (simp add: is_level_def id_take_nth_drop)
  then have "flat rs = flat (take i rs) @ range_levels (rs ! i) @ flat (drop (Suc i) rs)"
    by (metis flat_simps(2,3))
  then have "flat rs ! lidx rs i k
      = (range_levels (rs ! i) @ flat (drop (Suc i) rs)) ! (rdepth (rs ! i) - 1 - k)"
    by (simp only: lidx_def nth_append_length_plus)
  then show ?thesis using l by (simp add: is_level_def nth_append)
qed

lemma lidx_eq_iff:
  assumes "is_level rs i k" "is_level rs i' k'"
  shows "lidx rs i k = lidx rs i' k' \<longleftrightarrow> i = i' \<and> k = k'"
proof
  assume eq: "lidx rs i k = lidx rs i' k'"
  have "\<not> i < i'" "\<not> i' < i"
    using lidx_less [OF assms(1)] lidx_less [OF assms(2)] flat_take_le [of "Suc i" i' rs]
      flat_take_le [of "Suc i'" i rs] eq by (auto simp: lidx_def)
  with eq assms show "i = i' \<and> k = k'" by (auto simp: lidx_def is_level_def)
qed simp

lemma block_bytes_take:
  "j < length ls \<Longrightarrow> block_bytes (take j ls) + own_bytes (ls ! j) \<le> block_bytes (take (Suc j) ls)"
  by (simp add: take_Suc_conv_app_nth)

lemma block_bytes_take_mono: "j \<le> j' \<Longrightarrow> block_bytes (take j ls) \<le> block_bytes (take j' ls)"
proof -
  assume "j \<le> j'"
  then have "take j' ls = take j ls @ take (j' - j) (drop j ls)" by (metis le_add_diff_inverse take_add)
  then show ?thesis by simp
qed

definition slot_num :: "phys_range list \<Rightarrow> nat \<Rightarrow> nat" where
  "slot_num rs j = rnum (fst (flat rs ! j)) (snd (flat rs ! j))"

lemma slot_before:
  assumes "j < j'" "j' < length (flat rs)" "8 < slot_num rs j"
  shows "block_bytes (take j (flat rs)) + slot_num rs j \<le> block_bytes (take j' (flat rs))"
  using block_bytes_take [of j "flat rs"] block_bytes_take_mono [of "Suc j" j' "flat rs"] assms
  by (simp add: own_bytes_def slot_num_def Let_def)

lemma slot_disjoint:
  assumes "j < j'" "j' < length (flat rs)"
  shows "slot u rs j + slot_num rs j \<le> slot u rs j' \<or> slot u rs j' + slot_num rs j' \<le> slot u rs j"
  using slot_before [OF assms] assms unfolding slot_def Let_def slot_num_def [symmetric]
  by (cases "8 < slot_num rs j"; cases "8 < slot_num rs j'"; simp; linarith)

lemma slot_bounds:
  assumes "j < length (flat rs)"
  shows "u \<le> slot u rs j" "slot u rs j + slot_num rs j \<le> u + tree_bytes rs"
proof -
  show "u \<le> slot u rs j" by (simp add: slot_def Let_def)
  have "block_bytes (take j (flat rs)) + slot_num rs j \<le> block_bytes (flat rs)" if "8 < slot_num rs j"
    using block_bytes_take [OF assms] block_bytes_take_mono [of "Suc j" "length (flat rs)" "flat rs"]
      assms that by (simp add: own_bytes_def slot_num_def Let_def)
  then show "slot u rs j + slot_num rs j \<le> u + tree_bytes rs"
    using assms unfolding slot_def Let_def slot_num_def [symmetric] tree_bytes_def
    by (cases "8 < slot_num rs j"; simp; linarith)
qed

text \<open>The address of block \<open>x\<close> of level \<open>k\<close> of entry \<open>i\<close>; different blocks, different bytes.\<close>

definition block_addr :: "nat \<Rightarrow> phys_range list \<Rightarrow> nat \<Rightarrow> nat \<Rightarrow> nat \<Rightarrow> nat" where
  "block_addr u rs i k x = slot u rs (lidx rs i k) + x"

lemma slot_num_lidx: "is_level rs i k \<Longrightarrow> slot_num rs (lidx rs i k) = rnum (rs ! i) k"
  by (simp add: slot_num_def flat_nth)

lemma block_addr_eq_iff:
  assumes "is_block rs i k x" "is_block rs i' k' x'"
  shows "block_addr u rs i k x = block_addr u rs i' k' x' \<longleftrightarrow> i = i' \<and> k = k' \<and> x = x'"
proof -
  have l: "is_level rs i k" "is_level rs i' k'" "x < slot_num rs (lidx rs i k)"
      "x' < slot_num rs (lidx rs i' k')"
    using assms by (simp_all add: is_block_def slot_num_lidx)
  note less = lidx_less_length [OF l(1)] lidx_less_length [OF l(2)]
  consider "lidx rs i k = lidx rs i' k'" | "lidx rs i k < lidx rs i' k'" | "lidx rs i' k' < lidx rs i k"
    by linarith
  then show ?thesis
  proof cases
    case 1
    then show ?thesis using lidx_eq_iff [OF l(1,2)] by (auto simp: block_addr_def)
  next
    case 2
    with slot_disjoint [OF 2 less(2), of u] l(3,4) lidx_eq_iff [OF l(1,2)] show ?thesis
      by (auto simp: block_addr_def)
  next
    case 3
    with slot_disjoint [OF 3 less(1), of u] l(3,4) lidx_eq_iff [OF l(1,2)] show ?thesis
      by (auto simp: block_addr_def)
  qed
qed

subsection \<open>The tree in its buffer\<close>

definition tree_at :: "u64 \<Rightarrow> phys_range list \<Rightarrow> tree_mem \<Rightarrow> bool" where
  "tree_at pBuffer rs tm \<longleftrightarrow>
     pBuffer \<noteq> 0 \<and> tree_fits pBuffer rs \<and> list_all low_range rs
     \<and> tree_layout pBuffer (pBuffer + treeLevelStructsOffset (size_of_tree rs))
         (pBuffer + blocksOffset (size_of_tree rs)) rs tm"

definition same_structs :: "tree_mem \<Rightarrow> tree_mem \<Rightarrow> bool" where
  "same_structs tm tm' \<longleftrightarrow> entry_at tm' = entry_at tm \<and> level_at tm' = level_at tm"

lemma same_structs_refl [simp]: "same_structs tm tm"
  by (simp add: same_structs_def)

lemma same_structs_trans: "same_structs tm tm' \<Longrightarrow> same_structs tm' tm'' \<Longrightarrow> same_structs tm tm''"
  by (simp add: same_structs_def)

lemma tree_at_same: "tree_at pBuffer rs tm \<Longrightarrow> same_structs tm tm' \<Longrightarrow> tree_at pBuffer rs tm'"
  by (simp add: tree_at_def same_structs_def tree_layout_def)

text \<open>Block \<open>x\<close> of level \<open>k\<close> of entry \<open>i\<close>.\<close>

definition blk :: "u64 \<Rightarrow> phys_range list \<Rightarrow> tree_mem \<Rightarrow> nat \<Rightarrow> nat \<Rightarrow> nat \<Rightarrow> u8" where
  "blk pBuffer rs tm i k x = byte_at tm (of_nat (block_addr (unat pBuffer) rs i k x))"

definition level_ptr :: "u64 \<Rightarrow> phys_range list \<Rightarrow> nat \<Rightarrow> nat \<Rightarrow> u64" where
  "level_ptr pBuffer rs i k =
     flat_addr (pBuffer + treeLevelStructsOffset (size_of_tree rs)) (lidx rs i k)"

lemma tree_entry:
  assumes "tree_at pBuffer rs tm" "i < length rs"
  shows "entry_at tm (entry_addr pBuffer i) =
    entry_for pBuffer (pBuffer + treeLevelStructsOffset (size_of_tree rs)) rs i"
  using assms by (simp add: tree_at_def tree_layout_def)

lemma tree_level:
  assumes "tree_at pBuffer rs tm" "is_level rs i k"
  shows "level_ok (pBuffer + blocksOffset (size_of_tree rs)) (rs ! i, k)
    (block_bytes (take (lidx rs i k) (flat rs))) (level_at tm (level_ptr pBuffer rs i k))"
  using assms lidx_less_length [OF assms(2)]
  by (auto simp: tree_at_def tree_layout_def levels_ok_def level_ptr_def simp flip: flat_nth [OF assms(2)])

lemma tree_low: "tree_at pBuffer rs tm \<Longrightarrow> i < length rs \<Longrightarrow> low_range (rs ! i)"
  by (simp add: tree_at_def list_all_length)

lemma tree_num:
  assumes "tree_at pBuffer rs tm" "is_level rs i k"
  shows "unat (numBlocks (level_at tm (level_ptr pBuffer rs i k))) = rnum (rs ! i) k"
proof -
  have "rnum (rs ! i) k \<le> 2 ^ 51"
    using assms tree_low [OF assms(1), of i] by (intro rnum_bound) (simp_all add: is_level_def)
  then show ?thesis using tree_level [OF assms] by (simp add: level_ok_def unat_u64_of_nat)
qed

lemma level_of_ptr:
  assumes "tree_at pBuffer rs tm" "is_level rs i k"
  shows "level_of (entry_at tm (entry_addr pBuffer i)) (of_nat (rdepth (rs ! i) - 1 - k))
    = level_ptr pBuffer rs i k"
proof -
  have i: "i < length rs" using assms(2) by (simp add: is_level_def)
  show ?thesis
    by (simp add: level_of_def tree_entry [OF assms(1) i] entry_for_def Let_def level_ptr_def lidx_def
        flat_addr_plus [symmetric] flat_addr_def [of "flat_addr _ _"] del: of_nat_diff)
qed

lemma block_addr_bound:
  assumes "tree_at pBuffer rs tm" "is_level rs i k" "x \<le> rnum (rs ! i) k"
  shows "block_addr (unat pBuffer) rs i k x < 18446744073709551616"
    "0 < block_addr (unat pBuffer) rs i k x"
proof -
  have "tree_fits pBuffer rs" "0 < unat pBuffer"
    using assms(1) by (auto simp: tree_at_def intro: gr0I simp: unsigned_eq_0_iff)
  then show "block_addr (unat pBuffer) rs i k x < 18446744073709551616"
    "0 < block_addr (unat pBuffer) rs i k x"
    using slot_bounds [OF lidx_less_length [OF assms(2)], of "unat pBuffer"] assms(3)
    unfolding slot_num_lidx [OF assms(2)] block_addr_def tree_fits_def by linarith+
qed

lemma tree_blocks_of:
  assumes "tree_at pBuffer rs tm" "is_level rs i k"
  shows "blocks_of tm (level_ptr pBuffer rs i k) = of_nat (block_addr (unat pBuffer) rs i k 0)"
proof -
  let ?j = "lidx rs i k"
  have fits: "tree_fits pBuffer rs" using assms(1) by (simp add: tree_at_def)
  note parts = tree_fits_parts [OF fits refl]
  have pL: "pBuffer + treeLevelStructsOffset (size_of_tree rs) = of_nat (unat pBuffer + 64 * length rs)"
    and pB: "pBuffer + blocksOffset (size_of_tree rs)
      = of_nat (unat pBuffer + 64 * length rs + 32 * length (flat rs))"
    by (metis parts(1) of_nat_unat_u64, metis parts(2) of_nat_unat_u64)
  show ?thesis
    using tree_level [OF assms] tree_num [OF assms]
    unfolding blocks_of_def block_addr_def slot_def Let_def flat_nth [OF assms(2)] level_ok_def
    by (simp add: word_less_nat_alt pB level_ptr_def flat_addr_def pL)
qed

subsection \<open>Writing blocks\<close>

text \<open>\<open>memset\<close> on blocks of one level leaves all others alone.\<close>

lemma memset_level:
  assumes tree: "tree_at pBuffer rs tm" and l: "is_level rs i k" and x0: "x0 + n \<le> rnum (rs ! i) k"
  shows "\<exists>tm'. memset_blocks (of_nat (block_addr (unat pBuffer) rs i k x0)) ch (of_nat n) tm = Some tm'
    \<and> same_structs tm tm'
    \<and> (\<forall>i' k' x. is_block rs i' k' x \<longrightarrow> blk pBuffer rs tm' i' k' x =
        (if i' = i \<and> k' = k \<and> x0 \<le> x \<and> x < x0 + n then ucast ch else blk pBuffer rs tm i' k' x))"
proof -
  let ?d = "block_addr (unat pBuffer) rs i k x0"
  have sum: "?d + n = block_addr (unat pBuffer) rs i k (x0 + n)" by (simp add: block_addr_def)
  have dn: "?d + n < 18446744073709551616" "0 < ?d"
    unfolding sum using block_addr_bound [OF tree l] x0 by simp_all
  have u: "unat (of_nat ?d :: u64) = ?d" "unat (of_nat n :: u64) = n"
    using dn by (simp_all add: unat_u64_of_nat)
  have nz: "(of_nat ?d :: u64) \<noteq> 0" using dn(2) u(1) by (metis less_numeral_extra(3) unat_0)
  have room: "unat (of_nat ?d :: u64) + unat (of_nat n :: u64) < 18446744073709551616"
    unfolding u by (rule dn)
  obtain m where m: "memset (byte_at tm) (of_nat ?d) ch (of_nat n) = Some (m, of_nat ?d)"
    using kernel_memset.mset_total [OF room] by blast
  have read: "m a = (if unat (a - of_nat ?d) < n then ucast ch else byte_at tm a)" for a
    using kernel_memset.mset_read [OF room nz m] u(2) by simp
  have "unat (of_nat (block_addr (unat pBuffer) rs i' k' x) - of_nat ?d :: u64) < n
      \<longleftrightarrow> i' = i \<and> k' = k \<and> x0 \<le> x \<and> x < x0 + n" if b: "is_block rs i' k' x" for i' k' x
  proof -
    let ?a = "block_addr (unat pBuffer) rs i' k' x"
    have "?a < 18446744073709551616"
      using b block_addr_bound(1) [OF tree, of i' k' x] by (simp add: is_block_def)
    then have "unat (of_nat ?a - of_nat ?d :: u64) < n \<longleftrightarrow> ?d \<le> ?a \<and> ?a < ?d + n"
      using unat_minus_of_nat_less_iff [OF dn(1), of "of_nat ?a"] by (simp add: unat_u64_of_nat)
    also have "\<dots> \<longleftrightarrow> (\<exists>y. x0 \<le> y \<and> y < x0 + n \<and> ?a = block_addr (unat pBuffer) rs i k y)"
    proof
      assume "?d \<le> ?a \<and> ?a < ?d + n"
      then show "\<exists>y. x0 \<le> y \<and> y < x0 + n \<and> ?a = block_addr (unat pBuffer) rs i k y"
        by (intro exI [of _ "x0 + (?a - ?d)"]) (auto simp: block_addr_def)
    qed (auto simp: block_addr_def)
    also have "\<dots> \<longleftrightarrow> (\<exists>y. x0 \<le> y \<and> y < x0 + n \<and> i' = i \<and> k' = k \<and> x = y)"
    proof -
      have "?a = block_addr (unat pBuffer) rs i k y \<longleftrightarrow> i' = i \<and> k' = k \<and> x = y" if "y < x0 + n" for y
        using that l x0 by (intro block_addr_eq_iff [OF b]) (simp add: is_block_def)
      then show ?thesis by (simp cong: conj_cong)
    qed
    also have "\<dots> \<longleftrightarrow> i' = i \<and> k' = k \<and> x0 \<le> x \<and> x < x0 + n" by blast
    finally show ?thesis .
  qed
  then show ?thesis
    by (intro exI [of _ "tm\<lparr>byte_at := m\<rparr>"])
      (simp add: memset_blocks_def m same_structs_def blk_def read)
qed

text \<open>So does a single assignment.\<close>

lemma write_level:
  fixes v :: u8
  assumes tree: "tree_at pBuffer rs tm" and b: "is_block rs i k x0"
  defines "tm' \<equiv> tm\<lparr>byte_at := (byte_at tm)(of_nat (block_addr (unat pBuffer) rs i k x0) := v)\<rparr>"
  shows "same_structs tm tm'"
    "is_block rs i' k' x \<Longrightarrow> blk pBuffer rs tm' i' k' x =
      (if i' = i \<and> k' = k \<and> x = x0 then v else blk pBuffer rs tm i' k' x)"
proof -
  show "same_structs tm tm'" by (simp add: tm'_def same_structs_def)
  assume b': "is_block rs i' k' x"
  have "(of_nat (block_addr (unat pBuffer) rs i' k' x) :: u64) = of_nat (block_addr (unat pBuffer) rs i k x0)
      \<longleftrightarrow> i' = i \<and> k' = k \<and> x = x0"
    using b b' block_addr_bound(1) [OF tree, of i' k' x] block_addr_bound(1) [OF tree, of i k x0]
      block_addr_eq_iff [OF b' b] by (simp add: of_nat_u64_eq_iff is_block_def)
  then show "blk pBuffer rs tm' i' k' x =
      (if i' = i \<and> k' = k \<and> x = x0 then v else blk pBuffer rs tm i' k' x)"
    by (simp add: tm'_def blk_def)
qed

subsection \<open>The walk over the entries\<close>

lemma for_entries_walk:
  assumes tree: "tree_at pBuffer rs tm" and init: "P 0 tm" and rs: "rs \<noteq> []"
    and step: "\<And>i tm'. i < length rs \<Longrightarrow> same_structs tm tm' \<Longrightarrow> P i tm' \<Longrightarrow>
      \<exists>tm''. body (entry_addr pBuffer i) tm' = Some tm'' \<and> same_structs tm' tm'' \<and> P (Suc i) tm''"
  shows "\<exists>tm'. for_entries body pBuffer tm = Some tm' \<and> same_structs tm tm' \<and> P (length rs) tm'"
proof -
  have fits: "unat pBuffer + 64 * length rs < 18446744073709551616" "0 < unat pBuffer"
    using tree by (auto simp: tree_at_def tree_fits_def tree_bytes_def unsigned_eq_0_iff intro: gr0I)
  have nz: "entry_addr pBuffer i \<noteq> 0" if "i < length rs" for i
  proof -
    have "unat (entry_addr pBuffer i) = unat pBuffer + 64 * i"
      using fits that by (intro unat_entry_addr) simp
    with fits(2) show ?thesis by auto
  qed
  have "\<exists>tm''. for_entries body (entry_addr pBuffer i) tm' = Some tm'' \<and> same_structs tm tm''
      \<and> P (length rs) tm''"
    if "i < length rs" "same_structs tm tm'" "P i tm'" for i tm'
    using that
  proof (induction "length rs - i" arbitrary: i tm')
    case (Suc m)
    obtain tm'' where tm'': "body (entry_addr pBuffer i) tm' = Some tm''" "same_structs tm' tm''"
        "P (Suc i) tm''"
      using step Suc.prems by blast
    have link: "pNextEntry (entry_at tm'' (entry_addr pBuffer i))
        = (if Suc i < length rs then entry_addr pBuffer (Suc i) else 0)"
      using tree_entry [OF tree Suc.prems(1)] Suc.prems(2) tm''(2)
      by (simp add: same_structs_def entry_for_def Let_def)
    have structs: "same_structs tm tm''" using Suc.prems(2) tm''(2) by (rule same_structs_trans)
    have walk: "for_entries body (entry_addr pBuffer i) tm'
        = for_entries body (pNextEntry (entry_at tm'' (entry_addr pBuffer i))) tm''"
      using nz [OF Suc.prems(1)] tm''(1) by (subst for_entries.simps) simp
    show ?case
    proof (cases "Suc i < length rs")
      case True
      then show ?thesis
        using Suc.hyps(1) [OF _ True structs tm''(3)] Suc.hyps(2) by (simp add: walk link)
    next
      case False
      then have "length rs = Suc i" using Suc.prems(1) by simp
      then show ?thesis
        using structs tm''(3) by (simp add: walk link) (simp add: for_entries.simps)
    qed
  qed simp
  from this [of 0 tm] init rs show ?thesis by simp
qed

subsection \<open>Making pages available and taking them out\<close>

lemma last_level:
  assumes "tree_at pBuffer rs tm" "i < length rs"
  shows "level_of (entry_at tm (entry_addr pBuffer i)) (numTreeLevels (entry_at tm (entry_addr pBuffer i)) - 1)
    = level_ptr pBuffer rs i 0" "is_level rs i 0"
proof -
  show l: "is_level rs i 0" using assms(2) by (simp add: is_level_def)
  have "of_nat (rdepth (rs ! i)) - 1 = (of_nat (rdepth (rs ! i) - 1 - 0) :: u64)"
    using rdepth_pos [of "rs ! i"] by (cases "rdepth (rs ! i)") simp_all
  with level_of_ptr [OF assms(1) l] show "level_of (entry_at tm (entry_addr pBuffer i))
      (numTreeLevels (entry_at tm (entry_addr pBuffer i)) - 1) = level_ptr pBuffer rs i 0"
    by (simp add: tree_entry [OF assms] entry_for_def Let_def)
qed

lemma set_entry_available_blocks:
  assumes "tree_at pBuffer rs tm" "i < length rs"
  shows "\<exists>tm'. set_entry_available (entry_addr pBuffer i) tm = Some tm' \<and> same_structs tm tm'
    \<and> (\<forall>i' k x. is_block rs i' k x \<longrightarrow> blk pBuffer rs tm' i' k x =
        (if i' = i \<and> k = 0 then 0x80 else blk pBuffer rs tm i' k x))"
proof -
  note last = last_level [OF assms]
  have n: "numBlocks (level_at tm (level_ptr pBuffer rs i 0)) = of_nat (rnum (rs ! i) 0)"
    using tree_level [OF assms(1) last(2)] by (simp add: level_ok_def)
  from memset_level [OF assms(1) last(2), of 0 "rnum (rs ! i) 0" "0x80"] show ?thesis
    by (auto simp: set_entry_available_def Let_def last(1) n tree_blocks_of [OF assms(1) last(2)]
        is_block_def)
qed

lemma SetAllTreePagesAvailable_blocks:
  assumes "tree_at pBuffer rs tm" "rs \<noteq> []"
  shows "\<exists>tm'. SetAllTreePagesAvailable pBuffer tm = Some tm' \<and> same_structs tm tm'
    \<and> (\<forall>i k x. is_block rs i k x \<longrightarrow> blk pBuffer rs tm' i k x =
        (if k = 0 then 0x80 else blk pBuffer rs tm i k x))"
proof -
  let ?P = "\<lambda>n tm'. \<forall>i k x. is_block rs i k x \<longrightarrow> blk pBuffer rs tm' i k x =
    (if k = 0 \<and> i < n then 0x80 else blk pBuffer rs tm i k x)"
  have step: "\<exists>tm''. set_entry_available (entry_addr pBuffer i) tm' = Some tm'' \<and> same_structs tm' tm''
      \<and> ?P (Suc i) tm''" if "i < length rs" "same_structs tm tm'" "?P i tm'" for i tm'
    using set_entry_available_blocks [OF tree_at_same [OF assms(1) that(2)] that(1)] that(3)
    by (elim exE conjE) (auto simp: less_Suc_eq)
  have "\<exists>tm'. for_entries set_entry_available pBuffer tm = Some tm' \<and> same_structs tm tm'
      \<and> ?P (length rs) tm'"
    by (rule for_entries_walk [where P = ?P, OF assms(1) _ assms(2)], simp, rule step)
  then obtain tm' where
    "for_entries set_entry_available pBuffer tm = Some tm'" "same_structs tm tm'" "?P (length rs) tm'"
    by blast
  then show ?thesis
    by (intro exI [of _ tm']) (simp add: SetAllTreePagesAvailable_def is_block_def is_level_def)
qed

text \<open>A region and a page of 4096 bytes have an address in common.\<close>

definition touches :: "nat \<times> nat \<Rightarrow> nat \<Rightarrow> bool" where
  "touches region A \<longleftrightarrow> fst region < A + 4096 \<and> A < fst region + snd region"

definition page_range :: "phys_range \<Rightarrow> bool" where
  "page_range r \<longleftrightarrow> 4096 dvd range_start r \<and> 4096 dvd range_end r"

definition page_addr :: "phys_range \<Rightarrow> nat \<Rightarrow> nat" where
  "page_addr r x = range_start r + 4096 * x"

lemma page_level:
  assumes "page_range r"
  shows "lmin 0 (range_start r) = range_start r" "lmax 0 (range_end r) = range_end r"
    "range_start r + 4096 * rnum r 0 = range_end r"
proof -
  show *: "lmin 0 (range_start r) = range_start r"
    using assms by (simp add: lmin_def bsz_def page_range_def)
  show **: "lmax 0 (range_end r) = range_end r"
    using assms lmax_least [of 0 "range_end r" "range_end r"] lmax_ge [of "range_end r" 0]
    by (simp add: page_range_def bsz_def)
  show "range_start r + 4096 * rnum r 0 = range_end r"
    using lmax_eq [OF range_start_le_end, of 0 r] by (simp add: * ** rnum_def bsz_def)
qed

lemma mark_entry_blocks:
  assumes tree: "tree_at pBuffer rs tm" and i: "i < length rs" and page: "page_range (rs ! i)"
    and fin: "4096 dvd unat start" "4096 dvd unat fin" "unat start \<le> unat fin"
  shows "\<exists>tm'. mark_entry start fin (entry_addr pBuffer i) tm = Some tm' \<and> same_structs tm tm'
    \<and> (\<forall>i' k x. is_block rs i' k x \<longrightarrow> blk pBuffer rs tm' i' k x =
        (if i' = i \<and> k = 0 \<and> unat start \<le> page_addr (rs ! i) x \<and> page_addr (rs ! i) x < unat fin
         then 0 else blk pBuffer rs tm i' k x))"
proof -
  let ?r = "rs ! i" and ?e = "entry_at tm (entry_addr pBuffer i)"
  define a b n where "a = range_start ?r" and "b = range_end ?r" and "n = rnum ?r 0"
  note last = last_level [OF tree i]
  have low: "low_range ?r" by (rule tree_low [OF tree i])
  have ab: "a + 4096 * n = b" "4096 dvd a" "b \<le> 2 ^ 63"
    using page_level [OF page] page low
    by (simp_all add: a_def b_def n_def page_range_def low_range_def)
  have e: "unat (startAddress ?e) = a" "unat (endAddress ?e) = b"
    using range_words [OF low] by (simp_all add: tree_entry [OF tree i] entry_for_def Let_def a_def b_def)
  let ?lv = "level_at tm (level_ptr pBuffer rs i 0)"
  have lv: "startMappedAddress ?lv = of_nat a" "blockSize ?lv = 4096" "numBlocks ?lv = of_nat n"
    using tree_level [OF tree last(2)] page_level(1) [OF page]
    by (simp_all add: level_ok_def bszw_0 a_def n_def)
  have ua: "unat (of_nat a :: u64) = a" and ub: "unat (of_nat b :: u64) = b"
    using ab by (auto intro!: unat_u64_of_nat)
  have max: "of_nat a + of_nat n * 4096 = (of_nat b :: u64)"
    unfolding ab(1) [symmetric] by (simp add: mult.commute)
  show ?thesis
  proof (cases "unat start < b \<and> a < unat fin")
    case False
    then have "mark_entry start fin (entry_addr pBuffer i) tm = Some tm"
      by (auto simp: mark_entry_def Let_def word_less_nat_alt e)
    moreover have "\<not> (unat start \<le> page_addr ?r x \<and> page_addr ?r x < unat fin)"
      if "is_block rs i k x" "k = 0" for k x
    proof -
      have "x < n" using that by (simp add: is_block_def n_def)
      then have "a + 4096 * x < b" using ab(1) by simp
      with False show ?thesis by (auto simp: page_addr_def a_def)
    qed
    ultimately show ?thesis by auto
  next
    case True
    define mn mx where "mn = (if start > of_nat a then start else of_nat a)"
      and "mx = (if fin < of_nat b then fin else of_nat b :: u64)"
    have umn: "unat mn = max (unat start) a" and umx: "unat mx = min (unat fin) b"
      by (auto simp: mn_def mx_def word_less_nat_alt ua ub)
    have le: "unat mn \<le> unat mx" "a \<le> unat mn" "unat mx \<le> b" "4096 dvd unat mn" "4096 dvd unat mx"
    proof -
      have "4096 dvd b" using ab(1,2) by (metis dvd_add dvd_triv_left)
      with True fin ab(1,2) show "unat mn \<le> unat mx" "a \<le> unat mn" "unat mx \<le> b"
        "4096 dvd unat mn" "4096 dvd unat mx"
        unfolding umn umx by (simp_all add: max_def min_def)
    qed
    obtain f where f: "unat mn = a + 4096 * f"
      using le(2,4) ab(2) by (metis dvd_diff_nat dvdE le_add_diff_inverse)
    obtain c where c: "unat mx = unat mn + 4096 * c"
      using le(1,4,5) by (metis dvd_diff_nat dvdE le_add_diff_inverse)
    have first: "unat ((mn - of_nat a) div 4096) = f"
      using le(2) f by (subst unat_u64_div, subst unat_u64_minus) (simp_all add: word_le_nat_alt ua)
    have num: "unat ((mx - mn) div 4096) = c"
      using le(1) c by (subst unat_u64_div, subst unat_u64_minus) (simp_all add: word_le_nat_alt)
    have call: "mark_entry start fin (entry_addr pBuffer i) tm
        = memset_blocks (of_nat (block_addr (unat pBuffer) rs i 0 f)) 0 (of_nat c) tm"
    proof -
      have w: "(mn - of_nat a) div 4096 = of_nat f" "(mx - mn) div 4096 = of_nat c"
        by (metis first of_nat_unat_u64, metis num of_nat_unat_u64)
      have "start < endAddress ?e \<and> startAddress ?e < fin"
        using True by (simp add: word_less_nat_alt e)
      then have "mark_entry start fin (entry_addr pBuffer i) tm = memset_blocks
          (of_nat (block_addr (unat pBuffer) rs i 0 0) + (mn - of_nat a) div 4096) 0 ((mx - mn) div 4096) tm"
        by (simp add: mark_entry_def Let_def last(1) lv max tree_blocks_of [OF tree last(2)] mn_def mx_def)
      then show ?thesis unfolding w by (simp add: block_addr_def)
    qed
    have fit: "f + c \<le> rnum ?r 0"
      using le(3) c f ab(1) by (simp add: n_def [symmetric])
    have pages: "f \<le> x \<and> x < f + c \<longleftrightarrow> unat start \<le> page_addr ?r x \<and> page_addr ?r x < unat fin"
      if "x < n" for x
    proof -
      have "f \<le> x \<longleftrightarrow> unat mn \<le> a + 4096 * x" "x < f + c \<longleftrightarrow> a + 4096 * x < unat mx"
        by (auto simp: f c)
      moreover have "a + 4096 * x < b" using that ab(1) by simp
      ultimately show ?thesis unfolding umn umx by (simp add: page_addr_def a_def)
    qed
    show ?thesis
      unfolding call using memset_level [OF tree last(2) fit, of 0] pages
      by (elim exE conjE) (auto simp: is_block_def n_def)
  qed
qed

definition sound_region :: "u64 \<times> u64 \<Rightarrow> bool" where
  "sound_region region \<longleftrightarrow> unat (fst region) + unat (snd region) + 4095 < 18446744073709551616"

definition nat_region :: "u64 \<times> u64 \<Rightarrow> nat \<times> nat" where
  "nat_region region = (unat (fst region), unat (snd region))"

lemma touches_page:
  assumes "4096 dvd A"
  shows "touches (s, n) A \<longleftrightarrow> s div 4096 * 4096 \<le> A \<and> A < (s + n + 4095) div 4096 * 4096"
proof -
  obtain q where "A = 4096 * q" using assms by blast
  moreover have "s < 4096 * q + 4096 \<longleftrightarrow> s div 4096 * 4096 \<le> 4096 * q"
    using div_less_iff_less_mult [of 4096 s "q + 1"] by (auto simp: less_Suc_eq_le)
  moreover have "4096 * q < e \<longleftrightarrow> 4096 * q < (e + 4095) div 4096 * 4096" for e
    using less_eq_div_iff_mult_less_eq [of 4096 "q + 1" "e + 4095"] by (auto simp: Suc_le_eq)
  ultimately show ?thesis by (simp add: touches_def)
qed

text \<open>\<open>tm'\<close> is \<open>tm\<close> with the pages taken out that one of the regions touches.\<close>

definition pages_taken ::
  "u64 \<Rightarrow> phys_range list \<Rightarrow> (nat \<times> nat) list \<Rightarrow> tree_mem \<Rightarrow> tree_mem \<Rightarrow> bool" where
  "pages_taken pBuffer rs us tm tm' \<longleftrightarrow> same_structs tm tm'
     \<and> (\<forall>i k x. is_block rs i k x \<longrightarrow> blk pBuffer rs tm' i k x =
         (if k = 0 \<and> (\<exists>u \<in> set us. touches u (page_addr (rs ! i) x)) then 0
          else blk pBuffer rs tm i k x))"

lemma pages_taken_Nil: "pages_taken pBuffer rs [] tm tm"
  by (simp add: pages_taken_def)

lemma pages_taken_append:
  "pages_taken pBuffer rs us tm tm' \<Longrightarrow> pages_taken pBuffer rs us' tm' tm'' \<Longrightarrow>
    pages_taken pBuffer rs (us @ us') tm tm''"
  by (auto simp: pages_taken_def intro: same_structs_trans)

definition tree_ready :: "u64 \<Rightarrow> phys_range list \<Rightarrow> tree_mem \<Rightarrow> bool" where
  "tree_ready pBuffer rs tm \<longleftrightarrow> tree_at pBuffer rs tm \<and> rs \<noteq> [] \<and> list_all page_range rs"

lemma tree_ready_taken:
  "tree_ready pBuffer rs tm \<Longrightarrow> pages_taken pBuffer rs us tm tm' \<Longrightarrow> tree_ready pBuffer rs tm'"
  by (auto simp: tree_ready_def pages_taken_def intro: tree_at_same)

lemma MarkUsedTreePages_taken:
  assumes tree: "tree_ready pBuffer rs tm" and region: "sound_region (start, n)"
  shows "\<exists>tm'. MarkUsedTreePages pBuffer start n tm = Some tm'
    \<and> pages_taken pBuffer rs [nat_region (start, n)] tm tm'"
proof -
  let ?s = "(start div PAGE_SIZE) * PAGE_SIZE" and ?f = "ALIGN (start + n) PAGE_SIZE"
  have at: "tree_at pBuffer rs tm" "rs \<noteq> []" using tree by (simp_all add: tree_ready_def)
  have sum: "unat (start + n) = unat start + unat n"
    using region by (intro unat_u64_plus) (simp add: sound_region_def)
  have s: "unat ?s = unat start div 4096 * 4096"
    using unat_u64_less [of start] by (subst unat_u64_mult) (auto simp: unat_u64_div
        intro: le_less_trans [OF div_times_less_eq_dividend])
  have f: "unat ?f = (unat start + unat n + 4095) div 4096 * 4096"
    using region by (subst unat_ALIGN_page) (simp_all add: sound_region_def sum)
  have le: "unat ?s \<le> unat ?f" unfolding s f by (intro mult_le_mono1 div_le_mono) simp
  let ?t = "\<lambda>i x. touches (unat start, unat n) (page_addr (rs ! i) x)"
  have touch: "unat ?s \<le> page_addr (rs ! i) x \<and> page_addr (rs ! i) x < unat ?f \<longleftrightarrow> ?t i x"
    if "i < length rs" for i x
  proof -
    have "page_range (rs ! i)" using tree that by (simp add: tree_ready_def list_all_length)
    then have "4096 dvd page_addr (rs ! i) x" by (simp add: page_range_def page_addr_def)
    then show ?thesis unfolding s f by (simp add: touches_page)
  qed
  let ?P = "\<lambda>m tm'. \<forall>i k x. is_block rs i k x \<longrightarrow> blk pBuffer rs tm' i k x =
    (if k = 0 \<and> i < m \<and> ?t i x then 0 else blk pBuffer rs tm i k x)"
  have step: "\<exists>tm''. mark_entry ?s ?f (entry_addr pBuffer i) tm' = Some tm'' \<and> same_structs tm' tm''
      \<and> ?P (Suc i) tm''" if i: "i < length rs" "same_structs tm tm'" and P: "?P i tm'" for i tm'
  proof -
    have "page_range (rs ! i)" using tree i by (simp add: tree_ready_def list_all_length)
    from mark_entry_blocks [OF tree_at_same [OF at(1) i(2)] i(1) this _ _ le] obtain tm'' where
      tm'': "mark_entry ?s ?f (entry_addr pBuffer i) tm' = Some tm''" "same_structs tm' tm''"
      "\<forall>i' k x. is_block rs i' k x \<longrightarrow> blk pBuffer rs tm'' i' k x =
        (if i' = i \<and> k = 0 \<and> unat ?s \<le> page_addr (rs ! i) x \<and> page_addr (rs ! i) x < unat ?f
         then 0 else blk pBuffer rs tm' i' k x)"
      by (auto simp: s f)
    have "?P (Suc i) tm''"
      using tm''(3) P unfolding touch [OF i(1)] by (auto simp: less_Suc_eq)
    with tm''(1,2) show ?thesis by blast
  qed
  have "\<exists>tm'. for_entries (mark_entry ?s ?f) pBuffer tm = Some tm' \<and> same_structs tm tm'
      \<and> ?P (length rs) tm'"
    by (rule for_entries_walk [where P = ?P, OF at(1) _ at(2)], simp, rule step)
  then obtain tm' where
    "for_entries (mark_entry ?s ?f) pBuffer tm = Some tm'" "same_structs tm tm'" "?P (length rs) tm'"
    by blast
  then show ?thesis
    by (intro exI [of _ tm'])
      (simp add: MarkUsedTreePages_def pages_taken_def nat_region_def is_block_def is_level_def)
qed

text \<open>The regions in use, as the initial map and the caller give them.\<close>

definition entry_regions :: "init_entry list \<Rightarrow> (u64 \<times> u64) list" where
  "entry_regions es = map (\<lambda>e. (physicalAddress e, numPhysicalPages e * PAGE_SIZE))
     (filter (\<lambda>e. ShouldCreateTreeForType (memoryType e) \<and> in_use (usage e)) es)"

lemma mark_regions_taken:
  assumes "tree_ready pBuffer rs tm" "list_all sound_region us"
  shows "\<exists>tm'. mark_regions pBuffer us tm = Some tm' \<and> pages_taken pBuffer rs (map nat_region us) tm tm'"
  using assms
proof (induction us arbitrary: tm)
  case (Cons u us)
  obtain tm' where tm': "MarkUsedTreePages pBuffer (fst u) (snd u) tm = Some tm'"
      "pages_taken pBuffer rs [nat_region u] tm tm'"
    using MarkUsedTreePages_taken [OF Cons.prems(1), of "fst u" "snd u"] Cons.prems(2) by auto
  obtain tm'' where tm'': "mark_regions pBuffer us tm' = Some tm''"
      "pages_taken pBuffer rs (map nat_region us) tm' tm''"
    using Cons.IH [OF tree_ready_taken [OF Cons.prems(1) tm'(2)]] Cons.prems(2) by auto
  have "mark_regions pBuffer (u # us) tm = Some tm''"
    using tm'(1) tm''(1) by (cases u) simp
  with pages_taken_append [OF tm'(2) tm''(2)] show ?case by auto
qed (auto intro: pages_taken_Nil)

lemma mark_initial_regions: "mark_initial_entries pBuffer es = mark_regions pBuffer (entry_regions es)"
proof (induction es)
  case (Cons e es)
  show ?case by (rule ext) (simp add: Cons.IH, simp add: entry_regions_def)
qed (simp add: entry_regions_def fun_eq_iff)

end
