(* ===== verification/PhysMemTreeAccel.thy ===== *)
theory PhysMemTreeAccel
  imports PhysMemTreeBlocks
begin

text \<open>
  The acceleration levels of the physical memory tree: each block above the pages is
  computed from its two halves, so that it tells how much below it is available. With the
  pages of PhysMemTreeBlocks this gives the properties of the tree.
\<close>

unbundle bit_operations_syntax

subsection \<open>Absolute block numbers\<close>

text \<open>Blocks of level \<open>k\<close> counted from address 0: the first one of a range is \<open>first_block\<close>.\<close>

definition first_block :: "phys_range \<Rightarrow> nat \<Rightarrow> nat" where
  "first_block r k = range_start r div bsz k"

definition ablk :: "u64 \<Rightarrow> phys_range list \<Rightarrow> tree_mem \<Rightarrow> nat \<Rightarrow> nat \<Rightarrow> nat \<Rightarrow> u8" where
  "ablk pBuffer rs tm i k X =
     (let lo = first_block (rs ! i) k
      in if lo \<le> X \<and> X < lo + rnum (rs ! i) k then blk pBuffer rs tm i k (X - lo) else 0)"

lemma lmin_first_block: "lmin k (range_start r) = first_block r k * bsz k"
  by (simp add: lmin_def first_block_def)

lemma first_block_Suc: "2 * first_block r (Suc k) \<le> first_block r k"
  unfolding first_block_def bsz_Suc div_mult2_eq [of _ "bsz k" 2, unfolded mult.commute [of _ 2]]
  by simp

lemma end_block:
  "(first_block r k + rnum r k) * bsz k = lmax k (range_end r)"
  using lmax_eq [OF range_start_le_end, of k r]
  by (simp add: lmin_first_block rnum_def add_mult_distrib)

lemma end_block_Suc:
  "first_block r k + rnum r k \<le> 2 * (first_block r (Suc k) + rnum r (Suc k))"
proof -
  have "lmax k (range_end r) \<le> lmax (Suc k) (range_end r)"
    using lmax_least [of k "lmax (Suc k) (range_end r)" "range_end r"] bsz_dvd [of k "Suc k"]
    by (meson dvd_trans le_SucI lmax_dvd lmax_ge order_refl)
  then have "(first_block r k + rnum r k) * bsz k \<le> (2 * (first_block r (Suc k) + rnum r (Suc k))) * bsz k"
    unfolding end_block [symmetric] bsz_Suc by (simp add: mult.assoc mult.left_commute)
  then show ?thesis by (simp only: mult_le_cancel2 bsz_pos simp_thms)
qed

lemma ablk_outside:
  assumes "\<not> (first_block (rs ! i) (Suc k) \<le> X \<and> X < first_block (rs ! i) (Suc k) + rnum (rs ! i) (Suc k))"
  shows "ablk pBuffer rs tm i k (2 * X) = 0" "ablk pBuffer rs tm i k (2 * X + 1) = 0"
  using assms first_block_Suc [of "rs ! i" k] end_block_Suc [of "rs ! i" k]
  by (auto simp: ablk_def Let_def)

subsection \<open>One level\<close>

lemma accel_block_step:
  assumes tree: "tree_at pBuffer rs tm" and l: "is_level rs i (Suc k)"
    and x: "x < rnum (rs ! i) (Suc k)"
  defines "mo \<equiv> first_block (rs ! i) k - 2 * first_block (rs ! i) (Suc k)"
    and "X \<equiv> first_block (rs ! i) (Suc k) + x"
  shows "accel_block (of_nat (block_addr (unat pBuffer) rs i (Suc k) 0))
      (of_nat (block_addr (unat pBuffer) rs i k 0)) (of_nat mo) (of_nat mo + of_nat (rnum (rs ! i) k))
      (of_nat x) tm
    = tm\<lparr>byte_at := (byte_at tm)(of_nat (block_addr (unat pBuffer) rs i (Suc k) x) :=
        block_summary (ablk pBuffer rs tm i k (2 * X)) (ablk pBuffer rs tm i k (2 * X + 1)))\<rparr>"
proof -
  let ?r = "rs ! i"
  have low: "low_range ?r" and k: "Suc k < rdepth ?r" "i < length rs"
    using tree_low [OF tree] l by (simp_all add: is_level_def)
  have n: "rnum ?r (Suc k) \<le> 2 ^ 51" "rnum ?r k \<le> 2 ^ 51"
    using rnum_bound [OF low] k by simp_all
  have mo: "mo \<le> 1"
  proof -
    have "first_block ?r k div 2 = first_block ?r (Suc k)"
      by (simp add: first_block_def bsz_Suc div_mult2_eq mult.commute [of 2] flip: div_mult2_eq)
    then show ?thesis unfolding mo_def by linarith
  qed
  have state: "(if (of_nat y :: u64) \<ge> of_nat mo \<and> (of_nat y :: u64) < of_nat mo + of_nat (rnum ?r k)
      then byte_at tm (of_nat (block_addr (unat pBuffer) rs i k 0) + (of_nat y - of_nat mo)) else 0)
      = ablk pBuffer rs tm i k (2 * first_block ?r (Suc k) + y)" if y: "y < 2 ^ 53" for y
  proof -
    have u: "unat (of_nat y :: u64) = y" "unat (of_nat mo :: u64) = mo"
        "unat (of_nat mo + of_nat (rnum ?r k) :: u64) = mo + rnum ?r k"
      using y mo n unat_u64_of_nat [of "mo + rnum ?r k"] by (simp_all add: unat_u64_of_nat)
    have "mo + 2 * first_block ?r (Suc k) = first_block ?r k"
      using first_block_Suc [of ?r k] by (simp add: mo_def)
    then have idx: "2 * first_block ?r (Suc k) + y - first_block ?r k = y - mo"
      "first_block ?r k \<le> 2 * first_block ?r (Suc k) + y \<longleftrightarrow> mo \<le> y"
      "2 * first_block ?r (Suc k) + y < first_block ?r k + rnum ?r k \<longleftrightarrow> y < mo + rnum ?r k"
      by linarith+
    show ?thesis
      unfolding word_le_nat_alt word_less_nat_alt u ablk_def Let_def blk_def block_addr_def idx
      by (simp add: add_diff_eq)
  qed
  have w: "of_nat x * 2 = (of_nat (2 * x) :: u64)" "of_nat (2 * x) + 1 = (of_nat (2 * x + 1) :: u64)"
    by (simp_all add: mult.commute)
  have y: "2 * x < 2 ^ 53" "2 * x + 1 < 2 ^ 53" using x n(1) by simp_all
  have addr: "of_nat (block_addr (unat pBuffer) rs i (Suc k) 0) + of_nat x
      = (of_nat (block_addr (unat pBuffer) rs i (Suc k) x) :: u64)"
    by (simp add: block_addr_def)
  have X: "2 * first_block ?r (Suc k) + 2 * x = 2 * X"
      "2 * first_block ?r (Suc k) + (2 * x + 1) = 2 * X + 1"
    by (simp_all add: X_def)
  show ?thesis
    unfolding accel_block_def Let_def w addr state [OF y(1)] state [OF y(2)] X ..
qed

lemma FillTreeLevelAccelBlocks_blocks:
  assumes tree: "tree_at pBuffer rs tm" and l: "is_level rs i (Suc k)"
  shows "\<exists>tm'. FillTreeLevelAccelBlocks (entry_addr pBuffer i) (of_nat (rdepth (rs ! i) - 1 - Suc k)) tm
      = Some tm' \<and> same_structs tm tm'
    \<and> (\<forall>i' k' x. is_block rs i' k' x \<longrightarrow> blk pBuffer rs tm' i' k' x =
        (if i' = i \<and> k' = Suc k
         then let X = first_block (rs ! i) (Suc k) + x
              in block_summary (ablk pBuffer rs tm i k (2 * X)) (ablk pBuffer rs tm i k (2 * X + 1))
         else blk pBuffer rs tm i' k' x))"
proof -
  let ?r = "rs ! i"
  let ?mo = "first_block ?r k - 2 * first_block ?r (Suc k)" and ?n = "rnum ?r (Suc k)"
  have l': "is_level rs i k" using l by (simp add: is_level_def)
  let ?next = "level_at tm (level_ptr pBuffer rs i k)" and ?lv = "level_at tm (level_ptr pBuffer rs i (Suc k))"
  have low: "low_range ?r" and k: "Suc k < rdepth ?r" "Suc k \<le> 51"
    using tree_low [OF tree] l rdepth_le [of ?r] by (auto simp: is_level_def)
  have lv: "startMappedAddress ?next = of_nat (lmin k (range_start ?r))" "blockSize ?next = bszw k"
      "numBlocks ?next = of_nat (rnum ?r k)" "startMappedAddress ?lv = of_nat (lmin (Suc k) (range_start ?r))"
      "unat (numBlocks ?lv) = ?n"
    using tree_level [OF tree l] tree_level [OF tree l'] tree_num [OF tree l] by (simp_all add: level_ok_def)
  have ptr: "level_of (entry_at tm (entry_addr pBuffer i)) (of_nat (rdepth ?r - 1 - Suc k))
        = level_ptr pBuffer rs i (Suc k)"
    "level_of (entry_at tm (entry_addr pBuffer i)) (of_nat (rdepth ?r - 1 - Suc k) + 1)
        = level_ptr pBuffer rs i k"
  proof -
    show "level_of (entry_at tm (entry_addr pBuffer i)) (of_nat (rdepth ?r - 1 - Suc k))
        = level_ptr pBuffer rs i (Suc k)"
      by (rule level_of_ptr [OF tree l])
    have "rdepth ?r - 1 - k = Suc (rdepth ?r - 1 - Suc k)" using k by simp
    then have "of_nat (rdepth ?r - 1 - Suc k) + 1 = (of_nat (rdepth ?r - 1 - k) :: u64)" by simp
    with level_of_ptr [OF tree l'] show "level_of (entry_at tm (entry_addr pBuffer i))
        (of_nat (rdepth ?r - 1 - Suc k) + 1) = level_ptr pBuffer rs i k"
      by simp
  qed
  have mo: "(of_nat (lmin k (range_start ?r)) - of_nat (lmin (Suc k) (range_start ?r))) div bszw k
      = (of_nat ?mo :: u64)"
  proof -
    have le: "lmin (Suc k) (range_start ?r) \<le> lmin k (range_start ?r)"
      unfolding lmin_first_block bsz_Suc using mult_le_mono1 [OF first_block_Suc, of ?r k "bsz k"]
      by (simp add: mult.assoc mult.left_commute mult.commute)
    have "lmin k (range_start ?r) < 18446744073709551616"
      using lmin_le [of k "range_start ?r"] range_start_le_end [of ?r] low by (simp add: low_range_def)
    then have u: "unat (of_nat (lmin k (range_start ?r)) - of_nat (lmin (Suc k) (range_start ?r)) :: u64)
        = lmin k (range_start ?r) - lmin (Suc k) (range_start ?r)"
      using le unat_u64_of_nat [of "lmin k (range_start ?r) - lmin (Suc k) (range_start ?r)"]
      by simp
    have "lmin k (range_start ?r) - lmin (Suc k) (range_start ?r) = ?mo * bsz k"
      unfolding lmin_first_block bsz_Suc by (simp add: diff_mult_distrib)
    then have "unat ((of_nat (lmin k (range_start ?r)) - of_nat (lmin (Suc k) (range_start ?r))) div bszw k :: u64) = ?mo"
      using k(2) by (simp add: unat_u64_div u)
    then show ?thesis by (metis of_nat_unat_u64)
  qed
  let ?step = "\<lambda>x. accel_block (of_nat (block_addr (unat pBuffer) rs i (Suc k) 0))
      (of_nat (block_addr (unat pBuffer) rs i k 0)) (of_nat ?mo) (of_nat ?mo + of_nat (rnum ?r k)) (of_nat x)"
  have call: "FillTreeLevelAccelBlocks (entry_addr pBuffer i) (of_nat (rdepth ?r - 1 - Suc k)) tm
      = Some (fold ?step [0..<?n] tm)"
    using k unfolding FillTreeLevelAccelBlocks_def Let_def ptr lv mo tree_blocks_of [OF tree l]
      tree_blocks_of [OF tree l'] by simp
  define new where "new x = (let X = first_block ?r (Suc k) + x
    in block_summary (ablk pBuffer rs tm i k (2 * X)) (ablk pBuffer rs tm i k (2 * X + 1)))" for x
  let ?P = "\<lambda>m tm'. same_structs tm tm' \<and> (\<forall>i' k' x. is_block rs i' k' x \<longrightarrow>
    blk pBuffer rs tm' i' k' x = (if i' = i \<and> k' = Suc k \<and> x < m then new x else blk pBuffer rs tm i' k' x))"
  have "m \<le> ?n \<Longrightarrow> ?P m (fold ?step [0..<m] tm)" for m
  proof (induction m)
    case (Suc m)
    let ?tm = "fold ?step [0..<m] tm"
    have P: "?P m ?tm" using Suc by simp
    have tree': "tree_at pBuffer rs ?tm" using tree_at_same [OF tree] P by blast
    have same: "ablk pBuffer rs ?tm i k X = ablk pBuffer rs tm i k X" for X
      using P l' by (auto simp: ablk_def Let_def is_block_def)
    have b: "is_block rs i (Suc k) m" using Suc.prems l by (simp add: is_block_def)
    define tm2 where "tm2 = fold ?step [0..<Suc m] tm"
    have "tm2 = ?tm\<lparr>byte_at :=
        (byte_at ?tm)(of_nat (block_addr (unat pBuffer) rs i (Suc k) m) := new m)\<rparr>"
      using accel_block_step [OF tree' l, of m] Suc.prems by (simp add: tm2_def same new_def Let_def)
    note wr = write_level [OF tree' b, where v = "new m", folded this]
    have "blk pBuffer rs tm2 i' k' x
        = (if i' = i \<and> k' = Suc k \<and> x < Suc m then new x else blk pBuffer rs tm i' k' x)"
      if "is_block rs i' k' x" for i' k' x
      using wr(2) [OF that] P that by (cases "x = m") (simp_all add: less_Suc_eq)
    moreover have "same_structs tm tm2" using P wr(1) same_structs_trans by blast
    ultimately show ?case unfolding tm2_def by blast
  qed simp
  then have P: "?P ?n (fold ?step [0..<?n] tm)" by simp
  have "blk pBuffer rs (fold ?step [0..<?n] tm) i' k' x
      = (if i' = i \<and> k' = Suc k then new x else blk pBuffer rs tm i' k' x)"
    if b: "is_block rs i' k' x" for i' k' x
  proof (cases "i' = i \<and> k' = Suc k")
    case True
    with b have "x < ?n" by (simp add: is_block_def)
    with True P b show ?thesis by simp
  next
    case False
    with P b show ?thesis by auto
  qed
  with P show ?thesis unfolding call new_def [symmetric] by blast
qed

subsection \<open>All levels of all entries\<close>

lemma ablk_cong:
  assumes "\<And>x. is_block rs i k x \<Longrightarrow> blk pBuffer rs tm' i k x = blk pBuffer rs tm i k x" "is_level rs i k"
  shows "ablk pBuffer rs tm' i k = ablk pBuffer rs tm i k"
  using assms by (auto simp: ablk_def Let_def is_block_def fun_eq_iff)

lemma block_summary_0 [simp]: "block_summary 0 0 = 0"
  by (simp add: block_summary_def)

text \<open>What one call establishes for its level.\<close>

lemma accel_level_summary:
  assumes tree: "tree_at pBuffer rs tm" and l: "is_level rs i (Suc k)"
  shows "\<exists>tm'. FillTreeLevelAccelBlocks (entry_addr pBuffer i) (of_nat (rdepth (rs ! i) - 1 - Suc k)) tm
      = Some tm' \<and> same_structs tm tm'
    \<and> (\<forall>i' k' x. is_block rs i' k' x \<and> \<not> (i' = i \<and> k' = Suc k) \<longrightarrow>
        blk pBuffer rs tm' i' k' x = blk pBuffer rs tm i' k' x)
    \<and> (\<forall>X. ablk pBuffer rs tm' i (Suc k) X =
        block_summary (ablk pBuffer rs tm' i k (2 * X)) (ablk pBuffer rs tm' i k (2 * X + 1)))"
proof -
  let ?lo = "first_block (rs ! i) (Suc k)"
  obtain tm' where
    call: "FillTreeLevelAccelBlocks (entry_addr pBuffer i) (of_nat (rdepth (rs ! i) - 1 - Suc k)) tm = Some tm'"
      "same_structs tm tm'" and
    blks: "\<And>i' k' x. is_block rs i' k' x \<Longrightarrow> blk pBuffer rs tm' i' k' x =
      (if i' = i \<and> k' = Suc k
       then let X = ?lo + x
            in block_summary (ablk pBuffer rs tm i k (2 * X)) (ablk pBuffer rs tm i k (2 * X + 1))
       else blk pBuffer rs tm i' k' x)"
    using FillTreeLevelAccelBlocks_blocks [OF tree l] by blast
  have l': "is_level rs i k" using l by (simp add: is_level_def)
  have below: "ablk pBuffer rs tm' i k = ablk pBuffer rs tm i k"
    using blks l' by (intro ablk_cong) simp_all
  have "ablk pBuffer rs tm' i (Suc k) X =
      block_summary (ablk pBuffer rs tm i k (2 * X)) (ablk pBuffer rs tm i k (2 * X + 1))" for X
  proof (cases "?lo \<le> X \<and> X < ?lo + rnum (rs ! i) (Suc k)")
    case True
    then have "is_block rs i (Suc k) (X - ?lo)" using l by (auto simp: is_block_def)
    from blks [OF this] True show ?thesis by (simp add: ablk_def [of _ _ _ _ "Suc k"] Let_def)
  next
    case False
    then have "ablk pBuffer rs tm' i (Suc k) X = 0" by (auto simp: ablk_def Let_def)
    with ablk_outside [OF False] show ?thesis by simp
  qed
  then show ?thesis using call blks below by (intro exI [of _ tm']) simp
qed

lemma accel_levels_summary:
  assumes "tree_at pBuffer rs tm" "i < length rs" "1 \<le> m" "m \<le> rdepth (rs ! i)"
    "summarises m (ablk pBuffer rs tm i)"
  shows "\<exists>tm'. accel_levels (entry_addr pBuffer i) (of_nat (rdepth (rs ! i))) [m..<rdepth (rs ! i)] tm
      = Some tm' \<and> same_structs tm tm'
    \<and> (\<forall>i' k x. is_block rs i' k x \<and> \<not> (i' = i \<and> m \<le> k) \<longrightarrow>
        blk pBuffer rs tm' i' k x = blk pBuffer rs tm i' k x)
    \<and> summarises (rdepth (rs ! i)) (ablk pBuffer rs tm' i)"
  using assms
proof (induction "rdepth (rs ! i) - m" arbitrary: m tm)
  case 0
  then have "m = rdepth (rs ! i)" by simp
  with 0 show ?case by simp
next
  case (Suc d)
  let ?D = "rdepth (rs ! i)"
  obtain k where m: "m = Suc k" using Suc.prems(3) by (cases m) auto
  have lt: "m < ?D" using Suc.hyps(2) by simp
  then have l: "is_level rs i (Suc k)" using Suc.prems(2) m by (simp add: is_level_def)
  have idx: "of_nat ?D - of_nat m - 1 = (of_nat (?D - 1 - Suc k) :: u64)"
    using lt m by simp
  obtain tm' where tm': "FillTreeLevelAccelBlocks (entry_addr pBuffer i) (of_nat (?D - 1 - Suc k)) tm = Some tm'"
      "same_structs tm tm'" "\<And>i' k' x. is_block rs i' k' x \<Longrightarrow> \<not> (i' = i \<and> k' = Suc k) \<Longrightarrow>
        blk pBuffer rs tm' i' k' x = blk pBuffer rs tm i' k' x"
      "\<And>X. ablk pBuffer rs tm' i (Suc k) X =
        block_summary (ablk pBuffer rs tm' i k (2 * X)) (ablk pBuffer rs tm' i k (2 * X + 1))"
    using accel_level_summary [OF Suc.prems(1) l] by blast
  have "ablk pBuffer rs tm' i k' = ablk pBuffer rs tm i k'" if "k' < m" for k'
    using tm'(3) that m lt Suc.prems(2) by (intro ablk_cong) (simp_all add: is_level_def)
  then have sum: "summarises (Suc m) (ablk pBuffer rs tm' i)"
    using Suc.prems(5) tm'(4) by (auto simp: summarises_def m less_Suc_eq)
  have d: "d = ?D - Suc m" and le: "1 \<le> Suc m" "Suc m \<le> ?D" using Suc.hyps(2) lt by simp_all
  obtain tm'' where tm'': "accel_levels (entry_addr pBuffer i) (of_nat ?D) [Suc m..<?D] tm' = Some tm''"
      "same_structs tm' tm''" "\<And>i' k x. is_block rs i' k x \<Longrightarrow> \<not> (i' = i \<and> Suc m \<le> k) \<Longrightarrow>
        blk pBuffer rs tm'' i' k x = blk pBuffer rs tm' i' k x"
      "summarises ?D (ablk pBuffer rs tm'' i)"
    using Suc.hyps(1) [OF d tree_at_same [OF Suc.prems(1) tm'(2)] Suc.prems(2) le sum] by blast
  have "accel_levels (entry_addr pBuffer i) (of_nat ?D) [m..<?D] tm = Some tm''"
    using lt tm'(1) tm''(1) by (simp add: upt_rec [of m] idx)
  moreover have "blk pBuffer rs tm'' i' k' x = blk pBuffer rs tm i' k' x"
    if "is_block rs i' k' x" "\<not> (i' = i \<and> m \<le> k')" for i' k' x
    using tm'(3) [OF that(1)] tm''(3) [OF that(1)] that(2) m by auto
  ultimately show ?case
    using same_structs_trans [OF tm'(2) tm''(2)] tm''(4) by blast
qed

lemma accel_entry_summary:
  assumes "tree_at pBuffer rs tm" "i < length rs"
  shows "\<exists>tm'. accel_entry (entry_addr pBuffer i) tm = Some tm' \<and> same_structs tm tm'
    \<and> (\<forall>i' k x. is_block rs i' k x \<and> \<not> (i' = i \<and> 1 \<le> k) \<longrightarrow>
        blk pBuffer rs tm' i' k x = blk pBuffer rs tm i' k x)
    \<and> summarises (rdepth (rs ! i)) (ablk pBuffer rs tm' i)"
proof -
  have n: "numTreeLevels (entry_at tm (entry_addr pBuffer i)) = of_nat (rdepth (rs ! i))"
    by (simp add: tree_entry [OF assms] entry_for_def Let_def)
  have un: "unat (of_nat (rdepth (rs ! i)) :: u64) = rdepth (rs ! i)"
    using rdepth_le [of "rs ! i"] by (intro unat_u64_of_nat) simp
  have D: "1 \<le> rdepth (rs ! i)" using rdepth_pos [of "rs ! i"] by linarith
  show ?thesis
    unfolding accel_entry_def Let_def n un
    by (rule accel_levels_summary [OF assms order_refl D]) (simp add: summarises_def)
qed

lemma FillTreeAccelBlocks_summary:
  assumes tree: "tree_at pBuffer rs tm" "rs \<noteq> []"
  shows "\<exists>tm'. FillTreeAccelBlocks pBuffer tm = Some tm' \<and> same_structs tm tm'
    \<and> (\<forall>i x. is_block rs i 0 x \<longrightarrow> blk pBuffer rs tm' i 0 x = blk pBuffer rs tm i 0 x)
    \<and> (\<forall>i < length rs. summarises (rdepth (rs ! i)) (ablk pBuffer rs tm' i))"
proof -
  let ?P = "\<lambda>m tm'. (\<forall>i x. is_block rs i 0 x \<longrightarrow> blk pBuffer rs tm' i 0 x = blk pBuffer rs tm i 0 x)
    \<and> (\<forall>i < m. i < length rs \<longrightarrow> summarises (rdepth (rs ! i)) (ablk pBuffer rs tm' i))"
  have step: "\<exists>tm''. accel_entry (entry_addr pBuffer i) tm' = Some tm'' \<and> same_structs tm' tm''
      \<and> ?P (Suc i) tm''" if i: "i < length rs" "same_structs tm tm'" and P: "?P i tm'" for i tm'
  proof -
    obtain tm'' where tm'': "accel_entry (entry_addr pBuffer i) tm' = Some tm''" "same_structs tm' tm''"
        "\<And>i' k x. is_block rs i' k x \<Longrightarrow> \<not> (i' = i \<and> 1 \<le> k) \<Longrightarrow>
          blk pBuffer rs tm'' i' k x = blk pBuffer rs tm' i' k x"
        "summarises (rdepth (rs ! i)) (ablk pBuffer rs tm'' i)"
      using accel_entry_summary [OF tree_at_same [OF tree(1) i(2)] i(1)] by blast
    have "summarises (rdepth (rs ! j)) (ablk pBuffer rs tm'' j)" if j: "j < i" "j < length rs" for j
    proof -
      have "ablk pBuffer rs tm'' j k = ablk pBuffer rs tm' j k" if "k < rdepth (rs ! j)" for k
        using tm''(3) j that by (intro ablk_cong) (auto simp: is_level_def)
      then show ?thesis using P j by (simp add: summarises_def)
    qed
    then have "?P (Suc i) tm''" using tm''(3,4) P by (auto simp: less_Suc_eq)
    with tm''(1,2) show ?thesis by blast
  qed
  have "\<exists>tm'. for_entries accel_entry pBuffer tm = Some tm' \<and> same_structs tm tm' \<and> ?P (length rs) tm'"
    by (rule for_entries_walk [where P = ?P, OF tree(1) _ tree(2)], simp, rule step)
  then show ?thesis unfolding FillTreeAccelBlocks_def by blast
qed

subsection \<open>The whole marking\<close>

definition used_regions :: "init_entry list \<Rightarrow> (u64 \<times> u64) list \<Rightarrow> (nat \<times> nat) list" where
  "used_regions es others = map nat_region (entry_regions es @ others)"

definition free_page :: "(nat \<times> nat) list \<Rightarrow> phys_range \<Rightarrow> nat \<Rightarrow> bool" where
  "free_page used r P \<longleftrightarrow>
     range_start r \<le> 4096 * P \<and> 4096 * P < range_end r \<and> \<not> (\<exists>u \<in> set used. touches u (4096 * P))"

text \<open>The free pages below block \<open>x\<close> of level \<open>k\<close>, which covers \<open>2 ^ k\<close> page numbers.\<close>

definition free_below :: "(nat \<times> nat) list \<Rightarrow> phys_range \<Rightarrow> nat \<Rightarrow> nat \<Rightarrow> nat" where
  "free_below used r k x = (let X = first_block r k + x in
     card {P. X * 2 ^ k \<le> P \<and> P < (X + 1) * 2 ^ k \<and> free_page used r P})"

lemma MarkPhysicalMemTreeRegions_taken:
  assumes tree: "tree_ready pBuffer rs tm" and sound: "list_all sound_region (entry_regions es @ others)"
  shows "\<exists>tm'. MarkPhysicalMemTreeRegions pBuffer es others tm = Some tm' \<and> same_structs tm tm'
    \<and> (\<forall>i x. is_block rs i 0 x \<longrightarrow> blk pBuffer rs tm' i 0 x =
        (if \<exists>u \<in> set (used_regions es others). touches u (page_addr (rs ! i) x) then 0 else 0x80))
    \<and> (\<forall>i < length rs. summarises (rdepth (rs ! i)) (ablk pBuffer rs tm' i))"
proof -
  have at: "tree_at pBuffer rs tm" "rs \<noteq> []" "list_all page_range rs"
    using tree by (simp_all add: tree_ready_def)
  obtain tm1 where tm1: "SetAllTreePagesAvailable pBuffer tm = Some tm1" "same_structs tm tm1"
      "\<And>i k x. is_block rs i k x \<Longrightarrow> blk pBuffer rs tm1 i k x =
        (if k = 0 then 0x80 else blk pBuffer rs tm i k x)"
    using SetAllTreePagesAvailable_blocks [OF at(1,2)] by blast
  have ready1: "tree_ready pBuffer rs tm1"
    using tree_at_same [OF at(1) tm1(2)] at(2,3) by (simp add: tree_ready_def)
  obtain tm2 where tm2: "mark_initial_entries pBuffer es tm1 = Some tm2"
      "pages_taken pBuffer rs (map nat_region (entry_regions es)) tm1 tm2"
    using mark_regions_taken [OF ready1, of "entry_regions es"] sound
    by (auto simp: mark_initial_regions)
  obtain tm3 where tm3: "mark_regions pBuffer others tm2 = Some tm3"
      "pages_taken pBuffer rs (map nat_region others) tm2 tm3"
    using mark_regions_taken [OF tree_ready_taken [OF ready1 tm2(2)], of others] sound by auto
  have taken: "pages_taken pBuffer rs (used_regions es others) tm1 tm3"
    using pages_taken_append [OF tm2(2) tm3(2)] by (simp add: used_regions_def)
  have at3: "tree_at pBuffer rs tm3"
    using tree_ready_taken [OF ready1 taken] by (simp add: tree_ready_def)
  obtain tm' where tm': "FillTreeAccelBlocks pBuffer tm3 = Some tm'" "same_structs tm3 tm'"
      "\<And>i x. is_block rs i 0 x \<Longrightarrow> blk pBuffer rs tm' i 0 x = blk pBuffer rs tm3 i 0 x"
      "\<forall>i < length rs. summarises (rdepth (rs ! i)) (ablk pBuffer rs tm' i)"
    using FillTreeAccelBlocks_summary [OF at3 at(2)] by blast
  have "MarkPhysicalMemTreeRegions pBuffer es others tm = Some tm'"
    using tm1(1) tm2(1) tm3(1) tm'(1) by (simp add: MarkPhysicalMemTreeRegions_def)
  moreover have "same_structs tm tm'"
    using tm1(2) taken tm'(2) unfolding pages_taken_def by (meson same_structs_trans)
  moreover have "blk pBuffer rs tm' i 0 x =
      (if \<exists>u \<in> set (used_regions es others). touches u (page_addr (rs ! i) x) then 0 else 0x80)"
    if "is_block rs i 0 x" for i x
    using tm'(3) [OF that] tm1(3) [OF that] taken that by (simp add: pages_taken_def)
  ultimately show ?thesis using tm'(4) by blast
qed

lemma page_of_range:
  assumes "page_range r"
  shows "range_start r \<le> 4096 * P \<and> 4096 * P < range_end r \<longleftrightarrow>
      first_block r 0 \<le> P \<and> P < first_block r 0 + rnum r 0"
    "first_block r 0 \<le> P \<Longrightarrow> page_addr r (P - first_block r 0) = 4096 * P"
proof -
  have "4096 dvd range_start r" using assms by (simp add: page_range_def)
  then have s: "range_start r = 4096 * first_block r 0" by (simp add: first_block_def bsz_def)
  show "range_start r \<le> 4096 * P \<and> 4096 * P < range_end r \<longleftrightarrow>
      first_block r 0 \<le> P \<and> P < first_block r 0 + rnum r 0"
    using page_level(3) [OF assms, symmetric] by (auto simp: s)
  show "first_block r 0 \<le> P \<Longrightarrow> page_addr r (P - first_block r 0) = 4096 * P"
    by (simp add: page_addr_def s diff_mult_distrib2)
qed

text \<open>The block values tell the free pages, once the pages are right and all levels summarise.\<close>

lemma blocks_tell:
  assumes page: "page_range (rs ! i)" and l: "is_level rs i k" and x: "x < rnum (rs ! i) k"
    and pages: "\<And>x. is_block rs i 0 x \<Longrightarrow> blk pBuffer rs tm' i 0 x =
      (if \<exists>u \<in> set used. touches u (page_addr (rs ! i) x) then 0 else 0x80)"
    and sum: "summarises (rdepth (rs ! i)) (ablk pBuffer rs tm' i)"
  shows "tells k (unat (blk pBuffer rs tm' i k x)) (free_below used (rs ! i) k x)"
proof -
  let ?S = "ablk pBuffer rs tm' i" and ?r = "rs ! i"
  have l0: "is_level rs i 0" using l by (auto simp: is_level_def)
  have S0: "?S 0 P = (if free_page used ?r P then 0x80 else 0)" for P
  proof (cases "first_block ?r 0 \<le> P \<and> P < first_block ?r 0 + rnum ?r 0")
    case True
    then have b: "is_block rs i 0 (P - first_block ?r 0)" using l0 by (auto simp: is_block_def)
    show ?thesis
      using True page_of_range [OF page, of P] pages [OF b]
      by (simp add: ablk_def Let_def free_page_def)
  next
    case False
    then show ?thesis using page_of_range(1) [OF page, of P] by (auto simp: ablk_def Let_def free_page_def)
  qed
  have "tells k (unat (?S k X)) (available ?S k X)" for X
    using l S0 by (intro summary_tells [OF sum]) (auto simp: is_level_def)
  moreover have "?S 0 P \<noteq> 0 \<longleftrightarrow> free_page used ?r P" for P by (simp add: S0)
  ultimately show ?thesis
    using x spec [of "\<lambda>X. tells k (unat (?S k X)) (available ?S k X)" "first_block ?r k + x"]
    by (simp add: ablk_def [of _ _ _ _ k] Let_def available_def free_below_def cong: conj_cong)
qed

subsection \<open>Properties\<close>

text \<open>
  C16: The size pass and the creation of the physical memory tree agree, and both end: when
  no range ends above \<open>2^63\<close> and the reported size fits at the buffer's address, creation
  with the reported sizes succeeds and lays the tree out as the ranges call for: one entry
  for each usable range, linked in order, with its levels of the right block size, block
  count and start, and the blocks of each level.
\<close>

theorem CreatePhysicalMemTree_correct:
  assumes "list_all low_range (combined_ranges es)" "pBuffer \<noteq> 0"
    and "unat pBuffer + tree_bytes (tree_ranges es) < 2 ^ 64"
  shows "\<exists>sd tm'. GetPhysicalMemTreeSize es = Some sd
    \<and> unat (bufferSize sd) = tree_bytes (tree_ranges es)
    \<and> CreatePhysicalMemTree es pBuffer sd tm = Some (True, pBuffer, tm')
    \<and> tree_at pBuffer (tree_ranges es) tm'"
proof -
  have fits: "tree_fits pBuffer (tree_ranges es)" using assms(3) by (simp add: tree_fits_def)
  have "list_all low_range (tree_ranges es)"
    using assms(1) by (auto simp: tree_ranges_def list_all_iff)
  moreover have "unat (bufferSize (size_of_tree (tree_ranges es))) = tree_bytes (tree_ranges es)"
    unfolding size_of_tree_def using assms(3) by (simp add: unat_u64_of_nat)
  ultimately show ?thesis
    using GetPhysicalMemTreeSize_eq [OF assms(1)] CreatePhysicalMemTree_layout [OF assms(1) fits, of tm]
      assms(2) fits unfolding tree_at_def by blast
qed

text \<open>
  The blocks of the tree are separate bytes of its buffer: no byte belongs to two
  blocks of whatever entries and levels, and each lies in the reported size.
\<close>

theorem tree_blocks_separate:
  assumes "is_block rs i k x"
  shows "u \<le> block_addr u rs i k x \<and> block_addr u rs i k x < u + tree_bytes rs
    \<and> (\<forall>i' k' x'. is_block rs i' k' x' \<longrightarrow> block_addr u rs i' k' x' = block_addr u rs i k x \<longrightarrow>
        i' = i \<and> k' = k \<and> x' = x)"
proof -
  have "is_level rs i k" "x < slot_num rs (lidx rs i k)"
    using assms by (simp_all add: is_block_def slot_num_lidx)
  with slot_bounds [OF lidx_less_length, of rs i k u] block_addr_eq_iff [OF _ assms] show ?thesis
    by (auto simp: block_addr_def)
qed

text \<open>
  C15: Marking ends on every tree that creation left, and keeps its structure; afterwards
  the block of a page is 0 when a region in use (an initial map entry of usable memory that
  holds kernel or boot code or data or the initial map itself, or a region of the caller)
  has an address in the page, and the available bit otherwise.
\<close>

theorem MarkPhysicalMemTreeRegions_pages:
  assumes "tree_at pBuffer rs tm" "rs \<noteq> []" "list_all page_range rs"
    and "list_all sound_region (entry_regions es @ others)"
  shows "\<exists>tm'. MarkPhysicalMemTreeRegions pBuffer es others tm = Some tm' \<and> tree_at pBuffer rs tm'
    \<and> (\<forall>i x. is_block rs i 0 x \<longrightarrow> blk pBuffer rs tm' i 0 x =
        (if \<exists>u \<in> set (used_regions es others). touches u (page_addr (rs ! i) x) then 0 else 0x80))"
  using MarkPhysicalMemTreeRegions_taken [OF _ assms(4), of pBuffer rs tm] assms(1-3)
  by (auto simp: tree_ready_def dest: tree_at_same)

text \<open>
  C5: After marking, every block of every level tells the free pages below it: it is 0
  exactly when there are none and 0x80 exactly when all \<open>2^k\<close> are free, it is the exact
  fraction in 128ths up to level 7, and without its lowest bit it never promises more than
  there is.
\<close>

theorem MarkPhysicalMemTreeRegions_blocks:
  assumes "tree_at pBuffer rs tm" "list_all page_range rs"
    and "list_all sound_region (entry_regions es @ others)" "is_block rs i k x"
  shows "\<exists>tm' v. MarkPhysicalMemTreeRegions pBuffer es others tm = Some tm'
    \<and> v = unat (blk pBuffer rs tm' i k x)
    \<and> (let c = free_below (used_regions es others) (rs ! i) k x
       in v \<le> 128 \<and> (v = 0 \<longleftrightarrow> c = 0) \<and> (v = 128 \<longleftrightarrow> c = 2 ^ k)
          \<and> (k \<le> 7 \<longrightarrow> v * 2 ^ k = 128 * c) \<and> (v - v mod 2) * 2 ^ k \<le> 128 * c)"
proof -
  have i: "i < length rs" "rs \<noteq> []" "is_level rs i k" "x < rnum (rs ! i) k"
    using assms(4) by (auto simp: is_block_def is_level_def)
  then obtain tm' where tm': "MarkPhysicalMemTreeRegions pBuffer es others tm = Some tm'"
    "\<And>i x. is_block rs i 0 x \<Longrightarrow> blk pBuffer rs tm' i 0 x =
        (if \<exists>u \<in> set (used_regions es others). touches u (page_addr (rs ! i) x) then 0 else 0x80)"
    "summarises (rdepth (rs ! i)) (ablk pBuffer rs tm' i)"
    using MarkPhysicalMemTreeRegions_taken [OF _ assms(3), of pBuffer rs tm] assms(1,2)
    by (auto simp: tree_ready_def)
  have "page_range (rs ! i)" using assms(2) i(1) by (simp add: list_all_length)
  from blocks_tell [OF this i(3,4) tm'(2,3)] tm'(1) show ?thesis
    by (auto simp: tells_def Let_def)
qed

subsection \<open>The tree of a small map\<close>

lemma sample_tree_ranges: "tree_ranges sample_entries =
    [\<lparr>range_type = TYPE_USABLE, range_address = 0x1000, range_size = 0x3000, range_flags = 8\<rparr>,
     \<lparr>range_type = TYPE_USABLE, range_address = 0x8000, range_size = 0x4000, range_flags = 8\<rparr>]"
  by (simp add: tree_ranges_def sample_combined)

lemma sample_low: "list_all low_range (combined_ranges sample_entries)"
  by (simp add: sample_combined low_range_def range_end_def)

lemma depth_eqI:
  assumes "\<And>j. j < k \<Longrightarrow> 1 < lnum j a b" "lnum k a b \<le> 1" "k < 51"
  shows "depth a b = Suc k"
proof -
  have "takeWhile (\<lambda>k. lnum k a b > 1) [0..<51] = takeWhile (\<lambda>k. lnum k a b > 1) ([0..<k] @ [k] @ [Suc k..<51])"
    using assms(3) upt_add_eq_append [of 0 k "51 - k"] by (simp add: upt_rec [of k])
  also have "\<dots> = [0..<k]"
    using assms(1,2) by (subst takeWhile_append2) auto
  finally show ?thesis by (simp add: depth_def)
qed

lemma sample_depth: "depth 0x1000 0x4000 = 3" "depth 0x8000 0xC000 = 3"
proof -
  have "depth 0x1000 0x4000 = Suc 2" "depth 0x8000 0xC000 = Suc 2"
    by (rule depth_eqI; (drule less_2_cases)?; auto simp: lnum_def lmax_def lmin_def bsz_def)+
  then show "depth 0x1000 0x4000 = 3" "depth 0x8000 0xC000 = 3" by simp_all
qed

lemma sample_bytes: "tree_bytes (tree_ranges sample_entries) = 320"
  by (simp add: sample_tree_ranges tree_bytes_def range_levels_def rdepth_def range_start_def
      range_end_def sample_depth own_bytes_def rnum_def upt_rec lnum_def lmax_def lmin_def bsz_def)

lemma sample_pages: "list_all page_range (tree_ranges sample_entries)"
  by (simp add: sample_tree_ranges page_range_def range_start_def range_end_def)

text \<open>The kernel page at 0x3000 is in use, and the caller's region of 0x20 bytes at 0x9FF0.\<close>

lemma sample_regions:
  "used_regions sample_entries [(0x9FF0, 0x20)] = [(0x3000, 0x1000), (0x9FF0, 0x20)]"
  "list_all sound_region (entry_regions sample_entries @ [(0x9FF0, 0x20)])"
  by (simp_all add: used_regions_def entry_regions_def sample_entries_def nat_region_def sound_region_def)

lemma sample_tree: "\<exists>tm. tree_at 0x100000 (tree_ranges sample_entries) tm"
proof -
  have fits: "tree_fits 0x100000 (tree_ranges sample_entries)" by (simp add: tree_fits_def sample_bytes)
  have "list_all low_range (tree_ranges sample_entries)"
    using sample_low by (auto simp: tree_ranges_def list_all_iff)
  with CreatePhysicalMemTree_layout [OF sample_low fits] fits show ?thesis
    by (auto simp: tree_at_def)
qed

lemma sample_blocks: "is_block (tree_ranges sample_entries) 0 0 2" "is_block (tree_ranges sample_entries) 1 2 0"
  by (simp_all add: is_block_def is_level_def sample_tree_ranges rdepth_def range_start_def range_end_def
      sample_depth rnum_def lnum_def lmax_def lmin_def bsz_def)

lemma CreatePhysicalMemTree_correct_witness:
  "\<forall>tm. \<exists>sd tm'. GetPhysicalMemTreeSize sample_entries = Some sd \<and> unat (bufferSize sd) = 320
    \<and> CreatePhysicalMemTree sample_entries 0x100000 sd tm = Some (True, 0x100000, tm')"
proof
  fix tm
  show "\<exists>sd tm'. GetPhysicalMemTreeSize sample_entries = Some sd \<and> unat (bufferSize sd) = 320
    \<and> CreatePhysicalMemTree sample_entries 0x100000 sd tm = Some (True, 0x100000, tm')"
    using CreatePhysicalMemTree_correct [OF sample_low, of "0x100000" tm] by (auto simp: sample_bytes)
qed

lemma tree_blocks_separate_witness:
  "block_addr 0x100000 (tree_ranges sample_entries) 0 0 2 < 0x100000 + 320"
  using tree_blocks_separate [OF sample_blocks(1), of "0x100000"] by (simp add: sample_bytes)

text \<open>The used kernel page, and half of the second range free (two pages of four).\<close>

lemma MarkPhysicalMemTreeRegions_pages_witness:
  "\<exists>tm tm'. MarkPhysicalMemTreeRegions 0x100000 sample_entries [(0x9FF0, 0x20)] tm = Some tm'
    \<and> blk 0x100000 (tree_ranges sample_entries) tm' 0 0 2 = 0"
proof -
  obtain tm where "tree_at 0x100000 (tree_ranges sample_entries) tm" using sample_tree by blast
  then obtain tm' where "MarkPhysicalMemTreeRegions 0x100000 sample_entries [(0x9FF0, 0x20)] tm = Some tm'"
    "blk 0x100000 (tree_ranges sample_entries) tm' 0 0 2 =
      (if \<exists>u \<in> set (used_regions sample_entries [(0x9FF0, 0x20)]).
         touches u (page_addr (tree_ranges sample_entries ! 0) 2) then 0 else 0x80)"
    using MarkPhysicalMemTreeRegions_pages [OF _ _ sample_pages sample_regions(2), of "0x100000" tm]
      sample_blocks(1) by (auto simp: sample_tree_ranges)
  then show ?thesis
    by (auto simp: sample_regions sample_tree_ranges touches_def page_addr_def range_start_def split: if_splits)
qed

lemma sample_free:
  "free_below [(0x3000, 0x1000), (0x9FF0, 0x20)] (tree_ranges sample_entries ! Suc 0) 2 0 = 2"
proof -
  have "{P. (8 :: nat) \<le> P \<and> P < 12 \<and> free_page [(0x3000, 0x1000), (0x9FF0, 0x20)] (tree_ranges sample_entries ! 1) P}
      = {8, 11}"
    by (auto simp: free_page_def sample_tree_ranges range_start_def range_end_def touches_def)
  then show ?thesis
    by (simp add: free_below_def first_block_def sample_tree_ranges range_start_def bsz_def)
qed

lemma MarkPhysicalMemTreeRegions_blocks_witness:
  "\<exists>tm tm'. MarkPhysicalMemTreeRegions 0x100000 sample_entries [(0x9FF0, 0x20)] tm = Some tm'
    \<and> unat (blk 0x100000 (tree_ranges sample_entries) tm' 1 2 0) = 64"
proof -
  obtain tm where "tree_at 0x100000 (tree_ranges sample_entries) tm" using sample_tree by blast
  from MarkPhysicalMemTreeRegions_blocks [OF this sample_pages sample_regions(2) sample_blocks(2)]
  show ?thesis by (auto simp: sample_regions(1) sample_free Let_def)
qed

end
