(* ===== verification/PhysMemStructs.thy ===== *)
theory PhysMemStructs
  imports PhysMemTreeAccel
begin

text \<open>
  The physical memory structures (src/src/Kernel/Memory/PhysicalMemStructsGen.c): the tree
  and the map of the physical memory, created one after the other in one buffer, which is
  itself taken out of the tree.
\<close>

unbundle bit_operations_syntax

record structs_size_data =
  ss_bufferSize :: u64
  ss_bufferAlignment :: u64
  ss_treeOffset :: u64
  ss_treeSizeData :: size_data
  ss_memMapOffset :: u64
  ss_memMapSize :: u64

definition GetPhysicalMemStructsSizeData :: "init_entry list \<Rightarrow> structs_size_data option" where
  "GetPhysicalMemStructsSizeData pInitialMap = do {
     treeSizeData \<leftarrow> GetPhysicalMemTreeSize pInitialMap;
     let treeSize = bufferSize treeSizeData;
     let treeAlignment = bufferAlignment treeSizeData;
     let (mapSize, mapAlignment) = GetPhysicalMemMapSize pInitialMap;
     let memMapOffset = ALIGN treeSize mapAlignment;
     Some \<lparr>ss_bufferSize = memMapOffset + mapSize,
       ss_bufferAlignment = (if mapAlignment > treeAlignment then mapAlignment else treeAlignment),
       ss_treeOffset = 0, ss_treeSizeData = treeSizeData,
       ss_memMapOffset = memMapOffset, ss_memMapSize = mapSize\<rparr> }"

record phys_structs =
  st_tree :: u64
  st_map :: phys_map
  st_mem :: tree_mem

text \<open>\<open>pMap\<close> is what the map's part of the buffer holds before.\<close>

definition CreatePhysicalMemStructs ::
  "init_entry list \<Rightarrow> u64 \<Rightarrow> structs_size_data \<Rightarrow> (u64 \<Rightarrow> phys_range) \<Rightarrow> phys_structs
    \<Rightarrow> (bool \<times> phys_structs) option" where
  "CreatePhysicalMemStructs pInitialMap pBuffer sd pMap st = do {
     (ok, tree, tm) \<leftarrow> CreatePhysicalMemTree pInitialMap (pBuffer + ss_treeOffset sd)
       (ss_treeSizeData sd) (st_mem st);
     let st = st\<lparr>st_tree := tree, st_mem := tm\<rparr>;
     if \<not> ok then Some (False, st)
     else do {
       tm \<leftarrow> MarkPhysicalMemTreeRegions tree pInitialMap [(pBuffer, ss_bufferSize sd)] tm;
       let (ok, m) = CreatePhysicalMemMap pInitialMap pMap (ss_memMapSize sd);
       Some (ok, st\<lparr>st_map := m, st_mem := tm\<rparr>) } }"

definition structs_bytes :: "init_entry list \<Rightarrow> nat" where
  "structs_bytes es = (tree_bytes (tree_ranges es) + 15) div 16 * 16 + 32 * length (combined_ranges es)"

lemma unat_ALIGN_16:
  assumes "unat x + 15 < 18446744073709551616"
  shows "unat (ALIGN x 16) = (unat x + 15) div 16 * 16"
proof -
  have sum: "unat (x + 15) = unat x + 15" using assms by (subst unat_u64_plus) simp_all
  have low: "unat (take_bit 4 (x + 15)) = (unat x + 15) mod 16"
    by (simp add: take_bit_eq_mod unat_mod sum)
  then have "take_bit 4 (x + 15) \<le> x + 15" by (simp add: word_le_nat_alt sum)
  then show ?thesis
    using ALIGN_eq [of x 4] by (simp add: unat_u64_minus sum low minus_mod_eq_div_mult)
qed

lemma round_up_16: "t \<le> (t + 15) div 16 * (16 :: nat)"
proof -
  have "(t + 15) mod 16 < 16" by simp
  moreover have "(t + 15) div 16 * 16 + (t + 15) mod 16 = t + 15" by (rule div_mult_mod_eq)
  ultimately show ?thesis by linarith
qed

lemma structs_size:
  assumes low: "list_all low_range (combined_ranges es)" and room: "structs_bytes es < 2 ^ 59"
  shows "\<exists>sd. GetPhysicalMemStructsSizeData es = Some sd
    \<and> ss_treeSizeData sd = size_of_tree (tree_ranges es) \<and> ss_treeOffset sd = 0
    \<and> unat (ss_memMapOffset sd) = (tree_bytes (tree_ranges es) + 15) div 16 * 16
    \<and> unat (ss_memMapSize sd) = 32 * length (combined_ranges es)
    \<and> unat (ss_bufferSize sd) = structs_bytes es \<and> ss_bufferAlignment sd = 16"
proof -
  let ?t = "tree_bytes (tree_ranges es)" and ?n = "length (combined_ranges es)"
  have bounds: "?t < 2 ^ 59" "32 * ?n < 2 ^ 59"
    using room round_up_16 [of ?t] unfolding structs_bytes_def by linarith+
  have u: "unat (bufferSize (size_of_tree (tree_ranges es))) = ?t"
    using bounds by (simp add: size_of_tree_def unat_u64_of_nat)
  have off: "unat (ALIGN (bufferSize (size_of_tree (tree_ranges es))) 16) = (?t + 15) div 16 * 16"
    using bounds by (subst unat_ALIGN_16) (simp_all add: u)
  have sz: "unat (of_nat ?n * 32 :: u64) = 32 * ?n"
    using bounds by (subst unat_u64_mult) (simp_all add: unat_u64_of_nat)
  have total: "unat (ALIGN (bufferSize (size_of_tree (tree_ranges es))) 16 + of_nat ?n * 32)
      = structs_bytes es"
    using room by (subst unat_u64_plus) (simp_all add: off sz structs_bytes_def)
  have align: "bufferAlignment (size_of_tree (tree_ranges es)) = 16" by (simp add: size_of_tree_def)
  show ?thesis
    using off sz total align
    by (simp add: GetPhysicalMemStructsSizeData_def GetPhysicalMemTreeSize_eq [OF low]
        GetPhysicalMemMapSize_def count_ranges Let_def)
qed

text \<open>The page blocks after the creation, all of them.\<close>

lemma CreatePhysicalMemStructs_blocks:
  assumes low: "list_all low_range (combined_ranges es)" and room: "structs_bytes es < 2 ^ 59"
    and buffer: "pBuffer \<noteq> 0" "unat pBuffer + structs_bytes es + 4095 < 2 ^ 64"
    and ranges: "tree_ranges es \<noteq> []" "list_all page_range (tree_ranges es)"
      "list_all sound_region (entry_regions es)"
  shows "\<exists>sd st'. GetPhysicalMemStructsSizeData es = Some sd
    \<and> CreatePhysicalMemStructs es pBuffer sd pMap st = Some (True, st') \<and> st_tree st' = pBuffer
    \<and> unat (bufferSize (ss_treeSizeData sd)) \<le> unat (ss_memMapOffset sd)
    \<and> unat (ss_memMapOffset sd) + 32 * length (combined_ranges es) = unat (ss_bufferSize sd)
    \<and> unat (map_numEntries (st_map st')) = length (combined_ranges es)
    \<and> (\<forall>i < length (combined_ranges es). map_pEntries (st_map st') (of_nat i) = combined_ranges es ! i)
    \<and> tree_at pBuffer (tree_ranges es) (st_mem st')
    \<and> (\<forall>i x. is_block (tree_ranges es) i 0 x \<longrightarrow> blk pBuffer (tree_ranges es) (st_mem st') i 0 x =
        (if \<exists>u \<in> set (used_regions es [(pBuffer, ss_bufferSize sd)]). touches u (page_addr (tree_ranges es ! i) x)
         then 0 else 0x80))"
proof -
  let ?rs = "tree_ranges es" and ?n = "length (combined_ranges es)"
  obtain sd where sd: "GetPhysicalMemStructsSizeData es = Some sd" "ss_treeSizeData sd = size_of_tree ?rs"
      "ss_treeOffset sd = 0" "unat (ss_memMapOffset sd) = (tree_bytes ?rs + 15) div 16 * 16"
      "unat (ss_memMapSize sd) = 32 * ?n" "unat (ss_bufferSize sd) = structs_bytes es"
    using structs_size [OF low room] by blast
  note t = round_up_16 [of "tree_bytes ?rs"]
  then have total: "tree_bytes ?rs \<le> structs_bytes es" "32 * ?n \<le> structs_bytes es"
    unfolding structs_bytes_def by linarith+
  have n: "?n < 576460752303423488" using total room by simp
  have fits: "tree_fits pBuffer ?rs" using buffer(2) total(1) by (simp add: tree_fits_def)
  obtain tm1 where tm1: "CreatePhysicalMemTree es pBuffer (size_of_tree ?rs) (st_mem st)
        = Some (True, pBuffer, tm1)" "tree_at pBuffer ?rs tm1"
  proof -
    have "list_all low_range ?rs" using low by (auto simp: tree_ranges_def list_all_iff)
    then show ?thesis
      using CreatePhysicalMemTree_layout [OF low fits, of "st_mem st"] buffer(1) fits that
      unfolding tree_at_def by blast
  qed
  have sound: "list_all sound_region (entry_regions es @ [(pBuffer, ss_bufferSize sd)])"
    using ranges(3) buffer(2) by (simp add: sound_region_def sd(6))
  have ready: "tree_ready pBuffer ?rs tm1" using tm1(2) ranges by (simp add: tree_ready_def)
  obtain tm2 where tm2: "MarkPhysicalMemTreeRegions pBuffer es [(pBuffer, ss_bufferSize sd)] tm1 = Some tm2"
      "same_structs tm1 tm2"
      "\<And>i x. is_block ?rs i 0 x \<Longrightarrow> blk pBuffer ?rs tm2 i 0 x =
        (if \<exists>u \<in> set (used_regions es [(pBuffer, ss_bufferSize sd)]). touches u (page_addr (?rs ! i) x)
         then 0 else 0x80)"
    using MarkPhysicalMemTreeRegions_taken [OF ready sound] by blast
  have map: "CreatePhysicalMemMap es pMap (ss_memMapSize sd) =
      (True, \<lparr>map_numEntries = of_nat ?n, map_pEntries = filled (combined_ranges es) pMap ?n\<rparr>)"
    using create_fill [OF n, of pMap "ss_memMapSize sd"] by (simp add: sd(5))
  let ?st = "st\<lparr>st_tree := pBuffer, st_map := \<lparr>map_numEntries = of_nat ?n,
    map_pEntries = filled (combined_ranges es) pMap ?n\<rparr>, st_mem := tm2\<rparr>"
  have run: "CreatePhysicalMemStructs es pBuffer sd pMap st = Some (True, ?st)"
    using tm1(1) tm2(1) map by (simp add: CreatePhysicalMemStructs_def sd(2,3))
  have num: "unat (of_nat ?n :: u64) = ?n" using n by (intro unat_u64_of_nat) simp
  have content: "filled (combined_ranges es) pMap ?n (of_nat i) = combined_ranges es ! i" if "i < ?n" for i
    using that n by (simp add: filled_def unat_u64_of_nat)
  have "unat (bufferSize (ss_treeSizeData sd)) = tree_bytes ?rs"
    using fits by (simp add: sd(2) size_of_tree_def unat_u64_of_nat tree_fits_def)
  moreover have "tree_at pBuffer ?rs tm2" by (rule tree_at_same [OF tm1(2) tm2(2)])
  ultimately show ?thesis
    using run t num content by (intro exI [of _ sd] exI [of _ ?st]) (simp add: sd structs_bytes_def tm2(3) [simplified])
qed

text \<open>
  In a buffer at address 0 the structures are created, too, but the tree's root is the null
  pointer there, so the walks that mark its pages end at once.
\<close>

lemma null_tree_unmarked: "MarkPhysicalMemTreeRegions 0 es regions tm = Some tm"
proof -
  have walk: "for_entries body 0 tm = Some tm" for body by (subst for_entries.simps) simp
  have "mark_initial_entries 0 es tm = Some tm"
    by (induction es) (simp_all add: MarkUsedTreePages_def walk)
  moreover have "mark_regions 0 regions tm = Some tm"
    by (induction regions) (auto simp: MarkUsedTreePages_def walk)
  ultimately show ?thesis
    by (simp add: MarkPhysicalMemTreeRegions_def SetAllTreePagesAvailable_def FillTreeAccelBlocks_def walk)
qed

lemma CreatePhysicalMemStructs_null:
  assumes low: "list_all low_range (combined_ranges es)" and room: "structs_bytes es < 2 ^ 59"
  shows "\<exists>sd st'. GetPhysicalMemStructsSizeData es = Some sd
    \<and> CreatePhysicalMemStructs es 0 sd pMap st = Some (True, st') \<and> st_tree st' = 0
    \<and> unat (map_numEntries (st_map st')) = length (combined_ranges es)
    \<and> (\<forall>i < length (combined_ranges es). map_pEntries (st_map st') (of_nat i) = combined_ranges es ! i)"
proof -
  let ?rs = "tree_ranges es" and ?n = "length (combined_ranges es)"
  obtain sd where sd: "GetPhysicalMemStructsSizeData es = Some sd" "ss_treeSizeData sd = size_of_tree ?rs"
      "ss_treeOffset sd = 0" "unat (ss_memMapSize sd) = 32 * ?n"
    using structs_size [OF low room] by blast
  have total: "tree_bytes ?rs \<le> structs_bytes es" "32 * ?n \<le> structs_bytes es"
    using round_up_16 [of "tree_bytes ?rs"] unfolding structs_bytes_def by linarith+
  hence n: "?n < 576460752303423488" using room by simp
  have "tree_fits 0 ?rs" using total(1) room by (simp add: tree_fits_def)
  then obtain tm where tm: "CreatePhysicalMemTree es 0 (size_of_tree ?rs) (st_mem st) = Some (True, 0, tm)"
    using CreatePhysicalMemTree_layout [OF low, of 0 "st_mem st"] by blast
  have map: "CreatePhysicalMemMap es pMap (ss_memMapSize sd) =
      (True, \<lparr>map_numEntries = of_nat ?n, map_pEntries = filled (combined_ranges es) pMap ?n\<rparr>)"
    using create_fill [OF n, of pMap "ss_memMapSize sd"] by (simp add: sd(4))
  have num: "unat (of_nat ?n :: u64) = ?n" using n by (intro unat_u64_of_nat) simp
  have content: "filled (combined_ranges es) pMap ?n (of_nat i) = combined_ranges es ! i" if "i < ?n" for i
    using that n by (simp add: filled_def unat_u64_of_nat)
  show ?thesis
    using sd(1) tm map num content by (simp add: CreatePhysicalMemStructs_def sd(2,3) null_tree_unmarked)
qed

text \<open>
  The structures are created together in a buffer of the reported size: the tree's
  part and the map's part of the buffer do not overlap, creation ends and succeeds, the map
  lists all combined ranges, and every page of usable memory that the buffer occupies is
  taken out of the tree.
\<close>

theorem CreatePhysicalMemStructs_correct:
  assumes low: "list_all low_range (combined_ranges es)" and room: "structs_bytes es < 2 ^ 59"
    and buffer: "pBuffer \<noteq> 0" "unat pBuffer + structs_bytes es + 4095 < 2 ^ 64"
    and ranges: "tree_ranges es \<noteq> []" "list_all page_range (tree_ranges es)"
      "list_all sound_region (entry_regions es)"
  shows "\<exists>sd st'. GetPhysicalMemStructsSizeData es = Some sd
    \<and> CreatePhysicalMemStructs es pBuffer sd pMap st = Some (True, st')
    \<and> unat (bufferSize (ss_treeSizeData sd)) \<le> unat (ss_memMapOffset sd)
    \<and> unat (ss_memMapOffset sd) + 32 * length (combined_ranges es) = unat (ss_bufferSize sd)
    \<and> unat (map_numEntries (st_map st')) = length (combined_ranges es)
    \<and> (\<forall>i < length (combined_ranges es). map_pEntries (st_map st') (of_nat i) = combined_ranges es ! i)
    \<and> tree_at pBuffer (tree_ranges es) (st_mem st')
    \<and> (\<forall>i x. is_block (tree_ranges es) i 0 x \<longrightarrow>
        touches (unat pBuffer, unat (ss_bufferSize sd)) (page_addr (tree_ranges es ! i) x) \<longrightarrow>
        blk pBuffer (tree_ranges es) (st_mem st') i 0 x = 0)"
  using CreatePhysicalMemStructs_blocks [OF assms, of pMap st]
  by (auto simp: used_regions_def nat_region_def)

lemma CreatePhysicalMemStructs_correct_witness:
  "\<forall>st. \<exists>sd st'. GetPhysicalMemStructsSizeData sample_entries = Some sd
    \<and> CreatePhysicalMemStructs sample_entries 0x8000 sd (\<lambda>_. undefined) st = Some (True, st')
    \<and> unat (map_numEntries (st_map st')) = 3"
proof
  fix st
  have "structs_bytes sample_entries = 416"
    by (simp add: structs_bytes_def sample_bytes sample_combined)
  moreover have "list_all sound_region (entry_regions sample_entries)"
    by (simp add: entry_regions_def sample_entries_def sound_region_def)
  ultimately show "\<exists>sd st'. GetPhysicalMemStructsSizeData sample_entries = Some sd
    \<and> CreatePhysicalMemStructs sample_entries 0x8000 sd (\<lambda>_. undefined) st = Some (True, st')
    \<and> unat (map_numEntries (st_map st')) = 3"
    using CreatePhysicalMemStructs_correct [OF sample_low, of "0x8000" "\<lambda>_. undefined" st] sample_pages
    by (auto simp: sample_tree_ranges sample_combined)
qed

end
