(* ===== verification/EfiMemMap.thy ===== *)
theory EfiMemMap
  imports MemMap "HOL-Library.Monad_Syntax"
begin

text \<open>
  The initial memory map from the firmware's map (src/src/Kernel/efi/InitialMemMapGenEfi.c).
  The EFI memory map is the list of its descriptors, in the firmware's order, which is
  arbitrary: the code finds the next region by a search for the lowest start address not
  below the end of the last one. The iteration is a partial function, as it never ends on
  a descriptor of no pages. It is shown to visit the descriptors in ascending order, the
  adjoining ones of the same kind combined; from this the contents of the created map.
\<close>

unbundle bit_operations_syntax

subsection \<open>EFI descriptors\<close>

record efi_desc =
  efi_Type :: u32
  efi_PhysicalStart :: u64
  efi_VirtualStart :: u64
  efi_NumberOfPages :: u64
  efi_Attribute :: u64

abbreviation EfiReservedMemoryType :: u32 where "EfiReservedMemoryType \<equiv> 0"
abbreviation EfiLoaderCode :: u32 where "EfiLoaderCode \<equiv> 1"
abbreviation EfiLoaderData :: u32 where "EfiLoaderData \<equiv> 2"
abbreviation EfiBootServicesCode :: u32 where "EfiBootServicesCode \<equiv> 3"
abbreviation EfiBootServicesData :: u32 where "EfiBootServicesData \<equiv> 4"
abbreviation EfiRuntimeServicesCode :: u32 where "EfiRuntimeServicesCode \<equiv> 5"
abbreviation EfiRuntimeServicesData :: u32 where "EfiRuntimeServicesData \<equiv> 6"
abbreviation EfiConventionalMemory :: u32 where "EfiConventionalMemory \<equiv> 7"
abbreviation EfiUnusableMemory :: u32 where "EfiUnusableMemory \<equiv> 8"
abbreviation EfiACPIReclaimMemory :: u32 where "EfiACPIReclaimMemory \<equiv> 9"
abbreviation EfiACPIMemoryNVS :: u32 where "EfiACPIMemoryNVS \<equiv> 10"
abbreviation EfiMemoryMappedIO :: u32 where "EfiMemoryMappedIO \<equiv> 11"
abbreviation EfiMemoryMappedIOPortSpace :: u32 where "EfiMemoryMappedIOPortSpace \<equiv> 12"
abbreviation EfiPalCode :: u32 where "EfiPalCode \<equiv> 13"
abbreviation EfiPersistentMemory :: u32 where "EfiPersistentMemory \<equiv> 14"
abbreviation EfiUnacceptedMemoryType :: u32 where "EfiUnacceptedMemoryType \<equiv> 15"

definition ToDexprOSMemType :: "u32 \<Rightarrow> mem_type" where
  "ToDexprOSMemType t =
     (if t = EfiUnusableMemory then TYPE_UNUSABLE
      else if t \<in> {EfiReservedMemoryType, EfiMemoryMappedIO, EfiMemoryMappedIOPortSpace, EfiPalCode}
      then TYPE_FIRMWARE_RESERVED
      else if t = EfiUnacceptedMemoryType then TYPE_UNACCEPTED
      else if t \<in> {EfiConventionalMemory, EfiLoaderCode, EfiLoaderData} then TYPE_USABLE
      else if t = EfiPersistentMemory then TYPE_USABLE_PERSISTENT
      else if t = EfiACPIReclaimMemory then TYPE_ACPI_RECLAIM
      else if t = EfiACPIMemoryNVS then TYPE_ACPI_NVS
      else if t = EfiBootServicesCode then TYPE_EFI_BOOT_SERVICES_CODE
      else if t = EfiBootServicesData then TYPE_EFI_BOOT_SERVICES_DATA
      else if t = EfiRuntimeServicesCode then TYPE_EFI_RUNTIME_SERVICES_CODE
      else if t = EfiRuntimeServicesData then TYPE_EFI_RUNTIME_SERVICES_DATA
      else TYPE_FIRMWARE_RESERVED)"

definition ToDexprOSInitialMemMapUsage :: "u32 \<Rightarrow> mem_usage" where
  "ToDexprOSInitialMemMapUsage t =
     (if t \<in> {EfiConventionalMemory, EfiPersistentMemory, EfiBootServicesCode,
        EfiBootServicesData, EfiRuntimeServicesCode, EfiRuntimeServicesData} then USAGE_MAPPED
      else if t = EfiLoaderCode then USAGE_KERNEL_CODE
      else if t = EfiLoaderData then USAGE_KERNEL_DATA
      else USAGE_NONE)"

text \<open>One \<open>if\<close> of the attribute translation.\<close>

definition attr_flag :: "u64 \<Rightarrow> u64 \<Rightarrow> u64 \<Rightarrow> u64 \<Rightarrow> u64" where
  "attr_flag efiAttributes efiBit flag result =
     (if efiAttributes AND efiBit = efiBit then result OR flag else result)"

definition ToDexprOSAttributeFlags :: "u64 \<Rightarrow> u64" where
  "ToDexprOSAttributeFlags a =
     (let result = 0;
          result = attr_flag a 0x1 0x1 result;
          result = attr_flag a 0x2 0x2 result;
          result = attr_flag a 0x4 0x4 result;
          result = attr_flag a 0x8 0x8 result;
          result = attr_flag a 0x10 0x10 result;
          result = attr_flag a 0x1000 0x20 result;
          result = attr_flag a 0x2000 0x40 result;
          result = attr_flag a 0x4000 0x80 result;
          result = attr_flag a 0x20000 0x400 result;
          result = attr_flag a 0x8000 0x100 result;
          result = attr_flag a 0x8000000000000000 0x2000 result;
          result = attr_flag a 0x10000 0x200 result;
          result = attr_flag a 0x40000 0x800 result;
          result = attr_flag a 0x80000 0x1000 result
      in if a AND 0x4000000000000000 = 0x4000000000000000
         then (result OR 0x4000) OR (a AND 0x0FFFF00000000000) else result)"

subsection \<open>The next region\<close>

definition efi_entry :: "efi_desc \<Rightarrow> init_entry" where
  "efi_entry d = \<lparr>memoryType = ToDexprOSMemType (efi_Type d),
     usage = ToDexprOSInitialMemMapUsage (efi_Type d),
     flags = ToDexprOSAttributeFlags (efi_Attribute d),
     physicalAddress = efi_PhysicalStart d, virtualAddress = efi_PhysicalStart d,
     numPhysicalPages = efi_NumberOfPages d * 4096 div PAGE_SIZE\<rparr>"

definition no_entry :: init_entry where
  "no_entry = \<lparr>memoryType = TYPE_Max, usage = USAGE_NONE, flags = 0, physicalAddress = 0,
     virtualAddress = 0, numPhysicalPages = 0\<rparr>"

definition next_step :: "u64 \<Rightarrow> efi_desc \<Rightarrow> bool \<times> init_entry \<Rightarrow> bool \<times> init_entry" where
  "next_step minAddress d = (\<lambda>(nextDescFound, r).
     if efi_PhysicalStart d \<ge> minAddress
        \<and> (efi_PhysicalStart d < physicalAddress r \<or> \<not> nextDescFound)
     then (True, efi_entry d) else (nextDescFound, r))"

definition GetNextEfiMapEntry :: "efi_desc list \<Rightarrow> u64 \<Rightarrow> bool \<times> init_entry" where
  "GetNextEfiMapEntry descs minAddress = fold (next_step minAddress) descs (False, no_entry)"

subsection \<open>The iteration\<close>

definition range_end_of :: "init_entry \<Rightarrow> u64" where
  "range_end_of e = physicalAddress e + numPhysicalPages e * PAGE_SIZE"

definition combines :: "init_entry \<Rightarrow> init_entry \<Rightarrow> bool" where
  "combines c e \<longleftrightarrow> physicalAddress e = range_end_of c
     \<and> virtualAddress e = virtualAddress c + numPhysicalPages c * PAGE_SIZE
     \<and> memoryType e = memoryType c \<and> usage e = usage c \<and> flags e = flags c"

definition combine :: "init_entry \<Rightarrow> init_entry \<Rightarrow> init_entry" where
  "combine c e = c\<lparr>numPhysicalPages := numPhysicalPages c + numPhysicalPages e\<rparr>"

text \<open>The \<open>for (;;)\<close> loop; the last submission is behind the loop.\<close>

partial_function (option) iter_efi ::
  "efi_desc list \<Rightarrow> (init_entry \<Rightarrow> 's \<Rightarrow> 's) \<Rightarrow> init_entry \<Rightarrow> bool \<Rightarrow> 's \<Rightarrow> 's option" where
  "iter_efi descs f combinedRange anyRangeWritten s =
     (let (found, nextMemRegion) = GetNextEfiMapEntry descs (range_end_of combinedRange)
      in if \<not> found then Some (if anyRangeWritten then f combinedRange s else s)
         else if combines combinedRange nextMemRegion \<and> anyRangeWritten
         then iter_efi descs f (combine combinedRange nextMemRegion) anyRangeWritten s
         else iter_efi descs f nextMemRegion True (if anyRangeWritten then f combinedRange s else s))"

definition IterEfiMemMapAsInitMap ::
  "efi_desc list \<Rightarrow> (init_entry \<Rightarrow> 's \<Rightarrow> 's) \<Rightarrow> 's \<Rightarrow> 's option" where
  "IterEfiMemMapAsInitMap descs f s = iter_efi descs f no_entry False s"

subsection \<open>Allocation\<close>

text \<open>\<open>sizeof(DexprOS_InitialMemMapEntry)\<close> on the target.\<close>

abbreviation INIT_ENTRY_SIZE :: u64 where "INIT_ENTRY_SIZE \<equiv> 40"

record alloc_struct =
  al_numRegions :: u64
  al_largestUsableRegionAddress :: u64
  al_virtualAddress :: u64
  al_numLargestUsableRegionPages :: u64

definition InitMemMapAllocCallback :: "init_entry \<Rightarrow> alloc_struct \<Rightarrow> alloc_struct" where
  "InitMemMapAllocCallback memEntry a =
     (let a = a\<lparr>al_numRegions := al_numRegions a + 1\<rparr>
      in if memoryType memEntry = TYPE_USABLE \<and> usage memEntry = USAGE_MAPPED
            \<and> numPhysicalPages memEntry > al_numLargestUsableRegionPages a
         then a\<lparr>al_largestUsableRegionAddress := physicalAddress memEntry,
                al_virtualAddress := virtualAddress memEntry,
                al_numLargestUsableRegionPages := numPhysicalPages memEntry\<rparr>
         else a)"

definition pages_for :: "u64 \<Rightarrow> u64" where
  "pages_for sz = (sz + PAGE_SIZE - 1) div PAGE_SIZE"

text \<open>None in the result: no region is large enough; else addresses and size of the buffer.\<close>

definition AllocInitMemMapMemory :: "efi_desc list \<Rightarrow> (u64 \<times> u64 \<times> u64) option option" where
  "AllocInitMemMapMemory descs = do {
     a \<leftarrow> IterEfiMemMapAsInitMap descs InitMemMapAllocCallback
       \<lparr>al_numRegions = 0, al_largestUsableRegionAddress = 0, al_virtualAddress = 0,
        al_numLargestUsableRegionPages = 0\<rparr>;
     let requiredSize = (al_numRegions a + 1) * INIT_ENTRY_SIZE;
     let requiredPages = pages_for requiredSize;
     Some (if al_numLargestUsableRegionPages a \<ge> requiredPages
       then Some (al_largestUsableRegionAddress a, al_virtualAddress a, requiredSize) else None) }"

subsection \<open>Creation\<close>

text \<open>The map under construction: the array behind \<open>pEntries\<close> and its entry count.\<close>

record creation_struct =
  cs_entries :: "u64 \<Rightarrow> init_entry"
  cs_numEntries :: u64
  cs_availableSize :: u64
  cs_initMapPhysAddress :: u64
  cs_initMapVirtAddress :: u64
  cs_numInitMapPages :: u64
  cs_success :: bool

definition no_room :: "creation_struct \<Rightarrow> bool" where
  "no_room c \<longleftrightarrow> cs_numEntries c * INIT_ENTRY_SIZE \<ge> cs_availableSize c"

definition put_entry :: "init_entry \<Rightarrow> creation_struct \<Rightarrow> creation_struct" where
  "put_entry e c = c\<lparr>cs_entries := (cs_entries c)(cs_numEntries c := e),
     cs_numEntries := cs_numEntries c + 1\<rparr>"

definition FillInitMemMapEntry :: "init_entry \<Rightarrow> creation_struct \<Rightarrow> creation_struct" where
  "FillInitMemMapEntry memEntry c =
     (let n = cs_numInitMapPages c in
      if physicalAddress memEntry = cs_initMapPhysAddress c then
        if no_room c then c\<lparr>cs_success := False\<rparr>
        else let c = put_entry (memEntry\<lparr>usage := USAGE_INITIAL_MEMMAP, numPhysicalPages := n\<rparr>) c
          in if numPhysicalPages memEntry = n then c
             else if no_room c then c\<lparr>cs_success := False\<rparr>
             else put_entry (memEntry\<lparr>physicalAddress := physicalAddress memEntry + n * PAGE_SIZE,
                virtualAddress := virtualAddress memEntry + n * PAGE_SIZE,
                numPhysicalPages := numPhysicalPages memEntry - n\<rparr>) c
      else if no_room c then c\<lparr>cs_success := False\<rparr>
      else put_entry memEntry c)"

record init_map =
  im_pEntries :: u64
  im_entries :: "u64 \<Rightarrow> init_entry"
  im_numEntries :: u64

definition CreateInitMemMap ::
  "efi_desc list \<Rightarrow> u64 \<Rightarrow> u64 \<Rightarrow> u64 \<Rightarrow> (u64 \<Rightarrow> init_entry) \<Rightarrow> (bool \<times> init_map) option" where
  "CreateInitMemMap descs physAddress virtAddress availableSize buffer = do {
     c \<leftarrow> IterEfiMemMapAsInitMap descs FillInitMemMapEntry
       \<lparr>cs_entries = buffer, cs_numEntries = 0, cs_availableSize = availableSize,
        cs_initMapPhysAddress = physAddress, cs_initMapVirtAddress = virtAddress,
        cs_numInitMapPages = pages_for availableSize, cs_success = True\<rparr>;
     Some (cs_success c, \<lparr>im_pEntries = virtAddress, im_entries = cs_entries c,
       im_numEntries = cs_numEntries c\<rparr>) }"

definition CreateInitialMemMapFromEfi ::
  "efi_desc list \<Rightarrow> (u64 \<Rightarrow> init_entry) \<Rightarrow> init_map \<Rightarrow> (bool \<times> init_map) option" where
  "CreateInitialMemMapFromEfi descs buffer m = do {
     r \<leftarrow> AllocInitMemMapMemory descs;
     case r of None \<Rightarrow> Some (False, m)
     | Some (physAddress, virtAddress, sz) \<Rightarrow>
         CreateInitMemMap descs physAddress virtAddress sz buffer }"

subsection \<open>Search for the next region\<close>

definition sound_desc :: "efi_desc \<Rightarrow> bool" where
  "sound_desc d \<longleftrightarrow> 0 < efi_NumberOfPages d
     \<and> unat (efi_PhysicalStart d) + unat (efi_NumberOfPages d) * 4096 < 2 ^ 64"

text \<open>Descriptors of some pages each that, sorted by their start, do not overlap.\<close>

definition sorted_descs :: "efi_desc list \<Rightarrow> efi_desc list" where
  "sorted_descs descs = sort_key efi_PhysicalStart descs"

definition sound_descs :: "efi_desc list \<Rightarrow> bool" where
  "sound_descs descs \<longleftrightarrow> list_all sound_desc descs
     \<and> ascending (map (\<lambda>d. entry_range (efi_entry d)) (sorted_descs descs))"

lemma next_step_apply:
  "next_step mn d (found, r) =
    (if mn \<le> efi_PhysicalStart d \<and> (efi_PhysicalStart d < physicalAddress r \<or> \<not> found)
     then (True, efi_entry d) else (found, r))"
  by (simp add: next_step_def)

lemma next_fold:
  "case fold (next_step mn) descs (False, no_entry) of (found, r) \<Rightarrow>
     (found \<longleftrightarrow> (\<exists>d \<in> set descs. mn \<le> efi_PhysicalStart d))
     \<and> (found \<longrightarrow> (\<exists>d \<in> set descs. r = efi_entry d \<and> mn \<le> efi_PhysicalStart d
          \<and> (\<forall>d' \<in> set descs. mn \<le> efi_PhysicalStart d' \<longrightarrow> efi_PhysicalStart d \<le> efi_PhysicalStart d')))"
proof (induction descs rule: rev_induct)
  case (snoc d descs)
  obtain found r where r: "fold (next_step mn) descs (False, no_entry) = (found, r)" by fastforce
  have phys: "physicalAddress (efi_entry d) = efi_PhysicalStart d" for d by (simp add: efi_entry_def)
  show ?case
  proof (cases found)
    case True
    with snoc r obtain d0 where d0: "d0 \<in> set descs" "r = efi_entry d0" "mn \<le> efi_PhysicalStart d0"
      "\<forall>d' \<in> set descs. mn \<le> efi_PhysicalStart d' \<longrightarrow> efi_PhysicalStart d0 \<le> efi_PhysicalStart d'"
      by auto
    with True r show ?thesis by (auto simp: next_step_apply phys)
  next
    case False
    with snoc r show ?thesis by (auto simp: next_step_apply)
  qed
qed simp

lemma next_found:
  assumes "set descs = set (pre @ d # rest)" "\<forall>d' \<in> set pre. efi_PhysicalStart d' < mn"
    "mn \<le> efi_PhysicalStart d" "\<forall>d' \<in> set rest. efi_PhysicalStart d < efi_PhysicalStart d'"
  shows "GetNextEfiMapEntry descs mn = (True, efi_entry d)"
proof -
  obtain found r where r: "GetNextEfiMapEntry descs mn = (found, r)" by fastforce
  with next_fold [where mn = mn and descs = descs] have N: "found \<longleftrightarrow> (\<exists>d \<in> set descs. mn \<le> efi_PhysicalStart d)"
    "found \<longrightarrow> (\<exists>d \<in> set descs. r = efi_entry d \<and> mn \<le> efi_PhysicalStart d
      \<and> (\<forall>d' \<in> set descs. mn \<le> efi_PhysicalStart d' \<longrightarrow> efi_PhysicalStart d \<le> efi_PhysicalStart d'))"
    by (auto simp: GetNextEfiMapEntry_def)
  have d: "d \<in> set descs" using assms(1) by simp
  with N assms(3) obtain d0 where d0: "d0 \<in> set descs" "r = efi_entry d0" "mn \<le> efi_PhysicalStart d0"
    "efi_PhysicalStart d0 \<le> efi_PhysicalStart d" and found by blast
  have "d0 = d"
    using d0 assms by (auto dest: leD)
  with d0(2) r \<open>found\<close> show ?thesis by simp
qed

lemma next_none:
  assumes "\<forall>d' \<in> set descs. efi_PhysicalStart d' < mn"
  shows "fst (GetNextEfiMapEntry descs mn) = False"
  using next_fold [where mn = mn and descs = descs] assms by (auto simp: GetNextEfiMapEntry_def split: prod.splits)

lemma efi_entry_sound:
  assumes "sound_desc d"
  shows "sound_entry (efi_entry d)" "0 < numPhysicalPages (efi_entry d)"
    "numPhysicalPages (efi_entry d) = efi_NumberOfPages d"
proof -
  have "unat (efi_NumberOfPages d * 4096) = unat (efi_NumberOfPages d) * 4096"
    using assms by (intro unat_pages [of "efi_PhysicalStart d"]) (simp add: sound_desc_def)
  then have "unat (efi_NumberOfPages d * 4096 div 4096) = unat (efi_NumberOfPages d)"
    by (simp add: unat_u64_div)
  then have "efi_NumberOfPages d * 4096 div 4096 = efi_NumberOfPages d" by (metis of_nat_unat_u64)
  then show *: "numPhysicalPages (efi_entry d) = efi_NumberOfPages d" by (simp add: efi_entry_def)
  show "0 < numPhysicalPages (efi_entry d)" using assms by (simp add: * sound_desc_def)
  show "sound_entry (efi_entry d)"
    using assms by (simp add: sound_entry_def *) (simp add: efi_entry_def sound_desc_def)
qed

subsection \<open>What the iteration visits\<close>

text \<open>Entries in ascending order, the adjoining ones of the same kind combined.\<close>

fun merge_from :: "init_entry \<Rightarrow> init_entry list \<Rightarrow> init_entry list" where
  "merge_from c [] = [c]"
| "merge_from c (e # es) =
     (if combines c e then merge_from (combine c e) es else c # merge_from e es)"

fun merge_entries :: "init_entry list \<Rightarrow> init_entry list" where
  "merge_entries [] = []"
| "merge_entries (e # es) = merge_from e es"

definition efi_entries :: "efi_desc list \<Rightarrow> init_entry list" where
  "efi_entries descs = merge_entries (map efi_entry (sorted_descs descs))"

text \<open>Entries of an identity mapping that follow each other without overlap.\<close>

definition entry_end :: "init_entry \<Rightarrow> nat" where
  "entry_end e = unat (physicalAddress e) + unat (numPhysicalPages e) * 4096"

definition good_entry :: "init_entry \<Rightarrow> bool" where
  "good_entry e \<longleftrightarrow> sound_entry e \<and> 0 < numPhysicalPages e \<and> virtualAddress e = physicalAddress e"

definition good_seq :: "init_entry list \<Rightarrow> bool" where
  "good_seq es \<longleftrightarrow> list_all good_entry es
     \<and> sorted_wrt (\<lambda>e e'. entry_end e \<le> unat (physicalAddress e')) es"

lemma unat_range_end_of: "sound_entry e \<Longrightarrow> unat (range_end_of e) = entry_end e"
  unfolding range_end_of_def sound_entry_def entry_end_def
  using unat_pages [of "physicalAddress e" "numPhysicalPages e"] by (subst unat_u64_plus) simp_all

lemma good_entry_start: "good_entry e \<Longrightarrow> unat (physicalAddress e) < entry_end e"
  by (simp add: good_entry_def entry_end_def word_less_nat_alt)

lemma combine_good:
  assumes "good_entry c" "good_entry e" "combines c e"
  shows "good_entry (combine c e)" "entry_end (combine c e) = entry_end e"
    "physicalAddress (combine c e) = physicalAddress c"
proof -
  have s: "sound_entry c" "sound_entry e" using assms by (simp_all add: good_entry_def)
  have start: "unat (physicalAddress e) = entry_end c"
    using assms(3) unat_range_end_of [OF s(1)] by (simp add: combines_def)
  then have "unat (numPhysicalPages c + numPhysicalPages e)
      = unat (numPhysicalPages c) + unat (numPhysicalPages e)"
    using s(2) by (intro unat_u64_plus) (simp add: sound_entry_def entry_end_def)
  then show "entry_end (combine c e) = entry_end e" "good_entry (combine c e)"
    using assms s(2) start
    by (simp_all add: combine_def good_entry_def sound_entry_def entry_end_def word_less_nat_alt)
  show "physicalAddress (combine c e) = physicalAddress c" by (simp add: combine_def)
qed

lemma good_seq_combine:
  "good_seq (c # e # es) \<Longrightarrow> combines c e \<Longrightarrow> good_seq (combine c e # es)"
  using combine_good [of c e] by (auto simp: good_seq_def)

lemma merge_from_starts:
  "e' \<in> set (merge_from c es) \<Longrightarrow> \<exists>e \<in> set (c # es). physicalAddress e' = physicalAddress e"
  by (induction c es rule: merge_from.induct) (auto simp: combine_def split: if_splits)

lemma merge_from_good: "good_seq (c # es) \<Longrightarrow> good_seq (merge_from c es)"
proof (induction c es rule: merge_from.induct)
  case (2 c e es)
  show ?case
  proof (cases "combines c e")
    case True
    with 2 good_seq_combine show ?thesis by simp
  next
    case False
    have "good_seq (merge_from e es)" using 2(2) [OF False] 2(3) by (auto simp: good_seq_def)
    moreover have "entry_end c \<le> unat (physicalAddress e')" if "e' \<in> set (merge_from e es)" for e'
      using merge_from_starts [OF that] 2(3) by (auto simp: good_seq_def)
    ultimately show ?thesis using False 2(3) by (auto simp: good_seq_def)
  qed
qed simp

text \<open>What memory the entries describe, with type, usage and flags.\<close>

definition maps :: "init_entry list \<Rightarrow> mem_type \<Rightarrow> mem_usage \<Rightarrow> u64 \<Rightarrow> nat \<Rightarrow> bool" where
  "maps es t u fl a \<longleftrightarrow> (\<exists>e \<in> set es. memoryType e = t \<and> usage e = u \<and> flags e = fl
     \<and> unat (physicalAddress e) \<le> a \<and> a < entry_end e)"

lemma maps_Cons: "maps (e # es) t u fl a \<longleftrightarrow> maps [e] t u fl a \<or> maps es t u fl a"
  by (auto simp: maps_def)

lemma maps_combine:
  assumes "good_entry c" "good_entry e" "combines c e"
  shows "maps [combine c e] t u fl a \<longleftrightarrow> maps [c, e] t u fl a"
proof -
  have "unat (physicalAddress e) = entry_end c"
    using assms unat_range_end_of [of c] by (simp add: combines_def good_entry_def)
  then show ?thesis
    using assms(3) good_entry_start [OF assms(1)] good_entry_start [OF assms(2)]
      combine_good [OF assms]
    by (auto simp: maps_def) (auto simp: combine_def combines_def)
qed

lemma merge_from_maps: "good_seq (c # es) \<Longrightarrow> maps (merge_from c es) t u fl a = maps (c # es) t u fl a"
proof (induction c es rule: merge_from.induct)
  case (2 c e es)
  show ?case
  proof (cases "combines c e")
    case True
    then have "maps (merge_from c (e # es)) t u fl a = maps (combine c e # es) t u fl a"
      using 2(1) [OF True good_seq_combine [OF 2(3) True]] by simp
    also have "\<dots> = maps (c # e # es) t u fl a"
      using maps_combine [of c e t u fl a] 2(3) True maps_Cons [of c "e # es"] maps_Cons [of e es]
        maps_Cons [of "combine c e" es] maps_Cons [of c "[e]"]
      by (auto simp: good_seq_def)
    finally show ?thesis .
  next
    case False
    then show ?thesis
      using 2(2) [OF False] 2(3) maps_Cons [of c "merge_from e es"] maps_Cons [of c "e # es"]
      by (auto simp: good_seq_def)
  qed
qed simp

lemma merge_from_head: "\<exists>e es'. merge_from c es = e # es' \<and> physicalAddress e = physicalAddress c
    \<and> memoryType e = memoryType c \<and> usage e = usage c \<and> flags e = flags c
    \<and> virtualAddress e = virtualAddress c"
  by (induction c es rule: merge_from.induct) (auto simp: combine_def)

lemma merge_from_maximal: "successively (\<lambda>e e'. \<not> combines e e') (merge_from c es)"
proof (induction c es rule: merge_from.induct)
  case (2 c e es)
  show ?case
  proof (cases "combines c e")
    case True
    with 2(1) show ?thesis by simp
  next
    case False
    obtain e0 es' where e0: "merge_from e es = e0 # es'" "physicalAddress e0 = physicalAddress e"
      "memoryType e0 = memoryType e" "usage e0 = usage e" "flags e0 = flags e"
      "virtualAddress e0 = virtualAddress e"
      using merge_from_head [of e es] by blast
    then have "\<not> combines c e0" using False by (simp add: combines_def)
    with 2(2) [OF False] e0(1) False show ?thesis by simp
  qed
qed simp

subsection \<open>The iteration ends and visits the merged entries\<close>

lemma entry_end_range: "sound_entry e \<Longrightarrow> range_end (entry_range e) = entry_end e"
  by (simp add: range_end_entry entry_end_def)

lemma sound_descs_good:
  assumes "sound_descs descs"
  shows "good_seq (map efi_entry (sorted_descs descs))" "set (sorted_descs descs) = set descs"
proof -
  show set: "set (sorted_descs descs) = set descs" by (simp add: sorted_descs_def)
  have good: "good_entry (efi_entry d)" if "d \<in> set descs" for d
    using assms that efi_entry_sound [of d]
    by (auto simp: sound_descs_def list_all_iff good_entry_def) (simp add: efi_entry_def)
  have "sorted_wrt (\<lambda>d d'. range_end (entry_range (efi_entry d)) \<le> unat (physicalAddress (efi_entry d')))
      (sorted_descs descs)"
    using assms by (simp add: sound_descs_def ascending_def sorted_wrt_map)
  then have "sorted_wrt (\<lambda>d d'. entry_end (efi_entry d) \<le> unat (physicalAddress (efi_entry d')))
      (sorted_descs descs)"
    using good set
    by (elim sorted_wrt_mono_rel [rotated]) (simp add: entry_end_range good_entry_def)
  then show "good_seq (map efi_entry (sorted_descs descs))"
    using good set by (auto simp: good_seq_def list_all_iff sorted_wrt_map)
qed

lemma efi_entry_phys [simp]: "physicalAddress (efi_entry d) = efi_PhysicalStart d"
  by (simp add: efi_entry_def)

lemma iter_efi_merge:
  assumes "set descs = set (pre @ ds)" "good_seq (c # map efi_entry ds)"
    "\<forall>d \<in> set pre. efi_PhysicalStart d < range_end_of c"
  shows "iter_efi descs f c True s = Some (fold f (merge_from c (map efi_entry ds)) s)"
  using assms
proof (induction ds arbitrary: pre c s)
  case Nil
  then have "fst (GetNextEfiMapEntry descs (range_end_of c)) = False" by (intro next_none) simp
  then show ?case by (subst iter_efi.simps) (simp add: split_beta)
next
  case (Cons d ds)
  let ?e = "efi_entry d"
  have good: "good_entry c" "good_entry ?e" using Cons.prems(2) by (simp_all add: good_seq_def)
  have ends: "unat (range_end_of c) = entry_end c" "unat (range_end_of ?e) = entry_end ?e"
    using good by (simp_all add: good_entry_def unat_range_end_of)
  have le: "range_end_of c \<le> efi_PhysicalStart d"
    using Cons.prems(2) by (simp add: good_seq_def word_le_nat_alt ends)
  have after: "efi_PhysicalStart d < efi_PhysicalStart d'" if "d' \<in> set ds" for d'
    using Cons.prems(2) that good_entry_start [OF good(2)]
    by (auto simp: good_seq_def word_less_nat_alt intro: less_le_trans)
  have getnext: "GetNextEfiMapEntry descs (range_end_of c) = (True, ?e)"
    using Cons.prems(1,3) le after by (intro next_found [of _ pre _ ds]) auto
  have pre: "\<forall>d' \<in> set (pre @ [d]). efi_PhysicalStart d' < range_end_of ?e"
    using Cons.prems(3) le good_entry_start [OF good(2)] ends
    by (auto simp: word_less_nat_alt word_le_nat_alt)
  have set: "set descs = set ((pre @ [d]) @ ds)" using Cons.prems(1) by auto
  show ?case
  proof (cases "combines c ?e")
    case True
    have "range_end_of (combine c ?e) = range_end_of ?e"
      using combine_good [OF good True] ends(2) unat_range_end_of [of "combine c ?e"]
      by (simp add: good_entry_def word_unat_eq_iff)
    then have "iter_efi descs f (combine c ?e) True s
        = Some (fold f (merge_from (combine c ?e) (map efi_entry ds)) s)"
      using Cons.IH [OF set] good_seq_combine [OF _ True] Cons.prems(2) pre by simp
    then show ?thesis using True by (subst iter_efi.simps) (simp add: getnext)
  next
    case False
    have "good_seq (?e # map efi_entry ds)" using Cons.prems(2) by (simp add: good_seq_def)
    from Cons.IH [OF set this pre, of "f c s"] show ?thesis
      using False by (subst iter_efi.simps) (simp add: getnext)
  qed
qed

lemma IterEfiMemMapAsInitMap_fold:
  assumes "sound_descs descs"
  shows "IterEfiMemMapAsInitMap descs f s = Some (fold f (efi_entries descs) s)"
proof -
  note good = sound_descs_good [OF assms]
  have zero: "range_end_of no_entry = 0" by (simp add: range_end_of_def no_entry_def)
  show ?thesis
  proof (cases "sorted_descs descs")
    case Nil
    then have "descs = []" using good(2) by simp
    then show ?thesis
      by (simp add: IterEfiMemMapAsInitMap_def iter_efi.simps GetNextEfiMapEntry_def efi_entries_def
          sorted_descs_def)
  next
    case (Cons d ds)
    have g: "good_seq (efi_entry d # map efi_entry ds)" using good(1) Cons by simp
    then have e: "good_entry (efi_entry d)" by (simp add: good_seq_def)
    have after: "efi_PhysicalStart d < efi_PhysicalStart d'" if "d' \<in> set ds" for d'
      using g that good_entry_start [OF e]
      by (auto simp: good_seq_def word_less_nat_alt intro: less_le_trans)
    have set: "set descs = set ([d] @ ds)" using good(2) Cons by simp
    have "GetNextEfiMapEntry descs 0 = (True, efi_entry d)"
      using set after by (intro next_found [of _ "[]" _ ds]) auto
    then have "IterEfiMemMapAsInitMap descs f s = iter_efi descs f (efi_entry d) True s"
      unfolding IterEfiMemMapAsInitMap_def by (subst iter_efi.simps) (simp add: zero)
    also have "\<dots> = Some (fold f (merge_from (efi_entry d) (map efi_entry ds)) s)"
      using good_entry_start [OF e] unat_range_end_of [of "efi_entry d"] e
      by (intro iter_efi_merge [OF set g]) (simp add: word_less_nat_alt good_entry_def)
    finally show ?thesis by (simp add: efi_entries_def Cons)
  qed
qed

text \<open>
  The iteration as the two clients (allocation and creation) use it: on a sound input it
  returns, and is a fold of the callback over the items.
\<close>

locale item_iter =
  fixes iter :: "'m \<Rightarrow> ('e \<Rightarrow> 's \<Rightarrow> 's) \<Rightarrow> 's \<Rightarrow> 's option"
    and items :: "'m \<Rightarrow> 'e list"
    and sound :: "'m \<Rightarrow> bool"
  assumes iter_fold: "sound m \<Longrightarrow> iter m f s = Some (fold f (items m) s)"
begin

lemma iter_returns: "sound m \<Longrightarrow> \<exists>s'. iter m f s = Some s'"
  by (simp add: iter_fold)

text \<open>An invariant of the items visited so far.\<close>

lemma iter_prefix:
  assumes "sound m" "I [] s"
    and "\<And>xs x ys s. items m = xs @ x # ys \<Longrightarrow> I xs s \<Longrightarrow> I (xs @ [x]) (f x s)"
  shows "\<exists>s'. iter m f s = Some s' \<and> I (items m) s'"
proof -
  have "items m = xs @ ys \<Longrightarrow> I xs (fold f xs s)" for xs ys
  proof (induction xs arbitrary: ys rule: rev_induct)
    case (snoc x xs)
    then show ?case using assms(3) [of xs x ys] by simp
  qed (simp add: assms(2))
  from this [of "items m" "[]"] show ?thesis by (simp add: iter_fold [OF assms(1)])
qed

end

interpretation efi_iter: item_iter IterEfiMemMapAsInitMap efi_entries sound_descs
  by unfold_locales (rule IterEfiMemMapAsInitMap_fold)

lemma efi_entries_good:
  assumes "sound_descs descs"
  shows "good_seq (efi_entries descs)"
proof (cases "map efi_entry (sorted_descs descs)")
  case Nil
  then show ?thesis by (simp add: efi_entries_def good_seq_def)
next
  case (Cons e es)
  then show ?thesis
    using merge_from_good [of e es] sound_descs_good(1) [OF assms] by (simp add: efi_entries_def)
qed

subsection \<open>Allocation\<close>

definition usable_entry :: "init_entry \<Rightarrow> bool" where
  "usable_entry e \<longleftrightarrow> memoryType e = TYPE_USABLE \<and> usage e = USAGE_MAPPED"

text \<open>The state of the allocation pass after the entries \<open>es\<close>.\<close>

definition alloc_inv :: "init_entry list \<Rightarrow> alloc_struct \<Rightarrow> bool" where
  "alloc_inv es a \<longleftrightarrow> al_numRegions a = of_nat (length es)
     \<and> (\<forall>e \<in> set es. usable_entry e \<longrightarrow> numPhysicalPages e \<le> al_numLargestUsableRegionPages a)
     \<and> (al_numLargestUsableRegionPages a = 0 \<or>
        (\<exists>b \<in> set es. usable_entry b \<and> numPhysicalPages b = al_numLargestUsableRegionPages a
           \<and> physicalAddress b = al_largestUsableRegionAddress a
           \<and> virtualAddress b = al_virtualAddress a))"

lemma alloc_inv_step: "alloc_inv es a \<Longrightarrow> alloc_inv (es @ [e]) (InitMemMapAllocCallback e a)"
  by (auto simp: alloc_inv_def InitMemMapAllocCallback_def Let_def usable_entry_def add.commute
    word_greater_zero_iff)

definition map_bytes :: "init_entry list \<Rightarrow> nat" where
  "map_bytes es = (length es + 1) * 40"

definition map_pages :: "init_entry list \<Rightarrow> nat" where
  "map_pages es = (map_bytes es + 4095) div 4096"

text \<open>A largest usable region, if one has room for the map.\<close>

definition map_home :: "init_entry list \<Rightarrow> init_entry \<Rightarrow> bool" where
  "map_home es b \<longleftrightarrow> b \<in> set es \<and> usable_entry b \<and> map_pages es \<le> unat (numPhysicalPages b)
     \<and> (\<forall>e \<in> set es. usable_entry e \<longrightarrow> numPhysicalPages e \<le> numPhysicalPages b)"

lemma map_words:
  assumes "length es < 2 ^ 50"
  shows "unat ((of_nat (length es) + 1) * 40 :: u64) = map_bytes es"
    "unat (pages_for ((of_nat (length es) + 1) * 40)) = map_pages es"
proof -
  have l: "unat (of_nat (length es) + 1 :: u64) = length es + 1"
    using assms unat_u64_of_nat [of "length es + 1"] by (simp add: add.commute)
  show *: "unat ((of_nat (length es) + 1) * 40 :: u64) = map_bytes es"
    using assms by (subst unat_u64_mult) (simp_all add: l map_bytes_def)
  let ?x = "(of_nat (length es) + 1) * 40 :: u64"
  have "unat (?x + 4095) = map_bytes es + 4095"
    using assms by (subst unat_u64_plus) (simp_all only: *, simp_all add: map_bytes_def)
  then have "unat (?x + 4096 - 1) = map_bytes es + 4095" by (simp add: add_diff_eq [symmetric])
  then show "unat (pages_for ?x) = map_pages es"
    unfolding pages_for_def map_pages_def unat_u64_div by simp
qed

lemma AllocInitMemMapMemory_home:
  assumes "sound_descs descs" "length (efi_entries descs) < 2 ^ 50"
  defines "es \<equiv> efi_entries descs"
  shows "(\<exists>b. map_home es b \<and> AllocInitMemMapMemory descs =
      Some (Some (physicalAddress b, virtualAddress b, (of_nat (length es) + 1) * 40)))
    \<or> (\<forall>b. \<not> map_home es b) \<and> AllocInitMemMapMemory descs = Some None"
proof -
  let ?a = "\<lparr>al_numRegions = 0, al_largestUsableRegionAddress = 0, al_virtualAddress = 0,
    al_numLargestUsableRegionPages = 0\<rparr>"
  have "alloc_inv [] ?a" by (simp add: alloc_inv_def)
  from efi_iter.iter_prefix [where I = alloc_inv and f = InitMemMapAllocCallback, OF assms(1) this
      alloc_inv_step] obtain a where
    a: "IterEfiMemMapAsInitMap descs InitMemMapAllocCallback ?a = Some a" "alloc_inv es a"
    unfolding es_def by blast
  note words = map_words [OF assms(2), folded es_def]
  have regions: "al_numRegions a = of_nat (length es)" using a(2) by (simp add: alloc_inv_def)
  have pages: "0 < map_pages es" by (simp add: map_pages_def map_bytes_def)
  show ?thesis
  proof (cases "pages_for ((of_nat (length es) + 1) * 40) \<le> al_numLargestUsableRegionPages a")
    case True
    then have "map_pages es \<le> unat (al_numLargestUsableRegionPages a)"
      by (simp only: word_le_nat_alt words(2))
    moreover from this pages have "al_numLargestUsableRegionPages a \<noteq> 0" by auto
    moreover from this a(2) obtain b where b: "b \<in> set es" "usable_entry b"
      "numPhysicalPages b = al_numLargestUsableRegionPages a"
      "physicalAddress b = al_largestUsableRegionAddress a" "virtualAddress b = al_virtualAddress a"
      unfolding alloc_inv_def by blast
    ultimately have "map_home es b" using a(2) by (simp add: alloc_inv_def map_home_def)
    with b(4,5) True a(1) regions show ?thesis by (auto simp: AllocInitMemMapMemory_def)
  next
    case False
    have "\<not> map_home es b" for b
      using False a(2) words(2) by (auto simp: alloc_inv_def map_home_def word_le_nat_alt)
    with False a(1) regions show ?thesis by (auto simp: AllocInitMemMapMemory_def)
  qed
qed

subsection \<open>Creation\<close>

text \<open>The entry that holds the map itself is split: the map's pages, and the rest.\<close>

definition split_entry :: "u64 \<Rightarrow> u64 \<Rightarrow> init_entry \<Rightarrow> init_entry list" where
  "split_entry home n e =
     (if physicalAddress e = home
      then e\<lparr>usage := USAGE_INITIAL_MEMMAP, numPhysicalPages := n\<rparr> #
        (if numPhysicalPages e = n then []
         else [e\<lparr>physicalAddress := physicalAddress e + n * PAGE_SIZE,
                 virtualAddress := virtualAddress e + n * PAGE_SIZE,
                 numPhysicalPages := numPhysicalPages e - n\<rparr>])
      else [e])"

definition split_entries :: "u64 \<Rightarrow> u64 \<Rightarrow> init_entry list \<Rightarrow> init_entry list" where
  "split_entries home n es = concat (map (split_entry home n) es)"

lemma split_entries_simps [simp]: "split_entries home n [] = []"
  "split_entries home n (es @ es') = split_entries home n es @ split_entries home n es'"
  "split_entries home n (e # es) = split_entry home n e @ split_entries home n es"
  by (simp_all add: split_entries_def)

lemma split_entry_other: "physicalAddress e \<noteq> home \<Longrightarrow> split_entry home n e = [e]"
  by (simp add: split_entry_def)

lemma length_split_entry: "length (split_entry home n e) \<le> 2"
  by (simp add: split_entry_def)

lemma split_entries_others:
  "\<forall>e \<in> set es. physicalAddress e \<noteq> home \<Longrightarrow> split_entries home n es = es"
  by (induction es) (simp_all add: split_entry_other)

text \<open>Start addresses are different in a good sequence.\<close>

lemma good_seq_distinct:
  assumes "good_seq (xs @ e # ys)" "e' \<in> set xs \<union> set ys"
  shows "physicalAddress e' \<noteq> physicalAddress e"
proof
  assume eq: "physicalAddress e' = physicalAddress e"
  have "good_entry e" "good_entry e'" using assms by (auto simp: good_seq_def list_all_iff)
  moreover have "entry_end e' \<le> unat (physicalAddress e) \<or> entry_end e \<le> unat (physicalAddress e')"
    using assms by (auto simp: good_seq_def sorted_wrt_append)
  ultimately show False using good_entry_start [of e] good_entry_start [of e'] eq by auto
qed

lemma length_split_entries:
  "good_seq es \<Longrightarrow> length (split_entries home n es) \<le> length es + (if \<exists>e \<in> set es. physicalAddress e = home then 1 else 0)"
proof (cases "\<exists>e \<in> set es. physicalAddress e = home")
  case True
  assume good: "good_seq es"
  from True obtain xs e ys where es: "es = xs @ e # ys" "physicalAddress e = home" by (metis split_list)
  have "split_entries home n xs = xs" "split_entries home n ys = ys"
    using good_seq_distinct [of xs e ys] good es by (auto intro!: split_entries_others)
  then show ?thesis using True length_split_entry [of home n e] by (simp add: es)
next
  case False
  then show ?thesis by (simp add: split_entries_others)
qed

text \<open>The state of the creation pass after the entries \<open>es\<close>, with the map's home \<open>h\<close>.\<close>

definition create_done ::
  "(u64 \<Rightarrow> init_entry) \<Rightarrow> nat \<Rightarrow> u64 \<Rightarrow> u64 \<Rightarrow> init_entry list \<Rightarrow> creation_struct \<Rightarrow> bool" where
  "create_done buffer N h n es c \<longleftrightarrow>
     cs_entries c = array_of (split_entries h n es) buffer
     \<and> cs_numEntries c = of_nat (length (split_entries h n es))
     \<and> cs_availableSize c = (of_nat N + 1) * INIT_ENTRY_SIZE
     \<and> cs_initMapPhysAddress c = h \<and> cs_numInitMapPages c = n \<and> cs_success c"

lemma has_room:
  assumes "cs_numEntries c = of_nat k" "cs_availableSize c = (of_nat N + 1) * INIT_ENTRY_SIZE"
    "k \<le> N" "N < 2 ^ 50"
  shows "\<not> no_room c"
proof -
  have "unat (of_nat k * 40 :: u64) = k * 40"
    using assms(3,4) by (subst unat_u64_mult) (simp_all add: unat_u64_of_nat)
  moreover have "unat (of_nat N + 1 :: u64) = N + 1"
    using assms(4) unat_u64_of_nat [of "N + 1"] by (simp add: add.commute)
  then have "unat ((of_nat N + 1) * 40 :: u64) = (N + 1) * 40"
    using assms(4) by (subst unat_u64_mult) simp_all
  ultimately show ?thesis
    using assms(3) by (simp add: no_room_def assms(1,2) word_le_nat_alt)
qed

lemma create_done_step:
  assumes es: "efi = xs @ e # ys" and good: "good_seq efi" and N: "N = length efi" "N < 2 ^ 50"
    and inv: "create_done buffer N h n xs c"
  shows "create_done buffer N h n (xs @ [e]) (FillInitMemMapEntry e c)"
proof -
  let ?L = "split_entries h n xs"
  have c: "cs_entries c = array_of ?L buffer" "cs_numEntries c = of_nat (length ?L)"
    "cs_availableSize c = (of_nat N + 1) * INIT_ENTRY_SIZE" "cs_initMapPhysAddress c = h"
    "cs_numInitMapPages c = n" "cs_success c"
    using inv by (simp_all add: create_done_def)
  have goodx: "good_seq xs" using good es by (auto simp: good_seq_def sorted_wrt_append)
  have lenx: "length xs < N" using es N(1) by simp
  have put: "cs_entries (put_entry x c') = array_of (L @ [x]) buffer"
    "cs_numEntries (put_entry x c') = of_nat (length (L @ [x]))"
    if "cs_entries c' = array_of L buffer" "cs_numEntries c' = of_nat (length L)" "length L \<le> N"
    for x c' and L :: "init_entry list"
    using that array_of_snoc [of L buffer x] N(2) by (simp_all add: put_entry_def add.commute)
  have len: "length ?L \<le> length xs + (if \<exists>e \<in> set xs. physicalAddress e = h then 1 else 0)"
    by (rule length_split_entries [OF goodx])
  then have L: "length ?L \<le> N" using lenx by (simp split: if_splits)
  note room = has_room [OF c(2,3) L N(2)]
  show ?thesis
  proof (cases "physicalAddress e = h")
    case False
    then show ?thesis
      using put [OF c(1,2) L, of e] c room
      by (simp add: create_done_def FillInitMemMapEntry_def Let_def split_entry_other put_entry_def)
  next
    case True
    have "\<forall>e' \<in> set xs. physicalAddress e' \<noteq> h"
      using good_seq_distinct [of xs e ys] good es True by auto
    then have "length ?L = length xs" by (simp add: split_entries_others)
    then have L1: "length (?L @ [x]) \<le> N" for x using lenx by simp
    let ?e1 = "e\<lparr>usage := USAGE_INITIAL_MEMMAP, numPhysicalPages := n\<rparr>"
    let ?c1 = "put_entry ?e1 c"
    have room1: "\<not> no_room ?c1"
      by (rule has_room [OF put(2) [OF c(1,2) L] _ L1 N(2)]) (simp add: put_entry_def c)
    show ?thesis
    proof (cases "numPhysicalPages e = n")
      case pages: True
      then show ?thesis
        using put [OF c(1,2) L, of ?e1] c room True
        by (simp add: create_done_def FillInitMemMapEntry_def Let_def split_entry_def put_entry_def)
    next
      case pages: False
      let ?e2 = "e\<lparr>physicalAddress := physicalAddress e + n * PAGE_SIZE,
        virtualAddress := virtualAddress e + n * PAGE_SIZE,
        numPhysicalPages := numPhysicalPages e - n\<rparr>"
      have "FillInitMemMapEntry e c = put_entry ?e2 ?c1"
        using True pages room room1 by (simp add: FillInitMemMapEntry_def Let_def c)
      moreover have "split_entries h n (xs @ [e]) = (?L @ [?e1]) @ [?e2]"
        using True pages by (simp add: split_entry_def)
      moreover have "cs_availableSize (put_entry ?e2 ?c1) = cs_availableSize c"
        "cs_initMapPhysAddress (put_entry ?e2 ?c1) = cs_initMapPhysAddress c"
        "cs_numInitMapPages (put_entry ?e2 ?c1) = cs_numInitMapPages c"
        "cs_success (put_entry ?e2 ?c1) = cs_success c"
        by (simp_all add: put_entry_def)
      ultimately show ?thesis
        using put [OF put [OF c(1,2) L, of ?e1] L1, of ?e2] c by (simp add: create_done_def)
    qed
  qed
qed

lemma CreateInitMemMap_split:
  fixes h :: u64
  assumes "sound_descs descs" "length (efi_entries descs) < 2 ^ 50"
  defines "es \<equiv> efi_entries descs"
  defines "L \<equiv> split_entries h (pages_for ((of_nat (length es) + 1) * 40)) es"
  shows "CreateInitMemMap descs h virt ((of_nat (length es) + 1) * 40) buffer =
    Some (True, \<lparr>im_pEntries = virt, im_entries = array_of L buffer, im_numEntries = of_nat (length L)\<rparr>)"
proof -
  let ?n = "pages_for ((of_nat (length es) + 1) * 40)"
  let ?c = "\<lparr>cs_entries = buffer, cs_numEntries = 0, cs_availableSize = (of_nat (length es) + 1) * 40,
    cs_initMapPhysAddress = h, cs_initMapVirtAddress = virt, cs_numInitMapPages = ?n, cs_success = True\<rparr>"
  have init: "create_done buffer (length es) h ?n [] ?c" by (simp add: create_done_def)
  have good: "good_seq es" unfolding es_def by (rule efi_entries_good [OF assms(1)])
  have "\<exists>c. IterEfiMemMapAsInitMap descs FillInitMemMapEntry ?c = Some c
      \<and> create_done buffer (length es) h ?n (efi_entries descs) c"
  proof (rule efi_iter.iter_prefix [where I = "create_done buffer (length es) h ?n", OF assms(1) init])
    fix xs x ys s
    assume "efi_entries descs = xs @ x # ys" "create_done buffer (length es) h ?n xs s"
    then show "create_done buffer (length es) h ?n (xs @ [x]) (FillInitMemMapEntry x s)"
      using create_done_step [OF _ good refl, of xs x ys] assms(2) by (simp add: es_def)
  qed
  then show ?thesis
    by (auto simp: CreateInitMemMap_def create_done_def L_def es_def)
qed

subsection \<open>The created map\<close>

lemma split_entry_pages:
  assumes "good_entry b" "n \<le> numPhysicalPages b"
  shows "unat (physicalAddress b + n * 4096) = unat (physicalAddress b) + unat n * 4096"
    "unat (numPhysicalPages b - n) = unat (numPhysicalPages b) - unat n"
proof -
  have n: "unat n \<le> unat (numPhysicalPages b)" using assms(2) by (simp add: word_le_nat_alt)
  have s: "unat (physicalAddress b) + unat (numPhysicalPages b) * 4096 < 18446744073709551616"
    using assms(1) by (simp add: good_entry_def sound_entry_def)
  have un: "unat (n * 4096) = unat n * 4096"
    using s n by (intro unat_pages [of "physicalAddress b"]) linarith
  show "unat (physicalAddress b + n * 4096) = unat (physicalAddress b) + unat n * 4096"
  proof -
    have "unat (physicalAddress b) + unat (n * 4096) < 18446744073709551616"
      unfolding un using s n by linarith
    then show ?thesis by (simp add: unat_u64_plus un)
  qed
  show "unat (numPhysicalPages b - n) = unat (numPhysicalPages b) - unat n"
    using assms(2) by (rule unat_u64_minus)
qed

lemma split_entry_good:
  assumes "good_entry b" "0 < n" "n \<le> numPhysicalPages b" "e \<in> set (split_entry (physicalAddress b) n b)"
  shows "good_entry e" "unat (physicalAddress b) \<le> unat (physicalAddress e)" "entry_end e \<le> entry_end b"
proof -
  have s: "unat (physicalAddress b) + unat (numPhysicalPages b) * 4096 < 18446744073709551616"
      "virtualAddress b = physicalAddress b"
    using assms(1) by (simp_all add: good_entry_def sound_entry_def)
  have n: "unat n \<le> unat (numPhysicalPages b)" using assms(3) by (simp add: word_le_nat_alt)
  note shift = split_entry_pages(1) [OF assms(1,3)] and rest = split_entry_pages(2) [OF assms(1,3)]
  have total: "unat n * 4096 + (unat (numPhysicalPages b) - unat n) * 4096 = unat (numPhysicalPages b) * 4096"
    using n by (simp add: diff_mult_distrib)
  consider "e = b\<lparr>usage := USAGE_INITIAL_MEMMAP, numPhysicalPages := n\<rparr>"
    | "e = b\<lparr>physicalAddress := physicalAddress b + n * PAGE_SIZE,
        virtualAddress := virtualAddress b + n * PAGE_SIZE,
        numPhysicalPages := numPhysicalPages b - n\<rparr>" "numPhysicalPages b \<noteq> n"
    using assms(4) by (auto simp: split_entry_def split: if_splits)
  then have "good_entry e \<and> unat (physicalAddress b) \<le> unat (physicalAddress e) \<and> entry_end e \<le> entry_end b"
  proof cases
    case 1
    then show ?thesis
      using s n assms(2) by (simp add: good_entry_def sound_entry_def entry_end_def)
  next
    case 2
    have "0 < numPhysicalPages b - n"
      using 2(2) n rest by (simp add: word_less_nat_alt word_unat_eq_iff)
    then show ?thesis
      using 2(1) s total shift rest by (simp add: good_entry_def sound_entry_def entry_end_def)
  qed
  then show "good_entry e" "unat (physicalAddress b) \<le> unat (physicalAddress e)" "entry_end e \<le> entry_end b"
    by blast+
qed

lemma split_entries_good:
  assumes good: "good_seq es" and b: "b \<in> set es" and n: "0 < n" "n \<le> numPhysicalPages b"
  shows "good_seq (split_entries (physicalAddress b) n es)"
    "maps (split_entries (physicalAddress b) n es) t u fl a \<longleftrightarrow>
      (if unat (physicalAddress b) \<le> a \<and> a < unat (physicalAddress b) + unat n * 4096
       then memoryType b = t \<and> u = USAGE_INITIAL_MEMMAP \<and> flags b = fl else maps es t u fl a)"
proof -
  from b obtain xs ys where es: "es = xs @ b # ys" by (metis split_list)
  let ?S = "split_entry (physicalAddress b) n b"
  have split: "split_entries (physicalAddress b) n es = xs @ ?S @ ys"
    using good_seq_distinct [of xs b ys] good es by (simp add: split_entries_others)
  have gb: "good_entry b" using good es by (simp add: good_seq_def)
  note S = split_entry_good [OF gb n]
  note shift = split_entry_pages [OF gb n(2)]
  have nb: "unat n \<le> unat (numPhysicalPages b)" using n(2) by (simp add: word_le_nat_alt)
  have own: "sorted_wrt (\<lambda>e e'. entry_end e \<le> unat (physicalAddress e')) ?S"
    using shift by (simp add: split_entry_def entry_end_def)
  have left: "entry_end e \<le> unat (physicalAddress b)" if "e \<in> set xs" for e
    using good that by (simp add: es good_seq_def sorted_wrt_append)
  have right: "entry_end b \<le> unat (physicalAddress e)" if "e \<in> set ys" for e
    using good that by (simp add: es good_seq_def sorted_wrt_append)
  show "good_seq (split_entries (physicalAddress b) n es)"
    using good S own left right unfolding split
    by (fastforce simp: es good_seq_def sorted_wrt_append list_all_iff intro: order_trans)
  have outside: "\<not> maps xs t u fl a \<and> \<not> maps ys t u fl a"
    if "unat (physicalAddress b) \<le> a" "a < entry_end b"
    using left right that by (fastforce simp: maps_def)
  have app: "maps (xs @ zs @ ys) t u fl a \<longleftrightarrow> maps xs t u fl a \<or> maps zs t u fl a \<or> maps ys t u fl a" for zs
    by (auto simp: maps_def)
  have end_b: "entry_end b = unat (physicalAddress b) + unat (numPhysicalPages b) * 4096"
    by (simp add: entry_end_def)
  have mapS: "maps ?S t u fl a \<longleftrightarrow>
      (if unat (physicalAddress b) \<le> a \<and> a < unat (physicalAddress b) + unat n * 4096
       then memoryType b = t \<and> u = USAGE_INITIAL_MEMMAP \<and> flags b = fl else maps [b] t u fl a)"
  proof (cases "numPhysicalPages b = n")
    case True
    then show ?thesis by (auto simp: maps_def split_entry_def entry_end_def)
  next
    case False
    then show ?thesis
      using shift nb by (auto simp: maps_def split_entry_def entry_end_def diff_mult_distrib)
  qed
  show "maps (split_entries (physicalAddress b) n es) t u fl a \<longleftrightarrow>
      (if unat (physicalAddress b) \<le> a \<and> a < unat (physicalAddress b) + unat n * 4096
       then memoryType b = t \<and> u = USAGE_INITIAL_MEMMAP \<and> flags b = fl else maps es t u fl a)"
    unfolding split app mapS using outside nb app [of "[b]"] by (auto simp: es end_b)
qed

lemma efi_entries_maps:
  assumes "sound_descs descs"
  shows "maps (efi_entries descs) t u fl a = maps (map efi_entry descs) t u fl a"
proof -
  have "maps (efi_entries descs) t u fl a = maps (map efi_entry (sorted_descs descs)) t u fl a"
  proof (cases "map efi_entry (sorted_descs descs)")
    case (Cons e es)
    then show ?thesis
      using merge_from_maps [of e es] sound_descs_good(1) [OF assms] by (simp add: efi_entries_def)
  qed (simp add: efi_entries_def)
  also have "\<dots> = maps (map efi_entry descs) t u fl a"
    by (simp add: maps_def sorted_descs_def)
  finally show ?thesis .
qed

lemma length_merge_from: "length (merge_from c es) \<le> Suc (length es)"
  by (induction c es rule: merge_from.induct) auto

lemma length_efi_entries: "length (efi_entries descs) \<le> length descs"
proof (cases "map efi_entry (sorted_descs descs)")
  case Nil
  then show ?thesis by (simp add: efi_entries_def)
next
  case (Cons e es)
  then have "length (sorted_descs descs) = Suc (length es)" by (metis length_Cons length_map)
  with Cons show ?thesis
    using length_merge_from [of e es] by (simp add: efi_entries_def sorted_descs_def)
qed

subsection \<open>Properties\<close>

text \<open>
  C17: In whatever order the firmware lists its regions, as long as they do not overlap and
  none is empty, the iteration over them ends; the callback sees each entry of an ascending,
  non-overlapping, identity-mapped list once and in order, and this list describes exactly
  the memory of the descriptors, in maximal pieces.
\<close>

theorem IterEfiMemMapAsInitMap_correct:
  assumes "sound_descs descs"
  shows "IterEfiMemMapAsInitMap descs f s = Some (fold f (efi_entries descs) s)
    \<and> good_seq (efi_entries descs)
    \<and> successively (\<lambda>e e'. \<not> combines e e') (efi_entries descs)
    \<and> maps (efi_entries descs) t u fl a = maps (map efi_entry descs) t u fl a"
proof -
  have "successively (\<lambda>e e'. \<not> combines e e') (efi_entries descs)"
    using merge_from_maximal
    by (cases "map efi_entry (sorted_descs descs)") (simp_all add: efi_entries_def)
  then show ?thesis
    by (simp add: efi_iter.iter_fold [OF assms] efi_entries_good [OF assms] efi_entries_maps [OF assms])
qed

text \<open>
  The initial memory map is created exactly when some usable region has room for it
  (an entry for each region, and one more); then it lies at the start of a largest such
  region, its entries fit in the pages set aside, ascend without overlap, and describe the
  memory of the firmware's map, except that the map's own pages are marked as such.
\<close>

theorem CreateInitialMemMapFromEfi_correct:
  assumes "sound_descs descs" "length descs < 2 ^ 50"
  shows "(\<exists>b L. map_home (efi_entries descs) b
      \<and> CreateInitialMemMapFromEfi descs buffer m = Some (True, \<lparr>im_pEntries = virtualAddress b,
          im_entries = array_of L buffer, im_numEntries = of_nat (length L)\<rparr>)
      \<and> good_seq L \<and> length L * 40 \<le> map_bytes (efi_entries descs)
      \<and> map_bytes (efi_entries descs) \<le> map_pages (efi_entries descs) * 4096
      \<and> (\<forall>t u fl a. maps L t u fl a \<longleftrightarrow>
          (if unat (physicalAddress b) \<le> a
              \<and> a < unat (physicalAddress b) + map_pages (efi_entries descs) * 4096
           then t = TYPE_USABLE \<and> u = USAGE_INITIAL_MEMMAP \<and> fl = flags b
           else maps (map efi_entry descs) t u fl a)))
    \<or> (\<forall>b. \<not> map_home (efi_entries descs) b)
      \<and> CreateInitialMemMapFromEfi descs buffer m = Some (False, m)"
proof -
  let ?es = "efi_entries descs"
  have len: "length ?es < 2 ^ 50" using length_efi_entries [of descs] assms(2) by linarith
  show ?thesis
    using AllocInitMemMapMemory_home [OF assms(1) len]
  proof (elim disjE exE conjE)
    fix b assume b: "map_home ?es b" and alloc: "AllocInitMemMapMemory descs =
      Some (Some (physicalAddress b, virtualAddress b, (of_nat (length ?es) + 1) * 40))"
    let ?n = "pages_for ((of_nat (length ?es) + 1) * 40)"
    let ?L = "split_entries (physicalAddress b) ?n ?es"
    have n: "unat ?n = map_pages ?es" by (rule map_words(2) [OF len])
    have good: "good_seq ?es" by (rule efi_entries_good [OF assms(1)])
    have bin: "b \<in> set ?es" "memoryType b = TYPE_USABLE" "?n \<le> numPhysicalPages b" "0 < ?n"
      using b n by (simp_all add: map_home_def usable_entry_def word_le_nat_alt word_less_nat_alt
          map_pages_def map_bytes_def)
    have "CreateInitialMemMapFromEfi descs buffer m = Some (True, \<lparr>im_pEntries = virtualAddress b,
        im_entries = array_of ?L buffer, im_numEntries = of_nat (length ?L)\<rparr>)"
      using CreateInitMemMap_split [OF assms(1) len] alloc by (simp add: CreateInitialMemMapFromEfi_def)
    moreover have "length ?L * 40 \<le> map_bytes ?es"
      using length_split_entries [OF good, of "physicalAddress b" ?n] by (auto simp: map_bytes_def split: if_splits)
    moreover have "map_bytes ?es \<le> map_pages ?es * 4096"
      unfolding map_pages_def using div_mult_mod_eq [of "map_bytes ?es + 4095" 4096]
        mod_less_divisor [of 4096 "map_bytes ?es + 4095"] by linarith
    moreover have "good_seq ?L" by (rule split_entries_good(1) [OF good bin(1,4,3)])
    moreover have "maps ?L t u fl a \<longleftrightarrow>
        (if unat (physicalAddress b) \<le> a \<and> a < unat (physicalAddress b) + map_pages ?es * 4096
         then t = TYPE_USABLE \<and> u = USAGE_INITIAL_MEMMAP \<and> fl = flags b
         else maps (map efi_entry descs) t u fl a)" for t u fl a
      unfolding split_entries_good(2) [OF good bin(1,4,3)] n bin(2) efi_entries_maps [OF assms(1)]
      by auto
    ultimately show ?thesis using b by blast
  next
    assume "\<forall>b. \<not> map_home ?es b" "AllocInitMemMapMemory descs = Some None"
    then show ?thesis by (simp add: CreateInitialMemMapFromEfi_def)
  qed
qed

text \<open>Which EFI attribute bit each flag bit is taken from, from flag bit 0 on.\<close>

definition flag_source :: "nat list" where
  "flag_source = [0, 1, 2, 3, 4, 12, 13, 14, 15, 16, 17, 18, 19, 63, 62]"

lemma and_exp_eq_iff: "(a :: u64) AND 2 ^ i = 2 ^ i \<longleftrightarrow> bit a i" if "i < 64"
proof
  assume "a AND 2 ^ i = 2 ^ i"
  then have "bit (a AND 2 ^ i) i" using that by (simp add: bit_exp_iff)
  then show "bit a i" by (simp add: bit_and_iff)
next
  assume "bit a i"
  then show "a AND 2 ^ i = 2 ^ i" by (intro bit_word_eqI) (auto simp: bit_and_iff bit_exp_iff)
qed

text \<open>One step of the translation, by bit positions.\<close>

definition flag_step :: "u64 \<Rightarrow> nat \<Rightarrow> nat \<Rightarrow> u64 \<Rightarrow> u64" where
  "flag_step a i j = attr_flag a (2 ^ i) (2 ^ j)"

lemma bit_flag_step:
  "i < 64 \<Longrightarrow> j < 64 \<Longrightarrow> bit (flag_step a i j r) n \<longleftrightarrow> bit r n \<or> n = j \<and> bit a i"
  by (auto simp: flag_step_def attr_flag_def and_exp_eq_iff bit_or_iff bit_exp_iff)

definition flag_steps :: "u64 \<Rightarrow> u64" where
  "flag_steps a = flag_step a 19 12 (flag_step a 18 11 (flag_step a 16 9 (flag_step a 63 13
     (flag_step a 15 8 (flag_step a 17 10 (flag_step a 14 7 (flag_step a 13 6 (flag_step a 12 5
     (flag_step a 4 4 (flag_step a 3 3 (flag_step a 2 2 (flag_step a 1 1 (flag_step a 0 0 0)))))))))))))"

definition isa_bits :: "u64 \<Rightarrow> u64" where
  "isa_bits a = 2 ^ 14 OR (a AND push_bit 44 (mask 16))"

lemma bit_isa_bits: "bit (isa_bits a) n \<longleftrightarrow> n = 14 \<or> 44 \<le> n \<and> n < 60 \<and> bit a n"
  unfolding isa_bits_def bit_or_iff bit_exp_iff by (auto simp: bit_and_iff bit_push_bit_iff bit_mask_iff)

lemma attr_flags_steps:
  "ToDexprOSAttributeFlags a = (if bit a 62 then flag_steps a OR isa_bits a else flag_steps a)"
proof -
  have "a AND 0x4000000000000000 = 0x4000000000000000 \<longleftrightarrow> bit a 62"
    using and_exp_eq_iff [of 62 a] by simp
  then show ?thesis
    by (simp add: ToDexprOSAttributeFlags_def flag_steps_def flag_step_def Let_def isa_bits_def or.assoc
        push_bit_eq_mult mask_eq_exp_minus_1)
qed

lemma bit_flag_steps: "bit (flag_steps a) n \<longleftrightarrow> n < 14 \<and> bit a (flag_source ! n)"
proof (cases "n < 14")
  case True
  have "\<forall>n \<in> set [0..<14]. bit (flag_steps a) n \<longleftrightarrow> bit a (flag_source ! n)"
    by (simp add: upt_rec flag_steps_def bit_flag_step flag_source_def)
  with True show ?thesis by simp
next
  case False
  then show ?thesis by (auto simp: flag_steps_def bit_flag_step)
qed

text \<open>
  The translated flags lose no memory attribute and invent none: flag bits 0 to 14
  are the EFI attribute bits of the table, one each, and bits 44 to 59 are the EFI bits of
  the same position when the ISA bits are valid; every other bit is 0.
\<close>

theorem ToDexprOSAttributeFlags_bits:
  "bit (ToDexprOSAttributeFlags a) n \<longleftrightarrow>
     (n < 15 \<and> bit a (flag_source ! n)) \<or> (44 \<le> n \<and> n < 60 \<and> bit a 62 \<and> bit a n)"
proof -
  have "n < 15 \<longleftrightarrow> n < 14 \<or> n = 14" "flag_source ! 14 = 62" by (auto simp: flag_source_def)
  then show ?thesis
    unfolding attr_flags_steps by (cases "bit a 62") (auto simp: bit_flag_steps bit_isa_bits bit_or_iff)
qed

subsection \<open>A firmware map\<close>

text \<open>Three regions out of order; the last two adjoin each other once sorted.\<close>

definition sample_descs :: "efi_desc list" where
  "sample_descs =
    [\<lparr>efi_Type = 7, efi_PhysicalStart = 0x4000, efi_VirtualStart = 0, efi_NumberOfPages = 4,
      efi_Attribute = 0xF\<rparr>,
     \<lparr>efi_Type = 2, efi_PhysicalStart = 0x1000, efi_VirtualStart = 0, efi_NumberOfPages = 2,
      efi_Attribute = 0xF\<rparr>,
     \<lparr>efi_Type = 7, efi_PhysicalStart = 0x8000, efi_VirtualStart = 0, efi_NumberOfPages = 1,
      efi_Attribute = 0xF\<rparr>]"

lemma sample_sorted: "sorted_descs sample_descs = [sample_descs ! 1, sample_descs ! 0, sample_descs ! 2]"
  by (simp add: sorted_descs_def sample_descs_def)

lemma sample_sound_descs: "sound_descs sample_descs"
  unfolding sound_descs_def sample_sorted
  by (simp add: sample_descs_def sound_desc_def ascending_def range_start_def range_end_def
      entry_range_def efi_entry_def)

lemma sample_efi_entries: "efi_entries sample_descs =
    [\<lparr>memoryType = TYPE_USABLE, usage = USAGE_KERNEL_DATA, flags = 0xF, physicalAddress = 0x1000,
       virtualAddress = 0x1000, numPhysicalPages = 2\<rparr>,
     \<lparr>memoryType = TYPE_USABLE, usage = USAGE_MAPPED, flags = 0xF, physicalAddress = 0x4000,
       virtualAddress = 0x4000, numPhysicalPages = 5\<rparr>]"
  unfolding efi_entries_def sample_sorted
  by (simp add: sample_descs_def efi_entry_def combines_def combine_def range_end_of_def
      ToDexprOSMemType_def ToDexprOSInitialMemMapUsage_def ToDexprOSAttributeFlags_def attr_flag_def)

lemma IterEfiMemMapAsInitMap_correct_witness:
  "IterEfiMemMapAsInitMap sample_descs (\<lambda>e n. n + numPhysicalPages e) 0 = Some 7"
  using IterEfiMemMapAsInitMap_correct [OF sample_sound_descs, of "\<lambda>e n. n + numPhysicalPages e" 0]
  by (simp add: sample_efi_entries)

lemma sample_length: "length sample_descs < 2 ^ 50"
  by (simp add: sample_descs_def)

lemma sample_home: "map_home (efi_entries sample_descs) b \<longleftrightarrow> b = efi_entries sample_descs ! 1"
  by (auto simp: sample_efi_entries map_home_def usable_entry_def map_pages_def map_bytes_def)

lemma CreateInitialMemMapFromEfi_correct_witness:
  "\<forall>buffer m. \<exists>m'. CreateInitialMemMapFromEfi sample_descs buffer m = Some (True, m')
    \<and> im_pEntries m' = 0x4000"
proof (intro allI)
  fix buffer m
  show "\<exists>m'. CreateInitialMemMapFromEfi sample_descs buffer m = Some (True, m') \<and> im_pEntries m' = 0x4000"
    using CreateInitialMemMapFromEfi_correct [OF sample_sound_descs sample_length, of buffer m]
    unfolding sample_home by (auto simp: sample_efi_entries)
qed

end
