(* ===== verification/PageMap.thy ===== *)
theory PageMap
  imports EfiMemMap
begin

text \<open>
  The initial page maps of the boot loader (src/src/Boot/x86_64-efi/InitialPageMapSetup.c):
  the size of the buffer for the tables, and the tables that map the firmware's memory
  to itself.

  \<^item> The entries of the tables are 64-bit words at addresses that are multiples of 8;
    \<open>entries\<close> maps the address of an entry to it. A pointer to an entry is its
    address, so \<open>pTable + i\<close> of C is \<open>pTable + 8 * i\<close>.
  \<^item> The state of the functions that prepare tables is the entries and the pointer
    \<open>*ppNextAvailableTableSpace\<close>; their result is the returned boolean with the state.
    The outer option is \<open>None\<close> when a loop does not end.
  \<^item> The functions of the levels 2 to 4 differ in their constants and in the function
    of the level below. What they share, the search for a table behind an entry and
    the loop over the ranges of the subtables, is defined once.
\<close>

unbundle bit_operations_syntax

type_synonym entries = "u64 \<Rightarrow> u64"
type_synonym table_state = "entries \<times> u64"

abbreviation (input) TABLE_SIZE :: u64 where "TABLE_SIZE \<equiv> 4096"
abbreviation (input) PRESENT_BIT :: u64 where "PRESENT_BIT \<equiv> 1"
abbreviation (input) READWRITE_BIT :: u64 where "READWRITE_BIT \<equiv> 2"
abbreviation (input) ADDRESS_MASK :: u64 where "ADDRESS_MASK \<equiv> 0xFFFFFFFFFFFFF000"
abbreviation (input) LEVEL1_MANAGED_BYTES :: u64 where "LEVEL1_MANAGED_BYTES \<equiv> 0x200000"
abbreviation (input) LEVEL2_MANAGED_BYTES :: u64 where "LEVEL2_MANAGED_BYTES \<equiv> 0x40000000"
abbreviation (input) LEVEL3_MANAGED_BYTES :: u64 where "LEVEL3_MANAGED_BYTES \<equiv> 0x8000000000"
abbreviation (input) LEVEL4_MANAGED_BYTES :: u64 where "LEVEL4_MANAGED_BYTES \<equiv> 0x1000000000000"

subsection \<open>The memory to map\<close>

definition ShouldIncludeInPageMap :: "efi_desc \<Rightarrow> bool" where
  "ShouldIncludeInPageMap d =
     (efi_Type d \<in> {EfiLoaderCode, EfiLoaderData, EfiRuntimeServicesCode, EfiRuntimeServicesData,
        EfiBootServicesCode, EfiBootServicesData, EfiConventionalMemory} \<or>
      efi_Attribute d AND 0x8000000000000000 = 0x8000000000000000)"

definition ShouldIncludeInTransitionalPageMap :: "efi_desc \<Rightarrow> bool" where
  "ShouldIncludeInTransitionalPageMap d =
     (efi_Type d \<in> {EfiLoaderCode, EfiLoaderData, EfiRuntimeServicesCode, EfiRuntimeServicesData,
        EfiBootServicesCode, EfiBootServicesData} \<or>
      efi_Attribute d AND 0x8000000000000000 = 0x8000000000000000)"

definition desc_last :: "efi_desc \<Rightarrow> u64" where
  "desc_last d = efi_PhysicalStart d + efi_NumberOfPages d * 4096"

text \<open>The search for the lowest range from an address on; \<open>(base, last, found)\<close>.\<close>

definition range_step :: "(efi_desc \<Rightarrow> bool) \<Rightarrow> u64 \<Rightarrow> efi_desc \<Rightarrow> u64 \<times> u64 \<times> bool \<Rightarrow> u64 \<times> u64 \<times> bool" where
  "range_step include minAddress d = (\<lambda>(memoryRangeBase, memoryRangeLast, memoryRangeFound).
     if \<not> include d then (memoryRangeBase, memoryRangeLast, memoryRangeFound)
     else let mapMin = efi_PhysicalStart d; mapMax = desc_last d
       in if mapMin \<ge> minAddress \<and> (mapMin < memoryRangeBase \<or> \<not> memoryRangeFound)
          then (mapMin, mapMax, True) else (memoryRangeBase, memoryRangeLast, memoryRangeFound))"

definition FindNextMemoryRange :: "efi_desc list \<Rightarrow> u64 \<Rightarrow> u64 \<Rightarrow> u64 \<Rightarrow> (u64 \<times> u64) option" where
  "FindNextMemoryRange descs framebufferBase framebufferSize minAddress =
     (let (memoryRangeBase, memoryRangeLast, memoryRangeFound) =
            fold (range_step ShouldIncludeInPageMap minAddress) descs (0, 0, False);
          (memoryRangeBase, memoryRangeLast, memoryRangeFound) =
            (if framebufferBase \<ge> minAddress \<and> (framebufferBase < memoryRangeLast \<or> \<not> memoryRangeFound)
             then (framebufferBase, framebufferBase + framebufferSize, True)
             else (memoryRangeBase, memoryRangeLast, memoryRangeFound))
      in if memoryRangeFound then Some (memoryRangeBase, memoryRangeLast) else None)"

definition FindNextMemoryRangeTransitional :: "efi_desc list \<Rightarrow> u64 \<Rightarrow> (u64 \<times> u64) option" where
  "FindNextMemoryRangeTransitional descs minAddress =
     (let (memoryRangeBase, memoryRangeLast, memoryRangeFound) =
            fold (range_step ShouldIncludeInTransitionalPageMap minAddress) descs (0, 0, False)
      in if memoryRangeFound then Some (memoryRangeBase, memoryRangeLast) else None)"

subsection \<open>The size of the tables\<close>

text \<open>
  One iteration of the loop over the levels, on an element of the three arrays:
  \<open>(managedMemorySizePerTableLevel[i], highestTableIndices[i], numTablesPerLevel[i])\<close>.
\<close>

definition count_level :: "u64 \<Rightarrow> u64 \<Rightarrow> u64 \<times> u64 \<times> u64 \<Rightarrow> u64 \<times> u64 \<times> u64" where
  "count_level memoryRangeBase memoryRangeLast = (\<lambda>(tableManSize, highestTableIndex, numTables).
     let startTableIndex = memoryRangeBase div tableManSize;
         endTableIndex = (memoryRangeLast - 1) div tableManSize;
         numRangeTables = endTableIndex - startTableIndex;
         numRangeTables = (if highestTableIndex < startTableIndex \<or> numTables = 0
           then numRangeTables + 1 else numRangeTables)
     in (tableManSize, endTableIndex, numTables + numRangeTables))"

partial_function (option) count_tables ::
  "(u64 \<Rightarrow> (u64 \<times> u64) option) \<Rightarrow> u64 \<Rightarrow> (u64 \<times> u64 \<times> u64) list \<Rightarrow> (u64 \<times> u64 \<times> u64) list option" where
  "count_tables findNext highestResolvedAddress levels =
     (case findNext highestResolvedAddress of
        None \<Rightarrow> Some levels
      | Some r \<Rightarrow> count_tables findNext (snd r) (map (count_level (fst r) (snd r)) levels))"

definition all_tables_size :: "(u64 \<times> u64 \<times> u64) list \<Rightarrow> u64" where
  "all_tables_size levels = (sum_list (map (\<lambda>(_, _, numTables). numTables) levels) + 1) * TABLE_SIZE"

definition CalculateInitialPageMap4Size :: "efi_desc list \<Rightarrow> u64 \<Rightarrow> u64 \<Rightarrow> u64 option" where
  "CalculateInitialPageMap4Size descs framebufferBase framebufferSize =
     do { levels \<leftarrow> count_tables (FindNextMemoryRange descs framebufferBase framebufferSize) 0
            [(LEVEL1_MANAGED_BYTES, 0, 0), (LEVEL2_MANAGED_BYTES, 0, 0), (LEVEL3_MANAGED_BYTES, 0, 0)];
          Some (all_tables_size levels) }"

definition CalculateTransitionalPageMap4Size :: "efi_desc list \<Rightarrow> u64 option" where
  "CalculateTransitionalPageMap4Size descs =
     do { levels \<leftarrow> count_tables (FindNextMemoryRangeTransitional descs) 0
            [(LEVEL1_MANAGED_BYTES, 0, 0), (LEVEL2_MANAGED_BYTES, 0, 0), (LEVEL3_MANAGED_BYTES, 0, 0)];
          Some (all_tables_size levels) }"

definition CalculateInitialPageMap5Size :: "efi_desc list \<Rightarrow> u64 \<Rightarrow> u64 \<Rightarrow> u64 option" where
  "CalculateInitialPageMap5Size descs framebufferBase framebufferSize =
     do { levels \<leftarrow> count_tables (FindNextMemoryRange descs framebufferBase framebufferSize) 0
            [(LEVEL1_MANAGED_BYTES, 0, 0), (LEVEL2_MANAGED_BYTES, 0, 0), (LEVEL3_MANAGED_BYTES, 0, 0),
             (LEVEL4_MANAGED_BYTES, 0, 0)];
          Some (all_tables_size levels) }"

subsection \<open>Preparing tables\<close>

definition zero_table :: "u64 \<Rightarrow> entries \<Rightarrow> entries" where
  "zero_table pTable = fold (\<lambda>i m. m(pTable + 8 * of_nat i := 0)) [0..<512]"

text \<open>The table behind an entry, taken from the buffer when there is none; \<open>None\<close> when it is full.\<close>

definition SubtableOf :: "u64 \<Rightarrow> u64 \<Rightarrow> table_state \<Rightarrow> (u64 \<times> table_state) option" where
  "SubtableOf pPageMapBufferEnd pEntry = (\<lambda>(m, pNext).
     if m pEntry AND PRESENT_BIT = 0
     then if pNext + TABLE_SIZE > pPageMapBufferEnd then None
       else let pTable = pNext;
                m = zero_table pTable m;
                m = m(pEntry := m pEntry OR (pTable AND ADDRESS_MASK));
                m = m(pEntry := m pEntry OR (PRESENT_BIT OR READWRITE_BIT))
            in Some (pTable, m, pNext + TABLE_SIZE)
     else Some (m pEntry AND ADDRESS_MASK, m, pNext))"

partial_function (option) map_level1_pages :: "u64 \<Rightarrow> u64 \<Rightarrow> u64 \<Rightarrow> entries \<Rightarrow> entries option" where
  "map_level1_pages pLevel1Table entryAddress endAddress m =
     (if entryAddress < endAddress
      then let pEntry = pLevel1Table + 8 * (drop_bit 12 entryAddress AND 0x1FF);
               m = m(pEntry := m pEntry OR entryAddress);
               m = m(pEntry := m pEntry OR (PRESENT_BIT OR READWRITE_BIT))
           in map_level1_pages pLevel1Table (entryAddress + 4096) endAddress m
      else Some m)"

definition PrepareLevel1Table ::
  "u64 \<Rightarrow> u64 \<Rightarrow> u64 \<Rightarrow> u64 \<Rightarrow> table_state \<Rightarrow> (bool \<times> table_state) option" where
  "PrepareLevel1Table startAddress endAddress pLevel2Table pPageMapBufferEnd s =
     (let pLevel2Entry = pLevel2Table + 8 * (drop_bit 21 startAddress AND 0x1FF)
      in case SubtableOf pPageMapBufferEnd pLevel2Entry s of
           None \<Rightarrow> Some (False, s)
         | Some (pLevel1Table, m, pNext) \<Rightarrow>
             do { m \<leftarrow> map_level1_pages pLevel1Table (startAddress AND ADDRESS_MASK) endAddress m;
                  Some (True, m, pNext) })"

partial_function (option) for_subtables ::
  "u64 \<Rightarrow> (u64 \<Rightarrow> u64 \<Rightarrow> table_state \<Rightarrow> (bool \<times> table_state) option) \<Rightarrow>
    u64 \<Rightarrow> u64 \<Rightarrow> u64 \<Rightarrow> table_state \<Rightarrow> (bool \<times> table_state) option" where
  "for_subtables managedMemorySize prepare subtableStartAddress subtableEndAddress endAddress s =
     (if subtableStartAddress < endAddress
      then Option.bind (prepare subtableStartAddress subtableEndAddress s)
        (\<lambda>r. if \<not> fst r then Some (False, snd r)
          else let subtableStartAddress = (subtableStartAddress div managedMemorySize + 1) * managedMemorySize;
                   subtableEndAddress = (subtableEndAddress div managedMemorySize + 1) * managedMemorySize;
                   subtableEndAddress = (if subtableEndAddress < endAddress then subtableEndAddress else endAddress)
               in for_subtables managedMemorySize prepare subtableStartAddress subtableEndAddress endAddress (snd r))
      else Some (True, s))"

definition prepare_subtables ::
  "u64 \<Rightarrow> (u64 \<Rightarrow> u64 \<Rightarrow> table_state \<Rightarrow> (bool \<times> table_state) option) \<Rightarrow>
    u64 \<Rightarrow> u64 \<Rightarrow> table_state \<Rightarrow> (bool \<times> table_state) option" where
  "prepare_subtables managedMemorySize prepare startAddress endAddress s =
     (let alignedStartAddress = (startAddress div managedMemorySize) * managedMemorySize;
          subtableEndAddress = alignedStartAddress + managedMemorySize;
          subtableEndAddress = (if subtableEndAddress < endAddress then subtableEndAddress else endAddress)
      in for_subtables managedMemorySize prepare startAddress subtableEndAddress endAddress s)"

definition PrepareLevel2Table ::
  "u64 \<Rightarrow> u64 \<Rightarrow> u64 \<Rightarrow> u64 \<Rightarrow> table_state \<Rightarrow> (bool \<times> table_state) option" where
  "PrepareLevel2Table startAddress endAddress pLevel3Table pPageMapBufferEnd s =
     (let pLevel3Entry = pLevel3Table + 8 * (drop_bit 30 startAddress AND 0x1FF)
      in case SubtableOf pPageMapBufferEnd pLevel3Entry s of
           None \<Rightarrow> Some (False, s)
         | Some (pLevel2Table, s) \<Rightarrow> prepare_subtables LEVEL1_MANAGED_BYTES
             (\<lambda>start end. PrepareLevel1Table start end pLevel2Table pPageMapBufferEnd)
             startAddress endAddress s)"

definition PrepareLevel3Table ::
  "u64 \<Rightarrow> u64 \<Rightarrow> u64 \<Rightarrow> u64 \<Rightarrow> table_state \<Rightarrow> (bool \<times> table_state) option" where
  "PrepareLevel3Table startAddress endAddress pPML4Table pPageMapBufferEnd s =
     (let pLevel4Entry = pPML4Table + 8 * (drop_bit 39 startAddress AND 0x1FF)
      in case SubtableOf pPageMapBufferEnd pLevel4Entry s of
           None \<Rightarrow> Some (False, s)
         | Some (pLevel3Table, s) \<Rightarrow> prepare_subtables LEVEL2_MANAGED_BYTES
             (\<lambda>start end. PrepareLevel2Table start end pLevel3Table pPageMapBufferEnd)
             startAddress endAddress s)"

definition PrepareLevel4Table ::
  "u64 \<Rightarrow> u64 \<Rightarrow> u64 \<Rightarrow> u64 \<Rightarrow> table_state \<Rightarrow> (bool \<times> table_state) option" where
  "PrepareLevel4Table startAddress endAddress pPML5Table pPageMapBufferEnd s =
     (let pLevel5Entry = pPML5Table + 8 * (drop_bit 48 startAddress AND 0x1FF)
      in case SubtableOf pPageMapBufferEnd pLevel5Entry s of
           None \<Rightarrow> Some (False, s)
         | Some (pLevel4Table, s) \<Rightarrow> prepare_subtables LEVEL3_MANAGED_BYTES
             (\<lambda>start end. PrepareLevel3Table start end pLevel4Table pPageMapBufferEnd)
             startAddress endAddress s)"

definition MapMemoryRangeInLevel4Table ::
  "u64 \<Rightarrow> u64 \<Rightarrow> u64 \<Rightarrow> u64 \<Rightarrow> table_state \<Rightarrow> (bool \<times> table_state) option" where
  "MapMemoryRangeInLevel4Table startAddress endAddress pPML4Table pPageMapBufferEnd =
     prepare_subtables LEVEL3_MANAGED_BYTES
       (\<lambda>start end. PrepareLevel3Table start end pPML4Table pPageMapBufferEnd) startAddress endAddress"

definition MapMemoryRangeInLevel5Table ::
  "u64 \<Rightarrow> u64 \<Rightarrow> u64 \<Rightarrow> u64 \<Rightarrow> table_state \<Rightarrow> (bool \<times> table_state) option" where
  "MapMemoryRangeInLevel5Table startAddress endAddress pPML5Table pPageMapBufferEnd =
     prepare_subtables LEVEL4_MANAGED_BYTES
       (\<lambda>start end. PrepareLevel4Table start end pPML5Table pPageMapBufferEnd) startAddress endAddress"

subsection \<open>The page maps\<close>

text \<open>The loop over the firmware's descriptors.\<close>

fun map_descs ::
  "(efi_desc \<Rightarrow> bool) \<Rightarrow> (u64 \<Rightarrow> u64 \<Rightarrow> table_state \<Rightarrow> (bool \<times> table_state) option) \<Rightarrow>
    efi_desc list \<Rightarrow> table_state \<Rightarrow> (bool \<times> table_state) option" where
  "map_descs include mapRange [] s = Some (True, s)"
| "map_descs include mapRange (d # descs) s =
     (if \<not> include d then map_descs include mapRange descs s
      else Option.bind (mapRange (efi_PhysicalStart d) (desc_last d) s)
        (\<lambda>r. if fst r then map_descs include mapRange descs (snd r) else Some (False, snd r)))"

text \<open>The checks and the empty root table; then the result is the root, or \<open>None\<close> for \<open>NULL\<close>.\<close>

definition with_root_table ::
  "u64 \<Rightarrow> u64 \<Rightarrow> (u64 \<Rightarrow> u64 \<Rightarrow> table_state \<Rightarrow> (bool \<times> table_state) option) \<Rightarrow> entries \<Rightarrow>
    (u64 option \<times> entries) option" where
  "with_root_table pPageMapBuffer pageMapBufferSize body m =
     (if pPageMapBuffer mod 4096 \<noteq> 0 then Some (None, m)
      else if pageMapBufferSize < TABLE_SIZE then Some (None, m)
      else let m = zero_table pPageMapBuffer m;
               pNextAvailableTableSpace = pPageMapBuffer + 8 * 512;
               pPageMapBufferEnd = pPageMapBuffer + 8 * (pageMapBufferSize div 8)
           in do { (ok, m, _) \<leftarrow> body pPageMapBuffer pPageMapBufferEnd (m, pNextAvailableTableSpace);
                   Some (if ok then Some pPageMapBuffer else None, m) })"

definition SetupInitialPageMap4 ::
  "efi_desc list \<Rightarrow> u64 \<Rightarrow> u64 \<Rightarrow> u64 \<Rightarrow> u64 \<Rightarrow> entries \<Rightarrow> (u64 option \<times> entries) option" where
  "SetupInitialPageMap4 descs framebufferBase framebufferSize pPageMapBuffer pageMapBufferSize =
     with_root_table pPageMapBuffer pageMapBufferSize (\<lambda>pPML4Table pPageMapBufferEnd s.
       do { (ok, s) \<leftarrow> map_descs ShouldIncludeInPageMap
              (\<lambda>start end. MapMemoryRangeInLevel4Table start end pPML4Table pPageMapBufferEnd) descs s;
            if ok then MapMemoryRangeInLevel4Table framebufferBase (framebufferBase + framebufferSize)
              pPML4Table pPageMapBufferEnd s
            else Some (False, s) })"

definition SetupTransitionalPageMap4 ::
  "efi_desc list \<Rightarrow> u64 \<Rightarrow> u64 \<Rightarrow> entries \<Rightarrow> (u64 option \<times> entries) option" where
  "SetupTransitionalPageMap4 descs pPageMapBuffer pageMapBufferSize =
     with_root_table pPageMapBuffer pageMapBufferSize (\<lambda>pPML4Table pPageMapBufferEnd s.
       map_descs ShouldIncludeInTransitionalPageMap
         (\<lambda>start end. MapMemoryRangeInLevel4Table start end pPML4Table pPageMapBufferEnd) descs s)"

definition SetupInitialPageMap5 ::
  "efi_desc list \<Rightarrow> u64 \<Rightarrow> u64 \<Rightarrow> u64 \<Rightarrow> u64 \<Rightarrow> entries \<Rightarrow> (u64 option \<times> entries) option" where
  "SetupInitialPageMap5 descs framebufferBase framebufferSize pPageMapBuffer pageMapBufferSize =
     with_root_table pPageMapBuffer pageMapBufferSize (\<lambda>pPML5Table pPageMapBufferEnd s.
       do { (ok, s) \<leftarrow> map_descs ShouldIncludeInPageMap
              (\<lambda>start end. MapMemoryRangeInLevel5Table start end pPML5Table pPageMapBufferEnd) descs s;
            if ok then MapMemoryRangeInLevel5Table framebufferBase (framebufferBase + framebufferSize)
              pPML5Table pPageMapBufferEnd s
            else Some (False, s) })"

end
