(* ===== verification/PageMapTables.thy ===== *)
theory PageMapTables
  imports PageMap
begin

text \<open>
  What the tables of a page map say. A table of level \<open>l\<close> with number \<open>c\<close> covers the
  addresses \<open>a\<close> with \<open>a div 2 ^ (12 + 9 * l) = c\<close>; \<open>tables\<close> tells at which place of the
  buffer each table lies. \<open>page_map\<close> relates this, and the set of the mapped pages, to
  the entries in memory, and the operations on one entry are shown to keep it.
\<close>

type_synonym tables = "nat \<times> nat \<rightharpoonup> nat"

definition slot :: "u64 \<Rightarrow> nat \<Rightarrow> nat \<Rightarrow> u64" where
  "slot buf k j = buf + of_nat (4096 * k + 8 * j)"

text \<open>Entry \<open>i\<close> of all entries of level \<open>l\<close>.\<close>

definition table_entry :: "u64 \<Rightarrow> tables \<Rightarrow> nat set \<Rightarrow> nat \<Rightarrow> nat \<Rightarrow> u64" where
  "table_entry buf T P l i =
     (if l = 1 then (if i \<in> P then of_nat (4096 * i) OR 3 else 0)
      else case T (l - 1, i) of None \<Rightarrow> 0 | Some k \<Rightarrow> slot buf k 0 OR 3)"

definition buffer_ok :: "u64 \<Rightarrow> nat \<Rightarrow> bool" where
  "buffer_ok buf lim = (4096 dvd unat buf \<and> unat buf + lim + 4096 < 18446744073709551616)"

definition page_map :: "nat \<Rightarrow> u64 \<Rightarrow> nat \<Rightarrow> tables \<Rightarrow> nat set \<Rightarrow> entries \<Rightarrow> bool" where
  "page_map L buf lim T P m =
     (finite (dom T) \<and> inj_on T (dom T) \<and> ran T = {..<card (dom T)} \<and> 4096 * card (dom T) \<le> lim \<and>
      (\<forall>l c k. T (l, c) = Some k \<longrightarrow> 1 \<le> l \<and> l \<le> L \<and> (l < L \<longrightarrow> T (Suc l, c div 512) \<noteq> None)) \<and>
      (\<forall>i \<in> P. T (1, i div 512) \<noteq> None) \<and>
      (\<forall>l c k j. T (l, c) = Some k \<and> j < 512 \<longrightarrow> m (slot buf k j) = table_entry buf T P l (512 * c + j)))"

definition next_of :: "u64 \<Rightarrow> tables \<Rightarrow> u64" where
  "next_of buf T = slot buf (card (dom T)) 0"

definition outside_same :: "u64 \<Rightarrow> nat \<Rightarrow> entries \<Rightarrow> entries \<Rightarrow> bool" where
  "outside_same buf lim m m' = (\<forall>a. lim \<le> unat (a - buf) \<longrightarrow> m' a = m a)"

subsection \<open>Slots and bits\<close>

lemma slot_inj:
  assumes "buffer_ok buf lim" "4096 * Suc k \<le> lim" "4096 * Suc k' \<le> lim" "j < 512" "j' < 512"
  shows "slot buf k j = slot buf k' j' \<longleftrightarrow> k = k' \<and> j = j'"
proof
  assume "slot buf k j = slot buf k' j'"
  hence "(of_nat (4096 * k + 8 * j) :: u64) = of_nat (4096 * k' + 8 * j')" by (simp add: slot_def)
  hence "unat (of_nat (4096 * k + 8 * j) :: u64) = unat (of_nat (4096 * k' + 8 * j') :: u64)" by (rule arg_cong)
  moreover have "4096 * k + 8 * j < 18446744073709551616" "4096 * k' + 8 * j' < 18446744073709551616"
    using assms by (simp_all add: buffer_ok_def)
  ultimately have eq: "4096 * k + 8 * j = 4096 * k' + 8 * j'" by (simp only: unat_u64_of_nat)
  hence "k = k'" using assms(4,5) by linarith
  thus "k = k' \<and> j = j'" using eq by simp
qed simp

lemma slot_inside:
  assumes "buffer_ok buf lim" "4096 * Suc k \<le> lim" "j < 512"
  shows "unat (slot buf k j - buf) < lim"
proof -
  have n: "4096 * k + 8 * j < lim" "lim < 18446744073709551616"
    using assms by (simp_all add: buffer_ok_def)
  have "slot buf k j - buf = of_nat (4096 * k + 8 * j)" by (simp add: slot_def)
  thus ?thesis using n unat_u64_of_nat [of "4096 * k + 8 * j"] by simp
qed

lemma outside_same_refl [simp]: "outside_same buf lim m m"
  by (simp add: outside_same_def)

lemma outside_same_trans:
  "outside_same buf lim m m' \<Longrightarrow> outside_same buf lim m' m'' \<Longrightarrow> outside_same buf lim m m''"
  by (simp add: outside_same_def)

lemma outside_same_update:
  assumes "buffer_ok buf lim" "4096 * Suc k \<le> lim" "j < 512"
  shows "outside_same buf lim m (m(slot buf k j := v))"
  using slot_inside [OF assms] by (auto simp: outside_same_def)

lemma ADDRESS_MASK_eq: "ADDRESS_MASK = NOT (mask 12)"
  by (simp add: mask_eq_decr_exp)

lemma page_aligned_and: "4096 dvd unat w \<Longrightarrow> w AND ADDRESS_MASK = w"
proof -
  assume "4096 dvd unat w"
  hence "unat (take_bit 12 w) = 0" by (simp add: take_bit_eq_mod unat_u64_mod)
  hence "take_bit 12 w = 0" by (simp only: unat_eq_0)
  thus ?thesis unfolding ADDRESS_MASK_eq and_not_mask by simp
qed

lemma slot_page_aligned:
  assumes "buffer_ok buf lim" "4096 * k \<le> lim"
  shows "4096 dvd unat (slot buf k 0)"
proof -
  have "unat (slot buf k 0) = unat buf + 4096 * k"
    unfolding slot_def using assms by (subst unat_u64_plus_of_nat) (simp_all add: buffer_ok_def)
  thus ?thesis using assms(1) by (simp add: buffer_ok_def)
qed

lemma present_entry [simp]: "(w OR 3) AND PRESENT_BIT \<noteq> 0"
  by (simp add: and_one_eq odd_iff_mod_2_eq_one [symmetric] even_or_iff)

lemma entry_address:
  assumes "4096 dvd unat w"
  shows "(w OR 3) AND ADDRESS_MASK = w"
  unfolding word_ao_dist page_aligned_and [OF assms] by simp

lemma unat_index: "unat (drop_bit n (w :: u64) AND 0x1FF) = unat w div 2 ^ n mod 512"
proof -
  have "drop_bit n w AND 0x1FF = take_bit 9 (drop_bit n w)"
    by (simp add: take_bit_eq_mask mask_eq_decr_exp)
  hence "unat (drop_bit n w AND 0x1FF) = take_bit 9 (unat (drop_bit n w))"
    by (simp only: unsigned_take_bit_eq)
  thus ?thesis unfolding unat_drop_bit_eq by (simp add: take_bit_eq_mod drop_bit_eq_div)
qed

lemma entry_slot: "slot buf k 0 + 8 * (drop_bit n w AND 0x1FF) = slot buf k (unat w div 2 ^ n mod 512)"
proof -
  have "drop_bit n w AND 0x1FF = of_nat (unat w div 2 ^ n mod 512)"
    unfolding unat_index [symmetric] by simp
  thus ?thesis by (simp add: slot_def)
qed

subsection \<open>Tables\<close>

lemma page_mapD:
  assumes "page_map L buf lim T P m"
  shows "finite (dom T)" "inj_on T (dom T)" "ran T = {..<card (dom T)}" "4096 * card (dom T) \<le> lim"
    "T (l, c) = Some k \<Longrightarrow> 1 \<le> l" "T (l, c) = Some k \<Longrightarrow> l \<le> L"
    "T (l, c) = Some k \<Longrightarrow> l < L \<Longrightarrow> \<exists>k'. T (Suc l, c div 512) = Some k'"
    "i \<in> P \<Longrightarrow> \<exists>k'. T (1, i div 512) = Some k'"
    "T (l, c) = Some k \<Longrightarrow> j < 512 \<Longrightarrow> m (slot buf k j) = table_entry buf T P l (512 * c + j)"
  using assms by (auto simp: page_map_def)

lemma page_map_place:
  assumes "page_map L buf lim T P m" "T (l, c) = Some k"
  shows "k < card (dom T)" "4096 * Suc k \<le> lim"
proof -
  have "k \<in> ran T" using assms(2) by (rule ranI)
  thus k: "k < card (dom T)" using page_mapD(3) [OF assms(1)] by simp
  hence "4096 * Suc k \<le> 4096 * card (dom T)" by (intro mult_le_mono2 Suc_leI)
  thus "4096 * Suc k \<le> lim" using page_mapD(4) [OF assms(1)] by (rule le_trans)
qed

lemma page_map_same:
  assumes "page_map L buf lim T P m" "T x = Some k" "T y = Some k"
  shows "x = y"
  using inj_onD [OF page_mapD(2) [OF assms(1)], of x y] assms(2,3) by (simp add: dom_def)

lemma zero_table_eq:
  "zero_table (slot buf n 0) m = (\<lambda>a. if \<exists>j < 512. a = slot buf n j then 0 else m a)"
proof -
  have "fold (\<lambda>i m. m(slot buf n 0 + 8 * of_nat i := 0)) [0..<k] m =
      (\<lambda>a. if \<exists>j < k. a = slot buf n j then 0 else m a)" for k
    by (induction k) (auto simp: slot_def fun_eq_iff less_Suc_eq)
  thus ?thesis by (simp add: zero_table_def)
qed

definition buffer_end :: "u64 \<Rightarrow> nat \<Rightarrow> u64" where
  "buffer_end buf lim = buf + of_nat (8 * (lim div 8))"

lemma table_fits:
  assumes "buffer_ok buf lim" "4096 * n \<le> lim"
  shows "slot buf n 0 + TABLE_SIZE > buffer_end buf lim \<longleftrightarrow> lim < 4096 * Suc n"
    "slot buf n 0 + TABLE_SIZE = slot buf (Suc n) 0"
proof -
  have b: "unat buf + lim + 4096 < 18446744073709551616" using assms(1) by (simp add: buffer_ok_def)
  show eq: "slot buf n 0 + TABLE_SIZE = slot buf (Suc n) 0" by (simp add: slot_def)
  have "unat (slot buf (Suc n) 0) = unat buf + 4096 * Suc n"
    unfolding slot_def using b assms(2) by (subst unat_u64_plus_of_nat) simp_all
  moreover have "unat (buffer_end buf lim) = unat buf + 8 * (lim div 8)"
    unfolding buffer_end_def using b by (subst unat_u64_plus_of_nat) simp_all
  ultimately show "slot buf n 0 + TABLE_SIZE > buffer_end buf lim \<longleftrightarrow> lim < 4096 * Suc n"
    unfolding eq word_less_nat_alt using div_less_iff_less_mult [of 8 lim "512 * Suc n"] by auto
qed

text \<open>The entry of a table that exists, and of one that does not.\<close>

lemma parent_entry:
  assumes "page_map L buf lim T P m" "T (Suc l, c div 512) = Some j" "1 \<le> l"
  shows "m (slot buf j (c mod 512)) = (case T (l, c) of None \<Rightarrow> 0 | Some k \<Rightarrow> slot buf k 0 OR 3)"
  using page_mapD(9) [OF assms(1,2), of "c mod 512"] assms(3) by (simp add: table_entry_def)

lemma SubtableOf_found:
  assumes "buffer_ok buf lim" "page_map L buf lim T P m" "T (Suc l, c div 512) = Some j"
    and "T (l, c) = Some k" "1 \<le> l"
  shows "SubtableOf e (slot buf j (c mod 512)) (m, pNext) = Some (slot buf k 0, m, pNext)"
proof -
  have "4096 dvd unat (slot buf k 0)"
    using page_map_place(2) [OF assms(2,4)] by (intro slot_page_aligned [OF assms(1)]) simp
  thus ?thesis
    using parent_entry [OF assms(2,3,5)] assms(4)
    by (simp add: SubtableOf_def entry_address)
qed

lemma SubtableOf_full:
  assumes "buffer_ok buf lim" "page_map L buf lim T P m" "T (Suc l, c div 512) = Some j"
    and "T (l, c) = None" "1 \<le> l" "lim < 4096 * Suc (card (dom T))"
  shows "SubtableOf (buffer_end buf lim) (slot buf j (c mod 512)) (m, next_of buf T) = None"
  using parent_entry [OF assms(2,3,5)] assms(4,6) table_fits(1) [OF assms(1) page_mapD(4) [OF assms(2)]]
  by (simp add: SubtableOf_def next_of_def)

lemma SubtableOf_new:
  assumes ok: "buffer_ok buf lim" and pm: "page_map L buf lim T P m" and parent: "T (Suc l, c div 512) = Some j"
    and new: "T (l, c) = None" and l: "1 \<le> l" "l < L" and fits: "4096 * Suc (card (dom T)) \<le> lim"
  defines "n \<equiv> card (dom T)"
  defines "T' \<equiv> T((l, c) \<mapsto> n)"
  shows "\<exists>m'. SubtableOf (buffer_end buf lim) (slot buf j (c mod 512)) (m, next_of buf T) =
      Some (slot buf n 0, m', next_of buf T') \<and> page_map L buf lim T' P m' \<and> outside_same buf lim m m'"
proof -
  let ?e = "slot buf j (c mod 512)"
  let ?zeroed = "zero_table (slot buf n 0) m"
  define m1 where "m1 = ?zeroed(?e := slot buf n 0 OR 3)"
  note D = page_mapD [OF pm]
  have jn: "j < n" "4096 * Suc j \<le> lim" using page_map_place [OF pm parent] by (simp_all add: n_def)
  have inj: "slot buf k i = slot buf k' i' \<longleftrightarrow> k = k' \<and> i = i'" if "k \<le> n" "k' \<le> n" "i < 512" "i' < 512" for k k' i i'
    using that fits by (intro slot_inj [OF ok]) (simp_all add: n_def)
  have e0: "m ?e = 0" using parent_entry [OF pm parent l(1)] new by simp
  have e: "?zeroed ?e = 0" by (simp add: zero_table_eq e0)
  have card: "card (dom T') = Suc n" using D(1) new by (simp add: T'_def n_def card_insert_if domIff)
  have aligned: "slot buf n 0 AND ADDRESS_MASK = slot buf n 0"
    using fits by (intro page_aligned_and slot_page_aligned [OF ok]) (simp add: n_def)
  have three: "PRESENT_BIT OR READWRITE_BIT = (3 :: u64)" by simp
  have run: "SubtableOf (buffer_end buf lim) ?e (m, next_of buf T) = Some (slot buf n 0, m1, next_of buf T')"
    using e0 e table_fits [OF ok D(4)] fits
    by (simp add: m1_def SubtableOf_def next_of_def Let_def card n_def [symmetric] aligned three)
  have child: "T (l', i) = None" if "l' < l" "i div 512 = c" "1 \<le> l'" "Suc l' = l" for l' i
    using D(7) [of l' i] that new l(2) by (cases "T (l', i)") auto
  have page: "i \<notin> P" if "l = 1" "i div 512 = c" for i
    using D(8) [of i] that new by auto
  have old: "m1 (slot buf k i) = (if k = j \<and> i = c mod 512 then slot buf n 0 OR 3 else m (slot buf k i))"
    if "k < n" "i < 512" for k i
    using that jn(1) inj by (auto simp: m1_def zero_table_eq)
  have fresh: "m1 (slot buf n i) = 0" if "i < 512" for i
  proof -
    have "slot buf n i \<noteq> ?e" using inj [of n j i "c mod 512"] that jn(1) by simp
    thus ?thesis using that by (auto simp: m1_def zero_table_eq)
  qed
  have entries: "m1 (slot buf k i) = table_entry buf T' P l' (512 * c' + i)"
    if T: "T' (l', c') = Some k" and i: "i < 512" for l' c' k i
  proof (cases "(l', c') = (l, c)")
    case True
    hence k: "k = n" using T by (simp add: T'_def)
    have "table_entry buf T' P l (512 * c + i) = 0"
      using page [of "512 * c + i"] child [of "l - 1" "512 * c + i"] i l(1)
      by (auto simp: table_entry_def T'_def)
    thus ?thesis using True k fresh [OF i] by simp
  next
    case False
    hence T0: "T (l', c') = Some k" using T by (auto simp: T'_def)
    have k: "k < n" using page_map_place [OF pm T0] by (simp add: n_def)
    show ?thesis
    proof (cases "k = j \<and> i = c mod 512")
      case True
      hence "(l', c') = (Suc l, c div 512)" using page_map_same [OF pm, of "(l', c')"] T0 parent by blast
      thus ?thesis using True l old [OF k i] by (simp add: table_entry_def T'_def)
    next
      case other: False
      have "(l' - 1, 512 * c' + i) \<noteq> (l, c) \<or> l' = 1"
      proof (rule ccontr)
        assume "\<not> ?thesis"
        hence "l' = Suc l" "c' = c div 512" "i = c mod 512" using i D(5) [OF T0] by auto
        thus False using other T0 parent by simp
      qed
      hence "table_entry buf T' P l' (512 * c' + i) = table_entry buf T P l' (512 * c' + i)"
        unfolding table_entry_def T'_def by (cases "l' = 1") (simp_all only: fun_upd_apply if_False if_True simp_thms)
      thus ?thesis unfolding old [OF k i] D(9) [OF T0 i] using other by auto
    qed
  qed
  have "ran T' = {..<Suc n}"
    unfolding T'_def ran_map_upd [of T "(l, c)", OF new] D(3) n_def lessThan_Suc ..
  moreover have "inj_on T' (dom T')"
  proof (rule inj_onI)
    fix x y
    assume "x \<in> dom T'" "y \<in> dom T'" "T' x = T' y"
    moreover have "n \<notin> ran T" by (simp add: D(3) n_def)
    ultimately show "x = y"
      using inj_onD [OF D(2), of x y] by (auto simp: T'_def split: if_splits dest: ranI)
  qed
  moreover have "1 \<le> l' \<and> l' \<le> L \<and> (l' < L \<longrightarrow> T' (Suc l', c' div 512) \<noteq> None)" if "T' (l', c') = Some k" for l' c' k
    using that D(5-7) [of l' c'] l parent by (auto simp: T'_def split: if_splits)
  moreover have "\<forall>i \<in> P. T' (1, i div 512) \<noteq> None" using D(8) by (fastforce simp: T'_def)
  ultimately have "page_map L buf lim T' P m1"
    unfolding page_map_def card using D(1) fits entries by (simp add: T'_def n_def)
  moreover have "outside_same buf lim m m1"
  proof -
    have "unat (slot buf n i - buf) < lim" if "i < 512" for i
      using slot_inside [OF ok _ that] fits by (simp add: n_def)
    hence "a \<noteq> slot buf n i" if "lim \<le> unat (a - buf)" "i < 512" for a i
      using that leD by blast
    hence "outside_same buf lim m ?zeroed" by (simp add: outside_same_def zero_table_eq) blast
    thus ?thesis unfolding m1_def
      by (rule outside_same_trans [OF _ outside_same_update [OF ok jn(2)]]) simp
  qed
  ultimately show ?thesis using run by blast
qed

subsection \<open>Pages\<close>

text \<open>One page in the table that covers it.\<close>

lemma map_page:
  assumes ok: "buffer_ok buf lim" and pm: "page_map L buf lim T P m" and table: "T (1, i div 512) = Some k"
  defines "m' \<equiv> m(slot buf k (i mod 512) := m (slot buf k (i mod 512)) OR of_nat (4096 * i) OR 3)"
  shows "page_map L buf lim T (insert i P) m'" "outside_same buf lim m m'"
proof -
  note D = page_mapD [OF pm] and k = page_map_place [OF pm table]
  have e: "m (slot buf k (i mod 512)) = (if i \<in> P then of_nat (4096 * i) OR 3 else 0)"
    using D(9) [OF table, of "i mod 512"] by (simp add: table_entry_def)
  have entries: "m' (slot buf k' j) = table_entry buf T (insert i P) l (512 * c + j)"
    if T: "T (l, c) = Some k'" and j: "j < 512" for l c k' j
  proof (cases "slot buf k' j = slot buf k (i mod 512)")
    case True
    hence "k' = k" "j = i mod 512"
      using slot_inj [OF ok page_map_place(2) [OF pm T] k(2) j, of "i mod 512"] by simp_all
    moreover have "(l, c) = (1, i div 512)"
      using page_map_same [OF pm, of "(l, c)"] T table \<open>k' = k\<close> by blast
    ultimately show ?thesis by (simp add: m'_def e table_entry_def or.assoc del: of_nat_mult)
  next
    case False
    have "512 * c + j \<noteq> i" if "l = 1"
    proof
      assume "512 * c + j = i"
      hence "c = i div 512" "j = i mod 512" using j by auto
      thus False using False T table that by simp
    qed
    thus ?thesis using False D(9) [OF T j] by (auto simp: m'_def table_entry_def)
  qed
  show "page_map L buf lim T (insert i P) m'"
    using pm entries table by (simp add: page_map_def)
  show "outside_same buf lim m m'"
    unfolding m'_def using k(2) by (intro outside_same_update [OF ok]) simp_all
qed

lemma map_pages_correct:
  assumes "buffer_ok buf lim" "page_map L buf lim T P m"
    and "unat entryAddress = 4096 * i" "unat endAddress < 9223372036854775808"
    and "\<And>q. i \<le> q \<Longrightarrow> 4096 * q < unat endAddress \<Longrightarrow> q div 512 = c" "T (1, c) = Some k"
  shows "\<exists>m'. map_level1_pages (slot buf k 0) entryAddress endAddress m = Some m' \<and>
    page_map L buf lim T (P \<union> {q. i \<le> q \<and> 4096 * q < unat endAddress}) m' \<and> outside_same buf lim m m'"
  using assms(2,3,5)
proof (induction "unat endAddress - 4096 * i" arbitrary: i entryAddress P m rule: less_induct)
  case less
  show ?case
  proof (cases "entryAddress < endAddress")
    case False
    hence none: "{q. i \<le> q \<and> 4096 * q < unat endAddress} = {}"
      using less.prems(2) by (auto simp: word_less_nat_alt)
    show ?thesis unfolding none using False less.prems(1) by (simp add: map_level1_pages.simps)
  next
    case True
    hence lt: "4096 * i < unat endAddress" using less.prems(2) by (simp add: word_less_nat_alt)
    have table: "T (1, i div 512) = Some k" using less.prems(3) [of i] lt assms(6) by simp
    let ?m = "m(slot buf k (i mod 512) := m (slot buf k (i mod 512)) OR of_nat (4096 * i) OR 3)"
    note page = map_page [OF assms(1) less.prems(1) table]
    have addr: "entryAddress = of_nat (4096 * i)" using less.prems(2) by (metis of_nat_unat_u64)
    have next_addr: "unat (entryAddress + 4096) = 4096 * Suc i"
      using less.prems(2) lt assms(4) by (subst unat_u64_plus) simp_all
    have slot: "slot buf k 0 + 8 * (drop_bit 12 entryAddress AND 0x1FF) = slot buf k (i mod 512)"
      unfolding entry_slot less.prems(2) by simp
    have run: "map_level1_pages (slot buf k 0) entryAddress endAddress m =
        map_level1_pages (slot buf k 0) (entryAddress + 4096) endAddress ?m"
      by (subst map_level1_pages.simps) (simp add: True Let_def slot or.assoc flip: addr del: of_nat_mult)
    obtain m' where m': "map_level1_pages (slot buf k 0) (entryAddress + 4096) endAddress ?m = Some m'"
      "page_map L buf lim T (insert i P \<union> {q. Suc i \<le> q \<and> 4096 * q < unat endAddress}) m'"
      "outside_same buf lim ?m m'"
      using less.hyps [of "Suc i" "insert i P" ?m "entryAddress + 4096", OF _ page(1) next_addr] lt less.prems(3)
      by fastforce
    have set_eq: "insert i P \<union> {q. Suc i \<le> q \<and> 4096 * q < unat endAddress} =
        P \<union> {q. i \<le> q \<and> 4096 * q < unat endAddress}"
      using lt by (auto simp: Suc_le_eq le_less)
    show ?thesis unfolding run set_eq [symmetric]
      using m' outside_same_trans [OF page(2) m'(3)] by blast
  qed
qed

end
