(* ===== verification/PageMapLevels.thy ===== *)
theory PageMapLevels
  imports PageMapTables
begin

text \<open>
  The functions that prepare the tables of one level. \<open>prepares\<close> states their contract:
  they add the given tables and pages, in the buffer only, and return true exactly when
  the buffer has room for the tables. The locale \<open>level_table\<close> is the interface between
  a level and the one above; its lemmas are the loop over the subtables and the step to
  the next level, and it is interpreted for the four levels of the code.
\<close>

subsection \<open>Needed tables\<close>

definition block :: "nat \<Rightarrow> nat \<Rightarrow> nat" where
  "block l a = a div 2 ^ (12 + 9 * l)"

definition tables_of :: "nat \<Rightarrow> nat set \<Rightarrow> (nat \<times> nat) set" where
  "tables_of k R = (\<Union>l \<in> {1..k}. (\<lambda>a. (l, block l a)) ` R)"

definition pages_of :: "nat set \<Rightarrow> nat set" where
  "pages_of R = (\<lambda>a. a div 4096) ` R"

lemma tables_of_simps [simp]:
  "tables_of k {} = {}" "tables_of 0 R = {}" "tables_of k (R \<union> R') = tables_of k R \<union> tables_of k R'"
  "finite R \<Longrightarrow> finite (tables_of k R)"
  by (auto simp: tables_of_def)

lemma pages_of_simps [simp]:
  "pages_of {} = {}" "pages_of (R \<union> R') = pages_of R \<union> pages_of R'"
  by (auto simp: pages_of_def)

lemma block_Suc: "block (Suc l) a = block l a div 512"
proof -
  have "(2::nat) ^ (12 + 9 * Suc l) = 2 ^ (12 + 9 * l) * 512" by (simp add: power_add)
  thus ?thesis unfolding block_def by (simp only: div_mult2_eq)
qed

lemma block_page: "block 1 a = a div 4096 div 512"
  by (simp add: block_def div_mult2_eq [symmetric])

lemma tables_of_Suc_block:
  assumes "\<forall>a \<in> R. block (Suc k) a = c" "R \<noteq> {}"
  shows "tables_of (Suc k) R = insert (Suc k, c) (tables_of k R)"
proof -
  have "(\<lambda>a. (Suc k, block (Suc k) a)) ` R = {(Suc k, c)}" using assms by force
  thus ?thesis by (simp add: tables_of_def atLeastAtMostSuc_conv)
qed

lemma pages_of_interval:
  assumes "s < e"
  shows "pages_of {s..<e} = {q. s div 4096 \<le> q \<and> 4096 * q < e}"
proof (intro set_eqI iffI)
  fix q
  assume "q \<in> {q. s div 4096 \<le> q \<and> 4096 * q < e}"
  hence "max s (4096 * q) \<in> {s..<e}" "q = max s (4096 * q) div 4096" using assms by auto
  thus "q \<in> pages_of {s..<e}" unfolding pages_of_def by blast
next
  fix q
  assume "q \<in> pages_of {s..<e}"
  then obtain a where a: "q = a div 4096" "s \<le> a" "a < e" by (auto simp: pages_of_def)
  have "4096 * (a div 4096) \<le> a" by simp
  hence "4096 * q < e" using a by linarith
  thus "q \<in> {q. s div 4096 \<le> q \<and> 4096 * q < e}" using a by (simp add: div_le_mono)
qed

subsection \<open>The contract\<close>

definition prepares ::
  "nat \<Rightarrow> u64 \<Rightarrow> nat \<Rightarrow> tables \<Rightarrow> (table_state \<Rightarrow> (bool \<times> table_state) option) \<Rightarrow>
    (nat \<times> nat) set \<Rightarrow> nat set \<Rightarrow> bool" where
  "prepares L buf lim T0 f S A =
     (\<forall>T P m. page_map L buf lim T P m \<and> T0 \<subseteq>\<^sub>m T \<longrightarrow>
       (\<exists>ok m' pNext'. f (m, next_of buf T) = Some (ok, m', pNext') \<and> outside_same buf lim m m' \<and>
         (if 4096 * card (dom T \<union> S) \<le> lim
          then ok \<and> (\<exists>T'. T \<subseteq>\<^sub>m T' \<and> dom T' = dom T \<union> S \<and> pNext' = next_of buf T' \<and>
            page_map L buf lim T' (P \<union> A) m')
          else \<not> ok)))"

lemma prepares_mono: "prepares L buf lim T0 f S A \<Longrightarrow> T0 \<subseteq>\<^sub>m T1 \<Longrightarrow> prepares L buf lim T1 f S A"
  unfolding prepares_def using map_le_trans by blast

lemma prepares_nothing: "prepares L buf lim T0 (\<lambda>s. Some (True, s)) {} {}"
  unfolding prepares_def
proof (intro allI impI, elim conjE)
  fix T P m
  assume pm: "page_map L buf lim T P m"
  have "T \<subseteq>\<^sub>m T \<and> dom T = dom T \<union> {} \<and> next_of buf T = next_of buf T \<and> page_map L buf lim T (P \<union> {}) m"
    using pm by simp
  thus "\<exists>ok m' pNext'. Some (True, m, next_of buf T) = Some (ok, m', pNext') \<and> outside_same buf lim m m' \<and>
      (if 4096 * card (dom T \<union> {}) \<le> lim
       then ok \<and> (\<exists>T'. T \<subseteq>\<^sub>m T' \<and> dom T' = dom T \<union> {} \<and> pNext' = next_of buf T' \<and>
         page_map L buf lim T' (P \<union> {}) m')
       else \<not> ok)"
    using page_mapD(4) [OF pm]
    by (intro exI [of _ True] exI [of _ m] exI [of _ "next_of buf T"]) (auto intro!: exI [of _ T])
qed

lemma prepares_seq:
  assumes f: "prepares L buf lim T0 f S A" and g: "prepares L buf lim T0 g S' A'" and fin: "finite S" "finite S'"
  shows "prepares L buf lim T0
    (\<lambda>s. Option.bind (f s) (\<lambda>r. if fst r then g (snd r) else Some (False, snd r))) (S \<union> S') (A \<union> A')"
  unfolding prepares_def
proof (intro allI impI, elim conjE)
  fix T P m
  assume pm: "page_map L buf lim T P m" and T0: "T0 \<subseteq>\<^sub>m T"
  let ?h = "\<lambda>s. Option.bind (f s) (\<lambda>r. if fst r then g (snd r) else Some (False, snd r))"
  obtain ok m1 n1 where r1: "f (m, next_of buf T) = Some (ok, m1, n1)" "outside_same buf lim m m1"
    "if 4096 * card (dom T \<union> S) \<le> lim
     then ok \<and> (\<exists>T'. T \<subseteq>\<^sub>m T' \<and> dom T' = dom T \<union> S \<and> n1 = next_of buf T' \<and> page_map L buf lim T' (P \<union> A) m1)
     else \<not> ok"
    using f pm T0 unfolding prepares_def by blast
  show "\<exists>ok m' pNext'. ?h (m, next_of buf T) = Some (ok, m', pNext') \<and> outside_same buf lim m m' \<and>
      (if 4096 * card (dom T \<union> (S \<union> S')) \<le> lim
       then ok \<and> (\<exists>T'. T \<subseteq>\<^sub>m T' \<and> dom T' = dom T \<union> (S \<union> S') \<and> pNext' = next_of buf T' \<and>
         page_map L buf lim T' (P \<union> (A \<union> A')) m')
       else \<not> ok)"
  proof (cases "4096 * card (dom T \<union> S) \<le> lim")
    case False
    have "card (dom T \<union> S) \<le> card (dom T \<union> (S \<union> S'))"
      using page_mapD(1) [OF pm] fin by (intro card_mono) auto
    thus ?thesis using False r1 by (intro exI [of _ False] exI [of _ m1] exI [of _ n1]) simp
  next
    case True
    then obtain T1 where T1: "T \<subseteq>\<^sub>m T1" "dom T1 = dom T \<union> S" "n1 = next_of buf T1"
      "page_map L buf lim T1 (P \<union> A) m1" and ok: "ok"
      using r1(3) by auto
    obtain ok' m2 n2 where r2: "g (m1, n1) = Some (ok', m2, n2)" "outside_same buf lim m1 m2"
      "if 4096 * card (dom T1 \<union> S') \<le> lim
       then ok' \<and> (\<exists>T'. T1 \<subseteq>\<^sub>m T' \<and> dom T' = dom T1 \<union> S' \<and> n2 = next_of buf T' \<and>
         page_map L buf lim T' (P \<union> A \<union> A') m2)
       else \<not> ok'"
      using g T1(3,4) map_le_trans [OF T0 T1(1)] unfolding prepares_def by blast
    have run: "?h (m, next_of buf T) = Some (ok', m2, n2)" using r1(1) r2(1) ok by simp
    have "outside_same buf lim m m2" using r1(2) r2(2) by (rule outside_same_trans)
    moreover have "if 4096 * card (dom T \<union> (S \<union> S')) \<le> lim
       then ok' \<and> (\<exists>T'. T \<subseteq>\<^sub>m T' \<and> dom T' = dom T \<union> (S \<union> S') \<and> n2 = next_of buf T' \<and>
         page_map L buf lim T' (P \<union> (A \<union> A')) m2)
       else \<not> ok'"
      using r2(3) map_le_trans [OF T1(1)] unfolding T1(2) Un_assoc by (auto split: if_splits)
    ultimately show ?thesis using run by blast
  qed
qed

text \<open>The table behind an entry, and then a body that fills it.\<close>

lemma prepares_subtable:
  assumes ok: "buffer_ok buf lim" and l: "1 \<le> l" "l < L" and parent: "T0 (Suc l, c div 512) = Some j"
    and body: "\<And>T1 i. T0 \<subseteq>\<^sub>m T1 \<Longrightarrow> T1 (l, c) = Some i \<Longrightarrow> prepares L buf lim T1 (body (slot buf i 0)) S A"
    and fin: "finite S"
  shows "prepares L buf lim T0
    (\<lambda>s. case SubtableOf (buffer_end buf lim) (slot buf j (c mod 512)) s of
        None \<Rightarrow> Some (False, s) | Some (t, s') \<Rightarrow> body t s') (insert (l, c) S) A"
  unfolding prepares_def
proof (intro allI impI, elim conjE)
  fix T P m
  assume pm: "page_map L buf lim T P m" and T0: "T0 \<subseteq>\<^sub>m T"
  let ?sub = "SubtableOf (buffer_end buf lim) (slot buf j (c mod 512)) (m, next_of buf T)"
  let ?goal = "\<lambda>r. \<exists>ok m' pNext'. r = Some (ok, m', pNext') \<and> outside_same buf lim m m' \<and>
      (if 4096 * card (dom T \<union> insert (l, c) S) \<le> lim
       then ok \<and> (\<exists>T'. T \<subseteq>\<^sub>m T' \<and> dom T' = dom T \<union> insert (l, c) S \<and> pNext' = next_of buf T' \<and>
         page_map L buf lim T' (P \<union> A) m')
       else \<not> ok)"
  have p: "T (Suc l, c div 512) = Some j" using T0 parent by (force simp: map_le_def dom_def)
  have after: "?goal (body (slot buf i 0) (m1, next_of buf T1))"
    if T1: "T \<subseteq>\<^sub>m T1" "dom T1 = insert (l, c) (dom T)" "T1 (l, c) = Some i" "page_map L buf lim T1 P m1"
      "outside_same buf lim m m1" for T1 i m1
  proof -
    have D: "dom T1 \<union> S = dom T \<union> insert (l, c) S" using T1(2) by simp
    obtain ok m' n' where r: "body (slot buf i 0) (m1, next_of buf T1) = Some (ok, m', n')" "outside_same buf lim m1 m'"
      "if 4096 * card (dom T1 \<union> S) \<le> lim
       then ok \<and> (\<exists>T'. T1 \<subseteq>\<^sub>m T' \<and> dom T' = dom T1 \<union> S \<and> n' = next_of buf T' \<and> page_map L buf lim T' (P \<union> A) m')
       else \<not> ok"
      using body [OF map_le_trans [OF T0 T1(1)] T1(3)] T1(4) map_le_refl unfolding prepares_def by blast
    show ?thesis
      using r outside_same_trans [OF T1(5)] map_le_trans [OF T1(1)] unfolding D by (auto split: if_splits)
  qed
  show "?goal (case ?sub of None \<Rightarrow> Some (False, m, next_of buf T) | Some (t, s') \<Rightarrow> body t s')"
  proof (cases "T (l, c)")
    case (Some i)
    have "?sub = Some (slot buf i 0, m, next_of buf T)" by (rule SubtableOf_found [OF ok pm p Some l(1)])
    thus ?thesis using after [of T i m] Some pm by (auto simp: dom_def insert_absorb)
  next
    case None
    hence card: "card (insert (l, c) (dom T)) = Suc (card (dom T))"
      using page_mapD(1) [OF pm] by (simp add: card_insert_if domIff)
    show ?thesis
    proof (cases "4096 * Suc (card (dom T)) \<le> lim")
      case True
      let ?T = "T((l, c) \<mapsto> card (dom T))"
      obtain m1 where m1: "?sub = Some (slot buf (card (dom T)) 0, m1, next_of buf ?T)"
        "page_map L buf lim ?T P m1" "outside_same buf lim m m1"
        using SubtableOf_new [OF ok pm p None l True] by blast
      have "T \<subseteq>\<^sub>m ?T" using None by (auto simp: map_le_def dom_def)
      thus ?thesis using after [of ?T "card (dom T)" m1] m1 by simp
    next
      case False
      have "?sub = None" using False by (intro SubtableOf_full [OF ok pm p None l(1)]) simp
      moreover have "card (insert (l, c) (dom T)) \<le> card (dom T \<union> insert (l, c) S)"
        using page_mapD(1) [OF pm] fin by (intro card_mono) auto
      ultimately show ?thesis using False card
        by (intro exI [of _ False] exI [of _ m] exI [of _ "next_of buf T"]) simp
    qed
  qed
qed

subsection \<open>The levels\<close>

lemma continue_cong:
  assumes "\<And>s. g s = h s"
  shows "(\<lambda>r. if \<not> fst r then n r else g (snd r)) = (\<lambda>r. if fst r then h (snd r) else n r)"
  using assms by auto

locale level_table =
  fixes k :: nat
    and managed :: u64
    and prepare :: "u64 \<Rightarrow> u64 \<Rightarrow> u64 \<Rightarrow> u64 \<Rightarrow> table_state \<Rightarrow> (bool \<times> table_state) option"
  assumes level: "1 \<le> k" "k \<le> 4" and managed: "unat managed = 2 ^ (12 + 9 * k)"
    and prepares: "buffer_ok buf lim \<Longrightarrow> k < L \<Longrightarrow> s < e \<Longrightarrow> unat e \<le> 2 ^ 57 \<Longrightarrow>
      \<forall>a \<in> {unat s..<unat e}. block k a = c \<Longrightarrow> T0 (Suc k, c div 512) = Some j \<Longrightarrow>
      prepares L buf lim T0 (prepare s e (slot buf j 0) (buffer_end buf lim))
        (tables_of k {unat s..<unat e}) (pages_of {unat s..<unat e})"
begin

lemma next_block:
  assumes "unat x \<le> 2 ^ 57"
  shows "unat ((x div managed + 1) * managed) = Suc (block k (unat x)) * 2 ^ (12 + 9 * k)"
    "unat x < unat ((x div managed + 1) * managed)"
proof -
  have M: "(2::nat) ^ (12 + 9 * k) \<le> 2 ^ 48" using level by (intro power_increasing) auto
  have "block k (unat x) * 2 ^ (12 + 9 * k) \<le> unat x" by (simp add: block_def)
  hence bound: "Suc (block k (unat x)) * 2 ^ (12 + 9 * k) \<le> 2 ^ 57 + 2 ^ 48" using assms M by simp
  have "unat (x div managed) = block k (unat x)" by (simp add: unat_u64_div managed block_def)
  moreover have "block k (unat x) \<le> unat x" by (simp add: block_def)
  ultimately have "unat (x div managed + 1) = Suc (block k (unat x))"
    using assms by (subst unat_u64_plus) simp_all
  thus eq: "unat ((x div managed + 1) * managed) = Suc (block k (unat x)) * 2 ^ (12 + 9 * k)"
    using bound by (subst unat_u64_mult) (simp_all add: managed)
  show "unat x < unat ((x div managed + 1) * managed)"
    unfolding eq block_def using dividend_less_div_times [of "2 ^ (12 + 9 * k)" "unat x"] by simp
qed

text \<open>The end of the first subrange of a range that starts at \<open>s\<close>.\<close>

abbreviation first_end :: "u64 \<Rightarrow> u64 \<Rightarrow> u64" where
  "first_end s e \<equiv> (if (s div managed + 1) * managed < e then (s div managed + 1) * managed else e)"

lemma first_part:
  assumes "s < e" "unat e \<le> 2 ^ 57"
  shows "s < first_end s e" "unat (first_end s e) \<le> unat e"
    "\<forall>a \<in> {unat s..<unat (first_end s e)}. block k a = block k (unat s)"
    "{unat s..<unat (first_end s e)} \<union> {unat ((s div managed + 1) * managed)..<unat e} = {unat s..<unat e}"
proof -
  have s: "unat s \<le> 2 ^ 57" using assms by (simp add: word_less_nat_alt)
  note nb = next_block [OF s]
  show "s < first_end s e" "unat (first_end s e) \<le> unat e"
    using nb(2) assms(1) by (simp_all add: word_less_nat_alt)
  show "{unat s..<unat (first_end s e)} \<union> {unat ((s div managed + 1) * managed)..<unat e} = {unat s..<unat e}"
    using nb(2) assms(1) by (auto simp: word_less_nat_alt)
  show "\<forall>a \<in> {unat s..<unat (first_end s e)}. block k a = block k (unat s)"
  proof
    fix a
    assume a: "a \<in> {unat s..<unat (first_end s e)}"
    have "unat (first_end s e) \<le> unat ((s div managed + 1) * managed)" by (simp add: word_less_nat_alt)
    hence "a < Suc (block k (unat s)) * 2 ^ (12 + 9 * k)" using a nb(1) by simp
    hence "block k a < Suc (block k (unat s))" unfolding block_def by (simp add: less_mult_imp_div_less)
    moreover have "block k (unat s) \<le> block k a" using a by (simp add: block_def div_le_mono)
    ultimately show "block k a = block k (unat s)" by simp
  qed
qed

lemma for_subtables_prepares:
  assumes ok: "buffer_ok buf lim" and L: "k < L" and e: "unat e \<le> 2 ^ 57"
    and parent: "T0 (Suc k, c) = Some j" and one: "\<forall>a \<in> {unat s..<unat e}. block (Suc k) a = c"
  defines "f \<equiv> (\<lambda>s e. prepare s e (slot buf j 0) (buffer_end buf lim))"
  shows "prepares L buf lim T0 (for_subtables managed f s (first_end s e) e)
    (tables_of k {unat s..<unat e}) (pages_of {unat s..<unat e})"
  using one
proof (induction "unat e - unat s" arbitrary: s rule: less_induct)
  case less
  show ?case
  proof (cases "s < e")
    case False
    hence none: "{unat s..<unat e} = {}" by (simp add: word_less_nat_alt)
    have stop: "for_subtables managed f s (first_end s e) e = (\<lambda>st. Some (True, st))"
      using False by (intro ext) (simp add: for_subtables.simps)
    show ?thesis unfolding none stop by (simp add: prepares_nothing)
  next
    case True
    let ?t = "first_end s e" and ?s = "(s div managed + 1) * managed"
    note fp = first_part [OF True e]
    have s: "unat s \<le> 2 ^ 57" using True e by (simp add: word_less_nat_alt)
    have "block k (unat s) div 512 = c" using less.prems True by (simp add: block_Suc word_less_nat_alt)
    hence part: "prepares L buf lim T0 (f s ?t) (tables_of k {unat s..<unat ?t}) (pages_of {unat s..<unat ?t})"
      unfolding f_def using parent fp(2) e by (intro prepares [OF ok L fp(1) _ fp(3)]) simp_all
    have step: "first_end ?s e = (if (?t div managed + 1) * managed < e then (?t div managed + 1) * managed else e)"
      if "?s < e"
      using that by simp
    have "prepares L buf lim T0 (for_subtables managed f ?s (first_end ?s e) e)
        (tables_of k {unat ?s..<unat e}) (pages_of {unat ?s..<unat e})"
    proof (rule less.hyps)
      show "unat e - unat ?s < unat e - unat s" using next_block(2) [OF s] True by (simp add: word_less_nat_alt)
      show "\<forall>a \<in> {unat ?s..<unat e}. block (Suc k) a = c"
        using less.prems next_block(2) [OF s] by simp
    qed
    from prepares_seq [OF part this]
    have seq: "prepares L buf lim T0 (\<lambda>st. Option.bind (f s ?t st)
          (\<lambda>r. if fst r then for_subtables managed f ?s (first_end ?s e) e (snd r) else Some (False, snd r)))
        (tables_of k {unat s..<unat e}) (pages_of {unat s..<unat e})"
      unfolding tables_of_simps(3) [symmetric] pages_of_simps(2) [symmetric] fp(4) by simp
    have "for_subtables managed f s ?t e = (\<lambda>st. Option.bind (f s ?t st)
          (\<lambda>r. if fst r then for_subtables managed f ?s (first_end ?s e) e (snd r) else Some (False, snd r)))"
    proof (rule ext)
      fix st
      have "for_subtables managed f ?s (if (?t div managed + 1) * managed < e then (?t div managed + 1) * managed else e) e st' =
          for_subtables managed f ?s (first_end ?s e) e st'" for st'
      proof (cases "?s < e")
        case True
        show ?thesis unfolding step [OF True] ..
      next
        case stop: False
        show ?thesis using stop by (simp add: for_subtables.simps [of managed f ?s])
      qed
      from continue_cong [OF this] show "for_subtables managed f s ?t e st = Option.bind (f s ?t st)
          (\<lambda>r. if fst r then for_subtables managed f ?s (first_end ?s e) e (snd r) else Some (False, snd r))"
        unfolding for_subtables.simps [of managed f s ?t e st] Let_def if_P [OF True]
        by (rule arg_cong [where f = "Option.bind (f s ?t st)"])
    qed
    thus ?thesis using seq by simp
  qed
qed

lemma range_prepares:
  assumes "buffer_ok buf lim" "k < L" "unat e \<le> 2 ^ 57" "T0 (Suc k, c) = Some j"
    "\<forall>a \<in> {unat s..<unat e}. block (Suc k) a = c"
  shows "prepares L buf lim T0
    (prepare_subtables managed (\<lambda>s e. prepare s e (slot buf j 0) (buffer_end buf lim)) s e)
    (tables_of k {unat s..<unat e}) (pages_of {unat s..<unat e})"
proof -
  have "s div managed * managed + managed = (s div managed + 1) * managed" by (simp add: algebra_simps)
  hence "prepare_subtables managed f s e = for_subtables managed f s (first_end s e) e" for f
    by (intro ext) (simp only: prepare_subtables_def Let_def)
  thus ?thesis
    using for_subtables_prepares [where ?T0.0 = T0 and c = c and j = j and s = s and e = e, OF assms] by simp
qed

text \<open>The step to the next level.\<close>

lemma next_level:
  assumes "buffer_ok buf lim" "Suc k < L" "s < e" "unat e \<le> 2 ^ 57"
    "\<forall>a \<in> {unat s..<unat e}. block (Suc k) a = c" "T0 (Suc (Suc k), c div 512) = Some j"
  shows "prepares L buf lim T0 (\<lambda>st.
      case SubtableOf (buffer_end buf lim) (slot buf j 0 + 8 * (drop_bit (12 + 9 * Suc k) s AND 0x1FF)) st of
        None \<Rightarrow> Some (False, st)
      | Some (t, st') \<Rightarrow> prepare_subtables managed (\<lambda>s e. prepare s e t (buffer_end buf lim)) s e st')
    (tables_of (Suc k) {unat s..<unat e}) (pages_of {unat s..<unat e})"
proof -
  have s: "unat s \<in> {unat s..<unat e}" using assms(3) by (simp add: word_less_nat_alt)
  hence "unat s div 2 ^ (12 + 9 * Suc k) = c" using assms(5) unfolding block_def by blast
  hence slot: "slot buf j 0 + 8 * (drop_bit (12 + 9 * Suc k) s AND 0x1FF) = slot buf j (c mod 512)"
    unfolding entry_slot by simp
  have "tables_of (Suc k) {unat s..<unat e} = insert (Suc k, c) (tables_of k {unat s..<unat e})"
    using assms(5) s by (intro tables_of_Suc_block) auto
  moreover have "prepares L buf lim T1
      (prepare_subtables managed (\<lambda>s e. prepare s e (slot buf i 0) (buffer_end buf lim)) s e)
      (tables_of k {unat s..<unat e}) (pages_of {unat s..<unat e})"
    if "T1 (Suc k, c) = Some i" for T1 i
    using assms(2) by (intro range_prepares [where c = c] assms that) simp
  ultimately show ?thesis
    unfolding slot using assms by (auto intro!: prepares_subtable)
qed

end

subsection \<open>The four levels of the code\<close>

lemma PrepareLevel1Table_prepares:
  assumes "buffer_ok buf lim" "1 < L" "s < e" "unat e \<le> 2 ^ 57"
    "\<forall>a \<in> {unat s..<unat e}. block 1 a = c" "T0 (Suc 1, c div 512) = Some j"
  shows "prepares L buf lim T0 (PrepareLevel1Table s e (slot buf j 0) (buffer_end buf lim))
    (tables_of 1 {unat s..<unat e}) (pages_of {unat s..<unat e})"
proof -
  let ?body = "\<lambda>t (m, pNext). do { m \<leftarrow> map_level1_pages t (s AND ADDRESS_MASK) e m; Some (True, m, pNext) }"
  have lt: "unat s < unat e" using assms(3) by (simp add: word_less_nat_alt)
  have in_block: "q div 512 = c" if "unat s div 4096 \<le> q" "4096 * q < unat e" for q
  proof -
    have "q \<in> pages_of {unat s..<unat e}" using that pages_of_interval [OF lt] by simp
    then obtain a where "a \<in> {unat s..<unat e}" "q = a div 4096" unfolding pages_of_def by blast
    thus ?thesis using assms(5) block_page by metis
  qed
  have "s AND ADDRESS_MASK = (s div 4096) * 4096"
    unfolding ADDRESS_MASK_eq and_not_mask by (simp add: take_bit_eq_mod minus_mod_eq_div_mult)
  moreover have "4096 * (unat s div 4096) < 18446744073709551616"
    using unat_u64_less [of s] by linarith
  ultimately have start: "unat (s AND ADDRESS_MASK) = 4096 * (unat s div 4096)"
    by (simp add: unat_u64_mult unat_u64_div mult.commute)
  have "prepares L buf lim T1 (?body (slot buf i 0)) {} (pages_of {unat s..<unat e})"
    if T1: "T1 (1, c) = Some i" for T1 i
    unfolding prepares_def
  proof (intro allI impI, elim conjE)
    fix T P m
    assume pm: "page_map L buf lim T P m" and le: "T1 \<subseteq>\<^sub>m T"
    have T: "T (1, c) = Some i" using le T1 by (force simp: map_le_def dom_def)
    obtain m' where "map_level1_pages (slot buf i 0) (s AND ADDRESS_MASK) e m = Some m'"
      "page_map L buf lim T (P \<union> pages_of {unat s..<unat e}) m'" "outside_same buf lim m m'"
      using map_pages_correct [where endAddress = e, OF assms(1) pm start _ in_block T] assms(4)
      unfolding pages_of_interval [OF lt] by auto
    thus "\<exists>ok m' pNext'. ?body (slot buf i 0) (m, next_of buf T) = Some (ok, m', pNext') \<and>
      outside_same buf lim m m' \<and>
      (if 4096 * card (dom T \<union> {}) \<le> lim
       then ok \<and> (\<exists>T'. T \<subseteq>\<^sub>m T' \<and> dom T' = dom T \<union> {} \<and> pNext' = next_of buf T' \<and>
         page_map L buf lim T' (P \<union> pages_of {unat s..<unat e}) m')
       else \<not> ok)"
      using page_mapD(4) [OF pm] by (intro exI [of _ True] exI [of _ m'] exI [of _ "next_of buf T"])
        (auto intro!: exI [of _ T])
  qed
  hence "prepares L buf lim T0 (\<lambda>st.
      case SubtableOf (buffer_end buf lim) (slot buf j (c mod 512)) st of
        None \<Rightarrow> Some (False, st) | Some (t, st') \<Rightarrow> ?body t st') (insert (1, c) {}) (pages_of {unat s..<unat e})"
    using assms by (intro prepares_subtable) simp_all
  moreover have "tables_of 1 {unat s..<unat e} = insert (1, c) {}"
    using tables_of_Suc_block [of "{unat s..<unat e}" 0 c] assms(5) lt by simp
  moreover have "unat s div 2 ^ 21 = c" using assms(5) lt by (simp add: block_def)
  hence "slot buf j 0 + 8 * (drop_bit 21 s AND 0x1FF) = slot buf j (c mod 512)"
    unfolding entry_slot by simp
  ultimately show ?thesis
    by (simp add: PrepareLevel1Table_def [abs_def])
qed

interpretation level1: level_table 1 LEVEL1_MANAGED_BYTES PrepareLevel1Table
proof
  show "prepares L buf lim T0 (PrepareLevel1Table s e (slot buf j 0) (buffer_end buf lim))
      (tables_of 1 {unat s..<unat e}) (pages_of {unat s..<unat e})"
    if "buffer_ok buf lim" "1 < L" "s < e" "unat e \<le> 2 ^ 57" "\<forall>a \<in> {unat s..<unat e}. block 1 a = c"
      "T0 (Suc 1, c div 512) = Some j" for buf lim L s e c T0 j
    using that by (rule PrepareLevel1Table_prepares)
qed simp_all

interpretation level2: level_table 2 LEVEL2_MANAGED_BYTES PrepareLevel2Table
proof
  show "prepares L buf lim T0 (PrepareLevel2Table s e (slot buf j 0) (buffer_end buf lim))
      (tables_of 2 {unat s..<unat e}) (pages_of {unat s..<unat e})"
    if "buffer_ok buf lim" "2 < L" "s < e" "unat e \<le> 2 ^ 57" "\<forall>a \<in> {unat s..<unat e}. block 2 a = c"
      "T0 (Suc 2, c div 512) = Some j" for buf lim L s e c T0 j
    using level1.next_level [of buf lim L s e c T0 j] that
    by (simp add: PrepareLevel2Table_def [abs_def] Let_def numeral_2_eq_2)
qed simp_all

interpretation level3: level_table 3 LEVEL3_MANAGED_BYTES PrepareLevel3Table
proof
  show "prepares L buf lim T0 (PrepareLevel3Table s e (slot buf j 0) (buffer_end buf lim))
      (tables_of 3 {unat s..<unat e}) (pages_of {unat s..<unat e})"
    if "buffer_ok buf lim" "3 < L" "s < e" "unat e \<le> 2 ^ 57" "\<forall>a \<in> {unat s..<unat e}. block 3 a = c"
      "T0 (Suc 3, c div 512) = Some j" for buf lim L s e c T0 j
    using level2.next_level [of buf lim L s e c T0 j] that
    by (simp add: PrepareLevel3Table_def [abs_def] Let_def)
qed simp_all

interpretation level4: level_table 4 LEVEL4_MANAGED_BYTES PrepareLevel4Table
proof
  show "prepares L buf lim T0 (PrepareLevel4Table s e (slot buf j 0) (buffer_end buf lim))
      (tables_of 4 {unat s..<unat e}) (pages_of {unat s..<unat e})"
    if "buffer_ok buf lim" "4 < L" "s < e" "unat e \<le> 2 ^ 57" "\<forall>a \<in> {unat s..<unat e}. block 4 a = c"
      "T0 (Suc 4, c div 512) = Some j" for buf lim L s e c T0 j
    using level3.next_level [of buf lim L s e c T0 j] that
    by (simp add: PrepareLevel4Table_def [abs_def] Let_def)
qed simp_all

end
