(* ===== verification/PageMapSetup.thy ===== *)
theory PageMapSetup
  imports PageMapLevels
begin

text \<open>
  The finished page maps. \<open>translate\<close> is the processor's walk through the tables; the
  theorems say which addresses the maps of the boot loader translate, and exactly when
  the buffer for the tables suffices.
\<close>

subsection \<open>Ranges\<close>

lemma tables_of_UN [simp]: "tables_of k (\<Union>(F ` X)) = (\<Union>x \<in> X. tables_of k (F x))"
  by (auto simp: tables_of_def)

lemma block_zero: "a < 2 ^ (12 + 9 * l) \<Longrightarrow> block l a = 0"
  by (simp add: block_def)

lemma slot_0 [simp]: "slot buf 0 0 = buf"
  by (simp add: slot_def)

lemma MapMemoryRangeInLevel4Table_prepares:
  assumes "buffer_ok buf lim" "unat e \<le> 2 ^ 48" "T0 (4, 0) = Some 0"
  shows "prepares 4 buf lim T0 (MapMemoryRangeInLevel4Table s e buf (buffer_end buf lim))
    (tables_of 3 {unat s..<unat e}) (pages_of {unat s..<unat e})"
proof -
  have "\<forall>a \<in> {unat s..<unat e}. block (Suc 3) a = 0"
    using assms(2) by (auto intro!: block_zero)
  thus ?thesis
    using level3.range_prepares [of buf lim 4 e T0 0 0 s] assms
    by (simp add: MapMemoryRangeInLevel4Table_def)
qed

lemma MapMemoryRangeInLevel5Table_prepares:
  assumes "buffer_ok buf lim" "unat e \<le> 2 ^ 57" "T0 (5, 0) = Some 0"
  shows "prepares 5 buf lim T0 (MapMemoryRangeInLevel5Table s e buf (buffer_end buf lim))
    (tables_of 4 {unat s..<unat e}) (pages_of {unat s..<unat e})"
proof -
  have "\<forall>a \<in> {unat s..<unat e}. block (Suc 4) a = 0"
    using assms(2) by (auto intro!: block_zero)
  thus ?thesis
    using level4.range_prepares [of buf lim 5 e T0 0 0 s] assms
    by (simp add: MapMemoryRangeInLevel5Table_def)
qed

text \<open>The bytes of the included descriptors.\<close>

definition desc_bytes :: "efi_desc \<Rightarrow> nat set" where
  "desc_bytes d = {unat (efi_PhysicalStart d)..<unat (efi_PhysicalStart d) + 4096 * unat (efi_NumberOfPages d)}"

text \<open>A region below \<open>2 ^ w\<close>; the firmware's descriptors and the frame buffer are such.\<close>

definition region_fits :: "nat \<Rightarrow> nat \<Rightarrow> nat \<Rightarrow> bool" where
  "region_fits w base bytes = (base + bytes \<le> 2 ^ w)"

abbreviation desc_fits :: "nat \<Rightarrow> efi_desc \<Rightarrow> bool" where
  "desc_fits w d \<equiv> region_fits w (unat (efi_PhysicalStart d)) (4096 * unat (efi_NumberOfPages d))"

lemma region_fits_last:
  fixes base :: u64
  assumes "region_fits w (unat base) n" "w \<le> 57"
  shows "base + of_nat n = of_nat (unat base + n)" "unat (base + of_nat n) = unat base + n" "unat (base + of_nat n) \<le> 2 ^ w"
proof -
  have "(2::nat) ^ w \<le> 2 ^ 57" using assms(2) by (intro power_increasing) simp_all
  hence "unat base + n < 18446744073709551616" using assms(1) by (simp add: region_fits_def)
  thus "unat (base + of_nat n) = unat base + n" by (rule unat_u64_plus_of_nat)
  thus "unat (base + of_nat n) \<le> 2 ^ w" using assms(1) by (simp add: region_fits_def)
qed simp

lemma desc_fits_last:
  assumes "desc_fits w d" "w \<le> 57"
  shows "desc_bytes d = {unat (efi_PhysicalStart d)..<unat (desc_last d)}" "unat (desc_last d) \<le> 2 ^ w"
proof -
  have "desc_last d = efi_PhysicalStart d + of_nat (4096 * unat (efi_NumberOfPages d))"
    by (simp add: desc_last_def mult.commute)
  thus "desc_bytes d = {unat (efi_PhysicalStart d)..<unat (desc_last d)}" "unat (desc_last d) \<le> 2 ^ w"
    using region_fits_last [OF assms] by (simp_all add: desc_bytes_def)
qed

definition included_bytes :: "(efi_desc \<Rightarrow> bool) \<Rightarrow> efi_desc list \<Rightarrow> nat set" where
  "included_bytes include descs = (\<Union>d \<in> {d \<in> set descs. include d}. desc_bytes d)"

lemma included_bytes_simps [simp]:
  "included_bytes include [] = {}"
  "included_bytes include (d # descs) =
    (if include d then desc_bytes d \<union> included_bytes include descs else included_bytes include descs)"
  by (auto simp: included_bytes_def)

lemma finite_included_bytes [simp]: "finite (included_bytes include descs)"
  by (induction descs) (simp_all add: desc_bytes_def)

lemma map_descs_prepares:
  assumes "\<forall>d \<in> set descs. include d \<longrightarrow> prepares L buf lim T0
      (mapRange (efi_PhysicalStart d) (desc_last d)) (tables_of k (desc_bytes d)) (pages_of (desc_bytes d))"
  shows "prepares L buf lim T0 (map_descs include mapRange descs)
    (tables_of k (included_bytes include descs)) (pages_of (included_bytes include descs))"
  using assms
proof (induction descs)
  case Nil
  have "map_descs include mapRange [] = (\<lambda>s. Some (True, s))" by (simp add: fun_eq_iff)
  thus ?case using prepares_nothing by simp
next
  case (Cons d descs)
  hence rest: "prepares L buf lim T0 (map_descs include mapRange descs)
    (tables_of k (included_bytes include descs)) (pages_of (included_bytes include descs))" by simp
  show ?case
  proof (cases "include d")
    case True
    have "map_descs include mapRange (d # descs) = (\<lambda>s. Option.bind (mapRange (efi_PhysicalStart d) (desc_last d) s)
        (\<lambda>r. if fst r then map_descs include mapRange descs (snd r) else Some (False, snd r)))"
      using True by (simp add: fun_eq_iff)
    thus ?thesis
      using prepares_seq [OF _ rest, of "mapRange (efi_PhysicalStart d) (desc_last d)" "tables_of k (desc_bytes d)"]
        Cons.prems True by (simp add: desc_bytes_def)
  next
    case False
    have "map_descs include mapRange (d # descs) = map_descs include mapRange descs"
      using False by (simp add: fun_eq_iff)
    thus ?thesis using rest False by simp
  qed
qed

subsection \<open>The root table\<close>

lemma empty_page_map:
  assumes "1 \<le> L" "4096 \<le> lim"
  shows "page_map L buf lim [(L, 0) \<mapsto> 0] {} (zero_table buf m)"
proof -
  have "zero_table buf m (slot buf 0 j) = table_entry buf [(L, 0) \<mapsto> 0] {} L j" if "j < 512" for j
    using zero_table_eq [of buf 0 m] that assms(1) by (auto simp: table_entry_def)
  thus ?thesis using assms by (auto simp: page_map_def split: if_splits)
qed

lemma root_table_result:
  assumes buf: "unat buf mod 4096 = 0" "unat buf + unat lim + 4096 < 18446744073709551616" and L: "1 \<le> L"
    and body: "buffer_ok buf (unat lim) \<Longrightarrow> prepares L buf (unat lim) [(L, 0) \<mapsto> 0] (body buf (buffer_end buf (unat lim))) S A"
    and fin: "finite S" "(L, 0) \<notin> S"
  shows "\<exists>r m'. with_root_table buf lim body m = Some (r, m') \<and> outside_same buf (unat lim) m m' \<and>
    (if 4096 * Suc (card S) \<le> unat lim
     then r = Some buf \<and> (\<exists>T. T (L, 0) = Some 0 \<and> page_map L buf (unat lim) T A m')
     else r = None)"
proof (cases "unat lim < 4096")
  case True
  hence "with_root_table buf lim body m = Some (None, m)"
    using buf(1) by (simp add: with_root_table_def word_less_nat_alt)
  thus ?thesis using True by simp
next
  case False
  have ok: "buffer_ok buf (unat lim)" using buf by (simp add: buffer_ok_def dvd_eq_mod_eq_0)
  let ?T = "[(L, 0) \<mapsto> 0] :: tables"
  have mod: "buf mod 4096 = 0" using buf(1) by (simp add: unat_u64_mod flip: unat_eq_0)
  have end_eq: "buf + 8 * (lim div 8) = buffer_end buf (unat lim)"
  proof -
    have "lim div 8 = of_nat (unat lim div 8)" by (simp flip: unat_u64_div [of lim 8, simplified])
    thus ?thesis by (simp add: buffer_end_def)
  qed
  have next_eq: "buf + 8 * 512 = next_of buf ?T" by (simp add: next_of_def slot_def)
  have card: "card (dom ?T \<union> S) = Suc (card S)" using fin by simp
  obtain ok' m' n' where r: "body buf (buffer_end buf (unat lim)) (zero_table buf m, next_of buf ?T) = Some (ok', m', n')"
    "outside_same buf (unat lim) (zero_table buf m) m'"
    "if 4096 * Suc (card S) \<le> unat lim
     then ok' \<and> (\<exists>T'. ?T \<subseteq>\<^sub>m T' \<and> page_map L buf (unat lim) T' A m') else \<not> ok'"
  proof -
    have "page_map L buf (unat lim) ?T {} (zero_table buf m)" using False by (intro empty_page_map L) simp
    with body [OF ok] obtain ok' m' n' where r: "body buf (buffer_end buf (unat lim)) (zero_table buf m, next_of buf ?T) = Some (ok', m', n')"
      "outside_same buf (unat lim) (zero_table buf m) m'"
      "if 4096 * card (dom ?T \<union> S) \<le> unat lim
       then ok' \<and> (\<exists>T'. ?T \<subseteq>\<^sub>m T' \<and> dom T' = dom ?T \<union> S \<and> n' = next_of buf T' \<and>
         page_map L buf (unat lim) T' ({} \<union> A) m') else \<not> ok'"
      unfolding prepares_def using map_le_refl by blast
    show thesis
    proof (rule that [OF r(1,2)])
      show "if 4096 * Suc (card S) \<le> unat lim
         then ok' \<and> (\<exists>T'. ?T \<subseteq>\<^sub>m T' \<and> page_map L buf (unat lim) T' A m') else \<not> ok'"
        using r(3) unfolding card Un_empty_left by (cases "4096 * Suc (card S) \<le> unat lim") auto
    qed
  qed
  have "outside_same buf (unat lim) m (zero_table buf m)"
  proof -
    have "unat (slot buf 0 i - buf) < unat lim" if "i < 512" for i
      using slot_inside [OF ok _ that, of 0] False by simp
    hence "a \<noteq> slot buf 0 i" if "unat lim \<le> unat (a - buf)" "i < 512" for a i
      using that leD by blast
    thus ?thesis using zero_table_eq [of buf 0 m] by (simp add: outside_same_def) blast
  qed
  hence "outside_same buf (unat lim) m m'" using r(2) by (rule outside_same_trans)
  moreover have "with_root_table buf lim body m = Some (if ok' then Some buf else None, m')"
    using False r(1) by (simp add: with_root_table_def mod end_eq next_eq [simplified] Let_def word_less_nat_alt)
  moreover have "T' (L, 0) = Some 0" if "?T \<subseteq>\<^sub>m T'" for T'
    using that by (simp add: map_le_def)
  ultimately show ?thesis using r(3) by (auto split: if_splits)
qed

subsection \<open>The processor's walk\<close>

text \<open>
  Through the tables of levels \<open>l\<close> to 1: the physical address of \<open>a\<close> and whether it
  may be written. Bits 51 to 12 of an entry are an address, bit 0 is the present bit and
  bit 1 allows writes.
\<close>

fun translate :: "nat \<Rightarrow> entries \<Rightarrow> u64 \<Rightarrow> u64 \<Rightarrow> (u64 \<times> bool) option" where
  "translate 0 m t a = Some (t OR (a AND 0xFFF), True)"
| "translate (Suc l) m t a =
     (let e = m (t + 8 * (drop_bit (12 + 9 * l) a AND 0x1FF))
      in if e AND 1 = 0 then None
         else map_option (\<lambda>(p, w). (p, w \<and> e AND 2 \<noteq> 0)) (translate l m (e AND 0x000FFFFFFFFFF000) a))"

lemma physical_entry:
  fixes w :: u64
  assumes "4096 dvd unat w" "unat w < 2 ^ 52"
  shows "(w OR 3) AND 0x000FFFFFFFFFF000 = w"
proof -
  have "unat (take_bit 52 w) = unat w" using assms(2) by (simp add: take_bit_eq_mod unat_u64_mod)
  hence "take_bit 52 w = w" by (metis of_nat_unat_u64)
  hence "w AND mask 52 = w" by (simp only: take_bit_eq_mask)
  moreover have mask: "(0x000FFFFFFFFFF000 :: u64) = ADDRESS_MASK AND mask 52" by (simp add: mask_eq_decr_exp)
  ultimately show ?thesis unfolding mask and.assoc [symmetric] entry_address [OF assms(1)] by simp
qed

lemma page_split: "of_nat (4096 * (unat a div 4096)) OR (a AND 0xFFF) = (a :: u64)"
proof -
  have "of_nat (4096 * (unat a div 4096)) = a AND NOT (mask 12)"
    unfolding and_not_mask take_bit_eq_mod by (simp add: minus_mod_eq_mult_div flip: unat_u64_div [of a 4096, simplified])
  moreover have "(0xFFF :: u64) = mask 12" by (simp add: mask_eq_decr_exp)
  ultimately show ?thesis by (simp add: bit_eq_iff bit_simps) auto
qed

lemma table_ancestors:
  assumes "page_map L buf lim T P m" "a div 4096 \<in> P"
  shows "1 \<le> l \<Longrightarrow> l \<le> L \<Longrightarrow> T (l, block l a) \<noteq> None"
proof (induction l)
  case (Suc l)
  show ?case
  proof (cases "l = 0")
    case True
    thus ?thesis using page_mapD(8) [OF assms] block_page [of a] by simp
  next
    case False
    then obtain k where "T (l, block l a) = Some k" using Suc by auto
    thus ?thesis using page_mapD(7) [OF assms(1), of l "block l a" k] Suc.prems by (auto simp: block_Suc)
  qed
qed simp

lemma translate_page_map:
  assumes ok: "buffer_ok buf lim" "unat buf + lim < 2 ^ 52" and pm: "page_map L buf lim T P m"
    and small: "unat a < 2 ^ 52"
  shows "T (l, block l (unat a)) = Some k \<Longrightarrow>
    translate l m (slot buf k 0) a = (if unat a div 4096 \<in> P then Some (a, True) else None)"
proof (induction l arbitrary: k)
  case 0
  thus ?case using page_mapD(5) [OF pm] by fastforce
next
  case (Suc l)
  let ?i = "unat a div 2 ^ (12 + 9 * l)"
  have "?i = 512 * block (Suc l) (unat a) + ?i mod 512"
    using block_Suc [of l "unat a"] by (simp add: block_def)
  hence entry: "m (slot buf k 0 + 8 * (drop_bit (12 + 9 * l) a AND 0x1FF)) = table_entry buf T P (Suc l) ?i"
    unfolding entry_slot using page_mapD(9) [OF pm Suc.prems, of "?i mod 512"] by simp
  have two: "(w OR 3) AND 2 \<noteq> (0 :: u64)" for w by (simp add: word_ao_dist)
  show ?case
  proof (cases l)
    case 0
    let ?p = "unat a div 4096"
    have "unat (of_nat (4096 * ?p) :: u64) = 4096 * ?p" using small by (intro unat_u64_of_nat) simp
    moreover have "4096 * ?p < 2 ^ 52" using small by simp
    ultimately have "(of_nat (4096 * ?p) OR 3) AND 0x000FFFFFFFFFF000 = (of_nat (4096 * ?p) :: u64)"
      by (intro physical_entry) simp_all
    thus ?thesis using entry page_split [of a] two 0
      by (simp add: table_entry_def Let_def del: of_nat_mult)
  next
    case (Suc l')
    show ?thesis
    proof (cases "T (l, block l (unat a))")
      case None
      hence "unat a div 4096 \<notin> P"
        using table_ancestors [OF pm, of "unat a" l] Suc page_mapD(6) [OF pm Suc.prems] by auto
      moreover have "table_entry buf T P (Suc l) ?i = 0"
        using None Suc by (simp add: table_entry_def block_def)
      ultimately show ?thesis using entry by simp
    next
      case (Some k')
      have place: "4096 * Suc k' \<le> lim" by (rule page_map_place [OF pm Some])
      have "unat (slot buf k' 0) = unat buf + 4096 * k'"
        unfolding slot_def using ok(2) place by (subst unat_u64_plus_of_nat) simp_all
      hence "(slot buf k' 0 OR 3) AND 0x000FFFFFFFFFF000 = slot buf k' 0"
        using ok place slot_page_aligned [OF ok(1), of k'] by (intro physical_entry) simp_all
      moreover have "table_entry buf T P (Suc l) ?i = slot buf k' 0 OR 3"
        using Some Suc by (simp add: table_entry_def block_def)
      ultimately show ?thesis using entry Suc.IH [OF Some] two by (simp add: Let_def)
    qed
  qed
qed

subsection \<open>The three page maps\<close>

text \<open>The map of \<open>L\<close> levels at \<open>t\<close> translates the pages of \<open>R\<close> to themselves, and nothing else.\<close>

definition identity_map :: "nat \<Rightarrow> nat set \<Rightarrow> entries \<Rightarrow> u64 \<Rightarrow> bool" where
  "identity_map L R m t = (\<forall>a. unat a < 2 ^ 52 \<and> unat a < 2 ^ (12 + 9 * L) \<longrightarrow>
     translate L m t a = (if unat a div 4096 \<in> pages_of R then Some (a, True) else None))"

definition inside_same :: "u64 \<Rightarrow> nat \<Rightarrow> entries \<Rightarrow> entries \<Rightarrow> bool" where
  "inside_same buf lim m m' = (\<forall>a. unat (a - buf) < lim \<longrightarrow> m' a = m a)"

lemma inside_same_refl [simp]: "inside_same buf lim m m"
  by (simp add: inside_same_def)

lemma page_map_inside_same:
  assumes "buffer_ok buf lim" "page_map L buf lim T P m" "inside_same buf lim m m'"
  shows "page_map L buf lim T P m'"
proof -
  have "m' (slot buf k j) = m (slot buf k j)" if "T (l, c) = Some k" "j < 512" for l c k j
    using slot_inside [OF assms(1) page_map_place(2) [OF assms(2) that(1)] that(2)] assms(3)
    by (simp add: inside_same_def)
  thus ?thesis using assms(2) unfolding page_map_def by simp
qed

text \<open>
  What the result of a setup says of a map of \<open>Suc k\<close> levels for the bytes \<open>R\<close>. Later
  writes outside of the buffer do not change the map.
\<close>

definition maps_exactly ::
  "nat \<Rightarrow> nat set \<Rightarrow> u64 \<Rightarrow> u64 \<Rightarrow> entries \<Rightarrow> (u64 option \<times> entries) option \<Rightarrow> bool" where
  "maps_exactly k R buf lim m result = (\<exists>r m'. result = Some (r, m') \<and> outside_same buf (unat lim) m m' \<and>
     r = (if 4096 * Suc (card (tables_of k R)) \<le> unat lim then Some buf else None) \<and>
     (r = Some buf \<longrightarrow> (\<forall>m''. inside_same buf (unat lim) m' m'' \<longrightarrow> identity_map (Suc k) R m'' buf)))"

lemma maps_exactly_identity:
  "maps_exactly k R buf lim m (Some (Some buf, m')) \<Longrightarrow> identity_map (Suc k) R m' buf"
  by (simp add: maps_exactly_def)

lemma maps_exactly_result:
  assumes "maps_exactly k R buf lim m result" "4096 * Suc (card (tables_of k R)) \<le> unat lim"
  shows "\<exists>m'. result = Some (Some buf, m') \<and> outside_same buf (unat lim) m m' \<and>
    (\<forall>m''. inside_same buf (unat lim) m' m'' \<longrightarrow> identity_map (Suc k) R m'' buf)"
  using assms unfolding maps_exactly_def by auto

lemma root_not_below: "(Suc k, c) \<notin> tables_of k R"
  by (auto simp: tables_of_def)

lemma setup_maps_exactly:
  assumes buf: "unat buf mod 4096 = 0" "unat buf + unat lim < 2 ^ 52" and R: "finite R"
    and body: "buffer_ok buf (unat lim) \<Longrightarrow> prepares (Suc k) buf (unat lim) [(Suc k, 0) \<mapsto> 0]
      (body buf (buffer_end buf (unat lim))) (tables_of k R) (pages_of R)"
  shows "maps_exactly k R buf lim m (with_root_table buf lim body m)"
proof -
  have ok: "buffer_ok buf (unat lim)" using buf by (simp add: buffer_ok_def dvd_eq_mod_eq_0)
  have "unat buf + unat lim + 4096 < 18446744073709551616" using buf(2) by simp
  then obtain r m' where r: "with_root_table buf lim body m = Some (r, m')" "outside_same buf (unat lim) m m'"
    "if 4096 * Suc (card (tables_of k R)) \<le> unat lim
     then r = Some buf \<and> (\<exists>T. T (Suc k, 0) = Some 0 \<and> page_map (Suc k) buf (unat lim) T (pages_of R) m')
     else r = None"
    using root_table_result [where body = body and L = "Suc k" and m = m, OF buf(1) _ _ body] R root_not_below by auto
  show ?thesis
    unfolding maps_exactly_def
  proof (intro exI conjI impI allI)
    show "r = (if 4096 * Suc (card (tables_of k R)) \<le> unat lim then Some buf else None)"
      using r(3) by (auto split: if_splits)
    fix m''
    assume "r = Some buf" and same: "inside_same buf (unat lim) m' m''"
    then obtain T where T: "T (Suc k, 0) = Some 0" "page_map (Suc k) buf (unat lim) T (pages_of R) m'"
      using r(3) by (auto split: if_splits)
    show "identity_map (Suc k) R m'' buf"
      unfolding identity_map_def
      using translate_page_map [OF ok buf(2) page_map_inside_same [OF ok T(2) same], of _ "Suc k" 0] T(1)
        block_zero [of _ "Suc k"] by simp
  qed (fact r)+
qed

text \<open>The bytes that the initial maps are made for.\<close>

definition initial_bytes :: "efi_desc list \<Rightarrow> u64 \<Rightarrow> u64 \<Rightarrow> nat set" where
  "initial_bytes descs framebufferBase framebufferSize = included_bytes ShouldIncludeInPageMap descs \<union>
     {unat framebufferBase..<unat framebufferBase + unat framebufferSize}"

lemma descs_prepare:
  assumes range: "\<And>s e. unat e \<le> 2 ^ w \<Longrightarrow>
      prepares L buf lim T0 (mapRange s e) (tables_of k {unat s..<unat e}) (pages_of {unat s..<unat e})"
    and "w \<le> 57" and descs: "\<forall>d \<in> set descs. include d \<longrightarrow> desc_fits w d"
  shows "prepares L buf lim T0 (map_descs include mapRange descs)
    (tables_of k (included_bytes include descs)) (pages_of (included_bytes include descs))"
proof (rule map_descs_prepares, intro ballI impI)
  fix d
  assume "d \<in> set descs" "include d"
  note last = desc_fits_last [OF descs [rule_format, OF this] assms(2)]
  show "prepares L buf lim T0 (mapRange (efi_PhysicalStart d) (desc_last d))
      (tables_of k (desc_bytes d)) (pages_of (desc_bytes d))"
    unfolding last(1) by (rule range [OF last(2)])
qed

lemma initial_body_prepares:
  assumes range: "\<And>s e. unat e \<le> 2 ^ w \<Longrightarrow>
      prepares L buf lim T0 (mapRange s e) (tables_of k {unat s..<unat e}) (pages_of {unat s..<unat e})"
    and "w \<le> 57" "\<forall>d \<in> set descs. ShouldIncludeInPageMap d \<longrightarrow> desc_fits w d"
    and fb: "region_fits w (unat fb) (unat fbSize)"
  shows "prepares L buf lim T0
    (\<lambda>s. do { (ok, s) \<leftarrow> map_descs ShouldIncludeInPageMap mapRange descs s;
             if ok then mapRange fb (fb + fbSize) s else Some (False, s) })
    (tables_of k (initial_bytes descs fb fbSize)) (pages_of (initial_bytes descs fb fbSize))"
proof -
  have last: "unat (fb + fbSize) = unat fb + unat fbSize" "unat (fb + fbSize) \<le> 2 ^ w"
    using region_fits_last [OF fb assms(2)] by simp_all
  show ?thesis
    using prepares_seq [OF descs_prepare [OF assms(1-3)] range [OF last(2), of fb]]
    by (simp add: initial_bytes_def split_def last(1))
qed

lemma SetupInitialPageMap4_maps:
  assumes "unat buf mod 4096 = 0" "unat buf + unat lim < 2 ^ 52"
    and "\<forall>d \<in> set descs. ShouldIncludeInPageMap d \<longrightarrow> desc_fits 48 d"
    and "region_fits 48 (unat fb) (unat fbSize)"
  shows "maps_exactly 3 (initial_bytes descs fb fbSize) buf lim m (SetupInitialPageMap4 descs fb fbSize buf lim m)"
  unfolding SetupInitialPageMap4_def
proof (rule setup_maps_exactly [OF assms(1,2)], goal_cases)
  case 2
  show ?case
    using MapMemoryRangeInLevel4Table_prepares [OF 2] assms(3,4) by (intro initial_body_prepares [where w = 48]) simp_all
qed (simp add: initial_bytes_def)

text \<open>
  C6: The initial 4-level page map. For memory and a frame buffer below 2^48, whatever
  the order of the firmware's descriptors, the setup returns. It returns the map
  exactly when the buffer has room for the root and every table that some mapped
  byte needs, and writes nothing outside of the buffer. The processor then
  translates every address on a page of included memory or of the frame buffer to
  itself, writable, and no other.
\<close>

theorem SetupInitialPageMap4_correct:
  assumes "unat buf mod 4096 = 0" "unat buf + unat lim < 2 ^ 52"
    and "\<forall>d \<in> set descs. ShouldIncludeInPageMap d \<longrightarrow> desc_fits 48 d"
    and "region_fits 48 (unat fb) (unat fbSize)"
  shows "maps_exactly 3 (initial_bytes descs fb fbSize) buf lim m (SetupInitialPageMap4 descs fb fbSize buf lim m)"
  using assms by (rule SetupInitialPageMap4_maps)

text \<open>One page of memory, with room for the four tables it needs.\<close>

lemma one_page_tables: "card (tables_of k {4096..<8192}) = k"
proof (induction k)
  case (Suc k)
  have "block (Suc k) a = 0" if "a < 8192" for a
  proof (rule block_zero)
    have "(2::nat) ^ 13 \<le> 2 ^ (12 + 9 * Suc k)" by (intro power_increasing) simp_all
    thus "a < 2 ^ (12 + 9 * Suc k)" using that by simp
  qed
  hence "tables_of (Suc k) {4096..<8192} = insert (Suc k, 0) (tables_of k {4096..<8192})"
    by (intro tables_of_Suc_block) auto
  thus ?case using Suc root_not_below [of k 0] by simp
qed simp

lemma one_page_translate:
  assumes "identity_map L {4096..<8192} m t" "unat a < 2 ^ 52" "unat a < 2 ^ (12 + 9 * L)"
  shows "translate L m t a = (if unat a div 4096 = 1 then Some (a, True) else None)"
  using assms unfolding identity_map_def pages_of_interval [of 4096 8192, simplified] by auto

lemma SetupInitialPageMap4_correct_witness:
  "\<exists>m'. SetupInitialPageMap4 [\<lparr>efi_Type = EfiConventionalMemory, efi_PhysicalStart = 0x1000,
      efi_VirtualStart = 0, efi_NumberOfPages = 1, efi_Attribute = 0\<rparr>] 0 0 0x10000 0x4000 (\<lambda>_. 99) =
      Some (Some 0x10000, m') \<and>
    translate 4 m' 0x10000 0x1234 = Some (0x1234, True) \<and> translate 4 m' 0x10000 0x2000 = None"
proof -
  let ?descs = "[\<lparr>efi_Type = EfiConventionalMemory, efi_PhysicalStart = 0x1000,
      efi_VirtualStart = 0, efi_NumberOfPages = 1, efi_Attribute = 0\<rparr>]"
  have R: "initial_bytes ?descs 0 0 = {4096..<8192}"
    by (simp add: initial_bytes_def ShouldIncludeInPageMap_def desc_bytes_def)
  have "maps_exactly 3 (initial_bytes ?descs 0 0) 0x10000 0x4000 (\<lambda>_. 99)
      (SetupInitialPageMap4 ?descs 0 0 0x10000 0x4000 (\<lambda>_. 99))"
    by (rule SetupInitialPageMap4_correct) (simp_all add: region_fits_def)
  from maps_exactly_result [OF this [unfolded R]] show ?thesis
    using one_page_translate [of 4] by (fastforce simp: one_page_tables)
qed

lemma SetupInitialPageMap5_maps:
  assumes "unat buf mod 4096 = 0" "unat buf + unat lim < 2 ^ 52"
    and "\<forall>d \<in> set descs. ShouldIncludeInPageMap d \<longrightarrow> desc_fits 52 d"
    and "region_fits 52 (unat fb) (unat fbSize)"
  shows "maps_exactly 4 (initial_bytes descs fb fbSize) buf lim m (SetupInitialPageMap5 descs fb fbSize buf lim m)"
  unfolding SetupInitialPageMap5_def
proof (rule setup_maps_exactly [OF assms(1,2)], goal_cases)
  case 2
  show ?case
    using MapMemoryRangeInLevel5Table_prepares [OF 2] assms(3,4) by (intro initial_body_prepares [where w = 52]) simp_all
qed (simp add: initial_bytes_def)

text \<open>
  The initial 5-level page map, in the same way, for memory in the processor's
  52-bit physical address space.
\<close>

theorem SetupInitialPageMap5_correct:
  assumes "unat buf mod 4096 = 0" "unat buf + unat lim < 2 ^ 52"
    and "\<forall>d \<in> set descs. ShouldIncludeInPageMap d \<longrightarrow> desc_fits 52 d"
    and "region_fits 52 (unat fb) (unat fbSize)"
  shows "maps_exactly 4 (initial_bytes descs fb fbSize) buf lim m (SetupInitialPageMap5 descs fb fbSize buf lim m)"
  using assms by (rule SetupInitialPageMap5_maps)

lemma SetupInitialPageMap5_correct_witness:
  "\<exists>m'. SetupInitialPageMap5 [\<lparr>efi_Type = EfiLoaderCode, efi_PhysicalStart = 0x1000,
      efi_VirtualStart = 0, efi_NumberOfPages = 1, efi_Attribute = 0\<rparr>] 0 0 0x10000 0x5000 (\<lambda>_. 99) =
      Some (Some 0x10000, m') \<and>
    translate 5 m' 0x10000 0x1FFF = Some (0x1FFF, True) \<and> translate 5 m' 0x10000 0x1000000000000 = None"
proof -
  let ?descs = "[\<lparr>efi_Type = EfiLoaderCode, efi_PhysicalStart = 0x1000,
      efi_VirtualStart = 0, efi_NumberOfPages = 1, efi_Attribute = 0\<rparr>]"
  have R: "initial_bytes ?descs 0 0 = {4096..<8192}"
    by (simp add: initial_bytes_def ShouldIncludeInPageMap_def desc_bytes_def)
  have "maps_exactly 4 (initial_bytes ?descs 0 0) 0x10000 0x5000 (\<lambda>_. 99)
      (SetupInitialPageMap5 ?descs 0 0 0x10000 0x5000 (\<lambda>_. 99))"
    by (rule SetupInitialPageMap5_correct) (simp_all add: region_fits_def)
  from maps_exactly_result [OF this [unfolded R]] show ?thesis
    using one_page_translate [of 5] by (fastforce simp: one_page_tables)
qed

lemma SetupTransitionalPageMap4_maps:
  assumes "unat buf mod 4096 = 0" "unat buf + unat lim < 2 ^ 52"
    and "\<forall>d \<in> set descs. ShouldIncludeInTransitionalPageMap d \<longrightarrow> desc_fits 48 d"
  shows "maps_exactly 3 (included_bytes ShouldIncludeInTransitionalPageMap descs) buf lim m
    (SetupTransitionalPageMap4 descs buf lim m)"
  unfolding SetupTransitionalPageMap4_def
proof (rule setup_maps_exactly [OF assms(1,2)], goal_cases)
  case 2
  show ?case
    using MapMemoryRangeInLevel4Table_prepares [OF 2] assms(3) by (intro descs_prepare [where w = 48]) simp_all
qed simp

end
