(* ===== verification/PageMapSize.thy ===== *)
theory PageMapSize
  imports PageMapSetup
begin

text \<open>
  The size of the buffer for the page tables. For ranges that do not overlap, the search
  for the next range visits each of them once, in ascending order, and the count of the
  tables of each level is exact, so the setup of the page map finds room for its tables.
\<close>

subsection \<open>Ranges in ascending order\<close>

definition ranges_ok :: "(u64 \<times> u64) set \<Rightarrow> bool" where
  "ranges_ok Rs = (finite Rs \<and> (\<forall>(b, l) \<in> Rs. b < l) \<and>
     (\<forall>(b, l) \<in> Rs. \<forall>(b', l') \<in> Rs. b \<le> b' \<and> b' < l \<longrightarrow> b' = b \<and> l' = l))"

definition range_bytes :: "(u64 \<times> u64) set \<Rightarrow> nat set" where
  "range_bytes Rs = (\<Union>(b, l) \<in> Rs. {unat b..<unat l})"

text \<open>What the search for the next range has to do.\<close>

definition finds :: "(u64 \<times> u64) set \<Rightarrow> (u64 \<Rightarrow> (u64 \<times> u64) option) \<Rightarrow> bool" where
  "finds Rs findNext = (\<forall>a. case findNext a of
       None \<Rightarrow> \<forall>r \<in> Rs. fst r < a
     | Some r \<Rightarrow> r \<in> Rs \<and> a \<le> fst r \<and> (\<forall>r' \<in> Rs. a \<le> fst r' \<longrightarrow> fst r \<le> fst r'))"

definition regions :: "(efi_desc \<Rightarrow> bool) \<Rightarrow> efi_desc list \<Rightarrow> (u64 \<times> u64) set" where
  "regions include descs = (\<lambda>d. (efi_PhysicalStart d, desc_last d)) ` {d \<in> set descs. include d}"

lemma regions_simps [simp]:
  "regions include [] = {}"
  "regions include (d # descs) =
    (if include d then insert (efi_PhysicalStart d, desc_last d) (regions include descs) else regions include descs)"
  by (auto simp: regions_def)

lemma range_step_eq:
  "range_step include a d (b, l, found) =
    (if include d \<and> a \<le> efi_PhysicalStart d \<and> (efi_PhysicalStart d < b \<or> \<not> found)
     then (efi_PhysicalStart d, desc_last d, True) else (b, l, found))"
  by (auto simp: range_step_def Let_def)

lemma fold_range_step:
  assumes "fold (range_step include a) descs (b0, l0, f0) = (b, l, found)"
  shows "(found \<longleftrightarrow> f0 \<or> (\<exists>r \<in> regions include descs. a \<le> fst r)) \<and>
    (found \<longrightarrow> (f0 \<and> b = b0 \<and> l = l0 \<or> (b, l) \<in> regions include descs \<and> a \<le> b) \<and>
      (f0 \<longrightarrow> b \<le> b0) \<and> (\<forall>r \<in> regions include descs. a \<le> fst r \<longrightarrow> b \<le> fst r))"
  using assms
proof (induction descs arbitrary: b0 l0 f0)
  case (Cons d descs)
  let ?s = "efi_PhysicalStart d"
  show ?case
  proof (cases "include d \<and> a \<le> ?s \<and> (?s < b0 \<or> \<not> f0)")
    case True
    hence "fold (range_step include a) descs (?s, desc_last d, True) = (b, l, found)"
      using Cons.prems by (simp add: range_step_eq)
    from Cons.IH [OF this] True show ?thesis by auto
  next
    case False
    hence "fold (range_step include a) descs (b0, l0, f0) = (b, l, found)"
      using Cons.prems by (simp only: fold.simps o_apply range_step_eq if_False)
    from Cons.IH [OF this] False show ?thesis by (auto simp: not_less intro: order_trans)
  qed
qed simp

lemma FindNextMemoryRangeTransitional_finds:
  "finds (regions ShouldIncludeInTransitionalPageMap descs) (FindNextMemoryRangeTransitional descs)"
  unfolding finds_def
proof
  fix a
  obtain b l found where f: "fold (range_step ShouldIncludeInTransitionalPageMap a) descs (0, 0, False) = (b, l, found)"
    by (cases "fold (range_step ShouldIncludeInTransitionalPageMap a) descs (0, 0, False)")
  show "case FindNextMemoryRangeTransitional descs a of
       None \<Rightarrow> \<forall>r \<in> regions ShouldIncludeInTransitionalPageMap descs. fst r < a
     | Some r \<Rightarrow> r \<in> regions ShouldIncludeInTransitionalPageMap descs \<and> a \<le> fst r \<and>
        (\<forall>r' \<in> regions ShouldIncludeInTransitionalPageMap descs. a \<le> fst r' \<longrightarrow> fst r \<le> fst r')"
    using fold_range_step [OF f] f by (auto simp: FindNextMemoryRangeTransitional_def not_le split: if_splits)
qed

text \<open>
  The frame buffer is compared with the end of the range found so far; as it does not
  overlap with the range, this is the same as a comparison with its start.
\<close>

lemma FindNextMemoryRange_finds:
  assumes ok: "ranges_ok (insert (fb, fb + fbSize) (regions ShouldIncludeInPageMap descs))"
  shows "finds (insert (fb, fb + fbSize) (regions ShouldIncludeInPageMap descs)) (FindNextMemoryRange descs fb fbSize)"
  unfolding finds_def
proof
  fix a
  let ?R = "regions ShouldIncludeInPageMap descs"
  obtain b l found where f: "fold (range_step ShouldIncludeInPageMap a) descs (0, 0, False) = (b, l, found)"
    by (cases "fold (range_step ShouldIncludeInPageMap a) descs (0, 0, False)")
  note step = fold_range_step [OF f]
  have apart: "fb < l \<longleftrightarrow> fb \<le> b" if "(b, l) \<in> ?R" for b l
  proof -
    have "b < l" using ok that by (auto simp: ranges_ok_def)
    moreover have "b \<le> fb \<Longrightarrow> fb < l \<Longrightarrow> fb = b" using ok that by (fastforce simp: ranges_ok_def)
    ultimately show ?thesis by (metis le_less_trans linear)
  qed
  show "case FindNextMemoryRange descs fb fbSize a of
       None \<Rightarrow> \<forall>r \<in> insert (fb, fb + fbSize) ?R. fst r < a
     | Some r \<Rightarrow> r \<in> insert (fb, fb + fbSize) ?R \<and> a \<le> fst r \<and>
        (\<forall>r' \<in> insert (fb, fb + fbSize) ?R. a \<le> fst r' \<longrightarrow> fst r \<le> fst r')"
  proof (cases found)
    case False
    thus ?thesis using step f by (auto simp: FindNextMemoryRange_def not_le)
  next
    case True
    hence b: "(b, l) \<in> ?R" "a \<le> b" "\<forall>r \<in> ?R. a \<le> fst r \<longrightarrow> b \<le> fst r"
      using step by auto
    show ?thesis
    proof (cases "a \<le> fb \<and> fb < l")
      case True
      hence "FindNextMemoryRange descs fb fbSize a = Some (fb, fb + fbSize)"
        using f by (simp add: FindNextMemoryRange_def)
      moreover have "fb \<le> b" using apart [OF b(1)] True by simp
      ultimately show ?thesis using True b by fastforce
    next
      case False
      hence "FindNextMemoryRange descs fb fbSize a = Some (b, l)"
        using f \<open>found\<close> by (auto simp: FindNextMemoryRange_def)
      moreover have "a \<le> fb \<longrightarrow> b \<le> fb" using apart [OF b(1)] False by auto
      ultimately show ?thesis using b by simp
    qed
  qed
qed

subsection \<open>Counting the tables of a level\<close>

definition counted :: "nat set \<Rightarrow> nat \<Rightarrow> u64 \<times> u64 \<times> u64 \<Rightarrow> bool" where
  "counted D l = (\<lambda>(M, hi, num). unat M = 2 ^ (12 + 9 * l) \<and> unat num = card (block l ` D) \<and>
     (D \<noteq> {} \<longrightarrow> unat hi = block l (Max D)))"

lemma block_mono: "a \<le> b \<Longrightarrow> block l a \<le> block l b"
  by (simp add: block_def div_le_mono)

lemma block_interval:
  assumes "b < e"
  shows "block l ` {b..<e} = {block l b..block l (e - 1)}"
proof (intro equalityI subsetI)
  fix x
  assume "x \<in> block l ` {b..<e}"
  thus "x \<in> {block l b..block l (e - 1)}" by (auto intro!: block_mono)
next
  fix x
  assume x: "x \<in> {block l b..block l (e - 1)}"
  let ?a = "max b (x * 2 ^ (12 + 9 * l))"
  have "x * 2 ^ (12 + 9 * l) \<le> block l (e - 1) * 2 ^ (12 + 9 * l)" using x by (intro mult_le_mono1) simp
  also have "\<dots> \<le> e - 1" by (simp add: block_def)
  finally have "x * 2 ^ (12 + 9 * l) \<le> e - 1" .
  hence "?a \<in> {b..<e}" using assms by auto
  moreover have "block l ?a = x"
  proof (cases "b \<le> x * 2 ^ (12 + 9 * l)")
    case True
    thus ?thesis by (simp add: block_def max_def)
  next
    case False
    hence "x \<le> block l b" by (simp add: block_def less_eq_div_iff_mult_less_eq)
    thus ?thesis using x False by (simp add: max_def)
  qed
  ultimately show "x \<in> block l ` {b..<e}" by (intro image_eqI [of _ _ ?a]) simp_all
qed

lemma count_level_counted:
  assumes c: "counted D l x" and be: "b < e" "unat e \<le> 2 ^ 57" and D: "finite D" "\<forall>a \<in> D. a < unat b"
  shows "counted (D \<union> {unat b..<unat e}) l (count_level b e x)"
proof -
  obtain M hi num where x: "x = (M, hi, num)" by (cases x)
  let ?s = "block l (unat b)" and ?t = "block l (unat e - 1)"
  have lt: "unat b < unat e" using be(1) by (simp add: word_less_nat_alt)
  have M: "unat M = 2 ^ (12 + 9 * l)" and num: "unat num = card (block l ` D)" using c x by (simp_all add: counted_def)
  have s: "unat (b div M) = ?s" by (simp add: unat_u64_div M block_def)
  have "unat (e - 1) = unat e - 1" using lt by (subst unat_u64_minus) (simp_all add: word_le_nat_alt)
  hence t: "unat ((e - 1) div M) = ?t" by (simp add: unat_u64_div M block_def)
  have st: "?s \<le> ?t" using lt by (intro block_mono) simp
  have "?t \<le> unat e - 1" by (simp add: block_def)
  hence t_small: "?t < 2 ^ 57" using be(2) lt by linarith
  have diff: "unat ((e - 1) div M - b div M) = ?t - ?s"
    using st by (subst unat_u64_minus) (simp_all add: s t word_le_nat_alt)
  have maxD: "Max (D \<union> {unat b..<unat e}) = unat e - 1"
    using lt D by (intro Max_eqI) auto
  have img: "block l ` (D \<union> {unat b..<unat e}) = block l ` D \<union> {?s..?t}"
    using block_interval [OF lt] by (simp add: image_Un)
  have le_s: "\<forall>x \<in> block l ` D. x \<le> ?s" using D(2) by (force intro: block_mono)
  hence "block l ` D \<subseteq> {..?s}" by auto
  hence num_small: "unat num \<le> Suc ?s" unfolding num using card_mono [of "{..?s}"] by simp
  have new: "unat (num + (if hi < b div M \<or> num = 0 then (e - 1) div M - b div M + 1 else (e - 1) div M - b div M)) =
      card (block l ` (D \<union> {unat b..<unat e}))"
  proof (cases "D = {}")
    case True
    hence "num = 0" using num by (simp add: unat_eq_0)
    hence "unat (num + (if hi < b div M \<or> num = 0 then (e - 1) div M - b div M + 1 else (e - 1) div M - b div M)) =
        Suc (?t - ?s)"
      using diff t_small by (simp add: unat_u64_plus)
    thus ?thesis unfolding img using True st by simp
  next
    case False
    have hi: "unat hi = block l (Max D)" using c x False by (simp add: counted_def)
    have hi_in: "unat hi \<in> block l ` D" using Max_in [OF D(1) False] hi by simp
    have below: "\<forall>x \<in> block l ` D. x \<le> unat hi" unfolding hi using D(1) by (auto intro!: block_mono)
    have "num \<noteq> 0" using num hi_in D(1) by (auto simp: card_gt_0_iff)
    show ?thesis
    proof (cases "hi < b div M")
      case True
      hence "unat hi < ?s" by (simp add: word_less_nat_alt s)
      hence "block l ` D \<inter> {?s..?t} = {}" using below by fastforce
      hence "card (block l ` D \<union> {?s..?t}) = unat num + Suc (?t - ?s)"
        using D(1) st by (subst card_Un_disjoint) (simp_all add: num)
      thus ?thesis unfolding img using True diff num_small t_small st by (simp add: unat_u64_plus)
    next
      case not: False
      hence hi_s: "unat hi = ?s" using le_s hi_in by (auto simp: word_less_nat_alt s intro: antisym)
      have "{?s..?t} = insert ?s {?s<..?t}" using st by auto
      hence "block l ` D \<union> {?s..?t} = block l ` D \<union> {?s<..?t}" using hi_in hi_s by (simp add: insert_absorb)
      moreover have "block l ` D \<inter> {?s<..?t} = {}" using le_s by fastforce
      ultimately have "card (block l ` D \<union> {?s..?t}) = unat num + (?t - ?s)"
        using D(1) by (simp add: card_Un_disjoint num)
      thus ?thesis unfolding img using not \<open>num \<noteq> 0\<close> diff num_small t_small st by (simp add: unat_u64_plus)
    qed
  qed
  have "count_level b e x = (M, (e - 1) div M,
      num + (if hi < b div M \<or> num = 0 then (e - 1) div M - b div M + 1 else (e - 1) div M - b div M))"
    by (simp add: count_level_def x Let_def)
  thus ?thesis using new M t by (simp add: counted_def maxD)
qed

subsection \<open>All ranges\<close>

lemma count_tables_counted:
  assumes ok: "ranges_ok Rs" and small: "\<forall>r \<in> Rs. unat (snd r) \<le> 2 ^ 57" and finds: "finds Rs findNext"
    and "D = range_bytes {r \<in> Rs. fst r < a}" "\<forall>r \<in> Rs. fst r < a \<longrightarrow> snd r \<le> a"
    and "list_all2 (counted D) ls levels"
  shows "\<exists>levels'. count_tables findNext a levels = Some levels' \<and> list_all2 (counted (range_bytes Rs)) ls levels'"
  using assms(4-6)
proof (induction "card {r \<in> Rs. a \<le> fst r}" arbitrary: a D levels rule: less_induct)
  case less
  have fin: "finite Rs" using ok by (simp add: ranges_ok_def)
  have nf: "case findNext a of None \<Rightarrow> \<forall>r \<in> Rs. fst r < a
     | Some r \<Rightarrow> r \<in> Rs \<and> a \<le> fst r \<and> (\<forall>r' \<in> Rs. a \<le> fst r' \<longrightarrow> fst r \<le> fst r')"
    using finds unfolding finds_def by blast
  show ?case
  proof (cases "findNext a")
    case None
    hence "{r \<in> Rs. fst r < a} = Rs" using nf by auto
    hence "D = range_bytes Rs" using less.prems(1) by simp
    thus ?thesis using None less.prems(3) by (simp add: count_tables.simps)
  next
    case (Some r)
    obtain b e where r: "r = (b, e)" by (cases r)
    have be: "(b, e) \<in> Rs" "a \<le> b" "\<forall>r' \<in> Rs. a \<le> fst r' \<longrightarrow> b \<le> fst r'"
      using nf Some r by auto
    have lt: "b < e" using ok be(1) by (auto simp: ranges_ok_def)
    have only: "r' = (b, e)" if "r' \<in> Rs" "a \<le> fst r'" "fst r' < e" for r'
    proof -
      obtain b' e' where r': "r' = (b', e')" by (cases r')
      have "b \<le> b'" using be(3) that r' by auto
      thus ?thesis using ok be(1) that r' unfolding ranges_ok_def by fastforce
    qed
    let ?D = "D \<union> {unat b..<unat e}"
    have split: "{r' \<in> Rs. fst r' < e} = insert (b, e) {r' \<in> Rs. fst r' < a}"
    proof (intro set_eqI iffI)
      fix r'
      assume "r' \<in> {r' \<in> Rs. fst r' < e}"
      thus "r' \<in> insert (b, e) {r' \<in> Rs. fst r' < a}" using only [of r'] by (cases "a \<le> fst r'") auto
    next
      fix r'
      assume "r' \<in> insert (b, e) {r' \<in> Rs. fst r' < a}"
      thus "r' \<in> {r' \<in> Rs. fst r' < e}" using be(1,2) lt by auto
    qed
    have D': "?D = range_bytes {r' \<in> Rs. fst r' < e}"
      unfolding split less.prems(1) by (auto simp: range_bytes_def)
    have ends: "\<forall>r' \<in> Rs. fst r' < e \<longrightarrow> snd r' \<le> e"
    proof (intro ballI impI)
      fix r'
      assume r': "r' \<in> Rs" "fst r' < e"
      hence "r' = (b, e) \<or> r' \<in> Rs \<and> fst r' < a" using split by blast
      thus "snd r' \<le> e" using less.prems(2) be(2) lt by fastforce
    qed
    have "finite D" unfolding less.prems(1) range_bytes_def using fin by auto
    moreover have "\<forall>x \<in> D. x < unat b"
    proof
      fix x
      assume "x \<in> D"
      then obtain b' e' where "(b', e') \<in> Rs" "b' < a" "x < unat e'"
        unfolding less.prems(1) range_bytes_def by auto
      moreover from this have "e' \<le> a" using less.prems(2) by force
      ultimately show "x < unat b" using be(2) by (simp add: word_le_nat_alt)
    qed
    moreover have "unat e \<le> 2 ^ 57" using small be(1) by force
    ultimately have "list_all2 (counted ?D) ls (map (count_level b e) levels)"
      using less.prems(3) count_level_counted [OF _ lt]
      by (auto simp: list_all2_map2 elim!: list_all2_mono)
    moreover have "card {r' \<in> Rs. e \<le> fst r'} < card {r' \<in> Rs. a \<le> fst r'}"
    proof (rule psubset_card_mono)
      have "(b, e) \<in> {r' \<in> Rs. a \<le> fst r'} - {r' \<in> Rs. e \<le> fst r'}" using be lt by simp
      moreover have "{r' \<in> Rs. e \<le> fst r'} \<subseteq> {r' \<in> Rs. a \<le> fst r'}" using be(2) lt by auto
      ultimately show "{r' \<in> Rs. e \<le> fst r'} \<subset> {r' \<in> Rs. a \<le> fst r'}" by blast
    qed (simp add: fin)
    ultimately obtain levels' where
      "count_tables findNext e (map (count_level b e) levels) = Some levels'"
      "list_all2 (counted (range_bytes Rs)) ls levels'"
      using less.hyps [OF _ D' ends] by blast
    thus ?thesis using Some r by (simp add: count_tables.simps [of findNext a])
  qed
qed

lemma card_tables_of:
  assumes "finite R"
  shows "card (tables_of (Suc k) R) = card (tables_of k R) + card (block (Suc k) ` R)"
proof -
  have "tables_of (Suc k) R = tables_of k R \<union> Pair (Suc k) ` block (Suc k) ` R"
    by (simp add: tables_of_def atLeastAtMostSuc_conv image_image Un_commute)
  moreover have "tables_of k R \<inter> Pair (Suc k) ` block (Suc k) ` R = {}"
    using root_not_below [of k _ R] by blast
  ultimately show ?thesis
    using assms by (simp add: card_Un_disjoint card_image inj_on_def)
qed

lemma card_block_small:
  assumes "\<forall>a \<in> R. a < 2 ^ 57" "1 \<le> l"
  shows "card (block l ` R) \<le> 2 ^ 36"
proof -
  have "block l a < 2 ^ 36" if "a \<in> R" for a
  proof -
    have "(2::nat) ^ 57 \<le> 2 ^ 36 * 2 ^ (12 + 9 * l)"
      using assms(2) power_increasing [of 57 "36 + (12 + 9 * l)" "2::nat"] by (simp add: power_add)
    hence "a < 2 ^ 36 * 2 ^ (12 + 9 * l)" using assms(1) that by (meson less_le_trans)
    thus ?thesis unfolding block_def by (simp add: less_mult_imp_div_less)
  qed
  hence "block l ` R \<subseteq> {..<2 ^ 36}" by auto
  from card_mono [OF _ this] show ?thesis by simp
qed

text \<open>The sizes for three and four levels of tables below the root.\<close>

lemma all_tables_size_unat:
  assumes "\<forall>(_, _, n) \<in> set levels. unat n \<le> 2 ^ 40" "length levels \<le> 4"
  shows "unat (all_tables_size levels) = 4096 * Suc (\<Sum>(_, _, n) \<leftarrow> levels. unat n)"
proof -
  let ?n = "\<Sum>(_, _, n) \<leftarrow> levels. unat n"
  have "of_nat ?n = (\<Sum>(_, _, n) \<leftarrow> levels. n)"
    by (induction levels) auto
  hence size: "all_tables_size levels = of_nat (4096 * Suc ?n)"
    by (simp add: all_tables_size_def algebra_simps split_def)
  have "?n \<le> length levels * 2 ^ 40"
    using assms(1) by (induction levels) auto
  also have "\<dots> \<le> 4 * 2 ^ 40" using assms(2) by (rule mult_le_mono1)
  finally have "4096 * Suc ?n < 18446744073709551616" by simp
  thus ?thesis unfolding size by (rule unat_u64_of_nat)
qed

lemma counted_sizes:
  assumes "list_all2 (counted D) [1..<Suc k] levels" "finite D" "\<forall>a \<in> D. a < 2 ^ 57" "k \<le> 4"
  shows "unat (all_tables_size levels) = 4096 * Suc (card (tables_of k D))"
proof -
  have len: "length levels = k" using list_all2_lengthD [OF assms(1)] by (simp del: upt_Suc)
  have nth: "counted D (Suc i) (levels ! i)" if "i < k" for i
    using list_all2_nthD [OF assms(1), of i] that by (simp del: upt_Suc)
  have sum: "(\<Sum>(_, _, n) \<leftarrow> take i levels. unat n) = card (tables_of i D)" if "i \<le> k" for i
    using that
  proof (induction i)
    case (Suc i)
    have "take (Suc i) levels = take i levels @ [levels ! i]"
      using Suc.prems len by (intro take_Suc_conv_app_nth) simp
    thus ?case using Suc nth [of i] by (auto simp: card_tables_of [OF assms(2)] counted_def)
  qed simp
  have "unat n \<le> 2 ^ 40" if x: "(M, hi, n) \<in> set levels" for M hi n
  proof -
    obtain i where i: "i < k" "levels ! i = (M, hi, n)" using x len by (auto simp: in_set_conv_nth)
    thus ?thesis using nth [OF i(1)] card_block_small [OF assms(3), of "Suc i"] by (simp add: counted_def)
  qed
  thus ?thesis using sum [of k] len assms(4) by (subst all_tables_size_unat) auto
qed

subsection \<open>The sizes suffice\<close>

abbreviation initial_regions :: "efi_desc list \<Rightarrow> u64 \<Rightarrow> u64 \<Rightarrow> (u64 \<times> u64) set" where
  "initial_regions descs fb fbSize \<equiv> insert (fb, fb + fbSize) (regions ShouldIncludeInPageMap descs)"

lemma range_bytes_regions:
  assumes "\<forall>d \<in> set descs. include d \<longrightarrow> desc_fits w d" "w \<le> 57"
  shows "range_bytes (regions include descs) = included_bytes include descs"
    "\<forall>r \<in> regions include descs. unat (snd r) \<le> 2 ^ w"
  using desc_fits_last [OF _ assms(2)] assms(1)
  by (auto simp: range_bytes_def regions_def included_bytes_def)

lemma range_bytes_initial:
  assumes "\<forall>d \<in> set descs. ShouldIncludeInPageMap d \<longrightarrow> desc_fits w d" "w \<le> 57"
    "region_fits w (unat fb) (unat fbSize)"
  shows "range_bytes (initial_regions descs fb fbSize) = initial_bytes descs fb fbSize"
    "\<forall>r \<in> initial_regions descs fb fbSize. unat (snd r) \<le> 2 ^ w"
proof -
  have last: "unat (fb + fbSize) = unat fb + unat fbSize" "unat (fb + fbSize) \<le> 2 ^ w"
    using region_fits_last [OF assms(3,2)] by simp_all
  note descs = range_bytes_regions [OF assms(1,2)]
  have "range_bytes (initial_regions descs fb fbSize) =
      {unat fb..<unat (fb + fbSize)} \<union> range_bytes (regions ShouldIncludeInPageMap descs)"
    by (simp add: range_bytes_def)
  thus "range_bytes (initial_regions descs fb fbSize) = initial_bytes descs fb fbSize"
    unfolding descs(1) last(1) initial_bytes_def by (simp add: Un_commute)
  show "\<forall>r \<in> initial_regions descs fb fbSize. unat (snd r) \<le> 2 ^ w" using descs(2) last(2) by simp
qed

lemma count_tables_size:
  assumes ok: "ranges_ok Rs" and finds: "finds Rs findNext"
    and small: "\<forall>r \<in> Rs. unat (snd r) \<le> 2 ^ w" "w \<le> 57"
    and start: "list_all2 (counted {}) [1..<Suc k] levels" "k \<le> 4"
  shows "\<exists>levels'. count_tables findNext 0 levels = Some levels' \<and>
    unat (all_tables_size levels') = 4096 * Suc (card (tables_of k (range_bytes Rs)))"
proof -
  have "(2::nat) ^ w \<le> 2 ^ 57" using small(2) by (intro power_increasing) simp_all
  hence small': "\<forall>r \<in> Rs. unat (snd r) \<le> 2 ^ 57" using small(1) by (meson order_trans)
  have none: "{} = range_bytes {r \<in> Rs. fst r < 0}" by (simp add: range_bytes_def)
  obtain levels' where l: "count_tables findNext 0 levels = Some levels'"
    "list_all2 (counted (range_bytes Rs)) [1..<Suc k] levels'"
    using count_tables_counted [OF ok small' finds none _ start(1)] by auto
  have "finite (range_bytes Rs)" using ok by (auto simp: range_bytes_def ranges_ok_def)
  moreover have "\<forall>a \<in> range_bytes Rs. a < 2 ^ 57" using small' by (fastforce simp: range_bytes_def)
  ultimately show ?thesis using l counted_sizes [OF l(2) _ _ start(2)] by blast
qed

lemma InitialPageMap4_size:
  assumes "\<forall>d \<in> set descs. ShouldIncludeInPageMap d \<longrightarrow> desc_fits 48 d"
    and "region_fits 48 (unat fb) (unat fbSize)" and "ranges_ok (initial_regions descs fb fbSize)"
  shows "\<exists>n. CalculateInitialPageMap4Size descs fb fbSize = Some n \<and>
    unat n = 4096 * Suc (card (tables_of 3 (initial_bytes descs fb fbSize)))"
proof -
  note bytes = range_bytes_initial [OF assms(1) _ assms(2), simplified]
  let ?levels = "[(LEVEL1_MANAGED_BYTES, 0, 0), (LEVEL2_MANAGED_BYTES, 0, 0), (LEVEL3_MANAGED_BYTES, 0, 0)]
    :: (u64 \<times> u64 \<times> u64) list"
  show ?thesis
    using count_tables_size [OF assms(3) FindNextMemoryRange_finds [OF assms(3)], of 48 3 ?levels] bytes
    by (auto simp: counted_def upt_rec CalculateInitialPageMap4Size_def)
qed

text \<open>
  The size that the boot loader computes for the 4-level page map is exactly the
  size of the tables that the map needs, so with a buffer of that size the setup
  succeeds. The firmware's regions and the frame buffer must not overlap or be empty.
\<close>

theorem InitialPageMap4_size_suffices:
  assumes "\<forall>d \<in> set descs. ShouldIncludeInPageMap d \<longrightarrow> desc_fits 48 d"
    and "region_fits 48 (unat fb) (unat fbSize)" and "ranges_ok (initial_regions descs fb fbSize)"
  shows "\<exists>n. CalculateInitialPageMap4Size descs fb fbSize = Some n \<and>
    unat n = 4096 * Suc (card (tables_of 3 (initial_bytes descs fb fbSize))) \<and>
    (\<forall>buf m. unat buf mod 4096 = 0 \<and> unat buf + unat n < 2 ^ 52 \<longrightarrow>
      (\<exists>m'. SetupInitialPageMap4 descs fb fbSize buf n m = Some (Some buf, m')))"
proof -
  obtain n where n: "CalculateInitialPageMap4Size descs fb fbSize = Some n"
    "unat n = 4096 * Suc (card (tables_of 3 (initial_bytes descs fb fbSize)))"
    using InitialPageMap4_size [OF assms] by blast
  have "\<exists>m'. SetupInitialPageMap4 descs fb fbSize buf n m = Some (Some buf, m')"
    if "unat buf mod 4096 = 0" "unat buf + unat n < 2 ^ 52" for buf m
    using SetupInitialPageMap4_maps [OF that assms(1,2), of m] n(2) unfolding maps_exactly_def by auto
  thus ?thesis using n by auto
qed

text \<open>A page of memory and a page of frame buffer in the next table of level 1.\<close>

definition two_pages :: "efi_desc list" where
  "two_pages = [\<lparr>efi_Type = EfiLoaderData, efi_PhysicalStart = 0x1000,
      efi_VirtualStart = 0, efi_NumberOfPages = 1, efi_Attribute = 0\<rparr>]"

lemma two_pages_bytes: "initial_bytes two_pages 0x200000 0x1000 = {4096..<8192} \<union> {2097152..<2101248}"
  by (simp add: two_pages_def initial_bytes_def ShouldIncludeInPageMap_def desc_bytes_def)

lemma two_pages_ok: "ranges_ok (initial_regions two_pages 0x200000 0x1000)"
  by (simp add: two_pages_def ranges_ok_def ShouldIncludeInPageMap_def desc_last_def)

lemma two_pages_tables:
  "card (tables_of 3 ({4096..<8192} \<union> {2097152..<2101248})) = 4"
  "card (tables_of 4 ({4096..<8192} \<union> {2097152..<2101248})) = 5"
proof -
  have b: "block l ` ({4096..<8192} \<union> {2097152..<2101248}) =
      {block l 4096..block l 8191} \<union> {block l 2097152..block l 2101247}" for l
    by (simp add: image_Un block_interval)
  have "card (tables_of (Suc (Suc (Suc 0))) ({4096..<8192} \<union> {2097152..<2101248})) = 4"
    by (simp only: card_tables_of finite_Un finite_atLeastLessThan b simp_thms) (simp add: block_def)
  thus three: "card (tables_of 3 ({4096..<8192} \<union> {2097152..<2101248})) = 4" by (simp only: numeral_3_eq_3)
  have "card (tables_of (Suc 3) ({4096..<8192} \<union> {2097152..<2101248})) = 5"
    by (simp only: card_tables_of finite_Un finite_atLeastLessThan b simp_thms three) (simp add: block_def)
  thus "card (tables_of 4 ({4096..<8192} \<union> {2097152..<2101248})) = 5" by simp
qed

lemma InitialPageMap4_size_suffices_witness:
  "CalculateInitialPageMap4Size two_pages 0x200000 0x1000 = Some 0x5000 \<and>
    (\<exists>m'. SetupInitialPageMap4 two_pages 0x200000 0x1000 0x10000 0x5000 (\<lambda>_. 99) = Some (Some 0x10000, m'))"
proof -
  have "\<exists>n. CalculateInitialPageMap4Size two_pages 0x200000 0x1000 = Some n \<and>
      unat n = 4096 * Suc (card (tables_of 3 (initial_bytes two_pages 0x200000 0x1000))) \<and>
      (\<forall>buf m. unat buf mod 4096 = 0 \<and> unat buf + unat n < 2 ^ 52 \<longrightarrow>
        (\<exists>m'. SetupInitialPageMap4 two_pages 0x200000 0x1000 buf n m = Some (Some buf, m')))"
    by (rule InitialPageMap4_size_suffices [OF _ _ two_pages_ok]) (simp_all add: region_fits_def two_pages_def)
  then obtain n where n: "CalculateInitialPageMap4Size two_pages 0x200000 0x1000 = Some n" "unat n = 20480"
    "\<forall>buf m. unat buf mod 4096 = 0 \<and> unat buf + unat n < 2 ^ 52 \<longrightarrow>
        (\<exists>m'. SetupInitialPageMap4 two_pages 0x200000 0x1000 buf n m = Some (Some buf, m'))"
    unfolding two_pages_bytes two_pages_tables by auto
  have "n = 0x5000" using n(2) by (metis of_nat_unat_u64 of_nat_numeral)
  thus ?thesis using n(1,3) by simp
qed

lemma InitialPageMap5_size:
  assumes "\<forall>d \<in> set descs. ShouldIncludeInPageMap d \<longrightarrow> desc_fits 52 d"
    and "region_fits 52 (unat fb) (unat fbSize)" and "ranges_ok (initial_regions descs fb fbSize)"
  shows "\<exists>n. CalculateInitialPageMap5Size descs fb fbSize = Some n \<and>
    unat n = 4096 * Suc (card (tables_of 4 (initial_bytes descs fb fbSize)))"
proof -
  note bytes = range_bytes_initial [OF assms(1) _ assms(2), simplified]
  let ?levels = "[(LEVEL1_MANAGED_BYTES, 0, 0), (LEVEL2_MANAGED_BYTES, 0, 0), (LEVEL3_MANAGED_BYTES, 0, 0), (LEVEL4_MANAGED_BYTES, 0, 0)]
    :: (u64 \<times> u64 \<times> u64) list"
  show ?thesis
    using count_tables_size [OF assms(3) FindNextMemoryRange_finds [OF assms(3)], of 52 4 ?levels] bytes
    by (auto simp: counted_def upt_rec CalculateInitialPageMap5Size_def)
qed

text \<open>
  The 5-level page map, in the same way: its computed size is exact, and with a
  buffer of that size the setup succeeds.
\<close>

theorem InitialPageMap5_size_suffices:
  assumes "\<forall>d \<in> set descs. ShouldIncludeInPageMap d \<longrightarrow> desc_fits 52 d"
    and "region_fits 52 (unat fb) (unat fbSize)" and "ranges_ok (initial_regions descs fb fbSize)"
  shows "\<exists>n. CalculateInitialPageMap5Size descs fb fbSize = Some n \<and>
    unat n = 4096 * Suc (card (tables_of 4 (initial_bytes descs fb fbSize))) \<and>
    (\<forall>buf m. unat buf mod 4096 = 0 \<and> unat buf + unat n < 2 ^ 52 \<longrightarrow>
      (\<exists>m'. SetupInitialPageMap5 descs fb fbSize buf n m = Some (Some buf, m')))"
proof -
  obtain n where n: "CalculateInitialPageMap5Size descs fb fbSize = Some n"
    "unat n = 4096 * Suc (card (tables_of 4 (initial_bytes descs fb fbSize)))"
    using InitialPageMap5_size [OF assms] by blast
  have "\<exists>m'. SetupInitialPageMap5 descs fb fbSize buf n m = Some (Some buf, m')"
    if "unat buf mod 4096 = 0" "unat buf + unat n < 2 ^ 52" for buf m
    using SetupInitialPageMap5_maps [OF that assms(1,2), of m] n(2) unfolding maps_exactly_def by auto
  thus ?thesis using n by auto
qed

lemma InitialPageMap5_size_suffices_witness:
  "CalculateInitialPageMap5Size two_pages 0x200000 0x1000 = Some 0x6000 \<and>
    (\<exists>m'. SetupInitialPageMap5 two_pages 0x200000 0x1000 0x10000 0x6000 (\<lambda>_. 99) = Some (Some 0x10000, m'))"
proof -
  have "\<exists>n. CalculateInitialPageMap5Size two_pages 0x200000 0x1000 = Some n \<and>
      unat n = 4096 * Suc (card (tables_of 4 (initial_bytes two_pages 0x200000 0x1000))) \<and>
      (\<forall>buf m. unat buf mod 4096 = 0 \<and> unat buf + unat n < 2 ^ 52 \<longrightarrow>
        (\<exists>m'. SetupInitialPageMap5 two_pages 0x200000 0x1000 buf n m = Some (Some buf, m')))"
    by (rule InitialPageMap5_size_suffices [OF _ _ two_pages_ok]) (simp_all add: region_fits_def two_pages_def)
  then obtain n where n: "CalculateInitialPageMap5Size two_pages 0x200000 0x1000 = Some n" "unat n = 24576"
    "\<forall>buf m. unat buf mod 4096 = 0 \<and> unat buf + unat n < 2 ^ 52 \<longrightarrow>
        (\<exists>m'. SetupInitialPageMap5 two_pages 0x200000 0x1000 buf n m = Some (Some buf, m'))"
    unfolding two_pages_bytes two_pages_tables by auto
  have "n = 0x6000" using n(2) by (metis of_nat_unat_u64 of_nat_numeral)
  thus ?thesis using n(1,3) by simp
qed

lemma TransitionalPageMap4_size:
  assumes "\<forall>d \<in> set descs. ShouldIncludeInTransitionalPageMap d \<longrightarrow> desc_fits 48 d"
    and "ranges_ok (regions ShouldIncludeInTransitionalPageMap descs)"
  shows "\<exists>n. CalculateTransitionalPageMap4Size descs = Some n \<and>
    unat n = 4096 * Suc (card (tables_of 3 (included_bytes ShouldIncludeInTransitionalPageMap descs)))"
proof -
  note bytes = range_bytes_regions [OF assms(1), simplified]
  let ?levels = "[(LEVEL1_MANAGED_BYTES, 0, 0), (LEVEL2_MANAGED_BYTES, 0, 0), (LEVEL3_MANAGED_BYTES, 0, 0)]
    :: (u64 \<times> u64 \<times> u64) list"
  show ?thesis
    using count_tables_size [OF assms(2) FindNextMemoryRangeTransitional_finds, of 48 3 ?levels] bytes
    by (auto simp: counted_def upt_rec CalculateTransitionalPageMap4Size_def)
qed

text \<open>
  The transitional map for the switch to 5-level paging: for regions that do not
  overlap its computed size suffices, and it translates exactly the pages of loader,
  boot and runtime services memory.
\<close>

theorem TransitionalPageMap4_correct:
  assumes "\<forall>d \<in> set descs. ShouldIncludeInTransitionalPageMap d \<longrightarrow> desc_fits 48 d"
    and "ranges_ok (regions ShouldIncludeInTransitionalPageMap descs)"
  shows "\<exists>n. CalculateTransitionalPageMap4Size descs = Some n \<and>
    unat n = 4096 * Suc (card (tables_of 3 (included_bytes ShouldIncludeInTransitionalPageMap descs))) \<and>
    (\<forall>buf m. unat buf mod 4096 = 0 \<and> unat buf + unat n < 2 ^ 52 \<longrightarrow>
      (\<exists>m'. SetupTransitionalPageMap4 descs buf n m = Some (Some buf, m') \<and>
        maps_exactly 3 (included_bytes ShouldIncludeInTransitionalPageMap descs) buf n m (Some (Some buf, m'))))"
proof -
  let ?R = "included_bytes ShouldIncludeInTransitionalPageMap descs"
  obtain n where n: "CalculateTransitionalPageMap4Size descs = Some n" "unat n = 4096 * Suc (card (tables_of 3 ?R))"
    using TransitionalPageMap4_size [OF assms] by blast
  have "\<exists>m'. SetupTransitionalPageMap4 descs buf n m = Some (Some buf, m') \<and>
      maps_exactly 3 ?R buf n m (Some (Some buf, m'))"
    if "unat buf mod 4096 = 0" "unat buf + unat n < 2 ^ 52" for buf m
    using SetupTransitionalPageMap4_maps [OF that assms(1), of m] n(2) unfolding maps_exactly_def by auto
  thus ?thesis using n by auto
qed

lemma TransitionalPageMap4_correct_witness:
  "CalculateTransitionalPageMap4Size [\<lparr>efi_Type = EfiLoaderData, efi_PhysicalStart = 0x1000,
      efi_VirtualStart = 0, efi_NumberOfPages = 1, efi_Attribute = 0\<rparr>] = Some 0x4000 \<and>
    (\<exists>m'. SetupTransitionalPageMap4 [\<lparr>efi_Type = EfiLoaderData, efi_PhysicalStart = 0x1000,
      efi_VirtualStart = 0, efi_NumberOfPages = 1, efi_Attribute = 0\<rparr>] 0x10000 0x4000 (\<lambda>_. 0) =
      Some (Some 0x10000, m') \<and> translate 4 m' 0x10000 0x1234 = Some (0x1234, True))"
proof -
  let ?descs = "[\<lparr>efi_Type = EfiLoaderData, efi_PhysicalStart = 0x1000,
      efi_VirtualStart = 0, efi_NumberOfPages = 1, efi_Attribute = 0\<rparr>]"
  have R: "included_bytes ShouldIncludeInTransitionalPageMap ?descs = {4096..<8192}"
    by (simp add: ShouldIncludeInTransitionalPageMap_def desc_bytes_def)
  have ok: "ranges_ok (regions ShouldIncludeInTransitionalPageMap ?descs)"
    by (simp add: ranges_ok_def ShouldIncludeInTransitionalPageMap_def desc_last_def)
  have "\<exists>n. CalculateTransitionalPageMap4Size ?descs = Some n \<and>
      unat n = 4096 * Suc (card (tables_of 3 (included_bytes ShouldIncludeInTransitionalPageMap ?descs))) \<and>
      (\<forall>buf m. unat buf mod 4096 = 0 \<and> unat buf + unat n < 2 ^ 52 \<longrightarrow>
        (\<exists>m'. SetupTransitionalPageMap4 ?descs buf n m = Some (Some buf, m') \<and>
          maps_exactly 3 (included_bytes ShouldIncludeInTransitionalPageMap ?descs) buf n m (Some (Some buf, m'))))"
    by (rule TransitionalPageMap4_correct [OF _ ok]) (simp add: region_fits_def)
  then obtain n where n: "CalculateTransitionalPageMap4Size ?descs = Some n" "unat n = 16384"
    "\<forall>buf m. unat buf mod 4096 = 0 \<and> unat buf + unat n < 2 ^ 52 \<longrightarrow>
        (\<exists>m'. SetupTransitionalPageMap4 ?descs buf n m = Some (Some buf, m') \<and>
          maps_exactly 3 {4096..<8192} buf n m (Some (Some buf, m')))"
    unfolding R one_page_tables by auto
  have "n = 0x4000" using n(2) by (metis of_nat_unat_u64 of_nat_numeral)
  then obtain m' where m': "SetupTransitionalPageMap4 ?descs 0x10000 0x4000 (\<lambda>_. 0) = Some (Some 0x10000, m')"
    "maps_exactly 3 {4096..<8192} 0x10000 0x4000 (\<lambda>_. 0) (Some (Some 0x10000, m'))"
    using n(3) [rule_format, of "0x10000" "\<lambda>_. 0"] by auto
  hence "translate 4 m' 0x10000 0x1234 = Some (0x1234, True)"
    using one_page_translate [of 4 m' "0x10000" "0x1234"] maps_exactly_identity by fastforce
  thus ?thesis using n(1) m'(1) \<open>n = 0x4000\<close> by blast
qed

end
