(* ===== verification/EndBootPhase.thy ===== *)
theory EndBootPhase
  imports PageMapSize
begin

text \<open>
  The end of the boot phase (src/src/Boot/x86_64-efi/EndBootPhase.c): retrieving the
  final memory map and a buffer for the page tables, leaving the firmware's boot
  services, and switching to the identity map.

  \<^item> The firmware is a parameter: the record \<open>boot_services\<close> of its services over an
    abstract state. A service returns its \<open>EFI_STATUS\<close>, its output parameters and the
    new state.
  \<^item> The memory map in its buffer is the list of its descriptors.
  \<^item> What the processor is told to do, and the two writes of plain bytes behind the page
    tables, are events in program order; the tables are \<open>entries\<close> as in \<open>PageMap\<close>.
  \<^item> The addresses of the switching code and the processor's answers about 5-level
    paging are parameters.
  \<^item> \<open>None\<close> stands for an endless loop.
\<close>

unbundle bit_operations_syntax

subsection \<open>The firmware\<close>

abbreviation (input) EFI_SUCCESS :: u64 where "EFI_SUCCESS \<equiv> 0"
abbreviation (input) EFI_INVALID_PARAMETER :: u64 where "EFI_INVALID_PARAMETER \<equiv> 0x8000000000000002"
abbreviation (input) EFI_BUFFER_TOO_SMALL :: u64 where "EFI_BUFFER_TOO_SMALL \<equiv> 0x8000000000000005"
abbreviation (input) EFI_OUT_OF_RESOURCES :: u64 where "EFI_OUT_OF_RESOURCES \<equiv> 0x8000000000000009"

definition EFI_ERROR :: "u64 \<Rightarrow> bool" where
  "EFI_ERROR status = (status AND 0x8000000000000000 \<noteq> 0)"

datatype allocate_type = AllocateAnyPages | AllocateMaxAddress

record memory_map =
  mm_pBuffer :: u64
  mm_size :: u64
  mm_key :: u64
  mm_descriptorSize :: u64
  mm_descriptorVersion :: u32
  mm_descs :: "efi_desc list"

text \<open>
  \<open>svcGetMemoryMap\<close> gets the size and the address of the buffer in the record and returns
  it with its outputs filled in. \<open>svcAllocatePages\<close> gets and returns the address.
\<close>

record 'f boot_services =
  svcFreePool :: "u64 \<Rightarrow> 'f \<Rightarrow> u64 \<times> 'f"
  svcAllocatePool :: "u32 \<Rightarrow> u64 \<Rightarrow> 'f \<Rightarrow> u64 \<times> u64 \<times> 'f"
  svcGetMemoryMap :: "memory_map \<Rightarrow> 'f \<Rightarrow> u64 \<times> memory_map \<times> 'f"
  svcFreePages :: "u64 \<Rightarrow> u64 \<Rightarrow> 'f \<Rightarrow> u64 \<times> 'f"
  svcAllocatePages :: "allocate_type \<Rightarrow> u32 \<Rightarrow> u64 \<Rightarrow> u64 \<Rightarrow> 'f \<Rightarrow> u64 \<times> u64 \<times> 'f"
  svcExitBootServices :: "u64 \<Rightarrow> 'f \<Rightarrow> u64 \<times> 'f"

subsection \<open>The memory map\<close>

partial_function (option) get_memory_map_loop ::
  "'f boot_services \<Rightarrow> memory_map \<Rightarrow> 'f \<Rightarrow> (u64 \<times> memory_map \<times> 'f) option" where
  "get_memory_map_loop fw mm f =
     (let (status, f) = (if mm_pBuffer mm \<noteq> 0 then svcFreePool fw (mm_pBuffer mm) f else (EFI_SUCCESS, f))
      in if mm_pBuffer mm \<noteq> 0 \<and> EFI_ERROR status then Some (status, mm, f)
         else let (status, pBuffer, f) = svcAllocatePool fw EfiLoaderData (mm_size mm) f;
                  mm = mm\<lparr>mm_pBuffer := pBuffer\<rparr>
           in if EFI_ERROR status then Some (status, mm, f)
              else let (status, mm, f) = svcGetMemoryMap fw mm f
                in if status = EFI_BUFFER_TOO_SMALL
                   then get_memory_map_loop fw (mm\<lparr>mm_size := mm_size mm + mm_descriptorSize mm * 2\<rparr>) f
                   else Some (status, mm, f))"

definition GetMemoryMap :: "'f boot_services \<Rightarrow> memory_map \<Rightarrow> 'f \<Rightarrow> (u64 \<times> memory_map \<times> 'f) option" where
  "GetMemoryMap fw mm = get_memory_map_loop fw (if mm_size mm = 0 then mm\<lparr>mm_size := 512\<rparr> else mm)"

subsection \<open>The buffer of the page map\<close>

datatype page_map_setup_type = PAGE_MAP_4_SETUP | PAGE_MAP_5_SETUP | PAGE_MAP_4_TO_5_TRANSITION

record page_map_buffer =
  pm_pBuffer :: u64
  pm_bufferSize :: u64
  pm_pageMapOffset :: u64
  pm_pageMapSize :: u64
  pm_tmpPageMap4BufferOffset :: u64
  pm_tmpPageMap4BufferSize :: u64
  pm_codeRellocBufferOffset :: u64
  pm_codeRellocBufferSize :: u64
  pm_codeScratchBufferOffset :: u64
  pm_codeScratchBufferSize :: u64

abbreviation (input) SCRATCH_BUFFER_SIZE :: u64 where "SCRATCH_BUFFER_SIZE \<equiv> 128"
abbreviation (input) SCRATCH_BUFFER_ALIGN :: u64 where "SCRATCH_BUFFER_ALIGN \<equiv> 16"
abbreviation (input) INITIAL_PAGE_SIZE :: u64 where "INITIAL_PAGE_SIZE \<equiv> 4096"

definition BOOT_ALIGN :: "u64 \<Rightarrow> u64 \<Rightarrow> u64" where
  "BOOT_ALIGN x a = (x + a - 1) AND NOT (a - 1)"

text \<open>The functions return the filled record and the required size of the buffer.\<close>

definition FillPageMap4Sizes ::
  "efi_desc list \<Rightarrow> u64 \<Rightarrow> u64 \<Rightarrow> page_map_buffer \<Rightarrow> (page_map_buffer \<times> u64) option" where
  "FillPageMap4Sizes descs framebufferBase framebufferSize pb =
     do { mapSize \<leftarrow> CalculateInitialPageMap4Size descs framebufferBase framebufferSize;
          Some (pb\<lparr>pm_pageMapOffset := 0, pm_pageMapSize := mapSize\<rparr>, mapSize) }"

definition FillPageMap5Sizes ::
  "efi_desc list \<Rightarrow> u64 \<Rightarrow> u64 \<Rightarrow> page_map_buffer \<Rightarrow> (page_map_buffer \<times> u64) option" where
  "FillPageMap5Sizes descs framebufferBase framebufferSize pb =
     do { mapSize \<leftarrow> CalculateInitialPageMap5Size descs framebufferBase framebufferSize;
          Some (pb\<lparr>pm_pageMapOffset := 0, pm_pageMapSize := mapSize\<rparr>, mapSize) }"

definition FillPageMap4To5SizesBelow4G ::
  "efi_desc list \<Rightarrow> u64 \<Rightarrow> u64 \<Rightarrow> page_map_buffer \<Rightarrow> (page_map_buffer \<times> u64) option" where
  "FillPageMap4To5SizesBelow4G descs framebufferBase framebufferSize pb =
     do { level5Size \<leftarrow> CalculateInitialPageMap5Size descs framebufferBase framebufferSize;
          let pb = pb\<lparr>pm_pageMapOffset := 0, pm_pageMapSize := level5Size\<rparr>;
              totalSize = 0 + level5Size;
              totalSize = BOOT_ALIGN totalSize SCRATCH_BUFFER_ALIGN;
              pb = pb\<lparr>pm_codeScratchBufferOffset := totalSize, pm_codeScratchBufferSize := SCRATCH_BUFFER_SIZE\<rparr>;
              totalSize = totalSize + SCRATCH_BUFFER_SIZE
          in Some (pb, totalSize) }"

definition FillPageMap4To5SizesAbove4G ::
  "u64 \<Rightarrow> u64 \<Rightarrow> efi_desc list \<Rightarrow> u64 \<Rightarrow> u64 \<Rightarrow> page_map_buffer \<Rightarrow> (page_map_buffer \<times> u64) option" where
  "FillPageMap4To5SizesAbove4G regionStart regionEnd descs framebufferBase framebufferSize pb =
     do { level5Size \<leftarrow> CalculateInitialPageMap5Size descs framebufferBase framebufferSize;
          level4Size \<leftarrow> CalculateTransitionalPageMap4Size descs;
          let pb = pb\<lparr>pm_pageMapOffset := 0, pm_pageMapSize := level5Size\<rparr>;
              totalSize = 0 + level5Size;
              totalSize = BOOT_ALIGN totalSize INITIAL_PAGE_SIZE;
              pb = pb\<lparr>pm_tmpPageMap4BufferOffset := totalSize, pm_tmpPageMap4BufferSize := level4Size\<rparr>;
              totalSize = totalSize + level4Size;
              totalSize = BOOT_ALIGN totalSize INITIAL_PAGE_SIZE;
              codeRellocSize = regionEnd - regionStart;
              pb = pb\<lparr>pm_codeRellocBufferOffset := totalSize, pm_codeRellocBufferSize := codeRellocSize\<rparr>;
              totalSize = totalSize + codeRellocSize;
              totalSize = BOOT_ALIGN totalSize SCRATCH_BUFFER_ALIGN;
              pb = pb\<lparr>pm_codeScratchBufferOffset := totalSize, pm_codeScratchBufferSize := SCRATCH_BUFFER_SIZE\<rparr>;
              totalSize = totalSize + SCRATCH_BUFFER_SIZE
          in Some (pb, totalSize) }"

definition FillPageMapSizes ::
  "u64 \<Rightarrow> u64 \<Rightarrow> page_map_setup_type \<Rightarrow> efi_desc list \<Rightarrow> u64 \<Rightarrow> u64 \<Rightarrow> page_map_buffer \<Rightarrow>
    (page_map_buffer \<times> u64) option" where
  "FillPageMapSizes regionStart regionEnd ty descs framebufferBase framebufferSize pb =
     (case ty of
        PAGE_MAP_4_SETUP \<Rightarrow> FillPageMap4Sizes descs framebufferBase framebufferSize pb
      | PAGE_MAP_5_SETUP \<Rightarrow> FillPageMap5Sizes descs framebufferBase framebufferSize pb
      | PAGE_MAP_4_TO_5_TRANSITION \<Rightarrow>
          (if regionEnd < 4294967296
           then FillPageMap4To5SizesBelow4G descs framebufferBase framebufferSize pb
           else FillPageMap4To5SizesAbove4G regionStart regionEnd descs framebufferBase framebufferSize pb))"

text \<open>The status, the new address and the state.\<close>

definition ReAllocPageMapBuffer ::
  "'f boot_services \<Rightarrow> u64 \<Rightarrow> u64 \<Rightarrow> u64 \<Rightarrow> page_map_setup_type \<Rightarrow> 'f \<Rightarrow> u64 \<times> u64 \<times> 'f" where
  "ReAllocPageMapBuffer fw bufferAddress numPreviousPages numNewPages ty f =
     (let (status, f) = (if numPreviousPages \<noteq> 0 then svcFreePages fw bufferAddress numPreviousPages f
                         else (EFI_SUCCESS, f))
      in if numPreviousPages \<noteq> 0 \<and> EFI_ERROR status then (status, bufferAddress, f)
         else case ty of
             PAGE_MAP_4_TO_5_TRANSITION \<Rightarrow> svcAllocatePages fw AllocateMaxAddress EfiLoaderData numNewPages 4294967296 f
           | _ \<Rightarrow> svcAllocatePages fw AllocateAnyPages EfiLoaderData numNewPages bufferAddress f)"

partial_function (option) page_map_buffer_loop ::
  "'f boot_services \<Rightarrow> (efi_desc list \<Rightarrow> page_map_buffer \<Rightarrow> (page_map_buffer \<times> u64) option) \<Rightarrow>
    page_map_setup_type \<Rightarrow> u64 \<Rightarrow> u64 \<Rightarrow> u64 \<Rightarrow> memory_map \<Rightarrow> page_map_buffer \<Rightarrow> 'f \<Rightarrow>
    (u64 \<times> memory_map \<times> page_map_buffer \<times> 'f) option" where
  "page_map_buffer_loop fw fillSizes ty status numPreviousPages numNewEfiPages mm pb f =
     (let (_, bufferAddress, f) = ReAllocPageMapBuffer fw (pm_pBuffer pb) numPreviousPages numNewEfiPages ty f
      in if EFI_ERROR status then Some (status, mm, pb, f)
         else Option.bind (GetMemoryMap fw mm f) (\<lambda>(status, mm, f).
           if EFI_ERROR status then Some (status, mm, pb, f)
           else Option.bind (fillSizes (mm_descs mm) pb) (\<lambda>(pb, requiredPageMapSize).
             let pb = pb\<lparr>pm_pBuffer := bufferAddress, pm_bufferSize := numNewEfiPages * 4096\<rparr>
             in if pm_bufferSize pb \<ge> requiredPageMapSize then Some (EFI_SUCCESS, mm, pb, f)
                else let requiredPages = (requiredPageMapSize + 4096 - 1) div 4096
                  in page_map_buffer_loop fw fillSizes ty status numNewEfiPages (requiredPages * 2) mm pb f)))"

definition GetMemoryMapAndPageMapBuffer ::
  "'f boot_services \<Rightarrow> (efi_desc list \<Rightarrow> page_map_buffer \<Rightarrow> (page_map_buffer \<times> u64) option) \<Rightarrow>
    page_map_setup_type \<Rightarrow> memory_map \<Rightarrow> page_map_buffer \<Rightarrow> 'f \<Rightarrow>
    (u64 \<times> memory_map \<times> page_map_buffer \<times> 'f) option" where
  "GetMemoryMapAndPageMapBuffer fw fillSizes ty mm pb f =
     (let numPreviousPages = (pm_bufferSize pb + 4096 - 1) div 4096;
          numNewEfiPages = numPreviousPages;
          numNewEfiPages = (if numNewEfiPages = 0 then 4 else numNewEfiPages)
      in page_map_buffer_loop fw fillSizes ty EFI_SUCCESS numPreviousPages numNewEfiPages mm pb f)"

subsection \<open>Leaving the boot services\<close>

partial_function (option) exit_boot_services_loop ::
  "'f boot_services \<Rightarrow> (efi_desc list \<Rightarrow> page_map_buffer \<Rightarrow> (page_map_buffer \<times> u64) option) \<Rightarrow>
    page_map_setup_type \<Rightarrow> memory_map \<Rightarrow> page_map_buffer \<Rightarrow> 'f \<Rightarrow>
    (u64 \<times> memory_map \<times> page_map_buffer \<times> 'f) option" where
  "exit_boot_services_loop fw fillSizes ty mm pb f =
     Option.bind (GetMemoryMapAndPageMapBuffer fw fillSizes ty mm pb f) (\<lambda>(status, mm, pb, f).
       if EFI_ERROR status then Some (status, mm, pb, f)
       else let (status, f) = svcExitBootServices fw (mm_key mm) f
         in if status = EFI_INVALID_PARAMETER then exit_boot_services_loop fw fillSizes ty mm pb f
            else Some (status, mm, pb, f))"

datatype boot_event =
    ForgetBootServices
  | DisableInterrupts
  | SwitchPageMap u64
  | CopySwitchCode u64 u64
  | ClearScratchBuffer u64 u64
  | SwitchPageMap4To5 u64 u64 u64

definition no_page_map_buffer :: page_map_buffer where
  "no_page_map_buffer = \<lparr>pm_pBuffer = 0, pm_bufferSize = 0, pm_pageMapOffset = 0, pm_pageMapSize = 0,
     pm_tmpPageMap4BufferOffset = 0, pm_tmpPageMap4BufferSize = 0, pm_codeRellocBufferOffset = 0,
     pm_codeRellocBufferSize = 0, pm_codeScratchBufferOffset = 0, pm_codeScratchBufferSize = 0\<rparr>"

text \<open>The descriptor size and version are the caller's variables; the others start empty.\<close>

definition no_memory_map :: "u64 \<Rightarrow> u32 \<Rightarrow> memory_map" where
  "no_memory_map descriptorSize descriptorVersion = \<lparr>mm_pBuffer = 0, mm_size = 0, mm_key = 0,
     mm_descriptorSize = descriptorSize, mm_descriptorVersion = descriptorVersion, mm_descs = []\<rparr>"

definition ExitBootServicesAndGetBuffer ::
  "'f boot_services \<Rightarrow> (efi_desc list \<Rightarrow> page_map_buffer \<Rightarrow> (page_map_buffer \<times> u64) option) \<Rightarrow>
    page_map_setup_type \<Rightarrow> u64 \<Rightarrow> u32 \<Rightarrow> 'f \<Rightarrow>
    (u64 \<times> memory_map \<times> page_map_buffer \<times> boot_event list \<times> 'f) option" where
  "ExitBootServicesAndGetBuffer fw fillSizes ty descriptorSize descriptorVersion f =
     do { (status, mm, pb, f) \<leftarrow> exit_boot_services_loop fw fillSizes ty
            (no_memory_map descriptorSize descriptorVersion) no_page_map_buffer f;
          if EFI_ERROR status then Some (status, mm, pb, [], f)
          else Some (status, mm, pb, [ForgetBootServices], f) }"

subsection \<open>Switching to the page map\<close>

definition CreateAndSwitchPageMap4 ::
  "efi_desc list \<Rightarrow> u64 \<Rightarrow> u64 \<Rightarrow> page_map_buffer \<Rightarrow> entries \<Rightarrow> (bool \<times> entries \<times> boot_event list) option" where
  "CreateAndSwitchPageMap4 descs framebufferBase framebufferSize pb m =
     do { (pPML, m) \<leftarrow> SetupInitialPageMap4 descs framebufferBase framebufferSize
            (pm_pBuffer pb + pm_pageMapOffset pb) (pm_pageMapSize pb) m;
          case pPML of None \<Rightarrow> Some (False, m, []) | Some p \<Rightarrow> Some (True, m, [SwitchPageMap p]) }"

definition CreateAndSwitchPageMap5 ::
  "efi_desc list \<Rightarrow> u64 \<Rightarrow> u64 \<Rightarrow> page_map_buffer \<Rightarrow> entries \<Rightarrow> (bool \<times> entries \<times> boot_event list) option" where
  "CreateAndSwitchPageMap5 descs framebufferBase framebufferSize pb m =
     do { (pPML, m) \<leftarrow> SetupInitialPageMap5 descs framebufferBase framebufferSize
            (pm_pBuffer pb + pm_pageMapOffset pb) (pm_pageMapSize pb) m;
          case pPML of None \<Rightarrow> Some (False, m, []) | Some p \<Rightarrow> Some (True, m, [SwitchPageMap p]) }"

definition CreateAndSwitchPageMap4To5Below4G ::
  "u64 \<Rightarrow> efi_desc list \<Rightarrow> u64 \<Rightarrow> u64 \<Rightarrow> page_map_buffer \<Rightarrow> entries \<Rightarrow>
    (bool \<times> entries \<times> boot_event list) option" where
  "CreateAndSwitchPageMap4To5Below4G regionStart descs framebufferBase framebufferSize pb m =
     do { (pPML, m) \<leftarrow> SetupInitialPageMap5 descs framebufferBase framebufferSize
            (pm_pBuffer pb + pm_pageMapOffset pb) (pm_pageMapSize pb) m;
          case pPML of None \<Rightarrow> Some (False, m, [])
          | Some p \<Rightarrow> let pScratchBuffer = pm_pBuffer pb + pm_codeScratchBufferOffset pb
              in Some (True, m, [ClearScratchBuffer pScratchBuffer SCRATCH_BUFFER_SIZE,
                   SwitchPageMap4To5 regionStart p pScratchBuffer]) }"

definition CreateAndSwitchPageMap4To5Above4G ::
  "u64 \<Rightarrow> u64 \<Rightarrow> efi_desc list \<Rightarrow> u64 \<Rightarrow> u64 \<Rightarrow> page_map_buffer \<Rightarrow> entries \<Rightarrow>
    (bool \<times> entries \<times> boot_event list) option" where
  "CreateAndSwitchPageMap4To5Above4G regionStart regionEnd descs framebufferBase framebufferSize pb m =
     do { (pTmpPML, m) \<leftarrow> SetupTransitionalPageMap4 descs
            (pm_pBuffer pb + pm_tmpPageMap4BufferOffset pb) (pm_tmpPageMap4BufferSize pb) m;
          case pTmpPML of None \<Rightarrow> Some (False, m, [])
          | Some t \<Rightarrow>
              do { (pPML, m) \<leftarrow> SetupInitialPageMap5 descs framebufferBase framebufferSize
                     (pm_pBuffer pb + pm_pageMapOffset pb) (pm_pageMapSize pb) m;
                   case pPML of None \<Rightarrow> Some (False, m, [SwitchPageMap t])
                   | Some p \<Rightarrow>
                       let pPageSwitchRellocCode = pm_pBuffer pb + pm_codeRellocBufferOffset pb;
                           pScratchBuffer = pm_pBuffer pb + pm_codeScratchBufferOffset pb
                       in Some (True, m, [SwitchPageMap t,
                            CopySwitchCode pPageSwitchRellocCode (regionEnd - regionStart),
                            ClearScratchBuffer pScratchBuffer SCRATCH_BUFFER_SIZE,
                            SwitchPageMap4To5 pPageSwitchRellocCode p pScratchBuffer]) } }"

definition SwitchToIdentityPageMap ::
  "u64 \<Rightarrow> u64 \<Rightarrow> page_map_setup_type \<Rightarrow> efi_desc list \<Rightarrow> u64 \<Rightarrow> u64 \<Rightarrow> page_map_buffer \<Rightarrow> entries \<Rightarrow>
    (bool \<times> entries \<times> boot_event list) option" where
  "SwitchToIdentityPageMap regionStart regionEnd ty descs framebufferBase framebufferSize pb m =
     (case ty of
        PAGE_MAP_4_SETUP \<Rightarrow> CreateAndSwitchPageMap4 descs framebufferBase framebufferSize pb m
      | PAGE_MAP_5_SETUP \<Rightarrow> CreateAndSwitchPageMap5 descs framebufferBase framebufferSize pb m
      | PAGE_MAP_4_TO_5_TRANSITION \<Rightarrow>
          (if regionEnd < 4294967296
           then CreateAndSwitchPageMap4To5Below4G regionStart descs framebufferBase framebufferSize pb m
           else CreateAndSwitchPageMap4To5Above4G regionStart regionEnd descs framebufferBase framebufferSize pb m))"

text \<open>The two answers come from assembly: \<open>cpuid\<close> and the LA57 bit of CR4.\<close>

definition GetPageMapSetupType :: "bool \<Rightarrow> bool \<Rightarrow> page_map_setup_type" where
  "GetPageMapSetupType has5LevelPagingSupport is5LevelPagingActive =
     (if has5LevelPagingSupport
      then (if is5LevelPagingActive then PAGE_MAP_5_SETUP else PAGE_MAP_4_TO_5_TRANSITION)
      else PAGE_MAP_4_SETUP)"

text \<open>The status, the memory map for the caller, the tables, the events and the firmware's state.\<close>

definition EndBootPhase ::
  "'f boot_services \<Rightarrow> u64 \<Rightarrow> u64 \<Rightarrow> bool \<Rightarrow> bool \<Rightarrow> u64 \<Rightarrow> u64 \<Rightarrow> u64 \<Rightarrow> u32 \<Rightarrow> 'f \<Rightarrow> entries \<Rightarrow>
    (u64 \<times> memory_map \<times> entries \<times> boot_event list \<times> 'f) option" where
  "EndBootPhase fw regionStart regionEnd has5 is5 framebufferBase framebufferSize
       descriptorSize descriptorVersion f m =
     (let ty = GetPageMapSetupType has5 is5
      in do { (status, mm, pb, ev, f) \<leftarrow> ExitBootServicesAndGetBuffer fw
                (\<lambda>descs. FillPageMapSizes regionStart regionEnd ty descs framebufferBase framebufferSize)
                ty descriptorSize descriptorVersion f;
              if EFI_ERROR status then Some (status, mm, m, ev, f)
              else do { (mapSuccess, m, ev') \<leftarrow> SwitchToIdentityPageMap regionStart regionEnd ty (mm_descs mm)
                          framebufferBase framebufferSize pb m;
                        Some (if mapSuccess then EFI_SUCCESS else EFI_OUT_OF_RESOURCES, mm, m,
                          ev @ [DisableInterrupts] @ ev', f) } })"

end
