(* ===== verification/UefiMemory.thy ===== *)
theory UefiMemory
  imports PhysMemStructs EfiMemMap EndBootPhase
begin

text \<open>
  The physical memory management that \<open>efi_main\<close> sets up from the firmware's final
  memory map (src/src/Boot/x86_64-efi/UefiBoot.c, lines 254 to 301): the initial memory
  map, the size of the structures, a region for them, and the structures.

  \<^item> The initial memory map is the array of its entries; \<open>buffer\<close> is what its memory holds
    before. \<open>pMap\<close> and \<open>st\<close> are what the memory of the structures holds before.
  \<^item> The result is the status on the left, or the map, the sizes, the address and the
    structures; \<open>None\<close> would be an endless loop.
\<close>

fun FindMemStructsRegion :: "init_entry list \<Rightarrow> u64 \<Rightarrow> u64 option" where
  "FindMemStructsRegion [] requiredSize = None"
| "FindMemStructsRegion (e # es) requiredSize =
     (if memoryType e = TYPE_USABLE \<and> usage e = USAGE_MAPPED \<and> numPhysicalPages e * PAGE_SIZE \<ge> requiredSize
      then Some (virtualAddress e) else FindMemStructsRegion es requiredSize)"

definition init_map_list :: "init_map \<Rightarrow> init_entry list" where
  "init_map_list m = map (\<lambda>i. im_entries m (of_nat i)) [0..<unat (im_numEntries m)]"

text \<open>
  The \<open>memset\<close> on the memory of the structures. Its bytes are set by the kernel's function;
  the typed store, whose structs overlay them, gets zeros where a struct lies in the memory.
\<close>

definition zero_range :: phys_range where
  "zero_range = \<lparr>range_type = TYPE_UNUSABLE, range_address = 0, range_size = 0, range_flags = 0\<rparr>"

definition zero_entry :: tree_entry where
  "zero_entry = \<lparr>entry_type = TYPE_UNUSABLE, entry_flags = 0, startAddress = 0, endAddress = 0,
     numPages = 0, pTreeLevels = 0, numTreeLevels = 0, pNextEntry = 0\<rparr>"

definition zero_level :: tree_level where
  "zero_level = \<lparr>startMappedAddress = 0, blockSize = 0, numBlocks = 0, pBlocks = 0\<rparr>"

definition ZeroMemStructs ::
  "u64 \<Rightarrow> structs_size_data \<Rightarrow> (u64 \<Rightarrow> phys_range) \<Rightarrow> phys_structs \<Rightarrow> ((u64 \<Rightarrow> phys_range) \<times> phys_structs) option" where
  "ZeroMemStructs p req pMap st =
     (let n = ss_bufferSize req;
          inside = (\<lambda>x size. unat (x - p) + size \<le> unat n)
      in do { tm \<leftarrow> memset_blocks p 0 n (st_mem st);
           Some (\<lambda>i. if unat (ss_memMapOffset req) + 32 * (unat i + 1) \<le> unat n then zero_range else pMap i,
             st\<lparr>st_mem := tm\<lparr>entry_at := \<lambda>x. if inside x 64 then zero_entry else entry_at tm x,
               level_at := \<lambda>x. if inside x 32 then zero_level else level_at tm x\<rparr>\<rparr>) })"

definition SetupPhysicalMemory ::
  "efi_desc list \<Rightarrow> (u64 \<Rightarrow> init_entry) \<Rightarrow> init_map \<Rightarrow> (u64 \<Rightarrow> phys_range) \<Rightarrow> phys_structs \<Rightarrow>
    (u64 + init_map \<times> structs_size_data \<times> u64 \<times> phys_structs) option" where
  "SetupPhysicalMemory descs buffer m pMap st =
     do { (ok, initialMemMap) \<leftarrow> CreateInitialMemMapFromEfi descs buffer m;
          if \<not> ok then Some (Inl EFI_OUT_OF_RESOURCES)
          else do { physMemReq \<leftarrow> GetPhysicalMemStructsSizeData (init_map_list initialMemMap);
            case FindMemStructsRegion (init_map_list initialMemMap) (ss_bufferSize physMemReq) of
              None \<Rightarrow> Some (Inl EFI_OUT_OF_RESOURCES)
            | Some memStructsAddress \<Rightarrow>
                do { (pMap, st) \<leftarrow> ZeroMemStructs memStructsAddress physMemReq pMap st;
                     (ok, st) \<leftarrow> CreatePhysicalMemStructs (init_map_list initialMemMap) memStructsAddress
                       physMemReq pMap st;
                     if \<not> ok then Some (Inl EFI_OUT_OF_RESOURCES)
                     else Some (Inr (initialMemMap, physMemReq, memStructsAddress, st)) } } }"

subsection \<open>Pages\<close>

text \<open>Entries of whole pages in the lower half of the address space.\<close>

definition paged :: "init_entry \<Rightarrow> bool" where
  "paged e = (4096 dvd unat (physicalAddress e) \<and> entry_end e \<le> 2 ^ 63)"

definition paged_desc :: "efi_desc \<Rightarrow> bool" where
  "paged_desc d = (4096 dvd unat (efi_PhysicalStart d) \<and>
     unat (efi_PhysicalStart d) + unat (efi_NumberOfPages d) * 4096 \<le> 2 ^ 63)"

lemma paged_efi_entry:
  assumes "paged_desc d"
  shows "paged (efi_entry d)"
proof -
  have "unat (efi_NumberOfPages d * 4096) = unat (efi_NumberOfPages d) * 4096"
    using assms by (intro unat_pages [of "efi_PhysicalStart d"]) (simp add: paged_desc_def)
  hence "efi_NumberOfPages d * 4096 div 4096 = efi_NumberOfPages d"
    by (simp add: word_unat_eq_iff unat_u64_div)
  thus ?thesis using assms by (simp add: paged_def paged_desc_def efi_entry_def entry_end_def)
qed

lemma paged_merge_from:
  "good_seq (c # es) \<Longrightarrow> list_all paged (c # es) \<Longrightarrow> list_all paged (merge_from c es)"
proof (induction c es rule: merge_from.induct)
  case (2 c e es)
  show ?case
  proof (cases "combines c e")
    case True
    have good: "good_entry c" "good_entry e" using "2.prems"(1) by (simp_all add: good_seq_def)
    have "paged (combine c e)"
      using combine_good [OF good True] "2.prems"(2) by (simp add: paged_def combine_def)
    moreover have "good_seq (combine c e # es)" by (rule good_seq_combine [OF "2.prems"(1) True])
    ultimately show ?thesis using "2.IH"(1) [OF True] "2.prems"(2) True by simp
  next
    case False
    have "good_seq (e # es)" using "2.prems"(1) by (simp add: good_seq_def)
    thus ?thesis using "2.IH"(2) [OF False] "2.prems"(2) False by simp
  qed
qed simp

lemma paged_efi_entries:
  assumes "sound_descs descs" "list_all paged_desc descs"
  shows "list_all paged (efi_entries descs)"
proof -
  have all: "list_all paged (map efi_entry (sorted_descs descs))"
    using assms(2) paged_efi_entry by (auto simp: list_all_iff sound_descs_good(2) [OF assms(1)])
  show ?thesis
  proof (cases "map efi_entry (sorted_descs descs)")
    case (Cons e es)
    thus ?thesis
      using paged_merge_from [of e es] sound_descs_good(1) [OF assms(1)] all by (simp add: efi_entries_def)
  qed (simp add: efi_entries_def)
qed

lemma paged_split_entries:
  assumes good: "good_seq es" and b: "b \<in> set es" and n: "0 < n" "n \<le> numPhysicalPages b"
    and paged: "list_all paged es"
  shows "list_all paged (split_entries (physicalAddress b) n es)"
proof -
  have other: "list_all paged (split_entry (physicalAddress b) n e)" if e: "e \<in> set es" for e
  proof (cases "physicalAddress e = physicalAddress b")
    case False
    thus ?thesis using paged e by (simp add: split_entry_other list_all_iff)
  next
    case True
    hence "e = b"
      using good b e good_seq_distinct by (metis (no_types, lifting) Un_iff in_set_conv_decomp set_ConsD set_append)
    have gb: "good_entry b" using good b by (simp add: good_seq_def list_all_iff)
    have pb: "paged b" using paged b by (simp add: list_all_iff)
    show ?thesis
      unfolding list_all_iff \<open>e = b\<close>
    proof
      fix e'
      assume e': "e' \<in> set (split_entry (physicalAddress b) n b)"
      note split = split_entry_good [OF gb n e']
      have "physicalAddress e' = physicalAddress b \<or> physicalAddress e' = physicalAddress b + n * 4096"
        using e' by (auto simp: split_entry_def split: if_splits)
      hence "4096 dvd unat (physicalAddress e')"
        using split_entry_pages(1) [OF gb n(2)] pb by (auto simp: paged_def)
      thus "paged e'" using split(3) pb by (simp add: paged_def)
    qed
  qed
  thus ?thesis by (auto simp: split_entries_def list_all_iff)
qed

subsection \<open>Ranges\<close>

lemma good_entry_range: "good_entry e \<Longrightarrow> range_end (entry_range e) = entry_end e"
  by (simp add: good_entry_def range_end_entry entry_end_def)

lemma combined_ends:
  "list_all sound_entry es \<Longrightarrow> r \<in> set (combined_ranges es) \<Longrightarrow>
    \<exists>e \<in> set es. range_end r = range_end (entry_range e)"
proof (induction es rule: combined_ranges.induct)
  case (2 e es)
  obtain r' rest where first: "first_range e es = (r', rest)" by fastforce
  from first_range_prefix [OF first "2.prems"(1)] obtain taken where
    T: "es = taken @ rest" "range_end r' = range_end (entry_range (last (e # taken)))" by blast
  show ?case
  proof (cases "r = r'")
    case True
    moreover have "last (e # taken) \<in> set (e # es)" using last_in_set [of "e # taken"] T(1) by auto
    ultimately show ?thesis using T(2) by blast
  next
    case False
    hence "r \<in> set (combined_ranges rest)" using "2.prems"(2) first by simp
    moreover have "list_all sound_entry rest" using "2.prems"(1) T(1) by simp
    ultimately show ?thesis using "2.IH" [OF first [symmetric]] T(1) by auto
  qed
qed simp

lemma paged_ranges:
  assumes good: "good_seq es" and paged: "list_all paged es" and r: "r \<in> set (combined_ranges es)"
  shows "low_range r" "page_range r"
proof -
  have sound: "list_all sound_entry es" using good by (auto simp: good_seq_def good_entry_def list_all_iff)
  obtain e where e: "e \<in> set es" "range_end r = entry_end e"
    using combined_ends [OF sound r] good by (auto simp: good_seq_def list_all_iff good_entry_range)
  obtain e' where e': "e' \<in> set es" "range_address r = physicalAddress e'"
    using combined_starts [OF r] by blast
  have "paged e" "paged e'" using paged e(1) e'(1) by (simp_all add: list_all_iff)
  thus "low_range r" "page_range r"
    using e(2) e'(2) by (simp_all add: low_range_def page_range_def paged_def entry_end_def range_start_def)
qed

lemma paged_sound_regions:
  assumes good: "good_seq es" and paged: "list_all paged es"
  shows "list_all sound_region (entry_regions es)"
proof -
  have "sound_region (physicalAddress e, numPhysicalPages e * 4096)" if "e \<in> set es" for e
  proof -
    have e: "good_entry e" "paged e" using good paged that by (simp_all add: good_seq_def list_all_iff)
    hence "unat (numPhysicalPages e * 4096) = unat (numPhysicalPages e) * 4096"
      by (intro unat_pages [of "physicalAddress e"]) (simp add: good_entry_def sound_entry_def)
    thus ?thesis using e(2) by (simp add: sound_region_def paged_def entry_end_def)
  qed
  thus ?thesis by (auto simp: entry_regions_def list_all_iff)
qed

lemma usable_tree_ranges:
  assumes good: "good_seq es" and e: "e \<in> set es" "memoryType e = TYPE_USABLE"
  shows "tree_ranges es \<noteq> []"
proof -
  have sound: "list_all sound_entry es" using good by (auto simp: good_seq_def good_entry_def list_all_iff)
  have ge: "good_entry e" using good e(1) by (simp add: good_seq_def list_all_iff)
  have "describes (map entry_range es) TYPE_USABLE (flags e) (unat (physicalAddress e))"
    using e good_entry_start [OF ge] good_entry_range [OF ge]
    by (auto simp: describes_def intro!: bexI [of _ e])
  hence "describes (combined_ranges es) TYPE_USABLE (flags e) (unat (physicalAddress e))"
    using combined_describes [OF sound] by blast
  then obtain r where "r \<in> set (combined_ranges es)" "range_type r = TYPE_USABLE"
    by (auto simp: describes_def)
  hence "r \<in> set (tree_ranges es)" by (simp add: tree_ranges_def)
  thus ?thesis by auto
qed

subsection \<open>The region for the structures\<close>

definition entry_room :: "nat \<Rightarrow> init_entry \<Rightarrow> bool" where
  "entry_room n e = (usable_entry e \<and> n \<le> unat (numPhysicalPages e) * 4096)"

lemma FindMemStructsRegion_first:
  assumes "list_all good_entry es"
  shows "FindMemStructsRegion es n = map_option physicalAddress (find (entry_room (unat n)) es)"
  using assms
proof (induction es)
  case (Cons e es)
  have "unat (numPhysicalPages e * 4096) = unat (numPhysicalPages e) * 4096"
    using Cons.prems by (intro unat_pages [of "physicalAddress e"]) (simp add: good_entry_def sound_entry_def)
  thus ?case using Cons by (auto simp: entry_room_def usable_entry_def good_entry_def word_le_nat_alt)
qed simp

subsection \<open>The structures\<close>

text \<open>
  What is there after the setup for the entries \<open>es\<close> with the structures at \<open>a\<close>: the
  map lists the combined ranges, and the tree has a free block for exactly the pages that
  neither the structures nor an entry in use touch. Structures at address 0 have no tree:
  its root is the null pointer.
\<close>

definition memory_ready :: "init_entry list \<Rightarrow> u64 \<Rightarrow> structs_size_data \<Rightarrow> phys_structs \<Rightarrow> bool" where
  "memory_ready es a req st =
     (unat (ss_bufferSize req) = structs_bytes es \<and>
      unat (map_numEntries (st_map st)) = length (combined_ranges es) \<and>
      (\<forall>i < length (combined_ranges es). map_pEntries (st_map st) (of_nat i) = combined_ranges es ! i) \<and>
      st_tree st = a \<and>
      (a \<noteq> 0 \<longrightarrow> tree_at a (tree_ranges es) (st_mem st) \<and>
        (\<forall>i x. is_block (tree_ranges es) i 0 x \<longrightarrow> blk a (tree_ranges es) (st_mem st) i 0 x =
          (if \<exists>u \<in> set (used_regions es [(a, ss_bufferSize req)]). touches u (page_addr (tree_ranges es ! i) x)
           then 0 else 0x80))))"

definition memory_set_up ::
  "(u64 + init_map \<times> structs_size_data \<times> u64 \<times> phys_structs) option \<Rightarrow> init_entry list \<Rightarrow> bool" where
  "memory_set_up result es =
     (case find (entry_room (structs_bytes es)) es of
        None \<Rightarrow> result = Some (Inl EFI_OUT_OF_RESOURCES)
      | Some e \<Rightarrow> \<exists>im req st. result = Some (Inr (im, req, physicalAddress e, st)) \<and>
          init_map_list im = es \<and> memory_ready es (physicalAddress e) req st)"

lemma structures_set_up:
  assumes good: "good_seq es" and paged: "list_all paged es" and room: "structs_bytes es < 2 ^ 59"
    and im: "init_map_list im = es" "CreateInitialMemMapFromEfi descs buffer m = Some (True, im)"
  shows "memory_set_up (SetupPhysicalMemory descs buffer m pMap st) es"
proof -
  have ranges: "list_all low_range (combined_ranges es)" "list_all page_range (tree_ranges es)"
    using paged_ranges [OF good paged] by (auto simp: list_all_iff tree_ranges_def)
  obtain req where req: "GetPhysicalMemStructsSizeData es = Some req" "unat (ss_bufferSize req) = structs_bytes es"
    using structs_size [OF ranges(1) room] by blast
  have entries: "list_all good_entry es" using good by (simp add: good_seq_def)
  note find = FindMemStructsRegion_first [OF entries, of "ss_bufferSize req", unfolded req(2)]
  show ?thesis
  proof (cases "find (entry_room (structs_bytes es)) es")
    case None
    thus ?thesis using find im req by (simp add: memory_set_up_def SetupPhysicalMemory_def)
  next
    case (Some e)
    hence e: "e \<in> set es" "usable_entry e" "structs_bytes es \<le> unat (numPhysicalPages e) * 4096"
      by (auto simp: find_Some_iff entry_room_def)
    have pe: "paged e" using paged e(1) by (simp add: list_all_iff)
    have fits: "unat (physicalAddress e) + structs_bytes es + 4095 < 2 ^ 64"
      using pe e(3) by (simp add: paged_def entry_end_def)
    have trees: "tree_ranges es \<noteq> []"
      using usable_tree_ranges [OF good e(1)] e(2) by (simp add: usable_entry_def)
    have "\<exists>m. memset_blocks (physicalAddress e) 0 (ss_bufferSize req) (st_mem st) = Some (st_mem st\<lparr>byte_at := m\<rparr>)"
      using fits req(2) by (intro memset_blocks_some) simp
    then obtain pMap0 st0 where zero: "ZeroMemStructs (physicalAddress e) req pMap st = Some (pMap0, st0)"
      by (auto simp: ZeroMemStructs_def Let_def)
    obtain st' where st': "CreatePhysicalMemStructs es (physicalAddress e) req pMap0 st0 = Some (True, st')"
      "memory_ready es (physicalAddress e) req st'"
    proof (cases "physicalAddress e = 0")
      case True
      thus ?thesis using CreatePhysicalMemStructs_null [OF ranges(1) room, of pMap0 st0] req that
        by (auto simp: memory_ready_def)
    next
      case False
      thus ?thesis
        using CreatePhysicalMemStructs_blocks [OF ranges(1) room False fits trees ranges(2)
            paged_sound_regions [OF good paged], of pMap0 st0] req that
        by (auto simp: memory_ready_def)
    qed
    show ?thesis
      using st' find Some im req zero by (simp add: memory_set_up_def SetupPhysicalMemory_def)
  qed
qed

lemma init_map_list_array:
  assumes "length L < 2 ^ 60"
  shows "init_map_list \<lparr>im_pEntries = p, im_entries = array_of L buffer, im_numEntries = of_nat (length L)\<rparr> = L"
proof -
  have "unat (of_nat (length L) :: u64) = length L" using assms by (intro unat_u64_of_nat) simp
  moreover have "array_of L buffer (of_nat i) = L ! i" if "i < length L" for i
    using that assms by (simp add: array_of_def unat_u64_of_nat)
  ultimately show ?thesis by (auto simp: init_map_list_def intro!: nth_equalityI)
qed

definition initial_entries :: "efi_desc list \<Rightarrow> init_entry \<Rightarrow> init_entry list" where
  "initial_entries descs b = split_entries (physicalAddress b)
     (pages_for ((of_nat (length (efi_entries descs)) + 1) * 40)) (efi_entries descs)"

lemma SetupPhysicalMemory_outcome:
  assumes "sound_descs descs" "length descs < 2 ^ 50" "list_all paged_desc descs"
    and room: "\<forall>b. map_home (efi_entries descs) b \<longrightarrow> structs_bytes (initial_entries descs b) < 2 ^ 59"
  shows "(\<exists>b es. map_home (efi_entries descs) b \<and> good_seq es \<and>
      (\<forall>t u fl a. maps es t u fl a \<longleftrightarrow>
          (if unat (physicalAddress b) \<le> a \<and> a < unat (physicalAddress b) + map_pages (efi_entries descs) * 4096
           then t = TYPE_USABLE \<and> u = USAGE_INITIAL_MEMMAP \<and> fl = flags b
           else maps (map efi_entry descs) t u fl a)) \<and>
      es = initial_entries descs b \<and> memory_set_up (SetupPhysicalMemory descs buffer m pMap st) es)
    \<or> (\<forall>b. \<not> map_home (efi_entries descs) b) \<and>
      SetupPhysicalMemory descs buffer m pMap st = Some (Inl EFI_OUT_OF_RESOURCES)"
proof -
  let ?es = "efi_entries descs"
  have len: "length ?es < 2 ^ 50" using length_efi_entries [of descs] assms(2) by linarith
  show ?thesis
    using AllocInitMemMapMemory_home [OF assms(1) len]
  proof (elim disjE exE conjE)
    fix b
    assume b: "map_home ?es b" and alloc: "AllocInitMemMapMemory descs =
      Some (Some (physicalAddress b, virtualAddress b, (of_nat (length ?es) + 1) * 40))"
    let ?n = "pages_for ((of_nat (length ?es) + 1) * 40)"
    let ?L = "split_entries (physicalAddress b) ?n ?es"
    have n: "unat ?n = map_pages ?es" by (rule map_words(2) [OF len])
    have good: "good_seq ?es" by (rule efi_entries_good [OF assms(1)])
    have bin: "b \<in> set ?es" "memoryType b = TYPE_USABLE" "?n \<le> numPhysicalPages b" "0 < ?n"
      using b n by (simp_all add: map_home_def usable_entry_def word_le_nat_alt word_less_nat_alt
          map_pages_def map_bytes_def)
    have create: "CreateInitialMemMapFromEfi descs buffer m = Some (True, \<lparr>im_pEntries = virtualAddress b,
        im_entries = array_of ?L buffer, im_numEntries = of_nat (length ?L)\<rparr>)"
      using CreateInitMemMap_split [OF assms(1) len] alloc by (simp add: CreateInitialMemMapFromEfi_def)
    have "length ?L < 2 ^ 60"
      using length_split_entries [OF good, of "physicalAddress b" ?n] len by (auto split: if_splits)
    note list = init_map_list_array [OF this, of "virtualAddress b" buffer]
    have good_L: "good_seq ?L" by (rule split_entries_good(1) [OF good bin(1,4,3)])
    have paged_L: "list_all paged ?L"
      by (rule paged_split_entries [OF good bin(1,4,3) paged_efi_entries [OF assms(1,3)]])
    have "maps ?L t u fl a \<longleftrightarrow>
        (if unat (physicalAddress b) \<le> a \<and> a < unat (physicalAddress b) + map_pages ?es * 4096
         then t = TYPE_USABLE \<and> u = USAGE_INITIAL_MEMMAP \<and> fl = flags b
         else maps (map efi_entry descs) t u fl a)" for t u fl a
      unfolding split_entries_good(2) [OF good bin(1,4,3)] n bin(2) efi_entries_maps [OF assms(1)] by auto
    moreover have L: "initial_entries descs b = ?L" by (simp add: initial_entries_def)
    moreover have "structs_bytes ?L < 2 ^ 59" using room b L by metis
    ultimately show ?thesis using b good_L structures_set_up [OF good_L paged_L _ list create] by metis
  next
    assume none: "\<forall>b. \<not> map_home ?es b" "AllocInitMemMapMemory descs = Some None"
    thus ?thesis by (simp add: SetupPhysicalMemory_def CreateInitialMemMapFromEfi_def)
  qed
qed


subsection \<open>A small memory map\<close>

definition sample_map :: "init_entry list" where
  "sample_map =
    [\<lparr>memoryType = TYPE_USABLE, usage = USAGE_KERNEL_DATA, flags = 0xF, physicalAddress = 0x1000,
       virtualAddress = 0x1000, numPhysicalPages = 2\<rparr>,
     \<lparr>memoryType = TYPE_USABLE, usage = USAGE_INITIAL_MEMMAP, flags = 0xF, physicalAddress = 0x4000,
       virtualAddress = 0x4000, numPhysicalPages = 1\<rparr>,
     \<lparr>memoryType = TYPE_USABLE, usage = USAGE_MAPPED, flags = 0xF, physicalAddress = 0x5000,
       virtualAddress = 0x5000, numPhysicalPages = 4\<rparr>]"

lemma sample_initial: "initial_entries sample_descs (efi_entries sample_descs ! 1) = sample_map"
  by (simp add: initial_entries_def sample_efi_entries split_entries_def split_entry_def pages_for_def sample_map_def)

lemma sample_initial_ranges: "combined_ranges sample_map =
    [\<lparr>range_type = TYPE_USABLE, range_address = 0x1000, range_size = 0x2000, range_flags = 0xF\<rparr>,
     \<lparr>range_type = TYPE_USABLE, range_address = 0x4000, range_size = 0x5000, range_flags = 0xF\<rparr>]"
  by (simp add: sample_map_def entry_range_def first_range_def)

lemma sample_initial_depth: "depth 0x1000 0x3000 = 3" "depth 0x4000 0x9000 = 5"
proof -
  have two: "j < 2 \<Longrightarrow> j = 0 \<or> j = 1" and four: "j < 4 \<Longrightarrow> j = 0 \<or> j = 1 \<or> j = 2 \<or> j = 3" for j :: nat by auto
  have "depth 0x1000 0x3000 = Suc 2"
    by (rule depth_eqI; (drule two)?; auto simp: lnum_def lmax_def lmin_def bsz_def)
  moreover have "depth 0x4000 0x9000 = Suc 4"
    by (rule depth_eqI; (drule four)?; auto simp: lnum_def lmax_def lmin_def bsz_def)
  ultimately show "depth 0x1000 0x3000 = 3" "depth 0x4000 0x9000 = 5" by simp_all
qed

lemma sample_initial_bytes: "structs_bytes sample_map \<le> 4096"
  by (simp add: structs_bytes_def sample_initial_ranges tree_ranges_def tree_bytes_def range_levels_def
      rdepth_def range_start_def range_end_def sample_initial_depth own_bytes_def rnum_def upt_rec
      lnum_def lmax_def lmin_def bsz_def)

lemma sample_paged_descs: "list_all paged_desc sample_descs"
  by (simp add: sample_descs_def paged_desc_def)

lemma sample_room: "find (entry_room (structs_bytes sample_map)) sample_map =
    Some (sample_map ! 2)"
  using sample_initial_bytes unfolding sample_map_def by (simp add: entry_room_def usable_entry_def)


end
