(* ===== verification/KeyTables.thy ===== *)
theory KeyTables
  imports Machine
begin

text \<open>
  The keyboard's data (src/include/DexprOS/Kernel/KeyboardInput.h,
  Drivers/Keyboard/PS2KeyboardScanCodes.h and KeyToUnicodeTable.h,
  src/src/Drivers/Keyboard/USKeyboardLayout.c): the key identifiers, the tables of
  scan code set 2 and the US layout.

  \<^item> A key identifier is a 16-bit word; the \<open>#define\<close>s are abbreviations
    \<open>KEY_...\<close>.
  \<^item> A positional initialiser \<open>{key, action}\<close> of the tables is a pair.
  \<^item> The tables are constant, so a pointer to one of them is the table itself;
    the arrays \<open>pByteExtendCodes\<close> and \<open>pByteExtendedScanCodes\<close>, which are read at
    the same index, are one list of pairs.
\<close>

subsection \<open>Keys\<close>

datatype key_state = KEY_STATE_RELEASED | KEY_STATE_PRESSED | KEY_STATE_REPEAT

abbreviation (input) KEY_UNKNOWN :: u16 where "KEY_UNKNOWN \<equiv> 0"
abbreviation (input) KEY_0 :: u16 where "KEY_0 \<equiv> 48"
abbreviation (input) KEY_1 :: u16 where "KEY_1 \<equiv> 49"
abbreviation (input) KEY_2 :: u16 where "KEY_2 \<equiv> 50"
abbreviation (input) KEY_3 :: u16 where "KEY_3 \<equiv> 51"
abbreviation (input) KEY_4 :: u16 where "KEY_4 \<equiv> 52"
abbreviation (input) KEY_5 :: u16 where "KEY_5 \<equiv> 53"
abbreviation (input) KEY_6 :: u16 where "KEY_6 \<equiv> 54"
abbreviation (input) KEY_7 :: u16 where "KEY_7 \<equiv> 55"
abbreviation (input) KEY_8 :: u16 where "KEY_8 \<equiv> 56"
abbreviation (input) KEY_9 :: u16 where "KEY_9 \<equiv> 57"
abbreviation (input) KEY_A :: u16 where "KEY_A \<equiv> 65"
abbreviation (input) KEY_B :: u16 where "KEY_B \<equiv> 66"
abbreviation (input) KEY_C :: u16 where "KEY_C \<equiv> 67"
abbreviation (input) KEY_D :: u16 where "KEY_D \<equiv> 68"
abbreviation (input) KEY_E :: u16 where "KEY_E \<equiv> 69"
abbreviation (input) KEY_F :: u16 where "KEY_F \<equiv> 70"
abbreviation (input) KEY_G :: u16 where "KEY_G \<equiv> 71"
abbreviation (input) KEY_H :: u16 where "KEY_H \<equiv> 72"
abbreviation (input) KEY_I :: u16 where "KEY_I \<equiv> 73"
abbreviation (input) KEY_J :: u16 where "KEY_J \<equiv> 74"
abbreviation (input) KEY_K :: u16 where "KEY_K \<equiv> 75"
abbreviation (input) KEY_L :: u16 where "KEY_L \<equiv> 76"
abbreviation (input) KEY_M :: u16 where "KEY_M \<equiv> 77"
abbreviation (input) KEY_N :: u16 where "KEY_N \<equiv> 78"
abbreviation (input) KEY_O :: u16 where "KEY_O \<equiv> 79"
abbreviation (input) KEY_P :: u16 where "KEY_P \<equiv> 80"
abbreviation (input) KEY_Q :: u16 where "KEY_Q \<equiv> 81"
abbreviation (input) KEY_R :: u16 where "KEY_R \<equiv> 82"
abbreviation (input) KEY_S :: u16 where "KEY_S \<equiv> 83"
abbreviation (input) KEY_T :: u16 where "KEY_T \<equiv> 84"
abbreviation (input) KEY_U :: u16 where "KEY_U \<equiv> 85"
abbreviation (input) KEY_V :: u16 where "KEY_V \<equiv> 86"
abbreviation (input) KEY_W :: u16 where "KEY_W \<equiv> 87"
abbreviation (input) KEY_X :: u16 where "KEY_X \<equiv> 88"
abbreviation (input) KEY_Y :: u16 where "KEY_Y \<equiv> 89"
abbreviation (input) KEY_Z :: u16 where "KEY_Z \<equiv> 90"
abbreviation (input) KEY_SPACE :: u16 where "KEY_SPACE \<equiv> 32"
abbreviation (input) KEY_MINUS :: u16 where "KEY_MINUS \<equiv> 45"
abbreviation (input) KEY_EQUAL :: u16 where "KEY_EQUAL \<equiv> 61"
abbreviation (input) KEY_LEFT_BRACKET :: u16 where "KEY_LEFT_BRACKET \<equiv> 91"
abbreviation (input) KEY_RIGHT_BRACKET :: u16 where "KEY_RIGHT_BRACKET \<equiv> 93"
abbreviation (input) KEY_SEMICOLON :: u16 where "KEY_SEMICOLON \<equiv> 59"
abbreviation (input) KEY_APOSTROPHE :: u16 where "KEY_APOSTROPHE \<equiv> 39"
abbreviation (input) KEY_COMMA :: u16 where "KEY_COMMA \<equiv> 44"
abbreviation (input) KEY_PERIOD :: u16 where "KEY_PERIOD \<equiv> 46"
abbreviation (input) KEY_SLASH :: u16 where "KEY_SLASH \<equiv> 47"
abbreviation (input) KEY_BACKSLASH :: u16 where "KEY_BACKSLASH \<equiv> 92"
abbreviation (input) KEY_GRAVE_ACCENT :: u16 where "KEY_GRAVE_ACCENT \<equiv> 96"
abbreviation (input) KEY_DELETE :: u16 where "KEY_DELETE \<equiv> 127"
abbreviation (input) KEY_TAB :: u16 where "KEY_TAB \<equiv> 256"
abbreviation (input) KEY_CAPS_LOCK :: u16 where "KEY_CAPS_LOCK \<equiv> 257"
abbreviation (input) KEY_SCROLL_LOCK :: u16 where "KEY_SCROLL_LOCK \<equiv> 258"
abbreviation (input) KEY_NUM_LOCK :: u16 where "KEY_NUM_LOCK \<equiv> 259"
abbreviation (input) KEY_LEFT_SHIFT :: u16 where "KEY_LEFT_SHIFT \<equiv> 260"
abbreviation (input) KEY_LEFT_CONTROL :: u16 where "KEY_LEFT_CONTROL \<equiv> 261"
abbreviation (input) KEY_LEFT_SUPER :: u16 where "KEY_LEFT_SUPER \<equiv> 262"
abbreviation (input) KEY_LEFT_ALT :: u16 where "KEY_LEFT_ALT \<equiv> 263"
abbreviation (input) KEY_MENU :: u16 where "KEY_MENU \<equiv> 265"
abbreviation (input) KEY_ENTER :: u16 where "KEY_ENTER \<equiv> 266"
abbreviation (input) KEY_BACKSPACE :: u16 where "KEY_BACKSPACE \<equiv> 267"
abbreviation (input) KEY_ESCAPE :: u16 where "KEY_ESCAPE \<equiv> 268"
abbreviation (input) KEY_RIGHT_ALT :: u16 where "KEY_RIGHT_ALT \<equiv> 400"
abbreviation (input) KEY_RIGHT_SUPER :: u16 where "KEY_RIGHT_SUPER \<equiv> 401"
abbreviation (input) KEY_RIGHT_CONTROL :: u16 where "KEY_RIGHT_CONTROL \<equiv> 402"
abbreviation (input) KEY_RIGHT_SHIFT :: u16 where "KEY_RIGHT_SHIFT \<equiv> 403"
abbreviation (input) KEY_F1 :: u16 where "KEY_F1 \<equiv> 271"
abbreviation (input) KEY_F2 :: u16 where "KEY_F2 \<equiv> 272"
abbreviation (input) KEY_F3 :: u16 where "KEY_F3 \<equiv> 273"
abbreviation (input) KEY_F4 :: u16 where "KEY_F4 \<equiv> 274"
abbreviation (input) KEY_F5 :: u16 where "KEY_F5 \<equiv> 275"
abbreviation (input) KEY_F6 :: u16 where "KEY_F6 \<equiv> 276"
abbreviation (input) KEY_F7 :: u16 where "KEY_F7 \<equiv> 277"
abbreviation (input) KEY_F8 :: u16 where "KEY_F8 \<equiv> 278"
abbreviation (input) KEY_F9 :: u16 where "KEY_F9 \<equiv> 279"
abbreviation (input) KEY_F10 :: u16 where "KEY_F10 \<equiv> 280"
abbreviation (input) KEY_F11 :: u16 where "KEY_F11 \<equiv> 281"
abbreviation (input) KEY_F12 :: u16 where "KEY_F12 \<equiv> 282"
abbreviation (input) KEY_PRINT_SCREEN :: u16 where "KEY_PRINT_SCREEN \<equiv> 297"
abbreviation (input) KEY_PAUSE :: u16 where "KEY_PAUSE \<equiv> 298"
abbreviation (input) KEY_HOME :: u16 where "KEY_HOME \<equiv> 299"
abbreviation (input) KEY_PAGE_UP :: u16 where "KEY_PAGE_UP \<equiv> 300"
abbreviation (input) KEY_PAGE_DOWN :: u16 where "KEY_PAGE_DOWN \<equiv> 301"
abbreviation (input) KEY_END :: u16 where "KEY_END \<equiv> 302"
abbreviation (input) KEY_INSERT :: u16 where "KEY_INSERT \<equiv> 303"
abbreviation (input) KEY_LEFT :: u16 where "KEY_LEFT \<equiv> 304"
abbreviation (input) KEY_RIGHT :: u16 where "KEY_RIGHT \<equiv> 305"
abbreviation (input) KEY_UP :: u16 where "KEY_UP \<equiv> 306"
abbreviation (input) KEY_DOWN :: u16 where "KEY_DOWN \<equiv> 307"
abbreviation (input) KEY_ALT_SYSRQ :: u16 where "KEY_ALT_SYSRQ \<equiv> 308"
abbreviation (input) KEY_CONTROL_BREAK :: u16 where "KEY_CONTROL_BREAK \<equiv> 309"
abbreviation (input) KEY_KEYPAD_0 :: u16 where "KEY_KEYPAD_0 \<equiv> 310"
abbreviation (input) KEY_KEYPAD_1 :: u16 where "KEY_KEYPAD_1 \<equiv> 311"
abbreviation (input) KEY_KEYPAD_2 :: u16 where "KEY_KEYPAD_2 \<equiv> 312"
abbreviation (input) KEY_KEYPAD_3 :: u16 where "KEY_KEYPAD_3 \<equiv> 313"
abbreviation (input) KEY_KEYPAD_4 :: u16 where "KEY_KEYPAD_4 \<equiv> 314"
abbreviation (input) KEY_KEYPAD_5 :: u16 where "KEY_KEYPAD_5 \<equiv> 315"
abbreviation (input) KEY_KEYPAD_6 :: u16 where "KEY_KEYPAD_6 \<equiv> 316"
abbreviation (input) KEY_KEYPAD_7 :: u16 where "KEY_KEYPAD_7 \<equiv> 317"
abbreviation (input) KEY_KEYPAD_8 :: u16 where "KEY_KEYPAD_8 \<equiv> 318"
abbreviation (input) KEY_KEYPAD_9 :: u16 where "KEY_KEYPAD_9 \<equiv> 319"
abbreviation (input) KEY_KEYPAD_DECIMAL :: u16 where "KEY_KEYPAD_DECIMAL \<equiv> 320"
abbreviation (input) KEY_KEYPAD_DEVIDE :: u16 where "KEY_KEYPAD_DEVIDE \<equiv> 321"
abbreviation (input) KEY_KEYPAD_MULTIPLY :: u16 where "KEY_KEYPAD_MULTIPLY \<equiv> 322"
abbreviation (input) KEY_KEYPAD_SUBSTRACT :: u16 where "KEY_KEYPAD_SUBSTRACT \<equiv> 323"
abbreviation (input) KEY_KEYPAD_ADD :: u16 where "KEY_KEYPAD_ADD \<equiv> 324"
abbreviation (input) KEY_KEYPAD_ENTER :: u16 where "KEY_KEYPAD_ENTER \<equiv> 325"
abbreviation (input) KEY_KEYPAD_EQUAL :: u16 where "KEY_KEYPAD_EQUAL \<equiv> 326"
abbreviation (input) KEY_ACPI_POWER :: u16 where "KEY_ACPI_POWER \<equiv> 327"
abbreviation (input) KEY_ACPI_SLEEP :: u16 where "KEY_ACPI_SLEEP \<equiv> 328"
abbreviation (input) KEY_ACPI_WAKE :: u16 where "KEY_ACPI_WAKE \<equiv> 329"
abbreviation (input) KEY_MULTIMEDIA_WWW_SEARCH :: u16 where "KEY_MULTIMEDIA_WWW_SEARCH \<equiv> 330"
abbreviation (input) KEY_MULTIMEDIA_WWW_FAVOURITES :: u16 where "KEY_MULTIMEDIA_WWW_FAVOURITES \<equiv> 331"
abbreviation (input) KEY_MULTIMEDIA_WWW_REFRESH :: u16 where "KEY_MULTIMEDIA_WWW_REFRESH \<equiv> 332"
abbreviation (input) KEY_MULTIMEDIA_WWW_STOP :: u16 where "KEY_MULTIMEDIA_WWW_STOP \<equiv> 333"
abbreviation (input) KEY_MULTIMEDIA_WWW_FORWARD :: u16 where "KEY_MULTIMEDIA_WWW_FORWARD \<equiv> 334"
abbreviation (input) KEY_MULTIMEDIA_WWW_BACK :: u16 where "KEY_MULTIMEDIA_WWW_BACK \<equiv> 335"
abbreviation (input) KEY_MULTIMEDIA_WWW_HOME :: u16 where "KEY_MULTIMEDIA_WWW_HOME \<equiv> 336"
abbreviation (input) KEY_MULTIMEDIA_MY_COMPUTER :: u16 where "KEY_MULTIMEDIA_MY_COMPUTER \<equiv> 337"
abbreviation (input) KEY_MULTIMEDIA_EMAIL :: u16 where "KEY_MULTIMEDIA_EMAIL \<equiv> 338"
abbreviation (input) KEY_MULTIMEDIA_CALCULATOR :: u16 where "KEY_MULTIMEDIA_CALCULATOR \<equiv> 339"
abbreviation (input) KEY_MULTIMEDIA_VOLUME_DOWN :: u16 where "KEY_MULTIMEDIA_VOLUME_DOWN \<equiv> 340"
abbreviation (input) KEY_MULTIMEDIA_VOLUME_UP :: u16 where "KEY_MULTIMEDIA_VOLUME_UP \<equiv> 341"
abbreviation (input) KEY_MULTIMEDIA_MUTE :: u16 where "KEY_MULTIMEDIA_MUTE \<equiv> 342"
abbreviation (input) KEY_MULTIMEDIA_PREVIOUS_TRACK :: u16 where "KEY_MULTIMEDIA_PREVIOUS_TRACK \<equiv> 343"
abbreviation (input) KEY_MULTIMEDIA_NEXT_TRACK :: u16 where "KEY_MULTIMEDIA_NEXT_TRACK \<equiv> 344"
abbreviation (input) KEY_MULTIMEDIA_PLAY_PAUSE :: u16 where "KEY_MULTIMEDIA_PLAY_PAUSE \<equiv> 345"
abbreviation (input) KEY_MULTIMEDIA_STOP :: u16 where "KEY_MULTIMEDIA_STOP \<equiv> 346"
abbreviation (input) KEY_MULTIMEDIA_MEDIA_SELECT :: u16 where "KEY_MULTIMEDIA_MEDIA_SELECT \<equiv> 347"
abbreviation (input) KEY_Max :: u16 where "KEY_Max \<equiv> 512"

subsection \<open>Scan code set 2\<close>

datatype key_action = ACTION_NONE | ACTION_RELEASED | ACTION_PRESSED | ACTION_PRESSED_RELEASED

type_synonym map_key = "u16 \<times> key_action"

record special_sequence =
  seq_key :: map_key
  seq_bytes :: "u8 list"

datatype scan_codes = ScanCodes
  (keysPerByte: "map_key list")
  (byteExtended: "(u8 \<times> scan_codes) list")
  (specialSequences: "special_sequence list")

definition scanCode2SingleByteSet :: "map_key list" where
  "scanCode2SingleByteSet =
    [(0, ACTION_NONE), (KEY_F9, ACTION_PRESSED), (KEY_F7, ACTION_PRESSED),
     (KEY_F5, ACTION_PRESSED), (KEY_F3, ACTION_PRESSED), (KEY_F1, ACTION_PRESSED),
     (KEY_F2, ACTION_PRESSED), (KEY_F12, ACTION_PRESSED), (0, ACTION_NONE),
     (KEY_F10, ACTION_PRESSED), (KEY_F8, ACTION_PRESSED), (KEY_F6, ACTION_PRESSED),
     (KEY_F4, ACTION_PRESSED), (KEY_TAB, ACTION_PRESSED), (KEY_GRAVE_ACCENT, ACTION_PRESSED),
     (0, ACTION_NONE), (0, ACTION_NONE), (KEY_LEFT_ALT, ACTION_PRESSED),
     (KEY_LEFT_SHIFT, ACTION_PRESSED), (0, ACTION_NONE), (KEY_LEFT_CONTROL, ACTION_PRESSED),
     (KEY_Q, ACTION_PRESSED), (KEY_1, ACTION_PRESSED), (0, ACTION_NONE), (0, ACTION_NONE),
     (0, ACTION_NONE), (KEY_Z, ACTION_PRESSED), (KEY_S, ACTION_PRESSED), (KEY_A, ACTION_PRESSED),
     (KEY_W, ACTION_PRESSED), (KEY_2, ACTION_PRESSED), (0, ACTION_NONE), (0, ACTION_NONE),
     (KEY_C, ACTION_PRESSED), (KEY_X, ACTION_PRESSED), (KEY_D, ACTION_PRESSED),
     (KEY_E, ACTION_PRESSED), (KEY_4, ACTION_PRESSED), (KEY_3, ACTION_PRESSED), (0, ACTION_NONE),
     (0, ACTION_NONE), (KEY_SPACE, ACTION_PRESSED), (KEY_V, ACTION_PRESSED),
     (KEY_F, ACTION_PRESSED), (KEY_T, ACTION_PRESSED), (KEY_R, ACTION_PRESSED),
     (KEY_5, ACTION_PRESSED), (0, ACTION_NONE), (0, ACTION_NONE), (KEY_N, ACTION_PRESSED),
     (KEY_B, ACTION_PRESSED), (KEY_H, ACTION_PRESSED), (KEY_G, ACTION_PRESSED),
     (KEY_Y, ACTION_PRESSED), (KEY_6, ACTION_PRESSED), (0, ACTION_NONE), (0, ACTION_NONE),
     (0, ACTION_NONE), (KEY_M, ACTION_PRESSED), (KEY_J, ACTION_PRESSED), (KEY_U, ACTION_PRESSED),
     (KEY_7, ACTION_PRESSED), (KEY_8, ACTION_PRESSED), (0, ACTION_NONE), (0, ACTION_NONE),
     (KEY_COMMA, ACTION_PRESSED), (KEY_K, ACTION_PRESSED), (KEY_I, ACTION_PRESSED),
     (KEY_O, ACTION_PRESSED), (KEY_0, ACTION_PRESSED), (KEY_9, ACTION_PRESSED), (0, ACTION_NONE),
     (0, ACTION_NONE), (KEY_PERIOD, ACTION_PRESSED), (KEY_SLASH, ACTION_PRESSED),
     (KEY_L, ACTION_PRESSED), (KEY_SEMICOLON, ACTION_PRESSED), (KEY_P, ACTION_PRESSED),
     (KEY_MINUS, ACTION_PRESSED), (0, ACTION_NONE), (0, ACTION_NONE), (0, ACTION_NONE),
     (KEY_APOSTROPHE, ACTION_PRESSED), (0, ACTION_NONE), (KEY_LEFT_BRACKET, ACTION_PRESSED),
     (KEY_EQUAL, ACTION_PRESSED), (0, ACTION_NONE), (0, ACTION_NONE),
     (KEY_CAPS_LOCK, ACTION_PRESSED), (KEY_RIGHT_SHIFT, ACTION_PRESSED),
     (KEY_ENTER, ACTION_PRESSED), (KEY_RIGHT_BRACKET, ACTION_PRESSED), (0, ACTION_NONE),
     (KEY_BACKSLASH, ACTION_PRESSED), (0, ACTION_NONE), (0, ACTION_NONE), (0, ACTION_NONE),
     (0, ACTION_NONE), (0, ACTION_NONE), (0, ACTION_NONE), (0, ACTION_NONE), (0, ACTION_NONE),
     (KEY_BACKSPACE, ACTION_PRESSED), (0, ACTION_NONE), (0, ACTION_NONE),
     (KEY_KEYPAD_1, ACTION_PRESSED), (0, ACTION_NONE), (KEY_KEYPAD_4, ACTION_PRESSED),
     (KEY_KEYPAD_7, ACTION_PRESSED), (0, ACTION_NONE), (0, ACTION_NONE), (0, ACTION_NONE),
     (KEY_KEYPAD_0, ACTION_PRESSED), (KEY_KEYPAD_DECIMAL, ACTION_PRESSED),
     (KEY_KEYPAD_2, ACTION_PRESSED), (KEY_KEYPAD_5, ACTION_PRESSED),
     (KEY_KEYPAD_6, ACTION_PRESSED), (KEY_KEYPAD_8, ACTION_PRESSED),
     (KEY_ESCAPE, ACTION_PRESSED), (KEY_NUM_LOCK, ACTION_PRESSED), (KEY_F11, ACTION_PRESSED),
     (KEY_KEYPAD_ADD, ACTION_PRESSED), (KEY_KEYPAD_3, ACTION_PRESSED),
     (KEY_KEYPAD_SUBSTRACT, ACTION_PRESSED), (KEY_KEYPAD_MULTIPLY, ACTION_PRESSED),
     (KEY_KEYPAD_9, ACTION_PRESSED), (KEY_SCROLL_LOCK, ACTION_PRESSED),
     (KEY_ALT_SYSRQ, ACTION_PRESSED), (0, ACTION_NONE), (0, ACTION_NONE), (0, ACTION_NONE),
     (KEY_F7, ACTION_PRESSED), (KEY_ALT_SYSRQ, ACTION_PRESSED)]"

definition scanCode2SingleByteReleaseSet :: "map_key list" where
  "scanCode2SingleByteReleaseSet =
    [(0, ACTION_NONE), (KEY_F9, ACTION_RELEASED), (KEY_F7, ACTION_RELEASED),
     (KEY_F5, ACTION_RELEASED), (KEY_F3, ACTION_RELEASED), (KEY_F1, ACTION_RELEASED),
     (KEY_F2, ACTION_RELEASED), (KEY_F12, ACTION_RELEASED), (0, ACTION_NONE),
     (KEY_F10, ACTION_RELEASED), (KEY_F8, ACTION_RELEASED), (KEY_F6, ACTION_RELEASED),
     (KEY_F4, ACTION_RELEASED), (KEY_TAB, ACTION_RELEASED), (KEY_GRAVE_ACCENT, ACTION_RELEASED),
     (0, ACTION_NONE), (0, ACTION_NONE), (KEY_LEFT_ALT, ACTION_RELEASED),
     (KEY_LEFT_SHIFT, ACTION_RELEASED), (0, ACTION_NONE), (KEY_LEFT_CONTROL, ACTION_RELEASED),
     (KEY_Q, ACTION_RELEASED), (KEY_1, ACTION_RELEASED), (0, ACTION_NONE), (0, ACTION_NONE),
     (0, ACTION_NONE), (KEY_Z, ACTION_RELEASED), (KEY_S, ACTION_RELEASED),
     (KEY_A, ACTION_RELEASED), (KEY_W, ACTION_RELEASED), (KEY_2, ACTION_RELEASED),
     (0, ACTION_NONE), (0, ACTION_NONE), (KEY_C, ACTION_RELEASED), (KEY_X, ACTION_RELEASED),
     (KEY_D, ACTION_RELEASED), (KEY_E, ACTION_RELEASED), (KEY_4, ACTION_RELEASED),
     (KEY_3, ACTION_RELEASED), (0, ACTION_NONE), (0, ACTION_NONE), (KEY_SPACE, ACTION_RELEASED),
     (KEY_V, ACTION_RELEASED), (KEY_F, ACTION_RELEASED), (KEY_T, ACTION_RELEASED),
     (KEY_R, ACTION_RELEASED), (KEY_5, ACTION_RELEASED), (0, ACTION_NONE), (0, ACTION_NONE),
     (KEY_N, ACTION_RELEASED), (KEY_B, ACTION_RELEASED), (KEY_H, ACTION_RELEASED),
     (KEY_G, ACTION_RELEASED), (KEY_Y, ACTION_RELEASED), (KEY_6, ACTION_RELEASED),
     (0, ACTION_NONE), (0, ACTION_NONE), (0, ACTION_NONE), (KEY_M, ACTION_RELEASED),
     (KEY_J, ACTION_RELEASED), (KEY_U, ACTION_RELEASED), (KEY_7, ACTION_RELEASED),
     (KEY_8, ACTION_RELEASED), (0, ACTION_NONE), (0, ACTION_NONE), (KEY_COMMA, ACTION_RELEASED),
     (KEY_K, ACTION_RELEASED), (KEY_I, ACTION_RELEASED), (KEY_O, ACTION_RELEASED),
     (KEY_0, ACTION_RELEASED), (KEY_9, ACTION_RELEASED), (0, ACTION_NONE), (0, ACTION_NONE),
     (KEY_PERIOD, ACTION_RELEASED), (KEY_SLASH, ACTION_RELEASED), (KEY_L, ACTION_RELEASED),
     (KEY_SEMICOLON, ACTION_RELEASED), (KEY_P, ACTION_RELEASED), (KEY_MINUS, ACTION_RELEASED),
     (0, ACTION_NONE), (0, ACTION_NONE), (0, ACTION_NONE), (KEY_APOSTROPHE, ACTION_RELEASED),
     (0, ACTION_NONE), (KEY_LEFT_BRACKET, ACTION_RELEASED), (KEY_EQUAL, ACTION_RELEASED),
     (0, ACTION_NONE), (0, ACTION_NONE), (KEY_CAPS_LOCK, ACTION_RELEASED),
     (KEY_RIGHT_SHIFT, ACTION_RELEASED), (KEY_ENTER, ACTION_RELEASED),
     (KEY_RIGHT_BRACKET, ACTION_RELEASED), (0, ACTION_NONE), (KEY_BACKSLASH, ACTION_RELEASED),
     (0, ACTION_NONE), (0, ACTION_NONE), (0, ACTION_NONE), (0, ACTION_NONE), (0, ACTION_NONE),
     (0, ACTION_NONE), (0, ACTION_NONE), (0, ACTION_NONE), (KEY_BACKSPACE, ACTION_RELEASED),
     (0, ACTION_NONE), (0, ACTION_NONE), (KEY_KEYPAD_1, ACTION_RELEASED), (0, ACTION_NONE),
     (KEY_KEYPAD_4, ACTION_RELEASED), (KEY_KEYPAD_7, ACTION_RELEASED), (0, ACTION_NONE),
     (0, ACTION_NONE), (0, ACTION_NONE), (KEY_KEYPAD_0, ACTION_RELEASED),
     (KEY_KEYPAD_DECIMAL, ACTION_RELEASED), (KEY_KEYPAD_2, ACTION_RELEASED),
     (KEY_KEYPAD_5, ACTION_RELEASED), (KEY_KEYPAD_6, ACTION_RELEASED),
     (KEY_KEYPAD_8, ACTION_RELEASED), (KEY_ESCAPE, ACTION_RELEASED),
     (KEY_NUM_LOCK, ACTION_RELEASED), (KEY_F11, ACTION_RELEASED),
     (KEY_KEYPAD_ADD, ACTION_RELEASED), (KEY_KEYPAD_3, ACTION_RELEASED),
     (KEY_KEYPAD_SUBSTRACT, ACTION_RELEASED), (KEY_KEYPAD_MULTIPLY, ACTION_RELEASED),
     (KEY_KEYPAD_9, ACTION_RELEASED), (KEY_SCROLL_LOCK, ACTION_RELEASED),
     (KEY_ALT_SYSRQ, ACTION_RELEASED), (0, ACTION_NONE), (0, ACTION_NONE), (0, ACTION_NONE),
     (KEY_F7, ACTION_RELEASED), (KEY_ALT_SYSRQ, ACTION_RELEASED)]"

definition scanCode2TwoBytesSet :: "map_key list" where
  "scanCode2TwoBytesSet =
    [(0, ACTION_NONE), (0, ACTION_NONE), (0, ACTION_NONE), (0, ACTION_NONE), (0, ACTION_NONE),
     (0, ACTION_NONE), (0, ACTION_NONE), (0, ACTION_NONE), (0, ACTION_NONE), (0, ACTION_NONE),
     (0, ACTION_NONE), (0, ACTION_NONE), (0, ACTION_NONE), (0, ACTION_NONE), (0, ACTION_NONE),
     (0, ACTION_NONE), (KEY_MULTIMEDIA_WWW_SEARCH, ACTION_PRESSED),
     (KEY_RIGHT_ALT, ACTION_PRESSED), (0, ACTION_NONE), (0, ACTION_NONE),
     (KEY_RIGHT_CONTROL, ACTION_PRESSED), (KEY_MULTIMEDIA_PREVIOUS_TRACK, ACTION_PRESSED),
     (0, ACTION_NONE), (0, ACTION_NONE), (KEY_MULTIMEDIA_WWW_FAVOURITES, ACTION_PRESSED),
     (0, ACTION_NONE), (0, ACTION_NONE), (0, ACTION_NONE), (0, ACTION_NONE), (0, ACTION_NONE),
     (0, ACTION_NONE), (KEY_LEFT_SUPER, ACTION_PRESSED),
     (KEY_MULTIMEDIA_WWW_REFRESH, ACTION_PRESSED), (KEY_MULTIMEDIA_VOLUME_DOWN, ACTION_PRESSED),
     (0, ACTION_NONE), (KEY_MULTIMEDIA_MUTE, ACTION_PRESSED), (0, ACTION_NONE), (0, ACTION_NONE),
     (0, ACTION_NONE), (KEY_RIGHT_SUPER, ACTION_PRESSED),
     (KEY_MULTIMEDIA_WWW_STOP, ACTION_PRESSED), (0, ACTION_NONE), (0, ACTION_NONE),
     (KEY_MULTIMEDIA_CALCULATOR, ACTION_PRESSED), (0, ACTION_NONE), (0, ACTION_NONE),
     (0, ACTION_NONE), (KEY_MENU, ACTION_PRESSED), (KEY_MULTIMEDIA_WWW_FORWARD, ACTION_PRESSED),
     (0, ACTION_NONE), (KEY_MULTIMEDIA_VOLUME_UP, ACTION_PRESSED), (0, ACTION_NONE),
     (KEY_MULTIMEDIA_PLAY_PAUSE, ACTION_PRESSED), (0, ACTION_NONE), (0, ACTION_NONE),
     (KEY_ACPI_POWER, ACTION_PRESSED), (KEY_MULTIMEDIA_WWW_BACK, ACTION_PRESSED),
     (0, ACTION_NONE), (KEY_MULTIMEDIA_WWW_HOME, ACTION_PRESSED),
     (KEY_MULTIMEDIA_STOP, ACTION_PRESSED), (0, ACTION_NONE), (0, ACTION_NONE), (0, ACTION_NONE),
     (KEY_ACPI_SLEEP, ACTION_PRESSED), (KEY_MULTIMEDIA_MY_COMPUTER, ACTION_PRESSED),
     (0, ACTION_NONE), (0, ACTION_NONE), (0, ACTION_NONE), (0, ACTION_NONE), (0, ACTION_NONE),
     (0, ACTION_NONE), (0, ACTION_NONE), (KEY_MULTIMEDIA_EMAIL, ACTION_PRESSED),
     (0, ACTION_NONE), (KEY_SLASH, ACTION_PRESSED), (0, ACTION_NONE), (0, ACTION_NONE),
     (KEY_MULTIMEDIA_NEXT_TRACK, ACTION_PRESSED), (0, ACTION_NONE), (0, ACTION_NONE),
     (KEY_MULTIMEDIA_MEDIA_SELECT, ACTION_PRESSED), (0, ACTION_NONE), (0, ACTION_NONE),
     (0, ACTION_NONE), (0, ACTION_NONE), (0, ACTION_NONE), (0, ACTION_NONE), (0, ACTION_NONE),
     (0, ACTION_NONE), (0, ACTION_NONE), (KEY_KEYPAD_ENTER, ACTION_PRESSED), (0, ACTION_NONE),
     (0, ACTION_NONE), (0, ACTION_NONE), (0, ACTION_NONE), (0, ACTION_NONE), (0, ACTION_NONE),
     (0, ACTION_NONE), (0, ACTION_NONE), (0, ACTION_NONE), (0, ACTION_NONE), (0, ACTION_NONE),
     (KEY_ACPI_WAKE, ACTION_PRESSED), (0, ACTION_NONE), (0, ACTION_NONE),
     (KEY_END, ACTION_PRESSED), (0, ACTION_NONE), (KEY_LEFT, ACTION_PRESSED),
     (KEY_HOME, ACTION_PRESSED), (0, ACTION_NONE), (0, ACTION_NONE), (0, ACTION_NONE),
     (KEY_INSERT, ACTION_PRESSED), (KEY_DELETE, ACTION_PRESSED), (KEY_DOWN, ACTION_PRESSED),
     (0, ACTION_NONE), (KEY_RIGHT, ACTION_PRESSED), (KEY_UP, ACTION_PRESSED), (0, ACTION_NONE),
     (0, ACTION_NONE), (0, ACTION_NONE), (0, ACTION_NONE), (KEY_PAGE_DOWN, ACTION_PRESSED),
     (0, ACTION_NONE), (0, ACTION_NONE), (KEY_PAGE_UP, ACTION_PRESSED),
     (KEY_CONTROL_BREAK, ACTION_PRESSED)]"

definition scanCode2TwoBytesReleaseSet :: "map_key list" where
  "scanCode2TwoBytesReleaseSet =
    [(0, ACTION_NONE), (0, ACTION_NONE), (0, ACTION_NONE), (0, ACTION_NONE), (0, ACTION_NONE),
     (0, ACTION_NONE), (0, ACTION_NONE), (0, ACTION_NONE), (0, ACTION_NONE), (0, ACTION_NONE),
     (0, ACTION_NONE), (0, ACTION_NONE), (0, ACTION_NONE), (0, ACTION_NONE), (0, ACTION_NONE),
     (0, ACTION_NONE), (KEY_MULTIMEDIA_WWW_SEARCH, ACTION_RELEASED),
     (KEY_RIGHT_ALT, ACTION_RELEASED), (0, ACTION_NONE), (0, ACTION_NONE),
     (KEY_RIGHT_CONTROL, ACTION_RELEASED), (KEY_MULTIMEDIA_PREVIOUS_TRACK, ACTION_RELEASED),
     (0, ACTION_NONE), (0, ACTION_NONE), (KEY_MULTIMEDIA_WWW_FAVOURITES, ACTION_RELEASED),
     (0, ACTION_NONE), (0, ACTION_NONE), (0, ACTION_NONE), (0, ACTION_NONE), (0, ACTION_NONE),
     (0, ACTION_NONE), (KEY_LEFT_SUPER, ACTION_RELEASED),
     (KEY_MULTIMEDIA_WWW_REFRESH, ACTION_RELEASED),
     (KEY_MULTIMEDIA_VOLUME_DOWN, ACTION_RELEASED), (0, ACTION_NONE),
     (KEY_MULTIMEDIA_MUTE, ACTION_RELEASED), (0, ACTION_NONE), (0, ACTION_NONE),
     (0, ACTION_NONE), (KEY_RIGHT_SUPER, ACTION_RELEASED),
     (KEY_MULTIMEDIA_WWW_STOP, ACTION_RELEASED), (0, ACTION_NONE), (0, ACTION_NONE),
     (KEY_MULTIMEDIA_CALCULATOR, ACTION_RELEASED), (0, ACTION_NONE), (0, ACTION_NONE),
     (0, ACTION_NONE), (KEY_MENU, ACTION_RELEASED),
     (KEY_MULTIMEDIA_WWW_FORWARD, ACTION_RELEASED), (0, ACTION_NONE),
     (KEY_MULTIMEDIA_VOLUME_UP, ACTION_RELEASED), (0, ACTION_NONE),
     (KEY_MULTIMEDIA_PLAY_PAUSE, ACTION_RELEASED), (0, ACTION_NONE), (0, ACTION_NONE),
     (KEY_ACPI_POWER, ACTION_RELEASED), (KEY_MULTIMEDIA_WWW_BACK, ACTION_RELEASED),
     (0, ACTION_NONE), (KEY_MULTIMEDIA_WWW_HOME, ACTION_RELEASED),
     (KEY_MULTIMEDIA_STOP, ACTION_RELEASED), (0, ACTION_NONE), (0, ACTION_NONE),
     (0, ACTION_NONE), (KEY_ACPI_SLEEP, ACTION_RELEASED),
     (KEY_MULTIMEDIA_MY_COMPUTER, ACTION_RELEASED), (0, ACTION_NONE), (0, ACTION_NONE),
     (0, ACTION_NONE), (0, ACTION_NONE), (0, ACTION_NONE), (0, ACTION_NONE), (0, ACTION_NONE),
     (KEY_MULTIMEDIA_EMAIL, ACTION_RELEASED), (0, ACTION_NONE), (KEY_SLASH, ACTION_RELEASED),
     (0, ACTION_NONE), (0, ACTION_NONE), (KEY_MULTIMEDIA_NEXT_TRACK, ACTION_RELEASED),
     (0, ACTION_NONE), (0, ACTION_NONE), (KEY_MULTIMEDIA_MEDIA_SELECT, ACTION_RELEASED),
     (0, ACTION_NONE), (0, ACTION_NONE), (0, ACTION_NONE), (0, ACTION_NONE), (0, ACTION_NONE),
     (0, ACTION_NONE), (0, ACTION_NONE), (0, ACTION_NONE), (0, ACTION_NONE),
     (KEY_KEYPAD_ENTER, ACTION_RELEASED), (0, ACTION_NONE), (0, ACTION_NONE), (0, ACTION_NONE),
     (0, ACTION_NONE), (0, ACTION_NONE), (0, ACTION_NONE), (0, ACTION_NONE), (0, ACTION_NONE),
     (0, ACTION_NONE), (0, ACTION_NONE), (0, ACTION_NONE), (KEY_ACPI_WAKE, ACTION_RELEASED),
     (0, ACTION_NONE), (0, ACTION_NONE), (KEY_END, ACTION_RELEASED), (0, ACTION_NONE),
     (KEY_LEFT, ACTION_RELEASED), (KEY_HOME, ACTION_RELEASED), (0, ACTION_NONE),
     (0, ACTION_NONE), (0, ACTION_NONE), (KEY_INSERT, ACTION_RELEASED),
     (KEY_DELETE, ACTION_RELEASED), (KEY_DOWN, ACTION_RELEASED), (0, ACTION_NONE),
     (KEY_RIGHT, ACTION_RELEASED), (KEY_UP, ACTION_RELEASED), (0, ACTION_NONE), (0, ACTION_NONE),
     (0, ACTION_NONE), (0, ACTION_NONE), (KEY_PAGE_DOWN, ACTION_RELEASED), (0, ACTION_NONE),
     (0, ACTION_NONE), (KEY_PAGE_UP, ACTION_RELEASED), (KEY_CONTROL_BREAK, ACTION_RELEASED)]"

definition scanCode2Level2PrtScnReleaseSequence :: special_sequence where
  "scanCode2Level2PrtScnReleaseSequence =
     \<lparr>seq_key = (KEY_PRINT_SCREEN, ACTION_RELEASED), seq_bytes = [0x7C, 0xE0, 0xF0, 0x12]\<rparr>"

definition scanCode2Level1PrtScnPressedSequence :: special_sequence where
  "scanCode2Level1PrtScnPressedSequence =
     \<lparr>seq_key = (KEY_PRINT_SCREEN, ACTION_PRESSED), seq_bytes = [0x12, 0xE0, 0x7C]\<rparr>"

definition scanCode2PauseSequence :: special_sequence where
  "scanCode2PauseSequence =
     \<lparr>seq_key = (KEY_PAUSE, ACTION_PRESSED_RELEASED),
      seq_bytes = [0xE1, 0x14, 0x77, 0xE1, 0xF0, 0x14, 0xF0, 0x77]\<rparr>"

definition scanCode2Level2SubTable :: scan_codes where
  "scanCode2Level2SubTable =
     ScanCodes scanCode2TwoBytesReleaseSet [] [scanCode2Level2PrtScnReleaseSequence]"

definition scanCode2Level1SubTable0 :: scan_codes where
  "scanCode2Level1SubTable0 =
     ScanCodes scanCode2TwoBytesSet [(0xF0, scanCode2Level2SubTable)] [scanCode2Level1PrtScnPressedSequence]"

definition scanCode2Level1SubTable1 :: scan_codes where
  "scanCode2Level1SubTable1 = ScanCodes scanCode2SingleByteReleaseSet [] []"

definition scanCode2SetGlobal :: scan_codes where
  "scanCode2SetGlobal =
     ScanCodes scanCode2SingleByteSet
       [(0xE0, scanCode2Level1SubTable0), (0xF0, scanCode2Level1SubTable1)] [scanCode2PauseSequence]"

subsection \<open>The US layout\<close>

datatype conversion_type = CONV_INVALID | CONV_CAPS_LOCK_AFFECTED | CONV_CAPS_LOCK_UNAFFECTED
  | CONV_NUMBERPAD | CONV_ENTER

record unicode_entry =
  conversionType :: conversion_type
  standardCode :: u32
  upperCaseCode :: u32
  altGrCode :: u32
  altGrUpperCaseCode :: u32

definition entry :: "conversion_type \<Rightarrow> u32 \<Rightarrow> u32 \<Rightarrow> u32 \<Rightarrow> u32 \<Rightarrow> unicode_entry" where
  "entry c s u a b = \<lparr>conversionType = c, standardCode = s, upperCaseCode = u, altGrCode = a,
     altGrUpperCaseCode = b\<rparr>"

text \<open>\<open>g_conversionTableUS\<close>, in four parts of 128 entries.\<close>

abbreviation (input) no_char :: unicode_entry where
  "no_char \<equiv> entry CONV_INVALID 0 0 0 0"

definition conversionTableUS_0 :: "unicode_entry list" where
  "conversionTableUS_0 =
    [no_char, no_char, no_char, no_char, no_char, no_char, no_char, no_char, no_char, no_char,
     no_char, no_char, no_char, no_char, no_char, no_char, no_char, no_char, no_char, no_char,
     no_char, no_char, no_char, no_char, no_char, no_char, no_char, no_char, no_char, no_char,
     no_char, no_char, entry CONV_CAPS_LOCK_UNAFFECTED 32 32 32 32, no_char, no_char, no_char,
     no_char, no_char, no_char, entry CONV_CAPS_LOCK_UNAFFECTED 39 34 39 34, no_char, no_char,
     no_char, no_char, entry CONV_CAPS_LOCK_UNAFFECTED 44 60 44 60,
     entry CONV_CAPS_LOCK_UNAFFECTED 45 95 45 95, entry CONV_CAPS_LOCK_UNAFFECTED 46 62 46 62,
     entry CONV_CAPS_LOCK_UNAFFECTED 47 63 47 63, entry CONV_CAPS_LOCK_UNAFFECTED 48 41 48 41,
     entry CONV_CAPS_LOCK_UNAFFECTED 49 33 49 33, entry CONV_CAPS_LOCK_UNAFFECTED 50 64 50 64,
     entry CONV_CAPS_LOCK_UNAFFECTED 51 35 51 35, entry CONV_CAPS_LOCK_UNAFFECTED 52 36 52 36,
     entry CONV_CAPS_LOCK_UNAFFECTED 53 37 53 37, entry CONV_CAPS_LOCK_UNAFFECTED 54 94 54 94,
     entry CONV_CAPS_LOCK_UNAFFECTED 55 38 55 38, entry CONV_CAPS_LOCK_UNAFFECTED 56 42 56 42,
     entry CONV_CAPS_LOCK_UNAFFECTED 57 40 57 40, no_char,
     entry CONV_CAPS_LOCK_UNAFFECTED 59 58 59 58, no_char,
     entry CONV_CAPS_LOCK_UNAFFECTED 61 43 61 43, no_char, no_char, no_char,
     entry CONV_CAPS_LOCK_AFFECTED 97 65 0 0, entry CONV_CAPS_LOCK_AFFECTED 98 66 0 0,
     entry CONV_CAPS_LOCK_AFFECTED 99 67 0 0, entry CONV_CAPS_LOCK_AFFECTED 100 68 0 0,
     entry CONV_CAPS_LOCK_AFFECTED 101 69 0 0, entry CONV_CAPS_LOCK_AFFECTED 102 70 0 0,
     entry CONV_CAPS_LOCK_AFFECTED 103 71 0 0, entry CONV_CAPS_LOCK_AFFECTED 104 72 0 0,
     entry CONV_CAPS_LOCK_AFFECTED 105 73 0 0, entry CONV_CAPS_LOCK_AFFECTED 106 74 0 0,
     entry CONV_CAPS_LOCK_AFFECTED 107 75 0 0, entry CONV_CAPS_LOCK_AFFECTED 108 76 0 0,
     entry CONV_CAPS_LOCK_AFFECTED 109 77 0 0, entry CONV_CAPS_LOCK_AFFECTED 110 78 0 0,
     entry CONV_CAPS_LOCK_AFFECTED 111 79 0 0, entry CONV_CAPS_LOCK_AFFECTED 112 80 0 0,
     entry CONV_CAPS_LOCK_AFFECTED 113 81 0 0, entry CONV_CAPS_LOCK_AFFECTED 114 82 0 0,
     entry CONV_CAPS_LOCK_AFFECTED 115 83 0 0, entry CONV_CAPS_LOCK_AFFECTED 116 84 0 0,
     entry CONV_CAPS_LOCK_AFFECTED 117 85 0 0, entry CONV_CAPS_LOCK_AFFECTED 118 86 0 0,
     entry CONV_CAPS_LOCK_AFFECTED 119 87 0 0, entry CONV_CAPS_LOCK_AFFECTED 120 88 0 0,
     entry CONV_CAPS_LOCK_AFFECTED 121 89 0 0, entry CONV_CAPS_LOCK_AFFECTED 122 90 0 0,
     entry CONV_CAPS_LOCK_UNAFFECTED 91 123 91 123,
     entry CONV_CAPS_LOCK_UNAFFECTED 92 124 92 124,
     entry CONV_CAPS_LOCK_UNAFFECTED 93 125 93 125, no_char, no_char,
     entry CONV_CAPS_LOCK_UNAFFECTED 96 126 96 126, no_char, no_char, no_char, no_char, no_char,
     no_char, no_char, no_char, no_char, no_char, no_char, no_char, no_char, no_char, no_char,
     no_char, no_char, no_char, no_char, no_char, no_char, no_char, no_char, no_char, no_char,
     no_char, no_char, no_char, no_char, no_char, no_char]"

definition conversionTableUS_1 :: "unicode_entry list" where
  "conversionTableUS_1 =
    [no_char, no_char, no_char, no_char, no_char, no_char, no_char, no_char, no_char, no_char,
     no_char, no_char, no_char, no_char, no_char, no_char, no_char, no_char, no_char, no_char,
     no_char, no_char, no_char, no_char, no_char, no_char, no_char, no_char, no_char, no_char,
     no_char, no_char, no_char, no_char, no_char, no_char, no_char, no_char, no_char, no_char,
     no_char, no_char, no_char, no_char, no_char, no_char, no_char, no_char, no_char, no_char,
     no_char, no_char, no_char, no_char, no_char, no_char, no_char, no_char, no_char, no_char,
     no_char, no_char, no_char, no_char, no_char, no_char, no_char, no_char, no_char, no_char,
     no_char, no_char, no_char, no_char, no_char, no_char, no_char, no_char, no_char, no_char,
     no_char, no_char, no_char, no_char, no_char, no_char, no_char, no_char, no_char, no_char,
     no_char, no_char, no_char, no_char, no_char, no_char, no_char, no_char, no_char, no_char,
     no_char, no_char, no_char, no_char, no_char, no_char, no_char, no_char, no_char, no_char,
     no_char, no_char, no_char, no_char, no_char, no_char, no_char, no_char, no_char, no_char,
     no_char, no_char, no_char, no_char, no_char, no_char, no_char, no_char]"

definition conversionTableUS_2 :: "unicode_entry list" where
  "conversionTableUS_2 =
    [no_char, no_char, no_char, no_char, no_char, no_char, no_char, no_char, no_char, no_char,
     entry CONV_ENTER 10 10 10 10, no_char, no_char, no_char, no_char, no_char, no_char, no_char,
     no_char, no_char, no_char, no_char, no_char, no_char, no_char, no_char, no_char, no_char,
     no_char, no_char, no_char, no_char, no_char, no_char, no_char, no_char, no_char, no_char,
     no_char, no_char, no_char, no_char, no_char, no_char, no_char, no_char, no_char, no_char,
     no_char, no_char, no_char, no_char, no_char, no_char, entry CONV_NUMBERPAD 48 48 48 48,
     entry CONV_NUMBERPAD 49 49 49 49, entry CONV_NUMBERPAD 50 50 50 50,
     entry CONV_NUMBERPAD 51 51 51 51, entry CONV_NUMBERPAD 52 52 52 52,
     entry CONV_NUMBERPAD 53 53 53 53, entry CONV_NUMBERPAD 54 54 54 54,
     entry CONV_NUMBERPAD 55 55 55 55, entry CONV_NUMBERPAD 56 56 56 56,
     entry CONV_NUMBERPAD 57 57 57 57, entry CONV_NUMBERPAD 46 46 46 46,
     entry CONV_CAPS_LOCK_UNAFFECTED 47 47 47 47, entry CONV_CAPS_LOCK_UNAFFECTED 42 42 42 42,
     entry CONV_CAPS_LOCK_UNAFFECTED 45 45 45 45, entry CONV_CAPS_LOCK_UNAFFECTED 43 43 43 43,
     entry CONV_ENTER 10 10 10 10, entry CONV_CAPS_LOCK_UNAFFECTED 61 61 61 61, no_char, no_char,
     no_char, no_char, no_char, no_char, no_char, no_char, no_char, no_char, no_char, no_char,
     no_char, no_char, no_char, no_char, no_char, no_char, no_char, no_char, no_char, no_char,
     no_char, no_char, no_char, no_char, no_char, no_char, no_char, no_char, no_char, no_char,
     no_char, no_char, no_char, no_char, no_char, no_char, no_char, no_char, no_char, no_char,
     no_char, no_char, no_char, no_char, no_char, no_char, no_char, no_char, no_char, no_char,
     no_char, no_char, no_char, no_char, no_char]"

definition conversionTableUS_3 :: "unicode_entry list" where
  "conversionTableUS_3 =
    [no_char, no_char, no_char, no_char, no_char, no_char, no_char, no_char, no_char, no_char,
     no_char, no_char, no_char, no_char, no_char, no_char, no_char, no_char, no_char, no_char,
     no_char, no_char, no_char, no_char, no_char, no_char, no_char, no_char, no_char, no_char,
     no_char, no_char, no_char, no_char, no_char, no_char, no_char, no_char, no_char, no_char,
     no_char, no_char, no_char, no_char, no_char, no_char, no_char, no_char, no_char, no_char,
     no_char, no_char, no_char, no_char, no_char, no_char, no_char, no_char, no_char, no_char,
     no_char, no_char, no_char, no_char, no_char, no_char, no_char, no_char, no_char, no_char,
     no_char, no_char, no_char, no_char, no_char, no_char, no_char, no_char, no_char, no_char,
     no_char, no_char, no_char, no_char, no_char, no_char, no_char, no_char, no_char, no_char,
     no_char, no_char, no_char, no_char, no_char, no_char, no_char, no_char, no_char, no_char,
     no_char, no_char, no_char, no_char, no_char, no_char, no_char, no_char, no_char, no_char,
     no_char, no_char, no_char, no_char, no_char, no_char, no_char, no_char, no_char, no_char,
     no_char, no_char, no_char, no_char, no_char, no_char, no_char, no_char]"

definition conversionTableUS :: "unicode_entry list" where
  "conversionTableUS = conversionTableUS_0 @ conversionTableUS_1 @ conversionTableUS_2 @ conversionTableUS_3"

definition GetKeyboardLayout_US :: "unicode_entry list" where
  "GetKeyboardLayout_US = conversionTableUS"

end
