(* ===== verification/PS2Keyboard.thy ===== *)
theory PS2Keyboard
  imports KeyTables "HOL-Library.Monad_Syntax"
begin

text \<open>
  The PS/2 keyboard driver (src/src/Drivers/Keyboard/PS2KeyboardDriver.c): the
  command queue that it keeps towards the keyboard, the decoder of scan code
  sequences, the states of the keys, the lock keys and modifiers, and the
  translation of keys to characters.

  \<^item> \<open>kb_state\<close> is \<open>g_PS2KeyboardState\<close>, with two additions for the outside world:
    \<open>statusReads\<close> counts the reads of the status port, whose results are the
    parameter \<open>status\<close>, and \<open>kb_trace\<close> lists the effects in program order: bytes
    written to ports, and the calls of the shell's two event functions.
  \<^item> Waiting for the controller may not end; such a call is \<open>None\<close>. So is a read
    through a null pointer or past the end of a sequence.
  \<^item> The byte that \<open>ProcessPS2KeyboardInterrupt\<close> reads from the data port is its
    argument \<open>code\<close>.
  \<^item> The array \<open>keyStates\<close> is a function on key identifiers; the driver reads and
    writes it below \<open>DEXPROS_KEY_Max\<close> only (\<open>decoded_in_range\<close>).
\<close>

subsection \<open>State\<close>

datatype kb_event = KbOut u8 u16 | ShellKeyEvent u16 key_state | ShellCharEvent u32

datatype listening_mode = LISTENING_MODE_TABLE_CHARACTER_LOOKUP | LISTENING_MODE_BYTE_SEQUENCE

datatype command_state =
    COMMAND_STATE_FREE
  | COMMAND_STATE_EXECUTING
  | COMMAND_STATE_WAITING_FOR_RESPONSE

record kb_state =
  commandBuffer :: "u8 list"
  commandDataBuffer :: "u8 list"
  commandBufferSize :: u8
  numCommandResends :: u8
  currentCommandState :: command_state
  listeningMode :: listening_mode
  globalScanCodeSetTable :: scan_codes
  currentSubScanCodeSetTable :: scan_codes
  currentSpecialSequence :: "special_sequence option"
  specialSequenceByteIndex :: u8
  keyStates :: "u16 \<Rightarrow> key_state"
  capsLockActive :: bool
  numLockActive :: bool
  scrollLockActive :: bool
  capsLockJustActivated :: bool
  numLockJustActivated :: bool
  scrollLockJustActivated :: bool
  anyShiftActive :: bool
  anyControlActive :: bool
  leftAltActive :: bool
  rightAltActive :: bool
  unicodeTable :: "unicode_entry list option"
  statusReads :: nat
  kb_trace :: "kb_event list"

definition emit :: "kb_event list \<Rightarrow> kb_state \<Rightarrow> kb_state" where
  "emit es s = s\<lparr>kb_trace := kb_trace s @ es\<rparr>"

subsection \<open>Commands to the keyboard\<close>

partial_function (option) wait_writable :: "(nat \<Rightarrow> u8) \<Rightarrow> nat \<Rightarrow> nat option" where
  "wait_writable status n =
     (if status n AND 0x2 = 0x2 then wait_writable status (n + 1) else Some (n + 1))"

definition write_data_port :: "(nat \<Rightarrow> u8) \<Rightarrow> u8 \<Rightarrow> kb_state \<Rightarrow> kb_state option" where
  "write_data_port status b s =
     do {
       n \<leftarrow> wait_writable status (statusReads s);
       Some (emit [KbOut b 0x60] (s\<lparr>statusReads := n\<rparr>))
     }"

definition takes_data :: "u8 \<Rightarrow> bool" where
  "takes_data command = (command \<in> {0xED, 0xF0, 0xF3, 0xFB, 0xFC, 0xFD})"

definition ExecutePS2KeyboardCommand :: "(nat \<Rightarrow> u8) \<Rightarrow> kb_state \<Rightarrow> kb_state option" where
  "ExecutePS2KeyboardCommand status s =
     do {
       let s0 = s\<lparr>currentCommandState := COMMAND_STATE_EXECUTING\<rparr>;
       let command = commandBuffer s0 ! 0;
       let dat = commandDataBuffer s0 ! 0;
       s1 \<leftarrow> write_data_port status command s0;
       s2 \<leftarrow> (if takes_data command then write_data_port status dat s1 else Some s1);
       Some (s2\<lparr>currentCommandState := COMMAND_STATE_WAITING_FOR_RESPONSE\<rparr>)
     }"

definition MAX_CMD_BUFFER_SIZE :: u8 where
  "MAX_CMD_BUFFER_SIZE = 16"

definition PushPS2KeyboardCommand :: "(nat \<Rightarrow> u8) \<Rightarrow> u8 \<Rightarrow> u8 \<Rightarrow> kb_state \<Rightarrow> kb_state option" where
  "PushPS2KeyboardCommand status command dat s =
     (if commandBufferSize s = MAX_CMD_BUFFER_SIZE then Some s
      else
        let i = unat (commandBufferSize s);
            s1 = s\<lparr>commandBuffer := (commandBuffer s)[i := command],
                   commandDataBuffer := (commandDataBuffer s)[i := dat],
                   commandBufferSize := commandBufferSize s + 1\<rparr> in
        if currentCommandState s1 = COMMAND_STATE_FREE
        then ExecutePS2KeyboardCommand status s1 else Some s1)"

definition shift_down :: "nat \<Rightarrow> u8 list \<Rightarrow> u8 list" where
  "shift_down n = fold (\<lambda>i buf. buf[i - 1 := buf ! i]) [1..<n]"

definition NextPS2KeyboardCommand :: "(nat \<Rightarrow> u8) \<Rightarrow> kb_state \<Rightarrow> kb_state option" where
  "NextPS2KeyboardCommand status s =
     (let n = unat (commandBufferSize s);
          s1 = s\<lparr>currentCommandState := COMMAND_STATE_FREE, numCommandResends := 0,
                 commandBuffer := shift_down n (commandBuffer s),
                 commandDataBuffer := shift_down n (commandDataBuffer s)\<rparr>;
          s2 = (if commandBufferSize s1 > 0 then s1\<lparr>commandBufferSize := commandBufferSize s1 - 1\<rparr> else s1) in
      if commandBufferSize s2 > 0 then ExecutePS2KeyboardCommand status s2 else Some s2)"

definition OnPS2KeyboardCommandAcknowledged :: "(nat \<Rightarrow> u8) \<Rightarrow> kb_state \<Rightarrow> kb_state option" where
  "OnPS2KeyboardCommandAcknowledged status s =
     (if currentCommandState s = COMMAND_STATE_WAITING_FOR_RESPONSE
      then NextPS2KeyboardCommand status s else Some s)"

definition MAX_CMD_RESENDS :: u8 where
  "MAX_CMD_RESENDS = 3"

definition ResendPS2KeyboardCommand :: "(nat \<Rightarrow> u8) \<Rightarrow> kb_state \<Rightarrow> kb_state option" where
  "ResendPS2KeyboardCommand status s =
     (if commandBufferSize s > 0 \<and> currentCommandState s = COMMAND_STATE_WAITING_FOR_RESPONSE
      then if numCommandResends s < MAX_CMD_RESENDS
           then do {
             s1 \<leftarrow> ExecutePS2KeyboardCommand status s;
             Some (s1\<lparr>numCommandResends := numCommandResends s1 + 1\<rparr>)
           }
           else NextPS2KeyboardCommand status s
      else Some s)"

definition UpdatePS2KeyboardIndicatorLEDs :: "(nat \<Rightarrow> u8) \<Rightarrow> kb_state \<Rightarrow> kb_state option" where
  "UpdatePS2KeyboardIndicatorLEDs status s =
     PushPS2KeyboardCommand status 0xED
       ((if scrollLockActive s then 0x1 else 0) OR
        (if numLockActive s then 0x2 else 0) OR
        (if capsLockActive s then 0x4 else 0)) s"

definition InitialisePS2Keyboard :: "(nat \<Rightarrow> u8) \<Rightarrow> kb_state \<Rightarrow> kb_state option" where
  "InitialisePS2Keyboard status s =
     do {
       s1 \<leftarrow> PushPS2KeyboardCommand status 0xF0 2 s;
       s2 \<leftarrow> PushPS2KeyboardCommand status 0xF3 0x20 s1;
       s3 \<leftarrow> PushPS2KeyboardCommand status 0xF4 0 s2;
       UpdatePS2KeyboardIndicatorLEDs status s3
     }"

definition InitialisePS2KeyboardDriver ::
  "(nat \<Rightarrow> u8) \<Rightarrow> unicode_entry list option \<Rightarrow> kb_state \<Rightarrow> kb_state option" where
  "InitialisePS2KeyboardDriver status pLayoutTable s =
     PushPS2KeyboardCommand status 0xFF 0
       (s\<lparr>commandBufferSize := 0, currentCommandState := COMMAND_STATE_FREE,
          listeningMode := LISTENING_MODE_TABLE_CHARACTER_LOOKUP,
          globalScanCodeSetTable := scanCode2SetGlobal,
          currentSubScanCodeSetTable := scanCode2SetGlobal,
          currentSpecialSequence := None, specialSequenceByteIndex := 0,
          keyStates := (\<lambda>k. if k < KEY_Max then KEY_STATE_RELEASED else keyStates s k),
          capsLockActive := False, numLockActive := False, scrollLockActive := False,
          capsLockJustActivated := False, numLockJustActivated := False, scrollLockJustActivated := False,
          anyShiftActive := False, anyControlActive := False, leftAltActive := False, rightAltActive := False,
          unicodeTable := pLayoutTable\<rparr>)"

subsection \<open>Decoding scan codes\<close>

datatype code_result = CODE_FAILURE | CODE_DECODED_TO_KEY | CODE_PARTIALLY_DECODED

definition decode_result :: "u16 \<Rightarrow> code_result" where
  "decode_result key = (if 0 < key \<and> key < KEY_Max then CODE_DECODED_TO_KEY else CODE_FAILURE)"

text \<open>
  The outputs \<open>*pOutKeyID\<close> and \<open>*pOutAction\<close> are the second and third component;
  \<open>out\<close> is what they hold before.
\<close>

definition ProcessPS2KCodeByLookup ::
  "u8 \<Rightarrow> map_key \<Rightarrow> kb_state \<Rightarrow> code_result \<times> map_key \<times> kb_state" where
  "ProcessPS2KCodeByLookup code out s =
     (let table = currentSubScanCodeSetTable s in
      case map_of (byteExtended table) code of
        Some sub \<Rightarrow> (CODE_PARTIALLY_DECODED, out, s\<lparr>currentSubScanCodeSetTable := sub\<rparr>)
      | None \<Rightarrow>
          (case List.find (\<lambda>q. seq_bytes q \<noteq> [] \<and> code = seq_bytes q ! 0) (specialSequences table) of
             Some q \<Rightarrow>
               if length (seq_bytes q) > 1
               then (CODE_PARTIALLY_DECODED, out,
                     s\<lparr>listeningMode := LISTENING_MODE_BYTE_SEQUENCE,
                       currentSpecialSequence := Some q, specialSequenceByteIndex := 1\<rparr>)
               else (decode_result (fst (seq_key q)), seq_key q, s)
           | None \<Rightarrow>
               let key = (if unat code < length (keysPerByte table) then keysPerByte table ! unat code else out)
               in (decode_result (fst key), key, s)))"

definition ProcessPS2KByteSequenceCode ::
  "u8 \<Rightarrow> map_key \<Rightarrow> kb_state \<Rightarrow> (code_result \<times> map_key \<times> kb_state) option" where
  "ProcessPS2KByteSequenceCode code out s =
     do {
       q \<leftarrow> currentSpecialSequence s;
       let i = unat (specialSequenceByteIndex s);
       if length (seq_bytes q) \<le> i then None
       else if code \<noteq> seq_bytes q ! i then Some (CODE_FAILURE, out, s)
       else if i + 1 = length (seq_bytes q) then Some (decode_result (fst (seq_key q)), seq_key q, s)
       else Some (CODE_PARTIALLY_DECODED, out,
                  s\<lparr>specialSequenceByteIndex := specialSequenceByteIndex s + 1\<rparr>)
     }"

subsection \<open>Key states and modifiers\<close>

definition SwitchPS2KCapsLock :: "(nat \<Rightarrow> u8) \<Rightarrow> kb_state \<Rightarrow> kb_state option" where
  "SwitchPS2KCapsLock status s =
     (let state = keyStates s KEY_CAPS_LOCK in
      if capsLockActive s
      then if state = KEY_STATE_RELEASED
           then if \<not> capsLockJustActivated s
                then UpdatePS2KeyboardIndicatorLEDs status (s\<lparr>capsLockActive := False\<rparr>)
                else Some (s\<lparr>capsLockJustActivated := False\<rparr>)
           else Some s
      else if state = KEY_STATE_PRESSED
           then UpdatePS2KeyboardIndicatorLEDs status
                  (s\<lparr>capsLockActive := True, capsLockJustActivated := True\<rparr>)
           else Some s)"

definition SwitchPS2KNumLock :: "(nat \<Rightarrow> u8) \<Rightarrow> kb_state \<Rightarrow> kb_state option" where
  "SwitchPS2KNumLock status s =
     (let state = keyStates s KEY_NUM_LOCK in
      if numLockActive s
      then if state = KEY_STATE_RELEASED
           then if \<not> numLockJustActivated s
                then UpdatePS2KeyboardIndicatorLEDs status (s\<lparr>numLockActive := False\<rparr>)
                else Some (s\<lparr>numLockJustActivated := False\<rparr>)
           else Some s
      else if state = KEY_STATE_PRESSED
           then UpdatePS2KeyboardIndicatorLEDs status
                  (s\<lparr>numLockActive := True, numLockJustActivated := True\<rparr>)
           else Some s)"

definition SwitchPS2KScrollLock :: "(nat \<Rightarrow> u8) \<Rightarrow> kb_state \<Rightarrow> kb_state option" where
  "SwitchPS2KScrollLock status s =
     (let state = keyStates s KEY_SCROLL_LOCK in
      if scrollLockActive s
      then if state = KEY_STATE_RELEASED
           then if \<not> scrollLockJustActivated s
                then UpdatePS2KeyboardIndicatorLEDs status (s\<lparr>scrollLockActive := False\<rparr>)
                else Some (s\<lparr>scrollLockJustActivated := False\<rparr>)
           else Some s
      else if state = KEY_STATE_PRESSED
           then UpdatePS2KeyboardIndicatorLEDs status
                  (s\<lparr>scrollLockActive := True, scrollLockJustActivated := True\<rparr>)
           else Some s)"

definition UpdatePS2KeyboardKeyState :: "u16 \<Rightarrow> key_action \<Rightarrow> kb_state \<Rightarrow> kb_state" where
  "UpdatePS2KeyboardKeyState keyID action s =
     (case action of
        ACTION_PRESSED \<Rightarrow>
          if keyStates s keyID = KEY_STATE_PRESSED
          then s\<lparr>keyStates := (keyStates s)(keyID := KEY_STATE_REPEAT)\<rparr>
          else if keyStates s keyID = KEY_STATE_RELEASED
          then s\<lparr>keyStates := (keyStates s)(keyID := KEY_STATE_PRESSED)\<rparr>
          else s
      | ACTION_RELEASED \<Rightarrow> s\<lparr>keyStates := (keyStates s)(keyID := KEY_STATE_RELEASED)\<rparr>
      | ACTION_PRESSED_RELEASED \<Rightarrow> s\<lparr>keyStates := (keyStates s)(keyID := KEY_STATE_RELEASED)\<rparr>
      | ACTION_NONE \<Rightarrow> s)"

definition UpdatePS2KeyboardModifierState :: "(nat \<Rightarrow> u8) \<Rightarrow> u16 \<Rightarrow> kb_state \<Rightarrow> kb_state option" where
  "UpdatePS2KeyboardModifierState status keyID s =
     (if keyID = KEY_CAPS_LOCK then SwitchPS2KCapsLock status s
      else if keyID = KEY_NUM_LOCK then SwitchPS2KNumLock status s
      else if keyID = KEY_SCROLL_LOCK then SwitchPS2KScrollLock status s
      else if keyID = KEY_LEFT_SHIFT \<or> keyID = KEY_RIGHT_SHIFT
      then Some (s\<lparr>anyShiftActive := (keyStates s KEY_LEFT_SHIFT \<noteq> KEY_STATE_RELEASED \<or>
                                     keyStates s KEY_RIGHT_SHIFT \<noteq> KEY_STATE_RELEASED)\<rparr>)
      else if keyID = KEY_LEFT_CONTROL \<or> keyID = KEY_RIGHT_CONTROL
      then Some (s\<lparr>anyControlActive := (keyStates s KEY_LEFT_CONTROL \<noteq> KEY_STATE_RELEASED \<or>
                                       keyStates s KEY_RIGHT_CONTROL \<noteq> KEY_STATE_RELEASED)\<rparr>)
      else if keyID = KEY_LEFT_ALT
      then Some (s\<lparr>leftAltActive := (keyStates s KEY_LEFT_ALT \<noteq> KEY_STATE_RELEASED)\<rparr>)
      else if keyID = KEY_RIGHT_ALT
      then Some (s\<lparr>rightAltActive := (keyStates s KEY_RIGHT_ALT \<noteq> KEY_STATE_RELEASED)\<rparr>)
      else Some s)"

subsection \<open>Characters\<close>

text \<open>The code point that the driver picks from an entry of the layout; 0 and the early returns give no character.\<close>

definition entry_codepoint :: "unicode_entry \<Rightarrow> kb_state \<Rightarrow> u32" where
  "entry_codepoint e s =
     (case conversionType e of
        CONV_INVALID \<Rightarrow> 0
      | CONV_CAPS_LOCK_AFFECTED \<Rightarrow>
          if anyControlActive s \<or> leftAltActive s then 0
          else if anyShiftActive s \<noteq> capsLockActive s
          then (if rightAltActive s then altGrUpperCaseCode e else upperCaseCode e)
          else (if rightAltActive s then altGrCode e else standardCode e)
      | CONV_CAPS_LOCK_UNAFFECTED \<Rightarrow>
          if anyControlActive s \<or> leftAltActive s then 0
          else if anyShiftActive s
          then (if rightAltActive s then altGrUpperCaseCode e else upperCaseCode e)
          else (if rightAltActive s then altGrCode e else standardCode e)
      | CONV_NUMBERPAD \<Rightarrow>
          if anyControlActive s \<or> leftAltActive s then 0
          else if numLockActive s then standardCode e else 0
      | CONV_ENTER \<Rightarrow> standardCode e)"

definition ProcessKeyToUnicodeCharacter :: "u16 \<Rightarrow> kb_state \<Rightarrow> kb_state" where
  "ProcessKeyToUnicodeCharacter key s =
     (case unicodeTable s of
        None \<Rightarrow> s
      | Some table \<Rightarrow>
          if key = 0 \<or> key > KEY_Max then s
          else if keyStates s key = KEY_STATE_PRESSED \<or> keyStates s key = KEY_STATE_REPEAT
          then (let codepoint = entry_codepoint (table ! unat key) s in
                if codepoint \<noteq> 0 then emit [ShellCharEvent codepoint] s else s)
          else s)"

subsection \<open>The interrupt\<close>

definition finish_key :: "(nat \<Rightarrow> u8) \<Rightarrow> map_key \<Rightarrow> kb_state \<Rightarrow> kb_state option" where
  "finish_key status key s =
     do {
       s1 \<leftarrow> UpdatePS2KeyboardModifierState status (fst key) (UpdatePS2KeyboardKeyState (fst key) (snd key) s);
       Some (ProcessKeyToUnicodeCharacter (fst key)
         (emit [ShellKeyEvent (fst key) (keyStates s1 (fst key))] s1))
     }"

definition ProcessPS2KeyboardCode :: "(nat \<Rightarrow> u8) \<Rightarrow> u8 \<Rightarrow> kb_state \<Rightarrow> kb_state option" where
  "ProcessPS2KeyboardCode status code s =
     do {
       (result, key, s1) \<leftarrow>
         (case listeningMode s of
            LISTENING_MODE_TABLE_CHARACTER_LOOKUP \<Rightarrow> Some (ProcessPS2KCodeByLookup code (0, ACTION_NONE) s)
          | LISTENING_MODE_BYTE_SEQUENCE \<Rightarrow> ProcessPS2KByteSequenceCode code (0, ACTION_NONE) s);
       let s2 = (if result = CODE_DECODED_TO_KEY \<or> result = CODE_FAILURE
                 then s1\<lparr>listeningMode := LISTENING_MODE_TABLE_CHARACTER_LOOKUP,
                         currentSubScanCodeSetTable := globalScanCodeSetTable s1\<rparr>
                 else s1);
       if result = CODE_FAILURE then Some s2 else finish_key status key s2
     }"

definition ProcessPS2KeyboardInterrupt :: "(nat \<Rightarrow> u8) \<Rightarrow> u8 \<Rightarrow> kb_state \<Rightarrow> kb_state option" where
  "ProcessPS2KeyboardInterrupt status code s =
     (if code = 0x0 \<or> code = 0xFF then Some s
      else if code = 0xAA then InitialisePS2Keyboard status s
      else if code = 0xFC \<or> code = 0xFD then InitialisePS2Keyboard status s
      else if code = 0xEE then Some s
      else if code = 0xFA then OnPS2KeyboardCommandAcknowledged status s
      else if code = 0xFE then ResendPS2KeyboardCommand status s
      else ProcessPS2KeyboardCode status code s)"

end
