(* ===== verification/PS2KeyboardQueue.thy ===== *)
theory PS2KeyboardQueue
  imports PS2Keyboard
begin

text \<open>
  The command queue of the keyboard driver: the abstract queue that it promises
  (\<open>spec_push\<close>, \<open>spec_ack\<close>, \<open>spec_resend\<close> on the pending commands, the number of
  resends and the bytes sent), the invariant \<open>cmd_wf\<close> of its representation in
  two arrays, a size and a state, and the refinement of every operation. The
  locale \<open>command_sink\<close> is what the rest of the driver needs from the queue.
\<close>

subsection \<open>The abstract queue\<close>

type_synonym command_queue = "(u8 \<times> u8) list \<times> nat \<times> kb_event list"

definition wire :: "u8 \<times> u8 \<Rightarrow> kb_event list" where
  "wire c = KbOut (fst c) 0x60 # (if takes_data (fst c) then [KbOut (snd c) 0x60] else [])"

fun spec_push :: "u8 \<times> u8 \<Rightarrow> command_queue \<Rightarrow> command_queue" where
  "spec_push c (q, r, tr) =
     (if 16 \<le> length q then (q, r, tr)
      else if q = [] then ([c], r, tr @ wire c) else (q @ [c], r, tr))"

fun spec_next :: "command_queue \<Rightarrow> command_queue" where
  "spec_next (q, r, tr) = (tl q, 0, tr @ (if tl q = [] then [] else wire (hd (tl q))))"

fun spec_ack :: "command_queue \<Rightarrow> command_queue" where
  "spec_ack (q, r, tr) = (if q = [] then (q, r, tr) else spec_next (q, r, tr))"

fun spec_resend :: "command_queue \<Rightarrow> command_queue" where
  "spec_resend (q, r, tr) =
     (if q = [] then (q, r, tr)
      else if r < 3 then (q, r + 1, tr @ wire (hd q))
      else spec_next (q, r, tr))"

subsection \<open>The representation\<close>

definition pending :: "kb_state \<Rightarrow> (u8 \<times> u8) list" where
  "pending s = take (unat (commandBufferSize s)) (zip (commandBuffer s) (commandDataBuffer s))"

definition abs_queue :: "kb_state \<Rightarrow> command_queue" where
  "abs_queue s = (pending s, unat (numCommandResends s), kb_trace s)"

definition cmd_bounds :: "kb_state \<Rightarrow> bool" where
  "cmd_bounds s = (length (commandBuffer s) = 16 \<and> length (commandDataBuffer s) = 16 \<and>
     unat (commandBufferSize s) \<le> 16 \<and> unat (numCommandResends s) \<le> 3)"

definition cmd_wf :: "kb_state \<Rightarrow> bool" where
  "cmd_wf s = (cmd_bounds s \<and> currentCommandState s =
     (if commandBufferSize s = 0 then COMMAND_STATE_FREE else COMMAND_STATE_WAITING_FOR_RESPONSE))"

text \<open>The part of the state that commands do not touch.\<close>

definition key_part :: "kb_state \<Rightarrow> kb_state" where
  "key_part s = s\<lparr>commandBuffer := [], commandDataBuffer := [], commandBufferSize := 0,
     numCommandResends := 0, currentCommandState := COMMAND_STATE_FREE, statusReads := 0, kb_trace := []\<rparr>"

text \<open>The controller accepts a byte again and again: every wait ends.\<close>

definition controller_ready :: "(nat \<Rightarrow> u8) \<Rightarrow> bool" where
  "controller_ready status = (\<forall>n. \<exists>m \<ge> n. status m AND 0x2 \<noteq> 0x2)"

lemma wait_writable_ready:
  assumes "controller_ready status"
  shows "\<exists>m. wait_writable status n = Some m"
proof -
  obtain m where "m \<ge> n" "status m AND 0x2 \<noteq> 0x2"
    using assms unfolding controller_ready_def by blast
  then obtain k where "status (n + k) AND 0x2 \<noteq> 0x2" using le_Suc_ex by blast
  thus ?thesis
  proof (induction k arbitrary: n)
    case 0
    thus ?case by (subst wait_writable.simps) simp
  next
    case (Suc k)
    have "\<exists>m. wait_writable status (n + 1) = Some m" using Suc.prems by (intro Suc.IH) simp
    thus ?case by (subst wait_writable.simps) simp
  qed
qed

lemma pending_Nil: "cmd_bounds s \<Longrightarrow> pending s = [] \<longleftrightarrow> commandBufferSize s = 0"
  by (auto simp: pending_def cmd_bounds_def unat_eq_0)

lemma length_pending: "cmd_bounds s \<Longrightarrow> length (pending s) = unat (commandBufferSize s)"
  by (auto simp: pending_def cmd_bounds_def)

lemma hd_pending:
  assumes "cmd_bounds s" "commandBufferSize s \<noteq> 0"
  shows "hd (pending s) = (commandBuffer s ! 0, commandDataBuffer s ! 0)"
proof -
  have "pending s \<noteq> []" using assms pending_Nil by blast
  hence "hd (pending s) = pending s ! 0" by (rule hd_conv_nth)
  thus ?thesis using assms by (simp add: pending_def cmd_bounds_def unat_gt_0)
qed

definition executed :: "nat \<Rightarrow> kb_state \<Rightarrow> kb_state" where
  "executed n s = s\<lparr>currentCommandState := COMMAND_STATE_WAITING_FOR_RESPONSE, statusReads := n,
     kb_trace := kb_trace s @ wire (hd (pending s))\<rparr>"

lemma executed_simps [simp]:
  "currentCommandState (executed n s) = COMMAND_STATE_WAITING_FOR_RESPONSE"
  "pending (executed n s) = pending s"
  "kb_trace (executed n s) = kb_trace s @ wire (hd (pending s))"
  "numCommandResends (executed n s) = numCommandResends s"
  "commandBufferSize (executed n s) = commandBufferSize s"
  "key_part (executed n s) = key_part s"
  "cmd_bounds (executed n s) = cmd_bounds s"
  by (simp_all add: executed_def pending_def key_part_def cmd_bounds_def)

lemma ExecutePS2KeyboardCommand_some:
  assumes "controller_ready status" "cmd_bounds s" "commandBufferSize s \<noteq> 0"
  shows "\<exists>n. ExecutePS2KeyboardCommand status s =
     Some (executed n s)"
proof -
  obtain n1 where n1: "wait_writable status (statusReads s) = Some n1"
    using wait_writable_ready [OF assms(1)] by blast
  obtain n2 where n2: "wait_writable status n1 = Some n2"
    using wait_writable_ready [OF assms(1)] by blast
  have "ExecutePS2KeyboardCommand status s =
      Some (executed (if takes_data (commandBuffer s ! 0) then n2 else n1) s)"
    by (simp add: ExecutePS2KeyboardCommand_def write_data_port_def n1 n2 emit_def wire_def
        executed_def hd_pending [OF assms(2,3)])
  thus ?thesis by blast
qed

text \<open>Moving the buffer down by one.\<close>

lemma shift_down_nth:
  "n \<le> length buf \<Longrightarrow> length (shift_down n buf) = length buf \<and>
     (\<forall>i < length buf. shift_down n buf ! i = (if i + 1 < n then buf ! (i + 1) else buf ! i))"
proof (induction n)
  case (Suc n)
  show ?case
  proof (cases "n = 0")
    case False
    hence "shift_down (Suc n) buf = (shift_down n buf)[n - 1 := shift_down n buf ! n]"
      by (simp add: shift_down_def)
    thus ?thesis using Suc False by (auto simp: nth_list_update)
  qed (simp add: shift_down_def)
qed (simp add: shift_down_def)

lemma take_shift_down:
  assumes "n \<le> length buf" "n \<le> length dat" "length buf = length dat"
  shows "take (n - 1) (zip (shift_down n buf) (shift_down n dat)) = tl (take n (zip buf dat))"
  using shift_down_nth [OF assms(1)] shift_down_nth [OF assms(2)] assms
  by (intro nth_equalityI) (auto simp: nth_tl)

subsection \<open>Refinement\<close>

definition cmd_step :: "kb_state \<Rightarrow> kb_state option \<Rightarrow> command_queue \<Rightarrow> bool" where
  "cmd_step s r a = (\<exists>s'. r = Some s' \<and> cmd_wf s' \<and> abs_queue s' = a \<and> key_part s' = key_part s)"

lemma cmd_wf_bounds: "cmd_wf s \<Longrightarrow> cmd_bounds s"
  by (simp add: cmd_wf_def)

lemma NextPS2KeyboardCommand_step:
  assumes "controller_ready status" "cmd_wf s"
  shows "cmd_step s (NextPS2KeyboardCommand status s) (spec_next (abs_queue s))"
proof -
  let ?n = "unat (commandBufferSize s)"
  define s1 where "s1 = s\<lparr>currentCommandState := COMMAND_STATE_FREE, numCommandResends := 0,
     commandBuffer := shift_down ?n (commandBuffer s), commandDataBuffer := shift_down ?n (commandDataBuffer s),
     commandBufferSize := (if commandBufferSize s > 0 then commandBufferSize s - 1 else 0)\<rparr>"
  have b: "cmd_bounds s" using assms(2) by (rule cmd_wf_bounds)
  have size1: "unat (commandBufferSize s1) = ?n - 1"
    by (auto simp: s1_def word_gt_0 unat_minus_one)
  have b1: "cmd_bounds s1"
    using b size1 shift_down_nth by (auto simp: cmd_bounds_def s1_def)
  have p1: "pending s1 = tl (pending s)"
    unfolding pending_def size1 using b take_shift_down [of ?n "commandBuffer s" "commandDataBuffer s"]
    by (simp add: s1_def cmd_bounds_def)
  have f1: "numCommandResends s1 = 0" "kb_trace s1 = kb_trace s" "key_part s1 = key_part s"
      "currentCommandState s1 = COMMAND_STATE_FREE"
    by (simp_all add: s1_def key_part_def)
  have next_eq: "NextPS2KeyboardCommand status s =
      (if commandBufferSize s1 > 0 then ExecutePS2KeyboardCommand status s1 else Some s1)"
    by (auto simp: NextPS2KeyboardCommand_def s1_def Let_def word_gt_0)
  show ?thesis
  proof (cases "commandBufferSize s1 = 0")
    case True
    hence "tl (pending s) = []" using pending_Nil [OF b1] p1 by simp
    thus ?thesis using True b1 p1 f1
      by (simp add: cmd_step_def next_eq cmd_wf_def abs_queue_def)
  next
    case False
    then obtain m where m: "ExecutePS2KeyboardCommand status s1 =
        Some (executed m s1)"
      using ExecutePS2KeyboardCommand_some [OF assms(1) b1] by blast
    have "tl (pending s) \<noteq> []" using False pending_Nil [OF b1] p1 by simp
    thus ?thesis using False b1 p1 f1
      unfolding cmd_step_def next_eq m by (simp add: cmd_wf_def abs_queue_def word_gt_0)
  qed
qed

lemma PushPS2KeyboardCommand_step:
  assumes "controller_ready status" "cmd_wf s"
  shows "cmd_step s (PushPS2KeyboardCommand status c d s) (spec_push (c, d) (abs_queue s))"
proof -
  let ?n = "unat (commandBufferSize s)"
  have b: "cmd_bounds s" using assms(2) by (rule cmd_wf_bounds)
  have full: "commandBufferSize s = MAX_CMD_BUFFER_SIZE \<longleftrightarrow> ?n = 16"
    by (auto simp: MAX_CMD_BUFFER_SIZE_def word_unat_eq_iff)
  show ?thesis
  proof (cases "?n = 16")
    case True
    thus ?thesis using assms(2) length_pending [OF b]
      by (simp add: cmd_step_def PushPS2KeyboardCommand_def full abs_queue_def)
  next
    case False
    hence n: "?n < 16" using b by (simp add: cmd_bounds_def)
    define s1 where "s1 = s\<lparr>commandBuffer := (commandBuffer s)[?n := c],
       commandDataBuffer := (commandDataBuffer s)[?n := d], commandBufferSize := commandBufferSize s + 1\<rparr>"
    have size1: "unat (commandBufferSize s1) = Suc ?n"
      using n by (simp add: s1_def unat_word_ariths)
    have b1: "cmd_bounds s1" using b size1 n by (simp add: cmd_bounds_def s1_def)
    have p1: "pending s1 = pending s @ [(c, d)]"
      unfolding pending_def size1 using b n
      by (simp add: s1_def cmd_bounds_def take_Suc_conv_app_nth take_zip)
    have f1: "numCommandResends s1 = numCommandResends s" "kb_trace s1 = kb_trace s"
        "key_part s1 = key_part s" "currentCommandState s1 = currentCommandState s"
      by (simp_all add: s1_def key_part_def)
    have push_eq: "PushPS2KeyboardCommand status c d s =
        (if currentCommandState s1 = COMMAND_STATE_FREE then ExecutePS2KeyboardCommand status s1 else Some s1)"
      using False by (simp add: PushPS2KeyboardCommand_def full s1_def Let_def)
    have nz: "commandBufferSize s1 \<noteq> 0" using size1 by force
    show ?thesis
    proof (cases "commandBufferSize s = 0")
      case True
      obtain m where m: "ExecutePS2KeyboardCommand status s1 =
          Some (executed m s1)"
        using ExecutePS2KeyboardCommand_some [OF assms(1) b1 nz] by blast
      have "pending s = []" using True pending_Nil [OF b] by simp
      thus ?thesis using True b1 p1 nz assms(2) f1
        unfolding cmd_step_def push_eq m by (simp add: cmd_wf_def abs_queue_def)
    next
      case False
      hence "pending s \<noteq> []" using pending_Nil [OF b] by simp
      thus ?thesis using False b1 p1 nz assms(2) length_pending [OF b] n
        unfolding cmd_step_def push_eq
        by (simp add: f1 cmd_wf_def abs_queue_def)
    qed
  qed
qed


lemma OnPS2KeyboardCommandAcknowledged_step:
  assumes "controller_ready status" "cmd_wf s"
  shows "cmd_step s (OnPS2KeyboardCommandAcknowledged status s) (spec_ack (abs_queue s))"
proof (cases "commandBufferSize s = 0")
  case True
  hence "pending s = []" using pending_Nil [OF cmd_wf_bounds [OF assms(2)]] by simp
  thus ?thesis using True assms(2)
    by (simp add: OnPS2KeyboardCommandAcknowledged_def cmd_step_def cmd_wf_def abs_queue_def)
next
  case False
  hence "pending s \<noteq> []" using pending_Nil [OF cmd_wf_bounds [OF assms(2)]] by simp
  thus ?thesis using False assms(2) NextPS2KeyboardCommand_step [OF assms]
    by (simp add: OnPS2KeyboardCommandAcknowledged_def cmd_wf_def abs_queue_def)
qed

lemma ResendPS2KeyboardCommand_step:
  assumes "controller_ready status" "cmd_wf s"
  shows "cmd_step s (ResendPS2KeyboardCommand status s) (spec_resend (abs_queue s))"
proof (cases "commandBufferSize s = 0")
  case True
  hence "pending s = []" using pending_Nil [OF cmd_wf_bounds [OF assms(2)]] by simp
  thus ?thesis using True assms(2)
    by (simp add: ResendPS2KeyboardCommand_def cmd_step_def abs_queue_def)
next
  case False
  have b: "cmd_bounds s" using assms(2) by (rule cmd_wf_bounds)
  have ne: "pending s \<noteq> []" using False pending_Nil [OF b] by simp
  have w: "currentCommandState s = COMMAND_STATE_WAITING_FOR_RESPONSE"
    using False assms(2) by (simp add: cmd_wf_def)
  show ?thesis
  proof (cases "numCommandResends s < MAX_CMD_RESENDS")
    case True
    obtain m where m: "ExecutePS2KeyboardCommand status s = Some (executed m s)"
      using ExecutePS2KeyboardCommand_some [OF assms(1) b False] by blast
    have r: "unat (numCommandResends s) < 3" "unat (numCommandResends s + 1) = Suc (unat (numCommandResends s))"
      using True by (simp_all add: MAX_CMD_RESENDS_def word_less_nat_alt unat_word_ariths)
    define s' where "s' = (executed m s)\<lparr>numCommandResends := numCommandResends s + 1\<rparr>"
    have "cmd_bounds s'" "pending s' = pending s" "key_part s' = key_part s"
        "currentCommandState s' = COMMAND_STATE_WAITING_FOR_RESPONSE"
      using b r by (simp_all add: s'_def executed_def cmd_bounds_def pending_def key_part_def)
    moreover have "ResendPS2KeyboardCommand status s = Some s'"
      using False True w by (simp add: ResendPS2KeyboardCommand_def m word_gt_0 s'_def)
    ultimately show ?thesis using False ne r
      by (simp add: cmd_step_def abs_queue_def cmd_wf_def) (simp add: s'_def)
  next
    case resent: False
    hence "\<not> unat (numCommandResends s) < 3"
      by (simp add: MAX_CMD_RESENDS_def word_less_nat_alt)
    thus ?thesis using False resent ne w NextPS2KeyboardCommand_step [OF assms]
      by (simp add: ResendPS2KeyboardCommand_def abs_queue_def word_gt_0)
  qed
qed


text \<open>
  C20: (the command queue) Every operation of the command queue ends and does what
  the abstract queue does: a command is appended, or dropped when sixteen are
  pending, and is sent at once exactly when nothing was pending; an
  acknowledgement removes the first command and sends the next one; a resend
  request repeats the first command at most three times and then gives it up.
  The rest of the driver's state is untouched.
\<close>

theorem keyboard_commands_refine:
  assumes "controller_ready status" and "cmd_wf s"
  shows "(\<exists>s'. PushPS2KeyboardCommand status c d s = Some s' \<and> cmd_wf s' \<and>
            abs_queue s' = spec_push (c, d) (abs_queue s) \<and> key_part s' = key_part s) \<and>
         (\<exists>s'. OnPS2KeyboardCommandAcknowledged status s = Some s' \<and> cmd_wf s' \<and>
            abs_queue s' = spec_ack (abs_queue s) \<and> key_part s' = key_part s) \<and>
         (\<exists>s'. ResendPS2KeyboardCommand status s = Some s' \<and> cmd_wf s' \<and>
            abs_queue s' = spec_resend (abs_queue s) \<and> key_part s' = key_part s)"
  using PushPS2KeyboardCommand_step [OF assms] OnPS2KeyboardCommandAcknowledged_step [OF assms]
    ResendPS2KeyboardCommand_step [OF assms]
  unfolding cmd_step_def by blast

text \<open>The zero-initialised state of the driver (its tables are set by the initialisation).\<close>

definition zero_state :: kb_state where
  "zero_state = \<lparr>commandBuffer = replicate 16 0, commandDataBuffer = replicate 16 0,
     commandBufferSize = 0, numCommandResends = 0, currentCommandState = COMMAND_STATE_FREE,
     listeningMode = LISTENING_MODE_TABLE_CHARACTER_LOOKUP,
     globalScanCodeSetTable = ScanCodes [] [] [], currentSubScanCodeSetTable = ScanCodes [] [] [],
     currentSpecialSequence = None, specialSequenceByteIndex = 0, keyStates = (\<lambda>_. KEY_STATE_RELEASED),
     capsLockActive = False, numLockActive = False, scrollLockActive = False,
     capsLockJustActivated = False, numLockJustActivated = False, scrollLockJustActivated = False,
     anyShiftActive = False, anyControlActive = False, leftAltActive = False, rightAltActive = False,
     unicodeTable = None, statusReads = 0, kb_trace = []\<rparr>"

lemma zero_state_wf: "cmd_wf zero_state"
  by (simp add: zero_state_def cmd_wf_def cmd_bounds_def)

lemma always_ready: "controller_ready (\<lambda>_. 0)"
  by (auto simp: controller_ready_def)

lemma keyboard_commands_refine_witness:
  "\<exists>s'. PushPS2KeyboardCommand (\<lambda>_. 0) 0xED 4 zero_state = Some s' \<and>
     abs_queue s' = ([(0xED, 4)], 0, [KbOut 0xED 0x60, KbOut 4 0x60])"
  using keyboard_commands_refine [OF always_ready zero_state_wf, where c = "0xED" and d = 4]
  by (force simp: abs_queue_def pending_def zero_state_def wire_def takes_data_def)

subsection \<open>Runs of interrupts\<close>

fun ProcessInterrupts :: "(nat \<Rightarrow> u8) \<Rightarrow> u8 list \<Rightarrow> kb_state \<Rightarrow> kb_state option" where
  "ProcessInterrupts status [] s = Some s"
| "ProcessInterrupts status (code # codes) s =
     Option.bind (ProcessPS2KeyboardInterrupt status code s) (ProcessInterrupts status codes)"

lemma ProcessInterrupts_append:
  "ProcessInterrupts status (cs @ ds) s =
     Option.bind (ProcessInterrupts status cs s) (ProcessInterrupts status ds)"
  by (induction cs arbitrary: s) (auto split: bind_splits)

text \<open>How many responses the queue can still consume.\<close>

fun responses_left :: "command_queue \<Rightarrow> nat" where
  "responses_left (q, r, tr) = 4 * length q - r"

lemma response_step:
  assumes "controller_ready status" "cmd_wf s" "code \<in> {0xFA, 0xFE}"
  shows "\<exists>s'. ProcessPS2KeyboardInterrupt status code s = Some s' \<and> cmd_wf s' \<and>
     responses_left (abs_queue s') \<le> responses_left (abs_queue s) - 1"
proof -
  obtain q r tr where a: "abs_queue s = (q, r, tr)" by (cases "abs_queue s")
  have r: "r \<le> 3" using assms(2) a by (simp add: cmd_wf_def cmd_bounds_def abs_queue_def)
  have "responses_left (spec_ack (q, r, tr)) \<le> responses_left (q, r, tr) - 1"
       "responses_left (spec_resend (q, r, tr)) \<le> responses_left (q, r, tr) - 1"
    using r by (cases q; auto)+
  thus ?thesis
    using assms(3) OnPS2KeyboardCommandAcknowledged_step [OF assms(1,2)]
      ResendPS2KeyboardCommand_step [OF assms(1,2)]
    by (auto simp: ProcessPS2KeyboardInterrupt_def cmd_step_def a)
qed

text \<open>
  C26: (the queue drains) Whatever mix of acknowledgements and resend requests the
  keyboard sends, after four responses per pending command no command is pending
  and the driver is free to send the next one.
\<close>

theorem keyboard_queue_drains:
  assumes "controller_ready status" and "cmd_wf s"
    and "set codes \<subseteq> {0xFA, 0xFE}" and "4 * length (pending s) \<le> length codes"
  shows "\<exists>s'. ProcessInterrupts status codes s = Some s' \<and> pending s' = [] \<and>
     currentCommandState s' = COMMAND_STATE_FREE"
proof -
  have "responses_left (abs_queue s) \<le> length codes"
    using assms(4) by (simp add: abs_queue_def)
  with assms(2,3) have "\<exists>s'. ProcessInterrupts status codes s = Some s' \<and> cmd_wf s' \<and>
      responses_left (abs_queue s') = 0"
  proof (induction codes arbitrary: s)
    case Nil
    thus ?case by simp
  next
    case (Cons code codes)
    then obtain s1 where "ProcessPS2KeyboardInterrupt status code s = Some s1" "cmd_wf s1"
        "responses_left (abs_queue s1) \<le> length codes"
      using response_step [OF assms(1), of s code] by fastforce
    thus ?case using Cons by auto
  qed
  then obtain s' where s': "ProcessInterrupts status codes s = Some s'" "cmd_wf s'"
      "responses_left (abs_queue s') = 0" by blast
  have "4 * length (pending s') \<le> 3"
    using s'(2,3) by (simp add: abs_queue_def cmd_wf_def cmd_bounds_def)
  hence "pending s' = []" by (cases "pending s'") auto
  moreover from this have "commandBufferSize s' = 0"
    using pending_Nil [OF cmd_wf_bounds [OF s'(2)]] by simp
  ultimately show ?thesis using s' by (auto simp: cmd_wf_def)
qed

lemma keyboard_queue_drains_witness:
  "\<exists>s'. ProcessInterrupts (\<lambda>_. 0) [0xFE, 0xFE, 0xFA, 0xFE]
     (zero_state\<lparr>commandBufferSize := 1, currentCommandState := COMMAND_STATE_WAITING_FOR_RESPONSE\<rparr>) = Some s' \<and>
     pending s' = []"
  using keyboard_queue_drains [OF always_ready, of "zero_state\<lparr>commandBufferSize := 1,
      currentCommandState := COMMAND_STATE_WAITING_FOR_RESPONSE\<rparr>" "[0xFE, 0xFE, 0xFA, 0xFE]"]
  by (force simp: cmd_wf_def cmd_bounds_def zero_state_def pending_def)

subsection \<open>What the driver needs from its queue\<close>

text \<open>
  A sink of commands: in a state of its invariant every command is accepted, and
  the view that the client has of the state does not change.
\<close>

locale command_sink =
  fixes push :: "u8 \<Rightarrow> u8 \<Rightarrow> 's \<Rightarrow> 's option"
    and inv :: "'s \<Rightarrow> bool"
    and view :: "'s \<Rightarrow> 'v"
  assumes push_ok: "inv s \<Longrightarrow> \<exists>s'. push c d s = Some s' \<and> inv s' \<and> view s' = view s"
begin

definition keeps :: "'s option \<Rightarrow> 'v \<Rightarrow> bool" where
  "keeps r v = (\<exists>s'. r = Some s' \<and> inv s' \<and> view s' = v)"

lemma keeps_push: "inv s \<Longrightarrow> view s = v \<Longrightarrow> keeps (push c d s) v"
  using push_ok by (auto simp: keeps_def)

lemma keeps_bind:
  "keeps r v \<Longrightarrow> (\<And>s'. inv s' \<Longrightarrow> view s' = v \<Longrightarrow> keeps (f s') v) \<Longrightarrow> keeps (Option.bind r f) v"
  by (auto simp: keeps_def)

lemma keepsE:
  assumes "keeps r v"
  obtains s' where "r = Some s'" "inv s'" "view s' = v"
  using assms by (auto simp: keeps_def)

end

interpretation kb_sink: command_sink "PushPS2KeyboardCommand status"
    "\<lambda>s. controller_ready status \<and> cmd_wf s" key_part for status
  by unfold_locales (use PushPS2KeyboardCommand_step cmd_step_def in blast)

lemma InitialisePS2Keyboard_keeps:
  "controller_ready status \<Longrightarrow> cmd_wf s \<Longrightarrow>
     kb_sink.keeps status (InitialisePS2Keyboard status s) (key_part s)"
  unfolding InitialisePS2Keyboard_def UpdatePS2KeyboardIndicatorLEDs_def
  by (intro kb_sink.keeps_bind kb_sink.keeps_push) auto

lemma UpdatePS2KeyboardIndicatorLEDs_keeps:
  "controller_ready status \<Longrightarrow> cmd_wf s \<Longrightarrow>
     kb_sink.keeps status (UpdatePS2KeyboardIndicatorLEDs status s) (key_part s)"
  unfolding UpdatePS2KeyboardIndicatorLEDs_def by (intro kb_sink.keeps_push) auto

end
