(* ===== verification/PS2KeyboardKeys.thy ===== *)
theory PS2KeyboardKeys
  imports PS2KeyboardQueue
begin

text \<open>
  The keys of the keyboard driver: the scan code sequences of set 2 and the key
  each of them decodes to, the invariant of the decoder, the modifiers and the
  lock keys over every sequence of interrupts, and the characters of the US
  layout.
\<close>

subsection \<open>The scan code tables\<close>

lemma scan_tables:
  "keysPerByte scanCode2SetGlobal = scanCode2SingleByteSet"
  "byteExtended scanCode2SetGlobal = [(0xE0, scanCode2Level1SubTable0), (0xF0, scanCode2Level1SubTable1)]"
  "specialSequences scanCode2SetGlobal = [scanCode2PauseSequence]"
  "keysPerByte scanCode2Level1SubTable0 = scanCode2TwoBytesSet"
  "byteExtended scanCode2Level1SubTable0 = [(0xF0, scanCode2Level2SubTable)]"
  "specialSequences scanCode2Level1SubTable0 = [scanCode2Level1PrtScnPressedSequence]"
  "keysPerByte scanCode2Level1SubTable1 = scanCode2SingleByteReleaseSet"
  "byteExtended scanCode2Level1SubTable1 = []"
  "specialSequences scanCode2Level1SubTable1 = []"
  "keysPerByte scanCode2Level2SubTable = scanCode2TwoBytesReleaseSet"
  "byteExtended scanCode2Level2SubTable = []"
  "specialSequences scanCode2Level2SubTable = [scanCode2Level2PrtScnReleaseSequence]"
  by (simp_all add: scanCode2SetGlobal_def scanCode2Level1SubTable0_def scanCode2Level1SubTable1_def
      scanCode2Level2SubTable_def)

lemma scan_sequences:
  "seq_bytes scanCode2PauseSequence = [0xE1, 0x14, 0x77, 0xE1, 0xF0, 0x14, 0xF0, 0x77]"
  "seq_key scanCode2PauseSequence = (KEY_PAUSE, ACTION_PRESSED_RELEASED)"
  "seq_bytes scanCode2Level1PrtScnPressedSequence = [0x12, 0xE0, 0x7C]"
  "seq_key scanCode2Level1PrtScnPressedSequence = (KEY_PRINT_SCREEN, ACTION_PRESSED)"
  "seq_bytes scanCode2Level2PrtScnReleaseSequence = [0x7C, 0xE0, 0xF0, 0x12]"
  "seq_key scanCode2Level2PrtScnReleaseSequence = (KEY_PRINT_SCREEN, ACTION_RELEASED)"
  by (simp_all add: scanCode2PauseSequence_def scanCode2Level1PrtScnPressedSequence_def
      scanCode2Level2PrtScnReleaseSequence_def)

lemma table_lengths:
  "length scanCode2SingleByteSet = 133" "length scanCode2SingleByteReleaseSet = 133"
  "length scanCode2TwoBytesSet = 127" "length scanCode2TwoBytesReleaseSet = 127"
  by (simp_all add: scanCode2SingleByteSet_def scanCode2SingleByteReleaseSet_def
      scanCode2TwoBytesSet_def scanCode2TwoBytesReleaseSet_def)

text \<open>Every key of the tables is a key identifier of the state array.\<close>

definition keys_in_range :: "map_key list \<Rightarrow> bool" where
  "keys_in_range ks = list_all (\<lambda>k. fst k < 512) ks"

lemma tables_in_range:
  "keys_in_range scanCode2SingleByteSet" "keys_in_range scanCode2SingleByteReleaseSet"
  "keys_in_range scanCode2TwoBytesSet" "keys_in_range scanCode2TwoBytesReleaseSet"
  unfolding keys_in_range_def scanCode2SingleByteSet_def scanCode2SingleByteReleaseSet_def
      scanCode2TwoBytesSet_def scanCode2TwoBytesReleaseSet_def
  by simp_all

definition table_key :: "map_key list \<Rightarrow> u8 \<Rightarrow> map_key" where
  "table_key ks code = (if unat code < length ks then ks ! unat code else (0, ACTION_NONE))"

lemma table_key_range: "keys_in_range ks \<Longrightarrow> fst (table_key ks code) < 512"
  by (auto simp: table_key_def keys_in_range_def list_all_length)

text \<open>What the release tables hold follows from the press tables, key by key.\<close>

definition release_of :: "map_key \<Rightarrow> map_key" where
  "release_of k = (fst k, if snd k = ACTION_PRESSED then ACTION_RELEASED else snd k)"

lemma release_single: "scanCode2SingleByteReleaseSet = map release_of scanCode2SingleByteSet"
  unfolding scanCode2SingleByteSet_def scanCode2SingleByteReleaseSet_def list.map release_of_def
    fst_conv snd_conv by simp

lemma release_two: "scanCode2TwoBytesReleaseSet = map release_of scanCode2TwoBytesSet"
  unfolding scanCode2TwoBytesSet_def scanCode2TwoBytesReleaseSet_def list.map release_of_def
    fst_conv snd_conv by simp

lemma table_key_release:
  "table_key scanCode2SingleByteReleaseSet c = release_of (table_key scanCode2SingleByteSet c)"
  "table_key scanCode2TwoBytesReleaseSet c = release_of (table_key scanCode2TwoBytesSet c)"
  by (auto simp: table_key_def release_single release_two release_of_def)

subsection \<open>One code, then one sequence\<close>

definition decoder_idle :: "kb_state \<Rightarrow> bool" where
  "decoder_idle s = (listeningMode s = LISTENING_MODE_TABLE_CHARACTER_LOOKUP \<and>
     globalScanCodeSetTable s = scanCode2SetGlobal \<and> currentSubScanCodeSetTable s = scanCode2SetGlobal)"

definition is_response :: "u8 \<Rightarrow> bool" where
  "is_response code = (code \<in> {0x00, 0xAA, 0xEE, 0xFA, 0xFC, 0xFD, 0xFE, 0xFF})"

lemma interrupt_code:
  "\<not> is_response code \<Longrightarrow> ProcessPS2KeyboardInterrupt status code s = ProcessPS2KeyboardCode status code s"
  by (simp add: ProcessPS2KeyboardInterrupt_def is_response_def)

lemma finish_no_key:
  "finish_key status (0, ACTION_NONE) s = Some (emit [ShellKeyEvent 0 (keyStates s 0)] s)"
  by (auto simp: finish_key_def UpdatePS2KeyboardKeyState_def UpdatePS2KeyboardModifierState_def
      ProcessKeyToUnicodeCharacter_def emit_def split: option.splits)

text \<open>
  A complete sequence ends like this: with the key of the sequence when there is
  one, with nothing otherwise; the decoder is idle again.
\<close>

definition complete :: "(nat \<Rightarrow> u8) \<Rightarrow> map_key \<Rightarrow> kb_state \<Rightarrow> kb_state option" where
  "complete status key s = (if fst key = 0 then Some s else finish_key status key s)"

text \<open>A byte in the middle of a sequence reports the key 0 to the shell.\<close>

definition partial_events :: "nat \<Rightarrow> kb_state \<Rightarrow> kb_state" where
  "partial_events n s = emit (replicate n (ShellKeyEvent 0 (keyStates s 0))) s"

lemma decode_result_table:
  "keys_in_range ks \<Longrightarrow> decode_result (fst (table_key ks code)) =
     (if fst (table_key ks code) = 0 then CODE_FAILURE else CODE_DECODED_TO_KEY)"
  using table_key_range [of ks code] by (auto simp: decode_result_def word_gt_0)


lemma partial_events_simps [simp]:
  "listeningMode (partial_events n s) = listeningMode s"
  "currentSubScanCodeSetTable (partial_events n s) = currentSubScanCodeSetTable s"
  "globalScanCodeSetTable (partial_events n s) = globalScanCodeSetTable s"
  "currentSpecialSequence (partial_events n s) = currentSpecialSequence s"
  "specialSequenceByteIndex (partial_events n s) = specialSequenceByteIndex s"
  "keyStates (partial_events n s) = keyStates s"
  "partial_events m (partial_events n s) = partial_events (n + m) s"
  "partial_events 0 s = s"
  "(partial_events n s)\<lparr>currentSubScanCodeSetTable := t\<rparr> = partial_events n (s\<lparr>currentSubScanCodeSetTable := t\<rparr>)"
  "(partial_events n s)\<lparr>listeningMode := m'\<rparr> = partial_events n (s\<lparr>listeningMode := m'\<rparr>)"
  "(partial_events n s)\<lparr>currentSpecialSequence := q\<rparr> = partial_events n (s\<lparr>currentSpecialSequence := q\<rparr>)"
  "(partial_events n s)\<lparr>specialSequenceByteIndex := i\<rparr> = partial_events n (s\<lparr>specialSequenceByteIndex := i\<rparr>)"
  by (simp_all add: partial_events_def emit_def replicate_add)

text \<open>The six ways in which the decoder takes one code.\<close>

lemma code_extends:
  assumes "listeningMode s = LISTENING_MODE_TABLE_CHARACTER_LOOKUP"
    "map_of (byteExtended (currentSubScanCodeSetTable s)) code = Some t"
  shows "ProcessPS2KeyboardCode status code s = Some (partial_events 1 (s\<lparr>currentSubScanCodeSetTable := t\<rparr>))"
  using assms
  by (simp add: ProcessPS2KeyboardCode_def ProcessPS2KCodeByLookup_def Let_def finish_no_key partial_events_def)

lemma code_looked_up:
  assumes "listeningMode s = LISTENING_MODE_TABLE_CHARACTER_LOOKUP"
    "map_of (byteExtended (currentSubScanCodeSetTable s)) code = None"
    "List.find (\<lambda>q. seq_bytes q \<noteq> [] \<and> code = seq_bytes q ! 0)
       (specialSequences (currentSubScanCodeSetTable s)) = None"
    "keys_in_range (keysPerByte (currentSubScanCodeSetTable s))"
  shows "ProcessPS2KeyboardCode status code s =
    complete status (table_key (keysPerByte (currentSubScanCodeSetTable s)) code)
      (s\<lparr>listeningMode := LISTENING_MODE_TABLE_CHARACTER_LOOKUP,
         currentSubScanCodeSetTable := globalScanCodeSetTable s\<rparr>)"
proof -
  let ?k = "table_key (keysPerByte (currentSubScanCodeSetTable s)) code"
  have "ProcessPS2KCodeByLookup code (0, ACTION_NONE) s = (decode_result (fst ?k), ?k, s)"
    using assms by (simp add: ProcessPS2KCodeByLookup_def table_key_def Let_def)
  thus ?thesis
    using assms(1) decode_result_table [OF assms(4), of code]
    by (simp add: ProcessPS2KeyboardCode_def complete_def)
qed

lemma code_starts_sequence:
  assumes "listeningMode s = LISTENING_MODE_TABLE_CHARACTER_LOOKUP"
    "map_of (byteExtended (currentSubScanCodeSetTable s)) code = None"
    "List.find (\<lambda>q. seq_bytes q \<noteq> [] \<and> code = seq_bytes q ! 0)
       (specialSequences (currentSubScanCodeSetTable s)) = Some q" "1 < length (seq_bytes q)"
  shows "ProcessPS2KeyboardCode status code s =
    Some (partial_events 1 (s\<lparr>listeningMode := LISTENING_MODE_BYTE_SEQUENCE,
      currentSpecialSequence := Some q, specialSequenceByteIndex := 1\<rparr>))"
  using assms
  by (simp add: ProcessPS2KeyboardCode_def ProcessPS2KCodeByLookup_def Let_def finish_no_key partial_events_def)

lemma code_in_sequence:
  assumes "listeningMode s = LISTENING_MODE_BYTE_SEQUENCE" "currentSpecialSequence s = Some q"
    "unat (specialSequenceByteIndex s) + 1 < length (seq_bytes q)"
  shows "ProcessPS2KeyboardCode status code s =
    (if code = seq_bytes q ! unat (specialSequenceByteIndex s)
     then Some (partial_events 1 (s\<lparr>specialSequenceByteIndex := specialSequenceByteIndex s + 1\<rparr>))
     else Some (s\<lparr>listeningMode := LISTENING_MODE_TABLE_CHARACTER_LOOKUP,
                  currentSubScanCodeSetTable := globalScanCodeSetTable s\<rparr>))"
  using assms
  by (simp add: ProcessPS2KeyboardCode_def ProcessPS2KByteSequenceCode_def Let_def finish_no_key partial_events_def)

lemma code_ends_sequence:
  assumes "listeningMode s = LISTENING_MODE_BYTE_SEQUENCE" "currentSpecialSequence s = Some q"
    "unat (specialSequenceByteIndex s) + 1 = length (seq_bytes q)"
    "fst (seq_key q) < 512" "fst (seq_key q) \<noteq> 0"
  shows "ProcessPS2KeyboardCode status code s =
    (let s' = s\<lparr>listeningMode := LISTENING_MODE_TABLE_CHARACTER_LOOKUP,
                currentSubScanCodeSetTable := globalScanCodeSetTable s\<rparr> in
     if code = seq_bytes q ! unat (specialSequenceByteIndex s)
     then finish_key status (seq_key q) s' else Some s')"
  using assms
  by (simp add: ProcessPS2KeyboardCode_def ProcessPS2KByteSequenceCode_def Let_def decode_result_def word_gt_0)

text \<open>Back to the idle decoder.\<close>

lemma idle_restore:
  "decoder_idle s \<Longrightarrow> s\<lparr>listeningMode := LISTENING_MODE_TABLE_CHARACTER_LOOKUP,
     currentSubScanCodeSetTable := scanCode2SetGlobal\<rparr> = s"
  by (cases s) (simp add: decoder_idle_def)

lemma decoder_idleD:
  assumes "decoder_idle s"
  shows "listeningMode s = LISTENING_MODE_TABLE_CHARACTER_LOOKUP"
    "currentSubScanCodeSetTable s = scanCode2SetGlobal" "globalScanCodeSetTable s = scanCode2SetGlobal"
  using assms by (simp_all add: decoder_idle_def)

lemma single_code:
  assumes "decoder_idle s" "c \<notin> {0xE0, 0xF0, 0xE1}"
  shows "ProcessPS2KeyboardCode status c s = complete status (table_key scanCode2SingleByteSet c) s"
  using assms(2) tables_in_range
  by (subst code_looked_up) (simp_all add: idle_restore [OF assms(1)] decoder_idleD [OF assms(1)] scan_tables scan_sequences)

lemma prefix_code:
  assumes "decoder_idle s" "map_of (byteExtended scanCode2SetGlobal) c = Some t"
  shows "ProcessPS2KeyboardCode status c s =
    Some (partial_events 1 (s\<lparr>currentSubScanCodeSetTable := t\<rparr>))"
  using assms by (intro code_extends) (simp_all add: decoder_idleD)

lemma release_code:
  assumes "decoder_idle s"
  shows "ProcessPS2KeyboardCode status c (partial_events 1 (s\<lparr>currentSubScanCodeSetTable := scanCode2Level1SubTable1\<rparr>)) =
    complete status (release_of (table_key scanCode2SingleByteSet c)) (partial_events 1 s)"
  using tables_in_range
  by (subst code_looked_up)
    (simp_all add: idle_restore [OF assms] decoder_idleD [OF assms] scan_tables scan_sequences table_key_release)

lemma extended_code:
  assumes "decoder_idle s" "c \<notin> {0xF0, 0x12}"
  shows "ProcessPS2KeyboardCode status c (partial_events 1 (s\<lparr>currentSubScanCodeSetTable := scanCode2Level1SubTable0\<rparr>)) =
    complete status (table_key scanCode2TwoBytesSet c) (partial_events 1 s)"
  using assms(2) tables_in_range
  by (subst code_looked_up) (simp_all add: idle_restore [OF assms(1)] decoder_idleD [OF assms(1)] scan_tables scan_sequences)

lemma extended_prefix:
  assumes "decoder_idle s"
  shows "ProcessPS2KeyboardCode status 0xF0 (partial_events 1 (s\<lparr>currentSubScanCodeSetTable := scanCode2Level1SubTable0\<rparr>)) =
    Some (partial_events 2 (s\<lparr>currentSubScanCodeSetTable := scanCode2Level2SubTable\<rparr>))"
  by (subst code_extends) (simp_all add: decoder_idleD [OF assms] scan_tables numeral_2_eq_2)

lemma extended_release_code:
  assumes "decoder_idle s" "c \<noteq> 0x7C"
  shows "ProcessPS2KeyboardCode status c (partial_events 2 (s\<lparr>currentSubScanCodeSetTable := scanCode2Level2SubTable\<rparr>)) =
    complete status (release_of (table_key scanCode2TwoBytesSet c)) (partial_events 2 s)"
  using assms(2) tables_in_range
  by (subst code_looked_up)
    (simp_all add: idle_restore [OF assms(1)] decoder_idleD [OF assms(1)] scan_tables scan_sequences table_key_release)


text \<open>The three sequences that are not a prefix and a table entry.\<close>

definition after_sequence :: "special_sequence \<Rightarrow> nat \<Rightarrow> kb_state \<Rightarrow> kb_state" where
  "after_sequence q n s = partial_events n (s\<lparr>currentSpecialSequence := Some q,
     specialSequenceByteIndex := of_nat (length (seq_bytes q) - 1)\<rparr>)"

lemma bind_run_Nil: "Option.bind r (ProcessInterrupts status []) = r"
  by (cases r) auto

lemma idle_restore_sequence:
  "decoder_idle s \<Longrightarrow> s\<lparr>currentSpecialSequence := q, specialSequenceByteIndex := i,
     listeningMode := LISTENING_MODE_TABLE_CHARACTER_LOOKUP, currentSubScanCodeSetTable := scanCode2SetGlobal\<rparr> =
   s\<lparr>currentSpecialSequence := q, specialSequenceByteIndex := i\<rparr>"
  by (cases s) (simp add: decoder_idle_def)

lemma no_responses:
  "\<not> is_response 0xE0" "\<not> is_response 0xE1" "\<not> is_response 0xF0" "\<not> is_response 0x12"
  "\<not> is_response 0x14" "\<not> is_response 0x77" "\<not> is_response 0x7C"
  by (simp_all add: is_response_def)

lemmas sequence_simps = interrupt_code no_responses code_extends code_starts_sequence code_in_sequence
  code_ends_sequence idle_restore_sequence scan_tables scan_sequences after_sequence_def bind_run_Nil

lemma pause_codes:
  assumes "decoder_idle s"
  shows "ProcessInterrupts status [0xE1, 0x14, 0x77, 0xE1, 0xF0, 0x14, 0xF0, 0x77] s =
    finish_key status (KEY_PAUSE, ACTION_PRESSED_RELEASED) (after_sequence scanCode2PauseSequence 7 s)"
  using assms by (simp add: sequence_simps decoder_idleD Let_def del: One_nat_def)

lemma print_screen_codes:
  assumes "decoder_idle s"
  shows "ProcessInterrupts status [0xE0, 0x12, 0xE0, 0x7C] s =
      finish_key status (KEY_PRINT_SCREEN, ACTION_PRESSED)
        (after_sequence scanCode2Level1PrtScnPressedSequence 3 s)"
    "ProcessInterrupts status [0xE0, 0xF0, 0x7C, 0xE0, 0xF0, 0x12] s =
      finish_key status (KEY_PRINT_SCREEN, ACTION_RELEASED)
        (after_sequence scanCode2Level2PrtScnReleaseSequence 5 s)"
  using assms by (simp_all add: sequence_simps decoder_idleD Let_def del: One_nat_def)


text \<open>
  C27: (scan code set 2) From the idle decoder, every complete sequence of codes
  that are not responses has exactly the effect of its key: a code of the main
  table, \<open>F0\<close> and such a code for its release, \<open>E0\<close> and a code of the extended
  table, \<open>E0 F0\<close> and such a code for its release, and the sequences of the print
  screen and pause keys. A sequence without a key has no effect. Every byte
  before the last one reports the key 0 to the shell, and nothing else.
\<close>

theorem scan_code_sequences:
  assumes "decoder_idle s" and "\<not> is_response c"
  shows
    "(c \<notin> {0xE0, 0xF0, 0xE1} \<longrightarrow>
        ProcessInterrupts status [c] s = complete status (table_key scanCode2SingleByteSet c) s) \<and>
     ProcessInterrupts status [0xF0, c] s =
       complete status (release_of (table_key scanCode2SingleByteSet c)) (partial_events 1 s) \<and>
     (c \<notin> {0xF0, 0x12} \<longrightarrow>
        ProcessInterrupts status [0xE0, c] s =
          complete status (table_key scanCode2TwoBytesSet c) (partial_events 1 s)) \<and>
     (c \<noteq> 0x7C \<longrightarrow>
        ProcessInterrupts status [0xE0, 0xF0, c] s =
          complete status (release_of (table_key scanCode2TwoBytesSet c)) (partial_events 2 s)) \<and>
     ProcessInterrupts status [0xE0, 0x12, 0xE0, 0x7C] s =
       finish_key status (KEY_PRINT_SCREEN, ACTION_PRESSED)
         (after_sequence scanCode2Level1PrtScnPressedSequence 3 s) \<and>
     ProcessInterrupts status [0xE0, 0xF0, 0x7C, 0xE0, 0xF0, 0x12] s =
       finish_key status (KEY_PRINT_SCREEN, ACTION_RELEASED)
         (after_sequence scanCode2Level2PrtScnReleaseSequence 5 s) \<and>
     ProcessInterrupts status [0xE1, 0x14, 0x77, 0xE1, 0xF0, 0x14, 0xF0, 0x77] s =
       finish_key status (KEY_PAUSE, ACTION_PRESSED_RELEASED) (after_sequence scanCode2PauseSequence 7 s)"
proof -
  have prefix: "ProcessPS2KeyboardInterrupt status 0xF0 s =
        Some (partial_events 1 (s\<lparr>currentSubScanCodeSetTable := scanCode2Level1SubTable1\<rparr>))"
      "ProcessPS2KeyboardInterrupt status 0xE0 s =
        Some (partial_events 1 (s\<lparr>currentSubScanCodeSetTable := scanCode2Level1SubTable0\<rparr>))"
    using prefix_code [OF assms(1)] by (simp_all add: interrupt_code no_responses scan_tables)
  have run1: "ProcessInterrupts status [c] x = ProcessPS2KeyboardCode status c x" for x
    using assms(2) by (simp add: interrupt_code bind_run_Nil)
  have run2: "ProcessInterrupts status (p # cs) s =
      Option.bind (ProcessPS2KeyboardInterrupt status p s) (ProcessInterrupts status cs)" for p cs
    by simp
  have ext: "ProcessPS2KeyboardInterrupt status 0xF0
        (partial_events 1 (s\<lparr>currentSubScanCodeSetTable := scanCode2Level1SubTable0\<rparr>)) =
      Some (partial_events 2 (s\<lparr>currentSubScanCodeSetTable := scanCode2Level2SubTable\<rparr>))"
    using extended_prefix [OF assms(1)] by (simp add: interrupt_code no_responses)
  have "ProcessInterrupts status [0xE0, 0xF0, c] s = ProcessPS2KeyboardCode status c
      (partial_events 2 (s\<lparr>currentSubScanCodeSetTable := scanCode2Level2SubTable\<rparr>))"
    unfolding run2 prefix ProcessInterrupts.simps(2) Option.bind.bind_lunit ext
    using assms(2) by (simp add: interrupt_code bind_run_Nil)
  moreover have "ProcessInterrupts status [0xF0, c] s = ProcessPS2KeyboardCode status c
      (partial_events 1 (s\<lparr>currentSubScanCodeSetTable := scanCode2Level1SubTable1\<rparr>))"
    unfolding run2 [of "0xF0"] prefix Option.bind.bind_lunit run1 ..
  moreover have "ProcessInterrupts status [0xE0, c] s = ProcessPS2KeyboardCode status c
      (partial_events 1 (s\<lparr>currentSubScanCodeSetTable := scanCode2Level1SubTable0\<rparr>))"
    unfolding run2 [of "0xE0"] prefix Option.bind.bind_lunit run1 ..
  ultimately show ?thesis
    using single_code [OF assms(1)] release_code [OF assms(1)] extended_code [OF assms(1)]
      extended_release_code [OF assms(1)] pause_codes [OF assms(1)] print_screen_codes [OF assms(1)]
    unfolding run1 by presburger
qed


lemma scan_code_sequences_witness:
  "ProcessInterrupts (\<lambda>_. 0) [0xF0, 0x1C] (zero_state\<lparr>globalScanCodeSetTable := scanCode2SetGlobal,
       currentSubScanCodeSetTable := scanCode2SetGlobal\<rparr>) =
     finish_key (\<lambda>_. 0) (KEY_A, ACTION_RELEASED)
       (partial_events 1 (zero_state\<lparr>globalScanCodeSetTable := scanCode2SetGlobal,
          currentSubScanCodeSetTable := scanCode2SetGlobal\<rparr>))"
proof -
  have "table_key scanCode2SingleByteSet 0x1C = (KEY_A, ACTION_PRESSED)"
    unfolding table_key_def table_lengths by (simp add: scanCode2SingleByteSet_def)
  thus ?thesis
    using scan_code_sequences [of "zero_state\<lparr>globalScanCodeSetTable := scanCode2SetGlobal,
        currentSubScanCodeSetTable := scanCode2SetGlobal\<rparr>" "0x1C" "\<lambda>_. 0"]
    by (simp add: decoder_idle_def zero_state_def is_response_def complete_def release_of_def)
qed

subsection \<open>The invariant of the keys\<close>

definition decoder_wf :: "kb_state \<Rightarrow> bool" where
  "decoder_wf s = (globalScanCodeSetTable s = scanCode2SetGlobal \<and>
     (listeningMode s = LISTENING_MODE_TABLE_CHARACTER_LOOKUP \<longrightarrow>
        currentSubScanCodeSetTable s \<in> {scanCode2SetGlobal, scanCode2Level1SubTable0,
          scanCode2Level1SubTable1, scanCode2Level2SubTable}) \<and>
     (listeningMode s = LISTENING_MODE_BYTE_SEQUENCE \<longrightarrow>
        (\<exists>q \<in> {scanCode2PauseSequence, scanCode2Level1PrtScnPressedSequence,
            scanCode2Level2PrtScnReleaseSequence}.
           currentSpecialSequence s = Some q \<and> unat (specialSequenceByteIndex s) < length (seq_bytes q))))"

text \<open>
  A lock is off only while its key is up; \<open>just\<close> holds only while the key that
  turned it on is still down.
\<close>

definition lock_ok :: "bool \<Rightarrow> bool \<Rightarrow> key_state \<Rightarrow> bool" where
  "lock_ok active just state =
     ((\<not> active \<longrightarrow> state = KEY_STATE_RELEASED) \<and> (just \<longrightarrow> state \<noteq> KEY_STATE_RELEASED))"

definition mods_wf :: "kb_state \<Rightarrow> bool" where
  "mods_wf s = (keyStates s 0 = KEY_STATE_RELEASED \<and>
     anyShiftActive s = (keyStates s KEY_LEFT_SHIFT \<noteq> KEY_STATE_RELEASED \<or>
                         keyStates s KEY_RIGHT_SHIFT \<noteq> KEY_STATE_RELEASED) \<and>
     anyControlActive s = (keyStates s KEY_LEFT_CONTROL \<noteq> KEY_STATE_RELEASED \<or>
                           keyStates s KEY_RIGHT_CONTROL \<noteq> KEY_STATE_RELEASED) \<and>
     leftAltActive s = (keyStates s KEY_LEFT_ALT \<noteq> KEY_STATE_RELEASED) \<and>
     rightAltActive s = (keyStates s KEY_RIGHT_ALT \<noteq> KEY_STATE_RELEASED) \<and>
     lock_ok (capsLockActive s) (capsLockJustActivated s) (keyStates s KEY_CAPS_LOCK) \<and>
     lock_ok (numLockActive s) (numLockJustActivated s) (keyStates s KEY_NUM_LOCK) \<and>
     lock_ok (scrollLockActive s) (scrollLockJustActivated s) (keyStates s KEY_SCROLL_LOCK))"

definition kb_wf :: "kb_state \<Rightarrow> bool" where
  "kb_wf s = (cmd_wf s \<and> decoder_wf s \<and> mods_wf s)"

lemma wf_key_part:
  "decoder_wf (key_part s) = decoder_wf s" "mods_wf (key_part s) = mods_wf s"
  by (simp_all add: decoder_wf_def mods_wf_def key_part_def)

lemma wf_emit [simp]:
  "decoder_wf (emit es s) = decoder_wf s" "mods_wf (emit es s) = mods_wf s"
  "cmd_wf (emit es s) = cmd_wf s" "kb_wf (emit es s) = kb_wf s"
  by (simp_all add: decoder_wf_def mods_wf_def kb_wf_def cmd_wf_def cmd_bounds_def emit_def)

lemma wf_partial [simp]:
  "decoder_wf (partial_events n s) = decoder_wf s" "mods_wf (partial_events n s) = mods_wf s"
  "cmd_wf (partial_events n s) = cmd_wf s" "kb_wf (partial_events n s) = kb_wf s"
  by (simp_all add: partial_events_def)

lemma wf_unicode [simp]:
  "kb_wf (ProcessKeyToUnicodeCharacter k s) = kb_wf s"
  by (auto simp: ProcessKeyToUnicodeCharacter_def Let_def split: option.splits)

text \<open>What the update of the modifiers does apart from the commands it sends.\<close>

definition lock_after :: "bool \<Rightarrow> bool \<Rightarrow> key_state \<Rightarrow> bool \<times> bool" where
  "lock_after active just state =
     (if active then if state = KEY_STATE_RELEASED then (if just then (True, False) else (False, False)) else (active, just)
      else if state = KEY_STATE_PRESSED then (True, True) else (active, just))"

definition mods_after :: "u16 \<Rightarrow> kb_state \<Rightarrow> kb_state" where
  "mods_after k s =
     (if k = KEY_CAPS_LOCK
      then (case lock_after (capsLockActive s) (capsLockJustActivated s) (keyStates s k) of
              (a, j) \<Rightarrow> s\<lparr>capsLockActive := a, capsLockJustActivated := j\<rparr>)
      else if k = KEY_NUM_LOCK
      then (case lock_after (numLockActive s) (numLockJustActivated s) (keyStates s k) of
              (a, j) \<Rightarrow> s\<lparr>numLockActive := a, numLockJustActivated := j\<rparr>)
      else if k = KEY_SCROLL_LOCK
      then (case lock_after (scrollLockActive s) (scrollLockJustActivated s) (keyStates s k) of
              (a, j) \<Rightarrow> s\<lparr>scrollLockActive := a, scrollLockJustActivated := j\<rparr>)
      else if k = KEY_LEFT_SHIFT \<or> k = KEY_RIGHT_SHIFT
      then s\<lparr>anyShiftActive := (keyStates s KEY_LEFT_SHIFT \<noteq> KEY_STATE_RELEASED \<or>
                               keyStates s KEY_RIGHT_SHIFT \<noteq> KEY_STATE_RELEASED)\<rparr>
      else if k = KEY_LEFT_CONTROL \<or> k = KEY_RIGHT_CONTROL
      then s\<lparr>anyControlActive := (keyStates s KEY_LEFT_CONTROL \<noteq> KEY_STATE_RELEASED \<or>
                                 keyStates s KEY_RIGHT_CONTROL \<noteq> KEY_STATE_RELEASED)\<rparr>
      else if k = KEY_LEFT_ALT then s\<lparr>leftAltActive := (keyStates s k \<noteq> KEY_STATE_RELEASED)\<rparr>
      else if k = KEY_RIGHT_ALT then s\<lparr>rightAltActive := (keyStates s k \<noteq> KEY_STATE_RELEASED)\<rparr>
      else s)"

lemma keeps_Some: "controller_ready status \<Longrightarrow> cmd_wf s \<Longrightarrow> kb_sink.keeps status (Some s) (key_part s)"
  unfolding kb_sink.keeps_def by simp

lemma cmd_wf_flags [simp]:
  "cmd_wf (s\<lparr>capsLockActive := a\<rparr>) = cmd_wf s" "cmd_wf (s\<lparr>capsLockJustActivated := a\<rparr>) = cmd_wf s"
  "cmd_wf (s\<lparr>numLockActive := a\<rparr>) = cmd_wf s" "cmd_wf (s\<lparr>numLockJustActivated := a\<rparr>) = cmd_wf s"
  "cmd_wf (s\<lparr>scrollLockActive := a\<rparr>) = cmd_wf s" "cmd_wf (s\<lparr>scrollLockJustActivated := a\<rparr>) = cmd_wf s"
  "cmd_wf (s\<lparr>anyShiftActive := a\<rparr>) = cmd_wf s" "cmd_wf (s\<lparr>anyControlActive := a\<rparr>) = cmd_wf s"
  "cmd_wf (s\<lparr>leftAltActive := a\<rparr>) = cmd_wf s" "cmd_wf (s\<lparr>rightAltActive := a\<rparr>) = cmd_wf s"
  "cmd_wf (s\<lparr>keyStates := ks\<rparr>) = cmd_wf s" "cmd_wf (s\<lparr>listeningMode := lm\<rparr>) = cmd_wf s"
  "cmd_wf (s\<lparr>currentSubScanCodeSetTable := t\<rparr>) = cmd_wf s"
  "cmd_wf (s\<lparr>currentSpecialSequence := q\<rparr>) = cmd_wf s"
  "cmd_wf (s\<lparr>specialSequenceByteIndex := i\<rparr>) = cmd_wf s"
  by (simp_all add: cmd_wf_def cmd_bounds_def)

lemma keeps_eq: "kb_sink.keeps status r v \<Longrightarrow> v = w \<Longrightarrow> kb_sink.keeps status r w"
  by simp

lemma SwitchCapsLock_keeps:
  assumes "controller_ready status" "cmd_wf s"
  shows "kb_sink.keeps status (SwitchPS2KCapsLock status s)
    (key_part (case lock_after (capsLockActive s) (capsLockJustActivated s) (keyStates s KEY_CAPS_LOCK) of
       (a, j) \<Rightarrow> s\<lparr>capsLockActive := a, capsLockJustActivated := j\<rparr>))"
proof -
  have up: "\<not> capsLockJustActivated s \<Longrightarrow> s\<lparr>capsLockActive := a, capsLockJustActivated := False\<rparr> = s\<lparr>capsLockActive := a\<rparr>"
    "capsLockActive s \<Longrightarrow> s\<lparr>capsLockActive := True, capsLockJustActivated := j\<rparr> = s\<lparr>capsLockJustActivated := j\<rparr>"
    "capsLockActive s = a \<Longrightarrow> s\<lparr>capsLockActive := a\<rparr> = s" for a j
    by (cases s; simp)+
  show ?thesis
    using assms(2)
    by (auto simp: SwitchPS2KCapsLock_def lock_after_def Let_def up
        intro!: UpdatePS2KeyboardIndicatorLEDs_keeps [OF assms(1), THEN keeps_eq] keeps_Some [OF assms(1)])
qed

lemma SwitchNumLock_keeps:
  assumes "controller_ready status" "cmd_wf s"
  shows "kb_sink.keeps status (SwitchPS2KNumLock status s)
    (key_part (case lock_after (numLockActive s) (numLockJustActivated s) (keyStates s KEY_NUM_LOCK) of
       (a, j) \<Rightarrow> s\<lparr>numLockActive := a, numLockJustActivated := j\<rparr>))"
proof -
  have up: "\<not> numLockJustActivated s \<Longrightarrow> s\<lparr>numLockActive := a, numLockJustActivated := False\<rparr> = s\<lparr>numLockActive := a\<rparr>"
    "numLockActive s \<Longrightarrow> s\<lparr>numLockActive := True, numLockJustActivated := j\<rparr> = s\<lparr>numLockJustActivated := j\<rparr>"
    "numLockActive s = a \<Longrightarrow> s\<lparr>numLockActive := a\<rparr> = s" for a j
    by (cases s; simp)+
  show ?thesis
    using assms(2)
    by (auto simp: SwitchPS2KNumLock_def lock_after_def Let_def up
        intro!: UpdatePS2KeyboardIndicatorLEDs_keeps [OF assms(1), THEN keeps_eq] keeps_Some [OF assms(1)])
qed

lemma SwitchScrollLock_keeps:
  assumes "controller_ready status" "cmd_wf s"
  shows "kb_sink.keeps status (SwitchPS2KScrollLock status s)
    (key_part (case lock_after (scrollLockActive s) (scrollLockJustActivated s) (keyStates s KEY_SCROLL_LOCK) of
       (a, j) \<Rightarrow> s\<lparr>scrollLockActive := a, scrollLockJustActivated := j\<rparr>))"
proof -
  have up: "\<not> scrollLockJustActivated s \<Longrightarrow> s\<lparr>scrollLockActive := a, scrollLockJustActivated := False\<rparr> = s\<lparr>scrollLockActive := a\<rparr>"
    "scrollLockActive s \<Longrightarrow> s\<lparr>scrollLockActive := True, scrollLockJustActivated := j\<rparr> = s\<lparr>scrollLockJustActivated := j\<rparr>"
    "scrollLockActive s = a \<Longrightarrow> s\<lparr>scrollLockActive := a\<rparr> = s" for a j
    by (cases s; simp)+
  show ?thesis
    using assms(2)
    by (auto simp: SwitchPS2KScrollLock_def lock_after_def Let_def up
        intro!: UpdatePS2KeyboardIndicatorLEDs_keeps [OF assms(1), THEN keeps_eq] keeps_Some [OF assms(1)])
qed

lemma modifiers_keep:
  assumes "controller_ready status" "cmd_wf s"
  shows "kb_sink.keeps status (UpdatePS2KeyboardModifierState status k s) (key_part (mods_after k s))"
  unfolding UpdatePS2KeyboardModifierState_def mods_after_def
  using SwitchCapsLock_keeps [OF assms] SwitchNumLock_keeps [OF assms] SwitchScrollLock_keeps [OF assms]
  by (auto simp del: One_nat_def intro!: keeps_Some [OF assms(1), THEN keeps_eq] simp: assms(2))

lemma key_state_cmd_wf [simp]: "cmd_wf (UpdatePS2KeyboardKeyState k a s) = cmd_wf s"
  by (cases a) (auto simp: UpdatePS2KeyboardKeyState_def)

text \<open>The state of the pressed or released key after the update.\<close>

definition next_key_state :: "key_action \<Rightarrow> key_state \<Rightarrow> key_state" where
  "next_key_state a st =
     (case a of ACTION_PRESSED \<Rightarrow> if st = KEY_STATE_RELEASED then KEY_STATE_PRESSED else KEY_STATE_REPEAT
      | ACTION_NONE \<Rightarrow> st | _ \<Rightarrow> KEY_STATE_RELEASED)"

lemma key_state_update:
  "UpdatePS2KeyboardKeyState k a s = s\<lparr>keyStates := (keyStates s)(k := next_key_state a (keyStates s k))\<rparr>"
proof -
  have "s\<lparr>keyStates := keyStates s\<rparr> = s" by simp
  thus ?thesis
    by (cases a; cases "keyStates s k")
      (simp_all add: UpdatePS2KeyboardKeyState_def next_key_state_def fun_upd_idem)
qed

lemma mods_after_decoder:
  "listeningMode (mods_after k s) = listeningMode s"
  "globalScanCodeSetTable (mods_after k s) = globalScanCodeSetTable s"
  "currentSubScanCodeSetTable (mods_after k s) = currentSubScanCodeSetTable s"
  "currentSpecialSequence (mods_after k s) = currentSpecialSequence s"
  "specialSequenceByteIndex (mods_after k s) = specialSequenceByteIndex s"
  "keyStates (mods_after k s) = keyStates s"
  by (simp_all add: mods_after_def case_prod_beta)

lemma key_state_decoder_wf: "decoder_wf (mods_after k (UpdatePS2KeyboardKeyState k a s)) = decoder_wf s"
  by (simp add: decoder_wf_def mods_after_decoder) (simp add: key_state_update)

lemma lock_after_ok:
  "lock_ok active just st \<Longrightarrow>
     (case lock_after active just (next_key_state a st) of (x, y) \<Rightarrow> lock_ok x y (next_key_state a st))"
  by (cases a; cases st; cases just; cases active)
    (simp_all add: lock_ok_def lock_after_def next_key_state_def)

lemma mods_after_wf:
  assumes "mods_wf s" "k \<noteq> 0"
  shows "mods_wf (mods_after k (UpdatePS2KeyboardKeyState k a s))"
proof -
  have locks: "lock_ok (capsLockActive s) (capsLockJustActivated s) (keyStates s KEY_CAPS_LOCK)"
     "lock_ok (numLockActive s) (numLockJustActivated s) (keyStates s KEY_NUM_LOCK)"
     "lock_ok (scrollLockActive s) (scrollLockJustActivated s) (keyStates s KEY_SCROLL_LOCK)"
    using assms(1) by (simp_all add: mods_wf_def)
  show ?thesis
    using assms locks [THEN lock_after_ok, where a = a]
    unfolding key_state_update mods_after_def
    by (simp add: mods_wf_def case_prod_beta)
qed


lemma finish_key_wf:
  assumes "controller_ready status" "kb_wf s" "k \<noteq> 0"
  shows "\<exists>s'. finish_key status (k, a) s = Some s' \<and> kb_wf s'"
proof -
  let ?s = "UpdatePS2KeyboardKeyState k a s"
  have "cmd_wf ?s" using assms(2) by (simp add: kb_wf_def)
  then obtain s1 where s1: "UpdatePS2KeyboardModifierState status k ?s = Some s1" "cmd_wf s1"
      "key_part s1 = key_part (mods_after k ?s)"
    using modifiers_keep [OF assms(1), of ?s k] unfolding kb_sink.keeps_def by blast
  have "mods_wf s1" "decoder_wf s1"
    using s1(3) mods_after_wf [of s k a] key_state_decoder_wf [of k a s] assms(2,3)
      wf_key_part [of s1] wf_key_part [of "mods_after k ?s"] by (auto simp: kb_wf_def)
  hence "kb_wf s1" using s1(2) by (simp add: kb_wf_def)
  thus ?thesis by (simp add: finish_key_def s1(1))
qed

lemma complete_wf:
  "controller_ready status \<Longrightarrow> kb_wf s \<Longrightarrow> \<exists>s'. complete status key s = Some s' \<and> kb_wf s'"
  using finish_key_wf [of status s "fst key" "snd key"] by (simp add: complete_def)

text \<open>The invariant of the decoder, code by code.\<close>

lemma kb_wf_reset:
  "kb_wf s \<Longrightarrow> kb_wf (s\<lparr>listeningMode := LISTENING_MODE_TABLE_CHARACTER_LOOKUP,
     currentSubScanCodeSetTable := globalScanCodeSetTable s\<rparr>)"
  by (simp add: kb_wf_def decoder_wf_def mods_wf_def)

lemma lookup_tables:
  assumes "t \<in> {scanCode2SetGlobal, scanCode2Level1SubTable0, scanCode2Level1SubTable1, scanCode2Level2SubTable}"
  shows "keys_in_range (keysPerByte t)"
    "map_of (byteExtended t) c = Some t' \<Longrightarrow>
       t' \<in> {scanCode2SetGlobal, scanCode2Level1SubTable0, scanCode2Level1SubTable1, scanCode2Level2SubTable}"
    "List.find P (specialSequences t) = Some q \<Longrightarrow>
       q \<in> {scanCode2PauseSequence, scanCode2Level1PrtScnPressedSequence, scanCode2Level2PrtScnReleaseSequence}"
  using assms by (auto simp: scan_tables tables_in_range split: if_splits)

lemma sequence_facts:
  assumes "q \<in> {scanCode2PauseSequence, scanCode2Level1PrtScnPressedSequence, scanCode2Level2PrtScnReleaseSequence}"
  shows "1 < length (seq_bytes q)" "length (seq_bytes q) \<le> 8" "fst (seq_key q) \<noteq> 0" "fst (seq_key q) < 512"
  using assms by (auto simp: scan_sequences)

lemma lookup_code_wf:
  assumes "controller_ready status" "kb_wf s" "listeningMode s = LISTENING_MODE_TABLE_CHARACTER_LOOKUP"
  shows "\<exists>s'. ProcessPS2KeyboardCode status code s = Some s' \<and> kb_wf s'"
proof -
  let ?t = "currentSubScanCodeSetTable s"
  have t: "?t \<in> {scanCode2SetGlobal, scanCode2Level1SubTable0, scanCode2Level1SubTable1, scanCode2Level2SubTable}"
    using assms(2,3) by (simp add: kb_wf_def decoder_wf_def)
  note facts = lookup_tables [OF t]
  show ?thesis
  proof (cases "map_of (byteExtended ?t) code")
    case (Some sub)
    have "kb_wf (s\<lparr>currentSubScanCodeSetTable := sub\<rparr>)"
      using assms(2,3) facts(2) [OF Some] by (simp add: kb_wf_def decoder_wf_def mods_wf_def)
    thus ?thesis using code_extends [OF assms(3) Some] by simp
  next
    case None
    show ?thesis
    proof (cases "List.find (\<lambda>q. seq_bytes q \<noteq> [] \<and> code = seq_bytes q ! 0) (specialSequences ?t)")
      case None_find: None
      show ?thesis
        using code_looked_up [OF assms(3) None None_find facts(1)]
          complete_wf [OF assms(1) kb_wf_reset [OF assms(2)]] by simp
    next
      case (Some q)
      note q = sequence_facts [OF facts(3) [OF Some]]
      have "kb_wf (s\<lparr>listeningMode := LISTENING_MODE_BYTE_SEQUENCE, currentSpecialSequence := Some q,
          specialSequenceByteIndex := 1\<rparr>)"
        using assms(2) facts(3) [OF Some] q(1) by (simp add: kb_wf_def decoder_wf_def mods_wf_def)
      thus ?thesis using code_starts_sequence [OF assms(3) None Some q(1)] by simp
    qed
  qed
qed

lemma sequence_code_wf:
  assumes "controller_ready status" "kb_wf s" "listeningMode s = LISTENING_MODE_BYTE_SEQUENCE"
  shows "\<exists>s'. ProcessPS2KeyboardCode status code s = Some s' \<and> kb_wf s'"
proof -
  let ?i = "specialSequenceByteIndex s"
  obtain q where q: "currentSpecialSequence s = Some q" "unat ?i < length (seq_bytes q)"
      "q \<in> {scanCode2PauseSequence, scanCode2Level1PrtScnPressedSequence, scanCode2Level2PrtScnReleaseSequence}"
    using assms(2,3) by (auto simp: kb_wf_def decoder_wf_def)
  note f = sequence_facts [OF q(3)]
  show ?thesis
  proof (cases "unat ?i + 1 = length (seq_bytes q)")
    case True
    show ?thesis
      using code_ends_sequence [OF assms(3) q(1) True f(4,3), of status code] kb_wf_reset [OF assms(2)]
        finish_key_wf [OF assms(1) kb_wf_reset [OF assms(2)] f(3), of "snd (seq_key q)"]
      by (auto simp: Let_def)
  next
    case False
    hence lt: "unat ?i + 1 < length (seq_bytes q)" using q(2) by simp
    hence "unat (?i + 1) = unat ?i + 1" using f(2) by (simp add: unat_word_ariths)
    hence "kb_wf (s\<lparr>specialSequenceByteIndex := ?i + 1\<rparr>)"
      using assms(2,3) q lt by (auto simp: kb_wf_def decoder_wf_def mods_wf_def)
    thus ?thesis
      using code_in_sequence [OF assms(3) q(1) lt, of status code] kb_wf_reset [OF assms(2)] by auto
  qed
qed

lemma interrupt_wf:
  assumes "controller_ready status" "kb_wf s"
  shows "\<exists>s'. ProcessPS2KeyboardInterrupt status code s = Some s' \<and> kb_wf s'"
proof -
  have cmd: "cmd_wf s" using assms(2) by (simp add: kb_wf_def)
  have by_cmd: "\<exists>s'. r = Some s' \<and> kb_wf s'" if "cmd_step s r x" for r x
    using that assms(2) wf_key_part unfolding cmd_step_def kb_wf_def by metis
  have by_sink: "\<exists>s'. r = Some s' \<and> kb_wf s'" if "kb_sink.keeps status r (key_part s)" for r
    using that assms(2) wf_key_part unfolding kb_sink.keeps_def kb_wf_def by metis
  have "\<exists>s'. ProcessPS2KeyboardCode status code s = Some s' \<and> kb_wf s'"
    using lookup_code_wf [OF assms] sequence_code_wf [OF assms] by (cases "listeningMode s") auto
  thus ?thesis
    using assms(2) by_sink [OF InitialisePS2Keyboard_keeps [OF assms(1) cmd]]
      by_cmd [OF OnPS2KeyboardCommandAcknowledged_step [OF assms(1) cmd]]
      by_cmd [OF ResendPS2KeyboardCommand_step [OF assms(1) cmd]]
    by (auto simp: ProcessPS2KeyboardInterrupt_def)
qed

lemma init_wf:
  assumes "controller_ready status" "cmd_bounds s"
  shows "\<exists>s'. InitialisePS2KeyboardDriver status layout s = Some s' \<and> kb_wf s'"
proof -
  define s0 where "s0 = s\<lparr>commandBufferSize := 0, currentCommandState := COMMAND_STATE_FREE,
      listeningMode := LISTENING_MODE_TABLE_CHARACTER_LOOKUP,
      globalScanCodeSetTable := scanCode2SetGlobal, currentSubScanCodeSetTable := scanCode2SetGlobal,
      currentSpecialSequence := None, specialSequenceByteIndex := 0,
      keyStates := (\<lambda>k. if k < KEY_Max then KEY_STATE_RELEASED else keyStates s k),
      capsLockActive := False, numLockActive := False, scrollLockActive := False,
      capsLockJustActivated := False, numLockJustActivated := False, scrollLockJustActivated := False,
      anyShiftActive := False, anyControlActive := False, leftAltActive := False, rightAltActive := False,
      unicodeTable := layout\<rparr>"
  have "cmd_wf s0" "decoder_wf s0" "mods_wf s0"
    using assms(2) by (simp_all add: s0_def cmd_wf_def cmd_bounds_def decoder_wf_def mods_wf_def lock_ok_def)
  moreover from this obtain s' where "PushPS2KeyboardCommand status 0xFF 0 s0 = Some s'" "cmd_wf s'"
      "key_part s' = key_part s0"
    using PushPS2KeyboardCommand_step [OF assms(1), of s0] unfolding cmd_step_def by blast
  ultimately show ?thesis
    using wf_key_part [of s'] wf_key_part [of s0]
    unfolding InitialisePS2KeyboardDriver_def s0_def [symmetric] kb_wf_def by auto
qed

subsection \<open>Every reachable state\<close>

inductive kb_reachable :: "(nat \<Rightarrow> u8) \<Rightarrow> unicode_entry list option \<Rightarrow> kb_state \<Rightarrow> bool"
  for status layout where
  initialised: "cmd_bounds s \<Longrightarrow> InitialisePS2KeyboardDriver status layout s = Some s' \<Longrightarrow>
    kb_reachable status layout s'"
| interrupted: "kb_reachable status layout s \<Longrightarrow> ProcessPS2KeyboardInterrupt status code s = Some s' \<Longrightarrow>
    kb_reachable status layout s'"

lemma reachable_wf:
  assumes "controller_ready status" "kb_reachable status layout s"
  shows "kb_wf s"
  using assms(2)
proof (induction rule: kb_reachable.induct)
  case (initialised s s')
  thus ?case using init_wf [OF assms(1), of s layout] by simp
next
  case (interrupted s code s')
  thus ?case using interrupt_wf [OF assms(1), of s code] by simp
qed

text \<open>
  C19: (the driver never gets stuck) With a controller that keeps accepting
  bytes, the initialisation returns, and in every state that initialisation and
  interrupts can lead to, every further interrupt returns, whatever byte the
  keyboard sent: no wait is endless, no sequence is read past its end and no null
  pointer is read. In these states the queue's bounds hold and the modifiers are
  those of the keys that are down: shift and control when one of their two keys
  is, alt per key; a lock key that is down has its lock on.
\<close>

theorem keyboard_driver_safe:
  assumes "controller_ready status" and "kb_reachable status layout s"
  shows "(\<exists>s'. ProcessPS2KeyboardInterrupt status code s = Some s' \<and> kb_reachable status layout s') \<and>
    length (pending s) \<le> 16 \<and> unat (numCommandResends s) \<le> 3 \<and>
    currentCommandState s = (if pending s = [] then COMMAND_STATE_FREE else COMMAND_STATE_WAITING_FOR_RESPONSE) \<and>
    anyShiftActive s = (keyStates s KEY_LEFT_SHIFT \<noteq> KEY_STATE_RELEASED \<or>
                        keyStates s KEY_RIGHT_SHIFT \<noteq> KEY_STATE_RELEASED) \<and>
    anyControlActive s = (keyStates s KEY_LEFT_CONTROL \<noteq> KEY_STATE_RELEASED \<or>
                          keyStates s KEY_RIGHT_CONTROL \<noteq> KEY_STATE_RELEASED) \<and>
    leftAltActive s = (keyStates s KEY_LEFT_ALT \<noteq> KEY_STATE_RELEASED) \<and>
    rightAltActive s = (keyStates s KEY_RIGHT_ALT \<noteq> KEY_STATE_RELEASED) \<and>
    (keyStates s KEY_CAPS_LOCK = KEY_STATE_RELEASED \<or> capsLockActive s) \<and>
    (keyStates s KEY_NUM_LOCK = KEY_STATE_RELEASED \<or> numLockActive s) \<and>
    (keyStates s KEY_SCROLL_LOCK = KEY_STATE_RELEASED \<or> scrollLockActive s)"
proof -
  have wf: "kb_wf s" by (rule reachable_wf [OF assms])
  obtain s' where "ProcessPS2KeyboardInterrupt status code s = Some s'"
    using interrupt_wf [OF assms(1) wf] by blast
  moreover from assms(2) this have "kb_reachable status layout s'" by (rule kb_reachable.interrupted)
  moreover have "cmd_bounds s" using wf by (simp add: kb_wf_def cmd_wf_def)
  ultimately show ?thesis
    using wf pending_Nil [of s] length_pending [of s]
    by (auto simp: kb_wf_def cmd_wf_def cmd_bounds_def mods_wf_def lock_ok_def)
qed

lemma keyboard_driver_safe_witness:
  "\<exists>s. InitialisePS2KeyboardDriver (\<lambda>_. 0) (Some GetKeyboardLayout_US) zero_state = Some s \<and>
     (\<exists>s'. ProcessPS2KeyboardInterrupt (\<lambda>_. 0) 0x1C s = Some s') \<and> length (pending s) \<le> 16"
proof -
  have b: "cmd_bounds zero_state" using zero_state_wf by (rule cmd_wf_bounds)
  obtain s where s: "InitialisePS2KeyboardDriver (\<lambda>_. 0) (Some GetKeyboardLayout_US) zero_state = Some s"
    using init_wf [OF always_ready b] by blast
  hence "kb_reachable (\<lambda>_. 0) (Some GetKeyboardLayout_US) s" using b by (intro kb_reachable.initialised)
  from keyboard_driver_safe [OF always_ready this, of "0x1C"] s show ?thesis by blast
qed

end
