(* ===== verification/PS2KeyboardTyping.thy ===== *)
theory PS2KeyboardTyping
  imports PS2KeyboardKeys
begin

text \<open>
  What a user sees of the keyboard driver: the lock keys toggle once per stroke,
  and the letter keys of the US layout give their characters.
\<close>

subsection \<open>The effect of one key\<close>

lemma finish_key_effect:
  assumes "controller_ready status" "kb_wf s" "k \<noteq> 0"
  shows "\<exists>s'. finish_key status (k, a) s = Some s' \<and> kb_wf s' \<and>
     key_part s' = key_part (mods_after k (UpdatePS2KeyboardKeyState k a s))"
proof -
  let ?s = "UpdatePS2KeyboardKeyState k a s"
  have "cmd_wf ?s" using assms(2) by (simp add: kb_wf_def)
  then obtain s1 where s1: "UpdatePS2KeyboardModifierState status k ?s = Some s1"
      "key_part s1 = key_part (mods_after k ?s)"
    using modifiers_keep [OF assms(1), of ?s k] unfolding kb_sink.keeps_def by blast
  have "key_part (ProcessKeyToUnicodeCharacter k x) = key_part x" for x
    by (auto simp: ProcessKeyToUnicodeCharacter_def key_part_def emit_def Let_def split: option.splits)
  moreover have "key_part (emit es x) = key_part x" for es x
    by (simp add: key_part_def emit_def)
  ultimately show ?thesis
    using finish_key_wf [OF assms, of a] s1 by (auto simp: finish_key_def)
qed

lemma key_part_fields:
  assumes "key_part s = key_part t"
  shows "keyStates s = keyStates t" "decoder_idle s = decoder_idle t" "unicodeTable s = unicodeTable t"
    "capsLockActive s = capsLockActive t" "capsLockJustActivated s = capsLockJustActivated t"
    "numLockActive s = numLockActive t" "numLockJustActivated s = numLockJustActivated t"
    "scrollLockActive s = scrollLockActive t" "scrollLockJustActivated s = scrollLockJustActivated t"
proof -
  show "keyStates s = keyStates t" "unicodeTable s = unicodeTable t"
    "capsLockActive s = capsLockActive t" "capsLockJustActivated s = capsLockJustActivated t"
    "numLockActive s = numLockActive t" "numLockJustActivated s = numLockJustActivated t"
    "scrollLockActive s = scrollLockActive t" "scrollLockJustActivated s = scrollLockJustActivated t"
    using assms [THEN arg_cong, of keyStates] assms [THEN arg_cong, of unicodeTable]
      assms [THEN arg_cong, of capsLockActive] assms [THEN arg_cong, of capsLockJustActivated]
      assms [THEN arg_cong, of numLockActive] assms [THEN arg_cong, of numLockJustActivated]
      assms [THEN arg_cong, of scrollLockActive] assms [THEN arg_cong, of scrollLockJustActivated]
    by (simp_all add: key_part_def)
  show "decoder_idle s = decoder_idle t"
    using assms [THEN arg_cong, of decoder_idle] by (simp add: key_part_def decoder_idle_def)
qed

subsection \<open>Lock keys\<close>

text \<open>Whether the lock of a lock key is on, and the whole state of the lock.\<close>

definition lock_on :: "u16 \<Rightarrow> kb_state \<Rightarrow> bool" where
  "lock_on k s = (if k = KEY_CAPS_LOCK then capsLockActive s
     else if k = KEY_NUM_LOCK then numLockActive s else scrollLockActive s)"

definition lock_just :: "u16 \<Rightarrow> kb_state \<Rightarrow> bool" where
  "lock_just k s = (if k = KEY_CAPS_LOCK then capsLockJustActivated s
     else if k = KEY_NUM_LOCK then numLockJustActivated s else scrollLockJustActivated s)"

lemma key_part_locks:
  "lock_on k (key_part s) = lock_on k s" "lock_just k (key_part s) = lock_just k s"
  by (simp_all add: lock_on_def lock_just_def key_part_def)

lemma locks_cong: "key_part s = key_part t \<Longrightarrow> lock_on k s = lock_on k t \<and> lock_just k s = lock_just k t"
  by (metis key_part_locks)

definition lock_keys :: "(u8 \<times> u16) set" where
  "lock_keys = {(0x58, KEY_CAPS_LOCK), (0x77, KEY_NUM_LOCK), (0x7E, KEY_SCROLL_LOCK)}"

lemma lock_keys_codes:
  "(c, k) \<in> lock_keys \<Longrightarrow> table_key scanCode2SingleByteSet c = (k, ACTION_PRESSED) \<and> \<not> is_response c \<and>
     c \<notin> {0xE0, 0xF0, 0xE1} \<and> k \<noteq> 0"
  unfolding lock_keys_def table_key_def table_lengths
  by (auto simp: scanCode2SingleByteSet_def is_response_def)

lemma mods_after_lock:
  assumes "(c, k) \<in> lock_keys"
  shows "lock_on k (mods_after k s) = fst (lock_after (lock_on k s) (lock_just k s) (keyStates s k))"
    "lock_just k (mods_after k s) = snd (lock_after (lock_on k s) (lock_just k s) (keyStates s k))"
  using assms
  by (auto simp: lock_keys_def mods_after_def lock_on_def lock_just_def case_prod_beta)

lemma lock_state_ok:
  assumes "mods_wf s" "(c, k) \<in> lock_keys"
  shows "lock_ok (lock_on k s) (lock_just k s) (keyStates s k)"
proof -
  have "lock_ok (capsLockActive s) (capsLockJustActivated s) (keyStates s KEY_CAPS_LOCK)"
     "lock_ok (numLockActive s) (numLockJustActivated s) (keyStates s KEY_NUM_LOCK)"
     "lock_ok (scrollLockActive s) (scrollLockJustActivated s) (keyStates s KEY_SCROLL_LOCK)"
    using assms(1) by (simp_all add: mods_wf_def)
  thus ?thesis using assms(2) by (auto simp: lock_keys_def lock_on_def lock_just_def)
qed

text \<open>One stroke of a lock key is read off the state of its lock.\<close>

lemma lock_stroke:
  assumes "controller_ready status" "kb_wf s" "decoder_idle s" "(c, k) \<in> lock_keys"
  shows "\<exists>s'. finish_key status (k, a) s = Some s' \<and> kb_wf s' \<and> decoder_idle s' \<and>
     keyStates s' k = next_key_state a (keyStates s k) \<and>
     (lock_on k s', lock_just k s') = lock_after (lock_on k s) (lock_just k s) (next_key_state a (keyStates s k))"
proof -
  obtain s' where s': "finish_key status (k, a) s = Some s'" "kb_wf s'"
      "key_part s' = key_part (mods_after k (UpdatePS2KeyboardKeyState k a s))"
    using finish_key_effect [OF assms(1,2), of k a] lock_keys_codes [OF assms(4)] by blast
  let ?t = "UpdatePS2KeyboardKeyState k a s"
  have t: "lock_on k ?t = lock_on k s" "lock_just k ?t = lock_just k s" "decoder_idle ?t = decoder_idle s"
      "keyStates ?t k = next_key_state a (keyStates s k)"
    by (simp_all add: key_state_update lock_on_def lock_just_def decoder_idle_def)
  have m: "lock_on k (mods_after k ?t) = fst (lock_after (lock_on k ?t) (lock_just k ?t) (keyStates ?t k))"
      "lock_just k (mods_after k ?t) = snd (lock_after (lock_on k ?t) (lock_just k ?t) (keyStates ?t k))"
      "keyStates (mods_after k ?t) = keyStates ?t" "decoder_idle (mods_after k ?t) = decoder_idle ?t"
    by (simp_all add: mods_after_lock [OF assms(4)] mods_after_decoder decoder_idle_def)
  have "lock_on k s' = lock_on k (mods_after k ?t)" "lock_just k s' = lock_just k (mods_after k ?t)"
      "keyStates s' = keyStates ?t" "decoder_idle s'"
    using locks_cong [OF s'(3)] key_part_fields(1,2) [OF s'(3)] m(3,4) t(3) assms(3) by simp_all
  thus ?thesis using s' m t by (intro exI [of _ s']) simp
qed

lemma lock_repeats:
  assumes "controller_ready status" "(c, k) \<in> lock_keys"
  shows "kb_wf s \<Longrightarrow> decoder_idle s \<Longrightarrow> lock_on k s \<Longrightarrow> keyStates s k \<noteq> KEY_STATE_RELEASED \<Longrightarrow>
    \<exists>s'. ProcessInterrupts status (replicate n c) s = Some s' \<and> kb_wf s' \<and> decoder_idle s' \<and>
      lock_on k s' \<and> lock_just k s' = lock_just k s \<and> keyStates s' k \<noteq> KEY_STATE_RELEASED"
proof (induction n arbitrary: s)
  case 0
  thus ?case by simp
next
  case (Suc n)
  note codes = lock_keys_codes [OF assms(2)]
  obtain s1 where s1: "finish_key status (k, ACTION_PRESSED) s = Some s1" "kb_wf s1" "decoder_idle s1"
      "keyStates s1 k = KEY_STATE_REPEAT" "lock_on k s1" "lock_just k s1 = lock_just k s"
    using lock_stroke [OF assms(1) Suc.prems(1,2) assms(2), of ACTION_PRESSED] Suc.prems(3,4)
    by (auto simp: next_key_state_def lock_after_def)
  have "ProcessInterrupts status (replicate (Suc n) c) s = ProcessInterrupts status (replicate n c) s1"
    using single_code [OF Suc.prems(2), of c status] codes s1(1) by (simp add: interrupt_code complete_def)
  thus ?case using Suc.IH [OF s1(2,3,5)] s1(4,6) by simp
qed

text \<open>
  (lock keys) A stroke of caps lock, num lock or scroll lock, that is its
  code once or repeated while the key is held, then its release, switches the
  lock over: on if it was off, off if it was on. The key is up and the decoder
  idle afterwards, so that strokes can follow each other.
\<close>

theorem lock_key_toggles:
  assumes "controller_ready status" and "kb_wf s" and "decoder_idle s" and "(c, k) \<in> lock_keys"
    and "keyStates s k = KEY_STATE_RELEASED" and "0 < n"
  shows "\<exists>s'. ProcessInterrupts status (replicate n c @ [0xF0, c]) s = Some s' \<and>
    lock_on k s' = (\<not> lock_on k s) \<and> keyStates s' k = KEY_STATE_RELEASED \<and> kb_wf s' \<and> decoder_idle s'"
proof -
  note codes = lock_keys_codes [OF assms(4)]
  have up: "\<not> lock_just k s"
    using lock_state_ok [OF _ assms(4), of s] assms(2,5) by (simp add: kb_wf_def lock_ok_def)
  obtain s1 where s1: "finish_key status (k, ACTION_PRESSED) s = Some s1" "kb_wf s1" "decoder_idle s1"
      "keyStates s1 k = KEY_STATE_PRESSED" "lock_on k s1" "lock_just k s1 = (\<not> lock_on k s)"
    using lock_stroke [OF assms(1-4), of ACTION_PRESSED] assms(5) up
    by (auto simp: next_key_state_def lock_after_def split: if_splits)
  obtain s2 where s2: "ProcessInterrupts status (replicate (n - 1) c) s1 = Some s2" "kb_wf s2" "decoder_idle s2"
      "lock_on k s2" "lock_just k s2 = (\<not> lock_on k s)"
    using lock_repeats [OF assms(1,4) s1(2,3,5)] s1(4,6) by auto
  let ?s2 = "partial_events 1 s2"
  have p: "lock_on k ?s2 = lock_on k s2" "lock_just k ?s2 = lock_just k s2" "decoder_idle ?s2 = decoder_idle s2"
    by (simp_all add: lock_on_def lock_just_def decoder_idle_def) (simp_all add: partial_events_def emit_def)
  obtain s3 where s3: "finish_key status (k, ACTION_RELEASED) ?s2 = Some s3" "kb_wf s3" "decoder_idle s3"
      "keyStates s3 k = KEY_STATE_RELEASED" "lock_on k s3 = (\<not> lock_on k s)"
    using lock_stroke [OF assms(1) _ _ assms(4), of ?s2 ACTION_RELEASED] s2 p
    by (auto simp: next_key_state_def lock_after_def split: if_splits)
  have "ProcessInterrupts status (replicate n c) s = Some s2"
    using single_code [OF assms(3), of c status] codes s1(1) s2(1) assms(6)
    by (cases n) (simp_all add: interrupt_code complete_def)
  moreover have "ProcessInterrupts status [0xF0, c] s2 = Some s3"
    using release_code [OF s2(3), of status c] prefix_code [OF s2(3), of "0xF0"] codes s3(1)
    by (simp add: interrupt_code no_responses scan_tables complete_def release_of_def)
  ultimately show ?thesis using s3 by (simp add: ProcessInterrupts_append)
qed


text \<open>The driver after its initialisation, with the reset command acknowledged.\<close>

definition idle_state :: kb_state where
  "idle_state = zero_state\<lparr>globalScanCodeSetTable := scanCode2SetGlobal,
     currentSubScanCodeSetTable := scanCode2SetGlobal, unicodeTable := Some GetKeyboardLayout_US\<rparr>"

lemma idle_state_wf: "kb_wf idle_state" "decoder_idle idle_state" "keyStates idle_state k = KEY_STATE_RELEASED"
  by (simp_all add: idle_state_def zero_state_def kb_wf_def cmd_wf_def cmd_bounds_def decoder_wf_def
      mods_wf_def lock_ok_def decoder_idle_def)

lemma lock_key_toggles_witness:
  "\<exists>s'. ProcessInterrupts (\<lambda>_. 0) [0x58, 0x58, 0xF0, 0x58] idle_state = Some s' \<and> capsLockActive s'"
proof -
  have "(0x58, KEY_CAPS_LOCK) \<in> lock_keys" by (simp add: lock_keys_def)
  then obtain s' where s': "ProcessInterrupts (\<lambda>_. 0) (replicate 2 0x58 @ [0xF0, 0x58]) idle_state = Some s'"
      "lock_on KEY_CAPS_LOCK s' = (\<not> lock_on KEY_CAPS_LOCK idle_state)"
    using lock_key_toggles [OF always_ready idle_state_wf(1,2) _ idle_state_wf(3), of "0x58" KEY_CAPS_LOCK 2]
    by (metis zero_less_numeral)
  have "\<not> capsLockActive idle_state" by (simp add: idle_state_def zero_state_def)
  hence "capsLockActive s'" using s'(2) by (simp add: lock_on_def)
  moreover have "replicate 2 0x58 @ [0xF0, 0x58] = [0x58, 0x58, 0xF0, 0x58 :: u8]"
    by (simp add: numeral_2_eq_2)
  ultimately show ?thesis using s'(1) by metis
qed

subsection \<open>Letters\<close>

text \<open>The layout's entries of the keys A..Z.\<close>

lemma us_letters:
  "take 26 (drop 65 conversionTableUS_0) =
     map (\<lambda>k. entry CONV_CAPS_LOCK_AFFECTED (of_nat (k + 32)) (of_nat k) 0 0) [65..<91]"
  by (simp add: conversionTableUS_0_def)

lemma us_letter:
  assumes "65 \<le> k" "k \<le> (90 :: u16)"
  shows "GetKeyboardLayout_US ! unat k = entry CONV_CAPS_LOCK_AFFECTED (ucast k + 32) (ucast k) 0 0"
proof -
  have n: "65 \<le> unat k" "unat k \<le> 90" using assms by (simp_all add: word_le_nat_alt)
  have len: "length conversionTableUS_0 = 128" by (simp add: conversionTableUS_0_def)
  have "GetKeyboardLayout_US ! unat k = take 26 (drop 65 conversionTableUS_0) ! (unat k - 65)"
    using n len by (simp add: GetKeyboardLayout_US_def conversionTableUS_def nth_append)
  also have "\<dots> = entry CONV_CAPS_LOCK_AFFECTED (of_nat (unat k + 32)) (of_nat (unat k)) 0 0"
    unfolding us_letters using n by (simp del: upt_rec_numeral)
  finally show ?thesis by simp
qed

lemma table_key_code:
  assumes "fst (table_key scanCode2SingleByteSet c) \<noteq> 0"
  shows "\<not> is_response c" "c \<notin> {0xE0, 0xF0, 0xE1}"
proof -
  have "c \<noteq> 0" using assms unfolding table_key_def table_lengths by (auto simp: scanCode2SingleByteSet_def)
  moreover have "unat c < 133" using assms unfolding table_key_def table_lengths by (auto split: if_splits)
  ultimately show "\<not> is_response c" "c \<notin> {0xE0, 0xF0, 0xE1}" by (auto simp: is_response_def)
qed

text \<open>The events of a letter key, for this theory and for the way to the shell's command line.\<close>

lemma letter_events:
  assumes "decoder_idle s" and "unicodeTable s = Some GetKeyboardLayout_US"
    and "table_key scanCode2SingleByteSet c = (k, ACTION_PRESSED)" and "KEY_A \<le> k" and "k \<le> KEY_Z"
  shows "ProcessInterrupts status [c] s =
    Some (emit (ShellKeyEvent k (if keyStates s k = KEY_STATE_RELEASED then KEY_STATE_PRESSED else KEY_STATE_REPEAT) #
                (if anyControlActive s \<or> leftAltActive s \<or> rightAltActive s then []
                 else [ShellCharEvent (if anyShiftActive s \<noteq> capsLockActive s then ucast k else ucast k + 32)]))
      (s\<lparr>keyStates := (keyStates s)
          (k := if keyStates s k = KEY_STATE_RELEASED then KEY_STATE_PRESSED else KEY_STATE_REPEAT)\<rparr>))"
proof -
  let ?st = "if keyStates s k = KEY_STATE_RELEASED then KEY_STATE_PRESSED else KEY_STATE_REPEAT"
  let ?s = "s\<lparr>keyStates := (keyStates s)(k := ?st)\<rparr>"
  have n: "65 \<le> unat k" "unat k \<le> 90" using assms(4,5) by (simp_all add: word_le_nat_alt)
  have k0: "k \<noteq> 0" using n by auto
  have ne: "k \<noteq> m" if "100 < unat m" for m using n that by auto
  have mods: "UpdatePS2KeyboardModifierState status k x = Some x" for x
    unfolding UpdatePS2KeyboardModifierState_def by (simp add: ne)
  have small: "\<not> KEY_Max < k" using n by (simp add: word_less_nat_alt)
  have u: "(ucast k :: u32) \<noteq> 0" "(ucast k + 32 :: u32) \<noteq> 0"
  proof -
    have "unat (ucast k :: u32) = unat k" using n by (simp add: unsigned_ucast_eq take_bit_nat_eq_self)
    moreover from this have "unat (ucast k + 32 :: u32) = unat k + 32"
      using n by (simp add: unat_word_ariths)
    ultimately show "(ucast k :: u32) \<noteq> 0" "(ucast k + 32 :: u32) \<noteq> 0" using n by auto
  qed
  have codes: "\<not> is_response c" "c \<notin> {0xE0, 0xF0, 0xE1}"
    using table_key_code [of c] assms(3) k0 by simp_all
  have "ProcessInterrupts status [c] s = finish_key status (k, ACTION_PRESSED) s"
    using single_code [OF assms(1) codes(2), of status] codes(1) assms(3) k0
    by (simp add: interrupt_code complete_def bind_run_Nil)
  also have "\<dots> = Some (ProcessKeyToUnicodeCharacter k (emit [ShellKeyEvent k ?st] ?s))"
    by (simp add: finish_key_def key_state_update next_key_state_def mods)
  finally have run: "ProcessInterrupts status [c] s =
      Some (ProcessKeyToUnicodeCharacter k (emit [ShellKeyEvent k ?st] ?s))" .
  have e: "GetKeyboardLayout_US ! unat k = entry CONV_CAPS_LOCK_AFFECTED (ucast k + 32) (ucast k) 0 0"
    using assms(4,5) by (rule us_letter)
  define st where "st = ?st"
  have st: "st = KEY_STATE_PRESSED \<or> st = KEY_STATE_REPEAT" by (simp add: st_def)
  have "ProcessKeyToUnicodeCharacter k (emit [ShellKeyEvent k st] (s\<lparr>keyStates := (keyStates s)(k := st)\<rparr>)) =
      emit (ShellKeyEvent k st #
        (if anyControlActive s \<or> leftAltActive s \<or> rightAltActive s then []
         else [ShellCharEvent (if anyShiftActive s \<noteq> capsLockActive s then ucast k else ucast k + 32)]))
       (s\<lparr>keyStates := (keyStates s)(k := st)\<rparr>)"
    using k0 small st by (simp add: ProcessKeyToUnicodeCharacter_def assms(2) e entry_def entry_codepoint_def
        emit_def Let_def u)
  thus ?thesis unfolding run st_def by (rule arg_cong)
qed

text \<open>
  (typing letters) With the US layout, the code of a letter key reports the
  key to the shell, as pressed the first time and as repeated while it is held,
  and then, unless control or an alt key is down, exactly one character: the
  upper case letter when exactly one of shift and caps lock is active, the lower
  case letter otherwise. Nothing else of the driver changes.
\<close>

theorem letter_typed:
  assumes "decoder_idle s" and "unicodeTable s = Some GetKeyboardLayout_US"
    and "table_key scanCode2SingleByteSet c = (k, ACTION_PRESSED)" and "KEY_A \<le> k" and "k \<le> KEY_Z"
  shows "ProcessInterrupts status [c] s =
    Some (emit (ShellKeyEvent k (if keyStates s k = KEY_STATE_RELEASED then KEY_STATE_PRESSED else KEY_STATE_REPEAT) #
                (if anyControlActive s \<or> leftAltActive s \<or> rightAltActive s then []
                 else [ShellCharEvent (if anyShiftActive s \<noteq> capsLockActive s then ucast k else ucast k + 32)]))
      (s\<lparr>keyStates := (keyStates s)
          (k := if keyStates s k = KEY_STATE_RELEASED then KEY_STATE_PRESSED else KEY_STATE_REPEAT)\<rparr>))"
  using assms by (rule letter_events)

lemma letter_typed_witness:
  "ProcessInterrupts (\<lambda>_. 0) [0x1C] (idle_state\<lparr>capsLockActive := True\<rparr>) =
     Some (emit [ShellKeyEvent KEY_A KEY_STATE_PRESSED, ShellCharEvent 65]
       (idle_state\<lparr>capsLockActive := True, keyStates := (keyStates idle_state)(KEY_A := KEY_STATE_PRESSED)\<rparr>))"
proof -
  let ?s = "idle_state\<lparr>capsLockActive := True\<rparr>"
  have "table_key scanCode2SingleByteSet 0x1C = (KEY_A, ACTION_PRESSED)"
    unfolding table_key_def table_lengths by (simp add: scanCode2SingleByteSet_def)
  moreover have "decoder_idle ?s" "unicodeTable ?s = Some GetKeyboardLayout_US"
    by (simp_all add: decoder_idle_def idle_state_def zero_state_def)
  ultimately show ?thesis
    using letter_typed [of ?s "0x1C" KEY_A "\<lambda>_. 0"] by (simp add: idle_state_def zero_state_def)
qed

end
