(* ===== verification/GraphicsDriver.thy ===== *)
theory GraphicsDriver
  imports Machine
begin

text \<open>
  The interface of the graphics drivers
  (src/include/DexprOS/Drivers/Graphics/GraphicsDriver.h): colors, regions, and
  the four functions of a driver. A call through one of the function pointers is
  a value of \<open>gr_call\<close>; the clients of a driver (font, shell, error display)
  produce lists of calls in program order. \<open>int32_t\<close> coordinates are 32-bit words
  that are compared as signed ones. The kernel only ever blits its font image, so
  the call does not name the image.
\<close>

datatype gr_image_format = IMAGE_FORMAT_RGB8 | IMAGE_FORMAT_RGBA8 | IMAGE_FORMAT_Max

record gr_color =
  color_r :: u8
  color_g :: u8
  color_b :: u8

record gr_region =
  reg_x :: u32
  reg_y :: u32
  reg_width :: u32
  reg_height :: u32

datatype gr_call =
    SwapBuffers
  | ClearScreen gr_color
  | ClearScreenRegions "gr_region list" gr_color
  | BlitImageToFramebuffer gr_image_format u32 u32 u32 u32 u32 u32 u32

end
