(* ===== verification/Font.thy ===== *)
theory Font
  imports GraphicsDriver
begin

text \<open>
  The built-in bitmap font (src/include/DexprOS/font256.h and
  src/src/Kernel/BuiltInBitmapFont.c): the metrics of its 95 printable characters
  and the drawing of one glyph.

  \<^item> An entry of \<open>g_DexprOS_FontMetrics\<close> is written
    \<open>char_data imageOffsetX imageOffsetY width height bitmapLeft bitmapTop advanceX\<close>;
    \<open>font_row_n\<close> are the entries of the characters from \<open>n\<close> on.
  \<^item> A read behind the 95 entries is \<open>None\<close>: the guards of the C functions admit
    character 127, which has no entry.
  \<^item> The pixels of the font image are data that only the graphics driver reads;
    they are not modelled.
\<close>

subsection \<open>Metrics\<close>

record font_char =
  imageOffsetX :: u32
  imageOffsetY :: u32
  char_width :: u32
  char_height :: u32
  bitmapLeft :: u32
  bitmapTop :: u32
  char_advanceX :: u32

abbreviation (input) char_data :: "u32 \<Rightarrow> u32 \<Rightarrow> u32 \<Rightarrow> u32 \<Rightarrow> u32 \<Rightarrow> u32 \<Rightarrow> u32 \<Rightarrow> font_char" where
  "char_data x y w h l t a \<equiv> \<lparr>imageOffsetX = x, imageOffsetY = y, char_width = w, char_height = h,
     bitmapLeft = l, bitmapTop = t, char_advanceX = a\<rparr>"

definition font_row_32 :: "font_char list" where
  "font_row_32 =
    [char_data 0 0 0 0 0 0 9,
     char_data 0 0 3 11 3 11 9,
     char_data 3 0 5 4 2 11 9,
     char_data 8 0 7 11 1 11 9,
     char_data 15 0 6 15 1 13 9,
     char_data 21 0 9 11 0 11 9,
     char_data 30 0 7 11 1 11 9,
     char_data 37 0 3 4 3 11 9,
     char_data 40 0 4 15 2 13 9,
     char_data 44 0 4 15 2 13 9,
     char_data 48 0 7 7 1 11 9,
     char_data 55 0 7 6 1 8 9,
     char_data 62 0 3 4 3 2 9,
     char_data 65 0 6 3 1 7 9,
     char_data 71 0 3 2 3 2 9,
     char_data 74 0 8 15 0 13 9]"

definition font_row_48 :: "font_char list" where
  "font_row_48 =
    [char_data 82 0 7 11 1 11 9,
     char_data 89 0 6 11 1 11 9,
     char_data 95 0 6 11 1 11 9,
     char_data 101 0 6 11 1 11 9,
     char_data 107 0 7 11 1 11 9,
     char_data 114 0 6 11 1 11 9,
     char_data 120 0 7 11 1 11 9,
     char_data 127 0 6 11 1 11 9,
     char_data 0 15 7 11 1 11 9,
     char_data 7 15 7 11 1 11 9,
     char_data 14 15 3 8 3 8 9,
     char_data 17 15 3 10 3 8 9,
     char_data 20 15 7 9 1 10 9,
     char_data 27 15 7 6 1 8 9,
     char_data 34 15 7 9 1 10 9,
     char_data 41 15 5 11 2 11 9]"

definition font_row_64 :: "font_char list" where
  "font_row_64 =
    [char_data 46 15 9 11 0 11 9,
     char_data 55 15 8 11 0 11 9,
     char_data 63 15 7 11 1 11 9,
     char_data 70 15 6 11 1 11 9,
     char_data 76 15 7 11 1 11 9,
     char_data 83 15 6 11 1 11 9,
     char_data 89 15 7 11 1 11 9,
     char_data 96 15 7 11 1 11 9,
     char_data 103 15 7 11 1 11 9,
     char_data 110 15 5 11 2 11 9,
     char_data 115 15 5 11 2 11 9,
     char_data 120 15 7 11 1 11 9,
     char_data 127 15 6 11 1 11 9,
     char_data 0 26 8 11 0 11 9,
     char_data 8 26 7 11 1 11 9,
     char_data 15 26 7 11 1 11 9]"

definition font_row_80 :: "font_char list" where
  "font_row_80 =
    [char_data 22 26 7 11 1 11 9,
     char_data 29 26 8 12 1 11 9,
     char_data 37 26 7 11 1 11 9,
     char_data 44 26 7 11 1 11 9,
     char_data 51 26 7 11 1 11 9,
     char_data 58 26 7 11 1 11 9,
     char_data 65 26 8 11 0 11 9,
     char_data 73 26 8 11 0 11 9,
     char_data 81 26 8 11 0 11 9,
     char_data 89 26 8 11 0 11 9,
     char_data 97 26 7 11 1 11 9,
     char_data 104 26 4 17 2 14 9,
     char_data 108 26 8 15 0 13 9,
     char_data 116 26 4 17 2 14 9,
     char_data 120 26 7 6 1 13 9,
     char_data 127 26 9 2 0 (- 1) 9]"

definition font_row_96 :: "font_char list" where
  "font_row_96 =
    [char_data 0 43 4 2 2 11 9,
     char_data 4 43 7 8 1 8 9,
     char_data 11 43 7 11 1 11 9,
     char_data 18 43 6 8 1 8 9,
     char_data 24 43 7 11 1 11 9,
     char_data 31 43 7 8 1 8 9,
     char_data 38 43 7 11 1 11 9,
     char_data 45 43 7 11 1 8 9,
     char_data 52 43 7 11 1 11 9,
     char_data 59 43 7 11 1 11 9,
     char_data 66 43 5 14 2 11 9,
     char_data 71 43 7 11 1 11 9,
     char_data 78 43 7 11 1 11 9,
     char_data 85 43 8 8 0 8 9,
     char_data 93 43 7 8 1 8 9,
     char_data 100 43 7 8 1 8 9]"

definition font_row_112 :: "font_char list" where
  "font_row_112 =
    [char_data 107 43 7 11 1 8 9,
     char_data 114 43 7 11 1 8 9,
     char_data 121 43 6 8 1 8 9,
     char_data 127 43 6 8 1 8 9,
     char_data 0 57 6 10 1 10 9,
     char_data 6 57 7 8 1 8 9,
     char_data 13 57 7 8 1 8 9,
     char_data 20 57 9 8 0 8 9,
     char_data 29 57 7 8 1 8 9,
     char_data 36 57 7 11 1 8 9,
     char_data 43 57 6 8 1 8 9,
     char_data 49 57 5 17 2 14 9,
     char_data 54 57 2 15 3 13 9,
     char_data 56 57 5 17 2 14 9,
     char_data 61 57 7 4 1 7 9]"

definition g_DexprOS_FontMetrics :: "font_char list" where
  "g_DexprOS_FontMetrics =
    font_row_32 @ font_row_48 @ font_row_64 @ font_row_80 @
    font_row_96 @ font_row_112"

definition font_lineHeight :: u32 where
  "font_lineHeight = 18"

subsection \<open>The font's functions\<close>

record glyph_metrics =
  offsetX :: u32
  offsetY :: u32
  glyph_width :: u32
  glyph_height :: u32
  glyph_advanceX :: u32

definition characters :: "u32 \<Rightarrow> font_char option" where
  "characters i = (if unat i < length g_DexprOS_FontMetrics
     then Some (g_DexprOS_FontMetrics ! unat i) else None)"

definition BuiltInBitmapFontDrawGlyph :: "u32 \<Rightarrow> u32 \<Rightarrow> u32 \<Rightarrow> gr_call list option" where
  "BuiltInBitmapFontDrawGlyph character coordX coordY =
     (if character = 0 then Some []
      else if character = 10 then Some []
      else if character < 32 then Some []
      else if character > 127 then Some []
      else
        (case characters (character - 32) of
           None \<Rightarrow> None
         | Some charData \<Rightarrow>
             let startX = coordX + bitmapLeft charData;
                 startY = coordY - bitmapTop charData + font_lineHeight
             in Some [BlitImageToFramebuffer IMAGE_FORMAT_RGBA8
                  (imageOffsetX charData) (imageOffsetY charData) 1024
                  startX startY (char_width charData) (char_height charData)]))"

definition BuiltInBitmapFontGetGlyphAdvanceX :: "u32 \<Rightarrow> u32 option" where
  "BuiltInBitmapFontGetGlyphAdvanceX character =
     (if character = 0 \<or> character = 10 then Some 0
      else if character < 32 then Some 0
      else if character > 127 then Some 0
      else map_option char_advanceX (characters (character - 32)))"

definition BuiltInBitmapFontGetGlyphMetrics :: "u32 \<Rightarrow> glyph_metrics option" where
  "BuiltInBitmapFontGetGlyphMetrics character =
     (let dummyMetrics = \<lparr>offsetX = 0, offsetY = 0, glyph_width = 0, glyph_height = 0, glyph_advanceX = 0\<rparr>
      in if character = 0 \<or> character = 10 then Some dummyMetrics
         else if character < 32 then Some dummyMetrics
         else if character > 127 then Some dummyMetrics
         else map_option (\<lambda>charData.
             \<lparr>offsetX = bitmapLeft charData, offsetY = font_lineHeight - bitmapTop charData,
              glyph_width = char_width charData, glyph_height = char_height charData,
              glyph_advanceX = char_advanceX charData\<rparr>)
           (characters (character - 32)))"

definition BuiltInBitmapFontGetLineHeight :: u32 where
  "BuiltInBitmapFontGetLineHeight = font_lineHeight"

subsection \<open>Facts on the metrics\<close>

lemmas font_rows = font_row_32_def font_row_48_def font_row_64_def font_row_80_def
  font_row_96_def font_row_112_def

lemma length_FontMetrics [simp]: "length g_DexprOS_FontMetrics = 95"
  by (simp add: g_DexprOS_FontMetrics_def font_rows)

text \<open>The font is monospaced, and no glyph is taller than a line or wider than its advance.\<close>

lemma FontMetrics_monospace: "\<forall>c \<in> set g_DexprOS_FontMetrics. char_advanceX c = 9"
  by (simp add: g_DexprOS_FontMetrics_def font_rows)

definition printable :: "u32 \<Rightarrow> bool" where
  "printable c = (32 \<le> c \<and> c < 127)"

definition advance_of :: "u32 \<Rightarrow> u32" where
  "advance_of c = (if printable c then 9 else 0)"

lemma printable_index:
  assumes "printable c"
  shows "unat (c - 32) < 95"
proof -
  have "unat (c - 32) = unat c - 32" "unat c < 127"
    using assms by (simp_all add: printable_def unat_sub word_le_nat_alt word_less_nat_alt)
  thus ?thesis by simp
qed

lemma characters_printable:
  assumes "printable c"
  obtains d where "characters (c - 32) = Some d" "d \<in> set g_DexprOS_FontMetrics"
  using printable_index [OF assms] by (simp add: characters_def)

lemma not_printable_cases:
  assumes "\<not> printable c" "c \<noteq> 127"
  shows "c < 32 \<or> c > 127"
  using assms by (auto simp: printable_def not_le not_less)

lemma printable_guards:
  assumes "printable c"
  shows "c \<noteq> 0" "c \<noteq> 10" "\<not> c < 32" "\<not> c > 127"
  using assms by (auto simp: printable_def not_less)

lemma GetGlyphAdvanceX_eq:
  assumes "c \<noteq> 127"
  shows "BuiltInBitmapFontGetGlyphAdvanceX c = Some (advance_of c)"
proof (cases "printable c")
  case True
  obtain d where d: "characters (c - 32) = Some d" "d \<in> set g_DexprOS_FontMetrics"
    using characters_printable [OF True] .
  hence "char_advanceX d = 9" using FontMetrics_monospace by blast
  thus ?thesis using True d printable_guards [OF True]
    by (simp add: BuiltInBitmapFontGetGlyphAdvanceX_def advance_of_def)
next
  case False
  thus ?thesis using not_printable_cases [OF False assms]
    by (auto simp: BuiltInBitmapFontGetGlyphAdvanceX_def advance_of_def)
qed

text \<open>The rectangle that a glyph covers when it is drawn with the cursor at a position.\<close>

fun blit_region :: "gr_call \<Rightarrow> gr_region list" where
  "blit_region (BlitImageToFramebuffer _ _ _ _ x y w h) = [\<lparr>reg_x = x, reg_y = y, reg_width = w, reg_height = h\<rparr>]"
| "blit_region _ = []"

definition glyph_region :: "glyph_metrics \<Rightarrow> u32 \<Rightarrow> u32 \<Rightarrow> gr_region" where
  "glyph_region m x y = \<lparr>reg_x = x + offsetX m, reg_y = y + offsetY m,
     reg_width = glyph_width m, reg_height = glyph_height m\<rparr>"

text \<open>Drawing a glyph covers exactly the rectangle that its metrics give.\<close>

lemma DrawGlyph_region:
  assumes "c \<noteq> 127"
  obtains calls m where
    "BuiltInBitmapFontDrawGlyph c x y = Some calls"
    "BuiltInBitmapFontGetGlyphMetrics c = Some m" "glyph_advanceX m = advance_of c"
    "concat (map blit_region calls) = (if printable c then [glyph_region m x y] else [])"
proof (cases "printable c")
  case True
  obtain d where d: "characters (c - 32) = Some d" "d \<in> set g_DexprOS_FontMetrics"
    using characters_printable [OF True] .
  hence "char_advanceX d = 9" using FontMetrics_monospace by blast
  thus ?thesis using True d printable_guards [OF True]
    by (intro that) (auto simp: BuiltInBitmapFontDrawGlyph_def BuiltInBitmapFontGetGlyphMetrics_def
        advance_of_def glyph_region_def)
next
  case False
  thus ?thesis using not_printable_cases [OF False assms]
    by (intro that [of "[]" "\<lparr>offsetX = 0, offsetY = 0, glyph_width = 0, glyph_height = 0, glyph_advanceX = 0\<rparr>"])
      (auto simp: BuiltInBitmapFontDrawGlyph_def BuiltInBitmapFontGetGlyphMetrics_def
        advance_of_def Let_def)
qed

end
