(* ===== verification/Shell.thy ===== *)
theory Shell
  imports Font KeyTables "HOL-Library.Monad_Syntax"
begin

text \<open>
  The shell (src/src/Shell.c, src/include/DexprOS/Shell.h): the text in a ring
  buffer, its layout on the screen, the command line and the built-in commands.

  \<^item> The record \<open>shell\<close> is \<open>DexprOS_Shell\<close> with the two pointers replaced by what
    goes through them: \<open>sh_trace\<close> lists the calls of the graphics driver and of
    the firmware's \<open>ResetSystem\<close>, in program order.
  \<^item> The arrays are functions of their index. The ring buffer's index type is
    \<open>unsigned\<close>; that every index stays below the 65536 elements is the invariant
    \<open>shell_wf\<close>. The command line is a list of its 256 elements.
  \<^item> \<open>int\<close> cursors are 32-bit words, compared as signed numbers (\<open><s\<close>).
  \<^item> The loops over the ring end only when they meet its end index; they are
    partial functions, and \<open>None\<close> stands for a loop that does not end, and for a
    read behind the font's metrics.
  \<^item> A \<open>const char*\<close> is a \<open>string\<close>, which ends at its first null character or at
    the end of the list, and a null pointer is \<open>None\<close>.
\<close>

subsection \<open>State\<close>

datatype reset_type = EfiResetShutdown | EfiResetWarm

datatype shell_event = GrCall gr_call | ResetSystem reset_type

record shell =
  onScreenCharacters :: "nat \<Rightarrow> u32"
  displayCharacters :: "u32 \<Rightarrow> u32"
  displayRingBufferStart :: u32
  displayRingBufferEnd :: u32
  firstDisplayChar :: u32
  outputCursorX :: u32
  outputCursorY :: u32
  commandCharacters :: "u32 list"
  numCommandCharacters :: u32
  commandPromptEnabled :: bool
  currentLine :: u32
  consoleWidth :: u32
  consoleHeight :: u32
  numLines :: u32
  promptText :: string
  backgroundColor :: gr_color
  sh_trace :: "shell_event list"

abbreviation (input) NUM_MAX_DISPLAY_CHARACTERS :: nat where
  "NUM_MAX_DISPLAY_CHARACTERS \<equiv> 65536"

abbreviation (input) NUM_MAX_COMMAND_CHARACTERS :: nat where
  "NUM_MAX_COMMAND_CHARACTERS \<equiv> 256"

definition ring_next :: "u32 \<Rightarrow> u32" where
  "ring_next i = (i + 1) mod 65536"

definition gr_calls :: "gr_call list \<Rightarrow> shell \<Rightarrow> shell" where
  "gr_calls cs s = s\<lparr>sh_trace := sh_trace s @ map GrCall cs\<rparr>"

definition CreateShell :: "u32 \<Rightarrow> u32 \<Rightarrow> shell" where
  "CreateShell width height =
     (let lines = height div BuiltInBitmapFontGetLineHeight;
          color = \<lparr>color_r = 0, color_g = 128, color_b = 128\<rparr>
      in gr_calls [ClearScreen color, SwapBuffers]
        \<lparr>onScreenCharacters = (\<lambda>_. 0), displayCharacters = (\<lambda>_. 0),
         displayRingBufferStart = 0, displayRingBufferEnd = 0, firstDisplayChar = 0,
         outputCursorX = 0, outputCursorY = 0,
         commandCharacters = replicate NUM_MAX_COMMAND_CHARACTERS 0,
         numCommandCharacters = 0, commandPromptEnabled = False, currentLine = 0,
         consoleWidth = width, consoleHeight = height,
         numLines = (if lines > 1 then lines - 1 else 1),
         promptText = ''DexprOS # '', backgroundColor = color, sh_trace = []\<rparr>)"

subsection \<open>Text into the ring\<close>

text \<open>The body that the three functions share, with its local copies of the two indices.\<close>

definition put_step :: "u32 \<Rightarrow> shell \<times> u32 \<times> u32 \<Rightarrow> shell \<times> u32 \<times> u32" where
  "put_step character = (\<lambda>(s, bufferStart, currentChar).
     let s = s\<lparr>displayCharacters := (displayCharacters s)(currentChar := character)\<rparr>;
         currentChar = ring_next currentChar;
         bufferStart = (if currentChar = bufferStart then ring_next bufferStart else bufferStart);
         s = (if currentChar = firstDisplayChar s
              then s\<lparr>firstDisplayChar := ring_next (firstDisplayChar s)\<rparr> else s)
     in (s, bufferStart, currentChar))"

definition put_end :: "shell \<times> u32 \<times> u32 \<Rightarrow> shell" where
  "put_end = (\<lambda>(s, bufferStart, currentChar).
     s\<lparr>displayRingBufferStart := bufferStart, displayRingBufferEnd := currentChar\<rparr>)"

definition ShellPutChar :: "shell \<Rightarrow> u32 \<Rightarrow> shell" where
  "ShellPutChar s character =
     (if character = 0 then s
      else put_end (put_step character (s, displayRingBufferStart s, displayRingBufferEnd s)))"

text \<open>A \<open>char\<close> is signed.\<close>

definition char32 :: "char \<Rightarrow> u32" where
  "char32 c = scast (of_char c :: u8)"

fun puts_loop :: "string \<Rightarrow> shell \<times> u32 \<times> u32 \<Rightarrow> shell \<times> u32 \<times> u32" where
  "puts_loop [] st = st"
| "puts_loop (c # cs) st = (if c = CHR 0x00 then st else puts_loop cs (put_step (char32 c) st))"

definition ShellPuts :: "shell \<Rightarrow> string option \<Rightarrow> shell" where
  "ShellPuts s msg = (case msg of None \<Rightarrow> s
     | Some m \<Rightarrow> put_end (puts_loop m (s, displayRingBufferStart s, displayRingBufferEnd s)))"

fun puts32_loop :: "u32 list \<Rightarrow> shell \<times> u32 \<times> u32 \<Rightarrow> shell \<times> u32 \<times> u32" where
  "puts32_loop [] st = st"
| "puts32_loop (c # cs) st = (if c = 0 then st else puts32_loop cs (put_step c st))"

definition ShellPutsUTF32 :: "shell \<Rightarrow> u32 list option \<Rightarrow> shell" where
  "ShellPutsUTF32 s msg = (case msg of None \<Rightarrow> s
     | Some m \<Rightarrow> put_end (puts32_loop m (s, displayRingBufferStart s, displayRingBufferEnd s)))"

definition ShellDeleteLastDisplayChar :: "shell \<Rightarrow> shell" where
  "ShellDeleteLastDisplayChar s =
     (if displayRingBufferStart s = displayRingBufferEnd s then s
      else if displayRingBufferEnd s = 0 then s\<lparr>displayRingBufferEnd := 65536 - 1\<rparr>
      else s\<lparr>displayRingBufferEnd := displayRingBufferEnd s - 1\<rparr>)"

subsection \<open>Text on the screen\<close>

function reset_loop :: "nat \<Rightarrow> u32 \<Rightarrow> u32 \<Rightarrow> shell \<Rightarrow> shell option" where
  "reset_loop i cursorX cursorY s =
     (if i \<ge> NUM_MAX_DISPLAY_CHARACTERS then Some s
      else
        let character = onScreenCharacters s i in
        if character = 0 then Some s
        else if character = 10
        then reset_loop (i + 1) 0 (cursorY + BuiltInBitmapFontGetLineHeight) s
        else do {
          metrics \<leftarrow> BuiltInBitmapFontGetGlyphMetrics character;
          let wraps = consoleWidth s <s cursorX + glyph_advanceX metrics;
          let cursorX = (if wraps then 0 else cursorX);
          let cursorY = (if wraps then cursorY + BuiltInBitmapFontGetLineHeight else cursorY);
          let clearRegion = \<lparr>reg_x = cursorX + offsetX metrics, reg_y = cursorY + offsetY metrics,
            reg_width = glyph_width metrics, reg_height = glyph_height metrics\<rparr>;
          reset_loop (i + 1) (cursorX + glyph_advanceX metrics) cursorY
            (gr_calls [ClearScreenRegions [clearRegion] (backgroundColor s)] s)
        })"
  by pat_completeness auto

termination
  by (relation "measure (\<lambda>(i, _). NUM_MAX_DISPLAY_CHARACTERS - i)") auto

declare reset_loop.simps [simp del]

definition ShellResetText :: "shell \<Rightarrow> shell option" where
  "ShellResetText s = do {
     s \<leftarrow> reset_loop 0 0 0 s;
     Some (s\<lparr>onScreenCharacters := (\<lambda>i. if i < NUM_MAX_DISPLAY_CHARACTERS then 0
       else onScreenCharacters s i)\<rparr>)
   }"

partial_function (option) overflow_loop :: "shell \<Rightarrow> u32 \<Rightarrow> u32 \<Rightarrow> u32 \<Rightarrow> u32 option" where
  "overflow_loop s i lines cursorX =
     (if i = displayRingBufferEnd s then Some lines
      else do {
        let character = displayCharacters s i;
        advanceX \<leftarrow> BuiltInBitmapFontGetGlyphAdvanceX character;
        if character = 10 then overflow_loop s (ring_next i) (lines + 1) 0
        else if consoleWidth s <s cursorX + advanceX
        then overflow_loop s (ring_next i) (lines + 1) advanceX
        else overflow_loop s (ring_next i) lines (cursorX + advanceX)
      })"

definition ShellGetNumOverflowLines :: "shell \<Rightarrow> u32 option" where
  "ShellGetNumOverflowLines s = do {
     lines \<leftarrow> overflow_loop s (firstDisplayChar s) 0 0;
     Some (if lines \<ge> numLines s then lines - numLines s + 1 else 0)
   }"

partial_function (option) scroll_loop ::
  "shell \<Rightarrow> u32 \<Rightarrow> u32 \<Rightarrow> u32 \<Rightarrow> u32 \<Rightarrow> u32 option" where
  "scroll_loop s lines i numPlacedLines cursorX =
     (if i = displayRingBufferEnd s then Some i
      else if numPlacedLines = lines then Some i
      else
        let character = displayCharacters s i in
        if character = 10 then scroll_loop s lines (ring_next i) (numPlacedLines + 1) 0
        else do {
          advanceX \<leftarrow> BuiltInBitmapFontGetGlyphAdvanceX character;
          if consoleWidth s <s cursorX + advanceX
          then scroll_loop s lines (ring_next i) (numPlacedLines + 1) advanceX
          else scroll_loop s lines (ring_next i) numPlacedLines (cursorX + advanceX)
        })"

definition ShellScrollDisplay :: "shell \<Rightarrow> u32 \<Rightarrow> shell option" where
  "ShellScrollDisplay s lines = do {
     i \<leftarrow> scroll_loop s lines (firstDisplayChar s) 0 0;
     Some (s\<lparr>firstDisplayChar := i\<rparr>)
   }"

definition record_on_screen :: "nat \<Rightarrow> u32 \<Rightarrow> shell \<Rightarrow> nat \<times> shell" where
  "record_on_screen onScreenIndex character s =
     (if onScreenIndex < NUM_MAX_DISPLAY_CHARACTERS
      then (onScreenIndex + 1,
            s\<lparr>onScreenCharacters := (onScreenCharacters s)(onScreenIndex := character)\<rparr>)
      else (onScreenIndex, s))"

definition output_line_break :: "shell \<Rightarrow> shell" where
  "output_line_break s = s\<lparr>outputCursorX := 0,
     outputCursorY := outputCursorY s + BuiltInBitmapFontGetLineHeight,
     currentLine := currentLine s + 1\<rparr>"

partial_function (option) set_text_loop ::
  "u32 \<Rightarrow> u32 \<Rightarrow> nat \<Rightarrow> shell \<Rightarrow> shell option" where
  "set_text_loop endChar i onScreenIndex s =
     (if i = endChar then Some s
      else if currentLine s = numLines s then Some s
      else do {
        let character = displayCharacters s i;
        let placed = record_on_screen onScreenIndex character s;
        if character = 10
        then set_text_loop endChar (ring_next i) (fst placed) (output_line_break (snd placed))
        else do {
          advanceX \<leftarrow> BuiltInBitmapFontGetGlyphAdvanceX character;
          let s = (if consoleWidth s <s outputCursorX s + advanceX
                   then output_line_break (snd placed) else snd placed);
          calls \<leftarrow> BuiltInBitmapFontDrawGlyph character (outputCursorX s) (outputCursorY s);
          set_text_loop endChar (ring_next i) (fst placed)
            ((gr_calls calls s)\<lparr>outputCursorX := outputCursorX s + advanceX\<rparr>)
        }
      })"

definition ShellSetText :: "shell \<Rightarrow> u32 \<Rightarrow> u32 \<Rightarrow> shell option" where
  "ShellSetText s firstChar endChar =
     set_text_loop endChar firstChar 0 (s\<lparr>outputCursorX := 0, outputCursorY := 0, currentLine := 0\<rparr>)"

definition ShellFlushStdOut :: "shell \<Rightarrow> shell option" where
  "ShellFlushStdOut s = do {
     numLinesToScroll \<leftarrow> ShellGetNumOverflowLines s;
     s \<leftarrow> ShellResetText s;
     s \<leftarrow> ShellScrollDisplay s numLinesToScroll;
     s \<leftarrow> ShellSetText s (firstDisplayChar s) (displayRingBufferEnd s);
     Some (gr_calls [SwapBuffers] s)
   }"

definition ShellActivatePrompt :: "shell \<Rightarrow> shell option" where
  "ShellActivatePrompt s =
     (let s = s\<lparr>commandPromptEnabled := True\<rparr>
      in ShellFlushStdOut (ShellPuts s (Some (promptText s))))"

subsection \<open>The built-in commands\<close>

definition ShellEcho :: "shell \<Rightarrow> u32 list \<Rightarrow> shell option" where
  "ShellEcho s arg = Some (ShellPutChar (fold (\<lambda>c s. ShellPutChar s c) arg s) 10)"

definition ShellClear :: "shell \<Rightarrow> u32 list \<Rightarrow> shell option" where
  "ShellClear s arg = do {
     s \<leftarrow> ShellResetText (s\<lparr>commandPromptEnabled := False\<rparr>);
     Some (s\<lparr>displayRingBufferStart := 0, displayRingBufferEnd := 0, firstDisplayChar := 0,
       outputCursorX := 0, outputCursorY := 0, currentLine := 0, commandPromptEnabled := True\<rparr>)
   }"

abbreviation (input) newline :: string where "newline \<equiv> [CHR 0x0A]"

definition help_text :: string where
  "help_text = ''User help menu:'' @ newline @ newline @
     ''After typing a command and its space-separated arguments (if any), hit Enter to execute.'' @ newline @
     ''Lines starting with '' @ [CHR 0x27] @ ''#'' @ [CHR 0x27] @
     '' are comments and are not interpreted as commands.'' @ newline @
     newline @
     ''List of all available commands:'' @ newline @
     ''help - prints this message'' @ newline @
     ''version - prints the operating system version'' @ newline @
     ''echo [MESSAGE] - prints a given message on the screen'' @ newline @
     ''clear - clears the screen'' @ newline @
     ''shutdown - powers off the computer'' @ newline @
     ''reboot - reboots the computer'' @ newline"

definition ShellHelp :: "shell \<Rightarrow> u32 list \<Rightarrow> shell option" where
  "ShellHelp s arg = Some (ShellPuts s (Some help_text))"

definition ShellVersion :: "shell \<Rightarrow> u32 list \<Rightarrow> shell option" where
  "ShellVersion s arg = Some (ShellPuts s (Some (''DexprOS version: pre-release 0.1.2'' @ newline)))"

text \<open>\<open>ResetSystem\<close> does not return on a platform that implements it.\<close>

definition ShellShutdown :: "shell \<Rightarrow> u32 list \<Rightarrow> shell option" where
  "ShellShutdown s arg = Some (s\<lparr>sh_trace := sh_trace s @ [ResetSystem EfiResetShutdown]\<rparr>)"

definition ShellReboot :: "shell \<Rightarrow> u32 list \<Rightarrow> shell option" where
  "ShellReboot s arg = Some (s\<lparr>sh_trace := sh_trace s @ [ResetSystem EfiResetWarm]\<rparr>)"

definition ShellBuiltInCommands :: "(string \<times> (shell \<Rightarrow> u32 list \<Rightarrow> shell option)) list" where
  "ShellBuiltInCommands =
     [(''echo'', ShellEcho), (''clear'', ShellClear), (''help'', ShellHelp),
      (''version'', ShellVersion), (''shutdown'', ShellShutdown), (''reboot'', ShellReboot)]"

subsection \<open>The command line\<close>

fun ShellCheckSingleCommand :: "u32 list \<Rightarrow> string \<Rightarrow> bool" where
  "ShellCheckSingleCommand (c # command) [] = (c = char32 (CHR '' ''))"
| "ShellCheckSingleCommand (c # command) (t # commandText) =
     (if char32 t \<noteq> c then False else ShellCheckSingleCommand command commandText)"
| "ShellCheckSingleCommand [] (t # commandText) = False"
| "ShellCheckSingleCommand [] [] = True"

fun skip_word :: "u32 list \<Rightarrow> u32 list" where
  "skip_word [] = []"
| "skip_word (c # cs) = (if c \<noteq> char32 (CHR '' '') then skip_word cs else c # cs)"

fun skip_spaces :: "u32 list \<Rightarrow> u32 list" where
  "skip_spaces [] = []"
| "skip_spaces (c # cs) = (if c = char32 (CHR '' '') then skip_spaces cs else c # cs)"

definition ShellExtractArguments :: "u32 list \<Rightarrow> u32 list" where
  "ShellExtractArguments command = skip_spaces (skip_word command)"

fun run_command ::
  "(string \<times> (shell \<Rightarrow> u32 list \<Rightarrow> shell option)) list \<Rightarrow> shell \<Rightarrow> u32 list \<Rightarrow> shell option" where
  "run_command [] s command =
     Some (ShellPuts s (Some (''Shell error: unknown command.'' @ newline)))"
| "run_command ((commandText, commandFunc) # cmds) s command =
     (if ShellCheckSingleCommand command commandText
      then commandFunc s (ShellExtractArguments command)
      else run_command cmds s command)"

definition ShellInterpretCommand :: "shell \<Rightarrow> u32 list \<Rightarrow> shell option" where
  "ShellInterpretCommand s command =
     (case skip_spaces command of
        [] \<Rightarrow> Some s
      | c # cs \<Rightarrow>
          if c = char32 (CHR ''#'') then Some s
          else run_command ShellBuiltInCommands s (c # cs))"

definition ShellKeyboardCharacterEvent :: "shell \<Rightarrow> u32 \<Rightarrow> shell option" where
  "ShellKeyboardCharacterEvent s codepoint =
     (if \<not> commandPromptEnabled s then Some s
      else if codepoint = 10 then do {
        let s = ShellPutChar s 10;
        s \<leftarrow> ShellInterpretCommand s (take (unat (numCommandCharacters s)) (commandCharacters s));
        let s = s\<lparr>commandCharacters := replicate NUM_MAX_COMMAND_CHARACTERS 0,
          numCommandCharacters := 0\<rparr>;
        ShellFlushStdOut (ShellPuts s (Some (promptText s)))
      }
      else if numCommandCharacters s = 256 then Some s
      else
        let s = s\<lparr>commandCharacters := (commandCharacters s)[unat (numCommandCharacters s) := codepoint],
              numCommandCharacters := numCommandCharacters s + 1\<rparr>
        in ShellFlushStdOut (ShellPutChar s codepoint))"

definition ShellKeyboardKeyEvent :: "shell \<Rightarrow> u16 \<Rightarrow> key_state \<Rightarrow> shell option" where
  "ShellKeyboardKeyEvent s keyID state =
     (if \<not> commandPromptEnabled s then Some s
      else if keyID = KEY_BACKSPACE \<and> (state = KEY_STATE_PRESSED \<or> state = KEY_STATE_REPEAT) then
        if numCommandCharacters s = 0 then Some s
        else
          let n = numCommandCharacters s - 1;
              s = s\<lparr>numCommandCharacters := n,
                commandCharacters := (commandCharacters s)[unat n := 0]\<rparr>
          in ShellFlushStdOut (ShellDeleteLastDisplayChar s)
      else Some s)"

end
