(* ===== verification/ShellRing.thy ===== *)
theory ShellRing
  imports Shell
begin

text \<open>
  The shell's ring buffer as a bounded text: \<open>log_text\<close> is everything that the
  ring still holds, \<open>shown_text\<close> the part from the first displayed character on.
  Every output function appends to both and drops the oldest characters beyond
  65535 (locale \<open>bounded_text\<close>, interpreted for both), and deletion removes the
  last one.
\<close>

subsection \<open>Positions in the ring\<close>

definition ring_dist :: "u32 \<Rightarrow> u32 \<Rightarrow> nat" where
  "ring_dist i j = (unat j + 65536 - unat i) mod 65536"

definition ring_at :: "u32 \<Rightarrow> nat \<Rightarrow> u32" where
  "ring_at i k = of_nat ((unat i + k) mod 65536)"

definition text_between :: "(u32 \<Rightarrow> u32) \<Rightarrow> u32 \<Rightarrow> u32 \<Rightarrow> u32 list" where
  "text_between f i j = map (\<lambda>k. f (ring_at i k)) [0..<ring_dist i j]"

lemma unat_u32_of_nat: "n < 4294967296 \<Longrightarrow> unat (of_nat n :: u32) = n"
  by (simp add: unat_of_nat take_bit_nat_eq_self)

lemma unat_ring_next:
  assumes "unat i < 65536"
  shows "unat (ring_next i) = (unat i + 1) mod 65536"
proof -
  have "unat (i + 1) = unat i + 1"
    using assms by (simp add: unat_word_ariths)
  thus ?thesis by (simp add: ring_next_def unat_mod)
qed

lemma ring_next_less [simp]: "unat (ring_next i) < 65536"
  by (simp add: ring_next_def unat_mod)

lemma ring_next_ne:
  assumes "unat i < 65536"
  shows "ring_next i \<noteq> i"
proof
  assume "ring_next i = i"
  hence "(unat i + 1) mod 65536 = unat i" using unat_ring_next [OF assms] by simp
  thus False using assms by (cases "unat i = 65535") simp_all
qed

lemma unat_ring_at: "unat (ring_at i k) = (unat i + k) mod 65536"
proof -
  have "(unat i + k) mod 65536 < 4294967296"
    by (rule less_trans [of _ 65536]) simp_all
  thus ?thesis unfolding ring_at_def by (rule unat_u32_of_nat)
qed

lemma ring_at_0: "unat i < 65536 \<Longrightarrow> ring_at i 0 = i"
  by (rule word_unat_eq_iff [THEN iffD2]) (simp add: unat_ring_at)

lemma ring_at_next: "unat i < 65536 \<Longrightarrow> ring_at (ring_next i) k = ring_at i (Suc k)"
  by (rule word_unat_eq_iff [THEN iffD2]) (simp add: unat_ring_at unat_ring_next mod_simps)

lemma ring_next_at: "unat i < 65536 \<Longrightarrow> ring_next (ring_at i k) = ring_at i (Suc k)"
  by (rule word_unat_eq_iff [THEN iffD2]) (simp add: unat_ring_at unat_ring_next mod_simps)

lemma ring_dist_less [simp]: "ring_dist i j < 65536"
  by (simp add: ring_dist_def)

lemma ring_dist_bound: "ring_dist i j \<le> 65535"
  using ring_dist_less [of i j] by linarith

lemma ring_dist_self [simp]: "unat i < 65536 \<Longrightarrow> ring_dist i i = 0"
  by (simp add: ring_dist_def)

lemma ring_at_dist:
  assumes "unat i < 65536" "unat j < 65536"
  shows "ring_at i (ring_dist i j) = j"
proof (rule word_unat_eq_iff [THEN iffD2])
  have "(unat i + ring_dist i j) mod 65536 = (unat i + (unat j + 65536 - unat i)) mod 65536"
    by (simp add: ring_dist_def mod_simps)
  also have "\<dots> = unat j" using assms by simp
  finally show "unat (ring_at i (ring_dist i j)) = unat j" by (simp add: unat_ring_at)
qed

lemma ring_at_inj:
  assumes "ring_at i k = ring_at i l" "k < 65536" "l < 65536"
  shows "k = l"
proof -
  have eq: "(unat i + k) mod 65536 = (unat i + l) mod 65536"
    using assms(1) by (metis unat_ring_at)
  show ?thesis
  proof (cases "k \<le> l")
    case True
    have "65536 dvd l - k"
      using mod_eq_dvd_iff_nat [of "unat i + k" "unat i + l" 65536] eq True by simp
    thus ?thesis using assms(3) True nat_dvd_not_less [of "l - k" 65536]
      by (cases "l - k = 0") auto
  next
    case False
    have "65536 dvd k - l"
      using mod_eq_dvd_iff_nat [of "unat i + l" "unat i + k" 65536] eq False by simp
    thus ?thesis using assms(2) False nat_dvd_not_less [of "k - l" 65536]
      by (cases "k - l = 0") auto
  qed
qed

lemma ring_dist_0_iff:
  assumes "unat i < 65536" "unat j < 65536"
  shows "ring_dist i j = 0 \<longleftrightarrow> i = j"
  using ring_at_dist [OF assms] ring_at_0 [OF assms(1)] assms by auto

lemma ring_dist_next_left:
  assumes "unat i < 65536" "unat j < 65536" "i \<noteq> j"
  shows "ring_dist i j = Suc (ring_dist (ring_next i) j)"
proof -
  obtain d where d: "ring_dist i j = Suc d"
    using ring_dist_0_iff [OF assms(1,2)] assms(3) not0_implies_Suc by blast
  have "ring_at (ring_next i) d = j"
    using ring_at_dist [OF assms(1,2)] d by (simp add: ring_at_next [OF assms(1)])
  moreover have "ring_at (ring_next i) (ring_dist (ring_next i) j) = j"
    by (rule ring_at_dist) (use assms in simp_all)
  ultimately have "d = ring_dist (ring_next i) j"
    using ring_at_inj [of "ring_next i"] d ring_dist_less [of i j] by (metis Suc_lessD ring_dist_less)
  thus ?thesis using d by simp
qed

lemma ring_dist_next_right:
  assumes "unat i < 65536" "unat j < 65536" "ring_next j \<noteq> i"
  shows "ring_dist i (ring_next j) = Suc (ring_dist i j)"
proof -
  have at: "ring_at i (Suc (ring_dist i j)) = ring_next j"
    using ring_at_dist [OF assms(1,2)] ring_next_at [OF assms(1)] by metis
  have "Suc (ring_dist i j) < 65536"
  proof (rule ccontr)
    assume "\<not> Suc (ring_dist i j) < 65536"
    hence "Suc (ring_dist i j) = 65536" using ring_dist_less [of i j] by linarith
    hence "ring_next j = ring_at i 65536" using at by metis
    also have "\<dots> = i"
      by (rule word_unat_eq_iff [THEN iffD2]) (use assms(1) in \<open>simp add: unat_ring_at\<close>)
    finally show False using assms(3) by simp
  qed
  moreover have "ring_at i (ring_dist i (ring_next j)) = ring_next j"
    by (rule ring_at_dist) (use assms in simp_all)
  ultimately show ?thesis using ring_at_inj at ring_dist_less by metis
qed

subsection \<open>Texts in the ring\<close>

lemma text_between_same [simp]: "unat i < 65536 \<Longrightarrow> text_between f i i = []"
  by (simp add: text_between_def)

lemma length_text_between [simp]: "length (text_between f i j) = ring_dist i j"
  by (simp add: text_between_def)

lemma text_between_Cons:
  assumes "unat i < 65536" "unat j < 65536" "i \<noteq> j"
  shows "text_between f i j = f i # text_between f (ring_next i) j"
  by (simp add: text_between_def ring_dist_next_left [OF assms] ring_at_0 [OF assms(1)]
      ring_at_next [OF assms(1)] upt_conv_Cons map_Suc_upt [symmetric] o_def del: upt_Suc)

lemma text_between_snoc:
  assumes "unat i < 65536" "unat j < 65536" "ring_next j \<noteq> i"
  shows "text_between f i (ring_next j) = text_between f i j @ [f j]"
  by (simp add: text_between_def ring_dist_next_right [OF assms] ring_at_dist [OF assms(1,2)])

lemma text_between_upd:
  assumes "unat i < 65536" "unat j < 65536"
  shows "text_between (f(j := c)) i j = text_between f i j"
  unfolding text_between_def
proof (rule map_cong [OF refl])
  fix k
  assume "k \<in> set [0..<ring_dist i j]"
  hence k: "k < ring_dist i j" by simp
  have "ring_at i k \<noteq> j"
    using ring_at_inj [of i k "ring_dist i j"] ring_at_dist [OF assms] k ring_dist_less [of i j]
    by (metis less_irrefl less_trans)
  thus "(f(j := c)) (ring_at i k) = f (ring_at i k)" by simp
qed

text \<open>Appending at the end, where the ring's first element gives way when it is met.\<close>

definition last_n :: "nat \<Rightarrow> 'a list \<Rightarrow> 'a list" where
  "last_n n xs = drop (length xs - n) xs"

lemma last_n_short: "length xs \<le> n \<Longrightarrow> last_n n xs = xs"
  by (simp add: last_n_def)

lemma length_last_n [simp]: "length (last_n n xs) = min n (length xs)"
  by (simp add: last_n_def min_def)

lemma last_n_append: "last_n n (last_n n xs @ ys) = last_n n (xs @ ys)"
  by (cases "length xs \<le> n") (simp_all add: last_n_def not_le add.commute)

lemma text_between_put:
  assumes "unat i < 65536" "unat e < 65536"
  shows "text_between (f(e := c)) (if ring_next e = i then ring_next i else i) (ring_next e) =
    last_n 65535 (text_between f i e @ [c])"
proof (cases "ring_next e = i")
  case False
  have "Suc (ring_dist i e) < 65536"
    using ring_dist_next_right [OF assms False] ring_dist_less [of i "ring_next e"] by simp
  thus ?thesis using False
    by (simp add: text_between_snoc [OF assms False] text_between_upd [OF assms] last_n_short)
next
  case True
  have at: "ring_at i (Suc (ring_dist i e)) = ring_at i 0"
    using ring_at_dist [OF assms] ring_next_at [OF assms(1)] True ring_at_0 [OF assms(1)] by metis
  have full: "ring_dist i e = 65535"
  proof (rule ccontr)
    assume "ring_dist i e \<noteq> 65535"
    hence "Suc (ring_dist i e) < 65536" using ring_dist_less [of i e] by linarith
    thus False using ring_at_inj [OF at] by simp
  qed
  have ne: "i \<noteq> e" using full assms by auto
  have next_ne: "ring_next e \<noteq> ring_next i"
    using True ring_next_ne [OF assms(1)] by metis
  have "text_between (f(e := c)) (ring_next i) (ring_next e) =
      text_between f (ring_next i) e @ [c]"
    using text_between_snoc [OF _ assms(2) next_ne] text_between_upd [OF _ assms(2)] by simp
  also have "text_between f (ring_next i) e = tl (text_between f i e)"
    by (simp add: text_between_Cons [OF assms ne])
  also have "tl (text_between f i e) @ [c] = last_n 65535 (text_between f i e @ [c])"
    using full ring_dist_next_left [OF assms ne]
    by (simp add: last_n_def text_between_Cons [OF assms ne])
  finally show ?thesis unfolding if_P [OF True] .
qed

subsection \<open>The shell's text\<close>

definition ring_wf :: "shell \<Rightarrow> bool" where
  "ring_wf s = (unat (displayRingBufferStart s) < 65536 \<and> unat (displayRingBufferEnd s) < 65536 \<and>
     unat (firstDisplayChar s) < 65536)"

definition log_text :: "shell \<Rightarrow> u32 list" where
  "log_text s = text_between (displayCharacters s) (displayRingBufferStart s) (displayRingBufferEnd s)"

definition shown_text :: "shell \<Rightarrow> u32 list" where
  "shown_text s = text_between (displayCharacters s) (firstDisplayChar s) (displayRingBufferEnd s)"

definition put1 :: "u32 \<Rightarrow> shell \<Rightarrow> shell" where
  "put1 c s = put_end (put_step c (s, displayRingBufferStart s, displayRingBufferEnd s))"

lemma ShellPutChar_put1: "ShellPutChar s c = (if c = 0 then s else put1 c s)"
  by (simp add: ShellPutChar_def put1_def)

lemma put1_eq:
  "put1 c s = s\<lparr>displayCharacters := (displayCharacters s)(displayRingBufferEnd s := c),
     displayRingBufferStart := (if ring_next (displayRingBufferEnd s) = displayRingBufferStart s
       then ring_next (displayRingBufferStart s) else displayRingBufferStart s),
     displayRingBufferEnd := ring_next (displayRingBufferEnd s),
     firstDisplayChar := (if ring_next (displayRingBufferEnd s) = firstDisplayChar s
       then ring_next (firstDisplayChar s) else firstDisplayChar s)\<rparr>"
  by (simp add: put1_def put_end_def put_step_def Let_def)

lemma put_step_end: "put_end (put_step c st) = put1 c (put_end st)"
  by (cases st) (simp add: put1_def put_end_def put_step_def Let_def)

lemma put_end_self: "put_end (s, displayRingBufferStart s, displayRingBufferEnd s) = s"
  by (simp add: put_end_def)

text \<open>The characters of a C string, and of a null-terminated array.\<close>

definition c_string :: "string \<Rightarrow> u32 list" where
  "c_string m = map char32 (takeWhile (\<lambda>c. c \<noteq> CHR 0x00) m)"

definition c_string32 :: "u32 list \<Rightarrow> u32 list" where
  "c_string32 = takeWhile (\<lambda>c. c \<noteq> 0)"

lemma puts_loop_fold: "put_end (puts_loop m st) = fold put1 (c_string m) (put_end st)"
  by (induction m st rule: puts_loop.induct) (simp_all add: c_string_def put_step_end)

lemma puts32_loop_fold: "put_end (puts32_loop m st) = fold put1 (c_string32 m) (put_end st)"
  by (induction m st rule: puts32_loop.induct) (simp_all add: c_string32_def put_step_end)

lemma ShellPuts_fold: "ShellPuts s (Some m) = fold put1 (c_string m) s"
  by (simp add: ShellPuts_def puts_loop_fold put_end_self)

lemma ShellPutsUTF32_fold: "ShellPutsUTF32 s (Some m) = fold put1 (c_string32 m) s"
  by (simp add: ShellPutsUTF32_def puts32_loop_fold put_end_self)

lemma ShellPutChar_fold:
  "fold (\<lambda>c s. ShellPutChar s c) cs s = fold put1 (filter (\<lambda>c. c \<noteq> 0) cs) s"
  by (induction cs arbitrary: s) (simp_all add: ShellPutChar_put1)

lemma ring_wf_put1: "ring_wf s \<Longrightarrow> ring_wf (put1 c s)"
  by (simp add: ring_wf_def put1_eq)

subsection \<open>Bounded texts\<close>

text \<open>
  A store to which characters are put one by one, and which keeps the last
  \<open>cap\<close> of them.
\<close>

locale bounded_text =
  fixes put :: "'c \<Rightarrow> 's \<Rightarrow> 's"
    and contents :: "'s \<Rightarrow> 'c list"
    and ok :: "'s \<Rightarrow> bool"
    and cap :: nat
  assumes ok_put: "ok s \<Longrightarrow> ok (put c s)"
    and contents_put: "ok s \<Longrightarrow> contents (put c s) = last_n cap (contents s @ [c])"
    and contents_bound: "ok s \<Longrightarrow> length (contents s) \<le> cap"
begin

lemma ok_fold: "ok s \<Longrightarrow> ok (fold put cs s)"
  by (induction cs arbitrary: s) (simp_all add: ok_put)

lemma contents_fold: "ok s \<Longrightarrow> contents (fold put cs s) = last_n cap (contents s @ cs)"
proof (induction cs arbitrary: s)
  case Nil
  thus ?case by (simp add: last_n_short contents_bound)
next
  case (Cons c cs)
  thus ?case by (simp add: ok_put contents_put last_n_append)
qed

end

interpretation shell_log: bounded_text put1 log_text ring_wf 65535
proof unfold_locales
  fix s c
  assume "ring_wf s"
  thus "log_text (put1 c s) = last_n 65535 (log_text s @ [c])"
    using text_between_put [of "displayRingBufferStart s" "displayRingBufferEnd s" "displayCharacters s" c]
    by (simp add: log_text_def put1_eq ring_wf_def)
next
  fix s
  show "length (log_text s) \<le> 65535"
    by (simp add: log_text_def ring_dist_bound)
qed (rule ring_wf_put1)

interpretation shell_shown: bounded_text put1 shown_text ring_wf 65535
proof unfold_locales
  fix s c
  assume "ring_wf s"
  thus "shown_text (put1 c s) = last_n 65535 (shown_text s @ [c])"
    using text_between_put [of "firstDisplayChar s" "displayRingBufferEnd s" "displayCharacters s" c]
    by (simp add: shown_text_def put1_eq ring_wf_def)
next
  fix s
  show "length (shown_text s) \<le> 65535"
    by (simp add: shown_text_def ring_dist_bound)
qed (rule ring_wf_put1)

subsection \<open>Deletion\<close>

definition ring_prev :: "u32 \<Rightarrow> u32" where
  "ring_prev j = (if j = 0 then 65535 else j - 1)"

lemma ring_prev_less: "unat j < 65536 \<Longrightarrow> unat (ring_prev j) < 65536"
  by (auto simp: ring_prev_def unat_minus_one)

lemma ring_next_prev:
  assumes "unat j < 65536"
  shows "ring_next (ring_prev j) = j"
proof (rule word_unat_eq_iff [THEN iffD2])
  show "unat (ring_next (ring_prev j)) = unat j"
    using assms ring_prev_less [OF assms]
    by (cases "j = 0") (simp_all add: unat_ring_next ring_prev_def unat_minus_one unat_gt_0)
qed

lemma text_between_butlast:
  assumes "unat i < 65536" "unat j < 65536" "i \<noteq> j"
  shows "text_between f i (ring_prev j) = butlast (text_between f i j)"
  using text_between_snoc [OF assms(1) ring_prev_less [OF assms(2)]] assms(3)
  by (simp add: ring_next_prev [OF assms(2)])

lemma DeleteLastDisplayChar_eq:
  "ShellDeleteLastDisplayChar s =
     (if displayRingBufferStart s = displayRingBufferEnd s then s
      else s\<lparr>displayRingBufferEnd := ring_prev (displayRingBufferEnd s)\<rparr>)"
  by (simp add: ShellDeleteLastDisplayChar_def ring_prev_def)

lemma log_text_Nil: "ring_wf s \<Longrightarrow> log_text s = [] \<longleftrightarrow> displayRingBufferStart s = displayRingBufferEnd s"
  by (metis length_0_conv length_text_between log_text_def ring_dist_0_iff ring_wf_def)

lemma shown_text_Nil: "ring_wf s \<Longrightarrow> shown_text s = [] \<longleftrightarrow> firstDisplayChar s = displayRingBufferEnd s"
  by (metis length_0_conv length_text_between shown_text_def ring_dist_0_iff ring_wf_def)

lemma ring_wf_Delete: "ring_wf s \<Longrightarrow> ring_wf (ShellDeleteLastDisplayChar s)"
  by (simp add: DeleteLastDisplayChar_eq ring_wf_def ring_prev_less)

lemma log_text_Delete:
  assumes "ring_wf s"
  shows "log_text (ShellDeleteLastDisplayChar s) = butlast (log_text s)"
  using assms log_text_Nil [OF assms]
  by (simp add: DeleteLastDisplayChar_eq) (simp add: log_text_def ring_wf_def text_between_butlast)

lemma shown_text_Delete:
  assumes "ring_wf s" "shown_text s \<noteq> []" "log_text s \<noteq> []"
  shows "shown_text (ShellDeleteLastDisplayChar s) = butlast (shown_text s)"
  using assms log_text_Nil [OF assms(1)] shown_text_Nil [OF assms(1)]
  by (simp add: DeleteLastDisplayChar_eq) (simp add: shown_text_def ring_wf_def text_between_butlast)

subsection \<open>The output functions\<close>

lemma ring_wf_CreateShell: "ring_wf (CreateShell w h)"
  by (simp add: ring_wf_def CreateShell_def gr_calls_def Let_def)

lemma texts_CreateShell [simp]: "log_text (CreateShell w h) = []" "shown_text (CreateShell w h) = []"
  by (simp_all add: log_text_def shown_text_def CreateShell_def gr_calls_def Let_def)

text \<open>
  C28: the output functions refine a bounded text. The ring's indices stay inside
  it, and both the text it holds and the part on display become what they were
  with the new characters behind it, less the oldest ones when there are more than
  65535: \<open>ShellPuts\<close> adds the string up to its null character,
  \<open>ShellPutsUTF32\<close> the array up to its zero, \<open>ShellPutChar\<close> a character
  that is not zero. Deletion removes the last character of the text that the ring holds.
\<close>

theorem shell_output_bounded_text:
  assumes "ring_wf s"
  shows "ring_wf (ShellPuts s (Some m)) \<and>
    log_text (ShellPuts s (Some m)) = last_n 65535 (log_text s @ c_string m) \<and>
    shown_text (ShellPuts s (Some m)) = last_n 65535 (shown_text s @ c_string m) \<and>
    ring_wf (ShellPutsUTF32 s (Some u)) \<and>
    log_text (ShellPutsUTF32 s (Some u)) = last_n 65535 (log_text s @ c_string32 u) \<and>
    shown_text (ShellPutsUTF32 s (Some u)) = last_n 65535 (shown_text s @ c_string32 u) \<and>
    ring_wf (ShellPutChar s c) \<and>
    log_text (ShellPutChar s c) = last_n 65535 (log_text s @ (if c = 0 then [] else [c])) \<and>
    shown_text (ShellPutChar s c) = last_n 65535 (shown_text s @ (if c = 0 then [] else [c])) \<and>
    log_text (ShellDeleteLastDisplayChar s) = butlast (log_text s)"
  using assms shell_log.contents_bound [OF assms] shell_shown.contents_bound [OF assms]
  by (simp add: ShellPuts_fold ShellPutsUTF32_fold ShellPutChar_put1 shell_log.ok_fold
      shell_log.contents_fold shell_shown.contents_fold shell_log.contents_put
      shell_shown.contents_put ring_wf_put1 last_n_short log_text_Delete)

lemma shell_output_bounded_text_witness:
  "log_text (ShellPuts (CreateShell 640 480) (Some ''ok'')) = [111, 107]"
proof -
  have "c_string ''ok'' = [111, 107]" by (simp add: c_string_def char32_def)
  thus ?thesis
    using shell_output_bounded_text [OF ring_wf_CreateShell, of 640 480 "''ok''"]
    by (simp add: last_n_def)
qed

end
