(* ===== verification/ShellDisplay.thy ===== *)
theory ShellDisplay
  imports ShellRing
begin

text \<open>
  The shell's screen: the loops over the ring as functions of the text that they
  read, the layout of a text in lines (\<open>flow\<close>, \<open>positions\<close>), what a flush draws
  and clears, and how far it scrolls.
\<close>

subsection \<open>Layout\<close>

text \<open>
  \<open>flow W c (n, x)\<close>: line and column behind the character \<open>c\<close> that was placed with
  the cursor in line \<open>n\<close> and column \<open>x\<close> of a screen of width \<open>W\<close>.
\<close>

definition flow :: "u32 \<Rightarrow> u32 \<Rightarrow> u32 \<times> u32 \<Rightarrow> u32 \<times> u32" where
  "flow W c = (\<lambda>(n, x). if c = 10 then (n + 1, 0)
     else if W <s x + advance_of c then (n + 1, advance_of c) else (n, x + advance_of c))"

lemma flow_pair: "flow W c (n, x) = (if c = 10 then (n + 1, 0)
     else if W <s x + advance_of c then (n + 1, advance_of c) else (n, x + advance_of c))"
  by (simp add: flow_def)

fun after_lines :: "u32 \<Rightarrow> u32 \<Rightarrow> u32 list \<Rightarrow> u32 \<times> u32 \<Rightarrow> u32 list" where
  "after_lines W lines [] p = []"
| "after_lines W lines (c # cs) p =
     (if fst p = lines then c # cs else after_lines W lines cs (flow W c p))"

fun visible :: "u32 \<Rightarrow> u32 \<Rightarrow> u32 list \<Rightarrow> u32 \<times> u32 \<Rightarrow> u32 list" where
  "visible W lines [] p = []"
| "visible W lines (c # cs) p =
     (if fst p = lines then [] else c # visible W lines cs (flow W c p))"

text \<open>The characters of a text with the cursor positions at which they are drawn.\<close>

fun positions :: "u32 \<Rightarrow> u32 list \<Rightarrow> u32 \<Rightarrow> u32 \<Rightarrow> (u32 \<times> u32 \<times> u32) list" where
  "positions W [] x y = []"
| "positions W (c # cs) x y =
     (if c = 10 then positions W cs 0 (y + font_lineHeight)
      else if W <s x + advance_of c
      then (c, 0, y + font_lineHeight) # positions W cs (advance_of c) (y + font_lineHeight)
      else (c, x, y) # positions W cs (x + advance_of c) y)"

definition metrics_of :: "u32 \<Rightarrow> glyph_metrics" where
  "metrics_of c = the (BuiltInBitmapFontGetGlyphMetrics c)"

definition draw_calls :: "u32 \<times> u32 \<times> u32 \<Rightarrow> gr_call list" where
  "draw_calls = (\<lambda>(c, x, y). the (BuiltInBitmapFontDrawGlyph c x y))"

definition clear_call :: "gr_color \<Rightarrow> u32 \<times> u32 \<times> u32 \<Rightarrow> gr_call" where
  "clear_call color = (\<lambda>(c, x, y). ClearScreenRegions [glyph_region (metrics_of c) x y] color)"

lemma GetGlyphMetrics_eq:
  assumes "c \<noteq> 127"
  shows "BuiltInBitmapFontGetGlyphMetrics c = Some (metrics_of c)"
    "glyph_advanceX (metrics_of c) = advance_of c"
proof -
  obtain calls m where "BuiltInBitmapFontGetGlyphMetrics c = Some m" "glyph_advanceX m = advance_of c"
    using DrawGlyph_region [OF assms] .
  thus "BuiltInBitmapFontGetGlyphMetrics c = Some (metrics_of c)"
    "glyph_advanceX (metrics_of c) = advance_of c"
    by (simp_all add: metrics_of_def)
qed

lemma DrawGlyph_eq:
  assumes "c \<noteq> 127"
  shows "BuiltInBitmapFontDrawGlyph c x y = Some (draw_calls (c, x, y))"
    "concat (map blit_region (draw_calls (c, x, y))) =
      (if printable c then [glyph_region (metrics_of c) x y] else [])"
proof -
  obtain calls m where "BuiltInBitmapFontDrawGlyph c x y = Some calls"
    "BuiltInBitmapFontGetGlyphMetrics c = Some m"
    "concat (map blit_region calls) = (if printable c then [glyph_region m x y] else [])"
    using DrawGlyph_region [OF assms] .
  thus "BuiltInBitmapFontDrawGlyph c x y = Some (draw_calls (c, x, y))"
    "concat (map blit_region (draw_calls (c, x, y))) =
      (if printable c then [glyph_region (metrics_of c) x y] else [])"
    by (simp_all add: metrics_of_def draw_calls_def)
qed

lemma advance_of_newline [simp]: "advance_of 10 = 0"
  by (simp add: advance_of_def printable_def)

subsection \<open>The loops over the ring\<close>

lemma ring_induct [consumes 2, case_names stop step]:
  assumes "unat i < 65536" "unat e < 65536"
    and "P e"
    and "\<And>i. unat i < 65536 \<Longrightarrow> i \<noteq> e \<Longrightarrow> P (ring_next i) \<Longrightarrow> P i"
  shows "P i"
  using assms(1)
proof (induction "ring_dist i e" arbitrary: i)
  case 0
  thus ?case using ring_dist_0_iff [OF 0(2) assms(2)] assms(3) by simp
next
  case (Suc d)
  have "i \<noteq> e" using Suc.hyps(2) Suc.prems by auto
  thus ?case using Suc assms(4) ring_dist_next_left [OF Suc.prems assms(2)] by simp
qed

lemma overflow_loop_text:
  assumes "unat i < 65536" "unat (displayRingBufferEnd s) < 65536" "\<And>i. displayCharacters s i \<noteq> 127"
  shows "overflow_loop s i n x = Some (fst (fold (flow (consoleWidth s))
    (text_between (displayCharacters s) i (displayRingBufferEnd s)) (n, x)))"
  using assms(1,2)
proof (induction i arbitrary: n x rule: ring_induct)
  case stop
  thus ?case using assms(2) by (subst overflow_loop.simps) simp
next
  case (step i)
  thus ?case
    by (subst overflow_loop.simps)
      (simp add: GetGlyphAdvanceX_eq assms(3) text_between_Cons [OF step(1) assms(2) step(2)] flow_pair)
qed

lemma scroll_loop_text:
  assumes "unat i < 65536" "unat (displayRingBufferEnd s) < 65536" "\<And>i. displayCharacters s i \<noteq> 127"
  shows "\<exists>j. scroll_loop s lines i n x = Some j \<and> unat j < 65536 \<and>
    text_between (displayCharacters s) j (displayRingBufferEnd s) =
    after_lines (consoleWidth s) lines
      (text_between (displayCharacters s) i (displayRingBufferEnd s)) (n, x)"
  using assms(1,2)
proof (induction i arbitrary: n x rule: ring_induct)
  case stop
  thus ?case using assms(2) by (subst scroll_loop.simps) simp
next
  case (step i)
  note Cons = text_between_Cons [OF step(1) assms(2) step(2), of "displayCharacters s"]
  have loop: "scroll_loop s lines i n x = (if n = lines then Some i else
      scroll_loop s lines (ring_next i) (fst (flow (consoleWidth s) (displayCharacters s i) (n, x)))
        (snd (flow (consoleWidth s) (displayCharacters s i) (n, x))))"
    by (subst scroll_loop.simps) (simp add: step GetGlyphAdvanceX_eq assms(3) flow_pair Let_def)
  show ?case
  proof (cases "n = lines")
    case True
    have "scroll_loop s lines i n x = Some i" using True by (subst loop) simp
    thus ?thesis using step(1) True by (simp add: Cons)
  next
    case False
    thus ?thesis unfolding loop
      using step.IH [of "fst (flow (consoleWidth s) (displayCharacters s i) (n, x))"
          "snd (flow (consoleWidth s) (displayCharacters s i) (n, x))"]
      by (simp add: Cons)
  qed
qed

subsection \<open>Drawing\<close>

definition recorded :: "(nat \<Rightarrow> u32) \<Rightarrow> nat \<Rightarrow> u32 list \<Rightarrow> nat \<Rightarrow> u32" where
  "recorded f k cs = (\<lambda>i. if k \<le> i \<and> i < k + length cs then cs ! (i - k) else f i)"

lemma recorded_Nil [simp]: "recorded f k [] = f"
  by (auto simp: recorded_def fun_eq_iff)

lemma recorded_Cons: "recorded (f(k := c)) (Suc k) cs = recorded f k (c # cs)"
  by (auto simp: recorded_def fun_eq_iff nth_Cons' Suc_le_eq)

text \<open>The part of the state that drawing does not touch.\<close>

definition text_part :: "shell \<Rightarrow> shell" where
  "text_part s = s\<lparr>onScreenCharacters := (\<lambda>_. 0), outputCursorX := 0, outputCursorY := 0,
     currentLine := 0, sh_trace := []\<rparr>"

lemma text_part_simps [simp]:
  "text_part (s\<lparr>onScreenCharacters := f\<rparr>) = text_part s"
  "text_part (s\<lparr>outputCursorX := x\<rparr>) = text_part s"
  "text_part (s\<lparr>outputCursorY := x\<rparr>) = text_part s"
  "text_part (s\<lparr>currentLine := x\<rparr>) = text_part s"
  "text_part (s\<lparr>sh_trace := tr\<rparr>) = text_part s"
  "text_part (gr_calls cs s) = text_part s"
  "text_part (output_line_break s) = text_part s"
  by (simp_all add: text_part_def gr_calls_def output_line_break_def)

lemma text_partD:
  assumes "text_part s' = text_part s"
  shows "displayCharacters s' = displayCharacters s"
    "displayRingBufferStart s' = displayRingBufferStart s"
    "displayRingBufferEnd s' = displayRingBufferEnd s"
    "firstDisplayChar s' = firstDisplayChar s"
    "commandCharacters s' = commandCharacters s"
    "numCommandCharacters s' = numCommandCharacters s"
    "commandPromptEnabled s' = commandPromptEnabled s"
    "consoleWidth s' = consoleWidth s" "consoleHeight s' = consoleHeight s" "numLines s' = numLines s"
    "promptText s' = promptText s" "backgroundColor s' = backgroundColor s"
  using assms by (cases s; cases s'; simp add: text_part_def)+

text \<open>One step of the drawing loop.\<close>

definition draw_one :: "nat \<Rightarrow> u32 \<Rightarrow> shell \<Rightarrow> shell" where
  "draw_one k c s =
     (let s1 = s\<lparr>onScreenCharacters := (onScreenCharacters s)(k := c)\<rparr>;
          wraps = consoleWidth s <s outputCursorX s + advance_of c;
          s2 = (if wraps then output_line_break s1 else s1)
      in if c = 10 then output_line_break s1
         else (gr_calls (draw_calls (c, outputCursorX s2, outputCursorY s2)) s2)
           \<lparr>outputCursorX := outputCursorX s2 + advance_of c\<rparr>)"

lemma draw_one_simps:
  "text_part (draw_one k c s) = text_part s"
  "onScreenCharacters (draw_one k c s) = (onScreenCharacters s)(k := c)"
  "(currentLine (draw_one k c s), outputCursorX (draw_one k c s)) =
     flow (consoleWidth s) c (currentLine s, outputCursorX s)"
  "sh_trace (draw_one k c s) @ map GrCall (concat (map draw_calls
       (positions (consoleWidth s) cs (outputCursorX (draw_one k c s)) (outputCursorY (draw_one k c s))))) =
     sh_trace s @ map GrCall (concat (map draw_calls
       (positions (consoleWidth s) (c # cs) (outputCursorX s) (outputCursorY s))))"
  by (simp_all add: draw_one_def Let_def flow_pair output_line_break_def gr_calls_def
      BuiltInBitmapFontGetLineHeight_def)

lemma set_text_loop_text:
  assumes "unat i < 65536" "unat e < 65536" "\<And>i. displayCharacters s i \<noteq> 127"
    "k + ring_dist i e \<le> 65536"
  shows "\<exists>s'. set_text_loop e i k s = Some s' \<and> text_part s' = text_part s \<and>
    (let t = visible (consoleWidth s) (numLines s) (text_between (displayCharacters s) i e)
           (currentLine s, outputCursorX s) in
     onScreenCharacters s' = recorded (onScreenCharacters s) k t \<and>
     (currentLine s', outputCursorX s') = fold (flow (consoleWidth s)) t (currentLine s, outputCursorX s) \<and>
     sh_trace s' = sh_trace s @ map GrCall (concat (map draw_calls
       (positions (consoleWidth s) t (outputCursorX s) (outputCursorY s)))))"
  using assms
proof (induction i arbitrary: k s rule: ring_induct)
  case stop
  thus ?case by (subst set_text_loop.simps) (simp add: assms(2))
next
  case (step i)
  let ?c = "displayCharacters s i"
  let ?s1 = "draw_one k ?c s"
  note Cons = text_between_Cons [OF step(1) assms(2) step(2), of "displayCharacters s"]
  have dist: "ring_dist i e = Suc (ring_dist (ring_next i) e)"
    by (rule ring_dist_next_left [OF step(1) assms(2) step(2)])
  show ?case
  proof (cases "currentLine s = numLines s")
    case True
    thus ?thesis by (subst set_text_loop.simps) (simp add: step(2) Cons)
  next
    case False
    have c127: "?c \<noteq> 127" using step.prems(1) .
    have k: "k < 65536" "Suc k + ring_dist (ring_next i) e \<le> 65536" using step.prems(2) dist by simp_all
    have loop: "set_text_loop e i k s = set_text_loop e (ring_next i) (Suc k) ?s1"
      by (subst set_text_loop.simps)
        (simp add: step(2) False k(1) record_on_screen_def draw_one_def Let_def
          GetGlyphAdvanceX_eq [OF c127] DrawGlyph_eq [OF c127])
    note s1 = draw_one_simps [of k ?c s]
    note same = text_partD [OF s1(1)]
    show ?thesis
      using step.IH [of ?s1 "Suc k"] step.prems(1) k(2) False
      by (simp add: loop same s1(1,2) s1(3) [symmetric] Cons Let_def recorded_Cons s1(4)
          del: positions.simps fun_upd_apply)
  qed
qed

lemma SetText_text:
  assumes "ring_wf s" "\<And>i. displayCharacters s i \<noteq> 127"
  defines "t \<equiv> visible (consoleWidth s) (numLines s) (shown_text s) (0, 0)"
  shows "\<exists>s'. ShellSetText s (firstDisplayChar s) (displayRingBufferEnd s) = Some s' \<and>
    text_part s' = text_part s \<and> onScreenCharacters s' = recorded (onScreenCharacters s) 0 t \<and>
    currentLine s' = fst (fold (flow (consoleWidth s)) t (0, 0)) \<and>
    sh_trace s' = sh_trace s @ map GrCall (concat (map draw_calls (positions (consoleWidth s) t 0 0)))"
proof -
  let ?s = "s\<lparr>outputCursorX := 0, outputCursorY := 0, currentLine := 0\<rparr>"
  have "0 + ring_dist (firstDisplayChar s) (displayRingBufferEnd s) \<le> 65536"
    using ring_dist_bound [of "firstDisplayChar s" "displayRingBufferEnd s"] by simp
  moreover have "unat (firstDisplayChar s) < 65536" "unat (displayRingBufferEnd s) < 65536"
    using assms(1) by (simp_all add: ring_wf_def)
  ultimately have "\<exists>s'. set_text_loop (displayRingBufferEnd s) (firstDisplayChar s) 0 ?s = Some s' \<and>
      text_part s' = text_part ?s \<and>
      (let t = visible (consoleWidth ?s) (numLines ?s)
         (text_between (displayCharacters ?s) (firstDisplayChar s) (displayRingBufferEnd s))
         (currentLine ?s, outputCursorX ?s) in
       onScreenCharacters s' = recorded (onScreenCharacters ?s) 0 t \<and>
       (currentLine s', outputCursorX s') =
         fold (flow (consoleWidth ?s)) t (currentLine ?s, outputCursorX ?s) \<and>
       sh_trace s' = sh_trace ?s @ map GrCall (concat (map draw_calls
         (positions (consoleWidth ?s) t (outputCursorX ?s) (outputCursorY ?s)))))"
    using assms(2) by (intro set_text_loop_text) simp_all
  then obtain s' where s': "set_text_loop (displayRingBufferEnd s) (firstDisplayChar s) 0 ?s = Some s'"
    "text_part s' = text_part s" "onScreenCharacters s' = recorded (onScreenCharacters s) 0 t"
    "(currentLine s', outputCursorX s') = fold (flow (consoleWidth s)) t (0, 0)"
    "sh_trace s' = sh_trace s @ map GrCall (concat (map draw_calls (positions (consoleWidth s) t 0 0)))"
    by (auto simp: Let_def t_def shown_text_def)
  have "currentLine s' = fst (fold (flow (consoleWidth s)) t (0, 0))"
    using s'(4) by (metis fst_conv)
  thus ?thesis using s' by (simp add: ShellSetText_def)
qed

subsection \<open>Clearing\<close>

definition on_screen :: "shell \<Rightarrow> nat \<Rightarrow> u32 list" where
  "on_screen s i = takeWhile (\<lambda>c. c \<noteq> 0) (map (onScreenCharacters s) [i..<NUM_MAX_DISPLAY_CHARACTERS])"

lemma on_screen_rec:
  "on_screen s i = (if i < NUM_MAX_DISPLAY_CHARACTERS \<and> onScreenCharacters s i \<noteq> 0
     then onScreenCharacters s i # on_screen s (Suc i) else [])"
proof (cases "i < NUM_MAX_DISPLAY_CHARACTERS")
  case True
  thus ?thesis by (simp add: on_screen_def upt_conv_Cons [OF True] del: upt_Suc)
qed (simp add: on_screen_def)

lemma gr_calls_append: "gr_calls bs (gr_calls as s) = gr_calls (as @ bs) s"
  by (simp add: gr_calls_def)

lemma gr_calls_simps [simp]:
  "onScreenCharacters (gr_calls cs s) = onScreenCharacters s"
  "consoleWidth (gr_calls cs s) = consoleWidth s"
  "backgroundColor (gr_calls cs s) = backgroundColor s"
  "sh_trace (gr_calls cs s) = sh_trace s @ map GrCall cs"
  "on_screen (gr_calls cs s) i = on_screen s i"
  "gr_calls [] s = s"
  by (simp_all add: gr_calls_def on_screen_def)

lemma reset_loop_text:
  assumes "\<And>i. onScreenCharacters s i \<noteq> 127"
  shows "reset_loop i x y s = Some (gr_calls
    (map (clear_call (backgroundColor s)) (positions (consoleWidth s) (on_screen s i) x y)) s)"
  using assms
proof (induction "65536 - i" arbitrary: i x y s)
  case 0
  thus ?case by (subst reset_loop.simps, subst on_screen_rec) simp
next
  case (Suc d)
  have IH: "reset_loop (Suc i) x y s' = Some (gr_calls
      (map (clear_call (backgroundColor s')) (positions (consoleWidth s') (on_screen s' (Suc i)) x y)) s')"
    if "\<And>i. onScreenCharacters s' i \<noteq> 127" for x y s'
    using that Suc.hyps by (intro Suc.hyps(1)) auto
  have i: "i < 65536" using Suc.hyps(2) by simp
  let ?c = "onScreenCharacters s i"
  note rec = on_screen_rec [of s i] reset_loop.simps [of i x y s]
  show ?case
  proof (cases "?c = 0 \<or> ?c = 10")
    case True
    thus ?thesis using i Suc.prems
      by (auto simp: rec IH Let_def BuiltInBitmapFontGetLineHeight_def)
  next
    case False
    note m = GetGlyphMetrics_eq [OF Suc.prems [of i]]
    show ?thesis using i False Suc.prems
      by (simp add: rec IH m Let_def BuiltInBitmapFontGetLineHeight_def clear_call_def
        glyph_region_def gr_calls_append)
  qed
qed

lemma ResetText_text:
  assumes "\<And>i. onScreenCharacters s i \<noteq> 127"
  shows "ShellResetText s = Some ((gr_calls (map (clear_call (backgroundColor s))
      (positions (consoleWidth s) (on_screen s 0) 0 0)) s)
    \<lparr>onScreenCharacters := (\<lambda>i. if i < NUM_MAX_DISPLAY_CHARACTERS then 0 else onScreenCharacters s i)\<rparr>)"
  using assms by (simp add: ShellResetText_def reset_loop_text) (simp only: gr_calls_simps)

end
