(* ===== verification/ShellFlush.thy ===== *)
theory ShellFlush
  imports ShellDisplay
begin

text \<open>
  What a flush of the shell's output does: it scrolls just far enough for the
  text to fit, draws all that is left of it, and clears what the flush before
  drew. The lines of a text are counted without wrap-around (\<open>text_lines\<close>); the
  32-bit counters of the code agree with them on screens narrower than 2147483639
  pixels.
\<close>

subsection \<open>Lines of a text\<close>

definition flow_nat :: "nat \<Rightarrow> u32 \<Rightarrow> nat \<times> nat \<Rightarrow> nat \<times> nat" where
  "flow_nat W c p = (if c = 10 then (fst p + 1, 0)
     else if W < snd p + unat (advance_of c) then (fst p + 1, unat (advance_of c))
     else (fst p, snd p + unat (advance_of c)))"

definition text_lines :: "u32 \<Rightarrow> u32 list \<Rightarrow> nat" where
  "text_lines W t = fst (fold (flow_nat (unat W)) t (0, 0))"

definition nat_pos :: "u32 \<times> u32 \<Rightarrow> nat \<times> nat" where
  "nat_pos p = (unat (fst p), unat (snd p))"

lemma unat_advance: "unat (advance_of c) \<le> 9"
  by (simp add: advance_of_def)

lemma flow_nat_pos:
  assumes "unat W < 2147483639" "unat (snd p) \<le> max (unat W) 9" "unat (fst p) < 4294967295"
  shows "nat_pos (flow W c p) = flow_nat (unat W) c (nat_pos p)"
proof (cases p)
  case (Pair n x)
  have x: "unat x + unat (advance_of c) < 2147483648"
    using assms(1,2) unat_advance [of c] Pair by simp
  hence add: "unat (x + advance_of c) = unat x + unat (advance_of c)"
    by (simp add: unat_word_ariths)
  have n: "unat (n + 1) = unat n + 1"
    using assms(3) Pair by (simp add: unat_word_ariths)
  show ?thesis
    using assms(1) x by (simp add: Pair flow_pair flow_nat_def nat_pos_def add n word_sless_small)
qed

lemma flow_nat_col: "snd p \<le> max W 9 \<Longrightarrow> snd (flow_nat W c p) \<le> max W 9"
  using unat_advance [of c] by (auto simp: flow_nat_def le_max_iff_disj)

lemma flow_nat_line: "fst (flow_nat W c p) \<in> {fst p, Suc (fst p)}"
  by (simp add: flow_nat_def)

lemma fold_flow_pos:
  assumes "unat W < 2147483639" "unat (snd p) \<le> max (unat W) 9"
    "unat (fst p) + length t < 4294967296"
  shows "nat_pos (fold (flow W) t p) = fold (flow_nat (unat W)) t (nat_pos p)"
  using assms(2,3)
proof (induction t arbitrary: p)
  case (Cons c t)
  have pos: "nat_pos (flow W c p) = flow_nat (unat W) c (nat_pos p)"
    using Cons.prems by (intro flow_nat_pos assms(1)) simp_all
  have "unat (snd (flow W c p)) \<le> max (unat W) 9"
    using flow_nat_col [of "nat_pos p" "unat W" c] Cons.prems(1)
    unfolding pos [symmetric] by (simp add: nat_pos_def)
  moreover have "unat (fst (flow W c p)) + length t < 4294967296"
    using flow_nat_line [of "unat W" c "nat_pos p"] Cons.prems(2)
    unfolding pos [symmetric] by (auto simp: nat_pos_def)
  ultimately show ?case using Cons.IH pos by simp
qed simp

subsection \<open>Laying out from a later position\<close>

definition pos_le :: "nat \<times> nat \<Rightarrow> nat \<times> nat \<Rightarrow> bool" where
  "pos_le p q = (fst p < fst q \<or> fst p = fst q \<and> snd p \<le> snd q)"

lemma flow_nat_mono: "pos_le p q \<Longrightarrow> pos_le (flow_nat W c p) (flow_nat W c q)"
  by (auto simp: pos_le_def flow_nat_def)

lemma fold_flow_mono: "pos_le p q \<Longrightarrow> pos_le (fold (flow_nat W) t p) (fold (flow_nat W) t q)"
  by (induction t arbitrary: p q) (auto simp: flow_nat_mono)

lemma fold_flow_shift:
  "fold (flow_nat W) t (k + n, x) =
    (k + fst (fold (flow_nat W) t (n, x)), snd (fold (flow_nat W) t (n, x)))"
proof (induction t arbitrary: n x)
  case (Cons c t)
  have "flow_nat W c (k + n, x) = (k + fst (flow_nat W c (n, x)), snd (flow_nat W c (n, x)))"
    by (simp add: flow_nat_def)
  thus ?case using Cons [of "fst (flow_nat W c (n, x))" "snd (flow_nat W c (n, x))"] by simp
qed simp

lemma fold_flow_ge: "fst p \<le> fst (fold (flow_nat W) t p)"
proof (induction t arbitrary: p)
  case (Cons c t)
  have "fst p \<le> fst (flow_nat W c p)" by (simp add: flow_nat_def)
  also have "\<dots> \<le> fst (fold (flow_nat W) t (flow_nat W c p))" by (rule Cons.IH)
  finally show ?case by simp
qed simp

text \<open>What follows the first lines of a text has the other lines, or fewer.\<close>

lemma text_lines_rest:
  "text_lines W r + text_lines W p \<le> text_lines W (p @ r)"
proof -
  obtain n x where p: "fold (flow_nat (unat W)) p (0, 0) = (n, x)" by fastforce
  have "pos_le (fold (flow_nat (unat W)) r (0, 0)) (fold (flow_nat (unat W)) r (0, x))"
    by (rule fold_flow_mono) (simp add: pos_le_def)
  thus ?thesis
    using fold_flow_shift [of "unat W" r n 0 x]
    by (auto simp: text_lines_def p pos_le_def)
qed

subsection \<open>The loops stop where they should\<close>

lemma nat_flow_bounds:
  assumes "unat W < 2147483639" "unat (snd p) \<le> max (unat W) 9"
    "unat (fst p) + length (c # t) < 4294967296"
  shows "nat_pos (flow W c p) = flow_nat (unat W) c (nat_pos p)"
    "unat (snd (flow W c p)) \<le> max (unat W) 9"
    "unat (fst (flow W c p)) + length t < 4294967296"
    "unat (fst (flow W c p)) \<le> Suc (unat (fst p))"
proof -
  show pos: "nat_pos (flow W c p) = flow_nat (unat W) c (nat_pos p)"
    using assms(3) by (intro flow_nat_pos assms) simp
  show "unat (snd (flow W c p)) \<le> max (unat W) 9"
    using flow_nat_col [of "nat_pos p" "unat W" c] assms(2)
    unfolding pos [symmetric] by (simp add: nat_pos_def)
  show "unat (fst (flow W c p)) + length t < 4294967296"
    "unat (fst (flow W c p)) \<le> Suc (unat (fst p))"
    using flow_nat_line [of "unat W" c "nat_pos p"] assms(3)
    unfolding pos [symmetric] by (auto simp: nat_pos_def)
qed

lemma after_lines_split:
  assumes "unat W < 2147483639" "unat (snd p) \<le> max (unat W) 9"
    "unat (fst p) + length t < 4294967296" "fst p \<le> lines"
    "unat lines \<le> fst (fold (flow_nat (unat W)) t (nat_pos p))"
  shows "\<exists>d. t = d @ after_lines W lines t p \<and>
    fst (fold (flow_nat (unat W)) d (nat_pos p)) = unat lines \<and>
    (d \<noteq> [] \<longrightarrow> fst (fold (flow_nat (unat W)) (butlast d) (nat_pos p)) < unat lines)"
  using assms(2-5)
proof (induction t arbitrary: p)
  case Nil
  thus ?case by (auto simp: nat_pos_def word_le_nat_alt)
next
  case (Cons c t)
  show ?case
  proof (cases "fst p = lines")
    case True
    thus ?thesis by (intro exI [of _ "[]"]) (simp add: nat_pos_def)
  next
    case False
    note b = nat_flow_bounds [OF assms(1) Cons.prems(1,2)]
    have "unat (fst p) < unat lines"
      using False Cons.prems(3) by (simp add: word_le_nat_alt word_unat_eq_iff)
    hence "fst (flow W c p) \<le> lines" using b(4) by (simp add: word_le_nat_alt)
    then obtain d where "t = d @ after_lines W lines t (flow W c p)"
      "fst (fold (flow_nat (unat W)) d (nat_pos (flow W c p))) = unat lines"
      "d \<noteq> [] \<longrightarrow> fst (fold (flow_nat (unat W)) (butlast d) (nat_pos (flow W c p))) < unat lines"
      using Cons.IH [OF b(2,3)] Cons.prems(4) b(1) by auto
    thus ?thesis using False b(1) \<open>unat (fst p) < unat lines\<close>
      by (intro exI [of _ "c # d"]) (simp add: nat_pos_def)
  qed
qed

lemma visible_all:
  assumes "unat W < 2147483639" "unat (snd p) \<le> max (unat W) 9"
    "unat (fst p) + length t < 4294967296"
    "fst (fold (flow_nat (unat W)) t (nat_pos p)) < unat lines"
  shows "visible W lines t p = t"
  using assms(2-4)
proof (induction t arbitrary: p)
  case (Cons c t)
  note b = nat_flow_bounds [OF assms(1) Cons.prems(1,2)]
  have "fst (nat_pos p) < unat lines"
    using fold_flow_ge [of "nat_pos p" "unat W" "c # t"] Cons.prems(3) by (rule le_less_trans)
  hence "fst p \<noteq> lines" by (auto simp: nat_pos_def)
  thus ?case using Cons.IH [OF b(2,3)] Cons.prems(3) b(1) by simp
qed simp

subsection \<open>Flushing\<close>

text \<open>No glyph without an entry in the font, and room for a line.\<close>

definition screen_wf :: "shell \<Rightarrow> bool" where
  "screen_wf s = (ring_wf s \<and> (\<forall>i. displayCharacters s i \<noteq> 127) \<and>
     (\<forall>i. onScreenCharacters s i \<noteq> 127) \<and> numLines s \<noteq> 0)"

lemma screen_wfD:
  assumes "screen_wf s"
  shows "ring_wf s" "displayCharacters s i \<noteq> 127" "onScreenCharacters s k \<noteq> 127" "numLines s \<noteq> 0"
    "unat (displayRingBufferStart s) < 65536" "unat (displayRingBufferEnd s) < 65536"
    "unat (firstDisplayChar s) < 65536"
  using assms by (simp_all add: screen_wf_def ring_wf_def)

lemma shown_127: "screen_wf s \<Longrightarrow> 127 \<notin> set (shown_text s)"
  by (auto simp: shown_text_def text_between_def screen_wfD(2))

lemma length_shown: "length (shown_text s) \<le> 65535"
  by (simp add: shown_text_def ring_dist_bound)

lemma fold_flow_nat:
  assumes "unat W < 2147483639" "length t \<le> 65535"
  shows "unat (fst (fold (flow W) t (0, 0))) = text_lines W t"
  using fold_flow_pos [OF assms(1), of "(0, 0)" t] assms(2)
  by (simp add: text_lines_def nat_pos_def prod_eq_iff)

lemma text_lines_length: "text_lines W t \<le> length t"
proof -
  have "fst (fold (flow_nat n) t p) \<le> fst p + length t" for n p
  proof (induction t arbitrary: p)
    case (Cons c t)
    have "fst (fold (flow_nat n) t (flow_nat n c p)) \<le> fst (flow_nat n c p) + length t"
      by (rule Cons.IH)
    thus ?case using flow_nat_line [of n c p] by auto
  qed simp
  from this [of "unat W" "(0, 0)"] show ?thesis by (simp add: text_lines_def)
qed

definition lines_to_scroll :: "shell \<Rightarrow> nat" where
  "lines_to_scroll s = (if unat (numLines s) \<le> text_lines (consoleWidth s) (shown_text s)
     then text_lines (consoleWidth s) (shown_text s) - unat (numLines s) + 1 else 0)"

lemma GetNumOverflowLines_text:
  assumes "screen_wf s" "unat (consoleWidth s) < 2147483639"
  shows "\<exists>n. ShellGetNumOverflowLines s = Some n \<and> unat n = lines_to_scroll s"
proof -
  let ?m = "fst (fold (flow (consoleWidth s)) (shown_text s) (0, 0))"
  have m: "unat ?m = text_lines (consoleWidth s) (shown_text s)"
    by (rule fold_flow_nat [OF assms(2) length_shown])
  have bound: "unat ?m \<le> 65535"
    using m text_lines_length [of "consoleWidth s" "shown_text s"] length_shown [of s] by linarith
  have loop: "overflow_loop s (firstDisplayChar s) 0 0 = Some ?m"
    using overflow_loop_text [OF screen_wfD(7,6) [OF assms(1)]] screen_wfD(2) [OF assms(1)]
    by (simp add: shown_text_def)
  have "unat (?m - numLines s + 1) = unat ?m - unat (numLines s) + 1" if le: "numLines s \<le> ?m"
  proof -
    have "unat (?m - numLines s) = unat ?m - unat (numLines s)"
      using le by (simp add: unat_sub_if' word_le_nat_alt)
    thus ?thesis using bound by (simp add: unat_word_ariths)
  qed
  thus ?thesis
    by (simp add: ShellGetNumOverflowLines_def loop lines_to_scroll_def m word_le_nat_alt)
qed

lemma ScrollDisplay_text:
  assumes "screen_wf s" "unat (consoleWidth s) < 2147483639" "unat n = lines_to_scroll s"
  obtains j d where "ShellScrollDisplay s n = Some (s\<lparr>firstDisplayChar := j\<rparr>)" "unat j < 65536"
    "shown_text s = d @ shown_text (s\<lparr>firstDisplayChar := j\<rparr>)"
    "text_lines (consoleWidth s) d = lines_to_scroll s"
    "d \<noteq> [] \<longrightarrow> text_lines (consoleWidth s) (butlast d) < lines_to_scroll s"
proof -
  let ?t = "shown_text s" and ?W = "consoleWidth s"
  obtain j where j: "scroll_loop s n (firstDisplayChar s) 0 0 = Some j" "unat j < 65536"
    "text_between (displayCharacters s) j (displayRingBufferEnd s) = after_lines ?W n ?t (0, 0)"
    using scroll_loop_text [OF screen_wfD(7,6) [OF assms(1)], of n 0 0] screen_wfD(2) [OF assms(1)]
    by (auto simp: shown_text_def)
  have "unat (numLines s) > 0" using screen_wfD(4) [OF assms(1)] by (simp add: unat_gt_0)
  hence "lines_to_scroll s \<le> text_lines ?W ?t"
    by (auto simp: lines_to_scroll_def)
  moreover have "length ?t < 4294967296" using length_shown [of s] by simp
  ultimately obtain d where d: "?t = d @ after_lines ?W n ?t (0, 0)" "text_lines ?W d = unat n"
    "d \<noteq> [] \<longrightarrow> text_lines ?W (butlast d) < unat n"
    using after_lines_split [OF assms(2), of "(0, 0)" ?t n] assms(3)
    by (auto simp: text_lines_def nat_pos_def)
  show thesis
    using that [of j d] j d assms(3)
    by (simp add: ShellScrollDisplay_def) (simp add: shown_text_def)
qed

lemma shown_text_part:
  assumes "text_part s' = text_part s"
  shows "shown_text s' = shown_text s"
  by (simp add: shown_text_def text_partD [OF assms])

lemma log_text_part:
  assumes "text_part s' = text_part s"
  shows "log_text s' = log_text s"
  by (simp add: log_text_def text_partD [OF assms])

lemma screen_wf_part:
  assumes "text_part s' = text_part s" "screen_wf s" "\<And>i. onScreenCharacters s' i \<noteq> 127"
  shows "screen_wf s'"
  using assms(2,3) by (simp add: screen_wf_def ring_wf_def text_partD [OF assms(1)])

lemma on_screen_recorded:
  assumes "\<And>i. i < 65536 \<Longrightarrow> f i = 0" "length t \<le> 65535" "onScreenCharacters s = recorded f 0 t"
  shows "on_screen s 0 = takeWhile (\<lambda>c. c \<noteq> 0) t"
proof -
  define d where "d = 65536 - length t"
  have d: "65536 = length t + d" "d > 0" using assms(2) by (simp_all add: d_def)
  have "map (recorded f 0 t) [0..<length t + d] = t @ replicate d 0"
    using assms(1) d(1) by (intro nth_equalityI) (auto simp: recorded_def nth_append)
  moreover have "on_screen s 0 = takeWhile (\<lambda>c. c \<noteq> 0) (map (recorded f 0 t) [0..<length t + d])"
    unfolding on_screen_def assms(3) d(1) [symmetric] ..
  moreover have "takeWhile (\<lambda>c. c \<noteq> 0) (t @ replicate d 0) = takeWhile (\<lambda>c. c \<noteq> 0) t"
    using d(2) by (cases d)
      (auto simp: takeWhile_append intro: takeWhile_eq_all_conv [THEN iffD2, symmetric])
  ultimately show ?thesis by simp
qed

definition erase_calls :: "shell \<Rightarrow> gr_call list" where
  "erase_calls s = map (clear_call (backgroundColor s)) (positions (consoleWidth s) (on_screen s 0) 0 0)"

definition text_calls :: "shell \<Rightarrow> u32 list \<Rightarrow> gr_call list" where
  "text_calls s t = concat (map draw_calls (positions (consoleWidth s) t 0 0))"

lemma FlushStdOut_text:
  assumes "screen_wf s" "unat (consoleWidth s) < 2147483639"
  obtains s' d where "ShellFlushStdOut s = Some s'"
    "text_part (s'\<lparr>firstDisplayChar := firstDisplayChar s\<rparr>) = text_part s" "screen_wf s'"
    "shown_text s = d @ shown_text s'" "text_lines (consoleWidth s) d = lines_to_scroll s"
    "d \<noteq> [] \<longrightarrow> text_lines (consoleWidth s) (butlast d) < lines_to_scroll s"
    "text_lines (consoleWidth s) (shown_text s') < unat (numLines s)"
    "on_screen s' 0 = takeWhile (\<lambda>c. c \<noteq> 0) (shown_text s')"
    "sh_trace s' = sh_trace s @ map GrCall (erase_calls s @ text_calls s (shown_text s') @ [SwapBuffers])"
proof -
  let ?W = "consoleWidth s"
  obtain n where n: "ShellGetNumOverflowLines s = Some n" "unat n = lines_to_scroll s"
    using GetNumOverflowLines_text [OF assms] by blast
  define z where "z = (\<lambda>i. if i < NUM_MAX_DISPLAY_CHARACTERS then 0 else onScreenCharacters s i)"
  define s1 where "s1 = (gr_calls (erase_calls s) s)\<lparr>onScreenCharacters := z\<rparr>"
  have s1: "ShellResetText s = Some s1"
    using ResetText_text [OF screen_wfD(3) [OF assms(1)]] by (simp add: s1_def z_def erase_calls_def)
  have part1: "text_part s1 = text_part s" by (simp add: s1_def)
  have wf1: "screen_wf s1"
    by (rule screen_wf_part [OF part1 assms(1)]) (simp add: s1_def z_def screen_wfD(3) [OF assms(1)])
  have lts: "lines_to_scroll s1 = lines_to_scroll s"
    by (simp add: lines_to_scroll_def shown_text_part [OF part1] text_partD [OF part1])
  have W1: "unat (consoleWidth s1) < 2147483639" "unat n = lines_to_scroll s1"
    using assms(2) n(2) lts by (simp_all add: text_partD [OF part1])
  obtain j d where j: "ShellScrollDisplay s1 n = Some (s1\<lparr>firstDisplayChar := j\<rparr>)" "unat j < 65536"
    "shown_text s1 = d @ shown_text (s1\<lparr>firstDisplayChar := j\<rparr>)"
    "text_lines (consoleWidth s1) d = lines_to_scroll s1"
    "d \<noteq> [] \<longrightarrow> text_lines (consoleWidth s1) (butlast d) < lines_to_scroll s1"
    using ScrollDisplay_text [OF wf1 W1] .
  define s2 where "s2 = s1\<lparr>firstDisplayChar := j\<rparr>"
  have wf2: "screen_wf s2" using wf1 j(2) by (simp add: s2_def screen_wf_def ring_wf_def)
  have shown: "shown_text s = d @ shown_text s2"
    using j(3) by (simp add: s2_def shown_text_part [OF part1])
  have d: "text_lines ?W d = lines_to_scroll s"
    "d \<noteq> [] \<longrightarrow> text_lines ?W (butlast d) < lines_to_scroll s"
    using j(4,5) lts by (simp_all add: text_partD [OF part1])
  have fits: "text_lines ?W (shown_text s2) < unat (numLines s)"
  proof -
    have "text_lines ?W (shown_text s2) + text_lines ?W d \<le> text_lines ?W (shown_text s)"
      using text_lines_rest [of ?W "shown_text s2" d] by (simp add: shown)
    moreover have "unat (numLines s) > 0" using screen_wfD(4) [OF assms(1)] by (simp add: unat_gt_0)
    ultimately show ?thesis unfolding d(1) lines_to_scroll_def by (simp split: if_splits)
  qed
  have vis: "visible ?W (numLines s) (shown_text s2) (0, 0) = shown_text s2"
    using visible_all [OF assms(2), of "(0, 0)" "shown_text s2" "numLines s"] fits length_shown [of s2]
    by (simp add: text_lines_def nat_pos_def)
  obtain s' where s': "ShellSetText s2 (firstDisplayChar s2) (displayRingBufferEnd s2) = Some s'"
    "text_part s' = text_part s2" "onScreenCharacters s' = recorded (onScreenCharacters s2) 0 (shown_text s2)"
    "sh_trace s' = sh_trace s2 @ map GrCall (text_calls s (shown_text s2))"
    using SetText_text [OF screen_wfD(1,2) [OF wf2]] vis
    by (auto simp: s2_def text_partD [OF part1] text_calls_def)
  define sf where "sf = gr_calls [SwapBuffers] s'"
  have flush: "ShellFlushStdOut s = Some sf"
    using n(1) s1 j(1) s'(1) by (simp add: ShellFlushStdOut_def s2_def sf_def)
  have part: "text_part sf = text_part s2" using s'(2) by (simp add: sf_def)
  have shown': "shown_text sf = shown_text s2" by (rule shown_text_part [OF part])
  have first: "text_part (sf\<lparr>firstDisplayChar := firstDisplayChar s\<rparr>) = text_part s"
    using part part1 by (cases s; cases s1; cases sf) (simp add: text_part_def s2_def)
  have "shown_text s2 ! i \<noteq> 127" if "i < length (shown_text s2)" for i
    using shown_127 [OF wf2] nth_mem [OF that] by metis
  hence on127: "onScreenCharacters sf i \<noteq> 127" for i
    using screen_wfD(3) [OF wf2] by (simp add: sf_def s'(3) recorded_def)
  have on: "on_screen sf 0 = takeWhile (\<lambda>c. c \<noteq> 0) (shown_text sf)"
    unfolding shown' by (rule on_screen_recorded [of z])
      (simp_all add: z_def length_shown sf_def s'(3), simp add: s2_def s1_def z_def)
  have trace: "sh_trace sf = sh_trace s @
      map GrCall (erase_calls s @ text_calls s (shown_text sf) @ [SwapBuffers])"
    unfolding shown' by (simp add: sf_def s'(4)) (simp add: s2_def s1_def)
  show thesis
    using that [OF flush first screen_wf_part [OF part wf2 on127]] shown d fits on trace
    by (simp add: shown')
qed

text \<open>
  C29: flushing the shell's output ends and shows the end of the text. Of the text
  on display it drops the shortest beginning that completes as many lines as the text
  has too many (nothing, when the text fits), and what is left fits in the lines of
  the screen. A line that ends by wrapping is completed by the character that has no
  room in it any more, so this character is dropped with the line, although it would
  be the first of the next one: more than necessary can go, as
  \<open>scroll_drops_wrapped_character\<close> below shows. The flush first clears what the screen
  showed, then draws every character that is left at its place in the layout, and swaps
  the buffers last. Nothing but the first displayed character changes in the rest of
  the state.
\<close>

theorem ShellFlushStdOut_correct:
  assumes "screen_wf s" "unat (consoleWidth s) < 2147483639"
  shows "\<exists>s' d. ShellFlushStdOut s = Some s' \<and> screen_wf s' \<and>
    shown_text s = d @ shown_text s' \<and>
    text_lines (consoleWidth s) d = lines_to_scroll s \<and>
    (d \<noteq> [] \<longrightarrow> text_lines (consoleWidth s) (butlast d) < lines_to_scroll s) \<and>
    text_lines (consoleWidth s) (shown_text s') < unat (numLines s) \<and>
    sh_trace s' = sh_trace s @
      map GrCall (erase_calls s @ text_calls s (shown_text s') @ [SwapBuffers]) \<and>
    text_part (s'\<lparr>firstDisplayChar := firstDisplayChar s\<rparr>) = text_part s"
proof -
  obtain s' d where "ShellFlushStdOut s = Some s'"
    "text_part (s'\<lparr>firstDisplayChar := firstDisplayChar s\<rparr>) = text_part s" "screen_wf s'"
    "shown_text s = d @ shown_text s'" "text_lines (consoleWidth s) d = lines_to_scroll s"
    "d \<noteq> [] \<longrightarrow> text_lines (consoleWidth s) (butlast d) < lines_to_scroll s"
    "text_lines (consoleWidth s) (shown_text s') < unat (numLines s)"
    "sh_trace s' = sh_trace s @ map GrCall (erase_calls s @ text_calls s (shown_text s') @ [SwapBuffers])"
    using FlushStdOut_text [OF assms] .
  thus ?thesis by blast
qed

lemma numLines_CreateShell: "numLines (CreateShell w h) \<noteq> 0"
proof -
  have "x - 1 \<noteq> 0" if "1 < x" for x :: u32 using that by auto
  thus ?thesis by (simp add: CreateShell_def gr_calls_def Let_def)
qed

lemma screen_wf_CreateShell: "screen_wf (CreateShell w h)"
  using ring_wf_CreateShell [of w h] numLines_CreateShell [of w h]
  by (simp add: screen_wf_def CreateShell_def gr_calls_def Let_def)

lemma CreateShell_fields [simp]:
  "consoleWidth (CreateShell w h) = w" "promptText (CreateShell w h) = ''DexprOS # ''"
  "commandCharacters (CreateShell w h) = replicate 256 0" "numCommandCharacters (CreateShell w h) = 0"
  "commandPromptEnabled (CreateShell w h) = False" "onScreenCharacters (CreateShell w h) = (\<lambda>_. 0)"
  "displayCharacters (CreateShell w h) = (\<lambda>_. 0)"
  by (simp_all add: CreateShell_def gr_calls_def Let_def)

lemma screen_wf_put1:
  assumes "screen_wf s" "c \<noteq> 127"
  shows "screen_wf (put1 c s)"
  using assms ring_wf_put1 [OF screen_wfD(1) [OF assms(1)], of c]
  by (simp add: screen_wf_def put1_eq)

lemma screen_wf_puts:
  assumes "screen_wf s" "127 \<notin> set cs"
  shows "screen_wf (fold put1 cs s)"
  using assms by (induction cs arbitrary: s) (simp_all add: screen_wf_put1)

lemma put1_fields [simp]:
  "consoleWidth (put1 c s) = consoleWidth s" "numLines (put1 c s) = numLines s"
  "onScreenCharacters (put1 c s) = onScreenCharacters s" "backgroundColor (put1 c s) = backgroundColor s"
  "sh_trace (put1 c s) = sh_trace s" "commandCharacters (put1 c s) = commandCharacters s"
  "numCommandCharacters (put1 c s) = numCommandCharacters s"
  "commandPromptEnabled (put1 c s) = commandPromptEnabled s" "promptText (put1 c s) = promptText s"
  by (simp_all add: put1_eq)

lemma fold_put1_fields [simp]:
  "consoleWidth (fold put1 cs s) = consoleWidth s" "numLines (fold put1 cs s) = numLines s"
  "onScreenCharacters (fold put1 cs s) = onScreenCharacters s"
  "backgroundColor (fold put1 cs s) = backgroundColor s" "sh_trace (fold put1 cs s) = sh_trace s"
  "commandCharacters (fold put1 cs s) = commandCharacters s"
  "numCommandCharacters (fold put1 cs s) = numCommandCharacters s"
  "commandPromptEnabled (fold put1 cs s) = commandPromptEnabled s" "promptText (fold put1 cs s) = promptText s"
  by (induction cs arbitrary: s) simp_all

subsection \<open>Concrete screens\<close>

definition abcde :: shell where
  "abcde = ShellPuts (CreateShell 18 54) (Some ''abcde'')"

lemma c_string_abcde: "c_string ''abcde'' = [97, 98, 99, 100, 101]"
  by (simp add: c_string_def char32_def)

lemma abcde_wf: "screen_wf abcde" "unat (consoleWidth abcde) < 2147483639"
proof -
  show "screen_wf abcde" unfolding abcde_def ShellPuts_fold c_string_abcde
    by (rule screen_wf_puts [OF screen_wf_CreateShell]) simp
qed (simp add: abcde_def ShellPuts_fold)

lemma abcde_shown: "shown_text abcde = [97, 98, 99, 100, 101]"
  unfolding abcde_def ShellPuts_fold c_string_abcde shell_shown.contents_fold [OF ring_wf_CreateShell]
  by (simp add: last_n_def)

lemma text_lines_18:
  "text_lines 18 [] = 0" "text_lines 18 [97] = 0" "text_lines 18 [97, 98] = 0"
  "text_lines 18 [97, 98, 99] = 1" "text_lines 18 [97, 98, 99, 100] = 1"
  "text_lines 18 [97, 98, 99, 100, 101] = 2" "text_lines 18 [99, 100, 101] = 1"
  by (simp_all add: text_lines_def flow_nat_def advance_of_def printable_def)

lemma abcde_fields: "consoleWidth abcde = 18" "numLines abcde = 2"
  by (simp_all add: abcde_def ShellPuts_fold)
    (simp add: CreateShell_def gr_calls_def Let_def BuiltInBitmapFontGetLineHeight_def font_lineHeight_def)

lemma abcde_split:
  assumes "[97, 98, 99, 100, 101] = d @ r" "text_lines 18 d = 1" "d \<noteq> [] \<longrightarrow> text_lines 18 (butlast d) < 1"
  shows "d = [97, 98, 99] \<and> r = [100, 101]"
proof -
  have "d = take (length d) [97, 98, 99, 100, 101]" "r = drop (length d) [97, 98, 99, 100, 101]"
    using assms(1) by (simp_all)
  moreover have "length d \<le> 5" using arg_cong [OF assms(1), of length] by simp
  hence "length d = 0 \<or> length d = Suc 0 \<or> length d = 2 \<or> length d = 3 \<or> length d = 4 \<or> length d = 5"
    by arith
  ultimately show ?thesis using assms(2,3) by (auto simp: text_lines_18)
qed

lemma ShellFlushStdOut_correct_witness:
  "\<exists>s'. ShellFlushStdOut (CreateShell 640 480) = Some s' \<and> shown_text s' = []"
  using ShellFlushStdOut_correct [OF screen_wf_CreateShell, of 640 480] by auto

text \<open>
  when the scrolling stops at a line that ended by wrapping, the first
  character of the line that is on top afterwards is lost: on a screen of two lines
  of two characters, of \<open>abcde\<close> only \<open>de\<close> is left, although the last two lines are
  \<open>cd\<close> and \<open>e\<close>, and \<open>cde\<close> fits on the screen.
\<close>

theorem scroll_drops_wrapped_character:
  "\<exists>s'. ShellFlushStdOut abcde = Some s' \<and> shown_text s' = [100, 101] \<and>
    text_lines 18 [97, 98] = 0 \<and> text_lines 18 [97, 98, 99] = 1 \<and>
    text_lines 18 [99, 100, 101] < unat (numLines abcde)"
proof -
  have "lines_to_scroll abcde = 1"
    by (simp add: lines_to_scroll_def abcde_fields abcde_shown text_lines_18)
  then obtain s' d where s': "ShellFlushStdOut abcde = Some s'" "shown_text abcde = d @ shown_text s'"
    "text_lines 18 d = 1" "d \<noteq> [] \<longrightarrow> text_lines 18 (butlast d) < 1"
    using FlushStdOut_text [OF abcde_wf] unfolding abcde_fields by metis
  thus ?thesis using abcde_split [of d "shown_text s'"] by (auto simp: abcde_shown abcde_fields text_lines_18)
qed

subsection \<open>Erasing\<close>

fun erased_regions :: "gr_call \<Rightarrow> gr_region list" where
  "erased_regions (ClearScreenRegions rs _) = rs"
| "erased_regions _ = []"

lemma positions_chars: "p \<in> set (positions W t x y) \<Longrightarrow> fst p \<in> set t"
  by (induction W t x y rule: positions.induct) (auto split: if_splits)

lemma text_calls_regions:
  assumes "127 \<notin> set t"
  shows "set (concat (map blit_region (text_calls s t))) \<subseteq>
    (\<lambda>(c, x, y). glyph_region (metrics_of c) x y) ` set (positions (consoleWidth s) t 0 0)"
proof
  fix r
  assume "r \<in> set (concat (map blit_region (text_calls s t)))"
  then obtain c x y where p: "(c, x, y) \<in> set (positions (consoleWidth s) t 0 0)"
    "r \<in> set (concat (map blit_region (draw_calls (c, x, y))))"
    by (auto simp: text_calls_def)
  have "c \<noteq> 127" using positions_chars [OF p(1)] assms by auto
  hence "r = glyph_region (metrics_of c) x y" using p(2) by (auto simp: DrawGlyph_eq(2) split: if_splits)
  thus "r \<in> (\<lambda>(c, x, y). glyph_region (metrics_of c) x y) ` set (positions (consoleWidth s) t 0 0)"
    using p(1) by force
qed

lemma erase_calls_regions:
  "set (concat (map erased_regions (erase_calls s))) =
    (\<lambda>(c, x, y). glyph_region (metrics_of c) x y) ` set (positions (consoleWidth s) (on_screen s 0) 0 0)"
  by (force simp: erase_calls_def clear_call_def)

text \<open>
  what one flush draws, the next one erases before it draws: if no character
  of the text is zero, every rectangle that the flush blits is among those that the
  next flush clears, whatever was put into the ring in between.
\<close>

theorem flush_erases_previous:
  assumes "screen_wf s" "unat (consoleWidth s) < 2147483639" "0 \<notin> set (shown_text s)" "127 \<notin> set added"
  shows "\<exists>s' s''. ShellFlushStdOut s = Some s' \<and> ShellFlushStdOut (fold put1 added s') = Some s'' \<and>
    sh_trace s' = sh_trace s @
      map GrCall (erase_calls s @ text_calls s (shown_text s') @ [SwapBuffers]) \<and>
    sh_trace s'' = sh_trace s' @
      map GrCall (erase_calls s' @ text_calls s' (shown_text s'') @ [SwapBuffers]) \<and>
    set (concat (map blit_region (text_calls s (shown_text s')))) \<subseteq>
    set (concat (map erased_regions (erase_calls s')))"
proof -
  obtain s' d where s': "ShellFlushStdOut s = Some s'"
    "text_part (s'\<lparr>firstDisplayChar := firstDisplayChar s\<rparr>) = text_part s" "screen_wf s'"
    "shown_text s = d @ shown_text s'" "on_screen s' 0 = takeWhile (\<lambda>c. c \<noteq> 0) (shown_text s')"
    "sh_trace s' = sh_trace s @ map GrCall (erase_calls s @ text_calls s (shown_text s') @ [SwapBuffers])"
    using FlushStdOut_text [OF assms(1,2)] .
  have W: "consoleWidth s' = consoleWidth s" using text_partD(8) [OF s'(2)] by simp
  have wf: "screen_wf (fold put1 added s')" by (rule screen_wf_puts [OF s'(3) assms(4)])
  obtain s'' where s'': "ShellFlushStdOut (fold put1 added s') = Some s''"
    "sh_trace s'' = sh_trace (fold put1 added s') @ map GrCall (erase_calls (fold put1 added s') @
       text_calls (fold put1 added s') (shown_text s'') @ [SwapBuffers])"
    using FlushStdOut_text [OF wf] assms(2) W by (metis fold_put1_fields(1))
  have calls: "erase_calls (fold put1 added s') = erase_calls s'"
    "text_calls (fold put1 added s') t = text_calls s' t" for t
    by (simp_all add: erase_calls_def text_calls_def on_screen_def)
  have "on_screen s' 0 = shown_text s'"
    using assms(3) unfolding s'(4,5) by (auto simp: takeWhile_eq_all_conv)
  hence "set (concat (map blit_region (text_calls s (shown_text s')))) \<subseteq>
      set (concat (map erased_regions (erase_calls s')))"
    using text_calls_regions [OF shown_127 [OF s'(3)], of s] unfolding erase_calls_regions by (simp add: W)
  thus ?thesis using s'(1,6) s'' by (simp add: calls)
qed

lemma flush_erases_previous_witness:
  "\<exists>s' s''. ShellFlushStdOut abcde = Some s' \<and> ShellFlushStdOut (fold put1 [33] s') = Some s''"
  using flush_erases_previous [OF abcde_wf, of "[33]"] by (auto simp: abcde_shown)

end
