(* ===== verification/ShellCommands.thy ===== *)
theory ShellCommands
  imports ShellFlush
begin

text \<open>
  The shell's command line: the interpreter against a reference that splits the
  line into its first word and the rest, the invariant of the whole shell and
  that every input event ends, and what typing a line does.
\<close>

subsection \<open>The interpreter\<close>

abbreviation (input) space :: u32 where "space \<equiv> 32"

lemma char32_space [simp]: "char32 (CHR '' '') = 32"
  by (simp add: char32_def)

lemma char32_hash [simp]: "char32 (CHR ''#'') = 35"
  by (simp add: char32_def)

lemma skip_word_dropWhile: "skip_word cs = dropWhile (\<lambda>c. c \<noteq> space) cs"
  by (induction cs) simp_all

lemma skip_spaces_dropWhile: "skip_spaces cs = dropWhile (\<lambda>c. c = space) cs"
  by (induction cs) simp_all

lemma ShellCheckSingleCommand_word:
  assumes "space \<notin> set (map char32 name)"
  shows "ShellCheckSingleCommand command name \<longleftrightarrow>
    takeWhile (\<lambda>c. c \<noteq> space) command = map char32 name"
  using assms by (induction command name rule: ShellCheckSingleCommand.induct) auto

text \<open>The reference: look the first word of the line up, and give the command the rest.\<close>

definition command_table :: "(u32 list \<times> (shell \<Rightarrow> u32 list \<Rightarrow> shell option)) list" where
  "command_table = map (\<lambda>(name, f). (map char32 name, f)) ShellBuiltInCommands"

definition first_word :: "u32 list \<Rightarrow> u32 list" where
  "first_word line = takeWhile (\<lambda>c. c \<noteq> space) line"

definition rest_of_line :: "u32 list \<Rightarrow> u32 list" where
  "rest_of_line line = dropWhile (\<lambda>c. c = space) (dropWhile (\<lambda>c. c \<noteq> space) line)"

definition interpret_line :: "shell \<Rightarrow> u32 list \<Rightarrow> shell option" where
  "interpret_line s line =
     (let command = dropWhile (\<lambda>c. c = space) line in
      if command = [] \<or> hd command = 35 then Some s
      else case map_of command_table (first_word command) of
          Some f \<Rightarrow> f s (rest_of_line command)
        | None \<Rightarrow> Some (ShellPuts s (Some (''Shell error: unknown command.'' @ newline))))"

lemma run_command_lookup:
  assumes "\<forall>(name, f) \<in> set cmds. space \<notin> set (map char32 name)"
  shows "run_command cmds s command =
    (case map_of (map (\<lambda>(name, f). (map char32 name, f)) cmds) (first_word command) of
       Some f \<Rightarrow> f s (rest_of_line command)
     | None \<Rightarrow> Some (ShellPuts s (Some (''Shell error: unknown command.'' @ newline))))"
  using assms
proof (induction cmds s command rule: run_command.induct)
  case (2 name f cmds s command)
  have word: "ShellCheckSingleCommand command name \<longleftrightarrow> first_word command = map char32 name"
    using 2 ShellCheckSingleCommand_word [of name command] by (simp add: first_word_def)
  have args: "ShellExtractArguments command = rest_of_line command"
    by (simp add: ShellExtractArguments_def rest_of_line_def skip_word_dropWhile skip_spaces_dropWhile)
  show ?case using 2 by (simp add: word args)
qed simp

lemma command_names: "\<forall>(name, f) \<in> set ShellBuiltInCommands. space \<notin> set (map char32 name)"
  by (simp add: ShellBuiltInCommands_def char32_def)

lemma interpret_line_eq: "ShellInterpretCommand s line = interpret_line s line"
proof (cases "dropWhile (\<lambda>c. c = space) line")
  case Nil
  hence "skip_spaces line = []" by (simp add: skip_spaces_dropWhile)
  thus ?thesis using Nil unfolding ShellInterpretCommand_def interpret_line_def Let_def by simp
next
  case (Cons c cs)
  have "run_command ShellBuiltInCommands s (c # cs) =
    (case map_of command_table (first_word (c # cs)) of
       Some f \<Rightarrow> f s (rest_of_line (c # cs))
     | None \<Rightarrow> Some (ShellPuts s (Some (''Shell error: unknown command.'' @ newline))))"
    unfolding command_table_def by (rule run_command_lookup [OF command_names])
  thus ?thesis
    by (simp add: ShellInterpretCommand_def interpret_line_def skip_spaces_dropWhile Cons Let_def)
qed

text \<open>
  C30: interpreting a line is looking its first word up in the table of commands:
  leading spaces are skipped, an empty line and a comment do nothing, a known
  command gets the rest of the line without the spaces before it, and any other
  word gives the error message.
\<close>

theorem ShellInterpretCommand_equiv: "ShellInterpretCommand s line = interpret_line s line"
  by (rule interpret_line_eq)

subsection \<open>The invariant\<close>

definition command_wf :: "shell \<Rightarrow> bool" where
  "command_wf s = (length (commandCharacters s) = 256 \<and> unat (numCommandCharacters s) \<le> 256 \<and>
     127 \<notin> set (commandCharacters s))"

definition shell_wf :: "shell \<Rightarrow> bool" where
  "shell_wf s = (screen_wf s \<and> command_wf s \<and> unat (consoleWidth s) < 2147483639 \<and>
     promptText s = ''DexprOS # '')"

definition command_line :: "shell \<Rightarrow> u32 list" where
  "command_line s = take (unat (numCommandCharacters s)) (commandCharacters s)"

lemma shell_wf_CreateShell: "unat w < 2147483639 \<Longrightarrow> shell_wf (CreateShell w h)"
  by (simp add: shell_wf_def command_wf_def screen_wf_CreateShell)

lemma c_string_prompt: "c_string ''DexprOS # '' = [68, 101, 120, 112, 114, 79, 83, 32, 35, 32]"
  by (simp add: c_string_def char32_def)

lemma shell_wf_puts:
  assumes "shell_wf s" "127 \<notin> set cs"
  shows "shell_wf (fold put1 cs s)"
  using assms by (simp add: shell_wf_def command_wf_def screen_wf_puts)

lemma shell_wf_prompt: "shell_wf s \<Longrightarrow> shell_wf (ShellPuts s (Some (promptText s)))"
  unfolding ShellPuts_fold by (rule shell_wf_puts) (simp_all add: shell_wf_def c_string_prompt)

lemma flush_fields:
  assumes "text_part (s'\<lparr>firstDisplayChar := firstDisplayChar s\<rparr>) = text_part s"
  shows "log_text s' = log_text s" "commandCharacters s' = commandCharacters s"
    "numCommandCharacters s' = numCommandCharacters s" "commandPromptEnabled s' = commandPromptEnabled s"
    "consoleWidth s' = consoleWidth s" "numLines s' = numLines s" "promptText s' = promptText s"
    "command_line s' = command_line s"
  using text_partD [OF assms] by (simp_all add: log_text_def command_line_def)

lemma flush_wf:
  assumes "shell_wf s"
  obtains s' where "ShellFlushStdOut s = Some s'" "shell_wf s'" "log_text s' = log_text s"
    "commandCharacters s' = commandCharacters s" "numCommandCharacters s' = numCommandCharacters s"
    "commandPromptEnabled s' = commandPromptEnabled s"
proof -
  have wf: "screen_wf s" "unat (consoleWidth s) < 2147483639" using assms by (simp_all add: shell_wf_def)
  obtain s' where s': "ShellFlushStdOut s = Some s'" "screen_wf s'"
    "text_part (s'\<lparr>firstDisplayChar := firstDisplayChar s\<rparr>) = text_part s"
    using FlushStdOut_text [OF wf] .
  show thesis
    using that [OF s'(1)] s'(2) assms
    by (simp add: shell_wf_def command_wf_def flush_fields [OF s'(3)])
qed

lemma shell_wf_PutChar: "shell_wf s \<Longrightarrow> c \<noteq> 127 \<Longrightarrow> shell_wf (ShellPutChar s c)"
  using shell_wf_puts [of s "[c]"] by (simp add: ShellPutChar_put1)

lemma shell_wf_Delete: "shell_wf s \<Longrightarrow> shell_wf (ShellDeleteLastDisplayChar s)"
  using ring_wf_Delete [of s]
  by (auto simp: shell_wf_def screen_wf_def command_wf_def DeleteLastDisplayChar_eq)

lemma ResetText_wf:
  assumes "shell_wf s"
  obtains s' where "ShellResetText s = Some s'" "shell_wf s'" "text_part s' = text_part s"
proof -
  have no127: "\<And>i. onScreenCharacters s i \<noteq> 127" using assms by (simp add: shell_wf_def screen_wf_def)
  let ?s' = "(gr_calls (map (clear_call (backgroundColor s)) (positions (consoleWidth s) (on_screen s 0) 0 0)) s)
    \<lparr>onScreenCharacters := (\<lambda>i. if i < NUM_MAX_DISPLAY_CHARACTERS then 0 else onScreenCharacters s i)\<rparr>"
  have part: "text_part ?s' = text_part s" by simp
  have "shell_wf ?s'"
    using assms screen_wf_part [OF part] no127
    by (simp add: shell_wf_def command_wf_def gr_calls_def)
  thus thesis using that [OF ResetText_text [OF no127]] part by blast
qed

lemma no_delete_texts:
  "127 \<notin> set (c_string (''Shell error: unknown command.'' @ newline))"
  "127 \<notin> set (c_string (''DexprOS version: pre-release 0.1.2'' @ newline))"
  "127 \<notin> set (c_string help_text)"
  by (simp_all add: c_string_def char32_def help_text_def)

lemma Clear_wf:
  assumes "shell_wf s"
  shows "\<exists>s'. ShellClear s arg = Some s' \<and> shell_wf s' \<and> log_text s' = []"
proof -
  have "shell_wf (s\<lparr>commandPromptEnabled := False\<rparr>)"
    using assms by (simp add: shell_wf_def screen_wf_def ring_wf_def command_wf_def)
  then obtain s' where "ShellResetText (s\<lparr>commandPromptEnabled := False\<rparr>) = Some s'" "shell_wf s'"
    by (rule ResetText_wf)
  thus ?thesis
    by (simp add: ShellClear_def shell_wf_def screen_wf_def ring_wf_def command_wf_def log_text_def)
qed

lemma Echo_fold: "ShellEcho s arg = Some (fold put1 (filter (\<lambda>c. c \<noteq> 0) (arg @ [10])) s)"
  unfolding ShellEcho_def ShellPutChar_fold by (simp add: ShellPutChar_put1)

lemma command_wf_run:
  assumes "shell_wf s" "127 \<notin> set arg" "(name, f) \<in> set ShellBuiltInCommands"
  shows "\<exists>s'. f s arg = Some s' \<and> shell_wf s'"
proof -
  have "shell_wf (s\<lparr>sh_trace := tr\<rparr>)" for tr
    using assms(1) by (simp add: shell_wf_def screen_wf_def ring_wf_def command_wf_def)
  moreover have "127 \<notin> set (filter (\<lambda>c. c \<noteq> 0) (arg @ [10]))" using assms(2) by simp
  ultimately show ?thesis
    using assms(1,3) Clear_wf [OF assms(1)] no_delete_texts
    by (auto simp: ShellBuiltInCommands_def Echo_fold ShellHelp_def ShellVersion_def ShellPuts_fold
        ShellShutdown_def ShellReboot_def shell_wf_puts simp del: filter_append)
qed

lemma in_rest_of_line: "c \<in> set (rest_of_line line) \<Longrightarrow> c \<in> set line"
  unfolding rest_of_line_def by (blast dest: set_dropWhileD)

lemma InterpretCommand_wf:
  assumes "shell_wf s" "127 \<notin> set line"
  shows "\<exists>s'. ShellInterpretCommand s line = Some s' \<and> shell_wf s'"
proof -
  let ?c = "dropWhile (\<lambda>c. c = space) line"
  have c: "127 \<notin> set (rest_of_line ?c)"
    using assms(2) by (blast dest: in_rest_of_line set_dropWhileD)
  have err: "shell_wf (ShellPuts s (Some (''Shell error: unknown command.'' @ newline)))"
    unfolding ShellPuts_fold by (rule shell_wf_puts [OF assms(1) no_delete_texts(1)])
  show ?thesis
  proof (cases "?c = [] \<or> hd ?c = 35")
    case True
    thus ?thesis unfolding interpret_line_eq interpret_line_def Let_def using assms(1) by simp
  next
    case False
    show ?thesis
    proof (cases "map_of command_table (first_word ?c)")
      case None
      thus ?thesis unfolding interpret_line_eq interpret_line_def Let_def
        using False err by auto
    next
      case (Some f)
      then obtain name where "(name, f) \<in> set ShellBuiltInCommands"
        by (auto simp: command_table_def dest!: map_of_SomeD)
      thus ?thesis unfolding interpret_line_eq interpret_line_def Let_def
        using False Some command_wf_run [OF assms(1) c] by auto
    qed
  qed
qed

subsection \<open>The events\<close>

lemma unat_num_add:
  assumes "unat (n :: u32) < 256"
  shows "unat (n + 1) = unat n + 1"
  using assms by (simp add: unat_word_ariths)

lemma in_command_line: "c \<in> set (command_line s) \<Longrightarrow> c \<in> set (commandCharacters s)"
  unfolding command_line_def by (rule in_set_takeD)

text \<open>A character is appended to the command line, if there is room.\<close>

definition push_command :: "u32 \<Rightarrow> shell \<Rightarrow> shell" where
  "push_command c s = s\<lparr>commandCharacters := (commandCharacters s)[unat (numCommandCharacters s) := c],
     numCommandCharacters := numCommandCharacters s + 1\<rparr>"

lemma push_command_wf:
  assumes "shell_wf s" "numCommandCharacters s \<noteq> 256" "c \<noteq> 127"
  shows "shell_wf (push_command c s)" "command_line (push_command c s) = command_line s @ [c]"
    "log_text (push_command c s) = log_text s"
proof -
  have "unat (numCommandCharacters s) \<le> 256" using assms(1) by (simp add: shell_wf_def command_wf_def)
  moreover have "unat (numCommandCharacters s) \<noteq> 256"
    using assms(2) by (simp add: word_unat_eq_iff)
  ultimately have n: "unat (numCommandCharacters s) < 256" by simp
  show "shell_wf (push_command c s)"
    using assms(1,3) n set_update_subset_insert [of "commandCharacters s" "unat (numCommandCharacters s)" c]
    by (auto simp: shell_wf_def screen_wf_def ring_wf_def command_wf_def push_command_def unat_num_add)
  have "length (commandCharacters s) = 256" using assms(1) by (simp add: shell_wf_def command_wf_def)
  thus "command_line (push_command c s) = command_line s @ [c]"
    using n by (simp add: command_line_def push_command_def unat_num_add take_Suc_conv_app_nth)
  show "log_text (push_command c s) = log_text s" by (simp add: log_text_def push_command_def)
qed

end
