(* ===== verification/ShellEvents.thy ===== *)
theory ShellEvents
  imports ShellCommands
begin

text \<open>
  The shell's input events: every one of them ends and keeps the invariant in
  every state that the shell reaches, typing a line runs it as a command, and
  Backspace takes a typed character back.
\<close>

subsection \<open>Single events\<close>

definition prompt_chars :: "u32 list" where
  "prompt_chars = [68, 101, 120, 112, 114, 79, 83, 32, 35, 32]"

lemma puts_prompt:
  assumes "shell_wf s"
  shows "ShellPuts s (Some (promptText s)) = fold put1 prompt_chars s"
  using assms by (simp add: ShellPuts_fold shell_wf_def c_string_prompt prompt_chars_def)

lemma log_text_puts:
  assumes "shell_wf s"
  shows "log_text (fold put1 cs s) = last_n 65535 (log_text s @ cs)"
  using assms by (intro shell_log.contents_fold) (simp add: shell_wf_def screen_wf_def)

lemma log_text_bound: "length (log_text s) \<le> 65535"
  by (simp add: log_text_def ring_dist_bound)

lemma log_text_PutChar:
  assumes "shell_wf s"
  shows "log_text (ShellPutChar s c) = last_n 65535 (log_text s @ filter (\<lambda>c. c \<noteq> 0) [c])"
  using log_text_puts [OF assms, of "[c]"] last_n_short [OF log_text_bound]
  by (simp add: ShellPutChar_put1)

lemma length_command_line: "shell_wf s \<Longrightarrow> length (command_line s) = unat (numCommandCharacters s)"
  by (simp add: command_line_def shell_wf_def command_wf_def)

lemma PutChar_fields [simp]:
  "commandCharacters (ShellPutChar s c) = commandCharacters s"
  "numCommandCharacters (ShellPutChar s c) = numCommandCharacters s"
  "commandPromptEnabled (ShellPutChar s c) = commandPromptEnabled s"
  "command_line (ShellPutChar s c) = command_line s"
  by (simp_all add: ShellPutChar_put1 command_line_def)

lemma prompt_fields:
  assumes "shell_wf s"
  shows "\<exists>s'. ShellFlushStdOut (ShellPuts s (Some (promptText s))) = Some s' \<and> shell_wf s' \<and>
    log_text s' = last_n 65535 (log_text s @ prompt_chars) \<and>
    commandCharacters s' = commandCharacters s \<and> numCommandCharacters s' = numCommandCharacters s \<and>
    commandPromptEnabled s' = commandPromptEnabled s"
proof -
  have "127 \<notin> set prompt_chars" by (simp add: prompt_chars_def)
  then obtain s' where "ShellFlushStdOut (fold put1 prompt_chars s) = Some s'" "shell_wf s'"
    "log_text s' = log_text (fold put1 prompt_chars s)"
    "commandCharacters s' = commandCharacters (fold put1 prompt_chars s)"
    "numCommandCharacters s' = numCommandCharacters (fold put1 prompt_chars s)"
    "commandPromptEnabled s' = commandPromptEnabled (fold put1 prompt_chars s)"
    using flush_wf [OF shell_wf_puts [OF assms]] by metis
  thus ?thesis by (simp add: puts_prompt [OF assms] log_text_puts [OF assms])
qed

lemma ActivatePrompt_wf:
  assumes "shell_wf s"
  shows "\<exists>s'. ShellActivatePrompt s = Some s' \<and> shell_wf s' \<and> commandPromptEnabled s' \<and>
    log_text s' = last_n 65535 (log_text s @ prompt_chars) \<and> command_line s' = command_line s"
proof -
  let ?s = "s\<lparr>commandPromptEnabled := True\<rparr>"
  have "shell_wf ?s" using assms by (simp add: shell_wf_def screen_wf_def ring_wf_def command_wf_def)
  from prompt_fields [OF this] show ?thesis
    by (auto simp: ShellActivatePrompt_def Let_def log_text_def command_line_def)
qed

lemma CharacterEvent_char:
  assumes "shell_wf s" "commandPromptEnabled s" "c \<noteq> 10" "c \<noteq> 127" "length (command_line s) < 256"
  shows "\<exists>s'. ShellKeyboardCharacterEvent s c = Some s' \<and> shell_wf s' \<and> commandPromptEnabled s' \<and>
    command_line s' = command_line s @ [c] \<and>
    log_text s' = last_n 65535 (log_text s @ filter (\<lambda>c. c \<noteq> 0) [c])"
proof -
  have n: "numCommandCharacters s \<noteq> 256" using assms(5) length_command_line [OF assms(1)] by auto
  note push = push_command_wf [OF assms(1) n assms(4)]
  have wf: "shell_wf (ShellPutChar (push_command c s) c)" by (rule shell_wf_PutChar [OF push(1) assms(4)])
  obtain s' where s': "ShellFlushStdOut (ShellPutChar (push_command c s) c) = Some s'" "shell_wf s'"
    "log_text s' = log_text (ShellPutChar (push_command c s) c)"
    "commandCharacters s' = commandCharacters (ShellPutChar (push_command c s) c)"
    "numCommandCharacters s' = numCommandCharacters (ShellPutChar (push_command c s) c)"
    "commandPromptEnabled s' = commandPromptEnabled (ShellPutChar (push_command c s) c)"
    using flush_wf [OF wf] .
  have "ShellKeyboardCharacterEvent s c = ShellFlushStdOut (ShellPutChar (push_command c s) c)"
    using assms(2,3) n by (simp add: ShellKeyboardCharacterEvent_def push_command_def Let_def)
  moreover have "command_line s' = command_line (push_command c s)"
    using s'(4,5) by (simp add: command_line_def)
  moreover have "commandPromptEnabled s'" using s'(6) assms(2) by (simp add: push_command_def)
  ultimately show ?thesis
    using s'(1-3) push by (simp add: log_text_PutChar [OF push(1)] del: filter.simps)
qed

lemma commands_keep_prompt:
  assumes "(name, f) \<in> set ShellBuiltInCommands" "f s arg = Some s'" "commandPromptEnabled s"
  shows "commandPromptEnabled s'"
  using assms by (auto simp: ShellBuiltInCommands_def Echo_fold ShellClear_def ShellHelp_def
      ShellVersion_def ShellShutdown_def ShellReboot_def ShellPuts_fold simp del: filter_append
      split: Option.bind_splits)

lemma interpret_line_prompt:
  assumes "interpret_line s line = Some s'" "commandPromptEnabled s"
  shows "commandPromptEnabled s'"
  using assms commands_keep_prompt
  by (auto simp: interpret_line_def Let_def command_table_def ShellPuts_fold dest!: map_of_SomeD
      split: if_splits option.splits)

lemma CharacterEvent_enter:
  assumes "shell_wf s" "commandPromptEnabled s"
  shows "\<exists>s1 s'. interpret_line (ShellPutChar s 10) (command_line s) = Some s1 \<and>
    ShellKeyboardCharacterEvent s 10 = Some s' \<and> shell_wf s' \<and> commandPromptEnabled s' \<and>
    command_line s' = [] \<and> log_text s' = last_n 65535 (log_text s1 @ prompt_chars)"
proof -
  have wf: "shell_wf (ShellPutChar s 10)" by (rule shell_wf_PutChar [OF assms(1)]) simp
  have "127 \<notin> set (command_line s)"
    using assms(1) by (auto simp: shell_wf_def command_wf_def dest: in_command_line)
  then obtain s1 where s1: "ShellInterpretCommand (ShellPutChar s 10) (command_line s) = Some s1" "shell_wf s1"
    using InterpretCommand_wf [OF wf] by blast
  let ?s2 = "s1\<lparr>commandCharacters := replicate NUM_MAX_COMMAND_CHARACTERS 0, numCommandCharacters := 0\<rparr>"
  have wf2: "shell_wf ?s2"
    using s1(2) by (simp add: shell_wf_def screen_wf_def ring_wf_def command_wf_def)
  obtain s' where s': "ShellFlushStdOut (ShellPuts ?s2 (Some (promptText ?s2))) = Some s'" "shell_wf s'"
    "log_text s' = last_n 65535 (log_text ?s2 @ prompt_chars)"
    "numCommandCharacters s' = 0" "commandPromptEnabled s' = commandPromptEnabled s1"
    using prompt_fields [OF wf2] by auto
  have int: "interpret_line (ShellPutChar s 10) (command_line s) = Some s1"
    using s1(1) by (simp add: interpret_line_eq)
  have "ShellKeyboardCharacterEvent s 10 = Some s'"
    using assms(2) s1(1) s'(1)
    by (simp add: ShellKeyboardCharacterEvent_def Let_def command_line_def)
  moreover have "command_line s' = []" using s'(4) by (simp add: command_line_def)
  moreover have "log_text ?s2 = log_text s1" by (simp add: log_text_def)
  moreover have "commandPromptEnabled s1"
    by (rule interpret_line_prompt [OF int]) (simp add: assms(2))
  ultimately show ?thesis using int s' by auto
qed

lemma KeyEvent_backspace:
  assumes "shell_wf s" "commandPromptEnabled s" "command_line s \<noteq> []"
    "st = KEY_STATE_PRESSED \<or> st = KEY_STATE_REPEAT"
  shows "\<exists>s'. ShellKeyboardKeyEvent s KEY_BACKSPACE st = Some s' \<and> shell_wf s' \<and>
    commandPromptEnabled s' \<and> command_line s' = butlast (command_line s) \<and>
    log_text s' = butlast (log_text s)"
proof -
  let ?n = "numCommandCharacters s"
  have n: "?n \<noteq> 0" using assms(3) by (auto simp: command_line_def)
  have n1: "unat (?n - 1) = unat ?n - 1" using n by (simp add: unat_minus_one)
  have len: "length (commandCharacters s) = 256" "unat ?n \<le> 256" "127 \<notin> set (commandCharacters s)"
    using assms(1) by (simp_all add: shell_wf_def command_wf_def)
  define s1 where "s1 = s\<lparr>numCommandCharacters := ?n - 1,
    commandCharacters := (commandCharacters s)[unat (?n - 1) := 0]\<rparr>"
  have "127 \<notin> set ((commandCharacters s)[unat (?n - 1) := 0])"
    using len(3) set_update_subset_insert [of "commandCharacters s" "unat (?n - 1)" 0] by auto
  hence wf1: "shell_wf s1"
    using assms(1) len n1
    by (simp add: shell_wf_def screen_wf_def ring_wf_def command_wf_def s1_def)
  have line: "command_line s1 = butlast (command_line s)"
    using len n by (simp add: command_line_def s1_def n1 butlast_take)
  have log: "log_text s1 = log_text s" by (simp add: log_text_def s1_def)
  let ?d = "ShellDeleteLastDisplayChar s1"
  have wfd: "shell_wf ?d" by (rule shell_wf_Delete [OF wf1])
  have d: "commandCharacters ?d = commandCharacters s1" "numCommandCharacters ?d = numCommandCharacters s1"
    "commandPromptEnabled ?d = commandPromptEnabled s1"
    by (simp_all add: DeleteLastDisplayChar_eq)
  obtain s' where s': "ShellFlushStdOut ?d = Some s'" "shell_wf s'" "log_text s' = log_text ?d"
    "commandCharacters s' = commandCharacters ?d" "numCommandCharacters s' = numCommandCharacters ?d"
    "commandPromptEnabled s' = commandPromptEnabled ?d"
    using flush_wf [OF wfd] .
  have "ring_wf s1" using wf1 by (simp add: shell_wf_def screen_wf_def)
  hence "log_text s' = butlast (log_text s)"
    using s'(3) by (simp add: log_text_Delete log)
  moreover have "command_line s' = command_line s1"
    using s'(4,5) d(1,2) by (simp add: command_line_def)
  moreover have "commandPromptEnabled s'" using s'(6) d(3) assms(2) by (simp add: s1_def)
  moreover have "ShellKeyboardKeyEvent s KEY_BACKSPACE st = Some s'"
    using assms(2,4) n s'(1) by (simp add: ShellKeyboardKeyEvent_def Let_def s1_def)
  ultimately show ?thesis using s'(2) line by simp
qed

subsection \<open>Every event ends\<close>

lemma ignored_events:
  "\<not> commandPromptEnabled s \<Longrightarrow> ShellKeyboardCharacterEvent s c = Some s"
  "\<not> commandPromptEnabled s \<Longrightarrow> ShellKeyboardKeyEvent s k st = Some s"
  "numCommandCharacters s = 256 \<Longrightarrow> c \<noteq> 10 \<Longrightarrow> ShellKeyboardCharacterEvent s c = Some s"
  "k \<noteq> KEY_BACKSPACE \<Longrightarrow> ShellKeyboardKeyEvent s k st = Some s"
  "st = KEY_STATE_RELEASED \<Longrightarrow> ShellKeyboardKeyEvent s k st = Some s"
  "numCommandCharacters s = 0 \<Longrightarrow> ShellKeyboardKeyEvent s k st = Some s"
  by (auto simp: ShellKeyboardCharacterEvent_def ShellKeyboardKeyEvent_def)

lemma CharacterEvent_wf:
  assumes "shell_wf s" "c \<noteq> 127"
  shows "\<exists>s'. ShellKeyboardCharacterEvent s c = Some s' \<and> shell_wf s'"
proof (cases "commandPromptEnabled s")
  case True
  have "length (command_line s) \<le> 256" using assms(1) by (simp add: length_command_line shell_wf_def command_wf_def)
  then consider "c = 10" | "c \<noteq> 10" "numCommandCharacters s = 256" | "c \<noteq> 10" "length (command_line s) < 256"
    using length_command_line [OF assms(1)] by (fastforce simp: word_unat_eq_iff)
  thus ?thesis
    using CharacterEvent_enter [OF assms(1) True] CharacterEvent_char [OF assms(1) True _ assms(2)]
      ignored_events(3) assms(1) by cases blast+
qed (simp add: ignored_events assms(1))

lemma KeyEvent_wf:
  assumes "shell_wf s"
  shows "\<exists>s'. ShellKeyboardKeyEvent s k st = Some s' \<and> shell_wf s'"
proof (cases "commandPromptEnabled s \<and> k = KEY_BACKSPACE \<and> st \<noteq> KEY_STATE_RELEASED \<and>
    numCommandCharacters s \<noteq> 0")
  case True
  have "command_line s \<noteq> []"
    using True length_command_line [OF assms] by (auto simp: unat_eq_0)
  moreover have "st = KEY_STATE_PRESSED \<or> st = KEY_STATE_REPEAT" using True by (cases st) auto
  ultimately show ?thesis using KeyEvent_backspace [OF assms, of st] True by auto
qed (use ignored_events assms in metis)

text \<open>
  The states that the shell gets into on a console of a given size: the kernel puts
  messages, flushes them and activates the prompt; the keyboard driver reports
  characters and keys.
\<close>

inductive shell_reachable :: "u32 \<Rightarrow> u32 \<Rightarrow> shell \<Rightarrow> bool" for w h where
  create: "shell_reachable w h (CreateShell w h)"
| puts: "shell_reachable w h s \<Longrightarrow> 127 \<notin> set (c_string msg) \<Longrightarrow> shell_reachable w h (ShellPuts s (Some msg))"
| flush: "shell_reachable w h s \<Longrightarrow> ShellFlushStdOut s = Some s' \<Longrightarrow> shell_reachable w h s'"
| prompt: "shell_reachable w h s \<Longrightarrow> ShellActivatePrompt s = Some s' \<Longrightarrow> shell_reachable w h s'"
| char: "shell_reachable w h s \<Longrightarrow> c \<noteq> 127 \<Longrightarrow> ShellKeyboardCharacterEvent s c = Some s' \<Longrightarrow>
    shell_reachable w h s'"
| key: "shell_reachable w h s \<Longrightarrow> ShellKeyboardKeyEvent s k st = Some s' \<Longrightarrow> shell_reachable w h s'"

lemma shell_reachable_wf:
  assumes "shell_reachable w h s" "unat w < 2147483639"
  shows "shell_wf s"
  using assms
proof (induction rule: shell_reachable.induct)
  case (puts s msg)
  thus ?case by (simp add: ShellPuts_fold shell_wf_puts)
next
  case (flush s s')
  thus ?case using flush_wf [of s] by (metis option.inject)
next
  case (prompt s s')
  thus ?case using ActivatePrompt_wf [of s] by auto
next
  case (char s c s')
  thus ?case using CharacterEvent_wf [of s c] by auto
next
  case (key s k st s')
  thus ?case using KeyEvent_wf [of s k st] by auto
qed (rule shell_wf_CreateShell)

text \<open>
  C18: in every state that the shell reaches on a screen narrower than 2147483639
  pixels, the indices of the ring stay inside it, the command line inside its 256
  elements, and every function that an event calls ends, whatever the event:
  flushing, activating the prompt, each character but 127, each key.
\<close>

theorem shell_safe:
  assumes "shell_reachable w h s" "unat w < 2147483639"
  shows "ring_wf s \<and> unat (numCommandCharacters s) \<le> length (commandCharacters s) \<and>
    length (commandCharacters s) = 256 \<and>
    ShellFlushStdOut s \<noteq> None \<and> ShellActivatePrompt s \<noteq> None \<and>
    (\<forall>c. c \<noteq> 127 \<longrightarrow> ShellKeyboardCharacterEvent s c \<noteq> None) \<and>
    (\<forall>k st. ShellKeyboardKeyEvent s k st \<noteq> None)"
proof -
  have wf: "shell_wf s" by (rule shell_reachable_wf [OF assms])
  have "ShellFlushStdOut s \<noteq> None" using flush_wf [OF wf] by auto
  moreover have "ShellActivatePrompt s \<noteq> None" using ActivatePrompt_wf [OF wf] by auto
  moreover have "ShellKeyboardCharacterEvent s c \<noteq> None" if "c \<noteq> 127" for c
    using CharacterEvent_wf [OF wf that] by auto
  moreover have "ShellKeyboardKeyEvent s k st \<noteq> None" for k st
    using KeyEvent_wf [OF wf, of k st] by auto
  ultimately show ?thesis using wf by (simp add: shell_wf_def screen_wf_def command_wf_def)
qed

lemma shell_safe_witness:
  "ShellKeyboardCharacterEvent (CreateShell 640 480) 65 \<noteq> None"
  using shell_safe [OF shell_reachable.create, of 640 480] by simp

subsection \<open>Typing\<close>

text \<open>
  Backspace takes a typed character back: the character event followed by the
  press of Backspace gives the command line and the text of before, unless the
  line or the ring is full.
\<close>

theorem backspace_undoes_character:
  assumes "shell_wf s" "commandPromptEnabled s" "c \<notin> {0, 10, 127}"
    "length (command_line s) < 256" "length (log_text s) < 65535"
  shows "\<exists>s1 s2. ShellKeyboardCharacterEvent s c = Some s1 \<and> command_line s1 = command_line s @ [c] \<and>
    log_text s1 = log_text s @ [c] \<and>
    ShellKeyboardKeyEvent s1 KEY_BACKSPACE KEY_STATE_PRESSED = Some s2 \<and>
    command_line s2 = command_line s \<and> log_text s2 = log_text s"
proof -
  have c: "c \<noteq> 0" "c \<noteq> 10" "c \<noteq> 127" using assms(3) by simp_all
  obtain s1 where s1: "ShellKeyboardCharacterEvent s c = Some s1" "shell_wf s1" "commandPromptEnabled s1"
    "command_line s1 = command_line s @ [c]" "log_text s1 = log_text s @ [c]"
    using CharacterEvent_char [OF assms(1,2) c(2,3) assms(4)] assms(5) c(1) by (auto simp: last_n_short)
  have "command_line s1 \<noteq> []" using s1(4) by simp
  from KeyEvent_backspace [OF s1(2,3) this] show ?thesis using s1 by fastforce
qed

fun type_chars :: "u32 list \<Rightarrow> shell \<Rightarrow> shell option" where
  "type_chars [] s = Some s"
| "type_chars (c # cs) s = do { s \<leftarrow> ShellKeyboardCharacterEvent s c; type_chars cs s }"

lemma type_chars_append: "type_chars (cs @ ds) s = do { s \<leftarrow> type_chars cs s; type_chars ds s }"
proof (induction cs arbitrary: s)
  case (Cons c cs)
  thus ?case by (cases "ShellKeyboardCharacterEvent s c") simp_all
qed simp

lemma type_chars_line:
  assumes "shell_wf s" "commandPromptEnabled s" "set cs \<inter> {0, 10, 127} = {}"
    "length (command_line s) + length cs \<le> 256"
  shows "\<exists>s'. type_chars cs s = Some s' \<and> shell_wf s' \<and> commandPromptEnabled s' \<and>
    command_line s' = command_line s @ cs \<and> log_text s' = last_n 65535 (log_text s @ cs)"
  using assms
proof (induction cs arbitrary: s)
  case Nil
  thus ?case by (simp add: last_n_short log_text_bound)
next
  case (Cons c cs)
  then obtain s1 where s1: "ShellKeyboardCharacterEvent s c = Some s1" "shell_wf s1" "commandPromptEnabled s1"
    "command_line s1 = command_line s @ [c]" "log_text s1 = last_n 65535 (log_text s @ [c])"
    using CharacterEvent_char [of s c] by auto
  obtain s' where "type_chars cs s1 = Some s' \<and> shell_wf s' \<and> commandPromptEnabled s' \<and>
      command_line s' = command_line s1 @ cs \<and> log_text s' = last_n 65535 (log_text s1 @ cs)"
    using Cons.IH [OF s1(2,3)] Cons.prems s1(4) by auto
  thus ?case using s1 by (auto simp: last_n_append)
qed

text \<open>
  C31: typing a line of at most 256 characters and Enter at an empty prompt runs it
  as a command: the line is echoed to the screen, the command gets it in a state
  with this text, and afterwards the command line is empty again and the prompt
  stands behind the command's output.
\<close>

theorem typed_line_runs:
  assumes "shell_wf s" "commandPromptEnabled s" "command_line s = []"
    "set cs \<inter> {0, 10, 127} = {}" "length cs \<le> 256"
  shows "\<exists>s1 s2 s'. log_text s1 = last_n 65535 (log_text s @ cs @ [10]) \<and> shell_wf s1 \<and>
    interpret_line s1 cs = Some s2 \<and> type_chars (cs @ [10]) s = Some s' \<and>
    shell_wf s' \<and> commandPromptEnabled s' \<and> command_line s' = [] \<and>
    log_text s' = last_n 65535 (log_text s2 @ prompt_chars)"
proof -
  obtain sa where sa: "type_chars cs s = Some sa" "shell_wf sa" "commandPromptEnabled sa"
    "command_line sa = cs" "log_text sa = last_n 65535 (log_text s @ cs)"
    using type_chars_line [OF assms(1,2,4)] assms(3,5) by auto
  obtain s2 s' where s': "interpret_line (ShellPutChar sa 10) cs = Some s2"
    "ShellKeyboardCharacterEvent sa 10 = Some s'" "shell_wf s'" "commandPromptEnabled s'"
    "command_line s' = []" "log_text s' = last_n 65535 (log_text s2 @ prompt_chars)"
    using CharacterEvent_enter [OF sa(2,3)] sa(4) by auto
  have "log_text (ShellPutChar sa 10) = last_n 65535 (log_text s @ cs @ [10])"
    by (simp add: log_text_PutChar [OF sa(2)] sa(5) last_n_append)
  moreover have "shell_wf (ShellPutChar sa 10)" by (rule shell_wf_PutChar [OF sa(2)]) simp
  moreover have "type_chars (cs @ [10]) s = Some s'" using sa(1) s'(2) by (simp add: type_chars_append)
  ultimately show ?thesis using s' by blast
qed

lemma typed_line_runs_witness:
  "\<exists>s s'. ShellActivatePrompt (CreateShell 640 480) = Some s \<and>
    type_chars [101, 99, 104, 111, 32, 104, 105, 10] s = Some s' \<and>
    log_text s' = prompt_chars @ [101, 99, 104, 111, 32, 104, 105, 10] @ [104, 105, 10] @ prompt_chars"
proof -
  have "shell_wf (CreateShell 640 480)" by (rule shell_wf_CreateShell) simp
  from ActivatePrompt_wf [OF this] obtain s where s: "ShellActivatePrompt (CreateShell 640 480) = Some s"
    "shell_wf s" "commandPromptEnabled s" "command_line s = []" "log_text s = prompt_chars"
    by (auto simp: command_line_def last_n_short prompt_chars_def)
  let ?line = "[101, 99, 104, 111, 32, 104, 105] :: u32 list"
  obtain s1 s2 s' where s': "log_text s1 = last_n 65535 (prompt_chars @ ?line @ [10])" "shell_wf s1"
    "interpret_line s1 ?line = Some s2" "type_chars (?line @ [10]) s = Some s'"
    "log_text s' = last_n 65535 (log_text s2 @ prompt_chars)"
    using typed_line_runs [OF s(2,3,4), of ?line] s(5) by auto
  have "interpret_line s1 ?line = ShellEcho s1 [104, 105]"
    by (simp add: interpret_line_def first_word_def rest_of_line_def command_table_def
        ShellBuiltInCommands_def char32_def)
  hence "s2 = fold put1 [104, 105, 10] s1" using s'(3) by (simp add: Echo_fold)
  hence "log_text s2 = prompt_chars @ ?line @ [10] @ [104, 105, 10]"
    using log_text_puts [OF s'(2), of "[104, 105, 10]"]
    by (simp add: s'(1) last_n_short prompt_chars_def del: fold_simps)
  thus ?thesis using s(1) s'(4,5) by (simp add: last_n_short prompt_chars_def)
qed

lemma backspace_undoes_character_witness:
  "\<exists>s s1 s2. ShellActivatePrompt (CreateShell 640 480) = Some s \<and>
    ShellKeyboardCharacterEvent s 97 = Some s1 \<and> command_line s1 = [97] \<and>
    ShellKeyboardKeyEvent s1 KEY_BACKSPACE KEY_STATE_PRESSED = Some s2 \<and> command_line s2 = []"
proof -
  have "shell_wf (CreateShell 640 480)" by (rule shell_wf_CreateShell) simp
  from ActivatePrompt_wf [OF this] obtain s where s: "ShellActivatePrompt (CreateShell 640 480) = Some s"
    "shell_wf s" "commandPromptEnabled s" "command_line s = []" "log_text s = prompt_chars"
    by (auto simp: command_line_def last_n_short prompt_chars_def)
  thus ?thesis
    using backspace_undoes_character [OF s(2,3), of 97] by (simp add: prompt_chars_def) blast
qed

end
