(* ===== verification/ShellKeyboard.thy ===== *)
theory ShellKeyboard
  imports PS2KeyboardTyping ShellEvents
begin

text \<open>
  The keyboard driver and the shell together: the driver's interrupt handler calls
  the shell's two event functions, in the order of its trace.
\<close>

fun deliver :: "kb_event list \<Rightarrow> shell \<Rightarrow> shell option" where
  "deliver [] sh = Some sh"
| "deliver (KbOut b p # es) sh = deliver es sh"
| "deliver (ShellKeyEvent k st # es) sh = do { sh \<leftarrow> ShellKeyboardKeyEvent sh k st; deliver es sh }"
| "deliver (ShellCharEvent c # es) sh = do { sh \<leftarrow> ShellKeyboardCharacterEvent sh c; deliver es sh }"

lemma letter_codepoint:
  assumes "KEY_A \<le> k" "k \<le> KEY_Z"
  shows "(if u then ucast k else ucast k + 32 :: u32) \<notin> {0, 10, 127}"
proof -
  have n: "65 \<le> unat k" "unat k \<le> 90" using assms by (simp_all add: word_le_nat_alt)
  have k: "unat (ucast k :: u32) = unat k" using n by (simp add: unsigned_ucast_eq take_bit_nat_eq_self)
  moreover have "unat (ucast k + 32 :: u32) = unat k + 32" using k n by (simp add: unat_word_ariths)
  ultimately show ?thesis using n by (auto simp: word_unat_eq_iff)
qed

text \<open>
  C32: a letter key ends up in the command line: with the US layout, the idle decoder
  and neither control nor an alt key down, the interrupt with the key's code makes
  the driver call the shell, which, with its prompt active and room in the line,
  appends the letter to the command line and to the text on the screen, in upper
  case when exactly one of shift and caps lock is active.
\<close>

theorem letter_reaches_command_line:
  assumes "decoder_idle s" "unicodeTable s = Some GetKeyboardLayout_US"
    and "table_key scanCode2SingleByteSet c = (k, ACTION_PRESSED)" "KEY_A \<le> k" "k \<le> KEY_Z"
    and "\<not> anyControlActive s" "\<not> leftAltActive s" "\<not> rightAltActive s"
    and "shell_wf sh" "commandPromptEnabled sh" "length (command_line sh) < 256"
  defines "letter \<equiv> (if anyShiftActive s \<noteq> capsLockActive s then ucast k else ucast k + 32)"
  shows "\<exists>s' es sh'. ProcessInterrupts status [c] s = Some s' \<and> kb_trace s' = kb_trace s @ es \<and>
    deliver es sh = Some sh' \<and> shell_wf sh' \<and> commandPromptEnabled sh' \<and>
    command_line sh' = command_line sh @ [letter] \<and>
    log_text sh' = last_n 65535 (log_text sh @ [letter])"
proof -
  let ?st = "if keyStates s k = KEY_STATE_RELEASED then KEY_STATE_PRESSED else KEY_STATE_REPEAT"
  let ?es = "[ShellKeyEvent k ?st, ShellCharEvent letter]"
  have run: "ProcessInterrupts status [c] s = Some (emit ?es (s\<lparr>keyStates := (keyStates s)(k := ?st)\<rparr>))"
    using letter_events [OF assms(1-5), of status] assms(6-8) by (simp add: letter_def)
  have "k \<noteq> KEY_BACKSPACE"
    using assms(5) by (auto simp: word_le_nat_alt)
  hence key: "ShellKeyboardKeyEvent sh k ?st = Some sh" by (rule ignored_events(4))
  have letter: "letter \<noteq> 0" "letter \<noteq> 10" "letter \<noteq> 127"
    using letter_codepoint [OF assms(4,5), of "anyShiftActive s \<noteq> capsLockActive s"]
    by (auto simp: letter_def)
  obtain sh' where "ShellKeyboardCharacterEvent sh letter = Some sh'" "shell_wf sh'"
    "commandPromptEnabled sh'" "command_line sh' = command_line sh @ [letter]"
    "log_text sh' = last_n 65535 (log_text sh @ [letter])"
    using CharacterEvent_char [OF assms(9,10) letter(2,3) assms(11)] letter(1) by auto
  thus ?thesis using run key by (auto simp: emit_def)
qed

lemma letter_reaches_command_line_witness:
  "\<exists>sh s' es sh'. ShellActivatePrompt (CreateShell 640 480) = Some sh \<and>
    ProcessInterrupts (\<lambda>_. 0) [0x1C] idle_state = Some s' \<and> kb_trace s' = kb_trace idle_state @ es \<and>
    deliver es sh = Some sh' \<and> command_line sh' = [97]"
proof -
  have "shell_wf (CreateShell 640 480)" by (rule shell_wf_CreateShell) simp
  from ActivatePrompt_wf [OF this] obtain sh where sh: "ShellActivatePrompt (CreateShell 640 480) = Some sh"
    "shell_wf sh" "commandPromptEnabled sh" "command_line sh = []"
    by (auto simp: command_line_def)
  have "table_key scanCode2SingleByteSet 0x1C = (KEY_A, ACTION_PRESSED)"
    unfolding table_key_def table_lengths by (simp add: scanCode2SingleByteSet_def)
  moreover have "decoder_idle idle_state" "unicodeTable idle_state = Some GetKeyboardLayout_US"
    by (simp_all add: decoder_idle_def idle_state_def zero_state_def)
  ultimately show ?thesis
    using letter_reaches_command_line [of idle_state "0x1C" KEY_A sh "\<lambda>_. 0"] sh
    by (simp add: idle_state_def zero_state_def) blast
qed

end
