(* ===== verification/UefiConsole.thy ===== *)
theory UefiConsole
  imports UefiMemory ShellKeyboard
begin

text \<open>
  What the boot code writes to the shell (src/src/Boot/x86_64-efi/UefiBoot.c: the functions
  \<open>MemTypeToString\<close> and \<open>testDisplayUint64Hex\<close>, and the end of \<open>efi_main\<close>).

  \<^item> A call of \<open>DexprOS_ShellPuts\<close> or \<open>testDisplayUint64Hex\<close> on the global shell is a
    \<open>console_op\<close>, and \<open>boot_report\<close> lists them in the order of the code.
  \<^item> The calls run with interrupts enabled. \<open>console_step\<close> has a step for the next call, and
    one for a keyboard interrupt in between, which calls the shell's event functions.
\<close>

subsection \<open>Texts\<close>

fun MemTypeToString :: "mem_type \<Rightarrow> string" where
  "MemTypeToString TYPE_UNUSABLE = ''DEXPROS_PHYSICAL_MEMORY_TYPE_UNUSABLE''"
| "MemTypeToString TYPE_FIRMWARE_RESERVED = ''DEXPROS_PHYSICAL_MEMORY_TYPE_FIRMWARE_RESERVED''"
| "MemTypeToString TYPE_UNACCEPTED = ''DEXPROS_PHYSICAL_MEMORY_TYPE_UNACCEPTED''"
| "MemTypeToString TYPE_USABLE = ''DEXPROS_PHYSICAL_MEMORY_TYPE_USABLE''"
| "MemTypeToString TYPE_USABLE_PERSISTENT = ''DEXPROS_PHYSICAL_MEMORY_TYPE_PERSISTENT''"
| "MemTypeToString TYPE_ACPI_RECLAIM = ''DEXPROS_PHYSICAL_MEMORY_TYPE_ACPI_RECLAIM''"
| "MemTypeToString TYPE_ACPI_NVS = ''DEXPROS_PHYSICAL_MEMORY_TYPE_ACPI_NVS''"
| "MemTypeToString TYPE_EFI_BOOT_SERVICES_CODE = ''DEXPROS_PHYSICAL_MEMORY_TYPE_EFI_BOOT_SERVICES_CODE''"
| "MemTypeToString TYPE_EFI_BOOT_SERVICES_DATA = ''DEXPROS_PHYSICAL_MEMORY_TYPE_EFI_BOOT_SERVICES_DATA''"
| "MemTypeToString TYPE_EFI_RUNTIME_SERVICES_CODE = ''DEXPROS_PHYSICAL_MEMORY_TYPE_EFI_RUNTIME_SERVICES_CODE''"
| "MemTypeToString TYPE_EFI_RUNTIME_SERVICES_DATA = ''DEXPROS_PHYSICAL_MEMORY_TYPE_EFI_RUNTIME_SERVICES_DATA''"
| "MemTypeToString TYPE_Max = ''DEXPROS_PHYSICAL_MEMORY_TYPE_Max''"

text \<open>The cases of the \<open>switch\<close>; there is none above 15.\<close>

definition hex_character :: "u8 \<Rightarrow> char option" where
  "hex_character v = (if v < 16 then Some (''0123456789ABCDEF'' ! unat v) else None)"

definition testDisplayUint64Hex :: "u64 \<Rightarrow> shell \<Rightarrow> shell" where
  "testDisplayUint64Hex value s =
     fold (\<lambda>i s. let singleCharValue = ucast (drop_bit (60 - i * 4) value AND 0xF)
         in case hex_character singleCharValue of None \<Rightarrow> s | Some c \<Rightarrow> ShellPutChar s (char32 c))
       [0..<16] (ShellPuts s (Some ''0x''))"

datatype console_op = Puts string | PutHex u64

fun console_call :: "console_op \<Rightarrow> shell \<Rightarrow> shell" where
  "console_call (Puts m) s = ShellPuts s (Some m)"
| "console_call (PutHex v) s = testDisplayUint64Hex v s"

definition welcome_report :: "console_op list" where
  "welcome_report = [Puts (''Welcome to DexprOS!'' @ newline @ newline),
     Puts (''DexprOS version: pre-release 0.1.2'' @ newline),
     Puts (''If you don't know what to do, type '' @ [CHR 0x22] @ ''help'' @ [CHR 0x22] @
       '' and hit Enter.'' @ newline @ newline)]"

definition paging_report :: "bool \<Rightarrow> bool \<Rightarrow> console_op list" where
  "paging_report has5 is5 =
     (if has5
      then [Puts (''5-level paging supported!'' @ newline @ newline)] @
        (if is5 then [Puts (''5-level paging active!'' @ newline @ newline)] else [])
      else [])"

definition range_report :: "phys_range \<Rightarrow> console_op list" where
  "range_report r =
     (if range_type r \<noteq> TYPE_USABLE \<and> range_type r \<noteq> TYPE_USABLE_PERSISTENT then []
      else [Puts ''Memory range start: '', PutHex (range_address r),
        Puts '', size: '', PutHex (range_size r),
        Puts '', type: '', Puts (MemTypeToString (range_type r)),
        Puts '', flags: '', PutHex (range_flags r), Puts newline])"

definition structs_report :: "init_map \<Rightarrow> u64 \<Rightarrow> u64 \<Rightarrow> phys_map \<Rightarrow> console_op list" where
  "structs_report initialMemMap pPhysicalMemData structsSize physicalMemMap =
     [Puts (newline @ ''Initial memory map address: ''), PutHex (im_pEntries initialMemMap),
      Puts (newline @ ''Num initial memory map entries: ''), PutHex (im_numEntries initialMemMap),
      Puts (newline @ ''Physical memory management structs address: ''), PutHex pPhysicalMemData,
      Puts '', size: '', PutHex structsSize,
      Puts (newline @ ''Num memory map range entries: ''), PutHex (map_numEntries physicalMemMap),
      Puts '', size: '', PutHex (map_numEntries physicalMemMap * 32),
      Puts (newline @ newline)]"

definition boot_report :: "bool \<Rightarrow> bool \<Rightarrow> init_map \<Rightarrow> u64 \<Rightarrow> u64 \<Rightarrow> phys_map \<Rightarrow> console_op list" where
  "boot_report has5 is5 initialMemMap pPhysicalMemData structsSize physicalMemMap =
     welcome_report @ paging_report has5 is5 @
     concat (map (\<lambda>i. range_report (map_pEntries physicalMemMap (of_nat i))) [0..<unat (map_numEntries physicalMemMap)]) @
     structs_report initialMemMap pPhysicalMemData structsSize physicalMemMap"

subsection \<open>Numbers\<close>

definition hex_text :: "u64 \<Rightarrow> string" where
  "hex_text v = ''0x'' @ map (\<lambda>i. ''0123456789ABCDEF'' ! (unat v div 16 ^ (15 - i) mod 16)) [0..<16]"

definition hex_digit :: "char \<Rightarrow> nat option" where
  "hex_digit c = (let n = of_char c :: nat in
     if 48 \<le> n \<and> n < 58 then Some (n - 48) else if 65 \<le> n \<and> n < 71 then Some (n - 55) else None)"

fun hex_digits :: "nat \<Rightarrow> string \<Rightarrow> nat option" where
  "hex_digits acc [] = Some acc"
| "hex_digits acc (c # cs) = do { d \<leftarrow> hex_digit c; hex_digits (16 * acc + d) cs }"

definition read_hex :: "string \<Rightarrow> u64 option" where
  "read_hex t = (if take 2 t = ''0x'' then map_option of_nat (hex_digits 0 (drop 2 t)) else None)"

lemma hex_characters:
  assumes "n < 16"
  shows "hex_digit (''0123456789ABCDEF'' ! n) = Some n" "''0123456789ABCDEF'' ! n \<noteq> CHR 0x00"
proof -
  have "list_all (\<lambda>n. hex_digit (''0123456789ABCDEF'' ! n) = Some n \<and> ''0123456789ABCDEF'' ! n \<noteq> CHR 0x00) [0..<16]"
    by code_simp
  thus "hex_digit (''0123456789ABCDEF'' ! n) = Some n" "''0123456789ABCDEF'' ! n \<noteq> CHR 0x00"
    using assms by (simp_all add: list_all_iff del: upt_rec_numeral)
qed

lemma hex_character_of:
  fixes v :: u64
  assumes "i < 16"
  shows "hex_character (ucast (drop_bit (60 - i * 4) v AND 0xF)) =
    Some (''0123456789ABCDEF'' ! (unat v div 16 ^ (15 - i) mod 16))"
proof -
  have "60 - i * 4 = 4 * (15 - i)" by simp
  hence pow: "(2 :: nat) ^ (60 - i * 4) = 16 ^ (15 - i)" by (simp only: power_mult) simp
  have low: "unat (drop_bit (60 - i * 4) v AND 0xF) = unat v div 2 ^ (60 - i * 4) mod 16"
  proof -
    have "drop_bit (60 - i * 4) v AND 0xF = take_bit 4 (drop_bit (60 - i * 4) v)"
      by (simp add: take_bit_eq_mask mask_eq_exp_minus_1)
    also have "unat \<dots> = unat v div 2 ^ (60 - i * 4) mod 16"
      using unsigned_less [of v, where ?'a = nat]
      unfolding unsigned_take_bit_eq unsigned_drop_bit_eq by (simp add: take_bit_eq_mod drop_bit_eq_div)
    finally show ?thesis .
  qed
  have cast: "unat (ucast w :: u8) = unat w" if "unat w < 16" for w :: u64
    using that by (simp add: unsigned_ucast_eq take_bit_nat_eq_self)
  have lt: "unat (drop_bit (60 - i * 4) v AND 0xF) < 16" unfolding low by simp
  have "unat (ucast (drop_bit (60 - i * 4) v AND 0xF) :: u8) = unat v div 16 ^ (15 - i) mod 16"
    unfolding cast [OF lt] low pow ..
  thus ?thesis by (simp add: hex_character_def word_less_nat_alt)
qed

lemma digits_of:
  assumes d: "\<And>n. n < 16 \<Longrightarrow> hex_digit (d n) = Some n"
  shows "k \<le> 16 \<Longrightarrow> hex_digits (n div 16 ^ (16 - k)) (map (\<lambda>i. d (n div 16 ^ (15 - i) mod 16)) [k..<16]) = Some n"
proof (induction "16 - k" arbitrary: k)
  case (Suc j)
  hence k: "k < 16" "j = 16 - Suc k" by simp_all
  have upt: "[k..<16] = k # [Suc k..<16]" using k(1) by (rule upt_conv_Cons)
  have "16 - k = Suc (15 - k)" using k(1) by simp
  hence "n div 16 ^ (16 - k) = n div 16 ^ (15 - k) div 16"
    by (simp only: power_Suc2 div_mult2_eq)
  hence acc: "16 * (n div 16 ^ (16 - k)) + n div 16 ^ (15 - k) mod 16 = n div 16 ^ (15 - k)"
    by simp
  have "15 - k = 16 - Suc k" by simp
  hence "hex_digits (n div 16 ^ (15 - k)) (map (\<lambda>i. d (n div 16 ^ (15 - i) mod 16)) [Suc k..<16]) = Some n"
    using Suc.hyps(1) [OF k(2)] k(1) by simp
  moreover have "hex_digit (d (n div 16 ^ (15 - k) mod 16)) = Some (n div 16 ^ (15 - k) mod 16)"
    by (rule d) simp
  ultimately show ?case
    unfolding upt list.map hex_digits.simps by (simp only: acc bind.bind_lunit)
qed simp

lemma read_hex_text: "read_hex (hex_text v) = Some v"
proof -
  have "unat v div 16 ^ 16 = 0" using unsigned_less [of v, where ?'a = nat] by (intro div_less) simp
  thus ?thesis using digits_of [OF hex_characters(1), where k = 0 and n = "unat v"]
    by (simp add: read_hex_def hex_text_def del: upt_rec_numeral)
qed

lemma no_null_hex: "CHR 0x00 \<notin> set (hex_text v)"
  by (auto simp: hex_text_def hex_characters(2) [THEN not_sym])

lemma c_string_all: "CHR 0x00 \<notin> set m \<Longrightarrow> c_string m = map char32 m"
  unfolding c_string_def by (subst takeWhile_eq_all_conv [THEN iffD2]) auto

lemma char32_inj: "char32 c = char32 d \<longleftrightarrow> c = d"
proof
  assume "char32 c = char32 d"
  hence bits: "bit (scast (of_char c :: u8) :: u32) n = bit (scast (of_char d :: u8) :: u32) n" for n
    by (simp add: char32_def)
  have "bit (of_char c :: u8) n = bit (of_char d :: u8) n" if "n < 8" for n
  proof -
    have "min (LENGTH(8) - Suc 0) n = n" using that by simp
    thus ?thesis using bits [of n] that unfolding bit_signed_iff by simp
  qed
  hence "(of_char c :: u8) = of_char d" by (intro bit_word_eqI) simp
  hence "unat (of_nat (of_char c) :: u8) = unat (of_nat (of_char d) :: u8)" by (simp add: of_nat_of_char)
  hence "(of_char c :: nat) = of_char d" by (simp add: unat_of_nat take_bit_eq_mod)
  thus "c = d" by (simp only: of_char_eq_iff)
qed simp

lemma char32_null: "char32 c = 0 \<longleftrightarrow> c = CHR 0x00"
  using char32_inj [of c "CHR 0x00"] by (simp add: char32_def)

lemma char32_delete: "char32 c = 127 \<longleftrightarrow> c = CHR 0x7F"
  using char32_inj [of c "CHR 0x7F"] by (simp add: char32_def)

lemma testDisplayUint64Hex_fold: "testDisplayUint64Hex v s = fold put1 (c_string (hex_text v)) s"
proof -
  let ?d = "\<lambda>i. ''0123456789ABCDEF'' ! (unat v div 16 ^ (15 - i) mod 16)"
  have digit: "?d i \<noteq> CHR 0x00" for i by (rule hex_characters(2)) simp
  have "fold (\<lambda>i s. case hex_character (ucast (drop_bit (60 - i * 4) v AND 0xF)) of None \<Rightarrow> s
      | Some c \<Rightarrow> ShellPutChar s (char32 c)) is s' = fold put1 (map (char32 \<circ> ?d) is) s'"
    if "set is \<subseteq> {..<16}" for "is" s'
    using that by (induction "is" arbitrary: s') (auto simp: hex_character_of ShellPutChar_put1 char32_null digit)
  from this [of "[0..<16]" "fold put1 (map char32 ''0x'') s"] have
    "testDisplayUint64Hex v s = fold put1 (map (char32 \<circ> ?d) [0..<16]) (fold put1 (map char32 ''0x'') s)"
    by (simp only: testDisplayUint64Hex_def Let_def ShellPuts_fold) (simp add: c_string_all atLeast0LessThan)
  also have "\<dots> = fold put1 (map char32 (hex_text v)) s"
    by (simp only: hex_text_def fold_append comp_apply map_append map_map)
  finally show ?thesis by (simp only: c_string_all [OF no_null_hex])
qed

subsection \<open>The text of the report\<close>

fun op_text :: "console_op \<Rightarrow> string" where
  "op_text (Puts m) = m"
| "op_text (PutHex v) = hex_text v"

definition report_text :: "console_op list \<Rightarrow> string" where
  "report_text ops = concat (map op_text ops)"

lemma console_call_fold: "console_call op s = fold put1 (c_string (op_text op)) s"
  by (cases op) (simp_all add: ShellPuts_fold testDisplayUint64Hex_fold)

lemma console_calls_fold:
  "CHR 0x00 \<notin> set (report_text ops) \<Longrightarrow> fold console_call ops s = fold put1 (map char32 (report_text ops)) s"
  by (induction ops arbitrary: s) (simp_all add: report_text_def console_call_fold c_string_all)

definition plain_text :: "string \<Rightarrow> bool" where
  "plain_text t = list_all (\<lambda>c. c \<noteq> CHR 0x00 \<and> c \<noteq> CHR 0x7F) t"

lemma plain_text_append [simp]: "plain_text (s @ t) \<longleftrightarrow> plain_text s \<and> plain_text t"
  "plain_text [] \<longleftrightarrow> True" "plain_text (c # s) \<longleftrightarrow> c \<noteq> CHR 0x00 \<and> c \<noteq> CHR 0x7F \<and> plain_text s"
  by (simp_all add: plain_text_def)

lemma plain_hex: "plain_text (hex_text v)"
proof -
  have "list_all (\<lambda>n. ''0123456789ABCDEF'' ! n \<noteq> CHR 0x00 \<and> ''0123456789ABCDEF'' ! n \<noteq> CHR 0x7F) [0..<16]"
    by code_simp
  hence "''0123456789ABCDEF'' ! n \<noteq> CHR 0x00 \<and> ''0123456789ABCDEF'' ! n \<noteq> CHR 0x7F" if "n < 16" for n
    using that by (simp add: list_all_iff del: upt_rec_numeral)
  hence "list_all (\<lambda>c. c \<noteq> CHR 0x00 \<and> c \<noteq> CHR 0x7F)
      (map (\<lambda>i. ''0123456789ABCDEF'' ! (unat v div 16 ^ (15 - i) mod 16)) is)" for "is"
    by (simp add: list_all_iff)
  thus ?thesis unfolding hex_text_def plain_text_append by (simp add: plain_text_def)
qed

lemma plain_type: "plain_text (MemTypeToString ty)"
  by (cases ty) simp_all

lemma plain_report: "list_all (plain_text \<circ> op_text) (boot_report has5 is5 im p n pm)"
proof -
  have "list_all (plain_text \<circ> op_text) (range_report r)" for r
    by (simp add: range_report_def plain_hex plain_type)
  hence "list_all (plain_text \<circ> op_text) (concat (map (\<lambda>i. range_report (f i)) is))" for f "is"
    by (induction "is") simp_all
  thus ?thesis
    by (simp add: boot_report_def welcome_report_def paging_report_def structs_report_def plain_hex)
qed

lemma plain_concat: "list_all (plain_text \<circ> op_text) ops \<Longrightarrow> plain_text (report_text ops)"
  by (induction ops) (simp_all add: report_text_def)

subsection \<open>Interrupts during the report\<close>

inductive console_step :: "console_op list \<times> shell \<Rightarrow> console_op list \<times> shell \<Rightarrow> bool" where
  call: "console_step (op # ops, s) (ops, console_call op s)"
| interrupt: "deliver es s = Some s' \<Longrightarrow> console_step (ops, s) (ops, s')"

inductive_cases console_stepE: "console_step (ops, s) c"

lemma prompt_off_calls: "\<not> commandPromptEnabled s \<Longrightarrow> \<not> commandPromptEnabled (console_call op s)"
proof -
  have "commandPromptEnabled (fold put1 cs s) = commandPromptEnabled s" for cs
    by (induction cs arbitrary: s) (simp_all add: put1_eq)
  thus "\<not> commandPromptEnabled s \<Longrightarrow> \<not> commandPromptEnabled (console_call op s)"
    by (simp add: console_call_fold)
qed

lemma deliver_prompt_off: "\<not> commandPromptEnabled s \<Longrightarrow> deliver es s = Some s"
  by (induction es s rule: deliver.induct)
    (simp_all add: ShellKeyboardKeyEvent_def ShellKeyboardCharacterEvent_def)

lemma console_step_rest:
  assumes "console_step (ops, s) (ops', s')" "\<not> commandPromptEnabled s"
  shows "\<not> commandPromptEnabled s' \<and> fold console_call ops' s' = fold console_call ops s"
  using assms by (auto elim!: console_stepE simp: prompt_off_calls deliver_prompt_off)

lemma console_steps_rest:
  assumes "console_step\<^sup>*\<^sup>* c c'" "\<not> commandPromptEnabled (snd c)"
  shows "\<not> commandPromptEnabled (snd c') \<and> fold console_call (fst c') (snd c') = fold console_call (fst c) (snd c)"
  using assms
proof induction
  case (step c' c'')
  thus ?case using console_step_rest [of "fst c'" "snd c'" "fst c''" "snd c''"] by simp
qed simp

subsection \<open>Properties\<close>

text \<open>
  A 64-bit number is appended to the shell's text as \<open>0x\<close> and 16 digits, from which the
  number can be read back.
\<close>

theorem testDisplayUint64Hex_roundtrip:
  assumes "ring_wf s"
  shows "\<exists>t. log_text (testDisplayUint64Hex v s) = last_n 65535 (log_text s @ map char32 t) \<and>
    length t = 18 \<and> read_hex t = Some v"
proof (intro exI conjI)
  show "log_text (testDisplayUint64Hex v s) = last_n 65535 (log_text s @ map char32 (hex_text v))"
    unfolding testDisplayUint64Hex_fold c_string_all [OF no_null_hex]
    by (rule shell_log.contents_fold [OF assms])
qed (simp_all add: read_hex_text, simp add: hex_text_def)

lemma testDisplayUint64Hex_roundtrip_witness:
  "\<exists>t. log_text (testDisplayUint64Hex 0x1F (CreateShell 640 480)) = last_n 65535 (map char32 t) \<and>
    read_hex t = Some 0x1F"
  using testDisplayUint64Hex_roundtrip [OF ring_wf_CreateShell, of "0x1F" 640 480] by auto

lemma boot_report_shown:
  fixes has5 is5 im p n pm w h
  assumes "unat w < 2147483639"
  defines "ops \<equiv> boot_report has5 is5 im p n pm"
  defines "s \<equiv> fold console_call ops (CreateShell w h)"
  shows "log_text s = last_n 65535 (map char32 (report_text ops))"
    "\<exists>s'. ShellActivatePrompt s = Some s' \<and> commandPromptEnabled s' \<and> command_line s' = [] \<and>
      log_text s' = last_n 65535 (log_text s @ prompt_chars)"
proof -
  let ?text = "report_text ops"
  have plain: "plain_text ?text" unfolding ops_def by (rule plain_concat [OF plain_report])
  have s: "s = fold put1 (map char32 ?text) (CreateShell w h)"
    unfolding s_def by (rule console_calls_fold) (use plain in \<open>simp add: plain_text_def list_all_iff; blast\<close>)
  note wf = shell_wf_CreateShell [OF assms(1), of h]
  have "127 \<notin> set (map char32 ?text)"
    using plain unfolding plain_text_def list_all_iff set_map image_iff by (metis char32_delete)
  hence "shell_wf s" unfolding s by (rule shell_wf_puts [OF wf])
  note prompt = ActivatePrompt_wf [OF this]
  show "log_text s = last_n 65535 (map char32 ?text)"
    using log_text_puts [OF wf, of "map char32 ?text"] by (simp only: s texts_CreateShell append_Nil)
  have "commandCharacters s = replicate 256 0" "numCommandCharacters s = 0"
    by (simp_all add: s)
  thus "\<exists>s'. ShellActivatePrompt s = Some s' \<and> commandPromptEnabled s' \<and> command_line s' = [] \<and>
      log_text s' = last_n 65535 (log_text s @ prompt_chars)"
    using prompt unfolding command_line_def by auto
qed

text \<open>
  C36: The boot report is not disturbed by the keyboard, although interrupts are enabled
  before it: whatever the keyboard interrupts deliver to the shell between the calls, the
  report is the shell's text afterwards, up to the size of the ring, and the prompt is
  activated behind it with an empty command line.
\<close>

theorem boot_report_uninterrupted:
  assumes "console_step\<^sup>*\<^sup>* (boot_report has5 is5 im p n pm, CreateShell w h) ([], s)"
    and "unat w < 2147483639"
  shows "log_text s = last_n 65535 (map char32 (report_text (boot_report has5 is5 im p n pm))) \<and>
    (\<exists>s'. ShellActivatePrompt s = Some s' \<and> commandPromptEnabled s' \<and> command_line s' = [] \<and>
      log_text s' = last_n 65535 (log_text s @ prompt_chars))"
proof -
  have "s = fold console_call (boot_report has5 is5 im p n pm) (CreateShell w h)"
    using console_steps_rest [OF assms(1)] by simp
  thus ?thesis using boot_report_shown [OF assms(2), of has5 is5 im p n pm h] by simp
qed

lemma console_runs: "console_step\<^sup>*\<^sup>* (ops, s) ([], fold console_call ops s)"
  by (induction ops arbitrary: s) (auto intro: converse_rtranclp_into_rtranclp console_step.call)

lemma boot_report_uninterrupted_witness:
  "\<forall>im pm. \<exists>s. console_step\<^sup>*\<^sup>* (boot_report True True im 0x1000 32 pm, CreateShell 640 480) ([], s) \<and>
    deliver [ShellKeyEvent 65 KEY_STATE_PRESSED, ShellCharEvent 65] (CreateShell 640 480) = Some (CreateShell 640 480) \<and>
    log_text s = last_n 65535 (map char32 (report_text (boot_report True True im 0x1000 32 pm)))"
proof (intro allI)
  fix im pm
  have run: "console_step\<^sup>*\<^sup>* (boot_report True True im 0x1000 32 pm, CreateShell 640 480)
      ([], fold console_call (boot_report True True im 0x1000 32 pm) (CreateShell 640 480))"
    by (rule console_runs)
  show "\<exists>s. console_step\<^sup>*\<^sup>* (boot_report True True im 0x1000 32 pm, CreateShell 640 480) ([], s) \<and>
    deliver [ShellKeyEvent 65 KEY_STATE_PRESSED, ShellCharEvent 65] (CreateShell 640 480) = Some (CreateShell 640 480) \<and>
    log_text s = last_n 65535 (map char32 (report_text (boot_report True True im 0x1000 32 pm)))"
    using boot_report_uninterrupted [OF run] run by (auto simp: deliver_prompt_off simp del: deliver.simps)
qed

end
