(* ===== verification/BootPageMapBuffer.thy ===== *)
theory BootPageMapBuffer
  imports EndBootPhase
begin

text \<open>
  The buffer that the boot loader allocates for the page tables: how it is divided, and
  that with memory maps as the firmware documents them the maps fit in their parts and
  the processor is switched to the identity map.
\<close>

subsection \<open>Memory maps\<close>

definition level_bits :: "page_map_setup_type \<Rightarrow> nat" where
  "level_bits ty = (if ty = PAGE_MAP_4_SETUP then 48 else 52)"

text \<open>
  Regions in the physical address space that do not overlap; what has to be mapped
  before the switch to 5 levels is reachable with 4.
\<close>

definition memory_map_ok :: "page_map_setup_type \<Rightarrow> u64 \<Rightarrow> u64 \<Rightarrow> efi_desc list \<Rightarrow> bool" where
  "memory_map_ok ty fb fbSize descs =
     ((\<forall>d \<in> set descs. ShouldIncludeInPageMap d \<longrightarrow> desc_fits (level_bits ty) d) \<and>
      (\<forall>d \<in> set descs. ShouldIncludeInTransitionalPageMap d \<longrightarrow> desc_fits 48 d) \<and>
      region_fits (level_bits ty) (unat fb) (unat fbSize) \<and> ranges_ok (initial_regions descs fb fbSize))"

lemma ranges_ok_subset: "ranges_ok Rs \<Longrightarrow> Rs' \<subseteq> Rs \<Longrightarrow> ranges_ok Rs'"
  unfolding ranges_ok_def by (auto intro: finite_subset dest: subsetD) (blast dest: subsetD)+

lemma transitional_included: "ShouldIncludeInTransitionalPageMap d \<Longrightarrow> ShouldIncludeInPageMap d"
  by (auto simp: ShouldIncludeInTransitionalPageMap_def ShouldIncludeInPageMap_def)

lemma transitional_ranges_ok:
  assumes "ranges_ok (initial_regions descs fb fbSize)"
  shows "ranges_ok (regions ShouldIncludeInTransitionalPageMap descs)"
  using assms by (rule ranges_ok_subset) (auto simp: regions_def transitional_included)

text \<open>The sizes of the three maps.\<close>

lemma page_map_4_size:
  assumes "memory_map_ok PAGE_MAP_4_SETUP fb fbSize descs"
  shows "\<exists>n. CalculateInitialPageMap4Size descs fb fbSize = Some n \<and>
    unat n = 4096 * Suc (card (tables_of 3 (initial_bytes descs fb fbSize)))"
  using assms InitialPageMap4_size by (simp add: memory_map_ok_def level_bits_def)

lemma page_map_5_size:
  assumes "memory_map_ok ty fb fbSize descs" "ty \<noteq> PAGE_MAP_4_SETUP"
  shows "\<exists>n. CalculateInitialPageMap5Size descs fb fbSize = Some n \<and>
    unat n = 4096 * Suc (card (tables_of 4 (initial_bytes descs fb fbSize)))"
  using assms InitialPageMap5_size by (simp add: memory_map_ok_def level_bits_def)

lemma transitional_size:
  assumes "memory_map_ok ty fb fbSize descs"
  shows "\<exists>n. CalculateTransitionalPageMap4Size descs = Some n \<and>
    unat n = 4096 * Suc (card (tables_of 3 (included_bytes ShouldIncludeInTransitionalPageMap descs)))"
  using assms unfolding memory_map_ok_def by (intro TransitionalPageMap4_size transitional_ranges_ok) auto

subsection \<open>The parts of the buffer\<close>

text \<open>The offset, the size and the alignment of each part, in the order of the buffer.\<close>

definition buffer_parts :: "u64 \<Rightarrow> page_map_setup_type \<Rightarrow> page_map_buffer \<Rightarrow> (u64 \<times> u64 \<times> nat) list" where
  "buffer_parts regionEnd ty pb =
     (case ty of
        PAGE_MAP_4_TO_5_TRANSITION \<Rightarrow>
          (if regionEnd < 4294967296
           then [(pm_pageMapOffset pb, pm_pageMapSize pb, 4096),
                 (pm_codeScratchBufferOffset pb, pm_codeScratchBufferSize pb, 16)]
           else [(pm_pageMapOffset pb, pm_pageMapSize pb, 4096),
                 (pm_tmpPageMap4BufferOffset pb, pm_tmpPageMap4BufferSize pb, 4096),
                 (pm_codeRellocBufferOffset pb, pm_codeRellocBufferSize pb, 4096),
                 (pm_codeScratchBufferOffset pb, pm_codeScratchBufferSize pb, 16)])
      | _ \<Rightarrow> [(pm_pageMapOffset pb, pm_pageMapSize pb, 4096)])"

text \<open>Parts from a place on that are aligned, follow each other and end by \<open>n\<close>.\<close>

fun parts_ok :: "nat \<Rightarrow> (u64 \<times> u64 \<times> nat) list \<Rightarrow> nat \<Rightarrow> bool" where
  "parts_ok k [] n = (k \<le> n)"
| "parts_ok k ((offset, bytes, align) # parts) n =
     (k \<le> unat offset \<and> align dvd unat offset \<and> parts_ok (unat offset + unat bytes) parts n)"

lemma unat_BOOT_ALIGN:
  assumes "unat x < 2 ^ 62" "k \<le> 12"
  shows "unat (BOOT_ALIGN x (2 ^ k)) = (unat x + (2 ^ k - 1)) div 2 ^ k * 2 ^ k"
proof -
  let ?y = "x + (2 ^ k - 1)"
  have p: "(2::nat) ^ k \<le> 2 ^ 12" using assms(2) by (intro power_increasing) simp_all
  have u: "unat (2 ^ k :: u64) = 2 ^ k" 
    using unat_u64_of_nat [of "2 ^ k"] p by simp
  have "unat (2 ^ k - 1 :: u64) = 2 ^ k - 1" by (subst unat_u64_minus) (simp_all add: u word_le_nat_alt)
  hence y: "unat ?y = unat x + (2 ^ k - 1)" using assms(1) p by (subst unat_u64_plus) simp_all
  have "BOOT_ALIGN x (2 ^ k) = ?y - take_bit k ?y"
    using ALIGN_eq [of x k] by (simp add: BOOT_ALIGN_def ALIGN_def)
  also have "\<dots> = ?y div 2 ^ k * 2 ^ k" by (simp add: take_bit_eq_mod minus_mod_eq_div_mult)
  finally have eq: "BOOT_ALIGN x (2 ^ k) = ?y div 2 ^ k * 2 ^ k" .
  have "(unat x + (2 ^ k - 1)) div 2 ^ k * 2 ^ k \<le> unat x + (2 ^ k - 1)" by simp
  also have "\<dots> < 18446744073709551616" using assms(1) p by simp
  finally show ?thesis unfolding eq by (subst unat_u64_mult) (simp_all add: unat_u64_div u y)
qed

lemma BOOT_ALIGN_bounds:
  assumes "unat x < 2 ^ 62" "k \<le> 12"
  shows "unat x \<le> unat (BOOT_ALIGN x (2 ^ k))" "unat (BOOT_ALIGN x (2 ^ k)) < unat x + 4096"
    "2 ^ k dvd unat (BOOT_ALIGN x (2 ^ k))"
proof -
  let ?y = "unat x + (2 ^ k - 1)"
  have p: "(2::nat) ^ k \<le> 2 ^ 12" using assms(2) by (intro power_increasing) simp_all
  note eq = unat_BOOT_ALIGN [OF assms]
  have "?y < ?y div 2 ^ k * 2 ^ k + 2 ^ k" using dividend_less_div_times [of "2 ^ k" ?y] by (simp add: add.commute)
  thus "unat x \<le> unat (BOOT_ALIGN x (2 ^ k))" unfolding eq by linarith
  have "?y div 2 ^ k * 2 ^ k \<le> ?y" by (rule div_times_less_eq_dividend)
  moreover have "?y < unat x + 4096" using p by simp
  ultimately show "unat (BOOT_ALIGN x (2 ^ k)) < unat x + 4096" unfolding eq by (rule le_less_trans)
  show "2 ^ k dvd unat (BOOT_ALIGN x (2 ^ k))" unfolding eq by simp
qed

lemmas BOOT_ALIGN_page = BOOT_ALIGN_bounds [where k = 12, simplified]
lemmas BOOT_ALIGN_scratch = BOOT_ALIGN_bounds [where k = 4, simplified]

text \<open>The bytes of the tables for a set of bytes; each level has at most \<open>2 ^ 36\<close> tables.\<close>

definition table_bytes :: "nat \<Rightarrow> nat set \<Rightarrow> nat" where
  "table_bytes k R = 4096 * Suc (card (tables_of k R))"

lemma table_bytes_small:
  assumes "finite R" "\<forall>a \<in> R. a < 2 ^ 57" "k \<le> 4"
  shows "table_bytes k R < 2 ^ 51"
proof -
  have "card (tables_of k R) \<le> k * 2 ^ 36"
  proof (induction k)
    case (Suc k)
    thus ?case using card_tables_of [OF assms(1), of k] card_block_small [OF assms(2), of "Suc k"] by simp
  qed simp
  also have "\<dots> \<le> 4 * 2 ^ 36" using assms(3) by (rule mult_le_mono1)
  finally show ?thesis by (simp add: table_bytes_def)
qed

lemma memory_map_ok_bytes:
  assumes "memory_map_ok ty fb fbSize descs"
  shows "\<forall>a \<in> initial_bytes descs fb fbSize. a < 2 ^ 57"
    "\<forall>a \<in> included_bytes ShouldIncludeInTransitionalPageMap descs. a < 2 ^ 57"
proof -
  have p: "(2::nat) ^ level_bits ty \<le> 2 ^ 57" by (simp add: level_bits_def)
  show all: "\<forall>a \<in> initial_bytes descs fb fbSize. a < 2 ^ 57"
    using assms p by (fastforce simp: memory_map_ok_def initial_bytes_def included_bytes_def desc_bytes_def region_fits_def)
  have "included_bytes ShouldIncludeInTransitionalPageMap descs \<subseteq> initial_bytes descs fb fbSize"
    by (auto simp: initial_bytes_def included_bytes_def transitional_included)
  thus "\<forall>a \<in> included_bytes ShouldIncludeInTransitionalPageMap descs. a < 2 ^ 57" using all by blast
qed

abbreviation page_map_bytes :: "page_map_setup_type \<Rightarrow> efi_desc list \<Rightarrow> u64 \<Rightarrow> u64 \<Rightarrow> nat" where
  "page_map_bytes ty descs fb fbSize \<equiv> table_bytes (if ty = PAGE_MAP_4_SETUP then 3 else 4) (initial_bytes descs fb fbSize)"

abbreviation transitional_bytes :: "efi_desc list \<Rightarrow> nat" where
  "transitional_bytes descs \<equiv> table_bytes 3 (included_bytes ShouldIncludeInTransitionalPageMap descs)"

lemma map_bytes_small:
  assumes "memory_map_ok ty fb fbSize descs"
  shows "page_map_bytes ty descs fb fbSize < 2 ^ 51" "transitional_bytes descs < 2 ^ 51"
  by (rule table_bytes_small [OF _ memory_map_ok_bytes(1) [OF assms]], simp_all add: initial_bytes_def)
    (rule table_bytes_small [OF _ memory_map_ok_bytes(2) [OF assms], simplified], simp_all)

text \<open>The sizes of the parts.\<close>

definition sized_for ::
  "u64 \<Rightarrow> u64 \<Rightarrow> page_map_setup_type \<Rightarrow> efi_desc list \<Rightarrow> u64 \<Rightarrow> u64 \<Rightarrow> page_map_buffer \<Rightarrow> bool" where
  "sized_for regionStart regionEnd ty descs fb fbSize pb =
     (unat (pm_pageMapSize pb) = page_map_bytes ty descs fb fbSize \<and>
      (ty = PAGE_MAP_4_TO_5_TRANSITION \<longrightarrow> pm_codeScratchBufferSize pb = SCRATCH_BUFFER_SIZE) \<and>
      (ty = PAGE_MAP_4_TO_5_TRANSITION \<and> \<not> regionEnd < 4294967296 \<longrightarrow>
        unat (pm_tmpPageMap4BufferSize pb) = transitional_bytes descs \<and>
        pm_codeRellocBufferSize pb = regionEnd - regionStart))"

text \<open>The tables, the code and at most four pages for the alignments and the scratch buffer.\<close>

definition needed_bytes :: "u64 \<Rightarrow> u64 \<Rightarrow> page_map_setup_type \<Rightarrow> efi_desc list \<Rightarrow> u64 \<Rightarrow> u64 \<Rightarrow> nat" where
  "needed_bytes regionStart regionEnd ty descs fb fbSize =
     page_map_bytes ty descs fb fbSize + transitional_bytes descs + unat (regionEnd - regionStart) + 16384"

definition buffer_ok_for ::
  "u64 \<Rightarrow> u64 \<Rightarrow> page_map_setup_type \<Rightarrow> efi_desc list \<Rightarrow> u64 \<Rightarrow> u64 \<Rightarrow> page_map_buffer \<Rightarrow> u64 \<Rightarrow> bool" where
  "buffer_ok_for regionStart regionEnd ty descs fb fbSize pb n =
     (parts_ok 0 (buffer_parts regionEnd ty pb) (unat n) \<and> unat n \<le> needed_bytes regionStart regionEnd ty descs fb fbSize \<and>
      sized_for regionStart regionEnd ty descs fb fbSize pb)"

lemma FillPageMap4Sizes_ok:
  assumes "memory_map_ok PAGE_MAP_4_SETUP fb fbSize descs"
  shows "\<exists>pb' n. FillPageMap4Sizes descs fb fbSize pb = Some (pb', n) \<and>
    buffer_ok_for regionStart regionEnd PAGE_MAP_4_SETUP descs fb fbSize pb' n"
  using page_map_4_size [OF assms] map_bytes_small(1) [OF assms]
  by (auto simp: FillPageMap4Sizes_def buffer_ok_for_def buffer_parts_def sized_for_def needed_bytes_def table_bytes_def)

lemma FillPageMap5Sizes_ok:
  assumes "memory_map_ok PAGE_MAP_5_SETUP fb fbSize descs"
  shows "\<exists>pb' n. FillPageMap5Sizes descs fb fbSize pb = Some (pb', n) \<and>
    buffer_ok_for regionStart regionEnd PAGE_MAP_5_SETUP descs fb fbSize pb' n"
  using page_map_5_size [OF assms] map_bytes_small(1) [OF assms]
  by (auto simp: FillPageMap5Sizes_def buffer_ok_for_def buffer_parts_def sized_for_def needed_bytes_def table_bytes_def)

lemma FillPageMap4To5SizesBelow4G_ok:
  assumes "memory_map_ok PAGE_MAP_4_TO_5_TRANSITION fb fbSize descs" and "regionEnd < 4294967296"
  shows "\<exists>pb' n. FillPageMap4To5SizesBelow4G descs fb fbSize pb = Some (pb', n) \<and>
    buffer_ok_for regionStart regionEnd PAGE_MAP_4_TO_5_TRANSITION descs fb fbSize pb' n"
proof -
  obtain s where s: "CalculateInitialPageMap5Size descs fb fbSize = Some s"
    "unat s = page_map_bytes PAGE_MAP_4_TO_5_TRANSITION descs fb fbSize"
    using page_map_5_size [OF assms(1)] by (auto simp: table_bytes_def)
  have small: "unat s < 2 ^ 51" using map_bytes_small(1) [OF assms(1)] s(2) by simp
  hence "unat s < 2 ^ 62" by simp
  note scratch = BOOT_ALIGN_scratch [simplified, OF this [simplified]]
  have "unat (BOOT_ALIGN s 16 + 128) = unat (BOOT_ALIGN s 16) + 128"
    using scratch(2) small by (subst unat_u64_plus) simp_all
  thus ?thesis using s small scratch assms(2)
    by (auto simp: FillPageMap4To5SizesBelow4G_def buffer_ok_for_def buffer_parts_def sized_for_def needed_bytes_def Let_def)
qed

lemma FillPageMap4To5SizesAbove4G_ok:
  assumes "memory_map_ok PAGE_MAP_4_TO_5_TRANSITION fb fbSize descs" and "\<not> regionEnd < 4294967296"
    and code: "unat (regionEnd - regionStart) < 2 ^ 51"
  shows "\<exists>pb' n. FillPageMap4To5SizesAbove4G regionStart regionEnd descs fb fbSize pb = Some (pb', n) \<and>
    buffer_ok_for regionStart regionEnd PAGE_MAP_4_TO_5_TRANSITION descs fb fbSize pb' n"
proof -
  obtain s where s: "CalculateInitialPageMap5Size descs fb fbSize = Some s"
    "unat s = page_map_bytes PAGE_MAP_4_TO_5_TRANSITION descs fb fbSize"
    using page_map_5_size [OF assms(1)] by (auto simp: table_bytes_def)
  obtain t where t: "CalculateTransitionalPageMap4Size descs = Some t" "unat t = transitional_bytes descs"
    using transitional_size [OF assms(1)] by (auto simp: table_bytes_def)
  have small: "unat s < 2 ^ 51" "unat t < 2 ^ 51" using map_bytes_small [OF assms(1)] s(2) t(2) by simp_all
  note align = BOOT_ALIGN_page [simplified] BOOT_ALIGN_scratch [simplified]
  let ?code = "regionEnd - regionStart"
  define o1 where "o1 = BOOT_ALIGN s 4096"
  have o1: "unat s \<le> unat o1" "unat o1 < unat s + 4096" "4096 dvd unat o1"
    unfolding o1_def using align [of s] small by simp_all
  have e1: "unat (o1 + t) = unat o1 + unat t" using o1(2) small by (subst unat_u64_plus) simp_all
  define o2 where "o2 = BOOT_ALIGN (o1 + t) 4096"
  have o2: "unat (o1 + t) \<le> unat o2" "unat o2 < unat (o1 + t) + 4096" "4096 dvd unat o2"
    unfolding o2_def using align [of "o1 + t"] e1 o1(2) small by simp_all
  have e2: "unat (o2 + ?code) = unat o2 + unat ?code"
    using o2(2) e1 o1(2) small code by (subst unat_u64_plus) simp_all
  define o3 where "o3 = BOOT_ALIGN (o2 + ?code) 16"
  have o3: "unat (o2 + ?code) \<le> unat o3" "unat o3 < unat (o2 + ?code) + 4096" "16 dvd unat o3"
    unfolding o3_def using align [of "o2 + ?code"] e2 o2(2) e1 o1(2) small code by simp_all
  have e3: "unat (o3 + 128) = unat o3 + 128"
    using o3(2) e2 o2(2) e1 o1(2) small code by (subst unat_u64_plus) simp_all
  have "unat (o3 + 128) \<le> needed_bytes regionStart regionEnd PAGE_MAP_4_TO_5_TRANSITION descs fb fbSize"
    using e3 o3(2) e2 o2(2) e1 o1(2) s(2) t(2) by (simp add: needed_bytes_def)
  thus ?thesis using s t o1 o2 o3 e1 e2 e3 assms(2)
    by (simp add: FillPageMap4To5SizesAbove4G_def buffer_ok_for_def buffer_parts_def sized_for_def Let_def
        flip: o1_def o2_def o3_def)
qed

lemma FillPageMapSizes_ok:
  assumes "memory_map_ok ty fb fbSize descs" and "unat (regionEnd - regionStart) < 2 ^ 51"
  shows "\<exists>pb' n. FillPageMapSizes regionStart regionEnd ty descs fb fbSize pb = Some (pb', n) \<and>
    buffer_ok_for regionStart regionEnd ty descs fb fbSize pb' n"
  using assms FillPageMap4Sizes_ok FillPageMap5Sizes_ok FillPageMap4To5SizesBelow4G_ok
    FillPageMap4To5SizesAbove4G_ok [OF _ _ assms(2)]
  by (cases ty) (simp_all add: FillPageMapSizes_def)

end
