(* ===== verification/BootPageMapSwitch.thy ===== *)
theory BootPageMapSwitch
  imports BootPageMapBuffer
begin

text \<open>
  The switch to the identity map: with a buffer of the size that was computed for the
  same memory map, the setup of every page map succeeds, the maps do not disturb each
  other, and the processor ends up with the identity map of its paging mode.
\<close>

subsection \<open>Parts of a buffer\<close>

lemma outside_same_part:
  assumes "outside_same (buf + off) lim m m'" "unat off + lim \<le> n"
  shows "outside_same buf n m m'"
  unfolding outside_same_def
proof (intro allI impI)
  fix a :: u64
  assume n: "n \<le> unat (a - buf)"
  have "a - (buf + off) = (a - buf) - off" by (simp add: algebra_simps)
  hence "unat (a - (buf + off)) = unat (a - buf) - unat off"
    using n assms(2) by (simp only:) (subst unat_u64_minus, simp_all add: word_le_nat_alt)
  hence "lim \<le> unat (a - (buf + off))" using n assms(2) by simp
  thus "m' a = m a" using assms(1) by (simp add: outside_same_def)
qed

lemma offset_inside:
  assumes "unat (a - buf) < lim" "unat (buf :: u64) + lim < 18446744073709551616"
  shows "unat a = unat buf + unat (a - buf)"
proof -
  have "unat (buf + (a - buf)) = unat buf + unat (a - buf)" using assms by (intro unat_u64_plus) simp
  thus ?thesis by simp
qed

lemma inside_same_apart:
  assumes "outside_same buf lim m m'"
    and "unat buf + lim < 18446744073709551616" "unat buf' + lim' < 18446744073709551616"
    and apart: "unat buf + lim \<le> unat buf' \<or> unat buf' + lim' \<le> unat buf"
  shows "inside_same buf' lim' m m'"
  unfolding inside_same_def
proof (intro allI impI)
  fix a :: u64
  assume a: "unat (a - buf') < lim'"
  have "lim \<le> unat (a - buf)"
  proof (rule ccontr)
    assume "\<not> lim \<le> unat (a - buf)"
    thus False using offset_inside [of a buf lim] offset_inside [OF a assms(3)] assms(2) a apart by linarith
  qed
  thus "m' a = m a" using assms(1) by (simp add: outside_same_def)
qed

lemma part_address:
  assumes "unat (buf :: u64) + n < 2 ^ 52" "unat off \<le> n"
  shows "unat (buf + off) = unat buf + unat off"
  using assms by (intro unat_u64_plus) simp

subsection \<open>The processor\<close>

record cpu =
  cpu_bootServices :: bool
  cpu_interrupts :: bool
  cpu_levels :: nat
  cpu_pageMap :: u64

text \<open>The copy and the scratch buffer only write plain bytes.\<close>

fun cpu_step :: "boot_event \<Rightarrow> cpu \<Rightarrow> cpu" where
  "cpu_step ForgetBootServices c = c\<lparr>cpu_bootServices := False\<rparr>"
| "cpu_step DisableInterrupts c = c\<lparr>cpu_interrupts := False\<rparr>"
| "cpu_step (SwitchPageMap p) c = c\<lparr>cpu_pageMap := p\<rparr>"
| "cpu_step (CopySwitchCode a n) c = c"
| "cpu_step (ClearScratchBuffer a n) c = c"
| "cpu_step (SwitchPageMap4To5 code p scratch) c = c\<lparr>cpu_levels := 5, cpu_pageMap := p\<rparr>"

definition levels_before :: "page_map_setup_type \<Rightarrow> nat" where
  "levels_before ty = (if ty = PAGE_MAP_5_SETUP then 5 else 4)"

definition levels_after :: "page_map_setup_type \<Rightarrow> nat" where
  "levels_after ty = (if ty = PAGE_MAP_4_SETUP then 4 else 5)"

subsection \<open>The three setups in their parts\<close>

abbreviation transitional_pages :: "efi_desc list \<Rightarrow> nat set" where
  "transitional_pages descs \<equiv> included_bytes ShouldIncludeInTransitionalPageMap descs"

text \<open>A buffer of \<open>n\<close> bytes in its place.\<close>

definition placed :: "page_map_buffer \<Rightarrow> u64 \<Rightarrow> bool" where
  "placed pb n = (unat (pm_pBuffer pb) mod 4096 = 0 \<and> unat (pm_pBuffer pb) + unat n < 2 ^ 52)"

lemma part_placed:
  assumes "placed pb n" "4096 dvd unat off" "unat off + unat lim \<le> unat n"
  shows "unat (pm_pBuffer pb + off) = unat (pm_pBuffer pb) + unat off"
    "unat (pm_pBuffer pb + off) mod 4096 = 0" "unat (pm_pBuffer pb + off) + unat lim < 2 ^ 52"
proof -
  show eq: "unat (pm_pBuffer pb + off) = unat (pm_pBuffer pb) + unat off"
    using assms part_address [of "pm_pBuffer pb" "unat n" off] by (simp add: placed_def)
  show "unat (pm_pBuffer pb + off) mod 4096 = 0"
    unfolding eq using assms(1,2) by (simp add: placed_def dvd_eq_mod_eq_0 mod_add_eq [symmetric])
  show "unat (pm_pBuffer pb + off) + unat lim < 2 ^ 52"
    unfolding eq using assms(1,3) by (simp add: placed_def)
qed

lemma setup4_in_part:
  assumes "memory_map_ok PAGE_MAP_4_SETUP fb fbSize descs" "placed pb n"
    and "4096 dvd unat off" "unat off + unat lim \<le> unat n" "unat lim = page_map_bytes PAGE_MAP_4_SETUP descs fb fbSize"
  shows "\<exists>m'. SetupInitialPageMap4 descs fb fbSize (pm_pBuffer pb + off) lim m = Some (Some (pm_pBuffer pb + off), m') \<and>
    outside_same (pm_pBuffer pb + off) (unat lim) m m' \<and>
    (\<forall>m''. inside_same (pm_pBuffer pb + off) (unat lim) m' m'' \<longrightarrow>
      identity_map 4 (initial_bytes descs fb fbSize) m'' (pm_pBuffer pb + off))"
proof -
  have "maps_exactly 3 (initial_bytes descs fb fbSize) (pm_pBuffer pb + off) lim m
      (SetupInitialPageMap4 descs fb fbSize (pm_pBuffer pb + off) lim m)"
    using part_placed [OF assms(2-4)] assms(1)
    by (intro SetupInitialPageMap4_maps) (simp_all add: memory_map_ok_def level_bits_def)
  from maps_exactly_result [OF this] show ?thesis using assms(5) by (simp add: table_bytes_def)
qed

lemma setup5_in_part:
  assumes "memory_map_ok ty fb fbSize descs" "ty \<noteq> PAGE_MAP_4_SETUP" "placed pb n"
    and "4096 dvd unat off" "unat off + unat lim \<le> unat n" "unat lim = page_map_bytes ty descs fb fbSize"
  shows "\<exists>m'. SetupInitialPageMap5 descs fb fbSize (pm_pBuffer pb + off) lim m = Some (Some (pm_pBuffer pb + off), m') \<and>
    outside_same (pm_pBuffer pb + off) (unat lim) m m' \<and>
    (\<forall>m''. inside_same (pm_pBuffer pb + off) (unat lim) m' m'' \<longrightarrow>
      identity_map 5 (initial_bytes descs fb fbSize) m'' (pm_pBuffer pb + off))"
proof -
  have "maps_exactly 4 (initial_bytes descs fb fbSize) (pm_pBuffer pb + off) lim m
      (SetupInitialPageMap5 descs fb fbSize (pm_pBuffer pb + off) lim m)"
    using part_placed [OF assms(3-5)] assms(1,2)
    by (intro SetupInitialPageMap5_maps) (simp_all add: memory_map_ok_def level_bits_def)
  from maps_exactly_result [OF this] show ?thesis using assms(2,6) by (simp add: table_bytes_def)
qed

lemma transitional_in_part:
  assumes "memory_map_ok ty fb fbSize descs" "placed pb n"
    and "4096 dvd unat off" "unat off + unat lim \<le> unat n" "unat lim = transitional_bytes descs"
  shows "\<exists>m'. SetupTransitionalPageMap4 descs (pm_pBuffer pb + off) lim m = Some (Some (pm_pBuffer pb + off), m') \<and>
    outside_same (pm_pBuffer pb + off) (unat lim) m m' \<and>
    (\<forall>m''. inside_same (pm_pBuffer pb + off) (unat lim) m' m'' \<longrightarrow>
      identity_map 4 (transitional_pages descs) m'' (pm_pBuffer pb + off))"
proof -
  have "maps_exactly 3 (transitional_pages descs) (pm_pBuffer pb + off) lim m
      (SetupTransitionalPageMap4 descs (pm_pBuffer pb + off) lim m)"
    using part_placed [OF assms(2-4)] assms(1)
    by (intro SetupTransitionalPageMap4_maps) (simp_all add: memory_map_ok_def)
  from maps_exactly_result [OF this] show ?thesis using assms(5) by (simp add: table_bytes_def)
qed

text \<open>
  The parts for the transition with the switching code above 4 GiB: the final map, the
  transitional map, the copy of the code and the scratch buffer follow each other.
\<close>

lemma transition_parts:
  assumes "buffer_ok_for regionStart regionEnd PAGE_MAP_4_TO_5_TRANSITION descs fb fbSize pb n"
    and "\<not> regionEnd < 4294967296"
  shows "4096 dvd unat (pm_pageMapOffset pb)" "4096 dvd unat (pm_tmpPageMap4BufferOffset pb)"
    "unat (pm_pageMapOffset pb) + unat (pm_pageMapSize pb) \<le> unat (pm_tmpPageMap4BufferOffset pb)"
    "unat (pm_tmpPageMap4BufferOffset pb) + unat (pm_tmpPageMap4BufferSize pb) \<le> unat (pm_codeRellocBufferOffset pb)"
    "unat (pm_codeRellocBufferOffset pb) + unat (regionEnd - regionStart) \<le> unat (pm_codeScratchBufferOffset pb)"
    "unat (pm_codeScratchBufferOffset pb) + 128 \<le> unat n"
    "unat (pm_pageMapSize pb) = page_map_bytes PAGE_MAP_4_TO_5_TRANSITION descs fb fbSize"
    "unat (pm_tmpPageMap4BufferSize pb) = transitional_bytes descs"
  using assms by (auto simp: buffer_ok_for_def buffer_parts_def sized_for_def)

lemma transition_above:
  assumes ok: "memory_map_ok PAGE_MAP_4_TO_5_TRANSITION fb fbSize descs" "placed pb n"
    and parts: "buffer_ok_for regionStart regionEnd PAGE_MAP_4_TO_5_TRANSITION descs fb fbSize pb n"
    and above: "\<not> regionEnd < 4294967296"
  shows "\<exists>m'. CreateAndSwitchPageMap4To5Above4G regionStart regionEnd descs fb fbSize pb m = Some (True, m',
      [SwitchPageMap (pm_pBuffer pb + pm_tmpPageMap4BufferOffset pb),
       CopySwitchCode (pm_pBuffer pb + pm_codeRellocBufferOffset pb) (regionEnd - regionStart),
       ClearScratchBuffer (pm_pBuffer pb + pm_codeScratchBufferOffset pb) SCRATCH_BUFFER_SIZE,
       SwitchPageMap4To5 (pm_pBuffer pb + pm_codeRellocBufferOffset pb) (pm_pBuffer pb + pm_pageMapOffset pb)
         (pm_pBuffer pb + pm_codeScratchBufferOffset pb)]) \<and>
    outside_same (pm_pBuffer pb) (unat n) m m' \<and>
    identity_map 4 (transitional_pages descs) m' (pm_pBuffer pb + pm_tmpPageMap4BufferOffset pb) \<and>
    identity_map 5 (initial_bytes descs fb fbSize) m' (pm_pBuffer pb + pm_pageMapOffset pb)"
proof -
  note parts = transition_parts [OF parts above]
  let ?t = "pm_pBuffer pb + pm_tmpPageMap4BufferOffset pb" and ?tn = "pm_tmpPageMap4BufferSize pb"
  let ?p = "pm_pBuffer pb + pm_pageMapOffset pb" and ?pn = "pm_pageMapSize pb"
  have fit: "unat (pm_tmpPageMap4BufferOffset pb) + unat ?tn \<le> unat n" "unat (pm_pageMapOffset pb) + unat ?pn \<le> unat n"
    using parts(3-6) by simp_all
  obtain m1 where m1: "SetupTransitionalPageMap4 descs ?t ?tn m = Some (Some ?t, m1)"
    "outside_same ?t (unat ?tn) m m1"
    "\<forall>m''. inside_same ?t (unat ?tn) m1 m'' \<longrightarrow> identity_map 4 (transitional_pages descs) m'' ?t"
    using transitional_in_part [OF ok parts(2) fit(1) parts(8)] by blast
  obtain m2 where m2: "SetupInitialPageMap5 descs fb fbSize ?p ?pn m1 = Some (Some ?p, m2)"
    "outside_same ?p (unat ?pn) m1 m2"
    "\<forall>m''. inside_same ?p (unat ?pn) m2 m'' \<longrightarrow> identity_map 5 (initial_bytes descs fb fbSize) m'' ?p"
    using setup5_in_part [OF ok(1) _ ok(2) parts(1) fit(2) parts(7)] by blast
  note t = part_placed [OF ok(2) parts(2) fit(1)] and p = part_placed [OF ok(2) parts(1) fit(2)]
  have "inside_same ?t (unat ?tn) m1 m2"
    using m2(2) by (rule inside_same_apart) (use t(1,3) p(1,3) parts(3) in simp_all)
  moreover have "outside_same (pm_pBuffer pb) (unat n) m m2"
    using outside_same_part [OF m1(2) fit(1)] outside_same_part [OF m2(2) fit(2)] by (rule outside_same_trans)
  ultimately show ?thesis
    using m1 m2 by (simp add: CreateAndSwitchPageMap4To5Above4G_def Let_def)
qed

lemma transition_below:
  assumes ok: "memory_map_ok PAGE_MAP_4_TO_5_TRANSITION fb fbSize descs" "placed pb n"
    and parts: "buffer_ok_for regionStart regionEnd PAGE_MAP_4_TO_5_TRANSITION descs fb fbSize pb n"
    and below: "regionEnd < 4294967296"
  shows "\<exists>m'. CreateAndSwitchPageMap4To5Below4G regionStart descs fb fbSize pb m = Some (True, m',
      [ClearScratchBuffer (pm_pBuffer pb + pm_codeScratchBufferOffset pb) SCRATCH_BUFFER_SIZE,
       SwitchPageMap4To5 regionStart (pm_pBuffer pb + pm_pageMapOffset pb)
         (pm_pBuffer pb + pm_codeScratchBufferOffset pb)]) \<and>
    outside_same (pm_pBuffer pb) (unat n) m m' \<and>
    identity_map 5 (initial_bytes descs fb fbSize) m' (pm_pBuffer pb + pm_pageMapOffset pb)"
proof -
  have parts: "4096 dvd unat (pm_pageMapOffset pb)" "unat (pm_pageMapOffset pb) + unat (pm_pageMapSize pb) \<le> unat n"
    "unat (pm_pageMapSize pb) = page_map_bytes PAGE_MAP_4_TO_5_TRANSITION descs fb fbSize"
    using parts below by (auto simp: buffer_ok_for_def buffer_parts_def sized_for_def)
  obtain m' where m': "SetupInitialPageMap5 descs fb fbSize (pm_pBuffer pb + pm_pageMapOffset pb) (pm_pageMapSize pb) m =
      Some (Some (pm_pBuffer pb + pm_pageMapOffset pb), m')"
    "outside_same (pm_pBuffer pb + pm_pageMapOffset pb) (unat (pm_pageMapSize pb)) m m'"
    "\<forall>m''. inside_same (pm_pBuffer pb + pm_pageMapOffset pb) (unat (pm_pageMapSize pb)) m' m'' \<longrightarrow>
      identity_map 5 (initial_bytes descs fb fbSize) m'' (pm_pBuffer pb + pm_pageMapOffset pb)"
    using setup5_in_part [OF ok(1) _ ok(2) parts] by blast
  thus ?thesis using outside_same_part [OF m'(2) parts(2)]
    by (simp add: CreateAndSwitchPageMap4To5Below4G_def Let_def)
qed

text \<open>All setup types: what the processor has after the events, from any state.\<close>

definition switched ::
  "page_map_setup_type \<Rightarrow> efi_desc list \<Rightarrow> u64 \<Rightarrow> u64 \<Rightarrow> entries \<Rightarrow> cpu \<Rightarrow> cpu \<Rightarrow> bool" where
  "switched ty descs fb fbSize m c c' =
     (c' = c\<lparr>cpu_levels := levels_after ty, cpu_pageMap := cpu_pageMap c'\<rparr> \<and>
      identity_map (cpu_levels c') (initial_bytes descs fb fbSize) m (cpu_pageMap c'))"

text \<open>The 32-bit code, the map it activates and its scratch buffer are below 4 GiB.\<close>

definition low_switch :: "boot_event list \<Rightarrow> bool" where
  "low_switch ev = list_all (\<lambda>e. case e of
     SwitchPageMap4To5 code p scratch \<Rightarrow> unat code < 2 ^ 32 \<and> unat p < 2 ^ 32 \<and> unat scratch + 128 \<le> 2 ^ 32
   | _ \<Rightarrow> True) ev"

lemma transition_low:
  assumes "buffer_ok_for regionStart regionEnd PAGE_MAP_4_TO_5_TRANSITION descs fb fbSize pb n"
    and "unat (pm_pBuffer pb) + unat n \<le> 2 ^ 32" "regionStart \<le> regionEnd"
  shows "unat (pm_pBuffer pb + pm_pageMapOffset pb) < 2 ^ 32"
    "unat (pm_pBuffer pb + pm_codeScratchBufferOffset pb) + 128 \<le> 2 ^ 32"
    "\<not> regionEnd < 4294967296 \<Longrightarrow> unat (pm_pBuffer pb + pm_codeRellocBufferOffset pb) < 2 ^ 32"
    "regionEnd < 4294967296 \<Longrightarrow> unat regionStart < 2 ^ 32"
proof -
  have address: "unat (pm_pBuffer pb + off) = unat (pm_pBuffer pb) + unat off" if "unat off \<le> unat n" for off
    using part_address [of "pm_pBuffer pb" "unat n" off] assms(2) that by simp
  have scratch: "unat (pm_codeScratchBufferOffset pb) + 128 \<le> unat n" "unat (pm_pageMapOffset pb) + 128 \<le> unat n"
    using assms(1) by (cases "regionEnd < 4294967296"; auto simp: buffer_ok_for_def buffer_parts_def sized_for_def)+
  thus "unat (pm_pBuffer pb + pm_pageMapOffset pb) < 2 ^ 32"
    "unat (pm_pBuffer pb + pm_codeScratchBufferOffset pb) + 128 \<le> 2 ^ 32"
    using assms(2) by (simp_all add: address)
  show "unat (pm_pBuffer pb + pm_codeRellocBufferOffset pb) < 2 ^ 32" if "\<not> regionEnd < 4294967296"
    using transition_parts(5) [OF assms(1) that] scratch(1) assms(2) by (simp add: address)
  show "regionEnd < 4294967296 \<Longrightarrow> unat regionStart < 2 ^ 32"
    using assms(3) by (simp add: word_less_nat_alt word_le_nat_alt)
qed

lemma SwitchToIdentityPageMap_switches:
  assumes ok: "memory_map_ok ty fb fbSize descs" "placed pb n"
    and parts: "buffer_ok_for regionStart regionEnd ty descs fb fbSize pb n"
    and c: "cpu_levels c = levels_before ty" and region: "regionStart \<le> regionEnd"
    and low: "ty = PAGE_MAP_4_TO_5_TRANSITION \<Longrightarrow> unat (pm_pBuffer pb) + unat n \<le> 2 ^ 32"
  shows "\<exists>m' ev. SwitchToIdentityPageMap regionStart regionEnd ty descs fb fbSize pb m = Some (True, m', ev) \<and>
    outside_same (pm_pBuffer pb) (unat n) m m' \<and> low_switch ev \<and>
    switched ty descs fb fbSize m' c (fold cpu_step ev c)"
proof (cases ty)
  case PAGE_MAP_4_SETUP
  hence p: "4096 dvd unat (pm_pageMapOffset pb)" "unat (pm_pageMapOffset pb) + unat (pm_pageMapSize pb) \<le> unat n"
    "unat (pm_pageMapSize pb) = page_map_bytes PAGE_MAP_4_SETUP descs fb fbSize"
    using parts by (simp_all add: buffer_ok_for_def buffer_parts_def sized_for_def)
  show ?thesis
    using setup4_in_part [OF ok(1) [unfolded PAGE_MAP_4_SETUP] ok(2) p, of m] outside_same_part [OF _ p(2), of "pm_pBuffer pb"] c
    by (auto simp: PAGE_MAP_4_SETUP SwitchToIdentityPageMap_def CreateAndSwitchPageMap4_def switched_def
        levels_before_def levels_after_def low_switch_def)
next
  case PAGE_MAP_5_SETUP
  hence p: "4096 dvd unat (pm_pageMapOffset pb)" "unat (pm_pageMapOffset pb) + unat (pm_pageMapSize pb) \<le> unat n"
    "unat (pm_pageMapSize pb) = page_map_bytes ty descs fb fbSize"
    using parts by (simp_all add: buffer_ok_for_def buffer_parts_def sized_for_def)
  show ?thesis
    using setup5_in_part [OF ok(1) _ ok(2) p, of m] outside_same_part [OF _ p(2), of "pm_pBuffer pb"] c
    by (auto simp: PAGE_MAP_5_SETUP SwitchToIdentityPageMap_def CreateAndSwitchPageMap5_def switched_def
        levels_before_def levels_after_def low_switch_def)
next
  case PAGE_MAP_4_TO_5_TRANSITION
  note ok' = ok(1) [unfolded PAGE_MAP_4_TO_5_TRANSITION] ok(2) parts [unfolded PAGE_MAP_4_TO_5_TRANSITION]
  show ?thesis
    using transition_below [OF ok', of m] transition_above [OF ok', of m]
      transition_low [OF ok'(3) low [OF PAGE_MAP_4_TO_5_TRANSITION] region]
    by (cases "regionEnd < 4294967296")
      (auto simp: PAGE_MAP_4_TO_5_TRANSITION SwitchToIdentityPageMap_def switched_def levels_after_def low_switch_def)
qed

subsection \<open>Properties\<close>

text \<open>
  C34: The division of the buffer. For every setup type, the computed parts are aligned,
  follow each other without overlap and end within the required size, which is at most
  four pages more than the parts need; the parts of the page maps have exactly the bytes
  of the tables that the maps need.
\<close>

theorem page_map_buffer_layout:
  assumes "memory_map_ok ty fb fbSize descs" and "unat (regionEnd - regionStart) < 2 ^ 51"
  shows "\<exists>pb' n. FillPageMapSizes regionStart regionEnd ty descs fb fbSize pb = Some (pb', n) \<and>
    parts_ok 0 (buffer_parts regionEnd ty pb') (unat n) \<and>
    unat n \<le> needed_bytes regionStart regionEnd ty descs fb fbSize \<and>
    sized_for regionStart regionEnd ty descs fb fbSize pb'"
  using FillPageMapSizes_ok [OF assms] by (simp add: buffer_ok_for_def)

lemma two_pages_memory_map_ok: "memory_map_ok ty 0x200000 0x1000 two_pages"
  using two_pages_ok by (simp add: memory_map_ok_def level_bits_def region_fits_def two_pages_def)

lemma page_map_buffer_layout_witness:
  "\<exists>pb' n. FillPageMapSizes 0x100000000 0x100000060 PAGE_MAP_4_TO_5_TRANSITION two_pages 0x200000 0x1000
      no_page_map_buffer = Some (pb', n) \<and>
    pm_codeRellocBufferSize pb' = 0x60 \<and> 4096 dvd unat (pm_codeRellocBufferOffset pb') \<and>
    unat (pm_codeRellocBufferOffset pb') + 0x60 \<le> unat (pm_codeScratchBufferOffset pb')"
proof -
  have "\<exists>pb' n. FillPageMapSizes 0x100000000 0x100000060 PAGE_MAP_4_TO_5_TRANSITION two_pages 0x200000 0x1000
      no_page_map_buffer = Some (pb', n) \<and>
    parts_ok 0 (buffer_parts 0x100000060 PAGE_MAP_4_TO_5_TRANSITION pb') (unat n) \<and>
    unat n \<le> needed_bytes 0x100000000 0x100000060 PAGE_MAP_4_TO_5_TRANSITION two_pages 0x200000 0x1000 \<and>
    sized_for 0x100000000 0x100000060 PAGE_MAP_4_TO_5_TRANSITION two_pages 0x200000 0x1000 pb'"
    by (rule page_map_buffer_layout [OF two_pages_memory_map_ok]) simp
  thus ?thesis by (fastforce simp: buffer_parts_def sized_for_def)
qed

text \<open>
  C35: The switch from 4 to 5 levels with the switching code above 4 GiB. In a buffer that
  ends by 4 GiB the processor first gets the transitional map; it is still an identity
  map of the loader's memory when the final map is complete. The code is then copied,
  the scratch buffer cleared and the copy called with the final map, an identity map of
  5 levels. The two maps, the copy and the scratch buffer do not overlap, and all are
  below 4 GiB, where the 32-bit code can reach them.
\<close>

theorem transition_above_4G_safe:
  assumes "memory_map_ok PAGE_MAP_4_TO_5_TRANSITION fb fbSize descs"
    and "buffer_ok_for regionStart regionEnd PAGE_MAP_4_TO_5_TRANSITION descs fb fbSize pb n"
    and "\<not> regionEnd < 4294967296"
    and "unat (pm_pBuffer pb) mod 4096 = 0" "unat (pm_pBuffer pb) + unat n \<le> 2 ^ 32"
  shows "\<exists>m' t p code scratch.
    SwitchToIdentityPageMap regionStart regionEnd PAGE_MAP_4_TO_5_TRANSITION descs fb fbSize pb m =
      Some (True, m', [SwitchPageMap t, CopySwitchCode code (regionEnd - regionStart),
        ClearScratchBuffer scratch SCRATCH_BUFFER_SIZE, SwitchPageMap4To5 code p scratch]) \<and>
    identity_map 4 (transitional_pages descs) m' t \<and> identity_map 5 (initial_bytes descs fb fbSize) m' p \<and>
    outside_same (pm_pBuffer pb) (unat n) m m' \<and>
    unat p + page_map_bytes PAGE_MAP_4_TO_5_TRANSITION descs fb fbSize \<le> unat t \<and>
    unat t + transitional_bytes descs \<le> unat code \<and>
    unat code + unat (regionEnd - regionStart) \<le> unat scratch \<and> unat scratch + 128 \<le> 2 ^ 32"
proof -
  have "placed pb n" using assms(4,5) by (simp add: placed_def)
  note parts = transition_parts [OF assms(2,3)]
  have address: "unat (pm_pBuffer pb + off) = unat (pm_pBuffer pb) + unat off" if "unat off \<le> unat n" for off
    using part_address [of "pm_pBuffer pb" "unat n" off] assms(5) that by simp
  have fit: "unat (pm_pageMapOffset pb) \<le> unat n" "unat (pm_tmpPageMap4BufferOffset pb) \<le> unat n"
    "unat (pm_codeRellocBufferOffset pb) \<le> unat n" "unat (pm_codeScratchBufferOffset pb) \<le> unat n"
    using parts(3-6) by simp_all
  note address = fit [THEN address]
  obtain m' where m': "CreateAndSwitchPageMap4To5Above4G regionStart regionEnd descs fb fbSize pb m = Some (True, m',
      [SwitchPageMap (pm_pBuffer pb + pm_tmpPageMap4BufferOffset pb),
       CopySwitchCode (pm_pBuffer pb + pm_codeRellocBufferOffset pb) (regionEnd - regionStart),
       ClearScratchBuffer (pm_pBuffer pb + pm_codeScratchBufferOffset pb) SCRATCH_BUFFER_SIZE,
       SwitchPageMap4To5 (pm_pBuffer pb + pm_codeRellocBufferOffset pb) (pm_pBuffer pb + pm_pageMapOffset pb)
         (pm_pBuffer pb + pm_codeScratchBufferOffset pb)])"
    "outside_same (pm_pBuffer pb) (unat n) m m'"
    "identity_map 4 (transitional_pages descs) m' (pm_pBuffer pb + pm_tmpPageMap4BufferOffset pb)"
    "identity_map 5 (initial_bytes descs fb fbSize) m' (pm_pBuffer pb + pm_pageMapOffset pb)"
    using transition_above [OF assms(1) \<open>placed pb n\<close> assms(2,3), of m] by blast
  have switch: "SwitchToIdentityPageMap regionStart regionEnd PAGE_MAP_4_TO_5_TRANSITION descs fb fbSize pb m =
      CreateAndSwitchPageMap4To5Above4G regionStart regionEnd descs fb fbSize pb m"
    using assms(3) by (simp add: SwitchToIdentityPageMap_def)
  show ?thesis
    by (intro exI conjI, unfold switch, rule m', rule m', rule m', rule m')
      (use address parts(3-8) assms(5) in simp_all)
qed

text \<open>The buffer for two pages, placed at 1 MiB.\<close>

lemma two_pages_transitional: "transitional_pages two_pages = {4096..<8192}"
  by (simp add: two_pages_def ShouldIncludeInTransitionalPageMap_def desc_bytes_def)

lemma two_pages_sizes:
  "CalculateInitialPageMap5Size two_pages 0x200000 0x1000 = Some 0x6000"
  "CalculateTransitionalPageMap4Size two_pages = Some 0x4000"
proof -
  obtain n where n: "CalculateInitialPageMap5Size two_pages 0x200000 0x1000 = Some n" "unat n = 24576"
    using page_map_5_size [OF two_pages_memory_map_ok [of PAGE_MAP_5_SETUP]]
    unfolding two_pages_bytes two_pages_tables by auto
  have "n = 0x6000" using n(2) by (metis of_nat_unat_u64 of_nat_numeral)
  thus "CalculateInitialPageMap5Size two_pages 0x200000 0x1000 = Some 0x6000" using n(1) by simp
  obtain n where n: "CalculateTransitionalPageMap4Size two_pages = Some n" "unat n = 16384"
    using transitional_size [OF two_pages_memory_map_ok [of PAGE_MAP_5_SETUP]]
    unfolding two_pages_transitional one_page_tables by auto
  have "n = 0x4000" using n(2) by (metis of_nat_unat_u64 of_nat_numeral)
  thus "CalculateTransitionalPageMap4Size two_pages = Some 0x4000" using n(1) by simp
qed

definition two_pages_buffer :: page_map_buffer where
  "two_pages_buffer = \<lparr>pm_pBuffer = 0x100000, pm_bufferSize = 0xB000, pm_pageMapOffset = 0, pm_pageMapSize = 0x6000,
     pm_tmpPageMap4BufferOffset = 0x6000, pm_tmpPageMap4BufferSize = 0x4000, pm_codeRellocBufferOffset = 0xA000,
     pm_codeRellocBufferSize = 0x60, pm_codeScratchBufferOffset = 0xA060, pm_codeScratchBufferSize = 0x80\<rparr>"

lemma two_pages_fill:
  "FillPageMapSizes 0x100000000 0x100000060 PAGE_MAP_4_TO_5_TRANSITION two_pages 0x200000 0x1000
    (no_page_map_buffer\<lparr>pm_pBuffer := 0x100000, pm_bufferSize := 0xB000\<rparr>) = Some (two_pages_buffer, 0xA0E0)"
  by (simp add: FillPageMapSizes_def FillPageMap4To5SizesAbove4G_def two_pages_sizes BOOT_ALIGN_def Let_def
      two_pages_buffer_def no_page_map_buffer_def)

lemma two_pages_buffer_ok:
  "buffer_ok_for 0x100000000 0x100000060 PAGE_MAP_4_TO_5_TRANSITION two_pages 0x200000 0x1000 two_pages_buffer 0xA0E0"
proof -
  have "unat (0x100000060 - 0x100000000 :: u64) < 2 ^ 51" by simp
  from FillPageMapSizes_ok [OF two_pages_memory_map_ok [of PAGE_MAP_4_TO_5_TRANSITION] this,
      where pb = "no_page_map_buffer\<lparr>pm_pBuffer := 0x100000, pm_bufferSize := 0xB000\<rparr>"]
  show ?thesis unfolding two_pages_fill by simp
qed

lemma transition_above_4G_safe_witness:
  "\<exists>m' t p code scratch.
    SwitchToIdentityPageMap 0x100000000 0x100000060 PAGE_MAP_4_TO_5_TRANSITION two_pages 0x200000 0x1000
      two_pages_buffer (\<lambda>_. 7) =
      Some (True, m', [SwitchPageMap t, CopySwitchCode code 0x60, ClearScratchBuffer scratch 128,
        SwitchPageMap4To5 code p scratch]) \<and>
    identity_map 5 (initial_bytes two_pages 0x200000 0x1000) m' p \<and> unat scratch + 128 \<le> 2 ^ 32"
proof -
  have "\<not> (0x100000060 :: u64) < 4294967296" "unat (pm_pBuffer two_pages_buffer) mod 4096 = 0"
    "unat (pm_pBuffer two_pages_buffer) + unat (0xA0E0 :: u64) \<le> 2 ^ 32"
    by (simp_all add: two_pages_buffer_def)
  from transition_above_4G_safe [OF two_pages_memory_map_ok two_pages_buffer_ok this, of "\<lambda>_. 7"]
  show ?thesis by auto
qed

end
