(* ===== verification/BootFirmware.thy ===== *)
theory BootFirmware
  imports BootPageMapSwitch
begin

text \<open>
  The end of the boot phase with the firmware: what the UEFI specification says of the
  services that are used, and that with such services the loader leaves the boot
  services and runs on the identity map of the final memory map.
\<close>

subsection \<open>The firmware's services\<close>

text \<open>
  What a firmware keeps: the memory map that it reports and its key, the pools and the pages
  that it has given away, each with its size, and how often it is still going to change the
  memory map by itself between reporting it and leaving the boot services.
\<close>

record 'f firmware_view =
  vw_descs :: "'f \<Rightarrow> efi_desc list"
  vw_key :: "'f \<Rightarrow> u64"
  vw_pool :: "'f \<Rightarrow> (u64 \<times> u64) set"
  vw_pages :: "'f \<Rightarrow> (u64 \<times> u64) set"
  vw_changes :: "'f \<Rightarrow> nat"

text \<open>\<open>I\<close> holds in the states in which the boot services are available.\<close>

definition stays :: "('f \<Rightarrow> bool) \<Rightarrow> 'f firmware_view \<Rightarrow> 'f \<Rightarrow> 'f \<Rightarrow> bool" where
  "stays I V f f' = (I f' \<and> vw_changes V f' \<le> vw_changes V f)"

text \<open>
  The UEFI specification's chapter on the boot services. \<open>AllocatePool\<close> gives a buffer of
  the requested size or refuses with an error; \<open>FreePool\<close> takes back a buffer that it gave.
\<close>

definition pool_services :: "'f boot_services \<Rightarrow> ('f \<Rightarrow> bool) \<Rightarrow> 'f firmware_view \<Rightarrow> bool" where
  "pool_services fw I V = (\<forall>f. I f \<longrightarrow>
     (\<forall>mem n. case svcAllocatePool fw mem n f of (status, p, f') \<Rightarrow>
        stays I V f f' \<and> vw_pages V f' = vw_pages V f \<and>
        (if EFI_ERROR status then vw_pool V f' = vw_pool V f
         else status = EFI_SUCCESS \<and> vw_pool V f' = insert (p, n) (vw_pool V f))) \<and>
     (\<forall>p n. (p, n) \<in> vw_pool V f \<longrightarrow> (case svcFreePool fw p f of (status, f') \<Rightarrow>
        stays I V f f' \<and> vw_pages V f' = vw_pages V f \<and>
        status = EFI_SUCCESS \<and> vw_pool V f' = vw_pool V f - {p} \<times> UNIV)))"

text \<open>
  \<open>AllocatePages\<close> gives aligned pages, with \<open>AllocateMaxAddress\<close> none behind the given
  address, or refuses with an error; \<open>FreePages\<close> takes back pages that it gave.
\<close>

definition page_services :: "'f boot_services \<Rightarrow> ('f \<Rightarrow> bool) \<Rightarrow> 'f firmware_view \<Rightarrow> bool" where
  "page_services fw I V = (\<forall>f. I f \<longrightarrow>
     (\<forall>ty mem n addr. 0 < n \<longrightarrow> (case svcAllocatePages fw ty mem n addr f of (status, addr', f') \<Rightarrow>
        stays I V f f' \<and> vw_pool V f' = vw_pool V f \<and>
        (if EFI_ERROR status then vw_pages V f' = vw_pages V f
         else status = EFI_SUCCESS \<and> vw_pages V f' = insert (addr', n) (vw_pages V f) \<and>
           unat addr' mod 4096 = 0 \<and> unat addr' + 4096 * unat n < 2 ^ 52 \<and>
           (ty = AllocateMaxAddress \<longrightarrow> unat addr' + (4096 * unat n - 1) \<le> unat addr)))) \<and>
     (\<forall>p n. (p, n) \<in> vw_pages V f \<longrightarrow> (case svcFreePages fw p n f of (status, f') \<Rightarrow>
        stays I V f f' \<and> vw_pool V f' = vw_pool V f \<and>
        status = EFI_SUCCESS \<and> vw_pages V f' = vw_pages V f - {(p, n)})))"

text \<open>
  \<open>GetMemoryMap\<close>, with a buffer that has the given size, writes the current memory map and its
  key, or tells the bigger size that it needs; \<open>B\<close> bounds the bytes of a memory map.
\<close>

definition memory_map_service :: "'f boot_services \<Rightarrow> ('f \<Rightarrow> bool) \<Rightarrow> 'f firmware_view \<Rightarrow> nat \<Rightarrow> bool" where
  "memory_map_service fw I V B = (B < 2 ^ 62 \<and>
     (\<forall>f mm. I f \<and> (mm_pBuffer mm, mm_size mm) \<in> vw_pool V f \<longrightarrow>
       (case svcGetMemoryMap fw mm f of (status, mm', f') \<Rightarrow>
         stays I V f f' \<and> vw_pool V f' = vw_pool V f \<and> vw_pages V f' = vw_pages V f \<and>
         mm_pBuffer mm' = mm_pBuffer mm \<and>
         (status = EFI_SUCCESS \<and> mm_descs mm' = vw_descs V f' \<and> mm_key mm' = vw_key V f' \<or>
          status = EFI_BUFFER_TOO_SMALL \<and> unat (mm_size mm) < unat (mm_size mm') \<and>
            unat (mm_size mm') \<le> B \<and> unat (mm_descriptorSize mm') < 2 ^ 32))))"

text \<open>
  \<open>ExitBootServices\<close> rejects every key but that of the current memory map, and changes nothing
  then. With this key it ends the boot services, except when the memory map has changed in
  the meantime.
\<close>

definition exit_service :: "'f boot_services \<Rightarrow> ('f \<Rightarrow> bool) \<Rightarrow> 'f firmware_view \<Rightarrow> bool" where
  "exit_service fw I V = (\<forall>key f. I f \<longrightarrow> (case svcExitBootServices fw key f of (status, f') \<Rightarrow>
     status = EFI_SUCCESS \<and> key = vw_key V f \<and> vw_descs V f' = vw_descs V f \<or>
     status = EFI_INVALID_PARAMETER \<and> stays I V f f' \<and>
       vw_pool V f' = vw_pool V f \<and> vw_pages V f' = vw_pages V f \<and>
       (key = vw_key V f \<longrightarrow> vw_changes V f' < vw_changes V f)))"

definition firmware_ok :: "'f boot_services \<Rightarrow> ('f \<Rightarrow> bool) \<Rightarrow> 'f firmware_view \<Rightarrow> nat \<Rightarrow> bool" where
  "firmware_ok fw I V B = (pool_services fw I V \<and> page_services fw I V \<and> memory_map_service fw I V B \<and>
     exit_service fw I V)"

text \<open>
  The memory of the machine: as long as the loader holds no pages, up to \<open>N\<close> pages can be
  allocated, also below 4 GiB. This is no promise of the specification, but the loader does
  not notice when it fails.
\<close>

definition enough_pages :: "'f boot_services \<Rightarrow> ('f \<Rightarrow> bool) \<Rightarrow> 'f firmware_view \<Rightarrow> nat \<Rightarrow> bool" where
  "enough_pages fw I V N = (4 \<le> N \<and> N < 2 ^ 40 \<and> (\<forall>ty mem n addr f.
     I f \<and> vw_pages V f = {} \<and> 0 < n \<and> unat n \<le> N \<and> (ty = AllocateMaxAddress \<longrightarrow> 2 ^ 32 \<le> unat addr) \<longrightarrow>
     \<not> EFI_ERROR (fst (svcAllocatePages fw ty mem n addr f))))"

text \<open>A memory map that can be mapped, with tables for which there is memory.\<close>

definition mappable :: "nat \<Rightarrow> u64 \<Rightarrow> u64 \<Rightarrow> page_map_setup_type \<Rightarrow> u64 \<Rightarrow> u64 \<Rightarrow> efi_desc list \<Rightarrow> bool" where
  "mappable N regionStart regionEnd ty fb fbSize descs =
     (memory_map_ok ty fb fbSize descs \<and>
      2 * ((needed_bytes regionStart regionEnd ty descs fb fbSize + 4095) div 4096) \<le> N)"

text \<open>An error that \<open>AllocatePool\<close> answers with.\<close>

definition pool_refuses :: "'f boot_services \<Rightarrow> ('f \<Rightarrow> bool) \<Rightarrow> u64 \<Rightarrow> bool" where
  "pool_refuses fw I status = (EFI_ERROR status \<and> (\<exists>f mem n. I f \<and> fst (svcAllocatePool fw mem n f) = status))"

text \<open>The laws for one call.\<close>

lemma stays_trans: "stays I V f f' \<Longrightarrow> stays I V f' f'' \<Longrightarrow> stays I V f f''"
  by (auto simp: stays_def)

lemma stays_refl: "I f \<Longrightarrow> stays I V f f"
  by (simp add: stays_def)

lemma AllocatePool_law:
  assumes "pool_services fw I V" "I f" "svcAllocatePool fw mem n f = (status, p, f')"
  shows "stays I V f f' \<and> vw_pages V f' = vw_pages V f \<and>
    (if EFI_ERROR status then vw_pool V f' = vw_pool V f
     else status = EFI_SUCCESS \<and> vw_pool V f' = insert (p, n) (vw_pool V f))"
proof -
  note laws = spec [OF assms(1) [unfolded pool_services_def], of f, THEN mp, OF assms(2), THEN conjunct1]
  from laws [THEN spec [of _ mem], THEN spec [of _ n]] show ?thesis by (simp add: assms(3))
qed

lemma FreePool_law:
  assumes "pool_services fw I V" "I f" "(p, n) \<in> vw_pool V f" "svcFreePool fw p f = (status, f')"
  shows "stays I V f f' \<and> vw_pages V f' = vw_pages V f \<and> status = EFI_SUCCESS \<and>
    vw_pool V f' = vw_pool V f - {p} \<times> UNIV"
proof -
  note laws = spec [OF assms(1) [unfolded pool_services_def], of f, THEN mp, OF assms(2), THEN conjunct2]
  from laws [THEN spec [of _ p], THEN spec [of _ n]] show ?thesis using assms(3) by (simp add: assms(4))
qed

lemma AllocatePages_law:
  assumes "page_services fw I V" "I f" "0 < n" "svcAllocatePages fw ty mem n addr f = (status, addr', f')"
  shows "stays I V f f' \<and> vw_pool V f' = vw_pool V f \<and>
    (if EFI_ERROR status then vw_pages V f' = vw_pages V f
     else status = EFI_SUCCESS \<and> vw_pages V f' = insert (addr', n) (vw_pages V f) \<and>
       unat addr' mod 4096 = 0 \<and> unat addr' + 4096 * unat n < 2 ^ 52 \<and>
       (ty = AllocateMaxAddress \<longrightarrow> unat addr' + (4096 * unat n - 1) \<le> unat addr))"
proof -
  note laws = spec [OF assms(1) [unfolded page_services_def], of f, THEN mp, OF assms(2), THEN conjunct1]
  from laws [THEN spec [of _ ty], THEN spec [of _ mem], THEN spec [of _ n], THEN spec [of _ addr], THEN mp, OF assms(3)]
  show ?thesis unfolding assms(4) prod.case .
qed

lemma FreePages_law:
  assumes "page_services fw I V" "I f" "(p, n) \<in> vw_pages V f" "svcFreePages fw p n f = (status, f')"
  shows "stays I V f f' \<and> vw_pool V f' = vw_pool V f \<and> status = EFI_SUCCESS \<and>
    vw_pages V f' = vw_pages V f - {(p, n)}"
proof -
  note laws = spec [OF assms(1) [unfolded page_services_def], of f, THEN mp, OF assms(2), THEN conjunct2]
  from laws [THEN spec [of _ p], THEN spec [of _ n]] show ?thesis using assms(3) by (simp add: assms(4))
qed

lemma GetMemoryMap_law:
  assumes "memory_map_service fw I V B" "I f" "(mm_pBuffer mm, mm_size mm) \<in> vw_pool V f"
    and "svcGetMemoryMap fw mm f = (status, mm', f')"
  shows "stays I V f f' \<and> vw_pool V f' = vw_pool V f \<and> vw_pages V f' = vw_pages V f \<and>
    mm_pBuffer mm' = mm_pBuffer mm \<and>
    (status = EFI_SUCCESS \<and> mm_descs mm' = vw_descs V f' \<and> mm_key mm' = vw_key V f' \<or>
     status = EFI_BUFFER_TOO_SMALL \<and> unat (mm_size mm) < unat (mm_size mm') \<and>
       unat (mm_size mm') \<le> B \<and> unat (mm_descriptorSize mm') < 2 ^ 32)"
  using spec [OF spec [OF conjunct2 [OF assms(1) [unfolded memory_map_service_def]], of f], of mm] assms(2,3)
  by (simp add: assms(4))

lemma ExitBootServices_law:
  assumes "exit_service fw I V" "I f" "svcExitBootServices fw key f = (status, f')"
  shows "status = EFI_SUCCESS \<and> key = vw_key V f \<and> vw_descs V f' = vw_descs V f \<or>
    status = EFI_INVALID_PARAMETER \<and> stays I V f f' \<and>
      vw_pool V f' = vw_pool V f \<and> vw_pages V f' = vw_pages V f \<and>
      (key = vw_key V f \<longrightarrow> vw_changes V f' < vw_changes V f)"
  using spec [OF spec [OF assms(1) [unfolded exit_service_def], of key], of f] assms(2) by (simp add: assms(3))

lemma enough_pagesD:
  assumes "enough_pages fw I V N" "I f" "vw_pages V f = {}" "0 < n" "unat n \<le> N"
    and "ty = AllocateMaxAddress \<longrightarrow> 2 ^ 32 \<le> unat addr" "svcAllocatePages fw ty mem n addr f = (status, addr', f')"
  shows "\<not> EFI_ERROR status"
proof -
  have "\<not> EFI_ERROR (fst (svcAllocatePages fw ty mem n addr f))"
    using assms(1-6) unfolding enough_pages_def by blast
  thus ?thesis by (simp add: assms(7))
qed

lemma EFI_status_simps [simp]:
  "\<not> EFI_ERROR EFI_SUCCESS" "EFI_ERROR EFI_INVALID_PARAMETER" "EFI_ERROR EFI_BUFFER_TOO_SMALL"
  by (simp_all add: EFI_ERROR_def)

lemma pool_refusesI:
  "I f \<Longrightarrow> svcAllocatePool fw mem n f = (status, p, f') \<Longrightarrow> EFI_ERROR status \<Longrightarrow> pool_refuses fw I status"
  unfolding pool_refuses_def by (metis fst_conv)

lemma pool_refuses_error: "pool_refuses fw I status \<Longrightarrow> EFI_ERROR status"
  by (simp add: pool_refuses_def)

subsection \<open>Retrieving the memory map\<close>

text \<open>The buffer in the record is one that the firmware gave, and so are the pages.\<close>

definition pool_held :: "'f firmware_view \<Rightarrow> memory_map \<Rightarrow> 'f \<Rightarrow> bool" where
  "pool_held V mm f = (mm_pBuffer mm \<noteq> 0 \<longrightarrow> (\<exists>n. (mm_pBuffer mm, n) \<in> vw_pool V f))"

definition pages_held :: "'f firmware_view \<Rightarrow> u64 \<Rightarrow> u64 \<Rightarrow> 'f \<Rightarrow> bool" where
  "pages_held V addr k f = (vw_pages V f = (if k = 0 then {} else {(addr, k)}))"

text \<open>A retrieved memory map is the firmware's current one; else a pool was refused.\<close>

definition retrieved ::
  "'f boot_services \<Rightarrow> ('f \<Rightarrow> bool) \<Rightarrow> 'f firmware_view \<Rightarrow> u64 \<Rightarrow> memory_map \<Rightarrow> 'f \<Rightarrow> bool" where
  "retrieved fw I V status mm f =
     (status = EFI_SUCCESS \<and> mm_descs mm = vw_descs V f \<and> mm_key mm = vw_key V f \<and> pool_held V mm f \<or>
      pool_refuses fw I status)"

lemma get_memory_map_loop_returns:
  assumes ok: "firmware_ok fw I V B" and "I f" "pool_held V mm f"
  shows "\<exists>status mm' f'. get_memory_map_loop fw mm f = Some (status, mm', f') \<and> stays I V f f' \<and>
    vw_pages V f' = vw_pages V f \<and> retrieved fw I V status mm' f'"
  using assms(2,3)
proof (induction "B - unat (mm_size mm)" arbitrary: mm f rule: less_induct)
  case less
  have laws: "pool_services fw I V" "memory_map_service fw I V B" using ok by (simp_all add: firmware_ok_def)
  obtain s1 f1 where f1: "(if mm_pBuffer mm \<noteq> 0 then svcFreePool fw (mm_pBuffer mm) f else (EFI_SUCCESS, f)) = (s1, f1)"
    by fastforce
  have step1: "s1 = EFI_SUCCESS \<and> stays I V f f1 \<and> vw_pages V f1 = vw_pages V f"
  proof (cases "mm_pBuffer mm = 0")
    case True
    thus ?thesis using f1 stays_refl [where I = I, OF less.prems(1)] by simp
  next
    case False
    then obtain n where "(mm_pBuffer mm, n) \<in> vw_pool V f" using less.prems(2) by (auto simp: pool_held_def)
    from FreePool_law [OF laws(1) less.prems(1) this] show ?thesis using f1 False by simp
  qed
  have I1: "I f1" using step1 by (simp add: stays_def)
  obtain s2 p f2 where f2: "svcAllocatePool fw EfiLoaderData (mm_size mm) f1 = (s2, p, f2)"
    by (cases "svcAllocatePool fw EfiLoaderData (mm_size mm) f1")
  note step2 = AllocatePool_law [OF laws(1) I1 f2]
  have I2: "I f2" "stays I V f f2" using step1 step2 by (simp_all add: stays_def)
  let ?mm = "mm\<lparr>mm_pBuffer := p\<rparr>"
  show ?case
  proof (cases "EFI_ERROR s2")
    case True
    have "get_memory_map_loop fw mm f = Some (s2, ?mm, f2)"
      using f1 step1 f2 True by (subst get_memory_map_loop.simps) (simp only: Let_def split_def fst_conv snd_conv, simp)
    thus ?thesis using pool_refusesI [where I = I, OF I1 f2 True] step1 step2 I2(2) by (auto simp: retrieved_def)
  next
    case False
    hence s2: "s2 = EFI_SUCCESS" and p: "(mm_pBuffer ?mm, mm_size ?mm) \<in> vw_pool V f2" using step2 by simp_all
    obtain s3 mm3 f3 where f3: "svcGetMemoryMap fw ?mm f2 = (s3, mm3, f3)" by (cases "svcGetMemoryMap fw ?mm f2")
    note step3 = GetMemoryMap_law [OF laws(2) I2(1) p f3]
    have I3: "I f3" "stays I V f f3" using step3 I2(2) by (simp_all add: stays_def)
    have "(mm_pBuffer mm3, mm_size mm) \<in> vw_pool V f3" using p step3 by simp
    hence held: "pool_held V mm3 f3" unfolding pool_held_def by blast
    let ?mm' = "mm3\<lparr>mm_size := mm_size mm3 + mm_descriptorSize mm3 * 2\<rparr>"
    have step: "get_memory_map_loop fw mm f =
        (if s3 = EFI_BUFFER_TOO_SMALL then get_memory_map_loop fw ?mm' f3 else Some (s3, mm3, f3))"
      using f1 step1 f2 s2 f3 by (subst get_memory_map_loop.simps) (simp only: Let_def split_def fst_conv snd_conv, simp)
    show ?thesis
    proof (cases "s3 = EFI_BUFFER_TOO_SMALL")
      case False
      thus ?thesis using step step1 step2 step3 held I3(2) by (auto simp: retrieved_def)
    next
      case True
      hence grow: "unat (mm_size mm) < unat (mm_size mm3)" "unat (mm_size mm3) \<le> B"
        "unat (mm_descriptorSize mm3) < 2 ^ 32" using step3 by simp_all
      have "unat (mm_descriptorSize mm3 * 2) = unat (mm_descriptorSize mm3) * 2"
        using grow(3) by (subst unat_u64_mult) simp_all
      hence "unat (mm_size ?mm') = unat (mm_size mm3) + unat (mm_descriptorSize mm3) * 2"
        using grow laws(2) by (simp add: memory_map_service_def unat_u64_plus)
      hence smaller: "B - unat (mm_size ?mm') < B - unat (mm_size mm)" using grow(1,2) by simp
      have "pool_held V ?mm' f3" using held by (simp add: pool_held_def)
      from less.hyps [OF smaller I3(1) this] obtain status mm' f' where
        "get_memory_map_loop fw ?mm' f3 = Some (status, mm', f')" "stays I V f3 f'"
        "vw_pages V f' = vw_pages V f3" "retrieved fw I V status mm' f'" by blast
      thus ?thesis using step True step1 step2 step3 stays_trans [OF I3(2)] by auto
    qed
  qed
qed

lemma GetMemoryMap_returns:
  assumes "firmware_ok fw I V B" "I f" "pool_held V mm f"
  shows "\<exists>status mm' f'. GetMemoryMap fw mm f = Some (status, mm', f') \<and> stays I V f f' \<and>
    vw_pages V f' = vw_pages V f \<and> retrieved fw I V status mm' f'"
  unfolding GetMemoryMap_def by (rule get_memory_map_loop_returns [OF assms(1,2)]) (use assms(3) in \<open>simp add: pool_held_def\<close>)

subsection \<open>The buffer of the page map\<close>

lemma page_end:
  fixes a n :: u64
  assumes "0 < n" and aligned: "unat a mod 4096 = 0" and last: "unat a + (4096 * unat n - 1) \<le> 4294967296"
  shows "unat a + 4096 * unat n \<le> 2 ^ 32"
proof -
  obtain q where q: "unat a = 4096 * q" using aligned by (auto simp: mod_eq_0_iff_dvd)
  have "0 < unat n" using assms(1) by (simp add: word_less_nat_alt)
  then obtain k where k: "unat n = Suc k" by (cases "unat n") simp_all
  have "4096 * (q + k) < 4096 * 1048576" using last unfolding q k by simp
  hence "q + k < 1048576" by (simp only: mult_less_cancel1)
  thus ?thesis using q k by simp
qed

lemma ReAllocPageMapBuffer_returns:
  assumes ok: "firmware_ok fw I V B" "enough_pages fw I V N" and "I f" "pages_held V addr k f"
    and n: "0 < n" "unat n \<le> N"
  shows "\<exists>a f'. ReAllocPageMapBuffer fw addr k n ty f = (EFI_SUCCESS, a, f') \<and> stays I V f f' \<and>
    vw_pool V f' = vw_pool V f \<and> pages_held V a n f' \<and>
    unat a mod 4096 = 0 \<and> unat a + 4096 * unat n < 2 ^ 52 \<and>
    (ty = PAGE_MAP_4_TO_5_TRANSITION \<longrightarrow> unat a + 4096 * unat n \<le> 2 ^ 32)"
proof -
  have law: "page_services fw I V" using ok(1) by (simp add: firmware_ok_def)
  obtain s1 f1 where f1: "(if k \<noteq> 0 then svcFreePages fw addr k f else (EFI_SUCCESS, f)) = (s1, f1)"
    by fastforce
  have step1: "s1 = EFI_SUCCESS \<and> stays I V f f1 \<and> vw_pool V f1 = vw_pool V f \<and> vw_pages V f1 = {}"
  proof (cases "k = 0")
    case True
    thus ?thesis using f1 assms(4) stays_refl [where I = I, OF assms(3)] by (simp add: pages_held_def)
  next
    case False
    hence "(addr, k) \<in> vw_pages V f" using assms(4) by (simp add: pages_held_def)
    from FreePages_law [OF law assms(3) this] show ?thesis
      using f1 False assms(4) by (simp add: pages_held_def)
  qed
  hence I1: "I f1" by (simp add: stays_def)
  define aty addr' where "aty = (if ty = PAGE_MAP_4_TO_5_TRANSITION then AllocateMaxAddress else AllocateAnyPages)"
    and "addr' = (if ty = PAGE_MAP_4_TO_5_TRANSITION then 4294967296 else addr)"
  have eq: "ReAllocPageMapBuffer fw addr k n ty f = svcAllocatePages fw aty EfiLoaderData n addr' f1"
    using f1 step1 unfolding ReAllocPageMapBuffer_def
    by (simp only: Let_def split_def fst_conv snd_conv) (cases ty; simp add: aty_def addr'_def)
  obtain s a f' where call: "svcAllocatePages fw aty EfiLoaderData n addr' f1 = (s, a, f')"
    by (cases "svcAllocatePages fw aty EfiLoaderData n addr' f1")
  have max: "aty = AllocateMaxAddress \<longrightarrow> 2 ^ 32 \<le> unat addr'" by (simp add: aty_def addr'_def)
  have "\<not> EFI_ERROR s" using enough_pagesD [OF ok(2) I1 _ n max call] step1 by blast
  with AllocatePages_law [OF law I1 n(1) call] have given: "s = EFI_SUCCESS" "stays I V f1 f'"
    "vw_pool V f' = vw_pool V f1" "vw_pages V f' = insert (a, n) (vw_pages V f1)" "unat a mod 4096 = 0"
    "unat a + 4096 * unat n < 2 ^ 52" "aty = AllocateMaxAddress \<longrightarrow> unat a + (4096 * unat n - 1) \<le> unat addr'"
    by simp_all
  have "ty = PAGE_MAP_4_TO_5_TRANSITION \<longrightarrow> unat a + 4096 * unat n \<le> 2 ^ 32"
    using given(7) page_end [OF n(1) given(5)] by (cases "ty = PAGE_MAP_4_TO_5_TRANSITION") (simp_all add: aty_def addr'_def)
  moreover have "pages_held V a n f'" using given(4) step1 n(1) by (simp add: pages_held_def)
  moreover have "stays I V f f'" using stays_trans [OF _ given(2)] step1 by simp
  moreover have "vw_pool V f' = vw_pool V f" using given(3) step1 by simp
  ultimately show ?thesis
    using eq given(1,5,6) by (intro exI [of _ a] exI [of _ f']) (simp add: call)
qed

text \<open>The pages asked for next are more than before, and still at most \<open>N\<close>.\<close>

lemma next_pages:
  fixes need n :: u64
  assumes "mappable N regionStart regionEnd ty fb fbSize descs" "N < 2 ^ 40"
    and need: "unat need \<le> needed_bytes regionStart regionEnd ty descs fb fbSize"
    and n: "unat n \<le> N" "\<not> need \<le> n * 4096"
  shows "unat n < unat ((need + 4096 - 1) div 4096 * 2)" "unat ((need + 4096 - 1) div 4096 * 2) \<le> N"
proof -
  let ?b = "needed_bytes regionStart regionEnd ty descs fb fbSize"
  have N: "2 * ((?b + 4095) div 4096) \<le> N" using assms(1) by (simp add: mappable_def)
  have "(?b + 4095) div 4096 < 2 ^ 39" using N assms(2) by simp
  hence b: "?b < 2 ^ 51" by (simp add: div_less_iff_less_mult)
  have "need + 4096 - 1 = need + 4095" by simp
  moreover have "unat (need + 4095) = unat need + 4095" using need b by (subst unat_u64_plus) simp_all
  ultimately have "unat ((need + 4096 - 1) div 4096) = (unat need + 4095) div 4096"
    by (simp only: unat_u64_div) simp
  moreover from this have "unat ((need + 4096 - 1) div 4096 * 2) = unat ((need + 4096 - 1) div 4096) * 2"
    using need b by (subst unat_u64_mult) simp_all
  ultimately have pages: "unat ((need + 4096 - 1) div 4096 * 2) = 2 * ((unat need + 4095) div 4096)" by simp
  have "unat (n * 4096) = unat n * 4096" using n(1) assms(2) by (subst unat_u64_mult) simp_all
  hence "unat n * 4096 < unat need" using n(2) by (simp add: word_le_nat_alt)
  thus "unat n < unat ((need + 4096 - 1) div 4096 * 2)" unfolding pages by simp
  have "(unat need + 4095) div 4096 \<le> (?b + 4095) div 4096" using need by (intro div_le_mono) simp
  thus "unat ((need + 4096 - 1) div 4096 * 2) \<le> N" unfolding pages using N by simp
qed

lemma buffer_ok_for_place [simp]:
  "buffer_ok_for regionStart regionEnd ty descs fb fbSize (pb\<lparr>pm_pBuffer := a, pm_bufferSize := s\<rparr>) n =
   buffer_ok_for regionStart regionEnd ty descs fb fbSize pb n"
  by (simp add: buffer_ok_for_def sized_for_def buffer_parts_def split: page_map_setup_type.splits)

text \<open>A buffer of at most \<open>N\<close> pages in which the map of the memory map has its place.\<close>

definition good_buffer ::
  "nat \<Rightarrow> u64 \<Rightarrow> u64 \<Rightarrow> page_map_setup_type \<Rightarrow> u64 \<Rightarrow> u64 \<Rightarrow> efi_desc list \<Rightarrow> page_map_buffer \<Rightarrow> bool" where
  "good_buffer N regionStart regionEnd ty fb fbSize descs pb =
     (\<exists>n. buffer_ok_for regionStart regionEnd ty descs fb fbSize pb n \<and> placed pb n \<and>
       (ty = PAGE_MAP_4_TO_5_TRANSITION \<longrightarrow> unat (pm_pBuffer pb) + unat n \<le> 2 ^ 32))"

text \<open>What the loops return: a retrieved map with a buffer for its tables, or an error.\<close>

definition buffer_result ::
  "'f boot_services \<Rightarrow> ('f \<Rightarrow> bool) \<Rightarrow> 'f firmware_view \<Rightarrow> nat \<Rightarrow> (efi_desc list \<Rightarrow> page_map_buffer \<Rightarrow> bool) \<Rightarrow>
    u64 \<Rightarrow> memory_map \<Rightarrow> page_map_buffer \<Rightarrow> 'f \<Rightarrow> bool" where
  "buffer_result fw I V N good status mm pb f =
     (retrieved fw I V status mm f \<and> (\<not> EFI_ERROR status \<longrightarrow> good (mm_descs mm) pb \<and>
       (\<exists>n. pm_bufferSize pb = n * 4096 \<and> 0 < n \<and> unat n \<le> N \<and> pages_held V (pm_pBuffer pb) n f)))"

lemma page_map_buffer_loop_returns:
  assumes ok: "firmware_ok fw I V B" "enough_pages fw I V N"
    and map: "\<And>g. I g \<Longrightarrow> mappable N regionStart regionEnd ty fb fbSize (vw_descs V g)"
    and code: "unat (regionEnd - regionStart) < 2 ^ 51"
    and "I f" "pool_held V mm f" "pages_held V (pm_pBuffer pb) k f" "0 < n" "unat n \<le> N"
  shows "\<exists>status mm' pb' f'. page_map_buffer_loop fw (\<lambda>descs. FillPageMapSizes regionStart regionEnd ty descs fb fbSize)
      ty EFI_SUCCESS k n mm pb f = Some (status, mm', pb', f') \<and> stays I V f f' \<and>
    buffer_result fw I V N (good_buffer N regionStart regionEnd ty fb fbSize) status mm' pb' f'"
  using assms(5-9)
proof (induction "N - unat n" arbitrary: k n mm pb f rule: less_induct)
  case less
  have N: "N < 2 ^ 40" using ok(2) by (simp add: enough_pages_def)
  obtain a f1 where f1: "ReAllocPageMapBuffer fw (pm_pBuffer pb) k n ty f = (EFI_SUCCESS, a, f1)"
    "stays I V f f1" "vw_pool V f1 = vw_pool V f" "pages_held V a n f1"
    "unat a mod 4096 = 0" "unat a + 4096 * unat n < 2 ^ 52"
    "ty = PAGE_MAP_4_TO_5_TRANSITION \<longrightarrow> unat a + 4096 * unat n \<le> 2 ^ 32"
    using ReAllocPageMapBuffer_returns [OF ok less.prems(1,3-5), where ty = ty] by (elim exE conjE) (rule that, assumption+)
  have I1: "I f1" "pool_held V mm f1" using f1(2,3) less.prems(2) by (simp_all add: stays_def pool_held_def)
  obtain s mm2 f2 where f2: "GetMemoryMap fw mm f1 = Some (s, mm2, f2)" "stays I V f1 f2"
    "vw_pages V f2 = vw_pages V f1" "retrieved fw I V s mm2 f2"
    using GetMemoryMap_returns [OF ok(1) I1] by blast
  have I2: "I f2" "stays I V f f2" using f1(2) f2(2) by (simp_all add: stays_def)
  show ?case
  proof (cases "EFI_ERROR s")
    case True
    have "page_map_buffer_loop fw (\<lambda>descs. FillPageMapSizes regionStart regionEnd ty descs fb fbSize)
        ty EFI_SUCCESS k n mm pb f = Some (s, mm2, pb, f2)"
      using f1(1) f2(1) True by (subst page_map_buffer_loop.simps) simp
    thus ?thesis using I2(2) f2(4) True by (auto simp: buffer_result_def)
  next
    case False
    hence s: "s = EFI_SUCCESS" "mm_descs mm2 = vw_descs V f2" "pool_held V mm2 f2"
      using f2(4) pool_refuses_error [of fw I s] unfolding retrieved_def by blast+
    have maps: "mappable N regionStart regionEnd ty fb fbSize (mm_descs mm2)" using map [OF I2(1)] s(2) by simp
    obtain pb3 need where fill: "FillPageMapSizes regionStart regionEnd ty (mm_descs mm2) fb fbSize pb = Some (pb3, need)"
      "buffer_ok_for regionStart regionEnd ty (mm_descs mm2) fb fbSize pb3 need"
      using FillPageMapSizes_ok [OF _ code] maps unfolding mappable_def by blast
    let ?pb = "pb3\<lparr>pm_pBuffer := a, pm_bufferSize := n * 4096\<rparr>"
    let ?next = "(need + 4096 - 1) div 4096 * 2"
    have step: "page_map_buffer_loop fw (\<lambda>descs. FillPageMapSizes regionStart regionEnd ty descs fb fbSize)
        ty EFI_SUCCESS k n mm pb f =
      (if need \<le> n * 4096 then Some (EFI_SUCCESS, mm2, ?pb, f2)
       else page_map_buffer_loop fw (\<lambda>descs. FillPageMapSizes regionStart regionEnd ty descs fb fbSize)
        ty EFI_SUCCESS n ?next mm2 ?pb f2)"
      by (subst page_map_buffer_loop.simps) (simp add: f1(1) f2(1) s(1) fill(1) Let_def)
    have held: "pages_held V (pm_pBuffer ?pb) n f2" using f1(4) f2(3) by (simp add: pages_held_def)
    have size: "unat (n * 4096) = unat n * 4096" using less.prems(5) N by (subst unat_u64_mult) simp_all
    show ?thesis
    proof (cases "need \<le> n * 4096")
      case True
      hence fits: "unat need \<le> 4096 * unat n" using size by (simp add: word_le_nat_alt)
      have "good_buffer N regionStart regionEnd ty fb fbSize (mm_descs mm2) ?pb"
        unfolding good_buffer_def
        using fill(2) f1(5-7) fits by (intro exI [of _ need]) (auto simp: placed_def)
      hence "buffer_result fw I V N (good_buffer N regionStart regionEnd ty fb fbSize) EFI_SUCCESS mm2 ?pb f2"
        unfolding buffer_result_def using f2(4) s(1) less.prems(4,5) held by auto
      thus ?thesis using step True I2(2) by auto
    next
      case False
      have "unat need \<le> needed_bytes regionStart regionEnd ty (mm_descs mm2) fb fbSize"
        using fill(2) by (simp add: buffer_ok_for_def)
      note bigger = next_pages [OF maps N this less.prems(5) False]
      have more: "0 < ?next" using bigger(1) by (simp add: word_less_nat_alt)
      have "N - unat ?next < N - unat n" using bigger by linarith
      from less.hyps [OF this I2(1) s(3) held more bigger(2)] obtain status mm' pb' f' where
        "page_map_buffer_loop fw (\<lambda>descs. FillPageMapSizes regionStart regionEnd ty descs fb fbSize)
          ty EFI_SUCCESS n ?next mm2 ?pb f2 = Some (status, mm', pb', f')" "stays I V f2 f'"
        "buffer_result fw I V N (good_buffer N regionStart regionEnd ty fb fbSize) status mm' pb' f'" by blast
      thus ?thesis unfolding step if_not_P [OF False] using stays_trans [OF I2(2)] by blast
    qed
  qed
qed

lemma GetMemoryMapAndPageMapBuffer_returns:
  assumes ok: "firmware_ok fw I V B" "enough_pages fw I V N"
    and map: "\<And>g. I g \<Longrightarrow> mappable N regionStart regionEnd ty fb fbSize (vw_descs V g)"
    and code: "unat (regionEnd - regionStart) < 2 ^ 51"
    and "I f" "pool_held V mm f" and size: "pm_bufferSize pb = n * 4096" "unat n \<le> N" "pages_held V (pm_pBuffer pb) n f"
  shows "\<exists>status mm' pb' f'. GetMemoryMapAndPageMapBuffer fw (\<lambda>descs. FillPageMapSizes regionStart regionEnd ty descs fb fbSize)
      ty mm pb f = Some (status, mm', pb', f') \<and> stays I V f f' \<and>
    buffer_result fw I V N (good_buffer N regionStart regionEnd ty fb fbSize) status mm' pb' f'"
proof -
  have N: "4 \<le> N" "N < 2 ^ 40" using ok(2) by (simp_all add: enough_pages_def)
  have "unat (n * 4096) = unat n * 4096" using size(2) N by (subst unat_u64_mult) simp_all
  hence "unat (n * 4096 + 4095) = unat n * 4096 + 4095" using size(2) N by (subst unat_u64_plus) simp_all
  hence "unat ((n * 4096 + 4095) div 4096) = unat n" by (simp add: unat_u64_div)
  hence "(n * 4096 + 4095) div 4096 = n" by (simp only: word_unat_eq_iff)
  moreover have "n * 4096 + 4096 - 1 = n * 4096 + 4095" by simp
  ultimately have "(pm_bufferSize pb + 4096 - 1) div 4096 = n" unfolding size(1) by (simp only:)
  hence eq: "GetMemoryMapAndPageMapBuffer fw fill ty mm pb f =
      page_map_buffer_loop fw fill ty EFI_SUCCESS n (if n = 0 then 4 else n) mm pb f" for fill
    by (simp add: GetMemoryMapAndPageMapBuffer_def)
  have "0 < (if n = 0 then 4 else n)" "unat (if n = 0 then 4 else n) \<le> N"
    using size(2) N(1) by (auto simp: word_neq_0_conv)
  from page_map_buffer_loop_returns [OF ok map code assms(5,6) size(3) this] show ?thesis unfolding eq .
qed

subsection \<open>Leaving the boot services\<close>

text \<open>
  The boot services are left with the final memory map and a buffer for its tables, or a
  pool was refused.
\<close>

definition exit_result ::
  "'f boot_services \<Rightarrow> ('f \<Rightarrow> bool) \<Rightarrow> 'f firmware_view \<Rightarrow> (efi_desc list \<Rightarrow> page_map_buffer \<Rightarrow> bool) \<Rightarrow>
    u64 \<Rightarrow> memory_map \<Rightarrow> page_map_buffer \<Rightarrow> 'f \<Rightarrow> bool" where
  "exit_result fw I V good status mm pb f =
     (if EFI_ERROR status then pool_refuses fw I status \<and> I f
      else status = EFI_SUCCESS \<and> mm_descs mm = vw_descs V f \<and> good (mm_descs mm) pb \<and>
        (\<exists>g. I g \<and> mm_descs mm = vw_descs V g))"

lemma exit_boot_services_loop_returns:
  assumes ok: "firmware_ok fw I V B" "enough_pages fw I V N"
    and map: "\<And>g. I g \<Longrightarrow> mappable N regionStart regionEnd ty fb fbSize (vw_descs V g)"
    and code: "unat (regionEnd - regionStart) < 2 ^ 51"
    and "I f" "pool_held V mm f" "pm_bufferSize pb = n * 4096" "unat n \<le> N" "pages_held V (pm_pBuffer pb) n f"
  shows "\<exists>status mm' pb' f'. exit_boot_services_loop fw (\<lambda>descs. FillPageMapSizes regionStart regionEnd ty descs fb fbSize)
      ty mm pb f = Some (status, mm', pb', f') \<and>
    exit_result fw I V (good_buffer N regionStart regionEnd ty fb fbSize) status mm' pb' f'"
  using assms(5-9)
proof (induction "vw_changes V f" arbitrary: f mm pb n rule: less_induct)
  case less
  let ?fill = "\<lambda>descs. FillPageMapSizes regionStart regionEnd ty descs fb fbSize"
  obtain s mm1 pb1 f1 where f1: "GetMemoryMapAndPageMapBuffer fw ?fill ty mm pb f = Some (s, mm1, pb1, f1)"
    "stays I V f f1" "buffer_result fw I V N (good_buffer N regionStart regionEnd ty fb fbSize) s mm1 pb1 f1"
    using GetMemoryMapAndPageMapBuffer_returns [OF ok map code less.prems] by blast
  have I1: "I f1" using f1(2) by (simp add: stays_def)
  show ?case
  proof (cases "EFI_ERROR s")
    case True
    have "exit_boot_services_loop fw ?fill ty mm pb f = Some (s, mm1, pb1, f1)"
      using True by (subst exit_boot_services_loop.simps) (simp add: f1(1))
    moreover have "pool_refuses fw I s"
      using f1(3) True by (auto simp: buffer_result_def retrieved_def)
    ultimately show ?thesis using True I1 by (auto simp: exit_result_def)
  next
    case False
    have s: "s = EFI_SUCCESS" "mm_descs mm1 = vw_descs V f1" "mm_key mm1 = vw_key V f1" "pool_held V mm1 f1"
      "good_buffer N regionStart regionEnd ty fb fbSize (mm_descs mm1) pb1"
      using f1(3) False pool_refuses_error [of fw I s] unfolding buffer_result_def retrieved_def by blast+
    obtain n1 where n1: "pm_bufferSize pb1 = n1 * 4096" "unat n1 \<le> N" "pages_held V (pm_pBuffer pb1) n1 f1"
      using f1(3) False unfolding buffer_result_def by blast
    obtain s2 f2 where f2: "svcExitBootServices fw (mm_key mm1) f1 = (s2, f2)" by fastforce
    have "exit_service fw I V" using ok(1) by (simp add: firmware_ok_def)
    from ExitBootServices_law [OF this I1 f2] s(3) have s2:
      "s2 = EFI_SUCCESS \<and> vw_descs V f2 = vw_descs V f1 \<or>
       s2 = EFI_INVALID_PARAMETER \<and> stays I V f1 f2 \<and> vw_pool V f2 = vw_pool V f1 \<and>
         vw_pages V f2 = vw_pages V f1 \<and> vw_changes V f2 < vw_changes V f1" by blast
    have step: "exit_boot_services_loop fw ?fill ty mm pb f =
        (if s2 = EFI_INVALID_PARAMETER then exit_boot_services_loop fw ?fill ty mm1 pb1 f2 else Some (s2, mm1, pb1, f2))"
      by (subst exit_boot_services_loop.simps) (simp add: f1(1) s(1) f2)
    show ?thesis
    proof (cases "s2 = EFI_INVALID_PARAMETER")
      case True
      hence "I f2" "vw_changes V f2 < vw_changes V f" "pool_held V mm1 f2" "pages_held V (pm_pBuffer pb1) n1 f2"
        using s2 f1(2) s(4) n1(3) by (auto simp: stays_def pool_held_def pages_held_def)
      from less.hyps [OF this(2,1,3) n1(1,2) this(4)] show ?thesis unfolding step using True by simp
    next
      case False
      hence "s2 = EFI_SUCCESS" "vw_descs V f2 = vw_descs V f1" using s2 by simp_all
      thus ?thesis unfolding step using s(2,5) I1 by (auto simp: exit_result_def)
    qed
  qed
qed

lemma switchedD:
  assumes "switched ty descs fb fbSize m c c'"
  shows "cpu_bootServices c' = cpu_bootServices c" "cpu_interrupts c' = cpu_interrupts c"
    "cpu_levels c' = levels_after ty" "identity_map (cpu_levels c') (initial_bytes descs fb fbSize) m (cpu_pageMap c')"
  using assms by (cases c, cases c', simp add: switched_def)+

subsection \<open>Properties\<close>

text \<open>
  The end of the boot phase. Either a pool was refused, and the firmware and the processor
  are as before; or the boot services have ended with the returned memory map, and the
  processor runs on the identity map of it.
\<close>

definition boot_phase_ended ::
  "bool \<Rightarrow> u64 \<Rightarrow> u64 \<Rightarrow> cpu \<Rightarrow> memory_map \<Rightarrow> entries \<Rightarrow> boot_event list \<Rightarrow> bool" where
  "boot_phase_ended has5 fb fbSize c mm m ev =
     (low_switch ev \<and>
      (let c' = fold cpu_step ev c
       in \<not> cpu_bootServices c' \<and> \<not> cpu_interrupts c' \<and> cpu_levels c' = (if has5 then 5 else 4) \<and>
         identity_map (cpu_levels c') (initial_bytes (mm_descs mm) fb fbSize) m (cpu_pageMap c')))"

lemma EndBootPhase_outcome:
  assumes "firmware_ok fw I V B" "enough_pages fw I V N"
    and map: "\<And>g. I g \<Longrightarrow> mappable N regionStart regionEnd (GetPageMapSetupType has5 is5) fb fbSize (vw_descs V g)"
    and "I f" "vw_pages V f = {}" "regionStart \<le> regionEnd" "unat (regionEnd - regionStart) < 2 ^ 51"
    and "cpu_levels c = levels_before (GetPageMapSetupType has5 is5)"
  shows "\<exists>status mm m' ev f'. EndBootPhase fw regionStart regionEnd has5 is5 fb fbSize dSize dVersion f m =
      Some (status, mm, m', ev, f') \<and>
    (if EFI_ERROR status then pool_refuses fw I status \<and> I f' \<and> m' = m \<and> ev = []
     else status = EFI_SUCCESS \<and> mm_descs mm = vw_descs V f' \<and> (\<exists>g. I g \<and> mm_descs mm = vw_descs V g) \<and>
       boot_phase_ended has5 fb fbSize c mm m' ev)"
proof -
  let ?ty = "GetPageMapSetupType has5 is5"
  let ?fill = "\<lambda>descs. FillPageMapSizes regionStart regionEnd ?ty descs fb fbSize"
  have "pool_held V (no_memory_map dSize dVersion) f" "pm_bufferSize no_page_map_buffer = 0 * 4096" "unat (0 :: u64) \<le> N"
    "pages_held V (pm_pBuffer no_page_map_buffer) 0 f"
    by (simp_all add: no_page_map_buffer_def no_memory_map_def pool_held_def pages_held_def assms(5))
  from exit_boot_services_loop_returns [OF assms(1,2) map assms(7,4) this]
  obtain s mm pb f' where exit: "exit_boot_services_loop fw ?fill ?ty (no_memory_map dSize dVersion) no_page_map_buffer f =
      Some (s, mm, pb, f')" "exit_result fw I V (good_buffer N regionStart regionEnd ?ty fb fbSize) s mm pb f'" by blast
  show ?thesis
  proof (cases "EFI_ERROR s")
    case True
    have "EndBootPhase fw regionStart regionEnd has5 is5 fb fbSize dSize dVersion f m = Some (s, mm, m, [], f')"
      using exit(1) True by (simp add: EndBootPhase_def ExitBootServicesAndGetBuffer_def)
    thus ?thesis using exit(2) True by (auto simp: exit_result_def)
  next
    case False
    hence s: "s = EFI_SUCCESS" "mm_descs mm = vw_descs V f'" "\<exists>g. I g \<and> mm_descs mm = vw_descs V g"
      "good_buffer N regionStart regionEnd ?ty fb fbSize (mm_descs mm) pb"
      using exit(2) unfolding exit_result_def if_not_P [OF False] by blast+
    obtain n where n: "buffer_ok_for regionStart regionEnd ?ty (mm_descs mm) fb fbSize pb n" "placed pb n"
      "?ty = PAGE_MAP_4_TO_5_TRANSITION \<Longrightarrow> unat (pm_pBuffer pb) + unat n \<le> 2 ^ 32"
      using s(4) unfolding good_buffer_def by blast
    let ?c = "cpu_step DisableInterrupts (cpu_step ForgetBootServices c)"
    have "memory_map_ok ?ty fb fbSize (mm_descs mm)" using map s(3) by (auto simp: mappable_def)
    moreover have "cpu_levels ?c = levels_before ?ty" using assms(8) by simp
    ultimately obtain m' ev where ev: "SwitchToIdentityPageMap regionStart regionEnd ?ty (mm_descs mm) fb fbSize pb m = Some (True, m', ev)"
      "low_switch ev" "switched ?ty (mm_descs mm) fb fbSize m' ?c (fold cpu_step ev ?c)"
      using SwitchToIdentityPageMap_switches [OF _ n(2,1) _ assms(6) n(3)] by blast
    let ?ev = "ForgetBootServices # DisableInterrupts # ev"
    have "EndBootPhase fw regionStart regionEnd has5 is5 fb fbSize dSize dVersion f m = Some (EFI_SUCCESS, mm, m', ?ev, f')"
      using exit(1) s(1) ev(1) by (simp add: EndBootPhase_def ExitBootServicesAndGetBuffer_def)
    moreover have "levels_after ?ty = (if has5 then 5 else 4)"
      by (simp add: levels_after_def GetPageMapSetupType_def)
    hence "boot_phase_ended has5 fb fbSize c mm m' ?ev"
      using ev(2) switchedD [OF ev(3)] by (simp add: boot_phase_ended_def low_switch_def Let_def)
    ultimately show ?thesis using s(2,3)
      by (intro exI [of _ EFI_SUCCESS] exI [of _ mm] exI [of _ m'] exI [of _ ?ev] exI [of _ f']) simp
  qed
qed

text \<open>
  C3: The end of the boot phase. The firmware's services behave as the UEFI specification
  says: the loader's buffers are only taken back when it owns them, and the boot services
  are only left with the key of the current memory map. There is memory for the tables, the
  memory maps can be mapped, and the firmware changes its map by itself finitely often. Then
  the function returns. If the firmware refuses a pool, it returns this error with the boot
  services, the tables and the processor untouched. Otherwise it returns \<open>EFI_SUCCESS\<close> and
  the firmware's final memory map; the boot services are gone, interrupts are disabled and
  the processor runs with the number of levels for its features, on tables that translate
  exactly the pages of the memory in this map and of the frame buffer, each to itself. The
  switch to 5 levels only uses addresses below 4 GiB.
\<close>

theorem EndBootPhase_switches:
  assumes "firmware_ok fw I V B" "enough_pages fw I V N"
    and "\<And>g. I g \<Longrightarrow> mappable N regionStart regionEnd (GetPageMapSetupType has5 is5) fb fbSize (vw_descs V g)"
    and "I f" "vw_pages V f = {}" "regionStart \<le> regionEnd" "unat (regionEnd - regionStart) < 2 ^ 51"
    and "cpu_levels c = levels_before (GetPageMapSetupType has5 is5)"
  shows "\<exists>status mm m' ev f'. EndBootPhase fw regionStart regionEnd has5 is5 fb fbSize dSize dVersion f m =
      Some (status, mm, m', ev, f') \<and>
    (if EFI_ERROR status then pool_refuses fw I status \<and> I f' \<and> m' = m \<and> ev = []
     else status = EFI_SUCCESS \<and> mm_descs mm = vw_descs V f' \<and> (\<exists>g. I g \<and> mm_descs mm = vw_descs V g) \<and>
       low_switch ev \<and>
       (let c' = fold cpu_step ev c
        in \<not> cpu_bootServices c' \<and> \<not> cpu_interrupts c' \<and> cpu_levels c' = (if has5 then 5 else 4) \<and>
          identity_map (cpu_levels c') (initial_bytes (mm_descs mm) fb fbSize) m' (cpu_pageMap c')))"
proof -
  have maps: "mappable N regionStart regionEnd (GetPageMapSetupType has5 is5) fb fbSize (vw_descs V g)" if "I g" for g
    using assms(3) [OF that] .
  show ?thesis
    by (rule EndBootPhase_outcome [OF assms(1,2) maps assms(4-8), unfolded boot_phase_ended_def])
qed

subsection \<open>A firmware\<close>

text \<open>
  A firmware with \<open>n\<close> free pages from 1 MiB on. Its state tells how often the memory map is
  still going to change, which also makes the key, and the pools and pages it has given away.
\<close>

type_synonym firmware_state = "nat \<times> (u64 \<times> u64) set \<times> (u64 \<times> u64) set"

definition model_firmware :: "efi_desc list \<Rightarrow> nat \<Rightarrow> firmware_state boot_services" where
  "model_firmware descs N = \<lparr>
     svcFreePool = \<lambda>p (k, pool, pages). (EFI_SUCCESS, k, pool - {p} \<times> UNIV, pages),
     svcAllocatePool = \<lambda>mem n (k, pool, pages). (EFI_SUCCESS, 0x5000, k, insert (0x5000, n) pool, pages),
     svcGetMemoryMap = \<lambda>mm (k, pool, pages).
       if mm_size mm < 600 then (EFI_BUFFER_TOO_SMALL, mm\<lparr>mm_size := 600, mm_descriptorSize := 48\<rparr>, k, pool, pages)
       else (EFI_SUCCESS, mm\<lparr>mm_descs := descs, mm_key := of_nat k + 1\<rparr>, k, pool, pages),
     svcFreePages = \<lambda>p n (k, pool, pages). (EFI_SUCCESS, k, pool, pages - {(p, n)}),
     svcAllocatePages = \<lambda>ty mem n addr (k, pool, pages).
       if pages = {} \<and> unat n \<le> N \<and> (ty = AllocateMaxAddress \<longrightarrow> 0x100000 + 4096 * N \<le> unat addr)
       then (EFI_SUCCESS, 0x100000, k, pool, insert (0x100000, n) pages)
       else (EFI_OUT_OF_RESOURCES, addr, k, pool, pages),
     svcExitBootServices = \<lambda>key (k, pool, pages).
       if key \<noteq> of_nat k + 1 then (EFI_INVALID_PARAMETER, k, pool, pages)
       else if k = 0 then (EFI_SUCCESS, k, pool, pages) else (EFI_INVALID_PARAMETER, k - 1, pool, pages)\<rparr>"

definition model_view :: "efi_desc list \<Rightarrow> firmware_state firmware_view" where
  "model_view descs = \<lparr>vw_descs = \<lambda>_. descs, vw_key = \<lambda>(k, pool, pages). of_nat k + 1,
     vw_pool = \<lambda>(k, pool, pages). pool, vw_pages = \<lambda>(k, pool, pages). pages, vw_changes = \<lambda>(k, pool, pages). k\<rparr>"

lemma EFI_OUT_OF_RESOURCES_error [simp]: "EFI_ERROR EFI_OUT_OF_RESOURCES"
  by (simp add: EFI_ERROR_def)

lemma model_firmware_ok: "N < 2 ^ 39 \<Longrightarrow> firmware_ok (model_firmware descs N) (\<lambda>_. True) (model_view descs) 600"
  unfolding firmware_ok_def
proof (intro conjI)
  show "pool_services (model_firmware descs N) (\<lambda>_. True) (model_view descs)"
    by (simp add: pool_services_def model_firmware_def model_view_def stays_def)
  show "page_services (model_firmware descs N) (\<lambda>_. True) (model_view descs)" if "N < 2 ^ 39"
    unfolding page_services_def model_firmware_def model_view_def stays_def using that
    by (auto split: prod.splits if_splits)
  show "memory_map_service (model_firmware descs N) (\<lambda>_. True) (model_view descs) 600"
    by (auto simp: memory_map_service_def model_firmware_def model_view_def stays_def word_less_nat_alt)
  show "exit_service (model_firmware descs N) (\<lambda>_. True) (model_view descs)"
    by (auto simp: exit_service_def model_firmware_def model_view_def stays_def)
qed

lemma model_enough_pages: "enough_pages (model_firmware descs 256) (\<lambda>_. True) (model_view descs) 256"
  by (auto simp: enough_pages_def model_firmware_def model_view_def)

lemma model_pool: "\<not> pool_refuses (model_firmware descs N) I status"
  by (auto simp: pool_refuses_def model_firmware_def)

lemma two_pages_mappable:
  "mappable 256 0x100000000 0x100000060 PAGE_MAP_4_TO_5_TRANSITION 0x200000 0x1000 two_pages"
proof -
  have "page_map_bytes PAGE_MAP_4_TO_5_TRANSITION two_pages 0x200000 0x1000 = 24576"
    by (simp only: page_map_setup_type.distinct if_False table_bytes_def two_pages_bytes two_pages_tables) simp
  moreover have "transitional_bytes two_pages = 16384"
    by (simp only: table_bytes_def two_pages_transitional one_page_tables) simp
  ultimately show ?thesis
    unfolding mappable_def needed_bytes_def by (simp add: two_pages_memory_map_ok del: One_nat_def)
qed

text \<open>The memory map changes three times before the boot services can be left.\<close>

lemma EndBootPhase_switches_witness:
  "\<exists>mm m' ev f'. EndBootPhase (model_firmware two_pages 256) 0x100000000 0x100000060 True False 0x200000 0x1000 0 0
      (3, {}, {}) (\<lambda>_. 7) = Some (EFI_SUCCESS, mm, m', ev, f') \<and> mm_descs mm = two_pages \<and>
    cpu_levels (fold cpu_step ev \<lparr>cpu_bootServices = True, cpu_interrupts = True, cpu_levels = 4, cpu_pageMap = 0\<rparr>) = 5"
proof -
  let ?c = "\<lparr>cpu_bootServices = True, cpu_interrupts = True, cpu_levels = 4, cpu_pageMap = 0\<rparr>"
  have ty: "GetPageMapSetupType True False = PAGE_MAP_4_TO_5_TRANSITION" by (simp add: GetPageMapSetupType_def)
  have levels: "cpu_levels ?c = levels_before (GetPageMapSetupType True False)"
    by (simp add: levels_before_def ty)
  have maps: "mappable 256 0x100000000 0x100000060 (GetPageMapSetupType True False) 0x200000 0x1000
      (vw_descs (model_view two_pages) g)" for g
    using two_pages_mappable by (simp add: ty model_view_def)
  have none: "vw_pages (model_view two_pages) (3, {}, {}) = {}" by (simp add: model_view_def)
  have "(256 :: nat) < 2 ^ 39" by simp
  note ok = model_firmware_ok [OF this, of two_pages]
  from EndBootPhase_switches [OF ok model_enough_pages maps TrueI none _ _ levels, where m = "\<lambda>_. 7" and dSize = 0 and dVersion = 0]
  show ?thesis by (simp add: Let_def model_pool if_bool_eq_conj) (simp add: model_view_def, blast)
qed

text \<open>A firmware without free pages, and a memory map for which four pages suffice.\<close>

definition one_page :: "efi_desc list" where
  "one_page = [\<lparr>efi_Type = EfiConventionalMemory, efi_PhysicalStart = 0x1000,
      efi_VirtualStart = 0, efi_NumberOfPages = 1, efi_Attribute = 0\<rparr>]"

definition exhausted_firmware :: "unit boot_services" where
  "exhausted_firmware = \<lparr>svcFreePool = \<lambda>p f. (EFI_SUCCESS, f), svcAllocatePool = \<lambda>mem n f. (EFI_SUCCESS, 0x5000, f),
     svcGetMemoryMap = \<lambda>mm f. (EFI_SUCCESS, mm\<lparr>mm_descs := one_page\<rparr>, f),
     svcFreePages = \<lambda>p n f. (EFI_SUCCESS, f),
     svcAllocatePages = \<lambda>ty mem n addr f. (EFI_OUT_OF_RESOURCES, addr, f),
     svcExitBootServices = \<lambda>key f. (EFI_SUCCESS, f)\<rparr>"

lemma one_page_bytes: "initial_bytes one_page 0x2000 0x1000 = {4096..<12288}"
  by (auto simp: one_page_def initial_bytes_def ShouldIncludeInPageMap_def desc_bytes_def)

lemma one_page_memory_map_ok: "memory_map_ok PAGE_MAP_4_SETUP 0x2000 0x1000 one_page"
  by (simp add: memory_map_ok_def level_bits_def region_fits_def one_page_def ranges_ok_def
      ShouldIncludeInPageMap_def ShouldIncludeInTransitionalPageMap_def desc_last_def)

lemma one_page_map_tables: "card (tables_of k {4096..<12288}) = k"
proof (induction k)
  case (Suc k)
  have "block (Suc k) ` {4096..<12288} = {0}"
  proof -
    have "block (Suc k) a = 0" if "a < 12288" for a
    proof (rule block_zero)
      have "(2::nat) ^ 14 \<le> 2 ^ (12 + 9 * Suc k)" by (intro power_increasing) simp_all
      thus "a < 2 ^ (12 + 9 * Suc k)" using that by simp
    qed
    thus ?thesis by (auto intro!: image_eqI [of _ _ 4096])
  qed
  thus ?case using Suc card_tables_of [of "{4096..<12288}" k] by simp
qed (simp add: tables_of_def)

lemma one_page_size: "CalculateInitialPageMap4Size one_page 0x2000 0x1000 = Some 0x4000"
proof -
  obtain n where n: "CalculateInitialPageMap4Size one_page 0x2000 0x1000 = Some n" "unat n = 16384"
    using page_map_4_size [OF one_page_memory_map_ok] unfolding one_page_bytes one_page_map_tables by auto
  have "n = 0x4000" using n(2) by (metis of_nat_unat_u64 of_nat_numeral)
  thus ?thesis using n(1) by simp
qed

text \<open>
  A failed allocation goes unnoticed. When the firmware has no pages for the tables,
  it reports \<open>EFI_OUT_OF_RESOURCES\<close>, but the status is dropped: the function still
  returns \<open>EFI_SUCCESS\<close>, has built the tables at address 0, which the firmware never
  gave to it, and the processor uses them.
\<close>

theorem EndBootPhase_ignores_failed_allocation:
  "\<exists>mm m'. EndBootPhase exhausted_firmware 0x100000 0x100060 False False 0x2000 0x1000 0 0 () m =
      Some (EFI_SUCCESS, mm, m', [ForgetBootServices, DisableInterrupts, SwitchPageMap 0], ()) \<and>
    identity_map 4 (initial_bytes one_page 0x2000 0x1000) m' 0"
proof -
  let ?fill = "\<lambda>descs. FillPageMapSizes 0x100000 0x100060 PAGE_MAP_4_SETUP descs 0x2000 0x1000"
  let ?mm = "\<lparr>mm_pBuffer = 0x5000, mm_size = 512, mm_key = 0, mm_descriptorSize = 0, mm_descriptorVersion = 0,
    mm_descs = one_page\<rparr> :: memory_map"
  let ?pb = "no_page_map_buffer\<lparr>pm_pageMapOffset := 0, pm_pageMapSize := 0x4000, pm_pBuffer := 0, pm_bufferSize := 0x4000\<rparr>"
  have map: "GetMemoryMap exhausted_firmware (no_memory_map 0 0) () = Some (EFI_SUCCESS, ?mm, ())"
    unfolding GetMemoryMap_def by (subst get_memory_map_loop.simps) (simp add: exhausted_firmware_def no_memory_map_def)
  have fill: "FillPageMapSizes 0x100000 0x100060 PAGE_MAP_4_SETUP one_page 0x2000 0x1000 pb =
      Some (pb\<lparr>pm_pageMapOffset := 0, pm_pageMapSize := 0x4000\<rparr>, 0x4000)" for pb
    by (simp add: FillPageMapSizes_def FillPageMap4Sizes_def one_page_size)
  have realloc: "ReAllocPageMapBuffer exhausted_firmware 0 0 4 PAGE_MAP_4_SETUP () = (EFI_OUT_OF_RESOURCES, 0, ())"
    by (simp add: ReAllocPageMapBuffer_def exhausted_firmware_def)
  have buffer: "GetMemoryMapAndPageMapBuffer exhausted_firmware ?fill PAGE_MAP_4_SETUP (no_memory_map 0 0)
      no_page_map_buffer () = Some (EFI_SUCCESS, ?mm, ?pb, ())"
    unfolding GetMemoryMapAndPageMapBuffer_def
    by (subst page_map_buffer_loop.simps) (simp add: no_page_map_buffer_def realloc map fill)
  have leave: "svcExitBootServices exhausted_firmware key () = (EFI_SUCCESS, ())" for key
    by (simp add: exhausted_firmware_def)
  have exit: "exit_boot_services_loop exhausted_firmware ?fill PAGE_MAP_4_SETUP (no_memory_map 0 0)
      no_page_map_buffer () = Some (EFI_SUCCESS, ?mm, ?pb, ())"
    by (subst exit_boot_services_loop.simps) (simp add: buffer leave)
  have "maps_exactly 3 (initial_bytes one_page 0x2000 0x1000) 0 0x4000 m (SetupInitialPageMap4 one_page 0x2000 0x1000 0 0x4000 m)"
    using one_page_memory_map_ok by (intro SetupInitialPageMap4_maps) (simp_all add: memory_map_ok_def level_bits_def)
  from maps_exactly_result [OF this, unfolded one_page_bytes one_page_map_tables]
  obtain m' where m': "SetupInitialPageMap4 one_page 0x2000 0x1000 0 0x4000 m = Some (Some 0, m')"
    "identity_map 4 {4096..<12288} m' 0" by fastforce
  have "EndBootPhase exhausted_firmware 0x100000 0x100060 False False 0x2000 0x1000 0 0 () m =
      Some (EFI_SUCCESS, ?mm, m', [ForgetBootServices, DisableInterrupts, SwitchPageMap 0], ())"
    using m'(1) exit
    by (simp add: EndBootPhase_def GetPageMapSetupType_def ExitBootServicesAndGetBuffer_def SwitchToIdentityPageMap_def
        CreateAndSwitchPageMap4_def no_page_map_buffer_def)
  thus ?thesis using m'(2) unfolding one_page_bytes by blast
qed

end
