(* ===== verification/PS2Controller.thy ===== *)
theory PS2Controller
  imports Machine
begin

text \<open>
  The PS/2 controller (src/src/Drivers/PS2ControllerDriver.c): its initialisation on the
  ports 0x60 and 0x64.

  \<^item> The hardware is a parameter: reading and writing a port on an abstract state.
  \<^item> A run has no result when it waits for the controller forever, a reason when it ends
    in a kernel panic (the left side), or a value and the new state.
\<close>

unbundle bit_operations_syntax

record 'd ports =
  inb :: "u16 \<Rightarrow> 'd \<Rightarrow> u8 \<times> 'd"
  outb :: "u8 \<Rightarrow> u16 \<Rightarrow> 'd \<Rightarrow> 'd"

type_synonym ('d, 'a) run = "'d \<Rightarrow> (string + 'a \<times> 'd) option"

definition run_bind :: "('d, 'a) run \<Rightarrow> ('a \<Rightarrow> ('d, 'b) run) \<Rightarrow> ('d, 'b) run" where
  "run_bind r g d = (case r d of None \<Rightarrow> None
     | Some (Inl reason) \<Rightarrow> Some (Inl reason)
     | Some (Inr (a, d')) \<Rightarrow> g a d')"

definition run_return :: "'a \<Rightarrow> ('d, 'a) run" where
  "run_return a d = Some (Inr (a, d))"

definition run_panic :: "string \<Rightarrow> ('d, 'a) run" where
  "run_panic reason d = Some (Inl reason)"

definition run_inb :: "'d ports \<Rightarrow> u16 \<Rightarrow> ('d, u8) run" where
  "run_inb io port d = Some (Inr (inb io port d))"

definition run_outb :: "'d ports \<Rightarrow> u8 \<Rightarrow> u16 \<Rightarrow> ('d, unit) run" where
  "run_outb io v port d = Some (Inr ((), outb io v port d))"

abbreviation (input) PS2C_DATA_PORT :: u16 where "PS2C_DATA_PORT \<equiv> 0x60"
abbreviation (input) PS2C_COMMAND_PORT :: u16 where "PS2C_COMMAND_PORT \<equiv> 0x64"
abbreviation (input) PS2C_STATUS_PORT :: u16 where "PS2C_STATUS_PORT \<equiv> 0x64"

subsection \<open>The initialisation\<close>

text \<open>The two loops on the status port.\<close>

partial_function (option) wait_write :: "'d ports \<Rightarrow> 'd \<Rightarrow> (string + unit \<times> 'd) option" where
  "wait_write io d =
     (let (statusByte, d) = inb io PS2C_STATUS_PORT d
      in if statusByte AND 2 = 2 then wait_write io d else Some (Inr ((), d)))"

partial_function (option) wait_read :: "'d ports \<Rightarrow> 'd \<Rightarrow> (string + unit \<times> 'd) option" where
  "wait_read io d =
     (let (statusByte, d) = inb io PS2C_STATUS_PORT d
      in if statusByte AND 1 \<noteq> 1 then wait_read io d else Some (Inr ((), d)))"

definition ReadConfigurationByte :: "'d ports \<Rightarrow> ('d, u8) run" where
  "ReadConfigurationByte io =
     run_bind (wait_write io) (\<lambda>_.
     run_bind (run_outb io 0x20 PS2C_COMMAND_PORT) (\<lambda>_.
     run_bind (wait_read io) (\<lambda>_.
     run_inb io PS2C_DATA_PORT)))"

definition WriteConfigurationByte :: "'d ports \<Rightarrow> u8 \<Rightarrow> ('d, unit) run" where
  "WriteConfigurationByte io v =
     run_bind (wait_write io) (\<lambda>_.
     run_bind (run_outb io 0x60 PS2C_COMMAND_PORT) (\<lambda>_.
     run_bind (wait_write io) (\<lambda>_.
     run_outb io v PS2C_DATA_PORT)))"

definition PerformPS2SelfTest :: "'d ports \<Rightarrow> ('d, unit) run" where
  "PerformPS2SelfTest io =
     run_bind (wait_write io) (\<lambda>_.
     run_bind (run_outb io 0xAA PS2C_COMMAND_PORT) (\<lambda>_.
     run_bind (wait_read io) (\<lambda>_.
     run_bind (run_inb io PS2C_DATA_PORT) (\<lambda>selfTestResult.
     if selfTestResult \<noteq> 0x55 then run_panic ''Boot error: PS/2 controller self-test failed''
     else run_return ()))))"

text \<open>The test of one port; the function does the first and, when there is one, the second.\<close>

definition test_port :: "'d ports \<Rightarrow> u8 \<Rightarrow> ('d, bool) run" where
  "test_port io command =
     run_bind (wait_write io) (\<lambda>_.
     run_bind (run_outb io command PS2C_COMMAND_PORT) (\<lambda>_.
     run_bind (wait_read io) (\<lambda>_.
     run_bind (run_inb io PS2C_DATA_PORT) (\<lambda>portTestResult.
     run_return (portTestResult = 0)))))"

definition TestPS2Ports :: "'d ports \<Rightarrow> bool \<Rightarrow> ('d, bool \<times> bool) run" where
  "TestPS2Ports io hasSecondPort =
     run_bind (test_port io 0xAB) (\<lambda>firstPortWorking.
     if hasSecondPort
     then run_bind (test_port io 0xA9) (\<lambda>secondPortWorking. run_return (firstPortWorking, secondPortWorking))
     else run_return (firstPortWorking, False))"

definition WritePS2Command :: "'d ports \<Rightarrow> u8 \<Rightarrow> ('d, unit) run" where
  "WritePS2Command io command =
     run_bind (wait_write io) (\<lambda>_. run_outb io command PS2C_COMMAND_PORT)"

text \<open>Whether the second port's clock really switches on; the port is disabled again.\<close>

definition QuerySecondPort :: "'d ports \<Rightarrow> ('d, bool) run" where
  "QuerySecondPort io =
     run_bind (WritePS2Command io 0xA8) (\<lambda>_.
     run_bind (ReadConfigurationByte io) (\<lambda>configByte.
     if configByte AND 0x20 = 0
     then run_bind (WritePS2Command io 0xA7) (\<lambda>_. run_return True)
     else run_return False))"

record ps2_init_result =
  hasKeyboard :: bool
  hasMouse :: bool

definition EnableWorkingPorts :: "'d ports \<Rightarrow> bool \<Rightarrow> bool \<Rightarrow> ('d, unit) run" where
  "EnableWorkingPorts io firstPortWorking secondPortWorking =
     run_bind (if firstPortWorking then WritePS2Command io 0xAE else run_return ()) (\<lambda>_.
     run_bind (if secondPortWorking then WritePS2Command io 0xA8 else run_return ()) (\<lambda>_.
     run_bind (ReadConfigurationByte io) (\<lambda>configByte.
     let configByte = (if firstPortWorking then configByte OR 0x1 else configByte);
         configByte = (if secondPortWorking then configByte OR 0x2 else configByte)
     in WriteConfigurationByte io configByte)))"

definition InitialisePS2Controller :: "'d ports \<Rightarrow> ('d, ps2_init_result) run" where
  "InitialisePS2Controller io =
     run_bind (WritePS2Command io 0xAD) (\<lambda>_.
     run_bind (WritePS2Command io 0xA7) (\<lambda>_.
     run_bind (run_inb io PS2C_DATA_PORT) (\<lambda>_.
     run_bind (ReadConfigurationByte io) (\<lambda>configByte.
     let hasSecondPort = (configByte AND 0x20 = 0x20);
         configByte = configByte AND NOT 0x1;
         configByte = configByte AND NOT 0x2;
         configByte = configByte AND NOT 0x40
     in
     run_bind (WriteConfigurationByte io configByte) (\<lambda>_.
     run_bind (PerformPS2SelfTest io) (\<lambda>_.
     run_bind (WriteConfigurationByte io configByte) (\<lambda>_.
     run_bind (if hasSecondPort then QuerySecondPort io else run_return False) (\<lambda>hasSecondPort.
     run_bind (TestPS2Ports io hasSecondPort) (\<lambda>(firstPortWorking, secondPortWorking).
     if \<not> firstPortWorking \<and> \<not> secondPortWorking
     then run_panic ''Boot: couldn't initialise PS/2 controller: no working ports''
     else run_bind (EnableWorkingPorts io firstPortWorking secondPortWorking) (\<lambda>_.
       run_return \<lparr>hasKeyboard = firstPortWorking, hasMouse = secondPortWorking\<rparr>))))))))))"

end
