(* ===== verification/PS2ControllerInit.thy ===== *)
theory PS2ControllerInit
  imports PS2Controller
begin

text \<open>
  The initialisation of a PS/2 controller that behaves as documented: it ends, with the
  interrupts of exactly the working ports enabled, or in the right panic. The driver is
  related to its effect on an abstract controller, operation by operation.
\<close>

subsection \<open>The controller\<close>

text \<open>
  The configuration byte, the output buffer and whether the next data byte is a new
  configuration. The properties of the hardware: whether there is a second port, the
  results of the tests, and what the self-test does to the configuration.
\<close>

record controller =
  config :: u8
  out :: "u8 option"
  writes_config :: bool

record hardware =
  dual :: bool
  selftest :: u8
  test1 :: u8
  test2 :: u8
  reset_config :: "u8 \<Rightarrow> u8"

definition on_command :: "hardware \<Rightarrow> u8 \<Rightarrow> controller \<Rightarrow> controller" where
  "on_command hw c s =
     (if c = 0x20 then s\<lparr>out := Some (config s)\<rparr>
      else if c = 0x60 then s\<lparr>writes_config := True\<rparr>
      else if c = 0xA7 then (if dual hw then s\<lparr>config := config s OR 0x20\<rparr> else s)
      else if c = 0xA8 then (if dual hw then s\<lparr>config := config s AND NOT 0x20\<rparr> else s)
      else if c = 0xA9 then s\<lparr>out := Some (test2 hw)\<rparr>
      else if c = 0xAA then s\<lparr>out := Some (selftest hw), config := reset_config hw (config s)\<rparr>
      else if c = 0xAB then s\<lparr>out := Some (test1 hw)\<rparr>
      else if c = 0xAD then s\<lparr>config := config s OR 0x10\<rparr>
      else if c = 0xAE then s\<lparr>config := config s AND NOT 0x10\<rparr>
      else s)"

definition on_data :: "u8 \<Rightarrow> controller \<Rightarrow> controller" where
  "on_data v s = (if writes_config s then s\<lparr>config := v, writes_config := False\<rparr> else s)"

definition replies :: "u8 \<Rightarrow> bool" where
  "replies c = (c \<in> {0x20, 0xA9, 0xAA, 0xAB})"

text \<open>
  Ports behave like such a controller with the view \<open>V\<close> of their state when the write
  bit is set \<open>busy\<close> more times, and a reply appears after \<open>delay\<close> more reads of the
  status. A write is documented only when the write bit is clear.
\<close>

definition controller_ok ::
  "'d ports \<Rightarrow> hardware \<Rightarrow> ('d \<Rightarrow> controller) \<Rightarrow> ('d \<Rightarrow> nat) \<Rightarrow> ('d \<Rightarrow> nat) \<Rightarrow> bool" where
  "controller_ok io hw V busy delay =
     ((\<forall>d. case inb io 0x64 d of (s, d') \<Rightarrow> V d' = V d \<and>
         busy d' = busy d - 1 \<and> delay d' = delay d - 1 \<and>
         (s AND 2 = 2 \<longleftrightarrow> busy d \<noteq> 0) \<and> (s AND 1 = 1 \<longleftrightarrow> out (V d) \<noteq> None \<and> delay d = 0)) \<and>
      (\<forall>d. case inb io 0x60 d of (v, d') \<Rightarrow> delay d = 0 \<longrightarrow>
         V d' = (V d)\<lparr>out := None\<rparr> \<and> (\<forall>w. out (V d) = Some w \<longrightarrow> v = w) \<and> delay d' = 0) \<and>
      (\<forall>c d. busy d = 0 \<longrightarrow> V (outb io c 0x64 d) = on_command hw c (V d) \<and>
         (\<not> replies c \<longrightarrow> delay (outb io c 0x64 d) \<le> delay d)) \<and>
      (\<forall>v d. busy d = 0 \<longrightarrow> V (outb io v 0x60 d) = on_data v (V d) \<and> delay (outb io v 0x60 d) \<le> delay d))"

subsection \<open>Runs on the abstract controller\<close>

text \<open>
  The abstract state also tells whether the output buffer is known to be settled. A run
  without a result makes no statement.
\<close>

type_synonym 'a abs_run = "(controller \<times> bool, 'a) run"

definition simulates ::
  "('d \<Rightarrow> controller) \<Rightarrow> ('d \<Rightarrow> nat) \<Rightarrow> ('d, 'a) run \<Rightarrow> 'a abs_run \<Rightarrow> bool" where
  "simulates V delay r f = (\<forall>d b. (b \<longrightarrow> delay d = 0) \<longrightarrow>
     (case f (V d, b) of None \<Rightarrow> True
      | Some (Inl reason) \<Rightarrow> r d = Some (Inl reason)
      | Some (Inr (a, s, b')) \<Rightarrow> \<exists>d'. r d = Some (Inr (a, d')) \<and> V d' = s \<and> (b' \<longrightarrow> delay d' = 0)))"

lemma sim_bind:
  assumes "simulates V delay r f" "\<And>a. simulates V delay (g a) (h a)"
  shows "simulates V delay (run_bind r g) (run_bind f h)"
  unfolding simulates_def
proof (intro allI impI)
  fix d b
  assume b: "b \<longrightarrow> delay d = 0"
  show "case run_bind f h (V d, b) of None \<Rightarrow> True
      | Some (Inl reason) \<Rightarrow> run_bind r g d = Some (Inl reason)
      | Some (Inr (a, s, b')) \<Rightarrow> \<exists>d'. run_bind r g d = Some (Inr (a, d')) \<and> V d' = s \<and> (b' \<longrightarrow> delay d' = 0)"
  proof (cases "f (V d, b)")
    case None
    thus ?thesis by (simp add: run_bind_def)
  next
    case (Some x)
    note f = assms(1) [unfolded simulates_def, THEN spec, THEN spec, THEN mp, OF b, unfolded Some]
    show ?thesis
    proof (cases x)
      case (Inl reason)
      thus ?thesis using f Some by (simp add: run_bind_def)
    next
      case (Inr y)
      obtain a s b' where y: "y = (a, s, b')" by (cases y)
      obtain d' where d': "r d = Some (Inr (a, d'))" "V d' = s" "b' \<longrightarrow> delay d' = 0"
        using f Inr y by auto
      note g = assms(2) [unfolded simulates_def, THEN spec, THEN spec, THEN mp, OF d'(3), of a]
      have abs: "run_bind f h (V d, b) = h a (V d', b')" using Some Inr y d'(2) by (simp add: run_bind_def)
      have run: "run_bind r g d = g a d'" using d'(1) by (simp add: run_bind_def)
      show ?thesis using g unfolding abs run .
    qed
  qed
qed

lemma sim_return: "simulates V delay (run_return a) (run_return a)"
  by (simp add: simulates_def run_return_def)

lemma sim_panic: "simulates V delay (run_panic reason) (run_panic reason)"
  by (simp add: simulates_def run_panic_def)

lemma sim_if:
  "(c \<Longrightarrow> simulates V delay r f) \<Longrightarrow> (\<not> c \<Longrightarrow> simulates V delay r' f') \<Longrightarrow>
    simulates V delay (if c then r else r') (if c then f else f')"
  by simp

lemma run_bind_assoc: "run_bind (run_bind r g) h = run_bind r (\<lambda>a. run_bind (g a) h)"
  by (auto simp: run_bind_def fun_eq_iff split: option.splits sum.splits)

subsection \<open>The primitives\<close>

lemma controller_okD:
  assumes "controller_ok io hw V busy delay"
  shows "inb io 0x64 d = (s, d') \<Longrightarrow> V d' = V d" "inb io 0x64 d = (s, d') \<Longrightarrow> busy d' = busy d - 1"
    "inb io 0x64 d = (s, d') \<Longrightarrow> delay d' = delay d - 1"
    "inb io 0x64 d = (s, d') \<Longrightarrow> s AND 2 = 2 \<longleftrightarrow> busy d \<noteq> 0"
    "inb io 0x64 d = (s, d') \<Longrightarrow> s AND 1 = 1 \<longleftrightarrow> out (V d) \<noteq> None \<and> delay d = 0"
    "inb io 0x60 d = (v, d') \<Longrightarrow> delay d = 0 \<Longrightarrow> V d' = (V d)\<lparr>out := None\<rparr> \<and> delay d' = 0"
    "inb io 0x60 d = (v, d') \<Longrightarrow> delay d = 0 \<Longrightarrow> out (V d) = Some w \<Longrightarrow> v = w"
    "busy d = 0 \<Longrightarrow> V (outb io c 0x64 d) = on_command hw c (V d)"
    "busy d = 0 \<Longrightarrow> \<not> replies c \<Longrightarrow> delay (outb io c 0x64 d) \<le> delay d"
    "busy d = 0 \<Longrightarrow> V (outb io c 0x60 d) = on_data c (V d)"
    "busy d = 0 \<Longrightarrow> delay (outb io c 0x60 d) \<le> delay d"
proof -
  note laws = assms [unfolded controller_ok_def]
  note status = spec [OF conjunct1 [OF laws], of d] and data = spec [OF conjunct1 [OF conjunct2 [OF laws]], of d]
  note command = spec [OF spec [OF conjunct1 [OF conjunct2 [OF conjunct2 [OF laws]]], of c], of d]
  note payload = spec [OF spec [OF conjunct2 [OF conjunct2 [OF conjunct2 [OF laws]]], of c], of d]
  show "inb io 0x64 d = (s, d') \<Longrightarrow> V d' = V d" "inb io 0x64 d = (s, d') \<Longrightarrow> busy d' = busy d - 1"
    "inb io 0x64 d = (s, d') \<Longrightarrow> delay d' = delay d - 1"
    "inb io 0x64 d = (s, d') \<Longrightarrow> s AND 2 = 2 \<longleftrightarrow> busy d \<noteq> 0"
    "inb io 0x64 d = (s, d') \<Longrightarrow> s AND 1 = 1 \<longleftrightarrow> out (V d) \<noteq> None \<and> delay d = 0"
    using status by simp_all
  show "inb io 0x60 d = (v, d') \<Longrightarrow> delay d = 0 \<Longrightarrow> V d' = (V d)\<lparr>out := None\<rparr> \<and> delay d' = 0"
    "inb io 0x60 d = (v, d') \<Longrightarrow> delay d = 0 \<Longrightarrow> out (V d) = Some w \<Longrightarrow> v = w"
    using data by simp_all
  show "busy d = 0 \<Longrightarrow> V (outb io c 0x64 d) = on_command hw c (V d)"
    "busy d = 0 \<Longrightarrow> \<not> replies c \<Longrightarrow> delay (outb io c 0x64 d) \<le> delay d"
    using command by simp_all
  show "busy d = 0 \<Longrightarrow> V (outb io c 0x60 d) = on_data c (V d)"
    "busy d = 0 \<Longrightarrow> delay (outb io c 0x60 d) \<le> delay d"
    using payload by simp_all
qed

lemma wait_write_returns:
  assumes ok: "controller_ok io hw V busy delay"
  shows "\<exists>d'. wait_write io d = Some (Inr ((), d')) \<and> V d' = V d \<and> busy d' = 0 \<and> delay d' \<le> delay d"
proof (induction "busy d" arbitrary: d)
  case 0
  obtain s d' where d': "inb io 0x64 d = (s, d')" by fastforce
  show ?case using controller_okD(1-4) [OF ok d'] 0 by (subst wait_write.simps) (simp add: d')
next
  case (Suc n)
  obtain s d' where d': "inb io 0x64 d = (s, d')" by fastforce
  note step = controller_okD(1-4) [OF ok d']
  have "n = busy d'" using step(2) Suc.hyps(2) by simp
  from Suc.hyps(1) [OF this] show ?case
    using step Suc.hyps(2) by (subst wait_write.simps) (auto simp: d' intro: order_trans)
qed

lemma wait_read_returns:
  assumes ok: "controller_ok io hw V busy delay" and "out (V d) = Some v"
  shows "\<exists>d'. wait_read io d = Some (Inr ((), d')) \<and> V d' = V d \<and> delay d' = 0"
  using assms(2)
proof (induction "delay d" arbitrary: d)
  case 0
  obtain s d' where d': "inb io 0x64 d = (s, d')" by fastforce
  show ?case using controller_okD(1,3,5) [OF ok d'] 0 by (subst wait_read.simps) (simp add: d')
next
  case (Suc n)
  obtain s d' where d': "inb io 0x64 d = (s, d')" by fastforce
  note step = controller_okD(1,3,5) [OF ok d']
  have "n = delay d'" "out (V d') = Some v" using step Suc.hyps(2) Suc.prems by simp_all
  from Suc.hyps(1) [OF this] show ?case
    using step Suc.hyps(2) by (subst wait_read.simps) (simp add: d')
qed

definition abs_command :: "hardware \<Rightarrow> u8 \<Rightarrow> unit abs_run" where
  "abs_command hw c = (\<lambda>(s, b). Some (Inr ((), on_command hw c s, b \<and> \<not> replies c)))"

definition abs_data :: "u8 \<Rightarrow> unit abs_run" where
  "abs_data v = (\<lambda>(s, b). Some (Inr ((), on_data v s, b)))"

definition abs_receive :: "u8 abs_run" where
  "abs_receive = (\<lambda>(s, b). map_option (\<lambda>v. Inr (v, s\<lparr>out := None\<rparr>, True)) (out s))"

definition abs_discard :: "unit abs_run" where
  "abs_discard = (\<lambda>(s, b). if b then Some (Inr ((), s\<lparr>out := None\<rparr>, True)) else None)"

lemma sim_command:
  assumes ok: "controller_ok io hw V busy delay"
  shows "simulates V delay (run_bind (wait_write io) (\<lambda>_. run_outb io c 0x64)) (abs_command hw c)"
  unfolding simulates_def
proof (intro allI impI)
  fix d b
  assume b: "b \<longrightarrow> delay d = 0"
  obtain d' where d': "wait_write io d = Some (Inr ((), d'))" "V d' = V d" "busy d' = 0" "delay d' \<le> delay d"
    using wait_write_returns [OF ok] by blast
  show "case abs_command hw c (V d, b) of None \<Rightarrow> True
      | Some (Inl reason) \<Rightarrow> run_bind (wait_write io) (\<lambda>_. run_outb io c 0x64) d = Some (Inl reason)
      | Some (Inr (a, s, b')) \<Rightarrow> \<exists>d'. run_bind (wait_write io) (\<lambda>_. run_outb io c 0x64) d = Some (Inr (a, d')) \<and>
          V d' = s \<and> (b' \<longrightarrow> delay d' = 0)"
    using controller_okD(8,9) [OF ok d'(3), of c] d' b by (auto simp: abs_command_def run_bind_def run_outb_def)
qed

lemma sim_data:
  assumes ok: "controller_ok io hw V busy delay"
  shows "simulates V delay (run_bind (wait_write io) (\<lambda>_. run_outb io v 0x60)) (abs_data v)"
  unfolding simulates_def
proof (intro allI impI)
  fix d b
  assume b: "b \<longrightarrow> delay d = 0"
  obtain d' where d': "wait_write io d = Some (Inr ((), d'))" "V d' = V d" "busy d' = 0" "delay d' \<le> delay d"
    using wait_write_returns [OF ok] by blast
  show "case abs_data v (V d, b) of None \<Rightarrow> True
      | Some (Inl reason) \<Rightarrow> run_bind (wait_write io) (\<lambda>_. run_outb io v 0x60) d = Some (Inl reason)
      | Some (Inr (a, s, b')) \<Rightarrow> \<exists>d'. run_bind (wait_write io) (\<lambda>_. run_outb io v 0x60) d = Some (Inr (a, d')) \<and>
          V d' = s \<and> (b' \<longrightarrow> delay d' = 0)"
    using controller_okD(10,11) [OF ok d'(3), of v] d' b by (auto simp: abs_data_def run_bind_def run_outb_def)
qed

lemma sim_receive:
  assumes ok: "controller_ok io hw V busy delay"
  shows "simulates V delay (run_bind (wait_read io) (\<lambda>_. run_inb io 0x60)) abs_receive"
  unfolding simulates_def
proof (intro allI impI)
  fix d b
  show "case abs_receive (V d, b) of None \<Rightarrow> True
      | Some (Inl reason) \<Rightarrow> run_bind (wait_read io) (\<lambda>_. run_inb io 0x60) d = Some (Inl reason)
      | Some (Inr (a, s, b')) \<Rightarrow> \<exists>d'. run_bind (wait_read io) (\<lambda>_. run_inb io 0x60) d = Some (Inr (a, d')) \<and>
          V d' = s \<and> (b' \<longrightarrow> delay d' = 0)"
  proof (cases "out (V d)")
    case None
    thus ?thesis by (simp add: abs_receive_def)
  next
    case (Some v)
    obtain d1 where d1: "wait_read io d = Some (Inr ((), d1))" "V d1 = V d" "delay d1 = 0"
      using wait_read_returns [OF ok Some] by blast
    obtain w d2 where d2: "inb io 0x60 d1 = (w, d2)" by fastforce
    have "w = v" using controller_okD(7) [OF ok d2 d1(3)] Some d1(2) by simp
    thus ?thesis using controller_okD(6) [OF ok d2 d1(3)] d1 d2 Some
      by (simp add: abs_receive_def run_bind_def run_inb_def)
  qed
qed

lemma sim_discard:
  assumes ok: "controller_ok io hw V busy delay" and g: "\<And>v. simulates V delay (g v) h"
  shows "simulates V delay (run_bind (run_inb io 0x60) g) (run_bind abs_discard (\<lambda>_. h))"
  unfolding simulates_def
proof (intro allI impI)
  fix d b
  assume b: "b \<longrightarrow> delay d = 0"
  show "case run_bind abs_discard (\<lambda>_. h) (V d, b) of None \<Rightarrow> True
      | Some (Inl reason) \<Rightarrow> run_bind (run_inb io 0x60) g d = Some (Inl reason)
      | Some (Inr (a, s, b')) \<Rightarrow> \<exists>d'. run_bind (run_inb io 0x60) g d = Some (Inr (a, d')) \<and>
          V d' = s \<and> (b' \<longrightarrow> delay d' = 0)"
  proof (cases b)
    case False
    thus ?thesis by (simp add: run_bind_def abs_discard_def)
  next
    case True
    obtain v d' where d': "inb io 0x60 d = (v, d')" by fastforce
    have view: "V d' = (V d)\<lparr>out := None\<rparr>" "True \<longrightarrow> delay d' = 0"
      using controller_okD(6) [OF ok d'] b True by simp_all
    have run: "run_bind (run_inb io 0x60) g d = g v d'" using d' by (simp add: run_bind_def run_inb_def)
    have abs: "run_bind abs_discard (\<lambda>_. h) (V d, b) = h (V d', True)"
      using True view(1) by (simp add: run_bind_def abs_discard_def)
    show ?thesis
      using g [unfolded simulates_def, THEN spec, THEN spec, THEN mp, OF view(2), of v] unfolding abs run .
  qed
qed

subsection \<open>The operations\<close>

text \<open>A command, and then its reply or its data.\<close>

lemma sim_command_reply:
  assumes ok: "controller_ok io hw V busy delay" and h: "\<And>v. simulates V delay (g v) (h v)"
    and eq: "\<And>s b. f (s, b) = run_bind (abs_command hw c) (\<lambda>_. run_bind abs_receive h) (s, b)"
  shows "simulates V delay (run_bind (wait_write io) (\<lambda>_. run_bind (run_outb io c 0x64)
    (\<lambda>_. run_bind (wait_read io) (\<lambda>_. run_bind (run_inb io 0x60) g)))) f"
proof -
  have "simulates V delay (run_bind (run_bind (wait_write io) (\<lambda>_. run_outb io c 0x64))
      (\<lambda>_. run_bind (run_bind (wait_read io) (\<lambda>_. run_inb io 0x60)) g))
    (run_bind (abs_command hw c) (\<lambda>_. run_bind abs_receive h))"
    by (intro sim_bind sim_command [OF ok] sim_receive [OF ok] h)
  moreover have "f = run_bind (abs_command hw c) (\<lambda>_. run_bind abs_receive h)"
    using eq by (intro ext) (simp add: split_paired_all)
  ultimately show ?thesis by (simp add: run_bind_assoc)
qed

lemma run_bind_return: "run_bind r run_return = r"
  by (auto simp: run_bind_def run_return_def fun_eq_iff split: option.splits sum.splits)

lemmas abs_simps = run_bind_def run_return_def run_panic_def abs_command_def abs_receive_def abs_data_def
  on_command_def on_data_def replies_def

lemma sim_ReadConfigurationByte:
  assumes "controller_ok io hw V busy delay"
  shows "simulates V delay (ReadConfigurationByte io) (\<lambda>(s, b). Some (Inr (config s, s\<lparr>out := None\<rparr>, True)))"
proof -
  have "simulates V delay (run_bind (wait_write io) (\<lambda>_. run_bind (run_outb io 0x20 0x64)
      (\<lambda>_. run_bind (wait_read io) (\<lambda>_. run_bind (run_inb io 0x60) run_return))))
    (\<lambda>(s, b). Some (Inr (config s, s\<lparr>out := None\<rparr>, True)))"
    by (rule sim_command_reply [OF assms sim_return]) (simp add: abs_simps)
  thus ?thesis by (simp add: ReadConfigurationByte_def run_bind_return)
qed

lemma sim_PerformPS2SelfTest:
  assumes "controller_ok io hw V busy delay"
  shows "simulates V delay (PerformPS2SelfTest io) (\<lambda>(s, b). Some
    (if selftest hw \<noteq> 0x55 then Inl ''Boot error: PS/2 controller self-test failed''
     else Inr ((), s\<lparr>out := None, config := reset_config hw (config s)\<rparr>, True)))"
  unfolding PerformPS2SelfTest_def
  by (rule sim_command_reply [OF assms sim_if [OF sim_panic sim_return]]) (simp add: abs_simps)

lemma sim_test_port:
  assumes "controller_ok io hw V busy delay"
  shows "simulates V delay (test_port io 0xAB) (\<lambda>(s, b). Some (Inr (test1 hw = 0, s\<lparr>out := None\<rparr>, True)))"
    "simulates V delay (test_port io 0xA9) (\<lambda>(s, b). Some (Inr (test2 hw = 0, s\<lparr>out := None\<rparr>, True)))"
  unfolding test_port_def
  by (rule sim_command_reply [OF assms sim_return], simp add: abs_simps)+

lemma sim_WritePS2Command:
  assumes "controller_ok io hw V busy delay"
  shows "simulates V delay (WritePS2Command io c) (abs_command hw c)"
  unfolding WritePS2Command_def by (rule sim_command [OF assms])

lemma sim_WriteConfigurationByte:
  assumes "controller_ok io hw V busy delay"
  shows "simulates V delay (WriteConfigurationByte io v)
    (\<lambda>(s, b). Some (Inr ((), s\<lparr>config := v, writes_config := False\<rparr>, b)))"
proof -
  have "simulates V delay (run_bind (run_bind (wait_write io) (\<lambda>_. run_outb io 0x60 0x64))
      (\<lambda>_. run_bind (wait_write io) (\<lambda>_. run_outb io v 0x60)))
    (run_bind (abs_command hw 0x60) (\<lambda>_. abs_data v))"
    by (intro sim_bind sim_command [OF assms] sim_data [OF assms])
  moreover have "run_bind (abs_command hw 0x60) (\<lambda>_. abs_data v) =
      (\<lambda>(s, b). Some (Inr ((), s\<lparr>config := v, writes_config := False\<rparr>, b)))"
    by (auto simp: abs_simps fun_eq_iff)
  ultimately show ?thesis by (simp add: WriteConfigurationByte_def run_bind_assoc)
qed

text \<open>The tests and the query on the abstract controller.\<close>

lemma u8_and_exp: "(w :: u8) AND 2 ^ n = (if bit w n then 2 ^ n else 0)"
  by (intro bit_word_eqI) (auto simp: bit_and_iff bit_exp_iff)

lemma u8_and_bit:
  fixes w :: u8
  shows "w AND 0x20 = 0 \<longleftrightarrow> \<not> bit w 5" "w AND 0x20 = 0x20 \<longleftrightarrow> bit w 5"
  using u8_and_exp [of w 5] by simp_all

lemma sim_TestPS2Ports:
  assumes "controller_ok io hw V busy delay"
  shows "simulates V delay (TestPS2Ports io second) (\<lambda>(s, b). Some (Inr
    ((test1 hw = 0, second \<and> test2 hw = 0), s\<lparr>out := None\<rparr>, True)))"
proof -
  let ?t1 = "\<lambda>(s, b). Some (Inr (test1 hw = 0, s\<lparr>out := None\<rparr>, True)) :: (string + bool \<times> controller \<times> bool) option"
  let ?t2 = "\<lambda>(s, b). Some (Inr (test2 hw = 0, s\<lparr>out := None\<rparr>, True)) :: (string + bool \<times> controller \<times> bool) option"
  have "simulates V delay (TestPS2Ports io second)
    (run_bind ?t1 (\<lambda>first. if second then run_bind ?t2 (\<lambda>m. run_return (first, m)) else run_return (first, False)))"
    unfolding TestPS2Ports_def by (intro sim_bind sim_test_port [OF assms] sim_if sim_return)
  moreover have "run_bind ?t1 (\<lambda>first. if second then run_bind ?t2 (\<lambda>m. run_return (first, m)) else run_return (first, False)) =
      (\<lambda>(s, b). Some (Inr ((test1 hw = 0, second \<and> test2 hw = 0), s\<lparr>out := None\<rparr>, True)))"
    by (auto simp: run_bind_def run_return_def fun_eq_iff)
  ultimately show ?thesis by simp
qed

lemma sim_QuerySecondPort:
  assumes "controller_ok io hw V busy delay"
  shows "simulates V delay (QuerySecondPort io) (\<lambda>(s, b). Some (Inr (if dual hw
    then (True, s\<lparr>out := None, config := config s OR 0x20\<rparr>, True)
    else if config s AND 0x20 = 0 then (True, s\<lparr>out := None\<rparr>, True) else (False, s\<lparr>out := None\<rparr>, True))))"
    (is "simulates _ _ _ ?f")
proof -
  let ?abs = "run_bind (abs_command hw 0xA8) (\<lambda>_. run_bind (\<lambda>(s, b). Some (Inr (config s, s\<lparr>out := None\<rparr>, True)))
    (\<lambda>configByte. if configByte AND 0x20 = 0 then run_bind (abs_command hw 0xA7) (\<lambda>_. run_return True) else run_return False))"
  have "simulates V delay (QuerySecondPort io) ?abs"
    unfolding QuerySecondPort_def
    by (intro sim_bind sim_WritePS2Command [OF assms] sim_ReadConfigurationByte [OF assms] sim_if sim_return)
  moreover have "(w AND NOT 0x20) OR 0x20 = w OR (0x20 :: u8)" "(w AND NOT 0x20) AND 0x20 = (0 :: u8)" for w
    by (auto simp: bit_eq_iff bit_simps)
  hence "?abs = ?f"
    by (auto simp: abs_simps fun_eq_iff)
  ultimately show ?thesis by simp
qed

lemma sim_EnableWorkingPorts:
  assumes "controller_ok io hw V busy delay"
  shows "simulates V delay (EnableWorkingPorts io first second)
    (\<lambda>(s, b). let c = config s;
        c = (if first then c AND NOT 0x10 else c);
        c = (if second \<and> dual hw then c AND NOT 0x20 else c);
        c = (if first then c OR 0x1 else c);
        c = (if second then c OR 0x2 else c)
      in Some (Inr ((), s\<lparr>out := None, config := c, writes_config := False\<rparr>, True)))"
    (is "simulates _ _ _ ?f")
proof -
  let ?abs = "run_bind (if first then abs_command hw 0xAE else run_return ()) (\<lambda>_.
    run_bind (if second then abs_command hw 0xA8 else run_return ()) (\<lambda>_.
    run_bind (\<lambda>(s, b). Some (Inr (config s, s\<lparr>out := None\<rparr>, True))) (\<lambda>configByte.
    let configByte = (if first then configByte OR 0x1 else configByte);
        configByte = (if second then configByte OR 0x2 else configByte)
    in (\<lambda>(s, b). Some (Inr ((), s\<lparr>config := configByte, writes_config := False\<rparr>, b))))))"
  have "simulates V delay (EnableWorkingPorts io first second) ?abs"
    unfolding EnableWorkingPorts_def Let_def
    by (intro sim_bind sim_WritePS2Command [OF assms] sim_ReadConfigurationByte [OF assms]
        sim_WriteConfigurationByte [OF assms] sim_if sim_return)
  moreover have "?abs = ?f"
    by (auto simp: abs_simps Let_def fun_eq_iff)
  ultimately show ?thesis by simp
qed

text \<open>The whole initialisation on the abstract controller, with the output buffer settled.\<close>

definition abs_init :: "hardware \<Rightarrow> ps2_init_result abs_run" where
  "abs_init hw =
     run_bind (abs_command hw 0xAD) (\<lambda>_.
     run_bind (abs_command hw 0xA7) (\<lambda>_.
     run_bind abs_discard (\<lambda>_.
     run_bind (\<lambda>(s, b). Some (Inr (config s, s\<lparr>out := None\<rparr>, True))) (\<lambda>configByte.
     let c = ((configByte AND NOT 0x1) AND NOT 0x2) AND NOT 0x40;
         write = (\<lambda>(s, b). Some (Inr ((), s\<lparr>config := c, writes_config := False\<rparr>, b)))
     in
     run_bind write (\<lambda>_.
     run_bind (\<lambda>(s, b). Some
       (if selftest hw \<noteq> 0x55 then Inl ''Boot error: PS/2 controller self-test failed''
        else Inr ((), s\<lparr>out := None, config := reset_config hw (config s)\<rparr>, True))) (\<lambda>_.
     run_bind write (\<lambda>_.
     run_bind (if configByte AND 0x20 = 0x20
       then (\<lambda>(s, b). Some (Inr (if dual hw
         then (True, s\<lparr>out := None, config := config s OR 0x20\<rparr>, True)
         else if config s AND 0x20 = 0 then (True, s\<lparr>out := None\<rparr>, True) else (False, s\<lparr>out := None\<rparr>, True))))
       else run_return False) (\<lambda>second.
     run_bind (\<lambda>(s, b). Some (Inr ((test1 hw = 0, second \<and> test2 hw = 0), s\<lparr>out := None\<rparr>, True))) (\<lambda>(first, second).
     if \<not> first \<and> \<not> second
     then run_panic ''Boot: couldn't initialise PS/2 controller: no working ports''
     else run_bind (\<lambda>(s, b). let c = config s;
          c = (if first then c AND NOT 0x10 else c);
          c = (if second \<and> dual hw then c AND NOT 0x20 else c);
          c = (if first then c OR 0x1 else c);
          c = (if second then c OR 0x2 else c)
        in Some (Inr ((), s\<lparr>out := None, config := c, writes_config := False\<rparr>, True))) (\<lambda>_.
       run_return \<lparr>hasKeyboard = first, hasMouse = second\<rparr>))))))))))"

lemma sim_InitialisePS2Controller:
  assumes "controller_ok io hw V busy delay"
  shows "simulates V delay (InitialisePS2Controller io) (abs_init hw)"
  unfolding InitialisePS2Controller_def abs_init_def Let_def
  by (intro sim_bind sim_discard [OF assms] sim_WritePS2Command [OF assms] sim_ReadConfigurationByte [OF assms]
      sim_WriteConfigurationByte [OF assms] sim_PerformPS2SelfTest [OF assms] sim_QuerySecondPort [OF assms]
      sim_if sim_return sim_TestPS2Ports [OF assms])
    (auto intro!: sim_if sim_panic sim_bind sim_EnableWorkingPorts [OF assms, unfolded Let_def] sim_return)

text \<open>Its result; the configuration byte in its bits.\<close>

definition configured :: "hardware \<Rightarrow> u8 \<Rightarrow> bool" where
  "configured hw c =
     ((bit c 0 \<longleftrightarrow> test1 hw = 0) \<and> (bit c 1 \<longleftrightarrow> dual hw \<and> test2 hw = 0) \<and> \<not> bit c 6 \<and>
      (bit c 4 \<longleftrightarrow> test1 hw \<noteq> 0) \<and> (dual hw \<longrightarrow> (bit c 5 \<longleftrightarrow> test2 hw \<noteq> 0)))"

lemma abs_init_panics:
  "selftest hw \<noteq> 0x55 \<Longrightarrow>
    abs_init hw (s, True) = Some (Inl ''Boot error: PS/2 controller self-test failed'')"
  "selftest hw = 0x55 \<Longrightarrow> test1 hw \<noteq> 0 \<Longrightarrow> \<not> (dual hw \<and> test2 hw = 0) \<Longrightarrow>
    abs_init hw (s, True) = Some (Inl ''Boot: couldn't initialise PS/2 controller: no working ports'')"
  by (cases "dual hw"; auto simp: abs_init_def abs_simps abs_discard_def Let_def u8_and_bit bit_simps)+

lemma abs_init_returns:
  "selftest hw = 0x55 \<Longrightarrow> test1 hw = 0 \<or> dual hw \<and> test2 hw = 0 \<Longrightarrow>
    \<exists>s'. abs_init hw (s, True) = Some (Inr (\<lparr>hasKeyboard = (test1 hw = 0), hasMouse = (dual hw \<and> test2 hw = 0)\<rparr>, s', True))"
  by (cases "dual hw"; auto simp: abs_init_def abs_simps abs_discard_def Let_def u8_and_bit bit_simps)

lemma bit_u8_masks:
  "bit (0x1 :: u8) n \<longleftrightarrow> n = 0" "bit (0x2 :: u8) n \<longleftrightarrow> n = 1" "bit (0x10 :: u8) n \<longleftrightarrow> n = 4"
  "bit (0x20 :: u8) n \<longleftrightarrow> n = 5" "bit (0x40 :: u8) n \<longleftrightarrow> n = 6"
  "bit (- 2 :: u8) n \<longleftrightarrow> n < 8 \<and> n \<noteq> 0" "bit (- 3 :: u8) n \<longleftrightarrow> n < 8 \<and> n \<noteq> 1" "bit (- 17 :: u8) n \<longleftrightarrow> n < 8 \<and> n \<noteq> 4"
  "bit (- 33 :: u8) n \<longleftrightarrow> n < 8 \<and> n \<noteq> 5" "bit (- 65 :: u8) n \<longleftrightarrow> n < 8 \<and> n \<noteq> 6"
proof -
  have "bit (2 ^ k :: u8) n \<longleftrightarrow> n = k" if "k < 8" for k using that by (auto simp: bit_exp_iff)
  from this [of 0] this [of 1] this [of 4] this [of 5] this [of 6]
  show "bit (0x1 :: u8) n \<longleftrightarrow> n = 0" "bit (0x2 :: u8) n \<longleftrightarrow> n = 1" "bit (0x10 :: u8) n \<longleftrightarrow> n = 4"
    "bit (0x20 :: u8) n \<longleftrightarrow> n = 5" "bit (0x40 :: u8) n \<longleftrightarrow> n = 6" by simp_all
  have "bit (NOT (2 ^ k) :: u8) n \<longleftrightarrow> n < 8 \<and> n \<noteq> k" for k
    by (auto simp: bit_not_iff bit_exp_iff possible_bit_def)
  from this [of 0] this [of 1] this [of 4] this [of 5] this [of 6]
  show "bit (- 2 :: u8) n \<longleftrightarrow> n < 8 \<and> n \<noteq> 0" "bit (- 3 :: u8) n \<longleftrightarrow> n < 8 \<and> n \<noteq> 1"
    "bit (- 17 :: u8) n \<longleftrightarrow> n < 8 \<and> n \<noteq> 4" "bit (- 33 :: u8) n \<longleftrightarrow> n < 8 \<and> n \<noteq> 5" "bit (- 65 :: u8) n \<longleftrightarrow> n < 8 \<and> n \<noteq> 6"
    by simp_all
qed

lemma abs_init_configured:
  assumes "abs_init hw (s, True) = Some (Inr (a, s', b))"
  shows "configured hw (config s')"
  using assms
  by (cases "dual hw"; cases "test1 hw = 0"; cases "test2 hw = 0"; cases "bit (config s) 5")
    (auto simp: abs_init_def abs_simps abs_discard_def Let_def u8_and_bit configured_def bit_and_iff bit_or_iff
       bit_u8_masks split: if_splits)

lemma InitialisePS2Controller_outcome:
  assumes "controller_ok io hw V busy delay" and "delay d = 0"
  shows "if selftest hw \<noteq> 0x55
     then InitialisePS2Controller io d = Some (Inl ''Boot error: PS/2 controller self-test failed'')
     else if test1 hw \<noteq> 0 \<and> \<not> (dual hw \<and> test2 hw = 0)
     then InitialisePS2Controller io d = Some (Inl ''Boot: couldn't initialise PS/2 controller: no working ports'')
     else \<exists>d'. InitialisePS2Controller io d =
         Some (Inr (\<lparr>hasKeyboard = (test1 hw = 0), hasMouse = (dual hw \<and> test2 hw = 0)\<rparr>, d')) \<and>
       configured hw (config (V d'))"
proof -
  have "True \<longrightarrow> delay d = 0" using assms(2) by simp
  note run = sim_InitialisePS2Controller [OF assms(1), unfolded simulates_def, THEN spec, THEN spec, THEN mp, OF this]
  consider (selftest) "selftest hw \<noteq> 0x55"
    | (ports) "selftest hw = 0x55" "test1 hw \<noteq> 0" "\<not> (dual hw \<and> test2 hw = 0)"
    | (works) "selftest hw = 0x55" "test1 hw = 0 \<or> dual hw \<and> test2 hw = 0" by blast
  thus ?thesis
  proof cases
    case selftest
    thus ?thesis using run abs_init_panics(1) [OF selftest] by simp
  next
    case ports
    thus ?thesis using run abs_init_panics(2) [OF ports] by auto
  next
    case works
    then obtain s' where s': "abs_init hw (V d, True) =
        Some (Inr (\<lparr>hasKeyboard = (test1 hw = 0), hasMouse = (dual hw \<and> test2 hw = 0)\<rparr>, s', True))"
      using abs_init_returns by blast
    thus ?thesis using run abs_init_configured [OF s'] works by auto
  qed
qed

text \<open>
  C21: The initialisation of a PS/2 controller. With hardware that behaves as documented
  it always ends. A failed self-test and a controller without a working port are
  kernel panics with their reasons. Otherwise the result tells exactly which ports work,
  the interrupts and clocks of exactly these ports are enabled, and the translation of
  scan codes is off, whatever the self-test did to the configuration.
\<close>

theorem InitialisePS2Controller_correct:
  assumes "controller_ok io hw V busy delay" and "delay d = 0"
  shows "if selftest hw \<noteq> 0x55
     then InitialisePS2Controller io d = Some (Inl ''Boot error: PS/2 controller self-test failed'')
     else if test1 hw \<noteq> 0 \<and> \<not> (dual hw \<and> test2 hw = 0)
     then InitialisePS2Controller io d = Some (Inl ''Boot: couldn't initialise PS/2 controller: no working ports'')
     else \<exists>d'. InitialisePS2Controller io d =
         Some (Inr (\<lparr>hasKeyboard = (test1 hw = 0), hasMouse = (dual hw \<and> test2 hw = 0)\<rparr>, d')) \<and>
       configured hw (config (V d'))"
  using assms by (rule InitialisePS2Controller_outcome)

text \<open>
  A controller with a second port whose test fails, which forgets its configuration in
  the self-test, is busy for two reads after each write and replies after three.
\<close>

definition one_port_hardware :: hardware where
  "one_port_hardware = \<lparr>dual = True, selftest = 0x55, test1 = 0, test2 = 1, reset_config = (\<lambda>_. 0xFF)\<rparr>"

definition one_port_controller :: "(controller \<times> nat \<times> nat) ports" where
  "one_port_controller = \<lparr>
     inb = (\<lambda>port (s, busy, delay). if port = 0x64
       then ((if busy \<noteq> 0 then 2 else 0) OR (if out s \<noteq> None \<and> delay = 0 then 1 else 0), s, busy - 1, delay - 1)
       else ((case out s of None \<Rightarrow> 0 | Some v \<Rightarrow> v), s\<lparr>out := None\<rparr>, busy, delay)),
     outb = (\<lambda>v port (s, busy, delay). if port = 0x64
       then (on_command one_port_hardware v s, 2, if replies v then 3 else delay)
       else (on_data v s, 2, delay))\<rparr>"

lemma one_port_controller_ok:
  "controller_ok one_port_controller one_port_hardware fst (\<lambda>(s, busy, delay). busy) (\<lambda>(s, busy, delay). delay)"
  by (simp add: controller_ok_def one_port_controller_def word_ao_dist)

lemma InitialisePS2Controller_correct_witness:
  "\<exists>d'. InitialisePS2Controller one_port_controller (\<lparr>config = 0x47, out = Some 0x1C, writes_config = False\<rparr>, 1, 0) =
      Some (Inr (\<lparr>hasKeyboard = True, hasMouse = False\<rparr>, d')) \<and>
    bit (config (fst d')) 0 \<and> \<not> bit (config (fst d')) 1 \<and> bit (config (fst d')) 5"
  using InitialisePS2Controller_correct [OF one_port_controller_ok,
      of "(\<lparr>config = 0x47, out = Some 0x1C, writes_config = False\<rparr>, 1, 0)"]
  by (auto simp: one_port_hardware_def configured_def)

text \<open>
  Without a controller the initialisation never returns. The ports of a machine
  without one read as 0xFF, which the first wait takes for a controller that is busy;
  there is no bound on the waits and no test for the controller's presence.
\<close>

definition absent_controller :: "unit ports" where
  "absent_controller = \<lparr>inb = (\<lambda>port d. (0xFF, d)), outb = (\<lambda>v port d. d)\<rparr>"

theorem absent_controller_waits_forever: "InitialisePS2Controller absent_controller d = None"
proof -
  have "io \<noteq> absent_controller" if "wait_write io d = Some r" for io d r
    by (rule wait_write.raw_induct [where P = "\<lambda>io d r. io \<noteq> absent_controller", OF _ that])
      (auto simp: absent_controller_def split: if_splits prod.splits)
  hence "wait_write absent_controller d = None" for d
    by (cases "wait_write absent_controller d") auto
  thus ?thesis by (simp add: InitialisePS2Controller_def WritePS2Command_def run_bind_def)
qed

end
