(* ===== verification/CpuFeatures.thy ===== *)
theory CpuFeatures
  imports Machine
begin

text \<open>
  The processor feature checks (src/src/Kernel/x86_64/CpuFeatures.c) and the
  global paging settings that the boot code derives from them
  (PagingSettings.c and .h).

  The \<open>cpuid\<close> instruction is the parameter \<open>cpuid\<close>: leaf and subleaf to the four
  registers. \<open>Cpuid\<close> is the assembly routine of \<open>CpuidRetrieve.S\<close>, which loads the
  leaf through its first pointer and the subleaf through its second one.
\<close>

record regs =
  eax :: u32
  ebx :: u32
  ecx :: u32
  edx :: u32

definition Cpuid :: "(u32 \<Rightarrow> u32 \<Rightarrow> regs) \<Rightarrow> regs \<Rightarrow> regs" where
  "Cpuid cpuid r = cpuid (eax r) (ebx r)"

definition zero_regs :: regs where
  "zero_regs = \<lparr>eax = 0, ebx = 0, ecx = 0, edx = 0\<rparr>"

text \<open>\<open>None\<close> is the return value false, \<open>Some\<close> the filled output registers.\<close>

definition GetCpuidEAX1 :: "(u32 \<Rightarrow> u32 \<Rightarrow> regs) \<Rightarrow> regs \<Rightarrow> regs option" where
  "GetCpuidEAX1 cpuid out =
     (let r = Cpuid cpuid zero_regs in
      if eax r < 1 then None else Some (Cpuid cpuid (out\<lparr>eax := 1\<rparr>)))"

definition GetCpuidEAX80000001h :: "(u32 \<Rightarrow> u32 \<Rightarrow> regs) \<Rightarrow> regs \<Rightarrow> regs option" where
  "GetCpuidEAX80000001h cpuid out =
     (let r = Cpuid cpuid (zero_regs\<lparr>eax := 0x80000000\<rparr>) in
      if eax r < 0x80000001 then None else Some (Cpuid cpuid (out\<lparr>eax := 0x80000001\<rparr>)))"

definition GetCpuidEAX7_ECX0 :: "(u32 \<Rightarrow> u32 \<Rightarrow> regs) \<Rightarrow> regs \<Rightarrow> regs option" where
  "GetCpuidEAX7_ECX0 cpuid out =
     (let r = Cpuid cpuid zero_regs in
      if eax r < 7 then None else Some (Cpuid cpuid (out\<lparr>eax := 7, ecx := 0\<rparr>)))"

definition CheckCpuHasFPU :: "(u32 \<Rightarrow> u32 \<Rightarrow> regs) \<Rightarrow> bool" where
  "CheckCpuHasFPU cpuid =
     (case GetCpuidEAX1 cpuid zero_regs of Some r \<Rightarrow> edx r AND 1 = 1 | None \<Rightarrow> False)"

definition CheckCpuHasFXSAVEAndFXRSTOR :: "(u32 \<Rightarrow> u32 \<Rightarrow> regs) \<Rightarrow> bool" where
  "CheckCpuHasFXSAVEAndFXRSTOR cpuid =
     (case GetCpuidEAX1 cpuid zero_regs of
        Some r \<Rightarrow> edx r AND push_bit 24 1 = push_bit 24 1 | None \<Rightarrow> False)"

definition CheckCpuHasSSE :: "(u32 \<Rightarrow> u32 \<Rightarrow> regs) \<Rightarrow> bool" where
  "CheckCpuHasSSE cpuid =
     (case GetCpuidEAX1 cpuid zero_regs of
        Some r \<Rightarrow> edx r AND push_bit 25 1 = push_bit 25 1 | None \<Rightarrow> False)"

definition CheckCpuHasXSAVE :: "(u32 \<Rightarrow> u32 \<Rightarrow> regs) \<Rightarrow> bool" where
  "CheckCpuHasXSAVE cpuid =
     (case GetCpuidEAX1 cpuid zero_regs of
        Some r \<Rightarrow> ecx r AND push_bit 26 1 = push_bit 26 1 | None \<Rightarrow> False)"

definition CheckCpuHasAVX :: "(u32 \<Rightarrow> u32 \<Rightarrow> regs) \<Rightarrow> bool" where
  "CheckCpuHasAVX cpuid =
     (case GetCpuidEAX1 cpuid zero_regs of
        Some r \<Rightarrow> ecx r AND push_bit 28 1 = push_bit 28 1 | None \<Rightarrow> False)"

definition CheckCpuHasNX :: "(u32 \<Rightarrow> u32 \<Rightarrow> regs) \<Rightarrow> bool" where
  "CheckCpuHasNX cpuid =
     (case GetCpuidEAX80000001h cpuid zero_regs of
        Some r \<Rightarrow> edx r AND push_bit 20 1 = push_bit 20 1 | None \<Rightarrow> False)"

definition CheckCpu5LevelPagingSupport :: "(u32 \<Rightarrow> u32 \<Rightarrow> regs) \<Rightarrow> bool" where
  "CheckCpu5LevelPagingSupport cpuid =
     (case GetCpuidEAX7_ECX0 cpuid zero_regs of
        Some r \<Rightarrow> ecx r AND push_bit 16 1 = push_bit 16 1 | None \<Rightarrow> False)"

datatype paging_mode = PAGING_MODE_4_LEVEL | PAGING_MODE_5_LEVEL

record paging_settings =
  pagingMode :: paging_mode
  noExecuteAvailable :: bool

definition g_PagingSettings :: paging_settings where
  "g_PagingSettings = \<lparr>pagingMode = PAGING_MODE_4_LEVEL, noExecuteAvailable = False\<rparr>"

lemma flag_set: "(x AND push_bit n 1 = push_bit n (1 :: 'a :: len word)) = (n < LENGTH('a) \<longrightarrow> bit x n)"
proof (cases "n < LENGTH('a)")
  case True
  show ?thesis
    using True by (simp add: bit_eq_iff [where 'a = "'a word"] bit_simps) blast
next
  case False
  hence z: "push_bit n (1 :: 'a word) = 0" by (simp add: bit_eq_iff [where 'a = "'a word"] bit_simps)
  show ?thesis using False unfolding z by simp
qed

lemma flag_set0: "(x AND 1 = (1 :: u32)) = bit x 0"
  using flag_set [of x 0] by simp

text \<open>
  (feature checks) Each check answers the documented bit of the documented
  register of its leaf, read with subleaf 0, when the processor reports at least
  that leaf, and false otherwise.
\<close>

theorem feature_checks:
  "CheckCpuHasFPU cpuid = (1 \<le> eax (cpuid 0 0) \<and> bit (edx (cpuid 1 0)) 0) \<and>
   CheckCpuHasFXSAVEAndFXRSTOR cpuid = (1 \<le> eax (cpuid 0 0) \<and> bit (edx (cpuid 1 0)) 24) \<and>
   CheckCpuHasSSE cpuid = (1 \<le> eax (cpuid 0 0) \<and> bit (edx (cpuid 1 0)) 25) \<and>
   CheckCpuHasXSAVE cpuid = (1 \<le> eax (cpuid 0 0) \<and> bit (ecx (cpuid 1 0)) 26) \<and>
   CheckCpuHasAVX cpuid = (1 \<le> eax (cpuid 0 0) \<and> bit (ecx (cpuid 1 0)) 28) \<and>
   CheckCpuHasNX cpuid =
     (0x80000001 \<le> eax (cpuid 0x80000000 0) \<and> bit (edx (cpuid 0x80000001 0)) 20) \<and>
   CheckCpu5LevelPagingSupport cpuid = (7 \<le> eax (cpuid 0 0) \<and> bit (ecx (cpuid 7 0)) 16)"
proof -
  have ge: "(x < (y :: u32)) = (\<not> y \<le> x)" for x y by auto
  show ?thesis
    unfolding CheckCpuHasFPU_def CheckCpuHasFXSAVEAndFXRSTOR_def CheckCpuHasSSE_def CheckCpuHasXSAVE_def
      CheckCpuHasAVX_def CheckCpuHasNX_def CheckCpu5LevelPagingSupport_def GetCpuidEAX1_def
      GetCpuidEAX80000001h_def GetCpuidEAX7_ECX0_def Cpuid_def zero_regs_def Let_def
      flag_set flag_set0 ge regs.simps regs.update_convs
    by (intro conjI) (cases "1 \<le> eax (cpuid 0 0)"; cases "7 \<le> eax (cpuid 0 0)";
        cases "0x80000001 \<le> eax (cpuid 0x80000000 0)"; simp)+
qed

end
