(* ===== verification/CpuGraphics.thy ===== *)
theory CpuGraphics
  imports GraphicsDriver KString
begin

text \<open>
  The CPU graphics driver (src/src/Drivers/Graphics/CpuGraphicsDriver.c): drawing
  into a render buffer in memory, the region that has changed, and the copy of it
  to the frame buffer of the firmware.

  \<^item> \<open>gr_drv\<close> is \<open>DexprOS_CpuGrGraphicsDrvData\<close>; its region fields are those of
    \<open>DexprOS_CpuGrSwapBufferInfo\<close>. Memory is a separate argument.
  \<^item> Products of two \<open>uint32_t\<close> are 32 bits wide and extended afterwards, as in C;
    an \<open>int32_t\<close> offset is sign-extended.
  \<^item> The blending of a channel is three roundings of \<open>double\<close> arithmetic and a
    conversion; it is the parameter \<open>blend alpha src dst\<close>.
  \<^item> The bodies that the C file repeats for the two frame buffer formats, which
    differ in the order of the channels only, are one definition with the channel
    order as an argument.
\<close>

subsection \<open>State\<close>

datatype fb_format = FRAMEBUFFER_RGB8_RESERVED8 | FRAMEBUFFER_BGR8_RESERVED8 | FRAMEBUFFER_FORMAT_Max

datatype swap_op = SWAP_NONE | SWAP_FULL | SWAP_REGION

record gr_drv =
  presentationWidth :: u32
  presentationHeight :: u32
  presentationPixelBytes :: u32
  presentationPixelStride :: u32
  pMainFramebufferMemory :: u64
  mainFramebufferSize :: u64
  pRenderFramebufferMemory :: u64
  framebufferFormat :: fb_format
  swapOp :: swap_op
  regionStartX :: u32
  regionStartY :: u32
  regionWidth :: u32
  regionHeight :: u32

text \<open>A loop with an unsigned counter that starts at 0.\<close>

definition for_u32 :: "u32 \<Rightarrow> (u32 \<Rightarrow> 's \<Rightarrow> 's) \<Rightarrow> 's \<Rightarrow> 's" where
  "for_u32 n f = fold (\<lambda>i. f (of_nat i)) [0..<unat n]"

text \<open>The same with a signed counter; nothing happens for a negative bound.\<close>

definition for_s32 :: "u32 \<Rightarrow> (u32 \<Rightarrow> 's \<Rightarrow> 's) \<Rightarrow> 's \<Rightarrow> 's" where
  "for_s32 n f = (if n <s 0 then id else for_u32 n f)"

subsection \<open>The region to swap\<close>

definition MarkScreenRegionForSwapping :: "gr_drv \<Rightarrow> u32 \<Rightarrow> u32 \<Rightarrow> u32 \<Rightarrow> u32 \<Rightarrow> gr_drv" where
  "MarkScreenRegionForSwapping d x y width height =
     (case swapOp d of
        SWAP_FULL \<Rightarrow> d
      | SWAP_REGION \<Rightarrow>
          (let oldStartX = regionStartX d;
               oldStartY = regionStartY d;
               oldEndX = oldStartX + regionWidth d;
               oldEndY = oldStartY + regionHeight d;
               startX = x;
               startY = y;
               endX = x + width;
               endY = y + height;
               newStartX = (if oldStartX < startX then oldStartX else startX);
               newStartY = (if oldStartY < startY then oldStartY else startY);
               newEndX = (if oldEndX > endX then oldEndX else endX);
               newEndY = (if oldEndY > endY then oldEndY else endY)
           in d\<lparr>regionStartX := newStartX, regionStartY := newStartY,
                regionWidth := newEndX - newStartX, regionHeight := newEndY - newStartY\<rparr>)
      | SWAP_NONE \<Rightarrow>
          d\<lparr>regionStartX := x, regionStartY := y, regionWidth := width, regionHeight := height,
            swapOp := SWAP_REGION\<rparr>)"

fun copy_rows :: "u64 \<Rightarrow> u64 \<Rightarrow> u64 \<Rightarrow> u64 \<Rightarrow> nat list \<Rightarrow> mem \<Rightarrow> mem option" where
  "copy_rows pDst pSrc rowBytes regionRowBytes [] m = Some m"
| "copy_rows pDst pSrc rowBytes regionRowBytes (h # hs) m =
     (case memcpy m (pDst + of_nat h * rowBytes) (pSrc + of_nat h * rowBytes) regionRowBytes of
        None \<Rightarrow> None
      | Some (m, _) \<Rightarrow> copy_rows pDst pSrc rowBytes regionRowBytes hs m)"

definition CpuGrSwapBuffers :: "gr_drv \<Rightarrow> mem \<Rightarrow> (gr_drv \<times> mem) option" where
  "CpuGrSwapBuffers d m =
     map_option (\<lambda>m. (d\<lparr>swapOp := SWAP_NONE\<rparr>, m))
       (case swapOp d of
          SWAP_FULL \<Rightarrow>
            map_option fst (memcpy m (pMainFramebufferMemory d) (pRenderFramebufferMemory d) (mainFramebufferSize d))
        | SWAP_REGION \<Rightarrow>
            (let rowBytes = ucast (presentationPixelStride d * presentationPixelBytes d);
                 regionRowBytes = ucast (regionWidth d * presentationPixelBytes d);
                 offset = ucast (regionStartY d) * rowBytes +
                   ucast (regionStartX d * presentationPixelBytes d);
                 pSrc = pRenderFramebufferMemory d + offset;
                 pDst = pMainFramebufferMemory d + offset
             in copy_rows pDst pSrc rowBytes regionRowBytes [0..<unat (regionHeight d)] m)
        | SWAP_NONE \<Rightarrow> Some m)"

subsection \<open>Clearing\<close>

definition set_pixel :: "u64 \<Rightarrow> u8 \<Rightarrow> u8 \<Rightarrow> u8 \<Rightarrow> mem \<Rightarrow> mem" where
  "set_pixel p c0 c1 c2 m = m(p := c0, p + 1 := c1, p + 2 := c2, p + 3 := 0)"

definition clear_rows :: "gr_drv \<Rightarrow> u64 \<Rightarrow> u32 \<Rightarrow> u32 \<Rightarrow> u8 \<times> u8 \<times> u8 \<Rightarrow> mem \<Rightarrow> mem" where
  "clear_rows d p width height = (\<lambda>(c0, c1, c2).
     let byteStride = presentationPixelStride d * presentationPixelBytes d;
         bytesPerPixel = presentationPixelBytes d
     in for_u32 height (\<lambda>h.
          let pRow = p + ucast (h * byteStride)
          in for_u32 width (\<lambda>w. set_pixel (pRow + ucast (w * bytesPerPixel)) c0 c1 c2)))"

definition CpuGrClearScreenRGB :: "gr_drv \<Rightarrow> u8 \<Rightarrow> u8 \<Rightarrow> u8 \<Rightarrow> mem \<Rightarrow> mem" where
  "CpuGrClearScreenRGB d r g b =
     clear_rows d (pRenderFramebufferMemory d) (presentationWidth d) (presentationHeight d) (r, g, b)"

definition CpuGrClearScreenBGR :: "gr_drv \<Rightarrow> u8 \<Rightarrow> u8 \<Rightarrow> u8 \<Rightarrow> mem \<Rightarrow> mem" where
  "CpuGrClearScreenBGR d r g b =
     clear_rows d (pRenderFramebufferMemory d) (presentationWidth d) (presentationHeight d) (b, g, r)"

definition CpuGrGraphicsClearScreen :: "gr_drv \<Rightarrow> gr_color \<Rightarrow> mem \<Rightarrow> gr_drv \<times> mem" where
  "CpuGrGraphicsClearScreen d color m =
     (d\<lparr>swapOp := SWAP_FULL\<rparr>,
      case framebufferFormat d of
        FRAMEBUFFER_RGB8_RESERVED8 \<Rightarrow> CpuGrClearScreenRGB d (color_r color) (color_g color) (color_b color) m
      | FRAMEBUFFER_BGR8_RESERVED8 \<Rightarrow> CpuGrClearScreenBGR d (color_r color) (color_g color) (color_b color) m
      | FRAMEBUFFER_FORMAT_Max \<Rightarrow> m)"

definition region_offset :: "gr_drv \<Rightarrow> u32 \<Rightarrow> u32 \<Rightarrow> u64" where
  "region_offset d x y = pRenderFramebufferMemory d +
     ucast (y * (presentationPixelStride d * presentationPixelBytes d)) +
     ucast (x * presentationPixelBytes d)"

definition CpuGrClearScreenRegionRGB ::
  "gr_drv \<Rightarrow> u32 \<Rightarrow> u32 \<Rightarrow> u32 \<Rightarrow> u32 \<Rightarrow> u8 \<Rightarrow> u8 \<Rightarrow> u8 \<Rightarrow> mem \<Rightarrow> mem" where
  "CpuGrClearScreenRegionRGB d x y width height r g b =
     clear_rows d (region_offset d x y) width height (r, g, b)"

definition CpuGrClearScreenRegionBGR ::
  "gr_drv \<Rightarrow> u32 \<Rightarrow> u32 \<Rightarrow> u32 \<Rightarrow> u32 \<Rightarrow> u8 \<Rightarrow> u8 \<Rightarrow> u8 \<Rightarrow> mem \<Rightarrow> mem" where
  "CpuGrClearScreenRegionBGR d x y width height r g b =
     clear_rows d (region_offset d x y) width height (b, g, r)"

text \<open>
  The part of a region that is on the screen, or \<open>None\<close> when there is none. The
  size is that of the first region of the call, \<open>w0\<close> and \<open>h0\<close>, for all regions.
\<close>

definition clip_region :: "gr_drv \<Rightarrow> gr_region \<Rightarrow> u32 \<Rightarrow> u32 \<Rightarrow> (u32 \<times> u32 \<times> u32 \<times> u32) option" where
  "clip_region d r w0 h0 =
     (let startX = (if 0 \<le>s reg_x r then reg_x r else 0);
          startY = (if 0 \<le>s reg_y r then reg_y r else 0);
          width = w0;
          height = h0
      in if startX \<ge> presentationWidth d \<or> startY \<ge> presentationHeight d then None
         else if reg_x r <s 0 \<and> - reg_x r \<ge> width then None
         else
           let width = (if reg_x r <s 0 then width - (- reg_x r) else width)
           in if reg_y r <s 0 \<and> - reg_y r \<ge> height then None
              else
                let height = (if reg_y r <s 0 then height - (- reg_y r) else height);
                    width = (if startX + width > presentationWidth d
                             then presentationWidth d - startX else width);
                    height = (if startY + height > presentationHeight d
                              then presentationHeight d - startY else height)
                in Some (startX, startY, width, height))"

definition clear_region_step :: "u32 \<Rightarrow> u32 \<Rightarrow> gr_color \<Rightarrow> gr_region \<Rightarrow> gr_drv \<times> mem \<Rightarrow> gr_drv \<times> mem" where
  "clear_region_step w0 h0 color r = (\<lambda>(d, m).
     case clip_region d r w0 h0 of
       None \<Rightarrow> (d, m)
     | Some (startX, startY, width, height) \<Rightarrow>
         let d = MarkScreenRegionForSwapping d startX startY width height
         in (d, case framebufferFormat d of
                  FRAMEBUFFER_RGB8_RESERVED8 \<Rightarrow>
                    CpuGrClearScreenRegionRGB d startX startY width height
                      (color_r color) (color_g color) (color_b color) m
                | FRAMEBUFFER_BGR8_RESERVED8 \<Rightarrow>
                    CpuGrClearScreenRegionBGR d startX startY width height
                      (color_r color) (color_g color) (color_b color) m
                | FRAMEBUFFER_FORMAT_Max \<Rightarrow> m))"

definition CpuGrGraphicsClearScreenRegions ::
  "gr_drv \<Rightarrow> gr_region list \<Rightarrow> gr_color \<Rightarrow> mem \<Rightarrow> gr_drv \<times> mem" where
  "CpuGrGraphicsClearScreenRegions d regions color m =
     (case regions of
        [] \<Rightarrow> (d, m)
      | r0 # _ \<Rightarrow> fold (clear_region_step (reg_width r0) (reg_height r0) color) regions (d, m))"

subsection \<open>Blitting\<close>

text \<open>The two loops that all blits share, over the pixels of \<open>n\<close> bytes of the image.\<close>

definition blit_loop ::
  "u32 \<Rightarrow> (u64 \<Rightarrow> u64 \<Rightarrow> mem \<Rightarrow> mem) \<Rightarrow> u64 \<Rightarrow> u64 \<Rightarrow> u32 \<Rightarrow> u32 \<Rightarrow> u32 \<Rightarrow> u32 \<Rightarrow> u32 \<Rightarrow> u32 \<Rightarrow>
   u32 \<Rightarrow> u32 \<Rightarrow> mem \<Rightarrow> mem" where
  "blit_loop n pixel pSrcImage pDstImage imageX imageY imageRowStride fbX fbY fbRowStride width height =
     (let pSrcBase = pSrcImage + ucast (imageY * imageRowStride) + scast (imageX * n);
          pDstBase = pDstImage + ucast (fbY * fbRowStride) + scast (fbX * 4)
      in for_s32 height (\<lambda>h.
           let pSrcRow = pSrcBase + ucast (h * imageRowStride);
               pDstRow = pDstBase + ucast (h * fbRowStride)
           in for_s32 width (\<lambda>w. pixel (pSrcRow + scast (w * n)) (pDstRow + scast (w * 4)))))"

text \<open>The channels are copied in the order \<open>i\<close>, \<open>j\<close>, \<open>k\<close> of the image's bytes.\<close>

definition copy_pixel :: "u64 \<Rightarrow> u64 \<Rightarrow> u64 \<Rightarrow> u64 \<Rightarrow> u64 \<Rightarrow> mem \<Rightarrow> mem" where
  "copy_pixel i j k src dst m =
     (let m = m(dst := m (src + i));
          m = m(dst + 1 := m (src + j))
      in m(dst + 2 := m (src + k)))"

definition blend_pixel ::
  "(u8 \<Rightarrow> u8 \<Rightarrow> u8 \<Rightarrow> u8) \<Rightarrow> u64 \<Rightarrow> u64 \<Rightarrow> u64 \<Rightarrow> u64 \<Rightarrow> u64 \<Rightarrow> mem \<Rightarrow> mem" where
  "blend_pixel blend i j k src dst m =
     (let c0 = m (src + i);
          c1 = m (src + j);
          c2 = m (src + k);
          alpha = m (src + 3);
          m = m(dst := blend alpha c0 (m dst));
          m = m(dst + 1 := blend alpha c1 (m (dst + 1)))
      in m(dst + 2 := blend alpha c2 (m (dst + 2))))"

definition CpuGrGraphicsBlitRGB8ToRGB8R where
  "CpuGrGraphicsBlitRGB8ToRGB8R = blit_loop 3 (copy_pixel 0 1 2)"

definition CpuGrGraphicsBlitRGBA8ToRGB8R where
  "CpuGrGraphicsBlitRGBA8ToRGB8R blend = blit_loop 4 (blend_pixel blend 0 1 2)"

definition CpuGrGraphicsBlitRGB8ToBGR8R where
  "CpuGrGraphicsBlitRGB8ToBGR8R = blit_loop 3 (copy_pixel 2 1 0)"

definition CpuGrGraphicsBlitRGBA8ToBGR8R where
  "CpuGrGraphicsBlitRGBA8ToBGR8R blend = blit_loop 4 (blend_pixel blend 2 1 0)"

text \<open>The part of the image that is on the screen: image position, screen position and size.\<close>

definition clip_blit ::
  "gr_drv \<Rightarrow> u32 \<Rightarrow> u32 \<Rightarrow> u32 \<Rightarrow> u32 \<Rightarrow> u32 \<Rightarrow> u32 \<Rightarrow> (u32 \<times> u32 \<times> u32 \<times> u32 \<times> u32 \<times> u32) option" where
  "clip_blit d imageX imageY fbX fbY width height =
     (let blitImageX = (if fbX <s 0 then imageX - fbX else imageX);
          blitWidth = (if fbX <s 0 then width + fbX else width);
          blitFbX = (if fbX <s 0 then 0 else fbX);
          blitImageY = (if fbY <s 0 then imageY - fbY else imageY);
          blitHeight = (if fbY <s 0 then height + fbY else height);
          blitFbY = (if fbY <s 0 then 0 else fbY);
          blitWidth = (if presentationWidth d <s blitFbX + blitWidth
                       then presentationWidth d - blitFbX else blitWidth);
          blitHeight = (if presentationHeight d <s blitFbY + blitHeight
                        then presentationHeight d - blitFbY else blitHeight)
      in if blitImageX <s 0 \<or> blitImageY <s 0 \<or> blitWidth <s 0 \<or> blitHeight <s 0 then None
         else if presentationWidth d \<le>s blitFbX \<or> presentationHeight d \<le>s blitFbY then None
         else Some (blitImageX, blitImageY, blitFbX, blitFbY, blitWidth, blitHeight))"

definition CpuGrGraphicsBlitImageToFramebuffer ::
  "(u8 \<Rightarrow> u8 \<Rightarrow> u8 \<Rightarrow> u8) \<Rightarrow> gr_drv \<Rightarrow> u64 \<Rightarrow> gr_image_format \<Rightarrow> u32 \<Rightarrow> u32 \<Rightarrow> u32 \<Rightarrow> u32 \<Rightarrow> u32 \<Rightarrow>
   u32 \<Rightarrow> u32 \<Rightarrow> mem \<Rightarrow> gr_drv \<times> mem" where
  "CpuGrGraphicsBlitImageToFramebuffer blend d pImage imageFormat imageX imageY imageRowStride
     fbX fbY width height m =
     (case clip_blit d imageX imageY fbX fbY width height of
        None \<Rightarrow> (d, m)
      | Some (blitImageX, blitImageY, blitFbX, blitFbY, blitWidth, blitHeight) \<Rightarrow>
          let d = MarkScreenRegionForSwapping d blitFbX blitFbY blitWidth blitHeight;
              run = (\<lambda>blit. blit pImage (pRenderFramebufferMemory d) blitImageX blitImageY imageRowStride
                 blitFbX blitFbY (presentationPixelStride d * 4) blitWidth blitHeight m)
          in (d, case framebufferFormat d of
                FRAMEBUFFER_RGB8_RESERVED8 \<Rightarrow>
                  (case imageFormat of
                     IMAGE_FORMAT_RGB8 \<Rightarrow> run CpuGrGraphicsBlitRGB8ToRGB8R
                   | IMAGE_FORMAT_RGBA8 \<Rightarrow> run (CpuGrGraphicsBlitRGBA8ToRGB8R blend)
                   | IMAGE_FORMAT_Max \<Rightarrow> m)
              | FRAMEBUFFER_BGR8_RESERVED8 \<Rightarrow>
                  (case imageFormat of
                     IMAGE_FORMAT_RGB8 \<Rightarrow> run CpuGrGraphicsBlitRGB8ToBGR8R
                   | IMAGE_FORMAT_RGBA8 \<Rightarrow> run (CpuGrGraphicsBlitRGBA8ToBGR8R blend)
                   | IMAGE_FORMAT_Max \<Rightarrow> m)
              | FRAMEBUFFER_FORMAT_Max \<Rightarrow> m))"

end
