(* ===== verification/CpuGraphicsPixels.thy ===== *)
theory CpuGraphicsPixels
  imports CpuGraphics
begin

text \<open>
  The loops of the CPU graphics driver as one update of all the pixels of a
  rectangle. \<open>update_pixels base S P f m\<close> replaces in the buffer at \<open>base\<close>, whose
  rows have \<open>S\<close> bytes, byte \<open>k\<close> of every pixel \<open>(x, y)\<close> with \<open>P x y\<close> by
  \<open>f x y k\<close> of its old value.
\<close>

subsection \<open>Updates of pixels\<close>

definition update_pixels ::
  "u64 \<Rightarrow> nat \<Rightarrow> (nat \<Rightarrow> nat \<Rightarrow> bool) \<Rightarrow> (nat \<Rightarrow> nat \<Rightarrow> nat \<Rightarrow> u8 \<Rightarrow> u8) \<Rightarrow> mem \<Rightarrow> mem" where
  "update_pixels base S P f m = (\<lambda>a.
     let off = unat (a - base); x = off mod S div 4; y = off div S in
     if P x y then f x y (off mod 4) (m a) else m a)"

definition pixel_address :: "u64 \<Rightarrow> nat \<Rightarrow> nat \<Rightarrow> nat \<Rightarrow> u64" where
  "pixel_address base S x y = base + of_nat (y * S + 4 * x)"

lemma update_pixels_none: "(\<And>x y. \<not> P x y) \<Longrightarrow> update_pixels base S P f m = m"
  by (simp add: update_pixels_def)

lemma update_pixels_cong:
  "(\<And>x y. P x y = Q x y) \<Longrightarrow> update_pixels base S P f m = update_pixels base S Q f m"
  by (simp add: update_pixels_def)

lemma update_pixels_disjoint:
  "(\<And>x y. \<not> (P x y \<and> Q x y)) \<Longrightarrow>
    update_pixels base S Q f (update_pixels base S P f m) =
    update_pixels base S (\<lambda>x y. P x y \<or> Q x y) f m"
  by (auto simp: update_pixels_def fun_eq_iff Let_def)

text \<open>The byte offsets of one pixel.\<close>

lemma pixel_offsets:
  fixes S :: nat
  assumes "4 * x < S" "4 dvd S"
  shows "off div S = y \<and> off mod S div 4 = x \<longleftrightarrow> y * S + 4 * x \<le> off \<and> off < y * S + 4 * x + 4"
proof -
  obtain n where n: "S = 4 * n" using assms(2) by (rule dvdE)
  have x: "x < n" "0 < S" using assms(1) n by simp_all
  have split: "off = off div S * S + off mod S" by simp
  show ?thesis
  proof
    assume "off div S = y \<and> off mod S div 4 = x"
    hence "off mod S = 4 * x + off mod S mod 4" "off = y * S + off mod S"
      using split mult_div_mod_eq [of 4 "off mod S"] by simp_all
    thus "y * S + 4 * x \<le> off \<and> off < y * S + 4 * x + 4"
      using mod_less_divisor [of 4 "off mod S"] by linarith
  next
    assume *: "y * S + 4 * x \<le> off \<and> off < y * S + 4 * x + 4"
    then obtain k where k: "off = y * S + (4 * x + k)" "k < 4"
      using le_Suc_ex [of "y * S + 4 * x" off] by auto
    have "4 * x + k < S" using x(1) k(2) n by linarith
    thus "off div S = y \<and> off mod S div 4 = x" using k by simp
  qed
qed

text \<open>A step that changes the four bytes of one pixel.\<close>

lemma update_one_pixel:
  assumes "4 * x < S" "4 dvd S" "y * S + 4 * x + 4 < 18446744073709551616"
  shows "(\<lambda>a. if unat (a - pixel_address base S x y) < 4
      then g (unat (a - pixel_address base S x y)) (m a) else m a) =
    update_pixels base S (\<lambda>x' y'. x' = x \<and> y' = y) (\<lambda>_ _. g) m"
proof
  fix a
  define n where "n = y * S + 4 * x"
  let ?off = "unat (a - base)"
  have eq: "a - pixel_address base S x y = (a - base) - of_nat n"
    by (simp only: pixel_address_def n_def diff_diff_eq)
  have small: "n < 18446744073709551616" using assms(3) by (simp add: n_def)
  have iff: "unat (a - pixel_address base S x y) < 4 \<longleftrightarrow> n \<le> ?off \<and> ?off < n + 4"
    unfolding eq by (rule unat_minus_of_nat_less_iff) (use assms(3) in \<open>simp add: n_def\<close>)
  show "(if unat (a - pixel_address base S x y) < 4
      then g (unat (a - pixel_address base S x y)) (m a) else m a) =
    update_pixels base S (\<lambda>x' y'. x' = x \<and> y' = y) (\<lambda>_ _. g) m a"
  proof (cases "n \<le> ?off \<and> ?off < n + 4")
    case True
    have "unat ((a - base) - of_nat n) = ?off - n"
      using True small by (simp add: unat_u64_minus word_le_nat_alt unat_u64_of_nat)
    moreover have "?off mod 4 = ?off - n"
    proof -
      obtain c where "n = 4 * c" using assms(2) unfolding n_def by (metis dvd_def dvd_add dvd_mult dvd_triv_left)
      then obtain r where "?off = 4 * c + r" "r < 4" "?off - n = r"
        using True le_Suc_ex [of n ?off] by auto
      thus ?thesis by simp
    qed
    ultimately show ?thesis
      using True iff pixel_offsets [OF assms(1,2), of ?off y, folded n_def] unfolding eq
      by (simp add: update_pixels_def Let_def)
  next
    case False
    thus ?thesis using iff pixel_offsets [OF assms(1,2), of ?off y, folded n_def]
      by (auto simp: update_pixels_def Let_def)
  qed
qed

subsection \<open>Loops over pixels\<close>

definition rect :: "nat \<Rightarrow> nat \<Rightarrow> nat \<Rightarrow> nat \<Rightarrow> nat \<Rightarrow> nat \<Rightarrow> bool" where
  "rect x0 y0 w h x y = (x0 \<le> x \<and> x < x0 + w \<and> y0 \<le> y \<and> y < y0 + h)"

lemma fold_row:
  assumes "\<And>i m. i < n \<Longrightarrow> keep m \<Longrightarrow> st i m = update_pixels base S (\<lambda>x y. x = x0 + i \<and> y = y0) f m"
    and "\<And>P m. keep m \<Longrightarrow> (\<And>x y. P x y \<Longrightarrow> x0 \<le> x \<and> x < x0 + n \<and> y = y0) \<Longrightarrow> keep (update_pixels base S P f m)"
    and "keep m"
  shows "fold st [0..<n] m = update_pixels base S (rect x0 y0 n 1) f m"
proof -
  have "k \<le> n \<Longrightarrow> fold st [0..<k] m = update_pixels base S (rect x0 y0 k 1) f m" for k
  proof (induction k)
    case 0
    show ?case by (simp add: update_pixels_none rect_def)
  next
    case (Suc k)
    have keep: "keep (update_pixels base S (rect x0 y0 k 1) f m)"
      using Suc.prems assms(3) by (intro assms(2)) (auto simp: rect_def)
    have "fold st [0..<Suc k] m = st k (update_pixels base S (rect x0 y0 k 1) f m)"
      using Suc by simp
    also have "\<dots> = update_pixels base S (\<lambda>x y. x = x0 + k \<and> y = y0) f
        (update_pixels base S (rect x0 y0 k 1) f m)"
      using Suc.prems keep by (intro assms(1)) simp_all
    also have "\<dots> = update_pixels base S (\<lambda>x y. rect x0 y0 k 1 x y \<or> x = x0 + k \<and> y = y0) f m"
      by (rule update_pixels_disjoint) (auto simp: rect_def)
    also have "\<dots> = update_pixels base S (rect x0 y0 (Suc k) 1) f m"
      by (rule update_pixels_cong) (auto simp: rect_def)
    finally show ?case .
  qed
  thus ?thesis by simp
qed

lemma fold_rows:
  assumes "\<And>j m. j < h \<Longrightarrow> keep m \<Longrightarrow> st j m = update_pixels base S (rect x0 (y0 + j) w 1) f m"
    and "\<And>P m. keep m \<Longrightarrow> (\<And>x y. P x y \<Longrightarrow> rect x0 y0 w h x y) \<Longrightarrow> keep (update_pixels base S P f m)"
    and "keep m"
  shows "fold st [0..<h] m = update_pixels base S (rect x0 y0 w h) f m"
proof -
  have "k \<le> h \<Longrightarrow> fold st [0..<k] m = update_pixels base S (rect x0 y0 w k) f m" for k
  proof (induction k)
    case 0
    show ?case by (simp add: update_pixels_none rect_def)
  next
    case (Suc k)
    have keep: "keep (update_pixels base S (rect x0 y0 w k) f m)"
      using Suc.prems assms(3) by (intro assms(2)) (auto simp: rect_def)
    have "fold st [0..<Suc k] m = st k (update_pixels base S (rect x0 y0 w k) f m)"
      using Suc by simp
    also have "\<dots> = update_pixels base S (rect x0 (y0 + k) w 1) f
        (update_pixels base S (rect x0 y0 w k) f m)"
      using Suc.prems keep by (intro assms(1)) simp_all
    also have "\<dots> = update_pixels base S (\<lambda>x y. rect x0 y0 w k x y \<or> rect x0 (y0 + k) w 1 x y) f m"
      by (rule update_pixels_disjoint) (auto simp: rect_def)
    also have "\<dots> = update_pixels base S (rect x0 y0 w (Suc k)) f m"
      by (rule update_pixels_cong) (auto simp: rect_def)
    finally show ?case .
  qed
  thus ?thesis by simp
qed

subsection \<open>The buffers\<close>

text \<open>
  The two buffers of the driver: \<open>row_bytes\<close> bytes per row, in which the screen's width
  fits, of less than 2 GiB, apart from each other.
\<close>

definition row_bytes :: "gr_drv \<Rightarrow> nat" where
  "row_bytes d = 4 * unat (presentationPixelStride d)"

definition screen_ok :: "gr_drv \<Rightarrow> bool" where
  "screen_ok d = (presentationPixelBytes d = 4 \<and>
     unat (presentationWidth d) \<le> unat (presentationPixelStride d) \<and>
     row_bytes d * unat (presentationHeight d) \<le> unat (mainFramebufferSize d) \<and>
     unat (mainFramebufferSize d) < 2147483648 \<and>
     unat (presentationWidth d) < 2147483648 \<and> unat (presentationHeight d) < 2147483648 \<and>
     pMainFramebufferMemory d \<noteq> 0 \<and> pRenderFramebufferMemory d \<noteq> 0 \<and>
     unat (pMainFramebufferMemory d) + unat (mainFramebufferSize d) < 18446744073709551616 \<and>
     unat (pRenderFramebufferMemory d) + unat (mainFramebufferSize d) < 18446744073709551616 \<and>
     (unat (pMainFramebufferMemory d) + unat (mainFramebufferSize d) \<le> unat (pRenderFramebufferMemory d) \<or>
      unat (pRenderFramebufferMemory d) + unat (mainFramebufferSize d) \<le> unat (pMainFramebufferMemory d)))"

lemma row_fits:
  assumes "screen_ok d" "y < unat (presentationHeight d)"
  shows "y * row_bytes d + row_bytes d \<le> unat (mainFramebufferSize d)" "row_bytes d < 2147483648"
    "y * row_bytes d + row_bytes d < 2147483648"
proof -
  have "Suc y * row_bytes d \<le> unat (presentationHeight d) * row_bytes d"
    using assms(2) by (intro mult_right_mono) simp_all
  thus "y * row_bytes d + row_bytes d \<le> unat (mainFramebufferSize d)"
    using assms(1) by (simp add: screen_ok_def mult.commute)
  thus "y * row_bytes d + row_bytes d < 2147483648" "row_bytes d < 2147483648"
    using assms(1) by (simp_all add: screen_ok_def)
qed

lemma ucast_of_nat: "n < 4294967296 \<Longrightarrow> (ucast (of_nat n :: u32) :: u64) = of_nat n"
  by (simp add: word_unat_eq_iff unsigned_ucast_eq unat_of_nat take_bit_nat_eq_self)

lemma stride_word:
  assumes "screen_ok d" "y < unat (presentationHeight d)"
  shows "presentationPixelStride d * presentationPixelBytes d = of_nat (row_bytes d)"
  using assms by (simp add: screen_ok_def row_bytes_def mult.commute)

lemma ucast_rows:
  assumes "screen_ok d" "y < unat (presentationHeight d)"
  shows "(ucast (of_nat y * of_nat (row_bytes d) :: u32) :: u64) = of_nat (y * row_bytes d)"
proof -
  have "y * row_bytes d < 4294967296" using row_fits [OF assms] by linarith
  thus ?thesis unfolding of_nat_mult [symmetric] by (rule ucast_of_nat)
qed

lemma ucast_pixels:
  assumes "screen_ok d" "x < unat (presentationWidth d)" "y < unat (presentationHeight d)"
  shows "(ucast (of_nat x * 4 :: u32) :: u64) = of_nat (4 * x)"
proof -
  have "4 * x < 4294967296"
    using assms(1,2) row_fits(2) [OF assms(1,3)] by (simp add: screen_ok_def row_bytes_def)
  from ucast_of_nat [OF this] show ?thesis by (simp add: mult.commute)
qed

lemma pixel_address_plus:
  "pixel_address base S x y + of_nat (h * S) + of_nat (4 * w) = pixel_address base S (x + w) (y + h)"
  by (simp add: pixel_address_def algebra_simps)

lemma region_offset_pixel:
  assumes "screen_ok d" "unat x < unat (presentationWidth d)" "unat y < unat (presentationHeight d)"
  shows "region_offset d x y = pixel_address (pRenderFramebufferMemory d) (row_bytes d) (unat x) (unat y)"
proof -
  have y: "(ucast (y * of_nat (row_bytes d)) :: u64) = of_nat (unat y * row_bytes d)"
    using ucast_rows [OF assms(1,3)] by simp
  have x: "(ucast (x * 4) :: u64) = of_nat (4 * unat x)"
    using ucast_pixels [OF assms] by simp
  have pb: "presentationPixelBytes d = 4" using assms(1) by (simp add: screen_ok_def)
  show ?thesis
    unfolding region_offset_def stride_word [OF assms(1,3)] y unfolding pb x
    by (simp add: pixel_address_def add.assoc)
qed

lemma pixel_fits:
  assumes "screen_ok d" "x < unat (presentationWidth d)" "y < unat (presentationHeight d)"
  shows "4 * x < row_bytes d" "4 dvd row_bytes d" "y * row_bytes d + 4 * x + 4 < 18446744073709551616"
    "y * row_bytes d + 4 * x + 4 \<le> unat (mainFramebufferSize d)"
proof -
  have "4 * x + 4 \<le> row_bytes d" using assms(1,2) by (simp add: screen_ok_def row_bytes_def)
  thus "4 * x < row_bytes d" "y * row_bytes d + 4 * x + 4 < 18446744073709551616"
    "y * row_bytes d + 4 * x + 4 \<le> unat (mainFramebufferSize d)"
    using row_fits [OF assms(1,3)] by linarith+
  show "4 dvd row_bytes d" by (simp add: row_bytes_def)
qed

subsection \<open>Clearing a rectangle\<close>

lemma four_bytes:
  fixes p :: u64
  shows "m(p := c0, p + 1 := c1, p + 2 := c2, p + 3 := c3) =
    (\<lambda>a. if unat (a - p) < 4 then [c0, c1, c2, c3] ! unat (a - p) else m a)"
proof
  fix a :: u64
  define w where "w = a - p"
  have a: "a = p + w" by (simp add: w_def)
  have "unat w < 4 \<longleftrightarrow> w \<in> {0, 1, 2, 3}"
  proof
    assume "unat w < 4"
    hence "unat w = 0 \<or> unat w = 1 \<or> unat w = 2 \<or> unat w = 3" by arith
    thus "w \<in> {0, 1, 2, 3}" by (simp add: word_unat_eq_iff)
  qed auto
  thus "(m(p := c0, p + 1 := c1, p + 2 := c2, p + 3 := c3)) a =
      (if unat (a - p) < 4 then [c0, c1, c2, c3] ! unat (a - p) else m a)"
    unfolding a by (cases "w \<in> {0, 1, 2, 3}") auto
qed

definition fill_color :: "u8 \<times> u8 \<times> u8 \<Rightarrow> nat \<Rightarrow> nat \<Rightarrow> nat \<Rightarrow> u8 \<Rightarrow> u8" where
  "fill_color c x y k v = [fst c, fst (snd c), snd (snd c), 0] ! k"

lemma set_pixel_update:
  assumes "4 * x < S" "4 dvd S" "y * S + 4 * x + 4 < 18446744073709551616"
  shows "set_pixel (pixel_address base S x y) c0 c1 c2 m =
    update_pixels base S (\<lambda>x' y'. x' = x \<and> y' = y) (fill_color (c0, c1, c2)) m"
  using update_one_pixel [OF assms, of base "\<lambda>k v. [c0, c1, c2, 0] ! k" m]
  unfolding set_pixel_def four_bytes update_pixels_def fill_color_def Let_def fst_conv snd_conv .

lemma clear_rows_update:
  assumes "screen_ok d" "x0 + unat width \<le> unat (presentationWidth d)"
    "y0 + unat height \<le> unat (presentationHeight d)"
  shows "clear_rows d (pixel_address (pRenderFramebufferMemory d) (row_bytes d) x0 y0) width height c m =
    update_pixels (pRenderFramebufferMemory d) (row_bytes d) (rect x0 y0 (unat width) (unat height))
      (fill_color c) m"
proof -
  obtain c0 c1 c2 where c: "c = (c0, c1, c2)" by (cases c)
  let ?base = "pRenderFramebufferMemory d" and ?S = "row_bytes d"
  have pb: "presentationPixelBytes d = 4" using assms(1) by (simp add: screen_ok_def)
  have row: "fold (\<lambda>w. set_pixel (pixel_address ?base ?S x0 y0 + of_nat (h * ?S) +
        ucast (of_nat w * 4 :: u32)) c0 c1 c2) [0..<unat width] m =
      update_pixels ?base ?S (rect x0 (y0 + h) (unat width) 1) (fill_color c) m"
    if h: "h < unat height" for h m
  proof (rule fold_row [where keep = "\<lambda>_. True"])
    fix w m
    assume w: "w < unat width"
    have x: "x0 + w < unat (presentationWidth d)" and y: "y0 + h < unat (presentationHeight d)"
      using w h assms(2,3) by linarith+
    have "w < unat (presentationWidth d)" using x by simp
    hence "(ucast (of_nat w * 4 :: u32) :: u64) = of_nat (4 * w)" by (rule ucast_pixels [OF assms(1) _ y])
    thus "set_pixel (pixel_address ?base ?S x0 y0 + of_nat (h * ?S) + ucast (of_nat w * 4 :: u32)) c0 c1 c2 m =
        update_pixels ?base ?S (\<lambda>x y. x = x0 + w \<and> y = y0 + h) (fill_color c) m"
      using set_pixel_update [OF pixel_fits(1-3) [OF assms(1) x y]]
      by (simp only: pixel_address_plus c)
  qed simp_all
  have rows: "fold (\<lambda>h. fold (\<lambda>w. set_pixel (pixel_address ?base ?S x0 y0 +
        ucast (of_nat h * (presentationPixelStride d * presentationPixelBytes d) :: u32) +
        ucast (of_nat w * presentationPixelBytes d)) c0 c1 c2) [0..<unat width]) [0..<unat height] m =
      update_pixels ?base ?S (rect x0 y0 (unat width) (unat height)) (fill_color c) m"
  proof (rule fold_rows [where keep = "\<lambda>_. True"])
    fix h m
    assume h: "h < unat height"
    have "h < unat (presentationHeight d)" using h assms(3) by simp
    hence "(ucast (of_nat h * (presentationPixelStride d * presentationPixelBytes d) :: u32) :: u64) =
        of_nat (h * ?S)"
      using ucast_rows [OF assms(1)] stride_word [OF assms(1)] by simp
    thus "fold (\<lambda>w. set_pixel (pixel_address ?base ?S x0 y0 +
        ucast (of_nat h * (presentationPixelStride d * presentationPixelBytes d) :: u32) +
        ucast (of_nat w * presentationPixelBytes d)) c0 c1 c2) [0..<unat width] m =
        update_pixels ?base ?S (rect x0 (y0 + h) (unat width) 1) (fill_color c) m"
      using row [OF h] by (simp only: pb)
  qed simp_all
  show ?thesis unfolding clear_rows_def c prod.case Let_def for_u32_def
    using rows unfolding c .
qed

end
