(* ===== verification/CpuGraphicsBlit.thy ===== *)
theory CpuGraphicsBlit
  imports CpuGraphicsPixels
begin

text \<open>
  The blits of the CPU graphics driver as updates of a rectangle of pixels, each
  from the bytes of its pixel in the image and from its old value.
\<close>

subsection \<open>One pixel\<close>

text \<open>
  A pixel function with images of \<open>n\<close> bytes per pixel writes the four bytes of its
  destination, as \<open>g\<close> says, provided the image's pixel is elsewhere.
\<close>

definition pixel_law :: "nat \<Rightarrow> (u64 \<Rightarrow> u64 \<Rightarrow> mem \<Rightarrow> mem) \<Rightarrow> ((nat \<Rightarrow> u8) \<Rightarrow> nat \<Rightarrow> u8 \<Rightarrow> u8) \<Rightarrow> bool" where
  "pixel_law n pixel g = (\<forall>src dst m. (\<forall>b < n. 4 \<le> unat (src + of_nat b - dst)) \<longrightarrow>
     pixel src dst m = (\<lambda>a. if unat (a - dst) < 4
       then g (\<lambda>b. m (src + of_nat b)) (unat (a - dst)) (m a) else m a))"

definition copy_channels :: "nat \<Rightarrow> nat \<Rightarrow> nat \<Rightarrow> (nat \<Rightarrow> u8) \<Rightarrow> nat \<Rightarrow> u8 \<Rightarrow> u8" where
  "copy_channels i j k img c v = [img i, img j, img k, v] ! c"

definition blend_channels ::
  "(u8 \<Rightarrow> u8 \<Rightarrow> u8 \<Rightarrow> u8) \<Rightarrow> nat \<Rightarrow> nat \<Rightarrow> nat \<Rightarrow> (nat \<Rightarrow> u8) \<Rightarrow> nat \<Rightarrow> u8 \<Rightarrow> u8" where
  "blend_channels blend i j k img c v =
     [blend (img 3) (img i) v, blend (img 3) (img j) v, blend (img 3) (img k) v, v] ! c"

lemma less4_cases: "c < (4 :: nat) \<Longrightarrow> c = 0 \<or> c = 1 \<or> c = 2 \<or> c = 3"
  by arith

lemma three_bytes:
  fixes p :: u64
  shows "m(p := c0, p + 1 := c1, p + 2 := c2) =
    (\<lambda>a. if unat (a - p) < 4 then [c0, c1, c2, m (p + 3)] ! unat (a - p) else m a)"
proof -
  have "m(p := c0, p + 1 := c1, p + 2 := c2) = m(p := c0, p + 1 := c1, p + 2 := c2, p + 3 := m (p + 3))"
    by (auto simp: fun_eq_iff)
  thus ?thesis by (simp only: four_bytes)
qed

lemma dest_byte:
  fixes a p :: u64
  assumes "unat (a - p) < 4"
  shows "[c0, c1, c2, m (p + 3)] ! unat (a - p) = [c0, c1, c2, m a] ! unat (a - p)"
proof -
  have "a = p + of_nat (unat (a - p))" by simp
  thus ?thesis using less4_cases [OF assms] by (metis nth_Cons_0 nth_Cons_numeral
      diff_numeral_simps(1) nth_Cons_Suc One_nat_def numeral_3_eq_3 numeral_2_eq_2 of_nat_numeral)
qed

lemma apart_bytes:
  fixes src dst :: u64
  assumes "\<forall>b < n. 4 \<le> unat (src + of_nat b - dst)" "i < n"
  shows "src + of_nat i \<noteq> dst" "src + of_nat i \<noteq> dst + 1"
proof -
  have "4 \<le> unat (src + of_nat i - dst)" using assms by blast
  thus "src + of_nat i \<noteq> dst" "src + of_nat i \<noteq> dst + 1" by auto
qed

lemma copy_pixel_law:
  assumes "i < 3" "j < 3" "k < 3"
  shows "pixel_law 3 (copy_pixel (of_nat i) (of_nat j) (of_nat k)) (copy_channels i j k)"
  unfolding pixel_law_def
proof (intro allI impI)
  fix src dst :: u64 and m :: mem
  assume apart: "\<forall>b < 3. 4 \<le> unat (src + of_nat b - dst)"
  have "copy_pixel (of_nat i) (of_nat j) (of_nat k) src dst m =
      m(dst := m (src + of_nat i), dst + 1 := m (src + of_nat j), dst + 2 := m (src + of_nat k))"
    using apart_bytes [OF apart assms(2)] apart_bytes [OF apart assms(3)]
    by (simp add: copy_pixel_def Let_def)
  also have "\<dots> = (\<lambda>a. if unat (a - dst) < 4
       then copy_channels i j k (\<lambda>b. m (src + of_nat b)) (unat (a - dst)) (m a) else m a)"
    unfolding three_bytes copy_channels_def by (auto simp: fun_eq_iff dest_byte)
  finally show "copy_pixel (of_nat i) (of_nat j) (of_nat k) src dst m = \<dots>" .
qed

lemma blend_pixel_law:
  assumes "i < 3" "j < 3" "k < 3"
  shows "pixel_law 4 (blend_pixel blend (of_nat i) (of_nat j) (of_nat k)) (blend_channels blend i j k)"
  unfolding pixel_law_def
proof (intro allI impI)
  fix src dst :: u64 and m :: mem
  let ?v = "\<lambda>c i. blend (m (src + 3)) (m (src + of_nat i)) (m (dst + c))"
  have "blend_pixel blend (of_nat i) (of_nat j) (of_nat k) src dst m =
      m(dst := ?v 0 i, dst + 1 := ?v 1 j, dst + 2 := ?v 2 k)"
    by (simp add: blend_pixel_def Let_def)
  also have "\<dots> = (\<lambda>a. if unat (a - dst) < 4
       then blend_channels blend i j k (\<lambda>b. m (src + of_nat b)) (unat (a - dst)) (m a) else m a)"
  proof
    fix a
    show "(m(dst := ?v 0 i, dst + 1 := ?v 1 j, dst + 2 := ?v 2 k)) a = (if unat (a - dst) < 4
       then blend_channels blend i j k (\<lambda>b. m (src + of_nat b)) (unat (a - dst)) (m a) else m a)"
    proof (cases "unat (a - dst) < 4")
      case True
      have "a = dst + of_nat (unat (a - dst))" by simp
      then obtain c where "a = dst + of_nat c" "unat (a - dst) = c" "c < 4" using True by blast
      thus ?thesis unfolding three_bytes blend_channels_def
        using less4_cases [of c] by auto
    qed (simp add: three_bytes)
  qed
  finally show "blend_pixel blend (of_nat i) (of_nat j) (of_nat k) src dst m = \<dots>" .
qed

subsection \<open>The loops\<close>

text \<open>
  The image of \<open>isize\<close> bytes at \<open>p\<close> is outside of the render buffer; a blit
  reads a rectangle inside the rows of the image.
\<close>

definition image_ok :: "gr_drv \<Rightarrow> u64 \<Rightarrow> nat \<Rightarrow> bool" where
  "image_ok d p isize = (isize < 2147483648 \<and>
     (\<forall>b < isize. unat (mainFramebufferSize d) \<le> unat (p + of_nat b - pRenderFramebufferMemory d)))"

definition blit_ok :: "nat \<Rightarrow> nat \<Rightarrow> nat \<Rightarrow> nat \<Rightarrow> nat \<Rightarrow> nat \<Rightarrow> nat \<Rightarrow> bool" where
  "blit_ok isize n stride ix iy w h = (n * (ix + w) \<le> stride \<and> (iy + h) * stride \<le> isize)"

definition image_byte :: "mem \<Rightarrow> u64 \<Rightarrow> nat \<Rightarrow> nat \<Rightarrow> nat \<Rightarrow> nat \<Rightarrow> nat \<Rightarrow> u8" where
  "image_byte m p n stride x y = (\<lambda>b. m (p + of_nat (y * stride + n * x + b)))"

lemma ucast_mult:
  assumes "i * unat (k :: u32) < 4294967296"
  shows "(ucast (of_nat i * k) :: u64) = of_nat (i * unat k)"
proof -
  have "of_nat i * k = of_nat (i * unat k)" by simp
  thus ?thesis using ucast_of_nat [OF assms] by simp
qed

lemma scast_mult:
  assumes "i * unat (k :: u32) < 2147483648"
  shows "(scast (of_nat i * k) :: u64) = of_nat (i * unat k)"
proof -
  have eq: "of_nat i * k = of_nat (i * unat k)" by simp
  have "unat (of_nat (i * unat k) :: u32) = i * unat k"
    using assms by (simp only: unat_of_nat) (simp add: take_bit_nat_eq_self)
  thus ?thesis using scast_small [of "of_nat (i * unat k)"] assms unfolding eq by simp
qed

lemma scast_mult':
  "unat (i :: u32) * unat (k :: u32) < 2147483648 \<Longrightarrow> (scast (i * k) :: u64) = of_nat (unat i * unat k)"
  using scast_mult [of "unat i" k] by simp

lemma ucast_mult':
  "unat (i :: u32) * unat (k :: u32) < 4294967296 \<Longrightarrow> (ucast (i * k) :: u64) = of_nat (unat i * unat k)"
  using ucast_mult [of "unat i" k] by simp

lemma for_s32_small: "unat n < 2147483648 \<Longrightarrow> for_s32 n f = for_u32 n f"
  using word_sless_small [of n 0] by (simp add: for_s32_def)

lemma in_buffer:
  assumes "screen_ok d" "rect x0 y0 w h (off mod row_bytes d div 4) (off div row_bytes d)"
    "x0 + w \<le> unat (presentationWidth d)" "y0 + h \<le> unat (presentationHeight d)"
  shows "off < unat (mainFramebufferSize d)"
proof -
  let ?S = "row_bytes d"
  have y: "off div ?S < unat (presentationHeight d)" using assms(2,4) by (auto simp: rect_def)
  have "?S > 0"
  proof (rule ccontr)
    assume "\<not> ?S > 0"
    hence "unat (presentationWidth d) = 0" using assms(1) by (simp add: screen_ok_def row_bytes_def)
    thus False using assms(2,3) by (auto simp: rect_def)
  qed
  hence "off < off div ?S * ?S + ?S" by (metis div_mult_mod_eq add_less_cancel_left mod_less_divisor)
  thus ?thesis using row_fits(1) [OF assms(1) y] by linarith
qed

lemma image_bounds:
  assumes "blit_ok isize n stride ix iy w h" "x < w" "y < h" "b < n"
  shows "(iy + y) * stride + n * (ix + x) + b < isize"
proof -
  have "n * (ix + x) + b < n * (ix + Suc x)" using assms(4) by simp
  also have "\<dots> \<le> n * (ix + w)" using assms(2) by (intro mult_left_mono) simp_all
  also have "\<dots> \<le> stride" using assms(1) by (simp add: blit_ok_def)
  finally have "(iy + y) * stride + (n * (ix + x) + b) < (iy + y) * stride + stride" by simp
  also have "\<dots> = (iy + Suc y) * stride" by simp
  also have "\<dots> \<le> (iy + h) * stride" using assms(3) by (intro mult_right_mono) simp_all
  also have "\<dots> \<le> isize" using assms(1) by (simp add: blit_ok_def)
  finally show ?thesis by simp
qed

text \<open>The bytes of an image stay the same while the render buffer is written.\<close>

definition same_image :: "u64 \<Rightarrow> nat \<Rightarrow> mem \<Rightarrow> mem \<Rightarrow> bool" where
  "same_image p isize m0 m = (\<forall>b < isize. m (p + of_nat b) = m0 (p + of_nat b))"

lemma same_image_update:
  assumes "screen_ok d" "image_ok d p isize" "same_image p isize m0 m"
    "\<And>x y. P x y \<Longrightarrow> rect x0 y0 w h x y"
    "x0 + w \<le> unat (presentationWidth d)" "y0 + h \<le> unat (presentationHeight d)"
  shows "same_image p isize m0 (update_pixels (pRenderFramebufferMemory d) (row_bytes d) P f m)"
  unfolding same_image_def
proof (intro allI impI)
  fix b
  assume b: "b < isize"
  let ?off = "unat (p + of_nat b - pRenderFramebufferMemory d)"
  have "unat (mainFramebufferSize d) \<le> ?off" using assms(2) b by (simp add: image_ok_def)
  hence "\<not> P (?off mod row_bytes d div 4) (?off div row_bytes d)"
    using in_buffer [OF assms(1) _ assms(5,6), of ?off] assms(4) by auto
  thus "update_pixels (pRenderFramebufferMemory d) (row_bytes d) P f m (p + of_nat b) = m0 (p + of_nat b)"
    using assms(3) b by (simp add: update_pixels_def Let_def same_image_def)
qed

lemma image_pixel_apart:
  assumes "screen_ok d" "image_ok d p isize" "x < unat (presentationWidth d)"
    "y < unat (presentationHeight d)" "b < isize"
  shows "4 \<le> unat (p + of_nat b - pixel_address (pRenderFramebufferMemory d) (row_bytes d) x y)"
proof -
  let ?n = "y * row_bytes d + 4 * x"
  let ?off = "p + of_nat b - pRenderFramebufferMemory d"
  have fit: "?n + 4 \<le> unat (mainFramebufferSize d)" "?n + 4 < 18446744073709551616"
    using pixel_fits(3,4) [OF assms(1,3,4)] by simp_all
  have "unat (mainFramebufferSize d) \<le> unat ?off" using assms(2,5) by (simp add: image_ok_def)
  hence "\<not> unat (?off - of_nat ?n) < 4"
    using unat_minus_of_nat_less_iff [OF fit(2), of ?off] fit(1) by linarith
  thus ?thesis by (simp only: pixel_address_def diff_diff_eq not_less)
qed

definition blit_value ::
  "((nat \<Rightarrow> u8) \<Rightarrow> nat \<Rightarrow> u8 \<Rightarrow> u8) \<Rightarrow> mem \<Rightarrow> u64 \<Rightarrow> nat \<Rightarrow> nat \<Rightarrow> nat \<Rightarrow> nat \<Rightarrow> nat \<Rightarrow> nat \<Rightarrow>
   nat \<Rightarrow> nat \<Rightarrow> nat \<Rightarrow> u8 \<Rightarrow> u8" where
  "blit_value g m p n stride ix iy x0 y0 x y =
     g (image_byte m p n stride (ix + (x - x0)) (iy + (y - y0)))"

lemma blit_loop_update:
  assumes ok: "screen_ok d" "image_ok d p isize"
    and blit: "blit_ok isize (unat n) (unat stride) (unat ix) (unat iy) (unat w) (unat h)"
    and law: "pixel_law (unat n) pixel g"
      "\<And>img img' c v. (\<And>b. b < unat n \<Longrightarrow> img b = img' b) \<Longrightarrow> g img c v = g img' c v"
    and fits: "unat x0 + unat w \<le> unat (presentationWidth d)" "unat y0 + unat h \<le> unat (presentationHeight d)"
    and small: "unat stride < 2147483648"
  shows "blit_loop n pixel p (pRenderFramebufferMemory d) ix iy stride x0 y0
      (presentationPixelStride d * 4) w h m =
    update_pixels (pRenderFramebufferMemory d) (row_bytes d) (rect (unat x0) (unat y0) (unat w) (unat h))
      (blit_value g m p (unat n) (unat stride) (unat ix) (unat iy) (unat x0) (unat y0)) m"
proof -
  let ?R = "pRenderFramebufferMemory d" and ?S = "row_bytes d"
  let ?F = "blit_value g m p (unat n) (unat stride) (unat ix) (unat iy) (unat x0) (unat y0)"
  have bounds: "unat w < 2147483648" "unat h < 2147483648"
    using fits ok(1) by (simp_all add: screen_ok_def)
  have src: "p + of_nat (unat iy * unat stride) + of_nat (unat ix * unat n) +
      of_nat (j * unat stride) + of_nat (i * unat n) + of_nat b =
    p + of_nat ((unat iy + j) * unat stride + unat n * (unat ix + i) + b)" for i j b
    by (simp add: algebra_simps)
  have pixel: "pixel (p + of_nat (unat iy * unat stride) + of_nat (unat ix * unat n) +
      of_nat (j * unat stride) + of_nat (i * unat n))
      (pixel_address ?R ?S (unat x0 + i) (unat y0 + j)) m1 =
    update_pixels ?R ?S (\<lambda>x y. x = unat x0 + i \<and> y = unat y0 + j) ?F m1"
    if i: "i < unat w" and j: "j < unat h" and same: "same_image p isize m m1" for i j m1
  proof -
    let ?dst = "pixel_address ?R ?S (unat x0 + i) (unat y0 + j)"
    let ?src = "p + of_nat (unat iy * unat stride) + of_nat (unat ix * unat n) +
      of_nat (j * unat stride) + of_nat (i * unat n) :: u64"
    have x: "unat x0 + i < unat (presentationWidth d)" and y: "unat y0 + j < unat (presentationHeight d)"
      using i j fits by linarith+
    have "\<forall>b < unat n. 4 \<le> unat (?src + of_nat b - ?dst)"
      unfolding src using image_pixel_apart [OF ok x y image_bounds [OF blit i j]] by blast
    hence "pixel ?src ?dst m1 = (\<lambda>a. if unat (a - ?dst) < 4
        then g (\<lambda>b. m1 (?src + of_nat b)) (unat (a - ?dst)) (m1 a) else m1 a)"
      using law(1) unfolding pixel_law_def by blast
    also have "\<dots> = update_pixels ?R ?S (\<lambda>x y. x = unat x0 + i \<and> y = unat y0 + j)
        (\<lambda>_ _. g (\<lambda>b. m1 (?src + of_nat b))) m1"
      by (rule update_one_pixel [OF pixel_fits(1-3) [OF ok(1) x y]])
    also have "\<dots> = update_pixels ?R ?S (\<lambda>x y. x = unat x0 + i \<and> y = unat y0 + j) ?F m1"
    proof -
      have "g (\<lambda>b. m1 (?src + of_nat b)) c v = ?F (unat x0 + i) (unat y0 + j) c v" for c v
      proof -
        have "?F (unat x0 + i) (unat y0 + j) c v =
            g (\<lambda>b. m (p + of_nat ((unat iy + j) * unat stride + unat n * (unat ix + i) + b))) c v"
          by (simp only: blit_value_def image_byte_def diff_add_inverse)
        also have "\<dots> = g (\<lambda>b. m1 (?src + of_nat b)) c v" unfolding src
          by (rule law(2)) (rule same [unfolded same_image_def, rule_format, symmetric,
              OF image_bounds [OF blit i j]])
        finally show ?thesis ..
      qed
      thus ?thesis by (simp add: update_pixels_def Let_def fun_eq_iff)
    qed
    finally show ?thesis .
  qed
  have empty: "update_pixels ?R ?S (rect (unat x0) (unat y0) (unat w) (unat h)) ?F m = m"
    if "w = 0 \<or> h = 0" using that by (intro update_pixels_none) (auto simp: rect_def)
  show ?thesis
  proof (cases "w = 0 \<or> h = 0")
    case True
    thus ?thesis unfolding empty [OF True]
      using bounds by (auto simp: blit_loop_def for_s32_small for_u32_def Let_def fold_id)
  next
    case False
    hence pos: "0 < unat w" "0 < unat h" by (simp_all add: unat_gt_0)
    have x0: "unat x0 < unat (presentationWidth d)" and y0: "unat y0 < unat (presentationHeight d)"
      using pos fits by linarith+
    have S: "presentationPixelStride d * 4 = of_nat ?S" by (simp add: row_bytes_def mult.commute)
    have dst_col: "(scast (of_nat i * 4 :: u32) :: u64) = of_nat (4 * i)"
      if "i < unat (presentationWidth d)" for i
    proof -
      have "i * 4 < 2147483648"
        using that ok(1) row_fits(2) [OF ok(1) y0] by (simp add: screen_ok_def row_bytes_def)
      thus ?thesis using scast_mult [of i 4] by (simp add: mult.commute)
    qed
    have src_row: "j * unat stride < 4294967296" if "j \<le> unat iy + unat h" for j
    proof -
      have "j * unat stride \<le> (unat iy + unat h) * unat stride" using that by (rule mult_right_mono) simp
      also have "\<dots> \<le> isize" using blit by (simp add: blit_ok_def)
      also have "\<dots> < 4294967296" using ok(2) by (simp add: image_ok_def)
      finally show ?thesis .
    qed
    have src_col: "i * unat n < 2147483648" if "i \<le> unat ix + unat w" for i
    proof -
      have "unat n * i \<le> unat n * (unat ix + unat w)" using that by (rule mult_left_mono) simp
      also have "\<dots> \<le> unat stride" using blit by (simp add: blit_ok_def)
      finally show ?thesis using small by (simp add: mult.commute)
    qed
    have base: "p + ucast (iy * stride) + scast (ix * n) =
        p + of_nat (unat iy * unat stride) + of_nat (unat ix * unat n)"
      using src_row [of "unat iy"] src_col [of "unat ix"] by (simp only: ucast_mult' scast_mult' le_add1)
    have dst: "?R + ucast (y0 * of_nat ?S) + scast (x0 * 4) = pixel_address ?R ?S (unat x0) (unat y0)"
      using ucast_rows [OF ok(1) y0] dst_col [OF x0] by (simp add: pixel_address_def add.assoc)
    have row: "fold (\<lambda>i. pixel (p + of_nat (unat iy * unat stride) + of_nat (unat ix * unat n) +
          of_nat (j * unat stride) + scast (of_nat i * n))
          (pixel_address ?R ?S (unat x0) (unat y0) + of_nat (j * ?S) + scast (of_nat i * 4 :: u32)))
          [0..<unat w] m1 =
        update_pixels ?R ?S (rect (unat x0) (unat y0 + j) (unat w) 1) ?F m1"
      if j: "j < unat h" and same: "same_image p isize m m1" for j m1
    proof (rule fold_row [where keep = "same_image p isize m"])
      fix i m1
      assume i: "i < unat w" and same: "same_image p isize m m1"
      have "i < unat (presentationWidth d)" "i \<le> unat ix + unat w" using i fits by linarith+
      thus "pixel (p + of_nat (unat iy * unat stride) + of_nat (unat ix * unat n) +
          of_nat (j * unat stride) + scast (of_nat i * n))
          (pixel_address ?R ?S (unat x0) (unat y0) + of_nat (j * ?S) + scast (of_nat i * 4 :: u32)) m1 =
        update_pixels ?R ?S (\<lambda>x y. x = unat x0 + i \<and> y = unat y0 + j) ?F m1"
        using pixel [OF i j same] by (simp only: scast_mult src_col dst_col pixel_address_plus)
    next
      fix P :: "nat \<Rightarrow> nat \<Rightarrow> bool" and m1
      assume same: "same_image p isize m m1"
        and P: "\<And>x y. P x y \<Longrightarrow> unat x0 \<le> x \<and> x < unat x0 + unat w \<and> y = unat y0 + j"
      have "rect (unat x0) (unat y0) (unat w) (unat h) x y" if "P x y" for x y
        using P [OF that] j by (simp add: rect_def)
      thus "same_image p isize m (update_pixels ?R ?S P ?F m1)"
        by (rule same_image_update [OF ok same _ fits])
    qed (rule same)
    have "fold (\<lambda>j. fold (\<lambda>i. pixel (p + of_nat (unat iy * unat stride) + of_nat (unat ix * unat n) +
          ucast (of_nat j * stride) + scast (of_nat i * n))
          (pixel_address ?R ?S (unat x0) (unat y0) + ucast (of_nat j * of_nat ?S :: u32) +
           scast (of_nat i * 4 :: u32))) [0..<unat w]) [0..<unat h] m =
        update_pixels ?R ?S (rect (unat x0) (unat y0) (unat w) (unat h)) ?F m"
    proof (rule fold_rows [where keep = "same_image p isize m"])
      fix j m1
      assume j: "j < unat h" and same: "same_image p isize m m1"
      have "j < unat (presentationHeight d)" "j \<le> unat iy + unat h" using j fits by linarith+
      thus "fold (\<lambda>i. pixel (p + of_nat (unat iy * unat stride) + of_nat (unat ix * unat n) +
          ucast (of_nat j * stride) + scast (of_nat i * n))
          (pixel_address ?R ?S (unat x0) (unat y0) + ucast (of_nat j * of_nat ?S :: u32) +
           scast (of_nat i * 4 :: u32))) [0..<unat w] m1 =
        update_pixels ?R ?S (rect (unat x0) (unat y0 + j) (unat w) 1) ?F m1"
        using row [OF j same] by (simp only: ucast_mult src_row ucast_rows [OF ok(1)])
    next
      fix P :: "nat \<Rightarrow> nat \<Rightarrow> bool" and m1
      assume "same_image p isize m m1" "\<And>x y. P x y \<Longrightarrow> rect (unat x0) (unat y0) (unat w) (unat h) x y"
      thus "same_image p isize m (update_pixels ?R ?S P ?F m1)"
        by (rule same_image_update [OF ok _ _ fits])
    qed (simp add: same_image_def)
    thus ?thesis
      unfolding blit_loop_def Let_def for_s32_small [OF bounds(1)] for_s32_small [OF bounds(2)] for_u32_def
        S base dst .
  qed
qed

end
