(* ===== verification/CpuGraphicsScreen.thy ===== *)
theory CpuGraphicsScreen
  imports CpuGraphicsBlit
begin

text \<open>
  The CPU graphics driver against what it promises. Its clients draw on a canvas
  of pixels, which is the render buffer, and \<open>swapBuffers\<close> shows the canvas: the
  invariant \<open>gr_inv\<close> says that the frame buffer differs from the render buffer
  inside the region that is marked for swapping only.
\<close>

subsection \<open>Signed coordinates\<close>

lemma sint_of_int: "- 2147483648 \<le> i \<Longrightarrow> i < 2147483648 \<Longrightarrow> sint (of_int i :: u32) = i"
  by (simp add: sint_uint unsigned_of_int signed_take_bit_take_bit signed_take_bit_int_eq_self)

lemma sint_range: "- 2147483648 \<le> sint (w :: u32)" "sint (w :: u32) < 2147483648"
  using sint_greater_eq [of w] sint_less [of w] by simp_all

lemma sint_add:
  fixes a b :: u32
  assumes "- 2147483648 \<le> sint a + sint b" "sint a + sint b < 2147483648"
  shows "sint (a + b) = sint a + sint b"
proof -
  have "a + b = of_int (sint a + sint b)" by simp
  thus ?thesis using sint_of_int [OF assms] by simp
qed

lemma sint_diff:
  fixes a b :: u32
  assumes "- 2147483648 \<le> sint a - sint b" "sint a - sint b < 2147483648"
  shows "sint (a - b) = sint a - sint b"
proof -
  have "a - b = of_int (sint a - sint b)" by simp
  thus ?thesis using sint_of_int [OF assms] by simp
qed

lemma sint_nonneg:
  assumes "0 \<le> sint (w :: u32)"
  shows "int (unat w) = sint w" "unat w < 2147483648"
proof -
  have w: "w = of_int (sint w)" by simp
  have "uint w = take_bit 32 (sint w)" by (subst w) (simp only: unsigned_of_int, simp)
  also have "\<dots> = sint w" using assms sint_range [of w] by (simp add: take_bit_int_eq_self)
  finally show "int (unat w) = sint w" by simp
  thus "unat w < 2147483648" using sint_range [of w] by linarith
qed

lemma unat_uminus_neg:
  assumes "sint (w :: u32) < 0"
  shows "int (unat (- w)) = - sint w"
proof -
  have w: "- w = of_int (- sint w)" by simp
  have "uint (- w) = take_bit 32 (- sint w)" by (subst w) (simp only: unsigned_of_int, simp)
  also have "\<dots> = - sint w" using assms sint_range [of w] by (simp add: take_bit_int_eq_self)
  finally show ?thesis by simp
qed

lemma sint_less_iff: "a <s b \<longleftrightarrow> sint (a :: u32) < sint b" "a \<le>s b \<longleftrightarrow> sint (a :: u32) \<le> sint b"
  by (simp_all add: word_sless_alt word_sle_eq)

subsection \<open>Clipping\<close>

text \<open>One dimension of a region of the screen.\<close>

lemma clip_dimension:
  fixes x0 w0 W :: u32
  assumes "unat W < 2147483648" "unat w0 < 2147483648"
  defines "start \<equiv> (if 0 \<le>s x0 then x0 else 0)"
    and "width \<equiv> (if x0 <s 0 then w0 - (- x0) else w0)"
  defines "final \<equiv> (if start + width > W then W - start else width)"
  shows "start \<ge> W \<or> x0 <s 0 \<and> - x0 \<ge> w0 \<Longrightarrow>
      \<not> (x < unat W \<and> sint x0 \<le> int x \<and> int x < sint x0 + int (unat w0))"
    and "\<not> (start \<ge> W \<or> x0 <s 0 \<and> - x0 \<ge> w0) \<Longrightarrow> unat start + unat final \<le> unat W \<and>
      (unat start \<le> x \<and> x < unat start + unat final \<longleftrightarrow>
       x < unat W \<and> sint x0 \<le> int x \<and> int x < sint x0 + int (unat w0))"
proof -
  show "\<not> (x < unat W \<and> sint x0 \<le> int x \<and> int x < sint x0 + int (unat w0))"
    if "start \<ge> W \<or> x0 <s 0 \<and> - x0 \<ge> w0"
  proof (cases "sint x0 < 0")
    case True
    have "int (unat (- x0)) = - sint x0" by (rule unat_uminus_neg [OF True])
    thus ?thesis using that True
      by (auto simp: start_def sint_less_iff word_le_nat_alt simp del: of_nat_unat)
  next
    case False
    thus ?thesis using that sint_nonneg(1) [of x0] 
      by (auto simp: start_def sint_less_iff word_le_nat_alt simp del: of_nat_unat)
  qed
  assume on: "\<not> (start \<ge> W \<or> x0 <s 0 \<and> - x0 \<ge> w0)"
  have clamp: "unat start + unat final = min (unat W) (unat start + unat width)"
    if "unat start < unat W" "unat width < 2147483648"
  proof -
    have "unat (start + width) = unat start + unat width"
      using that assms(1) by (simp add: unat_word_ariths)
    thus ?thesis using that by (auto simp: final_def word_less_nat_alt unat_sub_if')
  qed
  show "unat start + unat final \<le> unat W \<and>
      (unat start \<le> x \<and> x < unat start + unat final \<longleftrightarrow>
       x < unat W \<and> sint x0 \<le> int x \<and> int x < sint x0 + int (unat w0))"
  proof (cases "sint x0 < 0")
    case True
    have neg: "int (unat (- x0)) = - sint x0" by (rule unat_uminus_neg [OF True])
    have st: "start = 0" "unat (- x0) < unat w0" "unat W > 0"
      using on True by (auto simp: start_def sint_less_iff word_le_nat_alt)
    have "width = w0 - (- x0)" unfolding width_def sint_less_iff using True by simp
    moreover have "unat (w0 - (- x0)) = unat w0 - unat (- x0)"
      by (rule unat_sub) (use st(2) in \<open>simp add: word_le_nat_alt\<close>)
    ultimately have wd: "unat width = unat w0 - unat (- x0)" by simp
    have "unat start + unat final = min (unat W) (unat width)" using clamp st wd assms(2) by simp
    thus ?thesis using st wd neg True by (auto simp del: of_nat_unat)
  next
    case False
    have st: "start = x0" "width = w0" "unat x0 < unat W"
      using on False by (auto simp: start_def width_def sint_less_iff word_le_nat_alt)
    have "unat start + unat final = min (unat W) (unat x0 + unat w0)" using clamp st assms(2) by simp
    thus ?thesis using st sint_nonneg(1) [of x0] False by (auto simp del: of_nat_unat)
  qed
qed

definition covered :: "gr_drv \<Rightarrow> u32 \<Rightarrow> u32 \<Rightarrow> u32 \<Rightarrow> u32 \<Rightarrow> nat \<Rightarrow> nat \<Rightarrow> bool" where
  "covered d x0 y0 w h x y = (x < unat (presentationWidth d) \<and> y < unat (presentationHeight d) \<and>
     sint x0 \<le> int x \<and> int x < sint x0 + int (unat w) \<and>
     sint y0 \<le> int y \<and> int y < sint y0 + int (unat h))"

lemma clip_region_covered:
  assumes "screen_ok d" "unat w0 < 2147483648" "unat h0 < 2147483648"
  shows "case clip_region d r w0 h0 of
      None \<Rightarrow> (\<forall>x y. \<not> covered d (reg_x r) (reg_y r) w0 h0 x y)
    | Some (sx, sy, w, h) \<Rightarrow> unat sx + unat w \<le> unat (presentationWidth d) \<and>
        unat sy + unat h \<le> unat (presentationHeight d) \<and>
        unat sx < unat (presentationWidth d) \<and> unat sy < unat (presentationHeight d) \<and>
        (\<forall>x y. rect (unat sx) (unat sy) (unat w) (unat h) x y \<longleftrightarrow> covered d (reg_x r) (reg_y r) w0 h0 x y)"
proof -
  let ?W = "presentationWidth d" and ?H = "presentationHeight d"
  have small: "unat ?W < 2147483648" "unat ?H < 2147483648" using assms(1) by (simp_all add: screen_ok_def)
  note X = clip_dimension [OF small(1) assms(2), of "reg_x r"]
  note Y = clip_dimension [OF small(2) assms(3), of "reg_y r"]
  let ?offX = "(if 0 \<le>s reg_x r then reg_x r else 0) \<ge> ?W \<or> reg_x r <s 0 \<and> - reg_x r \<ge> w0"
  let ?offY = "(if 0 \<le>s reg_y r then reg_y r else 0) \<ge> ?H \<or> reg_y r <s 0 \<and> - reg_y r \<ge> h0"
  show ?thesis
  proof (cases "?offX \<or> ?offY")
    case True
    hence "clip_region d r w0 h0 = None" by (auto simp: clip_region_def Let_def)
    moreover have "\<not> covered d (reg_x r) (reg_y r) w0 h0 x y" for x y
      using True X(1) [of x] Y(1) [of y] unfolding covered_def by blast
    ultimately show ?thesis by simp
  next
    case False
    let ?sx = "if 0 \<le>s reg_x r then reg_x r else 0" and ?sy = "if 0 \<le>s reg_y r then reg_y r else 0"
    let ?w = "if reg_x r <s 0 then w0 - (- reg_x r) else w0"
    let ?h = "if reg_y r <s 0 then h0 - (- reg_y r) else h0"
    let ?fw = "if ?sx + ?w > ?W then ?W - ?sx else ?w" and ?fh = "if ?sy + ?h > ?H then ?H - ?sy else ?h"
    have "clip_region d r w0 h0 = Some (?sx, ?sy, ?fw, ?fh)"
      using False by (simp add: clip_region_def Let_def)
    moreover have "unat ?sx < unat ?W" "unat ?sy < unat ?H"
      using False by (auto simp: word_le_nat_alt)
    moreover have "rect (unat ?sx) (unat ?sy) (unat ?fw) (unat ?fh) x y \<longleftrightarrow>
        covered d (reg_x r) (reg_y r) w0 h0 x y" for x y
      using False X(2) [of x] Y(2) [of y] unfolding rect_def covered_def by blast
    moreover have "unat ?sx + unat ?fw \<le> unat ?W" "unat ?sy + unat ?fh \<le> unat ?H"
      using False X(2) Y(2) by blast+
    ultimately show ?thesis by (simp del: not_less)
  qed
qed

text \<open>One dimension of a blit.\<close>

lemma blit_dimension:
  fixes i0 x0 w0 W :: u32
  assumes W: "unat W < 2147483648"
    and i0: "0 \<le> sint i0" "sint i0 < 1073741824" and w0: "0 \<le> sint w0" "sint w0 < 1073741824"
    and x0: "- 1073741824 \<le> sint x0" "sint x0 < 1073741824"
  defines "img \<equiv> (if x0 <s 0 then i0 - x0 else i0)"
    and "width \<equiv> (if x0 <s 0 then w0 + x0 else w0)"
    and "start \<equiv> (if x0 <s 0 then 0 else x0)"
  defines "final \<equiv> (if W <s start + width then W - start else width)"
  shows "img <s 0 \<or> final <s 0 \<or> W \<le>s start \<Longrightarrow>
      \<not> (x < unat W \<and> sint x0 \<le> int x \<and> int x < sint x0 + int (unat w0))"
    and "\<not> (img <s 0 \<or> final <s 0 \<or> W \<le>s start) \<Longrightarrow> unat start + unat final \<le> unat W \<and>
      int (unat img) - int (unat i0) = int (unat start) - sint x0 \<and>
      unat img + unat final \<le> unat i0 + unat w0 \<and>
      (unat start \<le> x \<and> x < unat start + unat final \<longleftrightarrow>
       x < unat W \<and> sint x0 \<le> int x \<and> int x < sint x0 + int (unat w0))"
proof -
  have Ws: "sint W = int (unat W)" by (rule sint_small [OF W])
  have im: "sint img = (if sint x0 < 0 then sint i0 - sint x0 else sint i0)"
    using i0 x0 by (simp add: img_def sint_less_iff sint_diff)
  have wd: "sint width = (if sint x0 < 0 then sint w0 + sint x0 else sint w0)"
    using w0 x0 by (simp add: width_def sint_less_iff sint_add)
  have st: "sint start = (if sint x0 < 0 then 0 else sint x0)" by (simp add: start_def sint_less_iff)
  have sum: "sint (start + width) = sint start + sint width"
    using wd st w0 x0 by (intro sint_add) auto
  have diff: "sint (W - start) = sint W - sint start"
    using st x0 Ws W by (intro sint_diff) (auto simp del: of_nat_unat)
  have fin: "sint final = min (sint width) (sint W - sint start)"
    by (auto simp: final_def sint_less_iff sum diff)
  have w0n: "int (unat w0) = sint w0" and i0n: "int (unat i0) = sint i0"
    using sint_nonneg(1) w0(1) i0(1) by blast+
  have stn: "int (unat start) = sint start" using st by (intro sint_nonneg) simp
  have imn: "int (unat img) = sint img" using im i0 by (intro sint_nonneg) simp
  note facts = im wd st fin w0n Ws
  show "\<not> (x < unat W \<and> sint x0 \<le> int x \<and> int x < sint x0 + int (unat w0))"
    if "img <s 0 \<or> final <s 0 \<or> W \<le>s start"
  proof
    assume x: "x < unat W \<and> sint x0 \<le> int x \<and> int x < sint x0 + int (unat w0)"
    have "int x < sint W" using x Ws by linarith
    thus False using that x facts i0 by (auto simp: sint_less_iff split: if_splits simp del: of_nat_unat)
  qed
  assume "\<not> (img <s 0 \<or> final <s 0 \<or> W \<le>s start)"
  hence pos: "0 \<le> sint final" "sint start < sint W" by (auto simp: sint_less_iff)
  have fn: "int (unat final) = sint final" by (rule sint_nonneg(1) [OF pos(1)])
  have bounds: "int (unat start) + int (unat final) \<le> int (unat W)"
    "int (unat img) + int (unat final) \<le> int (unat i0) + int (unat w0)"
    using facts stn imn fn i0n by (auto split: if_splits simp del: of_nat_unat)
  have iff: "int (unat start) \<le> int x \<and> int x < int (unat start) + int (unat final) \<longleftrightarrow>
      int x < int (unat W) \<and> sint x0 \<le> int x \<and> int x < sint x0 + int (unat w0)"
    unfolding stn fn using facts by (auto simp del: of_nat_unat)
  show "unat start + unat final \<le> unat W \<and>
      int (unat img) - int (unat i0) = int (unat start) - sint x0 \<and>
      unat img + unat final \<le> unat i0 + unat w0 \<and>
      (unat start \<le> x \<and> x < unat start + unat final \<longleftrightarrow>
       x < unat W \<and> sint x0 \<le> int x \<and> int x < sint x0 + int (unat w0))"
    using bounds iff im st stn imn i0n by (auto simp del: of_nat_unat split: if_splits)
qed

definition blit_args_ok :: "u32 \<Rightarrow> u32 \<Rightarrow> u32 \<Rightarrow> u32 \<Rightarrow> u32 \<Rightarrow> u32 \<Rightarrow> bool" where
  "blit_args_ok ix iy x y w h = (0 \<le> sint ix \<and> sint ix < 1073741824 \<and> 0 \<le> sint iy \<and> sint iy < 1073741824 \<and>
     0 \<le> sint w \<and> sint w < 1073741824 \<and> 0 \<le> sint h \<and> sint h < 1073741824 \<and>
     - 1073741824 \<le> sint x \<and> sint x < 1073741824 \<and> - 1073741824 \<le> sint y \<and> sint y < 1073741824)"

lemma clip_blit_covered:
  assumes "screen_ok d" "blit_args_ok ix iy x0 y0 w0 h0"
  shows "case clip_blit d ix iy x0 y0 w0 h0 of
      None \<Rightarrow> (\<forall>x y. \<not> covered d x0 y0 w0 h0 x y)
    | Some (px, py, sx, sy, w, h) \<Rightarrow> unat sx + unat w \<le> unat (presentationWidth d) \<and>
        unat sy + unat h \<le> unat (presentationHeight d) \<and>
        int (unat px) - int (unat ix) = int (unat sx) - sint x0 \<and>
        int (unat py) - int (unat iy) = int (unat sy) - sint y0 \<and>
        unat px + unat w \<le> unat ix + unat w0 \<and> unat py + unat h \<le> unat iy + unat h0 \<and>
        (\<forall>x y. rect (unat sx) (unat sy) (unat w) (unat h) x y \<longleftrightarrow> covered d x0 y0 w0 h0 x y)"
proof -
  let ?W = "presentationWidth d" and ?H = "presentationHeight d"
  have small: "unat ?W < 2147483648" "unat ?H < 2147483648" using assms(1) by (simp_all add: screen_ok_def)
  have a: "0 \<le> sint ix" "sint ix < 1073741824" "0 \<le> sint w0" "sint w0 < 1073741824"
    "- 1073741824 \<le> sint x0" "sint x0 < 1073741824"
    "0 \<le> sint iy" "sint iy < 1073741824" "0 \<le> sint h0" "sint h0 < 1073741824"
    "- 1073741824 \<le> sint y0" "sint y0 < 1073741824"
    using assms(2) by (simp_all add: blit_args_ok_def)
  note X = blit_dimension [OF small(1) a(1-6)] and Y = blit_dimension [OF small(2) a(7-12)]
  let ?px = "if x0 <s 0 then ix - x0 else ix" and ?py = "if y0 <s 0 then iy - y0 else iy"
  let ?w = "if x0 <s 0 then w0 + x0 else w0" and ?h = "if y0 <s 0 then h0 + y0 else h0"
  let ?sx = "if x0 <s 0 then 0 else x0" and ?sy = "if y0 <s 0 then 0 else y0"
  let ?fw = "if ?W <s ?sx + ?w then ?W - ?sx else ?w" and ?fh = "if ?H <s ?sy + ?h then ?H - ?sy else ?h"
  let ?offX = "?px <s 0 \<or> ?fw <s 0 \<or> ?W \<le>s ?sx" and ?offY = "?py <s 0 \<or> ?fh <s 0 \<or> ?H \<le>s ?sy"
  show ?thesis
  proof (cases "?offX \<or> ?offY")
    case True
    hence "clip_blit d ix iy x0 y0 w0 h0 = None" unfolding clip_blit_def Let_def by presburger
    moreover have "\<not> covered d x0 y0 w0 h0 x y" for x y
      using True X(1) [of x] Y(1) [of y] unfolding covered_def by blast
    ultimately show ?thesis by simp
  next
    case False
    have "clip_blit d ix iy x0 y0 w0 h0 = Some (?px, ?py, ?sx, ?sy, ?fw, ?fh)"
      using False unfolding clip_blit_def Let_def by presburger
    moreover have "rect (unat ?sx) (unat ?sy) (unat ?fw) (unat ?fh) x y \<longleftrightarrow> covered d x0 y0 w0 h0 x y" for x y
      using False X(2) [of x] Y(2) [of y] unfolding rect_def covered_def by blast
    moreover have "unat ?sx + unat ?fw \<le> unat ?W" "unat ?sy + unat ?fh \<le> unat ?H"
      "int (unat ?px) - int (unat ix) = int (unat ?sx) - sint x0"
      "int (unat ?py) - int (unat iy) = int (unat ?sy) - sint y0"
      "unat ?px + unat ?fw \<le> unat ix + unat w0" "unat ?py + unat ?fh \<le> unat iy + unat h0"
      using False X(2) Y(2) by blast+
    ultimately show ?thesis by (simp only: option.case prod.case) blast
  qed
qed

end
