(* ===== verification/CpuGraphicsCanvas.thy ===== *)
theory CpuGraphicsCanvas
  imports CpuGraphicsScreen
begin

text \<open>
  The CPU graphics driver as a canvas: \<open>canvas\<close> reads a channel of a pixel of the
  render buffer, \<open>shown\<close> one of the frame buffer. Drawing changes the canvas
  inside the visible part of its rectangle and nothing on the screen; swapping
  shows the canvas. The invariant behind it is that the two agree outside of the
  region that is marked for swapping.
\<close>

subsection \<open>Canvas and screen\<close>

definition pixel_byte :: "gr_drv \<Rightarrow> u64 \<Rightarrow> mem \<Rightarrow> nat \<Rightarrow> nat \<Rightarrow> nat \<Rightarrow> u8" where
  "pixel_byte d base m x y k = m (base + of_nat (y * row_bytes d + 4 * x + k))"

definition canvas :: "gr_drv \<Rightarrow> mem \<Rightarrow> nat \<Rightarrow> nat \<Rightarrow> nat \<Rightarrow> u8" where
  "canvas d m = pixel_byte d (pRenderFramebufferMemory d) m"

definition shown :: "gr_drv \<Rightarrow> mem \<Rightarrow> nat \<Rightarrow> nat \<Rightarrow> nat \<Rightarrow> u8" where
  "shown d m = pixel_byte d (pMainFramebufferMemory d) m"

definition on_screen_pixel :: "gr_drv \<Rightarrow> nat \<Rightarrow> nat \<Rightarrow> nat \<Rightarrow> bool" where
  "on_screen_pixel d x y k = (x < unat (presentationWidth d) \<and> y < unat (presentationHeight d) \<and> k < 4)"

lemma on_screen_offset:
  assumes "screen_ok d" "on_screen_pixel d x y k"
  defines "n \<equiv> y * row_bytes d + 4 * x + k"
  shows "n < unat (mainFramebufferSize d)" "n mod row_bytes d div 4 = x" "n div row_bytes d = y" "n mod 4 = k"
    "n < 18446744073709551616"
proof -
  have xy: "x < unat (presentationWidth d)" "y < unat (presentationHeight d)" "k < 4"
    using assms(2) by (simp_all add: on_screen_pixel_def)
  note fit = pixel_fits [OF assms(1) xy(1,2)]
  show "n < unat (mainFramebufferSize d)" "n < 18446744073709551616"
    using fit(3,4) xy(3) by (simp_all add: n_def)
  have "n div row_bytes d = y \<and> n mod row_bytes d div 4 = x"
    using pixel_offsets [OF fit(1,2), of n y] xy(3) by (simp add: n_def)
  thus "n mod row_bytes d div 4 = x" "n div row_bytes d = y" by blast+
  have "4 dvd y * row_bytes d + 4 * x" using fit(2) by simp
  then obtain c where "y * row_bytes d + 4 * x = 4 * c" by (rule dvdE)
  thus "n mod 4 = k" using xy(3) by (simp add: n_def)
qed

lemma canvas_update:
  assumes "screen_ok d" "on_screen_pixel d x y k"
  shows "canvas d (update_pixels (pRenderFramebufferMemory d) (row_bytes d) P f m) x y k =
    (if P x y then f x y k (canvas d m x y k) else canvas d m x y k)"
  using on_screen_offset [OF assms]
  by (simp add: canvas_def pixel_byte_def update_pixels_def Let_def unat_u64_of_nat del: of_nat_add of_nat_mult)

text \<open>The frame buffer is apart from the render buffer.\<close>

lemma main_apart:
  assumes "screen_ok d" "n < unat (mainFramebufferSize d)"
  shows "unat (mainFramebufferSize d) \<le>
      unat (pMainFramebufferMemory d + of_nat n - pRenderFramebufferMemory d)"
    "unat (mainFramebufferSize d) \<le>
      unat (pRenderFramebufferMemory d + of_nat n - pMainFramebufferMemory d)"
proof -
  let ?M = "pMainFramebufferMemory d" and ?R = "pRenderFramebufferMemory d"
  let ?s = "unat (mainFramebufferSize d)"
  have b: "unat ?M + ?s < 18446744073709551616" "unat ?R + ?s < 18446744073709551616"
    "unat ?M + ?s \<le> unat ?R \<or> unat ?R + ?s \<le> unat ?M"
    using assms(1) by (simp_all add: screen_ok_def)
  have M: "unat (?M + of_nat n) = unat ?M + n" and R: "unat (?R + of_nat n) = unat ?R + n"
    using b(1,2) assms(2) by (simp_all add: unat_u64_plus_of_nat)
  show "?s \<le> unat (?M + of_nat n - ?R)" "?s \<le> unat (?R + of_nat n - ?M)"
    using b assms(2) unfolding unat_sub_if' M R by auto
qed

lemma shown_update:
  assumes "screen_ok d" "on_screen_pixel d x y k"
    "\<And>x y. P x y \<Longrightarrow> rect x0 y0 w h x y"
    "x0 + w \<le> unat (presentationWidth d)" "y0 + h \<le> unat (presentationHeight d)"
  shows "shown d (update_pixels (pRenderFramebufferMemory d) (row_bytes d) P f m) x y k = shown d m x y k"
proof -
  let ?n = "y * row_bytes d + 4 * x + k"
  let ?off = "unat (pMainFramebufferMemory d + of_nat ?n - pRenderFramebufferMemory d)"
  have "unat (mainFramebufferSize d) \<le> ?off"
    by (rule main_apart(1) [OF assms(1) on_screen_offset(1) [OF assms(1,2)]])
  hence "\<not> P (?off mod row_bytes d div 4) (?off div row_bytes d)"
    using in_buffer [OF assms(1) _ assms(4,5), of ?off] assms(3) by auto
  thus ?thesis by (simp only: shown_def pixel_byte_def update_pixels_def Let_def if_False)
qed

subsection \<open>The region to swap\<close>

fun dirty :: "gr_drv \<Rightarrow> nat \<Rightarrow> nat \<Rightarrow> bool" where
  "dirty d x y = (case swapOp d of SWAP_NONE \<Rightarrow> False | SWAP_FULL \<Rightarrow> True
     | SWAP_REGION \<Rightarrow> rect (unat (regionStartX d)) (unat (regionStartY d))
         (unat (regionWidth d)) (unat (regionHeight d)) x y)"

declare dirty.simps [simp del]

definition region_ok :: "gr_drv \<Rightarrow> bool" where
  "region_ok d = (swapOp d = SWAP_REGION \<longrightarrow>
     unat (regionStartX d) + unat (regionWidth d) \<le> unat (presentationWidth d) \<and>
     unat (regionStartY d) + unat (regionHeight d) \<le> unat (presentationHeight d))"

definition gr_inv :: "gr_drv \<Rightarrow> mem \<Rightarrow> bool" where
  "gr_inv d m = (screen_ok d \<and> region_ok d \<and>
     (\<forall>x y k. on_screen_pixel d x y k \<and> \<not> dirty d x y \<longrightarrow> shown d m x y k = canvas d m x y k))"

text \<open>The part of the driver's state that no call changes.\<close>

definition screen_part :: "gr_drv \<Rightarrow> gr_drv" where
  "screen_part d = d\<lparr>swapOp := SWAP_NONE, regionStartX := 0, regionStartY := 0, regionWidth := 0, regionHeight := 0\<rparr>"

lemma screen_partD:
  assumes "screen_part d' = screen_part d"
  shows "presentationWidth d' = presentationWidth d" "presentationHeight d' = presentationHeight d"
    "presentationPixelBytes d' = presentationPixelBytes d"
    "presentationPixelStride d' = presentationPixelStride d"
    "pMainFramebufferMemory d' = pMainFramebufferMemory d" "mainFramebufferSize d' = mainFramebufferSize d"
    "pRenderFramebufferMemory d' = pRenderFramebufferMemory d" "framebufferFormat d' = framebufferFormat d"
  using assms by (cases d; cases d'; simp add: screen_part_def)+

lemma screen_part_facts:
  assumes "screen_part d' = screen_part d"
  shows "screen_ok d' = screen_ok d" "canvas d' = canvas d" "shown d' = shown d"
    "on_screen_pixel d' = on_screen_pixel d" "row_bytes d' = row_bytes d"
  by (simp_all add: screen_ok_def canvas_def shown_def pixel_byte_def on_screen_pixel_def row_bytes_def
      fun_eq_iff screen_partD [OF assms])

text \<open>One dimension of the union of two regions.\<close>

lemma union_dimension:
  fixes a b c e :: u32
  assumes "unat a + unat b \<le> n" "unat c + unat e \<le> n" "n < 2147483648"
  defines "start \<equiv> (if a < c then a else c)"
    and "end \<equiv> (if a + b > c + e then a + b else c + e)"
  shows "unat start + unat (end - start) \<le> n"
    "unat a \<le> x \<and> x < unat a + unat b \<or> unat c \<le> x \<and> x < unat c + unat e \<Longrightarrow>
      unat start \<le> x \<and> x < unat start + unat (end - start)"
proof -
  have sums: "unat (a + b) = unat a + unat b" "unat (c + e) = unat c + unat e"
    using assms(1-3) by (simp_all add: unat_word_ariths)
  have st: "unat start = min (unat a) (unat c)" by (simp add: start_def word_less_nat_alt)
  have en: "unat end = max (unat a + unat b) (unat c + unat e)"
    by (auto simp: end_def word_less_nat_alt sums)
  have "unat (end - start) = unat end - unat start"
    by (rule unat_sub) (simp add: word_le_nat_alt st en)
  thus "unat start + unat (end - start) \<le> n"
    "unat a \<le> x \<and> x < unat a + unat b \<or> unat c \<le> x \<and> x < unat c + unat e \<Longrightarrow>
      unat start \<le> x \<and> x < unat start + unat (end - start)"
    using assms(1,2) by (auto simp: st en)
qed

lemma MarkScreenRegion_part: "screen_part (MarkScreenRegionForSwapping d x y w h) = screen_part d"
  by (simp add: MarkScreenRegionForSwapping_def screen_part_def Let_def split: swap_op.splits)

text \<open>Marking keeps the region on the screen, and covers the old region and the new rectangle.\<close>

lemma MarkScreenRegion_covers:
  assumes "screen_ok d" "region_ok d" "unat x0 + unat w \<le> unat (presentationWidth d)"
    "unat y0 + unat h \<le> unat (presentationHeight d)"
  shows "region_ok (MarkScreenRegionForSwapping d x0 y0 w h)"
    "dirty d x y \<or> rect (unat x0) (unat y0) (unat w) (unat h) x y \<Longrightarrow>
      dirty (MarkScreenRegionForSwapping d x0 y0 w h) x y"
proof -
  have small: "unat (presentationWidth d) < 2147483648" "unat (presentationHeight d) < 2147483648"
    using assms(1) by (simp_all add: screen_ok_def)
  have "region_ok (MarkScreenRegionForSwapping d x0 y0 w h) \<and>
    (dirty d x y \<or> rect (unat x0) (unat y0) (unat w) (unat h) x y \<longrightarrow>
      dirty (MarkScreenRegionForSwapping d x0 y0 w h) x y)"
  proof (cases "swapOp d")
    case SWAP_REGION
    hence r: "unat (regionStartX d) + unat (regionWidth d) \<le> unat (presentationWidth d)"
      "unat (regionStartY d) + unat (regionHeight d) \<le> unat (presentationHeight d)"
      using assms(2) by (simp_all add: region_ok_def)
    note X = union_dimension [OF r(1) assms(3) small(1)] and Y = union_dimension [OF r(2) assms(4) small(2)]
    have "region_ok (MarkScreenRegionForSwapping d x0 y0 w h)"
      using X(1) Y(1) by (simp add: MarkScreenRegionForSwapping_def SWAP_REGION Let_def region_ok_def)
    moreover have "dirty (MarkScreenRegionForSwapping d x0 y0 w h) x y"
      if "dirty d x y \<or> rect (unat x0) (unat y0) (unat w) (unat h) x y"
    proof -
      let ?d = "MarkScreenRegionForSwapping d x0 y0 w h"
      have fields: "swapOp ?d = SWAP_REGION"
        "regionStartX ?d = (if regionStartX d < x0 then regionStartX d else x0)"
        "regionStartY ?d = (if regionStartY d < y0 then regionStartY d else y0)"
        "regionWidth ?d = (if regionStartX d + regionWidth d > x0 + w
           then regionStartX d + regionWidth d else x0 + w) - regionStartX ?d"
        "regionHeight ?d = (if regionStartY d + regionHeight d > y0 + h
           then regionStartY d + regionHeight d else y0 + h) - regionStartY ?d"
        by (simp_all add: MarkScreenRegionForSwapping_def SWAP_REGION Let_def)
      show ?thesis
        using that X(2) [of x] Y(2) [of y]
        unfolding dirty.simps fields SWAP_REGION swap_op.case rect_def by blast
    qed
    ultimately show ?thesis by blast
  qed (use assms in \<open>auto simp: MarkScreenRegionForSwapping_def region_ok_def dirty.simps\<close>)
  thus "region_ok (MarkScreenRegionForSwapping d x0 y0 w h)"
    "dirty d x y \<or> rect (unat x0) (unat y0) (unat w) (unat h) x y \<Longrightarrow>
      dirty (MarkScreenRegionForSwapping d x0 y0 w h) x y"
    by blast+
qed

end
