(* ===== verification/CpuGraphicsCalls.thy ===== *)
theory CpuGraphicsCalls
  imports CpuGraphicsCanvas
begin

text \<open>
  The calls of a graphics driver on the CPU driver's state: each keeps the
  invariant and paints on the canvas what the interface promises, and swapping
  shows the canvas. The locale \<open>graphics_driver\<close> is the interface that a client
  relies on.
\<close>

subsection \<open>Drawing\<close>

lemma gr_invD: "gr_inv d m \<Longrightarrow> screen_ok d" "gr_inv d m \<Longrightarrow> region_ok d"
  by (simp_all add: gr_inv_def)

lemma draw_rect:
  fixes f :: "nat \<Rightarrow> nat \<Rightarrow> nat \<Rightarrow> u8 \<Rightarrow> u8"
  assumes inv: "gr_inv d m" and fits: "unat sx + unat w \<le> unat (presentationWidth d)"
      "unat sy + unat h \<le> unat (presentationHeight d)"
  defines "d' \<equiv> MarkScreenRegionForSwapping d sx sy w h"
    and "m' \<equiv> update_pixels (pRenderFramebufferMemory d) (row_bytes d)
      (rect (unat sx) (unat sy) (unat w) (unat h)) f m"
  shows "gr_inv d' m'" "screen_part d' = screen_part d"
    "on_screen_pixel d x y k \<Longrightarrow> canvas d' m' x y k =
      (if rect (unat sx) (unat sy) (unat w) (unat h) x y then f x y k (canvas d m x y k) else canvas d m x y k)"
proof -
  note ok = gr_invD [OF inv]
  show part: "screen_part d' = screen_part d" unfolding d'_def by (rule MarkScreenRegion_part)
  note same = screen_part_facts [OF part]
  show c: "canvas d' m' x y k =
      (if rect (unat sx) (unat sy) (unat w) (unat h) x y then f x y k (canvas d m x y k) else canvas d m x y k)"
    if "on_screen_pixel d x y k" for x y k
    unfolding same m'_def by (rule canvas_update [OF ok(1) that])
  note covers = MarkScreenRegion_covers [OF ok fits, folded d'_def]
  have "shown d' m' x y k = canvas d' m' x y k" if "on_screen_pixel d' x y k" "\<not> dirty d' x y" for x y k
  proof -
    have on: "on_screen_pixel d x y k" using that(1) by (simp only: same)
    have not: "\<not> dirty d x y" "\<not> rect (unat sx) (unat sy) (unat w) (unat h) x y"
      using covers(2) that(2) by blast+
    have "shown d' m' x y k = shown d m x y k"
      unfolding same m'_def by (rule shown_update [OF ok(1) on _ fits])
    also have "\<dots> = canvas d m x y k" using inv on not(1) by (simp add: gr_inv_def)
    also have "\<dots> = canvas d' m' x y k" using c [OF on] not(2) by simp
    finally show ?thesis .
  qed
  thus "gr_inv d' m'" using ok(1) covers(1) by (simp add: gr_inv_def same(1))
qed

subsection \<open>Swapping\<close>

lemma memcpy_apart:
  assumes "dest \<noteq> 0" "src \<noteq> 0" "unat dest + unat n < 18446744073709551616"
    "unat src + unat n < 18446744073709551616"
    "unat dest + unat n \<le> unat src \<or> unat src + unat n \<le> unat dest"
  shows "memcpy m dest src n = Some (copy_region m dest src (unat n), dest)"
proof -
  have "\<not> copy_overlap dest src n"
    using assms(3-5) by (auto simp: copy_overlap_def word_le_nat_alt word_less_nat_alt unat_u64_plus)
  from memcpy_forward [OF this forward_safeI [OF assms(4,3) this]] show ?thesis using assms(1,2) by simp
qed

text \<open>Copying a row of a region: what is shown changes in the row, the canvas does not.\<close>

definition copied_row :: "gr_drv \<Rightarrow> mem \<Rightarrow> nat \<Rightarrow> nat \<Rightarrow> nat \<Rightarrow> mem" where
  "copied_row d m x y w =
     copy_region m (pMainFramebufferMemory d + of_nat (y * row_bytes d + 4 * x))
       (pRenderFramebufferMemory d + of_nat (y * row_bytes d + 4 * x)) (4 * w)"

lemma row_memcpy:
  assumes "screen_ok d" "x + w \<le> unat (presentationWidth d)" "y < unat (presentationHeight d)"
  shows "memcpy m (pMainFramebufferMemory d + of_nat (y * row_bytes d + 4 * x))
      (pRenderFramebufferMemory d + of_nat (y * row_bytes d + 4 * x)) (of_nat (4 * w)) =
    Some (copied_row d m x y w, pMainFramebufferMemory d + of_nat (y * row_bytes d + 4 * x))"
proof -
  let ?M = "pMainFramebufferMemory d" and ?R = "pRenderFramebufferMemory d"
  define n where "n = y * row_bytes d + 4 * x"
  have b: "unat ?M + unat (mainFramebufferSize d) < 18446744073709551616"
    "unat ?R + unat (mainFramebufferSize d) < 18446744073709551616" "?M \<noteq> 0" "?R \<noteq> 0"
    "unat ?M + unat (mainFramebufferSize d) \<le> unat ?R \<or> unat ?R + unat (mainFramebufferSize d) \<le> unat ?M"
    using assms(1) by (simp_all add: screen_ok_def)
  have "4 * (x + w) \<le> row_bytes d" using assms(1,2) by (simp add: screen_ok_def row_bytes_def)
  hence n: "n + 4 * w \<le> unat (mainFramebufferSize d)"
    using row_fits(1) [OF assms(1,3)] by (simp add: n_def)
  have M: "unat (?M + of_nat n) = unat ?M + n" and R: "unat (?R + of_nat n) = unat ?R + n"
    using b(1,2) n by (simp_all add: unat_u64_plus_of_nat)
  have w: "unat (of_nat (4 * w) :: u64) = 4 * w" using b(1) n by (intro unat_u64_of_nat) linarith
  have f: "unat ?M + n + 4 * w < 18446744073709551616" "unat ?R + n + 4 * w < 18446744073709551616"
    using b(1,2) n by linarith+
  have apart: "unat ?M + n + 4 * w \<le> unat ?R + n \<or> unat ?R + n + 4 * w \<le> unat ?M + n"
    using b(5) n by auto
  have "memcpy m (?M + of_nat n) (?R + of_nat n) (of_nat (4 * w)) =
      Some (copy_region m (?M + of_nat n) (?R + of_nat n) (unat (of_nat (4 * w) :: u64)), ?M + of_nat n)"
  proof (rule memcpy_apart)
    show "?M + of_nat n \<noteq> 0" "?R + of_nat n \<noteq> 0"
      using M R b(3,4) by (metis add_is_0 unsigned_0 unat_eq_0)+
  qed (use f apart in \<open>simp_all only: M R w\<close>)
  thus ?thesis unfolding w copied_row_def n_def .
qed

lemma row_offset_iff:
  assumes "4 * x + 4 \<le> S" "4 * (sx + w) \<le> (S :: nat)" "k < 4"
  shows "Y * S + 4 * sx \<le> y * S + 4 * x + k \<and> y * S + 4 * x + k < Y * S + 4 * sx + 4 * w \<longleftrightarrow>
    y = Y \<and> sx \<le> x \<and> x < sx + w"
proof -
  have lt: "y * S + S \<le> Y * S" if "y < Y" for y Y
    using mult_right_mono [of "Suc y" Y S] that by simp
  consider "y = Y" | "y < Y" | "Y < y" by linarith
  thus ?thesis
  proof cases
    case 1
    thus ?thesis using assms(3) by auto
  next
    case 2
    thus ?thesis using lt [OF 2] assms by auto
  next
    case 3
    thus ?thesis using lt [OF 3] assms by auto
  qed
qed

lemma copied_row_bytes:
  assumes "screen_ok d" "sx + w \<le> unat (presentationWidth d)" "Y < unat (presentationHeight d)"
    "on_screen_pixel d x y k"
  shows "shown d (copied_row d m sx Y w) x y k =
      (if y = Y \<and> sx \<le> x \<and> x < sx + w then canvas d m x y k else shown d m x y k)"
    "canvas d (copied_row d m sx Y w) x y k = canvas d m x y k"
proof -
  let ?M = "pMainFramebufferMemory d" and ?R = "pRenderFramebufferMemory d"
  define n where "n = y * row_bytes d + 4 * x + k"
  define r where "r = Y * row_bytes d + 4 * sx"
  have xk: "4 * x + 4 \<le> row_bytes d" "k < 4" "y < unat (presentationHeight d)"
    using assms(1,4) by (simp_all add: screen_ok_def row_bytes_def on_screen_pixel_def)
  have sw: "4 * (sx + w) \<le> row_bytes d" using assms(1,2) by (simp add: screen_ok_def row_bytes_def)
  note size = on_screen_offset(1,5) [OF assms(1,4), folded n_def]
  have r: "r + 4 * w \<le> unat (mainFramebufferSize d)" "r + 4 * w < 18446744073709551616"
    using row_fits(1,3) [OF assms(1,3)] sw by (simp_all add: r_def)
  have eq: "?M + of_nat n - (?M + of_nat r) = of_nat n - of_nat r" for n :: nat by simp
  have "unat (?M + of_nat n - (?M + of_nat r)) < 4 * w \<longleftrightarrow> r \<le> n \<and> n < r + 4 * w"
    unfolding eq using unat_minus_of_nat_less_iff [OF r(2), of "of_nat n"] unat_u64_of_nat [OF size(2)] by simp
  also have "\<dots> \<longleftrightarrow> y = Y \<and> sx \<le> x \<and> x < sx + w"
    unfolding n_def r_def by (rule row_offset_iff [OF xk(1) sw xk(2)])
  finally have iff: "unat (?M + of_nat n - (?M + of_nat r)) < 4 * w \<longleftrightarrow> y = Y \<and> sx \<le> x \<and> x < sx + w" .
  have src: "?R + of_nat r + (?M + of_nat n - (?M + of_nat r)) = ?R + of_nat n" by simp
  have "copied_row d m sx Y w (?M + of_nat n) =
      (if y = Y \<and> sx \<le> x \<and> x < sx + w then m (?R + of_nat n) else m (?M + of_nat n))"
    unfolding copied_row_def r_def [symmetric] copy_region_def iff src ..
  thus "shown d (copied_row d m sx Y w) x y k =
      (if y = Y \<and> sx \<le> x \<and> x < sx + w then canvas d m x y k else shown d m x y k)"
    unfolding shown_def canvas_def pixel_byte_def n_def [symmetric] .
  have "\<not> unat (?R + of_nat n - (?M + of_nat r)) < 4 * w"
  proof -
    have e: "?R + of_nat n - (?M + of_nat r) = (?R + of_nat n - ?M) - of_nat r" by simp
    have "unat (mainFramebufferSize d) \<le> unat (?R + of_nat n - ?M)" by (rule main_apart(2) [OF assms(1) size(1)])
    thus ?thesis unfolding e unat_minus_of_nat_less_iff [OF r(2)] using r(1) by linarith
  qed
  thus "canvas d (copied_row d m sx Y w) x y k = canvas d m x y k"
    unfolding canvas_def pixel_byte_def n_def [symmetric] copied_row_def r_def [symmetric] copy_region_def
    by (simp only: if_False)
qed

text \<open>Memory outside of the frame buffer is not touched.\<close>

definition same_outside :: "gr_drv \<Rightarrow> mem \<Rightarrow> mem \<Rightarrow> bool" where
  "same_outside d m m' = (\<forall>a. unat (mainFramebufferSize d) \<le> unat (a - pMainFramebufferMemory d) \<longrightarrow> m' a = m a)"

lemma copied_row_outside:
  assumes "screen_ok d" "sx + w \<le> unat (presentationWidth d)" "Y < unat (presentationHeight d)"
  shows "same_outside d m (copied_row d m sx Y w)"
  unfolding same_outside_def
proof (intro allI impI)
  fix a
  assume a: "unat (mainFramebufferSize d) \<le> unat (a - pMainFramebufferMemory d)"
  define r where "r = Y * row_bytes d + 4 * sx"
  have "4 * (sx + w) \<le> row_bytes d" using assms(1,2) by (simp add: screen_ok_def row_bytes_def)
  hence r: "r + 4 * w \<le> unat (mainFramebufferSize d)" "r + 4 * w < 18446744073709551616"
    using row_fits(1,3) [OF assms(1,3)] by (simp_all add: r_def)
  have e: "a - (pMainFramebufferMemory d + of_nat r) = (a - pMainFramebufferMemory d) - of_nat r" by simp
  have "\<not> unat (a - (pMainFramebufferMemory d + of_nat r)) < 4 * w"
    unfolding e unat_minus_of_nat_less_iff [OF r(2)] using r(1) a by linarith
  thus "copied_row d m sx Y w a = m a"
    unfolding copied_row_def r_def [symmetric] copy_region_def by (simp only: if_False)
qed

lemma copy_rows_run:
  assumes "screen_ok d" "sx + w \<le> unat (presentationWidth d)"
    "\<forall>h \<in> set hs. sy + h < unat (presentationHeight d)"
  shows "\<exists>m'. copy_rows (pMainFramebufferMemory d + of_nat (sy * row_bytes d + 4 * sx))
      (pRenderFramebufferMemory d + of_nat (sy * row_bytes d + 4 * sx)) (of_nat (row_bytes d))
      (of_nat (4 * w)) hs m = Some m' \<and> same_outside d m m' \<and>
    (\<forall>x y k. on_screen_pixel d x y k \<longrightarrow> canvas d m' x y k = canvas d m x y k \<and>
      shown d m' x y k = (if (\<exists>h \<in> set hs. y = sy + h) \<and> sx \<le> x \<and> x < sx + w
        then canvas d m x y k else shown d m x y k))"
  using assms(3)
proof (induction hs arbitrary: m)
  case Nil
  thus ?case by (simp add: same_outside_def)
next
  case (Cons h hs)
  have h: "sy + h < unat (presentationHeight d)" using Cons.prems by simp
  have addr: "base + of_nat (sy * row_bytes d + 4 * sx) + of_nat h * of_nat (row_bytes d) =
      base + of_nat ((sy + h) * row_bytes d + 4 * sx)" for base :: u64
    by (simp add: algebra_simps)
  note row = copied_row_bytes [OF assms(1,2) h, of _ _ _ m]
  obtain m' where m': "copy_rows (pMainFramebufferMemory d + of_nat (sy * row_bytes d + 4 * sx))
      (pRenderFramebufferMemory d + of_nat (sy * row_bytes d + 4 * sx)) (of_nat (row_bytes d))
      (of_nat (4 * w)) hs (copied_row d m sx (sy + h) w) = Some m'"
    "same_outside d (copied_row d m sx (sy + h) w) m'"
    "\<forall>x y k. on_screen_pixel d x y k \<longrightarrow>
      canvas d m' x y k = canvas d (copied_row d m sx (sy + h) w) x y k \<and>
      shown d m' x y k = (if (\<exists>h \<in> set hs. y = sy + h) \<and> sx \<le> x \<and> x < sx + w
        then canvas d (copied_row d m sx (sy + h) w) x y k else shown d (copied_row d m sx (sy + h) w) x y k)"
    using Cons by fastforce
  have "same_outside d m m'"
    using m'(2) copied_row_outside [OF assms(1,2) h, of m] by (simp add: same_outside_def)
  thus ?case
    using m' row by (auto simp: addr row_memcpy [OF assms(1,2) h] simp del: of_nat_add of_nat_mult)
qed

lemma FullSwap_bytes:
  fixes m :: mem
  assumes "screen_ok d"
  defines "m' \<equiv> copy_region m (pMainFramebufferMemory d) (pRenderFramebufferMemory d) (unat (mainFramebufferSize d))"
  shows "on_screen_pixel d x y k \<Longrightarrow> shown d m' x y k = canvas d m x y k"
    "on_screen_pixel d x y k \<Longrightarrow> canvas d m' x y k = canvas d m x y k" "same_outside d m m'"
proof -
  let ?n = "y * row_bytes d + 4 * x + k"
  show "shown d m' x y k = canvas d m x y k" if on: "on_screen_pixel d x y k"
  proof -
    note n = on_screen_offset(1,5) [OF assms(1) on]
    have "unat (pMainFramebufferMemory d + of_nat ?n - pMainFramebufferMemory d) = ?n"
      using unat_u64_of_nat [OF n(2)] by simp
    thus ?thesis using n(1)
      by (simp add: shown_def canvas_def pixel_byte_def m'_def copy_region_def del: of_nat_add of_nat_mult)
  qed
  show "canvas d m' x y k = canvas d m x y k" if on: "on_screen_pixel d x y k"
    using main_apart(2) [OF assms(1) on_screen_offset(1) [OF assms(1) on]]
    by (simp add: canvas_def pixel_byte_def m'_def copy_region_def del: of_nat_add of_nat_mult)
  show "same_outside d m m'" by (simp add: same_outside_def m'_def copy_region_def)
qed

lemma SwapBuffers_shows:
  assumes "gr_inv d m"
  shows "\<exists>d' m'. CpuGrSwapBuffers d m = Some (d', m') \<and> gr_inv d' m' \<and> screen_part d' = screen_part d \<and>
    swapOp d' = SWAP_NONE \<and> same_outside d m m' \<and>
    (\<forall>x y k. on_screen_pixel d x y k \<longrightarrow>
      shown d' m' x y k = canvas d m x y k \<and> canvas d' m' x y k = canvas d m x y k)"
proof -
  note ok = gr_invD [OF assms]
  let ?d = "d\<lparr>swapOp := SWAP_NONE\<rparr>"
  have part: "screen_part ?d = screen_part d" by (simp add: screen_part_def)
  note same = screen_part_facts [OF part]
  have finish: ?thesis if run: "CpuGrSwapBuffers d m = Some (?d, m')" and out: "same_outside d m m'"
    and bytes: "\<And>x y k. on_screen_pixel d x y k \<Longrightarrow>
      shown d m' x y k = canvas d m x y k \<and> canvas d m' x y k = canvas d m x y k" for m'
  proof -
    have "gr_inv ?d m'" using bytes ok(1) by (simp add: gr_inv_def region_ok_def same)
    thus ?thesis using run out bytes part by (intro exI [of _ ?d] exI [of _ m']) (simp add: same)
  qed
  show ?thesis
  proof (cases "swapOp d")
    case SWAP_NONE
    have "on_screen_pixel d x y k \<Longrightarrow> shown d m x y k = canvas d m x y k" for x y k
      using assms SWAP_NONE by (auto simp: gr_inv_def dirty.simps)
    thus ?thesis using SWAP_NONE by (intro finish [of m]) (simp_all add: CpuGrSwapBuffers_def same_outside_def)
  next
    case SWAP_FULL
    let ?m = "copy_region m (pMainFramebufferMemory d) (pRenderFramebufferMemory d) (unat (mainFramebufferSize d))"
    have "memcpy m (pMainFramebufferMemory d) (pRenderFramebufferMemory d) (mainFramebufferSize d) =
        Some (?m, pMainFramebufferMemory d)"
      using ok(1) by (intro memcpy_apart) (simp_all add: screen_ok_def)
    thus ?thesis using SWAP_FULL FullSwap_bytes [OF ok(1)]
      by (intro finish [of ?m]) (simp_all add: CpuGrSwapBuffers_def)
  next
    case SWAP_REGION
    let ?sx = "unat (regionStartX d)" and ?sy = "unat (regionStartY d)"
    let ?w = "unat (regionWidth d)" and ?h = "unat (regionHeight d)"
    have r: "?sx + ?w \<le> unat (presentationWidth d)" "?sy + ?h \<le> unat (presentationHeight d)"
      using ok(2) SWAP_REGION by (simp_all add: region_ok_def)
    obtain m' where m': "copy_rows (pMainFramebufferMemory d + of_nat (?sy * row_bytes d + 4 * ?sx))
        (pRenderFramebufferMemory d + of_nat (?sy * row_bytes d + 4 * ?sx)) (of_nat (row_bytes d))
        (of_nat (4 * ?w)) [0..<?h] m = Some m'" "same_outside d m m'"
      "\<forall>x y k. on_screen_pixel d x y k \<longrightarrow> canvas d m' x y k = canvas d m x y k \<and>
        shown d m' x y k = (if (\<exists>h \<in> set [0..<?h]. y = ?sy + h) \<and> ?sx \<le> x \<and> x < ?sx + ?w
          then canvas d m x y k else shown d m x y k)"
      using copy_rows_run [OF ok(1) r(1), of "[0..<?h]" ?sy m] r(2) by auto
    have rows: "(\<exists>h \<in> set [0..<?h]. y = ?sy + h) \<longleftrightarrow> ?sy \<le> y \<and> y < ?sy + ?h" for y
      by (auto intro!: bexI [of _ "y - ?sy"])
    have "shown d m' x y k = canvas d m x y k" if on: "on_screen_pixel d x y k" for x y k
    proof (cases "dirty d x y")
      case True
      thus ?thesis using m'(3) on rows SWAP_REGION by (simp add: dirty.simps rect_def)
    next
      case False
      hence "shown d m x y k = canvas d m x y k" using assms on by (simp add: gr_inv_def)
      thus ?thesis using m'(3) on by simp
    qed
    moreover have "CpuGrSwapBuffers d m = Some (?d, m')"
    proof (cases "?h = 0")
      case True
      thus ?thesis using m'(1) by (simp add: CpuGrSwapBuffers_def SWAP_REGION Let_def)
    next
      case False
      hence y: "?sy < unat (presentationHeight d)" using r(2) by linarith
      have pb: "presentationPixelBytes d = 4" using ok(1) by (simp add: screen_ok_def)
      have S: "row_bytes d < 2147483648" "unat (presentationWidth d) \<le> unat (presentationPixelStride d)"
        using row_fits(2) [OF ok(1) y] ok(1) by (simp_all add: screen_ok_def)
      have small: "4 * ?w < 4294967296" "4 * ?sx < 4294967296" "row_bytes d < 4294967296"
        using S r(1) by (simp_all add: row_bytes_def)
      have w: "(ucast (regionWidth d * 4) :: u64) = of_nat (4 * ?w)"
        using ucast_mult' [of "regionWidth d" 4] small(1) by (simp add: mult.commute)
      have x: "(ucast (regionStartX d * 4) :: u64) = of_nat (4 * ?sx)"
        using ucast_mult' [of "regionStartX d" 4] small(2) by (simp add: mult.commute)
      have rb: "(ucast (presentationPixelStride d * presentationPixelBytes d) :: u64) = of_nat (row_bytes d)"
        unfolding stride_word [OF ok(1) y] by (rule ucast_of_nat [OF small(3)])
      have off: "base + (ucast (regionStartY d) * of_nat (row_bytes d) + of_nat (4 * ?sx)) =
          base + of_nat (?sy * row_bytes d + 4 * ?sx)" for base :: u64
        by simp
      show ?thesis
        unfolding CpuGrSwapBuffers_def SWAP_REGION swap_op.case Let_def rb unfolding pb w x off m'(1) by simp
    qed
    ultimately show ?thesis using m'(2,3) by (intro finish [of m']) auto
  qed
qed

end
