(* ===== verification/CpuGraphicsDriver.thy ===== *)
theory CpuGraphicsDriver
  imports CpuGraphicsCalls
begin

text \<open>
  The CPU graphics driver behind the interface of graphics drivers: its
  initialisation, the dispatch of the calls, and what a sequence of calls leaves
  on the canvas and on the screen.
\<close>

subsection \<open>Initialisation\<close>

text \<open>
  The mode of the firmware's graphics output protocol, and the results of the two
  allocations (\<open>None\<close> for an error). The driver's data lie in memory that the
  first allocation returns uninitialised: \<open>old\<close> is the format it holds by chance.
\<close>

datatype pixel_format =
    PixelRedGreenBlueReserved8BitPerColor
  | PixelBlueGreenRedReserved8BitPerColor
  | PixelBitMask
  | PixelBltOnly
  | PixelFormatMax

record gop_mode =
  HorizontalResolution :: u32
  VerticalResolution :: u32
  PixelFormat :: pixel_format
  PixelsPerScanLine :: u32
  FrameBufferBase :: u64
  FrameBufferSize :: u64

datatype drv_init_error = DRV_INIT_MEMORY_ERROR | DRV_INIT_UNSUPPORTED_FORMAT

text \<open>The error or the driver, and the list of the pools that were freed.\<close>

definition InitCpuGraphicsDriver ::
  "gop_mode \<Rightarrow> u64 option \<Rightarrow> u64 option \<Rightarrow> fb_format \<Rightarrow> (drv_init_error + gr_drv) \<times> u64 list" where
  "InitCpuGraphicsDriver gop driverMemory backbufferMemory old =
     (if PixelFormat gop = PixelBltOnly \<or> PixelFormat gop = PixelBitMask
      then (Inl DRV_INIT_UNSUPPORTED_FORMAT, [])
      else case driverMemory of
          None \<Rightarrow> (Inl DRV_INIT_MEMORY_ERROR, [])
        | Some pDriverMemory \<Rightarrow>
            (case backbufferMemory of
               None \<Rightarrow> (Inl DRV_INIT_MEMORY_ERROR, [pDriverMemory])
             | Some pBackbufferMemory \<Rightarrow>
                 (Inr \<lparr>presentationWidth = HorizontalResolution gop,
                    presentationHeight = VerticalResolution gop,
                    presentationPixelBytes = 4,
                    presentationPixelStride = PixelsPerScanLine gop,
                    pMainFramebufferMemory = FrameBufferBase gop,
                    mainFramebufferSize = FrameBufferSize gop,
                    pRenderFramebufferMemory = pBackbufferMemory,
                    framebufferFormat = (case PixelFormat gop of
                        PixelRedGreenBlueReserved8BitPerColor \<Rightarrow> FRAMEBUFFER_RGB8_RESERVED8
                      | PixelBlueGreenRedReserved8BitPerColor \<Rightarrow> FRAMEBUFFER_BGR8_RESERVED8
                      | _ \<Rightarrow> old),
                    swapOp = SWAP_NONE, regionStartX = 0, regionStartY = 0,
                    regionWidth = 0, regionHeight = 0\<rparr>, [])))"

subsection \<open>Calls\<close>

text \<open>The function pointers of the driver; \<open>p\<close> is the address of the font image.\<close>

fun run_call :: "(u8 \<Rightarrow> u8 \<Rightarrow> u8 \<Rightarrow> u8) \<Rightarrow> u64 \<Rightarrow> gr_call \<Rightarrow> gr_drv \<times> mem \<Rightarrow> (gr_drv \<times> mem) option" where
  "run_call blend p SwapBuffers (d, m) = CpuGrSwapBuffers d m"
| "run_call blend p (ClearScreen color) (d, m) = Some (CpuGrGraphicsClearScreen d color m)"
| "run_call blend p (ClearScreenRegions regions color) (d, m) =
     Some (CpuGrGraphicsClearScreenRegions d regions color m)"
| "run_call blend p (BlitImageToFramebuffer fmt ix iy stride x y w h) (d, m) =
     Some (CpuGrGraphicsBlitImageToFramebuffer blend d p fmt ix iy stride x y w h m)"

text \<open>What the calls mean for a canvas.\<close>

type_synonym canvas = "nat \<Rightarrow> nat \<Rightarrow> nat \<Rightarrow> u8"

definition channels :: "fb_format \<Rightarrow> gr_color \<Rightarrow> nat \<Rightarrow> u8" where
  "channels fmt c k = (if fmt = FRAMEBUFFER_RGB8_RESERVED8
     then [color_r c, color_g c, color_b c, 0] ! k else [color_b c, color_g c, color_r c, 0] ! k)"

definition image_bytes :: "gr_image_format \<Rightarrow> nat" where
  "image_bytes fmt = (if fmt = IMAGE_FORMAT_RGB8 then 3 else 4)"

definition blit_channels ::
  "(u8 \<Rightarrow> u8 \<Rightarrow> u8 \<Rightarrow> u8) \<Rightarrow> fb_format \<Rightarrow> gr_image_format \<Rightarrow> (nat \<Rightarrow> u8) \<Rightarrow> nat \<Rightarrow> u8 \<Rightarrow> u8" where
  "blit_channels blend fb fmt =
     (if fb = FRAMEBUFFER_RGB8_RESERVED8
      then (if fmt = IMAGE_FORMAT_RGB8 then copy_channels 0 1 2 else blend_channels blend 0 1 2)
      else (if fmt = IMAGE_FORMAT_RGB8 then copy_channels 2 1 0 else blend_channels blend 2 1 0))"

fun paint :: "(u8 \<Rightarrow> u8 \<Rightarrow> u8 \<Rightarrow> u8) \<Rightarrow> gr_drv \<Rightarrow> mem \<Rightarrow> u64 \<Rightarrow> gr_call \<Rightarrow> canvas \<Rightarrow> canvas" where
  "paint blend d m0 p SwapBuffers v = v"
| "paint blend d m0 p (ClearScreen color) v = (\<lambda>x y k.
     if on_screen_pixel d x y k \<and> framebufferFormat d \<noteq> FRAMEBUFFER_FORMAT_Max
     then channels (framebufferFormat d) color k else v x y k)"
| "paint blend d m0 p (ClearScreenRegions regions color) v = (\<lambda>x y k.
     if k < 4 \<and> framebufferFormat d \<noteq> FRAMEBUFFER_FORMAT_Max \<and>
       (\<exists>r \<in> set regions. covered d (reg_x r) (reg_y r) (reg_width (hd regions)) (reg_height (hd regions)) x y)
     then channels (framebufferFormat d) color k else v x y k)"
| "paint blend d m0 p (BlitImageToFramebuffer fmt ix iy stride x0 y0 w h) v = (\<lambda>x y k.
     if k < 4 \<and> framebufferFormat d \<noteq> FRAMEBUFFER_FORMAT_Max \<and> fmt \<noteq> IMAGE_FORMAT_Max \<and>
       covered d x0 y0 w h x y
     then blit_channels blend (framebufferFormat d) fmt
       (image_byte m0 p (image_bytes fmt) (unat stride)
         (nat (int (unat ix) + int x - sint x0)) (nat (int (unat iy) + int y - sint y0))) k (v x y k)
     else v x y k)"

text \<open>What the driver expects: sizes below 2 GiB, and blits inside of the image.\<close>

fun call_ok :: "nat \<Rightarrow> gr_call \<Rightarrow> bool" where
  "call_ok isize (ClearScreenRegions regions color) =
     (regions = [] \<or> unat (reg_width (hd regions)) < 2147483648 \<and> unat (reg_height (hd regions)) < 2147483648)"
| "call_ok isize (BlitImageToFramebuffer fmt ix iy stride x y w h) =
     (blit_args_ok ix iy x y w h \<and> unat stride < 2147483648 \<and>
      blit_ok isize (image_bytes fmt) (unat stride) (unat ix) (unat iy) (unat w) (unat h))"
| "call_ok isize c = True"

subsection \<open>Each call paints\<close>

lemma fill_color_channels:
  "fmt = FRAMEBUFFER_RGB8_RESERVED8 \<Longrightarrow> fill_color (color_r c, color_g c, color_b c) x y k v = channels fmt c k"
  "fmt = FRAMEBUFFER_BGR8_RESERVED8 \<Longrightarrow> fill_color (color_b c, color_g c, color_r c) x y k v = channels fmt c k"
  by (simp_all add: fill_color_def channels_def)

lemma pixel_address_origin: "pixel_address base S 0 0 = base"
  by (simp add: pixel_address_def)

text \<open>
  The result of a call: the invariant, the same screen, the image untouched, and
  the canvas painted.
\<close>

definition painted ::
  "(u8 \<Rightarrow> u8 \<Rightarrow> u8 \<Rightarrow> u8) \<Rightarrow> u64 \<Rightarrow> nat \<Rightarrow> mem \<Rightarrow> gr_drv \<times> mem \<Rightarrow> gr_call \<Rightarrow> gr_drv \<times> mem \<Rightarrow> bool" where
  "painted blend p isize m0 s c s' =
     (gr_inv (fst s') (snd s') \<and> screen_part (fst s') = screen_part (fst s) \<and>
      same_image p isize m0 (snd s') \<and>
      (\<forall>x y k. on_screen_pixel (fst s) x y k \<longrightarrow>
        canvas (fst s') (snd s') x y k = paint blend (fst s) m0 p c (canvas (fst s) (snd s)) x y k))"

lemma ClearScreen_painted:
  fixes m :: mem
  assumes ok: "screen_ok d" and image: "image_ok d p isize" "same_image p isize m0 m"
    and inv: "gr_inv d m \<or> framebufferFormat d \<noteq> FRAMEBUFFER_FORMAT_Max"
  shows "painted blend p isize m0 (d, m) (ClearScreen color) (CpuGrGraphicsClearScreen d color m)"
proof -
  let ?W = "presentationWidth d" and ?H = "presentationHeight d"
  let ?upd = "\<lambda>c. update_pixels (pRenderFramebufferMemory d) (row_bytes d) (rect 0 0 (unat ?W) (unat ?H)) (fill_color c) m"
  have rows: "clear_rows d (pRenderFramebufferMemory d) ?W ?H c m = ?upd c" for c
    using clear_rows_update [OF ok, of 0 ?W 0 ?H c m] by (simp add: pixel_address_origin)
  let ?d = "d\<lparr>swapOp := SWAP_FULL\<rparr>"
  have part: "screen_part ?d = screen_part d" by (simp add: screen_part_def)
  have inv': "gr_inv ?d m'" for m'
    using ok by (simp add: gr_inv_def region_ok_def dirty.simps screen_part_facts [OF part])
  have all: "0 + unat ?W \<le> unat ?W" "0 + unat ?H \<le> unat ?H" by simp_all
  have same: "same_image p isize m0 (?upd c)" for c
    by (rule same_image_update [OF ok image _ all])
  have cv: "canvas d (?upd c) x y k = fill_color c x y k (canvas d m x y k)" if "on_screen_pixel d x y k" for c x y k
    using that canvas_update [OF ok that] by (simp add: rect_def on_screen_pixel_def)
  show ?thesis
    using part inv' same image(2) cv
    by (cases "framebufferFormat d")
      (simp_all add: painted_def CpuGrGraphicsClearScreen_def CpuGrClearScreenRGB_def CpuGrClearScreenBGR_def
        rows fill_color_channels screen_part_facts [OF part])
qed

text \<open>One region, in its visible part.\<close>

lemma clear_region_step_painted:
  fixes m :: mem and color :: gr_color and r :: gr_region
  assumes inv: "gr_inv d m" and image: "image_ok d p isize" "same_image p isize m0 m"
    and small: "unat w0 < 2147483648" "unat h0 < 2147483648"
  defines "s' \<equiv> clear_region_step w0 h0 color r (d, m)"
  shows "gr_inv (fst s') (snd s')" "screen_part (fst s') = screen_part d" "same_image p isize m0 (snd s')"
    "on_screen_pixel d x y k \<Longrightarrow> canvas (fst s') (snd s') x y k =
      (if framebufferFormat d \<noteq> FRAMEBUFFER_FORMAT_Max \<and> covered d (reg_x r) (reg_y r) w0 h0 x y
       then channels (framebufferFormat d) color k else canvas d m x y k)"
proof -
  note ok = gr_invD [OF inv]
  let ?goal = "gr_inv (fst s') (snd s') \<and> screen_part (fst s') = screen_part d \<and>
    same_image p isize m0 (snd s') \<and> (on_screen_pixel d x y k \<longrightarrow> canvas (fst s') (snd s') x y k =
      (if framebufferFormat d \<noteq> FRAMEBUFFER_FORMAT_Max \<and> covered d (reg_x r) (reg_y r) w0 h0 x y
       then channels (framebufferFormat d) color k else canvas d m x y k))"
  have ?goal
  proof (cases "clip_region d r w0 h0")
    case None
    thus ?thesis
      using clip_region_covered [OF ok(1) small, of r] inv image(2)
      by (simp add: s'_def clear_region_step_def)
  next
    case (Some clip)
    obtain sx sy w h where c: "clip = (sx, sy, w, h)" by (cases clip)
    have fits: "unat sx + unat w \<le> unat (presentationWidth d)" "unat sy + unat h \<le> unat (presentationHeight d)"
      "unat sx < unat (presentationWidth d)" "unat sy < unat (presentationHeight d)"
      and cov: "\<And>x y. rect (unat sx) (unat sy) (unat w) (unat h) x y \<longleftrightarrow> covered d (reg_x r) (reg_y r) w0 h0 x y"
      using clip_region_covered [OF ok(1) small, of r] Some c by simp_all
    let ?d = "MarkScreenRegionForSwapping d sx sy w h"
    have part: "screen_part ?d = screen_part d" by (rule MarkScreenRegion_part)
    note geo = screen_part_facts [OF part] screen_partD [OF part]
    have off: "region_offset ?d sx sy = pixel_address (pRenderFramebufferMemory d) (row_bytes d) (unat sx) (unat sy)"
      using region_offset_pixel [of ?d sx sy] ok(1) fits by (simp only: geo)
    let ?upd = "\<lambda>c. update_pixels (pRenderFramebufferMemory d) (row_bytes d)
      (rect (unat sx) (unat sy) (unat w) (unat h)) (fill_color c) m"
    have rows: "clear_rows ?d (region_offset ?d sx sy) w h c m = ?upd c" for c
      unfolding off using clear_rows_update [of ?d "unat sx" w "unat sy" h c m] ok(1) fits(1,2) by (simp only: geo)
    have same: "same_image p isize m0 (?upd c)" for c
      by (rule same_image_update [OF ok(1) image _ fits(1,2)]) simp
    note draw = draw_rect [OF inv fits(1,2)]
    show ?thesis
    proof (cases "framebufferFormat d")
      case FRAMEBUFFER_RGB8_RESERVED8
      thus ?thesis using draw same
        by (simp add: s'_def clear_region_step_def Some c Let_def geo CpuGrClearScreenRegionRGB_def rows
            fill_color_channels cov)
    next
      case FRAMEBUFFER_BGR8_RESERVED8
      thus ?thesis using draw same
        by (simp add: s'_def clear_region_step_def Some c Let_def geo CpuGrClearScreenRegionBGR_def rows
            fill_color_channels cov)
    next
      case FRAMEBUFFER_FORMAT_Max
      have "update_pixels (pRenderFramebufferMemory d) (row_bytes d)
          (rect (unat sx) (unat sy) (unat w) (unat h)) (\<lambda>x y k v. v) m = m"
        by (simp add: update_pixels_def fun_eq_iff Let_def)
      hence "gr_inv ?d m" using draw(1) [of "\<lambda>x y k v. v"] by simp
      thus ?thesis using part image(2) FRAMEBUFFER_FORMAT_Max
        by (simp add: s'_def clear_region_step_def Some c Let_def geo)
    qed
  qed
  thus "gr_inv (fst s') (snd s')" "screen_part (fst s') = screen_part d" "same_image p isize m0 (snd s')"
    "on_screen_pixel d x y k \<Longrightarrow> canvas (fst s') (snd s') x y k =
      (if framebufferFormat d \<noteq> FRAMEBUFFER_FORMAT_Max \<and> covered d (reg_x r) (reg_y r) w0 h0 x y
       then channels (framebufferFormat d) color k else canvas d m x y k)"
    by blast+
qed

lemma clear_regions_painted:
  fixes m :: mem
  assumes "gr_inv d m" "image_ok d p isize" "same_image p isize m0 m"
    and small: "unat w0 < 2147483648" "unat h0 < 2147483648"
  shows "\<exists>d' m'. fold (clear_region_step w0 h0 color) regions (d, m) = (d', m') \<and>
    gr_inv d' m' \<and> screen_part d' = screen_part d \<and> same_image p isize m0 m' \<and>
    (\<forall>x y k. on_screen_pixel d x y k \<longrightarrow> canvas d' m' x y k =
      (if framebufferFormat d \<noteq> FRAMEBUFFER_FORMAT_Max \<and>
         (\<exists>r \<in> set regions. covered d (reg_x r) (reg_y r) w0 h0 x y)
       then channels (framebufferFormat d) color k else canvas d m x y k))"
  using assms(1-3)
proof (induction regions arbitrary: d m)
  case Nil
  thus ?case by simp
next
  case (Cons r regions)
  obtain d1 m1 where s1: "clear_region_step w0 h0 color r (d, m) = (d1, m1)" by fastforce
  note step = clear_region_step_painted [OF Cons.prems small, where color = color and r = r, unfolded s1 fst_conv snd_conv]
  note geo = screen_part_facts [OF step(2)] screen_partD [OF step(2)]
  have image: "image_ok d1 p isize" using Cons.prems(2) by (simp add: image_ok_def geo)
  have cov: "covered d1 = covered d" by (simp add: covered_def fun_eq_iff geo)
  obtain d' m' where d': "fold (clear_region_step w0 h0 color) regions (d1, m1) = (d', m')"
    "gr_inv d' m'" "screen_part d' = screen_part d1" "same_image p isize m0 m'"
    "\<forall>x y k. on_screen_pixel d x y k \<longrightarrow> canvas d' m' x y k =
      (if framebufferFormat d \<noteq> FRAMEBUFFER_FORMAT_Max \<and>
         (\<exists>r \<in> set regions. covered d (reg_x r) (reg_y r) w0 h0 x y)
       then channels (framebufferFormat d) color k else canvas d1 m1 x y k)"
    using Cons.IH [OF step(1) image step(3)] unfolding geo cov by blast
  have "fold (clear_region_step w0 h0 color) (r # regions) (d, m) = (d', m')" using s1 d'(1) by simp
  thus ?case using d'(2-5) step(2,4) by (intro exI [of _ d'] exI [of _ m']) auto
qed

lemma ClearScreenRegions_painted:
  fixes m :: mem
  assumes "gr_inv d m" "image_ok d p isize" "same_image p isize m0 m"
    "call_ok isize (ClearScreenRegions regions color)"
  shows "painted blend p isize m0 (d, m) (ClearScreenRegions regions color)
    (CpuGrGraphicsClearScreenRegions d regions color m)"
proof (cases regions)
  case Nil
  thus ?thesis using assms by (simp add: painted_def CpuGrGraphicsClearScreenRegions_def)
next
  case (Cons r0 rs)
  hence small: "unat (reg_width r0) < 2147483648" "unat (reg_height r0) < 2147483648"
    using assms(4) by simp_all
  obtain d' m' where "CpuGrGraphicsClearScreenRegions d regions color m = (d', m')"
    "gr_inv d' m'" "screen_part d' = screen_part d" "same_image p isize m0 m'"
    "\<forall>x y k. on_screen_pixel d x y k \<longrightarrow> canvas d' m' x y k =
      (if framebufferFormat d \<noteq> FRAMEBUFFER_FORMAT_Max \<and>
         (\<exists>r \<in> set regions. covered d (reg_x r) (reg_y r) (reg_width r0) (reg_height r0) x y)
       then channels (framebufferFormat d) color k else canvas d m x y k)"
    using clear_regions_painted [OF assms(1-3) small, of color regions]
    by (auto simp: CpuGrGraphicsClearScreenRegions_def Cons)
  thus ?thesis by (simp add: painted_def Cons on_screen_pixel_def)
qed

subsection \<open>Blits paint\<close>

lemma blit_channels_cong:
  assumes "\<And>b. b < image_bytes fmt \<Longrightarrow> img b = img' b" "fmt \<noteq> IMAGE_FORMAT_Max"
  shows "blit_channels blend fb fmt img c v = blit_channels blend fb fmt img' c v"
  using assms by (cases fmt) (simp_all add: blit_channels_def copy_channels_def blend_channels_def image_bytes_def)

text \<open>The function that the driver chooses for the two formats.\<close>

definition blit_pixel ::
  "(u8 \<Rightarrow> u8 \<Rightarrow> u8 \<Rightarrow> u8) \<Rightarrow> fb_format \<Rightarrow> gr_image_format \<Rightarrow> u64 \<Rightarrow> u64 \<Rightarrow> mem \<Rightarrow> mem" where
  "blit_pixel blend fb fmt =
     (if fb = FRAMEBUFFER_RGB8_RESERVED8
      then (if fmt = IMAGE_FORMAT_RGB8 then copy_pixel 0 1 2 else blend_pixel blend 0 1 2)
      else (if fmt = IMAGE_FORMAT_RGB8 then copy_pixel 2 1 0 else blend_pixel blend 2 1 0))"

lemma blit_pixel_law: "pixel_law (image_bytes fmt) (blit_pixel blend fb fmt) (blit_channels blend fb fmt)"
  using copy_pixel_law [of 0 1 2] copy_pixel_law [of 2 1 0] blend_pixel_law [of 0 1 2 blend]
    blend_pixel_law [of 2 1 0 blend]
  by (simp add: blit_pixel_def blit_channels_def image_bytes_def)

definition image_bytes_word :: "gr_image_format \<Rightarrow> u32" where
  "image_bytes_word fmt = (if fmt = IMAGE_FORMAT_RGB8 then 3 else 4)"

lemma Blit_loop:
  assumes "clip_blit d ix iy x y w h = Some (px, py, sx, sy, cw, ch)"
    "framebufferFormat d \<noteq> FRAMEBUFFER_FORMAT_Max" "fmt \<noteq> IMAGE_FORMAT_Max"
  shows "CpuGrGraphicsBlitImageToFramebuffer blend d p fmt ix iy stride x y w h m =
    (let d' = MarkScreenRegionForSwapping d sx sy cw ch in
     (d', blit_loop (image_bytes_word fmt) (blit_pixel blend (framebufferFormat d) fmt) p
       (pRenderFramebufferMemory d) px py stride sx sy (presentationPixelStride d * 4) cw ch m))"
  using assms screen_partD [OF MarkScreenRegion_part [of d sx sy cw ch]]
  by (cases fmt; cases "framebufferFormat d")
    (simp_all add: CpuGrGraphicsBlitImageToFramebuffer_def Let_def blit_pixel_def image_bytes_word_def
      CpuGrGraphicsBlitRGB8ToRGB8R_def CpuGrGraphicsBlitRGBA8ToRGB8R_def CpuGrGraphicsBlitRGB8ToBGR8R_def
      CpuGrGraphicsBlitRGBA8ToBGR8R_def)

lemma mark_only_painted:
  fixes m :: mem
  assumes "gr_inv d m" "unat sx + unat w \<le> unat (presentationWidth d)"
    "unat sy + unat h \<le> unat (presentationHeight d)"
  shows "gr_inv (MarkScreenRegionForSwapping d sx sy w h) m"
proof -
  have "update_pixels (pRenderFramebufferMemory d) (row_bytes d)
      (rect (unat sx) (unat sy) (unat w) (unat h)) (\<lambda>x y k v. v) m = m"
    by (simp add: update_pixels_def fun_eq_iff Let_def)
  thus ?thesis using draw_rect(1) [OF assms, of "\<lambda>x y k v. v"] by simp
qed

lemma blit_ok_clipped:
  assumes "blit_ok isize n stride ix iy w h" "px + cw \<le> ix + w" "py + ch \<le> iy + h"
  shows "blit_ok isize n stride px py cw ch"
proof -
  have "n * (px + cw) \<le> n * (ix + w)" using assms(2) by (rule mult_left_mono) simp
  moreover have "(py + ch) * stride \<le> (iy + h) * stride" using assms(3) by (rule mult_right_mono) simp
  ultimately show ?thesis using assms(1) unfolding blit_ok_def by linarith
qed

lemma Blit_painted:
  fixes m :: mem
  assumes inv: "gr_inv d m" and image: "image_ok d p isize" "same_image p isize m0 m"
    and ok: "call_ok isize (BlitImageToFramebuffer fmt ix iy stride x0 y0 w h)"
  shows "painted blend p isize m0 (d, m) (BlitImageToFramebuffer fmt ix iy stride x0 y0 w h)
    (CpuGrGraphicsBlitImageToFramebuffer blend d p fmt ix iy stride x0 y0 w h m)"
proof (cases "clip_blit d ix iy x0 y0 w h")
  case None
  thus ?thesis
    using clip_blit_covered [OF gr_invD(1) [OF inv], of ix iy x0 y0 w h] ok inv image(2)
    by (simp add: painted_def CpuGrGraphicsBlitImageToFramebuffer_def)
next
  case (Some clip)
  obtain px py sx sy cw ch where c: "clip = (px, py, sx, sy, cw, ch)" by (cases clip)
  have fits: "unat sx + unat cw \<le> unat (presentationWidth d)" "unat sy + unat ch \<le> unat (presentationHeight d)"
    and img: "int (unat px) - int (unat ix) = int (unat sx) - sint x0"
      "int (unat py) - int (unat iy) = int (unat sy) - sint y0"
      "unat px + unat cw \<le> unat ix + unat w" "unat py + unat ch \<le> unat iy + unat h"
    and cov: "\<And>x y. rect (unat sx) (unat sy) (unat cw) (unat ch) x y \<longleftrightarrow> covered d x0 y0 w h x y"
    using clip_blit_covered [OF gr_invD(1) [OF inv], of ix iy x0 y0 w h] ok Some c by simp_all
  let ?d = "MarkScreenRegionForSwapping d sx sy cw ch"
  have part: "screen_part ?d = screen_part d" by (rule MarkScreenRegion_part)
  note geo = screen_part_facts [OF part] screen_partD [OF part]
  show ?thesis
  proof (cases "framebufferFormat d = FRAMEBUFFER_FORMAT_Max \<or> fmt = IMAGE_FORMAT_Max")
    case True
    have "CpuGrGraphicsBlitImageToFramebuffer blend d p fmt ix iy stride x0 y0 w h m = (?d, m)"
      using True Some c
      by (cases "framebufferFormat d") (auto simp: CpuGrGraphicsBlitImageToFramebuffer_def Let_def geo)
    thus ?thesis using True mark_only_painted [OF inv fits] part image(2) by (auto simp: painted_def geo)
  next
    case False
    let ?n = "image_bytes fmt" and ?g = "blit_channels blend (framebufferFormat d) fmt"
    have n: "unat (image_bytes_word fmt) = ?n" by (simp add: image_bytes_word_def image_bytes_def)
    have bok: "blit_ok isize ?n (unat stride) (unat px) (unat py) (unat cw) (unat ch)"
      using ok by (intro blit_ok_clipped [OF _ img(3,4)]) (simp only: call_ok.simps)
    let ?f = "blit_value ?g m p ?n (unat stride) (unat px) (unat py) (unat sx) (unat sy)"
    let ?m = "update_pixels (pRenderFramebufferMemory d) (row_bytes d)
      (rect (unat sx) (unat sy) (unat cw) (unat ch)) ?f m"
    have "blit_loop (image_bytes_word fmt) (blit_pixel blend (framebufferFormat d) fmt) p
        (pRenderFramebufferMemory d) px py stride sx sy (presentationPixelStride d * 4) cw ch m = ?m"
    proof (rule blit_loop_update [OF gr_invD(1) [OF inv] image(1), of "image_bytes_word fmt" stride px py cw ch
          "blit_pixel blend (framebufferFormat d) fmt" ?g sx sy m, unfolded n])
      show "?g img c v = ?g img' c v" if "\<And>b. b < ?n \<Longrightarrow> img b = img' b" for img img' c v
        using False by (intro blit_channels_cong that) simp_all
      show "unat stride < 2147483648" using ok by simp
    qed (rule bok blit_pixel_law fits)+
    hence run: "CpuGrGraphicsBlitImageToFramebuffer blend d p fmt ix iy stride x0 y0 w h m = (?d, ?m)"
      using Blit_loop [OF Some [unfolded c], of fmt blend p stride m] False by (simp add: Let_def)
    have same: "same_image p isize m0 ?m"
      by (rule same_image_update [OF gr_invD(1) [OF inv] image _ fits])
    have vals: "?f x y k v = ?g (image_byte m0 p ?n (unat stride)
        (nat (int (unat ix) + int x - sint x0)) (nat (int (unat iy) + int y - sint y0))) k v"
      if r: "rect (unat sx) (unat sy) (unat cw) (unat ch) x y" for x y k v
    proof -
      have pos: "nat (int (unat ix) + int x - sint x0) = unat px + (x - unat sx)"
        "nat (int (unat iy) + int y - sint y0) = unat py + (y - unat sy)"
        using r img(1,2) by (auto simp: rect_def simp del: of_nat_unat)
      have in_rect: "x - unat sx < unat cw" "y - unat sy < unat ch" using r by (auto simp: rect_def)
      show ?thesis unfolding blit_value_def pos
      proof (rule blit_channels_cong)
        fix b
        assume "b < ?n"
        from image_bounds [OF bok in_rect this] show
          "image_byte m p ?n (unat stride) (unat px + (x - unat sx)) (unat py + (y - unat sy)) b =
           image_byte m0 p ?n (unat stride) (unat px + (x - unat sx)) (unat py + (y - unat sy)) b"
          using image(2) unfolding same_image_def image_byte_def by blast
      qed (use False in simp)
    qed
    note draw = draw_rect (1,3) [OF inv fits, where f = ?f]
    show ?thesis
      unfolding run painted_def fst_conv snd_conv
    proof (intro conjI allI impI)
      fix x y k
      assume on: "on_screen_pixel d x y k"
      show "canvas ?d ?m x y k = paint blend d m0 p (BlitImageToFramebuffer fmt ix iy stride x0 y0 w h) (canvas d m) x y k"
        unfolding draw(2) [OF on] using vals [of x y k] on False
        by (simp add: cov [symmetric] on_screen_pixel_def)
    qed (use draw(1) part same in simp_all)
  qed
qed

subsection \<open>The interface\<close>

fun run_all :: "('c \<Rightarrow> 's \<Rightarrow> 's option) \<Rightarrow> 'c list \<Rightarrow> 's \<Rightarrow> 's option" where
  "run_all run [] s = Some s"
| "run_all run (c # cs) s = Option.bind (run c s) (run_all run cs)"

lemma run_all_append: "run_all run (cs @ ds) s = Option.bind (run_all run cs s) (run_all run ds)"
  by (induction cs arbitrary: s) (auto split: bind_split)

text \<open>
  What a client relies on: every legal call returns, keeps the driver's invariant
  and has its effect on the picture; after \<open>swap\<close> the picture is displayed.
\<close>

locale graphics_driver =
  fixes good :: "'s \<Rightarrow> bool"
    and legal :: "'c \<Rightarrow> bool"
    and run :: "'c \<Rightarrow> 's \<Rightarrow> 's option"
    and picture :: "'s \<Rightarrow> 'v"
    and displayed :: "'s \<Rightarrow> 'v"
    and effect :: "'c \<Rightarrow> 'v \<Rightarrow> 'v"
    and swap :: 'c
  assumes call: "good s \<Longrightarrow> legal c \<Longrightarrow>
      \<exists>s'. run c s = Some s' \<and> good s' \<and> picture s' = effect c (picture s)"
    and legal_swap: "legal swap"
    and swap_effect: "effect swap (picture s) = picture s"
    and display: "good s \<Longrightarrow> run swap s = Some s' \<Longrightarrow> displayed s' = picture s'"
begin

lemma run_all_effect:
  "good s \<Longrightarrow> \<forall>c \<in> set cs. legal c \<Longrightarrow>
    \<exists>s'. run_all run cs s = Some s' \<and> good s' \<and> picture s' = fold effect cs (picture s)"
proof (induction cs arbitrary: s)
  case (Cons c cs)
  then obtain s1 where "run c s = Some s1" "good s1" "picture s1 = effect c (picture s)"
    using call [of s c] by auto
  thus ?case using Cons.IH [of s1] Cons.prems by simp
qed simp

lemma run_all_display:
  assumes "good s" "\<forall>c \<in> set cs. legal c"
  shows "\<exists>s'. run_all run (cs @ [swap]) s = Some s' \<and> good s' \<and>
    picture s' = fold effect cs (picture s) \<and> displayed s' = fold effect cs (picture s)"
proof -
  obtain s1 where s1: "run_all run cs s = Some s1" "good s1" "picture s1 = fold effect cs (picture s)"
    using run_all_effect [OF assms] by blast
  obtain s' where s': "run swap s1 = Some s'" "good s'" "picture s' = picture s1"
    using call [OF s1(2) legal_swap] swap_effect by fastforce
  thus ?thesis using s1 display [OF s1(2) s'(1)] by (simp add: run_all_append)
qed

end

subsection \<open>The CPU driver provides it\<close>

text \<open>The font image lies outside of both frame buffers.\<close>

definition image_apart :: "gr_drv \<Rightarrow> u64 \<Rightarrow> nat \<Rightarrow> bool" where
  "image_apart d p isize = (image_ok d p isize \<and>
     (\<forall>b < isize. unat (mainFramebufferSize d) \<le> unat (p + of_nat b - pMainFramebufferMemory d)))"

lemma same_image_outside:
  assumes "image_apart d p isize" "same_outside d m m'" "same_image p isize m0 m"
  shows "same_image p isize m0 m'"
  using assms by (simp add: same_image_def image_apart_def same_outside_def)

lemma run_call_painted:
  fixes m :: mem
  assumes "gr_inv d m" "image_apart d p isize" "same_image p isize m0 m" "call_ok isize c"
  shows "\<exists>s'. run_call blend p c (d, m) = Some s' \<and> painted blend p isize m0 (d, m) c s'"
proof -
  have image: "image_ok d p isize" using assms(2) by (simp add: image_apart_def)
  show ?thesis
  proof (cases c)
    case SwapBuffers
    obtain d' m' where r: "CpuGrSwapBuffers d m = Some (d', m')" "gr_inv d' m'"
      "screen_part d' = screen_part d" "same_outside d m m'"
      "\<forall>x y k. on_screen_pixel d x y k \<longrightarrow> canvas d' m' x y k = canvas d m x y k"
      using SwapBuffers_shows [OF assms(1)] by blast
    thus ?thesis using SwapBuffers same_image_outside [OF assms(2) r(4) assms(3)]
      by (simp add: painted_def)
  next
    case (ClearScreen color)
    thus ?thesis using ClearScreen_painted [OF gr_invD(1) [OF assms(1)] image assms(3)] assms(1) by simp
  next
    case (ClearScreenRegions regions color)
    thus ?thesis using ClearScreenRegions_painted [OF assms(1) image assms(3)] assms(4) by simp
  next
    case (BlitImageToFramebuffer fmt ix iy stride x y w h)
    thus ?thesis using Blit_painted [OF assms(1) image assms(3)] assms(4) by simp
  qed
qed

text \<open>A picture is a canvas on the visible pixels.\<close>

definition visible :: "gr_drv \<Rightarrow> canvas \<Rightarrow> canvas" where
  "visible d v = (\<lambda>x y k. if on_screen_pixel d x y k then v x y k else 0)"

lemma visible_cong: "(\<And>x y k. on_screen_pixel d x y k \<Longrightarrow> v x y k = w x y k) \<Longrightarrow> visible d v = visible d w"
  by (simp add: visible_def fun_eq_iff)

lemma visible_on: "on_screen_pixel d x y k \<Longrightarrow> visible d v x y k = v x y k"
  by (simp add: visible_def)

lemma paint_visible: "visible d (paint blend d m0 p c (visible d v)) = visible d (paint blend d m0 p c v)"
  by (rule visible_cong, cases c) (auto simp: visible_def)

lemma fold_paint_visible:
  "fold (\<lambda>c v. visible d (paint blend d m0 p c v)) cs (visible d v) = visible d (fold (paint blend d m0 p) cs v)"
  by (induction cs arbitrary: v) (simp_all add: paint_visible)

lemma same_screen:
  assumes "screen_part d = screen_part d'"
  shows "paint blend d m0 p c = paint blend d' m0 p c" "visible d = visible d'"
    "image_apart d p isize = image_apart d' p isize" "on_screen_pixel d = on_screen_pixel d'"
proof -
  note geo = screen_part_facts [OF assms] screen_partD [OF assms]
  have cov: "covered d = covered d'" by (simp add: covered_def fun_eq_iff geo)
  show "paint blend d m0 p c = paint blend d' m0 p c"
    by (cases c) (auto simp: fun_eq_iff geo cov)
  show "visible d = visible d'" "image_apart d p isize = image_apart d' p isize"
    "on_screen_pixel d = on_screen_pixel d'"
    by (simp_all add: fun_eq_iff visible_def image_apart_def image_ok_def geo)
qed

definition gr_good :: "gr_drv \<Rightarrow> mem \<Rightarrow> u64 \<Rightarrow> nat \<Rightarrow> gr_drv \<times> mem \<Rightarrow> bool" where
  "gr_good D m0 p isize s = (gr_inv (fst s) (snd s) \<and> screen_part (fst s) = screen_part D \<and>
     image_apart D p isize \<and> same_image p isize m0 (snd s))"

lemma gr_good_call:
  assumes "gr_good D m0 p isize s" "painted blend p isize m0 s c s'"
  shows "gr_good D m0 p isize s'"
    "visible D (canvas (fst s') (snd s')) = visible D (paint blend D m0 p c (visible D (canvas (fst s) (snd s))))"
proof -
  have part: "screen_part (fst s) = screen_part D" using assms(1) by (simp add: gr_good_def)
  show "gr_good D m0 p isize s'" using assms by (simp add: gr_good_def painted_def)
  show "visible D (canvas (fst s') (snd s')) = visible D (paint blend D m0 p c (visible D (canvas (fst s) (snd s))))"
    unfolding paint_visible using assms(2)
    by (intro visible_cong) (simp add: painted_def same_screen [OF part])
qed

interpretation cpu: graphics_driver "gr_good D m0 p isize" "call_ok isize" "run_call blend p"
    "\<lambda>s. visible D (canvas (fst s) (snd s))" "\<lambda>s. visible D (shown (fst s) (snd s))"
    "\<lambda>c v. visible D (paint blend D m0 p c v)" SwapBuffers
  for D m0 p isize blend
proof
  fix s c
  assume good: "gr_good D m0 p isize s" and legal: "call_ok isize c"
  obtain d m where s: "s = (d, m)" by fastforce
  have "gr_inv d m" "image_apart d p isize" "same_image p isize m0 m"
    using good same_screen(3) [of d D] by (simp_all add: gr_good_def s)
  then obtain s' where "run_call blend p c s = Some s'" "painted blend p isize m0 s c s'"
    using run_call_painted [OF _ _ _ legal] s by blast
  thus "\<exists>s'. run_call blend p c s = Some s' \<and> gr_good D m0 p isize s' \<and>
      visible D (canvas (fst s') (snd s')) = visible D (paint blend D m0 p c (visible D (canvas (fst s) (snd s))))"
    using gr_good_call [OF good] by blast
next
  fix s s'
  assume good: "gr_good D m0 p isize s" and run: "run_call blend p SwapBuffers s = Some s'"
  obtain d m where s: "s = (d, m)" by fastforce
  have part: "screen_part d = screen_part D" and inv: "gr_inv d m" using good by (simp_all add: gr_good_def s)
  show "visible D (shown (fst s') (snd s')) = visible D (canvas (fst s') (snd s'))"
    using SwapBuffers_shows [OF inv] run
    by (intro visible_cong) (auto simp: s same_screen [OF part])
qed (simp_all add: visible_def fun_eq_iff)

text \<open>
  C9: The picture on the screen. After a successful initialisation and a first
  clear, whatever calls the kernel makes with regions and blits in range, they all
  return, and swapping then leaves on every visible pixel of the frame buffer
  exactly what the sequence of calls paints.
\<close>

theorem graphics_calls_shown:
  fixes m :: mem
  assumes init: "InitCpuGraphicsDriver gop (Some pDriver) (Some pBackbuffer) old = (Inr d, freed)"
    and screen: "screen_ok d" "framebufferFormat d \<noteq> FRAMEBUFFER_FORMAT_Max"
    and image: "image_apart d p isize" and legal: "\<forall>c \<in> set calls. call_ok isize c"
  shows "\<exists>d' m'. run_all (run_call blend p) (ClearScreen color # calls @ [SwapBuffers]) (d, m) = Some (d', m') \<and>
    (\<forall>x y k. on_screen_pixel d x y k \<longrightarrow>
      shown d' m' x y k = fold (paint blend d m p) (ClearScreen color # calls) (canvas d m) x y k)"
proof -
  obtain s1 where s1: "run_call blend p (ClearScreen color) (d, m) = Some s1"
    "painted blend p isize m (d, m) (ClearScreen color) s1"
    using ClearScreen_painted [OF screen(1), of p isize m m] screen(2) image
    by (simp add: image_apart_def same_image_def)
  let ?P = "paint blend d m p"
  have good: "gr_good d m p isize s1" using s1(2) image by (simp add: gr_good_def painted_def)
  have pic: "visible d (canvas (fst s1) (snd s1)) = visible d (?P (ClearScreen color) (canvas d m))"
    using s1(2) by (intro visible_cong) (simp add: painted_def)
  obtain s' where s': "run_all (run_call blend p) (calls @ [SwapBuffers]) s1 = Some s'" "gr_good d m p isize s'"
    "visible d (shown (fst s') (snd s')) = fold (\<lambda>c v. visible d (?P c v)) calls (visible d (canvas (fst s1) (snd s1)))"
    using cpu.run_all_display [OF good legal, of blend] by blast
  have "visible d (shown (fst s') (snd s')) = visible d (fold ?P (ClearScreen color # calls) (canvas d m))"
    using s'(3) by (simp add: pic fold_paint_visible)
  hence "shown (fst s') (snd s') x y k = fold ?P (ClearScreen color # calls) (canvas d m) x y k"
    if "on_screen_pixel d x y k" for x y k
    using visible_on [OF that] by metis
  thus ?thesis using s1(1) s'(1) by (intro exI [of _ "fst s'"] exI [of _ "snd s'"]) simp
qed

text \<open>A screen of one pixel, cleared in red, then in part in blue.\<close>

lemma graphics_calls_shown_witness:
  "\<exists>d d' m'. fst (InitCpuGraphicsDriver \<lparr>HorizontalResolution = 1, VerticalResolution = 1,
      PixelFormat = PixelBlueGreenRedReserved8BitPerColor, PixelsPerScanLine = 1,
      FrameBufferBase = 0x1000, FrameBufferSize = 4\<rparr> (Some 0x3000) (Some 0x2000) FRAMEBUFFER_FORMAT_Max) = Inr d \<and>
    run_all (run_call (\<lambda>a s t. s) 0) [ClearScreen \<lparr>color_r = 255, color_g = 0, color_b = 0\<rparr>,
      ClearScreenRegions [\<lparr>reg_x = 0, reg_y = 0, reg_width = 1, reg_height = 1\<rparr>]
        \<lparr>color_r = 0, color_g = 0, color_b = 255\<rparr>, SwapBuffers] (d, \<lambda>_. 7) = Some (d', m') \<and>
    shown d' m' 0 0 0 = 255 \<and> shown d' m' 0 0 2 = 0"
proof -
  let ?gop = "\<lparr>HorizontalResolution = 1, VerticalResolution = 1,
      PixelFormat = PixelBlueGreenRedReserved8BitPerColor, PixelsPerScanLine = 1,
      FrameBufferBase = 0x1000, FrameBufferSize = 4\<rparr>"
  let ?d = "\<lparr>presentationWidth = 1, presentationHeight = 1, presentationPixelBytes = 4,
      presentationPixelStride = 1, pMainFramebufferMemory = 0x1000, mainFramebufferSize = 4,
      pRenderFramebufferMemory = 0x2000, framebufferFormat = FRAMEBUFFER_BGR8_RESERVED8,
      swapOp = SWAP_NONE, regionStartX = 0, regionStartY = 0, regionWidth = 0, regionHeight = 0\<rparr>"
  let ?calls = "[ClearScreenRegions [\<lparr>reg_x = 0, reg_y = 0, reg_width = 1, reg_height = 1\<rparr>]
        \<lparr>color_r = 0, color_g = 0, color_b = 255\<rparr>]"
  have init: "InitCpuGraphicsDriver ?gop (Some 0x3000) (Some 0x2000) FRAMEBUFFER_FORMAT_Max = (Inr ?d, [])"
    by (simp add: InitCpuGraphicsDriver_def)
  have "\<exists>d' m'. run_all (run_call (\<lambda>a s t. s) 0)
      (ClearScreen \<lparr>color_r = 255, color_g = 0, color_b = 0\<rparr> # ?calls @ [SwapBuffers]) (?d, \<lambda>_. 7) = Some (d', m') \<and>
    (\<forall>x y k. on_screen_pixel ?d x y k \<longrightarrow> shown d' m' x y k =
      fold (paint (\<lambda>a s t. s) ?d (\<lambda>_. 7) 0)
        (ClearScreen \<lparr>color_r = 255, color_g = 0, color_b = 0\<rparr> # ?calls) (canvas ?d (\<lambda>_. 7)) x y k)"
    by (rule graphics_calls_shown [OF init, of 0 0])
      (simp_all add: screen_ok_def row_bytes_def image_apart_def image_ok_def)
  then obtain d' m' where r: "run_all (run_call (\<lambda>a s t. s) 0)
      (ClearScreen \<lparr>color_r = 255, color_g = 0, color_b = 0\<rparr> # ?calls @ [SwapBuffers]) (?d, \<lambda>_. 7) = Some (d', m')"
    "\<forall>x y k. on_screen_pixel ?d x y k \<longrightarrow> shown d' m' x y k =
      fold (paint (\<lambda>a s t. s) ?d (\<lambda>_. 7) 0)
        (ClearScreen \<lparr>color_r = 255, color_g = 0, color_b = 0\<rparr> # ?calls) (canvas ?d (\<lambda>_. 7)) x y k"
    by blast
  have "on_screen_pixel ?d 0 0 0" "on_screen_pixel ?d 0 0 2" by (simp_all add: on_screen_pixel_def)
  hence "shown d' m' 0 0 0 = 255" "shown d' m' 0 0 2 = 0"
    using r(2) by (simp_all add: covered_def channels_def on_screen_pixel_def)
  thus ?thesis using init r(1) by (intro exI [of _ ?d] exI [of _ d'] exI [of _ m']) simp
qed

end
