(* ===== verification/CpuTables.thy ===== *)
theory CpuTables
  imports Machine "HOL-Library.Monad_Syntax"
begin

text \<open>
  The tables that the kernel builds in memory for the processor
  (src/src/Kernel/x86_64): the Task State Segments (\<open>TaskStateSegment.c\<close>) and the
  General Descriptor Table (\<open>GdtCreator.c\<close>, \<open>GdtSetup.c\<close>).

  \<^item> Every table is stated twice: by the code's encoder, and by the decoder that
    the processor's manual documents (\<open>tss_stack\<close>, \<open>cpu_mem_segment\<close>,
    \<open>cpu_system_segment\<close>). The properties are round trips between the two.
  \<^item> A static array is a list of its words; an access outside of it makes the
    operation return \<open>None\<close>.
  \<^item> The assembly routine \<open>DexprOS_LoadGDT\<close> is not part of the model: what the
    kernel passes to it is a component of the result.
\<close>

subsection \<open>Bit fields\<close>

definition bit_field :: "nat \<Rightarrow> nat \<Rightarrow> u64 \<Rightarrow> u64" where
  "bit_field lo n w = take_bit n (drop_bit lo w)"

lemma bit_bit_field: "bit (bit_field lo n w) k = (k < n \<and> bit w (lo + k))"
  by (auto simp: bit_field_def bit_simps)

lemmas field_bits = bit_bit_field bit_simps bit_mask_iff

subsection \<open>Task State Segments\<close>

record task_state =
  rsp0 :: u64
  rsp1 :: u64
  rsp2 :: u64
  ist1 :: u64
  ist2 :: u64
  ist3 :: u64
  ist4 :: u64
  ist5 :: u64
  ist6 :: u64
  ist7 :: u64
  iopb :: u16

definition NUM_MAX_TSSes :: nat where
  "NUM_MAX_TSSes = 1"

definition low16 :: "u64 \<Rightarrow> u32" where
  "low16 v = ucast (v AND 0xFFFF)"

definition high16 :: "u64 \<Rightarrow> u32" where
  "high16 v = ucast (drop_bit 32 v AND 0xFFFF)"

definition encode_task_state :: "nat \<Rightarrow> task_state \<Rightarrow> u32 list \<Rightarrow> u32 list" where
  "encode_task_state i t st = st
     [i * 26 + 1 := low16 (rsp0 t), i * 26 + 2 := high16 (rsp0 t),
      i * 26 + 3 := low16 (rsp1 t), i * 26 + 4 := high16 (rsp1 t),
      i * 26 + 5 := low16 (rsp2 t), i * 26 + 6 := high16 (rsp2 t),
      i * 26 + 9 := low16 (ist1 t), i * 26 + 10 := high16 (ist1 t),
      i * 26 + 11 := low16 (ist2 t), i * 26 + 12 := high16 (ist2 t),
      i * 26 + 13 := low16 (ist3 t), i * 26 + 14 := high16 (ist3 t),
      i * 26 + 15 := low16 (ist4 t), i * 26 + 16 := high16 (ist4 t),
      i * 26 + 17 := low16 (ist5 t), i * 26 + 18 := high16 (ist5 t),
      i * 26 + 19 := low16 (ist6 t), i * 26 + 20 := high16 (ist6 t),
      i * 26 + 21 := low16 (ist7 t), i * 26 + 22 := low16 (ist7 t),
      i * 26 + 25 := push_bit 16 (ucast (iopb t))]"

text \<open>
  The outputs \<open>*pOutLoadedTSSAddresses\<close> and \<open>*pOutLoadedTSSSizes\<close> keep what the
  caller had in them when no segment is set up. \<open>base\<close> is the address of the
  static array \<open>g_DexprOS_TSSStorage\<close>.
\<close>

definition SetupTaskStateSegments ::
  "u64 \<Rightarrow> (nat \<Rightarrow> task_state) \<Rightarrow> u64 \<Rightarrow> u16 \<Rightarrow> u16 \<Rightarrow> u32 list \<times> u64 \<times> u16" where
  "SetupTaskStateSegments base pTSSes outAddress outSize numTSSes =
     fold (\<lambda>i (st, addr, sz). (encode_task_state i (pTSSes i) st, base + 4 * of_nat (i * 26), 4 * 26))
       [0..<min (unat numTSSes) NUM_MAX_TSSes]
       (replicate (NUM_MAX_TSSes * 26) 0, outAddress, outSize)"

text \<open>
  What the processor reads: a 64-bit stack pointer is stored as two consecutive
  32-bit words, the low half first.
\<close>

definition tss_stack :: "u32 list \<Rightarrow> nat \<Rightarrow> u64" where
  "tss_stack st k = ucast (st ! k) OR push_bit 32 (ucast (st ! (k + 1)))"

definition tss_stacks :: "u32 list \<Rightarrow> u64 list" where
  "tss_stacks st = [tss_stack st 1, tss_stack st 3, tss_stack st 5, tss_stack st 9,
     tss_stack st 11, tss_stack st 13, tss_stack st 15, tss_stack st 17, tss_stack st 19, tss_stack st 21]"

definition stacks_of :: "task_state \<Rightarrow> u64 list" where
  "stacks_of t = [rsp0 t, rsp1 t, rsp2 t, ist1 t, ist2 t, ist3 t, ist4 t, ist5 t, ist6 t, ist7 t]"

lemma halves16:
  "(ucast (low16 v) :: u64) OR push_bit 32 (ucast (high16 v)) = v AND 0x0000FFFF0000FFFF"
proof (rule bit_word_eqI)
  fix n assume n: "n < LENGTH(64)"
  have m: "(0xFFFF :: u64) = mask 16" "(0x0000FFFF0000FFFF :: u64) = mask 16 OR push_bit 32 (mask 16)"
    by (simp_all add: mask_eq_exp_minus_1 push_bit_eq_mult)
  show "bit ((ucast (low16 v) :: u64) OR push_bit 32 (ucast (high16 v))) n = bit (v AND 0x0000FFFF0000FFFF) n"
    unfolding low16_def high16_def m using n by (auto simp: bit_simps)
qed

lemma halves16_ist7:
  "(ucast (low16 v) :: u64) OR push_bit 32 (ucast (low16 v)) = take_bit 16 v OR push_bit 32 (take_bit 16 v)"
proof (rule bit_word_eqI)
  fix n assume n: "n < LENGTH(64)"
  have m: "(0xFFFF :: u64) = mask 16"
    by (simp add: mask_eq_exp_minus_1)
  show "bit ((ucast (low16 v) :: u64) OR push_bit 32 (ucast (low16 v))) n =
        bit (take_bit 16 v OR push_bit 32 (take_bit 16 v)) n"
    unfolding low16_def m using n by (auto simp: bit_simps)
qed

text \<open>
  (truncated stack pointers) Setting up at least one task state segment
  stores, for each of the stacks \<open>rsp0\<close>..\<open>rsp2\<close> and \<open>ist1\<close>..\<open>ist6\<close>, a pointer
  of which the processor reads back bits 0..15 and 32..47 only: bits 16..31 and
  48..63 are lost, because both halves are masked with 0xFFFF where 0xFFFFFFFF is
  meant. \<open>ist7\<close> reads back its low 16 bits in both halves. The reported address
  and size are those of the segment, and the I/O map base is kept.
\<close>

theorem SetupTaskStateSegments_stacks:
  assumes "0 < numTSSes"
  shows "case SetupTaskStateSegments base pTSSes outAddress outSize numTSSes of (st, addr, sz) \<Rightarrow>
           addr = base \<and> sz = 104 \<and> length st = 26 \<and>
           tss_stacks st = map (\<lambda>v. v AND 0x0000FFFF0000FFFF) (butlast (stacks_of (pTSSes 0))) @
             [take_bit 16 (ist7 (pTSSes 0)) OR push_bit 32 (take_bit 16 (ist7 (pTSSes 0)))] \<and>
           drop_bit 16 (st ! 25) = ucast (iopb (pTSSes 0))"
proof -
  have "0 < unat numTSSes" using assms by (simp add: word_less_nat_alt)
  hence "min (unat numTSSes) NUM_MAX_TSSes = 1" by (simp add: NUM_MAX_TSSes_def)
  hence one: "[0..<min (unat numTSSes) NUM_MAX_TSSes] = [0]" by simp
  have io: "drop_bit 16 (push_bit 16 (ucast x :: u32)) = ucast (x :: u16)" for x
    by (rule bit_word_eqI) (auto simp: bit_simps dest: bit_imp_le_length)
  show ?thesis
    unfolding SetupTaskStateSegments_def one
    by (simp add: encode_task_state_def NUM_MAX_TSSes_def tss_stacks_def tss_stack_def stacks_of_def
        halves16 halves16_ist7 io del: push_bit_numeral)
qed

lemma SetupTaskStateSegments_stacks_witness:
  "case SetupTaskStateSegments 0x1000 (\<lambda>_. \<lparr>rsp0 = 0x12345678, rsp1 = 0, rsp2 = 0, ist1 = 0x1234, ist2 = 0,
       ist3 = 0, ist4 = 0, ist5 = 0, ist6 = 0, ist7 = 0, iopb = 104\<rparr>) 0 0 1 of
     (st, addr, sz) \<Rightarrow> addr = 0x1000 \<and> tss_stacks st = [0x5678, 0, 0, 0x1234, 0, 0, 0, 0, 0, 0]"
  using SetupTaskStateSegments_stacks [of 1 "0x1000" "\<lambda>_. \<lparr>rsp0 = 0x12345678, rsp1 = 0, rsp2 = 0,
     ist1 = 0x1234, ist2 = 0, ist3 = 0, ist4 = 0, ist5 = 0, ist6 = 0, ist7 = 0, iopb = 104\<rparr>" 0 0]
  by (auto simp: stacks_of_def split: prod.splits)

subsection \<open>Segment descriptors\<close>

record mem_segment =
  seg_base :: u32
  seg_limit :: u32
  seg_accessByte :: u8
  seg_flags :: u8

record system_segment =
  sys_base :: u64
  sys_limit :: u32
  sys_accessByte :: u8
  sys_flags :: u8

definition EncodeGDTMemorySegment :: "mem_segment \<Rightarrow> u64" where
  "EncodeGDTMemorySegment d =
     (let b = ucast (seg_base d); l = ucast (seg_limit d); acc = ucast (seg_accessByte d); fl = ucast (seg_flags d) in
      (l AND 0xFFFF) OR
      push_bit 16 (b AND 0xFFFF) OR
      push_bit 32 (drop_bit 16 b AND 0xFF) OR
      push_bit 40 acc OR
      push_bit 48 (drop_bit 16 l AND 0xF) OR
      push_bit 52 (fl AND 0xF) OR
      push_bit 56 (drop_bit 24 b AND 0xFF))"

definition EncodeGDTSystemSegment :: "system_segment \<Rightarrow> u64 \<times> u64" where
  "EncodeGDTSystemSegment d =
     (let b = sys_base d; l = ucast (sys_limit d); acc = ucast (sys_accessByte d); fl = ucast (sys_flags d) in
      ((l AND 0xFFFF) OR
       push_bit 16 (b AND 0xFFFF) OR
       push_bit 32 (drop_bit 16 b AND 0xFF) OR
       push_bit 40 acc OR
       push_bit 48 (drop_bit 16 l AND 0xF) OR
       push_bit 52 (fl AND 0xF) OR
       push_bit 56 (drop_bit 24 b AND 0xFF),
       drop_bit 32 b AND 0xFFFFFFFF))"

text \<open>The processor's reading of a descriptor, field by field.\<close>

definition cpu_mem_segment :: "u64 \<Rightarrow> mem_segment" where
  "cpu_mem_segment e =
     \<lparr>seg_base = ucast (bit_field 16 24 e OR push_bit 24 (bit_field 56 8 e)),
      seg_limit = ucast (bit_field 0 16 e OR push_bit 16 (bit_field 48 4 e)),
      seg_accessByte = ucast (bit_field 40 8 e),
      seg_flags = ucast (bit_field 52 4 e)\<rparr>"

definition cpu_system_segment :: "u64 \<Rightarrow> u64 \<Rightarrow> system_segment" where
  "cpu_system_segment e h =
     \<lparr>sys_base = bit_field 16 24 e OR push_bit 24 (bit_field 56 8 e) OR push_bit 32 (bit_field 0 32 h),
      sys_limit = ucast (bit_field 0 16 e OR push_bit 16 (bit_field 48 4 e)),
      sys_accessByte = ucast (bit_field 40 8 e),
      sys_flags = ucast (bit_field 52 4 e)\<rparr>"

lemma gdt_masks:
  "(0xFFFF :: u64) = mask 16" "(0xFF :: u64) = mask 8" "(0xF :: u64) = mask 4" "(0xFFFFFFFF :: u64) = mask 32"
  by (simp_all add: mask_eq_exp_minus_1)

lemma segment_fields:
  fixes b l acc fl :: u64
  defines "e \<equiv> (l AND 0xFFFF) OR push_bit 16 (b AND 0xFFFF) OR push_bit 32 (drop_bit 16 b AND 0xFF) OR
     push_bit 40 acc OR push_bit 48 (drop_bit 16 l AND 0xF) OR push_bit 52 (fl AND 0xF) OR
     push_bit 56 (drop_bit 24 b AND 0xFF)"
  assumes acc: "take_bit 8 acc = acc"
  shows "bit_field 16 24 e = take_bit 24 b" "bit_field 56 8 e = bit_field 24 8 b"
    "bit_field 0 16 e = take_bit 16 l" "bit_field 48 4 e = bit_field 16 4 l"
    "bit_field 40 8 e = acc" "bit_field 52 4 e = take_bit 4 fl"
proof -
  have small: "bit acc k \<Longrightarrow> k < 8" for k
    using acc by (metis bit_take_bit_iff)
  have e: "bit e k = (if k < 16 then bit l k else if k < 40 then bit b (k - 16)
     else if k < 48 then bit acc (k - 40) else if k < 52 then bit l (k - 32)
     else if k < 56 then bit fl (k - 52) else k < 64 \<and> bit b (k - 32))" for k
    unfolding e_def gdt_masks
    by (cases "k < 32") (auto simp: bit_simps dest: small bit_imp_le_length)
  show "bit_field 16 24 e = take_bit 24 b" "bit_field 56 8 e = bit_field 24 8 b"
    "bit_field 0 16 e = take_bit 16 l" "bit_field 48 4 e = bit_field 16 4 l"
    "bit_field 40 8 e = acc" "bit_field 52 4 e = take_bit 4 fl"
    by (rule bit_word_eqI, auto simp: bit_bit_field bit_take_bit_iff e dest: small)+
qed


lemma cpu_mem_segment_encode:
  "cpu_mem_segment (EncodeGDTMemorySegment d) =
     d\<lparr>seg_limit := take_bit 20 (seg_limit d), seg_flags := take_bit 4 (seg_flags d)\<rparr>"
proof -
  have acc: "take_bit 8 (ucast (seg_accessByte d) :: u64) = ucast (seg_accessByte d)"
    by (rule bit_word_eqI) (auto simp: bit_simps dest: bit_imp_le_length)
  have b: "(ucast (take_bit 24 (ucast x :: u64) OR push_bit 24 (bit_field 24 8 (ucast x))) :: u32) = x" for x :: u32
    by (rule bit_word_eqI) (auto simp: field_bits)
  have l: "(ucast (take_bit 16 (ucast x :: u64) OR push_bit 16 (bit_field 16 4 (ucast x))) :: u32) = take_bit 20 x" for x :: u32
    by (rule bit_word_eqI) (auto simp: field_bits)
  have a: "(ucast (ucast x :: u64) :: u8) = x" and f: "(ucast (take_bit 4 (ucast x :: u64)) :: u8) = take_bit 4 x" for x
    by (rule bit_word_eqI, auto simp: bit_simps)+
  show ?thesis
    unfolding cpu_mem_segment_def EncodeGDTMemorySegment_def Let_def segment_fields [OF acc] b l a f by simp
qed

lemma cpu_system_segment_encode:
  "(case EncodeGDTSystemSegment d of (e, h) \<Rightarrow> cpu_system_segment e h) =
     d\<lparr>sys_limit := take_bit 20 (sys_limit d), sys_flags := take_bit 4 (sys_flags d)\<rparr>"
proof -
  have acc: "take_bit 8 (ucast (sys_accessByte d) :: u64) = ucast (sys_accessByte d)"
    by (rule bit_word_eqI) (auto simp: bit_simps dest: bit_imp_le_length)
  have b: "take_bit 24 x OR push_bit 24 (bit_field 24 8 x) OR
      push_bit 32 (bit_field 0 32 (drop_bit 32 x AND 0xFFFFFFFF)) = x" for x :: u64
    unfolding gdt_masks by (rule bit_word_eqI) (auto simp: field_bits)
  have l: "(ucast (take_bit 16 (ucast x :: u64) OR push_bit 16 (bit_field 16 4 (ucast x))) :: u32) = take_bit 20 x" for x :: u32
    by (rule bit_word_eqI) (auto simp: field_bits)
  have a: "(ucast (ucast x :: u64) :: u8) = x" and f: "(ucast (take_bit 4 (ucast x :: u64)) :: u8) = take_bit 4 x" for x
    by (rule bit_word_eqI, auto simp: bit_simps)+
  show ?thesis
    unfolding cpu_system_segment_def EncodeGDTSystemSegment_def Let_def prod.case segment_fields [OF acc] b l a f by simp
qed

text \<open>
  (descriptor round trips) The processor reads back from an encoded memory or
  system segment exactly the base, access byte, limit and flags of the
  descriptor, the limit modulo 2^20 and the flags modulo 2^4.
\<close>

theorem segment_encoding_roundtrip:
  "cpu_mem_segment (EncodeGDTMemorySegment d) =
     d\<lparr>seg_limit := take_bit 20 (seg_limit d), seg_flags := take_bit 4 (seg_flags d)\<rparr> \<and>
   (case EncodeGDTSystemSegment s of (e, h) \<Rightarrow> cpu_system_segment e h) =
     s\<lparr>sys_limit := take_bit 20 (sys_limit s), sys_flags := take_bit 4 (sys_flags s)\<rparr>"
  by (intro conjI cpu_mem_segment_encode cpu_system_segment_encode)

subsection \<open>The General Descriptor Table\<close>

definition GDT_ACCESS_DATA_WRITABLE :: u8 where "GDT_ACCESS_DATA_WRITABLE = 0x2"
definition GDT_ACCESS_CODE_READABLE :: u8 where "GDT_ACCESS_CODE_READABLE = 0x2"
definition GDT_ACCESS_EXECUTABLE :: u8 where "GDT_ACCESS_EXECUTABLE = 0x8"
definition GDT_ACCESS_AVAIBLE_TSS :: u8 where "GDT_ACCESS_AVAIBLE_TSS = 0x9"
definition GDT_ACCESS_CODE_OR_DATA :: u8 where "GDT_ACCESS_CODE_OR_DATA = 0x10"
definition GDT_ACCESS_USERSPACE :: u8 where "GDT_ACCESS_USERSPACE = 0x60"
definition GDT_ACCESS_PRESENT :: u8 where "GDT_ACCESS_PRESENT = 0x80"
definition GDT_FLAG_LONG_MODE :: u8 where "GDT_FLAG_LONG_MODE = 0x2"
definition GDT_FLAG_32BIT :: u8 where "GDT_FLAG_32BIT = 0x4"
definition GDT_FLAG_PAGE_GRANULITY :: u8 where "GDT_FLAG_PAGE_GRANULITY = 0x8"

lemmas gdt_bits = GDT_ACCESS_DATA_WRITABLE_def GDT_ACCESS_CODE_READABLE_def GDT_ACCESS_EXECUTABLE_def
  GDT_ACCESS_AVAIBLE_TSS_def GDT_ACCESS_CODE_OR_DATA_def GDT_ACCESS_USERSPACE_def GDT_ACCESS_PRESENT_def
  GDT_FLAG_LONG_MODE_def GDT_FLAG_32BIT_def GDT_FLAG_PAGE_GRANULITY_def

record gdt_table =
  nullDescriptor0 :: mem_segment
  kernelCodeSegment :: mem_segment
  kernelDataSegment :: mem_segment
  nullDescriptor1 :: mem_segment
  userDataSegment :: mem_segment
  userCodeSegment :: mem_segment
  taskStateSegments :: "system_segment list"
  gdt_numTSSes :: u16

definition null_segment :: mem_segment where
  "null_segment = \<lparr>seg_base = 0, seg_limit = 0, seg_accessByte = 0, seg_flags = 0\<rparr>"

definition tss_segment :: "u64 \<Rightarrow> u16 \<Rightarrow> system_segment" where
  "tss_segment addr sz = \<lparr>sys_base = addr, sys_limit = ucast sz - 1,
     sys_accessByte = GDT_ACCESS_AVAIBLE_TSS OR GDT_ACCESS_PRESENT, sys_flags = 0\<rparr>"

definition CreateGDT :: "(nat \<Rightarrow> u64) \<Rightarrow> (nat \<Rightarrow> u16) \<Rightarrow> u16 \<Rightarrow> gdt_table" where
  "CreateGDT pTSSAddresses pTSSSizes n =
     \<lparr>nullDescriptor0 = null_segment,
      kernelCodeSegment = \<lparr>seg_base = 0, seg_limit = 0xFFFFF,
        seg_accessByte = GDT_ACCESS_CODE_READABLE OR GDT_ACCESS_EXECUTABLE OR
          GDT_ACCESS_CODE_OR_DATA OR GDT_ACCESS_PRESENT,
        seg_flags = GDT_FLAG_LONG_MODE OR GDT_FLAG_PAGE_GRANULITY\<rparr>,
      kernelDataSegment = \<lparr>seg_base = 0, seg_limit = 0xFFFFF,
        seg_accessByte = GDT_ACCESS_DATA_WRITABLE OR GDT_ACCESS_CODE_OR_DATA OR GDT_ACCESS_PRESENT,
        seg_flags = GDT_FLAG_32BIT OR GDT_FLAG_PAGE_GRANULITY\<rparr>,
      nullDescriptor1 = null_segment,
      userDataSegment = \<lparr>seg_base = 0, seg_limit = 0xFFFFF,
        seg_accessByte = GDT_ACCESS_DATA_WRITABLE OR GDT_ACCESS_CODE_OR_DATA OR
          GDT_ACCESS_USERSPACE OR GDT_ACCESS_PRESENT,
        seg_flags = GDT_FLAG_32BIT OR GDT_FLAG_PAGE_GRANULITY\<rparr>,
      userCodeSegment = \<lparr>seg_base = 0, seg_limit = 0xFFFFF,
        seg_accessByte = GDT_ACCESS_CODE_READABLE OR GDT_ACCESS_EXECUTABLE OR GDT_ACCESS_CODE_OR_DATA OR
          GDT_ACCESS_USERSPACE OR GDT_ACCESS_PRESENT,
        seg_flags = GDT_FLAG_LONG_MODE OR GDT_FLAG_PAGE_GRANULITY\<rparr>,
      taskStateSegments =
        fold (\<lambda>i ts. ts[i := tss_segment (pTSSAddresses i) (pTSSSizes i)])
          [0..<min (unat n) NUM_MAX_TSSes]
          (replicate NUM_MAX_TSSes \<lparr>sys_base = 0, sys_limit = 0, sys_accessByte = 0, sys_flags = 0\<rparr>),
      gdt_numTSSes = n\<rparr>"

definition MAX_GDT_ENTRIES :: nat where
  "MAX_GDT_ENTRIES = 6 + NUM_MAX_TSSes * 2"

text \<open>The loop over the task state segments runs to \<open>numTSSes\<close>, also past the arrays' ends.\<close>

definition encode_tss_entry :: "gdt_table \<Rightarrow> nat \<Rightarrow> u64 list \<Rightarrow> u64 list option" where
  "encode_tss_entry g i es =
     (if i < NUM_MAX_TSSes
      then case EncodeGDTSystemSegment (taskStateSegments g ! i) of
             (e, h) \<Rightarrow> Some (es[6 + i * 2 := e, 7 + i * 2 := h])
      else None)"

record gdt_encoding =
  ge_entries :: "u64 list"
  ge_numUsedEntries :: u64
  ge_kernelCode :: u16
  ge_kernelData :: u64
  ge_userBase :: u16
  ge_tssOffsets :: "nat \<Rightarrow> u16"

definition EncodeGDTTable :: "gdt_table \<Rightarrow> (nat \<Rightarrow> u16) \<Rightarrow> gdt_encoding option" where
  "EncodeGDTTable g offs =
     do {
       let zeros = replicate MAX_GDT_ENTRIES 0;
       let six = zeros[0 := EncodeGDTMemorySegment (nullDescriptor0 g),
                       1 := EncodeGDTMemorySegment (kernelCodeSegment g),
                       2 := EncodeGDTMemorySegment (kernelDataSegment g),
                       3 := EncodeGDTMemorySegment (nullDescriptor1 g),
                       4 := EncodeGDTMemorySegment (userDataSegment g),
                       5 := EncodeGDTMemorySegment (userCodeSegment g)];
       es \<leftarrow> fold (\<lambda>i r. Option.bind r (encode_tss_entry g i)) [0..<unat (gdt_numTSSes g)] (Some six);
       Some \<lparr>ge_entries = es, ge_numUsedEntries = 6 + ucast (gdt_numTSSes g) * 2,
             ge_kernelCode = 8, ge_kernelData = 8 * 2, ge_userBase = 8 * 3,
             ge_tssOffsets = fold (\<lambda>i f. f(i := of_nat (8 * (6 + i * 2)))) [0..<unat (gdt_numTSSes g)] offs\<rparr>
     }"

record gdt_location =
  gl_size :: u16
  gl_offset :: u64

definition FillGDTLocation :: "u64 \<Rightarrow> u64 \<Rightarrow> gdt_location" where
  "FillGDTLocation gdtAddress numGdtEntries =
     \<lparr>gl_size = ucast (8 * numGdtEntries - 1), gl_offset = gdtAddress\<rparr>"

text \<open>
  \<open>SetupGDT\<close> returns the stored entries, the arguments of \<open>DexprOS_LoadGDT\<close> (the
  table's location, the code and data selectors and the task selector) and its
  three outputs.
\<close>

definition SetupGDT ::
  "u64 \<Rightarrow> (nat \<Rightarrow> u64) \<Rightarrow> (nat \<Rightarrow> u16) \<Rightarrow> u16 \<Rightarrow> (nat \<Rightarrow> u16) \<Rightarrow>
   (u64 list \<times> (gdt_location \<times> u16 \<times> u64 \<times> u16) \<times> u16 \<times> u16 \<times> (nat \<Rightarrow> u16)) option" where
  "SetupGDT gdtAddress pTSSAddresses pTSSSizes n pOutTSSSegmentOffsets =
     do {
       r \<leftarrow> EncodeGDTTable (CreateGDT pTSSAddresses pTSSSizes n) pOutTSSSegmentOffsets;
       Some (ge_entries r,
             (FillGDTLocation gdtAddress (ge_numUsedEntries r), ge_kernelCode r, ge_kernelData r,
              ge_tssOffsets r 0),
             ge_kernelCode r, ge_userBase r, ge_tssOffsets r)
     }"

lemma encode_tss_entries_oob:
  "NUM_MAX_TSSes < n \<Longrightarrow>
     fold (\<lambda>i r. Option.bind r (encode_tss_entry g i)) [0..<n] (Some es) = None"
proof -
  assume n: "NUM_MAX_TSSes < n"
  hence split: "[0..<n] = [0..<NUM_MAX_TSSes] @ NUM_MAX_TSSes # [Suc NUM_MAX_TSSes..<n]"
    by (metis less_imp_le_nat upt_add_eq_append upt_conv_Cons le0 add_0 le_add_diff_inverse)
  have none: "fold (\<lambda>i r. Option.bind r (encode_tss_entry g i)) xs None = None" for xs
    by (induction xs) auto
  have oob: "Option.bind r (encode_tss_entry g NUM_MAX_TSSes) = None" for r
    by (cases r) (auto simp: encode_tss_entry_def)
  show ?thesis unfolding split by (simp add: none oob)
qed

lemma SetupGDT_layout:
  "case SetupGDT gdtAddress addrs sizes n offs of
     None \<Rightarrow> 1 < n
   | Some (es, (loc, code, dat, task), outCode, outUser, outOffs) \<Rightarrow>
       n \<le> 1 \<and> loc = \<lparr>gl_size = 8 * (6 + 2 * n) - 1, gl_offset = gdtAddress\<rparr> \<and>
       length es = 8 \<and> es ! 0 = 0 \<and> outCode = code \<and>
       cpu_mem_segment (es ! (unat code div 8)) =
         \<lparr>seg_base = 0, seg_limit = 0xFFFFF, seg_accessByte = 0x9A, seg_flags = 0xA\<rparr> \<and>
       cpu_mem_segment (es ! (unat dat div 8)) =
         \<lparr>seg_base = 0, seg_limit = 0xFFFFF, seg_accessByte = 0x92, seg_flags = 0xC\<rparr> \<and>
       cpu_mem_segment (es ! (unat (outUser + 8) div 8)) =
         \<lparr>seg_base = 0, seg_limit = 0xFFFFF, seg_accessByte = 0xF2, seg_flags = 0xC\<rparr> \<and>
       cpu_mem_segment (es ! (unat (outUser + 16) div 8)) =
         \<lparr>seg_base = 0, seg_limit = 0xFFFFF, seg_accessByte = 0xFA, seg_flags = 0xA\<rparr> \<and>
       (if n = 0 then task = offs 0 \<and> outOffs = offs
        else task = outOffs 0 \<and>
          cpu_system_segment (es ! (unat task div 8)) (es ! (unat task div 8 + 1)) =
            \<lparr>sys_base = addrs 0, sys_limit = take_bit 20 (ucast (sizes 0) - 1),
             sys_accessByte = 0x89, sys_flags = 0\<rparr>)"
proof -
  have null: "EncodeGDTMemorySegment null_segment = 0"
    by (simp add: EncodeGDTMemorySegment_def null_segment_def)
  have sys: "cpu_system_segment e h = s\<lparr>sys_limit := take_bit 20 (sys_limit s), sys_flags := take_bit 4 (sys_flags s)\<rparr>"
    if "EncodeGDTSystemSegment s = (e, h)" for s e h
    using cpu_system_segment_encode [of s] that by simp
  consider "n = 0" | "n = 1" | "1 < n"
    by (metis linorder_less_linear word_less_1)
  then show ?thesis
  proof cases
    case 3
    hence "NUM_MAX_TSSes < unat n" by (simp add: word_less_nat_alt NUM_MAX_TSSes_def)
    thus ?thesis using 3
      by (simp add: SetupGDT_def EncodeGDTTable_def CreateGDT_def encode_tss_entries_oob)
  next
    case 1
    show ?thesis unfolding 1
      by (simp add: SetupGDT_def EncodeGDTTable_def CreateGDT_def FillGDTLocation_def MAX_GDT_ENTRIES_def
          NUM_MAX_TSSes_def cpu_mem_segment_encode null gdt_bits)
  next
    case 2
    obtain e h where "EncodeGDTSystemSegment (tss_segment (addrs 0) (sizes 0)) = (e, h)" by fastforce
    hence eh: "EncodeGDTSystemSegment \<lparr>sys_base = addrs 0, sys_limit = ucast (sizes 0) - 1,
        sys_accessByte = 137, sys_flags = 0\<rparr> = (e, h)"
      by (simp add: tss_segment_def gdt_bits)
    show ?thesis unfolding 2
      by (simp add: SetupGDT_def EncodeGDTTable_def CreateGDT_def FillGDTLocation_def MAX_GDT_ENTRIES_def
          NUM_MAX_TSSes_def cpu_mem_segment_encode null gdt_bits encode_tss_entry_def tss_segment_def eh sys [OF eh])
  qed
qed

text \<open>
  C25: (the loaded GDT) With one task state segment, the loaded table has eight
  entries and its limit is 63; the loaded code and data selectors select a
  64-bit ring 0 code segment and a writable ring 0 data segment that span all of
  memory, the user base selector is followed by the ring 3 data and code
  segments in the order that \<open>sysret\<close> expects, and the loaded task selector
  selects an available TSS with the given address and with the given size less
  one as its limit. Without task state segments the task selector is what the
  caller's array held; with more than one the encoder leaves its arrays.
\<close>

theorem SetupGDT_correct:
  "case SetupGDT gdtAddress addrs sizes n offs of
     None \<Rightarrow> 1 < n
   | Some (es, (loc, code, dat, task), outCode, outUser, outOffs) \<Rightarrow>
       n \<le> 1 \<and> loc = \<lparr>gl_size = 8 * (6 + 2 * n) - 1, gl_offset = gdtAddress\<rparr> \<and>
       length es = 8 \<and> es ! 0 = 0 \<and> outCode = code \<and>
       cpu_mem_segment (es ! (unat code div 8)) =
         \<lparr>seg_base = 0, seg_limit = 0xFFFFF, seg_accessByte = 0x9A, seg_flags = 0xA\<rparr> \<and>
       cpu_mem_segment (es ! (unat dat div 8)) =
         \<lparr>seg_base = 0, seg_limit = 0xFFFFF, seg_accessByte = 0x92, seg_flags = 0xC\<rparr> \<and>
       cpu_mem_segment (es ! (unat (outUser + 8) div 8)) =
         \<lparr>seg_base = 0, seg_limit = 0xFFFFF, seg_accessByte = 0xF2, seg_flags = 0xC\<rparr> \<and>
       cpu_mem_segment (es ! (unat (outUser + 16) div 8)) =
         \<lparr>seg_base = 0, seg_limit = 0xFFFFF, seg_accessByte = 0xFA, seg_flags = 0xA\<rparr> \<and>
       (if n = 0 then task = offs 0 \<and> outOffs = offs
        else task = outOffs 0 \<and>
          cpu_system_segment (es ! (unat task div 8)) (es ! (unat task div 8 + 1)) =
            \<lparr>sys_base = addrs 0, sys_limit = take_bit 20 (ucast (sizes 0) - 1),
             sys_accessByte = 0x89, sys_flags = 0\<rparr>)"
  by (rule SetupGDT_layout)

end
