(* ===== verification/Interrupts.thy ===== *)
theory Interrupts
  imports CpuTables GraphicsDriver "HOL-Library.Monad_Syntax"
begin

text \<open>
  Interrupts (src/src/Kernel/x86_64/IdtCreator.c and InterruptHandlers.c,
  src/src/Kernel/KernelPanic.c, src/src/Drivers/PICDriver.c): the Interrupt
  Descriptor Table, the handlers behind its gates, the kernel panic and the two
  interrupt controllers.

  \<^item> Effects on the machine are lists of \<open>event\<close>s in program order. The call of the
    keyboard driver is the event \<open>ProcessPS2KeyboardInterrupt\<close>; \<open>GraphicsCall p\<close> is a call of
    the graphics driver at the address \<open>p\<close>.
  \<^item> A result \<open>None\<close> is an access outside of an array or through the null pointer.
  \<^item> An interrupt service routine of \<open>Interrupts.S\<close> saves the registers, calls the
    C handler of its name and returns from the interrupt; its entry address is
    the parameter \<open>isr_address\<close>. \<open>HandleInterrupt\<close> gives the events of the C
    handler that the routine calls.
\<close>

subsection \<open>Events, the interrupt controllers and the kernel panic\<close>

datatype event =
    Outb u8 u16
  | DisableInterrupts
  | GraphicsCall u64 gr_call
  | KernelPanicHaltMachine
  | ProcessPS2KeyboardInterrupt

definition PIC_IOWAIT :: event where
  "PIC_IOWAIT = Outb 0 0x80"

definition InitialisePIC :: "u8 \<Rightarrow> u8 \<Rightarrow> event list" where
  "InitialisePIC int0Offset int1Offset =
     [Outb 0x11 0x20, PIC_IOWAIT,
      Outb 0x11 0xA0, PIC_IOWAIT,
      Outb int0Offset 0x21, PIC_IOWAIT,
      Outb int1Offset 0xA1, PIC_IOWAIT,
      Outb 0x4 0x21, PIC_IOWAIT,
      Outb 0x2 0xA1, PIC_IOWAIT,
      Outb 0x01 0x21, PIC_IOWAIT,
      Outb 0x01 0xA1, PIC_IOWAIT,
      Outb 0x0 0x21,
      Outb 0x0 0xA1]"

definition PIC_SendEOI :: "u8 \<Rightarrow> event list" where
  "PIC_SendEOI irqNumber = (if irqNumber > 7 then [Outb 0x20 0xA0] else []) @ [Outb 0x20 0x20]"

text \<open>\<open>g_kernelErrorPrintFunc\<close> is \<open>None\<close> until \<open>SetupKernelErrorPrintFunction\<close> sets it.\<close>

type_synonym error_print = "(string \<Rightarrow> event list option) option"

definition SetupKernelErrorPrintFunction :: "(string \<Rightarrow> event list option) \<Rightarrow> error_print" where
  "SetupKernelErrorPrintFunction func = Some func"

definition KernelPanic :: "error_print \<Rightarrow> string \<Rightarrow> event list option" where
  "KernelPanic g_kernelErrorPrintFunc textReason =
     do { printed \<leftarrow> (case g_kernelErrorPrintFunc of None \<Rightarrow> Some [] | Some func \<Rightarrow> func textReason);
          Some ([DisableInterrupts] @ printed @ [KernelPanicHaltMachine]) }"

subsection \<open>Interrupt service routines and their handlers\<close>

datatype isr =
    ISR_DivisionError
  | ISR_Debug
  | ISR_NMI
  | ISR_Breakpoint
  | ISR_Overflow
  | ISR_BoundRangeExceeded
  | ISR_InvalidOpcode
  | ISR_DeviceNotAvaible
  | ISR_DoubleFault
  | ISR_InvalidTSS
  | ISR_SegmentNotPresent
  | ISR_StackSegmentFault
  | ISR_GeneralProtectionFault
  | ISR_PageFault
  | ISR_x87FloatingPointException
  | ISR_AlignmentCheck
  | ISR_MachineCheck
  | ISR_SIMDException
  | ISR_VirtualizationException
  | ISR_ControlProtectionException
  | ISR_HypervisorInjectionException
  | ISR_VMMCommunicationException
  | ISR_SecurityException
  | ISR_ISA_PIT
  | ISR_ISA_Keyboard
  | ISR_ISA_Stub
  | ISR_ISA_COM2
  | ISR_ISA_COM1
  | ISR_ISA_LPT2
  | ISR_ISA_FloppyDisk
  | ISR_ISA_LPT1_Spurious
  | ISR_ISA_CMOSClock
  | ISR_ISA_Peripherals0
  | ISR_ISA_Peripherals1
  | ISR_ISA_Peripherals2
  | ISR_ISA_PS2Mouse
  | ISR_ISA_FPU
  | ISR_ISA_PrimaryATAHardDisk
  | ISR_ISA_SecondaryATAHardDisk

fun HandleInterrupt :: "error_print \<Rightarrow> isr \<Rightarrow> event list option" where
  "HandleInterrupt g ISR_DivisionError = KernelPanic g ''division by zero error''"
| "HandleInterrupt g ISR_Debug = KernelPanic g ''received a debug interrupt''"
| "HandleInterrupt g ISR_NMI = KernelPanic g ''received a non-maskable interrupt, which isn't supported yet''"
| "HandleInterrupt g ISR_Breakpoint = KernelPanic g ''received a breakpoint interrupt''"
| "HandleInterrupt g ISR_Overflow = KernelPanic g ''overflow exception''"
| "HandleInterrupt g ISR_BoundRangeExceeded = KernelPanic g ''bound range exceeded exception''"
| "HandleInterrupt g ISR_InvalidOpcode = KernelPanic g ''invalid program OpCode''"
| "HandleInterrupt g ISR_DeviceNotAvaible = KernelPanic g ''received a Device Not Avaible exception''"
| "HandleInterrupt g ISR_DoubleFault = KernelPanic g ''double fault: an unhandled exception occured''"
| "HandleInterrupt g ISR_InvalidTSS = KernelPanic g ''attempt to load an invalid Task State Segment''"
| "HandleInterrupt g ISR_SegmentNotPresent = KernelPanic g ''attempt to use a General Descriptor Table segment which isn't present''"
| "HandleInterrupt g ISR_StackSegmentFault = KernelPanic g ''stack segment fault: unsupported yet''"
| "HandleInterrupt g ISR_GeneralProtectionFault = KernelPanic g ''general protection fault: unsupported yet''"
| "HandleInterrupt g ISR_PageFault = KernelPanic g ''page fault: unsupported yet''"
| "HandleInterrupt g ISR_x87FloatingPointException = KernelPanic g ''x86 floating point exception: unsupported yet''"
| "HandleInterrupt g ISR_AlignmentCheck = KernelPanic g ''alignment check exception: unsupported yet''"
| "HandleInterrupt g ISR_MachineCheck = KernelPanic g ''Machine Check: internal errors in the CPU''"
| "HandleInterrupt g ISR_SIMDException = Some []"
| "HandleInterrupt g ISR_VirtualizationException = Some []"
| "HandleInterrupt g ISR_ControlProtectionException = Some []"
| "HandleInterrupt g ISR_HypervisorInjectionException = Some []"
| "HandleInterrupt g ISR_VMMCommunicationException = Some []"
| "HandleInterrupt g ISR_SecurityException = Some []"
| "HandleInterrupt g ISR_ISA_PIT = Some (PIC_SendEOI 0)"
| "HandleInterrupt g ISR_ISA_Keyboard = Some ([ProcessPS2KeyboardInterrupt] @ PIC_SendEOI 1)"
| "HandleInterrupt g ISR_ISA_Stub = Some []"
| "HandleInterrupt g ISR_ISA_COM2 = Some (PIC_SendEOI 3)"
| "HandleInterrupt g ISR_ISA_COM1 = Some (PIC_SendEOI 4)"
| "HandleInterrupt g ISR_ISA_LPT2 = Some (PIC_SendEOI 5)"
| "HandleInterrupt g ISR_ISA_FloppyDisk = Some (PIC_SendEOI 6)"
| "HandleInterrupt g ISR_ISA_LPT1_Spurious = Some []"
| "HandleInterrupt g ISR_ISA_CMOSClock = Some (PIC_SendEOI 8)"
| "HandleInterrupt g ISR_ISA_Peripherals0 = Some (PIC_SendEOI 9)"
| "HandleInterrupt g ISR_ISA_Peripherals1 = Some (PIC_SendEOI 10)"
| "HandleInterrupt g ISR_ISA_Peripherals2 = Some (PIC_SendEOI 11)"
| "HandleInterrupt g ISR_ISA_PS2Mouse = Some (PIC_SendEOI 12)"
| "HandleInterrupt g ISR_ISA_FPU = Some (PIC_SendEOI 13)"
| "HandleInterrupt g ISR_ISA_PrimaryATAHardDisk = Some (PIC_SendEOI 14)"
| "HandleInterrupt g ISR_ISA_SecondaryATAHardDisk = Some (PIC_SendEOI 15)"

subsection \<open>The Interrupt Descriptor Table\<close>

definition GATE_TYPE_INTERRUPT_GATE :: u8 where "GATE_TYPE_INTERRUPT_GATE = 0xE"
definition GATE_TYPE_TRAP_GATE :: u8 where "GATE_TYPE_TRAP_GATE = 0xF"
definition INTERRUPT_PRESENT :: u8 where "INTERRUPT_PRESENT = 0x80"

lemmas gate_bits = GATE_TYPE_INTERRUPT_GATE_def GATE_TYPE_TRAP_GATE_def INTERRUPT_PRESENT_def

record interrupt_descriptor =
  int_offset :: u64
  segmentSelector :: u16
  int_ist :: u8
  int_flags :: u8

definition EncodeIDTEntry :: "u8 \<Rightarrow> interrupt_descriptor \<Rightarrow> u64 list \<Rightarrow> u64 list" where
  "EncodeIDTEntry entryIndex d t =
     (let i = unat entryIndex * 2;
          off = int_offset d; seg = ucast (segmentSelector d); ist = ucast (int_ist d); fl = ucast (int_flags d) in
      t[i := (off AND 0xFFFF) OR
             push_bit 16 seg OR
             push_bit 32 (ist AND 0x7) OR
             push_bit 40 fl OR
             push_bit 48 (drop_bit 16 off AND 0xFFFF),
        i + 1 := drop_bit 32 off])"

definition ExceptionISRs :: "isr option list" where
  "ExceptionISRs =
    [Some ISR_DivisionError, Some ISR_Debug, Some ISR_NMI, Some ISR_Breakpoint,
     Some ISR_Overflow, Some ISR_BoundRangeExceeded, Some ISR_InvalidOpcode,
     Some ISR_DeviceNotAvaible, Some ISR_DoubleFault, None, Some ISR_InvalidTSS,
     Some ISR_SegmentNotPresent, Some ISR_StackSegmentFault, Some ISR_GeneralProtectionFault,
     Some ISR_PageFault, None, Some ISR_x87FloatingPointException, Some ISR_AlignmentCheck,
     Some ISR_MachineCheck, Some ISR_SIMDException, Some ISR_VirtualizationException,
     Some ISR_ControlProtectionException, None, None, None, None, None, None,
     Some ISR_HypervisorInjectionException, Some ISR_VMMCommunicationException,
     Some ISR_SecurityException, None]"

definition trap_entry :: u8 where
  "trap_entry = GATE_TYPE_TRAP_GATE OR INTERRUPT_PRESENT"

definition interrupt_entry :: u8 where
  "interrupt_entry = GATE_TYPE_INTERRUPT_GATE OR INTERRUPT_PRESENT"

definition IDTExceptionEntryFlags :: "u8 list" where
  "IDTExceptionEntryFlags =
    [trap_entry, trap_entry, interrupt_entry, trap_entry, trap_entry, trap_entry, trap_entry,
     trap_entry, trap_entry, 0, trap_entry, trap_entry, trap_entry, trap_entry, trap_entry, 0,
     trap_entry, trap_entry, trap_entry, trap_entry, trap_entry, trap_entry, 0, 0, 0, 0, 0, 0,
     trap_entry, trap_entry, trap_entry, 0]"

definition ISA_ISRs :: "isr list" where
  "ISA_ISRs =
    [ISR_ISA_PIT, ISR_ISA_Keyboard, ISR_ISA_Stub, ISR_ISA_COM2, ISR_ISA_COM1, ISR_ISA_LPT2,
     ISR_ISA_FloppyDisk, ISR_ISA_LPT1_Spurious, ISR_ISA_CMOSClock, ISR_ISA_Peripherals0,
     ISR_ISA_Peripherals1, ISR_ISA_Peripherals2, ISR_ISA_PS2Mouse, ISR_ISA_FPU,
     ISR_ISA_PrimaryATAHardDisk, ISR_ISA_SecondaryATAHardDisk]"

definition exception_descriptor :: "(isr \<Rightarrow> u64) \<Rightarrow> u16 \<Rightarrow> nat \<Rightarrow> interrupt_descriptor" where
  "exception_descriptor isr_address codeSeg i =
     (let fl = IDTExceptionEntryFlags ! i in
      \<lparr>int_offset = (case ExceptionISRs ! i of None \<Rightarrow> 0 | Some r \<Rightarrow> isr_address r),
       segmentSelector = (if fl AND INTERRUPT_PRESENT = INTERRUPT_PRESENT then codeSeg else 0),
       int_ist = 0, int_flags = fl\<rparr>)"

definition isa_descriptor :: "(isr \<Rightarrow> u64) \<Rightarrow> u16 \<Rightarrow> nat \<Rightarrow> interrupt_descriptor" where
  "isa_descriptor isr_address codeSeg i =
     \<lparr>int_offset = isr_address (ISA_ISRs ! i), segmentSelector = codeSeg, int_ist = 0,
      int_flags = interrupt_entry\<rparr>"

definition null_descriptor :: interrupt_descriptor where
  "null_descriptor = \<lparr>int_offset = 0, segmentSelector = 0, int_ist = 0, int_flags = 0\<rparr>"

text \<open>The table's new contents and the arguments (limit, address) of \<open>DexprOS_LoadIDT\<close>.\<close>

definition SetupIDT ::
  "(isr \<Rightarrow> u64) \<Rightarrow> u64 \<Rightarrow> u64 list \<Rightarrow> u16 \<Rightarrow> u64 list \<times> u16 \<times> u64" where
  "SetupIDT isr_address idtAddress t codeSeg =
     (let t1 = fold (\<lambda>i. EncodeIDTEntry (of_nat i) (exception_descriptor isr_address codeSeg i)) [0..<32] t;
          t2 = fold (\<lambda>i. EncodeIDTEntry (of_nat (32 + i)) (isa_descriptor isr_address codeSeg i)) [0..<16] t1;
          t3 = fold (\<lambda>i. EncodeIDTEntry (of_nat i) null_descriptor) [48..<256] t2 in
      (t3, 256 * 2 * 8 - 1, idtAddress))"


subsection \<open>What the processor finds in the table\<close>

definition cpu_gate :: "u64 list \<Rightarrow> nat \<Rightarrow> interrupt_descriptor" where
  "cpu_gate t v = (let e = t ! (v * 2); h = t ! (v * 2 + 1) in
     \<lparr>int_offset = bit_field 0 16 e OR push_bit 16 (bit_field 48 16 e) OR push_bit 32 (bit_field 0 32 h),
      segmentSelector = ucast (bit_field 16 16 e),
      int_ist = ucast (bit_field 32 3 e),
      int_flags = ucast (bit_field 40 8 e)\<rparr>)"

lemma length_EncodeIDTEntry [simp]: "length (EncodeIDTEntry i d t) = length t"
  by (simp add: EncodeIDTEntry_def Let_def)

lemma cpu_gate_encode_other:
  "v \<noteq> unat i \<Longrightarrow> cpu_gate (EncodeIDTEntry i d t) v = cpu_gate t v"
  by (simp add: EncodeIDTEntry_def cpu_gate_def Let_def nth_list_update)

lemma cpu_gate_encode:
  assumes "length t = 512"
  shows "cpu_gate (EncodeIDTEntry i d t) (unat i) = d\<lparr>int_ist := take_bit 3 (int_ist d)\<rparr>"
proof -
  have i: "unat i < 256" using unsigned_less [of i] by simp
  define e where "e = (int_offset d AND 0xFFFF) OR push_bit 16 (ucast (segmentSelector d)) OR
     push_bit 32 (ucast (int_ist d) AND 0x7) OR push_bit 40 (ucast (int_flags d)) OR
     push_bit 48 (drop_bit 16 (int_offset d) AND 0xFFFF)"
  have m: "(0xFFFF :: u64) = mask 16" "(0x7 :: u64) = mask 3" by (simp_all add: mask_eq_exp_minus_1)
  have e: "bit e k = (if k < 16 then bit (int_offset d) k else if k < 32 then bit (segmentSelector d) (k - 16)
     else if k < 40 then k < 35 \<and> bit (int_ist d) (k - 32) else if k < 48 then bit (int_flags d) (k - 40)
     else k < 64 \<and> bit (int_offset d) (k - 32))" for k
    unfolding e_def m
    by (cases "k < 32"; cases "k < 48") (auto simp: bit_simps dest: bit_imp_le_length)
  have f: "bit_field 0 16 e OR push_bit 16 (bit_field 48 16 e) OR push_bit 32 (bit_field 0 32 (drop_bit 32 (int_offset d))) = int_offset d"
    "ucast (bit_field 16 16 e) = segmentSelector d"
    "ucast (bit_field 32 3 e) = take_bit 3 (int_ist d)"
    "ucast (bit_field 40 8 e) = int_flags d"
    by (rule bit_word_eqI, auto simp: field_bits e)+
  show ?thesis
    unfolding cpu_gate_def EncodeIDTEntry_def Let_def e_def [symmetric]
    using i assms by (simp add: f)
qed

text \<open>A run of encodings with different entry numbers leaves each gate at its own descriptor.\<close>

lemma cpu_gate_fold_other:
  "(\<And>i. i \<in> set is \<Longrightarrow> v \<noteq> unat (n i)) \<Longrightarrow>
     cpu_gate (fold (\<lambda>i. EncodeIDTEntry (n i) (d i)) is t) v = cpu_gate t v"
  by (induction "is" arbitrary: t) (auto simp: cpu_gate_encode_other)

lemma length_fold_encode [simp]:
  "length (fold (\<lambda>i. EncodeIDTEntry (n i) (d i)) is t) = length t"
  by (induction "is" arbitrary: t) auto

lemma cpu_gate_fold:
  assumes "k \<in> set is" "inj_on (\<lambda>i. unat (n i)) (set is)" "distinct is" "length t = 512"
    "int_ist (d k) = 0"
  shows "cpu_gate (fold (\<lambda>i. EncodeIDTEntry (n i) (d i)) is t) (unat (n k)) = d k"
proof -
  obtain as bs where s: "is = as @ k # bs" using assms(1) by (meson split_list)
  have "unat (n k) \<noteq> unat (n i)" if "i \<in> set bs" for i
    using that assms(2,3) unfolding s inj_on_def by auto
  hence "cpu_gate (fold (\<lambda>i. EncodeIDTEntry (n i) (d i)) is t) (unat (n k)) =
      (d k)\<lparr>int_ist := take_bit 3 (int_ist (d k))\<rparr>"
    unfolding s by (simp add: cpu_gate_fold_other cpu_gate_encode assms(4))
  thus ?thesis using assms(5) by simp
qed

lemma unat_u8_of_nat: "n < 256 \<Longrightarrow> unat (of_nat n :: u8) = n"
  by (simp add: unat_of_nat take_bit_nat_eq_self)

text \<open>The service routine of each vector.\<close>

definition vector_isr :: "nat \<Rightarrow> isr option" where
  "vector_isr v = (if v < 32 then ExceptionISRs ! v else if v < 48 then Some (ISA_ISRs ! (v - 32)) else None)"

definition vector_gate :: "(isr \<Rightarrow> u64) \<Rightarrow> u16 \<Rightarrow> nat \<Rightarrow> interrupt_descriptor" where
  "vector_gate isr_address codeSeg v = (case vector_isr v of
     None \<Rightarrow> null_descriptor
   | Some r \<Rightarrow> \<lparr>int_offset = isr_address r, segmentSelector = codeSeg, int_ist = 0,
       int_flags = (if v = 2 \<or> 32 \<le> v then 0x8E else 0x8F)\<rparr>)"

lemma exception_vector:
  assumes "v < 32"
  shows "exception_descriptor isr_address codeSeg v = vector_gate isr_address codeSeg v"
proof -
  have "\<forall>v \<in> set [0..<32]. exception_descriptor isr_address codeSeg v = vector_gate isr_address codeSeg v"
    by (simp add: upt_rec exception_descriptor_def vector_gate_def vector_isr_def ExceptionISRs_def Let_def
        IDTExceptionEntryFlags_def trap_entry_def interrupt_entry_def gate_bits null_descriptor_def)
  thus ?thesis using assms by simp
qed

lemma isa_vector:
  "i < 16 \<Longrightarrow> isa_descriptor isr_address codeSeg i = vector_gate isr_address codeSeg (32 + i)"
  by (simp add: isa_descriptor_def vector_gate_def vector_isr_def interrupt_entry_def gate_bits)


lemma SetupIDT_gates:
  assumes len: "length t = 512" and v: "v < 256"
  shows "cpu_gate (fst (SetupIDT isr_address idtAddress t codeSeg)) v = vector_gate isr_address codeSeg v"
proof -
  define f1 where "f1 = fold (\<lambda>i. EncodeIDTEntry (of_nat i) (exception_descriptor isr_address codeSeg i)) [0..<32]"
  define f2 where "f2 = fold (\<lambda>i. EncodeIDTEntry (of_nat (32 + i)) (isa_descriptor isr_address codeSeg i)) [0..<16]"
  define f3 where "f3 = fold (\<lambda>i. EncodeIDTEntry (of_nat i) null_descriptor) [48..<256]"
  have fst: "fst (SetupIDT isr_address idtAddress t codeSeg) = f3 (f2 (f1 t))"
    by (simp add: SetupIDT_def f1_def f2_def f3_def Let_def)
  have len1: "length (f1 t) = 512" and len2: "length (f2 (f1 t)) = 512"
    by (simp_all add: f1_def f2_def len)
  consider (exc) "v < 32" | (isa) i where "i < 16" "v = 32 + i" | (none) "48 \<le> v"
    using nat_le_iff_add [of 32 v] by fastforce
  then show ?thesis
  proof cases
    case exc
    have "cpu_gate (f3 (f2 (f1 t))) v = cpu_gate (f1 t) v"
      unfolding f2_def f3_def using exc
      by (intro trans [OF cpu_gate_fold_other cpu_gate_fold_other])
        (simp_all add: unat_u8_of_nat del: of_nat_add upt_rec_numeral)
    also have "\<dots> = exception_descriptor isr_address codeSeg v"
      using cpu_gate_fold [of v "[0..<32]" of_nat t "exception_descriptor isr_address codeSeg"] exc len
      by (simp add: f1_def unat_u8_of_nat inj_on_def exception_descriptor_def Let_def del: upt_rec_numeral)
    finally show ?thesis using exc by (simp add: fst exception_vector)
  next
    case isa
    have "cpu_gate (f3 (f2 (f1 t))) v = cpu_gate (f2 (f1 t)) v"
      unfolding f3_def using isa by (subst cpu_gate_fold_other) (simp_all add: unat_u8_of_nat del: upt_rec_numeral)
    also have "\<dots> = isa_descriptor isr_address codeSeg i"
      using cpu_gate_fold [of i "[0..<16]" "\<lambda>i. of_nat (32 + i)" "f1 t" "isa_descriptor isr_address codeSeg"] isa len1
      unfolding f2_def by (simp add: unat_u8_of_nat inj_on_def isa_descriptor_def del: of_nat_add upt_rec_numeral)
    finally show ?thesis using isa by (simp add: fst isa_vector)
  next
    case none
    have "cpu_gate (f3 (f2 (f1 t))) v = null_descriptor"
      using cpu_gate_fold [of v "[48..<256]" of_nat "f2 (f1 t)" "\<lambda>_. null_descriptor"] none v len2
      unfolding f3_def by (simp add: unat_u8_of_nat inj_on_def null_descriptor_def del: upt_rec_numeral)
    thus ?thesis using none by (simp add: fst vector_gate_def vector_isr_def)
  qed
qed

lemma SetupIDT_table:
  assumes "length t = 512" and "v < 256"
  shows "case SetupIDT isr_address idtAddress t codeSeg of (t', lim, addr) \<Rightarrow>
     length t' = 512 \<and> addr = idtAddress \<and> unat lim + 1 = 8 * length t' \<and>
     cpu_gate t' v =
       (case vector_isr v of
          None \<Rightarrow> \<lparr>int_offset = 0, segmentSelector = 0, int_ist = 0, int_flags = 0\<rparr>
        | Some r \<Rightarrow> \<lparr>int_offset = isr_address r, segmentSelector = codeSeg, int_ist = 0,
            int_flags = (if v = 2 \<or> 32 \<le> v then 0x8E else 0x8F)\<rparr>)"
proof -
  have len: "length (fst (SetupIDT isr_address idtAddress t codeSeg)) = 512"
    unfolding SetupIDT_def Let_def fst_conv length_fold_encode by (rule assms)
  have "snd (SetupIDT isr_address idtAddress t codeSeg) = (4095, idtAddress)"
    unfolding SetupIDT_def Let_def snd_conv by simp
  then obtain t' where t': "SetupIDT isr_address idtAddress t codeSeg = (t', 4095, idtAddress)"
    by (metis prod.collapse)
  show ?thesis
    using SetupIDT_gates [OF assms, of isr_address idtAddress codeSeg] len
    unfolding t' vector_gate_def null_descriptor_def by simp
qed

text \<open>
  C23: (the interrupt table) After \<open>SetupIDT\<close>, whatever the table held, the
  processor finds at every vector exactly the routine of that vector: the
  exceptions 0..31 that have a routine as trap gates (the non-maskable interrupt
  as an interrupt gate), the sixteen ISA lines as interrupt gates at 32..47, all
  in the kernel's code segment, and no present gate elsewhere. The limit passed
  to the processor covers the whole table.
\<close>

theorem SetupIDT_correct:
  assumes "length t = 512" and "v < 256"
  shows "case SetupIDT isr_address idtAddress t codeSeg of (t', lim, addr) \<Rightarrow>
     length t' = 512 \<and> addr = idtAddress \<and> unat lim + 1 = 8 * length t' \<and>
     cpu_gate t' v =
       (case vector_isr v of
          None \<Rightarrow> \<lparr>int_offset = 0, segmentSelector = 0, int_ist = 0, int_flags = 0\<rparr>
        | Some r \<Rightarrow> \<lparr>int_offset = isr_address r, segmentSelector = codeSeg, int_ist = 0,
            int_flags = (if v = 2 \<or> 32 \<le> v then 0x8E else 0x8F)\<rparr>)"
  using assms by (rule SetupIDT_table)

lemma SetupIDT_correct_witness:
  "case SetupIDT (\<lambda>r. if r = ISR_PageFault then 0x123456789A else 0) 0x8000 (replicate 512 7) 8 of
     (t', lim, addr) \<Rightarrow> cpu_gate t' 14 =
       \<lparr>int_offset = 0x123456789A, segmentSelector = 8, int_ist = 0, int_flags = 0x8F\<rparr>"
  using SetupIDT_correct [where t = "replicate 512 7" and v = 14 and idtAddress = "0x8000"
      and isr_address = "\<lambda>r. if r = ISR_PageFault then 0x123456789A else 0" and codeSeg = 8]
  by (auto simp: vector_isr_def ExceptionISRs_def split: prod.splits)

subsection \<open>Exceptions\<close>

text \<open>
  (exceptions stop the machine) A vector below 32 either has no routine, or
  its routine's handler is a kernel panic, which disables interrupts first and
  halts last and acknowledges nothing itself, or it is one of the six vectors
  19, 20, 21, 28, 29 and 30 whose handler does nothing and returns.
\<close>

theorem exception_outcomes:
  "map (\<lambda>v. case vector_isr v of None \<Rightarrow> []
         | Some r \<Rightarrow> map (\<lambda>f. map_option f (HandleInterrupt None r)) [take 1, drop 1]) [0..<32] =
   map (\<lambda>v. if v \<in> {9, 15, 22, 23, 24, 25, 26, 27, 31} then []
             else if v \<in> {19, 20, 21, 28, 29, 30} then [Some [], Some []]
             else [Some [DisableInterrupts], Some [KernelPanicHaltMachine]]) [0..<32]"
  by (simp add: upt_rec vector_isr_def ExceptionISRs_def KernelPanic_def)

end
