(* ===== verification/ErrorDisplay.thy ===== *)
theory ErrorDisplay
  imports ShellDisplay Interrupts PS2Controller
begin

text \<open>
  The display of a kernel panic (src/src/Kernel/ErrorDisplay.c): the reason is drawn on a red
  screen.

  \<^item> The two static variables are the record \<open>error_display\<close>: the address of the driver, whose
    calls are listed as events, and the width of the console. \<open>*pX\<close> and \<open>*pY\<close> are passed and
    returned.
  \<^item> The boot code registers \<open>KernelErrorWrite\<close> with the kernel panic once, after it has set
    both variables, so the registered function is the one with these values.
\<close>

fun KernelErrorWriteSingle :: "u32 \<Rightarrow> string \<Rightarrow> u32 \<Rightarrow> u32 \<Rightarrow> (gr_call list \<times> u32 \<times> u32) option" where
  "KernelErrorWriteSingle width [] x y = Some ([], x, y)"
| "KernelErrorWriteSingle width (c # cs) x y =
     (if c = CHR 0x00 then Some ([], x, y)
      else do {
        let character = char32 c;
        advanceX \<leftarrow> BuiltInBitmapFontGetGlyphAdvanceX character;
        if character = 10
        then KernelErrorWriteSingle width cs 0 (y + BuiltInBitmapFontGetLineHeight)
        else do {
          let wraps = width <s x + advanceX;
          let x = (if wraps then 0 else x);
          let y = (if wraps then y + BuiltInBitmapFontGetLineHeight else y);
          calls \<leftarrow> BuiltInBitmapFontDrawGlyph character x y;
          (rest, x, y) \<leftarrow> KernelErrorWriteSingle width cs (x + advanceX) y;
          Some (calls @ rest, x, y)
        }
      })"

record error_display =
  g_pGraphicsDrv :: u64
  g_textConsoleWidth :: u32

definition KernelErrorWrite :: "error_display \<Rightarrow> string \<Rightarrow> event list option" where
  "KernelErrorWrite d textReason =
     (if g_pGraphicsDrv d = 0 then None
      else do {
        (calls1, x, y) \<leftarrow> KernelErrorWriteSingle (g_textConsoleWidth d) ''KERNEL PANIC: '' 0 0;
        (calls2, x, y) \<leftarrow> KernelErrorWriteSingle (g_textConsoleWidth d) textReason x y;
        Some (map (GraphicsCall (g_pGraphicsDrv d))
          (ClearScreen \<lparr>color_r = 255, color_g = 0, color_b = 0\<rparr> # calls1 @ calls2 @ [SwapBuffers]))
      })"

definition InitKernelErrorDisplay :: "u64 \<Rightarrow> u32 \<Rightarrow> error_display \<Rightarrow> error_display \<times> error_print" where
  "InitKernelErrorDisplay pGraphicsDrv textConsoleWidth d =
     (let d = d\<lparr>g_pGraphicsDrv := pGraphicsDrv\<rparr>;
          d = d\<lparr>g_textConsoleWidth := textConsoleWidth\<rparr>
      in (d, SetupKernelErrorPrintFunction (KernelErrorWrite d)))"

subsection \<open>Layout\<close>

fun end_position :: "u32 \<Rightarrow> u32 list \<Rightarrow> u32 \<Rightarrow> u32 \<Rightarrow> u32 \<times> u32" where
  "end_position W [] x y = (x, y)"
| "end_position W (c # cs) x y =
     (if c = 10 then end_position W cs 0 (y + font_lineHeight)
      else if W <s x + advance_of c then end_position W cs (advance_of c) (y + font_lineHeight)
      else end_position W cs (x + advance_of c) y)"

lemma positions_append:
  "positions W (cs @ ds) x y = positions W cs x y @
    positions W ds (fst (end_position W cs x y)) (snd (end_position W cs x y))"
  by (induction W cs x y rule: end_position.induct) simp_all

lemma KernelErrorWriteSingle_text:
  assumes "127 \<notin> set (c_string m)"
  shows "KernelErrorWriteSingle width m x y =
    Some (concat (map draw_calls (positions width (c_string m) x y)),
          fst (end_position width (c_string m) x y), snd (end_position width (c_string m) x y))"
  using assms
proof (induction width m x y rule: KernelErrorWriteSingle.induct)
  case (2 width c cs x y)
  show ?case
  proof (cases "c = CHR 0x00")
    case True
    thus ?thesis by (simp add: c_string_def)
  next
    case False
    hence c: "c_string (c # cs) = char32 c # c_string cs" by (simp add: c_string_def)
    with 2(3) have "char32 c \<noteq> 127" "127 \<notin> set (c_string cs)" by auto
    thus ?thesis using False 2(1,2)
      by (simp add: c GetGlyphAdvanceX_eq DrawGlyph_eq Let_def BuiltInBitmapFontGetLineHeight_def)
  qed
qed (simp add: c_string_def)

lemma c_string_panic: "127 \<notin> set (c_string ''KERNEL PANIC: '')"
  by (simp add: c_string_def char32_def)

lemma KernelErrorWrite_text:
  assumes "127 \<notin> set (c_string m)" "g_pGraphicsDrv d \<noteq> 0"
  shows "KernelErrorWrite d m = Some (map (GraphicsCall (g_pGraphicsDrv d))
    (ClearScreen \<lparr>color_r = 255, color_g = 0, color_b = 0\<rparr> #
      concat (map draw_calls (positions (g_textConsoleWidth d) (c_string ''KERNEL PANIC: '' @ c_string m) 0 0)) @
      [SwapBuffers]))"
  using assms c_string_panic
  by (simp add: KernelErrorWrite_def KernelErrorWriteSingle_text positions_append split_beta
      del: KernelErrorWriteSingle.simps)

subsection \<open>The reasons\<close>

text \<open>Panics of the controller's initialisation, on ports that behave in any way.\<close>

definition panics_in :: "string set \<Rightarrow> ('d, 'a) run \<Rightarrow> bool" where
  "panics_in R r = (\<forall>d m. r d = Some (Inl m) \<longrightarrow> m \<in> R)"

lemma panics_in_bind [intro]:
  "panics_in R r \<Longrightarrow> (\<And>a. panics_in R (g a)) \<Longrightarrow> panics_in R (run_bind r g)"
  by (fastforce simp: panics_in_def run_bind_def split: option.splits sum.splits)

lemma panics_in_basic [simp]:
  "panics_in R (run_return a)" "panics_in R (run_inb io port)" "panics_in R (run_outb io v port)"
  "panics_in R (run_panic m) \<longleftrightarrow> m \<in> R"
  by (simp_all add: panics_in_def run_return_def run_inb_def run_outb_def run_panic_def)

lemma panics_in_wait [simp]: "panics_in R (wait_write io)" "panics_in R (wait_read io)"
proof -
  have "\<forall>m. y \<noteq> Inl m" if "wait_write io d = Some y" for d y
    using that by (rule wait_write.raw_induct [where P = "\<lambda>io d y. \<forall>m. y \<noteq> Inl m", rotated])
      (auto split: prod.splits if_splits)
  thus "panics_in R (wait_write io)" by (auto simp: panics_in_def)
  have "\<forall>m. y \<noteq> Inl m" if "wait_read io d = Some y" for d y
    using that by (rule wait_read.raw_induct [where P = "\<lambda>io d y. \<forall>m. y \<noteq> Inl m", rotated])
      (auto split: prod.splits if_splits)
  thus "panics_in R (wait_read io)" by (auto simp: panics_in_def)
qed

definition controller_reasons :: "string list" where
  "controller_reasons = [''Boot error: PS/2 controller self-test failed'',
     ''Boot: couldn't initialise PS/2 controller: no working ports'']"

lemma controller_panics: "panics_in (set controller_reasons) (InitialisePS2Controller io)"
  unfolding InitialisePS2Controller_def WritePS2Command_def ReadConfigurationByte_def WriteConfigurationByte_def
    PerformPS2SelfTest_def QuerySecondPort_def TestPS2Ports_def test_port_def EnableWorkingPorts_def Let_def
  by (auto intro!: panics_in_bind simp: controller_reasons_def split: prod.splits)

text \<open>Whatever is registered, an exception's handler panics with a fixed text, or does not panic.\<close>

definition handler_panics :: "isr \<Rightarrow> string \<Rightarrow> bool" where
  "handler_panics r m = (\<forall>g. HandleInterrupt g r = KernelPanic g m)"

lemma KernelPanic_inj: "(\<forall>g. KernelPanic g m = KernelPanic g m') \<Longrightarrow> m = m'"
proof -
  assume "\<forall>g. KernelPanic g m = KernelPanic g m'"
  from spec [OF this, of "Some (\<lambda>t. if t = m then None else Some [])"] show "m = m'"
    by (simp add: KernelPanic_def split: if_splits)
qed

lemma no_panic:
  assumes "handler_panics r m" "\<And>g. HandleInterrupt g r = Some es"
  shows False
proof -
  have "KernelPanic (Some (\<lambda>t. None)) m = Some es" using assms by (simp add: handler_panics_def)
  thus False by (simp add: KernelPanic_def)
qed

lemma handler_reasons: "handler_panics r m \<Longrightarrow> 127 \<notin> set (c_string m)"
proof -
  assume panics: "handler_panics r m"
  show "127 \<notin> set (c_string m)"
  proof (cases "\<exists>m'. (\<forall>g. HandleInterrupt g r = KernelPanic g m') \<and> 127 \<notin> set (c_string m')")
    case True
    then obtain m' where m': "\<forall>g. HandleInterrupt g r = KernelPanic g m'" "127 \<notin> set (c_string m')" by blast
    have "\<forall>g. KernelPanic g m = KernelPanic g m'" using panics m'(1) by (simp add: handler_panics_def)
    thus ?thesis using KernelPanic_inj m'(2) by blast
  next
    case False
    note other = this
    show ?thesis
    proof (cases "\<exists>es. \<forall>g. HandleInterrupt g r = Some es")
      case True
      thus ?thesis using no_panic [OF panics] by blast
    next
      case False
      have "(\<exists>m'. (\<forall>g. HandleInterrupt g r = KernelPanic g m') \<and> 127 \<notin> set (c_string m')) \<or>
          (\<exists>es. \<forall>g. HandleInterrupt g r = Some es)"
        by (cases r) (force simp: c_string_def char32_def)+
      thus ?thesis using False other by blast
    qed
  qed
qed

lemma kernel_reasons:
  assumes "handler_panics r m \<or> InitialisePS2Controller io d = Some (Inl m)"
  shows "127 \<notin> set (c_string m)"
proof -
  have "127 \<notin> set (c_string m)" if "m \<in> set controller_reasons"
    using that by (auto simp: controller_reasons_def c_string_def char32_def)
  thus ?thesis using assms handler_reasons controller_panics [of io] by (auto simp: panics_in_def)
qed

text \<open>
  C33: The reason of a panic gets on the screen. When the display has been initialised with
  a driver and a width, every panic of the kernel, from an exception's handler or from the
  initialisation of the PS/2 controller, disables interrupts, clears the screen to red, draws
  \<open>KERNEL PANIC:\<close> and the reason as one text, wrapped at this width, with this driver, swaps
  the buffers and halts.
\<close>

theorem panic_reason_displayed:
  assumes "handler_panics r m \<or> InitialisePS2Controller io d = Some (Inl m)" "pGraphicsDrv \<noteq> 0"
  shows "KernelPanic (snd (InitKernelErrorDisplay pGraphicsDrv width ed)) m =
    Some ([DisableInterrupts] @ map (GraphicsCall pGraphicsDrv)
      (ClearScreen \<lparr>color_r = 255, color_g = 0, color_b = 0\<rparr> #
        concat (map draw_calls (positions width (c_string ''KERNEL PANIC: '' @ c_string m) 0 0)) @
        [SwapBuffers]) @ [KernelPanicHaltMachine])"
proof -
  let ?d = "ed\<lparr>g_pGraphicsDrv := pGraphicsDrv, g_textConsoleWidth := width\<rparr>"
  have "g_pGraphicsDrv ?d \<noteq> 0" using assms(2) by simp
  note shown = KernelErrorWrite_text [OF kernel_reasons [OF assms(1)] this]
  show ?thesis
    by (simp only: KernelPanic_def InitKernelErrorDisplay_def SetupKernelErrorPrintFunction_def Let_def snd_conv
        option.case shown) simp
qed

lemma panic_reason_displayed_witness:
  "\<exists>draws. HandleInterrupt (snd (InitKernelErrorDisplay 0x5000 640 \<lparr>g_pGraphicsDrv = 0, g_textConsoleWidth = 0\<rparr>)) ISR_PageFault =
    Some (DisableInterrupts # GraphicsCall 0x5000 (ClearScreen \<lparr>color_r = 255, color_g = 0, color_b = 0\<rparr>) # draws)"
proof -
  have panics: "handler_panics ISR_PageFault ''page fault: unsupported yet''" by (simp add: handler_panics_def)
  have "(0x5000 :: u64) \<noteq> 0" by simp
  from panic_reason_displayed [OF disjI1 [OF panics] this, of 640 "\<lparr>g_pGraphicsDrv = 0, g_textConsoleWidth = 0\<rparr>"] show ?thesis by simp
qed

end
