(* ===== verification/InterruptControllers.thy ===== *)
theory InterruptControllers
  imports Interrupts
begin

text \<open>
  The two 8259 interrupt controllers, as their data sheet describes them, under the commands
  of src/src/Drivers/PICDriver.c: their initialisation, the delivery of an interrupt line and
  its acknowledgement. With the vectors' routines and handlers this gives what happens to a
  sequence of interrupts.

  \<^item> The first controller has the lines 0 to 7, the second one, which is connected to line 2,
    the lines 8 to 15. Lower lines have priority.
  \<^item> The special modes that the driver does not use (rotation, automatic and specific
    acknowledgement, level-triggered input, reading the registers) are left out.
\<close>

unbundle bit_operations_syntax

subsection \<open>A controller\<close>

text \<open>
  \<open>pic_expects\<close> counts the initialisation command words that are still to come at the data
  port; at 0 the controller works. \<open>pic_inService\<close> has the lines that have been delivered and
  not acknowledged.
\<close>

record pic =
  pic_expects :: nat
  pic_offset :: u8
  pic_cascade :: u8
  pic_mode8086 :: bool
  pic_mask :: u8
  pic_inService :: "nat set"

definition pic_command :: "u8 \<Rightarrow> pic \<Rightarrow> pic" where
  "pic_command b p =
     (if bit b 4 then p\<lparr>pic_expects := 3, pic_mode8086 := False, pic_mask := 0, pic_inService := {}\<rparr>
      else if b = 0x20 \<and> pic_inService p \<noteq> {} then p\<lparr>pic_inService := pic_inService p - {Min (pic_inService p)}\<rparr>
      else p)"

definition pic_data :: "u8 \<Rightarrow> pic \<Rightarrow> pic" where
  "pic_data b p =
     (if pic_expects p = 3 then p\<lparr>pic_expects := 2, pic_offset := b AND 0xF8\<rparr>
      else if pic_expects p = 2 then p\<lparr>pic_expects := 1, pic_cascade := b\<rparr>
      else if pic_expects p = 1 then p\<lparr>pic_expects := 0, pic_mode8086 := bit b 0\<rparr>
      else p\<lparr>pic_mask := b\<rparr>)"

text \<open>A line is delivered when nothing of its priority or a higher one is in service.\<close>

definition pic_delivers :: "pic \<Rightarrow> nat \<Rightarrow> bool" where
  "pic_delivers p n = (pic_expects p = 0 \<and> pic_mode8086 p \<and> \<not> bit (pic_mask p) n \<and> (\<forall>i \<in> pic_inService p. n < i))"

definition pic_take :: "nat \<Rightarrow> pic \<Rightarrow> pic" where
  "pic_take n p = p\<lparr>pic_inService := insert n (pic_inService p)\<rparr>"

subsection \<open>Both controllers\<close>

fun pics_event :: "event \<Rightarrow> pic \<times> pic \<Rightarrow> pic \<times> pic" where
  "pics_event (Outb b port) (p0, p1) =
     (if port = 0x20 then (pic_command b p0, p1) else if port = 0x21 then (pic_data b p0, p1)
      else if port = 0xA0 then (p0, pic_command b p1) else if port = 0xA1 then (p0, pic_data b p1)
      else (p0, p1))"
| "pics_event e ps = ps"

text \<open>The second controller asks the first one through the line that both have been told.\<close>

definition deliver_line :: "nat \<Rightarrow> pic \<times> pic \<Rightarrow> (nat \<times> pic \<times> pic) option" where
  "deliver_line n ps = (case ps of (p0, p1) \<Rightarrow>
     if n < 8
     then (if pic_delivers p0 n then Some (unat (pic_offset p0) + n, pic_take n p0, p1) else None)
     else let c = unat (pic_cascade p1)
       in if bit (pic_cascade p0) c \<and> pic_delivers p0 c \<and> pic_delivers p1 (n - 8)
          then Some (unat (pic_offset p1) + (n - 8), pic_take c p0, pic_take (n - 8) p1) else None)"

definition line_vector :: "pic \<times> pic \<Rightarrow> nat \<Rightarrow> nat" where
  "line_vector ps n = (if n < 8 then unat (pic_offset (fst ps)) + n else unat (pic_offset (snd ps)) + (n - 8))"

text \<open>
  An interrupt of a line: the processor runs the routine of the vector that it gets, and the
  handler's commands reach the controllers. \<open>None\<close>: the line is not delivered, or there is no
  routine.
\<close>

definition serve_line :: "error_print \<Rightarrow> nat \<Rightarrow> pic \<times> pic \<Rightarrow> (isr \<times> pic \<times> pic) option" where
  "serve_line g n ps = do {
     (v, ps) \<leftarrow> deliver_line n ps;
     r \<leftarrow> vector_isr v;
     es \<leftarrow> HandleInterrupt g r;
     Some (r, fold pics_event es ps) }"

fun serve_lines :: "error_print \<Rightarrow> nat list \<Rightarrow> pic \<times> pic \<Rightarrow> (isr list \<times> pic \<times> pic) option" where
  "serve_lines g [] ps = Some ([], ps)"
| "serve_lines g (n # ns) ps = do {
     (r, ps) \<leftarrow> serve_line g n ps;
     (rs, ps) \<leftarrow> serve_lines g ns ps;
     Some (r # rs, ps) }"

subsection \<open>Initialisation\<close>

text \<open>Both controllers work, with their offsets, and only the given lines are in service.\<close>

definition pics_ready :: "u8 \<Rightarrow> u8 \<Rightarrow> nat set \<Rightarrow> pic \<times> pic \<Rightarrow> bool" where
  "pics_ready off0 off1 S ps = (case ps of (p0, p1) \<Rightarrow>
     p0 = \<lparr>pic_expects = 0, pic_offset = off0, pic_cascade = 4, pic_mode8086 = True, pic_mask = 0, pic_inService = S\<rparr> \<and>
     p1 = \<lparr>pic_expects = 0, pic_offset = off1, pic_cascade = 2, pic_mode8086 = True, pic_mask = 0, pic_inService = {}\<rparr>)"

lemma InitialisePIC_ready:
  "pics_ready (int0Offset AND 0xF8) (int1Offset AND 0xF8) {} (fold pics_event (InitialisePIC int0Offset int1Offset) ps)"
  by (cases ps) (simp add: pics_ready_def InitialisePIC_def PIC_IOWAIT_def pic_command_def pic_data_def)

lemma pics_ready_vector:
  "pics_ready off0 off1 S ps \<Longrightarrow> line_vector ps n = (if n < 8 then unat off0 + n else unat off1 + (n - 8))"
  by (auto simp: pics_ready_def line_vector_def)

subsection \<open>One interrupt\<close>

lemma Min_insert_below: "finite S \<Longrightarrow> \<forall>i \<in> S. n < i \<Longrightarrow> Min (insert n S) = (n :: nat)"
  by (intro Min_eqI) (auto intro: less_imp_le)

lemma insert_remove_below: "\<forall>i \<in> S. n < i \<Longrightarrow> insert n S - {n} = (S :: nat set)"
  by auto

text \<open>The commands of the handlers, for the lines that are acknowledged.\<close>

lemma line_handler:
  assumes "n < 16" "n \<noteq> 2" "n \<noteq> 7"
  shows "\<exists>es. HandleInterrupt g (ISA_ISRs ! n) = Some es \<and>
    fold pics_event es ps = fold pics_event ((if 8 \<le> n then [Outb 0x20 0xA0] else []) @ [Outb 0x20 0x20]) ps"
proof -
  have "n \<in> {0, 1, 3, 4, 5, 6} \<union> {8, 9, 10, 11, 12, 13, 14, 15}"
    unfolding Un_iff insert_iff empty_iff using assms by arith
  thus ?thesis
    by (elim UnE insertE emptyE) (simp_all add: ISA_ISRs_def PIC_SendEOI_def)
qed

lemma acknowledge:
  assumes "finite (pic_inService p)" "\<forall>i \<in> pic_inService p. n < i"
  shows "pic_command 0x20 (pic_take n p) = p"
proof -
  have "\<not> bit (0x20 :: u8) 4" by (simp add: bit_iff_odd)
  thus ?thesis using Min_insert_below [OF assms] insert_remove_below [OF assms(2)]
    by (simp add: pic_command_def pic_take_def)
qed

lemma serve_line_first:
  assumes "pics_ready 32 off1 S ps" "finite S" "\<forall>i \<in> S. n < i" "n < 8" "n \<noteq> 2" "n \<noteq> 7"
  shows "\<exists>ps'. serve_line g n ps = Some (ISA_ISRs ! n, ps') \<and> pics_ready 32 off1 S ps'"
proof -
  obtain p0 p1 where ps: "ps = (p0, p1)" by fastforce
  have p0: "pic_inService p0 = S" "pic_offset p0 = 32" using assms(1) by (simp_all add: ps pics_ready_def)
  have "pic_delivers p0 n" using assms(1,3) by (simp add: ps pics_ready_def pic_delivers_def)
  hence deliver: "deliver_line n ps = Some (32 + n, pic_take n p0, p1)" using assms(4) p0 by (simp add: ps deliver_line_def)
  have "vector_isr (32 + n) = Some (ISA_ISRs ! n)" using assms(4) by (simp add: vector_isr_def)
  moreover have "n < 16" using assms(4) by simp
  then obtain es where "HandleInterrupt g (ISA_ISRs ! n) = Some es"
    "fold pics_event es (pic_take n p0, p1) = fold pics_event [Outb 0x20 0x20] (pic_take n p0, p1)"
    using line_handler [OF _ assms(5,6), of g "(pic_take n p0, p1)"] assms(4) by auto
  moreover have "pic_command 0x20 (pic_take n p0) = p0" using acknowledge [of p0 n] assms(2,3) p0(1) by simp
  ultimately show ?thesis using assms(1) by (simp add: serve_line_def ps deliver [unfolded ps])
qed

lemma serve_line_second:
  assumes "pics_ready 32 40 S ps" "finite S" "\<forall>i \<in> S. 2 < i" "8 \<le> n" "n < 16"
  shows "\<exists>ps'. serve_line g n ps = Some (ISA_ISRs ! n, ps') \<and> pics_ready 32 40 S ps'"
proof -
  obtain p0 p1 where ps: "ps = (p0, p1)" by fastforce
  have p: "pic_inService p0 = S" "pic_cascade p0 = 4" "pic_inService p1 = {}" "pic_offset p1 = 40" "pic_cascade p1 = 2"
    using assms(1) by (simp_all add: ps pics_ready_def)
  have "pic_delivers p0 2" "pic_delivers p1 (n - 8)"
    using assms(1,3) by (simp_all add: ps pics_ready_def pic_delivers_def)
  moreover have "bit (4 :: u8) 2" by (simp add: bit_iff_odd)
  ultimately have "deliver_line n ps = Some (40 + (n - 8), pic_take 2 p0, pic_take (n - 8) p1)"
    using assms(4) p by (simp add: ps deliver_line_def)
  hence deliver: "deliver_line n ps = Some (32 + n, pic_take 2 p0, pic_take (n - 8) p1)" using assms(4) by simp
  have "vector_isr (32 + n) = Some (ISA_ISRs ! n)" using assms(5) by (simp add: vector_isr_def)
  moreover have "n \<noteq> 2" "n \<noteq> 7" using assms(4) by simp_all
  then obtain es where "HandleInterrupt g (ISA_ISRs ! n) = Some es"
    "fold pics_event es (pic_take 2 p0, pic_take (n - 8) p1) =
      fold pics_event [Outb 0x20 0xA0, Outb 0x20 0x20] (pic_take 2 p0, pic_take (n - 8) p1)"
    using line_handler [OF assms(5), of g "(pic_take 2 p0, pic_take (n - 8) p1)"] assms(4) by auto
  moreover have "pic_command 0x20 (pic_take 2 p0) = p0" "pic_command 0x20 (pic_take (n - 8) p1) = p1"
    using acknowledge [of p0 2] acknowledge [of p1 "n - 8"] assms(2,3) p(1,3) by simp_all
  ultimately show ?thesis using assms(1) by (simp add: serve_line_def ps deliver [unfolded ps])
qed

lemma serve_line_spurious:
  assumes "pics_ready 32 off1 {} ps"
  shows "\<exists>ps'. serve_line g 7 ps = Some (ISR_ISA_LPT1_Spurious, ps') \<and> pics_ready 32 off1 {7} ps'"
  using assms
  by (cases ps) (auto simp: pics_ready_def serve_line_def deliver_line_def pic_delivers_def pic_take_def
      vector_isr_def ISA_ISRs_def)

lemma serve_line_spurious_blocked: "pics_ready 32 off1 {7} ps \<Longrightarrow> serve_line g 7 ps = None"
  by (cases ps) (auto simp: pics_ready_def serve_line_def deliver_line_def pic_delivers_def)

subsection \<open>Sequences of interrupts\<close>

lemma serve_lines_ready:
  assumes "pics_ready 32 40 S ps" "S \<subseteq> {7}" "set ns \<subseteq> {..<16} - {2}"
    "count_list ns 7 + card S \<le> 1"
  shows "\<exists>ps'. serve_lines g ns ps = Some (map ((!) ISA_ISRs) ns, ps') \<and>
    pics_ready 32 40 (S \<union> ({7} \<inter> set ns)) ps'"
  using assms
proof (induction ns arbitrary: S ps)
  case (Cons n ns)
  have fin: "finite S" using Cons.prems(2) finite_subset by blast
  have n: "n < 16" "n \<noteq> 2" using Cons.prems(3) by auto
  show ?case
  proof (cases "n = 7")
    case True
    hence S: "S = {}" and ns: "count_list ns 7 = 0" using Cons.prems(4) fin by simp_all
    obtain ps1 where ps1: "serve_line g 7 ps = Some (ISR_ISA_LPT1_Spurious, ps1)" "pics_ready 32 40 {7} ps1"
      using serve_line_spurious Cons.prems(1) S by blast
    have "set ns \<subseteq> {..<16} - {2}" "count_list ns 7 + card {7 :: nat} \<le> 1" using Cons.prems(3) ns by auto
    from Cons.IH [OF ps1(2) _ this] obtain ps' where "serve_lines g ns ps1 = Some (map ((!) ISA_ISRs) ns, ps')"
      "pics_ready 32 40 ({7} \<union> {7} \<inter> set ns) ps'" by blast
    moreover have "ISA_ISRs ! 7 = ISR_ISA_LPT1_Spurious" by (simp add: ISA_ISRs_def)
    ultimately show ?thesis using ps1(1) True S by simp
  next
    case False
    have "\<exists>ps1. serve_line g n ps = Some (ISA_ISRs ! n, ps1) \<and> pics_ready 32 40 S ps1"
    proof (cases "n < 8")
      case True
      hence "\<forall>i \<in> S. n < i" using Cons.prems(2) False by auto
      thus ?thesis using serve_line_first [OF Cons.prems(1) fin _ True n(2) False] by blast
    next
      case False
      have "\<forall>i \<in> S. 2 < i" using Cons.prems(2) by auto
      thus ?thesis using serve_line_second [OF Cons.prems(1) fin _ _ n(1)] False by simp
    qed
    then obtain ps1 where ps1: "serve_line g n ps = Some (ISA_ISRs ! n, ps1)" "pics_ready 32 40 S ps1" by blast
    have "set ns \<subseteq> {..<16} - {2}" "count_list ns 7 + card S \<le> 1" using Cons.prems(3,4) False by auto
    from Cons.IH [OF ps1(2) Cons.prems(2) this] obtain ps' where
      "serve_lines g ns ps1 = Some (map ((!) ISA_ISRs) ns, ps')" "pics_ready 32 40 (S \<union> {7} \<inter> set ns) ps'" by blast
    moreover have "{7} \<inter> set (n # ns) = {7} \<inter> set ns" using False by auto
    ultimately show ?thesis using ps1(1) by simp
  qed
qed simp

text \<open>
  C24: Interrupts keep coming. Whatever state the controllers are in, after their
  initialisation with the offsets of the boot code every sequence of interrupts is
  delivered, as long as line 7 comes at most once and line 2, which connects the controllers,
  does not come by itself: each line reaches its own routine, and the handler's commands
  acknowledge it at its controllers, so that no later line is held back. The handler of line
  7, which is meant for spurious interrupts, sends nothing: afterwards exactly this line is
  in service, if it came, and it is not delivered again.
\<close>

theorem interrupts_keep_coming:
  assumes "set ns \<subseteq> {..<16} - {2}" "count_list ns 7 \<le> 1"
  shows "\<exists>p0 p1. serve_lines g ns (fold pics_event (InitialisePIC 32 40) ps) =
      Some (map ((!) ISA_ISRs) ns, p0, p1) \<and>
    pic_inService p0 = {7} \<inter> set ns \<and> pic_inService p1 = {} \<and>
    (7 \<in> set ns \<longrightarrow> serve_line g 7 (p0, p1) = None)"
proof -
  have "pics_ready 32 40 {} (fold pics_event (InitialisePIC 32 40) ps)"
    using InitialisePIC_ready [of 32 40 ps] by simp
  from serve_lines_ready [OF this _ assms(1), of g] assms(2)
  obtain ps' where ps': "serve_lines g ns (fold pics_event (InitialisePIC 32 40) ps) = Some (map ((!) ISA_ISRs) ns, ps')"
    "pics_ready 32 40 ({7} \<inter> set ns) ps'" by auto
  moreover have "serve_line g 7 ps' = None" if "7 \<in> set ns"
    using ps'(2) that serve_line_spurious_blocked [of 40 ps' g] by simp
  ultimately show ?thesis by (cases ps') (auto simp: pics_ready_def)
qed

lemma interrupts_keep_coming_witness:
  "\<forall>ps. \<exists>ps'. serve_lines None [1, 14, 7, 1, 8, 14] (fold pics_event (InitialisePIC 32 40) ps) =
    Some ([ISR_ISA_Keyboard, ISR_ISA_PrimaryATAHardDisk, ISR_ISA_LPT1_Spurious, ISR_ISA_Keyboard,
      ISR_ISA_CMOSClock, ISR_ISA_PrimaryATAHardDisk], ps')"
proof
  fix ps
  have "set [1, 14, 7, 1, 8, 14 :: nat] \<subseteq> {..<16} - {2}" "count_list [1, 14, 7, 1, 8, 14 :: nat] 7 \<le> 1" by simp_all
  from interrupts_keep_coming [OF this, of None ps] show "\<exists>ps'. serve_lines None [1, 14, 7, 1, 8, 14]
      (fold pics_event (InitialisePIC 32 40) ps) =
    Some ([ISR_ISA_Keyboard, ISR_ISA_PrimaryATAHardDisk, ISR_ISA_LPT1_Spurious, ISR_ISA_Keyboard,
      ISR_ISA_CMOSClock, ISR_ISA_PrimaryATAHardDisk], ps')"
    by (auto simp: ISA_ISRs_def)
qed

end
