(* ===== verification/UefiBoot.thy ===== *)
theory UefiBoot
  imports UefiConsole BootFirmware PS2ControllerInit CpuFeatures CpuGraphicsDriver ErrorDisplay InterruptControllers
begin

text \<open>
  The boot program \<open>efi_main\<close> (src/src/Boot/x86_64-efi/UefiBoot.c), composed of the
  components.

  \<^item> \<open>uefi\<close>: the firmware's services that only \<open>efi_main\<close> calls. \<open>machine\<close>: the processor's
    \<open>cpuid\<close>, the ports, the addresses of the kernel's static data and of its assembly
    routines, and what memory holds before it is written.
  \<^item> The result is why the boot stopped, or the running kernel as it waits for interrupts;
    \<open>None\<close> is an endless loop. \<open>kernel_call\<close> lists, in the order of the code, the calls that
    act on the processor, the devices and the shell.
  \<^item> Interrupts are enabled before the report is written. The result is that of a boot in which
    no interrupt comes before the prompt is active; \<open>UefiConsole\<close> shows that one that comes
    during the report changes nothing.
\<close>

subsection \<open>The environment\<close>

record 'f uefi =
  bootServices :: "'f boot_services"
  svcSetWatchdogTimer :: "'f \<Rightarrow> u64 \<times> 'f"
  svcLocateProtocol :: "'f \<Rightarrow> u64 \<times> 'f"
  svcSetMode :: "u32 \<Rightarrow> 'f \<Rightarrow> u64 \<times> 'f"
  gopMode :: "'f \<Rightarrow> (u32 \<times> gop_mode) option"

record 'd machine =
  mc_cpuid :: "u32 \<Rightarrow> u32 \<Rightarrow> regs"
  mc_ports :: "'d ports"
  mc_keyboardStatus :: "nat \<Rightarrow> u8"
  mc_switchStart :: u64
  mc_switchEnd :: u64
  mc_tssStorage :: u64
  mc_gdtStorage :: u64
  mc_idtStorage :: u64
  mc_isr :: "isr \<Rightarrow> u64"
  mc_driverData :: fb_format
  mc_tables :: entries
  mc_mapBuffer :: "u64 \<Rightarrow> init_entry"
  mc_initialMemMap :: init_map
  mc_ranges :: "u64 \<Rightarrow> phys_range"
  mc_structs :: phys_structs
  mc_keyboard :: kb_state
  mc_tssAddress :: u64
  mc_tssSize :: u16
  mc_tssOffset :: u16
  mc_graphicsDriver :: u64
  mc_errorDisplay :: error_display

datatype boot_stop = Returned u64 | NullModeDereferenced | Panicked string

datatype kernel_call =
    BootPhase boot_event
  | EnableMemoryProtectionCpuFeatures
  | InitFloatingPointOperations
  | LoadGDT gdt_location u16 u64 u16
  | LoadIDT u16 u64
  | EnableSyscallExtension u16 u16
  | MachineEvent event
  | InitialisePS2Devices
  | ShellCreated u32 u32
  | EnableInterrupts
  | ConsoleCall console_op
  | PromptActivated

record 'd kernel =
  kn_cpu :: cpu
  kn_driver :: gr_drv
  kn_errorPrint :: error_print
  kn_tables :: entries
  kn_paging :: paging_settings
  kn_initialMemMap :: init_map
  kn_physMemReq :: structs_size_data
  kn_physMemAddress :: u64
  kn_physMem :: phys_structs
  kn_gdt :: "u64 list"
  kn_idt :: "u64 list"
  kn_ps2 :: ps2_init_result
  kn_keyboard :: kb_state
  kn_device :: 'd
  kn_shell :: shell

subsection \<open>Graphics\<close>

definition AllocDriverPool :: "'f boot_services \<Rightarrow> u64 \<Rightarrow> 'f \<Rightarrow> u64 option \<times> 'f" where
  "AllocDriverPool fw n f =
     (let (status, p, f) = svcAllocatePool fw EfiLoaderData n f
      in (if EFI_ERROR status then None else Some p, f))"

text \<open>\<open>DexprOS_InitCpuGraphicsDriver\<close> with its calls of the firmware; its data have 64 bytes.\<close>

definition InitGraphicsDriver ::
  "'f boot_services \<Rightarrow> gop_mode \<Rightarrow> fb_format \<Rightarrow> 'f \<Rightarrow> (drv_init_error + gr_drv) \<times> 'f" where
  "InitGraphicsDriver fw gop old f =
     (let (driverMemory, f) = (if PixelFormat gop = PixelBltOnly \<or> PixelFormat gop = PixelBitMask then (None, f)
            else AllocDriverPool fw 64 f);
          (backbufferMemory, f) = (if driverMemory = None then (None, f)
            else AllocDriverPool fw (FrameBufferSize gop) f);
          (r, freed) = InitCpuGraphicsDriver gop driverMemory backbufferMemory old
      in (r, fold (\<lambda>p f. snd (svcFreePool fw p f)) freed f))"

definition SetupGraphics :: "'f uefi \<Rightarrow> fb_format \<Rightarrow> 'f \<Rightarrow> (boot_stop + u32 \<times> u32 \<times> gr_drv) \<times> 'f" where
  "SetupGraphics fw old f =
     (let f = snd (svcSetWatchdogTimer fw f);
          (status, f) = svcLocateProtocol fw f
      in if EFI_ERROR status then (Inl (Returned status), f)
         else let currentVideoModeIndex = (case gopMode fw f of None \<Rightarrow> 0 | Some (i, gop) \<Rightarrow> i);
                  (status, f) = svcSetMode fw currentVideoModeIndex f
           in if EFI_ERROR status then (Inl (Returned status), f)
              else case gopMode fw f of None \<Rightarrow> (Inl NullModeDereferenced, f)
                | Some (i, gop) \<Rightarrow>
                    (case InitGraphicsDriver (bootServices fw) gop old f of
                       (Inl e, f) \<Rightarrow> (Inl (Returned EFI_OUT_OF_RESOURCES), f)
                     | (Inr drv, f) \<Rightarrow> (Inr (HorizontalResolution gop, VerticalResolution gop, drv), f)))"

subsection \<open>The kernel's tables and devices\<close>

definition no_task_state :: task_state where
  "no_task_state = \<lparr>rsp0 = 0, rsp1 = 0, rsp2 = 0, ist1 = 0, ist2 = 0, ist3 = 0, ist4 = 0, ist5 = 0,
     ist6 = 0, ist7 = 0, iopb = 0\<rparr>"

definition SetupProcessorTables :: "'d machine \<Rightarrow> (u64 list \<times> u64 list \<times> kernel_call list) option" where
  "SetupProcessorTables mc =
     (let (storage, tssAddress, tssSize) = SetupTaskStateSegments (mc_tssStorage mc) (\<lambda>_. no_task_state)
            (mc_tssAddress mc) (mc_tssSize mc) 1
      in do { (gdt, (location, code, dat, task), kernelCode, userBase, offsets) \<leftarrow>
                SetupGDT (mc_gdtStorage mc) (\<lambda>_. tssAddress) (\<lambda>_. tssSize) 1 (\<lambda>_. mc_tssOffset mc);
              let (idt, limit, idtAddress) = SetupIDT (mc_isr mc) (mc_idtStorage mc) (replicate 512 0) kernelCode;
              Some (gdt, idt, [LoadGDT location code dat task, LoadIDT limit idtAddress,
                EnableSyscallExtension kernelCode userBase]) })"

text \<open>The reason of a panic, or what the devices' drivers found.\<close>

definition SetupDevices :: "'d machine \<Rightarrow> 'd \<Rightarrow> (string + ps2_init_result \<times> kb_state \<times> 'd) option" where
  "SetupDevices mc d =
     (case InitialisePS2Controller (mc_ports mc) d of
        None \<Rightarrow> None
      | Some (Inl reason) \<Rightarrow> Some (Inl reason)
      | Some (Inr (ps2, d)) \<Rightarrow>
          do { kb \<leftarrow> (if hasKeyboard ps2
                 then InitialisePS2KeyboardDriver (mc_keyboardStatus mc) (Some GetKeyboardLayout_US) (mc_keyboard mc)
                 else Some (mc_keyboard mc));
               Some (Inr (ps2, kb, d)) })"

subsection \<open>The whole boot\<close>

definition Is5LevelPagingActive :: "cpu \<Rightarrow> bool" where
  "Is5LevelPagingActive c = (cpu_levels c = 5)"

definition FillPagingSettings :: "(u32 \<Rightarrow> u32 \<Rightarrow> regs) \<Rightarrow> cpu \<Rightarrow> paging_settings" where
  "FillPagingSettings cpuid c =
     (let s = g_PagingSettings\<lparr>pagingMode := PAGING_MODE_4_LEVEL\<rparr>;
          s = (if CheckCpu5LevelPagingSupport cpuid \<and> Is5LevelPagingActive c
               then s\<lparr>pagingMode := PAGING_MODE_5_LEVEL\<rparr> else s)
      in s\<lparr>noExecuteAvailable := CheckCpuHasNX cpuid\<rparr>)"

text \<open>After the boot phase, from the memory protection to the wait for interrupts.\<close>

definition StartKernel ::
  "'d machine \<Rightarrow> error_print \<Rightarrow> cpu \<Rightarrow> entries \<Rightarrow> efi_desc list \<Rightarrow> gr_drv \<Rightarrow> u32 \<Rightarrow> u32 \<Rightarrow> 'd \<Rightarrow>
    ((boot_stop + 'd kernel) \<times> kernel_call list) option" where
  "StartKernel mc g c m descs drv horizontalResolution verticalResolution d =
     (let calls = [EnableMemoryProtectionCpuFeatures];
          paging = FillPagingSettings (mc_cpuid mc) c;
          calls = calls @ [InitFloatingPointOperations]
      in do { memory \<leftarrow> SetupPhysicalMemory descs (mc_mapBuffer mc) (mc_initialMemMap mc) (mc_ranges mc) (mc_structs mc);
           case memory of
             Inl status \<Rightarrow> Some (Inl (Returned status), calls)
           | Inr (initialMemMap, physMemReq, pPhysicalMemData, physMem) \<Rightarrow>
               do { (gdt, idt, tableCalls) \<leftarrow> SetupProcessorTables mc;
                    let calls = calls @ tableCalls;
                    let calls = calls @ map MachineEvent (InitialisePIC 32 40);
                    let calls = calls @ [InitialisePS2Devices];
                    devices \<leftarrow> SetupDevices mc d;
                    case devices of
                      Inl reason \<Rightarrow> do { es \<leftarrow> KernelPanic g reason;
                                        Some (Inl (Panicked reason), calls @ map MachineEvent es) }
                    | Inr (ps2Result, kb, d) \<Rightarrow>
                        do { let shell = CreateShell horizontalResolution verticalResolution;
                             let calls = calls @ [ShellCreated horizontalResolution verticalResolution];
                             let c = c\<lparr>cpu_interrupts := True\<rparr>;
                             let calls = calls @ [EnableInterrupts];
                             let report = boot_report (CheckCpu5LevelPagingSupport (mc_cpuid mc)) (Is5LevelPagingActive c)
                               initialMemMap pPhysicalMemData (ss_bufferSize physMemReq) (st_map physMem);
                             let shell = fold console_call report shell;
                             let calls = calls @ map ConsoleCall report;
                             shell \<leftarrow> ShellActivatePrompt shell;
                             let calls = calls @ [PromptActivated];
                             Some (Inr \<lparr>kn_cpu = c, kn_driver = drv, kn_errorPrint = g, kn_tables = m,
                                 kn_paging = paging, kn_initialMemMap = initialMemMap, kn_physMemReq = physMemReq,
                                 kn_physMemAddress = pPhysicalMemData, kn_physMem = physMem,
                                 kn_gdt = gdt, kn_idt = idt, kn_ps2 = ps2Result, kn_keyboard = kb,
                                 kn_device = d, kn_shell = shell\<rparr>, calls) } } })"

definition efi_main ::
  "'f uefi \<Rightarrow> 'd machine \<Rightarrow> cpu \<Rightarrow> 'f \<Rightarrow> 'd \<Rightarrow> ((boot_stop + 'd kernel) \<times> kernel_call list) option" where
  "efi_main fw mc c f d =
     (case SetupGraphics fw (mc_driverData mc) f of
        (Inl stop, f) \<Rightarrow> Some (Inl stop, [])
      | (Inr (horizontalResolution, verticalResolution, drv), f) \<Rightarrow>
          (let (errorDisplay, g) = InitKernelErrorDisplay (mc_graphicsDriver mc) horizontalResolution (mc_errorDisplay mc)
           in case gopMode fw f of
             None \<Rightarrow> Some (Inl NullModeDereferenced, [])
           | Some (i, gop) \<Rightarrow>
               do { (status, mm, m, ev, f) \<leftarrow> EndBootPhase (bootServices fw) (mc_switchStart mc) (mc_switchEnd mc)
                      (CheckCpu5LevelPagingSupport (mc_cpuid mc)) (Is5LevelPagingActive c)
                      (FrameBufferBase gop) (FrameBufferSize gop) 0 0 f (mc_tables mc);
                    if EFI_ERROR status then Some (Inl (Returned status), map BootPhase ev)
                    else do { (r, calls) \<leftarrow> StartKernel mc g (fold cpu_step ev c) m (mm_descs mm) drv
                                horizontalResolution verticalResolution d;
                              Some (r, map BootPhase ev @ calls) } }))"

subsection \<open>The tables that are loaded\<close>

text \<open>The processor's view of the tables: the gates' routines and the code segment.\<close>

definition tables_ok :: "'d machine \<Rightarrow> u64 list \<Rightarrow> u64 list \<Rightarrow> u16 \<Rightarrow> bool" where
  "tables_ok mc gdt idt code =
     (cpu_mem_segment (gdt ! (unat code div 8)) =
        \<lparr>seg_base = 0, seg_limit = 0xFFFFF, seg_accessByte = 0x9A, seg_flags = 0xA\<rparr> \<and>
      (\<forall>v < 256. cpu_gate idt v = (case vector_isr v of
          None \<Rightarrow> \<lparr>int_offset = 0, segmentSelector = 0, int_ist = 0, int_flags = 0\<rparr>
        | Some r \<Rightarrow> \<lparr>int_offset = mc_isr mc r, segmentSelector = code, int_ist = 0,
            int_flags = (if v = 2 \<or> 32 \<le> v then 0x8E else 0x8F)\<rparr>)))"

lemma SetupProcessorTables_result:
  "\<exists>gdt idt location code dat task userBase.
    SetupProcessorTables mc = Some (gdt, idt, [LoadGDT location code dat task, LoadIDT 4095 (mc_idtStorage mc),
      EnableSyscallExtension code userBase]) \<and> tables_ok mc gdt idt code"
proof -
  obtain storage tssAddress tssSize where tss: "SetupTaskStateSegments (mc_tssStorage mc) (\<lambda>_. no_task_state)
      (mc_tssAddress mc) (mc_tssSize mc) 1 = (storage, tssAddress, tssSize)"
    by (cases "SetupTaskStateSegments (mc_tssStorage mc) (\<lambda>_. no_task_state) (mc_tssAddress mc) (mc_tssSize mc) 1")
  let ?gdt = "SetupGDT (mc_gdtStorage mc) (\<lambda>_. tssAddress) (\<lambda>_. tssSize) 1 (\<lambda>_. mc_tssOffset mc)"
  note layout = SetupGDT_layout [where gdtAddress = "mc_gdtStorage mc" and addrs = "\<lambda>_. tssAddress" and
      sizes = "\<lambda>_. tssSize" and n = 1 and offs = "\<lambda>_. mc_tssOffset mc"]
  then obtain gdt location code dat task kernelCode userBase offsets
    where gdt: "?gdt = Some (gdt, (location, code, dat, task), kernelCode, userBase, offsets)"
    by (cases ?gdt) auto
  have code: "kernelCode = code" "cpu_mem_segment (gdt ! (unat code div 8)) =
      \<lparr>seg_base = 0, seg_limit = 0xFFFFF, seg_accessByte = 0x9A, seg_flags = 0xA\<rparr>"
    using layout unfolding gdt by simp_all
  obtain idt limit address where idt: "SetupIDT (mc_isr mc) (mc_idtStorage mc) (replicate 512 0) code = (idt, limit, address)"
    by (cases "SetupIDT (mc_isr mc) (mc_idtStorage mc) (replicate 512 0) code")
  hence "limit = 4095" "address = mc_idtStorage mc" by (auto simp: SetupIDT_def Let_def)
  moreover have "tables_ok mc gdt idt code"
    using SetupIDT_table [where t = "replicate 512 0" and isr_address = "mc_isr mc" and
        idtAddress = "mc_idtStorage mc" and codeSeg = code] code(2)
    unfolding tables_ok_def idt by simp
  ultimately show ?thesis using tss gdt code(1) idt by (simp add: SetupProcessorTables_def)
qed

subsection \<open>Devices\<close>

lemma SetupDevices_returns:
  assumes "controller_ok (mc_ports mc) hw V busy delay" "delay d = 0"
    and "selftest hw = 0x55" "test1 hw = 0 \<or> dual hw \<and> test2 hw = 0"
    and "controller_ready (mc_keyboardStatus mc)" "cmd_bounds (mc_keyboard mc)"
  shows "\<exists>ps2 kb d'. SetupDevices mc d = Some (Inr (ps2, kb, d')) \<and> configured hw (config (V d')) \<and>
    hasKeyboard ps2 = (test1 hw = 0) \<and> (hasKeyboard ps2 \<longrightarrow> kb_wf kb)"
proof -
  obtain d' where d': "InitialisePS2Controller (mc_ports mc) d =
      Some (Inr (\<lparr>hasKeyboard = (test1 hw = 0), hasMouse = (dual hw \<and> test2 hw = 0)\<rparr>, d'))"
    "configured hw (config (V d'))"
    using InitialisePS2Controller_outcome [OF assms(1,2)] assms(3,4) by (auto split: if_splits)
  obtain kb where "InitialisePS2KeyboardDriver (mc_keyboardStatus mc) (Some GetKeyboardLayout_US) (mc_keyboard mc) = Some kb"
    "kb_wf kb"
    using init_wf [OF assms(5,6)] by blast
  thus ?thesis using d' by (simp add: SetupDevices_def)
qed

subsection \<open>A firmware and a machine that boot\<close>

text \<open>
  The services that only \<open>efi_main\<close> calls: each may fail. They leave the loader's pages alone,
  and the video mode, one of \<open>modes\<close> where its pointer is there, is not changed by the pools.
\<close>

definition services_ok :: "'f uefi \<Rightarrow> ('f \<Rightarrow> bool) \<Rightarrow> 'f firmware_view \<Rightarrow> gop_mode set \<Rightarrow> bool" where
  "services_ok fw I V modes = (\<forall>f. I f \<longrightarrow>
     (\<forall>f' \<in> {snd (svcSetWatchdogTimer fw f), snd (svcLocateProtocol fw f)} \<union> range (\<lambda>i. snd (svcSetMode fw i f)).
        I f' \<and> vw_pages V f' = vw_pages V f) \<and>
     (\<forall>i gop. gopMode fw f = Some (i, gop) \<longrightarrow> gop \<in> modes) \<and>
     (\<forall>mem n. gopMode fw (snd (snd (svcAllocatePool (bootServices fw) mem n f))) = gopMode fw f) \<and>
     (\<forall>p. gopMode fw (snd (svcFreePool (bootServices fw) p f)) = gopMode fw f))"

lemma services_okD:
  assumes "services_ok fw I V modes" "I f"
  shows "I (snd (svcSetWatchdogTimer fw f)) \<and> vw_pages V (snd (svcSetWatchdogTimer fw f)) = vw_pages V f"
    "svcLocateProtocol fw f = (status, f') \<Longrightarrow> I f' \<and> vw_pages V f' = vw_pages V f"
    "svcSetMode fw i f = (status, f') \<Longrightarrow> I f' \<and> vw_pages V f' = vw_pages V f"
    "gopMode fw f = Some (i, gop) \<Longrightarrow> gop \<in> modes"
    "svcAllocatePool (bootServices fw) mem n f = (status, p, f') \<Longrightarrow> gopMode fw f' = gopMode fw f"
    "svcFreePool (bootServices fw) p f = (status, f') \<Longrightarrow> gopMode fw f' = gopMode fw f"
proof -
  note laws = spec [OF assms(1) [unfolded services_ok_def], of f, THEN mp, OF assms(2)]
  note keeps = bspec [OF conjunct1 [OF laws]]
  show "I (snd (svcSetWatchdogTimer fw f)) \<and> vw_pages V (snd (svcSetWatchdogTimer fw f)) = vw_pages V f"
    by (rule keeps) simp
  have "I (snd (svcLocateProtocol fw f)) \<and> vw_pages V (snd (svcLocateProtocol fw f)) = vw_pages V f"
    by (rule keeps) simp
  thus "svcLocateProtocol fw f = (status, f') \<Longrightarrow> I f' \<and> vw_pages V f' = vw_pages V f" by simp
  have "I (snd (svcSetMode fw i f)) \<and> vw_pages V (snd (svcSetMode fw i f)) = vw_pages V f"
    by (rule keeps) simp
  thus "svcSetMode fw i f = (status, f') \<Longrightarrow> I f' \<and> vw_pages V f' = vw_pages V f" by simp
  note others = conjunct2 [OF laws]
  show "gopMode fw f = Some (i, gop) \<Longrightarrow> gop \<in> modes" using others by simp
  have "gopMode fw (snd (snd (svcAllocatePool (bootServices fw) mem n f))) = gopMode fw f" using others by simp
  thus "svcAllocatePool (bootServices fw) mem n f = (status, p, f') \<Longrightarrow> gopMode fw f' = gopMode fw f" by simp
  have "gopMode fw (snd (svcFreePool (bootServices fw) p f)) = gopMode fw f" using others by simp
  thus "svcFreePool (bootServices fw) p f = (status, f') \<Longrightarrow> gopMode fw f' = gopMode fw f" by simp
qed

definition unsupported_format :: "gop_mode \<Rightarrow> bool" where
  "unsupported_format gop = (PixelFormat gop = PixelBltOnly \<or> PixelFormat gop = PixelBitMask)"

text \<open>
  Why a boot may stop while the boot services are there: a service answered with the error
  that is returned, the driver got no pool or does not support the format, or there is no
  video mode behind the pointer.
\<close>

definition boot_refused :: "'f uefi \<Rightarrow> ('f \<Rightarrow> bool) \<Rightarrow> gop_mode set \<Rightarrow> boot_stop \<Rightarrow> bool" where
  "boot_refused fw I modes stop =
     (case stop of
        Returned status \<Rightarrow> EFI_ERROR status \<and>
          ((\<exists>f. I f \<and> (status = fst (svcLocateProtocol fw f) \<or> (\<exists>i. status = fst (svcSetMode fw i f)))) \<or>
           pool_refuses (bootServices fw) I status \<or>
           status = EFI_OUT_OF_RESOURCES \<and>
             ((\<exists>gop \<in> modes. unsupported_format gop) \<or> (\<exists>s. pool_refuses (bootServices fw) I s)))
      | NullModeDereferenced \<Rightarrow> \<exists>f. I f \<and> gopMode fw f = None
      | Panicked reason \<Rightarrow> False)"

text \<open>What the pools of the driver keep.\<close>

definition keeps_mode :: "'f uefi \<Rightarrow> ('f \<Rightarrow> bool) \<Rightarrow> 'f firmware_view \<Rightarrow> 'f \<Rightarrow> 'f \<Rightarrow> bool" where
  "keeps_mode fw I V f f' = (I f' \<and> vw_pages V f' = vw_pages V f \<and> gopMode fw f' = gopMode fw f)"

lemma AllocDriverPool_outcome:
  assumes "services_ok fw I V modes" "pool_services (bootServices fw) I V" "I f"
  obtains p f' where "AllocDriverPool (bootServices fw) n f = (p, f')" "keeps_mode fw I V f f'"
    "case p of None \<Rightarrow> \<exists>s. pool_refuses (bootServices fw) I s | Some p \<Rightarrow> (p, n) \<in> vw_pool V f'"
proof -
  obtain status p f' where pool: "svcAllocatePool (bootServices fw) EfiLoaderData n f = (status, p, f')"
    by (cases "svcAllocatePool (bootServices fw) EfiLoaderData n f")
  note law = AllocatePool_law [OF assms(2,3) pool]
  have keeps: "keeps_mode fw I V f f'"
    using law services_okD(5) [OF assms(1,3) pool] by (simp add: keeps_mode_def stays_def)
  show thesis
  proof (cases "EFI_ERROR status")
    case True
    hence "\<exists>s. pool_refuses (bootServices fw) I s" using pool_refusesI [where I = I, OF assms(3) pool] by blast
    thus ?thesis using that [of None f'] pool keeps True by (simp add: AllocDriverPool_def)
  next
    case False
    thus ?thesis using that [of "Some p" f'] pool keeps law by (simp add: AllocDriverPool_def)
  qed
qed

lemma keeps_mode_trans: "keeps_mode fw I V f f' \<Longrightarrow> keeps_mode fw I V f' f'' \<Longrightarrow> keeps_mode fw I V f f''"
  by (simp add: keeps_mode_def)

lemma InitGraphicsDriver_outcome:
  assumes "services_ok fw I V modes" "pool_services (bootServices fw) I V" "I f"
  obtains r f' where "InitGraphicsDriver (bootServices fw) gop old f = (r, f')" "keeps_mode fw I V f f'"
    "case r of Inl e \<Rightarrow> unsupported_format gop \<or> (\<exists>s. pool_refuses (bootServices fw) I s) | Inr drv \<Rightarrow> True"
proof (cases "unsupported_format gop")
  case True
  thus thesis using that [of "Inl DRV_INIT_UNSUPPORTED_FORMAT" f] assms(3)
    by (simp add: InitGraphicsDriver_def InitCpuGraphicsDriver_def unsupported_format_def keeps_mode_def)
next
  case False
  obtain p1 f1 where f1: "AllocDriverPool (bootServices fw) 64 f = (p1, f1)" "keeps_mode fw I V f f1"
    "case p1 of None \<Rightarrow> \<exists>s. pool_refuses (bootServices fw) I s | Some p \<Rightarrow> (p, 64) \<in> vw_pool V f1"
    by (rule AllocDriverPool_outcome [OF assms])
  show thesis
  proof (cases p1)
    case None
    thus ?thesis using that [of "Inl DRV_INIT_MEMORY_ERROR" f1] f1 False
      by (simp add: InitGraphicsDriver_def InitCpuGraphicsDriver_def unsupported_format_def)
  next
    case (Some p)
    have I1: "I f1" using f1(2) by (simp add: keeps_mode_def)
    obtain status q f2 where pool: "svcAllocatePool (bootServices fw) EfiLoaderData (FrameBufferSize gop) f1 = (status, q, f2)"
      by (cases "svcAllocatePool (bootServices fw) EfiLoaderData (FrameBufferSize gop) f1")
    note law = AllocatePool_law [OF assms(2) I1 pool]
    have f2: "keeps_mode fw I V f f2" "I f2"
      using law services_okD(5) [OF assms(1) I1 pool] f1(2) by (simp_all add: keeps_mode_def stays_def)
    show ?thesis
    proof (cases "EFI_ERROR status")
      case True
      have held: "(p, 64) \<in> vw_pool V f2" using law f1(3) Some True by simp
      obtain s3 f3 where f3: "svcFreePool (bootServices fw) p f2 = (s3, f3)" by fastforce
      have "keeps_mode fw I V f f3"
        using FreePool_law [OF assms(2) f2(2) held f3] services_okD(6) [OF assms(1) f2(2) f3] f2(1)
        by (simp add: keeps_mode_def stays_def)
      moreover have "\<exists>s. pool_refuses (bootServices fw) I s" using pool_refusesI [where I = I, OF I1 pool True] by blast
      ultimately show ?thesis using that [of "Inl DRV_INIT_MEMORY_ERROR" f3] f1(1) Some pool True f3 False
        by (simp add: InitGraphicsDriver_def InitCpuGraphicsDriver_def AllocDriverPool_def unsupported_format_def)
    next
      case ok: False
      obtain r where "InitCpuGraphicsDriver gop (Some p) (Some q) old = (Inr r, [])"
        using False by (simp add: InitCpuGraphicsDriver_def unsupported_format_def)
      thus ?thesis using that [of "Inr r" f2] f1(1) Some pool ok f2(1) False
        by (simp add: InitGraphicsDriver_def AllocDriverPool_def unsupported_format_def)
    qed
  qed
qed

text \<open>The graphics are set up with the mode that the firmware has then, or the boot stops.\<close>

lemma SetupGraphics_outcome:
  assumes "services_ok fw I V modes" "pool_services (bootServices fw) I V" "I f"
  obtains r f' where "SetupGraphics fw old f = (r, f')" "I f'" "vw_pages V f' = vw_pages V f"
    "case r of Inl stop \<Rightarrow> boot_refused fw I modes stop
     | Inr (width, height, drv) \<Rightarrow> \<exists>i gop. gopMode fw f' = Some (i, gop) \<and>
         width = HorizontalResolution gop \<and> height = VerticalResolution gop"
proof -
  let ?f1 = "snd (svcSetWatchdogTimer fw f)"
  have f1: "I ?f1" "vw_pages V ?f1 = vw_pages V f" using services_okD(1) [OF assms(1,3)] by simp_all
  obtain s2 f2 where f2: "svcLocateProtocol fw ?f1 = (s2, f2)" by fastforce
  have I2: "I f2" "vw_pages V f2 = vw_pages V f" using services_okD(2) [OF assms(1) f1(1) f2] f1(2) by simp_all
  show thesis
  proof (cases "EFI_ERROR s2")
    case True
    have "boot_refused fw I modes (Returned s2)" using True f1(1) f2 unfolding boot_refused_def by force
    thus ?thesis using that [of "Inl (Returned s2)" f2] f2 True I2 by (simp add: SetupGraphics_def Let_def)
  next
    case located: False
    let ?i = "case gopMode fw f2 of None \<Rightarrow> 0 | Some (i, gop) \<Rightarrow> i"
    obtain s3 f3 where f3: "svcSetMode fw ?i f2 = (s3, f3)" by fastforce
    have I3: "I f3" "vw_pages V f3 = vw_pages V f" using services_okD(3) [OF assms(1) I2(1) f3] I2(2) by simp_all
    show ?thesis
    proof (cases "EFI_ERROR s3")
      case True
      have "\<exists>i. s3 = fst (svcSetMode fw i f2)" using f3 by (metis fst_conv)
      hence "boot_refused fw I modes (Returned s3)" using True I2(1) unfolding boot_refused_def by auto
      thus ?thesis using that [of "Inl (Returned s3)" f3] f2 f3 located True I3 by (simp add: SetupGraphics_def Let_def)
    next
      case set: False
      show ?thesis
      proof (cases "gopMode fw f3")
        case None
        hence "boot_refused fw I modes NullModeDereferenced" using I3(1) by (auto simp: boot_refused_def)
        thus ?thesis using that [of "Inl NullModeDereferenced" f3] f2 f3 located set None I3
          by (simp add: SetupGraphics_def Let_def)
      next
        case (Some m)
        obtain i gop where m: "m = (i, gop)" by fastforce
        have gop: "gop \<in> modes" using services_okD(4) [OF assms(1) I3(1)] Some m by blast
        obtain r f4 where f4: "InitGraphicsDriver (bootServices fw) gop old f3 = (r, f4)" "keeps_mode fw I V f3 f4"
          "case r of Inl e \<Rightarrow> unsupported_format gop \<or> (\<exists>s. pool_refuses (bootServices fw) I s) | Inr drv \<Rightarrow> True"
          by (rule InitGraphicsDriver_outcome [OF assms(1,2) I3(1), of gop old])
        have I4: "I f4" "vw_pages V f4 = vw_pages V f" "gopMode fw f4 = Some (i, gop)"
          using f4(2) I3 Some m by (simp_all add: keeps_mode_def)
        show ?thesis
        proof (cases r)
          case (Inl e)
          have "boot_refused fw I modes (Returned EFI_OUT_OF_RESOURCES)"
            using f4(3) Inl gop unfolding boot_refused_def by auto
          thus ?thesis using that [of "Inl (Returned EFI_OUT_OF_RESOURCES)" f4] f2 f3 located set Some m f4(1) Inl I4
            by (simp add: SetupGraphics_def Let_def)
        next
          case (Inr drv)
          thus ?thesis
            using that [of "Inr (HorizontalResolution gop, VerticalResolution gop, drv)" f4] f2 f3 located set Some m f4(1) I4
            by (simp add: SetupGraphics_def Let_def)
        qed
      qed
    qed
  qed
qed

text \<open>
  A memory map that can be mapped, of whole pages in the lower half that do not overlap, with a
  small enough tree, and a screen on which the shell's counters do not overflow.
\<close>

definition bootable_map :: "nat \<Rightarrow> 'd machine \<Rightarrow> page_map_setup_type \<Rightarrow> gop_mode \<Rightarrow> efi_desc list \<Rightarrow> bool" where
  "bootable_map N mc ty gop descs =
     (mappable N (mc_switchStart mc) (mc_switchEnd mc) ty (FrameBufferBase gop) (FrameBufferSize gop) descs \<and>
      unat (HorizontalResolution gop) < 2147483639 \<and>
      sound_descs descs \<and> length descs < 2 ^ 50 \<and> list_all paged_desc descs \<and>
      (\<forall>b. map_home (efi_entries descs) b \<longrightarrow> structs_bytes (initial_entries descs b) < 2 ^ 59))"

text \<open>
  The kernel after the boot, with the firmware's final memory map \<open>descs\<close>, the initial memory
  map in the entry \<open>b\<close> and the structures in the entry \<open>e\<close>.
\<close>

definition kernel_up ::
  "hardware \<Rightarrow> ('d \<Rightarrow> controller) \<Rightarrow> 'd machine \<Rightarrow> gop_mode \<Rightarrow> efi_desc list \<Rightarrow> init_entry \<Rightarrow> init_entry \<Rightarrow> 'd kernel \<Rightarrow> bool" where
  "kernel_up hw V mc gop descs b e k =
     (let has5 = CheckCpu5LevelPagingSupport (mc_cpuid mc); es = initial_entries descs b; c = kn_cpu k
      in \<not> cpu_bootServices c \<and> cpu_interrupts c \<and> cpu_levels c = (if has5 then 5 else 4) \<and>
       kn_errorPrint k = snd (InitKernelErrorDisplay (mc_graphicsDriver mc) (HorizontalResolution gop) (mc_errorDisplay mc)) \<and>
       identity_map (cpu_levels c) (initial_bytes descs (FrameBufferBase gop) (FrameBufferSize gop))
         (kn_tables k) (cpu_pageMap c) \<and>
       pagingMode (kn_paging k) = (if has5 then PAGING_MODE_5_LEVEL else PAGING_MODE_4_LEVEL) \<and>
       init_map_list (kn_initialMemMap k) = es \<and> kn_physMemAddress k = physicalAddress e \<and>
       memory_ready es (physicalAddress e) (kn_physMemReq k) (kn_physMem k) \<and>
       configured hw (config (V (kn_device k))) \<and> hasKeyboard (kn_ps2 k) = (test1 hw = 0) \<and>
       (hasKeyboard (kn_ps2 k) \<longrightarrow> kb_wf (kn_keyboard k)) \<and>
       commandPromptEnabled (kn_shell k) \<and> command_line (kn_shell k) = [] \<and>
       log_text (kn_shell k) = last_n 65535 (map char32 (report_text (boot_report has5 has5 (kn_initialMemMap k)
         (kn_physMemAddress k) (ss_bufferSize (kn_physMemReq k)) (st_map (kn_physMem k)))) @ prompt_chars))"

text \<open>No region for the initial memory map, or then none for the structures.\<close>

definition no_room :: "efi_desc list \<Rightarrow> bool" where
  "no_room descs = ((\<forall>b. \<not> map_home (efi_entries descs) b) \<or>
     (\<exists>b. map_home (efi_entries descs) b \<and>
       find (entry_room (structs_bytes (initial_entries descs b))) (initial_entries descs b) = None))"

lemma StartKernel_outcome:
  fixes mc :: "'d machine"
  assumes "bootable_map N mc ty gop descs"
    and "controller_ok (mc_ports mc) hw V busy delay" "delay d = 0"
    and "selftest hw = 0x55" "test1 hw = 0 \<or> dual hw \<and> test2 hw = 0"
    and "controller_ready (mc_keyboardStatus mc)" "cmd_bounds (mc_keyboard mc)"
    and g: "g = snd (InitKernelErrorDisplay (mc_graphicsDriver mc) (HorizontalResolution gop) (mc_errorDisplay mc))"
    and has5: "has5 = CheckCpu5LevelPagingSupport (mc_cpuid mc)"
    and c: "\<not> cpu_bootServices c" "cpu_levels c = (if has5 then 5 else 4)"
      "identity_map (cpu_levels c) (initial_bytes descs (FrameBufferBase gop) (FrameBufferSize gop)) m (cpu_pageMap c)"
  shows "\<exists>r calls. StartKernel mc g c m descs drv (HorizontalResolution gop) height d = Some (r, calls) \<and>
    [ev. BootPhase ev \<leftarrow> calls] = [] \<and>
    (no_room descs \<and> r = Inl (Returned EFI_OUT_OF_RESOURCES) \<or>
     (\<exists>b e k. map_home (efi_entries descs) b \<and>
       find (entry_room (structs_bytes (initial_entries descs b))) (initial_entries descs b) = Some e \<and>
       r = Inr k \<and> kernel_up hw V mc gop descs b e k))"
proof -
  let ?memory = "SetupPhysicalMemory descs (mc_mapBuffer mc) (mc_initialMemMap mc) (mc_ranges mc) (mc_structs mc)"
  have map: "sound_descs descs" "length descs < 2 ^ 50" "list_all paged_desc descs"
    "\<forall>b. map_home (efi_entries descs) b \<longrightarrow> structs_bytes (initial_entries descs b) < 2 ^ 59"
    "unat (HorizontalResolution gop) < 2147483639"
    using assms(1) by (simp_all add: bootable_map_def)
  have outcome: "(\<exists>b. map_home (efi_entries descs) b \<and> memory_set_up ?memory (initial_entries descs b)) \<or>
      (\<forall>b. \<not> map_home (efi_entries descs) b) \<and> ?memory = Some (Inl EFI_OUT_OF_RESOURCES)"
    using SetupPhysicalMemory_outcome [OF map(1-4)] by metis
  consider (none) "no_room descs" "?memory = Some (Inl EFI_OUT_OF_RESOURCES)"
    | (some) b e im req st where "map_home (efi_entries descs) b"
      "find (entry_room (structs_bytes (initial_entries descs b))) (initial_entries descs b) = Some e"
      "?memory = Some (Inr (im, req, physicalAddress e, st))" "init_map_list im = initial_entries descs b"
      "memory_ready (initial_entries descs b) (physicalAddress e) req st"
    using outcome unfolding memory_set_up_def no_room_def
    by (fastforce split: option.splits)
  thus ?thesis
  proof cases
    case none
    thus ?thesis by (simp add: StartKernel_def)
  next
    case some
    obtain gdt idt location code dat task userBase where tables: "SetupProcessorTables mc = Some (gdt, idt,
        [LoadGDT location code dat task, LoadIDT 4095 (mc_idtStorage mc), EnableSyscallExtension code userBase])"
      using SetupProcessorTables_result [of mc] by blast
    obtain ps2 kb d' where devices: "SetupDevices mc d = Some (Inr (ps2, kb, d'))" "configured hw (config (V d'))"
      "hasKeyboard ps2 = (test1 hw = 0)" "hasKeyboard ps2 \<longrightarrow> kb_wf kb"
      using SetupDevices_returns [OF assms(2-7)] by blast
    have is5: "Is5LevelPagingActive c = has5" using c(2) by (simp add: Is5LevelPagingActive_def)
    let ?report = "boot_report has5 has5 im (physicalAddress e) (ss_bufferSize req) (st_map st)"
    obtain s where s: "ShellActivatePrompt (fold console_call ?report (CreateShell (HorizontalResolution gop) height)) = Some s"
      "commandPromptEnabled s" "command_line s = []"
      "log_text s = last_n 65535 (last_n 65535 (map char32 (report_text ?report)) @ prompt_chars)"
      using boot_report_shown [OF map(5)] by metis
    have paging: "pagingMode (FillPagingSettings (mc_cpuid mc) c) = (if has5 then PAGING_MODE_5_LEVEL else PAGING_MODE_4_LEVEL)"
      using is5 by (simp add: FillPagingSettings_def Let_def has5)
    have is5': "Is5LevelPagingActive (c\<lparr>cpu_interrupts := True\<rparr>) = has5" using c(2) by (simp add: Is5LevelPagingActive_def)
    define k where "k = \<lparr>kn_cpu = c\<lparr>cpu_interrupts := True\<rparr>, kn_driver = drv, kn_errorPrint = g, kn_tables = m,
      kn_paging = FillPagingSettings (mc_cpuid mc) c, kn_initialMemMap = im, kn_physMemReq = req,
      kn_physMemAddress = physicalAddress e, kn_physMem = st, kn_gdt = gdt, kn_idt = idt, kn_ps2 = ps2,
      kn_keyboard = kb, kn_device = d', kn_shell = s\<rparr>"
    have "\<exists>calls. StartKernel mc g c m descs drv (HorizontalResolution gop) height d = Some (Inr k, calls) \<and>
        [ev. BootPhase ev \<leftarrow> calls] = []"
      using some(3) tables devices(1) s(1) is5'
      by (simp add: StartKernel_def k_def has5 [symmetric] Let_def) auto
    moreover have "kernel_up hw V mc gop descs b e k"
      using some(4,5) devices(2-4) s(2-4) c paging
      by (simp add: kernel_up_def k_def g has5 [symmetric] Let_def last_n_append)
    ultimately show ?thesis using some(1,2) by blast
  qed
qed

lemma boot_phase_events: "[ev. BootPhase ev \<leftarrow> map BootPhase evs @ calls] = evs @ [ev. BootPhase ev \<leftarrow> calls]"
  by (induction evs) simp_all

lemma cpu_bootServices_lost: "\<not> cpu_bootServices c \<Longrightarrow> \<not> cpu_bootServices (fold cpu_step evs c)"
proof (induction evs arbitrary: c)
  case (Cons ev evs)
  have "\<not> cpu_bootServices (cpu_step ev c)" using Cons.prems by (cases ev) simp_all
  thus ?case using Cons.IH by simp
qed simp

text \<open>
  How a boot ends: it stops while the boot services are there, without having touched the
  processor; or, with a memory map of the firmware, for lack of memory or with the kernel up.
\<close>

definition boot_outcome ::
  "'f uefi \<Rightarrow> ('f \<Rightarrow> bool) \<Rightarrow> 'f firmware_view \<Rightarrow> gop_mode set \<Rightarrow> hardware \<Rightarrow> ('d \<Rightarrow> controller) \<Rightarrow> 'd machine \<Rightarrow> cpu \<Rightarrow>
    boot_stop + 'd kernel \<Rightarrow> kernel_call list \<Rightarrow> bool" where
  "boot_outcome fw I V modes hw D mc c r calls =
     ((\<exists>stop. r = Inl stop \<and> boot_refused fw I modes stop \<and> calls = []) \<or>
      (\<exists>f. \<exists>gop \<in> modes. I f \<and> \<not> cpu_bootServices (fold cpu_step [ev. BootPhase ev \<leftarrow> calls] c) \<and>
        (no_room (vw_descs V f) \<and> r = Inl (Returned EFI_OUT_OF_RESOURCES) \<or>
         (\<exists>b e k. map_home (efi_entries (vw_descs V f)) b \<and>
           find (entry_room (structs_bytes (initial_entries (vw_descs V f) b))) (initial_entries (vw_descs V f) b) = Some e \<and>
           r = Inr k \<and> kernel_up hw D mc gop (vw_descs V f) b e k))))"

lemma efi_main_outcome:
  fixes mc :: "'d machine"
  defines "has5 \<equiv> CheckCpu5LevelPagingSupport (mc_cpuid mc)"
  assumes services: "services_ok fw I V modes" "firmware_ok (bootServices fw) I V B"
      "enough_pages (bootServices fw) I V N" "I f" "vw_pages V f = {}"
    and map: "\<And>f gop. I f \<Longrightarrow> gop \<in> modes \<Longrightarrow>
      bootable_map N mc (GetPageMapSetupType has5 (Is5LevelPagingActive c)) gop (vw_descs V f)"
    and code: "mc_switchStart mc \<le> mc_switchEnd mc" "unat (mc_switchEnd mc - mc_switchStart mc) < 2 ^ 51"
    and levels: "cpu_levels c = levels_before (GetPageMapSetupType has5 (Is5LevelPagingActive c))"
    and devices: "controller_ok (mc_ports mc) hw D busy delay" "delay d = 0"
      "selftest hw = 0x55" "test1 hw = 0 \<or> dual hw \<and> test2 hw = 0"
      "controller_ready (mc_keyboardStatus mc)" "cmd_bounds (mc_keyboard mc)"
  shows "\<exists>r calls. efi_main fw mc c f d = Some (r, calls) \<and> boot_outcome fw I V modes hw D mc c r calls"
proof -
  let ?ty = "GetPageMapSetupType has5 (Is5LevelPagingActive c)"
  have pools: "pool_services (bootServices fw) I V" using services(2) by (simp add: firmware_ok_def)
  obtain r1 f1 where f1: "SetupGraphics fw (mc_driverData mc) f = (r1, f1)" "I f1" "vw_pages V f1 = vw_pages V f"
    "case r1 of Inl stop \<Rightarrow> boot_refused fw I modes stop
     | Inr (width, height, drv) \<Rightarrow> \<exists>i gop. gopMode fw f1 = Some (i, gop) \<and>
         width = HorizontalResolution gop \<and> height = VerticalResolution gop"
    by (rule SetupGraphics_outcome [OF services(1) pools services(4)])
  show ?thesis
  proof (cases r1)
    case (Inl stop)
    hence "efi_main fw mc c f d = Some (Inl stop, [])" using f1(1) by (simp add: efi_main_def)
    thus ?thesis using f1(4) Inl by (simp add: boot_outcome_def)
  next
    case (Inr graphics)
    then obtain i gop drv where graphics: "graphics = (HorizontalResolution gop, VerticalResolution gop, drv)"
      "gopMode fw f1 = Some (i, gop)" using f1(4) by (cases graphics) auto
    have gop: "gop \<in> modes" using services_okD(4) [OF services(1) f1(2) graphics(2)] .
    have maps: "mappable N (mc_switchStart mc) (mc_switchEnd mc) ?ty (FrameBufferBase gop) (FrameBufferSize gop) (vw_descs V g)"
      if "I g" for g
      using map [OF that gop] by (simp add: bootable_map_def)
    have none: "vw_pages V f1 = {}" using f1(3) services(5) by simp
    have ended: "\<exists>s mm m ev f2. EndBootPhase (bootServices fw) (mc_switchStart mc) (mc_switchEnd mc) has5
        (Is5LevelPagingActive c) (FrameBufferBase gop) (FrameBufferSize gop) 0 0 f1 (mc_tables mc) = Some (s, mm, m, ev, f2) \<and>
      (if EFI_ERROR s then pool_refuses (bootServices fw) I s \<and> I f2 \<and> m = mc_tables mc \<and> ev = []
       else s = EFI_SUCCESS \<and> mm_descs mm = vw_descs V f2 \<and> (\<exists>g. I g \<and> mm_descs mm = vw_descs V g) \<and>
         boot_phase_ended has5 (FrameBufferBase gop) (FrameBufferSize gop) c mm m ev)"
      by (rule EndBootPhase_outcome [OF services(2,3) maps f1(2) none code levels])
    obtain s mm m ev f2 where boot: "EndBootPhase (bootServices fw) (mc_switchStart mc) (mc_switchEnd mc) has5
        (Is5LevelPagingActive c) (FrameBufferBase gop) (FrameBufferSize gop) 0 0 f1 (mc_tables mc) = Some (s, mm, m, ev, f2)"
      "if EFI_ERROR s then pool_refuses (bootServices fw) I s \<and> I f2 \<and> m = mc_tables mc \<and> ev = []
       else s = EFI_SUCCESS \<and> mm_descs mm = vw_descs V f2 \<and> (\<exists>g. I g \<and> mm_descs mm = vw_descs V g) \<and>
         boot_phase_ended has5 (FrameBufferBase gop) (FrameBufferSize gop) c mm m ev"
      using ended by (elim exE conjE) (rule that, assumption+)
    define g where "g = snd (InitKernelErrorDisplay (mc_graphicsDriver mc) (HorizontalResolution gop) (mc_errorDisplay mc))"
    have run: "efi_main fw mc c f d = (if EFI_ERROR s then Some (Inl (Returned s), map BootPhase ev)
        else do { (r, calls) \<leftarrow> StartKernel mc g (fold cpu_step ev c) m (mm_descs mm) drv
                    (HorizontalResolution gop) (VerticalResolution gop) d;
                  Some (r, map BootPhase ev @ calls) })"
      using f1(1) Inr graphics boot(1) by (simp add: efi_main_def has5_def g_def split_beta)
    show ?thesis
    proof (cases "EFI_ERROR s")
      case True
      hence "efi_main fw mc c f d = Some (Inl (Returned s), [])" "boot_refused fw I modes (Returned s)"
        using run boot(2) by (simp_all add: boot_refused_def)
      thus ?thesis by (auto simp: boot_outcome_def)
    next
      case False
      obtain f3 where f3: "I f3" "mm_descs mm = vw_descs V f3" using boot(2) unfolding if_not_P [OF False] by blast
      have ended: "\<not> cpu_bootServices (fold cpu_step ev c)" "cpu_levels (fold cpu_step ev c) = (if has5 then 5 else 4)"
        "identity_map (cpu_levels (fold cpu_step ev c))
          (initial_bytes (mm_descs mm) (FrameBufferBase gop) (FrameBufferSize gop)) m (cpu_pageMap (fold cpu_step ev c))"
        using boot(2) unfolding if_not_P [OF False] boot_phase_ended_def Let_def by blast+
      obtain r calls where start: "StartKernel mc g (fold cpu_step ev c) m (mm_descs mm) drv (HorizontalResolution gop)
          (VerticalResolution gop) d = Some (r, calls)" "[ev. BootPhase ev \<leftarrow> calls] = []"
        "no_room (mm_descs mm) \<and> r = Inl (Returned EFI_OUT_OF_RESOURCES) \<or>
         (\<exists>b e k. map_home (efi_entries (mm_descs mm)) b \<and>
           find (entry_room (structs_bytes (initial_entries (mm_descs mm) b))) (initial_entries (mm_descs mm) b) = Some e \<and>
           r = Inr k \<and> kernel_up hw D mc gop (mm_descs mm) b e k)"
        using StartKernel_outcome [where drv = drv and height = "VerticalResolution gop", OF map [OF f3(1) gop, folded f3(2)] devices g_def meta_eq_to_obj_eq [OF has5_def] ended]
        by (elim exE conjE) (rule that, assumption+)
      have "efi_main fw mc c f d = Some (r, map BootPhase ev @ calls)" using run False start(1) by simp
      moreover have "[ev. BootPhase ev \<leftarrow> map BootPhase ev @ calls] = ev" by (simp only: boot_phase_events start(2) append_Nil2)
      hence "boot_outcome fw I V modes hw D mc c r (map BootPhase ev @ calls)"
        unfolding boot_outcome_def using f3(1) gop ended(1) start(3) [unfolded f3(2)] by metis
      ultimately show ?thesis by blast
    qed
  qed
qed

subsection \<open>The order of the calls\<close>

text \<open>
  What has happened when interrupts are enabled, and what follows: both tables are loaded, the
  interrupt controllers have been told the vectors whose gates lead to their lines' routines,
  the devices are initialised and the shell is created; only the report and the prompt follow.
\<close>

definition interrupts_safe :: "'d machine \<Rightarrow> 'd kernel \<Rightarrow> kernel_call list \<Rightarrow> bool" where
  "interrupts_safe mc k calls =
     (\<exists>before report location code dat task width height.
       calls = before @ EnableInterrupts # map ConsoleCall report @ [PromptActivated] \<and>
       EnableInterrupts \<notin> set before \<and> InitialisePS2Devices \<in> set before \<and> ShellCreated width height \<in> set before \<and>
       LoadGDT location code dat task \<in> set before \<and> LoadIDT 4095 (mc_idtStorage mc) \<in> set before \<and>
       cpu_mem_segment (kn_gdt k ! (unat code div 8)) =
         \<lparr>seg_base = 0, seg_limit = 0xFFFFF, seg_accessByte = 0x9A, seg_flags = 0xA\<rparr> \<and>
       (\<forall>ps. \<forall>n < 16. cpu_gate (kn_idt k) (line_vector (fold pics_event [e. MachineEvent e \<leftarrow> before] ps) n) =
         \<lparr>int_offset = mc_isr mc (ISA_ISRs ! n), segmentSelector = code, int_ist = 0, int_flags = 0x8E\<rparr>))"

lemma not_enabled [simp]: "EnableInterrupts \<notin> MachineEvent ` A" "EnableInterrupts \<notin> BootPhase ` B"
  by auto

lemma machine_events:
  "[e. MachineEvent e \<leftarrow> xs @ ys] = [e. MachineEvent e \<leftarrow> xs] @ [e. MachineEvent e \<leftarrow> ys]"
  "[e. MachineEvent e \<leftarrow> map MachineEvent es] = es"
  "[e. MachineEvent e \<leftarrow> map BootPhase evs] = []"
proof -
  show "[e. MachineEvent e \<leftarrow> map MachineEvent es] = es" by (induction es) simp_all
  show "[e. MachineEvent e \<leftarrow> map BootPhase evs] = []" by (induction evs) simp_all
qed simp

lemma irq_gates:
  assumes "tables_ok mc gdt idt code" "n < 16"
  shows "cpu_gate idt (line_vector (fold pics_event (InitialisePIC 32 40) ps) n) =
    \<lparr>int_offset = mc_isr mc (ISA_ISRs ! n), segmentSelector = code, int_ist = 0, int_flags = 0x8E\<rparr>"
proof -
  have "line_vector (fold pics_event (InitialisePIC 32 40) ps) n = 32 + n"
    using pics_ready_vector [OF InitialisePIC_ready [of 32 40 ps], of n] by simp
  moreover have "vector_isr (32 + n) = Some (ISA_ISRs ! n)" using assms(2) by (simp add: vector_isr_def)
  ultimately show ?thesis using assms by (simp add: tables_ok_def)
qed

lemma StartKernel_calls:
  assumes "StartKernel mc g c m descs drv width height d = Some (r, calls)"
  shows "case r of Inl stop \<Rightarrow> EnableInterrupts \<notin> set calls
    | Inr k \<Rightarrow> interrupts_safe mc k (map BootPhase evs @ calls)"
proof -
  obtain gdt idt location code dat task userBase where tables: "SetupProcessorTables mc = Some (gdt, idt,
      [LoadGDT location code dat task, LoadIDT 4095 (mc_idtStorage mc), EnableSyscallExtension code userBase])"
    "tables_ok mc gdt idt code"
    using SetupProcessorTables_result [of mc] by blast
  let ?tables = "[EnableMemoryProtectionCpuFeatures, InitFloatingPointOperations, LoadGDT location code dat task,
    LoadIDT 4095 (mc_idtStorage mc), EnableSyscallExtension code userBase]"
  let ?calls = "?tables @ map MachineEvent (InitialisePIC 32 40) @ [InitialisePS2Devices, ShellCreated width height]"
  from assms consider (stop) stop where "r = Inl stop" "EnableInterrupts \<notin> set calls"
    | (up) k report where "r = Inr k" "calls = ?calls @ EnableInterrupts # map ConsoleCall report @ [PromptActivated]"
        "kn_gdt k = gdt" "kn_idt k = idt"
    unfolding StartKernel_def tables(1) Let_def
    by (auto split: bind_splits sum.splits prod.splits)
  thus ?thesis
  proof cases
    case stop
    thus ?thesis by simp
  next
    case up
    let ?before = "map BootPhase evs @ ?calls"
    have rest: "[e. MachineEvent e \<leftarrow> ?tables] = []" "[e. MachineEvent e \<leftarrow> [InitialisePS2Devices, ShellCreated width height]] = []"
      by simp_all
    have events: "[e. MachineEvent e \<leftarrow> ?before] = InitialisePIC 32 40"
      by (simp only: machine_events rest append_Nil append_Nil2)
    have gates: "\<forall>ps. \<forall>n < 16. cpu_gate idt (line_vector (fold pics_event [e. MachineEvent e \<leftarrow> ?before] ps) n) =
        \<lparr>int_offset = mc_isr mc (ISA_ISRs ! n), segmentSelector = code, int_ist = 0, int_flags = 0x8E\<rparr>"
      unfolding events using irq_gates [OF tables(2)] by blast
    have code: "cpu_mem_segment (gdt ! (unat code div 8)) =
        \<lparr>seg_base = 0, seg_limit = 0xFFFFF, seg_accessByte = 0x9A, seg_flags = 0xA\<rparr>"
      using tables(2) by (simp add: tables_ok_def)
    have "map BootPhase evs @ calls = ?before @ EnableInterrupts # map ConsoleCall report @ [PromptActivated]"
      using up(2) by simp
    moreover have "EnableInterrupts \<notin> set ?before" "InitialisePS2Devices \<in> set ?before" "ShellCreated width height \<in> set ?before"
      "LoadGDT location code dat task \<in> set ?before" "LoadIDT 4095 (mc_idtStorage mc) \<in> set ?before" by simp_all
    ultimately have "interrupts_safe mc k (map BootPhase evs @ calls)"
      unfolding interrupts_safe_def up(3,4) using gates code by blast
    thus ?thesis using up(1) by simp
  qed
qed

lemma efi_main_calls:
  assumes "efi_main fw mc c f d = Some (r, calls)"
  shows "case r of Inl stop \<Rightarrow> EnableInterrupts \<notin> set calls | Inr k \<Rightarrow> interrupts_safe mc k calls"
proof -
  consider (stop) stop where "r = Inl stop" "EnableInterrupts \<notin> set calls"
    | (start) ev g c' m descs drv width height calls' where "calls = map BootPhase ev @ calls'"
      "StartKernel mc g c' m descs drv width height d = Some (r, calls')"
    using assms unfolding efi_main_def
    by (auto split: prod.splits sum.splits option.splits if_splits bind_splits)
  thus ?thesis
  proof cases
    case stop
    thus ?thesis by simp
  next
    case start
    thus ?thesis using StartKernel_calls [OF start(2), of ev] by (auto split: sum.splits)
  qed
qed

subsection \<open>Properties\<close>

text \<open>
  C1: Every boot ends, in one of three ways. Let the firmware follow the UEFI specification:
  each service may fail, the pointer to the video mode may be missing, and the memory map may
  change finitely often by itself. Let its memory maps be such that they can be mapped, with
  enough memory for the page tables, and let the PS/2 controller work. Then \<open>efi_main\<close>
  neither hangs nor panics.

  \<^item> Either a service refuses: the boot returns this service's error, or that of the graphics
    driver, or it stops at a missing video mode. The processor is untouched and the boot
    services are still there.
  \<^item> Or, with a memory map that the firmware has reported, there is no room for the initial
    memory map or the structures: \<open>efi_main\<close> returns \<open>EFI_OUT_OF_RESOURCES\<close>, but to a firmware
    whose boot services have ended already.
  \<^item> Or the kernel is up, with interrupts enabled: it runs on the identity map of this memory
    map, with the number of levels that its settings say; the map and the tree of free pages
    are in the first region with room (or, when this region is at address 0, the tree's
    pointer is null); the controller and the keyboard driver are in a valid state; and
    the shell shows the report of all this with its prompt active behind it.
\<close>

theorem efi_main_boots:
  fixes mc :: "'d machine"
  defines "has5 \<equiv> CheckCpu5LevelPagingSupport (mc_cpuid mc)"
  assumes "services_ok fw I V modes" "firmware_ok (bootServices fw) I V B"
      "enough_pages (bootServices fw) I V N" "I f" "vw_pages V f = {}"
    and "\<And>f gop. I f \<Longrightarrow> gop \<in> modes \<Longrightarrow>
      bootable_map N mc (GetPageMapSetupType has5 (Is5LevelPagingActive c)) gop (vw_descs V f)"
    and "mc_switchStart mc \<le> mc_switchEnd mc" "unat (mc_switchEnd mc - mc_switchStart mc) < 2 ^ 51"
    and "cpu_levels c = levels_before (GetPageMapSetupType has5 (Is5LevelPagingActive c))"
    and "controller_ok (mc_ports mc) hw D busy delay" "delay d = 0"
      "selftest hw = 0x55" "test1 hw = 0 \<or> dual hw \<and> test2 hw = 0"
      "controller_ready (mc_keyboardStatus mc)" "cmd_bounds (mc_keyboard mc)"
  shows "\<exists>r calls. efi_main fw mc c f d = Some (r, calls) \<and>
    ((\<exists>stop. r = Inl stop \<and> boot_refused fw I modes stop \<and> calls = []) \<or>
     (\<exists>f. \<exists>gop \<in> modes. I f \<and> \<not> cpu_bootServices (fold cpu_step [ev. BootPhase ev \<leftarrow> calls] c) \<and>
       (no_room (vw_descs V f) \<and> r = Inl (Returned EFI_OUT_OF_RESOURCES) \<or>
        (\<exists>b e k. map_home (efi_entries (vw_descs V f)) b \<and>
          find (entry_room (structs_bytes (initial_entries (vw_descs V f) b))) (initial_entries (vw_descs V f) b) = Some e \<and>
          r = Inr k \<and> kernel_up hw D mc gop (vw_descs V f) b e k))))"
  using efi_main_outcome [OF assms(2-6) assms(7-10) [unfolded has5_def] assms(11-16)] unfolding boot_outcome_def .

text \<open>A machine with 4-level paging and two pages of free memory.\<close>

definition free_pages :: "efi_desc list" where
  "free_pages = [\<lparr>efi_Type = EfiConventionalMemory, efi_PhysicalStart = 0x1000,
      efi_VirtualStart = 0, efi_NumberOfPages = 2, efi_Attribute = 0xF\<rparr>]"

definition small_gop :: gop_mode where
  "small_gop = \<lparr>HorizontalResolution = 32, VerticalResolution = 8,
     PixelFormat = PixelBlueGreenRedReserved8BitPerColor, PixelsPerScanLine = 32,
     FrameBufferBase = 0x200000, FrameBufferSize = 0x1000\<rparr>"

definition small_firmware :: "firmware_state uefi" where
  "small_firmware = \<lparr>bootServices = model_firmware free_pages 256,
     svcSetWatchdogTimer = \<lambda>f. (EFI_SUCCESS, f), svcLocateProtocol = \<lambda>f. (EFI_SUCCESS, f),
     svcSetMode = \<lambda>i f. (EFI_SUCCESS, f), gopMode = \<lambda>f. Some (0, small_gop)\<rparr>"

definition small_machine :: "(controller \<times> nat \<times> nat) machine" where
  "small_machine = \<lparr>mc_cpuid = \<lambda>a c. zero_regs, mc_ports = one_port_controller, mc_keyboardStatus = \<lambda>n. 0,
     mc_switchStart = 0x300000, mc_switchEnd = 0x300060, mc_tssStorage = 0x400000, mc_gdtStorage = 0x401000,
     mc_idtStorage = 0x402000, mc_isr = \<lambda>r. 0x500000, mc_driverData = FRAMEBUFFER_RGB8_RESERVED8,
     mc_tables = \<lambda>a. 7, mc_mapBuffer = \<lambda>a. undefined, mc_initialMemMap = undefined, mc_ranges = \<lambda>a. undefined,
     mc_structs = undefined, mc_keyboard = zero_state, mc_tssAddress = 0, mc_tssSize = 0, mc_tssOffset = 0,
     mc_graphicsDriver = 0x403000, mc_errorDisplay = \<lparr>g_pGraphicsDrv = 0, g_textConsoleWidth = 0\<rparr>\<rparr>"

definition small_cpu :: cpu where
  "small_cpu = \<lparr>cpu_bootServices = True, cpu_interrupts = True, cpu_levels = 4, cpu_pageMap = 0\<rparr>"

lemma free_pages_sorted: "sorted_descs free_pages = free_pages"
  by (simp add: sorted_descs_def free_pages_def)

lemma free_pages_sound: "sound_descs free_pages"
  unfolding sound_descs_def free_pages_sorted
  by (simp add: free_pages_def sound_desc_def ascending_def range_start_def range_end_def
      entry_range_def efi_entry_def)

lemma free_pages_entries: "efi_entries free_pages =
    [\<lparr>memoryType = TYPE_USABLE, usage = USAGE_MAPPED, flags = 0xF, physicalAddress = 0x1000,
       virtualAddress = 0x1000, numPhysicalPages = 2\<rparr>]"
  unfolding efi_entries_def free_pages_sorted
  by (simp add: free_pages_def efi_entry_def
      ToDexprOSMemType_def ToDexprOSInitialMemMapUsage_def ToDexprOSAttributeFlags_def attr_flag_def)

lemma free_pages_home: "map_home (efi_entries free_pages) b \<longleftrightarrow> b = hd (efi_entries free_pages)"
  by (auto simp: free_pages_entries map_home_def usable_entry_def map_pages_def map_bytes_def)

definition free_pages_map :: "init_entry list" where
  "free_pages_map =
    [\<lparr>memoryType = TYPE_USABLE, usage = USAGE_INITIAL_MEMMAP, flags = 0xF, physicalAddress = 0x1000,
       virtualAddress = 0x1000, numPhysicalPages = 1\<rparr>,
     \<lparr>memoryType = TYPE_USABLE, usage = USAGE_MAPPED, flags = 0xF, physicalAddress = 0x2000,
       virtualAddress = 0x2000, numPhysicalPages = 1\<rparr>]"

lemma free_pages_initial: "initial_entries free_pages (hd (efi_entries free_pages)) = free_pages_map"
  by (simp add: initial_entries_def free_pages_entries split_entries_def split_entry_def pages_for_def free_pages_map_def)

lemma free_pages_ranges: "combined_ranges free_pages_map =
    [\<lparr>range_type = TYPE_USABLE, range_address = 0x1000, range_size = 0x2000, range_flags = 0xF\<rparr>]"
  by (simp add: free_pages_map_def entry_range_def first_range_def)

lemma free_pages_bytes: "structs_bytes free_pages_map \<le> 4096"
  by (simp add: structs_bytes_def free_pages_ranges tree_ranges_def tree_bytes_def range_levels_def
      rdepth_def range_start_def range_end_def sample_initial_depth own_bytes_def rnum_def upt_rec
      lnum_def lmax_def lmin_def bsz_def)

lemma free_pages_room: "find (entry_room (structs_bytes free_pages_map)) free_pages_map = Some (free_pages_map ! 1)"
  using free_pages_bytes by (simp add: free_pages_map_def entry_room_def usable_entry_def)

lemma free_pages_tables:
  "card (tables_of 3 ({4096..<12288} \<union> {2097152..<2101248})) = 4"
proof -
  have b: "block l ` ({4096..<12288} \<union> {2097152..<2101248}) =
      {block l 4096..block l 12287} \<union> {block l 2097152..block l 2101247}" for l
    by (simp add: image_Un block_interval)
  have "card (tables_of (Suc (Suc (Suc 0))) ({4096..<12288} \<union> {2097152..<2101248})) = 4"
    by (simp only: card_tables_of finite_Un finite_atLeastLessThan b simp_thms) (simp add: block_def)
  thus ?thesis by (simp only: numeral_3_eq_3)
qed

lemma free_pages_mapped: "initial_bytes free_pages 0x200000 0x1000 = {4096..<12288} \<union> {2097152..<2101248}"
  "transitional_pages free_pages = {}"
  by (simp_all add: free_pages_def initial_bytes_def included_bytes_def ShouldIncludeInPageMap_def
      ShouldIncludeInTransitionalPageMap_def desc_bytes_def)

lemma free_pages_map_ok: "memory_map_ok PAGE_MAP_4_SETUP 0x200000 0x1000 free_pages"
  by (simp add: memory_map_ok_def level_bits_def region_fits_def free_pages_def ranges_ok_def
      ShouldIncludeInPageMap_def ShouldIncludeInTransitionalPageMap_def desc_last_def)

lemma free_pages_bootable: "bootable_map 256 small_machine PAGE_MAP_4_SETUP small_gop free_pages"
proof -
  have "page_map_bytes PAGE_MAP_4_SETUP free_pages 0x200000 0x1000 = 20480"
    by (simp only: simp_thms if_True table_bytes_def free_pages_mapped free_pages_tables) simp
  moreover have "transitional_bytes free_pages = 4096"
    by (simp add: table_bytes_def free_pages_mapped(2) tables_of_def)
  ultimately have "mappable 256 0x300000 0x300060 PAGE_MAP_4_SETUP 0x200000 0x1000 free_pages"
    unfolding mappable_def needed_bytes_def using free_pages_map_ok by (simp del: One_nat_def)
  moreover have "list_all paged_desc free_pages" by (simp add: free_pages_def paged_desc_def)
  moreover have "length free_pages < 2 ^ 50" by (simp add: free_pages_def)
  moreover have "structs_bytes (initial_entries free_pages b) < 2 ^ 59" if "map_home (efi_entries free_pages) b" for b
  proof -
    have b: "b = hd (efi_entries free_pages)" using that by (simp only: free_pages_home)
    have "(4096 :: nat) < 2 ^ 59" by simp
    thus ?thesis unfolding b free_pages_initial using free_pages_bytes by linarith
  qed
  ultimately show ?thesis
    unfolding bootable_map_def using free_pages_sound by (simp add: small_machine_def small_gop_def)
qed

text \<open>The memory map changes twice before the boot services can be left.\<close>

definition small_state :: firmware_state where
  "small_state = (2, {}, {})"

lemma small_firmware_ok:
  "firmware_ok (bootServices small_firmware) (\<lambda>_. True) (model_view free_pages) 600"
  "enough_pages (bootServices small_firmware) (\<lambda>_. True) (model_view free_pages) 256"
  "vw_pages (model_view free_pages) small_state = {}"
  using model_firmware_ok [of 256 free_pages] model_enough_pages [of free_pages]
  by (simp_all add: small_firmware_def small_state_def model_view_def)

lemma small_services_ok: "services_ok small_firmware (\<lambda>_. True) (model_view free_pages) {small_gop}"
  by (simp add: services_ok_def small_firmware_def)

lemma small_not_refused: "\<not> boot_refused small_firmware I {small_gop} stop"
proof (cases stop)
  case (Returned status)
  have "\<not> unsupported_format small_gop" by (simp add: unsupported_format_def small_gop_def)
  thus ?thesis using Returned by (auto simp: boot_refused_def small_firmware_def model_pool)
qed (auto simp: boot_refused_def small_firmware_def)

lemma small_cpuid: "\<not> CheckCpu5LevelPagingSupport (mc_cpuid small_machine)"
  by (simp add: small_machine_def CheckCpu5LevelPagingSupport_def GetCpuidEAX7_ECX0_def Cpuid_def zero_regs_def)

lemma small_setup: "GetPageMapSetupType (CheckCpu5LevelPagingSupport (mc_cpuid small_machine))
    (Is5LevelPagingActive small_cpu) = PAGE_MAP_4_SETUP"
  using small_cpuid by (simp add: GetPageMapSetupType_def)

definition small_device :: "controller \<times> nat \<times> nat" where
  "small_device = (\<lparr>config = 0x47, out = Some 0x1C, writes_config = False\<rparr>, 1, 0)"

lemma small_machine_ok:
  "mc_switchStart small_machine \<le> mc_switchEnd small_machine"
  "unat (mc_switchEnd small_machine - mc_switchStart small_machine) < 2 ^ 51"
  "cpu_levels small_cpu = levels_before PAGE_MAP_4_SETUP"
  "controller_ok (mc_ports small_machine) one_port_hardware fst (\<lambda>(s, busy, delay). busy) (\<lambda>(s, busy, delay). delay)"
  "(\<lambda>(s, busy, delay). delay) small_device = (0 :: nat)" "selftest one_port_hardware = 0x55"
  "test1 one_port_hardware = 0 \<or> dual one_port_hardware \<and> test2 one_port_hardware = 0"
  "controller_ready (mc_keyboardStatus small_machine)" "cmd_bounds (mc_keyboard small_machine)"
  using one_port_controller_ok always_ready cmd_wf_bounds [OF zero_state_wf]
  by (simp_all add: small_machine_def small_cpu_def small_gop_def levels_before_def one_port_hardware_def
      small_device_def)

lemma free_pages_maps:
  assumes "gop \<in> {small_gop}"
  shows "bootable_map 256 small_machine
    (GetPageMapSetupType (CheckCpu5LevelPagingSupport (mc_cpuid small_machine)) (Is5LevelPagingActive small_cpu))
    gop (vw_descs (model_view free_pages) f)"
  using assms free_pages_bootable by (simp add: small_setup model_view_def)

lemma small_boot:
  assumes "\<exists>r calls. run = Some (r, calls) \<and> ((\<exists>stop. r = Inl stop \<and> boot_refused small_firmware (\<lambda>_. True) {small_gop} stop \<and> calls = []) \<or>
     (\<exists>f. \<exists>gop \<in> {small_gop}. True \<and> \<not> cpu_bootServices (fold cpu_step [ev. BootPhase ev \<leftarrow> calls] small_cpu) \<and>
       (no_room (vw_descs (model_view free_pages) f) \<and> r = Inl (Returned EFI_OUT_OF_RESOURCES) \<or>
        (\<exists>b e k. map_home (efi_entries (vw_descs (model_view free_pages) f)) b \<and>
          find (entry_room (structs_bytes (initial_entries (vw_descs (model_view free_pages) f) b)))
            (initial_entries (vw_descs (model_view free_pages) f) b) = Some e \<and>
          r = Inr k \<and> kernel_up one_port_hardware fst small_machine gop (vw_descs (model_view free_pages) f) b e k))))"
  shows "\<exists>k calls. run = Some (Inr k, calls) \<and> kn_physMemAddress k = 0x2000 \<and> cpu_interrupts (kn_cpu k) \<and> hasKeyboard (kn_ps2 k)"
proof -
  have home: "map_home (efi_entries free_pages) b \<Longrightarrow> initial_entries free_pages b = free_pages_map" for b
    using free_pages_home free_pages_initial by simp
  have "\<not> no_room free_pages"
    unfolding no_room_def using home free_pages_room free_pages_home by fastforce
  moreover have "vw_descs (model_view free_pages) f = free_pages" for f by (simp add: model_view_def)
  ultimately obtain k b e calls where k: "run = Some (Inr k, calls)" "kernel_up one_port_hardware fst small_machine small_gop free_pages b e k"
    "e = free_pages_map ! 1"
    using assms small_not_refused home free_pages_room by fastforce
  have "physicalAddress e = 0x2000" using k(3) by (simp add: free_pages_map_def)
  thus ?thesis using k(1,2) by (auto simp: kernel_up_def Let_def one_port_hardware_def)
qed

lemma efi_main_boots_witness:
  "\<exists>k calls. efi_main small_firmware small_machine small_cpu small_state small_device = Some (Inr k, calls) \<and>
    kn_physMemAddress k = 0x2000 \<and> cpu_interrupts (kn_cpu k) \<and> hasKeyboard (kn_ps2 k)"
  by (rule small_boot, rule efi_main_boots [OF small_services_ok small_firmware_ok(1,2) TrueI small_firmware_ok(3)
      free_pages_maps small_machine_ok(1,2) small_machine_ok(3) [folded small_setup] small_machine_ok(4-9)])

text \<open>
  C7: Interrupts are enabled only when everything for them is ready. Whatever the firmware and
  the machine do, a boot that stops never enables interrupts, and a boot that succeeds does so
  exactly once: after both descriptor tables are loaded, after the PS/2 devices are initialised
  and the shell is created. Then the code selector selects a 64-bit code segment of ring 0,
  and for each of the 16 lines, in whatever state the firmware left the interrupt controllers,
  the vector that they have been given for the line has an interrupt gate to this line's
  routine in this segment. After it come only the report's calls and the prompt's activation.
\<close>

theorem interrupts_enabled_when_ready:
  assumes "efi_main fw mc c f d = Some (r, calls)"
  shows "case r of Inl stop \<Rightarrow> EnableInterrupts \<notin> set calls | Inr k \<Rightarrow> interrupts_safe mc k calls"
  using assms by (rule efi_main_calls)

lemma interrupts_enabled_when_ready_witness:
  "\<exists>k calls. efi_main small_firmware small_machine small_cpu small_state small_device = Some (Inr k, calls) \<and>
    interrupts_safe small_machine k calls"
proof -
  have "\<exists>k calls. efi_main small_firmware small_machine small_cpu small_state small_device = Some (Inr k, calls) \<and>
      kn_physMemAddress k = 0x2000 \<and> cpu_interrupts (kn_cpu k) \<and> hasKeyboard (kn_ps2 k)"
    by (rule small_boot, rule efi_main_outcome [OF small_services_ok small_firmware_ok(1,2) TrueI small_firmware_ok(3)
        free_pages_maps small_machine_ok(1,2) small_machine_ok(3) [folded small_setup] small_machine_ok(4-9),
        unfolded boot_outcome_def])
  then obtain k calls where "efi_main small_firmware small_machine small_cpu small_state small_device = Some (Inr k, calls)"
    by blast
  thus ?thesis
    using interrupts_enabled_when_ready [of small_firmware small_machine small_cpu small_state small_device] by fastforce
qed

end
