(* ===== verification/FontPacker.thy ===== *)
theory FontPacker
  imports Font
begin

text \<open>
  The first half of the font generator
  (src/util/util-font-gen/src/DexprBitmapFontGenerator.c), the host program that
  made src/include/DexprOS/font256.h: \<open>loadFontASCII\<close>, which renders the 95
  printable characters and packs them in rows into one image.

  \<^item> FreeType is a parameter: whether it starts, and the face, whose \<open>load_char\<close> is
    the result of loading and rendering a character at a size (an error is \<open>None\<close>).
    \<open>glyph_ok\<close> states what FreeType documents of a rendered bitmap: its lines start
    \<open>pitch\<close> bytes apart, they hold the bitmap's width, and the buffer holds all lines.
  \<^item> \<open>unsigned\<close> and \<open>int\<close> are 32-bit words, as in the table of the theory \<open>Font\<close>. A
    division by zero and a copy outside of a buffer are undefined: \<open>None\<close>.
  \<^item> A message on the standard error stream is a value of \<open>gen_error\<close>.
\<close>

subsection \<open>FreeType's glyphs and faces\<close>

record ft_glyph =
  bitmap_width :: u32
  bitmap_rows :: u32
  bitmap_pitch :: u32
  bitmap_buffer :: "u8 list"
  glyph_bitmap_left :: u32
  glyph_bitmap_top :: u32
  glyph_advance_x :: u64

record ft_face =
  load_char :: "u32 \<Rightarrow> u32 \<Rightarrow> ft_glyph option"
  face_scalable :: bool
  face_height :: u16
  units_per_EM :: u16

subsection \<open>Packing\<close>

datatype gen_error = ErrorFreetype | ErrorNoFont | ErrorLoad u32 | ErrorSize u32 | ErrorSpace u32
  | ErrorMemory

record font_metrics =
  fm_characters :: "font_char list"
  fm_lineHeight :: u32

record packer =
  currentCopyX :: u32
  currentCopyY :: u32
  rowHeight :: u32

record gen_state =
  gen_packer :: packer
  gen_image :: "u8 list"
  gen_characters :: "font_char list"
  gen_errors :: "gen_error list"

definition copy_bytes :: "u8 list \<Rightarrow> nat \<Rightarrow> u8 list \<Rightarrow> nat \<Rightarrow> nat \<Rightarrow> u8 list option" where
  "copy_bytes dst d src s n =
     (if d + n \<le> length dst \<and> s + n \<le> length src
      then Some (take d dst @ take n (drop s src) @ drop (d + n) dst) else None)"

fun copy_rows :: "u32 \<Rightarrow> u32 \<Rightarrow> u32 \<Rightarrow> ft_glyph \<Rightarrow> nat \<Rightarrow> u8 list \<Rightarrow> u8 list option" where
  "copy_rows imageWidth x y g 0 pImage = Some pImage"
| "copy_rows imageWidth x y g (Suc h) pImage =
     (case copy_rows imageWidth x y g h pImage of
        None \<Rightarrow> None
      | Some pImage' \<Rightarrow>
          (let charY = y + of_nat h
           in copy_bytes pImage' (unat (imageWidth * charY) + unat x)
                (bitmap_buffer g) (unat (bitmap_pitch g * of_nat h)) (unat (bitmap_width g))))"

definition next_row :: "u32 \<Rightarrow> packer \<Rightarrow> packer" where
  "next_row imageWidth p =
     (if currentCopyX p > imageWidth - currentCopyX p
      then \<lparr>currentCopyX = 0, currentCopyY = currentCopyY p + rowHeight p, rowHeight = 0\<rparr>
      else p)"

definition pass_glyph :: "u32 \<Rightarrow> u32 \<Rightarrow> packer \<Rightarrow> packer" where
  "pass_glyph width rows p =
     p\<lparr>rowHeight := (if rows > rowHeight p then rows else rowHeight p),
       currentCopyX := currentCopyX p + width\<rparr>"

definition font_char_of :: "ft_glyph \<Rightarrow> packer \<Rightarrow> font_char" where
  "font_char_of g p =
     \<lparr>imageOffsetX = currentCopyX p, imageOffsetY = currentCopyY p,
      char_width = bitmap_width g, char_height = bitmap_rows g,
      bitmapLeft = glyph_bitmap_left g, bitmapTop = glyph_bitmap_top g,
      char_advanceX = ucast (signed_drop_bit 6 (glyph_advance_x g))\<rparr>"

definition report_error :: "gen_error \<Rightarrow> gen_state \<Rightarrow> gen_state" where
  "report_error e s = s\<lparr>gen_errors := gen_errors s @ [e]\<rparr>"

definition load_character ::
  "ft_face \<Rightarrow> u32 \<Rightarrow> u32 \<Rightarrow> u32 \<Rightarrow> u32 \<Rightarrow> gen_state \<Rightarrow> gen_state option" where
  "load_character face characterSize imageWidth imageHeight iCharacter s =
     (case load_char face characterSize iCharacter of
        None \<Rightarrow> Some (report_error (ErrorLoad iCharacter) s)
      | Some g \<Rightarrow>
          if bitmap_width g > imageWidth \<or> bitmap_rows g > imageHeight
          then Some (report_error (ErrorSize iCharacter) s)
          else
            (let p = next_row imageWidth (gen_packer s);
                 s = s\<lparr>gen_packer := p\<rparr>
             in if bitmap_rows g > imageHeight - currentCopyY p
                then Some (report_error (ErrorSpace iCharacter) s)
                else
                  (case copy_rows imageWidth (currentCopyX p) (currentCopyY p) g
                          (unat (bitmap_rows g)) (gen_image s) of
                     None \<Rightarrow> None
                   | Some pImage \<Rightarrow>
                       Some (s\<lparr>gen_image := pImage,
                               gen_characters := (gen_characters s)
                                 [unat (iCharacter - 32) := font_char_of g p],
                               gen_packer := pass_glyph (bitmap_width g) (bitmap_rows g) p\<rparr>))))"

definition character_codes :: "u32 list" where
  "character_codes = map of_nat [32..<127]"

fun load_characters ::
  "ft_face \<Rightarrow> u32 \<Rightarrow> u32 \<Rightarrow> u32 \<Rightarrow> u32 list \<Rightarrow> gen_state \<Rightarrow> gen_state option" where
  "load_characters face characterSize imageWidth imageHeight [] s = Some s"
| "load_characters face characterSize imageWidth imageHeight (c # cs) s =
     (case load_character face characterSize imageWidth imageHeight c s of
        None \<Rightarrow> None
      | Some s' \<Rightarrow> load_characters face characterSize imageWidth imageHeight cs s')"

definition FontSize :: u32 where
  "FontSize = 16"

definition font_line_height :: "ft_face \<Rightarrow> u32 \<Rightarrow> u32 option" where
  "font_line_height face characterSize =
     (if face_scalable face
      then if characterSize = 0 then None
           else let scale = ucast (units_per_EM face) div characterSize
                in if scale = 0 then None else Some (scast (face_height face) div scale)
      else Some FontSize)"

definition loadFontASCII ::
  "bool \<Rightarrow> ft_face option \<Rightarrow> u32 \<Rightarrow> u8 list \<Rightarrow> u32 \<Rightarrow> u32 \<Rightarrow> font_metrics \<Rightarrow>
   (u32 \<times> u8 list \<times> font_metrics \<times> gen_error list) option" where
  "loadFontASCII freetypeStarts fontFace characterSize pImage imageWidth imageHeight metrics =
     (if \<not> freetypeStarts then Some (1, pImage, metrics, [ErrorFreetype])
      else
        (case fontFace of
           None \<Rightarrow> Some (1, pImage, metrics, [ErrorNoFont])
         | Some face \<Rightarrow>
             (case load_characters face characterSize imageWidth imageHeight character_codes
                     \<lparr>gen_packer = \<lparr>currentCopyX = 0, currentCopyY = 0, rowHeight = 0\<rparr>,
                      gen_image = pImage, gen_characters = fm_characters metrics, gen_errors = []\<rparr> of
                None \<Rightarrow> None
              | Some s \<Rightarrow>
                  map_option (\<lambda>h. (0, gen_image s,
                      \<lparr>fm_characters = gen_characters s, fm_lineHeight = h\<rparr>, gen_errors s))
                    (font_line_height face characterSize))))"

subsection \<open>Copying a glyph\<close>

definition glyph_ok :: "u32 \<Rightarrow> ft_glyph \<Rightarrow> bool" where
  "glyph_ok imageWidth g \<longleftrightarrow>
     2 * unat (bitmap_width g) \<le> unat imageWidth \<and>
     unat (bitmap_width g) \<le> unat (bitmap_pitch g) \<and>
     unat (bitmap_pitch g) * unat (bitmap_rows g) \<le> length (bitmap_buffer g) \<and>
     unat (bitmap_pitch g) * unat (bitmap_rows g) < 2 ^ 32"

lemma unat_u32_less: "unat (x :: u32) < 4294967296"
  using unsigned_less [of x] by simp

lemma copy_bytes_nth:
  assumes "d + n \<le> length dst" "s + n \<le> length src"
  shows "\<exists>dst'. copy_bytes dst d src s n = Some dst' \<and> length dst' = length dst \<and>
    (\<forall>i. i < length dst \<longrightarrow>
      dst' ! i = (if d \<le> i \<and> i < d + n then src ! (s + (i - d)) else dst ! i))"
proof -
  have len: "length (take d dst) = d" "length (take n (drop s src)) = n"
    using assms by auto
  have "(take d dst @ take n (drop s src) @ drop (d + n) dst) ! i =
      (if d \<le> i \<and> i < d + n then src ! (s + (i - d)) else dst ! i)" if "i < length dst" for i
    using that assms by (auto simp: nth_append len)
  moreover have "length (take d dst @ take n (drop s src) @ drop (d + n) dst) = length dst"
    using assms len by simp
  ultimately show ?thesis using assms by (auto simp: copy_bytes_def)
qed

text \<open>The index of a pixel tells its row and its column.\<close>

lemma pixel_index_row:
  assumes "px < (w :: nat)" "x + n \<le> w"
  shows "w * row + x \<le> w * py + px \<and> w * py + px < w * row + x + n \<longleftrightarrow>
         py = row \<and> x \<le> px \<and> px < x + n"
proof (cases "py = row")
  case False
  hence "py + 1 \<le> row \<or> row + 1 \<le> py" by linarith
  hence "w * (py + 1) \<le> w * row \<or> w * (row + 1) \<le> w * py" by (meson mult_le_mono2)
  thus ?thesis using assms False by (auto simp: algebra_simps)
qed auto

lemma pixel_in_image:
  assumes "px < (w :: nat)" "py < h"
  shows "w * py + px < w * h"
proof -
  have "w * (py + 1) \<le> w * h" using assms by (intro mult_le_mono2) simp
  thus ?thesis using assms by simp
qed

lemma mult_word_of_nat:
  assumes "unat (a :: u32) * n < 4294967296" "0 < unat a \<or> n < 4294967296"
  shows "unat (a * of_nat n) = unat a * n"
proof -
  have "n < 4294967296 \<or> unat a = 0" using assms by (cases "unat a") auto
  thus ?thesis
    using assms by (auto simp: unat_word_ariths unat_of_nat take_bit_nat_eq_self)
qed

lemma copy_rows_correct:
  fixes H :: u32
  assumes ok: "glyph_ok W g" and len: "length pImage = unat W * unat H"
    and small: "unat W * unat H < 4294967296"
    and fits: "unat x + unat (bitmap_width g) \<le> unat W" "unat y + n \<le> unat H"
    and n: "n \<le> unat (bitmap_rows g)"
  shows "\<exists>pImage'. copy_rows W x y g n pImage = Some pImage' \<and> length pImage' = unat W * unat H \<and>
    (\<forall>px py. px < unat W \<longrightarrow> py < unat H \<longrightarrow> pImage' ! (unat W * py + px) =
      (if unat y \<le> py \<and> py < unat y + n \<and> unat x \<le> px \<and> px < unat x + unat (bitmap_width g)
       then bitmap_buffer g ! (unat (bitmap_pitch g) * (py - unat y) + (px - unat x))
       else pImage ! (unat W * py + px)))"
  using fits(2) n
proof (induction n)
  case 0
  show ?case using len by auto
next
  case (Suc n)
  let ?w = "unat (bitmap_width g)" and ?p = "unat (bitmap_pitch g)"
  obtain pImage' where 1: "copy_rows W x y g n pImage = Some pImage'" "length pImage' = unat W * unat H"
    and px: "\<And>px py. px < unat W \<Longrightarrow> py < unat H \<Longrightarrow> pImage' ! (unat W * py + px) =
      (if unat y \<le> py \<and> py < unat y + n \<and> unat x \<le> px \<and> px < unat x + ?w
       then bitmap_buffer g ! (?p * (py - unat y) + (px - unat x))
       else pImage ! (unat W * py + px))"
    using Suc.IH Suc.prems by auto
  have row: "unat (y + of_nat n) = unat y + n"
    using Suc.prems unat_u32_less [of H]
    by (simp add: unat_word_ariths unat_of_nat take_bit_nat_eq_self)
  have "unat W * (unat y + n) \<le> unat W * unat H" using Suc.prems by (intro mult_le_mono2) simp
  hence "unat W * (unat y + n) < 4294967296" using small by (rule le_less_trans)
  hence dst: "unat (W * (y + of_nat n)) = unat W * (unat y + n)"
    by (subst unat_word_ariths(2)) (simp add: row)
  have last: "?p * n + ?p \<le> ?p * unat (bitmap_rows g)"
    using Suc.prems mult_le_mono2 [of "Suc n" "unat (bitmap_rows g)" ?p] by simp
  hence src: "unat (bitmap_pitch g * of_nat n) = ?p * n"
    using ok Suc.prems unat_u32_less [of "bitmap_rows g"] by (intro mult_word_of_nat) (auto simp: glyph_ok_def)
  have room: "unat W * (unat y + n) + unat x + ?w \<le> length pImage'"
    using 1(2) fits(1) Suc.prems mult_le_mono2 [of "Suc (unat y + n)" "unat H" "unat W"] by simp
  have room2: "?p * n + ?w \<le> length (bitmap_buffer g)"
    using ok last by (auto simp: glyph_ok_def)
  obtain pImage'' where 2: "copy_bytes pImage' (unat W * (unat y + n) + unat x) (bitmap_buffer g) (?p * n) ?w = Some pImage''"
    "length pImage'' = length pImage'"
    "\<And>i. i < length pImage' \<Longrightarrow> pImage'' ! i =
      (if unat W * (unat y + n) + unat x \<le> i \<and> i < unat W * (unat y + n) + unat x + ?w
       then bitmap_buffer g ! (?p * n + (i - (unat W * (unat y + n) + unat x))) else pImage' ! i)"
    using copy_bytes_nth [OF room room2] by metis
  have "pImage'' ! (unat W * py + qx) =
      (if unat y \<le> py \<and> py < unat y + Suc n \<and> unat x \<le> qx \<and> qx < unat x + ?w
       then bitmap_buffer g ! (?p * (py - unat y) + (qx - unat x))
       else pImage ! (unat W * py + qx))" if "qx < unat W" "py < unat H" for qx py
  proof -
    have "unat W * py + qx < length pImage'" using that 1(2) by (simp add: pixel_in_image)
    hence "pImage'' ! (unat W * py + qx) =
      (if py = unat y + n \<and> unat x \<le> qx \<and> qx < unat x + ?w
       then bitmap_buffer g ! (?p * n + (unat W * py + qx - (unat W * (unat y + n) + unat x)))
       else pImage' ! (unat W * py + qx))"
      using 2(3) pixel_index_row [OF that(1) fits(1), of "unat y + n" py] by simp
    thus ?thesis using px [OF that] by auto
  qed
  thus ?case using 1 2 by (auto simp: Let_def dst src)
qed

subsection \<open>The packed image\<close>

definition empty_char :: font_char where
  "empty_char = char_data 0 0 0 0 0 0 0"

definition in_char :: "font_char \<Rightarrow> nat \<Rightarrow> nat \<Rightarrow> bool" where
  "in_char d px py \<longleftrightarrow>
     unat (imageOffsetX d) \<le> px \<and> px < unat (imageOffsetX d) + unat (char_width d) \<and>
     unat (imageOffsetY d) \<le> py \<and> py < unat (imageOffsetY d) + unat (char_height d)"

definition shows_glyph :: "u32 \<Rightarrow> u8 list \<Rightarrow> ft_glyph \<Rightarrow> font_char \<Rightarrow> bool" where
  "shows_glyph W img g d \<longleftrightarrow>
     char_width d = bitmap_width g \<and> char_height d = bitmap_rows g \<and>
     bitmapLeft d = glyph_bitmap_left g \<and> bitmapTop d = glyph_bitmap_top g \<and>
     char_advanceX d = ucast (signed_drop_bit 6 (glyph_advance_x g)) \<and>
     (\<forall>px py. in_char d px py \<longrightarrow> img ! (unat W * py + px) =
        bitmap_buffer g ! (unat (bitmap_pitch g) * (py - unat (imageOffsetY d)) + (px - unat (imageOffsetX d))))"

definition character_done ::
  "ft_face \<Rightarrow> u32 \<Rightarrow> u32 \<Rightarrow> u8 list \<Rightarrow> gen_error list \<Rightarrow> u32 \<Rightarrow> font_char \<Rightarrow> bool" where
  "character_done face characterSize W img errors c d =
     (case load_char face characterSize c of
        None \<Rightarrow> d = empty_char \<and> ErrorLoad c \<in> set errors
      | Some g \<Rightarrow> d = empty_char \<and> (ErrorSize c \<in> set errors \<or> ErrorSpace c \<in> set errors) \<or>
                  shows_glyph W img g d)"

definition disjoint_chars :: "u32 \<Rightarrow> u32 \<Rightarrow> font_char list \<Rightarrow> bool" where
  "disjoint_chars W H ds \<longleftrightarrow>
     (\<forall>i < length ds. \<forall>px py. in_char (ds ! i) px py \<longrightarrow> px < unat W \<and> py < unat H) \<and>
     (\<forall>i < length ds. \<forall>j < length ds. i \<noteq> j \<longrightarrow>
        (\<forall>px py. \<not> (in_char (ds ! i) px py \<and> in_char (ds ! j) px py)))"

text \<open>The pixels of the packed characters lie above or to the left of the packer.\<close>

definition behind :: "packer \<Rightarrow> font_char \<Rightarrow> bool" where
  "behind p d \<longleftrightarrow> (\<forall>px py. in_char d px py \<longrightarrow> py < unat (currentCopyY p) \<or>
     px < unat (currentCopyX p) \<and> py < unat (currentCopyY p) + unat (rowHeight p))"

definition packer_ok :: "u32 \<Rightarrow> u32 \<Rightarrow> packer \<Rightarrow> bool" where
  "packer_ok W H p \<longleftrightarrow> unat (currentCopyX p) \<le> unat W \<and>
     unat (currentCopyY p) + unat (rowHeight p) \<le> unat H"

definition packed :: "ft_face \<Rightarrow> u32 \<Rightarrow> u32 \<Rightarrow> u32 \<Rightarrow> u8 list \<Rightarrow> nat \<Rightarrow> gen_state \<Rightarrow> bool" where
  "packed face characterSize W H img0 n s \<longleftrightarrow>
     length (gen_image s) = unat W * unat H \<and> length (gen_characters s) = 95 \<and>
     packer_ok W H (gen_packer s) \<and> (\<forall>i < 95. behind (gen_packer s) (gen_characters s ! i)) \<and>
     disjoint_chars W H (gen_characters s) \<and>
     (\<forall>i < n. character_done face characterSize W (gen_image s) (gen_errors s)
                (of_nat (32 + i)) (gen_characters s ! i)) \<and>
     (\<forall>i < 95. n \<le> i \<longrightarrow> gen_characters s ! i = empty_char) \<and>
     (\<forall>px py. px < unat W \<longrightarrow> py < unat H \<longrightarrow> (\<forall>i < 95. \<not> in_char (gen_characters s ! i) px py) \<longrightarrow>
        gen_image s ! (unat W * py + px) = img0 ! (unat W * py + px))"

lemma not_in_empty [simp]: "\<not> in_char empty_char px py"
  by (simp add: in_char_def empty_char_def)

lemma unat_u32_plus: "unat (x :: u32) + unat y < 4294967296 \<Longrightarrow> unat (x + y) = unat x + unat y"
  by (simp add: unat_word_ariths)

lemma next_row_ok:
  assumes "packer_ok W H p"
  shows "packer_ok W H (next_row W p)" "2 * unat (currentCopyX (next_row W p)) \<le> unat W"
    "behind p d \<Longrightarrow> behind (next_row W p) d"
proof -
  have x: "currentCopyX p \<le> W" and y: "unat (currentCopyY p) + unat (rowHeight p) \<le> unat H"
    using assms by (simp_all add: packer_ok_def word_le_nat_alt)
  have xs: "unat (W - currentCopyX p) = unat W - unat (currentCopyX p)" by (rule unat_sub [OF x])
  have ys: "unat (currentCopyY p + rowHeight p) = unat (currentCopyY p) + unat (rowHeight p)"
    using y unat_u32_less [of H] by (intro unat_u32_plus) simp
  show "packer_ok W H (next_row W p)" using assms y by (auto simp: packer_ok_def next_row_def ys)
  show "2 * unat (currentCopyX (next_row W p)) \<le> unat W"
    using x by (auto simp: next_row_def word_less_nat_alt word_le_nat_alt xs)
  show "behind (next_row W p) d" if "behind p d"
  proof -
    have "py < unat (currentCopyY p) + unat (rowHeight p)" if "in_char d px py" for px py
      using \<open>behind p d\<close> that by (auto simp: behind_def intro: trans_less_add1)
    thus ?thesis using that by (simp add: behind_def next_row_def ys)
  qed
qed

lemma character_done_mono:
  "character_done face sz W img es c d \<Longrightarrow> character_done face sz W img (es @ es') c d"
  by (auto simp: character_done_def split: option.splits)

lemma packed_next_row:
  "packed face sz W H img0 n s \<Longrightarrow>
   packed face sz W H img0 n (s\<lparr>gen_packer := next_row W (gen_packer s)\<rparr>)"
  by (auto simp: packed_def next_row_ok(1) intro: next_row_ok(3))

lemma packed_report:
  assumes "packed face sz W H img0 n s" "n < 95"
    "character_done face sz W (gen_image s) [e] (of_nat (32 + n)) empty_char"
  shows "packed face sz W H img0 (Suc n) (report_error e s)"
proof -
  have "character_done face sz W (gen_image s) (gen_errors s @ [e]) (of_nat (32 + i)) (gen_characters s ! i)"
    if "i < Suc n" for i
  proof (cases "i = n")
    case True
    thus ?thesis using assms by (auto simp: packed_def character_done_def split: option.splits)
  next
    case False
    thus ?thesis using assms that by (simp add: packed_def character_done_mono)
  qed
  thus ?thesis using assms by (simp add: packed_def report_error_def)
qed

text \<open>A new character that lies in the free part of the image.\<close>

lemma packed_add:
  assumes p: "packed face sz W H img0 n s" and n: "n < 95"
    and d: "\<And>px py. in_char d px py \<Longrightarrow> px < unat W \<and> py < unat H \<and> unat (currentCopyX (gen_packer s)) \<le> px \<and>
              unat (currentCopyY (gen_packer s)) \<le> py"
    and img: "length img = unat W * unat H"
      "\<And>px py. px < unat W \<Longrightarrow> py < unat H \<Longrightarrow> \<not> in_char d px py \<Longrightarrow>
         img ! (unat W * py + px) = gen_image s ! (unat W * py + px)"
    and dn: "load_char face sz (of_nat (32 + n)) = Some g" "shows_glyph W img g d"
    and q: "packer_ok W H q" "behind q d" "\<And>d. behind (gen_packer s) d \<Longrightarrow> behind q d"
  shows "packed face sz W H img0 (Suc n)
    (s\<lparr>gen_image := img, gen_characters := (gen_characters s)[n := d], gen_packer := q\<rparr>)"
proof -
  let ?ds = "gen_characters s"
  have len: "length ?ds = 95" and empty: "?ds ! n = empty_char"
    and beh: "\<And>i. i < 95 \<Longrightarrow> behind (gen_packer s) (?ds ! i)" and dis: "disjoint_chars W H ?ds"
    using p n by (auto simp: packed_def)
  have apart: "\<not> (in_char (?ds ! i) px py \<and> in_char d px py)" if "i < 95" for i px py
    using beh [OF that, unfolded behind_def, rule_format, of px py] d [of px py] by auto
  have inside: "px < unat W \<and> py < unat H" if "i < 95" "in_char (?ds ! i) px py" for i px py
    using dis that len unfolding disjoint_chars_def by metis
  have keep: "character_done face sz W img (gen_errors s) (of_nat (32 + i)) (?ds ! i)" if "i < n" for i
  proof -
    have 1: "character_done face sz W (gen_image s) (gen_errors s) (of_nat (32 + i)) (?ds ! i)"
      using p that by (simp add: packed_def)
    have "img ! (unat W * py + px) = gen_image s ! (unat W * py + px)" if "in_char (?ds ! i) px py" for px py
      using img(2) [of px py] inside [OF _ that] that apart [of i px py] \<open>i < n\<close> n by auto
    thus ?thesis using 1 by (auto simp: character_done_def shows_glyph_def split: option.splits)
  qed
  have at: "?ds[n := d] ! i = (if i = n then d else ?ds ! i)" for i
    using n len by (cases "i = n") auto
  have old: "\<not> (in_char (?ds ! i) px py \<and> in_char (?ds ! j) px py)" if "i < 95" "j < 95" "i \<noteq> j" for i j px py
    using dis that len unfolding disjoint_chars_def by metis
  have "px < unat W \<and> py < unat H" if "i < 95" "in_char (?ds[n := d] ! i) px py" for i px py
    using that inside [of i px py] d [of px py] by (cases "i = n") (simp_all add: at)
  moreover have "\<not> (in_char (?ds[n := d] ! i) px py \<and> in_char (?ds[n := d] ! j) px py)"
    if "i < 95" "j < 95" "i \<noteq> j" for i j px py
    using old [OF that] apart [OF that(1)] apart [OF that(2)] that(3) by (auto simp: at)
  ultimately have "disjoint_chars W H (?ds[n := d])"
    by (simp add: disjoint_chars_def len)
  moreover have "img ! (unat W * py + px) = img0 ! (unat W * py + px)"
    if "px < unat W" "py < unat H" "\<forall>i<95. \<not> in_char (?ds[n := d] ! i) px py" for px py
  proof -
    have "\<not> in_char d px py" using that(3) n by (auto simp: at)
    moreover have "\<not> in_char (?ds ! i) px py" if "i < 95" for i
      using \<open>\<forall>i<95. \<not> in_char (?ds[n := d] ! i) px py\<close> that empty len
      by (cases "i = n") (auto simp: at)
    ultimately show ?thesis using img(2) [OF that(1,2)] p that(1,2) by (simp add: packed_def)
  qed
  moreover have "character_done face sz W img (gen_errors s) (of_nat (32 + i)) (?ds[n := d] ! i)" if "i < Suc n" for i
    using keep [of i] dn that n len by (cases "i = n") (auto simp: character_done_def)
  moreover have "behind q (?ds[n := d] ! i)" if "i < 95" for i
    using q beh [OF that] that len by (cases "i = n") auto
  ultimately show ?thesis using p q(1) img(1) len n by (simp add: packed_def)
qed

lemma word_char_index: "n < 95 \<Longrightarrow> unat (of_nat (32 + n) - 32 :: u32) = n"
  by (simp add: unat_of_nat take_bit_nat_eq_self)

lemma in_char_of:
  "in_char (font_char_of g p) px py \<longleftrightarrow>
     unat (currentCopyY p) \<le> py \<and> py < unat (currentCopyY p) + unat (bitmap_rows g) \<and>
     unat (currentCopyX p) \<le> px \<and> px < unat (currentCopyX p) + unat (bitmap_width g)"
  by (auto simp: in_char_def font_char_of_def)

lemma pass_glyph_ok:
  assumes "packer_ok W H p" "2 * unat (currentCopyX p) \<le> unat W" "2 * unat (bitmap_width g) \<le> unat W"
    "unat (currentCopyY p) + unat (bitmap_rows g) \<le> unat H"
  defines "q \<equiv> pass_glyph (bitmap_width g) (bitmap_rows g) p"
  shows "packer_ok W H q" "behind q (font_char_of g p)" "behind p d \<Longrightarrow> behind q d"
proof -
  have x: "unat (currentCopyX q) = unat (currentCopyX p) + unat (bitmap_width g)"
    using assms(2,3) unat_u32_less [of W] by (simp add: q_def pass_glyph_def unat_u32_plus)
  have y: "currentCopyY q = currentCopyY p"
    "unat (rowHeight q) = max (unat (bitmap_rows g)) (unat (rowHeight p))"
    by (simp_all add: q_def pass_glyph_def word_less_nat_alt max_def)
  show "packer_ok W H q" using assms(1-4) by (simp add: packer_ok_def x y)
  show "behind q (font_char_of g p)" by (auto simp: behind_def in_char_of x y)
  show "behind q d" if "behind p d"
  proof (unfold behind_def, intro allI impI)
    fix px py
    assume "in_char d px py"
    hence "py < unat (currentCopyY p) \<or>
        px < unat (currentCopyX p) \<and> py < unat (currentCopyY p) + unat (rowHeight p)"
      using that by (simp add: behind_def)
    thus "py < unat (currentCopyY q) \<or>
        px < unat (currentCopyX q) \<and> py < unat (currentCopyY q) + unat (rowHeight q)"
      by (auto simp: x y)
  qed
qed

lemma load_character_packed:
  assumes p: "packed face sz W H img0 n s" and n: "n < 95" and small: "unat W * unat H < 4294967296"
    and ok: "\<And>g. load_char face sz (of_nat (32 + n)) = Some g \<Longrightarrow> glyph_ok W g"
  shows "\<exists>s'. load_character face sz W H (of_nat (32 + n)) s = Some s' \<and>
    packed face sz W H img0 (Suc n) s'"
proof (cases "load_char face sz (of_nat (32 + n))")
  case None
  thus ?thesis using packed_report [OF p n, of "ErrorLoad (of_nat (32 + n))"]
    by (simp add: load_character_def character_done_def)
next
  case (Some g)
  let ?c = "of_nat (32 + n) :: u32" and ?p = "next_row W (gen_packer s)"
  let ?s = "s\<lparr>gen_packer := ?p\<rparr>"
  note g = ok [OF Some]
  have p1: "packed face sz W H img0 n ?s" using p by (rule packed_next_row)
  have pk: "packer_ok W H ?p" "2 * unat (currentCopyX ?p) \<le> unat W"
    using p next_row_ok [of W H "gen_packer s"] by (auto simp: packed_def)
  have width: "unat (bitmap_width g) \<le> unat W" using g by (simp add: glyph_ok_def)
  consider (size) "bitmap_rows g > H" | (space) "\<not> bitmap_rows g > H" "bitmap_rows g > H - currentCopyY ?p"
    | (fits) "\<not> bitmap_rows g > H" "\<not> bitmap_rows g > H - currentCopyY ?p" by blast
  thus ?thesis
  proof cases
    case size
    thus ?thesis using Some packed_report [OF p n, of "ErrorSize ?c"]
      by (simp add: load_character_def character_done_def)
  next
    case space
    have "load_character face sz W H ?c s = Some (report_error (ErrorSpace ?c) ?s)"
      using space Some width by (simp add: load_character_def Let_def word_less_nat_alt)
    thus ?thesis using Some packed_report [OF p1 n, of "ErrorSpace ?c"]
      by (simp add: character_done_def)
  next
    case fits
    have y: "unat (currentCopyY ?p) + unat (bitmap_rows g) \<le> unat H"
      using fits pk by (simp add: packer_ok_def not_less word_le_nat_alt unat_sub)
    have x: "unat (currentCopyX ?p) + unat (bitmap_width g) \<le> unat W"
      using pk(2) g by (simp add: glyph_ok_def)
    have len: "length (gen_image s) = unat W * unat H" using p by (simp add: packed_def)
    obtain img where img: "copy_rows W (currentCopyX ?p) (currentCopyY ?p) g (unat (bitmap_rows g)) (gen_image s) = Some img"
      "length img = unat W * unat H"
      "\<And>px py. px < unat W \<Longrightarrow> py < unat H \<Longrightarrow> img ! (unat W * py + px) =
        (if in_char (font_char_of g ?p) px py
         then bitmap_buffer g ! (unat (bitmap_pitch g) * (py - unat (currentCopyY ?p)) + (px - unat (currentCopyX ?p)))
         else gen_image s ! (unat W * py + px))"
      using copy_rows_correct [OF g len small x y order.refl] by (auto simp: in_char_of)
    have sg: "shows_glyph W img g (font_char_of g ?p)"
      using img(3) x y by (auto simp: shows_glyph_def in_char_of) (auto simp: font_char_of_def)
    have "packed face sz W H img0 (Suc n) (?s\<lparr>gen_image := img,
        gen_characters := (gen_characters ?s)[n := font_char_of g ?p],
        gen_packer := pass_glyph (bitmap_width g) (bitmap_rows g) ?p\<rparr>)"
      using pass_glyph_ok [OF pk _ y] g x y img Some sg
      by (intro packed_add [OF p1 n, where g = g]) (auto simp: in_char_of glyph_ok_def)
    moreover have "load_character face sz W H ?c s = Some (?s\<lparr>gen_image := img,
        gen_characters := (gen_characters ?s)[n := font_char_of g ?p],
        gen_packer := pass_glyph (bitmap_width g) (bitmap_rows g) ?p\<rparr>)"
      using fits Some img(1) width word_char_index [OF n]
      by (simp add: load_character_def Let_def word_less_nat_alt)
    ultimately show ?thesis by blast
  qed
qed

lemma load_characters_packed:
  assumes "unat W * unat H < 4294967296" "\<forall>c g. load_char face sz c = Some g \<longrightarrow> glyph_ok W g"
    "packed face sz W H img0 n s" "n \<le> 95"
  shows "\<exists>s'. load_characters face sz W H (map of_nat [32 + n..<127]) s = Some s' \<and>
    packed face sz W H img0 95 s'"
  using assms(3,4)
proof (induction "95 - n" arbitrary: n s)
  case 0
  thus ?case by simp
next
  case (Suc k)
  hence n: "n < 95" by simp
  obtain s' where s': "load_character face sz W H (of_nat (32 + n)) s = Some s'"
    "packed face sz W H img0 (Suc n) s'"
    using load_character_packed [OF Suc.prems(1) n assms(1)] assms(2) by blast
  have "[32 + n..<127] = (32 + n) # [32 + Suc n..<127]" using n by (simp add: upt_rec)
  thus ?case using Suc.hyps(1) [OF _ s'(2)] Suc.hyps(2) n s'(1) by simp
qed

lemma packed_initial:
  assumes "length img = unat W * unat H" "length ds = 95" "\<forall>d \<in> set ds. d = empty_char"
  shows "packed face sz W H img 0 \<lparr>gen_packer = \<lparr>currentCopyX = 0, currentCopyY = 0, rowHeight = 0\<rparr>,
     gen_image = img, gen_characters = ds, gen_errors = []\<rparr>"
proof -
  have e: "ds ! i = empty_char" if "i < 95" for i using assms(2,3) that by simp
  show ?thesis using assms(1,2) by (simp add: e packed_def packer_ok_def behind_def disjoint_chars_def)
qed

text \<open>
  C37: The packing of the font's characters. For every face whose rendered bitmaps are as
  FreeType documents and at most half as wide as the image, and every content of the
  image, \<open>loadFontASCII\<close> succeeds. The rectangles of the characters lie in the image and
  do not overlap. Each of the 95 characters has an empty entry and an error that says why,
  or its entry is the glyph's metrics and its rectangle holds exactly the glyph's bitmap.
  The pixels of the image outside of all rectangles keep their old content.
\<close>

theorem loadFontASCII_packs:
  assumes "unat W * unat H < 2 ^ 32" "length img = unat W * unat H"
    "\<And>c g. load_char face sz c = Some g \<Longrightarrow> glyph_ok W g"
    "font_line_height face sz = Some h"
  shows "\<exists>img' ds es.
    loadFontASCII True (Some face) sz img W H \<lparr>fm_characters = replicate 95 empty_char, fm_lineHeight = 0\<rparr> =
      Some (0, img', \<lparr>fm_characters = ds, fm_lineHeight = h\<rparr>, es) \<and>
    length img' = unat W * unat H \<and> length ds = 95 \<and> disjoint_chars W H ds \<and>
    (\<forall>i < 95. character_done face sz W img' es (of_nat (32 + i)) (ds ! i)) \<and>
    (\<forall>px py. px < unat W \<and> py < unat H \<and> (\<forall>d \<in> set ds. \<not> in_char d px py) \<longrightarrow>
       img' ! (unat W * py + px) = img ! (unat W * py + px))"
proof -
  let ?s = "\<lparr>gen_packer = \<lparr>currentCopyX = 0, currentCopyY = 0, rowHeight = 0\<rparr>,
     gen_image = img, gen_characters = replicate 95 empty_char, gen_errors = []\<rparr>"
  have small: "unat W * unat H < 4294967296" using assms(1) by simp
  have "packed face sz W H img 0 ?s" by (rule packed_initial) (simp_all add: assms(2))
  then obtain s where s: "load_characters face sz W H character_codes ?s = Some s"
    "packed face sz W H img 95 s"
    using load_characters_packed [where n = 0 and s = ?s, OF small] assms(3)
    unfolding character_codes_def add_0_right by blast
  have "loadFontASCII True (Some face) sz img W H \<lparr>fm_characters = replicate 95 empty_char, fm_lineHeight = 0\<rparr> =
      Some (0, gen_image s, \<lparr>fm_characters = gen_characters s, fm_lineHeight = h\<rparr>, gen_errors s)"
    by (simp add: loadFontASCII_def s(1) assms(4))
  moreover have "length (gen_characters s) = 95" using s(2) by (simp add: packed_def)
  moreover have "gen_image s ! (unat W * py + px) = img ! (unat W * py + px)"
    if "px < unat W" "py < unat H" "\<forall>d \<in> set (gen_characters s). \<not> in_char d px py" for px py
  proof -
    have "\<forall>i < 95. \<not> in_char (gen_characters s ! i) px py" using that(3) s(2) by (simp add: packed_def)
    thus ?thesis using s(2) that(1,2) by (simp add: packed_def)
  qed
  ultimately show ?thesis using s(2)
    by (intro exI [of _ "gen_image s"] exI [of _ "gen_characters s"] exI [of _ "gen_errors s"])
      (simp add: packed_def)
qed

text \<open>The witness: a face with one glyph of two by one pixels, in an image of four by four.\<close>

definition tiny_face :: ft_face where
  "tiny_face = \<lparr>load_char = (\<lambda>sz c. if c = 65 then Some \<lparr>bitmap_width = 2, bitmap_rows = 1, bitmap_pitch = 2,
       bitmap_buffer = [7, 8], glyph_bitmap_left = 0, glyph_bitmap_top = 1, glyph_advance_x = 128\<rparr> else None),
     face_scalable = True, face_height = 64, units_per_EM = 32\<rparr>"

lemma loadFontASCII_packs_witness:
  "\<exists>img' ds es.
    loadFontASCII True (Some tiny_face) 16 (replicate 16 9) 4 4
        \<lparr>fm_characters = replicate 95 empty_char, fm_lineHeight = 0\<rparr> =
      Some (0, img', \<lparr>fm_characters = ds, fm_lineHeight = 32\<rparr>, es) \<and>
    disjoint_chars 4 4 ds \<and> (\<forall>i < 95. character_done tiny_face 16 4 img' es (of_nat (32 + i)) (ds ! i))"
  using loadFontASCII_packs [of 4 4 "replicate 16 9" tiny_face 16 32]
  by (fastforce simp: tiny_face_def glyph_ok_def font_line_height_def split: if_splits)

subsection \<open>The generated table\<close>

text \<open>A face has the glyphs of a table, and a table has the offsets that the packer assigns.\<close>

fun glyph_of :: "u32 \<Rightarrow> ft_glyph option \<Rightarrow> font_char \<Rightarrow> bool" where
  "glyph_of W None d = False"
| "glyph_of W (Some g) d =
     (glyph_ok W g \<and> bitmap_width g = char_width d \<and> bitmap_rows g = char_height d \<and>
      glyph_bitmap_left g = bitmapLeft d \<and> glyph_bitmap_top g = bitmapTop d \<and>
      ucast (signed_drop_bit 6 (glyph_advance_x g)) = char_advanceX d)"

definition has_glyphs :: "u32 \<Rightarrow> (u32 \<Rightarrow> ft_glyph option) \<Rightarrow> u32 list \<Rightarrow> font_char list \<Rightarrow> bool" where
  "has_glyphs W load cs ds = list_all2 (\<lambda>c d. glyph_of W (load c) d) cs ds"

fun packs_as :: "u32 \<Rightarrow> u32 \<Rightarrow> font_char list \<Rightarrow> packer \<Rightarrow> bool" where
  "packs_as W H [] p = True"
| "packs_as W H (d # ds) p =
     (let p' = next_row W p
      in char_height d \<le> H \<and> char_height d \<le> H - currentCopyY p' \<and>
         imageOffsetX d = currentCopyX p' \<and> imageOffsetY d = currentCopyY p' \<and>
         packs_as W H ds (pass_glyph (char_width d) (char_height d) p'))"

lemma FontMetrics_packs: "packs_as 256 256 g_DexprOS_FontMetrics \<lparr>currentCopyX = 0, currentCopyY = 0, rowHeight = 0\<rparr>"
  by code_simp

lemma load_characters_as:
  assumes small: "unat W * unat H < 4294967296"
    and "has_glyphs W (load_char face sz) (map of_nat [32 + n..<127]) ds" "packs_as W H ds (gen_packer s)"
    "packer_ok W H (gen_packer s)" "length (gen_image s) = unat W * unat H"
    "length (gen_characters s) = 95" "n \<le> 95"
  shows "\<exists>s'. load_characters face sz W H (map of_nat [32 + n..<127]) s = Some s' \<and>
    gen_characters s' = take n (gen_characters s) @ ds \<and> gen_errors s' = gen_errors s \<and>
    length (gen_image s') = unat W * unat H"
  using assms(2-)
proof (induction "95 - n" arbitrary: n s ds)
  case 0
  thus ?case by (simp add: has_glyphs_def)
next
  case (Suc k)
  let ?c = "of_nat (32 + n) :: u32" and ?p = "next_row W (gen_packer s)"
  have n: "n < 95" using Suc.hyps(2) by simp
  have codes: "[32 + n..<127] = (32 + n) # [32 + Suc n..<127]" using n by (simp add: upt_rec)
  obtain g d ds' where ds: "ds = d # ds'" "load_char face sz ?c = Some g" "glyph_ok W g"
    and d: "bitmap_width g = char_width d" "bitmap_rows g = char_height d"
      "glyph_bitmap_left g = bitmapLeft d" "glyph_bitmap_top g = bitmapTop d"
      "ucast (signed_drop_bit 6 (glyph_advance_x g)) = char_advanceX d"
    and rest: "has_glyphs W (load_char face sz) (map of_nat [32 + Suc n..<127]) ds'"
    using Suc.prems(1) unfolding codes
    by (auto simp: has_glyphs_def list_all2_Cons1 elim!: glyph_of.elims)
  have fits: "bitmap_rows g \<le> H" "bitmap_rows g \<le> H - currentCopyY ?p"
    and off: "imageOffsetX d = currentCopyX ?p" "imageOffsetY d = currentCopyY ?p"
    and packs: "packs_as W H ds' (pass_glyph (bitmap_width g) (bitmap_rows g) ?p)"
    using Suc.prems(2) by (auto simp: ds(1) Let_def d)
  have pk: "packer_ok W H ?p" "2 * unat (currentCopyX ?p) \<le> unat W"
    using next_row_ok(1,2) [OF Suc.prems(3)] .
  have x: "unat (currentCopyX ?p) + unat (bitmap_width g) \<le> unat W" "unat (bitmap_width g) \<le> unat W"
    "2 * unat (bitmap_width g) \<le> unat W"
    using pk(2) ds(3) by (simp_all add: glyph_ok_def)
  have y: "unat (currentCopyY ?p) + unat (bitmap_rows g) \<le> unat H"
    using fits pk by (simp add: packer_ok_def word_le_nat_alt unat_sub)
  obtain img where img: "copy_rows W (currentCopyX ?p) (currentCopyY ?p) g (unat (bitmap_rows g)) (gen_image s) = Some img"
    "length img = unat W * unat H"
    using copy_rows_correct [OF ds(3) Suc.prems(4) small x(1) y order.refl] by auto
  have fd: "font_char_of g ?p = d" by (cases d) (use d off in \<open>simp add: font_char_of_def\<close>)
  define s' where "s' = s\<lparr>gen_image := img, gen_characters := (gen_characters s)[n := d],
    gen_packer := pass_glyph (bitmap_width g) (bitmap_rows g) ?p\<rparr>"
  have "load_character face sz W H ?c s = Some s'"
    using ds(2) img(1) x(2) fits word_char_index [OF n]
    by (simp add: load_character_def Let_def word_less_nat_alt word_le_nat_alt not_less fd s'_def)
  moreover have "\<exists>s''. load_characters face sz W H (map of_nat [32 + Suc n..<127]) s' = Some s'' \<and>
    gen_characters s'' = take (Suc n) (gen_characters s') @ ds' \<and> gen_errors s'' = gen_errors s' \<and>
    length (gen_image s'') = unat W * unat H"
    using Suc.hyps(2) Suc.prems(5) n rest packs pass_glyph_ok(1) [OF pk x(3) y] img(2)
    by (intro Suc.hyps(1)) (auto simp: s'_def)
  moreover have "take (Suc n) (gen_characters s') = take n (gen_characters s) @ [d]"
    using Suc.prems(5) n by (simp add: s'_def take_Suc_conv_app_nth)
  ultimately show ?case unfolding codes by (auto simp: ds(1) s'_def)
qed

lemma loadFontASCII_table:
  assumes "has_glyphs 256 (load_char face FontSize) character_codes g_DexprOS_FontMetrics"
    "length img = 65536" "font_line_height face FontSize = Some h"
  shows "\<exists>img'. loadFontASCII True (Some face) FontSize img 256 256
      \<lparr>fm_characters = replicate 95 empty_char, fm_lineHeight = 0\<rparr> =
    Some (0, img', \<lparr>fm_characters = g_DexprOS_FontMetrics, fm_lineHeight = h\<rparr>, []) \<and> length img' = 65536"
proof -
  let ?s = "\<lparr>gen_packer = \<lparr>currentCopyX = 0, currentCopyY = 0, rowHeight = 0\<rparr>,
     gen_image = img, gen_characters = replicate 95 empty_char, gen_errors = []\<rparr>"
  have "\<exists>s. load_characters face FontSize 256 256 (map of_nat [32 + 0..<127]) ?s = Some s \<and>
      gen_characters s = take 0 (gen_characters ?s) @ g_DexprOS_FontMetrics \<and> gen_errors s = gen_errors ?s \<and>
      length (gen_image s) = unat (256 :: u32) * unat (256 :: u32)"
    by (rule load_characters_as)
      (use assms FontMetrics_packs in \<open>simp_all add: packer_ok_def character_codes_def\<close>)
  then obtain s where s: "load_characters face FontSize 256 256 character_codes ?s = Some s"
    "gen_characters s = g_DexprOS_FontMetrics" "gen_errors s = []" "length (gen_image s) = 65536"
    by (auto simp: character_codes_def)
  show ?thesis by (simp add: loadFontASCII_def s assms(3))
qed

text \<open>A face that has the glyphs of the table.\<close>

definition table_glyph :: "font_char \<Rightarrow> ft_glyph" where
  "table_glyph d = \<lparr>bitmap_width = char_width d, bitmap_rows = char_height d, bitmap_pitch = char_width d,
     bitmap_buffer = replicate (unat (char_width d) * unat (char_height d)) 255,
     glyph_bitmap_left = bitmapLeft d, glyph_bitmap_top = bitmapTop d,
     glyph_advance_x = push_bit 6 (ucast (char_advanceX d))\<rparr>"

definition table_face :: ft_face where
  "table_face = \<lparr>load_char = (\<lambda>sz c. map_option table_glyph (characters (c - 32))),
     face_scalable = True, face_height = 1152, units_per_EM = 1024\<rparr>"

lemma FontMetrics_small:
  "\<forall>d \<in> set g_DexprOS_FontMetrics. unat (char_width d) \<le> 17 \<and> unat (char_height d) \<le> 17"
  by (simp add: g_DexprOS_FontMetrics_def font_rows)

lemma table_face_glyphs: "has_glyphs 256 (load_char table_face FontSize) character_codes g_DexprOS_FontMetrics"
proof -
  have glyph: "glyph_of 256 (map_option table_glyph (characters (of_nat (32 + i) - 32))) (g_DexprOS_FontMetrics ! i)"
    if i: "i < 95" for i
  proof -
    let ?d = "g_DexprOS_FontMetrics ! i"
    have d: "?d \<in> set g_DexprOS_FontMetrics" using i by simp
    have small: "unat (char_width ?d) \<le> 17" "unat (char_height ?d) \<le> 17" "char_advanceX ?d = 9"
      using FontMetrics_small FontMetrics_monospace d by auto
    hence "unat (char_width ?d) * unat (char_height ?d) \<le> 17 * 17" by (intro mult_le_mono)
    moreover have "characters (of_nat (32 + i) - 32) = Some ?d"
      using i by (simp only: characters_def word_char_index [OF i] length_FontMetrics if_True)
    ultimately show ?thesis using small by (simp add: table_glyph_def glyph_ok_def)
  qed
  have len: "length character_codes = 95" by (simp add: character_codes_def)
  have codes: "character_codes ! i = of_nat (32 + i)" if "i < 95" for i
  proof -
    have "i < length [32..<127]" using that by simp
    moreover have "[32..<127] ! i = 32 + i" using that by (simp only: nth_upt)
    ultimately show ?thesis unfolding character_codes_def by (simp only: nth_map)
  qed
  show ?thesis
    unfolding has_glyphs_def list_all2_conv_all_nth length_FontMetrics table_face_def ft_face.simps len
  proof (intro conjI refl allI impI)
    fix i :: nat
    assume i: "i < 95"
    show "glyph_of 256 (map_option table_glyph (characters (character_codes ! i - 32))) (g_DexprOS_FontMetrics ! i)"
      unfolding codes [OF i] by (rule glyph [OF i])
  qed
qed

end
