(* ===== verification/FontOutput.thy ===== *)
theory FontOutput
  imports FontPacker
begin

text \<open>
  The second half of the font generator
  (src/util/util-font-gen/src/DexprBitmapFontGenerator.c): \<open>saveFontDataToCFile\<close>, which
  writes the image and the metrics as C source, and \<open>main\<close>.

  \<^item> A file is the string of the characters written to it. Whether \<open>fopen\<close> succeeds and
    what \<open>malloc\<close> returns (a block with any content) are parameters.
  \<^item> \<open>%u\<close>, \<open>%i\<close> and \<open>%x\<close> of \<open>fprintf\<close> are \<open>print_unsigned\<close>, \<open>print_int\<close> and
    \<open>print_hex\<close>. A read outside of the image or of the metrics is undefined: \<open>None\<close>.
  \<^item> \<open>tokens\<close>, \<open>read_bytes\<close> and \<open>read_fields\<close> read the initializers of the written file
    back, as a C compiler would: the specification of the file's content.
\<close>

subsection \<open>Formatted output\<close>

definition digit_char :: "nat \<Rightarrow> char" where
  "digit_char d = ''0123456789abcdef'' ! d"

function print_base :: "nat \<Rightarrow> nat \<Rightarrow> string" where
  "print_base b n = (if n < b \<or> b < 2 then [digit_char n] else print_base b (n div b) @ [digit_char (n mod b)])"
  by auto
termination by (relation "measure snd") auto

declare print_base.simps [simp del]

definition print_unsigned :: "u32 \<Rightarrow> string" where
  "print_unsigned w = print_base 10 (unat w)"

definition print_int :: "u32 \<Rightarrow> string" where
  "print_int w = (if sint w < 0 then ''-'' @ print_base 10 (nat (- sint w)) else print_base 10 (nat (sint w)))"

definition print_hex :: "nat \<Rightarrow> string" where
  "print_hex n = print_base 16 n"

definition newline :: char where
  "newline = CHR 0x0A"

definition line :: "string \<Rightarrow> string" where
  "line s = s @ [newline]"

subsection \<open>Writing the file\<close>

fun write_all :: "('a \<Rightarrow> string option) \<Rightarrow> 'a list \<Rightarrow> string option" where
  "write_all f [] = Some []"
| "write_all f (x # xs) =
     (case f x of None \<Rightarrow> None | Some s \<Rightarrow> map_option (append s) (write_all f xs))"

definition FontImageWidth :: u32 where
  "FontImageWidth = 256"

definition FontImageHeight :: u32 where
  "FontImageHeight = 256"

definition imageHeader :: string where
  \<open>imageHeader = line ''#include "DexprOS/Drivers/Graphics/GraphicsDriver.h"'' @ line [] @
     line ''static const unsigned char DexprOS_FontImageData[] = {''\<close>

definition rgbaPixelHeader :: string where
  "rgbaPixelHeader = ''0xFF, 0xFF, 0xFF, 0x''"

definition imageEnding :: string where
  "imageEnding = line ''};''"

definition metricsStructDefs :: string where
  "metricsStructDefs =
     line ''typedef struct DexprOS_FontCharacterData'' @ line ''{'' @
     line ''    unsigned imageOffsetX;'' @ line ''    unsigned imageOffsetY;'' @
     line ''    unsigned width;'' @ line ''    unsigned height;'' @ line [] @
     line ''    int bitmapLeft;'' @ line ''    int bitmapTop;'' @ line ''    int advanceX;'' @
     line ''} DexprOS_FontCharacterData;'' @ line [] @
     line ''typedef struct DexprOS_FontMetricsData'' @ line ''{'' @
     line ''    DexprOS_FontCharacterData characters[95];'' @ line ''    unsigned lineHeight;'' @
     line ''} DexprOS_FontMetricsData;'' @ line []"

definition metricsHeader :: string where
  "metricsHeader = line ''static const DexprOS_FontMetricsData g_DexprOS_FontMetrics = {'' @
     line ''    .characters = {''"

definition write_pixel :: "u8 list \<Rightarrow> u32 \<Rightarrow> string option" where
  "write_pixel pImage i =
     (if unat i < length pImage
      then Some (rgbaPixelHeader @ print_hex (unat (pImage ! unat i)) @ '', '')
      else None)"

definition write_row :: "u8 list \<Rightarrow> u32 \<Rightarrow> u32 \<Rightarrow> string option" where
  "write_row pImage imageWidth h =
     map_option line (write_all (\<lambda>w. write_pixel pImage (imageWidth * h + w))
       (map of_nat [0..<unat imageWidth]))"

definition write_image :: "u8 list \<Rightarrow> u32 \<Rightarrow> u32 \<Rightarrow> string option" where
  "write_image pImage imageWidth imageHeight =
     write_all (write_row pImage imageWidth) (map of_nat [0..<unat imageHeight])"

definition image_constants :: string where
  "image_constants =
     line [] @ line (''static const unsigned DexprOS_FontImageWidth = '' @ print_unsigned FontImageWidth @ '';'') @
     line (''static const unsigned DexprOS_FontImageHeight = '' @ print_unsigned FontImageHeight @ '';'') @
     line (''static const unsigned DexprOS_FontImageRowStride = '' @ print_unsigned (FontImageWidth * 4) @ '';'') @
     line ''static const DexprOS_GrImageFormat DexprOS_FontImageFormat = DEXPROS_GR_IMAGE_FORMAT_RGBA8;'' @
     line []"

definition field_line :: "string \<Rightarrow> string \<Rightarrow> string \<Rightarrow> string" where
  "field_line name value ending = line (''            .'' @ name @ '' = '' @ value @ ending)"

definition char_text :: "font_char \<Rightarrow> string" where
  "char_text d =
     field_line ''imageOffsetX'' (print_unsigned (imageOffsetX d)) '','' @
     field_line ''imageOffsetY'' (print_unsigned (imageOffsetY d)) '','' @
     field_line ''width'' (print_unsigned (char_width d)) '','' @
     field_line ''height'' (print_unsigned (char_height d)) '','' @
     field_line ''bitmapLeft'' (print_int (bitmapLeft d)) '','' @
     field_line ''bitmapTop'' (print_int (bitmapTop d)) '','' @
     field_line ''advanceX'' (print_int (char_advanceX d)) []"

definition write_character :: "font_metrics \<Rightarrow> nat \<Rightarrow> string option" where
  "write_character metrics i =
     (if i < length (fm_characters metrics)
      then Some (line ''        {'' @ char_text (fm_characters metrics ! i) @
             (if i + 1 < 95 then line ''        },'' else line ''        }''))
      else None)"

definition write_metrics :: "font_metrics \<Rightarrow> string option" where
  "write_metrics metrics =
     map_option (\<lambda>cs. cs @ line ''    },'' @
         line (''    .lineHeight = '' @ print_unsigned (fm_lineHeight metrics)) @ line ''};'')
       (write_all (write_character metrics) [0..<95])"

definition saveFontDataToCFile ::
  "bool \<Rightarrow> u8 list \<Rightarrow> u32 \<Rightarrow> u32 \<Rightarrow> font_metrics \<Rightarrow> (u32 \<times> string option) option" where
  "saveFontDataToCFile fileOpens pImage imageWidth imageHeight metrics =
     (if \<not> fileOpens then Some (1, None)
      else
        (case (write_image pImage imageWidth imageHeight, write_metrics metrics) of
           (Some pixels, Some characterData) \<Rightarrow>
             Some (0, Some (imageHeader @ pixels @ imageEnding @ image_constants @
                metricsStructDefs @ metricsHeader @ characterData))
         | _ \<Rightarrow> None))"

definition generator_main ::
  "u8 list option \<Rightarrow> bool \<Rightarrow> ft_face option \<Rightarrow> bool \<Rightarrow> (u32 \<times> string option \<times> gen_error list) option" where
  "generator_main pBitmapMemory freetypeStarts fontFace fileOpens =
     (case pBitmapMemory of
        None \<Rightarrow> Some (1, None, [ErrorMemory])
      | Some memory \<Rightarrow>
          (case loadFontASCII freetypeStarts fontFace FontSize memory FontImageWidth FontImageHeight
                  \<lparr>fm_characters = replicate 95 (char_data 0 0 0 0 0 0 0), fm_lineHeight = 0\<rparr> of
             None \<Rightarrow> None
           | Some (status, pImage, metrics, errors) \<Rightarrow>
               if status \<noteq> 0 then Some (1, None, errors)
               else
                 (case saveFontDataToCFile fileOpens pImage FontImageWidth FontImageHeight metrics of
                    None \<Rightarrow> None
                  | Some (saved, file) \<Rightarrow>
                      if saved \<noteq> 0 then Some (1, file, errors) else Some (0, file, errors))))"

subsection \<open>Reading the file\<close>

definition separator :: "char \<Rightarrow> bool" where
  "separator c = (c \<in> {CHR '' '', CHR '','', CHR ''='', CHR ''{'', CHR ''}'', CHR '';'', newline})"

fun tokens :: "string \<Rightarrow> string \<Rightarrow> string list" where
  "tokens acc [] = (if acc = [] then [] else [acc])"
| "tokens acc (c # cs) =
     (if separator c then (if acc = [] then tokens [] cs else acc # tokens [] cs)
      else tokens (acc @ [c]) cs)"

definition digit_value :: "char \<Rightarrow> nat option" where
  "digit_value c =
     (if of_char c \<in> {48..<58 :: nat} then Some (of_char c - 48)
      else if of_char c \<in> {97..<103 :: nat} then Some (of_char c - 87)
      else if of_char c \<in> {65..<71 :: nat} then Some (of_char c - 55) else None)"

fun read_base :: "nat \<Rightarrow> nat \<Rightarrow> string \<Rightarrow> nat option" where
  "read_base b n [] = Some n"
| "read_base b n (c # cs) =
     (case digit_value c of
        None \<Rightarrow> None
      | Some d \<Rightarrow> if d < b then read_base b (b * n + d) cs else None)"

definition read_byte :: "string \<Rightarrow> nat option" where
  "read_byte t = (if take 2 t = ''0x'' \<and> 2 < length t then read_base 16 0 (drop 2 t) else None)"

definition read_int :: "string \<Rightarrow> int option" where
  "read_int t =
     (if t = [] then None
      else if hd t = CHR ''-'' then (if tl t = [] then None else map_option (\<lambda>n. - int n) (read_base 10 0 (tl t)))
      else map_option int (read_base 10 0 t))"

fun read_fields :: "string list \<Rightarrow> (string \<times> int) list" where
  "read_fields (t # v # ts) =
     (case read_int v of
        None \<Rightarrow> read_fields (v # ts)
      | Some n \<Rightarrow> (t, n) # read_fields ts)"
| "read_fields _ = []"

subsection \<open>Digits\<close>

lemma digit_chars: "d < 16 \<Longrightarrow> digit_value (digit_char d) = Some d \<and> \<not> separator (digit_char d) \<and> digit_char d \<noteq> CHR ''-''"
proof -
  have "\<forall>d < 16. digit_value (digit_char d) = Some d \<and> \<not> separator (digit_char d) \<and> digit_char d \<noteq> CHR ''-''"
    by code_simp
  thus "d < 16 \<Longrightarrow> ?thesis" by blast
qed

lemma read_base_append:
  "read_base b n (s @ t) = (case read_base b n s of None \<Rightarrow> None | Some m \<Rightarrow> read_base b m t)"
  by (induction b n s rule: read_base.induct) (auto split: option.splits)

lemma read_print_base: "2 \<le> b \<Longrightarrow> b \<le> 16 \<Longrightarrow> read_base b 0 (print_base b n) = Some n"
proof (induction b n rule: print_base.induct)
  case (1 b n)
  show ?case
  proof (cases "n < b")
    case True
    thus ?thesis using 1 digit_chars [of n] by (subst print_base.simps) auto
  next
    case False
    have "n mod b < b" using 1 by simp
    hence "n mod b < 16" using 1 by linarith
    hence "digit_value (digit_char (n mod b)) = Some (n mod b)" using digit_chars by blast
    thus ?thesis using 1 False \<open>n mod b < b\<close>
      by (subst print_base.simps) (simp add: read_base_append)
  qed
qed

definition word_text :: "string \<Rightarrow> bool" where
  "word_text s \<longleftrightarrow> s \<noteq> [] \<and> list_all (\<lambda>c. \<not> separator c) s"

lemma print_base_word:
  "2 \<le> b \<Longrightarrow> b \<le> 16 \<Longrightarrow> word_text (print_base b n) \<and> hd (print_base b n) \<noteq> CHR ''-''"
proof (induction b n rule: print_base.induct)
  case (1 b n)
  show ?case
  proof (cases "n < b")
    case True
    thus ?thesis using 1 digit_chars [of n] by (subst (1 2) print_base.simps) (auto simp: word_text_def)
  next
    case False
    have "n mod b < 16" using 1 mod_less_divisor [of b n] by linarith
    thus ?thesis using 1 False digit_chars [of "n mod b"]
      by (subst (1 2) print_base.simps) (auto simp: word_text_def)
  qed
qed

lemma print_unsigned_word [simp]: "word_text (print_unsigned w)"
  by (simp add: print_unsigned_def print_base_word)

lemma print_int_word [simp]: "word_text (print_int w)"
  using print_base_word [of 10] by (auto simp: print_int_def word_text_def separator_def newline_def)

lemma print_hex_word: "word_text (print_hex n)"
  by (simp add: print_hex_def print_base_word)

lemma read_print_unsigned [simp]: "read_int (print_unsigned w) = Some (uint w)"
proof -
  have "print_unsigned w \<noteq> []" using print_unsigned_word unfolding word_text_def by blast
  thus ?thesis using print_base_word [of 10 "unat w"]
    by (simp add: read_int_def print_unsigned_def read_print_base)
qed

lemma read_print_int [simp]: "read_int (print_int w) = Some (sint w)"
proof -
  have "print_base 10 n \<noteq> []" "hd (print_base 10 n) \<noteq> CHR ''-''" for n
    using print_base_word [of 10 n] by (auto simp: word_text_def)
  thus ?thesis by (simp add: read_int_def print_int_def read_print_base)
qed

lemma read_print_byte [simp]: "read_byte (CHR ''0'' # CHR ''x'' # print_hex n) = Some n"
  using print_base_word [of 16 n]
  by (simp add: read_byte_def print_hex_def read_print_base word_text_def)

subsection \<open>Tokens\<close>

lemma tokens_acc: "list_all (\<lambda>c. \<not> separator c) t \<Longrightarrow> tokens acc (t @ rest) = tokens (acc @ t) rest"
  by (induction t arbitrary: acc) auto

lemma tokens_word: "word_text t \<Longrightarrow> separator c \<Longrightarrow> tokens [] (t @ c # rest) = t # tokens [] rest"
  by (simp add: tokens_acc word_text_def)

lemma tokens_separator: "separator c \<Longrightarrow> tokens [] (c # cs) = tokens [] cs"
  by simp

lemma write_all_Some:
  "(\<And>x. x \<in> set xs \<Longrightarrow> f x = Some (g x)) \<Longrightarrow> write_all f xs = Some (concat (map g xs))"
  by (induction xs) auto

lemma tokens_concat:
  "(\<And>x rest. x \<in> set xs \<Longrightarrow> tokens [] (g x @ rest) = ts x @ tokens [] rest) \<Longrightarrow>
   tokens [] (concat (map g xs) @ rest) = concat (map ts xs) @ tokens [] rest"
  by (induction xs arbitrary: rest) auto

subsection \<open>The image\<close>

definition pixel_text :: "u8 \<Rightarrow> string" where
  "pixel_text b = rgbaPixelHeader @ print_hex (unat b) @ '', ''"

definition pixel_bytes :: "u8 \<Rightarrow> nat list" where
  "pixel_bytes b = [255, 255, 255, unat b]"

lemma tokens_pixel:
  "tokens [] (pixel_text b @ rest) = [''0xFF'', ''0xFF'', ''0xFF'', ''0x'' @ print_hex (unat b)] @ tokens [] rest"
proof -
  have "list_all (\<lambda>c. \<not> separator c) (print_hex (unat b))" using print_hex_word by (simp add: word_text_def)
  thus ?thesis
    by (simp add: pixel_text_def rgbaPixelHeader_def separator_def newline_def tokens_acc)
qed

lemma read_FF [simp]: "read_byte ''0xFF'' = Some 255"
  by (simp add: read_byte_def digit_value_def)

lemma concat_rows:
  "concat (map (\<lambda>h. map (\<lambda>w. f (W * h + w)) [0..<W]) [0..<H]) = map f [0..<W * H]" for W H :: nat
proof (induction H)
  case (Suc H)
  have "[0..<W * Suc H] = [0..<W * H] @ map (\<lambda>w. W * H + w) [0..<W]"
    by (auto simp: list_eq_iff_nth_eq nth_append)
  thus ?case using Suc by (simp add: comp_def)
qed simp

lemma unat_pixel_index:
  assumes "unat (W :: u32) * unat (H :: u32) < 4294967296" "w < unat W" "h < unat H"
  shows "unat (W * of_nat h + of_nat w) = unat W * h + w"
proof -
  have "unat W * h + w < unat W * unat H" using assms by (intro pixel_in_image)
  hence lt: "unat W * h + w < 4294967296" using assms(1) by simp
  have "unat (W * of_nat h) = unat W * h"
    using lt assms unat_u32_less [of H] by (intro mult_word_of_nat) auto
  moreover have "unat (of_nat w :: u32) = w"
    using assms unat_u32_less [of W] by (simp add: unat_of_nat take_bit_nat_eq_self)
  ultimately show ?thesis using lt unat_u32_plus [of "W * of_nat h" "of_nat w"] by simp
qed

lemma map_word_indices: "map (\<lambda>v. f (unat v)) (map of_nat [0..<unat W] :: u32 list) = map f [0..<unat (W :: u32)]"
  using unat_u32_less [of W] by (auto simp: unat_of_nat take_bit_nat_eq_self)

lemma write_image_text:
  assumes "unat W * unat H < 4294967296" "length img = unat W * unat H"
  shows "write_image img W H = Some (concat (map (\<lambda>h. concat (map (\<lambda>w. pixel_text (img ! (unat W * h + w)))
    [0..<unat W]) @ [newline]) [0..<unat H]))"
proof -
  have "write_pixel img (W * of_nat h + of_nat w) = Some (pixel_text (img ! (unat W * h + w)))"
    if "w < unat W" "h < unat H" for w h
    using that pixel_in_image [OF that] assms(2)
    by (simp add: write_pixel_def unat_pixel_index [OF assms(1)] pixel_text_def)
  hence "write_row img W (of_nat h) = Some (line (concat (map (\<lambda>v. pixel_text (img ! (unat W * h + unat v)))
    (map of_nat [0..<unat W] :: u32 list))))" if "h < unat H" for h
    unfolding write_row_def using that unat_u32_less [of W]
    by (subst write_all_Some [where g = "\<lambda>v. pixel_text (img ! (unat W * h + unat v))"])
      (auto simp: unat_of_nat take_bit_nat_eq_self)
  hence row: "write_row img W (of_nat h) = Some (line (concat (map (\<lambda>w. pixel_text (img ! (unat W * h + w)))
    [0..<unat W])))" if "h < unat H" for h
    using that by (simp only: map_word_indices [where f = "\<lambda>i. pixel_text (img ! (unat W * h + i))"])
  have "write_image img W H = Some (concat (map (\<lambda>v. line (concat (map (\<lambda>w. pixel_text (img ! (unat W * unat v + w)))
      [0..<unat W]))) (map of_nat [0..<unat H] :: u32 list)))"
    unfolding write_image_def using row unat_u32_less [of H]
    by (intro write_all_Some) (auto simp: unat_of_nat take_bit_nat_eq_self)
  thus ?thesis
    by (simp only: line_def map_word_indices [where f = "\<lambda>h. concat (map (\<lambda>w. pixel_text (img ! (unat W * h + w)))
      [0..<unat W]) @ [newline]"])
qed

lemma concat_map_concat:
  "concat (map f (concat xss)) = concat (map (\<lambda>xs. concat (map f xs)) xss)"
  by (induction xss) simp_all

lemma tokens_image:
  assumes "length img = W * H"
  shows "map read_byte (tokens [] (concat (map (\<lambda>h. concat (map (\<lambda>w. pixel_text (img ! (W * h + w)))
      [0..<W]) @ [newline]) [0..<H]))) = map Some (concat (map pixel_bytes img))"
proof -
  let ?ts = "\<lambda>b. [''0xFF'', ''0xFF'', ''0xFF'', ''0x'' @ print_hex (unat b)]"
  have "tokens [] (concat (map (\<lambda>w. pixel_text (img ! (W * h + w))) [0..<W]) @ newline # rest) =
      concat (map (\<lambda>w. ?ts (img ! (W * h + w))) [0..<W]) @ tokens [] rest" for h rest
    using tokens_concat [where xs = "[0..<W]" and g = "\<lambda>w. pixel_text (img ! (W * h + w))"
        and ts = "\<lambda>w. ?ts (img ! (W * h + w))" and rest = "newline # rest"]
    by (simp add: tokens_pixel separator_def)
  hence "tokens [] (concat (map (\<lambda>h. concat (map (\<lambda>w. pixel_text (img ! (W * h + w))) [0..<W]) @ [newline]) [0..<H]) @ []) =
    concat (map (\<lambda>h. concat (map (\<lambda>w. ?ts (img ! (W * h + w))) [0..<W])) [0..<H]) @ tokens [] []"
    by (intro tokens_concat) simp
  also have "\<dots> = concat (map ?ts (concat (map (\<lambda>h. map (\<lambda>w. img ! (W * h + w)) [0..<W]) [0..<H])))"
    by (simp add: concat_map_concat comp_def)
  also have "concat (map (\<lambda>h. map (\<lambda>w. img ! (W * h + w)) [0..<W]) [0..<H]) = img"
    unfolding concat_rows [of "\<lambda>i. img ! i"] assms [symmetric] by (rule map_nth)
  finally show ?thesis
    by (simp add: map_concat comp_def pixel_bytes_def)
qed

subsection \<open>The metrics\<close>

definition char_fields :: "font_char \<Rightarrow> (string \<times> int) list" where
  "char_fields d =
     [(''.imageOffsetX'', uint (imageOffsetX d)), (''.imageOffsetY'', uint (imageOffsetY d)),
      (''.width'', uint (char_width d)), (''.height'', uint (char_height d)),
      (''.bitmapLeft'', sint (bitmapLeft d)), (''.bitmapTop'', sint (bitmapTop d)),
      (''.advanceX'', sint (char_advanceX d))]"

lemma separators: "separator CHR '' ''" "separator CHR '',''" "separator CHR ''=''" "separator CHR ''{''"
  "separator CHR ''}''" "separator CHR '';''" "separator newline"
  by (simp_all add: separator_def)

lemma tokens_field:
  assumes "list_all (\<lambda>c. \<not> separator c) name" "word_text v" "e = [] \<or> e = '',''"
  shows "tokens [] (field_line name v e @ rest) = (CHR ''.'' # name) # v # tokens [] rest"
proof -
  have "\<not> separator CHR ''.''" by (simp add: separator_def newline_def)
  moreover have "tokens [] (v @ newline # rest) = v # tokens [] rest"
    "tokens [] (v @ CHR '','' # newline # rest) = v # tokens [] rest"
    using tokens_word [OF assms(2)] by (simp_all add: separators)
  ultimately show ?thesis using assms(1,3)
    by (auto simp: field_line_def line_def separators tokens_acc)
qed

lemma tokens_fields:
  "tokens [] (char_text d @ rest) =
    [''.imageOffsetX'', print_unsigned (imageOffsetX d), ''.imageOffsetY'', print_unsigned (imageOffsetY d),
     ''.width'', print_unsigned (char_width d), ''.height'', print_unsigned (char_height d),
     ''.bitmapLeft'', print_int (bitmapLeft d), ''.bitmapTop'', print_int (bitmapTop d),
     ''.advanceX'', print_int (char_advanceX d)] @ tokens [] rest"
proof -
  have "list_all (\<lambda>c. \<not> separator c) n"
    if "n \<in> {''imageOffsetX'', ''imageOffsetY'', ''width'', ''height'', ''bitmapLeft'', ''bitmapTop'', ''advanceX''}" for n
    using that by (auto simp: separator_def newline_def)
  hence "tokens [] (field_line n v e @ rest) = (CHR ''.'' # n) # v # tokens [] rest"
    if "n \<in> {''imageOffsetX'', ''imageOffsetY'', ''width'', ''height'', ''bitmapLeft'', ''bitmapTop'', ''advanceX''}"
      "word_text v" "e = [] \<or> e = '',''" for n v e rest
    using that by (intro tokens_field) auto
  thus ?thesis by (simp add: char_text_def)
qed

lemma read_char_fields:
  "read_fields (tokens [] (char_text d @ rest)) = char_fields d @ read_fields (tokens [] rest)"
  by (simp add: tokens_fields char_fields_def)

lemma write_characters_text:
  assumes "length ds = 95"
  shows "write_all (write_character \<lparr>fm_characters = ds, fm_lineHeight = h\<rparr>) [0..<95] =
    Some (concat (map (\<lambda>i. line ''        {'' @ char_text (ds ! i) @
      (if i + 1 < 95 then line ''        },'' else line ''        }'')) [0..<95]))"
  using assms by (intro write_all_Some) (simp add: write_character_def)

lemma read_characters:
  "read_fields (tokens [] (concat (map (\<lambda>i. line ''        {'' @ char_text (ds i) @
      (if i + 1 < n then line ''        },'' else line ''        }'')) is) @ rest)) =
   concat (map (\<lambda>i. char_fields (ds i)) is) @ read_fields (tokens [] rest)"
proof (induction "is")
  case (Cons i "is")
  thus ?case by (simp add: line_def separators read_char_fields)
qed simp

subsection \<open>The written file\<close>

text \<open>The file: its parts in front of the image, between the image and the metrics, and the metrics.\<close>

definition font_file :: "string \<Rightarrow> string \<Rightarrow> string" where
  "font_file pixels characterData = imageHeader @ pixels @ imageEnding @ image_constants @
     metricsStructDefs @ metricsHeader @ characterData"

definition metrics_fields :: "font_metrics \<Rightarrow> (string \<times> int) list" where
  "metrics_fields m = concat (map char_fields (fm_characters m)) @ [(''.lineHeight'', uint (fm_lineHeight m))]"

lemma tokens_metricsHeader:
  "tokens [] (metricsHeader @ rest) =
     [''static'', ''const'', ''DexprOS_FontMetricsData'', ''g_DexprOS_FontMetrics'', ''.characters''] @ tokens [] rest"
  by (simp add: metricsHeader_def line_def separator_def newline_def)

lemma read_metrics:
  assumes "length ds = 95"
  shows "\<exists>characterData. write_metrics \<lparr>fm_characters = ds, fm_lineHeight = h\<rparr> = Some characterData \<and>
    read_fields (tokens [] (metricsHeader @ characterData)) =
      metrics_fields \<lparr>fm_characters = ds, fm_lineHeight = h\<rparr>"
proof -
  let ?cs = "concat (map (\<lambda>i. line ''        {'' @ char_text (ds ! i) @
      (if i + 1 < 95 then line ''        },'' else line ''        }'')) [0..<95])"
  let ?tail = "line ''    },'' @ line (''    .lineHeight = '' @ print_unsigned h) @ line ''};''"
  have tail: "tokens [] ?tail = [''.lineHeight'', print_unsigned h]"
    using tokens_word [OF print_unsigned_word, of newline h]
    by (simp add: line_def separator_def newline_def)
  have names: "read_int ''const'' = None" "read_int ''DexprOS_FontMetricsData'' = None"
    "read_int ''g_DexprOS_FontMetrics'' = None" "read_int ''.characters'' = None"
    "read_int ''.imageOffsetX'' = None"
    by (simp_all add: read_int_def digit_value_def)
  obtain d ds' where ds: "ds = d # ds'" using assms by (cases ds) auto
  have codes: "[0..<95] = 0 # [1..<95]" by (simp add: upt_rec)
  have first: "tokens [] (?cs @ ?tail) = ''.imageOffsetX'' # tl (tokens [] (?cs @ ?tail))"
    unfolding codes by (simp add: line_def separators tokens_fields)
  have "read_fields (tokens [] (?cs @ ?tail)) = concat (map (\<lambda>i. char_fields (ds ! i)) [0..<95]) @
      [(''.lineHeight'', uint h)]"
    by (simp only: read_characters tail) simp
  moreover have "map (\<lambda>i. char_fields (ds ! i)) [0..<95] = map char_fields ds"
    unfolding assms [symmetric] by (rule nth_equalityI) simp_all
  moreover have "read_fields (tokens [] (metricsHeader @ ?cs @ ?tail)) = read_fields (tokens [] (?cs @ ?tail))"
    unfolding tokens_metricsHeader by (subst (1 2) first) (simp add: names)
  ultimately show ?thesis
    by (simp add: write_metrics_def write_characters_text [OF assms] metrics_fields_def)
qed

lemma saveFontDataToCFile_reads:
  assumes "unat W * unat H < 2 ^ 32" "length img = unat W * unat H" "length ds = 95"
  shows "\<exists>pixels characterData.
    saveFontDataToCFile True img W H \<lparr>fm_characters = ds, fm_lineHeight = h\<rparr> =
      Some (0, Some (font_file pixels characterData)) \<and>
    map read_byte (tokens [] pixels) = map Some (concat (map pixel_bytes img)) \<and>
    read_fields (tokens [] (metricsHeader @ characterData)) =
      metrics_fields \<lparr>fm_characters = ds, fm_lineHeight = h\<rparr>"
proof -
  obtain characterData where m: "write_metrics \<lparr>fm_characters = ds, fm_lineHeight = h\<rparr> = Some characterData"
    "read_fields (tokens [] (metricsHeader @ characterData)) =
      metrics_fields \<lparr>fm_characters = ds, fm_lineHeight = h\<rparr>"
    using read_metrics [OF assms(3)] by blast
  have "unat W * unat H < 4294967296" using assms(1) by simp
  note img = write_image_text [OF this assms(2)]
  show ?thesis
    by (intro exI conjI, unfold saveFontDataToCFile_def img m(1), unfold font_file_def, simp,
        rule tokens_image [OF assms(2)], rule m(2))
qed

text \<open>
  C38: The file of the font generator. For every image and every metrics of 95 characters
  \<open>saveFontDataToCFile\<close> succeeds when the file opens, and the C initializers that it writes
  read back as the data: the array of the image as 255, 255, 255 and the pixel for every
  pixel in order, and the metrics as the seven fields of every character (the bearings and
  the advance signed) and the line height.
\<close>

theorem font_file_roundtrip:
  assumes "unat W * unat H < 2 ^ 32" "length img = unat W * unat H" "length ds = 95"
  shows "\<exists>pixels characterData.
    saveFontDataToCFile True img W H \<lparr>fm_characters = ds, fm_lineHeight = h\<rparr> =
      Some (0, Some (font_file pixels characterData)) \<and>
    map read_byte (tokens [] pixels) = map Some (concat (map pixel_bytes img)) \<and>
    read_fields (tokens [] (metricsHeader @ characterData)) =
      metrics_fields \<lparr>fm_characters = ds, fm_lineHeight = h\<rparr>"
  by (rule saveFontDataToCFile_reads [OF assms])

lemma font_file_roundtrip_witness:
  "\<exists>pixels characterData.
    saveFontDataToCFile True [1, 200] 2 1 \<lparr>fm_characters = g_DexprOS_FontMetrics, fm_lineHeight = 18\<rparr> =
      Some (0, Some (font_file pixels characterData)) \<and>
    map read_byte (tokens [] pixels) = [Some 255, Some 255, Some 255, Some 1, Some 255, Some 255, Some 255, Some 200]"
  using font_file_roundtrip [of 2 1 "[1, 200]" g_DexprOS_FontMetrics 18]
  by (auto simp: pixel_bytes_def)

text \<open>
  C39: The kernel's font table is the generator's output. From every face whose 95 rendered
  glyphs have the sizes, bearings and advances of \<open>g_DexprOS_FontMetrics\<close>, and whose line
  height is the kernel's, the generator's \<open>main\<close> exits with 0, reports no error and writes
  a file from which exactly the kernel's table is read, the offsets of every character in
  the image included.
\<close>

theorem generator_regenerates_table:
  assumes "has_glyphs 256 (load_char face FontSize) character_codes g_DexprOS_FontMetrics"
    "length memory = 65536" "font_line_height face FontSize = Some font_lineHeight"
  shows "\<exists>pixels characterData.
    generator_main (Some memory) True (Some face) True = Some (0, Some (font_file pixels characterData), []) \<and>
    read_fields (tokens [] (metricsHeader @ characterData)) =
      metrics_fields \<lparr>fm_characters = g_DexprOS_FontMetrics, fm_lineHeight = font_lineHeight\<rparr>"
proof -
  obtain img where img: "loadFontASCII True (Some face) FontSize memory 256 256
      \<lparr>fm_characters = replicate 95 empty_char, fm_lineHeight = 0\<rparr> =
    Some (0, img, \<lparr>fm_characters = g_DexprOS_FontMetrics, fm_lineHeight = font_lineHeight\<rparr>, [])"
    "length img = 65536"
    using loadFontASCII_table [OF assms] by blast
  obtain pixels characterData where
    "saveFontDataToCFile True img 256 256 \<lparr>fm_characters = g_DexprOS_FontMetrics, fm_lineHeight = font_lineHeight\<rparr> =
      Some (0, Some (font_file pixels characterData))"
    "read_fields (tokens [] (metricsHeader @ characterData)) =
      metrics_fields \<lparr>fm_characters = g_DexprOS_FontMetrics, fm_lineHeight = font_lineHeight\<rparr>"
    using saveFontDataToCFile_reads [of 256 256 img g_DexprOS_FontMetrics font_lineHeight] img(2) by auto
  thus ?thesis using img(1)
    by (intro exI [of _ pixels] exI [of _ characterData])
      (simp add: generator_main_def FontImageWidth_def FontImageHeight_def empty_char_def)
qed

lemma generator_regenerates_table_witness:
  "\<exists>pixels characterData.
    generator_main (Some (replicate 65536 0)) True (Some table_face) True =
      Some (0, Some (font_file pixels characterData), []) \<and>
    read_fields (tokens [] (metricsHeader @ characterData)) =
      metrics_fields \<lparr>fm_characters = g_DexprOS_FontMetrics, fm_lineHeight = font_lineHeight\<rparr>"
  by (rule generator_regenerates_table [OF table_face_glyphs])
    (rule length_replicate, simp add: font_line_height_def table_face_def FontSize_def font_lineHeight_def)

end
