(* ===== verification/X86Asm.thy ===== *)
theory X86Asm
  imports BootPageMapSwitch
begin

text \<open>
  The instructions that the boot program's assembly uses (the source operand comes first), for
  src/src/Boot/x86_64-efi/InitialPageMapSwitch.S and src/src/Kernel/x86_64/Interrupts.S.

  \<^item> The state are the general registers, memory, the control registers, \<open>EFER\<close> (without
    its read-only bit 10, LMA), the two table registers, whether the code segment is a 64-bit
    one, and the address that a transfer of control goes to.
  \<^item> Memory is accessed at the address that the instruction gives: the maps that are active
    are identity maps, and without paging the address is physical.
  \<^item> \<open>None\<close> is a fault, as the processor manuals document it: paging may not be switched off
    in 64-bit code or on without PAE in long mode, \<open>CR4\<close>.LA57 and PAE may not change in
    long mode and \<open>EFER\<close>.LME not while paging is on, and a segment register is only loaded
    from a present descriptor of the right kind within the table's limit. Instructions with
    64-bit operands, pushes, pops and returns of 64 bits fault outside of 64-bit code, too.
  \<^item> When the processor returns to 64-bit code from a 32-bit mode, the upper halves of the
    registers and all of \<open>R8\<close> to \<open>R15\<close> are undefined: they are taken from \<open>junk\<close>.
\<close>

subsection \<open>Registers and memory\<close>

datatype gpr = RAX | RBX | RCX | RDX | RSI | RDI | RBP | RSP
  | R8 | R9 | R10 | R11 | R12 | R13 | R14 | R15

datatype control = CR0 | CR3 | CR4

datatype segment = DS | ES | FS | GS | SS

datatype width = W16 | W32 | W64

fun bytes_of :: "width \<Rightarrow> nat" where
  "bytes_of W16 = 2"
| "bytes_of W32 = 4"
| "bytes_of W64 = 8"

definition bits_of :: "width \<Rightarrow> nat" where
  "bits_of w = 8 * bytes_of w"

datatype 'l operand = Reg gpr | Imm u64 | Mem width gpr u64 | Lea 'l

record asm_state =
  gprs :: "gpr \<Rightarrow> u64"
  amem :: mem
  cr0 :: u64
  cr3 :: u64
  cr4 :: u64
  efer :: u64
  gdtr_limit :: u64
  gdtr_base :: u64
  idtr_limit :: u64
  idtr_base :: u64
  cs_long :: bool
  interrupt_flag :: bool
  jump :: "u64 option"

text \<open>Loads and stores of up to eight bytes, little-endian.\<close>

fun ld :: "nat \<Rightarrow> mem \<Rightarrow> u64 \<Rightarrow> u64" where
  "ld 0 m p = 0"
| "ld (Suc n) m p = push_bit 8 (ld n m (p + 1)) OR ucast (m p)"

declare ld.simps [simp del]

definition st :: "nat \<Rightarrow> mem \<Rightarrow> u64 \<Rightarrow> u64 \<Rightarrow> mem" where
  "st n m p v = store_bytes m p (take n (u64_bytes v))"

subsection \<open>Modes\<close>

definition long_mode :: "asm_state \<Rightarrow> bool" where
  "long_mode s \<longleftrightarrow> bit (efer s) 8 \<and> bit (cr0 s) 31"

definition code64 :: "asm_state \<Rightarrow> bool" where
  "code64 s \<longleftrightarrow> long_mode s \<and> cs_long s"

subsection \<open>Operands\<close>

definition address :: "asm_state \<Rightarrow> width \<Rightarrow> gpr \<Rightarrow> u64 \<Rightarrow> u64" where
  "address s w r d = take_bit (bits_of w) (d + gprs s r)"

fun get :: "('l \<Rightarrow> u64) \<Rightarrow> width \<Rightarrow> 'l operand \<Rightarrow> asm_state \<Rightarrow> u64" where
  "get addr w (Reg r) s = take_bit (bits_of w) (gprs s r)"
| "get addr w (Imm i) s = take_bit (bits_of w) i"
| "get addr w (Mem a r d) s = ld (bytes_of w) (amem s) (address s a r d)"
| "get addr w (Lea l) s = take_bit (bits_of w) (addr l)"

definition set_reg :: "width \<Rightarrow> gpr \<Rightarrow> u64 \<Rightarrow> asm_state \<Rightarrow> asm_state" where
  "set_reg w r v s = s\<lparr>gprs := (gprs s)(r :=
     (if w = W16 then (gprs s r AND NOT (mask 16)) OR take_bit 16 v else take_bit (bits_of w) v))\<rparr>"

fun put :: "width \<Rightarrow> 'l operand \<Rightarrow> u64 \<Rightarrow> asm_state \<Rightarrow> asm_state option" where
  "put w (Reg r) v s = Some (set_reg w r v s)"
| "put w (Mem a r d) v s = Some (s\<lparr>amem := st (bytes_of w) (amem s) (address s a r d) v\<rparr>)"
| "put w _ v s = None"

subsection \<open>Segments\<close>

definition descriptor :: "asm_state \<Rightarrow> u64 \<Rightarrow> u64 option" where
  "descriptor s sel =
     (let offset = take_bit 16 sel AND NOT 7
      in if offset = 0 \<or> offset + 7 > gdtr_limit s then None
         else Some (ld 8 (amem s) (offset + gdtr_base s)))"

text \<open>A code segment: present (47), not a system segment (44), code (43); 64-bit (53) without default size (54).\<close>

definition load_code :: "u64 \<Rightarrow> asm_state \<Rightarrow> asm_state option" where
  "load_code sel s =
     (case descriptor s sel of
        None \<Rightarrow> None
      | Some d \<Rightarrow>
          if bit d 47 \<and> bit d 44 \<and> bit d 43 \<and> \<not> (bit d 53 \<and> bit d 54)
          then Some (s\<lparr>cs_long := bit d 53\<rparr>) else None)"

text \<open>A data segment: present, not a system segment, data (43 clear), writable (41).\<close>

definition load_data :: "u64 \<Rightarrow> asm_state \<Rightarrow> asm_state option" where
  "load_data sel s =
     (case descriptor s sel of
        None \<Rightarrow> None
      | Some d \<Rightarrow> if bit d 47 \<and> bit d 44 \<and> \<not> bit d 43 \<and> bit d 41 then Some s else None)"

definition upper_undefined :: "(gpr \<Rightarrow> u64) \<Rightarrow> (gpr \<Rightarrow> u64) \<Rightarrow> gpr \<Rightarrow> u64" where
  "upper_undefined junk rs r =
     (if r \<in> {R8, R9, R10, R11, R12, R13, R14, R15} then junk r
      else push_bit 32 (junk r) OR take_bit 32 (rs r))"

text \<open>A far transfer: the mode of the code segment decides the size of the address.\<close>

definition far_transfer :: "(gpr \<Rightarrow> u64) \<Rightarrow> u64 \<Rightarrow> u64 \<Rightarrow> asm_state \<Rightarrow> asm_state option" where
  "far_transfer junk sel target s =
     (case load_code sel s of
        None \<Rightarrow> None
      | Some s' \<Rightarrow>
          Some (s'\<lparr>jump := Some (if code64 s' then target else take_bit 32 target),
                  gprs := (if code64 s' \<and> \<not> code64 s then upper_undefined junk (gprs s') else gprs s')\<rparr>))"

subsection \<open>Instructions\<close>

datatype 'l instr =
    MOV width "'l operand" "'l operand"
  | PUSHQ "'l operand"
  | POPQ gpr
  | ADD width "'l operand" gpr
  | LAND width "'l operand" gpr
  | LOR width "'l operand" gpr
  | SHL width nat gpr
  | SHR width nat gpr
  | MOV_TO_SEG gpr segment
  | MOV_FROM_CR control gpr
  | MOV_TO_CR gpr control
  | RDMSR
  | WRMSR
  | LGDT "'l operand"
  | LIDT "'l operand"
  | LRETQ
  | LJMP "'l operand"
  | RET
  | CLI

definition EFER :: u64 where
  "EFER = 0xC0000080"

text \<open>The count of a shift is taken modulo 32, or 64 for an operand of 64 bits.\<close>

definition shift_count :: "width \<Rightarrow> nat \<Rightarrow> nat" where
  "shift_count w n = (if w = W64 then n mod 64 else n mod 32)"

definition write_cr0 :: "u64 \<Rightarrow> asm_state \<Rightarrow> asm_state option" where
  "write_cr0 v s =
     (if bit v 31 \<and> \<not> bit v 0 \<or>
         bit v 31 \<and> \<not> bit (cr0 s) 31 \<and> bit (efer s) 8 \<and> \<not> bit (cr4 s) 5 \<or>
         \<not> bit v 31 \<and> code64 s
      then None else Some (s\<lparr>cr0 := v\<rparr>))"

definition write_cr4 :: "u64 \<Rightarrow> asm_state \<Rightarrow> asm_state option" where
  "write_cr4 v s =
     (if long_mode s \<and> (bit v 12 \<noteq> bit (cr4 s) 12 \<or> \<not> bit v 5) then None else Some (s\<lparr>cr4 := v\<rparr>))"

definition write_efer :: "u64 \<Rightarrow> asm_state \<Rightarrow> asm_state option" where
  "write_efer v s =
     (if bit (cr0 s) 31 \<and> bit v 8 \<noteq> bit (efer s) 8 then None else Some (s\<lparr>efer := unset_bit 10 v\<rparr>))"

definition read_efer :: "asm_state \<Rightarrow> u64" where
  "read_efer s = (if long_mode s then set_bit 10 (efer s) else efer s)"

fun write_cr :: "control \<Rightarrow> u64 \<Rightarrow> asm_state \<Rightarrow> asm_state option" where
  "write_cr CR0 v s = write_cr0 v s"
| "write_cr CR3 v s = Some (s\<lparr>cr3 := v\<rparr>)"
| "write_cr CR4 v s = write_cr4 v s"

fun read_cr :: "control \<Rightarrow> asm_state \<Rightarrow> u64" where
  "read_cr CR0 s = cr0 s"
| "read_cr CR3 s = cr3 s"
| "read_cr CR4 s = cr4 s"

definition native :: "asm_state \<Rightarrow> width" where
  "native s = (if code64 s then W64 else W32)"

definition push :: "u64 \<Rightarrow> asm_state \<Rightarrow> asm_state" where
  "push v s =
     (let sp = gprs s RSP - 8
      in s\<lparr>gprs := (gprs s)(RSP := sp), amem := st 8 (amem s) sp v\<rparr>)"

definition pop :: "asm_state \<Rightarrow> u64 \<times> asm_state" where
  "pop s = (ld 8 (amem s) (gprs s RSP), s\<lparr>gprs := (gprs s)(RSP := 8 + gprs s RSP)\<rparr>)"

text \<open>The memory operand of an instruction that loads a table register or a far pointer.\<close>

fun operand_address :: "'l operand \<Rightarrow> asm_state \<Rightarrow> u64 option" where
  "operand_address (Mem a r d) s = Some (address s a r d)"
| "operand_address _ s = None"

fun exec :: "('l \<Rightarrow> u64) \<Rightarrow> (gpr \<Rightarrow> u64) \<Rightarrow> 'l instr \<Rightarrow> asm_state \<Rightarrow> asm_state option" where
  "exec addr junk (MOV w src dst) s = (if w = W64 \<and> \<not> code64 s then None else put w dst (get addr w src s) s)"
| "exec addr junk (PUSHQ src) s = (if \<not> code64 s then None else Some (push (get addr W64 src s) s))"
| "exec addr junk (POPQ r) s =
     (if \<not> code64 s then None
      else let (v, s') = pop s in Some (s'\<lparr>gprs := (gprs s')(r := v)\<rparr>))"
| "exec addr junk (ADD w src r) s =
     (if w = W64 \<and> \<not> code64 s then None
      else Some (set_reg w r (get addr w src s + gprs s r) s))"
| "exec addr junk (LAND w src r) s =
     (if w = W64 \<and> \<not> code64 s then None
      else Some (set_reg w r (gprs s r AND get addr w src s) s))"
| "exec addr junk (LOR w src r) s =
     (if w = W64 \<and> \<not> code64 s then None
      else Some (set_reg w r (gprs s r OR get addr w src s) s))"
| "exec addr junk (SHL w n r) s =
     (if w = W64 \<and> \<not> code64 s then None
      else Some (set_reg w r (push_bit (shift_count w n) (get addr w (Reg r) s)) s))"
| "exec addr junk (SHR w n r) s =
     (if w = W64 \<and> \<not> code64 s then None
      else Some (set_reg w r (drop_bit (shift_count w n) (get addr w (Reg r) s)) s))"
| "exec addr junk (MOV_TO_SEG r sg) s = load_data (gprs s r) s"
| "exec addr junk (MOV_FROM_CR c r) s = Some (set_reg (native s) r (read_cr c s) s)"
| "exec addr junk (MOV_TO_CR r c) s = write_cr c (take_bit (bits_of (native s)) (gprs s r)) s"
| "exec addr junk RDMSR s =
     (if take_bit 32 (gprs s RCX) = EFER
      then Some (set_reg W32 RDX (drop_bit 32 (read_efer s)) (set_reg W32 RAX (read_efer s) s))
      else None)"
| "exec addr junk WRMSR s =
     (if take_bit 32 (gprs s RCX) = EFER
      then write_efer (push_bit 32 (take_bit 32 (gprs s RDX)) OR take_bit 32 (gprs s RAX)) s
      else None)"
| "exec addr junk (LGDT src) s =
     map_option (\<lambda>p. s\<lparr>gdtr_limit := ld 2 (amem s) p,
       gdtr_base := ld (bytes_of (native s)) (amem s) (p + 2)\<rparr>) (operand_address src s)"
| "exec addr junk (LIDT src) s =
     map_option (\<lambda>p. s\<lparr>idtr_limit := ld 2 (amem s) p,
       idtr_base := ld (bytes_of (native s)) (amem s) (p + 2)\<rparr>) (operand_address src s)"
| "exec addr junk LRETQ s =
     (if \<not> code64 s then None
      else let (target, s1) = pop s; (sel, s2) = pop s1 in far_transfer junk sel target s2)"
| "exec addr junk (LJMP src) s =
     (case operand_address src s of
        None \<Rightarrow> None
      | Some p \<Rightarrow> far_transfer junk (ld 2 (amem s) (p + 4)) (ld 4 (amem s) p) s)"
| "exec addr junk RET s =
     (if \<not> code64 s then None
      else let (target, s') = pop s in Some (s'\<lparr>jump := Some target\<rparr>))"
| "exec addr junk CLI s = Some (s\<lparr>interrupt_flag := False\<rparr>)"

text \<open>
  A block of code was assembled for 64-bit or for 32-bit code and runs in that mode only,
  up to the first transfer of control. Running out of the block is \<open>None\<close>.
\<close>

fun run_block :: "('l \<Rightarrow> u64) \<Rightarrow> (gpr \<Rightarrow> u64) \<Rightarrow> bool \<Rightarrow> 'l instr list \<Rightarrow> asm_state \<Rightarrow> asm_state option" where
  "run_block addr junk long [] s = None"
| "run_block addr junk long (i # is) s =
     (if code64 s \<noteq> long then None
      else case exec addr junk i (s\<lparr>jump := None\<rparr>) of
        None \<Rightarrow> None
      | Some s' \<Rightarrow> if jump s' = None then run_block addr junk long is s' else Some s')"

subsection \<open>Memory\<close>

definition apart :: "u64 \<Rightarrow> nat \<Rightarrow> u64 \<Rightarrow> nat \<Rightarrow> bool" where
  "apart p n q k \<longleftrightarrow> n \<le> unat (q - p) \<and> k \<le> unat (p - q)"

lemma u64_byte: "i < 8 \<Longrightarrow> u64_bytes v ! i = ucast (drop_bit (8 * i) v)"
  unfolding u64_bytes_def by (subst nth_map) (simp_all only: length_upt nth_upt, simp_all)

lemma st_apply:
  "n \<le> 8 \<Longrightarrow> st n m p v a = (if unat (a - p) < n then ucast (drop_bit (8 * unat (a - p)) v) else m a)"
  by (simp add: st_def store_bytes_apply min_absorb2 u64_byte)

lemma bit_ld: "bit (ld n m p) i \<longleftrightarrow> i < 64 \<and> i < 8 * n \<and> bit (m (p + of_nat (i div 8))) (i mod 8)"
proof (induction n arbitrary: p i)
  case (Suc n)
  show ?case
  proof (cases "i < 8")
    case True
    thus ?thesis by (auto simp: ld.simps bit_simps)
  next
    case False
    hence "i div 8 = Suc ((i - 8) div 8)" "i mod 8 = (i - 8) mod 8" by (simp_all add: le_div_geq le_mod_geq)
    moreover have "\<not> bit (m p) i" using False bit_imp_le_length [of "m p" i] by auto
    ultimately show ?thesis using False Suc [of "p + 1" "i - 8"]
      by (auto simp: ld.simps bit_simps add.assoc)
  qed
qed (simp add: ld.simps)

lemma apart_byte:
  assumes "apart p n q k" "i < n"
  shows "\<not> unat (p + of_nat i - q) < k"
proof -
  have d: "k \<le> unat (p - q)" "n \<le> unat (q - p)" using assms(1) by (simp_all add: apart_def)
  show ?thesis
  proof (cases "p = q")
    case True
    thus ?thesis using d assms(2) by simp
  next
    case False
    have "unat (q - p) = 18446744073709551616 - unat (p - q)"
      using False unat_sub_if' [of q p] unat_sub_if' [of p q] unat_u64_less [of p] unat_u64_less [of q]
      by (auto simp: word_unat_eq_iff)
    hence "unat (p - q) + i < 18446744073709551616" using d assms(2) unat_u64_less [of "p - q"] by auto
    moreover have "p + of_nat i - q = (p - q) + of_nat i" by simp
    ultimately have "unat (p + of_nat i - q) = unat (p - q) + i" by (simp only: unat_u64_plus_of_nat)
    thus ?thesis using d by simp
  qed
qed

lemma ld_st_apart: "apart p n q k \<Longrightarrow> k \<le> 8 \<Longrightarrow> ld n (st k m q v) p = ld n m p"
  by (rule bit_word_eqI) (auto simp: bit_ld st_apply apart_byte div_less_iff_less_mult)

lemma ld_st_prefix: "k \<le> n \<Longrightarrow> n \<le> 8 \<Longrightarrow> ld k (st n m p v) p = take_bit (8 * k) v"
proof (rule bit_word_eqI)
  fix i
  assume kn: "k \<le> n" "n \<le> 8"
  show "bit (ld k (st n m p v) p) i \<longleftrightarrow> bit (take_bit (8 * k) v) i"
  proof (cases "i < 8 * k")
    case True
    hence "i div 8 < n" "i div 8 < 8" "i < 64" using kn by (auto simp: div_less_iff_less_mult)
    moreover have "8 * (i div 8) + i mod 8 = i" by simp
    ultimately show ?thesis using True kn
      by (auto simp: bit_ld st_apply bit_simps unat_of_nat take_bit_nat_eq_self)
  qed (simp add: bit_ld bit_simps)
qed

lemma ld_8_split: "ld 8 m p = ld 4 m p OR push_bit 32 (ld 4 m (p + 4))"
proof (rule bit_word_eqI)
  fix i
  show "bit (ld 8 m p) i \<longleftrightarrow> bit (ld 4 m p OR push_bit 32 (ld 4 m (p + 4))) i"
  proof (cases "i < 32")
    case False
    define j where "j = i - 32"
    have "i = j + 4 * 8" using False by (simp add: j_def)
    hence "i div 8 = 4 + (i - 32) div 8" "i mod 8 = (i - 32) mod 8" by (simp_all only: div_mult_self1 mod_mult_self1) simp_all
    thus ?thesis using False by (auto simp: bit_ld bit_simps add.assoc)
  qed (auto simp: bit_ld bit_simps)
qed

end
