(* ===== verification/SwitchAssembly.thy ===== *)
theory SwitchAssembly
  imports X86Asm
begin

text \<open>
  The code that switches from 4-level to 5-level paging
  (src/src/Boot/x86_64-efi/InitialPageMapSwitch.S): from 64-bit code through compatibility
  mode to protected mode, where the paging mode can be changed, and back.

  \<^item> The three parts of the code between \<open>SwitchRegionStart\<close> and \<open>SwitchRegionEnd\<close> are
    lists of instructions, in the order of the source; a far transfer has to reach the
    label of the next part. The labels' addresses depend on where the code was copied to
    and are the parameter \<open>addr\<close>.
\<close>

subsection \<open>The code\<close>

datatype switch_label = Switched_back_to_64bit_mode | Compatibility_mode_entered

definition DisableInterrupts_code :: "unit instr list" where
  "DisableInterrupts_code = [CLI, RET]"

definition SwitchPageMap_code :: "unit instr list" where
  "SwitchPageMap_code = [MOV_TO_CR RCX CR3, RET]"

abbreviation (input) at_rdx :: "u64 \<Rightarrow> switch_label operand" where
  "at_rdx d \<equiv> Mem W64 RDX d"

definition fill_tables_code :: "switch_label instr list" where
  "fill_tables_code =
    [MOV W64 (Imm 0) (at_rdx 0), MOV W16 (Imm 0) (at_rdx 8), LIDT (at_rdx 0),
     MOV W64 (Imm 0) (at_rdx 0),
     MOV W32 (Imm 0x0000FFFF) (at_rdx 8), MOV W32 (Imm 0x00AF9A00) (at_rdx 12),
     MOV W32 (Imm 0x0000FFFF) (at_rdx 16), MOV W32 (Imm 0x00CF9200) (at_rdx 20),
     MOV W16 (Imm 23) (at_rdx 32), MOV W32 (Reg RDX) (at_rdx 34),
     MOV W64 (Lea Switched_back_to_64bit_mode) (Reg RAX),
     MOV W32 (Reg RAX) (at_rdx 48), MOV W16 (Imm 8) (at_rdx 52),
     MOV W64 (Imm 0) (at_rdx 64),
     MOV W32 (Imm 0x0000FFFF) (at_rdx 72), MOV W32 (Imm 0x00CF9A00) (at_rdx 76),
     MOV W32 (Imm 0x0000FFFF) (at_rdx 80), MOV W32 (Imm 0x00CF9200) (at_rdx 84),
     MOV W64 (Reg RDX) (Reg RAX), ADD W64 (Imm 64) RAX,
     MOV W16 (Imm 23) (at_rdx 96), MOV W64 (Reg RAX) (at_rdx 98),
     LGDT (at_rdx 96)]"

definition load_segments_code :: "switch_label instr list" where
  "load_segments_code =
    [MOV W16 (Imm 0x10) (Reg RAX), MOV_TO_SEG RAX DS, MOV_TO_SEG RAX ES, MOV_TO_SEG RAX FS,
     MOV_TO_SEG RAX GS, MOV_TO_SEG RAX SS]"

definition save_registers_code :: "switch_label instr list" where
  "save_registers_code =
    [PUSHQ (Reg RBX), PUSHQ (Reg RSI), PUSHQ (Reg RDI), PUSHQ (Reg R10), PUSHQ (Reg R11),
     PUSHQ (Reg R12), PUSHQ (Reg R13), PUSHQ (Reg R14), PUSHQ (Reg R15),
     MOV W32 (Reg RCX) (at_rdx 96),
     MOV W64 (Reg RSP) (Reg R8), MOV W32 (Reg R8) (at_rdx 100),
     SHR W64 32 R8, MOV W32 (Reg R8) (at_rdx 104),
     MOV W64 (Reg RBP) (Reg R8), MOV W32 (Reg R8) (at_rdx 108),
     SHR W64 32 R8, MOV W32 (Reg R8) (at_rdx 112)]"

definition leave_64bit_code :: "switch_label instr list" where
  "leave_64bit_code =
    [PUSHQ (Imm 8), MOV W64 (Lea Compatibility_mode_entered) (Reg RAX), PUSHQ (Reg RAX),
     MOV W64 (Reg RDX) (Reg RBX), ADD W64 (Imm 32) RBX,
     MOV W64 (Reg RDX) (Reg RSI), ADD W64 (Imm 48) RSI,
     MOV W64 (Reg RDX) (Reg RDI), ADD W64 (Imm 96) RDI,
     LRETQ]"

definition switched_back_to_64bit_mode :: "switch_label instr list" where
  "switched_back_to_64bit_mode =
    [MOV W64 (Imm 0) (Reg RAX), MOV W64 (Imm 0) (Reg RCX), MOV W64 (Imm 0) (Reg RDX),
     MOV W64 (Imm 0) (Reg R8), MOV W64 (Imm 0) (Reg R9),
     MOV W32 (Mem W32 RDI 12) (Reg R8), MOV W32 (Mem W32 RDI 16) (Reg R9),
     SHL W32 32 R9, LOR W64 (Reg R9) R8, MOV W64 (Reg R8) (Reg RBP),
     MOV W64 (Imm 0) (Reg R8), MOV W64 (Imm 0) (Reg R9),
     MOV W32 (Mem W32 RDI 4) (Reg R8), MOV W32 (Mem W32 RDI 8) (Reg R9),
     SHL W32 32 R9, LOR W64 (Reg R9) R8, MOV W64 (Reg R8) (Reg RSP),
     POPQ R15, POPQ R14, POPQ R13, POPQ R12, POPQ R11, POPQ R10, POPQ RDI, POPQ RSI, POPQ RBX,
     RET]"

definition compatibility_mode_entered :: "switch_label instr list" where
  "compatibility_mode_entered =
    [MOV_FROM_CR CR0 RAX, LAND W32 (Imm 0x7FFFFFFF) RAX, MOV_TO_CR RAX CR0,
     MOV W32 (Imm 0xC0000080) (Reg RCX), RDMSR, LAND W32 (Imm 0xFFFFFEFF) RAX, WRMSR,
     MOV_FROM_CR CR4 RAX, LOR W32 (Imm 0x1000) RAX, MOV_TO_CR RAX CR4,
     MOV W32 (Mem W32 RDI 0) (Reg RAX), MOV_TO_CR RAX CR3,
     MOV W32 (Imm 0xC0000080) (Reg RCX), RDMSR, LOR W32 (Imm 0x100) RAX, WRMSR,
     MOV_FROM_CR CR0 RAX, LOR W32 (Imm 0x80000000) RAX, MOV_TO_CR RAX CR0,
     LGDT (Mem W32 RBX 0), LJMP (Mem W32 RSI 0)]"

definition SwitchRegion_code :: "switch_label instr list" where
  "SwitchRegion_code = fill_tables_code @ load_segments_code @ save_registers_code @ leave_64bit_code"

definition far_to :: "('l \<Rightarrow> u64) \<Rightarrow> 'l \<Rightarrow> asm_state option \<Rightarrow> asm_state option" where
  "far_to addr l r =
     (case r of None \<Rightarrow> None | Some s \<Rightarrow> if jump s = Some (addr l) then Some s else None)"

definition run_next ::
  "('l \<Rightarrow> u64) \<Rightarrow> (gpr \<Rightarrow> u64) \<Rightarrow> bool \<Rightarrow> 'l instr list \<Rightarrow> asm_state option \<Rightarrow> asm_state option" where
  "run_next addr junk long is r = (case r of None \<Rightarrow> None | Some s \<Rightarrow> run_block addr junk long is s)"

definition SwitchRegion :: "(switch_label \<Rightarrow> u64) \<Rightarrow> (gpr \<Rightarrow> u64) \<Rightarrow> asm_state \<Rightarrow> asm_state option" where
  "SwitchRegion addr junk s =
     run_next addr junk True switched_back_to_64bit_mode
       (far_to addr Switched_back_to_64bit_mode
         (run_next addr junk False compatibility_mode_entered
           (far_to addr Compatibility_mode_entered
             (run_block addr junk True SwitchRegion_code s))))"

subsection \<open>Symbolic execution\<close>

named_theorems asm_simps \<open>execution of instructions and the memory they read\<close>

lemma take_bit_u64 [asm_simps]: "take_bit 64 (x :: u64) = x"
  by (rule bit_word_eqI) (auto simp: bit_simps)

lemma code64_update [asm_simps]:
  "code64 (s\<lparr>gprs := r\<rparr>) = code64 s" "code64 (s\<lparr>amem := m\<rparr>) = code64 s" "code64 (s\<lparr>jump := j\<rparr>) = code64 s"
  "code64 (s\<lparr>gdtr_limit := l\<rparr>) = code64 s" "code64 (s\<lparr>gdtr_base := l\<rparr>) = code64 s"
  "code64 (s\<lparr>idtr_limit := l\<rparr>) = code64 s" "code64 (s\<lparr>idtr_base := l\<rparr>) = code64 s"
  by (simp_all add: code64_def long_mode_def)

lemma apart_sym: "apart p n q k = apart q k p n"
  by (auto simp: apart_def)

lemma apart_same [asm_simps]:
  "apart (x + b) n (y + b) k = (n \<le> unat (y - x) \<and> k \<le> unat (x - y))"
  "apart b n (y + b) k = (n \<le> unat y \<and> k \<le> unat (- y))"
  "apart (x + b) n b k = (n \<le> unat (- x) \<and> k \<le> unat x)"
  by (simp_all add: apart_def)

lemma apart_offsets:
  assumes "apart lo N b M" "0 < n" "0 < k" "unat x + n \<le> N" "unat y + k \<le> M"
  shows "apart (x + lo) n (y + b) k"
proof -
  have 1: "N \<le> unat (b - lo)" "M \<le> unat (lo - b)" using assms(1) by (simp_all add: apart_def)
  have "b \<noteq> lo" using 1 assms(2,4) by auto
  hence opp: "unat (lo - b) = 18446744073709551616 - unat (b - lo)"
    using unat_sub_if' [of b lo] unat_sub_if' [of lo b] unat_u64_less [of lo] unat_u64_less [of b]
    by (auto simp: word_unat_eq_iff)
  have "unat (b - lo + y) = unat (b - lo) + unat y"
    using 1 opp assms(2-5) unat_u64_less [of "b - lo"] by (intro unat_u64_plus) auto
  moreover have "unat (b - lo + y - x) = unat (b - lo + y) - unat x"
    using 1 assms(4) calculation by (intro unat_u64_minus) (simp add: word_le_nat_alt)
  moreover have "y + b - (x + lo) = b - lo + y - x" by simp
  ultimately have a: "unat (y + b - (x + lo)) = unat (b - lo) + unat y - unat x" by (simp only:)
  have "unat (lo - b + x) = unat (lo - b) + unat x"
    using 1 opp assms(2-5) unat_u64_less [of "b - lo"] by (intro unat_u64_plus) auto
  moreover have "unat (lo - b + x - y) = unat (lo - b + x) - unat y"
    using 1 assms(5) calculation by (intro unat_u64_minus) (simp add: word_le_nat_alt)
  moreover have "x + lo - (y + b) = lo - b + x - y" by simp
  ultimately have "unat (x + lo - (y + b)) = unat (lo - b) + unat x - unat y" by (simp only:)
  thus ?thesis using a 1 assms(4,5) unfolding apart_def by linarith
qed

fun exec_all ::
  "('l \<Rightarrow> u64) \<Rightarrow> (gpr \<Rightarrow> u64) \<Rightarrow> bool \<Rightarrow> 'l instr list \<Rightarrow> asm_state \<Rightarrow> asm_state option" where
  "exec_all addr junk long [] s = Some s"
| "exec_all addr junk long (i # is) s =
     (if code64 s \<noteq> long then None
      else case exec addr junk i (s\<lparr>jump := None\<rparr>) of
        None \<Rightarrow> None
      | Some s' \<Rightarrow> if jump s' = None then exec_all addr junk long is s' else None)"

lemma run_block_append:
  "exec_all addr junk long is s = Some s' \<Longrightarrow>
   run_block addr junk long (is @ js) s = run_block addr junk long js s'"
  by (induction "is" arbitrary: s) (auto split: option.splits if_splits)

lemmas exec_simps = address_def set_reg_def bits_of_def push_def pop_def native_def Let_def

text \<open>Instructions that leave the control registers and the mode alone.\<close>

definition same_mode :: "asm_state \<Rightarrow> asm_state \<Rightarrow> bool" where
  "same_mode s s' \<longleftrightarrow> cr0 s' = cr0 s \<and> cr3 s' = cr3 s \<and> cr4 s' = cr4 s \<and> efer s' = efer s \<and>
     cs_long s' = cs_long s \<and> interrupt_flag s' = interrupt_flag s"

definition tables_mem :: "u64 \<Rightarrow> u64 \<Rightarrow> mem \<Rightarrow> mem" where
  "tables_mem b back m =
     (let m = st 8 m b 0; m = st 2 m (8 + b) 0; m = st 8 m b 0;
          m = st 4 m (8 + b) 0x0000FFFF; m = st 4 m (12 + b) 0x00AF9A00;
          m = st 4 m (16 + b) 0x0000FFFF; m = st 4 m (20 + b) 0x00CF9200;
          m = st 2 m (32 + b) 23; m = st 4 m (34 + b) (take_bit 32 b);
          m = st 4 m (48 + b) (take_bit 32 back); m = st 2 m (52 + b) 8;
          m = st 8 m (64 + b) 0;
          m = st 4 m (72 + b) 0x0000FFFF; m = st 4 m (76 + b) 0x00CF9A00;
          m = st 4 m (80 + b) 0x0000FFFF; m = st 4 m (84 + b) 0x00CF9200;
          m = st 2 m (96 + b) 23
      in st 8 m (98 + b) (64 + b))"

lemma fill_tables:
  assumes "code64 s" "gprs s RDX = b"
  shows "\<exists>s'. exec_all addr junk True fill_tables_code s = Some s' \<and>
    gprs s' = (gprs s)(RAX := 64 + b) \<and> amem s' = tables_mem b (addr Switched_back_to_64bit_mode) (amem s) \<and>
    gdtr_limit s' = 23 \<and> gdtr_base s' = 64 + b \<and> idtr_limit s' = 0 \<and> same_mode s s'"
  using assms
  by (simp add: fill_tables_code_def exec_simps asm_simps ld_st_apart ld_st_prefix tables_mem_def same_mode_def)

lemma tables_mem_reads:
  "ld 8 (tables_mem b back m) (8 + b) = 0x00AF9A000000FFFF"
  "ld 8 (tables_mem b back m) (72 + b) = 0x00CF9A000000FFFF"
  "ld 8 (tables_mem b back m) (80 + b) = 0x00CF92000000FFFF"
  "ld 2 (tables_mem b back m) (32 + b) = 23" "ld 4 (tables_mem b back m) (34 + b) = take_bit 32 b"
  "ld 4 (tables_mem b back m) (48 + b) = take_bit 32 back" "ld 2 (tables_mem b back m) (52 + b) = 8"
  by (simp_all add: ld_8_split tables_mem_def Let_def asm_simps ld_st_apart ld_st_prefix)

lemma load_segments:
  assumes "code64 s" "gdtr_limit s = 23" "gdtr_base s = 64 + b" "ld 8 (amem s) (80 + b) = 0x00CF92000000FFFF"
  shows "\<exists>s'. exec_all addr junk True load_segments_code s = Some s' \<and>
    (\<exists>v. gprs s' = (gprs s)(RAX := v)) \<and> amem s' = amem s \<and> gdtr_limit s' = gdtr_limit s \<and>
    gdtr_base s' = gdtr_base s \<and> idtr_limit s' = idtr_limit s \<and> same_mode s s'"
proof -
  have sel: "take_bit 16 v AND take_bit 16 (NOT (mask 16)) = 0" for v :: u64
    by (rule bit_word_eqI) (auto simp: bit_simps)
  show ?thesis using assms
    by (auto simp: load_segments_code_def exec_simps asm_simps load_data_def descriptor_def sel same_mode_def)
qed

definition saved_mem :: "u64 \<Rightarrow> u64 \<Rightarrow> (gpr \<Rightarrow> u64) \<Rightarrow> mem \<Rightarrow> mem" where
  "saved_mem b lo rs m =
     (let m = st 8 m (80 + lo) (rs RBX); m = st 8 m (72 + lo) (rs RSI); m = st 8 m (64 + lo) (rs RDI);
          m = st 8 m (56 + lo) (rs R10); m = st 8 m (48 + lo) (rs R11); m = st 8 m (40 + lo) (rs R12);
          m = st 8 m (32 + lo) (rs R13); m = st 8 m (24 + lo) (rs R14); m = st 8 m (16 + lo) (rs R15);
          m = st 4 m (96 + b) (take_bit 32 (rs RCX));
          m = st 4 m (100 + b) (take_bit 32 (16 + lo)); m = st 4 m (104 + b) (take_bit 32 (drop_bit 32 (16 + lo)));
          m = st 4 m (108 + b) (take_bit 32 (rs RBP))
      in st 4 m (112 + b) (take_bit 32 (drop_bit 32 (rs RBP))))"

lemma save_registers:
  assumes "code64 s" "gprs s RDX = b" "gprs s RSP = 88 + lo"
  shows "\<exists>s'. exec_all addr junk True save_registers_code s = Some s' \<and>
    (\<exists>v. gprs s' = (gprs s)(RSP := 16 + lo, R8 := v)) \<and> amem s' = saved_mem b lo (gprs s) (amem s) \<and>
    gdtr_limit s' = gdtr_limit s \<and> gdtr_base s' = gdtr_base s \<and> idtr_limit s' = idtr_limit s \<and> same_mode s s'"
  using assms
  by (auto simp: save_registers_code_def exec_simps asm_simps saved_mem_def shift_count_def same_mode_def)

lemma stack_apart:
  assumes "apart lo 96 b 128"
  shows "0 < n \<Longrightarrow> 0 < k \<Longrightarrow> unat x + n \<le> 96 \<Longrightarrow> unat y + k \<le> 128 \<Longrightarrow> apart (x + lo) n (y + b) k"
    "0 < n \<Longrightarrow> 0 < k \<Longrightarrow> unat x + n \<le> 96 \<Longrightarrow> unat y + k \<le> 128 \<Longrightarrow> apart (y + b) k (x + lo) n"
    "0 < n \<Longrightarrow> 0 < k \<Longrightarrow> n \<le> 96 \<Longrightarrow> unat y + k \<le> 128 \<Longrightarrow> apart (y + b) k lo n"
  using apart_offsets [OF assms, of n k x y] apart_offsets [OF assms, of n k 0 y]
  by (simp_all add: apart_sym)

lemma saved_mem_reads:
  assumes "apart lo 96 b 128"
  shows "ld 8 (saved_mem b lo rs m) (16 + lo) = rs R15" "ld 8 (saved_mem b lo rs m) (24 + lo) = rs R14"
    "ld 8 (saved_mem b lo rs m) (32 + lo) = rs R13" "ld 8 (saved_mem b lo rs m) (40 + lo) = rs R12"
    "ld 8 (saved_mem b lo rs m) (48 + lo) = rs R11" "ld 8 (saved_mem b lo rs m) (56 + lo) = rs R10"
    "ld 8 (saved_mem b lo rs m) (64 + lo) = rs RDI" "ld 8 (saved_mem b lo rs m) (72 + lo) = rs RSI"
    "ld 8 (saved_mem b lo rs m) (80 + lo) = rs RBX" "ld 8 (saved_mem b lo rs m) (88 + lo) = ld 8 m (88 + lo)"
    "ld 4 (saved_mem b lo rs m) (96 + b) = take_bit 32 (rs RCX)"
    "ld 4 (saved_mem b lo rs m) (100 + b) = take_bit 32 (16 + lo)"
    "ld 4 (saved_mem b lo rs m) (104 + b) = take_bit 32 (drop_bit 32 (16 + lo))"
    "ld 4 (saved_mem b lo rs m) (108 + b) = take_bit 32 (rs RBP)"
    "ld 4 (saved_mem b lo rs m) (112 + b) = take_bit 32 (drop_bit 32 (rs RBP))"
    "ld 8 (saved_mem b lo rs m) (8 + b) = ld 8 m (8 + b)" "ld 8 (saved_mem b lo rs m) (72 + b) = ld 8 m (72 + b)"
    "ld 2 (saved_mem b lo rs m) (32 + b) = ld 2 m (32 + b)" "ld 4 (saved_mem b lo rs m) (34 + b) = ld 4 m (34 + b)"
    "ld 4 (saved_mem b lo rs m) (48 + b) = ld 4 m (48 + b)" "ld 2 (saved_mem b lo rs m) (52 + b) = ld 2 m (52 + b)"
  using assms
  by (simp_all add: saved_mem_def Let_def asm_simps stack_apart ld_st_apart ld_st_prefix)

lemma leave_64bit:
  assumes s: "code64 s" "gprs s RDX = b" "gprs s RSP = 16 + lo" "apart lo 96 b 128"
    and gdt: "gdtr_limit s = 23" "gdtr_base s = 64 + b" "ld 8 (amem s) (72 + b) = 0x00CF9A000000FFFF"
    and code: "unat (addr Compatibility_mode_entered) < 2 ^ 32"
  shows "\<exists>s'. run_block addr junk True leave_64bit_code s = Some s' \<and> jump s' = Some (addr Compatibility_mode_entered) \<and>
    \<not> cs_long s' \<and> gprs s' RBX = 32 + b \<and> gprs s' RSI = 48 + b \<and> gprs s' RDI = 96 + b \<and>
    amem s' = st 8 (st 8 (amem s) (8 + lo) 8) lo (addr Compatibility_mode_entered) \<and>
    cr0 s' = cr0 s \<and> cr3 s' = cr3 s \<and> cr4 s' = cr4 s \<and> efer s' = efer s \<and> interrupt_flag s' = interrupt_flag s \<and>
    idtr_limit s' = idtr_limit s"
proof -
  have low: "take_bit 32 (addr Compatibility_mode_entered) = addr Compatibility_mode_entered"
    using code by (simp add: take_bit_eq_mod word_unat_eq_iff unat_mod)
  show ?thesis using s gdt
    by (simp add: leave_64bit_code_def exec_simps asm_simps far_transfer_def load_code_def descriptor_def
        stack_apart ld_st_apart ld_st_prefix low code64_def long_mode_def)
qed

text \<open>Bits of the control registers that the switch changes.\<close>

lemma mask_bits:
  fixes v :: u64
  assumes "take_bit 32 v = v"
  shows "v AND 0x7FFFFFFF = unset_bit 31 v" "take_bit 32 (unset_bit k v) = unset_bit k v"
    "k < 32 \<Longrightarrow> take_bit 32 (set_bit k v) = set_bit k v"
proof -
  have v: "bit v n \<Longrightarrow> n < 32" for n using assms by (metis bit_take_bit_iff)
  have k: "0x7FFFFFFF = (mask 31 :: u64)" by (simp add: mask_eq_exp_minus_1)
  have "v AND mask 31 = unset_bit 31 v"
    by (rule bit_word_eqI) (auto simp: bit_simps dest: v)
  thus "v AND 0x7FFFFFFF = unset_bit 31 v" by (simp only: k)
  show "take_bit 32 (unset_bit k v) = unset_bit k v" by (rule bit_word_eqI) (auto simp: bit_simps dest: v)
  show "k < 32 \<Longrightarrow> take_bit 32 (set_bit k v) = set_bit k v" by (rule bit_word_eqI) (auto simp: bit_simps dest: v)
qed

lemma or_bits: "(v :: u64) OR 0x1000 = set_bit 12 v" "v OR 0x80000000 = set_bit 31 v" "v OR 0x100 = set_bit 8 v"
  using set_bit_eq_or [of 12 v] set_bit_eq_or [of 31 v] set_bit_eq_or [of 8 v] by simp_all

lemma efer_words:
  fixes e :: u64
  shows "push_bit 32 (take_bit 32 (drop_bit 32 e)) OR (take_bit 32 e AND 0xFFFFFEFF) = unset_bit 8 e"
    "push_bit 32 (take_bit 32 (drop_bit 32 e)) OR set_bit 8 (take_bit 32 e) = set_bit 8 e"
proof -
  have k: "(0xFFFFFEFF :: u64) = take_bit 32 (NOT (push_bit 8 1))" by simp
  have "push_bit 32 (take_bit 32 (drop_bit 32 e)) OR (take_bit 32 e AND take_bit 32 (NOT (push_bit k 1))) = unset_bit k e"
    if "k < 32" for k
  proof (rule bit_word_eqI)
    fix n
    show "bit (push_bit 32 (take_bit 32 (drop_bit 32 e)) OR (take_bit 32 e AND take_bit 32 (NOT (push_bit k 1)))) n \<longleftrightarrow>
        bit (unset_bit k e) n" if "n < LENGTH(64)"
      using that \<open>k < 32\<close> by (cases "n < 32") (auto simp: bit_simps)
  qed
  from this [of 8]
  show "push_bit 32 (take_bit 32 (drop_bit 32 e)) OR (take_bit 32 e AND 0xFFFFFEFF) = unset_bit 8 e"
    by (simp only: k)
  show "push_bit 32 (take_bit 32 (drop_bit 32 e)) OR set_bit 8 (take_bit 32 e) = set_bit 8 e"
  proof (rule bit_word_eqI)
    fix n
    show "bit (push_bit 32 (take_bit 32 (drop_bit 32 e)) OR set_bit 8 (take_bit 32 e)) n \<longleftrightarrow> bit (set_bit 8 e) n"
      if "n < LENGTH(64)"
      using that by (cases "n < 32") (auto simp: bit_simps)
  qed
qed

subsection \<open>The 32-bit part\<close>

lemma exec_all_append:
  "exec_all addr junk long (is @ js) s =
     (case exec_all addr junk long is s of None \<Rightarrow> None | Some s' \<Rightarrow> exec_all addr junk long js s')"
  by (induction "is" arbitrary: s) (auto split: option.splits)

text \<open>The 32-bit code only changes the control registers and three general registers.\<close>

definition frame32 :: "asm_state \<Rightarrow> asm_state \<Rightarrow> bool" where
  "frame32 s s' \<longleftrightarrow> amem s' = amem s \<and> gdtr_limit s' = gdtr_limit s \<and> gdtr_base s' = gdtr_base s \<and>
     idtr_limit s' = idtr_limit s \<and> cs_long s' = cs_long s \<and> interrupt_flag s' = interrupt_flag s \<and>
     (\<forall>r. r \<noteq> RAX \<longrightarrow> r \<noteq> RCX \<longrightarrow> r \<noteq> RDX \<longrightarrow> gprs s' r = gprs s r)"

lemma paging_off:
  assumes "\<not> cs_long s" "bit (cr0 s) 0" "take_bit 32 (cr0 s) = cr0 s"
  shows "\<exists>s'. exec_all addr junk False [MOV_FROM_CR CR0 RAX, LAND W32 (Imm 0x7FFFFFFF) RAX, MOV_TO_CR RAX CR0] s =
      Some s' \<and> frame32 s s' \<and> cr0 s' = unset_bit 31 (cr0 s) \<and> cr3 s' = cr3 s \<and> cr4 s' = cr4 s \<and> efer s' = efer s"
  using assms
  by (simp add: exec_simps asm_simps code64_def mask_bits write_cr0_def bit_simps frame32_def)

lemma efer_update:
  assumes "\<not> cs_long s" "\<not> bit (cr0 s) 31" "\<not> bit (efer s) 10"
  shows "\<exists>s'. exec_all addr junk False [MOV W32 (Imm 0xC0000080) (Reg RCX), RDMSR, LAND W32 (Imm 0xFFFFFEFF) RAX, WRMSR] s =
      Some s' \<and> frame32 s s' \<and> cr0 s' = cr0 s \<and> cr3 s' = cr3 s \<and> cr4 s' = cr4 s \<and> efer s' = unset_bit 8 (efer s)"
    "\<exists>s'. exec_all addr junk False [MOV W32 (Imm 0xC0000080) (Reg RCX), RDMSR, LOR W32 (Imm 0x100) RAX, WRMSR] s =
      Some s' \<and> frame32 s s' \<and> cr0 s' = cr0 s \<and> cr3 s' = cr3 s \<and> cr4 s' = cr4 s \<and> efer s' = set_bit 8 (efer s)"
proof -
  have "unset_bit 10 (unset_bit 8 (efer s)) = unset_bit 8 (efer s)" "unset_bit 10 (set_bit 8 (efer s)) = set_bit 8 (efer s)"
    using assms(3) by (auto intro!: bit_word_eqI simp: bit_simps)
  thus "\<exists>s'. exec_all addr junk False [MOV W32 (Imm 0xC0000080) (Reg RCX), RDMSR, LAND W32 (Imm 0xFFFFFEFF) RAX, WRMSR] s =
      Some s' \<and> frame32 s s' \<and> cr0 s' = cr0 s \<and> cr3 s' = cr3 s \<and> cr4 s' = cr4 s \<and> efer s' = unset_bit 8 (efer s)"
    "\<exists>s'. exec_all addr junk False [MOV W32 (Imm 0xC0000080) (Reg RCX), RDMSR, LOR W32 (Imm 0x100) RAX, WRMSR] s =
      Some s' \<and> frame32 s s' \<and> cr0 s' = cr0 s \<and> cr3 s' = cr3 s \<and> cr4 s' = cr4 s \<and> efer s' = set_bit 8 (efer s)"
    using assms
    by (simp_all add: exec_simps asm_simps code64_def or_bits efer_words write_efer_def read_efer_def long_mode_def
        EFER_def frame32_def mask_bits)
qed

lemma la57_and_cr3:
  assumes "\<not> cs_long s" "\<not> long_mode s" "take_bit 32 (cr4 s) = cr4 s" "address s W32 RDI 0 = p"
  shows "\<exists>s'. exec_all addr junk False [MOV_FROM_CR CR4 RAX, LOR W32 (Imm 0x1000) RAX, MOV_TO_CR RAX CR4,
       MOV W32 (Mem W32 RDI 0) (Reg RAX), MOV_TO_CR RAX CR3] s = Some s' \<and> frame32 s s' \<and>
    cr0 s' = cr0 s \<and> cr3 s' = take_bit 32 (ld 4 (amem s) p) \<and> cr4 s' = set_bit 12 (cr4 s) \<and> efer s' = efer s"
  using assms
  by (auto simp: exec_simps asm_simps code64_def long_mode_def or_bits mask_bits write_cr4_def frame32_def)

lemma paging_on:
  assumes "\<not> cs_long s" "bit (cr0 s) 0" "take_bit 32 (cr0 s) = cr0 s" "bit (cr4 s) 5"
  shows "\<exists>s'. exec_all addr junk False [MOV_FROM_CR CR0 RAX, LOR W32 (Imm 0x80000000) RAX, MOV_TO_CR RAX CR0] s =
      Some s' \<and> frame32 s s' \<and> cr0 s' = set_bit 31 (cr0 s) \<and> cr3 s' = cr3 s \<and> cr4 s' = cr4 s \<and> efer s' = efer s"
  using assms
  by (simp add: exec_simps asm_simps code64_def or_bits mask_bits write_cr0_def bit_simps frame32_def)

lemma low_addresses:
  fixes b :: u64
  assumes "unat b + 128 \<le> 4294967296"
  shows "unat d < 128 \<Longrightarrow> take_bit 32 (d + b) = d + b" "take_bit 32 b = b"
    "take_bit 32 r = 96 + b \<Longrightarrow> unat d < 32 \<Longrightarrow> take_bit 32 (d + r) = d + (96 + b)"
proof -
  have low: "take_bit 32 (d + b) = d + b" if "unat d < 128" for d
  proof -
    have "unat (d + b) = unat d + unat b" using assms that by (intro unat_u64_plus) simp
    thus ?thesis using assms that by (simp add: take_bit_eq_mod word_unat_eq_iff unat_mod)
  qed
  show "unat d < 128 \<Longrightarrow> take_bit 32 (d + b) = d + b" by (rule low)
  show "take_bit 32 b = b" using low [of 0] by simp
  show "take_bit 32 (d + r) = d + (96 + b)" if "take_bit 32 r = 96 + b" "unat d < 32"
  proof -
    let ?t = "d + (96 + b)"
    have "take_bit 32 ((d + 96) + b) = (d + 96) + b"
      using that(2) by (intro low) (simp add: unat_u64_plus)
    hence t: "take_bit 32 ?t = ?t" by (simp add: add.assoc)
    hence bit: "bit ?t n \<Longrightarrow> n < 32" for n by (metis bit_take_bit_iff)
    have "d + r = d + (push_bit 32 (drop_bit 32 r) + take_bit 32 r)" by (simp only: bits_ident)
    also have "\<dots> = push_bit 32 (drop_bit 32 r) + ?t" by (simp add: that(1))
    also have "\<dots> = push_bit 32 (drop_bit 32 r) OR ?t"
      by (rule disjunctive_add) (auto simp: bit_push_bit_iff dest: bit)
    also have "take_bit 32 \<dots> = take_bit 32 ?t"
      by (rule bit_word_eqI) (auto simp: bit_take_bit_iff bit_or_iff bit_push_bit_iff)
    finally show ?thesis using t by simp
  qed
qed

lemma return_to_64bit:
  assumes s: "\<not> cs_long s" "bit (cr0 s) 31" "bit (efer s) 8"
    and regs: "gprs s RBX = 32 + b" "gprs s RSI = 48 + b" "gprs s RDI = 96 + b" "unat b + 128 \<le> 4294967296"
    and mem: "ld 2 (amem s) (32 + b) = 23" "ld 4 (amem s) (34 + b) = b" "ld 2 (amem s) (52 + b) = 8"
      "ld 4 (amem s) (48 + b) = target" "ld 8 (amem s) (8 + b) = 0x00AF9A000000FFFF"
  shows "\<exists>s'. run_block addr junk False [LGDT (Mem W32 RBX 0), LJMP (Mem W32 RSI 0)] s = Some s' \<and>
    jump s' = Some target \<and> code64 s' \<and> take_bit 32 (gprs s' RDI) = 96 + b \<and> amem s' = amem s \<and>
    cr0 s' = cr0 s \<and> cr3 s' = cr3 s \<and> cr4 s' = cr4 s \<and> efer s' = efer s \<and> gdtr_limit s' = 23 \<and>
    gdtr_base s' = b \<and> idtr_limit s' = idtr_limit s \<and> interrupt_flag s' = interrupt_flag s"
proof -
  have low: "take_bit 32 (32 + b) = 32 + b" "take_bit 32 (48 + b) = 48 + b" "take_bit 32 (96 + b) = 96 + b"
    by (simp_all add: low_addresses(1) [OF regs(4)])
  have "take_bit 32 (push_bit 32 (v :: u64)) = 0" for v
    by (rule bit_word_eqI) (auto simp: bit_simps)
  thus ?thesis using s regs(1-3) mem
    by (simp add: exec_simps asm_simps code64_def long_mode_def far_transfer_def load_code_def descriptor_def low
        upper_undefined_def)
qed

lemma compatibility_part:
  assumes s: "\<not> cs_long s" "bit (cr0 s) 31" "bit (cr0 s) 0" "take_bit 32 (cr0 s) = cr0 s"
      "bit (cr4 s) 5" "take_bit 32 (cr4 s) = cr4 s" "bit (efer s) 8" "\<not> bit (efer s) 10"
    and regs: "gprs s RBX = 32 + b" "gprs s RSI = 48 + b" "gprs s RDI = 96 + b" "unat b + 128 \<le> 4294967296"
    and mem: "ld 2 (amem s) (32 + b) = 23" "ld 4 (amem s) (34 + b) = b" "ld 2 (amem s) (52 + b) = 8"
      "ld 4 (amem s) (48 + b) = target" "ld 8 (amem s) (8 + b) = 0x00AF9A000000FFFF"
  shows "\<exists>s'. run_block addr junk False compatibility_mode_entered s = Some s' \<and>
    jump s' = Some target \<and> code64 s' \<and> take_bit 32 (gprs s' RDI) = 96 + b \<and> amem s' = amem s \<and>
    cr0 s' = cr0 s \<and> cr3 s' = take_bit 32 (ld 4 (amem s) (96 + b)) \<and> cr4 s' = set_bit 12 (cr4 s) \<and>
    efer s' = efer s \<and> gdtr_limit s' = 23 \<and> gdtr_base s' = b \<and> idtr_limit s' = idtr_limit s \<and>
    interrupt_flag s' = interrupt_flag s"
proof -
  have bits: "set_bit 31 (unset_bit 31 (cr0 s)) = cr0 s" "set_bit 8 (unset_bit 8 (efer s)) = efer s"
    using s(2,7) by (auto intro!: bit_word_eqI simp: bit_simps)
  obtain s1 where 1: "exec_all addr junk False [MOV_FROM_CR CR0 RAX, LAND W32 (Imm 0x7FFFFFFF) RAX, MOV_TO_CR RAX CR0] s = Some s1"
    and f1: "frame32 s s1" and e1: "cr0 s1 = unset_bit 31 (cr0 s)" "cr3 s1 = cr3 s" "cr4 s1 = cr4 s" "efer s1 = efer s"
    using paging_off [OF s(1,3,4)] by blast
  have "\<not> cs_long s1" "\<not> bit (cr0 s1) 31" "\<not> bit (efer s1) 10"
    using f1 s by (simp_all add: e1 frame32_def bit_simps)
  then obtain s2 where 2: "exec_all addr junk False [MOV W32 (Imm 0xC0000080) (Reg RCX), RDMSR, LAND W32 (Imm 0xFFFFFEFF) RAX, WRMSR] s1 = Some s2"
    and f2: "frame32 s1 s2" and e2: "cr0 s2 = cr0 s1" "cr3 s2 = cr3 s1" "cr4 s2 = cr4 s1" "efer s2 = unset_bit 8 (efer s1)"
    using efer_update(1) [of s1] by blast
  have "frame32 s s2" using f1 f2 by (simp add: frame32_def)
  hence "\<not> cs_long s2" "amem s2 = amem s" "address s2 W32 RDI 0 = 96 + b"
    using s(1) regs(3) low_addresses(1) [OF regs(4), of 96] by (simp_all add: frame32_def address_def bits_of_def)
  moreover have "\<not> long_mode s2" "take_bit 32 (cr4 s2) = cr4 s2"
    using s(6) by (simp_all add: e1 e2 long_mode_def bit_simps)
  ultimately obtain s3 where 3: "exec_all addr junk False [MOV_FROM_CR CR4 RAX, LOR W32 (Imm 0x1000) RAX, MOV_TO_CR RAX CR4,
       MOV W32 (Mem W32 RDI 0) (Reg RAX), MOV_TO_CR RAX CR3] s2 = Some s3"
    and f3: "frame32 s2 s3" and e3: "cr0 s3 = cr0 s2" "cr3 s3 = take_bit 32 (ld 4 (amem s) (96 + b))"
      "cr4 s3 = set_bit 12 (cr4 s2)" "efer s3 = efer s2"
    using la57_and_cr3 [of s2 "96 + b" addr junk] by auto
  have "\<not> cs_long s3" "\<not> bit (cr0 s3) 31" "\<not> bit (efer s3) 10"
    using f3 \<open>\<not> cs_long s2\<close> s by (simp_all add: e1 e2 e3 frame32_def bit_simps)
  then obtain s4 where 4: "exec_all addr junk False [MOV W32 (Imm 0xC0000080) (Reg RCX), RDMSR, LOR W32 (Imm 0x100) RAX, WRMSR] s3 = Some s4"
    and f4: "frame32 s3 s4" and e4: "cr0 s4 = cr0 s3" "cr3 s4 = cr3 s3" "cr4 s4 = cr4 s3" "efer s4 = set_bit 8 (efer s3)"
    using efer_update(2) [of s3] by blast
  have "\<not> cs_long s4" "bit (cr0 s4) 0" "take_bit 32 (cr0 s4) = cr0 s4" "bit (cr4 s4) 5"
    using f4 \<open>\<not> cs_long s3\<close> s mask_bits(2) [OF s(4)] by (simp_all add: e1 e2 e3 e4 frame32_def bit_simps)
  then obtain s5 where 5: "exec_all addr junk False [MOV_FROM_CR CR0 RAX, LOR W32 (Imm 0x80000000) RAX, MOV_TO_CR RAX CR0] s4 = Some s5"
    and f5: "frame32 s4 s5" and e5: "cr0 s5 = set_bit 31 (cr0 s4)" "cr3 s5 = cr3 s4" "cr4 s5 = cr4 s4" "efer s5 = efer s4"
    using paging_on [of s4] by blast
  have "frame32 s2 s5" using f3 f4 f5 by (simp add: frame32_def)
  hence f: "frame32 s s5" using \<open>frame32 s s2\<close> by (simp add: frame32_def)
  have e: "cr0 s5 = cr0 s" "cr3 s5 = take_bit 32 (ld 4 (amem s) (96 + b))" "cr4 s5 = set_bit 12 (cr4 s)" "efer s5 = efer s"
    by (simp_all add: e1 e2 e3 e4 e5 bits)
  have regs5: "\<not> cs_long s5" "gprs s5 RBX = 32 + b" "gprs s5 RSI = 48 + b" "gprs s5 RDI = 96 + b"
    and mem5: "amem s5 = amem s" "idtr_limit s5 = idtr_limit s" "interrupt_flag s5 = interrupt_flag s"
    using f s(1) regs by (simp_all add: frame32_def)
  have code: "compatibility_mode_entered =
      ([MOV_FROM_CR CR0 RAX, LAND W32 (Imm 0x7FFFFFFF) RAX, MOV_TO_CR RAX CR0] @
       [MOV W32 (Imm 0xC0000080) (Reg RCX), RDMSR, LAND W32 (Imm 0xFFFFFEFF) RAX, WRMSR] @
       [MOV_FROM_CR CR4 RAX, LOR W32 (Imm 0x1000) RAX, MOV_TO_CR RAX CR4,
        MOV W32 (Mem W32 RDI 0) (Reg RAX), MOV_TO_CR RAX CR3] @
       [MOV W32 (Imm 0xC0000080) (Reg RCX), RDMSR, LOR W32 (Imm 0x100) RAX, WRMSR] @
       [MOV_FROM_CR CR0 RAX, LOR W32 (Imm 0x80000000) RAX, MOV_TO_CR RAX CR0]) @
      [LGDT (Mem W32 RBX 0), LJMP (Mem W32 RSI 0)]"
    by (simp add: compatibility_mode_entered_def)
  have "run_block addr junk False compatibility_mode_entered s =
      run_block addr junk False [LGDT (Mem W32 RBX 0), LJMP (Mem W32 RSI 0)] s5"
    unfolding code
    by (rule run_block_append) (simp only: exec_all_append 1 2 3 4 5 option.case)
  thus ?thesis
    using return_to_64bit [of s5 b target addr junk] regs5 regs(4) s(2,7) mem unfolding e mem5 by simp
qed

subsection \<open>Back in 64-bit code\<close>

text \<open>What the code makes of a 64-bit value whose halves it has saved: the shift of the
  32-bit register by 32 shifts by nothing.\<close>

definition joined :: "u64 \<Rightarrow> u64" where
  "joined v = take_bit 32 v OR take_bit 32 (drop_bit 32 v)"

lemma joined_low: "joined v = v \<longleftrightarrow> unat v < 2 ^ 32"
proof
  assume "joined v = v"
  hence "take_bit 32 v = v" unfolding joined_def
    by (metis take_bit_or take_bit_take_bit min.idem)
  hence "unat v = take_bit 32 (unat v)" by (metis unsigned_take_bit_eq)
  thus "unat v < 2 ^ 32" using take_bit_nat_less_exp [of 32 "unat v"] by simp
next
  assume low: "unat v < 2 ^ 32"
  hence v: "take_bit 32 v = v" by (simp add: take_bit_eq_mod word_unat_eq_iff unat_mod)
  hence "\<not> bit v (32 + n)" for n by (metis bit_take_bit_iff not_add_less1)
  hence "drop_bit 32 v = 0" by (auto intro!: bit_word_eqI simp: bit_simps)
  thus "joined v = v" by (simp add: joined_def v)
qed

lemma switched_back:
  assumes "code64 s" "take_bit 32 (gprs s RDI) = 96 + b" "unat b + 128 \<le> 4294967296"
    and mem: "ld 4 (amem s) (100 + b) = take_bit 32 sp" "ld 4 (amem s) (104 + b) = take_bit 32 (drop_bit 32 sp)"
      "ld 4 (amem s) (108 + b) = take_bit 32 bp" "ld 4 (amem s) (112 + b) = take_bit 32 (drop_bit 32 bp)"
    and J: "joined sp = J"
  shows "\<exists>s'. run_block addr junk True switched_back_to_64bit_mode s = Some s' \<and>
    jump s' = Some (ld 8 (amem s) (72 + J)) \<and> code64 s' \<and> amem s' = amem s \<and>
    gprs s' RSP = 80 + J \<and> gprs s' RBP = joined bp \<and>
    gprs s' R15 = ld 8 (amem s) J \<and> gprs s' R14 = ld 8 (amem s) (8 + J) \<and>
    gprs s' R13 = ld 8 (amem s) (16 + J) \<and> gprs s' R12 = ld 8 (amem s) (24 + J) \<and>
    gprs s' R11 = ld 8 (amem s) (32 + J) \<and> gprs s' R10 = ld 8 (amem s) (40 + J) \<and>
    gprs s' RDI = ld 8 (amem s) (48 + J) \<and> gprs s' RSI = ld 8 (amem s) (56 + J) \<and>
    gprs s' RBX = ld 8 (amem s) (64 + J) \<and>
    cr0 s' = cr0 s \<and> cr3 s' = cr3 s \<and> cr4 s' = cr4 s \<and> efer s' = efer s \<and> gdtr_limit s' = gdtr_limit s \<and>
    gdtr_base s' = gdtr_base s \<and> idtr_limit s' = idtr_limit s \<and> interrupt_flag s' = interrupt_flag s"
proof -
  have a: "take_bit 32 (d + gprs s RDI) = d + (96 + b)" if "unat d < 32" for d
    using low_addresses(3) [OF assms(3,2) that] .
  have "take_bit 32 sp OR take_bit 32 (drop_bit 32 sp) = J" using J by (simp add: joined_def)
  moreover have "take_bit 32 (drop_bit 32 sp) OR take_bit 32 sp = J" using J by (simp add: joined_def or.commute)
  ultimately show ?thesis using assms(1) mem
    by (simp add: switched_back_to_64bit_mode_def exec_simps asm_simps a shift_count_def joined_def)
qed

subsection \<open>The whole switch\<close>

definition switched_mem :: "u64 \<Rightarrow> u64 \<Rightarrow> (switch_label \<Rightarrow> u64) \<Rightarrow> (gpr \<Rightarrow> u64) \<Rightarrow> mem \<Rightarrow> mem" where
  "switched_mem b lo addr rs m =
     st 8 (st 8 (saved_mem b lo rs (tables_mem b (addr Switched_back_to_64bit_mode) m)) (8 + lo) 8) lo
       (addr Compatibility_mode_entered)"

lemma switched_mem_reads:
  assumes "apart lo 96 b 128"
  shows "ld 8 (switched_mem b lo addr rs m) (16 + lo) = rs R15" "ld 8 (switched_mem b lo addr rs m) (24 + lo) = rs R14"
    "ld 8 (switched_mem b lo addr rs m) (32 + lo) = rs R13" "ld 8 (switched_mem b lo addr rs m) (40 + lo) = rs R12"
    "ld 8 (switched_mem b lo addr rs m) (48 + lo) = rs R11" "ld 8 (switched_mem b lo addr rs m) (56 + lo) = rs R10"
    "ld 8 (switched_mem b lo addr rs m) (64 + lo) = rs RDI" "ld 8 (switched_mem b lo addr rs m) (72 + lo) = rs RSI"
    "ld 8 (switched_mem b lo addr rs m) (80 + lo) = rs RBX"
    "ld 4 (switched_mem b lo addr rs m) (96 + b) = take_bit 32 (rs RCX)"
    "ld 4 (switched_mem b lo addr rs m) (100 + b) = take_bit 32 (16 + lo)"
    "ld 4 (switched_mem b lo addr rs m) (104 + b) = take_bit 32 (drop_bit 32 (16 + lo))"
    "ld 4 (switched_mem b lo addr rs m) (108 + b) = take_bit 32 (rs RBP)"
    "ld 4 (switched_mem b lo addr rs m) (112 + b) = take_bit 32 (drop_bit 32 (rs RBP))"
    "ld 8 (switched_mem b lo addr rs m) (8 + b) = 0x00AF9A000000FFFF"
    "ld 2 (switched_mem b lo addr rs m) (32 + b) = 23" "ld 4 (switched_mem b lo addr rs m) (34 + b) = take_bit 32 b"
    "ld 4 (switched_mem b lo addr rs m) (48 + b) = take_bit 32 (addr Switched_back_to_64bit_mode)"
    "ld 2 (switched_mem b lo addr rs m) (52 + b) = 8"
  using assms
  by (simp_all add: switched_mem_def saved_mem_reads tables_mem_reads asm_simps stack_apart ld_st_apart)

lemma switched_mem_return:
  assumes "apart lo 96 b 128"
  shows "ld 8 (switched_mem b lo addr rs m) (88 + lo) = ld 8 m (88 + lo)"
proof -
  have "apart (88 + lo) 8 b k" if "0 < k" "k \<le> 128" for k
    using apart_offsets [OF assms, of 8 k 88 0] that by simp
  thus ?thesis
    using assms by (simp add: switched_mem_def saved_mem_reads tables_mem_def Let_def asm_simps stack_apart ld_st_apart)
qed

lemma outside_offset:
  assumes "k \<le> unat (a - b)" "unat x + n \<le> k"
  shows "\<not> unat ((a :: u64) - (x + b)) < n"
proof -
  have "unat (a - b - x) = unat (a - b) - unat x" using assms by (intro unat_u64_minus) (simp add: word_le_nat_alt)
  moreover have "a - (x + b) = a - b - x" by simp
  ultimately have "unat (a - (x + b)) = unat (a - b) - unat x" by (simp only:)
  thus ?thesis using assms by linarith
qed

lemma switched_mem_frame:
  assumes "128 \<le> unat (a - b)" "88 \<le> unat (a - lo)"
  shows "switched_mem b lo addr rs m a = m a"
proof -
  have "\<not> unat (a - (x + b)) < n" if "unat x + n \<le> 128" for x n using outside_offset [OF assms(1) that] .
  moreover have "\<not> unat (a - (x + lo)) < n" if "unat x + n \<le> 88" for x n using outside_offset [OF assms(2) that] .
  ultimately show ?thesis
    using assms by (simp add: switched_mem_def saved_mem_def tables_mem_def Let_def st_apply)
qed

definition switch_ready :: "(switch_label \<Rightarrow> u64) \<Rightarrow> asm_state \<Rightarrow> bool" where
  "switch_ready addr s \<longleftrightarrow>
     code64 s \<and> bit (cr0 s) 0 \<and> take_bit 32 (cr0 s) = cr0 s \<and> bit (cr4 s) 5 \<and> take_bit 32 (cr4 s) = cr4 s \<and>
     \<not> bit (efer s) 10 \<and> (\<forall>l. unat (addr l) < 2 ^ 32) \<and>
     unat (gprs s RDX) + 128 \<le> 2 ^ 32 \<and> apart (gprs s RSP - 88) 96 (gprs s RDX) 128"

lemma same_mode_code64: "same_mode s s' \<Longrightarrow> code64 s' = code64 s"
  by (simp add: same_mode_def code64_def long_mode_def)

lemma SwitchRegion_entry:
  assumes "switch_ready addr s" "gprs s RSP = 88 + lo" "gprs s RDX = b"
  shows "\<exists>s'. run_block addr junk True SwitchRegion_code s = Some s' \<and> jump s' = Some (addr Compatibility_mode_entered) \<and>
    \<not> cs_long s' \<and> gprs s' RBX = 32 + b \<and> gprs s' RSI = 48 + b \<and> gprs s' RDI = 96 + b \<and>
    (\<exists>rs. amem s' = switched_mem b lo addr rs (amem s) \<and> (\<forall>r. r \<noteq> RAX \<longrightarrow> r \<noteq> R8 \<longrightarrow> rs r = gprs s r)) \<and>
    cr0 s' = cr0 s \<and> cr3 s' = cr3 s \<and> cr4 s' = cr4 s \<and> efer s' = efer s \<and> interrupt_flag s' = interrupt_flag s \<and>
    idtr_limit s' = 0"
proof -
  have R: "apart lo 96 b 128" and c: "code64 s" and low: "unat (addr l) < 2 ^ 32" for l
    using assms by (simp_all add: switch_ready_def)
  obtain s1 where 1: "exec_all addr junk True fill_tables_code s = Some s1"
    "gprs s1 = (gprs s)(RAX := 64 + b)" "amem s1 = tables_mem b (addr Switched_back_to_64bit_mode) (amem s)"
    "gdtr_limit s1 = 23" "gdtr_base s1 = 64 + b" "idtr_limit s1 = 0" "same_mode s s1"
    using fill_tables [OF c assms(3)] by blast
  have "code64 s1" "ld 8 (amem s1) (80 + b) = 0x00CF92000000FFFF"
    using same_mode_code64 [OF 1(7)] c by (simp_all add: 1(3) tables_mem_reads)
  then obtain s2 v2 where 2: "exec_all addr junk True load_segments_code s1 = Some s2"
    "gprs s2 = (gprs s1)(RAX := v2)" "amem s2 = amem s1" "gdtr_limit s2 = 23" "gdtr_base s2 = 64 + b"
    "idtr_limit s2 = 0" "same_mode s1 s2"
    using load_segments [OF _ 1(4,5), of addr junk] 1(4-6) by metis
  have "code64 s2" "gprs s2 RDX = b" "gprs s2 RSP = 88 + lo"
    using same_mode_code64 [OF 2(7)] \<open>code64 s1\<close> assms by (simp_all add: 2(2) 1(2))
  then obtain s3 v3 where 3: "exec_all addr junk True save_registers_code s2 = Some s3"
    "gprs s3 = (gprs s2)(RSP := 16 + lo, R8 := v3)" "amem s3 = saved_mem b lo (gprs s2) (amem s2)"
    "gdtr_limit s3 = 23" "gdtr_base s3 = 64 + b" "idtr_limit s3 = 0" "same_mode s2 s3"
    using save_registers [of s2 b lo addr junk] 2(4-6) by metis
  have s3: "code64 s3" "gprs s3 RDX = b" "gprs s3 RSP = 16 + lo" "ld 8 (amem s3) (72 + b) = 0x00CF9A000000FFFF"
    using same_mode_code64 [OF 3(7)] \<open>code64 s2\<close> \<open>gprs s2 RDX = b\<close>
    by (simp_all add: 3(2,3) 2(3) 1(3) saved_mem_reads [OF R] tables_mem_reads)
  have m: "same_mode s s3" using 1(7) 2(7) 3(7) by (simp add: same_mode_def)
  have "run_block addr junk True SwitchRegion_code s = run_block addr junk True leave_64bit_code s3"
    unfolding SwitchRegion_code_def append_assoc [symmetric]
    by (rule run_block_append) (simp add: exec_all_append 1(1) 2(1) 3(1))
  moreover have mem: "st 8 (st 8 (amem s3) (8 + lo) 8) lo (addr Compatibility_mode_entered) =
      switched_mem b lo addr (gprs s2) (amem s)"
    by (simp add: switched_mem_def 3(3) 2(3) 1(3))
  moreover have rs: "\<forall>r. r \<noteq> RAX \<longrightarrow> r \<noteq> R8 \<longrightarrow> gprs s2 r = gprs s r" by (simp add: 2(2) 1(2))
  moreover obtain s' where 4: "run_block addr junk True leave_64bit_code s3 = Some s'"
    "jump s' = Some (addr Compatibility_mode_entered)" "\<not> cs_long s'" "gprs s' RBX = 32 + b"
    "gprs s' RSI = 48 + b" "gprs s' RDI = 96 + b"
    "amem s' = st 8 (st 8 (amem s3) (8 + lo) 8) lo (addr Compatibility_mode_entered)"
    "cr0 s' = cr0 s3" "cr3 s' = cr3 s3" "cr4 s' = cr4 s3" "efer s' = efer s3" "interrupt_flag s' = interrupt_flag s3"
    "idtr_limit s' = idtr_limit s3"
    using leave_64bit [where addr = addr and junk = junk, OF s3(1-3) R 3(4,5) s3(4) low] by blast
  ultimately show ?thesis using m 3(6)
    by (intro exI [of _ s'] conjI exI [of _ "gprs s2"]) (simp_all add: same_mode_def)
qed

lemma SwitchRegion_runs:
  assumes "switch_ready addr s" "gprs s RSP = 88 + lo" "gprs s RDX = b" "joined (16 + lo) = J"
  shows "\<exists>s' rs. SwitchRegion addr junk s = Some s' \<and> amem s' = switched_mem b lo addr rs (amem s) \<and>
    (\<forall>r. r \<noteq> RAX \<longrightarrow> r \<noteq> R8 \<longrightarrow> rs r = gprs s r) \<and>
    jump s' = Some (ld 8 (amem s') (72 + J)) \<and> code64 s' \<and>
    gprs s' RSP = 80 + J \<and> gprs s' RBP = joined (gprs s RBP) \<and>
    gprs s' R15 = ld 8 (amem s') J \<and> gprs s' R14 = ld 8 (amem s') (8 + J) \<and>
    gprs s' R13 = ld 8 (amem s') (16 + J) \<and> gprs s' R12 = ld 8 (amem s') (24 + J) \<and>
    gprs s' R11 = ld 8 (amem s') (32 + J) \<and> gprs s' R10 = ld 8 (amem s') (40 + J) \<and>
    gprs s' RDI = ld 8 (amem s') (48 + J) \<and> gprs s' RSI = ld 8 (amem s') (56 + J) \<and>
    gprs s' RBX = ld 8 (amem s') (64 + J) \<and>
    cr0 s' = cr0 s \<and> cr3 s' = take_bit 32 (gprs s RCX) \<and> cr4 s' = set_bit 12 (cr4 s) \<and> efer s' = efer s \<and>
    gdtr_limit s' = 23 \<and> gdtr_base s' = b \<and> idtr_limit s' = 0 \<and> interrupt_flag s' = interrupt_flag s"
proof -
  have R: "apart lo 96 b 128" and c: "bit (cr0 s) 31" "bit (cr0 s) 0" "take_bit 32 (cr0 s) = cr0 s" "bit (cr4 s) 5"
      "take_bit 32 (cr4 s) = cr4 s" "bit (efer s) 8" "\<not> bit (efer s) 10"
    and b: "unat b + 128 \<le> 4294967296" and low: "unat (addr Switched_back_to_64bit_mode) < 2 ^ 32"
    using assms by (simp_all add: switch_ready_def code64_def long_mode_def)
  have bk: "take_bit 32 (addr Switched_back_to_64bit_mode) = addr Switched_back_to_64bit_mode"
    using low by (simp add: take_bit_eq_mod word_unat_eq_iff unat_mod)
  obtain s1 rs where 1: "run_block addr junk True SwitchRegion_code s = Some s1" "jump s1 = Some (addr Compatibility_mode_entered)"
    "\<not> cs_long s1" "gprs s1 RBX = 32 + b" "gprs s1 RSI = 48 + b" "gprs s1 RDI = 96 + b"
    and m: "amem s1 = switched_mem b lo addr rs (amem s)"
    and rs: "\<forall>r. r \<noteq> RAX \<longrightarrow> r \<noteq> R8 \<longrightarrow> rs r = gprs s r"
    and e1: "cr0 s1 = cr0 s" "cr3 s1 = cr3 s" "cr4 s1 = cr4 s" "efer s1 = efer s" "interrupt_flag s1 = interrupt_flag s"
      "idtr_limit s1 = 0"
    using SwitchRegion_entry [OF assms(1-3), of junk] by blast
  note reads = switched_mem_reads [OF R, of addr rs "amem s"]
  obtain s2 where 2: "run_block addr junk False compatibility_mode_entered s1 = Some s2"
    "jump s2 = Some (addr Switched_back_to_64bit_mode)" "code64 s2" "take_bit 32 (gprs s2 RDI) = 96 + b" "amem s2 = amem s1"
    and e2: "cr0 s2 = cr0 s1" "cr3 s2 = take_bit 32 (ld 4 (amem s1) (96 + b))" "cr4 s2 = set_bit 12 (cr4 s1)"
      "efer s2 = efer s1" "gdtr_limit s2 = 23" "gdtr_base s2 = b" "idtr_limit s2 = idtr_limit s1"
      "interrupt_flag s2 = interrupt_flag s1"
    using compatibility_part [of s1 b "addr Switched_back_to_64bit_mode" addr junk] 1(3-6) c b
    by (auto simp: e1 m reads bk low_addresses(2) [OF b])
  have rbp: "rs RBP = gprs s RBP" "rs RCX = gprs s RCX" using rs by simp_all
  obtain s3 where 3: "run_block addr junk True switched_back_to_64bit_mode s2 = Some s3"
    and r3: "jump s3 = Some (ld 8 (amem s2) (72 + J)) \<and> code64 s3 \<and> amem s3 = amem s2 \<and>
    gprs s3 RSP = 80 + J \<and> gprs s3 RBP = joined (gprs s RBP) \<and>
    gprs s3 R15 = ld 8 (amem s2) J \<and> gprs s3 R14 = ld 8 (amem s2) (8 + J) \<and>
    gprs s3 R13 = ld 8 (amem s2) (16 + J) \<and> gprs s3 R12 = ld 8 (amem s2) (24 + J) \<and>
    gprs s3 R11 = ld 8 (amem s2) (32 + J) \<and> gprs s3 R10 = ld 8 (amem s2) (40 + J) \<and>
    gprs s3 RDI = ld 8 (amem s2) (48 + J) \<and> gprs s3 RSI = ld 8 (amem s2) (56 + J) \<and>
    gprs s3 RBX = ld 8 (amem s2) (64 + J) \<and>
    cr0 s3 = cr0 s2 \<and> cr3 s3 = cr3 s2 \<and> cr4 s3 = cr4 s2 \<and> efer s3 = efer s2 \<and> gdtr_limit s3 = gdtr_limit s2 \<and>
    gdtr_base s3 = gdtr_base s2 \<and> idtr_limit s3 = idtr_limit s2 \<and> interrupt_flag s3 = interrupt_flag s2"
    using switched_back [OF 2(3,4) b, of "16 + lo" "gprs s RBP" J addr junk] assms(4)
    by (auto simp: 2(5) m reads rbp)
  have "SwitchRegion addr junk s = Some s3"
    by (simp add: SwitchRegion_def run_next_def far_to_def 1(1,2) 2(1,2) 3)
  thus ?thesis using r3 rs
    by (intro exI [of _ s3] exI [of _ rs]) (simp add: 2(5) e1 e2 m reads rbp)
qed

subsection \<open>What the assembly promises\<close>

text \<open>The processor of the theory \<open>BootPageMapSwitch\<close>, read off the registers.\<close>

definition paging_of :: "asm_state \<Rightarrow> cpu" where
  "paging_of s = \<lparr>cpu_bootServices = False, cpu_interrupts = interrupt_flag s,
     cpu_levels = (if bit (cr4 s) 12 then 5 else 4), cpu_pageMap = cr3 s\<rparr>"

lemma short_routines:
  assumes "code64 s"
  shows "\<exists>s'. run_block addr junk True DisableInterrupts_code s = Some s' \<and>
      jump s' = Some (ld 8 (amem s) (gprs s RSP)) \<and> gprs s' = (gprs s)(RSP := 8 + gprs s RSP) \<and> amem s' = amem s \<and>
      paging_of s' = cpu_step DisableInterrupts (paging_of s)"
    "\<exists>s'. run_block addr junk True SwitchPageMap_code s = Some s' \<and>
      jump s' = Some (ld 8 (amem s) (gprs s RSP)) \<and> gprs s' = (gprs s)(RSP := 8 + gprs s RSP) \<and> amem s' = amem s \<and>
      paging_of s' = cpu_step (SwitchPageMap (gprs s RCX)) (paging_of s)"
  using assms
  by (simp_all add: DisableInterrupts_code_def SwitchPageMap_code_def exec_simps asm_simps code64_def long_mode_def
      paging_of_def)

text \<open>
  C4: The switch to 5-level paging. With its stack, the scratch buffer, the page map, the
  frame pointer and the code below 4 GiB, from 64-bit code with identity-mapped 4-level
  paging, the assembly never faults: it leaves and reenters long mode in the order that the
  processor requires, returns to its caller in 64-bit code with the stack pointer, the frame
  pointer and all registers that a caller relies on restored, whatever the upper halves of
  the registers are after the 32-bit part, and has changed memory in the scratch buffer and
  below the stack only. The paging is then what the step \<open>SwitchPageMap4To5\<close> of the boot
  phase says: five levels, with the given map.
\<close>

theorem SwitchRegion_switches:
  assumes "switch_ready addr s" "unat (gprs s RCX) < 2 ^ 32" "unat (gprs s RBP) < 2 ^ 32"
    "88 \<le> unat (gprs s RSP)" "unat (gprs s RSP) < 2 ^ 32"
  shows "\<exists>s'. SwitchRegion addr junk s = Some s' \<and> jump s' = Some (ld 8 (amem s) (gprs s RSP)) \<and> code64 s' \<and>
    gprs s' RSP = gprs s RSP + 8 \<and>
    (\<forall>r \<in> {RBX, RBP, RSI, RDI, R10, R11, R12, R13, R14, R15}. gprs s' r = gprs s r) \<and>
    paging_of s' = cpu_step (SwitchPageMap4To5 code (gprs s RCX) (gprs s RDX)) (paging_of s) \<and>
    cr0 s' = cr0 s \<and> efer s' = efer s \<and> gdtr_base s' = gprs s RDX \<and> idtr_limit s' = 0 \<and>
    (\<forall>a. 128 \<le> unat (a - gprs s RDX) \<and> 88 \<le> unat (a - (gprs s RSP - 88)) \<longrightarrow> amem s' a = amem s a)"
proof -
  define lo where "lo = gprs s RSP - 88"
  have sp: "gprs s RSP = 88 + lo" by (simp add: lo_def)
  have R: "apart lo 96 (gprs s RDX) 128" using assms(1) by (simp add: switch_ready_def lo_def)
  have "unat lo = unat (gprs s RSP) - 88"
    using assms(4) unat_u64_minus [of 88 "gprs s RSP"] by (simp add: lo_def word_le_nat_alt)
  hence "unat (16 + lo) < 2 ^ 32" using assms(4,5) by (simp add: unat_u64_plus)
  hence J: "joined (16 + lo) = 16 + lo" by (simp add: joined_low)
  have bp: "joined (gprs s RBP) = gprs s RBP" using assms(3) by (simp add: joined_low)
  have cx: "take_bit 32 (gprs s RCX) = gprs s RCX"
    using assms(2) by (simp add: take_bit_eq_mod word_unat_eq_iff unat_mod)
  obtain s' rs where run: "SwitchRegion addr junk s = Some s'"
    and m: "amem s' = switched_mem (gprs s RDX) lo addr rs (amem s)"
    and rs: "\<forall>r. r \<noteq> RAX \<longrightarrow> r \<noteq> R8 \<longrightarrow> rs r = gprs s r"
    and j: "jump s' = Some (ld 8 (amem s') (72 + (16 + lo)))" "code64 s'"
    and r: "gprs s' RSP = 80 + (16 + lo)" "gprs s' RBP = joined (gprs s RBP)"
      "gprs s' R15 = ld 8 (amem s') (16 + lo)" "gprs s' R14 = ld 8 (amem s') (8 + (16 + lo))"
      "gprs s' R13 = ld 8 (amem s') (16 + (16 + lo))" "gprs s' R12 = ld 8 (amem s') (24 + (16 + lo))"
      "gprs s' R11 = ld 8 (amem s') (32 + (16 + lo))" "gprs s' R10 = ld 8 (amem s') (40 + (16 + lo))"
      "gprs s' RDI = ld 8 (amem s') (48 + (16 + lo))" "gprs s' RSI = ld 8 (amem s') (56 + (16 + lo))"
      "gprs s' RBX = ld 8 (amem s') (64 + (16 + lo))"
    and c: "cr0 s' = cr0 s" "cr3 s' = take_bit 32 (gprs s RCX)" "cr4 s' = set_bit 12 (cr4 s)" "efer s' = efer s"
      "gdtr_base s' = gprs s RDX" "idtr_limit s' = 0" "interrupt_flag s' = interrupt_flag s"
    using SwitchRegion_runs [OF assms(1) sp refl J, of junk] by blast
  have "gprs s' q = gprs s q" if "q \<in> {RBX, RBP, RSI, RDI, R10, R11, R12, R13, R14, R15}" for q
    using that rs by (auto simp: r bp m switched_mem_reads [OF R])
  moreover have "jump s' = Some (ld 8 (amem s) (gprs s RSP))" "gprs s' RSP = gprs s RSP + 8"
    by (simp_all add: j(1) m switched_mem_return [OF R] sp r(1))
  moreover have "paging_of s' = cpu_step (SwitchPageMap4To5 code (gprs s RCX) (gprs s RDX)) (paging_of s)"
    by (simp add: paging_of_def c cx bit_simps)
  ultimately show ?thesis
    using run j(2) c switched_mem_frame [of _ "gprs s RDX" lo addr rs "amem s"]
    by (intro exI [of _ s']) (simp add: m lo_def)
qed

text \<open>
  C40: The stack above 4 GiB. From every state from which the switch may start, it runs to
  its end, but the caller's stack pointer is restored exactly when the stack is below 4 GiB,
  and the frame pointer exactly when it is: the upper halves that the code has saved are
  shifted in a 32-bit register, which shifts them by nothing, and are mixed into the lower
  halves.
\<close>

theorem SwitchRegion_stack_restored_iff:
  assumes "switch_ready addr s"
  shows "\<exists>s'. SwitchRegion addr junk s = Some s' \<and>
    (gprs s' RSP = gprs s RSP + 8 \<longleftrightarrow> unat (gprs s RSP - 72) < 2 ^ 32) \<and>
    (gprs s' RBP = gprs s RBP \<longleftrightarrow> unat (gprs s RBP) < 2 ^ 32)"
proof -
  define lo where "lo = gprs s RSP - 88"
  have sp: "gprs s RSP = 88 + lo" by (simp add: lo_def)
  have lo: "gprs s RSP - 72 = 16 + lo" by (simp add: lo_def)
  obtain s' where "SwitchRegion addr junk s = Some s'" "gprs s' RSP = 80 + joined (16 + lo)"
    "gprs s' RBP = joined (gprs s RBP)"
    using SwitchRegion_runs [OF assms sp refl refl, of junk] by blast
  moreover have "80 + joined (16 + lo) = gprs s RSP + 8 \<longleftrightarrow> joined (16 + lo) = 16 + lo"
  proof -
    have "gprs s RSP + 8 = 80 + (16 + lo)" by (simp add: sp)
    thus ?thesis by (simp only: add_left_cancel)
  qed
  ultimately show ?thesis unfolding lo by (auto simp: joined_low)
qed

text \<open>The witnesses: a machine with the buffers at low addresses, and with a stack at 4 GiB and above.\<close>

definition machine_at :: "u64 \<Rightarrow> asm_state" where
  "machine_at sp = \<lparr>gprs = (\<lambda>_. 7)(RCX := 0x2000, RDX := 0x1000, RSP := sp, RBP := 0x9000), amem = (\<lambda>_. 1),
     cr0 = 0x80000001, cr3 = 0x3000, cr4 = 0x20, efer = 0x100, gdtr_limit = 0, gdtr_base = 0,
     idtr_limit = 0, idtr_base = 0, cs_long = True, interrupt_flag = False, jump = None\<rparr>"

lemma machine_ready: "sp = 0x8000 \<or> sp = 0x100008000 \<Longrightarrow> switch_ready (\<lambda>l. 0x5000) (machine_at sp)"
  by (auto simp: switch_ready_def machine_at_def code64_def long_mode_def apart_def)

lemma SwitchRegion_switches_witness:
  "\<exists>s'. SwitchRegion (\<lambda>l. 0x5000) (\<lambda>r. 0xFFFFFFFFFFFFFFFF) (machine_at 0x8000) = Some s' \<and>
     gprs s' RSP = 0x8008 \<and> cpu_levels (paging_of s') = 5 \<and> cpu_pageMap (paging_of s') = 0x2000"
  using SwitchRegion_switches [OF machine_ready, of "0x8000" "\<lambda>r. 0xFFFFFFFFFFFFFFFF" 0]
  by (auto simp: machine_at_def)

lemma SwitchRegion_stack_restored_iff_witness:
  "\<exists>s'. SwitchRegion (\<lambda>l. 0x5000) (\<lambda>r. 0) (machine_at 0x100008000) = Some s' \<and> gprs s' RSP \<noteq> 0x100008008"
  using SwitchRegion_stack_restored_iff [OF machine_ready, of "0x100008000" "\<lambda>r. 0"]
  by (auto simp: machine_at_def)

end
