(* ===== verification/InterruptStubs.thy ===== *)
theory InterruptStubs
  imports X86Asm Interrupts
begin

text \<open>
  The interrupt service routines of src/src/Kernel/x86_64/Interrupts.S: what lies between
  the delivery of an interrupt by the processor and the C function that handles it, and
  the way back to the interrupted code.

  \<^item> A routine is a list of instructions in front of the call, whether it calls its handler,
    and a list behind the call, in front of \<open>iretq\<close>. Their names are those of the theory
    \<open>Interrupts\<close>, whose \<open>HandleInterrupt\<close> are the handlers.
  \<^item> The handler is the parameter \<open>f\<close>, a function on the processor's state that ends with its
    return. \<open>ms_abi h f\<close> is the calling convention of the compiler's target: the handler
    keeps the nonvolatile registers and memory above the \<open>h\<close> bytes over its return address.
    The convention allows it to write to 32 bytes there, its home space.
  \<^item> \<open>deliver_interrupt\<close> is what the processor pushes: the stack is aligned, and some
    exceptions have an error code. The general registers are modelled, not XMM0 to XMM15.
\<close>

subsection \<open>The routines\<close>

definition save_volatile :: "unit instr list" where
  "save_volatile = [PUSHQ (Reg RAX), PUSHQ (Reg RCX), PUSHQ (Reg RDX), PUSHQ (Reg R8), PUSHQ (Reg R9),
     PUSHQ (Reg R10), PUSHQ (Reg R11)]"

definition restore_volatile :: "unit instr list" where
  "restore_volatile = [POPQ R11, POPQ R10, POPQ R9, POPQ R8, POPQ RDX, POPQ RCX, POPQ RAX]"

definition pass_error_code :: "unit instr list" where
  "pass_error_code = [MOV W64 (Mem W64 RSP 56) (Reg RCX)]"

definition drop_error_code :: "unit instr list" where
  "drop_error_code = [ADD W64 (Imm 8) RSP]"

definition plain_isr :: "unit instr list \<times> bool \<times> unit instr list" where
  "plain_isr = (save_volatile, True, restore_volatile)"

definition error_isr :: "unit instr list \<times> bool \<times> unit instr list" where
  "error_isr = (save_volatile @ pass_error_code, True, restore_volatile @ drop_error_code)"

fun isr_code :: "isr \<Rightarrow> unit instr list \<times> bool \<times> unit instr list" where
  "isr_code ISR_DoubleFault = (save_volatile, True, restore_volatile @ drop_error_code)"
| "isr_code ISR_InvalidTSS = error_isr"
| "isr_code ISR_SegmentNotPresent = error_isr"
| "isr_code ISR_StackSegmentFault = error_isr"
| "isr_code ISR_GeneralProtectionFault = error_isr"
| "isr_code ISR_PageFault = error_isr"
| "isr_code ISR_AlignmentCheck = error_isr"
| "isr_code ISR_ControlProtectionException = error_isr"
| "isr_code ISR_VMMCommunicationException = error_isr"
| "isr_code ISR_SecurityException = error_isr"
| "isr_code ISR_ISA_Stub = ([], False, [])"
| "isr_code _ = plain_isr"

subsection \<open>Delivery and return\<close>

record int_frame =
  frame_rip :: u64
  frame_cs :: u64
  frame_flags :: u64
  frame_ss :: u64

text \<open>The exceptions with an error code.\<close>

definition has_error_code :: "nat \<Rightarrow> bool" where
  "has_error_code v \<longleftrightarrow> v \<in> {8, 10, 11, 12, 13, 14, 17, 21, 29, 30}"

definition deliver_interrupt :: "nat \<Rightarrow> int_frame \<Rightarrow> u64 \<Rightarrow> asm_state \<Rightarrow> asm_state" where
  "deliver_interrupt v fr err s =
     (let s1 = push (gprs s RSP) (push (frame_ss fr) (s\<lparr>gprs := (gprs s)(RSP := gprs s RSP AND NOT 0xF)\<rparr>));
          s2 = push (frame_rip fr) (push (frame_cs fr) (push (frame_flags fr) s1))
      in if has_error_code v then push err s2 else s2)"

definition iretq :: "asm_state \<Rightarrow> asm_state \<times> int_frame" where
  "iretq s =
     (let sp = gprs s RSP; m = amem s
      in (s\<lparr>gprs := (gprs s)(RSP := ld 8 m (24 + sp))\<rparr>,
          \<lparr>frame_rip = ld 8 m sp, frame_cs = ld 8 m (8 + sp), frame_flags = ld 8 m (16 + sp),
           frame_ss = ld 8 m (32 + sp)\<rparr>))"

fun exec_list :: "(gpr \<Rightarrow> u64) \<Rightarrow> unit instr list \<Rightarrow> asm_state \<Rightarrow> asm_state option" where
  "exec_list junk [] s = Some s"
| "exec_list junk (i # is) s =
     (case exec (\<lambda>_. 0) junk i s of None \<Rightarrow> None | Some s' \<Rightarrow> exec_list junk is s')"

definition run_isr ::
  "(asm_state \<Rightarrow> asm_state) \<Rightarrow> u64 \<Rightarrow> (gpr \<Rightarrow> u64) \<Rightarrow> isr \<Rightarrow> asm_state \<Rightarrow> (asm_state \<times> int_frame) option" where
  "run_isr f ret junk r s =
     (case isr_code r of (before, calls, after) \<Rightarrow>
        (case exec_list junk before s of
           None \<Rightarrow> None
         | Some s1 \<Rightarrow>
             map_option iretq (exec_list junk after (if calls then f (push ret s1) else s1))))"

definition ms_abi :: "nat \<Rightarrow> (asm_state \<Rightarrow> asm_state) \<Rightarrow> bool" where
  "ms_abi h f \<longleftrightarrow> (\<forall>s. code64 s \<longrightarrow>
     code64 (f s) \<and> gprs (f s) RSP = 8 + gprs s RSP \<and>
     (\<forall>r \<in> {RBX, RBP, RDI, RSI, R12, R13, R14, R15}. gprs (f s) r = gprs s r) \<and>
     (\<forall>a. h \<le> unat (a - (8 + gprs s RSP)) \<and> unat (a - (8 + gprs s RSP)) < 104 \<longrightarrow> amem (f s) a = amem s a))"

subsection \<open>Execution\<close>

lemma stub_memory:
  "apart (x + b) n (y + b) k = (n \<le> unat (y - x) \<and> k \<le> unat (x - y))"
  "apart (b :: u64) n (y + b) k = (n \<le> unat y \<and> k \<le> unat (- y))"
  "apart (x + b) n b k = (n \<le> unat (- x) \<and> k \<le> unat x)"
  "apart (x + b) n (b - y) k = (n \<le> unat (- y - x) \<and> k \<le> unat (x + y))"
  "apart b n (b - y) k = (n \<le> unat (- y) \<and> k \<le> unat y)"
  by (simp_all add: apart_def)

lemma ld_cong:
  assumes "\<And>i. i < n \<Longrightarrow> m' (p + of_nat i) = m (p + of_nat i)"
  shows "ld n m' p = ld n m p"
  using assms by (intro bit_word_eqI) (auto simp: bit_ld div_less_iff_less_mult)

lemma abi_ld:
  assumes "ms_abi h f" "code64 s" "h \<le> unat x" "unat x + 8 \<le> 104"
  shows "ld 8 (amem (f s)) (x + (8 + gprs s RSP)) = ld 8 (amem s) (x + (8 + gprs s RSP))"
proof (rule ld_cong)
  fix i :: nat
  assume i: "i < 8"
  have abi: "h \<le> unat (a - (8 + gprs s RSP)) \<Longrightarrow> unat (a - (8 + gprs s RSP)) < 104 \<Longrightarrow> amem (f s) a = amem s a" for a
    using assms(1,2) by (simp add: ms_abi_def)
  have a: "x + (8 + gprs s RSP) + of_nat i - (8 + gprs s RSP) = x + of_nat i" by simp
  have "unat (x + of_nat i) = unat x + i" using i assms(4) by (intro unat_u64_plus_of_nat) simp
  thus "amem (f s) (x + (8 + gprs s RSP) + of_nat i) = amem s (x + (8 + gprs s RSP) + of_nat i)"
    using i assms(3,4) by (intro abi; simp only: a)
qed

lemmas stub_simps = address_def set_reg_def bits_of_def push_def pop_def Let_def stub_memory ld_st_apart ld_st_prefix

lemma code64_gprs_amem [simp]:
  "code64 (s\<lparr>gprs := r\<rparr>) = code64 s" "code64 (s\<lparr>amem := m\<rparr>) = code64 s" "code64 (s\<lparr>jump := j\<rparr>) = code64 s"
  by (simp_all add: code64_def long_mode_def)

lemma take_bit_all [simp]: "take_bit 64 (x :: u64) = x"
  by (rule bit_word_eqI) (auto simp: bit_simps)

lemma plain_entry:
  assumes "code64 s" "\<not> has_error_code v" "gprs s RSP AND NOT 0xF = 96 + lo"
  shows "\<exists>s'. exec_list junk save_volatile (deliver_interrupt v fr err s) = Some s' \<and> code64 s' \<and>
    gprs s' = (gprs s)(RSP := lo) \<and>
    ld 8 (amem s') lo = gprs s R11 \<and> ld 8 (amem s') (8 + lo) = gprs s R10 \<and> ld 8 (amem s') (16 + lo) = gprs s R9 \<and>
    ld 8 (amem s') (24 + lo) = gprs s R8 \<and> ld 8 (amem s') (32 + lo) = gprs s RDX \<and>
    ld 8 (amem s') (40 + lo) = gprs s RCX \<and> ld 8 (amem s') (48 + lo) = gprs s RAX \<and>
    ld 8 (amem s') (56 + lo) = frame_rip fr \<and> ld 8 (amem s') (64 + lo) = frame_cs fr \<and>
    ld 8 (amem s') (72 + lo) = frame_flags fr \<and> ld 8 (amem s') (80 + lo) = gprs s RSP \<and>
    ld 8 (amem s') (88 + lo) = frame_ss fr"
  using assms
  by (simp add: deliver_interrupt_def save_volatile_def stub_simps)

lemma error_entry:
  assumes "code64 s" "has_error_code v" "gprs s RSP AND NOT 0xF = 104 + lo"
  shows "\<exists>s'. exec_list junk save_volatile (deliver_interrupt v fr err s) = Some s' \<and> code64 s' \<and>
    gprs s' = (gprs s)(RSP := lo) \<and>
    ld 8 (amem s') lo = gprs s R11 \<and> ld 8 (amem s') (8 + lo) = gprs s R10 \<and> ld 8 (amem s') (16 + lo) = gprs s R9 \<and>
    ld 8 (amem s') (24 + lo) = gprs s R8 \<and> ld 8 (amem s') (32 + lo) = gprs s RDX \<and>
    ld 8 (amem s') (40 + lo) = gprs s RCX \<and> ld 8 (amem s') (48 + lo) = gprs s RAX \<and>
    ld 8 (amem s') (56 + lo) = err \<and>
    ld 8 (amem s') (64 + lo) = frame_rip fr \<and> ld 8 (amem s') (72 + lo) = frame_cs fr \<and>
    ld 8 (amem s') (80 + lo) = frame_flags fr \<and> ld 8 (amem s') (88 + lo) = gprs s RSP \<and>
    ld 8 (amem s') (96 + lo) = frame_ss fr"
  using assms
  by (simp add: deliver_interrupt_def save_volatile_def stub_simps)

lemma exec_list_append:
  "exec_list junk (is @ js) s = (case exec_list junk is s of None \<Rightarrow> None | Some s' \<Rightarrow> exec_list junk js s')"
  by (induction "is" arbitrary: s) (auto split: option.splits)

lemma pass_error_code:
  assumes "code64 s" "gprs s RSP = lo"
  shows "exec_list junk pass_error_code s = Some (s\<lparr>gprs := (gprs s)(RCX := ld 8 (amem s) (56 + lo))\<rparr>)"
  using assms by (simp add: pass_error_code_def stub_simps)

lemma drop_error_code:
  assumes "code64 s" "gprs s RSP = 56 + lo"
  shows "exec_list junk drop_error_code s = Some (s\<lparr>gprs := (gprs s)(RSP := 64 + lo)\<rparr>)"
  using assms by (simp add: drop_error_code_def stub_simps)

lemma call_and_restore:
  assumes s: "code64 s" "gprs s RSP = lo" and f: "ms_abi 0 f"
  shows "\<exists>u. exec_list junk restore_volatile (f (push ret s)) = Some u \<and> code64 u \<and> gprs u RSP = 56 + lo \<and>
    gprs u R11 = ld 8 (amem s) lo \<and> gprs u R10 = ld 8 (amem s) (8 + lo) \<and> gprs u R9 = ld 8 (amem s) (16 + lo) \<and>
    gprs u R8 = ld 8 (amem s) (24 + lo) \<and> gprs u RDX = ld 8 (amem s) (32 + lo) \<and>
    gprs u RCX = ld 8 (amem s) (40 + lo) \<and> gprs u RAX = ld 8 (amem s) (48 + lo) \<and>
    (\<forall>r \<in> {RBX, RBP, RDI, RSI, R12, R13, R14, R15}. gprs u r = gprs s r) \<and>
    (\<forall>x. unat x + 8 \<le> 104 \<longrightarrow> ld 8 (amem u) (x + lo) = ld 8 (amem s) (x + lo))"
proof -
  let ?p = "push ret s" and ?t = "f (push ret s)"
  have p: "code64 ?p" "gprs ?p RSP = lo - 8" using s by (simp_all add: push_def Let_def)
  have t: "code64 ?t" "gprs ?t RSP = lo" "\<forall>r \<in> {RBX, RBP, RDI, RSI, R12, R13, R14, R15}. gprs ?t r = gprs s r"
    using f p s(2) by (auto simp: ms_abi_def push_def Let_def)
  have mem: "ld 8 (amem ?t) (x + lo) = ld 8 (amem s) (x + lo)" if "unat x + 8 \<le> 104" for x
  proof -
    have "ld 8 (amem ?t) (x + lo) = ld 8 (amem ?p) (x + lo)"
      using abi_ld [OF f p(1), of x] that by (simp add: p(2))
    also have "\<dots> = ld 8 (amem s) (x + lo)"
    proof -
      have "unat (- 8 - x) = 18446744073709551608 - unat x"
        using that unat_u64_minus [of x "- 8"] by (simp add: word_le_nat_alt)
      moreover have "unat (x + 8) = unat x + 8" using that unat_u64_plus [of x 8] by simp
      moreover have "lo - 8 - (x + lo) = - 8 - x" "x + lo - (lo - 8) = x + 8" by simp_all
      ultimately have "apart (x + lo) 8 (lo - 8) 8"
        using that unfolding apart_def by simp
      thus ?thesis using s(2) by (simp add: push_def Let_def ld_st_apart)
    qed
    finally show ?thesis .
  qed
  have "ld 8 (amem ?t) lo = ld 8 (amem s) lo" using mem [of 0] by simp
  thus ?thesis using t mem
    by (simp add: restore_volatile_def stub_simps)
qed

subsection \<open>Transparency\<close>

definition vector_codes_agree :: "nat \<Rightarrow> bool" where
  "vector_codes_agree v = (case vector_isr v of None \<Rightarrow> True | Some r \<Rightarrow>
     isr_code r \<in> (if has_error_code v then {error_isr, (save_volatile, True, restore_volatile @ drop_error_code)}
       else {plain_isr, ([], False, [])}))"

lemma vector_codes:
  "list_all vector_codes_agree
    [0, 1, 2, 3, 4, 5, 6, 7, 8, 9, 10, 11, 12, 13, 14, 15, 16, 17, 18, 19, 20, 21, 22, 23, 24,
     25, 26, 27, 28, 29, 30, 31, 32, 33, 34, 35, 36, 37, 38, 39, 40, 41, 42, 43, 44, 45, 46,
     47]"
  by (simp add: vector_codes_agree_def vector_isr_def ExceptionISRs_def ISA_ISRs_def has_error_code_def)

lemma vector_list: "[0, 1, 2, 3, 4, 5, 6, 7, 8, 9, 10, 11, 12, 13, 14, 15, 16, 17, 18, 19, 20, 21, 22, 23, 24,
     25, 26, 27, 28, 29, 30, 31, 32, 33, 34, 35, 36, 37, 38, 39, 40, 41, 42, 43, 44, 45, 46,
     47] = [0..<48]"
  by (simp add: upt_rec)

lemma vector_code:
  assumes "vector_isr v = Some r"
  shows "isr_code r \<in> (if has_error_code v then {error_isr, (save_volatile, True, restore_volatile @ drop_error_code)}
     else {plain_isr, ([], False, [])})"
proof -
  have "v < 48" using assms by (auto simp: vector_isr_def split: if_splits)
  hence "vector_codes_agree v" using vector_codes unfolding vector_list list_all_iff by simp
  thus ?thesis using assms by (simp add: vector_codes_agree_def)
qed

lemma all_registers:
  "(\<forall>r. P r) \<longleftrightarrow> P RAX \<and> P RBX \<and> P RCX \<and> P RDX \<and> P RSI \<and> P RDI \<and> P RBP \<and> P RSP \<and>
     P R8 \<and> P R9 \<and> P R10 \<and> P R11 \<and> P R12 \<and> P R13 \<and> P R14 \<and> P R15"
proof
  assume p: "P RAX \<and> P RBX \<and> P RCX \<and> P RDX \<and> P RSI \<and> P RDI \<and> P RBP \<and> P RSP \<and>
     P R8 \<and> P R9 \<and> P R10 \<and> P R11 \<and> P R12 \<and> P R13 \<and> P R14 \<and> P R15"
  show "\<forall>r. P r"
  proof
    fix r
    show "P r" using p by (cases r) simp_all
  qed
qed simp

lemma stub_transparent:
  assumes "code64 s" "\<not> has_error_code v" "isr_code r = ([], False, [])"
  shows "\<exists>s'. run_isr f ret junk r (deliver_interrupt v fr err s) = Some (s', fr) \<and> gprs s' = gprs s"
proof -
  define lo where "lo = (gprs s RSP AND NOT 0xF) - 40"
  have "gprs s RSP AND NOT 0xF = 40 + lo" by (simp add: lo_def)
  thus ?thesis using assms
    by (simp add: run_isr_def iretq_def deliver_interrupt_def stub_simps)
qed

lemma plain_transparent:
  assumes "code64 s" "\<not> has_error_code v" "isr_code r = plain_isr" "ms_abi 0 f"
  shows "\<exists>s'. run_isr f ret junk r (deliver_interrupt v fr err s) = Some (s', fr) \<and> gprs s' = gprs s"
proof -
  define lo where "lo = (gprs s RSP AND NOT 0xF) - 96"
  have lo: "gprs s RSP AND NOT 0xF = 96 + lo" by (simp add: lo_def)
  obtain s1 where 1: "exec_list junk save_volatile (deliver_interrupt v fr err s) = Some s1" "code64 s1"
    "gprs s1 = (gprs s)(RSP := lo)"
    and m1: "ld 8 (amem s1) lo = gprs s R11" "ld 8 (amem s1) (8 + lo) = gprs s R10" "ld 8 (amem s1) (16 + lo) = gprs s R9"
      "ld 8 (amem s1) (24 + lo) = gprs s R8" "ld 8 (amem s1) (32 + lo) = gprs s RDX"
      "ld 8 (amem s1) (40 + lo) = gprs s RCX" "ld 8 (amem s1) (48 + lo) = gprs s RAX"
      "ld 8 (amem s1) (56 + lo) = frame_rip fr" "ld 8 (amem s1) (64 + lo) = frame_cs fr"
      "ld 8 (amem s1) (72 + lo) = frame_flags fr" "ld 8 (amem s1) (80 + lo) = gprs s RSP"
      "ld 8 (amem s1) (88 + lo) = frame_ss fr"
    using plain_entry [OF assms(1,2) lo] by blast
  have "gprs s1 RSP = lo" by (simp add: 1(3))
  then obtain u where 2: "exec_list junk restore_volatile (f (push ret s1)) = Some u" "gprs u RSP = 56 + lo"
    and r: "gprs u R11 = ld 8 (amem s1) lo" "gprs u R10 = ld 8 (amem s1) (8 + lo)" "gprs u R9 = ld 8 (amem s1) (16 + lo)"
      "gprs u R8 = ld 8 (amem s1) (24 + lo)" "gprs u RDX = ld 8 (amem s1) (32 + lo)"
      "gprs u RCX = ld 8 (amem s1) (40 + lo)" "gprs u RAX = ld 8 (amem s1) (48 + lo)"
      "\<forall>r \<in> {RBX, RBP, RDI, RSI, R12, R13, R14, R15}. gprs u r = gprs s1 r"
    and m2: "\<And>x. unat x + 8 \<le> 104 \<Longrightarrow> ld 8 (amem u) (x + lo) = ld 8 (amem s1) (x + lo)"
    using call_and_restore [OF 1(2) _ assms(4), of lo junk ret] by blast
  have "run_isr f ret junk r (deliver_interrupt v fr err s) = Some (iretq u)"
    by (simp add: run_isr_def assms(3) plain_isr_def 1(1) 2(1))
  moreover have "snd (iretq u) = fr" by (simp add: iretq_def Let_def 2(2) m2 m1)
  moreover have "gprs (fst (iretq u)) = gprs s"
    unfolding fun_eq_iff all_registers by (simp add: iretq_def Let_def 2(2) m2 m1 r 1(3))
  ultimately show ?thesis by (metis prod.collapse)
qed

lemma error_transparent:
  assumes "code64 s" "has_error_code v" "isr_code r = error_isr \<or>
      isr_code r = (save_volatile, True, restore_volatile @ drop_error_code)" "ms_abi 0 f"
  shows "\<exists>s'. run_isr f ret junk r (deliver_interrupt v fr err s) = Some (s', fr) \<and> gprs s' = gprs s"
proof -
  define lo where "lo = (gprs s RSP AND NOT 0xF) - 104"
  have lo: "gprs s RSP AND NOT 0xF = 104 + lo" by (simp add: lo_def)
  obtain s0 where 0: "exec_list junk save_volatile (deliver_interrupt v fr err s) = Some s0" "code64 s0"
    "gprs s0 = (gprs s)(RSP := lo)"
    and m0: "ld 8 (amem s0) lo = gprs s R11" "ld 8 (amem s0) (8 + lo) = gprs s R10" "ld 8 (amem s0) (16 + lo) = gprs s R9"
      "ld 8 (amem s0) (24 + lo) = gprs s R8" "ld 8 (amem s0) (32 + lo) = gprs s RDX"
      "ld 8 (amem s0) (40 + lo) = gprs s RCX" "ld 8 (amem s0) (48 + lo) = gprs s RAX"
      "ld 8 (amem s0) (64 + lo) = frame_rip fr" "ld 8 (amem s0) (72 + lo) = frame_cs fr"
      "ld 8 (amem s0) (80 + lo) = frame_flags fr" "ld 8 (amem s0) (88 + lo) = gprs s RSP"
      "ld 8 (amem s0) (96 + lo) = frame_ss fr"
    using error_entry [OF assms(1,2) lo] by blast
  obtain s1 where 1: "exec_list junk (fst (isr_code r)) (deliver_interrupt v fr err s) = Some s1" "code64 s1"
    "gprs s1 RSP = lo" "amem s1 = amem s0"
    and nv: "\<forall>q \<in> {RBX, RBP, RDI, RSI, R12, R13, R14, R15}. gprs s1 q = gprs s q"
  proof (cases "isr_code r = error_isr")
    case True
    have "gprs s0 RSP = lo" by (simp add: 0(3))
    thus ?thesis using True pass_error_code [OF 0(2)]
      by (intro that [of "s0\<lparr>gprs := (gprs s0)(RCX := ld 8 (amem s0) (56 + lo))\<rparr>"])
        (simp_all add: error_isr_def exec_list_append 0)
  next
    case False
    thus ?thesis using assms(3) by (intro that [of s0]) (auto simp: 0)
  qed
  obtain u where 2: "exec_list junk restore_volatile (f (push ret s1)) = Some u" "code64 u" "gprs u RSP = 56 + lo"
    and r: "gprs u R11 = ld 8 (amem s1) lo" "gprs u R10 = ld 8 (amem s1) (8 + lo)" "gprs u R9 = ld 8 (amem s1) (16 + lo)"
      "gprs u R8 = ld 8 (amem s1) (24 + lo)" "gprs u RDX = ld 8 (amem s1) (32 + lo)"
      "gprs u RCX = ld 8 (amem s1) (40 + lo)" "gprs u RAX = ld 8 (amem s1) (48 + lo)"
      "\<forall>r \<in> {RBX, RBP, RDI, RSI, R12, R13, R14, R15}. gprs u r = gprs s1 r"
    and m2: "\<And>x. unat x + 8 \<le> 104 \<Longrightarrow> ld 8 (amem u) (x + lo) = ld 8 (amem s1) (x + lo)"
    using call_and_restore [OF 1(2,3) assms(4), of junk ret] by blast
  let ?u = "u\<lparr>gprs := (gprs u)(RSP := 64 + lo)\<rparr>"
  have "snd (isr_code r) = (True, restore_volatile @ drop_error_code)"
    using assms(3) by (auto simp: error_isr_def)
  hence "run_isr f ret junk r (deliver_interrupt v fr err s) = Some (iretq ?u)"
    using 1(1) drop_error_code [OF 2(2,3)]
    by (cases "isr_code r") (simp add: run_isr_def exec_list_append 2(1))
  moreover have "snd (iretq ?u) = fr" by (simp add: iretq_def Let_def m2 m0 1(4))
  moreover have "gprs (fst (iretq ?u)) = gprs s"
    using nv unfolding fun_eq_iff all_registers by (simp add: iretq_def Let_def m2 m0 r 1(4))
  ultimately show ?thesis by (metis prod.collapse)
qed

text \<open>
  C8: Interrupts are transparent. For every vector of the table that has a routine, and
  every handler that keeps to the calling convention and does not use its home space: when
  the processor delivers the interrupt to 64-bit code, with the error code that the vector
  has or without, the routine runs to its end and returns with the frame that the processor
  pushed (address, code segment, flags and stack segment), and all sixteen general
  registers, the stack pointer included, are those of the interrupted code.
\<close>

theorem interrupt_transparent:
  assumes "vector_isr v = Some r" "ms_abi 0 f" "code64 s"
  shows "\<exists>s'. run_isr f ret junk r (deliver_interrupt v fr err s) = Some (s', fr) \<and> gprs s' = gprs s"
proof (cases "has_error_code v")
  case True
  thus ?thesis using vector_code [OF assms(1)] error_transparent [OF assms(3) True _ assms(2)] by auto
next
  case False
  thus ?thesis
    using vector_code [OF assms(1)] plain_transparent [OF assms(3) False _ assms(2)]
      stub_transparent [OF assms(3) False] by auto
qed

definition returning_handler :: "asm_state \<Rightarrow> asm_state" where
  "returning_handler s = snd (pop s)"

definition kernel_state :: asm_state where
  "kernel_state = \<lparr>gprs = (\<lambda>_. 5)(RSP := 0x7008), amem = (\<lambda>_. 0), cr0 = 0x80000001, cr3 = 0x3000, cr4 = 0x20,
     efer = 0x100, gdtr_limit = 0, gdtr_base = 0, idtr_limit = 0, idtr_base = 0, cs_long = True,
     interrupt_flag = True, jump = None\<rparr>"

lemma interrupt_transparent_witness:
  "\<exists>s'. run_isr returning_handler 0x400 (\<lambda>_. 0) ISR_PageFault
      (deliver_interrupt 14 \<lparr>frame_rip = 0x500, frame_cs = 8, frame_flags = 2, frame_ss = 16\<rparr> 7 kernel_state) =
    Some (s', \<lparr>frame_rip = 0x500, frame_cs = 8, frame_flags = 2, frame_ss = 16\<rparr>) \<and> gprs s' = gprs kernel_state"
proof -
  have "code64 kernel_state" by (simp add: kernel_state_def code64_def long_mode_def)
  moreover have "ms_abi 0 returning_handler"
    by (simp add: ms_abi_def returning_handler_def pop_def)
  moreover have "vector_isr 14 = Some ISR_PageFault" by (simp add: vector_isr_def ExceptionISRs_def)
  ultimately show ?thesis by (intro interrupt_transparent)
qed

text \<open>
  The routines do not reserve the home space: a handler that stores its argument there, as
  the convention allows, overwrites the saved R11 of the interrupted code.
\<close>

definition home_writer :: "asm_state \<Rightarrow> asm_state" where
  "home_writer s = (let s' = snd (pop s) in s'\<lparr>amem := st 8 (amem s') (8 + gprs s RSP) (gprs s RCX)\<rparr>)"

lemma home_writer_conforms: "ms_abi 32 home_writer"
  by (auto simp: ms_abi_def home_writer_def pop_def Let_def st_apply)

lemma home_space_not_reserved:
  assumes "code64 s"
  shows "\<exists>s'. run_isr home_writer ret junk ISR_PageFault (deliver_interrupt 14 fr err s) = Some (s', fr) \<and>
    gprs s' R11 = err"
proof -
  define lo where "lo = (gprs s RSP AND NOT 0xF) - 104"
  have "gprs s RSP AND NOT 0xF = 104 + lo" by (simp add: lo_def)
  thus ?thesis using assms
    by (simp add: run_isr_def error_isr_def save_volatile_def pass_error_code_def restore_volatile_def drop_error_code_def
        iretq_def deliver_interrupt_def has_error_code_def home_writer_def stub_simps)
qed

end
