(* ===== verification/CpuSetupAssembly.thy ===== *)
theory CpuSetupAssembly
  imports CpuFeatures
begin

text \<open>
  The assembly routines that read and set the processor's feature bits: the queries of
  InitialPageMapSwitch.S and PageMapSwitching.S, MemoryProtectionCpuSetup.S,
  FloatingPointInit.S and SyscallHandler.S (src/src/Boot/x86_64-efi, src/src/Kernel/x86_64).

  \<^item> \<open>features\<close> are the control registers and model specific registers that they use. Each
    branch of the assembly is a conditional; \<open>cmp\<close> with \<open>jl\<close> or \<open>jge\<close> is the signed order.
  \<^item> \<open>cpuid\<close> is the parameter of the theory \<open>CpuFeatures\<close>. Its subleaf is what \<open>ECX\<close> holds.
\<close>

subsection \<open>State\<close>

record features =
  f_cr0 :: u64
  f_cr4 :: u64
  f_efer :: u64
  f_xcr0 :: u64
  f_mxcsr :: u32
  f_fpu_initialised :: bool
  f_star :: u64
  f_lstar :: u64
  f_cstar :: u64
  f_fmask :: u64

subsection \<open>Queries\<close>

definition Has5LevelPagingSupport_asm :: "(u32 \<Rightarrow> u32 \<Rightarrow> regs) \<Rightarrow> u32 \<Rightarrow> u64" where
  "Has5LevelPagingSupport_asm cpuid rcx =
     (if \<not> 7 \<le>s eax (cpuid 0 rcx) then 0
      else if ecx (cpuid 7 0) AND 0x10000 = 0 then 0 else 1)"

definition Is5LevelPagingActive_asm :: "features \<Rightarrow> u64" where
  "Is5LevelPagingActive_asm s = (if f_cr4 s AND 0x1000 \<noteq> 0 then 1 else 0)"

subsection \<open>Memory protection\<close>

definition EnableMemoryProtectionCpuFeatures_asm ::
  "(u32 \<Rightarrow> u32 \<Rightarrow> regs) \<Rightarrow> u32 \<Rightarrow> features \<Rightarrow> features" where
  "EnableMemoryProtectionCpuFeatures_asm cpuid rcx s =
     (let s = s\<lparr>f_cr0 := f_cr0 s OR 0x10000\<rparr>;
          r0 = cpuid 0 rcx;
          r8d = eax r0;
          r9 = f_cr4 s;
          s = (if r8d <s 0x80000001 then s
               else
                 (let f = cpuid 0x80000001 (ecx r0);
                      (s, f) = (if edx f AND 0x100000 = 0 then (s, f)
                         else (s\<lparr>f_efer := f_efer s OR 0x800\<rparr>, cpuid 0x80000001 0xC0000080))
                  in if ecx f AND 0x20000 = 0 then s else s\<lparr>f_efer := f_efer s OR 0x8000\<rparr>));
          r9 = (if r8d <s 7 then r9
                else
                  (let f = cpuid 7 0;
                       r9 = (if ebx f AND 0x80 = 0 then r9 else r9 OR 0x100000);
                       r9 = (if ebx f AND 0x100000 = 0 then r9 else r9 OR 0x200000)
                   in if ecx f AND 0x8 = 0 then r9 else r9 OR 0x400000));
          r9 = (if r8d <s 1 then r9
                else if edx (cpuid 1 rcx) AND 0x2000 = 0 then r9 else r9 OR 0x80)
      in s\<lparr>f_cr4 := r9\<rparr>)"

subsection \<open>Floating point\<close>

definition InitFloatingPointOperations_asm :: "(u32 \<Rightarrow> u32 \<Rightarrow> regs) \<Rightarrow> features \<Rightarrow> features" where
  "InitFloatingPointOperations_asm cpuid s =
     (if \<not> CheckCpuHasFPU cpuid then s
      else
        (let s = s\<lparr>f_fpu_initialised := True, f_cr0 := (f_cr0 s OR 0x32) AND NOT 0xC\<rparr>
         in if \<not> CheckCpuHasSSE cpuid then s
            else if \<not> CheckCpuHasFXSAVEAndFXRSTOR cpuid then s
            else
              (let s = s\<lparr>f_cr4 := f_cr4 s OR 0x600, f_mxcsr := 0x1F80\<rparr>
               in if \<not> CheckCpuHasXSAVE cpuid then s
                  else
                    (let s = s\<lparr>f_cr4 := f_cr4 s OR 0x40000\<rparr>
                     in if \<not> CheckCpuHasAVX cpuid then s
                        else s\<lparr>f_xcr0 := f_xcr0 s OR 0x7\<rparr>))))"

subsection \<open>System calls\<close>

definition high_low :: "u32 \<Rightarrow> u32 \<Rightarrow> u64" where
  "high_low hi lo = push_bit 32 (ucast hi) OR ucast lo"

definition EnableSyscallExtension_asm :: "u64 \<Rightarrow> u64 \<Rightarrow> u16 \<Rightarrow> u16 \<Rightarrow> features \<Rightarrow> features" where
  "EnableSyscallExtension_asm handler64 handlerIgnore cx dx s =
     (let r8d = push_bit 16 (ucast dx) OR ucast cx
      in s\<lparr>f_efer := f_efer s OR 1,
          f_star := high_low r8d (ucast (f_star s)),
          f_lstar := high_low (ucast (drop_bit 32 handler64)) (ucast handler64),
          f_cstar := high_low (ucast (drop_bit 32 handlerIgnore)) (ucast handlerIgnore),
          f_fmask := high_low (ucast (drop_bit 32 (f_fmask s))) 0x12BFD5\<rparr>)"

subsection \<open>What the routines set\<close>

text \<open>A processor whose leaves 0, 1 and 0x80000001 have no subleaves, as documented.\<close>

definition no_subleaves :: "(u32 \<Rightarrow> u32 \<Rightarrow> regs) \<Rightarrow> bool" where
  "no_subleaves cpuid \<longleftrightarrow> (\<forall>l \<in> {0, 1, 0x80000001}. \<forall>c. cpuid l c = cpuid l 0)"

text \<open>The registers afterwards: a bit is on if it was on before or its feature is there.\<close>

definition set_if :: "(nat \<times> bool) list \<Rightarrow> u64 \<Rightarrow> u64" where
  "set_if fs v = fold (\<lambda>(n, c) v. if c then set_bit n v else v) fs v"

lemma flag_zero:
  "((x :: u32) AND 0x80 = 0) = (\<not> bit x 7)" "(x AND 0x100000 = 0) = (\<not> bit x 20)" "(x AND 0x20000 = 0) = (\<not> bit x 17)"
  "(x AND 0x8 = 0) = (\<not> bit x 3)" "(x AND 0x2000 = 0) = (\<not> bit x 13)" "(x AND 0x10000 = 0) = (\<not> bit x 16)"
proof -
  have "(x AND push_bit n 1 = 0) = (\<not> bit x n)" if "n < 32" for n
    using that by (auto simp: bit_eq_iff [where 'a = "32 word"] bit_simps)
  from this [of 7] this [of 20] this [of 17] this [of 3] this [of 13] this [of 16]
  show "(x AND 0x80 = 0) = (\<not> bit x 7)" "(x AND 0x100000 = 0) = (\<not> bit x 20)" "(x AND 0x20000 = 0) = (\<not> bit x 17)"
    "(x AND 0x8 = 0) = (\<not> bit x 3)" "(x AND 0x2000 = 0) = (\<not> bit x 13)" "(x AND 0x10000 = 0) = (\<not> bit x 16)"
    by simp_all
qed

lemma or_set_bits:
  "(v :: u64) OR 0x800 = set_bit 11 v" "v OR 0x8000 = set_bit 15 v" "v OR 0x100000 = set_bit 20 v"
  "v OR 0x200000 = set_bit 21 v" "v OR 0x400000 = set_bit 22 v" "v OR 0x80 = set_bit 7 v" "v OR 0x10000 = set_bit 16 v"
  using set_bit_eq_or [of 11 v] set_bit_eq_or [of 15 v] set_bit_eq_or [of 20 v] set_bit_eq_or [of 21 v]
    set_bit_eq_or [of 22 v] set_bit_eq_or [of 7 v] set_bit_eq_or [of 16 v] by simp_all

lemma sless_leaf:
  assumes "7 \<le> unat (m :: u32)" "unat m < 2 ^ 31"
  shows "\<not> m <s 0x80000001" "\<not> m <s 7" "\<not> m <s 1" "7 \<le>s m"
proof -
  have "sint m = int (unat m)" using assms(2) by (intro sint_small) simp
  hence "7 \<le> sint m" using assms(1) by linarith
  thus "\<not> m <s 0x80000001" "\<not> m <s 7" "\<not> m <s 1" "7 \<le>s m"
    by (simp_all add: word_sless_alt word_sle_eq)
qed

text \<open>
  The extended leaf is read whatever the processor reports: the highest basic leaf is compared,
  as a signed number, with the number of the extended leaf, which is negative.
\<close>

lemma EnableMemoryProtection_sets:
  assumes "no_subleaves cpuid" "7 \<le> unat (eax (cpuid 0 0))" "unat (eax (cpuid 0 0)) < 2 ^ 31"
  shows "EnableMemoryProtectionCpuFeatures_asm cpuid rcx s = s\<lparr>
    f_cr0 := set_bit 16 (f_cr0 s),
    f_efer := set_if [(11, bit (edx (cpuid 0x80000001 0)) 20), (15, bit (ecx (cpuid 0x80000001 0)) 17)] (f_efer s),
    f_cr4 := set_if [(20, bit (ebx (cpuid 7 0)) 7), (21, bit (ebx (cpuid 7 0)) 20), (22, bit (ecx (cpuid 7 0)) 3),
      (7, bit (edx (cpuid 1 0)) 13)] (f_cr4 s)\<rparr>"
proof -
  have "cpuid 0 rcx = cpuid 0 0" "cpuid 1 rcx = cpuid 1 0"
    "cpuid 0x80000001 (ecx (cpuid 0 0)) = cpuid 0x80000001 0" "cpuid 0x80000001 0xC0000080 = cpuid 0x80000001 0"
    using assms(1) unfolding no_subleaves_def by blast+
  thus ?thesis using sless_leaf [OF assms(2,3)]
    by (cases "bit (edx (cpuid 0x80000001 0)) 20"; cases "bit (ecx (cpuid 0x80000001 0)) 17";
        cases "bit (ebx (cpuid 7 0)) 7"; cases "bit (ebx (cpuid 7 0)) 20"; cases "bit (ecx (cpuid 7 0)) 3";
        cases "bit (edx (cpuid 1 0)) 13";
        simp add: EnableMemoryProtectionCpuFeatures_asm_def Let_def flag_zero or_set_bits set_if_def)
qed

lemma Has5LevelPagingSupport_check:
  assumes "no_subleaves cpuid" "unat (eax (cpuid 0 0)) < 2 ^ 31"
  shows "Has5LevelPagingSupport_asm cpuid rcx = (if CheckCpu5LevelPagingSupport cpuid then 1 else 0)"
proof -
  have c: "cpuid 0 rcx = cpuid 0 0" using assms(1) unfolding no_subleaves_def by blast
  have "sint (eax (cpuid 0 0)) = int (unat (eax (cpuid 0 0)))" using assms(2) by (intro sint_small) simp
  hence "7 \<le> sint (eax (cpuid 0 0)) \<longleftrightarrow> 7 \<le> unat (eax (cpuid 0 0))" by linarith
  hence "7 \<le>s eax (cpuid 0 0) \<longleftrightarrow> \<not> eax (cpuid 0 0) < 7"
    by (simp add: word_sle_eq word_less_nat_alt not_less)
  moreover have "x AND push_bit 16 1 = push_bit 16 1 \<longleftrightarrow> bit x 16" for x :: u32
    by (simp only: flag_set) simp
  ultimately show ?thesis unfolding Has5LevelPagingSupport_asm_def c
    by (simp only: CheckCpu5LevelPagingSupport_def GetCpuidEAX7_ECX0_def Cpuid_def zero_regs_def Let_def flag_zero)
      simp
qed

text \<open>
  Floating point: SSE is enabled exactly with the FPU, SSE and FXSAVE, AVX exactly with XSAVE and
  AVX in addition, and never without the bits of CR4 that it needs.
\<close>

lemma InitFloatingPoint_sets:
  assumes "CheckCpuHasFPU cpuid" "CheckCpuHasSSE cpuid" "CheckCpuHasFXSAVEAndFXRSTOR cpuid"
    and s': "s' = InitFloatingPointOperations_asm cpuid s"
  shows "f_fpu_initialised s'" "bit (f_cr0 s') 1" "\<not> bit (f_cr0 s') 2" "\<not> bit (f_cr0 s') 3"
    "bit (f_cr4 s') 9" "bit (f_cr4 s') 10" "f_mxcsr s' = 0x1F80"
    "CheckCpuHasXSAVE cpuid \<Longrightarrow> bit (f_cr4 s') 18"
    "f_xcr0 s' \<noteq> f_xcr0 s \<Longrightarrow> bit (f_cr4 s') 18 \<and> CheckCpuHasAVX cpuid"
  using assms(1-3)
  by (cases "CheckCpuHasXSAVE cpuid"; cases "CheckCpuHasAVX cpuid";
      simp add: s' InitFloatingPointOperations_asm_def Let_def bit_simps)+

end
