(* ===== verification/Spec2Isabelle.thy ===== *)
theory Spec2Isabelle
  imports UefiBoot FontOutput SwitchAssembly InterruptStubs CpuSetupAssembly
begin

text \<open>
  DexprOS is a kernel for x86-64 computers with UEFI firmware. Its boot program
  \<open>efi_main\<close> (src/src/Boot/x86_64-efi/UefiBoot.c) asks the firmware for a frame buffer,
  leaves the firmware's boot services, switches to page tables of its own, sets up the
  management of the physical memory, the processor's tables and the devices, and ends in a
  shell that is driven by keyboard interrupts. This development models the C code of the
  boot program and the kernel and proves what each part promises, up to the boot as a whole.

  Components. The theories follow the source files; each opens with a text that says how its
  state and operations correspond to the code. Definitions keep the names of the functions
  (without the prefix \<open>DexprOS\<close>), records those of the structs' fields.

  \<^item> Machine: the words, the byte-addressed memory and the lemmas on them that all share.
  \<^item> KString (Kernel/kstdlib/string.c): \<open>memset\<close>, \<open>memcpy\<close>, \<open>memmove\<close>, \<open>memcmp\<close>, each phase
    and loop; what they do to memory, and where \<open>memmove\<close> goes wrong.
  \<^item> MemMap, PhysMemMap (Kernel/Memory/InitialMemMap.c, PhysicalMemMapGen.c): the entries of
    an initial memory map, their combination to ranges, and the map of these ranges.
  \<^item> PhysMemTree with -Create, -Mark, -Blocks and -Accel (PhysicalMemTreeGen.c): the tree of
    free pages. The size pass and the creation agree; after marking, each block tells the
    share of free pages below it. PhysMemStructs (PhysicalMemStructsGen.c): tree and map in
    one buffer, whose own pages are taken.
  \<^item> EfiMemMap (Kernel/efi/InitialMemMapGenEfi.c): the initial memory map from the firmware's
    descriptors in any order, and the region it is put in.
  \<^item> PageMap with -Tables, -Levels, -Setup and -Size (InitialPageMapSetup.c): the page tables;
    the processor's walk translates exactly the wanted pages, each to itself, and the sizes
    that are computed before suffice.
  \<^item> EndBootPhase, BootPageMapBuffer, BootPageMapSwitch, BootFirmware (EndBootPhase.c): the
    retrieval of the memory map, the buffer of the tables and its parts, leaving the boot
    services, the switch for each combination of paging modes, and all of it with a firmware
    that behaves as the UEFI specification says.
  \<^item> CpuTables, CpuFeatures, Interrupts (Kernel/x86_64, Drivers/PICDriver.c, KernelPanic.c):
    descriptor tables, \<open>cpuid\<close> checks, gates, handlers, interrupt controllers and panics,
    decoded the way the processor reads them. InterruptControllers: the two 8259 controllers
    under the driver's commands, so that sequences of interrupts can be followed from their
    lines through the handlers to the acknowledgement.
  \<^item> PS2Controller, PS2ControllerInit (Drivers/PS2ControllerDriver.c): the initialisation, on
    ports that behave like a documented controller.
  \<^item> KeyTables, PS2Keyboard with -Queue, -Keys and -Typing (Drivers/Keyboard): scan codes, the
    command queue, key states, modifiers and characters.
  \<^item> GraphicsDriver, Font, CpuGraphics with -Pixels, -Blit, -Screen, -Canvas, -Calls and
    -Driver (Drivers/Graphics, Kernel/BuiltInBitmapFont.c): the pixel loops of the driver,
    and that the frame buffer shows what the calls paint.
  \<^item> Shell with -Ring, -Display, -Flush, -Commands, -Events and -Keyboard (Shell.c): the ring
    buffer of text, its layout and drawing, the command line, and the way of a key from its
    interrupt to the command line. ErrorDisplay (Kernel/ErrorDisplay.c): the panic's screen, as
    the function that the panic calls.
  \<^item> UefiMemory, UefiConsole, UefiBoot (UefiBoot.c): the set-up of the memory management, the
    report on the shell, and \<open>efi_main\<close> as the composition of all components, in the order of
    the code: a boot that the firmware refuses, one that finds no room, or the kernel up.

  \<^item> X86Asm, SwitchAssembly (Boot/x86_64-efi/InitialPageMapSwitch.S), InterruptStubs
    (Kernel/x86_64/Interrupts.S), CpuSetupAssembly (the feature bits): the assembly, the first
    two instruction by instruction over a model of the processor's registers, modes and
    faults. The switch to 5 levels implements the step of BootPageMapSwitch, and interrupts
    give the interrupted code its registers back.
  \<^item> FontPacker, FontOutput (util/util-font-gen/src/DexprBitmapFontGenerator.c): the host
    program that wrote the font table: packing the glyphs in one image, the C file, which
    reads back as the data, and that the kernel's table is what it computes.

  Interaction. Components call each other as the code does: the definition of a caller uses
  the callee's. Where the code relies on a contract only, the contract is a locale,
  interpreted on the model: \<open>memset_contract\<close> (the kernel's \<open>memset\<close>), \<open>phys_range_iter\<close> and
  \<open>item_iter\<close> (iteration with a callback over ranges and over firmware regions),
  \<open>level_table\<close> (preparing a page table of one level, for all four), \<open>command_sink\<close> (the
  keyboard's command queue), \<open>bounded_text\<close> (the ring as log and as shown text) and
  \<open>graphics_driver\<close> (the calls of a driver). Effects on hardware that C reaches through
  assembly are lists of events or calls in their order; \<open>cpu_step\<close> and \<open>controller_ok\<close> say
  what they do.

  Conventions. Machine integers are words of their width and wrap around as in C. An error is
  a value: a boolean, a status, or the left of a sum. \<open>None\<close> of an operation is a loop that
  does not end or an access outside of an array, so a theorem that a result is \<open>Some\<close> says
  that the operation returns. Loops that may not end are \<open>partial_function\<close>s, and no
  definition has fuel. Hypotheses bound sizes far above what a machine has: memory maps
  of less than 2 to the 50 descriptors, structures of less than 2 to the 59 bytes, and
  addresses in the lower half of the address space.

  What the firmware, the processor and the devices do is a parameter: records of services
  and ports over an abstract state (\<open>boot_services\<close>, \<open>uefi\<close>, \<open>ports\<close>), the function \<open>cpuid\<close>, and
  what memory holds before it is written. Theorems that rely on their documented behaviour
  state it as a predicate (\<open>firmware_ok\<close>, \<open>services_ok\<close>, \<open>controller_ok\<close>,
  \<open>controller_ready\<close>), and their witnesses instantiate it. The firmware's laws speak of what
  it reports and has given away (\<open>firmware_view\<close>): every service may fail, buffers are taken
  back only if they were given, and the boot services end only with the key of the current
  memory map. Two assumptions go beyond the specification and are named: the firmware
  changes its memory map by itself only finitely often (\<open>vw_changes\<close>), without which the
  code's loop need not end, and there are pages for the page tables (\<open>enough_pages\<close>), whose
  lack the code does not notice.

  Not modelled:

  \<^item> the loading of the descriptor tables, the halt loop and the system call stubs, which are
    assembly that the C code sees as calls, and the registers XMM0 to XMM15;
  \<^item> the double arithmetic of a blended color channel, which is the parameter \<open>blend\<close>, and the
    pixels of the font's image, which are bytes of memory;
  \<^item> the interleaving of the keyboard's interrupts with code other than the boot report: the
    handlers run with interrupts disabled, and the shell's calls are not preempted;
  \<^item> FreeType, which the font generator is built on, the generator's output in util (the same
    file as the kernel's), the test programs, and the code of gnu-efi;
  \<^item> \<open>DexprOS_DestroyShell\<close> and \<open>DexprOS_DestroyCpuGraphicsDriver\<close>, which are never called and
    have no effect.
\<close>

end
